(* ===== verification/Prelude.thy ===== *)
theory Prelude
  imports Main "HOL-Library.Char_ord" "HOL-Library.List_Lexorder"
begin

text \<open>
  The vocabulary every component shares: SQL tables as lists of rows, the character
  classes of the source's regular expressions, decimal numbers as JavaScript prints and
  reads them, and the hint collections the component proofs use.

  Conventions of the development.
  \<^item> A JavaScript string is a \<^typ>\<open>string\<close> (a list of 8-bit code units).
  \<^item> A time is an \<^typ>\<open>int\<close>: the milliseconds since the epoch. The source stores times
    as the ISO text that \<^verbatim>\<open>toISOString\<close> prints, which stands for the same number. A time
    that a caller supplies as text is what \<^verbatim>\<open>Date.parse\<close> makes of it: an
    \<^typ>\<open>int option\<close>, with \<^term>\<open>None\<close> for \<^verbatim>\<open>NaN\<close>.
  \<^item> A method that can change state and throw returns the pair of the new state and a sum:
    \<^term>\<open>Inl\<close> the exception, \<^term>\<open>Inr\<close> the result. The state is returned on the error
    path too, because several methods change it before they throw.
  \<^item> Values that \<^verbatim>\<open>crypto.randomUUID\<close>, \<^verbatim>\<open>crypto.randomBytes\<close> and \<^verbatim>\<open>Date.now\<close> produce are
    arguments of the definitions that use them.
\<close>

named_theorems table_simps \<open>equations for lookups in updated tables\<close>
named_theorems regex_simps \<open>unfolding of the recognisers, for evaluation\<close>
named_theorems store_defs \<open>the operations of the session store\<close>
named_theorems auth_defs \<open>the operations of the auth store\<close>

type_synonym time = int

section \<open>Tables\<close>

text \<open>
  A table is the list of its rows. \<open>by_key k x rows\<close> is
  \<^verbatim>\<open>SELECT * FROM rows WHERE k = x\<close> read with \<^verbatim>\<open>.get()\<close>; \<open>update_where\<close> is
  \<^verbatim>\<open>UPDATE ... WHERE\<close>, \<open>delete_where\<close> is \<^verbatim>\<open>DELETE ... WHERE\<close> and \<open>changes\<close> the
  number of rows a statement touches.
\<close>

definition by_key :: "('r \<Rightarrow> 'k) \<Rightarrow> 'k \<Rightarrow> 'r list \<Rightarrow> 'r option" where
  "by_key k x rows = find (\<lambda>r. k r = x) rows"

definition update_where :: "('r \<Rightarrow> bool) \<Rightarrow> ('r \<Rightarrow> 'r) \<Rightarrow> 'r list \<Rightarrow> 'r list" where
  "update_where P f rows = map (\<lambda>r. if P r then f r else r) rows"

definition delete_where :: "('r \<Rightarrow> bool) \<Rightarrow> 'r list \<Rightarrow> 'r list" where
  "delete_where P rows = filter (\<lambda>r. \<not> P r) rows"

definition changes :: "('r \<Rightarrow> bool) \<Rightarrow> 'r list \<Rightarrow> nat" where
  "changes P rows = length (filter P rows)"

lemma by_key_Nil [simp]: "by_key k x [] = None"
  by (simp add: by_key_def)

lemma by_key_Cons [simp]: "by_key k x (r # rs) = (if k r = x then Some r else by_key k x rs)"
  by (simp add: by_key_def)

lemma by_key_append [table_simps]:
  "by_key k x (rs @ ss) = (case by_key k x rs of None \<Rightarrow> by_key k x ss | Some r \<Rightarrow> Some r)"
  by (induction rs) auto

lemma by_key_SomeD:
  assumes "by_key k x rows = Some r"
  shows "r \<in> set rows" and "k r = x"
  using assms by (induction rows) (auto split: if_splits)

lemma by_key_Some_imp: "by_key k x rows = Some r \<Longrightarrow> r \<in> set rows \<and> k r = x"
  using by_key_SomeD by metis

lemma by_key_None_iff: "by_key k x rows = None \<longleftrightarrow> x \<notin> k ` set rows"
  by (induction rows) auto

lemma by_key_member:
  "distinct (map k rows) \<Longrightarrow> r \<in> set rows \<Longrightarrow> by_key k (k r) rows = Some r"
  by (induction rows) (auto simp: image_iff)

lemma key_inj:
  "distinct (map k rows) \<Longrightarrow> r \<in> set rows \<Longrightarrow> s \<in> set rows \<Longrightarrow> k r = k s \<Longrightarrow> r = s"
  by (metis by_key_member option.inject)

lemma by_key_eq_Some_iff:
  "distinct (map k rows) \<Longrightarrow> by_key k x rows = Some r \<longleftrightarrow> r \<in> set rows \<and> k r = x"
  by (rule iffI, rule by_key_Some_imp, assumption, elim conjE, drule (1) by_key_member, simp)

lemma by_key_update_where [table_simps]:
  assumes "\<And>r. k (f r) = k r"
  shows "by_key k x (update_where P f rows) =
    map_option (\<lambda>r. if P r then f r else r) (by_key k x rows)"
  using assms by (induction rows) (auto simp: update_where_def)

lemma by_key_delete_where_other [table_simps]:
  "y \<noteq> x \<Longrightarrow> by_key k x (delete_where (\<lambda>r. k r = y) rows) = by_key k x rows"
  by (induction rows) (auto simp: delete_where_def)

lemma by_key_delete_where_same [table_simps]:
  "by_key k x (delete_where (\<lambda>r. k r = x) rows) = None"
  by (induction rows) (auto simp: delete_where_def)

lemma update_where_Nil [simp]: "update_where P f [] = []"
  by (simp add: update_where_def)

lemma update_where_Cons [simp]:
  "update_where P f (r # rs) = (if P r then f r else r) # update_where P f rs"
  by (simp add: update_where_def)

lemma length_update_where [simp]: "length (update_where P f rows) = length rows"
  by (simp add: update_where_def)

lemma map_update_where [simp]:
  "(\<And>r. k (f r) = k r) \<Longrightarrow> map k (update_where P f rows) = map k rows"
  by (auto simp: update_where_def)

lemma set_update_where:
  "set (update_where P f rows) = (\<lambda>r. if P r then f r else r) ` set rows"
  by (simp add: update_where_def)

lemma in_update_whereE:
  assumes "r \<in> set (update_where P f rows)"
  obtains r0 where "r0 \<in> set rows" "r = (if P r0 then f r0 else r0)"
  using assms by (auto simp: set_update_where)

lemma image_update_where [simp]:
  "(\<And>r. k (f r) = k r) \<Longrightarrow> k ` set (update_where P f rows) = k ` set rows"
  by (induction rows) auto

lemma ball_update_where [table_simps]:
  "(\<forall>r \<in> set (update_where P f rows). Q r) \<longleftrightarrow>
    (\<forall>r \<in> set rows. if P r then Q (f r) else Q r)"
  by (induction rows) auto

lemma bex_update_where [table_simps]:
  "(\<exists>r \<in> set (update_where P f rows). Q r) \<longleftrightarrow>
    (\<exists>r \<in> set rows. if P r then Q (f r) else Q r)"
  by (induction rows) auto

lemma update_where_None: "(\<And>r. r \<in> set rows \<Longrightarrow> \<not> P r) \<Longrightarrow> update_where P f rows = rows"
  by (induction rows) auto

lemma set_delete_where [simp]: "set (delete_where P rows) = {r \<in> set rows. \<not> P r}"
  by (auto simp: delete_where_def)

lemma distinct_map_delete_where [simp]:
  "distinct (map k rows) \<Longrightarrow> distinct (map k (delete_where P rows))"
  unfolding delete_where_def by (rule distinct_map_filter)

lemma changes_pos: "0 < changes P rows \<longleftrightarrow> (\<exists>r \<in> set rows. P r)"
  by (auto simp: changes_def filter_empty_conv)

lemma changes_one:
  "distinct (map k rows) \<Longrightarrow> r \<in> set rows \<Longrightarrow> P r \<Longrightarrow> (\<And>s. P s \<Longrightarrow> k s = k r) \<Longrightarrow>
    changes P rows = 1"
proof (induction rows)
  case Nil
  then show ?case by simp
next
  case (Cons a rows)
  show ?case
  proof (cases "P a")
    case True
    then have "k a = k r" by (rule Cons.prems(4))
    have "\<not> P s" if "s \<in> set rows" for s
    proof
      assume "P s"
      then have "k s = k r" by (rule Cons.prems(4))
      with \<open>k a = k r\<close> that Cons.prems(1) show False by (auto simp: image_iff)
    qed
    then have "filter P rows = []" by (simp add: filter_empty_conv)
    then show ?thesis using True by (simp add: changes_def)
  next
    case False
    with Cons.prems(2,3) have "r \<in> set rows" by auto
    then have "changes P rows = 1"
      using Cons.IH [OF _ _ Cons.prems(3,4)] Cons.prems(1) by simp
    with False show ?thesis by (simp add: changes_def)
  qed
qed

text \<open>
  \<open>grows k R rs rs'\<close>: every row of the old table is still there under its key, and is
  related to its later version by \<open>R\<close>. Statements about runs ("never again") are instances.
\<close>

definition grows :: "('r \<Rightarrow> 'k) \<Rightarrow> ('r \<Rightarrow> 'r \<Rightarrow> bool) \<Rightarrow> 'r list \<Rightarrow> 'r list \<Rightarrow> bool" where
  "grows k R rs rs' \<longleftrightarrow> (\<forall>x r. by_key k x rs = Some r \<longrightarrow> (\<exists>r'. by_key k x rs' = Some r' \<and> R r r'))"

lemma growsD: "grows k R rs rs' \<Longrightarrow> by_key k x rs = Some r \<Longrightarrow> \<exists>r'. by_key k x rs' = Some r' \<and> R r r'"
  by (simp add: grows_def)

lemma grows_refl [intro]: "reflp R \<Longrightarrow> grows k R rs rs"
  by (auto simp: grows_def reflp_def)

lemma grows_trans: "transp R \<Longrightarrow> grows k R rs ss \<Longrightarrow> grows k R ss ts \<Longrightarrow> grows k R rs ts"
  unfolding grows_def by (meson transpD)

lemma grows_append [intro]: "reflp R \<Longrightarrow> grows k R rs (rs @ ss)"
  by (auto simp: grows_def by_key_append reflp_def)

lemma grows_update_where [intro]:
  assumes "reflp R" "\<And>r. k (f r) = k r" "\<And>r. P r \<Longrightarrow> R r (f r)"
  shows "grows k R rs (update_where P f rs)"
  using assms by (auto simp: grows_def by_key_update_where reflp_def)

lemma find_SomeD:
  assumes "find P rows = Some r"
  shows "r \<in> set rows" and "P r"
  using assms by (induction rows) (auto split: if_splits)

lemma find_None_iff': "find P rows = None \<longleftrightarrow> (\<forall>r \<in> set rows. \<not> P r)"
  by (induction rows) auto

section \<open>Character classes and recognisers\<close>

text \<open>
  The source validates its identifiers with anchored regular expressions of the shape
  \<^verbatim>\<open>/^[class]{lo,hi}$/\<close>. Without the \<^verbatim>\<open>m\<close> flag \<^verbatim>\<open>$\<close> matches at the end of the input
  only, so the test is a bound on the length and a test of every character.
\<close>

definition is_lower :: "char \<Rightarrow> bool" where
  "is_lower c \<longleftrightarrow> c \<in> set ''abcdefghijklmnopqrstuvwxyz''"

definition is_upper :: "char \<Rightarrow> bool" where
  "is_upper c \<longleftrightarrow> c \<in> set ''ABCDEFGHIJKLMNOPQRSTUVWXYZ''"

definition is_digit :: "char \<Rightarrow> bool" where
  "is_digit c \<longleftrightarrow> c \<in> set ''0123456789''"

definition is_alnum :: "char \<Rightarrow> bool" where
  "is_alnum c \<longleftrightarrow> is_lower c \<or> is_upper c \<or> is_digit c"

definition in_class :: "(char \<Rightarrow> bool) \<Rightarrow> nat \<Rightarrow> nat \<Rightarrow> string \<Rightarrow> bool" where
  "in_class p lo hi s \<longleftrightarrow> lo \<le> length s \<and> length s \<le> hi \<and> list_all p s"

text \<open>\<^verbatim>\<open>[a-zA-Z0-9_-]\<close>, the class of most identifiers.\<close>

definition id_char :: "char \<Rightarrow> bool" where
  "id_char c \<longleftrightarrow> is_alnum c \<or> c \<in> set ''_-''"

definition all_digits :: "string \<Rightarrow> bool" where
  "all_digits s \<longleftrightarrow> s \<noteq> [] \<and> list_all is_digit s"

lemmas class_defs [regex_simps] =
  is_lower_def is_upper_def is_digit_def is_alnum_def in_class_def id_char_def all_digits_def

lemma in_class_nonempty: "in_class p (Suc n) hi s \<Longrightarrow> s \<noteq> []"
  by (auto simp: in_class_def)

lemma in_class_mem: "in_class p lo hi s \<Longrightarrow> c \<in> set s \<Longrightarrow> p c"
  by (auto simp: in_class_def list_all_iff)

definition ascii_space :: "char \<Rightarrow> bool" where
  "ascii_space c \<longleftrightarrow> c \<in> set [CHR '' '', CHR 0x09, CHR 0x0A, CHR 0x0B, CHR 0x0C, CHR 0x0D]"

text \<open>\<^verbatim>\<open>trim\<close>, for the white space of ASCII.\<close>

definition trim_text :: "string \<Rightarrow> string" where
  "trim_text s = rev (dropWhile ascii_space (rev (dropWhile ascii_space s)))"

section \<open>Splitting\<close>

text \<open>JavaScript's \<^verbatim>\<open>s.split(c)\<close> for a one-character separator.\<close>

fun split_on :: "'a \<Rightarrow> 'a list \<Rightarrow> 'a list list" where
  "split_on c [] = [[]]"
| "split_on c (x # xs) =
     (if x = c then [] # split_on c xs
      else (case split_on c xs of [] \<Rightarrow> [[x]] | p # ps \<Rightarrow> (x # p) # ps))"

lemma split_on_nonempty [simp]: "split_on c xs \<noteq> []"
  by (induction xs) (auto split: list.splits)

lemma split_on_no_sep: "c \<notin> set xs \<Longrightarrow> split_on c xs = [xs]"
  by (induction xs) auto

lemma split_on_append:
  "c \<notin> set xs \<Longrightarrow> split_on c (xs @ c # ys) = xs # split_on c ys"
  by (induction xs) (auto split: list.splits)

lemma split_on_parts: "p \<in> set (split_on c xs) \<Longrightarrow> c \<notin> set p"
proof (induction xs arbitrary: p)
  case Nil
  then show ?case by simp
next
  case (Cons x xs)
  then show ?case by (cases "split_on c xs") (auto split: if_splits)
qed

fun join_with :: "'a list \<Rightarrow> 'a list list \<Rightarrow> 'a list" where
  "join_with sep [] = []"
| "join_with sep [x] = x"
| "join_with sep (x # y # zs) = x @ sep @ join_with sep (y # zs)"

lemma split_on_join:
  "xs \<noteq> [] \<Longrightarrow> (\<And>x. x \<in> set xs \<Longrightarrow> c \<notin> set x) \<Longrightarrow> split_on c (join_with [c] xs) = xs"
  by (induction "[c]" xs rule: join_with.induct) (auto simp: split_on_no_sep split_on_append)

lemma join_split_on: "join_with [c] (split_on c xs) = xs"
proof (induction xs)
  case Nil
  then show ?case by simp
next
  case (Cons x xs)
  obtain p ps where s: "split_on c xs = p # ps" by (cases "split_on c xs") auto
  show ?case
  proof (cases "x = c")
    case True
    with Cons s show ?thesis by simp
  next
    case False
    with Cons s show ?thesis by (cases ps) auto
  qed
qed

section \<open>Decimal numbers\<close>

text \<open>
  \<open>show_nat\<close> is \<^verbatim>\<open>String(n)\<close> for a non-negative integer, \<open>read_nat\<close> is \<^verbatim>\<open>Number(s)\<close>
  for a string of digits. \<^verbatim>\<open>Number\<close> rounds to a double: a value of at most
  \<open>MAX_SAFE_INTEGER\<close> is exact, a larger one stays larger, so
  \<^verbatim>\<open>Number.isSafeInteger(Number(s))\<close> is the comparison with \<open>MAX_SAFE_INTEGER\<close>.
\<close>

definition MAX_SAFE_INTEGER :: nat where
  "MAX_SAFE_INTEGER = 2 ^ 53 - 1"

definition digit_char :: "nat \<Rightarrow> char" where
  "digit_char d = ''0123456789'' ! d"

definition digit_val :: "char \<Rightarrow> nat" where
  "digit_val c = of_char c - 48"

fun show_nat :: "nat \<Rightarrow> string" where
  "show_nat n = (if n < 10 then [digit_char n] else show_nat (n div 10) @ [digit_char (n mod 10)])"

declare show_nat.simps [simp del]

definition read_nat :: "string \<Rightarrow> nat" where
  "read_nat s = foldl (\<lambda>acc c. 10 * acc + digit_val c) 0 s"

lemma less_10_cases:
  "(d::nat) < 10 \<Longrightarrow> d = 0 \<or> d = 1 \<or> d = 2 \<or> d = 3 \<or> d = 4 \<or> d = 5 \<or> d = 6 \<or> d = 7 \<or> d = 8 \<or> d = 9"
  by arith

lemma digit_val_char [simp]: "d < 10 \<Longrightarrow> digit_val (digit_char d) = d"
  by (drule less_10_cases) (auto simp: digit_val_def digit_char_def)

lemma is_digit_char [simp]: "d < 10 \<Longrightarrow> is_digit (digit_char d)"
  by (drule less_10_cases) (auto simp: is_digit_def digit_char_def)

lemma read_nat_snoc [simp]: "read_nat (s @ [c]) = 10 * read_nat s + digit_val c"
  by (simp add: read_nat_def)

lemma read_show_nat [simp]: "read_nat (show_nat n) = n"
proof (induction n rule: show_nat.induct)
  case (1 n)
  show ?case
  proof (cases "n < 10")
    case True
    then show ?thesis by (simp add: show_nat.simps [of n] read_nat_def)
  next
    case False
    with 1 have "read_nat (show_nat (n div 10)) = n div 10" by simp
    with False show ?thesis by (simp add: show_nat.simps [of n])
  qed
qed

lemma all_digits_show_nat [simp]: "all_digits (show_nat n)"
proof (induction n rule: show_nat.induct)
  case (1 n)
  show ?case
  proof (cases "n < 10")
    case True
    then show ?thesis by (simp add: show_nat.simps [of n] all_digits_def)
  next
    case False
    with 1 have "all_digits (show_nat (n div 10))" by simp
    with False show ?thesis by (simp add: show_nat.simps [of n] all_digits_def)
  qed
qed

lemma all_digits_no_colon: "all_digits s \<Longrightarrow> CHR '':'' \<notin> set s"
proof
  assume "all_digits s" "CHR '':'' \<in> set s"
  then have "is_digit CHR '':''" by (simp add: all_digits_def list_all_iff)
  then show False by (simp add: is_digit_def)
qed

lemma show_nat_no_colon [simp]: "CHR '':'' \<notin> set (show_nat n)"
  by (rule all_digits_no_colon) simp

lemma show_nat_digit: "n < 10 \<Longrightarrow> show_nat n = [digit_char n]"
  by (simp add: show_nat.simps [of n])

lemma show_nat_step: "\<not> n < 10 \<Longrightarrow> show_nat n = show_nat (n div 10) @ [digit_char (n mod 10)]"
  by (simp add: show_nat.simps [of n])

lemma show_nat_nonempty [simp]: "show_nat n \<noteq> []"
  by (cases "n < 10") (simp_all add: show_nat_digit show_nat_step)

lemma digit_char_zero: "d < 10 \<Longrightarrow> digit_char d = CHR ''0'' \<longleftrightarrow> d = 0"
  by (drule less_10_cases) (auto simp: digit_char_def)

lemma digit_char_val [simp]: "is_digit c \<Longrightarrow> digit_char (digit_val c) = c"
  by (auto simp: is_digit_def digit_char_def digit_val_def)

lemma digit_val_less: "is_digit c \<Longrightarrow> digit_val c < 10"
  by (auto simp: is_digit_def digit_val_def)

lemma hd_show_nat: "0 < n \<Longrightarrow> hd (show_nat n) \<noteq> CHR ''0''"
proof (induction n rule: show_nat.induct)
  case (1 n)
  show ?case
  proof (cases "n < 10")
    case True
    with 1 show ?thesis by (simp add: show_nat_digit digit_char_zero)
  next
    case False
    with 1 have "hd (show_nat (n div 10)) \<noteq> CHR ''0''" by simp
    with False show ?thesis by (simp add: show_nat_step)
  qed
qed

text \<open>A digit string without a leading zero is what \<open>show_nat\<close> prints for its value.\<close>

lemma read_nat_pos: "s \<noteq> [] \<Longrightarrow> all_digits s \<Longrightarrow> hd s \<noteq> CHR ''0'' \<Longrightarrow> 0 < read_nat s"
proof (induction s rule: rev_induct)
  case (snoc c s)
  show ?case
  proof (cases "s = []")
    case True
    with snoc.prems have c: "is_digit c" "c \<noteq> CHR ''0''" by (simp_all add: all_digits_def)
    then have "digit_val c \<noteq> 0"
      using digit_char_val [OF c(1)] digit_char_zero [OF digit_val_less [OF c(1)]] by metis
    with True show ?thesis by (simp add: read_nat_def)
  next
    case False
    with snoc show ?thesis by (simp add: all_digits_def)
  qed
qed simp

lemma show_read_nat: "all_digits s \<Longrightarrow> s = ''0'' \<or> hd s \<noteq> CHR ''0'' \<Longrightarrow> show_nat (read_nat s) = s"
proof (induction s rule: rev_induct)
  case Nil
  then show ?case by (simp add: all_digits_def)
next
  case (snoc c s)
  have c: "is_digit c" using snoc.prems by (simp add: all_digits_def)
  show ?case
  proof (cases "s = []")
    case True
    with c show ?thesis by (simp add: show_nat_digit digit_val_less read_nat_def)
  next
    case False
    with snoc.prems have s: "all_digits s" "hd s \<noteq> CHR ''0''" by (auto simp: all_digits_def)
    then have "0 < read_nat s" using read_nat_pos False by blast
    then have "show_nat (read_nat (s @ [c])) = show_nat (read_nat s) @ [digit_char (digit_val c)]"
      using digit_val_less [OF c] by (subst show_nat_step) simp_all
    with snoc.IH s c show ?thesis by simp
  qed
qed

lemma show_nat_length: "n < 1000 \<Longrightarrow> length (show_nat n) \<le> 3"
  by (cases "n < 10"; cases "n < 100") (simp_all add: show_nat_digit show_nat_step)

lemma show_nat_last: "last (show_nat n) \<noteq> CHR 0x0A"
proof
  assume "last (show_nat n) = CHR 0x0A"
  then have "CHR 0x0A \<in> set (show_nat n)" by (metis last_in_set show_nat_nonempty)
  then have "is_digit CHR 0x0A" using all_digits_show_nat [of n] by (simp add: all_digits_def list_all_iff)
  then show False by (simp add: is_digit_def)
qed

section \<open>Exceptions and transactions\<close>

text \<open>
  \<open>attempt s x k\<close> runs a pure check \<open>x\<close> inside a method whose state is \<open>s\<close>: an
  exception leaves the state as it is, a value goes on with \<open>k\<close>.
\<close>

definition attempt :: "'s \<Rightarrow> 'e + 'a \<Rightarrow> ('a \<Rightarrow> 's \<times> ('e + 'b)) \<Rightarrow> 's \<times> ('e + 'b)" where
  "attempt s x k = (case x of Inl e \<Rightarrow> (s, Inl e) | Inr a \<Rightarrow> k a)"

lemma attempt_simps [simp]:
  "attempt s (Inl e) k = (s, Inl e)"
  "attempt s (Inr a) k = k a"
  by (simp_all add: attempt_def)

lemma attempt_split:
  "P (attempt s x k) \<longleftrightarrow> (\<forall>e. x = Inl e \<longrightarrow> P (s, Inl e)) \<and> (\<forall>a. x = Inr a \<longrightarrow> P (k a))"
  by (auto simp: attempt_def split: sum.splits)

lemma attempt_split_asm:
  "P (attempt s x k) \<longleftrightarrow>
    \<not> ((\<exists>e. x = Inl e \<and> \<not> P (s, Inl e)) \<or> (\<exists>a. x = Inr a \<and> \<not> P (k a)))"
  by (auto simp: attempt_def split: sum.splits)

lemmas attempt_splits = attempt_split attempt_split_asm

lemma attempt_eq_Inr:
  "attempt s x k = (s', Inr b) \<longleftrightarrow> (\<exists>a. x = Inr a \<and> k a = (s', Inr b))"
  by (auto split: attempt_splits)

text \<open>
  A SQLite transaction, the shape every multi-statement method has:
  \<^verbatim>\<open>try { BEGIN IMMEDIATE; body; COMMIT } catch (error) { ROLLBACK; throw handler(error) }\<close>.
  The body throws when a statement violates a constraint; \<open>commit_ok\<close> tells whether the
  engine itself carries the statements and the commit out. On either failure the rollback
  restores the tables.
\<close>

definition transaction ::
  "bool \<Rightarrow> 'e \<Rightarrow> ('e \<Rightarrow> 'e) \<Rightarrow> ('s \<Rightarrow> 'e + 's \<times> 'a) \<Rightarrow> 's \<Rightarrow> 's \<times> ('e + 'a)" where
  "transaction commit_ok engine_error handler body s =
     (case body s of
        Inl e \<Rightarrow> (s, Inl (handler e))
      | Inr (s', a) \<Rightarrow> if commit_ok then (s', Inr a) else (s, Inl (handler engine_error)))"

lemma transaction_cases:
  obtains (rollback) e where "transaction ok err h body s = (s, Inl (h e))"
  | (commit) s' a where "ok" "body s = Inr (s', a)" "transaction ok err h body s = (s', Inr a)"
  by (cases ok; cases "body s") (auto simp: transaction_def)

lemma transaction_eq_Inr:
  "transaction ok err h body s = (s', Inr a) \<longleftrightarrow> ok \<and> body s = Inr (s', a)"
  by (auto simp: transaction_def split: sum.splits)

lemma transaction_no_commit: "fst (transaction False err h body s) = s"
  by (auto simp: transaction_def split: sum.splits)

lemma transaction_invariant:
  assumes "P s" and "\<And>s' a. body s = Inr (s', a) \<Longrightarrow> P s'"
  shows "P (fst (transaction ok err h body s))"
  using assms by (auto simp: transaction_def split: sum.splits)

end
