(* ===== verification/Identifiers.thy ===== *)
theory Identifiers
  imports Prelude
begin

text \<open>
  The identifier patterns of the auth packages and of the agent, and the parts of a parsed
  URL the source reads. Each recogniser is the anchored regular expression of the constant
  it is named after.
\<close>

definition OWNER_ID :: "string \<Rightarrow> bool" where
  "OWNER_ID = in_class id_char 1 96"

definition OPAQUE_CLIENT_ID :: "string \<Rightarrow> bool" where
  "OPAQUE_CLIENT_ID = in_class (\<lambda>c. is_alnum c \<or> c \<in> set ''._~-'') 8 256"

definition GRANT_ID :: "string \<Rightarrow> bool" where
  "GRANT_ID = in_class id_char 8 128"

definition TOKEN_FAMILY_ID :: "string \<Rightarrow> bool" where
  "TOKEN_FAMILY_ID = in_class id_char 8 128"

definition REFRESH_TOKEN :: "string \<Rightarrow> bool" where
  "REFRESH_TOKEN = in_class id_char 43 128"

text \<open>
  \<^verbatim>\<open>/^[a-z][a-z0-9._-]*:[a-z][a-z0-9._-]*$/\<close>: the colon is in neither class, so the match
  exists exactly when the string has one colon and both sides match.
\<close>

definition scope_word :: "string \<Rightarrow> bool" where
  "scope_word s = (case s of [] \<Rightarrow> False | c # cs \<Rightarrow>
     is_lower c \<and> list_all (\<lambda>d. is_lower d \<or> is_digit d \<or> d \<in> set ''._-'') cs)"

definition SCOPE :: "string \<Rightarrow> bool" where
  "SCOPE s = (case split_on CHR '':'' s of [a, b] \<Rightarrow> scope_word a \<and> scope_word b | _ \<Rightarrow> False)"

text \<open>\<^verbatim>\<open>/^[a-z][a-z0-9-]{1,63}$/\<close>\<close>

definition PROFILE :: "string \<Rightarrow> bool" where
  "PROFILE s = (case s of [] \<Rightarrow> False | c # cs \<Rightarrow>
     is_lower c \<and> in_class (\<lambda>d. is_lower d \<or> is_digit d \<or> d = CHR ''-'') 1 63 cs)"

definition SAFE_ID :: "string \<Rightarrow> bool" where
  "SAFE_ID = in_class id_char 1 80"

definition SAFE_IDEMPOTENCY_KEY :: "string \<Rightarrow> bool" where
  "SAFE_IDEMPOTENCY_KEY = in_class (\<lambda>c. is_alnum c \<or> c \<in> set ''._:-'') 1 128"

lemmas identifier_defs [regex_simps] =
  OWNER_ID_def OPAQUE_CLIENT_ID_def GRANT_ID_def TOKEN_FAMILY_ID_def REFRESH_TOKEN_def
  scope_word_def SCOPE_def PROFILE_def SAFE_ID_def SAFE_IDEMPOTENCY_KEY_def

text \<open>An id holds no colon and no slash, which keeps composed keys and paths unambiguous.\<close>

lemma id_char_not_colon: "\<not> id_char CHR '':''" and id_char_not_slash: "\<not> id_char CHR ''/''"
  and id_char_not_dot: "\<not> id_char CHR ''.''"
  by (simp_all add: id_char_def is_alnum_def is_lower_def is_upper_def is_digit_def)

lemma SAFE_ID_no_colon: "SAFE_ID s \<Longrightarrow> CHR '':'' \<notin> set s"
  using in_class_mem id_char_not_colon unfolding SAFE_ID_def by blast

lemma SAFE_ID_no_slash: "SAFE_ID s \<Longrightarrow> CHR ''/'' \<notin> set s"
  using in_class_mem id_char_not_slash unfolding SAFE_ID_def by blast

section \<open>URLs\<close>

text \<open>
  The fields of a WHATWG \<^verbatim>\<open>URL\<close> object. The parser belongs to the platform; the
  definitions that use it take it as an argument \<open>string \<Rightarrow> url option\<close>, with
  \<^term>\<open>None\<close> for the exception of the constructor.
\<close>

record url =
  protocol :: string
  username :: string
  password :: string
  hostname :: string
  port :: string
  pathname :: string
  search :: string
  url_hash :: string
  href :: string

text \<open>The test of \<open>exactHttpsUrl\<close> (auth-store.js) and \<open>canonicalHttpsUrl\<close> (oauth-spike.js).\<close>

definition plain_https :: "url \<Rightarrow> bool" where
  "plain_https u \<longleftrightarrow> protocol u = ''https:'' \<and> username u = [] \<and> password u = [] \<and>
     search u = [] \<and> url_hash u = []"

end
