(* ===== verification/AuthStore.thy ===== *)
theory AuthStore
  imports Identifiers
begin

text \<open>
  The durable authorization store, \<^verbatim>\<open>packages/auth/src/auth-store.js\<close>: the tables
  \<^verbatim>\<open>owners\<close>, \<^verbatim>\<open>oauth_clients\<close>, \<^verbatim>\<open>authorization_grants\<close>, \<^verbatim>\<open>oauth_token_families\<close> and
  \<^verbatim>\<open>oauth_refresh_tokens\<close> and every operation of the class \<^verbatim>\<open>AuthStore\<close> on them. The schema
  migration is in the theory \<^verbatim>\<open>Migration\<close>; the invariant and its preservation are in
  \<^verbatim>\<open>AuthStore_Inv\<close>.

  SHA-256 and the URL parser are the fields of \<open>auth_env\<close>. A digest is compared as text:
  the stored digests are the lower-case hexadecimal text \<^verbatim>\<open>digest("hex")\<close> prints, on which
  the byte comparison of \<^verbatim>\<open>equalDigest\<close> is equality. Of an exception the model keeps the
  code and the HTTP status, not the English message.
\<close>

section \<open>Rows and tables\<close>

text \<open>The values of the \<^verbatim>\<open>status\<close> columns; each table's \<^verbatim>\<open>CHECK\<close> admits some of them.\<close>

datatype auth_status =
  ACTIVE | DISABLED | EXPIRED | REVOKED | COMPROMISED | RESET | CONSUMED

record owner =
  own_id :: string
  own_createdAt :: time
  own_bootstrapDigest :: string
  own_bootstrapExpiresAt :: time
  own_bootstrapConsumedAt :: "time option"
  own_status :: auth_status

record client =
  cl_clientId :: string
  cl_ownerId :: string
  cl_redirectUri :: string
  cl_createdAt :: time
  cl_status :: auth_status

record grant =
  gr_id :: string
  gr_ownerId :: string
  gr_clientId :: string
  gr_resource :: string
  gr_scopes :: "string list"
  gr_executionProfile :: string
  gr_grantedAt :: time
  gr_expiresAt :: time
  gr_status :: auth_status

record family =
  tf_id :: string
  tf_grantId :: string
  tf_ownerId :: string
  tf_clientId :: string
  tf_resource :: string
  tf_createdAt :: time
  tf_expiresAt :: time
  tf_status :: auth_status
  tf_revokedAt :: "time option"
  tf_revokeReason :: "string option"
  tf_currentGeneration :: nat

record refresh_token =
  rt_digest :: string
  rt_familyId :: string
  rt_generation :: nat
  rt_issuedAt :: time
  rt_expiresAt :: time
  rt_consumedAt :: "time option"
  rt_status :: auth_status

record auth_db =
  owners :: "owner list"
  clients :: "client list"
  grants :: "grant list"
  families :: "family list"
  tokens :: "refresh_token list"

text \<open>The tables right after the schema migration.\<close>

definition empty_auth_db :: auth_db where
  "empty_auth_db = \<lparr>owners = [], clients = [], grants = [], families = [], tokens = []\<rparr>"

record auth_env =
  sha256 :: "string \<Rightarrow> string"
  parseUrl :: "string \<Rightarrow> url option"
  supportedScopes :: "string list"

section \<open>Exceptions and validation\<close>

text \<open>
  An \<^verbatim>\<open>AuthStoreError\<close> with its code and status, or an exception of SQLite that the method
  does not translate.
\<close>

datatype auth_exc = AuthStoreError (exc_code: string) (exc_status: nat) | SqliteError string

definition authError :: "string \<Rightarrow> nat \<Rightarrow> auth_exc" where
  "authError code status = AuthStoreError code status"

definition isoTime :: "time option \<Rightarrow> auth_exc + time" where
  "isoTime v = (case v of None \<Rightarrow> Inl (authError ''invalid_auth_record'' 400) | Some ms \<Rightarrow> Inr ms)"

definition hashSecret :: "auth_env \<Rightarrow> string \<Rightarrow> string" where
  "hashSecret env secret = sha256 env (''DP-013 owner bootstrap v1'' @ [CHR 0x00] @ secret)"

definition hashRefreshToken :: "auth_env \<Rightarrow> string \<Rightarrow> auth_exc + string" where
  "hashRefreshToken env token =
     (if \<not> REFRESH_TOKEN token then Inl (authError ''invalid_refresh_token'' 400)
      else Inr (sha256 env (''DP-014 refresh token v1'' @ [CHR 0x00] @ token)))"

definition equalDigest :: "string \<Rightarrow> string \<Rightarrow> bool" where
  "equalDigest actual expected \<longleftrightarrow> actual = expected"

definition exactHttpsUrl :: "auth_env \<Rightarrow> string \<Rightarrow> auth_exc + string" where
  "exactHttpsUrl env value = (case parseUrl env value of
       None \<Rightarrow> Inl (authError ''invalid_auth_record'' 400)
     | Some u \<Rightarrow> if \<not> plain_https u then Inl (authError ''invalid_auth_record'' 400)
                 else Inr (href u))"

definition clientIdentifier :: "auth_env \<Rightarrow> string \<Rightarrow> auth_exc + string" where
  "clientIdentifier env value =
     (if OPAQUE_CLIENT_ID value then Inr value
      else (case exactHttpsUrl env value of
              Inl _ \<Rightarrow> Inl (authError ''invalid_client'' 400) | Inr u \<Rightarrow> Inr u))"

text \<open>
  The \<^verbatim>\<open>catch\<close> of the transactions: an \<^verbatim>\<open>AuthStoreError\<close> is passed on by
  \<open>rotateRefreshToken\<close>, everything else is reported as a storage failure.
\<close>

definition storage_failure :: "auth_exc \<Rightarrow> auth_exc" where
  "storage_failure e = authError ''auth_storage_failure'' 503"

definition rethrow_or_storage_failure :: "auth_exc \<Rightarrow> auth_exc" where
  "rethrow_or_storage_failure e = (case e of
       AuthStoreError c s \<Rightarrow> AuthStoreError c s
     | SqliteError _ \<Rightarrow> authError ''auth_storage_failure'' 503)"

definition engine_error :: auth_exc where
  "engine_error = SqliteError ''disk I/O error''"

section \<open>Owners and bootstrap\<close>

definition getOwner :: "string \<Rightarrow> auth_db \<Rightarrow> owner option" where
  "getOwner ownerId db = by_key own_id ownerId (owners db)"

text \<open>
  \<^verbatim>\<open>singleton\<close> is \<^verbatim>\<open>UNIQUE\<close> and always 1: a second row violates it, and with the primary
  key that is every conflict an insert can meet.
\<close>

definition createOwnerBootstrap ::
  "auth_env \<Rightarrow> string \<Rightarrow> string option \<Rightarrow> time option \<Rightarrow> time option \<Rightarrow> auth_db
    \<Rightarrow> auth_db \<times> (auth_exc + owner option)" where
  "createOwnerBootstrap env ownerId secret createdAt expiresAt db =
     (if \<not> OWNER_ID ownerId then (db, Inl (authError ''invalid_owner'' 400)) else
      case secret of None \<Rightarrow> (db, Inl (authError ''invalid_bootstrap'' 400)) | Some sec \<Rightarrow>
      if length sec < 32 then (db, Inl (authError ''invalid_bootstrap'' 400)) else
      attempt db (isoTime createdAt) (\<lambda>created.
      attempt db (isoTime expiresAt) (\<lambda>expires.
      if expires \<le> created then (db, Inl (authError ''invalid_bootstrap'' 400)) else
      if owners db \<noteq> [] then (db, Inl (authError ''owner_already_exists'' 409)) else
      let db' = db\<lparr>owners := owners db @
            [\<lparr>own_id = ownerId, own_createdAt = created,
              own_bootstrapDigest = hashSecret env sec, own_bootstrapExpiresAt = expires,
              own_bootstrapConsumedAt = None, own_status = ACTIVE\<rparr>]\<rparr>
      in (db', Inr (getOwner ownerId db')))))"

definition bootstrap_pending :: "owner \<Rightarrow> bool" where
  "bootstrap_pending r \<longleftrightarrow> own_status r = ACTIVE \<and> own_bootstrapConsumedAt r = None"

definition consumeOwnerBootstrap ::
  "auth_env \<Rightarrow> string option \<Rightarrow> time option \<Rightarrow> auth_db \<Rightarrow> auth_db \<times> (auth_exc + owner option)" where
  "consumeOwnerBootstrap env secret now db =
     attempt db (isoTime now) (\<lambda>current.
     case find bootstrap_pending (owners db) of
       None \<Rightarrow> (db, Inl (authError ''bootstrap_unavailable'' 409))
     | Some row \<Rightarrow>
       if own_bootstrapExpiresAt row \<le> current then (db, Inl (authError ''bootstrap_expired'' 410))
       else if (case secret of None \<Rightarrow> True
                | Some sec \<Rightarrow> \<not> equalDigest (hashSecret env sec) (own_bootstrapDigest row))
       then (db, Inl (authError ''bootstrap_denied'' 403))
       else
         (let hit = (\<lambda>r. own_id r = own_id row \<and> bootstrap_pending r);
              db' = db\<lparr>owners := update_where hit
                        (\<lambda>r. r\<lparr>own_bootstrapConsumedAt := Some current\<rparr>) (owners db)\<rparr>
          in if changes hit (owners db) \<noteq> 1
             then (db', Inl (authError ''bootstrap_unavailable'' 409))
             else (db', Inr (getOwner (own_id row) db'))))"

section \<open>Clients\<close>

definition getClient :: "string \<Rightarrow> auth_db \<Rightarrow> client option" where
  "getClient clientId db = by_key cl_clientId clientId (clients db)"

definition registerClient ::
  "auth_env \<Rightarrow> string \<Rightarrow> string \<Rightarrow> string \<Rightarrow> time option \<Rightarrow> auth_db
    \<Rightarrow> auth_db \<times> (auth_exc + client option)" where
  "registerClient env clientId ownerId redirectUri createdAt db =
     attempt db (clientIdentifier env clientId) (\<lambda>normalizedClientId.
     if (case getOwner ownerId db of None \<Rightarrow> True
         | Some w \<Rightarrow> own_status w \<noteq> ACTIVE \<or> own_bootstrapConsumedAt w = None)
     then (db, Inl (authError ''owner_not_bootstrapped'' 403)) else
     attempt db (isoTime createdAt) (\<lambda>created.
     attempt db (exactHttpsUrl env redirectUri) (\<lambda>callback.
     case getClient normalizedClientId db of
       None \<Rightarrow>
         (let db' = db\<lparr>clients := clients db @
                [\<lparr>cl_clientId = normalizedClientId, cl_ownerId = ownerId,
                  cl_redirectUri = callback, cl_createdAt = created, cl_status = ACTIVE\<rparr>]\<rparr>
          in (db', Inr (getClient normalizedClientId db')))
     | Some existing \<Rightarrow>
         if cl_ownerId existing = ownerId \<and> cl_redirectUri existing = callback then
           (if cl_status existing = ACTIVE then (db, Inr (Some existing)) else
            let hit = (\<lambda>r. cl_clientId r = normalizedClientId \<and> cl_ownerId r = ownerId \<and>
                            cl_redirectUri r = callback \<and> cl_status r = DISABLED);
                db' = db\<lparr>clients := update_where hit
                          (\<lambda>r. r\<lparr>cl_status := ACTIVE, cl_createdAt := created\<rparr>) (clients db)\<rparr>
            in if changes hit (clients db) = 1
               then (db', Inr (getClient normalizedClientId db'))
               else (db', Inl (authError ''client_conflict'' 409)))
         else (db, Inl (authError ''client_conflict'' 409)))))"

text \<open>
  \<^verbatim>\<open>ORDER BY created_at, client_id\<close>, then the first row whose id has the prefix.
\<close>

definition findActiveClient ::
  "auth_env \<Rightarrow> string \<Rightarrow> string \<Rightarrow> string \<Rightarrow> auth_db \<Rightarrow> auth_exc + client option" where
  "findActiveClient env ownerId redirectUri clientIdPrefix db =
     (case exactHttpsUrl env redirectUri of Inl e \<Rightarrow> Inl e | Inr callback \<Rightarrow>
        Inr (find (\<lambda>c. take (length clientIdPrefix) (cl_clientId c) = clientIdPrefix)
               (sort_key cl_createdAt (sort_key cl_clientId
                 (filter (\<lambda>c. cl_ownerId c = ownerId \<and> cl_redirectUri c = callback \<and>
                              cl_status c = ACTIVE) (clients db))))))"

section \<open>Grants\<close>

text \<open>\<open>getGrant\<close> reads a grant and marks an expired one on the way.\<close>

definition getGrant ::
  "string \<Rightarrow> time option \<Rightarrow> auth_db \<Rightarrow> auth_db \<times> (auth_exc + grant option)" where
  "getGrant grantId now db =
     attempt db (isoTime now) (\<lambda>current.
     case by_key gr_id grantId (grants db) of
       None \<Rightarrow> (db, Inr None)
     | Some row \<Rightarrow>
         if gr_status row = ACTIVE \<and> gr_expiresAt row \<le> current then
           (let db' = db\<lparr>grants := update_where (\<lambda>r. gr_id r = grantId \<and> gr_status r = ACTIVE)
                          (\<lambda>r. r\<lparr>gr_status := EXPIRED\<rparr>) (grants db)\<rparr>
            in (db', Inr (by_key gr_id grantId (grants db'))))
         else (db, Inr (Some row)))"

definition normalizedScopes :: "string list \<Rightarrow> string list" where
  "normalizedScopes scopes = sort (remdups scopes)"

text \<open>
  \<open>scopes = None\<close> stands for a value that is not an array. The insert can violate the
  primary key or the foreign key of the owner; the exception is not translated.
\<close>

definition createGrant ::
  "auth_env \<Rightarrow> string \<Rightarrow> string \<Rightarrow> string \<Rightarrow> string \<Rightarrow> string list option \<Rightarrow> string \<Rightarrow>
    time option \<Rightarrow> time option \<Rightarrow> auth_db \<Rightarrow> auth_db \<times> (auth_exc + grant option)" where
  "createGrant env grantId ownerId clientId resource scopes executionProfile grantedAt expiresAt db =
     (if \<not> GRANT_ID grantId then (db, Inl (authError ''invalid_grant'' 400)) else
      if (case getClient clientId db of None \<Rightarrow> True
          | Some c \<Rightarrow> cl_status c \<noteq> ACTIVE \<or> cl_ownerId c \<noteq> ownerId)
      then (db, Inl (authError ''invalid_client'' 403)) else
      case scopes of None \<Rightarrow> (db, Inl (authError ''invalid_scope'' 400)) | Some scs \<Rightarrow>
      if scs = [] then (db, Inl (authError ''invalid_scope'' 400)) else
      if list_ex (\<lambda>s. \<not> SCOPE s \<or> s \<notin> set (supportedScopes env)) (normalizedScopes scs)
      then (db, Inl (authError ''invalid_scope'' 400)) else
      attempt db (isoTime grantedAt) (\<lambda>granted.
      attempt db (isoTime expiresAt) (\<lambda>expires.
      if expires \<le> granted then (db, Inl (authError ''invalid_grant'' 400)) else
      if \<not> PROFILE executionProfile then (db, Inl (authError ''invalid_grant'' 400)) else
      attempt db (exactHttpsUrl env resource) (\<lambda>normalizedResource.
      if by_key gr_id grantId (grants db) \<noteq> None then (db, Inl (SqliteError ''UNIQUE'')) else
      if getOwner ownerId db = None then (db, Inl (SqliteError ''FOREIGN KEY'')) else
      getGrant grantId (Some granted)
        (db\<lparr>grants := grants db @
           [\<lparr>gr_id = grantId, gr_ownerId = ownerId, gr_clientId = clientId,
             gr_resource = normalizedResource, gr_scopes = normalizedScopes scs,
             gr_executionProfile = executionProfile, gr_grantedAt = granted,
             gr_expiresAt = expires, gr_status = ACTIVE\<rparr>]\<rparr>)))))"

section \<open>Token families and refresh tokens\<close>

text \<open>
  The two statements that end families and take their live tokens away; they occur in
  every revoking method with different conditions.
\<close>

definition endFamilies ::
  "(family \<Rightarrow> bool) \<Rightarrow> auth_status \<Rightarrow> time \<Rightarrow> string \<Rightarrow> auth_db \<Rightarrow> auth_db" where
  "endFamilies P st at reason db = db\<lparr>families := update_where P
     (\<lambda>f. f\<lparr>tf_status := st, tf_revokedAt := Some at, tf_revokeReason := Some reason\<rparr>)
     (families db)\<rparr>"

definition revokeTokens :: "(refresh_token \<Rightarrow> bool) \<Rightarrow> auth_db \<Rightarrow> auth_db" where
  "revokeTokens P db = db\<lparr>tokens := update_where (\<lambda>t. P t \<and> rt_status t = ACTIVE)
     (\<lambda>t. t\<lparr>rt_status := REVOKED\<rparr>) (tokens db)\<rparr>"

definition expireFamily :: "string \<Rightarrow> time \<Rightarrow> auth_db \<Rightarrow> auth_db" where
  "expireFamily familyId current db =
     revokeTokens (\<lambda>t. rt_familyId t = familyId)
       (endFamilies (\<lambda>f. tf_id f = familyId \<and> tf_status f = ACTIVE) EXPIRED current ''expired'' db)"

definition getTokenFamily ::
  "bool \<Rightarrow> string \<Rightarrow> time option \<Rightarrow> auth_db \<Rightarrow> auth_db \<times> (auth_exc + family option)" where
  "getTokenFamily commit_ok familyId now db =
     attempt db (isoTime now) (\<lambda>current.
     case by_key tf_id familyId (families db) of
       None \<Rightarrow> (db, Inr None)
     | Some row \<Rightarrow>
         if tf_status row = ACTIVE \<and> tf_expiresAt row \<le> current then
           (case transaction commit_ok engine_error storage_failure
                   (\<lambda>s. Inr (expireFamily familyId current s, ())) db of
              (db', Inl e) \<Rightarrow> (db', Inl e)
            | (db', Inr _) \<Rightarrow> (db', Inr (by_key tf_id familyId (families db'))))
         else (db, Inr (Some row)))"

definition insertFamily :: "family \<Rightarrow> auth_db \<Rightarrow> auth_exc + auth_db" where
  "insertFamily f db =
     (if by_key tf_id (tf_id f) (families db) \<noteq> None then Inl (SqliteError ''UNIQUE'')
      else if by_key gr_id (tf_grantId f) (grants db) = None
        \<or> by_key own_id (tf_ownerId f) (owners db) = None
        \<or> by_key cl_clientId (tf_clientId f) (clients db) = None
      then Inl (SqliteError ''FOREIGN KEY'')
      else Inr (db\<lparr>families := families db @ [f]\<rparr>))"

definition insertToken :: "refresh_token \<Rightarrow> auth_db \<Rightarrow> auth_exc + auth_db" where
  "insertToken t db =
     (if by_key rt_digest (rt_digest t) (tokens db) \<noteq> None
        \<or> list_ex (\<lambda>s. rt_familyId s = rt_familyId t \<and> rt_generation s = rt_generation t) (tokens db)
      then Inl (SqliteError ''UNIQUE'')
      else if by_key tf_id (rt_familyId t) (families db) = None
      then Inl (SqliteError ''FOREIGN KEY'')
      else Inr (db\<lparr>tokens := tokens db @ [t]\<rparr>))"

definition createFamily_body ::
  "family \<Rightarrow> refresh_token \<Rightarrow> auth_db \<Rightarrow> auth_exc + auth_db \<times> unit" where
  "createFamily_body f t s = (case insertFamily f s of Inl e \<Rightarrow> Inl e | Inr s1 \<Rightarrow>
     (case insertToken t s1 of Inl e \<Rightarrow> Inl e | Inr s2 \<Rightarrow> Inr (s2, ())))"

definition createTokenFamily ::
  "auth_env \<Rightarrow> bool \<Rightarrow> string \<Rightarrow> string \<Rightarrow> string \<Rightarrow> string \<Rightarrow> string \<Rightarrow> string \<Rightarrow>
    time option \<Rightarrow> time option \<Rightarrow> auth_db \<Rightarrow> auth_db \<times> (auth_exc + family option)" where
  "createTokenFamily env commit_ok familyId grantId ownerId clientId resource refreshToken createdAt expiresAt db =
     (if \<not> TOKEN_FAMILY_ID familyId then (db, Inl (authError ''invalid_token_family'' 400)) else
      attempt db (isoTime createdAt) (\<lambda>created.
      attempt db (isoTime expiresAt) (\<lambda>expires.
      attempt db (exactHttpsUrl env resource) (\<lambda>normalizedResource.
      attempt db (hashRefreshToken env refreshToken) (\<lambda>refreshDigest.
      case getGrant grantId (Some created) db of
        (db1, Inl e) \<Rightarrow> (db1, Inl e)
      | (db1, Inr None) \<Rightarrow> (db1, Inl (authError ''invalid_grant'' 400))
      | (db1, Inr (Some grant)) \<Rightarrow>
          if gr_status grant \<noteq> ACTIVE \<or> gr_ownerId grant \<noteq> ownerId \<or> gr_clientId grant \<noteq> clientId
            \<or> gr_resource grant \<noteq> normalizedResource
          then (db1, Inl (authError ''invalid_grant'' 400)) else
          if expires \<le> created \<or> gr_expiresAt grant < expires
          then (db1, Inl (authError ''invalid_token_family'' 400)) else
          (case transaction commit_ok engine_error storage_failure
             (createFamily_body
                \<lparr>tf_id = familyId, tf_grantId = grantId, tf_ownerId = ownerId,
                 tf_clientId = clientId, tf_resource = normalizedResource,
                 tf_createdAt = created, tf_expiresAt = expires, tf_status = ACTIVE,
                 tf_revokedAt = None, tf_revokeReason = None, tf_currentGeneration = 0\<rparr>
                \<lparr>rt_digest = refreshDigest, rt_familyId = familyId, rt_generation = 0,
                 rt_issuedAt = created, rt_expiresAt = expires, rt_consumedAt = None,
                 rt_status = ACTIVE\<rparr>) db1 of
             (db2, Inl e) \<Rightarrow> (db2, Inl e)
           | (db2, Inr _) \<Rightarrow> getTokenFamily commit_ok familyId (Some created) db2))))))"

section \<open>Rotation\<close>

text \<open>
  The row of the three-way join: the presented token, its family and the family's grant.
\<close>

definition rotation_row :: "string \<Rightarrow> auth_db \<Rightarrow> (refresh_token \<times> family \<times> grant) option" where
  "rotation_row digest db =
     (case by_key rt_digest digest (tokens db) of None \<Rightarrow> None | Some rt \<Rightarrow>
      case by_key tf_id (rt_familyId rt) (families db) of None \<Rightarrow> None | Some tf \<Rightarrow>
      case by_key gr_id (tf_grantId tf) (grants db) of None \<Rightarrow> None | Some g \<Rightarrow> Some (rt, tf, g))"

definition compromiseFamily :: "string \<Rightarrow> time \<Rightarrow> auth_db \<Rightarrow> auth_db" where
  "compromiseFamily familyId current db =
     revokeTokens (\<lambda>t. rt_familyId t = familyId)
       (endFamilies (\<lambda>f. tf_id f = familyId \<and> tf_status f = ACTIVE) COMPROMISED current
          ''refresh_reuse'' db)"

text \<open>The success branch: consume the presented token, add the next one, move the family on.\<close>

definition advanceFamily ::
  "string \<Rightarrow> string \<Rightarrow> time \<Rightarrow> family \<Rightarrow> auth_db \<Rightarrow> auth_exc + auth_db" where
  "advanceFamily digest nextDigest current tf db =
     (let hit = (\<lambda>t. rt_digest t = digest \<and> rt_status t = ACTIVE);
          db1 = db\<lparr>tokens := update_where hit
                  (\<lambda>t. t\<lparr>rt_status := CONSUMED, rt_consumedAt := Some current\<rparr>) (tokens db)\<rparr>
      in if changes hit (tokens db) \<noteq> 1
         then Inl (SqliteError ''refresh token changed during rotation'')
         else (case insertToken
             \<lparr>rt_digest = nextDigest, rt_familyId = tf_id tf,
              rt_generation = tf_currentGeneration tf + 1, rt_issuedAt = current,
              rt_expiresAt = tf_expiresAt tf, rt_consumedAt = None, rt_status = ACTIVE\<rparr> db1 of
            Inl e \<Rightarrow> Inl e
          | Inr db2 \<Rightarrow> Inr (db2\<lparr>families := update_where
              (\<lambda>f. tf_id f = tf_id tf \<and> tf_status f = ACTIVE \<and>
                   tf_currentGeneration f = tf_currentGeneration tf)
              (\<lambda>f. f\<lparr>tf_currentGeneration := tf_currentGeneration tf + 1\<rparr>) (families db2)\<rparr>)))"

text \<open>
  The body of the transaction. A value \<^term>\<open>Inl failure\<close> inside the outer \<^term>\<open>Inr\<close> is
  the source's variable \<^verbatim>\<open>failure\<close>: the transaction commits and the exception is thrown
  afterwards.
\<close>

definition rotate_body ::
  "string \<Rightarrow> string \<Rightarrow> string \<Rightarrow> string \<Rightarrow> time \<Rightarrow> auth_db
    \<Rightarrow> auth_exc + auth_db \<times> (auth_exc + family \<times> grant)" where
  "rotate_body digest nextDigest clientId resource current db =
     (case rotation_row digest db of
        None \<Rightarrow> Inr (db, Inl (authError ''invalid_refresh_token'' 400))
      | Some (rt, tf, g) \<Rightarrow>
          if tf_clientId tf \<noteq> clientId \<or> tf_resource tf \<noteq> resource
          then Inr (db, Inl (authError ''invalid_refresh_token'' 400))
          else if tf_status tf \<noteq> ACTIVE \<or> gr_status g \<noteq> ACTIVE \<or> tf_expiresAt tf \<le> current
            \<or> gr_expiresAt g \<le> current \<or> rt_expiresAt rt \<le> current
          then Inr (if tf_status tf = ACTIVE \<and> tf_expiresAt tf \<le> current
                    then expireFamily (tf_id tf) current db else db,
                    Inl (authError ''refresh_inactive'' 400))
          else if rt_status rt \<noteq> ACTIVE \<or> rt_generation rt \<noteq> tf_currentGeneration tf
          then Inr (compromiseFamily (tf_id tf) current db,
                    Inl (authError ''refresh_reuse_detected'' 400))
          else (case advanceFamily digest nextDigest current tf db of
                  Inl e \<Rightarrow> Inl e | Inr db' \<Rightarrow> Inr (db', Inr (tf, g))))"

definition rotateRefreshToken ::
  "auth_env \<Rightarrow> bool \<Rightarrow> string \<Rightarrow> string \<Rightarrow> string \<Rightarrow> string \<Rightarrow> time option \<Rightarrow> auth_db
    \<Rightarrow> auth_db \<times> (auth_exc + family option \<times> grant option)" where
  "rotateRefreshToken env commit_ok refreshToken nextRefreshToken clientId resource now db =
     attempt db (isoTime now) (\<lambda>current.
     attempt db (hashRefreshToken env refreshToken) (\<lambda>digest.
     attempt db (hashRefreshToken env nextRefreshToken) (\<lambda>nextDigest.
     if digest = nextDigest then (db, Inl (authError ''invalid_refresh_token'' 400)) else
     attempt db (clientIdentifier env clientId) (\<lambda>normalizedClientId.
     attempt db (exactHttpsUrl env resource) (\<lambda>normalizedResource.
     case transaction commit_ok engine_error rethrow_or_storage_failure
        (rotate_body digest nextDigest normalizedClientId normalizedResource current) db of
       (db1, Inl e) \<Rightarrow> (db1, Inl e)
     | (db1, Inr (Inl failure)) \<Rightarrow> (db1, Inl failure)
     | (db1, Inr (Inr (tf, g))) \<Rightarrow>
         (case getTokenFamily commit_ok (tf_id tf) (Some current) db1 of
            (db2, Inl e) \<Rightarrow> (db2, Inl e)
          | (db2, Inr fam) \<Rightarrow>
              (case getGrant (tf_grantId tf) (Some current) db2 of
                 (db3, Inl e) \<Rightarrow> (db3, Inl e)
               | (db3, Inr gr) \<Rightarrow> (db3, Inr (fam, gr)))))))))"

section \<open>Revocation and reset\<close>

definition revokeTokenFamily ::
  "bool \<Rightarrow> string \<Rightarrow> string \<Rightarrow> time option \<Rightarrow> string \<Rightarrow> auth_db \<Rightarrow> auth_db \<times> (auth_exc + bool)" where
  "revokeTokenFamily commit_ok familyId ownerId revokedAt reason db =
     attempt db (isoTime revokedAt) (\<lambda>revoked.
     case by_key tf_id familyId (families db) of
       None \<Rightarrow> (db, Inr False)
     | Some family \<Rightarrow>
         if tf_ownerId family \<noteq> ownerId then (db, Inr False) else
         transaction commit_ok engine_error storage_failure
           (\<lambda>s. Inr (revokeTokens (\<lambda>t. rt_familyId t = familyId)
              (endFamilies (\<lambda>f. tf_id f = familyId \<and> tf_ownerId f = ownerId \<and> tf_status f = ACTIVE)
                 REVOKED revoked reason s), True)) db)"

text \<open>An absent or empty client id stands for the source's falsy \<^verbatim>\<open>clientId\<close>.\<close>

definition revokeRefreshToken ::
  "auth_env \<Rightarrow> bool \<Rightarrow> string \<Rightarrow> string option \<Rightarrow> time option \<Rightarrow> string \<Rightarrow> auth_db
    \<Rightarrow> auth_db \<times> (auth_exc + bool)" where
  "revokeRefreshToken env commit_ok refreshToken clientId revokedAt reason db =
     attempt db (isoTime revokedAt) (\<lambda>revoked.
     attempt db (hashRefreshToken env refreshToken) (\<lambda>digest.
     case by_key rt_digest digest (tokens db) of
       None \<Rightarrow> (db, Inr False)
     | Some rt \<Rightarrow>
       (case by_key tf_id (rt_familyId rt) (families db) of
          None \<Rightarrow> (db, Inr False)
        | Some tf \<Rightarrow>
            (case clientId of
               None \<Rightarrow> revokeTokenFamily commit_ok (tf_id tf) (tf_ownerId tf) (Some revoked) reason db
             | Some [] \<Rightarrow> revokeTokenFamily commit_ok (tf_id tf) (tf_ownerId tf) (Some revoked) reason db
             | Some c \<Rightarrow> attempt db (clientIdentifier env c) (\<lambda>cid.
                 if tf_clientId tf \<noteq> cid then (db, Inr False)
                 else revokeTokenFamily commit_ok (tf_id tf) (tf_ownerId tf) (Some revoked)
                        reason db)))))"

definition live_or_compromised :: "family \<Rightarrow> bool" where
  "live_or_compromised f \<longleftrightarrow> tf_status f = ACTIVE \<or> tf_status f = COMPROMISED"

definition token_family_in :: "(family \<Rightarrow> bool) \<Rightarrow> auth_db \<Rightarrow> refresh_token \<Rightarrow> bool" where
  "token_family_in P db t \<longleftrightarrow> list_ex (\<lambda>f. P f \<and> tf_id f = rt_familyId t) (families db)"

definition revokeGrants :: "(grant \<Rightarrow> bool) \<Rightarrow> auth_db \<Rightarrow> auth_db" where
  "revokeGrants P db = db\<lparr>grants := update_where (\<lambda>g. P g \<and> gr_status g = ACTIVE)
     (\<lambda>g. g\<lparr>gr_status := REVOKED\<rparr>) (grants db)\<rparr>"

definition revokeGrant_tables :: "string \<Rightarrow> string \<Rightarrow> time \<Rightarrow> string \<Rightarrow> auth_db \<Rightarrow> auth_db" where
  "revokeGrant_tables grantId ownerId revoked reason s =
     (let s1 = revokeGrants (\<lambda>g. gr_id g = grantId \<and> gr_ownerId g = ownerId) s;
          s2 = endFamilies (\<lambda>f. tf_grantId f = grantId \<and> live_or_compromised f) REVOKED revoked reason s1
      in revokeTokens (token_family_in (\<lambda>f. tf_grantId f = grantId) s2) s2)"

definition revokeGrant ::
  "bool \<Rightarrow> string \<Rightarrow> string \<Rightarrow> time option \<Rightarrow> string \<Rightarrow> auth_db \<Rightarrow> auth_db \<times> (auth_exc + grant option)" where
  "revokeGrant commit_ok grantId ownerId revokedAt reason db =
     attempt db (isoTime revokedAt) (\<lambda>revoked.
     if (case by_key gr_id grantId (grants db) of None \<Rightarrow> True | Some g \<Rightarrow> gr_ownerId g \<noteq> ownerId)
     then (db, Inl (authError ''invalid_grant'' 404)) else
     case transaction commit_ok engine_error storage_failure
            (\<lambda>s. Inr (revokeGrant_tables grantId ownerId revoked reason s, ())) db of
       (db1, Inl e) \<Rightarrow> (db1, Inl e)
     | (db1, Inr _) \<Rightarrow> getGrant grantId (Some revoked) db1)"

record access_summary =
  sum_ownerStatus :: auth_status
  sum_bootstrapPending :: bool
  sum_activeClients :: nat
  sum_activeGrants :: nat
  sum_activeTokenFamilies :: nat

definition ownerAccessSummary :: "string \<Rightarrow> auth_db \<Rightarrow> auth_exc + access_summary" where
  "ownerAccessSummary ownerId db = (case getOwner ownerId db of
       None \<Rightarrow> Inl (authError ''invalid_owner'' 404)
     | Some w \<Rightarrow> Inr
         \<lparr>sum_ownerStatus = own_status w,
          sum_bootstrapPending = (own_bootstrapConsumedAt w = None),
          sum_activeClients =
            changes (\<lambda>c. cl_ownerId c = ownerId \<and> cl_status c = ACTIVE) (clients db),
          sum_activeGrants =
            changes (\<lambda>g. gr_ownerId g = ownerId \<and> gr_status g = ACTIVE) (grants db),
          sum_activeTokenFamilies =
            changes (\<lambda>f. tf_ownerId f = ownerId \<and> tf_status f = ACTIVE) (families db)\<rparr>)"

text \<open>
  The three statements \<open>revokeOwnerAccess\<close> and \<open>resetOwnerAccess\<close> share; the status and
  the reason of the ended families differ.
\<close>

definition revokeOwner_tables :: "string \<Rightarrow> auth_status \<Rightarrow> time \<Rightarrow> string \<Rightarrow> auth_db \<Rightarrow> auth_db" where
  "revokeOwner_tables ownerId st at reason s =
     (let s1 = revokeGrants (\<lambda>g. gr_ownerId g = ownerId) s;
          s2 = endFamilies (\<lambda>f. tf_ownerId f = ownerId \<and> live_or_compromised f) st at reason s1
      in revokeTokens (token_family_in (\<lambda>f. tf_ownerId f = ownerId) s2) s2)"

definition revokeOwnerAccess ::
  "bool \<Rightarrow> string \<Rightarrow> time option \<Rightarrow> string \<Rightarrow> auth_db \<Rightarrow> auth_db \<times> (auth_exc + access_summary)" where
  "revokeOwnerAccess commit_ok ownerId revokedAt reason db =
     attempt db (isoTime revokedAt) (\<lambda>revoked.
     if getOwner ownerId db = None then (db, Inl (authError ''invalid_owner'' 404)) else
     case transaction commit_ok engine_error storage_failure
            (\<lambda>s. Inr (revokeOwner_tables ownerId REVOKED revoked reason s, ())) db of
       (db1, Inl e) \<Rightarrow> (db1, Inl e)
     | (db1, Inr _) \<Rightarrow> (db1, ownerAccessSummary ownerId db1))"

definition resetOwner_body ::
  "string \<Rightarrow> string \<Rightarrow> time \<Rightarrow> time \<Rightarrow> auth_db \<Rightarrow> auth_exc + auth_db \<times> unit" where
  "resetOwner_body ownerId digest reset expires s =
     (let s1 = revokeOwner_tables ownerId RESET reset ''owner_reset'' s;
          s2 = s1\<lparr>clients := update_where (\<lambda>c. cl_ownerId c = ownerId)
                   (\<lambda>c. c\<lparr>cl_status := DISABLED\<rparr>) (clients s1)\<rparr>;
          hit = (\<lambda>w. own_id w = ownerId);
          s3 = s2\<lparr>owners := update_where hit
                   (\<lambda>w. w\<lparr>own_bootstrapDigest := digest, own_bootstrapExpiresAt := expires,
                          own_bootstrapConsumedAt := None, own_status := ACTIVE\<rparr>) (owners s2)\<rparr>
      in if changes hit (owners s2) \<noteq> 1 then Inl (SqliteError ''owner reset lost'')
         else Inr (s3, ()))"

definition resetOwnerAccess ::
  "auth_env \<Rightarrow> bool \<Rightarrow> string \<Rightarrow> string option \<Rightarrow> time option \<Rightarrow> time option \<Rightarrow> auth_db
    \<Rightarrow> auth_db \<times> (auth_exc + owner option)" where
  "resetOwnerAccess env commit_ok ownerId bootstrapSecret resetAt bootstrapExpiresAt db =
     (case bootstrapSecret of None \<Rightarrow> (db, Inl (authError ''invalid_bootstrap'' 400)) | Some sec \<Rightarrow>
      if length sec < 32 then (db, Inl (authError ''invalid_bootstrap'' 400)) else
      attempt db (isoTime resetAt) (\<lambda>reset.
      attempt db (isoTime bootstrapExpiresAt) (\<lambda>expires.
      if expires \<le> reset then (db, Inl (authError ''invalid_bootstrap'' 400)) else
      if getOwner ownerId db = None then (db, Inl (authError ''invalid_owner'' 404)) else
      case transaction commit_ok engine_error storage_failure
        (resetOwner_body ownerId (hashSecret env sec) reset expires) db of
        (db1, Inl e) \<Rightarrow> (db1, Inl e)
      | (db1, Inr _) \<Rightarrow> (db1, Inr (getOwner ownerId db1)))))"

lemmas auth_op_defs [auth_defs] =
  createOwnerBootstrap_def consumeOwnerBootstrap_def registerClient_def createGrant_def
  getGrant_def createTokenFamily_def getTokenFamily_def rotateRefreshToken_def
  revokeTokenFamily_def revokeRefreshToken_def revokeGrant_def revokeOwnerAccess_def
  resetOwnerAccess_def

end
