(* ===== verification/AuthStore_Inv.thy ===== *)
theory AuthStore_Inv
  imports AuthStore
begin

text \<open>
  The invariant of the auth tables and its preservation by every operation of the class, on
  the error paths too. Beyond keys, foreign keys and \<^verbatim>\<open>CHECK\<close> constraints it says how
  grants, token families and refresh tokens hang together: a live refresh token belongs to a
  live family and carries the family's current generation, a live family has such a token,
  agrees with its grant, does not outlive it and is never the child of a revoked grant.
\<close>

section \<open>The invariant\<close>

definition keys_ok :: "auth_db \<Rightarrow> bool" where
  "keys_ok db \<longleftrightarrow> length (owners db) \<le> 1 \<and> distinct (map cl_clientId (clients db)) \<and>
     distinct (map gr_id (grants db)) \<and> distinct (map tf_id (families db)) \<and>
     distinct (map rt_digest (tokens db)) \<and>
     distinct (map (\<lambda>t. (rt_familyId t, rt_generation t)) (tokens db))"

definition refs_ok :: "auth_db \<Rightarrow> bool" where
  "refs_ok db \<longleftrightarrow>
     (\<forall>c \<in> set (clients db). cl_ownerId c \<in> own_id ` set (owners db)) \<and>
     (\<forall>g \<in> set (grants db). gr_ownerId g \<in> own_id ` set (owners db) \<and>
        gr_clientId g \<in> cl_clientId ` set (clients db))"

definition checks_ok :: "auth_db \<Rightarrow> bool" where
  "checks_ok db \<longleftrightarrow>
     (\<forall>w \<in> set (owners db). own_status w \<in> {ACTIVE, DISABLED}) \<and>
     (\<forall>c \<in> set (clients db). cl_status c \<in> {ACTIVE, DISABLED}) \<and>
     (\<forall>g \<in> set (grants db). gr_status g \<in> {ACTIVE, EXPIRED, REVOKED}) \<and>
     (\<forall>f \<in> set (families db). tf_status f \<in> {ACTIVE, EXPIRED, REVOKED, COMPROMISED, RESET}) \<and>
     (\<forall>t \<in> set (tokens db). rt_status t \<in> {ACTIVE, CONSUMED, REVOKED})"

definition token_ok :: "family list \<Rightarrow> refresh_token \<Rightarrow> bool" where
  "token_ok fs t \<longleftrightarrow> (\<exists>f \<in> set fs. tf_id f = rt_familyId t \<and>
     rt_generation t \<le> tf_currentGeneration f \<and> rt_expiresAt t = tf_expiresAt f \<and>
     (rt_status t = ACTIVE \<longrightarrow> tf_status f = ACTIVE \<and> rt_generation t = tf_currentGeneration f))"

definition family_ok :: "grant list \<Rightarrow> refresh_token list \<Rightarrow> family \<Rightarrow> bool" where
  "family_ok gs ts f \<longleftrightarrow>
     (\<exists>g \<in> set gs. gr_id g = tf_grantId f \<and> gr_ownerId g = tf_ownerId f \<and>
        gr_clientId g = tf_clientId f \<and> gr_resource g = tf_resource f \<and>
        tf_expiresAt f \<le> gr_expiresAt g \<and> (tf_status f = ACTIVE \<longrightarrow> gr_status g \<noteq> REVOKED)) \<and>
     (tf_status f = ACTIVE \<longrightarrow> (\<exists>t \<in> set ts. rt_familyId t = tf_id f \<and> rt_status t = ACTIVE))"

definition auth_inv :: "auth_db \<Rightarrow> bool" where
  "auth_inv db \<longleftrightarrow> keys_ok db \<and> refs_ok db \<and> checks_ok db \<and>
     (\<forall>t \<in> set (tokens db). token_ok (families db) t) \<and>
     (\<forall>f \<in> set (families db). family_ok (grants db) (tokens db) f)"

lemma auth_inv_empty: "auth_inv empty_auth_db"
  by (simp add: auth_inv_def empty_auth_db_def keys_ok_def refs_ok_def checks_ok_def)

lemma auth_invD:
  assumes "auth_inv db"
  shows "keys_ok db" "refs_ok db" "checks_ok db"
    "t \<in> set (tokens db) \<Longrightarrow> token_ok (families db) t"
    "f \<in> set (families db) \<Longrightarrow> family_ok (grants db) (tokens db) f"
  using assms by (auto simp: auth_inv_def)

text \<open>Consequences: one live token per family, and the facts a joined row carries.\<close>

lemma active_token_family:
  assumes inv: "auth_inv db" and t: "t \<in> set (tokens db)" and f: "f \<in> set (families db)"
    and "tf_id f = rt_familyId t" and "rt_status t = ACTIVE"
  shows "tf_status f = ACTIVE \<and> rt_generation t = tf_currentGeneration f"
proof -
  obtain f' where "f' \<in> set (families db)" "tf_id f' = rt_familyId t"
    and "tf_status f' = ACTIVE" "rt_generation t = tf_currentGeneration f'"
    using auth_invD(4) [OF inv t] assms(5) by (auto simp: token_ok_def)
  moreover have "distinct (map tf_id (families db))"
    using auth_invD(1) [OF inv] by (simp add: keys_ok_def)
  ultimately have "f' = f" using f assms(4) by (auto dest: key_inj)
  then show ?thesis using \<open>tf_status f' = ACTIVE\<close> \<open>rt_generation t = _\<close> by simp
qed

lemma active_token_unique:
  assumes inv: "auth_inv db" and "s \<in> set (tokens db)" "t \<in> set (tokens db)"
    and "rt_status s = ACTIVE" "rt_status t = ACTIVE" "rt_familyId s = rt_familyId t"
  shows "s = t"
proof -
  obtain f where f: "f \<in> set (families db)" "tf_id f = rt_familyId s"
    using auth_invD(4) [OF inv assms(2)] by (auto simp: token_ok_def)
  have "rt_generation s = rt_generation t"
    using active_token_family [OF inv assms(2) f(1)] active_token_family [OF inv assms(3) f(1)]
      f(2) assms(4-6) by simp
  moreover have "distinct (map (\<lambda>t. (rt_familyId t, rt_generation t)) (tokens db))"
    using auth_invD(1) [OF inv] by (simp add: keys_ok_def)
  ultimately show ?thesis
    using assms(2,3,6) key_inj [of "\<lambda>t. (rt_familyId t, rt_generation t)" "tokens db" s t] by simp
qed

lemma token_generation_le:
  assumes inv: "auth_inv db" and t: "t \<in> set (tokens db)" and f: "f \<in> set (families db)"
    and "tf_id f = rt_familyId t"
  shows "rt_generation t \<le> tf_currentGeneration f"
proof -
  obtain f' where "f' \<in> set (families db)" "tf_id f' = rt_familyId t"
    "rt_generation t \<le> tf_currentGeneration f'"
    using auth_invD(4) [OF inv t] by (auto simp: token_ok_def)
  moreover have "distinct (map tf_id (families db))"
    using auth_invD(1) [OF inv] by (simp add: keys_ok_def)
  ultimately show ?thesis using f assms(4) by (auto dest: key_inj)
qed

section \<open>Owners, clients and grants\<close>

lemma auth_inv_update_owners:
  assumes "auth_inv db" and "\<And>w. own_id (h w) = own_id w"
    and "\<And>w. own_status w \<in> {ACTIVE, DISABLED} \<Longrightarrow> own_status (h w) \<in> {ACTIVE, DISABLED}"
  shows "auth_inv (db\<lparr>owners := update_where P h (owners db)\<rparr>)"
  using assms
  by (simp add: auth_inv_def keys_ok_def refs_ok_def checks_ok_def table_simps)

lemma auth_inv_add_owner:
  assumes "auth_inv db" "owners db = []" "own_status w = ACTIVE"
  shows "auth_inv (db\<lparr>owners := [w]\<rparr>)"
  using assms by (auto simp: auth_inv_def keys_ok_def refs_ok_def checks_ok_def)

lemma auth_inv_update_clients:
  assumes "auth_inv db" and "\<And>c. cl_clientId (h c) = cl_clientId c"
    and "\<And>c. cl_ownerId (h c) = cl_ownerId c" and "\<And>c. cl_status (h c) \<in> {ACTIVE, DISABLED}"
  shows "auth_inv (db\<lparr>clients := update_where P h (clients db)\<rparr>)"
  using assms
  by (simp add: auth_inv_def keys_ok_def refs_ok_def checks_ok_def table_simps)

lemma auth_inv_add_client:
  assumes "auth_inv db" "getClient (cl_clientId c) db = None"
    "getOwner (cl_ownerId c) db \<noteq> None" "cl_status c = ACTIVE"
  shows "auth_inv (db\<lparr>clients := clients db @ [c]\<rparr>)"
  using assms
  by (auto simp: auth_inv_def keys_ok_def refs_ok_def checks_ok_def getClient_def getOwner_def
      by_key_None_iff dest!: by_key_SomeD)

lemma family_ok_mono_grants:
  assumes "family_ok gs ts f" "set gs \<subseteq> set gs'"
  shows "family_ok gs' ts f"
  using assms by (auto simp: family_ok_def)

lemma auth_inv_add_grant:
  assumes inv: "auth_inv db" and "by_key gr_id (gr_id g) (grants db) = None"
    "getOwner (gr_ownerId g) db \<noteq> None" "getClient (gr_clientId g) db \<noteq> None"
    "gr_status g = ACTIVE"
  shows "auth_inv (db\<lparr>grants := grants db @ [g]\<rparr>)"
proof -
  have "keys_ok (db\<lparr>grants := grants db @ [g]\<rparr>)" "refs_ok (db\<lparr>grants := grants db @ [g]\<rparr>)"
    using assms auth_invD(1,2) [OF inv]
    by (auto simp: keys_ok_def refs_ok_def getClient_def getOwner_def by_key_None_iff
        dest!: by_key_SomeD)
  moreover have "checks_ok (db\<lparr>grants := grants db @ [g]\<rparr>)"
    using assms(5) auth_invD(3) [OF inv] by (simp add: checks_ok_def)
  moreover have "family_ok (grants db @ [g]) (tokens db) f" if "f \<in> set (families db)" for f
    using auth_invD(5) [OF inv that] by (rule family_ok_mono_grants) auto
  ultimately show ?thesis using auth_invD(4) [OF inv] by (simp add: auth_inv_def)
qed

section \<open>Ending families\<close>

text \<open>
  Every revoking method revokes grants \<open>G\<close>, ends families \<open>P\<close> and revokes live tokens
  \<open>T\<close>. It keeps the invariant when the three conditions fit: the ended families lose their
  live tokens, the others keep theirs, and the families of a revoked grant are ended.
\<close>

lemma auth_inv_revoke_all:
  assumes inv: "auth_inv db" and st: "st \<in> {EXPIRED, REVOKED, COMPROMISED, RESET}"
    and hit: "\<And>f t. f \<in> set (families db) \<Longrightarrow> P f \<Longrightarrow> t \<in> set (tokens db) \<Longrightarrow>
      rt_familyId t = tf_id f \<Longrightarrow> rt_status t = ACTIVE \<Longrightarrow> T t"
    and keep: "\<And>f t. f \<in> set (families db) \<Longrightarrow> \<not> P f \<Longrightarrow> tf_status f = ACTIVE \<Longrightarrow>
      t \<in> set (tokens db) \<Longrightarrow> rt_familyId t = tf_id f \<Longrightarrow> \<not> T t"
    and grants: "\<And>f g. f \<in> set (families db) \<Longrightarrow> g \<in> set (grants db) \<Longrightarrow> G g \<Longrightarrow>
      gr_id g = tf_grantId f \<Longrightarrow> gr_ownerId g = tf_ownerId f \<Longrightarrow> tf_status f = ACTIVE \<Longrightarrow> P f"
  shows "auth_inv (revokeTokens T (endFamilies P st at reason (revokeGrants G db)))"
    (is "auth_inv ?db'")
proof -
  let ?E = "\<lambda>f. f\<lparr>tf_status := st, tf_revokedAt := Some at, tf_revokeReason := Some reason\<rparr>"
  have keys: "keys_ok ?db'" and refs: "refs_ok ?db'"
    using auth_invD(1,2) [OF inv]
    by (simp_all add: keys_ok_def refs_ok_def revokeTokens_def endFamilies_def revokeGrants_def
        table_simps)
  have checks: "checks_ok ?db'"
    using auth_invD(3) [OF inv] st
    by (auto simp: checks_ok_def revokeTokens_def endFamilies_def revokeGrants_def table_simps)
  have tok: "token_ok (families ?db') t'" if t': "t' \<in> set (tokens ?db')" for t'
  proof -
    obtain t where t: "t \<in> set (tokens db)"
      and eq: "t' = (if T t \<and> rt_status t = ACTIVE then t\<lparr>rt_status := REVOKED\<rparr> else t)"
      using t' by (auto simp: revokeTokens_def endFamilies_def revokeGrants_def elim: in_update_whereE)
    obtain f where f: "f \<in> set (families db)" "tf_id f = rt_familyId t"
      "rt_generation t \<le> tf_currentGeneration f" "rt_expiresAt t = tf_expiresAt f"
      "rt_status t = ACTIVE \<longrightarrow> tf_status f = ACTIVE \<and> rt_generation t = tf_currentGeneration f"
      using auth_invD(4) [OF inv t] by (auto simp: token_ok_def)
    have "(if P f then ?E f else f) \<in> set (families ?db')"
      using f(1) by (auto simp: revokeTokens_def endFamilies_def revokeGrants_def set_update_where)
    moreover have "rt_status t' \<noteq> ACTIVE" if "P f"
      using hit [OF f(1) that t f(2) [symmetric]] eq by (cases "rt_status t = ACTIVE") auto
    moreover have "rt_familyId t' = rt_familyId t" "rt_generation t' = rt_generation t"
      "rt_expiresAt t' = rt_expiresAt t" "rt_status t' = ACTIVE \<longrightarrow> rt_status t = ACTIVE"
      using eq by simp_all
    ultimately show ?thesis unfolding token_ok_def
      using f(2-5) by (intro bexI [of _ "if P f then ?E f else f"]) auto
  qed
  have fam: "family_ok (grants ?db') (tokens ?db') f'" if f': "f' \<in> set (families ?db')" for f'
  proof -
    obtain f where f: "f \<in> set (families db)" and eq: "f' = (if P f then ?E f else f)"
      using f' by (auto simp: revokeTokens_def endFamilies_def revokeGrants_def elim: in_update_whereE)
    obtain g where g: "g \<in> set (AuthStore.grants db)" "gr_id g = tf_grantId f" "gr_ownerId g = tf_ownerId f"
      "gr_clientId g = tf_clientId f" "gr_resource g = tf_resource f"
      "tf_expiresAt f \<le> gr_expiresAt g" "tf_status f = ACTIVE \<longrightarrow> gr_status g \<noteq> REVOKED"
      and act: "tf_status f = ACTIVE \<longrightarrow> (\<exists>t \<in> set (tokens db). rt_familyId t = tf_id f \<and> rt_status t = ACTIVE)"
      using auth_invD(5) [OF inv f] by (auto simp: family_ok_def)
    define g' where "g' = (if G g \<and> gr_status g = ACTIVE then g\<lparr>gr_status := REVOKED\<rparr> else g)"
    have g'_in: "g' \<in> set (AuthStore.grants ?db')"
      using g(1) by (auto simp: g'_def revokeTokens_def endFamilies_def revokeGrants_def set_update_where)
    have "st \<noteq> ACTIVE" using st by auto
    then have live: "\<not> P f \<and> tf_status f = ACTIVE" if "tf_status f' = ACTIVE"
      using that eq by (auto split: if_splits)
    have "gr_status g' \<noteq> REVOKED" if "tf_status f' = ACTIVE"
      using live [OF that] g(7) grants [OF f g(1) _ g(2,3)] by (auto simp: g'_def)
    moreover have "\<exists>t \<in> set (tokens ?db'). rt_familyId t = tf_id f' \<and> rt_status t = ACTIVE"
      if live': "tf_status f' = ACTIVE"
    proof -
      obtain t where t: "t \<in> set (tokens db)" "rt_familyId t = tf_id f" "rt_status t = ACTIVE"
        using act live [OF live'] by auto
      then have "\<not> T t" using keep [OF f] live [OF live'] by blast
      then have "t \<in> set (tokens ?db')"
        using t(1) by (auto simp: revokeTokens_def endFamilies_def revokeGrants_def set_update_where image_iff)
      then show ?thesis using t eq by (auto split: if_splits)
    qed
    moreover have "gr_id g' = tf_grantId f' \<and> gr_ownerId g' = tf_ownerId f' \<and>
      gr_clientId g' = tf_clientId f' \<and> gr_resource g' = tf_resource f' \<and>
      tf_expiresAt f' \<le> gr_expiresAt g'"
      using g(2-6) eq by (auto simp: g'_def)
    ultimately show ?thesis using g'_in by (auto simp: family_ok_def intro!: bexI [of _ g'])
  qed
  show ?thesis using keys refs checks tok fam by (auto simp: auth_inv_def)
qed

lemma revokeGrants_none: "revokeGrants (\<lambda>_. False) db = db"
  by (simp add: revokeGrants_def update_where_None)

lemma auth_inv_end_families:
  assumes "auth_inv db" and "st \<in> {EXPIRED, REVOKED, COMPROMISED, RESET}"
    and "\<And>f t. f \<in> set (families db) \<Longrightarrow> P f \<Longrightarrow> t \<in> set (tokens db) \<Longrightarrow>
      rt_familyId t = tf_id f \<Longrightarrow> rt_status t = ACTIVE \<Longrightarrow> T t"
    and "\<And>f t. f \<in> set (families db) \<Longrightarrow> \<not> P f \<Longrightarrow> tf_status f = ACTIVE \<Longrightarrow>
      t \<in> set (tokens db) \<Longrightarrow> rt_familyId t = tf_id f \<Longrightarrow> \<not> T t"
  shows "auth_inv (revokeTokens T (endFamilies P st at reason db))"
proof -
  have "auth_inv (revokeTokens T (endFamilies P st at reason (revokeGrants (\<lambda>_. False) db)))"
    by (rule auth_inv_revoke_all) (use assms in auto)
  then show ?thesis by (simp add: revokeGrants_none)
qed

section \<open>New families and rotation\<close>

lemma insertFamily_Inr:
  "insertFamily f db = Inr db' \<longleftrightarrow> by_key tf_id (tf_id f) (families db) = None \<and>
    by_key gr_id (tf_grantId f) (grants db) \<noteq> None \<and>
    by_key own_id (tf_ownerId f) (owners db) \<noteq> None \<and>
    by_key cl_clientId (tf_clientId f) (clients db) \<noteq> None \<and>
    db' = db\<lparr>families := families db @ [f]\<rparr>"
  by (auto simp: insertFamily_def)

lemma insertToken_Inr:
  "insertToken t db = Inr db' \<longleftrightarrow> by_key rt_digest (rt_digest t) (tokens db) = None \<and>
    (\<forall>s \<in> set (tokens db). rt_familyId s = rt_familyId t \<longrightarrow> rt_generation s \<noteq> rt_generation t) \<and>
    by_key tf_id (rt_familyId t) (families db) \<noteq> None \<and>
    db' = db\<lparr>tokens := tokens db @ [t]\<rparr>"
  by (auto simp: insertToken_def list_ex_iff)

lemma auth_inv_new_family:
  assumes inv: "auth_inv db"
    and f: "insertFamily f db = Inr db1" "tf_status f = ACTIVE" "tf_currentGeneration f = 0"
    and t: "insertToken t db1 = Inr db2" "rt_familyId t = tf_id f" "rt_generation t = 0"
      "rt_status t = ACTIVE" "rt_expiresAt t = tf_expiresAt f"
    and g: "g \<in> set (grants db)" "gr_id g = tf_grantId f" "gr_ownerId g = tf_ownerId f"
      "gr_clientId g = tf_clientId f" "gr_resource g = tf_resource f"
      "tf_expiresAt f \<le> gr_expiresAt g" "gr_status g = ACTIVE"
  shows "auth_inv db2"
proof -
  have db2: "db2 = db\<lparr>families := families db @ [f], tokens := tokens db @ [t]\<rparr>"
    using f(1) t(1) by (simp add: insertFamily_Inr insertToken_Inr)
  have fresh: "tf_id f \<notin> tf_id ` set (families db)" "rt_digest t \<notin> rt_digest ` set (tokens db)"
    "\<forall>s \<in> set (tokens db). rt_familyId s = rt_familyId t \<longrightarrow> rt_generation s \<noteq> rt_generation t"
    using f(1) t(1) by (auto simp: insertFamily_Inr insertToken_Inr by_key_None_iff)
  have "keys_ok db2" "refs_ok db2"
    using auth_invD(1,2) [OF inv] fresh by (auto simp: keys_ok_def refs_ok_def db2)
  moreover have "checks_ok db2"
    using auth_invD(3) [OF inv] f(2) t(4) by (simp add: checks_ok_def db2)
  moreover have "token_ok (families db2) s" if "s \<in> set (tokens db2)" for s
    using that auth_invD(4) [OF inv, of s] f(2,3) t(2-5) by (auto simp: token_ok_def db2)
  moreover have "family_ok (grants db2) (tokens db2) h" if "h \<in> set (families db2)" for h
    using that auth_invD(5) [OF inv, of h] g t(2,4) by (auto simp: family_ok_def db2)
  ultimately show ?thesis by (simp add: auth_inv_def)
qed

lemma auth_inv_advance:
  assumes inv: "auth_inv db"
    and rt: "rt \<in> set (tokens db)" "rt_digest rt = digest" "rt_status rt = ACTIVE"
    and tf: "tf \<in> set (families db)" "tf_id tf = rt_familyId rt" "tf_status tf = ACTIVE"
      "rt_generation rt = tf_currentGeneration tf"
    and adv: "advanceFamily digest nextDigest current tf db = Inr db'"
  shows "auth_inv db'"
proof -
  let ?C = "\<lambda>t. t\<lparr>rt_status := CONSUMED, rt_consumedAt := Some current\<rparr>"
  let ?B = "\<lambda>f. f\<lparr>tf_currentGeneration := tf_currentGeneration tf + 1\<rparr>"
  let ?new = "\<lparr>rt_digest = nextDigest, rt_familyId = tf_id tf,
    rt_generation = tf_currentGeneration tf + 1, rt_issuedAt = current,
    rt_expiresAt = tf_expiresAt tf, rt_consumedAt = None, rt_status = ACTIVE\<rparr>"
  note keys = auth_invD(1) [OF inv, unfolded keys_ok_def]
  have hit: "rt_digest t = digest \<and> rt_status t = ACTIVE \<longleftrightarrow> t = rt" if "t \<in> set (tokens db)" for t
    using rt that key_inj [of rt_digest "tokens db" t rt] keys by auto
  have bump: "tf_id f = tf_id tf \<and> tf_status f = ACTIVE \<and>
      tf_currentGeneration f = tf_currentGeneration tf \<longleftrightarrow> f = tf" if "f \<in> set (families db)" for f
    using tf(1,3) that key_inj [of tf_id "families db" f tf] keys by auto
  have consume: "update_where (\<lambda>t. rt_digest t = digest \<and> rt_status t = ACTIVE) ?C (tokens db) =
      map (\<lambda>t. if t = rt then ?C t else t) (tokens db)"
    unfolding update_where_def by (rule map_cong) (use hit in auto)
  have bumped: "update_where (\<lambda>f. tf_id f = tf_id tf \<and> tf_status f = ACTIVE \<and>
      tf_currentGeneration f = tf_currentGeneration tf) ?B (families db) =
      map (\<lambda>f. if f = tf then ?B f else f) (families db)"
    unfolding update_where_def by (rule map_cong) (use bump in auto)
  obtain db2 where ins: "insertToken ?new (db\<lparr>tokens :=
      update_where (\<lambda>t. rt_digest t = digest \<and> rt_status t = ACTIVE) ?C (tokens db)\<rparr>) = Inr db2"
    and upd: "db' = db2\<lparr>families := update_where (\<lambda>f. tf_id f = tf_id tf \<and> tf_status f = ACTIVE \<and>
      tf_currentGeneration f = tf_currentGeneration tf) ?B (families db2)\<rparr>"
    using adv by (auto simp: advanceFamily_def Let_def split: if_splits sum.splits)
  then have fresh: "nextDigest \<notin> rt_digest ` set (tokens db)"
    by (simp add: insertToken_Inr by_key_None_iff)
  have db': "db' = db\<lparr>tokens := map (\<lambda>t. if t = rt then ?C t else t) (tokens db) @ [?new],
      families := map (\<lambda>f. if f = tf then ?B f else f) (families db)\<rparr>"
    using ins upd consume bumped by (simp add: insertToken_Inr)
  have gen: "rt_generation t \<le> tf_currentGeneration tf"
    if "t \<in> set (tokens db)" "rt_familyId t = tf_id tf" for t
    using token_generation_le [OF inv that(1) tf(1)] that(2) by simp
  have fam': "families db' = map (\<lambda>f. if f = tf then ?B f else f) (families db)"
    by (simp add: db')
  have "map (\<lambda>t. (rt_familyId t, rt_generation t)) (tokens db') =
      map (\<lambda>t. (rt_familyId t, rt_generation t)) (tokens db) @ [(tf_id tf, tf_currentGeneration tf + 1)]"
    "map rt_digest (tokens db') = map rt_digest (tokens db) @ [nextDigest]"
    "map tf_id (families db') = map tf_id (families db)"
    by (auto simp: db')
  moreover have "(tf_id tf, tf_currentGeneration tf + 1) \<notin>
      (\<lambda>t. (rt_familyId t, rt_generation t)) ` set (tokens db)"
    using gen by force
  ultimately have "distinct (map (\<lambda>t. (rt_familyId t, rt_generation t)) (tokens db'))"
    "distinct (map rt_digest (tokens db'))" "distinct (map tf_id (families db'))"
    using keys fresh by simp_all
  then have "keys_ok db'" using keys by (simp add: keys_ok_def db')
  moreover have "refs_ok db'" using auth_invD(2) [OF inv] by (simp add: refs_ok_def db')
  moreover have "checks_ok db'" using auth_invD(3) [OF inv] by (auto simp: checks_ok_def db')
  moreover have "token_ok (families db') s'" if s': "s' \<in> set (tokens db')" for s'
  proof (cases "s' = ?new")
    case True
    then show ?thesis using tf by (auto simp: token_ok_def db' intro!: bexI [of _ "?B tf"])
  next
    case False
    with s' obtain s where s: "s \<in> set (tokens db)" "s' = (if s = rt then ?C s else s)"
      by (auto simp: db')
    obtain f where f: "f \<in> set (families db)" "tf_id f = rt_familyId s"
      "rt_generation s \<le> tf_currentGeneration f" "rt_expiresAt s = tf_expiresAt f"
      "rt_status s = ACTIVE \<longrightarrow> tf_status f = ACTIVE \<and> rt_generation s = tf_currentGeneration f"
      using auth_invD(4) [OF inv s(1)] by (auto simp: token_ok_def)
    have "s = rt" if "f = tf" "rt_status s = ACTIVE"
      using active_token_unique [OF inv s(1) rt(1) that(2) rt(3)] f(2) tf(2) that(1) by simp
    then have "rt_status s' \<noteq> ACTIVE" if "f = tf"
      using that s(2) rt(3) by (cases "s = rt") auto
    moreover have "rt_familyId s' = rt_familyId s" "rt_generation s' = rt_generation s"
      "rt_expiresAt s' = rt_expiresAt s" "rt_status s' = ACTIVE \<longrightarrow> rt_status s = ACTIVE"
      using s(2) by simp_all
    moreover have "(if f = tf then ?B f else f) \<in> set (families db')"
      unfolding fam' set_map by (rule image_eqI [OF _ f(1)]) simp
    ultimately show ?thesis
      using f(2-5) unfolding token_ok_def by (intro bexI [of _ "if f = tf then ?B f else f"]) auto
  qed
  moreover have "family_ok (grants db') (tokens db') h'" if h': "h' \<in> set (families db')" for h'
  proof -
    obtain h where h: "h \<in> set (families db)" "h' = (if h = tf then ?B h else h)"
      using h' by (auto simp: db')
    have ok: "family_ok (grants db) (tokens db) h" by (rule auth_invD(5) [OF inv h(1)])
    have "\<exists>t \<in> set (tokens db'). rt_familyId t = tf_id h' \<and> rt_status t = ACTIVE"
      if live: "tf_status h' = ACTIVE"
    proof (cases "h = tf")
      case True
      then show ?thesis using h by (auto simp: db')
    next
      case False
      then obtain t where t: "t \<in> set (tokens db)" "rt_familyId t = tf_id h" "rt_status t = ACTIVE"
        using ok live h(2) by (auto simp: family_ok_def)
      have "t \<noteq> rt"
        using t(2) tf(2) False key_inj [of tf_id "families db" h tf] h(1) tf(1) keys by auto
      then have "t \<in> set (tokens db')" using t(1) by (auto simp: db' image_iff)
      then show ?thesis using t h(2) False by auto
    qed
    then show ?thesis using ok h(2) by (auto simp: family_ok_def db')
  qed
  ultimately show ?thesis by (simp add: auth_inv_def)
qed

end
