(* ===== verification/AuthStore_Runs.thy ===== *)
theory AuthStore_Runs
  imports AuthStore_Inv
begin

text \<open>
  Runs of the auth store: any sequence of calls, in any order, with any arguments, failing
  or not. Every operation keeps the invariant of \<^verbatim>\<open>AuthStore_Inv\<close>, and every operation
  only moves forward: rows never disappear, their bindings never change, and no status
  that is not \<open>ACTIVE\<close> becomes \<open>ACTIVE\<close> again in the grant, family and token tables.
\<close>

section \<open>Operations keep the invariant\<close>

lemma auth_inv_createOwnerBootstrap:
  "auth_inv db \<Longrightarrow> auth_inv (fst (createOwnerBootstrap env ownerId secret createdAt expiresAt db))"
  by (auto simp: createOwnerBootstrap_def Let_def intro: auth_inv_add_owner
      split: attempt_splits option.splits)

lemma auth_inv_consumeOwnerBootstrap:
  "auth_inv db \<Longrightarrow> auth_inv (fst (consumeOwnerBootstrap env secret now db))"
  by (auto simp: consumeOwnerBootstrap_def Let_def intro: auth_inv_update_owners
      split: attempt_splits option.splits)

lemma auth_inv_registerClient:
  "auth_inv db \<Longrightarrow> auth_inv (fst (registerClient env clientId ownerId redirectUri createdAt db))"
  by (auto simp: registerClient_def Let_def intro!: auth_inv_update_clients auth_inv_add_client
      split: attempt_splits option.splits)

lemma auth_inv_expire_grant:
  assumes inv: "auth_inv db"
  shows "auth_inv (db\<lparr>grants := update_where (\<lambda>r. gr_id r = i \<and> gr_status r = ACTIVE)
    (\<lambda>r. r\<lparr>gr_status := EXPIRED\<rparr>) (grants db)\<rparr>)"
proof -
  have "family_ok (update_where (\<lambda>r. gr_id r = i \<and> gr_status r = ACTIVE)
      (\<lambda>r. r\<lparr>gr_status := EXPIRED\<rparr>) (grants db)) (tokens db) f" if "f \<in> set (families db)" for f
    using auth_invD(5) [OF inv that] by (fastforce simp: family_ok_def table_simps)
  then show ?thesis
    using inv by (simp add: auth_inv_def keys_ok_def refs_ok_def checks_ok_def table_simps)
qed

lemma auth_inv_getGrant: "auth_inv db \<Longrightarrow> auth_inv (fst (getGrant grantId now db))"
  by (auto simp: getGrant_def Let_def intro: auth_inv_expire_grant
      split: attempt_splits option.splits)

lemma auth_inv_createGrant:
  "auth_inv db \<Longrightarrow> auth_inv (fst (createGrant env grantId ownerId clientId resource scopes
     executionProfile grantedAt expiresAt db))"
  by (auto simp: createGrant_def intro!: auth_inv_getGrant auth_inv_add_grant
      split: attempt_splits option.splits)

lemma auth_inv_expireFamily: "auth_inv db \<Longrightarrow> auth_inv (expireFamily i current db)"
  unfolding expireFamily_def
  by (rule auth_inv_end_families) (auto dest: active_token_family)

lemma auth_inv_compromiseFamily: "auth_inv db \<Longrightarrow> auth_inv (compromiseFamily i current db)"
  unfolding compromiseFamily_def
  by (rule auth_inv_end_families) (auto dest: active_token_family)

lemma auth_inv_getTokenFamily:
  "auth_inv db \<Longrightarrow> auth_inv (fst (getTokenFamily commit_ok familyId now db))"
  by (auto simp: getTokenFamily_def transaction_def intro: auth_inv_expireFamily
      split: attempt_splits option.splits)

lemma getGrant_lookup:
  assumes "getGrant grantId now db = (db1, Inr (Some g))"
  shows "by_key gr_id grantId (grants db1) = Some g"
  using assms by (auto simp: getGrant_def Let_def split: attempt_splits option.splits if_splits)

lemma getGrant_other_tables:
  assumes "getGrant grantId now db = (db1, r)"
  shows "owners db1 = owners db" "clients db1 = clients db" "families db1 = families db"
    "tokens db1 = tokens db"
  using assms by (auto simp: getGrant_def Let_def split: attempt_splits option.splits if_splits)

text \<open>\<open>ACTIVE\<close> is only ever reported for a grant that has not expired.\<close>

lemma getGrant_active:
  assumes "getGrant grantId (Some at) db = (db1, Inr (Some g))" "gr_status g = ACTIVE"
  shows "at < gr_expiresAt g" "db1 = db" "by_key gr_id grantId (grants db) = Some g"
  using assms
  by (auto simp: getGrant_def Let_def isoTime_def by_key_update_where
      split: option.splits if_splits dest: by_key_SomeD(2))

lemma createFamily_body_inv:
  assumes "auth_inv db" "createFamily_body f t db = Inr (db2, u)"
    and "tf_status f = ACTIVE" "tf_currentGeneration f = 0"
    and "rt_familyId t = tf_id f" "rt_generation t = 0" "rt_status t = ACTIVE"
      "rt_expiresAt t = tf_expiresAt f"
    and "by_key gr_id (tf_grantId f) (grants db) = Some g" "gr_ownerId g = tf_ownerId f"
      "gr_clientId g = tf_clientId f" "gr_resource g = tf_resource f"
      "tf_expiresAt f \<le> gr_expiresAt g" "gr_status g = ACTIVE"
  shows "auth_inv db2"
proof -
  obtain db1 where "insertFamily f db = Inr db1" "insertToken t db1 = Inr db2"
    using assms(2) by (auto simp: createFamily_body_def split: sum.splits)
  then show ?thesis
    using auth_inv_new_family [OF assms(1)] assms(3-) by (auto dest!: by_key_Some_imp [of gr_id])
qed

lemma auth_inv_createTokenFamily:
  assumes inv: "auth_inv db"
  shows "auth_inv (fst (createTokenFamily env commit_ok familyId grantId ownerId clientId resource
    refreshToken createdAt expiresAt db))"
proof -
  have get: "auth_inv db1" if "getGrant grantId (Some created) db = (db1, r)" for created db1 r
    using auth_inv_getGrant [OF inv, of grantId "Some created"] that by simp
  have tr: "auth_inv db2"
    if "transaction commit_ok engine_error storage_failure (createFamily_body f t) db1 = (db2, r)"
      "getGrant grantId (Some created) db = (db1, Inr (Some g))"
      "tf_status f = ACTIVE" "tf_currentGeneration f = 0" "tf_grantId f = grantId"
      "rt_familyId t = tf_id f" "rt_generation t = 0" "rt_status t = ACTIVE"
      "rt_expiresAt t = tf_expiresAt f" "gr_ownerId g = tf_ownerId f"
      "gr_clientId g = tf_clientId f" "gr_resource g = tf_resource f"
      "tf_expiresAt f \<le> gr_expiresAt g" "gr_status g = ACTIVE" for f t db1 db2 r created g
    using that(1) get [OF that(2)] createFamily_body_inv [OF get [OF that(2)] _ that(3,4,6-9), of _ _ g]
      getGrant_lookup [OF that(2)] that(5,10-)
    by (auto simp: transaction_def split: sum.splits if_splits)
  show ?thesis
    unfolding createTokenFamily_def
    by (auto simp: inv dest: get tr intro!: auth_inv_getTokenFamily
        split: attempt_splits prod.splits sum.splits option.splits if_splits)
qed

lemma rotation_row_SomeD:
  assumes "rotation_row digest db = Some (rt, tf, g)"
  shows "by_key rt_digest digest (tokens db) = Some rt" "rt \<in> set (tokens db)" "rt_digest rt = digest"
    "by_key tf_id (rt_familyId rt) (families db) = Some tf"
    "tf \<in> set (families db)" "tf_id tf = rt_familyId rt"
    "by_key gr_id (tf_grantId tf) (grants db) = Some g"
    "g \<in> set (grants db)" "gr_id g = tf_grantId tf"
  using assms by (auto simp: rotation_row_def split: option.splits dest: by_key_SomeD)

lemma auth_inv_rotate_body:
  assumes inv: "auth_inv db" and body: "rotate_body digest nextDigest clientId resource current db = Inr (db', r)"
  shows "auth_inv db'"
proof (cases "rotation_row digest db")
  case None
  with inv body show ?thesis by (simp add: rotate_body_def)
next
  case (Some a)
  obtain rt tf g where a: "a = (rt, tf, g)" by (cases a) auto
  note row = rotation_row_SomeD [OF Some [unfolded a]]
  show ?thesis
    using body inv Some a row(2,3,5,6)
    by (auto simp: rotate_body_def intro: auth_inv_expireFamily auth_inv_compromiseFamily
        auth_inv_advance split: if_splits sum.splits)
qed

lemma auth_inv_rotateRefreshToken:
  assumes inv: "auth_inv db"
  shows "auth_inv (fst (rotateRefreshToken env commit_ok refreshToken nextRefreshToken clientId
    resource now db))"
proof -
  have tr: "auth_inv db1"
    if "transaction commit_ok engine_error rethrow_or_storage_failure
        (rotate_body digest nextDigest cid res current) db = (db1, r)" for digest nextDigest cid res current db1 r
    using that inv by (auto simp: transaction_def intro: auth_inv_rotate_body split: sum.splits if_splits)
  have fam: "auth_inv db2" if "getTokenFamily commit_ok i now' db1 = (db2, r)" "auth_inv db1" for i now' db1 db2 r
    using auth_inv_getTokenFamily [OF that(2), of commit_ok i now'] that(1) by simp
  have gr: "auth_inv db2" if "getGrant i now' db1 = (db2, r)" "auth_inv db1" for i now' db1 db2 r
    using auth_inv_getGrant [OF that(2), of i now'] that(1) by simp
  show ?thesis
    unfolding rotateRefreshToken_def
    by (auto simp: inv dest!: tr dest: fam gr split: attempt_splits prod.splits sum.splits)
qed

lemma auth_inv_revokeTokenFamily:
  "auth_inv db \<Longrightarrow> auth_inv (fst (revokeTokenFamily commit_ok familyId ownerId revokedAt reason db))"
proof -
  assume inv: "auth_inv db"
  have "auth_inv (revokeTokens (\<lambda>t. rt_familyId t = familyId)
      (endFamilies (\<lambda>f. tf_id f = familyId \<and> tf_ownerId f = ownerId \<and> tf_status f = ACTIVE)
        REVOKED at reason db))"
    if row: "by_key tf_id familyId (families db) = Some f" "tf_ownerId f = ownerId" for f at
  proof (rule auth_inv_end_families [OF inv])
    have "distinct (map tf_id (families db))" using auth_invD(1) [OF inv] by (simp add: keys_ok_def)
    then show "\<not> rt_familyId t = familyId"
      if "h \<in> set (families db)" "\<not> (tf_id h = familyId \<and> tf_ownerId h = ownerId \<and> tf_status h = ACTIVE)"
        "tf_status h = ACTIVE" "rt_familyId t = tf_id h" for h and t :: refresh_token
      using that row by (metis by_key_member option.inject)
  qed auto
  then show ?thesis
    using inv by (auto simp: revokeTokenFamily_def transaction_def split: attempt_splits option.splits)
qed

lemma auth_inv_revokeRefreshToken:
  "auth_inv db \<Longrightarrow> auth_inv (fst (revokeRefreshToken env commit_ok refreshToken clientId revokedAt reason db))"
  by (auto simp: revokeRefreshToken_def auth_inv_revokeTokenFamily
      split: attempt_splits option.splits list.splits)

lemma token_family_in_endFamilies [simp]:
  assumes "\<And>f x y z. Q (f\<lparr>tf_status := x, tf_revokedAt := y, tf_revokeReason := z\<rparr>) = Q f"
  shows "token_family_in Q (endFamilies P st at reason db) = token_family_in Q db"
  using assms by (simp add: token_family_in_def endFamilies_def list_ex_iff fun_eq_iff
      table_simps)

lemma token_family_in_revokeGrants [simp]: "token_family_in Q (revokeGrants G db) = token_family_in Q db"
  by (simp add: token_family_in_def revokeGrants_def fun_eq_iff)

lemma token_family_in_key:
  assumes "auth_inv db" "f \<in> set (families db)" "rt_familyId t = tf_id f"
  shows "token_family_in Q db t \<longleftrightarrow> Q f"
proof -
  have "distinct (map tf_id (families db))" using auth_invD(1) [OF assms(1)] by (simp add: keys_ok_def)
  then show ?thesis using assms(2,3) by (auto simp: token_family_in_def list_ex_iff dest: key_inj)
qed

lemma auth_inv_revokeGrant_tables:
  assumes inv: "auth_inv db"
  shows "auth_inv (revokeGrant_tables grantId ownerId at reason db)"
  unfolding revokeGrant_tables_def Let_def
  by (rule auth_inv_revoke_all [OF inv])
     (auto simp: live_or_compromised_def token_family_in_key [OF inv])

lemma auth_inv_revokeOwner_tables:
  assumes inv: "auth_inv db" and "st = REVOKED \<or> st = RESET"
  shows "auth_inv (revokeOwner_tables ownerId st at reason db)"
  unfolding revokeOwner_tables_def Let_def
  by (rule auth_inv_revoke_all [OF inv])
     (use assms(2) in \<open>auto simp: live_or_compromised_def token_family_in_key [OF inv]\<close>)

lemma auth_inv_revokeGrant:
  "auth_inv db \<Longrightarrow> auth_inv (fst (revokeGrant commit_ok grantId ownerId revokedAt reason db))"
  by (auto simp: revokeGrant_def transaction_def intro!: auth_inv_getGrant auth_inv_revokeGrant_tables
      split: attempt_splits option.splits)

lemma auth_inv_revokeOwnerAccess:
  "auth_inv db \<Longrightarrow> auth_inv (fst (revokeOwnerAccess commit_ok ownerId revokedAt reason db))"
  by (auto simp: revokeOwnerAccess_def transaction_def intro!: auth_inv_revokeOwner_tables
      split: attempt_splits)

lemma auth_inv_resetOwner_body:
  assumes inv: "auth_inv db" and "resetOwner_body ownerId digest reset expires db = Inr (db', u)"
  shows "auth_inv db'"
proof -
  define s1 where "s1 = revokeOwner_tables ownerId RESET reset ''owner_reset'' db"
  define s2 where "s2 = s1\<lparr>clients := update_where (\<lambda>c. cl_ownerId c = ownerId)
    (\<lambda>c. c\<lparr>cl_status := DISABLED\<rparr>) (clients s1)\<rparr>"
  have "auth_inv s1" unfolding s1_def by (rule auth_inv_revokeOwner_tables [OF inv]) simp
  then have "auth_inv s2" unfolding s2_def by (rule auth_inv_update_clients) simp_all
  moreover have "db' = s2\<lparr>owners := update_where (\<lambda>w. own_id w = ownerId)
      (\<lambda>w. w\<lparr>own_bootstrapDigest := digest, own_bootstrapExpiresAt := expires,
             own_bootstrapConsumedAt := None, own_status := ACTIVE\<rparr>) (owners s2)\<rparr>"
    using assms(2)
    by (auto simp: resetOwner_body_def Let_def s1_def [symmetric] s2_def [symmetric] split: if_splits)
  ultimately show ?thesis by (auto intro: auth_inv_update_owners)
qed

lemma auth_inv_resetOwnerAccess:
  "auth_inv db \<Longrightarrow> auth_inv (fst (resetOwnerAccess env commit_ok ownerId secret resetAt expiresAt db))"
  by (auto simp: resetOwnerAccess_def transaction_def dest: auth_inv_resetOwner_body
      split: attempt_splits option.splits sum.splits)

lemmas auth_inv_ops =
  auth_inv_createOwnerBootstrap auth_inv_consumeOwnerBootstrap auth_inv_registerClient
  auth_inv_createGrant auth_inv_getGrant auth_inv_createTokenFamily auth_inv_getTokenFamily
  auth_inv_rotateRefreshToken auth_inv_revokeTokenFamily auth_inv_revokeRefreshToken
  auth_inv_revokeGrant auth_inv_revokeOwnerAccess auth_inv_resetOwnerAccess

section \<open>Calls and runs\<close>

text \<open>
  One constructor per public method, with its arguments; the first Boolean of a method that
  opens a transaction tells whether SQLite carries it out.
\<close>

datatype auth_op =
  CreateOwnerBootstrap string "string option" "time option" "time option"
| ConsumeOwnerBootstrap "string option" "time option"
| RegisterClient string string string "time option"
| CreateGrant string string string string "string list option" string "time option" "time option"
| GetGrant string "time option"
| CreateTokenFamily bool string string string string string string "time option" "time option"
| GetTokenFamily bool string "time option"
| RotateRefreshToken bool string string string string "time option"
| RevokeTokenFamily bool string string "time option" string
| RevokeRefreshToken bool string "string option" "time option" string
| RevokeGrant bool string string "time option" string
| RevokeOwnerAccess bool string "time option" string
| ResetOwnerAccess bool string "string option" "time option" "time option"

fun auth_exec :: "auth_env \<Rightarrow> auth_op \<Rightarrow> auth_db \<Rightarrow> auth_db" where
  "auth_exec env (CreateOwnerBootstrap w s c e) db = fst (createOwnerBootstrap env w s c e db)"
| "auth_exec env (ConsumeOwnerBootstrap s n) db = fst (consumeOwnerBootstrap env s n db)"
| "auth_exec env (RegisterClient c w u t) db = fst (registerClient env c w u t db)"
| "auth_exec env (CreateGrant i w c r s p g e) db = fst (createGrant env i w c r s p g e db)"
| "auth_exec env (GetGrant i n) db = fst (getGrant i n db)"
| "auth_exec env (CreateTokenFamily k i g w c r t a e) db =
     fst (createTokenFamily env k i g w c r t a e db)"
| "auth_exec env (GetTokenFamily k i n) db = fst (getTokenFamily k i n db)"
| "auth_exec env (RotateRefreshToken k t t' c r n) db = fst (rotateRefreshToken env k t t' c r n db)"
| "auth_exec env (RevokeTokenFamily k i w a y) db = fst (revokeTokenFamily k i w a y db)"
| "auth_exec env (RevokeRefreshToken k t c a y) db = fst (revokeRefreshToken env k t c a y db)"
| "auth_exec env (RevokeGrant k i w a y) db = fst (revokeGrant k i w a y db)"
| "auth_exec env (RevokeOwnerAccess k w a y) db = fst (revokeOwnerAccess k w a y db)"
| "auth_exec env (ResetOwnerAccess k w s a e) db = fst (resetOwnerAccess env k w s a e db)"

fun auth_run :: "auth_env \<Rightarrow> auth_op list \<Rightarrow> auth_db \<Rightarrow> auth_db" where
  "auth_run env [] db = db"
| "auth_run env (x # xs) db = auth_run env xs (auth_exec env x db)"

lemma auth_inv_exec: "auth_inv db \<Longrightarrow> auth_inv (auth_exec env x db)"
  by (cases x) (simp_all add: auth_inv_ops)

lemma auth_inv_run: "auth_inv db \<Longrightarrow> auth_inv (auth_run env xs db)"
  by (induction xs arbitrary: db) (auto simp: auth_inv_exec)

section \<open>Operations move forward\<close>

definition grant_later :: "grant \<Rightarrow> grant \<Rightarrow> bool" where
  "grant_later g g' \<longleftrightarrow> g' = g\<lparr>gr_status := gr_status g'\<rparr> \<and>
     (gr_status g \<noteq> ACTIVE \<longrightarrow> gr_status g' = gr_status g)"

definition family_later :: "family \<Rightarrow> family \<Rightarrow> bool" where
  "family_later f f' \<longleftrightarrow> tf_id f' = tf_id f \<and> tf_grantId f' = tf_grantId f \<and>
     tf_ownerId f' = tf_ownerId f \<and> tf_clientId f' = tf_clientId f \<and>
     tf_resource f' = tf_resource f \<and> tf_expiresAt f' = tf_expiresAt f \<and>
     tf_currentGeneration f \<le> tf_currentGeneration f' \<and>
     (tf_status f \<noteq> ACTIVE \<longrightarrow> tf_status f' \<noteq> ACTIVE)"

definition token_later :: "refresh_token \<Rightarrow> refresh_token \<Rightarrow> bool" where
  "token_later t t' \<longleftrightarrow> rt_digest t' = rt_digest t \<and> rt_familyId t' = rt_familyId t \<and>
     rt_generation t' = rt_generation t \<and> rt_expiresAt t' = rt_expiresAt t \<and>
     (rt_status t \<noteq> ACTIVE \<longrightarrow> rt_status t' = rt_status t)"

definition auth_later :: "auth_db \<Rightarrow> auth_db \<Rightarrow> bool" where
  "auth_later db db' \<longleftrightarrow> grows gr_id grant_later (grants db) (grants db') \<and>
     grows tf_id family_later (families db) (families db') \<and>
     grows rt_digest token_later (tokens db) (tokens db')"

lemmas later_defs = grant_later_def family_later_def token_later_def

lemma later_refl [simp, intro]: "reflp grant_later" "reflp family_later" "reflp token_later"
  by (simp_all add: reflp_def later_defs)

lemma grant_later_trans: "transp grant_later"
proof (rule transpI)
  fix a b c
  assume "grant_later a b" "grant_later b c"
  then show "grant_later a c"
    unfolding grant_later_def by (metis grant.surjective grant.update_convs(9))
qed

lemma later_trans [simp, intro]: "transp family_later" "transp token_later"
  by (auto intro!: transpI simp: family_later_def token_later_def)

lemma auth_later_refl [simp, intro]: "auth_later db db"
  by (auto simp: auth_later_def)

lemma auth_later_trans: "auth_later a b \<Longrightarrow> auth_later b c \<Longrightarrow> auth_later a c"
  unfolding auth_later_def
  by (blast intro: grows_trans grant_later_trans later_trans)

text \<open>The statements of the methods, one by one.\<close>

lemma auth_later_same:
  "grants db' = grants db \<Longrightarrow> families db' = families db \<Longrightarrow> tokens db' = tokens db \<Longrightarrow> auth_later db db'"
  by (auto simp: auth_later_def)

lemma auth_later_grants:
  assumes "\<And>g. P g \<Longrightarrow> gr_status g = ACTIVE"
  shows "auth_later db (db\<lparr>grants := update_where P (\<lambda>g. g\<lparr>gr_status := st\<rparr>) (grants db)\<rparr>)"
  using assms by (auto simp: auth_later_def grant_later_def)

lemma auth_later_add_grant: "auth_later db (db\<lparr>grants := grants db @ [g]\<rparr>)"
  by (auto simp: auth_later_def)

lemma auth_later_revokeGrants: "auth_later db (revokeGrants G db)"
  unfolding revokeGrants_def by (rule auth_later_grants) simp

lemma auth_later_endFamilies: "st \<noteq> ACTIVE \<Longrightarrow> auth_later db (endFamilies P st at reason db)"
  by (auto simp: endFamilies_def auth_later_def family_later_def)

lemma auth_later_revokeTokens: "auth_later db (revokeTokens T db)"
  by (auto simp: revokeTokens_def auth_later_def token_later_def)

lemma auth_later_insertFamily: "insertFamily f db = Inr db' \<Longrightarrow> auth_later db db'"
  by (auto simp: insertFamily_Inr auth_later_def)

lemma auth_later_insertToken: "insertToken t db = Inr db' \<Longrightarrow> auth_later db db'"
  by (auto simp: insertToken_Inr auth_later_def)

lemma auth_later_expireFamily: "auth_later db (expireFamily i at db)"
  unfolding expireFamily_def
  by (rule auth_later_trans [OF auth_later_endFamilies auth_later_revokeTokens]) simp

lemma auth_later_compromiseFamily: "auth_later db (compromiseFamily i at db)"
  unfolding compromiseFamily_def
  by (rule auth_later_trans [OF auth_later_endFamilies auth_later_revokeTokens]) simp

lemma auth_later_advanceFamily:
  assumes "advanceFamily digest nextDigest current tf db = Inr db'"
  shows "auth_later db db'"
proof -
  let ?db1 = "db\<lparr>tokens := update_where (\<lambda>t. rt_digest t = digest \<and> rt_status t = ACTIVE)
    (\<lambda>t. t\<lparr>rt_status := CONSUMED, rt_consumedAt := Some current\<rparr>) (tokens db)\<rparr>"
  obtain t db2 where ins: "insertToken t ?db1 = Inr db2"
    and db': "db' = db2\<lparr>families := update_where (\<lambda>f. tf_id f = tf_id tf \<and> tf_status f = ACTIVE \<and>
        tf_currentGeneration f = tf_currentGeneration tf)
      (\<lambda>f. f\<lparr>tf_currentGeneration := tf_currentGeneration tf + 1\<rparr>) (families db2)\<rparr>"
    using assms by (auto simp: advanceFamily_def Let_def split: if_splits sum.splits)
  have "auth_later db ?db1" by (auto simp: auth_later_def token_later_def)
  moreover have "auth_later ?db1 db2" by (rule auth_later_insertToken [OF ins])
  moreover have "auth_later db2 db'" by (auto simp: db' auth_later_def family_later_def)
  ultimately show ?thesis by (blast intro: auth_later_trans)
qed

lemma auth_later_createFamily_body:
  assumes "createFamily_body f t db = Inr (db', u)"
  shows "auth_later db db'"
proof -
  obtain db1 where "insertFamily f db = Inr db1" "insertToken t db1 = Inr db'"
    using assms by (auto simp: createFamily_body_def split: sum.splits)
  then show ?thesis
    by (rule auth_later_trans [OF auth_later_insertFamily auth_later_insertToken])
qed

lemma auth_later_rotate_body:
  "rotate_body digest nextDigest clientId resource current db = Inr (db', r) \<Longrightarrow> auth_later db db'"
  by (auto simp: rotate_body_def auth_later_expireFamily auth_later_compromiseFamily
      dest: auth_later_advanceFamily split: option.splits if_splits sum.splits)

lemma auth_later_end_and_revoke:
  "st \<noteq> ACTIVE \<Longrightarrow> auth_later db (revokeTokens T (endFamilies P st at reason db))"
  by (rule auth_later_trans [OF auth_later_endFamilies auth_later_revokeTokens])

lemma auth_later_revokeGrant_tables: "auth_later db (revokeGrant_tables i w at reason db)"
  unfolding revokeGrant_tables_def Let_def
  by (rule auth_later_trans [OF auth_later_revokeGrants auth_later_end_and_revoke]) simp

lemma auth_later_revokeOwner_tables:
  "st \<noteq> ACTIVE \<Longrightarrow> auth_later db (revokeOwner_tables w st at reason db)"
  unfolding revokeOwner_tables_def Let_def
  by (rule auth_later_trans [OF auth_later_revokeGrants auth_later_end_and_revoke])

lemma auth_later_resetOwner_body:
  assumes "resetOwner_body w d reset expires db = Inr (db', u)"
  shows "auth_later db db'"
proof -
  have "auth_later db (revokeOwner_tables w RESET reset ''owner_reset'' db)"
    by (rule auth_later_revokeOwner_tables) simp
  moreover have "auth_later (revokeOwner_tables w RESET reset ''owner_reset'' db) db'"
    using assms by (intro auth_later_same) (auto simp: resetOwner_body_def Let_def split: if_splits)
  ultimately show ?thesis by (rule auth_later_trans)
qed

lemma auth_later_transaction:
  assumes "\<And>db' a. body db = Inr (db', a) \<Longrightarrow> auth_later db db'"
  shows "auth_later db (fst (transaction ok err h body db))"
  by (rule transaction_invariant [where P = "auth_later db"]) (simp_all add: assms auth_later_refl)

lemma auth_later_expire_grant:
  "auth_later db (db\<lparr>grants := update_where (\<lambda>r. gr_id r = i \<and> gr_status r = ACTIVE)
    (\<lambda>r. r\<lparr>gr_status := EXPIRED\<rparr>) (grants db)\<rparr>)"
  by (rule auth_later_grants) simp

lemma auth_later_getGrant: "auth_later db (fst (getGrant i now db))"
  by (simp add: getGrant_def Let_def auth_later_expire_grant
      split: attempt_splits option.splits if_splits)

lemma auth_later_getTokenFamily: "auth_later db (fst (getTokenFamily ok i now db))"
  by (auto simp: getTokenFamily_def transaction_def auth_later_expireFamily
      split: attempt_splits option.splits if_splits)

text \<open>A method's steps one after the other.\<close>

lemma auth_later_step: "auth_later db (fst p) \<Longrightarrow> p = (db1, r) \<Longrightarrow> auth_later db db1"
  by simp

lemmas auth_later_got = auth_later_step [OF auth_later_getGrant] auth_later_step [OF auth_later_getTokenFamily]

lemma auth_later_createGrant:
  "auth_later db (fst (createGrant env i w c r scs p g e db))"
  by (auto simp: createGrant_def split: attempt_splits option.splits
      intro!: auth_later_trans [OF auth_later_add_grant auth_later_getGrant])

lemma auth_later_createTokenFamily:
  "auth_later db (fst (createTokenFamily env ok i g w c r t a e db))"
proof -
  have tr: "auth_later db1 db2"
    if "transaction ok engine_error storage_failure (createFamily_body f t) db1 = (db2, r)" for f t db1 db2 r
    by (rule auth_later_step [OF auth_later_transaction that]) (rule auth_later_createFamily_body)
  have two: "auth_later db db2"
    if "getGrant g n db = (db1, r1)"
      "transaction ok engine_error storage_failure (createFamily_body f t) db1 = (db2, r2)" for n f t db1 db2 r1 r2
    by (rule auth_later_trans [OF auth_later_got(1) [OF that(1)] tr [OF that(2)]])
  have three: "auth_later db (fst (getTokenFamily ok i k db2))"
    if "getGrant g n db = (db1, r1)"
      "transaction ok engine_error storage_failure (createFamily_body f t) db1 = (db2, r2)" for n k f t db1 db2 r1 r2
    by (rule auth_later_trans [OF two [OF that] auth_later_getTokenFamily])
  show ?thesis
    unfolding createTokenFamily_def
    by (auto split: attempt_splits prod.splits sum.splits option.splits if_splits
        intro: auth_later_got(1) two three)
qed

lemma auth_later_rotateRefreshToken:
  "auth_later db (fst (rotateRefreshToken env ok t t' c r now db))"
proof -
  have tr: "auth_later db db1"
    if "transaction ok engine_error rethrow_or_storage_failure
      (rotate_body d d' cid res current) db = (db1, x)" for d d' cid res current db1 x
    by (rule auth_later_step [OF auth_later_transaction that]) (rule auth_later_rotate_body)
  have fam: "auth_later db db2"
    if "transaction ok engine_error rethrow_or_storage_failure
      (rotate_body d d' cid res current) db = (db1, x)" "getTokenFamily ok i n db1 = (db2, y)"
    for d d' cid res current db1 x i n db2 y
    by (rule auth_later_trans [OF tr [OF that(1)] auth_later_got(2) [OF that(2)]])
  have gr: "auth_later db db3"
    if "transaction ok engine_error rethrow_or_storage_failure
      (rotate_body d d' cid res current) db = (db1, x)" "getTokenFamily ok i n db1 = (db2, y)"
      "getGrant j m db2 = (db3, z)"
    for d d' cid res current db1 x i n db2 y j m db3 z
    by (rule auth_later_trans [OF fam [OF that(1,2)] auth_later_got(1) [OF that(3)]])
  show ?thesis
    unfolding rotateRefreshToken_def
    by (auto split: attempt_splits prod.splits sum.splits intro: tr fam gr)
qed

lemma auth_later_revokeTokenFamily: "auth_later db (fst (revokeTokenFamily ok i w a y db))"
  by (auto simp: revokeTokenFamily_def transaction_def auth_later_end_and_revoke
      split: attempt_splits option.splits)

lemma auth_later_revokeRefreshToken: "auth_later db (fst (revokeRefreshToken env ok t c a y db))"
  by (auto simp: revokeRefreshToken_def auth_later_revokeTokenFamily
      split: attempt_splits option.splits list.splits)

lemma auth_later_revokeGrant: "auth_later db (fst (revokeGrant ok i w a y db))"
  by (auto simp: revokeGrant_def transaction_def split: attempt_splits option.splits
      intro!: auth_later_trans [OF auth_later_revokeGrant_tables auth_later_getGrant])

lemma auth_later_revokeOwnerAccess: "auth_later db (fst (revokeOwnerAccess ok w a y db))"
  by (auto simp: revokeOwnerAccess_def transaction_def split: attempt_splits
      intro!: auth_later_revokeOwner_tables)

lemma auth_later_resetOwnerAccess: "auth_later db (fst (resetOwnerAccess env ok w s a e db))"
  by (auto simp: resetOwnerAccess_def transaction_def dest: auth_later_resetOwner_body
      split: attempt_splits option.splits sum.splits)

lemma auth_later_owner_ops:
  "auth_later db (fst (createOwnerBootstrap env w s c e db))"
  "auth_later db (fst (consumeOwnerBootstrap env s n db))"
  "auth_later db (fst (registerClient env i w u c db))"
  by (auto simp: createOwnerBootstrap_def consumeOwnerBootstrap_def registerClient_def Let_def
      intro!: auth_later_same split: attempt_splits option.splits)

lemma auth_later_exec: "auth_later db (auth_exec env x db)"
  by (cases x) (simp_all add: auth_later_owner_ops auth_later_createGrant auth_later_createTokenFamily
    auth_later_rotateRefreshToken auth_later_revokeTokenFamily auth_later_revokeRefreshToken
    auth_later_revokeGrant auth_later_revokeOwnerAccess auth_later_resetOwnerAccess
    auth_later_getGrant auth_later_getTokenFamily)

lemma auth_later_run: "auth_later db (auth_run env xs db)"
proof (induction xs arbitrary: db)
  case (Cons x xs)
  show ?case using auth_later_trans [OF auth_later_exec Cons.IH] by simp
qed simp

end
