(* ===== verification/AuthStore_Props.thy ===== *)
theory AuthStore_Props
  imports AuthStore_Runs
begin

text \<open>
  What the operations of the auth store do to the tables, branch by branch, and what a
  refresh token can still do after it. The rotation of refresh tokens is stated first on
  the branch that succeeds, then on the branches that end the family.
\<close>

section \<open>Rotation\<close>

lemma getGrant_unexpired:
  assumes "by_key gr_id i (grants db) = Some g" "current < gr_expiresAt g"
  shows "getGrant i (Some current) db = (db, Inr (Some g))"
  using assms by (simp add: getGrant_def isoTime_def)

lemma getTokenFamily_unexpired:
  assumes "by_key tf_id i (families db) = Some f" "current < tf_expiresAt f"
  shows "getTokenFamily ok i (Some current) db = (db, Inr (Some f))"
  using assms by (simp add: getTokenFamily_def isoTime_def)

lemma isoTime_Inr [simp]: "isoTime v = Inr t \<longleftrightarrow> v = Some t"
  by (auto simp: isoTime_def split: option.splits)

lemma advanceFamily_effects:
  assumes adv: "advanceFamily digest nextDigest current tf db = Inr db'"
    and rt: "by_key rt_digest digest (tokens db) = Some rt" "rt_status rt = ACTIVE"
    and tf: "by_key tf_id (tf_id tf) (families db) = Some tf" "tf_status tf = ACTIVE"
  shows "by_key rt_digest digest (tokens db')
      = Some (rt\<lparr>rt_status := CONSUMED, rt_consumedAt := Some current\<rparr>)"
    and "by_key rt_digest nextDigest (tokens db')
      = Some \<lparr>rt_digest = nextDigest, rt_familyId = tf_id tf,
              rt_generation = tf_currentGeneration tf + 1, rt_issuedAt = current,
              rt_expiresAt = tf_expiresAt tf, rt_consumedAt = None, rt_status = ACTIVE\<rparr>"
    and "by_key tf_id (tf_id tf) (families db')
      = Some (tf\<lparr>tf_currentGeneration := tf_currentGeneration tf + 1\<rparr>)"
    and "d \<noteq> digest \<Longrightarrow> d \<noteq> nextDigest \<Longrightarrow>
      by_key rt_digest d (tokens db') = by_key rt_digest d (tokens db)"
    and "i \<noteq> tf_id tf \<Longrightarrow> by_key tf_id i (families db') = by_key tf_id i (families db)"
    and "by_key rt_digest nextDigest (tokens db) = None"
    and "owners db' = owners db" "clients db' = clients db" "grants db' = grants db"
proof -
  let ?hit = "\<lambda>t. rt_digest t = digest \<and> rt_status t = ACTIVE"
  let ?C = "\<lambda>t. t\<lparr>rt_status := CONSUMED, rt_consumedAt := Some current\<rparr>"
  let ?new = "\<lparr>rt_digest = nextDigest, rt_familyId = tf_id tf,
    rt_generation = tf_currentGeneration tf + 1, rt_issuedAt = current,
    rt_expiresAt = tf_expiresAt tf, rt_consumedAt = None, rt_status = ACTIVE\<rparr>"
  let ?up = "update_where (\<lambda>f. tf_id f = tf_id tf \<and> tf_status f = ACTIVE \<and>
    tf_currentGeneration f = tf_currentGeneration tf)
    (\<lambda>f. f\<lparr>tf_currentGeneration := tf_currentGeneration tf + 1\<rparr>) (families db)"
  have db': "db' = db\<lparr>tokens := update_where ?hit ?C (tokens db) @ [?new], families := ?up\<rparr>"
    and fresh: "by_key rt_digest nextDigest (update_where ?hit ?C (tokens db)) = None"
    using adv by (auto simp: advanceFamily_def Let_def insertToken_Inr split: if_splits sum.splits)
  have look: "by_key rt_digest d (update_where ?hit ?C (tokens db))
      = map_option (\<lambda>t. if ?hit t then ?C t else t) (by_key rt_digest d (tokens db))" for d
    by (simp add: by_key_update_where)
  have fam: "by_key tf_id i ?up = map_option (\<lambda>f. if tf_id f = tf_id tf \<and> tf_status f = ACTIVE \<and>
      tf_currentGeneration f = tf_currentGeneration tf
    then f\<lparr>tf_currentGeneration := tf_currentGeneration tf + 1\<rparr> else f) (by_key tf_id i (families db))" for i
    by (rule by_key_update_where) simp
  show "by_key rt_digest nextDigest (tokens db) = None" using fresh by (simp add: look)
  then show "by_key rt_digest nextDigest (tokens db') = Some ?new"
    by (simp add: db' by_key_append look)
  show "by_key rt_digest digest (tokens db') = Some (?C rt)"
    using rt by_key_SomeD(2) [OF rt(1)] by (simp add: db' by_key_append look)
  show "by_key rt_digest d (tokens db') = by_key rt_digest d (tokens db)"
    if "d \<noteq> digest" "d \<noteq> nextDigest"
  proof (cases "by_key rt_digest d (tokens db)")
    case None
    then show ?thesis using that by (simp add: db' by_key_append look)
  next
    case (Some t)
    then have "rt_digest t = d" by (rule by_key_SomeD)
    with Some that show ?thesis by (simp add: db' by_key_append look)
  qed
  show "by_key tf_id (tf_id tf) (families db')
      = Some (tf\<lparr>tf_currentGeneration := tf_currentGeneration tf + 1\<rparr>)"
    using tf fam [of "tf_id tf"] by (simp add: db')
  show "by_key tf_id i (families db') = by_key tf_id i (families db)" if "i \<noteq> tf_id tf"
  proof (cases "by_key tf_id i (families db)")
    case None
    then show ?thesis using fam [of i] by (simp add: db')
  next
    case (Some f)
    then have "tf_id f = i" by (rule by_key_SomeD)
    with Some that show ?thesis using fam [of i] by (simp add: db')
  qed
qed (use adv in \<open>auto simp: advanceFamily_def Let_def insertToken_Inr split: if_splits sum.splits\<close>)

text \<open>
  A rotation that returns: the presented token was the live token of a live family of a
  live grant, bound to the same client and resource; the reads that follow the transaction
  find what it wrote.
\<close>

lemma rotateRefreshToken_Inr:
  assumes "rotateRefreshToken env ok token nextToken clientId resource now db = (db', Inr (fam, gr))"
  obtains digest nextDigest current rt tf g where
    "ok" "now = Some current" "hashRefreshToken env token = Inr digest"
    "hashRefreshToken env nextToken = Inr nextDigest" "digest \<noteq> nextDigest"
    "clientIdentifier env clientId = Inr (tf_clientId tf)"
    "exactHttpsUrl env resource = Inr (tf_resource tf)"
    "rotation_row digest db = Some (rt, tf, g)"
    "tf_status tf = ACTIVE" "gr_status g = ACTIVE" "rt_status rt = ACTIVE"
    "current < tf_expiresAt tf" "current < gr_expiresAt g" "current < rt_expiresAt rt"
    "rt_generation rt = tf_currentGeneration tf"
    "advanceFamily digest nextDigest current tf db = Inr db'"
    "fam = Some (tf\<lparr>tf_currentGeneration := tf_currentGeneration tf + 1\<rparr>)" "gr = Some g"
proof -
  obtain current digest nextDigest cid res where pre:
    "now = Some current" "hashRefreshToken env token = Inr digest"
    "hashRefreshToken env nextToken = Inr nextDigest" "digest \<noteq> nextDigest"
    "clientIdentifier env clientId = Inr cid" "exactHttpsUrl env resource = Inr res"
    using assms by (auto simp: rotateRefreshToken_def split: attempt_splits if_splits)
  note rest = assms [unfolded rotateRefreshToken_def pre, simplified, unfolded if_not_P [OF pre(4)]]
  obtain db1 tf g db2 where ok: ok and body: "rotate_body digest nextDigest cid res current db = Inr (db1, Inr (tf, g))"
    and reads: "getTokenFamily ok (tf_id tf) (Some current) db1 = (db2, Inr fam)"
      "getGrant (tf_grantId tf) (Some current) db2 = (db', Inr gr)"
    using rest pre(4) by (auto simp: transaction_eq_Inr isoTime_def split: prod.splits sum.splits)
  obtain rt where row: "rotation_row digest db = Some (rt, tf, g)"
    and bind: "tf_clientId tf = cid" "tf_resource tf = res"
    and st: "tf_status tf = ACTIVE" "gr_status g = ACTIVE" "rt_status rt = ACTIVE"
      "current < tf_expiresAt tf" "current < gr_expiresAt g" "current < rt_expiresAt rt"
      "rt_generation rt = tf_currentGeneration tf"
    and adv: "advanceFamily digest nextDigest current tf db = Inr db1"
    using body by (auto simp: rotate_body_def not_le split: option.splits if_splits sum.splits)
  note rowD = rotation_row_SomeD [OF row]
  have tfk: "by_key tf_id (tf_id tf) (families db) = Some tf" using rowD(4,6) by simp
  note eff = advanceFamily_effects [OF adv rowD(1) st(3) tfk st(1)]
  have "getTokenFamily ok (tf_id tf) (Some current) db1
      = (db1, Inr (Some (tf\<lparr>tf_currentGeneration := tf_currentGeneration tf + 1\<rparr>)))"
    by (rule getTokenFamily_unexpired [OF eff(3)]) (simp add: st)
  moreover have "getGrant (tf_grantId tf) (Some current) db1 = (db1, Inr (Some g))"
    using rowD(7) eff(9) st(5) by (simp add: getGrant_unexpired)
  ultimately have "db' = db1" "fam = Some (tf\<lparr>tf_currentGeneration := tf_currentGeneration tf + 1\<rparr>)" "gr = Some g"
    using reads by simp_all
  with pre ok row bind st adv show thesis by (intro that) simp_all
qed

section \<open>What a dead family, a spent token or a revoked grant can still do\<close>

lemma family_later_dead:
  "family_later f f' \<Longrightarrow> tf_status f \<noteq> ACTIVE \<Longrightarrow> tf_status f' \<noteq> ACTIVE"
  by (simp add: family_later_def)

lemma run_token:
  assumes "by_key rt_digest d (tokens db) = Some t"
  obtains t' where "by_key rt_digest d (tokens (auth_run env ops db)) = Some t'" "token_later t t'"
  using auth_later_run [of db env ops] assms unfolding auth_later_def by (metis growsD)

lemma run_family:
  assumes "by_key tf_id i (families db) = Some f"
  obtains f' where "by_key tf_id i (families (auth_run env ops db)) = Some f'" "family_later f f'"
  using auth_later_run [of db env ops] assms unfolding auth_later_def by (metis growsD)

lemma run_grant:
  assumes "by_key gr_id i (grants db) = Some g"
  obtains g' where "by_key gr_id i (grants (auth_run env ops db)) = Some g'" "grant_later g g'"
  using auth_later_run [of db env ops] assms unfolding auth_later_def by (metis growsD)

lemma spent_token_never_rotates:
  assumes "by_key rt_digest digest (tokens db) = Some t" "rt_status t \<noteq> ACTIVE"
    and "hashRefreshToken env token = Inr digest"
  shows "\<exists>e. snd (rotateRefreshToken env ok token next c r now (auth_run env ops db)) = Inl e"
proof (rule ccontr)
  assume "\<not> ?thesis"
  then obtain fam gr db' where
    rot: "rotateRefreshToken env ok token next c r now (auth_run env ops db) = (db', Inr (fam, gr))"
    by (metis prod.collapse sum.exhaust_sel surj_pair)
  obtain t' where t': "by_key rt_digest digest (tokens (auth_run env ops db)) = Some t'"
    "token_later t t'" by (rule run_token [OF assms(1)])
  from rot show False
  proof (cases rule: rotateRefreshToken_Inr)
    case (1 digest' nextDigest current rt tf g)
    then have "rt = t'" using assms(3) t'(1) rotation_row_SomeD(1) by fastforce
    with 1 t'(2) assms(2) show False by (simp add: token_later_def)
  qed
qed

lemma dead_family_never_rotates:
  assumes "by_key tf_id i (families db) = Some f" "tf_status f \<noteq> ACTIVE"
    and "rotateRefreshToken env ok token next c r now (auth_run env ops db) = (db', Inr (Some f', g'))"
  shows "tf_id f' \<noteq> i"
proof
  assume i: "tf_id f' = i"
  obtain f1 where f1: "by_key tf_id i (families (auth_run env ops db)) = Some f1" "family_later f f1"
    by (rule run_family [OF assms(1)])
  from assms(3) show False
  proof (cases rule: rotateRefreshToken_Inr)
    case (1 digest nextDigest current rt tf g)
    then have "tf_id tf = i" using i by simp
    with rotation_row_SomeD(4,6) [OF 1(8)] f1(1) have "tf = f1" by simp
    with 1 f1(2) assms(2) show False by (simp add: family_later_def)
  qed
qed

lemma dead_grant_never_rotates:
  assumes "by_key gr_id i (grants db) = Some g" "gr_status g \<noteq> ACTIVE"
    and "rotateRefreshToken env ok token next c r now (auth_run env ops db) = (db', Inr (f', Some g'))"
  shows "gr_id g' \<noteq> i"
proof
  assume i: "gr_id g' = i"
  obtain g1 where g1: "by_key gr_id i (grants (auth_run env ops db)) = Some g1" "grant_later g g1"
    by (rule run_grant [OF assms(1)])
  from assms(3) show False
  proof (cases rule: rotateRefreshToken_Inr)
    case (1 digest nextDigest current rt tf g0)
    then have "gr_id g0 = i" using i by simp
    with rotation_row_SomeD(7,9) [OF 1(8)] g1(1) have "g0 = g1" by simp
    with 1 g1(2) assms(2) show False by (simp add: grant_later_def)
  qed
qed

text \<open>The same, on the result alone.\<close>

lemma family_never_rotates:
  assumes "by_key tf_id i (families db) = Some f" "tf_status f \<noteq> ACTIVE"
    and "snd (rotateRefreshToken env ok token next c r now (auth_run env ops db)) = Inr (Some f', g')"
  shows "tf_id f' \<noteq> i"
proof -
  obtain db' where "rotateRefreshToken env ok token next c r now (auth_run env ops db) = (db', Inr (Some f', g'))"
    using assms(3) by (metis prod.collapse)
  then show ?thesis by (rule dead_family_never_rotates [OF assms(1,2)])
qed

lemma grant_never_rotates:
  assumes "by_key gr_id i (grants db) = Some g" "gr_status g \<noteq> ACTIVE"
    and "snd (rotateRefreshToken env ok token next c r now (auth_run env ops db)) = Inr (f', Some g')"
  shows "gr_id g' \<noteq> i"
proof -
  obtain db' where "rotateRefreshToken env ok token next c r now (auth_run env ops db) = (db', Inr (f', Some g'))"
    using assms(3) by (metis prod.collapse)
  then show ?thesis by (rule dead_grant_never_rotates [OF assms(1,2)])
qed

section \<open>A concrete history\<close>

text \<open>
  The store the examples below run on: an owner who consumed the bootstrap secret, one
  client, one grant and one token family. The hash is the identity and every text parses as
  the URL it is, so that the values can be computed.
\<close>

definition ex_url :: "string \<Rightarrow> url" where
  "ex_url s = \<lparr>protocol = ''https:'', username = [], password = [], hostname = ''x'', port = [],
     pathname = ''/'', search = [], url_hash = [], href = s\<rparr>"

definition ex_env :: auth_env where
  "ex_env = \<lparr>sha256 = (\<lambda>s. s), parseUrl = (\<lambda>s. Some (ex_url s)), supportedScopes = [''dp:read'']\<rparr>"

definition ex_token :: "char \<Rightarrow> string" where
  "ex_token c = replicate 43 c"

definition ex_secret :: string where
  "ex_secret = replicate 32 CHR ''s''"

definition ex_history :: "auth_op list" where
  "ex_history =
     [CreateOwnerBootstrap ''owner'' (Some ex_secret) (Some 0) (Some 100),
      ConsumeOwnerBootstrap (Some ex_secret) (Some 10),
      RegisterClient ''client-1'' ''owner'' ''https://c/cb'' (Some 20),
      CreateGrant ''grant-01'' ''owner'' ''client-1'' ''https://r/'' (Some [''dp:read'']) ''full'' (Some 30) (Some 1000),
      CreateTokenFamily True ''family-1'' ''grant-01'' ''owner'' ''client-1'' ''https://r/''
        (ex_token CHR ''a'') (Some 40) (Some 900)]"

definition ex_db :: auth_db where
  "ex_db = auth_run ex_env ex_history empty_auth_db"

lemma ex_db_inv: "auth_inv ex_db"
  unfolding ex_db_def by (rule auth_inv_run [OF auth_inv_empty])

section \<open>Rotation on every branch\<close>

lemma rotateRefreshToken_body:
  assumes "hashRefreshToken env token = Inr digest" "hashRefreshToken env nextToken = Inr nextDigest"
    "digest \<noteq> nextDigest" "clientIdentifier env clientId = Inr cid" "exactHttpsUrl env resource = Inr res"
    and "rotate_body digest nextDigest cid res current db = Inr (db', Inl failure)"
  shows "rotateRefreshToken env True token nextToken clientId resource (Some current) db = (db', Inl failure)"
  using assms by (simp add: rotateRefreshToken_def isoTime_def transaction_def)

lemma advanceFamily_defined:
  assumes inv: "auth_inv db"
    and rt: "by_key rt_digest digest (tokens db) = Some rt" "rt_status rt = ACTIVE"
    and tf: "by_key tf_id (rt_familyId rt) (families db) = Some tf"
    and fresh: "by_key rt_digest nextDigest (tokens db) = None"
  shows "\<exists>db'. advanceFamily digest nextDigest current tf db = Inr db'"
proof -
  let ?hit = "\<lambda>t. rt_digest t = digest \<and> rt_status t = ACTIVE"
  let ?C = "\<lambda>t. t\<lparr>rt_status := CONSUMED, rt_consumedAt := Some current\<rparr>"
  note rtD = by_key_SomeD [OF rt(1)] and tfD = by_key_SomeD [OF tf]
  have "changes ?hit (tokens db) = 1"
    by (rule changes_one [where k = rt_digest and r = rt])
      (use auth_invD(1) [OF inv] rtD rt(2) in \<open>auto simp: keys_ok_def\<close>)
  moreover have "rt_generation t \<noteq> tf_currentGeneration tf + 1"
    if "t \<in> set (tokens db)" "rt_familyId t = tf_id tf" for t
    using token_generation_le [OF inv that(1) tfD(1)] that(2) by simp
  then have "\<not> list_ex (\<lambda>t. rt_familyId t = tf_id tf \<and> rt_generation t = tf_currentGeneration tf + 1)
      (update_where ?hit ?C (tokens db))"
    by (auto simp: list_ex_iff elim!: in_update_whereE split: if_splits)
  moreover have "by_key rt_digest nextDigest (update_where ?hit ?C (tokens db)) = None"
    using fresh by (simp add: by_key_update_where)
  ultimately show ?thesis
    using tf tfD(2) by (auto simp: advanceFamily_def Let_def insertToken_def)
qed

text \<open>
  C1. A refresh token that is live in the store, presented with the client and the resource
  its family is bound to, rotates: it is consumed, the new token is the live one of the next
  generation with the family's own expiry, the answer is the advanced family with its grant,
  and no other row changes.
\<close>

theorem rotation_succeeds:
  assumes "auth_inv db"
    and "hashRefreshToken env token = Inr digest" "hashRefreshToken env nextToken = Inr nextDigest"
    and "digest \<noteq> nextDigest" "by_key rt_digest nextDigest (tokens db) = None"
    and "rotation_row digest db = Some (rt, tf, g)"
    and "clientIdentifier env clientId = Inr (tf_clientId tf)" "exactHttpsUrl env resource = Inr (tf_resource tf)"
    and "rt_status rt = ACTIVE" "gr_status g = ACTIVE"
    and "current < rt_expiresAt rt" "current < gr_expiresAt g"
  shows "\<exists>db'. rotateRefreshToken env True token nextToken clientId resource (Some current) db
        = (db', Inr (Some (tf\<lparr>tf_currentGeneration := tf_currentGeneration tf + 1\<rparr>), Some g)) \<and>
      by_key rt_digest digest (tokens db')
        = Some (rt\<lparr>rt_status := CONSUMED, rt_consumedAt := Some current\<rparr>) \<and>
      by_key rt_digest nextDigest (tokens db')
        = Some \<lparr>rt_digest = nextDigest, rt_familyId = tf_id tf,
                rt_generation = tf_currentGeneration tf + 1, rt_issuedAt = current,
                rt_expiresAt = tf_expiresAt tf, rt_consumedAt = None, rt_status = ACTIVE\<rparr> \<and>
      (\<forall>d. d \<noteq> digest \<and> d \<noteq> nextDigest \<longrightarrow> by_key rt_digest d (tokens db') = by_key rt_digest d (tokens db)) \<and>
      (\<forall>i. i \<noteq> tf_id tf \<longrightarrow> by_key tf_id i (families db') = by_key tf_id i (families db)) \<and>
      grants db' = grants db \<and> clients db' = clients db \<and> owners db' = owners db"
proof -
  note rowD = rotation_row_SomeD [OF assms(6)]
  obtain db' where adv: "advanceFamily digest nextDigest current tf db = Inr db'"
    using advanceFamily_defined [OF assms(1) rowD(1) assms(9) rowD(4) assms(5)] by blast
  have tf: "tf_status tf = ACTIVE" "rt_generation rt = tf_currentGeneration tf"
    using active_token_family [OF assms(1) rowD(2,5,6) assms(9)] by simp_all
  have exp: "rt_expiresAt rt = tf_expiresAt tf"
  proof -
    obtain f where f: "f \<in> set (families db)" "tf_id f = rt_familyId rt" "rt_expiresAt rt = tf_expiresAt f"
      using auth_invD(4) [OF assms(1) rowD(2)] by (auto simp: token_ok_def)
    moreover have "distinct (map tf_id (families db))"
      using auth_invD(1) [OF assms(1)] by (simp add: keys_ok_def)
    ultimately have "f = tf" using rowD(5,6) by (metis key_inj)
    with f show ?thesis by simp
  qed
  have tfk: "by_key tf_id (tf_id tf) (families db) = Some tf" using rowD(4,6) by simp
  note eff = advanceFamily_effects [OF adv rowD(1) assms(9) tfk tf(1)]
  have "getTokenFamily True (tf_id tf) (Some current) db'
      = (db', Inr (Some (tf\<lparr>tf_currentGeneration := tf_currentGeneration tf + 1\<rparr>)))"
    by (rule getTokenFamily_unexpired [OF eff(3)]) (use assms(11) exp in simp)
  moreover have "getGrant (tf_grantId tf) (Some current) db' = (db', Inr (Some g))"
    using rowD(7) eff(9) assms(12) by (simp add: getGrant_unexpired)
  ultimately have "rotateRefreshToken env True token nextToken clientId resource (Some current) db
        = (db', Inr (Some (tf\<lparr>tf_currentGeneration := tf_currentGeneration tf + 1\<rparr>), Some g))"
    using assms(2-4,6-8) assms(9-12) tf exp adv
    by (simp add: rotateRefreshToken_def isoTime_def transaction_def rotate_body_def)
  with eff show ?thesis by blast
qed

theorem rotation_succeeds_witness:
  "\<exists>db'. rotateRefreshToken ex_env True (ex_token CHR ''a'') (ex_token CHR ''b'') ''client-1''
     ''https://r/'' (Some 50) ex_db
   = (db', Inr (Some \<lparr>tf_id = ''family-1'', tf_grantId = ''grant-01'', tf_ownerId = ''owner'',
        tf_clientId = ''client-1'', tf_resource = ''https://r/'', tf_createdAt = 40,
        tf_expiresAt = 900, tf_status = ACTIVE, tf_revokedAt = None, tf_revokeReason = None,
        tf_currentGeneration = 1\<rparr>,
      by_key gr_id ''grant-01'' (grants ex_db)))"
proof -
  let ?d = "\<lambda>c. ''DP-014 refresh token v1'' @ [CHR 0x00] @ ex_token c"
  let ?tf = "\<lparr>tf_id = ''family-1'', tf_grantId = ''grant-01'', tf_ownerId = ''owner'',
        tf_clientId = ''client-1'', tf_resource = ''https://r/'', tf_createdAt = 40,
        tf_expiresAt = 900, tf_status = ACTIVE, tf_revokedAt = None, tf_revokeReason = None,
        tf_currentGeneration = 0\<rparr>"
  let ?g = "\<lparr>gr_id = ''grant-01'', gr_ownerId = ''owner'', gr_clientId = ''client-1'',
        gr_resource = ''https://r/'', gr_scopes = [''dp:read''], gr_executionProfile = ''full'',
        gr_grantedAt = 30, gr_expiresAt = 1000, gr_status = ACTIVE\<rparr>"
  let ?rt = "\<lparr>rt_digest = ?d CHR ''a'', rt_familyId = ''family-1'', rt_generation = 0,
        rt_issuedAt = 40, rt_expiresAt = 900, rt_consumedAt = None, rt_status = ACTIVE\<rparr>"
  have "hashRefreshToken ex_env (ex_token CHR ''a'') = Inr (?d CHR ''a'')"
    "hashRefreshToken ex_env (ex_token CHR ''b'') = Inr (?d CHR ''b'')"
    "?d CHR ''a'' \<noteq> ?d CHR ''b''" "by_key rt_digest (?d CHR ''b'') (tokens ex_db) = None"
    "rotation_row (?d CHR ''a'') ex_db = Some (?rt, ?tf, ?g)"
    "by_key gr_id ''grant-01'' (grants ex_db) = Some ?g"
    "clientIdentifier ex_env ''client-1'' = Inr (tf_clientId ?tf)"
    "exactHttpsUrl ex_env ''https://r/'' = Inr (tf_resource ?tf)"
    by code_simp+
  with rotation_succeeds [OF ex_db_inv, of ex_env "ex_token CHR ''a''" "?d CHR ''a''" "ex_token CHR ''b''"
      "?d CHR ''b''" ?rt ?tf ?g "''client-1''" "''https://r/''" 50]
  show ?thesis by auto
qed

text \<open>
  C2. Reuse detection. A token the store knows, presented for its live family but no longer
  live itself, is answered \<^verbatim>\<open>refresh_reuse_detected\<close>; the family is marked compromised, none
  of its tokens stays live, and whatever is called afterwards, no rotation ever again
  succeeds for that family.
\<close>

theorem refresh_reuse_kills_family:
  assumes "hashRefreshToken env token = Inr digest" "hashRefreshToken env nextToken = Inr nextDigest"
    and "digest \<noteq> nextDigest" "rotation_row digest db = Some (rt, tf, g)"
    and "clientIdentifier env clientId = Inr (tf_clientId tf)" "exactHttpsUrl env resource = Inr (tf_resource tf)"
    and "tf_status tf = ACTIVE" "gr_status g = ACTIVE"
    and "current < tf_expiresAt tf" "current < gr_expiresAt g" "current < rt_expiresAt rt"
    and "rt_status rt \<noteq> ACTIVE"
  shows "\<exists>db'. rotateRefreshToken env True token nextToken clientId resource (Some current) db
        = (db', Inl (AuthStoreError ''refresh_reuse_detected'' 400)) \<and>
      by_key tf_id (tf_id tf) (families db')
        = Some (tf\<lparr>tf_status := COMPROMISED, tf_revokedAt := Some current,
                   tf_revokeReason := Some ''refresh_reuse''\<rparr>) \<and>
      (\<forall>t \<in> set (tokens db'). rt_familyId t = tf_id tf \<longrightarrow> rt_status t \<noteq> ACTIVE) \<and>
      (\<forall>ops env2 ok tok tok2 c r now f' g'.
        snd (rotateRefreshToken env2 ok tok tok2 c r now (auth_run env2 ops db')) = Inr (Some f', g') \<longrightarrow>
        tf_id f' \<noteq> tf_id tf)"
proof -
  let ?db' = "compromiseFamily (tf_id tf) current db"
  have rot: "rotateRefreshToken env True token nextToken clientId resource (Some current) db
      = (?db', Inl (AuthStoreError ''refresh_reuse_detected'' 400))"
    by (rule rotateRefreshToken_body [OF assms(1-3,5,6)])
      (use assms(4,7-12) in \<open>simp add: rotate_body_def authError_def\<close>)
  have fam: "by_key tf_id (tf_id tf) (families ?db')
      = Some (tf\<lparr>tf_status := COMPROMISED, tf_revokedAt := Some current,
                 tf_revokeReason := Some ''refresh_reuse''\<rparr>)"
    using rotation_row_SomeD(4,6) [OF assms(4)] assms(7)
    by (simp add: compromiseFamily_def revokeTokens_def endFamilies_def by_key_update_where)
  have "\<forall>t \<in> set (tokens ?db'). rt_familyId t = tf_id tf \<longrightarrow> rt_status t \<noteq> ACTIVE"
    by (auto simp: compromiseFamily_def revokeTokens_def endFamilies_def ball_update_where)
  moreover have "tf_id f' \<noteq> tf_id tf"
    if "snd (rotateRefreshToken env2 ok tok tok2 c r now (auth_run env2 ops ?db')) = Inr (Some f', g')"
    for ops env2 ok tok tok2 c r now f' g'
    by (rule family_never_rotates [OF fam _ that]) simp
  ultimately show ?thesis using rot fam by blast
qed

definition ex_rotated :: auth_db where
  "ex_rotated = auth_exec ex_env (RotateRefreshToken True (ex_token CHR ''a'') (ex_token CHR ''b'')
     ''client-1'' ''https://r/'' (Some 50)) ex_db"

theorem refresh_reuse_kills_family_witness:
  "\<exists>db'. rotateRefreshToken ex_env True (ex_token CHR ''a'') (ex_token CHR ''c'') ''client-1''
     ''https://r/'' (Some 60) ex_rotated = (db', Inl (AuthStoreError ''refresh_reuse_detected'' 400)) \<and>
   map_option tf_status (by_key tf_id ''family-1'' (families db')) = Some COMPROMISED"
proof -
  let ?d = "\<lambda>c. ''DP-014 refresh token v1'' @ [CHR 0x00] @ ex_token c"
  let ?tf = "\<lparr>tf_id = ''family-1'', tf_grantId = ''grant-01'', tf_ownerId = ''owner'',
        tf_clientId = ''client-1'', tf_resource = ''https://r/'', tf_createdAt = 40,
        tf_expiresAt = 900, tf_status = ACTIVE, tf_revokedAt = None, tf_revokeReason = None,
        tf_currentGeneration = 1\<rparr>"
  let ?g = "\<lparr>gr_id = ''grant-01'', gr_ownerId = ''owner'', gr_clientId = ''client-1'',
        gr_resource = ''https://r/'', gr_scopes = [''dp:read''], gr_executionProfile = ''full'',
        gr_grantedAt = 30, gr_expiresAt = 1000, gr_status = ACTIVE\<rparr>"
  let ?rt = "\<lparr>rt_digest = ?d CHR ''a'', rt_familyId = ''family-1'', rt_generation = 0,
        rt_issuedAt = 40, rt_expiresAt = 900, rt_consumedAt = Some 50, rt_status = CONSUMED\<rparr>"
  have "hashRefreshToken ex_env (ex_token CHR ''a'') = Inr (?d CHR ''a'')"
    "hashRefreshToken ex_env (ex_token CHR ''c'') = Inr (?d CHR ''c'')"
    "?d CHR ''a'' \<noteq> ?d CHR ''c''"
    "rotation_row (?d CHR ''a'') ex_rotated = Some (?rt, ?tf, ?g)"
    "clientIdentifier ex_env ''client-1'' = Inr (tf_clientId ?tf)"
    "exactHttpsUrl ex_env ''https://r/'' = Inr (tf_resource ?tf)"
    by code_simp+
  from refresh_reuse_kills_family [OF this, of 60]
  show ?thesis by fastforce
qed

lemma rotation_spends_token:
  assumes "rotateRefreshToken env ok token next c r now db = (db', Inr (fam, gr))"
  shows "\<exists>digest t. hashRefreshToken env token = Inr digest \<and> by_key rt_digest digest (tokens db') = Some t \<and>
    rt_status t \<noteq> ACTIVE"
  using assms
proof (cases rule: rotateRefreshToken_Inr)
  case (1 digest nextDigest current rt tf g)
  have tfk: "by_key tf_id (tf_id tf) (families db) = Some tf"
    using rotation_row_SomeD(4,6) [OF 1(8)] by simp
  have "by_key rt_digest digest (tokens db')
      = Some (rt\<lparr>rt_status := CONSUMED, rt_consumedAt := Some current\<rparr>)"
    by (rule advanceFamily_effects(1) [OF 1(16) rotation_row_SomeD(1) [OF 1(8)] 1(11) tfk 1(9)])
  with 1(3) show ?thesis by simp
qed

text \<open>
  C3. A refresh token is used at most once: after a successful rotation the presented token
  never rotates again, whatever the next token, the client, the time and the calls made in
  between.
\<close>

theorem refresh_token_single_use:
  assumes "snd (rotateRefreshToken env ok token next c r now db) = Inr res"
  shows "\<exists>e. snd (rotateRefreshToken env ok2 token next2 c2 r2 now2
    (auth_run env ops (fst (rotateRefreshToken env ok token next c r now db)))) = Inl e"
proof -
  obtain db' fam gr where rot: "rotateRefreshToken env ok token next c r now db = (db', Inr (fam, gr))"
    using assms by (metis prod.collapse)
  from rotation_spends_token [OF rot] obtain digest t where
    "hashRefreshToken env token = Inr digest" "by_key rt_digest digest (tokens db') = Some t" "rt_status t \<noteq> ACTIVE"
    by blast
  then show ?thesis using spent_token_never_rotates rot by simp
qed

theorem refresh_token_single_use_witness:
  "\<exists>e. snd (rotateRefreshToken ex_env True (ex_token CHR ''a'') (ex_token CHR ''c'') ''client-1''
     ''https://r/'' (Some 60) (auth_run ex_env [GetGrant ''grant-01'' (Some 55)]
       (fst (rotateRefreshToken ex_env True (ex_token CHR ''a'') (ex_token CHR ''b'') ''client-1''
         ''https://r/'' (Some 50) ex_db)))) = Inl e"
proof -
  have "snd (rotateRefreshToken ex_env True (ex_token CHR ''a'') (ex_token CHR ''b'') ''client-1''
     ''https://r/'' (Some 50) ex_db) \<noteq> Inl e" for e
    by (cases e) code_simp+
  then obtain res where "snd (rotateRefreshToken ex_env True (ex_token CHR ''a'') (ex_token CHR ''b'') ''client-1''
     ''https://r/'' (Some 50) ex_db) = Inr res" by (meson sumE)
  from refresh_token_single_use [OF this] show ?thesis .
qed

end
