(* ===== verification/AuthStore_Access.thy ===== *)
theory AuthStore_Access
  imports AuthStore_Props
begin

text \<open>
  Revocation, owner reset and the one-time bootstrap of the auth store: what each of them
  takes away at once, and what stays impossible in every later run; the reachable states
  (one live token per live family) and the failed transactions.
\<close>

section \<open>Reachable states\<close>

lemma live_tokens_count:
  assumes inv: "auth_inv db"
  shows "changes (\<lambda>t. rt_familyId t = i \<and> rt_status t = ACTIVE) (tokens db) =
    (case by_key tf_id i (families db) of None \<Rightarrow> 0 | Some f \<Rightarrow> if tf_status f = ACTIVE then 1 else 0)"
proof -
  let ?P = "\<lambda>t. rt_familyId t = i \<and> rt_status t = ACTIVE"
  have one: "changes ?P (tokens db) = 1" if "t \<in> set (tokens db)" "?P t" for t
  proof -
    have "changes (\<lambda>s. s \<in> set (tokens db) \<and> ?P s) (tokens db) = 1"
      by (rule changes_one [where k = rt_digest and r = t])
        (use auth_invD(1) [OF inv] active_token_unique [OF inv] that in \<open>auto simp: keys_ok_def\<close>)
    moreover have "changes (\<lambda>s. s \<in> set (tokens db) \<and> ?P s) (tokens db) = changes ?P (tokens db)"
      unfolding changes_def by (metis (no_types, lifting) filter_cong)
    ultimately show ?thesis by simp
  qed
  have zero: "changes ?P (tokens db) = 0" if "\<And>t. t \<in> set (tokens db) \<Longrightarrow> \<not> ?P t"
    using changes_pos [of ?P "tokens db"] that by auto
  show ?thesis
  proof (cases "by_key tf_id i (families db)")
    case None
    have "\<not> ?P t" if "t \<in> set (tokens db)" for t
      using auth_invD(4) [OF inv that] None by (force simp: token_ok_def by_key_None_iff)
    with None zero show ?thesis by simp
  next
    case (Some f)
    note f = by_key_SomeD [OF Some]
    show ?thesis
    proof (cases "tf_status f = ACTIVE")
      case True
      with auth_invD(5) [OF inv f(1)] obtain t where "t \<in> set (tokens db)" "?P t"
        using f(2) by (auto simp: family_ok_def)
      with one Some True show ?thesis by simp
    next
      case False
      then have "\<not> ?P t" if "t \<in> set (tokens db)" for t
        using active_token_family [OF inv that f(1)] f(2) by auto
      with zero Some False show ?thesis by simp
    qed
  qed
qed

text \<open>
  C4. In every state the store can reach from the empty database, the schema's constraints
  and the references between the tables hold, and a token family has exactly one live
  refresh token while it is \<^verbatim>\<open>ACTIVE\<close> and none otherwise.
\<close>

theorem auth_store_reachable:
  "auth_inv (auth_run env ops empty_auth_db) \<and>
   changes (\<lambda>t. rt_familyId t = i \<and> rt_status t = ACTIVE) (tokens (auth_run env ops empty_auth_db)) =
     (case by_key tf_id i (families (auth_run env ops empty_auth_db)) of
        None \<Rightarrow> 0 | Some f \<Rightarrow> if tf_status f = ACTIVE then 1 else 0)"
  using auth_inv_run [OF auth_inv_empty] live_tokens_count by blast

section \<open>Revocation\<close>

lemma dead_grant_no_family:
  assumes "by_key gr_id i (grants db) = Some g" "gr_status g \<noteq> ACTIVE"
  shows "\<exists>e. snd (createTokenFamily env ok fid i w c r t a x (auth_run env2 ops db)) = Inl e"
proof -
  obtain g1 where g1: "by_key gr_id i (grants (auth_run env2 ops db)) = Some g1" "grant_later g g1"
    by (rule run_grant [OF assms(1)])
  then have dead: "gr_status g1 \<noteq> ACTIVE" using assms(2) by (simp add: grant_later_def)
  have "getGrant i (Some n) (auth_run env2 ops db) = (auth_run env2 ops db, Inr (Some g1))" for n
    using g1(1) dead by (simp add: getGrant_def isoTime_def)
  with dead show ?thesis
    by (auto simp: createTokenFamily_def isoTime_def split: attempt_splits option.splits)
qed

lemma revokeGrant_tables_simps:
  "by_key gr_id i (grants (revokeGrant_tables i w at reason db)) =
     map_option (\<lambda>g. if gr_ownerId g = w \<and> gr_status g = ACTIVE then g\<lparr>gr_status := REVOKED\<rparr> else g)
       (by_key gr_id i (grants db))"
  "by_key tf_id j (families (revokeGrant_tables i w at reason db)) =
     map_option (\<lambda>f. if tf_grantId f = i \<and> live_or_compromised f
       then f\<lparr>tf_status := REVOKED, tf_revokedAt := Some at, tf_revokeReason := Some reason\<rparr> else f)
       (by_key tf_id j (families db))"
  "j \<noteq> i \<Longrightarrow> by_key gr_id j (grants (revokeGrant_tables i w at reason db)) = by_key gr_id j (grants db)"
proof -
  show "by_key gr_id i (grants (revokeGrant_tables i w at reason db)) =
     map_option (\<lambda>g. if gr_ownerId g = w \<and> gr_status g = ACTIVE then g\<lparr>gr_status := REVOKED\<rparr> else g)
       (by_key gr_id i (grants db))"
    by (cases "by_key gr_id i (grants db)")
      (auto simp: revokeGrant_tables_def revokeGrants_def endFamilies_def revokeTokens_def Let_def
        by_key_update_where dest: by_key_SomeD(2))
  show "by_key tf_id j (families (revokeGrant_tables i w at reason db)) =
     map_option (\<lambda>f. if tf_grantId f = i \<and> live_or_compromised f
       then f\<lparr>tf_status := REVOKED, tf_revokedAt := Some at, tf_revokeReason := Some reason\<rparr> else f)
       (by_key tf_id j (families db))"
    by (simp add: revokeGrant_tables_def revokeGrants_def endFamilies_def revokeTokens_def Let_def by_key_update_where)
  show "j \<noteq> i \<Longrightarrow> by_key gr_id j (grants (revokeGrant_tables i w at reason db)) = by_key gr_id j (grants db)"
    by (cases "by_key gr_id j (grants db)")
      (auto simp: revokeGrant_tables_def revokeGrants_def endFamilies_def revokeTokens_def Let_def
        by_key_update_where dest: by_key_SomeD(2))
qed

text \<open>
  C5. Revoking a grant: the grant ends, every live or compromised family of the grant
  becomes \<^verbatim>\<open>REVOKED\<close>, no other grant and no family of another grant changes, and in every
  later run no refresh token of the grant rotates and no new family is opened for it.
\<close>

theorem revoke_grant_is_final:
  assumes "by_key gr_id i (grants db) = Some g" "gr_ownerId g = w"
  shows "\<exists>db' g'. revokeGrant True i w (Some at) reason db = (db', Inr (Some g')) \<and>
      g' = (if gr_status g = ACTIVE then g\<lparr>gr_status := REVOKED\<rparr> else g) \<and>
      (\<forall>j. j \<noteq> i \<longrightarrow> by_key gr_id j (grants db') = by_key gr_id j (grants db)) \<and>
      (\<forall>j f. by_key tf_id j (families db) = Some f \<longrightarrow>
        by_key tf_id j (families db') = Some (if tf_grantId f = i \<and> live_or_compromised f
          then f\<lparr>tf_status := REVOKED, tf_revokedAt := Some at, tf_revokeReason := Some reason\<rparr> else f)) \<and>
      (\<forall>env ops ok tok tok2 c r now f'' g''.
        snd (rotateRefreshToken env ok tok tok2 c r now (auth_run env ops db')) = Inr (f'', Some g'') \<longrightarrow>
        gr_id g'' \<noteq> i) \<and>
      (\<forall>env ops ok fid c r t a x. \<exists>e.
        snd (createTokenFamily env ok fid i w c r t a x (auth_run env ops db')) = Inl e)"
proof -
  define db' where "db' = revokeGrant_tables i w at reason db"
  define g' where "g' = (if gr_status g = ACTIVE then g\<lparr>gr_status := REVOKED\<rparr> else g)"
  have g': "by_key gr_id i (grants db') = Some g'" "gr_status g' \<noteq> ACTIVE"
    using assms by (simp_all add: db'_def g'_def revokeGrant_tables_simps)
  have "getGrant i (Some at) db' = (db', Inr (Some g'))"
    using g' by (simp add: getGrant_def isoTime_def)
  then have res: "revokeGrant True i w (Some at) reason db = (db', Inr (Some g'))"
    using assms by (simp add: revokeGrant_def isoTime_def transaction_def db'_def)
  have other: "by_key gr_id j (grants db') = by_key gr_id j (grants db)" if "j \<noteq> i" for j
    using that by (simp add: db'_def revokeGrant_tables_simps)
  have fams: "by_key tf_id j (families db') = Some (if tf_grantId f = i \<and> live_or_compromised f
      then f\<lparr>tf_status := REVOKED, tf_revokedAt := Some at, tf_revokeReason := Some reason\<rparr> else f)"
    if "by_key tf_id j (families db) = Some f" for j f
    using that by (simp add: db'_def revokeGrant_tables_simps)
  show ?thesis
    by (intro exI [of _ db'] exI [of _ g'] conjI allI impI)
      (rule res g'_def other fams dead_grant_no_family [OF g'] grant_never_rotates [OF g']; assumption)+
qed

theorem revoke_grant_is_final_witness:
  "\<exists>db'. revokeGrant True ''grant-01'' ''owner'' (Some 60) ''user'' ex_db =
     (db', Inr (map_option (\<lambda>g. g\<lparr>gr_status := REVOKED\<rparr>) (by_key gr_id ''grant-01'' (grants ex_db)))) \<and>
   (\<exists>e. snd (createTokenFamily ex_env True ''family-2'' ''grant-01'' ''owner'' ''client-1'' ''https://r/''
      (ex_token CHR ''d'') (Some 61) (Some 800) db') = Inl e)"
proof -
  let ?g = "\<lparr>gr_id = ''grant-01'', gr_ownerId = ''owner'', gr_clientId = ''client-1'',
        gr_resource = ''https://r/'', gr_scopes = [''dp:read''], gr_executionProfile = ''full'',
        gr_grantedAt = 30, gr_expiresAt = 1000, gr_status = ACTIVE\<rparr>"
  have g: "by_key gr_id ''grant-01'' (grants ex_db) = Some ?g" by code_simp
  from revoke_grant_is_final [OF g, of "''owner''" 60 "''user''"]
  obtain db' where "revokeGrant True ''grant-01'' ''owner'' (Some 60) ''user'' ex_db =
      (db', Inr (Some (?g\<lparr>gr_status := REVOKED\<rparr>)))"
    and no: "\<And>env ops ok fid c r t a x. \<exists>e.
        snd (createTokenFamily env ok fid ''grant-01'' ''owner'' c r t a x (auth_run env ops db')) = Inl e"
    by auto
  with no [of ex_env True "''family-2''" "''client-1''" _ _ _ _ "[]"] g show ?thesis by auto
qed

section \<open>Revoking or resetting an owner\<close>

lemma revokeOwner_tables_dead:
  "\<forall>g \<in> set (grants (revokeOwner_tables w st at reason db)). gr_ownerId g = w \<longrightarrow> gr_status g \<noteq> ACTIVE"
  "st \<noteq> ACTIVE \<Longrightarrow> \<forall>f \<in> set (families (revokeOwner_tables w st at reason db)).
     tf_ownerId f = w \<longrightarrow> tf_status f \<noteq> ACTIVE"
  by (simp_all add: revokeOwner_tables_def Let_def revokeGrants_def endFamilies_def revokeTokens_def
      live_or_compromised_def ball_update_where)

lemma revokeOwner_tables_lookup:
  "by_key tf_id j (families (revokeOwner_tables w st at reason db)) =
     map_option (\<lambda>f. if tf_ownerId f = w \<and> live_or_compromised f
       then f\<lparr>tf_status := st, tf_revokedAt := Some at, tf_revokeReason := Some reason\<rparr> else f)
       (by_key tf_id j (families db))"
  "owners (revokeOwner_tables w st at reason db) = owners db"
  "clients (revokeOwner_tables w st at reason db) = clients db"
  by (simp_all add: revokeOwner_tables_def Let_def revokeGrants_def endFamilies_def revokeTokens_def
      by_key_update_where)

lemma changes_zero: "(\<And>r. r \<in> set rows \<Longrightarrow> \<not> P r) \<Longrightarrow> changes P rows = 0"
  using changes_pos [of P rows] by auto

text \<open>
  No rotation of a family the owner had, at any time after: the family is in the tables
  with its owner, so the lookup by its id settles it.
\<close>

lemma owner_families_never_rotate:
  assumes dead: "\<And>f. f \<in> set (families db') \<Longrightarrow> tf_ownerId f = w \<Longrightarrow> tf_status f \<noteq> ACTIVE"
    and old: "by_key tf_id j (families db') = Some f" "tf_ownerId f = w"
    and rot: "snd (rotateRefreshToken env ok tok tok2 c r now (auth_run env ops db')) = Inr (Some f', g')"
  shows "tf_id f' \<noteq> j"
  by (rule family_never_rotates [OF old(1) dead rot]) (use old by_key_SomeD in auto)

text \<open>
  \<^verbatim>\<open>revokeOwnerAccess\<close> reports what it did: afterwards the owner has no active grant and
  no active token family, clients and bootstrap state are as before, and no family the owner
  had rotates in any later run.
\<close>

theorem revoke_owner_access_effect:
  assumes "getOwner w db = Some ow"
  shows "\<exists>db' summary. revokeOwnerAccess True w (Some at) reason db = (db', Inr summary) \<and>
      summary = \<lparr>sum_ownerStatus = own_status ow, sum_bootstrapPending = (own_bootstrapConsumedAt ow = None),
        sum_activeClients = changes (\<lambda>c. cl_ownerId c = w \<and> cl_status c = ACTIVE) (clients db),
        sum_activeGrants = 0, sum_activeTokenFamilies = 0\<rparr> \<and>
      (\<forall>j f env ops ok tok tok2 c r now f' g'.
        by_key tf_id j (families db) = Some f \<longrightarrow> tf_ownerId f = w \<longrightarrow>
        snd (rotateRefreshToken env ok tok tok2 c r now (auth_run env ops db')) = Inr (Some f', g') \<longrightarrow>
        tf_id f' \<noteq> j)"
proof -
  define db' where "db' = revokeOwner_tables w REVOKED at reason db"
  have ow: "getOwner w db' = Some ow" using assms by (simp add: db'_def getOwner_def revokeOwner_tables_lookup)
  have "changes (\<lambda>g. gr_ownerId g = w \<and> gr_status g = ACTIVE) (grants db') = 0"
    by (rule changes_zero) (use revokeOwner_tables_dead(1) in \<open>auto simp: db'_def\<close>)
  moreover have dead: "tf_status f \<noteq> ACTIVE" if "f \<in> set (families db')" "tf_ownerId f = w" for f
    using revokeOwner_tables_dead(2) [of REVOKED] that by (simp add: db'_def)
  then have "changes (\<lambda>f. tf_ownerId f = w \<and> tf_status f = ACTIVE) (families db') = 0"
    by (intro changes_zero) auto
  moreover have "clients db' = clients db" by (simp add: db'_def revokeOwner_tables_lookup)
  ultimately have res: "revokeOwnerAccess True w (Some at) reason db = (db', Inr
      \<lparr>sum_ownerStatus = own_status ow, sum_bootstrapPending = (own_bootstrapConsumedAt ow = None),
        sum_activeClients = changes (\<lambda>c. cl_ownerId c = w \<and> cl_status c = ACTIVE) (clients db),
        sum_activeGrants = 0, sum_activeTokenFamilies = 0\<rparr>)"
    using assms ow by (simp add: revokeOwnerAccess_def isoTime_def transaction_def ownerAccessSummary_def
        db'_def [symmetric])
  have "tf_id f' \<noteq> j"
    if old: "by_key tf_id j (families db) = Some f" "tf_ownerId f = w"
      and rot: "snd (rotateRefreshToken env ok tok tok2 c r now (auth_run env ops db')) = Inr (Some f', g')"
    for j f env ops ok tok tok2 c r now f' g'
  proof -
    obtain f1 where "by_key tf_id j (families db') = Some f1" "tf_ownerId f1 = w"
      using old by (auto simp: db'_def revokeOwner_tables_lookup)
    from owner_families_never_rotate [OF dead this rot] show ?thesis by simp
  qed
  with res show ?thesis by blast
qed

theorem revoke_owner_access_effect_witness:
  "\<exists>db'. revokeOwnerAccess True ''owner'' (Some 60) ''user'' ex_db = (db', Inr
     \<lparr>sum_ownerStatus = ACTIVE, sum_bootstrapPending = False, sum_activeClients = 1,
      sum_activeGrants = 0, sum_activeTokenFamilies = 0\<rparr>)"
proof -
  let ?w = "\<lparr>own_id = ''owner'', own_createdAt = 0, own_bootstrapDigest = hashSecret ex_env ex_secret,
    own_bootstrapExpiresAt = 100, own_bootstrapConsumedAt = Some 10, own_status = ACTIVE\<rparr>"
  have w: "getOwner ''owner'' ex_db = Some ?w" by code_simp
  have "changes (\<lambda>c. cl_ownerId c = ''owner'' \<and> cl_status c = ACTIVE) (clients ex_db) = 1" by code_simp
  with revoke_owner_access_effect [OF w, of 60 "''user''"] show ?thesis by auto
qed

lemma auth_inv_owner_unique:
  assumes "auth_inv db" "getOwner w db = Some ow"
  shows "owners db = [ow]" and "own_id ow = w"
proof -
  have "length (owners db) \<le> 1" using auth_invD(1) [OF assms(1)] by (simp add: keys_ok_def)
  moreover have "ow \<in> set (owners db)" "own_id ow = w"
    using assms(2) by (auto simp: getOwner_def dest: by_key_SomeD)
  ultimately show "owners db = [ow]" "own_id ow = w" by (cases "owners db"; auto)+
qed

text \<open>
  C6. \<^verbatim>\<open>resetOwnerAccess\<close> puts the owner back to the bootstrap: a new one-time digest is
  pending, every client of the owner is disabled, nothing of the owner is active any more,
  no client can be registered before the bootstrap is consumed, and no family the owner had
  rotates in any later run.
\<close>

theorem reset_owner_access_effect:
  assumes "auth_inv db" "getOwner w db = Some ow" "32 \<le> length secret" "reset < expires"
  shows "\<exists>db'. resetOwnerAccess env True w (Some secret) (Some reset) (Some expires) db
        = (db', Inr (Some (ow\<lparr>own_bootstrapDigest := hashSecret env secret,
            own_bootstrapExpiresAt := expires, own_bootstrapConsumedAt := None, own_status := ACTIVE\<rparr>))) \<and>
      ownerAccessSummary w db' = Inr \<lparr>sum_ownerStatus = ACTIVE, sum_bootstrapPending = True,
        sum_activeClients = 0, sum_activeGrants = 0, sum_activeTokenFamilies = 0\<rparr> \<and>
      (\<forall>env2 cid uri t. \<exists>e. snd (registerClient env2 cid w uri t db') = Inl e) \<and>
      (\<forall>j f env2 ops ok tok tok2 c r now f' g'.
        by_key tf_id j (families db) = Some f \<longrightarrow> tf_ownerId f = w \<longrightarrow>
        snd (rotateRefreshToken env2 ok tok tok2 c r now (auth_run env2 ops db')) = Inr (Some f', g') \<longrightarrow>
        tf_id f' \<noteq> j)"
proof -
  let ?ow = "ow\<lparr>own_bootstrapDigest := hashSecret env secret,
      own_bootstrapExpiresAt := expires, own_bootstrapConsumedAt := None, own_status := ACTIVE\<rparr>"
  define t where "t = revokeOwner_tables w RESET reset ''owner_reset'' db"
  define db' where "db' = t\<lparr>clients := update_where (\<lambda>c. cl_ownerId c = w)
      (\<lambda>c. c\<lparr>cl_status := DISABLED\<rparr>) (clients db), owners := [?ow]\<rparr>"
  note ow = auth_inv_owner_unique [OF assms(1,2)]
  have t: "owners t = [ow]" "clients t = clients db" by (simp_all add: t_def revokeOwner_tables_lookup ow)
  have "resetOwner_body w (hashSecret env secret) reset expires db = Inr (db', ())"
    using t ow(2) by (simp add: resetOwner_body_def Let_def t_def [symmetric] changes_def db'_def)
  moreover have getw: "getOwner w db' = Some ?ow" by (simp add: getOwner_def db'_def ow)
  ultimately have res: "resetOwnerAccess env True w (Some secret) (Some reset) (Some expires) db
      = (db', Inr (Some ?ow))"
    using assms by (simp add: resetOwnerAccess_def isoTime_def transaction_def)
  have dead: "tf_status f \<noteq> ACTIVE" if "f \<in> set (families db')" "tf_ownerId f = w" for f
    using revokeOwner_tables_dead(2) [of RESET] that by (simp add: db'_def t_def)
  have "changes (\<lambda>c. cl_ownerId c = w \<and> cl_status c = ACTIVE) (clients db') = 0"
    by (simp add: db'_def changes_def update_where_def filter_empty_conv)
  moreover have "changes (\<lambda>g. gr_ownerId g = w \<and> gr_status g = ACTIVE) (grants db') = 0"
    by (rule changes_zero) (use revokeOwner_tables_dead(1) in \<open>auto simp: db'_def t_def\<close>)
  moreover have "changes (\<lambda>f. tf_ownerId f = w \<and> tf_status f = ACTIVE) (families db') = 0"
    by (rule changes_zero) (use dead in auto)
  ultimately have summary: "ownerAccessSummary w db' = Inr \<lparr>sum_ownerStatus = ACTIVE,
      sum_bootstrapPending = True, sum_activeClients = 0, sum_activeGrants = 0, sum_activeTokenFamilies = 0\<rparr>"
    using getw by (simp add: ownerAccessSummary_def)
  have reg: "\<exists>e. snd (registerClient env2 cid w uri t db') = Inl e" for env2 cid uri t
    using getw by (auto simp: registerClient_def split: attempt_splits)
  have "tf_id f' \<noteq> j"
    if old: "by_key tf_id j (families db) = Some f" "tf_ownerId f = w"
      and rot: "snd (rotateRefreshToken env2 ok tok tok2 c r now (auth_run env2 ops db')) = Inr (Some f', g')"
    for j f env2 ops ok tok tok2 c r now f' g'
  proof -
    obtain f1 where "by_key tf_id j (families db') = Some f1" "tf_ownerId f1 = w"
      using old by (auto simp: db'_def t_def revokeOwner_tables_lookup)
    from owner_families_never_rotate [OF dead this rot] show ?thesis by simp
  qed
  with res summary reg show ?thesis by blast
qed

theorem reset_owner_access_effect_witness:
  "\<exists>db'. fst (resetOwnerAccess ex_env True ''owner'' (Some ex_secret) (Some 60) (Some 70) ex_db) = db' \<and>
    ownerAccessSummary ''owner'' db' = Inr \<lparr>sum_ownerStatus = ACTIVE, sum_bootstrapPending = True,
        sum_activeClients = 0, sum_activeGrants = 0, sum_activeTokenFamilies = 0\<rparr>"
proof -
  let ?w = "\<lparr>own_id = ''owner'', own_createdAt = 0, own_bootstrapDigest = hashSecret ex_env ex_secret,
    own_bootstrapExpiresAt = 100, own_bootstrapConsumedAt = Some 10, own_status = ACTIVE\<rparr>"
  have w: "getOwner ''owner'' ex_db = Some ?w" by code_simp
  have "32 \<le> length ex_secret" "(60::time) < 70" by (simp_all add: ex_secret_def)
  from reset_owner_access_effect [OF ex_db_inv w this, of ex_env] show ?thesis by auto
qed

section \<open>The bootstrap secret\<close>

text \<open>Only the bootstrap methods and the reset write the owner table.\<close>

lemma owners_transaction:
  assumes "\<And>s' a. body s = Inr (s', a) \<Longrightarrow> owners s' = owners s"
  shows "owners (fst (transaction ok err h body s)) = owners s"
  by (rule transaction_invariant [where P = "\<lambda>s'. owners s' = owners s"]) (rule refl, erule assms)

lemma owners_tables [simp]:
  "owners (revokeTokens T db) = owners db" "owners (endFamilies P st at reason db) = owners db"
  "owners (revokeGrants G db) = owners db" "owners (expireFamily i at db) = owners db"
  "owners (compromiseFamily i at db) = owners db" "owners (revokeGrant_tables i w at reason db) = owners db"
  by (simp_all add: revokeTokens_def endFamilies_def revokeGrants_def expireFamily_def
      compromiseFamily_def revokeGrant_tables_def Let_def)

lemma owners_reads [simp]:
  "owners (fst (getGrant i n db)) = owners db"
  "owners (fst (getTokenFamily ok i n db)) = owners db"
  by (auto simp: getGrant_def getTokenFamily_def Let_def transaction_def
      split: attempt_splits option.splits if_splits)

lemma owners_createFamily_body: "createFamily_body f t db = Inr (db', u) \<Longrightarrow> owners db' = owners db"
  by (auto simp: createFamily_body_def insertFamily_Inr insertToken_Inr split: sum.splits)

lemma owners_insertToken: "insertToken t db = Inr db' \<Longrightarrow> owners db' = owners db"
  by (simp add: insertToken_Inr)

lemma owners_advanceFamily: "advanceFamily d d' n tf db = Inr db' \<Longrightarrow> owners db' = owners db"
proof -
  assume "advanceFamily d d' n tf db = Inr db'"
  then obtain t h g db2 where "insertToken t (db\<lparr>tokens := h\<rparr>) = Inr db2" "db' = db2\<lparr>families := g\<rparr>"
    by (auto simp: advanceFamily_def Let_def split: if_splits sum.splits)
  then show ?thesis using owners_insertToken by fastforce
qed

lemma owners_rotate_body: "rotate_body d d' c r n db = Inr (db', x) \<Longrightarrow> owners db' = owners db"
  by (auto simp: rotate_body_def owners_advanceFamily split: option.splits if_splits sum.splits)

lemma owners_step: "owners (fst p) = owners db \<Longrightarrow> p = (db1, r) \<Longrightarrow> owners db1 = owners db"
  by simp

lemmas owners_got = owners_step [OF owners_reads(1)] owners_step [OF owners_reads(2)]

lemma owners_createTokenFamily [simp]:
  "owners (fst (createTokenFamily env ok i g w c r t a e db)) = owners db"
proof -
  have "owners db2 = owners db"
    if get: "getGrant g n db = (db1, r1)"
      and tr: "transaction ok engine_error storage_failure (createFamily_body f t) db1 = (db2, r2)" for n f t db1 db2 r1 r2
  proof -
    have "owners db2 = owners db1"
      by (rule owners_step [OF owners_transaction tr]) (rule owners_createFamily_body)
    then show ?thesis using owners_got(1) [OF get] by simp
  qed
  then show ?thesis
    unfolding createTokenFamily_def
    by (auto split: attempt_splits prod.splits sum.splits option.splits if_splits dest: owners_got(1))
qed

lemma owners_rotateRefreshToken [simp]:
  "owners (fst (rotateRefreshToken env ok t t' c r n db)) = owners db"
proof -
  have "owners db1 = owners db"
    if "transaction ok engine_error rethrow_or_storage_failure
      (rotate_body d d' cid res current) db = (db1, x)" for d d' cid res current db1 x
    by (rule owners_step [OF owners_transaction that]) (rule owners_rotate_body)
  then show ?thesis
    unfolding rotateRefreshToken_def
    by (auto split: attempt_splits prod.splits sum.splits dest!: owners_got)
qed

lemma owners_revocations [simp]:
  "owners (fst (registerClient env cid w u t db)) = owners db"
  "owners (fst (createGrant env i w cid r scs p g e db)) = owners db"
  "owners (fst (revokeTokenFamily ok i w a y db)) = owners db"
  "owners (fst (revokeGrant ok i w a y db)) = owners db"
  "owners (fst (revokeOwnerAccess ok w a y db)) = owners db"
  by (auto simp: registerClient_def createGrant_def revokeTokenFamily_def revokeGrant_def revokeOwnerAccess_def
      revokeOwner_tables_lookup transaction_def Let_def split: attempt_splits option.splits)

lemma owners_revokeRefreshToken [simp]: "owners (fst (revokeRefreshToken env ok t c a y db)) = owners db"
  by (auto simp: revokeRefreshToken_def split: attempt_splits option.splits list.splits)

definition bootstrap_done :: "auth_db \<Rightarrow> bool" where
  "bootstrap_done db \<longleftrightarrow> owners db \<noteq> [] \<and> (\<forall>w \<in> set (owners db). \<not> bootstrap_pending w)"

fun is_reset :: "auth_op \<Rightarrow> bool" where
  "is_reset (ResetOwnerAccess k w s a e) = True"
| "is_reset x = False"

lemma consume_unavailable:
  "bootstrap_done db \<Longrightarrow> consumeOwnerBootstrap env s (Some n) db = (db, Inl (authError ''bootstrap_unavailable'' 409))"
  by (auto simp: consumeOwnerBootstrap_def isoTime_def bootstrap_done_def find_None_iff' split: option.splits
      dest: find_SomeD)

lemma bootstrap_done_exec: "bootstrap_done db \<Longrightarrow> \<not> is_reset x \<Longrightarrow> bootstrap_done (auth_exec env x db)"
proof -
  assume fin: "bootstrap_done db" and x: "\<not> is_reset x"
  have "owners (auth_exec env x db) = owners db"
  proof (cases x)
    case (CreateOwnerBootstrap w s c e)
    with fin show ?thesis
      by (auto simp: createOwnerBootstrap_def bootstrap_done_def split: attempt_splits option.splits)
  next
    case (ConsumeOwnerBootstrap s n)
    with fin show ?thesis
      by (cases n) (simp_all add: consume_unavailable, simp add: consumeOwnerBootstrap_def isoTime_def)
  qed (use x in simp_all)
  with fin show ?thesis by (simp add: bootstrap_done_def)
qed

lemma bootstrap_done_run:
  "bootstrap_done db \<Longrightarrow> \<forall>x \<in> set ops. \<not> is_reset x \<Longrightarrow> bootstrap_done (auth_run env ops db)"
  by (induction ops arbitrary: db) (auto intro: bootstrap_done_exec)

lemma consume_Inr:
  assumes inv: "auth_inv db" and "consumeOwnerBootstrap env s n db = (db', Inr r)"
  shows "bootstrap_done db'"
proof -
  obtain row current where row: "find bootstrap_pending (owners db) = Some row"
    and db': "db' = db\<lparr>owners := update_where (\<lambda>r. own_id r = own_id row \<and> bootstrap_pending r)
      (\<lambda>r. r\<lparr>own_bootstrapConsumedAt := Some current\<rparr>) (owners db)\<rparr>"
    using assms(2) by (auto simp: consumeOwnerBootstrap_def Let_def split: attempt_splits option.splits if_splits)
  have "row \<in> set (owners db)" "bootstrap_pending row" using find_SomeD [OF row] by simp_all
  moreover have "length (owners db) \<le> 1" using auth_invD(1) [OF inv] by (simp add: keys_ok_def)
  ultimately have "owners db = [row]" by (cases "owners db") auto
  with \<open>bootstrap_pending row\<close> show ?thesis by (simp add: db' bootstrap_done_def bootstrap_pending_def)
qed

text \<open>
  C7. The bootstrap secret opens the store once: after a successful
  \<^verbatim>\<open>consumeOwnerBootstrap\<close> every further attempt, with any secret and after any calls but a
  reset of the owner, is answered \<^verbatim>\<open>bootstrap_unavailable\<close> and changes nothing.
\<close>

theorem bootstrap_consumed_once:
  assumes "auth_inv db" "snd (consumeOwnerBootstrap env secret now db) = Inr r"
    and "\<forall>x \<in> set ops. \<not> is_reset x"
  shows "consumeOwnerBootstrap env2 secret2 (Some now2)
      (auth_run env3 ops (fst (consumeOwnerBootstrap env secret now db)))
    = (auth_run env3 ops (fst (consumeOwnerBootstrap env secret now db)),
       Inl (AuthStoreError ''bootstrap_unavailable'' 409))"
proof -
  have "bootstrap_done (fst (consumeOwnerBootstrap env secret now db))"
    using consume_Inr [OF assms(1)] assms(2) by (metis prod.collapse)
  from consume_unavailable [OF bootstrap_done_run [OF this assms(3)]]
  show ?thesis by (simp add: authError_def)
qed

theorem bootstrap_consumed_once_witness:
  "snd (consumeOwnerBootstrap ex_env (Some ex_secret) (Some 20)
     (auth_run ex_env [RegisterClient ''client-1'' ''owner'' ''https://c/cb'' (Some 12)]
       (fst (consumeOwnerBootstrap ex_env (Some ex_secret) (Some 10)
         (auth_run ex_env [hd ex_history] empty_auth_db)))))
   = Inl (AuthStoreError ''bootstrap_unavailable'' 409)"
proof -
  let ?db = "auth_run ex_env [hd ex_history] empty_auth_db"
  have "snd (consumeOwnerBootstrap ex_env (Some ex_secret) (Some 10) ?db)
      = Inr (Some \<lparr>own_id = ''owner'', own_createdAt = 0, own_bootstrapDigest = hashSecret ex_env ex_secret,
          own_bootstrapExpiresAt = 100, own_bootstrapConsumedAt = Some 10, own_status = ACTIVE\<rparr>)"
    by code_simp
  from bootstrap_consumed_once [OF auth_inv_run [OF auth_inv_empty] this,
      of "[RegisterClient ''client-1'' ''owner'' ''https://c/cb'' (Some 12)]" ex_env "Some ex_secret" 20 ex_env]
  show ?thesis by simp
qed

section \<open>Failed transactions\<close>

text \<open>
  When SQLite does not carry a transaction out, rotation, grant revocation, owner
  revocation and owner reset report an error and leave every table as it was: a client never
  loses a token to a rotation it got no answer for, and a revocation is never half done.
\<close>

theorem failed_transaction_changes_nothing:
  "fst (rotateRefreshToken env False t t' c r n db) = db \<and> isl (snd (rotateRefreshToken env False t t' c r n db)) \<and>
   fst (revokeGrant False i w a reason db) = db \<and> isl (snd (revokeGrant False i w a reason db)) \<and>
   fst (revokeOwnerAccess False w a reason db) = db \<and> isl (snd (revokeOwnerAccess False w a reason db)) \<and>
   fst (resetOwnerAccess env False w s a e db) = db \<and> isl (snd (resetOwnerAccess env False w s a e db))"
proof -
  have "fst (rotateRefreshToken env False t t' c r n db) = db \<and> isl (snd (rotateRefreshToken env False t t' c r n db))"
    by (simp add: rotateRefreshToken_def transaction_no_commit attempt_def transaction_def split: sum.split)
  moreover have "fst (revokeGrant False i w a reason db) = db \<and> isl (snd (revokeGrant False i w a reason db))"
    by (auto simp: revokeGrant_def transaction_def split: attempt_splits)
  moreover have "fst (revokeOwnerAccess False w a reason db) = db \<and> isl (snd (revokeOwnerAccess False w a reason db))"
    by (auto simp: revokeOwnerAccess_def transaction_def split: attempt_splits)
  moreover have "fst (resetOwnerAccess env False w s a e db) = db \<and> isl (snd (resetOwnerAccess env False w s a e db))"
    by (auto simp: resetOwnerAccess_def transaction_def split: attempt_splits option.splits sum.splits)
  ultimately show ?thesis by blast
qed

end
