(* ===== verification/Json.thy ===== *)
theory Json
  imports Identifiers
begin

text \<open>
  JSON values as \<^verbatim>\<open>JSON.parse\<close> returns them, and the reads the source performs on them. An
  object is the list of its own properties in order.
\<close>

datatype json =
    JNull
  | JBool bool
  | JNum int
  | JStr string
  | JArr "json list"
  | JObj "(string \<times> json) list"

text \<open>\<open>json_field k v\<close> is \<^verbatim>\<open>v.k\<close>, with \<^term>\<open>None\<close> for \<^verbatim>\<open>undefined\<close>.\<close>

definition json_field :: "string \<Rightarrow> json \<Rightarrow> json option" where
  "json_field k v = (case v of JObj fs \<Rightarrow> map_of fs k | _ \<Rightarrow> None)"

fun truthy :: "json option \<Rightarrow> bool" where
  "truthy None = False"
| "truthy (Some JNull) = False"
| "truthy (Some (JBool b)) = b"
| "truthy (Some (JNum n)) = (n \<noteq> 0)"
| "truthy (Some (JStr s)) = (s \<noteq> [])"
| "truthy (Some (JArr xs)) = True"
| "truthy (Some (JObj fs)) = True"

definition is_array :: "json option \<Rightarrow> bool" where
  "is_array v = (case v of Some (JArr xs) \<Rightarrow> True | _ \<Rightarrow> False)"

definition elements :: "json option \<Rightarrow> json list" where
  "elements v = (case v of Some (JArr xs) \<Rightarrow> xs | _ \<Rightarrow> [])"

text \<open>\<^verbatim>\<open>Array.isArray(v) && v.includes(s)\<close> for a string \<open>s\<close>.\<close>

definition array_includes :: "json option \<Rightarrow> string \<Rightarrow> bool" where
  "array_includes v s \<longleftrightarrow> is_array v \<and> JStr s \<in> set (elements v)"

definition starts_with :: "string \<Rightarrow> string \<Rightarrow> bool" where
  "starts_with s p \<longleftrightarrow> take (length p) s = p"

fun is_string_with_prefix :: "string \<Rightarrow> json \<Rightarrow> bool" where
  "is_string_with_prefix p (JStr s) = starts_with s p"
| "is_string_with_prefix p _ = False"

end
