(* ===== verification/OAuth.thy ===== *)
theory OAuth
  imports AuthStore Json "HOL-Library.AList"
begin

text \<open>
  The authorization server, \<^verbatim>\<open>packages/auth/src/oauth-spike.js\<close>: the two client registries
  and the class \<^verbatim>\<open>OAuthSpike\<close> with its pending transactions, authorization codes and access
  tokens, on top of the durable store.

  A JavaScript \<^verbatim>\<open>Map\<close> is an association list in insertion order (\<open>AList.update\<close> and
  \<open>AList.delete\<close> are \<^verbatim>\<open>set\<close> and \<^verbatim>\<open>delete\<close>). What a method takes from its surroundings comes
  in a record \<open>oauth_input\<close>: the readings of the clock by call site, the random tokens and
  ids it draws, and whether SQLite carries out the transaction it opens. \<^verbatim>\<open>digest\<close> is the
  field \<open>sha256\<close> of the store's environment; the base64url digest of PKCE is \<open>oe_s256\<close>.
\<close>

section \<open>Exceptions and small helpers\<close>

datatype oauth_exc = OAuthError string nat | OtherError string

definition oauthError :: "string \<Rightarrow> nat \<Rightarrow> oauth_exc" where
  "oauthError code status = OAuthError code status"

definition isOAuthError :: "oauth_exc \<Rightarrow> bool" where
  "isOAuthError e = (case e of OAuthError c s \<Rightarrow> True | OtherError m \<Rightarrow> False)"

definition DEFAULT_CHATGPT_CLIENT_ID :: string where
  "DEFAULT_CHATGPT_CLIENT_ID = ''https://chatgpt.com/oauth/client.json''"

definition DEFAULT_CHATGPT_REDIRECT_URI :: string where
  "DEFAULT_CHATGPT_REDIRECT_URI = ''https://chatgpt.com/connector_platform_oauth_redirect''"

definition PKCE_VERIFIER :: "string \<Rightarrow> bool" where
  "PKCE_VERIFIER = in_class (\<lambda>c. is_alnum c \<or> c \<in> set ''._~-'') 43 128"

definition CODE_CHALLENGE :: "string \<Rightarrow> bool" where
  "CODE_CHALLENGE = in_class id_char 43 43"

record oauth_env =
  oe_store :: auth_env
  oe_s256 :: "string \<Rightarrow> string"

abbreviation oe_digest :: "oauth_env \<Rightarrow> string \<Rightarrow> string" where
  "oe_digest env \<equiv> sha256 (oe_store env)"

definition equalText :: "string \<Rightarrow> string \<Rightarrow> bool" where
  "equalText left right \<longleftrightarrow> left = right"

definition sameStrings :: "string list \<Rightarrow> string list \<Rightarrow> bool" where
  "sameStrings left right \<longleftrightarrow> length left = length right \<and>
     (let a = sort left; b = sort right in list_all (\<lambda>i. a ! i = b ! i) [0..<length a])"

text \<open>\<^verbatim>\<open>url.href.replace(/\/$/, "")\<close>\<close>

definition strip_slash :: "string \<Rightarrow> string" where
  "strip_slash s = (if s \<noteq> [] \<and> last s = CHR ''/'' then butlast s else s)"

definition canonicalHttpsUrl :: "oauth_env \<Rightarrow> string \<Rightarrow> oauth_exc + string" where
  "canonicalHttpsUrl env value = (case parseUrl (oe_store env) value of
       None \<Rightarrow> Inl (OtherError ''Error'')
     | Some u \<Rightarrow> if \<not> plain_https u then Inl (OtherError ''Error'') else Inr (strip_slash (href u)))"

text \<open>The white space of \<^verbatim>\<open>\s\<close> among the 8-bit characters, and \<^verbatim>\<open>split(/\s+/).filter(Boolean)\<close>.\<close>

definition is_space :: "char \<Rightarrow> bool" where
  "is_space c \<longleftrightarrow> c \<in> set [CHR '' '', CHR 0x09, CHR 0x0A, CHR 0x0B, CHR 0x0C, CHR 0x0D, CHR 0xA0]"

fun space_words :: "string \<Rightarrow> string list" where
  "space_words [] = []"
| "space_words (c # cs) =
     (if is_space c then space_words cs
      else (case cs of [] \<Rightarrow> [[c]]
            | d # ds \<Rightarrow> if is_space d then [c] # space_words cs
                       else (case space_words cs of [] \<Rightarrow> [[c]] | w # ws \<Rightarrow> (c # w) # ws)))"

text \<open>\<^verbatim>\<open>[...new Set(xs)]\<close> keeps the first occurrence of each element.\<close>

definition first_occurrences :: "'a list \<Rightarrow> 'a list" where
  "first_occurrences xs = rev (remdups (rev xs))"

text \<open>\<^verbatim>\<open>v || ""\<close>; an absent id stands for the empty text, which is the id of no row.\<close>

definition or_empty :: "string option \<Rightarrow> string" where
  "or_empty v = (case v of None \<Rightarrow> [] | Some s \<Rightarrow> s)"

definition parseScope :: "string option \<Rightarrow> string list \<Rightarrow> oauth_exc + string list" where
  "parseScope value supported =
     (let requested = space_words (or_empty value);
          scopes = (if requested \<noteq> [] then requested else supported)
      in if scopes = [] \<or> list_ex (\<lambda>s. s \<notin> set supported) scopes
         then Inl (oauthError ''invalid_scope'' 400)
         else Inr (first_occurrences scopes))"

type_synonym params = "string \<Rightarrow> string option"

definition requireString :: "params \<Rightarrow> string \<Rightarrow> oauth_exc + string" where
  "requireString params name = (case params name of
       None \<Rightarrow> Inl (oauthError ''invalid_request'' 400)
     | Some v \<Rightarrow> if v = [] then Inl (oauthError ''invalid_request'' 400) else Inr v)"

definition assertExact :: "string \<Rightarrow> string \<Rightarrow> string \<Rightarrow> oauth_exc + unit" where
  "assertExact actual expected code =
     (if actual \<noteq> expected then Inl (oauthError code 400) else Inr ())"

section \<open>Metadata client registry\<close>

text \<open>
  What \<^verbatim>\<open>fetch\<close> gives: a network error, or a response with its status class, the parsed
  \<^verbatim>\<open>content-length\<close> (\<^term>\<open>None\<close> for \<^verbatim>\<open>NaN\<close>) and the chunks of its body.
\<close>

record http_response =
  resp_ok :: bool
  resp_contentLength :: "int option"
  resp_body :: "string list option"

fun read_chunks :: "nat \<Rightarrow> nat \<Rightarrow> string list \<Rightarrow> oauth_exc + string" where
  "read_chunks maxBytes sz [] = Inr []"
| "read_chunks maxBytes sz (chunk # rest) =
     (if sz + length chunk > maxBytes then Inl (oauthError ''invalid_client'' 400)
      else (case read_chunks maxBytes (sz + length chunk) rest of
              Inl e \<Rightarrow> Inl e | Inr bytes \<Rightarrow> Inr (chunk @ bytes)))"

definition readBoundedBody :: "http_response \<Rightarrow> nat \<Rightarrow> oauth_exc + string" where
  "readBoundedBody response maxBytes = (case resp_body response of
       None \<Rightarrow> Inr [] | Some chunks \<Rightarrow> read_chunks maxBytes 0 chunks)"

record cimd_cfg =
  cimd_allowedClientIds :: "string list"
  cimd_maxBytes :: nat
  cimd_cacheTtlMs :: time

type_synonym cimd_cache = "(string \<times> json \<times> time) list"

definition cimd_origin_ok :: "url \<Rightarrow> bool" where
  "cimd_origin_ok u \<longleftrightarrow> protocol u = ''https:'' \<and> hostname u = ''chatgpt.com'' \<and>
     username u = [] \<and> password u = []"

definition cimd_document_ok :: "string \<Rightarrow> json \<Rightarrow> bool" where
  "cimd_document_ok clientId document \<longleftrightarrow>
     json_field ''client_id'' document = Some (JStr clientId) \<and>
     array_includes (json_field ''redirect_uris'' document) DEFAULT_CHATGPT_REDIRECT_URI \<and>
     list_all (is_string_with_prefix ''https://chatgpt.com/'') (elements (json_field ''redirect_uris'' document)) \<and>
     array_includes (json_field ''response_types'' document) ''code'' \<and>
     array_includes (json_field ''grant_types'' document) ''authorization_code''"

definition cimd_auth_methods :: "json \<Rightarrow> json list" where
  "cimd_auth_methods document =
     (if is_array (json_field ''token_endpoint_auth_methods_supported'' document)
      then elements (json_field ''token_endpoint_auth_methods_supported'' document)
      else filter (\<lambda>v. truthy (Some v))
             (case json_field ''token_endpoint_auth_method'' document of None \<Rightarrow> [] | Some v \<Rightarrow> [v]))"

text \<open>
  Fetching and checking a document: the part of \<open>validate\<close> inside the cache miss.
\<close>

definition cimd_fetch ::
  "(string \<Rightarrow> json option) \<Rightarrow> cimd_cfg \<Rightarrow> string \<Rightarrow> http_response option \<Rightarrow> oauth_exc + json" where
  "cimd_fetch parseJson cfg clientId fetched = (case fetched of
       None \<Rightarrow> Inl (OtherError ''TypeError'')
     | Some response \<Rightarrow>
        if \<not> resp_ok response then Inl (oauthError ''invalid_client'' 400) else
        if (case resp_contentLength response of None \<Rightarrow> False | Some n \<Rightarrow> n > int (cimd_maxBytes cfg))
        then Inl (oauthError ''invalid_client'' 400) else
        (case readBoundedBody response (cimd_maxBytes cfg) of Inl e \<Rightarrow> Inl e | Inr bytes \<Rightarrow>
        (case parseJson bytes of
           None \<Rightarrow> Inl (oauthError ''invalid_client'' 400)
         | Some document \<Rightarrow>
             if document = JNull then Inl (OtherError ''TypeError'') else
             if \<not> cimd_document_ok clientId document then Inl (oauthError ''invalid_client'' 400) else
             if JStr ''none'' \<notin> set (cimd_auth_methods document)
             then Inl (oauthError ''unauthorized_client'' 400) else Inr document)))"

definition cimd_validate ::
  "(string \<Rightarrow> url option) \<Rightarrow> (string \<Rightarrow> json option) \<Rightarrow> cimd_cfg \<Rightarrow> (nat \<Rightarrow> time) \<Rightarrow> http_response option \<Rightarrow>
    string \<Rightarrow> string \<Rightarrow> cimd_cache \<Rightarrow> cimd_cache \<times> (oauth_exc + json)" where
  "cimd_validate parse parseJson cfg clk fetched clientId redirectUri cache =
     (if clientId \<notin> set (cimd_allowedClientIds cfg) then (cache, Inl (oauthError ''unauthorized_client'' 403)) else
      case parse clientId of None \<Rightarrow> (cache, Inl (oauthError ''unauthorized_client'' 403)) | Some clientUrl \<Rightarrow>
      if \<not> cimd_origin_ok clientUrl then (cache, Inl (oauthError ''unauthorized_client'' 403)) else
      let registered = (\<lambda>cache document.
            if JStr redirectUri \<notin> set (elements (json_field ''redirect_uris'' document))
            then (cache, Inl (oauthError ''invalid_request'' 400)) else (cache, Inr document));
          refetch = attempt cache (cimd_fetch parseJson cfg clientId fetched) (\<lambda>document.
            registered (AList.update clientId (document, clk 1 + cimd_cacheTtlMs cfg) cache) document)
      in (case map_of cache clientId of
            None \<Rightarrow> refetch
          | Some (document, expiresAt) \<Rightarrow>
              if expiresAt \<le> clk 0 then refetch else registered cache document))"

section \<open>Registered clients\<close>

record dcr_registration =
  dr_client_id :: string
  dr_redirect_uris :: "string list"
  dr_auth_method :: string
  dr_grant_types :: "string list"
  dr_response_types :: "string list"
  dr_scope :: string

definition dcr_document_ok :: "json \<Rightarrow> bool" where
  "dcr_document_ok document \<longleftrightarrow>
     (case document of JObj fs \<Rightarrow> True | _ \<Rightarrow> False) \<and>
     json_field ''redirect_uris'' document = Some (JArr [JStr DEFAULT_CHATGPT_REDIRECT_URI]) \<and>
     (truthy (json_field ''token_endpoint_auth_method'' document) \<longrightarrow>
        json_field ''token_endpoint_auth_method'' document = Some (JStr ''none'')) \<and>
     (truthy (json_field ''grant_types'' document) \<longrightarrow>
        array_includes (json_field ''grant_types'' document) ''authorization_code'' \<and>
        list_all (\<lambda>t. t \<in> {JStr ''authorization_code'', JStr ''refresh_token''})
          (elements (json_field ''grant_types'' document))) \<and>
     (truthy (json_field ''response_types'' document) \<longrightarrow>
        array_includes (json_field ''response_types'' document) ''code'')"

definition dcr_register :: "string \<Rightarrow> string list \<Rightarrow> json \<Rightarrow> oauth_exc + dcr_registration" where
  "dcr_register clientId scopes document =
     (if \<not> dcr_document_ok document then Inl (oauthError ''invalid_client_metadata'' 400)
      else Inr \<lparr>dr_client_id = clientId, dr_redirect_uris = [DEFAULT_CHATGPT_REDIRECT_URI],
             dr_auth_method = ''none'', dr_grant_types = [''authorization_code'', ''refresh_token''],
             dr_response_types = [''code''], dr_scope = join_with '' '' scopes\<rparr>)"

definition dcr_validate :: "string \<Rightarrow> string \<Rightarrow> string \<Rightarrow> oauth_exc + unit" where
  "dcr_validate ownClientId clientId redirectUri =
     (if clientId \<noteq> ownClientId \<or> redirectUri \<noteq> DEFAULT_CHATGPT_REDIRECT_URI
      then Inl (oauthError ''invalid_client'' 400) else Inr ())"

section \<open>The authorization server\<close>

record auth_transaction =
  ta_clientId :: string
  ta_redirectUri :: string
  ta_resource :: string
  ta_codeChallenge :: string
  ta_scopes :: "string list"
  ta_state :: string
  ta_expiresAt :: time

record auth_code =
  co_clientId :: string
  co_redirectUri :: string
  co_resource :: string
  co_codeChallenge :: string
  co_scopes :: "string list"
  co_state :: string
  co_grantId :: "string option"
  co_ownerId :: "string option"
  co_executionProfile :: "string option"
  co_expiresAt :: time

record access_token =
  at_clientId :: string
  at_resource :: string
  at_scopes :: "string list"
  at_grantId :: "string option"
  at_ownerId :: "string option"
  at_executionProfile :: "string option"
  at_grantExpiresAt :: "time option"
  at_tokenFamilyId :: "string option"
  at_expiresAt :: time

text \<open>The fields the constructor sets once. An owner is configured together with the store.\<close>

record oauth_cfg =
  oc_issuer :: string
  oc_resource :: string
  oc_approvalSecret :: string
  oc_scopes :: "string list"
  oc_dcrClientId :: string
  oc_cimd :: cimd_cfg
  oc_transactionTtlMs :: time
  oc_codeTtlMs :: time
  oc_accessTokenTtlMs :: time
  oc_refreshTokenTtlMs :: time
  oc_grantTtlMs :: time
  oc_maxPendingTransactions :: nat
  oc_owner :: "string option"
  oc_executionProfile :: string

record oauth_state =
  os_transactions :: "(string \<times> auth_transaction) list"
  os_codes :: "(string \<times> auth_code) list"
  os_tokens :: "(string \<times> access_token) list"
  os_cache :: cimd_cache
  os_store :: auth_db

record oauth_input =
  in_clk :: "nat \<Rightarrow> time"
  in_rand :: "nat \<Rightarrow> string"
  in_commit :: bool

definition new_oauth_state :: "auth_db \<Rightarrow> oauth_state" where
  "new_oauth_state db = \<lparr>os_transactions = [], os_codes = [], os_tokens = [], os_cache = [], os_store = db\<rparr>"

text \<open>
  The checks of the constructor, in its order; \<open>hmacId\<close> is the client id derived from the
  approval secret, used when the store has no earlier one.
\<close>

definition durable_dcr_client ::
  "oauth_env \<Rightarrow> string option \<Rightarrow> auth_db \<Rightarrow> oauth_exc + client option" where
  "durable_dcr_client env ownerId db = (case ownerId of None \<Rightarrow> Inr None | Some w \<Rightarrow>
     (case findActiveClient (oe_store env) w DEFAULT_CHATGPT_REDIRECT_URI ''dcr_'' db of
        Inl e \<Rightarrow> Inl (OtherError (exc_code e)) | Inr c \<Rightarrow> Inr c))"

definition newOAuthSpike ::
  "oauth_env \<Rightarrow> string \<Rightarrow> oauth_cfg \<Rightarrow> auth_db \<Rightarrow> oauth_exc + oauth_cfg \<times> oauth_state" where
  "newOAuthSpike env hmacId raw db =
     (case canonicalHttpsUrl env (oc_issuer raw) of Inl e \<Rightarrow> Inl e | Inr issuer \<Rightarrow>
     (case canonicalHttpsUrl env (oc_resource raw) of Inl e \<Rightarrow> Inl e | Inr resource \<Rightarrow>
      if length (oc_approvalSecret raw) < 32 then Inl (OtherError ''Error'') else
      if first_occurrences (oc_scopes raw) = [] then Inl (OtherError ''Error'') else
      (case durable_dcr_client env (oc_owner raw) db of Inl e \<Rightarrow> Inl e | Inr durable \<Rightarrow>
       if oc_grantTtlMs raw < 1 \<or> oc_refreshTokenTtlMs raw < 1 then Inl (OtherError ''Error'') else
       Inr (raw\<lparr>oc_issuer := issuer, oc_resource := resource,
                oc_scopes := first_occurrences (oc_scopes raw),
                oc_dcrClientId := (case durable of None \<Rightarrow> hmacId | Some c \<Rightarrow> cl_clientId c)\<rparr>,
            new_oauth_state db))))"

text \<open>
  \<open>try { a = authStore.m(...) } catch (error) { throw h(error) }\<close>: the tables move on, an
  exception is translated.
\<close>

definition store_call ::
  "oauth_state \<Rightarrow> auth_db \<times> (auth_exc + 'a) \<Rightarrow> (auth_exc \<Rightarrow> oauth_exc) \<Rightarrow>
    ('a \<Rightarrow> oauth_state \<Rightarrow> oauth_state \<times> (oauth_exc + 'b)) \<Rightarrow> oauth_state \<times> (oauth_exc + 'b)" where
  "store_call st call h k = (case snd call of
       Inl e \<Rightarrow> (st\<lparr>os_store := fst call\<rparr>, Inl (h e))
     | Inr a \<Rightarrow> k a (st\<lparr>os_store := fst call\<rparr>))"

definition unavailable :: "auth_exc \<Rightarrow> oauth_exc" where
  "unavailable e = oauthError ''temporarily_unavailable'' 503"

definition persistClient ::
  "oauth_cfg \<Rightarrow> oauth_env \<Rightarrow> time \<Rightarrow> string \<Rightarrow> string \<Rightarrow> oauth_state \<Rightarrow> oauth_state \<times> (oauth_exc + unit)" where
  "persistClient cfg env now clientId redirectUri st = (case oc_owner cfg of
       None \<Rightarrow> (st, Inr ())
     | Some w \<Rightarrow> store_call st (registerClient (oe_store env) clientId w redirectUri (Some now) (os_store st))
         unavailable (\<lambda>_ st. (st, Inr ())))"

definition oauth_registerClient ::
  "oauth_cfg \<Rightarrow> oauth_env \<Rightarrow> oauth_input \<Rightarrow> json \<Rightarrow> oauth_state \<Rightarrow> oauth_state \<times> (oauth_exc + dcr_registration)" where
  "oauth_registerClient cfg env inp document st =
     attempt st (dcr_register (oc_dcrClientId cfg) (oc_scopes cfg) document) (\<lambda>registration.
     case persistClient cfg env (in_clk inp 0) (dr_client_id registration)
            (hd (dr_redirect_uris registration)) st of
       (st, Inl e) \<Rightarrow> (st, Inl e)
     | (st, Inr _) \<Rightarrow> (st, Inr registration))"

definition cleanup :: "time \<Rightarrow> oauth_state \<Rightarrow> oauth_state" where
  "cleanup now st = st\<lparr>
     os_transactions := filter (\<lambda>(k, v). \<not> ta_expiresAt v \<le> now) (os_transactions st),
     os_codes := filter (\<lambda>(k, v). \<not> co_expiresAt v \<le> now) (os_codes st),
     os_tokens := filter (\<lambda>(k, v). \<not> at_expiresAt v \<le> now) (os_tokens st)\<rparr>"

section \<open>Authorization\<close>

text \<open>
  \<open>beginAuthorization\<close> suspends while the client metadata is fetched. The definition has
  its two halves: the checks of the request before the suspension, and everything after the
  validation of the client. Other requests run in between.
\<close>

record authorize_request =
  ar_clientId :: string
  ar_redirectUri :: string
  ar_resource :: string
  ar_codeChallenge :: string

definition authorize_checks :: "oauth_cfg \<Rightarrow> params \<Rightarrow> oauth_exc + authorize_request" where
  "authorize_checks cfg params =
     (case requireString params ''response_type'' of Inl e \<Rightarrow> Inl e | Inr responseType \<Rightarrow>
     (case assertExact responseType ''code'' ''unsupported_response_type'' of Inl e \<Rightarrow> Inl e | Inr _ \<Rightarrow>
     (case requireString params ''client_id'' of Inl e \<Rightarrow> Inl e | Inr clientId \<Rightarrow>
     (case requireString params ''redirect_uri'' of Inl e \<Rightarrow> Inl e | Inr redirectUri \<Rightarrow>
     (case requireString params ''resource'' of Inl e \<Rightarrow> Inl e | Inr resource \<Rightarrow>
     (case assertExact resource (oc_resource cfg) ''invalid_target'' of Inl e \<Rightarrow> Inl e | Inr _ \<Rightarrow>
     (case requireString params ''code_challenge'' of Inl e \<Rightarrow> Inl e | Inr codeChallenge \<Rightarrow>
     (case requireString params ''code_challenge_method'' of Inl e \<Rightarrow> Inl e | Inr challengeMethod \<Rightarrow>
     (case assertExact challengeMethod ''S256'' ''invalid_request'' of Inl e \<Rightarrow> Inl e | Inr _ \<Rightarrow>
      if \<not> CODE_CHALLENGE codeChallenge then Inl (oauthError ''invalid_request'' 400)
      else Inr \<lparr>ar_clientId = clientId, ar_redirectUri = redirectUri, ar_resource = resource,
             ar_codeChallenge = codeChallenge\<rparr>)))))))))"

definition validate_client ::
  "oauth_cfg \<Rightarrow> oauth_env \<Rightarrow> (string \<Rightarrow> json option) \<Rightarrow> (nat \<Rightarrow> time) \<Rightarrow> http_response option \<Rightarrow>
    authorize_request \<Rightarrow> oauth_state \<Rightarrow> oauth_state \<times> (oauth_exc + unit)" where
  "validate_client cfg env parseJson clk fetched req st =
     (if starts_with (ar_clientId req) ''dcr_''
      then (st, dcr_validate (oc_dcrClientId cfg) (ar_clientId req) (ar_redirectUri req))
      else (case cimd_validate (parseUrl (oe_store env)) parseJson (oc_cimd cfg) clk fetched
                   (ar_clientId req) (ar_redirectUri req) (os_cache st) of
              (cache, Inl e) \<Rightarrow> (st\<lparr>os_cache := cache\<rparr>, Inl e)
            | (cache, Inr _) \<Rightarrow> (st\<lparr>os_cache := cache\<rparr>, Inr ())))"

record authorize_view =
  av_id :: string
  av_clientId :: string
  av_resource :: string
  av_scopes :: "string list"
  av_executionProfile :: string

definition authorize_resume ::
  "oauth_cfg \<Rightarrow> oauth_env \<Rightarrow> oauth_input \<Rightarrow> params \<Rightarrow> authorize_request \<Rightarrow> oauth_state
    \<Rightarrow> oauth_state \<times> (oauth_exc + authorize_view)" where
  "authorize_resume cfg env inp params req st =
     (case persistClient cfg env (in_clk inp 1) (ar_clientId req) (ar_redirectUri req) st of
        (st, Inl e) \<Rightarrow> (st, Inl e)
      | (st, Inr _) \<Rightarrow>
     attempt st (parseScope (params ''scope'') (oc_scopes cfg)) (\<lambda>scopes.
     if length (os_transactions st) \<ge> oc_maxPendingTransactions cfg
     then (st, Inl (oauthError ''temporarily_unavailable'' 503)) else
     let transactionId = in_rand inp 0 in
     (st\<lparr>os_transactions := AList.update (oe_digest env transactionId)
           \<lparr>ta_clientId = ar_clientId req, ta_redirectUri = ar_redirectUri req,
            ta_resource = ar_resource req, ta_codeChallenge = ar_codeChallenge req,
            ta_scopes = scopes,
            ta_state = or_empty (params ''state''),
            ta_expiresAt = in_clk inp 2 + oc_transactionTtlMs cfg\<rparr> (os_transactions st)\<rparr>,
      Inr \<lparr>av_id = transactionId, av_clientId = ar_clientId req, av_resource = ar_resource req,
           av_scopes = scopes, av_executionProfile = oc_executionProfile cfg\<rparr>)))"

definition beginAuthorization ::
  "oauth_cfg \<Rightarrow> oauth_env \<Rightarrow> (string \<Rightarrow> json option) \<Rightarrow> oauth_input \<Rightarrow> (nat \<Rightarrow> time) \<Rightarrow>
    http_response option \<Rightarrow> params \<Rightarrow> oauth_state \<Rightarrow> oauth_state \<times> (oauth_exc + authorize_view)" where
  "beginAuthorization cfg env parseJson inp cimd_clk fetched params st =
     (let st = cleanup (in_clk inp 0) st in
      attempt st (authorize_checks cfg params) (\<lambda>req.
      case validate_client cfg env parseJson cimd_clk fetched req st of
        (st, Inl e) \<Rightarrow> (st, Inl e)
      | (st, Inr _) \<Rightarrow> authorize_resume cfg env inp params req st))"

text \<open>
  The redirect that answers an approval; the text of the URL with its three query
  parameters is the platform's.
\<close>

record redirect =
  rd_uri :: string
  rd_code :: string
  rd_state :: string
  rd_iss :: string

definition code_of ::
  "auth_transaction \<Rightarrow> grant option \<Rightarrow> time \<Rightarrow> auth_code" where
  "code_of t durableGrant expiresAt =
     \<lparr>co_clientId = ta_clientId t, co_redirectUri = ta_redirectUri t, co_resource = ta_resource t,
      co_codeChallenge = ta_codeChallenge t, co_scopes = ta_scopes t, co_state = ta_state t,
      co_grantId = map_option gr_id durableGrant, co_ownerId = map_option gr_ownerId durableGrant,
      co_executionProfile = map_option gr_executionProfile durableGrant, co_expiresAt = expiresAt\<rparr>"

definition issue_code ::
  "oauth_cfg \<Rightarrow> oauth_env \<Rightarrow> oauth_input \<Rightarrow> time \<Rightarrow> auth_transaction \<Rightarrow> grant option \<Rightarrow> oauth_state
    \<Rightarrow> oauth_state \<times> (oauth_exc + redirect)" where
  "issue_code cfg env inp approvedAt t durableGrant st =
     (let code = in_rand inp 1;
          st = st\<lparr>os_codes := AList.update (oe_digest env code)
                 (code_of t durableGrant (approvedAt + oc_codeTtlMs cfg)) (os_codes st)\<rparr>
      in (case parseUrl (oe_store env) (ta_redirectUri t) of
            None \<Rightarrow> (st, Inl (OtherError ''TypeError''))
          | Some u \<Rightarrow> (st, Inr \<lparr>rd_uri = href u, rd_code = code, rd_state = ta_state t,
                              rd_iss = oc_issuer cfg\<rparr>)))"

definition approve ::
  "oauth_cfg \<Rightarrow> oauth_env \<Rightarrow> oauth_input \<Rightarrow> string option \<Rightarrow> string option \<Rightarrow> oauth_state
    \<Rightarrow> oauth_state \<times> (oauth_exc + redirect)" where
  "approve cfg env inp transactionId approvalSecret st =
     (let st = cleanup (in_clk inp 0) st;
          key = oe_digest env (or_empty transactionId)
      in (case map_of (os_transactions st) key of
            None \<Rightarrow> (st, Inl (oauthError ''invalid_request'' 400))
          | Some t \<Rightarrow>
     let st = st\<lparr>os_transactions := AList.delete key (os_transactions st)\<rparr> in
     if \<not> equalText (or_empty approvalSecret) (oc_approvalSecret cfg)
     then (st, Inl (oauthError ''access_denied'' 403)) else
     let approvedAt = in_clk inp 1 in
     (case oc_owner cfg of
        None \<Rightarrow> issue_code cfg env inp approvedAt t None st
      | Some w \<Rightarrow> store_call st
          (createGrant (oe_store env) (in_rand inp 0) w (ta_clientId t) (ta_resource t)
             (Some (ta_scopes t)) (oc_executionProfile cfg) (Some approvedAt)
             (Some (approvedAt + oc_grantTtlMs cfg)) (os_store st))
          unavailable (issue_code cfg env inp approvedAt t))))"

section \<open>Tokens\<close>

record token_response =
  tr_access_token :: string
  tr_token_type :: string
  tr_expires_in :: int
  tr_scope :: string
  tr_refresh_token :: "string option"

definition issueAccessToken ::
  "oauth_cfg \<Rightarrow> oauth_env \<Rightarrow> string \<Rightarrow> string \<Rightarrow> string \<Rightarrow> string list \<Rightarrow> grant option \<Rightarrow> family option \<Rightarrow>
    time \<Rightarrow> string option \<Rightarrow> oauth_state \<Rightarrow> oauth_state \<times> (oauth_exc + token_response)" where
  "issueAccessToken cfg env accessToken clientId resource scopes grant family issuedAt refreshToken st =
     (let expiresAt = (case grant of
            None \<Rightarrow> issuedAt + oc_accessTokenTtlMs cfg
          | Some g \<Rightarrow> min (issuedAt + oc_accessTokenTtlMs cfg) (gr_expiresAt g))
      in if expiresAt \<le> issuedAt then (st, Inl (oauthError ''invalid_grant'' 400)) else
      (st\<lparr>os_tokens := AList.update (oe_digest env accessToken)
            \<lparr>at_clientId = clientId, at_resource = resource, at_scopes = scopes,
             at_grantId = map_option gr_id grant, at_ownerId = map_option gr_ownerId grant,
             at_executionProfile = map_option gr_executionProfile grant,
             at_grantExpiresAt = map_option gr_expiresAt grant,
             at_tokenFamilyId = map_option tf_id family, at_expiresAt = expiresAt\<rparr> (os_tokens st)\<rparr>,
       Inr \<lparr>tr_access_token = accessToken, tr_token_type = ''Bearer'',
            tr_expires_in = (expiresAt - issuedAt) div 1000, tr_scope = join_with '' '' scopes,
            tr_refresh_token = refreshToken\<rparr>))"

text \<open>The tests of \<open>exchangeAuthorizationCode\<close> that need no store, in their order.\<close>

definition code_checks :: "oauth_env \<Rightarrow> params \<Rightarrow> auth_code \<Rightarrow> oauth_exc + unit" where
  "code_checks env params grant =
     (case requireString params ''client_id'' of Inl e \<Rightarrow> Inl e | Inr clientId \<Rightarrow>
     (case assertExact clientId (co_clientId grant) ''invalid_grant'' of Inl e \<Rightarrow> Inl e | Inr _ \<Rightarrow>
     (case requireString params ''redirect_uri'' of Inl e \<Rightarrow> Inl e | Inr redirectUri \<Rightarrow>
     (case assertExact redirectUri (co_redirectUri grant) ''invalid_grant'' of Inl e \<Rightarrow> Inl e | Inr _ \<Rightarrow>
     (case requireString params ''resource'' of Inl e \<Rightarrow> Inl e | Inr resource \<Rightarrow>
     (case assertExact resource (co_resource grant) ''invalid_target'' of Inl e \<Rightarrow> Inl e | Inr _ \<Rightarrow>
     (case requireString params ''code_verifier'' of Inl e \<Rightarrow> Inl e | Inr verifier \<Rightarrow>
      if \<not> PKCE_VERIFIER verifier then Inl (oauthError ''invalid_grant'' 400) else
      if \<not> equalText (oe_s256 env verifier) (co_codeChallenge grant)
      then Inl (oauthError ''invalid_grant'' 400) else Inr ())))))))"

definition durable_grant_ok :: "string \<Rightarrow> auth_code \<Rightarrow> grant \<Rightarrow> bool" where
  "durable_grant_ok ownerId code g \<longleftrightarrow> gr_status g = ACTIVE \<and> gr_ownerId g = ownerId \<and>
     gr_clientId g = co_clientId code \<and> gr_resource g = co_resource code \<and>
     sameStrings (gr_scopes g) (co_scopes code)"

text \<open>
  The part after the code's checks, with a store. The code's grant id is never absent then;
  the model reads the text of \<^verbatim>\<open>null\<close> as the empty id, which no grant has.
\<close>

definition exchange_durable ::
  "oauth_cfg \<Rightarrow> oauth_env \<Rightarrow> oauth_input \<Rightarrow> string \<Rightarrow> auth_code \<Rightarrow> oauth_state
    \<Rightarrow> oauth_state \<times> (oauth_exc + token_response)" where
  "exchange_durable cfg env inp ownerId code st =
     store_call st (getGrant (or_empty (co_grantId code)) (Some (in_clk inp 1)) (os_store st))
       unavailable (\<lambda>durable st.
       case durable of None \<Rightarrow> (st, Inl (oauthError ''invalid_grant'' 400)) | Some g \<Rightarrow>
       if \<not> durable_grant_ok ownerId code g then (st, Inl (oauthError ''invalid_grant'' 400)) else
       let issuedAt = in_clk inp 2; refreshToken = in_rand inp 0 in
       store_call st (createTokenFamily (oe_store env) (in_commit inp) (in_rand inp 1) (gr_id g)
            (gr_ownerId g) (gr_clientId g) (gr_resource g) refreshToken (Some issuedAt)
            (Some (min (issuedAt + oc_refreshTokenTtlMs cfg) (gr_expiresAt g))) (os_store st))
         unavailable (\<lambda>family st.
         issueAccessToken cfg env (in_rand inp 2) (co_clientId code) (co_resource code) (co_scopes code)
           (Some g) family issuedAt (Some refreshToken) st))"

definition exchangeAuthorizationCode ::
  "oauth_cfg \<Rightarrow> oauth_env \<Rightarrow> oauth_input \<Rightarrow> params \<Rightarrow> oauth_state \<Rightarrow> oauth_state \<times> (oauth_exc + token_response)" where
  "exchangeAuthorizationCode cfg env inp params st =
     attempt st (requireString params ''code'') (\<lambda>code.
     let key = oe_digest env code in
     case map_of (os_codes st) key of
       None \<Rightarrow> (st, Inl (oauthError ''invalid_grant'' 400))
     | Some grant \<Rightarrow>
         let st = st\<lparr>os_codes := AList.delete key (os_codes st)\<rparr> in
         attempt st (code_checks env params grant) (\<lambda>_.
         case oc_owner cfg of
           None \<Rightarrow> issueAccessToken cfg env (in_rand inp 2) (co_clientId grant) (co_resource grant)
                     (co_scopes grant) None None (in_clk inp 2) None st
         | Some w \<Rightarrow> exchange_durable cfg env inp w grant st))"

definition refresh_failure :: "auth_exc \<Rightarrow> oauth_exc" where
  "refresh_failure e = (case e of
       AuthStoreError c s \<Rightarrow>
         if c \<in> {''invalid_refresh_token'', ''refresh_inactive'', ''refresh_reuse_detected''}
         then oauthError ''invalid_grant'' 400 else oauthError ''temporarily_unavailable'' 503
     | SqliteError m \<Rightarrow> oauthError ''temporarily_unavailable'' 503)"

definition refresh_checks :: "oauth_cfg \<Rightarrow> params \<Rightarrow> oauth_exc + string \<times> string \<times> string" where
  "refresh_checks cfg params =
     (case requireString params ''refresh_token'' of Inl e \<Rightarrow> Inl e | Inr refreshToken \<Rightarrow>
     (case requireString params ''client_id'' of Inl e \<Rightarrow> Inl e | Inr clientId \<Rightarrow>
     (case requireString params ''resource'' of Inl e \<Rightarrow> Inl e | Inr resource \<Rightarrow>
     (case assertExact resource (oc_resource cfg) ''invalid_target'' of Inl e \<Rightarrow> Inl e | Inr _ \<Rightarrow>
        Inr (refreshToken, clientId, resource)))))"

definition refresh_scopes :: "oauth_cfg \<Rightarrow> params \<Rightarrow> grant \<Rightarrow> oauth_exc + string list" where
  "refresh_scopes cfg params g = (case params ''scope'' of
       None \<Rightarrow> Inr (gr_scopes g)
     | Some s \<Rightarrow> if s = [] then Inr (gr_scopes g) else parseScope (Some s) (oc_scopes cfg))"

definition exchangeRefreshToken ::
  "oauth_cfg \<Rightarrow> oauth_env \<Rightarrow> oauth_input \<Rightarrow> params \<Rightarrow> oauth_state \<Rightarrow> oauth_state \<times> (oauth_exc + token_response)" where
  "exchangeRefreshToken cfg env inp params st =
     (if oc_owner cfg = None then (st, Inl (oauthError ''unsupported_grant_type'' 400)) else
      attempt st (refresh_checks cfg params) (\<lambda>(refreshToken, clientId, resource).
      let nextRefreshToken = in_rand inp 0 in
      store_call st (rotateRefreshToken (oe_store env) (in_commit inp) refreshToken nextRefreshToken
           clientId resource (Some (in_clk inp 1)) (os_store st)) refresh_failure (\<lambda>(fam, gr) st.
      case fam of None \<Rightarrow> (st, Inl (oauthError ''invalid_grant'' 400)) | Some family \<Rightarrow>
      case gr of None \<Rightarrow> (st, Inl (oauthError ''invalid_grant'' 400)) | Some g \<Rightarrow>
      if tf_status family \<noteq> ACTIVE \<or> gr_status g \<noteq> ACTIVE
      then (st, Inl (oauthError ''invalid_grant'' 400)) else
      attempt st (refresh_scopes cfg params g) (\<lambda>scopes.
      if \<not> sameStrings scopes (gr_scopes g) then (st, Inl (oauthError ''invalid_scope'' 400)) else
      issueAccessToken cfg env (in_rand inp 2) (gr_clientId g) (gr_resource g) (gr_scopes g)
        (Some g) (Some family) (in_clk inp 2) (Some nextRefreshToken) st))))"

definition exchange ::
  "oauth_cfg \<Rightarrow> oauth_env \<Rightarrow> oauth_input \<Rightarrow> params \<Rightarrow> string option \<Rightarrow> oauth_state
    \<Rightarrow> oauth_state \<times> (oauth_exc + token_response)" where
  "exchange cfg env inp params authorizationHeader st =
     (let st = cleanup (in_clk inp 0) st in
      if (case authorizationHeader of None \<Rightarrow> False | Some h \<Rightarrow> h \<noteq> [])
      then (st, Inl (oauthError ''invalid_client'' 401)) else
      attempt st (requireString params ''grant_type'') (\<lambda>grantType.
      if grantType = ''authorization_code'' then exchangeAuthorizationCode cfg env inp params st else
      if grantType = ''refresh_token'' then exchangeRefreshToken cfg env inp params st else
      (st, Inl (oauthError ''unsupported_grant_type'' 400))))"

definition oauth_revoke ::
  "oauth_cfg \<Rightarrow> oauth_env \<Rightarrow> oauth_input \<Rightarrow> params \<Rightarrow> oauth_state \<Rightarrow> oauth_state \<times> (oauth_exc + unit)" where
  "oauth_revoke cfg env inp params st =
     (let st = cleanup (in_clk inp 0) st in
      attempt st (requireString params ''token'') (\<lambda>token.
      let clientId = (case params ''client_id'' of None \<Rightarrow> None | Some c \<Rightarrow> if c = [] then None else Some c);
          accessKey = oe_digest env token;
          by_refresh = (if oc_owner cfg = None then (st, Inr ()) else
            store_call st (revokeRefreshToken (oe_store env) (in_commit inp) token clientId
                (Some (in_clk inp 1)) ''client_revoke'' (os_store st)) unavailable (\<lambda>_ st. (st, Inr ())))
      in (case map_of (os_tokens st) accessKey of
            None \<Rightarrow> by_refresh
          | Some access \<Rightarrow>
              if clientId \<noteq> None \<and> clientId \<noteq> Some (at_clientId access) then by_refresh else
              let st = st\<lparr>os_tokens := AList.delete accessKey (os_tokens st)\<rparr> in
              (case (oc_owner cfg, at_tokenFamilyId access) of
                 (Some w, Some familyId) \<Rightarrow>
                   store_call st (revokeTokenFamily (in_commit inp) familyId
                       (or_empty (at_ownerId access))
                       (Some (in_clk inp 1)) ''client_revoke'' (os_store st)) unavailable (\<lambda>_ st. (st, Inr ()))
               | _ \<Rightarrow> (st, Inr ())))))"

section \<open>Authentication\<close>

record auth_identity =
  id_clientId :: string
  id_scopes :: "string list"
  id_ownerId :: "string option"
  id_grantId :: "string option"
  id_executionProfile :: "string option"
  id_grantExpiresAt :: "time option"

text \<open>\<^verbatim>\<open>/^Bearer ([A-Za-z0-9_-]+)$/\<close>\<close>

definition bearer_token :: "string option \<Rightarrow> string option" where
  "bearer_token header = (case header of None \<Rightarrow> None | Some h \<Rightarrow>
     if starts_with h ''Bearer '' \<and> drop 7 h \<noteq> [] \<and> list_all id_char (drop 7 h)
     then Some (drop 7 h) else None)"

definition token_grant_ok :: "access_token \<Rightarrow> grant \<Rightarrow> bool" where
  "token_grant_ok t g \<longleftrightarrow> gr_status g = ACTIVE \<and> Some (gr_ownerId g) = at_ownerId t \<and>
     gr_clientId g = at_clientId t \<and> gr_resource g = at_resource t \<and>
     Some (gr_executionProfile g) = at_executionProfile t \<and> sameStrings (gr_scopes g) (at_scopes t)"

definition token_family_ok :: "access_token \<Rightarrow> family \<Rightarrow> bool" where
  "token_family_ok t f \<longleftrightarrow> tf_status f = ACTIVE \<and> Some (tf_grantId f) = at_grantId t \<and>
     Some (tf_ownerId f) = at_ownerId t \<and> tf_clientId f = at_clientId t \<and> tf_resource f = at_resource t"

definition identity_of :: "access_token \<Rightarrow> auth_identity" where
  "identity_of t = \<lparr>id_clientId = at_clientId t, id_scopes = at_scopes t, id_ownerId = at_ownerId t,
     id_grantId = at_grantId t, id_executionProfile = at_executionProfile t,
     id_grantExpiresAt = at_grantExpiresAt t\<rparr>"

definition authenticate ::
  "oauth_cfg \<Rightarrow> oauth_env \<Rightarrow> oauth_input \<Rightarrow> string option \<Rightarrow> oauth_state \<Rightarrow> oauth_state \<times> auth_identity option" where
  "authenticate cfg env inp authorizationHeader st =
     (let st = cleanup (in_clk inp 0) st in
      case bearer_token authorizationHeader of None \<Rightarrow> (st, None) | Some token \<Rightarrow>
      case map_of (os_tokens st) (oe_digest env token) of None \<Rightarrow> (st, None) | Some t \<Rightarrow>
      if at_resource t \<noteq> oc_resource cfg \<or> at_expiresAt t \<le> in_clk inp 1 then (st, None) else
      case oc_owner cfg of None \<Rightarrow> (st, Some (identity_of t)) | Some w \<Rightarrow>
      (case getGrant (or_empty (at_grantId t)) (Some (in_clk inp 2)) (os_store st) of
         (db1, Inl e) \<Rightarrow> (st\<lparr>os_store := db1\<rparr>, None)
       | (db1, Inr None) \<Rightarrow> (st\<lparr>os_store := db1\<rparr>, None)
       | (db1, Inr (Some g)) \<Rightarrow>
           if \<not> token_grant_ok t g then (st\<lparr>os_store := db1\<rparr>, None) else
           (case at_tokenFamilyId t of None \<Rightarrow> (st\<lparr>os_store := db1\<rparr>, Some (identity_of t)) | Some i \<Rightarrow>
           (case getTokenFamily (in_commit inp) i (Some (in_clk inp 3)) db1 of
              (db2, Inl e) \<Rightarrow> (st\<lparr>os_store := db2\<rparr>, None)
            | (db2, Inr None) \<Rightarrow> (st\<lparr>os_store := db2\<rparr>, None)
            | (db2, Inr (Some f)) \<Rightarrow>
                (st\<lparr>os_store := db2\<rparr>, if token_family_ok t f then Some (identity_of t) else None)))))"

section \<open>Metadata\<close>

definition protectedResourceMetadata :: "oauth_cfg \<Rightarrow> json" where
  "protectedResourceMetadata cfg = JObj
     [(''resource'', JStr (oc_resource cfg)),
      (''authorization_servers'', JArr [JStr (oc_issuer cfg)]),
      (''scopes_supported'', JArr (map JStr (oc_scopes cfg)))]"

definition authorizationServerMetadata :: "oauth_cfg \<Rightarrow> json" where
  "authorizationServerMetadata cfg = JObj
     [(''issuer'', JStr (oc_issuer cfg)),
      (''authorization_endpoint'', JStr (oc_issuer cfg @ ''/oauth/authorize'')),
      (''token_endpoint'', JStr (oc_issuer cfg @ ''/oauth/token'')),
      (''revocation_endpoint'', JStr (oc_issuer cfg @ ''/oauth/revoke'')),
      (''response_types_supported'', JArr [JStr ''code'']),
      (''grant_types_supported'', JArr [JStr ''authorization_code'', JStr ''refresh_token'']),
      (''code_challenge_methods_supported'', JArr [JStr ''S256'']),
      (''token_endpoint_auth_methods_supported'', JArr [JStr ''none'']),
      (''scopes_supported'', JArr (map JStr (oc_scopes cfg))),
      (''client_id_metadata_document_supported'', JBool True),
      (''registration_endpoint'', JStr (oc_issuer cfg @ ''/oauth/register'')),
      (''authorization_response_iss_parameter_supported'', JBool True)]"

definition metadataPathForIssuer :: "url \<Rightarrow> string" where
  "metadataPathForIssuer u = (if pathname u = ''/'' then ''/.well-known/oauth-authorization-server''
     else ''/.well-known/oauth-authorization-server'' @ pathname u)"

definition resourceMetadataPaths :: "url \<Rightarrow> string list" where
  "resourceMetadataPaths u = ''/.well-known/oauth-protected-resource'' #
     (if pathname u \<noteq> ''/'' then [''/.well-known/oauth-protected-resource'' @ pathname u] else [])"

end
