(* ===== verification/OAuth_Runs.thy ===== *)
theory OAuth_Runs
  imports OAuth AuthStore_Access "HOL-Library.Multiset"
begin

text \<open>
  The authorization server over time. The contract it has with the store (what a read
  reports live has not ended and has not expired, what has ended stays ended) is the locale
  \<open>live_records\<close>, interpreted on the grants and on the token families of the auth store. A
  run interleaves the requests, the two halves of a suspended authorization request and any
  operation another process performs on the database.
\<close>

section \<open>The contract of the store\<close>

locale live_records =
  fixes lookup :: "string \<Rightarrow> 's \<Rightarrow> 'r option"
    and get :: "string \<Rightarrow> time \<Rightarrow> 's \<Rightarrow> 's \<times> ('e + 'r option)"
    and live :: "'r \<Rightarrow> bool"
    and ends :: "'r \<Rightarrow> time"
    and later :: "'s \<Rightarrow> 's \<Rightarrow> bool"
  assumes later_refl: "later s s"
    and later_trans: "later a b \<Longrightarrow> later b c \<Longrightarrow> later a c"
    and get_later: "later s (fst (get i n s))"
    and get_live: "get i n s = (s', Inr (Some r)) \<Longrightarrow> live r \<Longrightarrow> s' = s \<and> lookup i s = Some r \<and> n < ends r"
    and ended_stays: "lookup i s = Some r \<Longrightarrow> \<not> live r \<Longrightarrow> later s s' \<Longrightarrow> \<exists>r'. lookup i s' = Some r' \<and> \<not> live r'"
begin

lemma never_live_again:
  assumes "lookup i s = Some r" "\<not> live r" "later s s'" "get i n s' = (s'', Inr (Some r'))"
  shows "\<not> live r'"
  using ended_stays [OF assms(1-3)] get_live [OF assms(4)] by auto

lemma live_now: "get i n s = (s', Inr (Some r)) \<Longrightarrow> live r \<Longrightarrow> lookup i s' = Some r \<and> n < ends r"
  using get_live by blast

lemma live_reads_idempotent:
  "get i n s = (s', Inr (Some r)) \<Longrightarrow> live r \<Longrightarrow> get i n s' = (s', Inr (Some r))"
  using get_live by metis

end

lemma getTokenFamily_active:
  assumes "getTokenFamily ok i (Some n) db = (db1, Inr (Some f))" "tf_status f = ACTIVE"
  shows "db1 = db \<and> by_key tf_id i (families db) = Some f \<and> n < tf_expiresAt f"
proof (cases "by_key tf_id i (families db)")
  case None
  with assms show ?thesis by (simp add: getTokenFamily_def isoTime_def)
next
  case (Some row)
  show ?thesis
  proof (cases "tf_status row = ACTIVE \<and> tf_expiresAt row \<le> n")
    case True
    with Some assms have "by_key tf_id i (families (expireFamily i n db)) = Some f"
      by (auto simp: getTokenFamily_def isoTime_def transaction_def split: if_splits)
    then have "tf_status f \<noteq> ACTIVE"
      using Some True by_key_SomeD(2) [OF Some]
      by (auto simp: expireFamily_def revokeTokens_def endFamilies_def by_key_update_where)
    with assms show ?thesis by simp
  next
    case False
    with Some assms show ?thesis by (auto simp: getTokenFamily_def isoTime_def)
  qed
qed

lemma ended_grant_stays:
  assumes "by_key gr_id i (grants s) = Some r" "gr_status r \<noteq> ACTIVE" "auth_later s s'"
  shows "\<exists>r'. by_key gr_id i (grants s') = Some r' \<and> gr_status r' \<noteq> ACTIVE"
proof -
  have "grows gr_id grant_later (grants s) (grants s')" using assms(3) by (simp add: auth_later_def)
  from growsD [OF this assms(1)] obtain r' where "by_key gr_id i (grants s') = Some r'" "grant_later r r'" by blast
  with assms(2) show ?thesis by (auto simp: grant_later_def)
qed

lemma ended_family_stays:
  assumes "by_key tf_id i (families s) = Some r" "tf_status r \<noteq> ACTIVE" "auth_later s s'"
  shows "\<exists>r'. by_key tf_id i (families s') = Some r' \<and> tf_status r' \<noteq> ACTIVE"
proof -
  have "grows tf_id family_later (families s) (families s')" using assms(3) by (simp add: auth_later_def)
  from growsD [OF this assms(1)] obtain r' where "by_key tf_id i (families s') = Some r'" "family_later r r'" by blast
  with assms(2) show ?thesis by (auto simp: family_later_def)
qed

interpretation grant_records: live_records
  "\<lambda>i db. by_key gr_id i (grants db)" "\<lambda>i n. getGrant i (Some n)" "\<lambda>g. gr_status g = ACTIVE"
  gr_expiresAt auth_later
proof unfold_locales
  fix i n and s s' :: auth_db and r
  assume "getGrant i (Some n) s = (s', Inr (Some r))" "gr_status r = ACTIVE"
  then show "s' = s \<and> by_key gr_id i (grants s) = Some r \<and> n < gr_expiresAt r"
    using getGrant_active by blast
next
  fix i and s s' :: auth_db and r
  assume "by_key gr_id i (grants s) = Some r" "gr_status r \<noteq> ACTIVE" "auth_later s s'"
  then show "\<exists>r'. by_key gr_id i (grants s') = Some r' \<and> gr_status r' \<noteq> ACTIVE"
    by (rule ended_grant_stays)
qed (rule auth_later_refl auth_later_getGrant | (rule auth_later_trans; assumption))+

interpretation family_records: live_records
  "\<lambda>i db. by_key tf_id i (families db)" "\<lambda>i n. getTokenFamily ok i (Some n)" "\<lambda>f. tf_status f = ACTIVE"
  tf_expiresAt auth_later for ok
proof unfold_locales
  fix i and s s' :: auth_db and r
  assume "by_key tf_id i (families s) = Some r" "tf_status r \<noteq> ACTIVE" "auth_later s s'"
  then show "\<exists>r'. by_key tf_id i (families s') = Some r' \<and> tf_status r' \<noteq> ACTIVE"
    by (rule ended_family_stays)
next
  fix i n and s s' :: auth_db and r and ok
  assume "getTokenFamily ok i (Some n) s = (s', Inr (Some r))" "tf_status r = ACTIVE"
  then show "s' = s \<and> by_key tf_id i (families s) = Some r \<and> n < tf_expiresAt r"
    by (rule getTokenFamily_active)
qed (rule auth_later_refl auth_later_getTokenFamily | (rule auth_later_trans; assumption))+

section \<open>Requests and runs\<close>

datatype oauth_op =
  RegisterDocument oauth_input json
| StartAuthorization oauth_input
| ValidateAuthorization "nat \<Rightarrow> time" "http_response option" params
| ResumeAuthorization oauth_input params
| Approve oauth_input "string option" "string option"
| Exchange oauth_input params "string option"
| Revoke oauth_input params
| Authenticate oauth_input "string option"
| StoreOperation auth_op

fun oauth_exec ::
  "oauth_cfg \<Rightarrow> oauth_env \<Rightarrow> (string \<Rightarrow> json option) \<Rightarrow> oauth_op \<Rightarrow> oauth_state \<Rightarrow> oauth_state" where
  "oauth_exec cfg env pj (RegisterDocument inp d) st = fst (oauth_registerClient cfg env inp d st)"
| "oauth_exec cfg env pj (StartAuthorization inp) st = cleanup (in_clk inp 0) st"
| "oauth_exec cfg env pj (ValidateAuthorization clk fetched ps) st =
     (case authorize_checks cfg ps of Inl e \<Rightarrow> st
      | Inr req \<Rightarrow> fst (validate_client cfg env pj clk fetched req st))"
| "oauth_exec cfg env pj (ResumeAuthorization inp ps) st =
     (case authorize_checks cfg ps of Inl e \<Rightarrow> st
      | Inr req \<Rightarrow> fst (authorize_resume cfg env inp ps req st))"
| "oauth_exec cfg env pj (Approve inp t s) st = fst (approve cfg env inp t s st)"
| "oauth_exec cfg env pj (Exchange inp ps h) st = fst (exchange cfg env inp ps h st)"
| "oauth_exec cfg env pj (Revoke inp ps) st = fst (oauth_revoke cfg env inp ps st)"
| "oauth_exec cfg env pj (Authenticate inp h) st = fst (authenticate cfg env inp h st)"
| "oauth_exec cfg env pj (StoreOperation x) st = st\<lparr>os_store := auth_exec (oe_store env) x (os_store st)\<rparr>"

fun oauth_run ::
  "oauth_cfg \<Rightarrow> oauth_env \<Rightarrow> (string \<Rightarrow> json option) \<Rightarrow> oauth_op list \<Rightarrow> oauth_state \<Rightarrow> oauth_state" where
  "oauth_run cfg env pj [] st = st"
| "oauth_run cfg env pj (x # xs) st = oauth_run cfg env pj xs (oauth_exec cfg env pj x st)"

lemma oauth_run_append:
  "oauth_run cfg env pj (xs @ ys) st = oauth_run cfg env pj ys (oauth_run cfg env pj xs st)"
  by (induction xs arbitrary: st) auto

section \<open>The store under the server\<close>

lemma store_call_later:
  assumes "auth_later db (fst call)"
    and "\<And>a. auth_later (fst call) (os_store (fst (k a (st\<lparr>os_store := fst call\<rparr>))))"
  shows "auth_later db (os_store (fst (store_call st call h k)))"
  using assms(1) auth_later_trans [OF assms] by (simp add: store_call_def split: sum.split)

lemma cleanup_store [simp]: "os_store (cleanup now st) = os_store st" "os_cache (cleanup now st) = os_cache st"
  by (simp_all add: cleanup_def)

lemma issue_store [simp]:
  "os_store (fst (issueAccessToken cfg env a c r s g f i t st)) = os_store st"
  "os_store (fst (issue_code cfg env inp now tr g st)) = os_store st"
  by (simp_all add: issueAccessToken_def issue_code_def Let_def split: option.splits)

lemma persistClient_later: "auth_later (os_store st) (os_store (fst (persistClient cfg env now c r st)))"
  unfolding persistClient_def
  by (cases "oc_owner cfg") (auto intro!: store_call_later auth_later_owner_ops)

lemma fst_case_later:
  assumes "auth_later (os_store st) (os_store (fst p))"
    and "\<And>st1 a. p = (st1, Inr a) \<Longrightarrow> auth_later (os_store st1) (os_store (fst (k st1 a)))"
  shows "auth_later (os_store st) (os_store (fst (case p of (st1, Inl e) \<Rightarrow> (st1, Inl (h e)) | (st1, Inr a) \<Rightarrow> k st1 a)))"
  using assms auth_later_trans by (cases p) (auto split: sum.split)

lemma authorize_resume_later: "auth_later (os_store st) (os_store (fst (authorize_resume cfg env inp ps req st)))"
  unfolding authorize_resume_def
  by (rule fst_case_later [OF persistClient_later]) (auto simp: Let_def split: attempt_splits)

lemma oauth_registerClient_later: "auth_later (os_store st) (os_store (fst (oauth_registerClient cfg env inp d st)))"
  unfolding oauth_registerClient_def
  by (auto split: attempt_splits intro!: fst_case_later [OF persistClient_later])

lemma approve_later: "auth_later (os_store st) (os_store (fst (approve cfg env inp t s st)))"
  by (auto simp: approve_def Let_def intro!: store_call_later auth_later_createGrant split: option.split)

lemma exchange_durable_later: "auth_later (os_store st) (os_store (fst (exchange_durable cfg env inp w c st)))"
  unfolding exchange_durable_def Let_def
  by (rule store_call_later [OF auth_later_getGrant])
    (auto intro!: store_call_later auth_later_createTokenFamily split: option.split)

lemma exchangeRefreshToken_later: "auth_later (os_store st) (os_store (fst (exchangeRefreshToken cfg env inp ps st)))"
  unfolding exchangeRefreshToken_def Let_def
  by (auto intro!: store_call_later auth_later_rotateRefreshToken split: option.split attempt_split)

lemma exchangeAuthorizationCode_later:
  "auth_later (os_store st) (os_store (fst (exchangeAuthorizationCode cfg env inp ps st)))"
  using exchange_durable_later [of "st\<lparr>os_codes := c\<rparr>" for c]
  by (auto simp: exchangeAuthorizationCode_def Let_def split: option.split attempt_split)

lemma exchange_later: "auth_later (os_store st) (os_store (fst (exchange cfg env inp ps h st)))"
  using exchangeAuthorizationCode_later [of "cleanup n st" for n] exchangeRefreshToken_later [of "cleanup n st" for n]
  by (auto simp: exchange_def Let_def split: attempt_split)

lemma oauth_revoke_later: "auth_later (os_store st) (os_store (fst (oauth_revoke cfg env inp ps st)))"
  by (auto simp: oauth_revoke_def Let_def split: attempt_split option.split
      intro!: store_call_later auth_later_revokeRefreshToken auth_later_revokeTokenFamily)

lemma authenticate_later: "auth_later (os_store st) (os_store (fst (authenticate cfg env inp h st)))"
proof -
  have two: "auth_later db (fst (getTokenFamily ok j m (fst (getGrant i n db))))" for i n db ok j m
    by (rule auth_later_trans [OF auth_later_getGrant auth_later_getTokenFamily])
  show ?thesis
    by (simp add: authenticate_def Let_def case_prod_beta two auth_later_getGrant split: option.split sum.split)
qed

lemma validate_client_store: "os_store (fst (validate_client cfg env pj clk f req st)) = os_store st"
  by (auto simp: validate_client_def split: prod.split sum.split)

lemma oauth_exec_later: "auth_later (os_store st) (os_store (oauth_exec cfg env pj x st))"
  by (cases x) (simp_all add: oauth_registerClient_later validate_client_store authorize_resume_later
      approve_later exchange_later oauth_revoke_later authenticate_later auth_later_exec split: sum.split)

lemma oauth_run_later: "auth_later (os_store st) (os_store (oauth_run cfg env pj xs st))"
proof (induction xs arbitrary: st)
  case (Cons x xs)
  show ?case using auth_later_trans [OF oauth_exec_later Cons.IH] by simp
qed simp

section \<open>Lists and maps\<close>

lemma sameStrings_mset: "sameStrings xs ys \<longleftrightarrow> mset xs = mset ys"
proof
  assume "sameStrings xs ys"
  then have "length (sort xs) = length (sort ys)" "\<And>i. i < length (sort xs) \<Longrightarrow> sort xs ! i = sort ys ! i"
    by (auto simp: sameStrings_def Let_def list_all_iff)
  then have "sort xs = sort ys" by (rule nth_equalityI)
  then show "mset xs = mset ys" by (metis mset_sort)
next
  assume "mset xs = mset ys"
  then have "sort xs = sort ys" "length xs = length ys"
    using properties_for_sort [of "sort xs" ys] by (auto dest: mset_eq_length)
  then show "sameStrings xs ys" by (simp add: sameStrings_def list_all_iff)
qed

lemma sameStrings_set: "sameStrings xs ys \<Longrightarrow> set xs = set ys"
  by (auto simp: sameStrings_mset dest: mset_eq_setD)

lemma set_alist_delete: "set (AList.delete k al) = {(k', v) \<in> set al. k' \<noteq> k}"
  by (auto simp: AList.delete_eq)

lemma set_alist_update: "set (AList.update k v al) \<subseteq> insert (k, v) (set al)"
  by (induction al) auto

lemma alist_update_cases: "p \<in> set (AList.update k v al) \<Longrightarrow> p = (k, v) \<or> p \<in> set al"
  using set_alist_update by fast

lemma length_alist_update: "length (AList.update k v al) \<le> Suc (length al)"
  by (induction al) auto

lemma length_alist_delete: "length (AList.delete k al) \<le> length al"
  by (simp add: AList.delete_eq)

lemma map_of_delete_same: "map_of (AList.delete k al) k = None"
  by (simp add: AList.delete_conv')

lemma cleanup_sets:
  "set (os_codes (cleanup n st)) \<subseteq> set (os_codes st)"
  "set (os_tokens (cleanup n st)) \<subseteq> set (os_tokens st)"
  "set (os_transactions (cleanup n st)) \<subseteq> set (os_transactions st)"
  "length (os_transactions (cleanup n st)) \<le> length (os_transactions st)"
  by (auto simp: cleanup_def)

lemma cleanup_mem [dest]:
  "p \<in> set (os_codes (cleanup n st)) \<Longrightarrow> p \<in> set (os_codes st)"
  "q \<in> set (os_tokens (cleanup n st)) \<Longrightarrow> q \<in> set (os_tokens st)"
  "r \<in> set (os_transactions (cleanup n st)) \<Longrightarrow> r \<in> set (os_transactions st)"
  by (auto simp: cleanup_def)

section \<open>A concrete server\<close>

text \<open>
  The server the examples run on: the store with a bootstrapped owner, every digest the
  identity, one registered client and one authorization request that the owner approves.
\<close>

definition ex_oauth_env :: oauth_env where
  "ex_oauth_env = \<lparr>oe_store = ex_env, oe_s256 = (\<lambda>s. s)\<rparr>"

definition ex_cfg :: oauth_cfg where
  "ex_cfg = \<lparr>oc_issuer = ''https://i'', oc_resource = ''https://r/x'', oc_approvalSecret = ex_secret,
     oc_scopes = [''dp:read''], oc_dcrClientId = ''dcr_client'',
     oc_cimd = \<lparr>cimd_allowedClientIds = [], cimd_maxBytes = 100, cimd_cacheTtlMs = 100\<rparr>,
     oc_transactionTtlMs = 300, oc_codeTtlMs = 120, oc_accessTokenTtlMs = 600,
     oc_refreshTokenTtlMs = 9000, oc_grantTtlMs = 5000, oc_maxPendingTransactions = 2,
     oc_owner = Some ''owner'', oc_executionProfile = ''full''\<rparr>"

definition ex_input :: "time \<Rightarrow> char \<Rightarrow> oauth_input" where
  "ex_input t c = \<lparr>in_clk = (\<lambda>_. t), in_rand = (\<lambda>_. ex_token c), in_commit = True\<rparr>"

definition ex_params :: "(string \<times> string) list \<Rightarrow> params" where
  "ex_params al = map_of al"

definition ex_authorize :: params where
  "ex_authorize = ex_params [(''response_type'', ''code''), (''client_id'', ''dcr_client''),
     (''redirect_uri'', DEFAULT_CHATGPT_REDIRECT_URI), (''resource'', ''https://r/x''),
     (''code_challenge'', ex_token CHR ''v''), (''code_challenge_method'', ''S256'')]"

definition ex_redeem :: params where
  "ex_redeem = ex_params [(''grant_type'', ''authorization_code''), (''code'', ex_token CHR ''k''),
     (''client_id'', ''dcr_client''), (''redirect_uri'', DEFAULT_CHATGPT_REDIRECT_URI),
     (''resource'', ''https://r/x''), (''code_verifier'', ex_token CHR ''v'')]"

definition ex_server :: oauth_state where
  "ex_server = new_oauth_state (auth_run ex_env (take 2 ex_history) empty_auth_db)"

definition ex_approved :: "oauth_op list" where
  "ex_approved = [StartAuthorization (ex_input 20 CHR ''t''), ResumeAuthorization (ex_input 20 CHR ''t'') ex_authorize,
     Approve (ex_input 30 CHR ''k'') (Some (ex_token CHR ''t'')) (Some ex_secret)]"

definition ex_signed_in :: oauth_state where
  "ex_signed_in = oauth_run ex_cfg ex_oauth_env (\<lambda>_. None)
     (ex_approved @ [Exchange (ex_input 40 CHR ''z'') ex_redeem None]) ex_server"

definition ex_header :: "string option" where
  "ex_header = Some (''Bearer '' @ ex_token CHR ''z'')"

lemma ex_sign_in_works:
  "snd (authenticate ex_cfg ex_oauth_env (ex_input 50 CHR ''q'') ex_header ex_signed_in)
   = Some \<lparr>id_clientId = ''dcr_client'', id_scopes = [''dp:read''], id_ownerId = Some ''owner'',
       id_grantId = Some (ex_token CHR ''k''), id_executionProfile = Some ''full'', id_grantExpiresAt = Some 5030\<rparr>"
  by code_simp

end
