(* ===== verification/OAuth_Props.thy ===== *)
theory OAuth_Props
  imports OAuth_Runs
begin

text \<open>
  Whom \<open>authenticate\<close> lets in, and when it stops doing so.
\<close>

section \<open>Authentication\<close>

text \<open>
  C8. Whom \<open>authenticate\<close> lets in, with a store: the header carries a bearer token the
  server issued and that has not expired, for this resource; the grant the token was issued
  under is \<^verbatim>\<open>ACTIVE\<close> and unexpired in the store at that moment and agrees with the token in
  owner, client, resource, profile and scopes; and the token family, where there is one, is
  \<^verbatim>\<open>ACTIVE\<close>, unexpired and of the same grant.
\<close>

theorem authenticate_sound:
  assumes "oc_owner cfg = Some w" "authenticate cfg env inp header st = (st', Some ident)"
  shows "\<exists>token t g. bearer_token header = Some token \<and>
      (oe_digest env token, t) \<in> set (os_tokens st) \<and> ident = identity_of t \<and>
      in_clk inp 1 < at_expiresAt t \<and> at_resource t = oc_resource cfg \<and>
      by_key gr_id (or_empty (at_grantId t)) (grants (os_store st)) = Some g \<and>
      gr_status g = ACTIVE \<and> in_clk inp 2 < gr_expiresAt g \<and> gr_resource g = oc_resource cfg \<and>
      id_clientId ident = gr_clientId g \<and> id_ownerId ident = Some (gr_ownerId g) \<and>
      id_executionProfile ident = Some (gr_executionProfile g) \<and> set (id_scopes ident) = set (gr_scopes g) \<and>
      (\<forall>i. at_tokenFamilyId t = Some i \<longrightarrow> (\<exists>f. by_key tf_id i (families (os_store st)) = Some f \<and>
         tf_status f = ACTIVE \<and> in_clk inp 3 < tf_expiresAt f \<and> Some (tf_grantId f) = id_grantId ident))"
proof -
  obtain token t where tok: "bearer_token header = Some token"
    "map_of (os_tokens (cleanup (in_clk inp 0) st)) (oe_digest env token) = Some t"
    "at_resource t = oc_resource cfg" "in_clk inp 1 < at_expiresAt t"
    using assms by (auto simp: authenticate_def Let_def not_le split: option.splits if_splits)
  obtain db1 g where g:
    "getGrant (or_empty (at_grantId t)) (Some (in_clk inp 2)) (os_store st) = (db1, Inr (Some g))"
    "token_grant_ok t g"
    using assms tok by (auto simp: authenticate_def Let_def split: option.splits if_splits prod.splits sum.splits)
  have act: "gr_status g = ACTIVE" using g(2) by (simp add: token_grant_ok_def)
  note g1 = grant_records.get_live [OF g(1) act]
  have ident: "ident = identity_of t" and
    fam: "at_tokenFamilyId t = Some i \<Longrightarrow> \<exists>f db2. getTokenFamily (in_commit inp) i (Some (in_clk inp 3)) db1
        = (db2, Inr (Some f)) \<and> token_family_ok t f" for i
    using assms tok g by (auto simp: authenticate_def Let_def split: option.splits if_splits prod.splits sum.splits)
  have "\<exists>f. by_key tf_id i (families (os_store st)) = Some f \<and> tf_status f = ACTIVE \<and>
      in_clk inp 3 < tf_expiresAt f \<and> Some (tf_grantId f) = id_grantId ident" if i: "at_tokenFamilyId t = Some i" for i
  proof -
    obtain f db2 where f: "getTokenFamily (in_commit inp) i (Some (in_clk inp 3)) db1 = (db2, Inr (Some f))"
      "token_family_ok t f" using fam [OF i] by blast
    then have "tf_status f = ACTIVE" by (simp add: token_family_ok_def)
    with family_records.get_live [OF f(1)] g1 f(2) show ?thesis
      by (auto simp: token_family_ok_def ident identity_of_def)
  qed
  moreover have "(oe_digest env token, t) \<in> set (os_tokens st)"
    using map_of_SomeD [OF tok(2)] cleanup_sets(2) by blast
  moreover have "set (id_scopes ident) = set (gr_scopes g)"
    using g(2) by (auto simp: ident identity_of_def token_grant_ok_def dest: sameStrings_set)
  ultimately show ?thesis
    using tok g1 g(2) by (intro exI [of _ token] exI [of _ t] exI [of _ g])
      (simp add: ident identity_of_def token_grant_ok_def)
qed

theorem authenticate_sound_witness:
  "\<exists>g. by_key gr_id (ex_token CHR ''k'') (grants (os_store ex_signed_in)) = Some g \<and> gr_status g = ACTIVE \<and>
     gr_resource g = ''https://r/x'' \<and> (50::time) < gr_expiresAt g"
proof -
  have "oc_owner ex_cfg = Some ''owner''" by code_simp
  moreover obtain st' where "authenticate ex_cfg ex_oauth_env (ex_input 50 CHR ''q'') ex_header ex_signed_in
      = (st', Some \<lparr>id_clientId = ''dcr_client'', id_scopes = [''dp:read''], id_ownerId = Some ''owner'',
       id_grantId = Some (ex_token CHR ''k''), id_executionProfile = Some ''full'', id_grantExpiresAt = Some 5030\<rparr>)"
    using ex_sign_in_works by (metis prod.collapse)
  ultimately obtain t g where "\<lparr>id_clientId = ''dcr_client'', id_scopes = [''dp:read''], id_ownerId = Some ''owner'',
       id_grantId = Some (ex_token CHR ''k''), id_executionProfile = Some ''full'', id_grantExpiresAt = Some 5030\<rparr>
       = identity_of t"
    "by_key gr_id (or_empty (at_grantId t)) (grants (os_store ex_signed_in)) = Some g" "gr_status g = ACTIVE"
    "in_clk (ex_input 50 CHR ''q'') 2 < gr_expiresAt g" "gr_resource g = oc_resource ex_cfg"
    using authenticate_sound by blast
  then show ?thesis by (auto simp: identity_of_def or_empty_def ex_cfg_def ex_input_def split: option.splits)
qed

lemma authenticate_grant:
  assumes "oc_owner cfg = Some w" "authenticate cfg env inp header st = (st', Some ident)"
    and "id_grantId ident = Some i"
  obtains g db1 where "getGrant i (Some (in_clk inp 2)) (os_store st) = (db1, Inr (Some g))" "gr_status g = ACTIVE"
proof -
  obtain t db1 g where
    "getGrant (or_empty (at_grantId t)) (Some (in_clk inp 2)) (os_store st) = (db1, Inr (Some g))"
    "token_grant_ok t g" "ident = identity_of t"
    using assms(1,2) by (auto simp: authenticate_def Let_def split: option.splits if_splits prod.splits sum.splits)
  with assms(3) show thesis by (intro that) (auto simp: identity_of_def token_grant_ok_def or_empty_def)
qed

text \<open>
  C9. Revocation takes effect at once and for good: after the store has revoked a grant,
  no request authenticates under it any more, whatever token it carries, in any later state
  of the server and of the database.
\<close>

theorem revoked_grant_never_authenticates:
  assumes "oc_owner cfg = Some w"
    and "snd (revokeGrant True i ownerId (Some at) reason (os_store st)) = Inr r"
    and "snd (authenticate cfg env inp header (oauth_run cfg env parseJson ops
          (st\<lparr>os_store := fst (revokeGrant True i ownerId (Some at) reason (os_store st))\<rparr>))) = Some ident"
  shows "id_grantId ident \<noteq> Some i"
proof
  let ?db = "fst (revokeGrant True i ownerId (Some at) reason (os_store st))"
  let ?st = "oauth_run cfg env parseJson ops (st\<lparr>os_store := ?db\<rparr>)"
  assume "id_grantId ident = Some i"
  moreover obtain st' where "authenticate cfg env inp header ?st = (st', Some ident)"
    using assms(3) by (metis prod.collapse)
  ultimately obtain g db1 where g: "getGrant i (Some (in_clk inp 2)) (os_store ?st) = (db1, Inr (Some g))"
    "gr_status g = ACTIVE" using authenticate_grant [OF assms(1)] by blast
  obtain g0 where g0: "by_key gr_id i (grants (os_store st)) = Some g0" "gr_ownerId g0 = ownerId"
    using assms(2) by (auto simp: revokeGrant_def isoTime_def split: option.splits if_splits)
  let ?g' = "if gr_status g0 = ACTIVE then g0\<lparr>gr_status := REVOKED\<rparr> else g0"
  have dead: "by_key gr_id i (grants (revokeGrant_tables i ownerId at reason (os_store st))) = Some ?g'"
    "gr_status ?g' \<noteq> ACTIVE" using g0 by (simp_all add: revokeGrant_tables_simps)
  moreover have "?db = revokeGrant_tables i ownerId at reason (os_store st)"
    using g0 dead by (simp add: revokeGrant_def isoTime_def transaction_def getGrant_def)
  moreover have "auth_later ?db (os_store ?st)"
    using oauth_run_later [of "st\<lparr>os_store := ?db\<rparr>"] by simp
  ultimately have "gr_status g \<noteq> ACTIVE"
    using grant_records.never_live_again [OF _ _ _ g(1)] by metis
  with g(2) show False by simp
qed

definition ex_two_grants :: oauth_state where
  "ex_two_grants = oauth_exec ex_cfg ex_oauth_env (\<lambda>_. None)
     (StoreOperation (CreateGrant ''grant-02'' ''owner'' ''dcr_client'' ''https://r/x'' (Some [''dp:read''])
        ''full'' (Some 45) (Some 900))) ex_signed_in"

theorem revoked_grant_never_authenticates_witness:
  "\<exists>ident. snd (authenticate ex_cfg ex_oauth_env (ex_input 70 CHR ''q'') ex_header
      (oauth_run ex_cfg ex_oauth_env (\<lambda>_. None) [] (ex_two_grants\<lparr>os_store :=
         fst (revokeGrant True ''grant-02'' ''owner'' (Some 60) ''user'' (os_store ex_two_grants))\<rparr>))) = Some ident \<and>
    id_grantId ident \<noteq> Some ''grant-02''"
proof -
  have own: "oc_owner ex_cfg = Some ''owner''" by code_simp
  have rev: "snd (revokeGrant True ''grant-02'' ''owner'' (Some 60) ''user'' (os_store ex_two_grants))
     = Inr (Some \<lparr>gr_id = ''grant-02'', gr_ownerId = ''owner'', gr_clientId = ''dcr_client'',
        gr_resource = ''https://r/x'', gr_scopes = [''dp:read''], gr_executionProfile = ''full'',
        gr_grantedAt = 45, gr_expiresAt = 900, gr_status = REVOKED\<rparr>)" by code_simp
  have auth: "snd (authenticate ex_cfg ex_oauth_env (ex_input 70 CHR ''q'') ex_header
      (oauth_run ex_cfg ex_oauth_env (\<lambda>_. None) [] (ex_two_grants\<lparr>os_store :=
         fst (revokeGrant True ''grant-02'' ''owner'' (Some 60) ''user'' (os_store ex_two_grants))\<rparr>)))
    = Some \<lparr>id_clientId = ''dcr_client'', id_scopes = [''dp:read''], id_ownerId = Some ''owner'',
       id_grantId = Some (ex_token CHR ''k''), id_executionProfile = Some ''full'', id_grantExpiresAt = Some 5030\<rparr>"
    by code_simp
  from revoked_grant_never_authenticates [OF own rev auth] auth show ?thesis by blast
qed

end
