(* ===== verification/OAuth_Codes.thy ===== *)
theory OAuth_Codes
  imports OAuth_Runs
begin

text \<open>
  Authorization codes: a code comes from an approval with the owner's secret, is bound to
  what was approved and is good for one attempt; how long tokens live, and how many
  authorization requests may be pending.
\<close>

section \<open>Codes and approvals\<close>

lemma store_call_inv:
  assumes "P (st\<lparr>os_store := fst call\<rparr>)"
    and "\<And>a. P (st\<lparr>os_store := fst call\<rparr>) \<Longrightarrow> P (fst (k a (st\<lparr>os_store := fst call\<rparr>)))"
  shows "P (fst (store_call st call h k))"
  using assms by (auto simp: store_call_def split: sum.split)

lemma codes_store_call [simp]:
  assumes "\<And>a st. os_codes (fst (k a st)) = os_codes st"
  shows "os_codes (fst (store_call st call h k)) = os_codes st"
  using assms by (auto simp: store_call_def split: sum.split)

lemma codes_issueAccessToken [simp]: "os_codes (fst (issueAccessToken cfg env a c r s g f i t st)) = os_codes st"
  by (simp add: issueAccessToken_def Let_def split: option.splits)

lemma codes_exchange_durable [simp]: "os_codes (fst (exchange_durable cfg env inp w c st)) = os_codes st"
  by (simp add: exchange_durable_def Let_def split: option.split)

lemma codes_exchangeRefreshToken [simp]: "os_codes (fst (exchangeRefreshToken cfg env inp ps st)) = os_codes st"
  unfolding exchangeRefreshToken_def Let_def
  by (auto intro!: codes_store_call split: option.split attempt_split)

lemma codes_exchangeAuthorizationCode:
  "set (os_codes (fst (exchangeAuthorizationCode cfg env inp ps st))) \<subseteq> set (os_codes st)"
  by (auto simp: exchangeAuthorizationCode_def Let_def set_alist_delete split: option.split attempt_split)

lemma codes_exchange: "set (os_codes (fst (exchange cfg env inp ps h st))) \<subseteq> set (os_codes st)"
proof -
  have "set (os_codes (fst (exchange cfg env inp ps h st))) \<subseteq> set (os_codes (cleanup (in_clk inp 0) st))"
    by (simp add: exchange_def Let_def codes_exchangeAuthorizationCode split: attempt_split)
  then show ?thesis using cleanup_sets(1) by (rule order_trans)
qed

lemma codes_others [simp]:
  "os_codes (fst (persistClient cfg env now c r st)) = os_codes st"
  "os_codes (fst (validate_client cfg env pj clk f req st)) = os_codes st"
  by (auto simp: persistClient_def validate_client_def split: option.split prod.split sum.split)

lemma codes_case [simp]:
  assumes "\<And>st a. os_codes (fst (k st a)) = os_codes st"
  shows "os_codes (fst (case p of (st1, Inl e) \<Rightarrow> (st1, Inl (h e)) | (st1, Inr a) \<Rightarrow> k st1 a)) = os_codes (fst p)"
  using assms by (cases p) (auto split: sum.split)

lemma codes_authorize [simp]:
  "os_codes (fst (oauth_registerClient cfg env inp d st)) = os_codes st"
  "os_codes (fst (authorize_resume cfg env inp ps req st)) = os_codes st"
  by (auto simp: oauth_registerClient_def authorize_resume_def Let_def split: attempt_splits)

lemma codes_revoke: "os_codes (fst (oauth_revoke cfg env inp ps st)) = os_codes (cleanup (in_clk inp 0) st)"
  by (simp add: oauth_revoke_def Let_def split: attempt_split option.split)

lemma codes_authenticate: "os_codes (fst (authenticate cfg env inp h st)) = os_codes (cleanup (in_clk inp 0) st)"
  by (simp add: authenticate_def Let_def split: option.split prod.split sum.split)

text \<open>The same for the pending transactions.\<close>

lemma txs_store_call [simp]:
  assumes "\<And>a st. os_transactions (fst (k a st)) = os_transactions st"
  shows "os_transactions (fst (store_call st call h k)) = os_transactions st"
  using assms by (auto simp: store_call_def split: sum.split)

lemma txs_issue [simp]:
  "os_transactions (fst (issueAccessToken cfg env a c r s g f i t st)) = os_transactions st"
  "os_transactions (fst (issue_code cfg env inp now tr gr st)) = os_transactions st"
  by (simp_all add: issueAccessToken_def issue_code_def Let_def split: option.splits)

lemma txs_exchange_durable [simp]: "os_transactions (fst (exchange_durable cfg env inp w c st)) = os_transactions st"
  by (simp add: exchange_durable_def Let_def split: option.split)

lemma txs_exchangeRefreshToken [simp]: "os_transactions (fst (exchangeRefreshToken cfg env inp ps st)) = os_transactions st"
  unfolding exchangeRefreshToken_def Let_def
  by (auto intro!: txs_store_call split: option.split attempt_split)

lemma txs_exchangeAuthorizationCode [simp]:
  "os_transactions (fst (exchangeAuthorizationCode cfg env inp ps st)) = os_transactions st"
  by (auto simp: exchangeAuthorizationCode_def Let_def split: option.split attempt_split)

lemma txs_cleaned:
  "os_transactions (fst (exchange cfg env inp ps h st)) = os_transactions (cleanup (in_clk inp 0) st)"
  "os_transactions (fst (oauth_revoke cfg env inp ps st)) = os_transactions (cleanup (in_clk inp 0) st)"
  "os_transactions (fst (authenticate cfg env inp h st)) = os_transactions (cleanup (in_clk inp 0) st)"
  by (simp_all add: exchange_def oauth_revoke_def authenticate_def Let_def
      split: attempt_split option.split prod.split sum.split)

lemma txs_others [simp]:
  "os_transactions (fst (persistClient cfg env now c r st)) = os_transactions st"
  "os_transactions (fst (validate_client cfg env pj clk f req st)) = os_transactions st"
  by (auto simp: persistClient_def validate_client_def split: option.split prod.split sum.split)

lemma txs_case [simp]:
  assumes "\<And>st a. os_transactions (fst (k st a)) = os_transactions st"
  shows "os_transactions (fst (case p of (st1, Inl e) \<Rightarrow> (st1, Inl (h e)) | (st1, Inr a) \<Rightarrow> k st1 a)) = os_transactions (fst p)"
  using assms by (cases p) (auto split: sum.split)

lemma txs_registerClient [simp]: "os_transactions (fst (oauth_registerClient cfg env inp d st)) = os_transactions st"
  by (auto simp: oauth_registerClient_def split: attempt_splits)

lemma txs_resume:
  "os_transactions (fst (authorize_resume cfg env inp ps req st)) = os_transactions st \<or>
   (\<exists>scopes. parseScope (ps ''scope'') (oc_scopes cfg) = Inr scopes \<and>
      length (os_transactions st) < oc_maxPendingTransactions cfg \<and>
      os_transactions (fst (authorize_resume cfg env inp ps req st))
        = AList.update (oe_digest env (in_rand inp 0))
           \<lparr>ta_clientId = ar_clientId req, ta_redirectUri = ar_redirectUri req,
            ta_resource = ar_resource req, ta_codeChallenge = ar_codeChallenge req,
            ta_scopes = scopes, ta_state = or_empty (ps ''state''),
            ta_expiresAt = in_clk inp 2 + oc_transactionTtlMs cfg\<rparr> (os_transactions st))"
proof -
  obtain st1 r where p: "persistClient cfg env (in_clk inp 1) (ar_clientId req) (ar_redirectUri req) st = (st1, r)"
    by force
  then have "os_transactions st1 = os_transactions st"
    using txs_others(1) [of cfg env "in_clk inp 1" "ar_clientId req" "ar_redirectUri req" st] by simp
  with p show ?thesis
    by (cases r) (auto simp: authorize_resume_def Let_def split: attempt_splits)
qed

text \<open>
  Which calls ask for what, and which calls approve: a request carries the client, the
  callback, the challenge and the scopes; an approval carries the owner's secret and makes
  the code its random token is the digest of.
\<close>

fun requests :: "oauth_cfg \<Rightarrow> oauth_op \<Rightarrow> string \<Rightarrow> string \<Rightarrow> string \<Rightarrow> string list \<Rightarrow> bool" where
  "requests cfg (ResumeAuthorization inp ps) clientId redirectUri challenge scopes =
     (case authorize_checks cfg ps of Inl e \<Rightarrow> False
      | Inr req \<Rightarrow> ar_clientId req = clientId \<and> ar_redirectUri req = redirectUri \<and>
          ar_codeChallenge req = challenge \<and> parseScope (ps ''scope'') (oc_scopes cfg) = Inr scopes)"
| "requests cfg _ clientId redirectUri challenge scopes = False"

fun approves :: "oauth_cfg \<Rightarrow> oauth_env \<Rightarrow> oauth_op \<Rightarrow> string \<Rightarrow> bool" where
  "approves cfg env (Approve inp t secret) key =
     (or_empty secret = oc_approvalSecret cfg \<and> key = oe_digest env (in_rand inp 1))"
| "approves cfg env _ key = False"

lemma txs_exec:
  assumes "(k, t) \<in> set (os_transactions (oauth_exec cfg env pj x st))"
  shows "(k, t) \<in> set (os_transactions st) \<or>
    requests cfg x (ta_clientId t) (ta_redirectUri t) (ta_codeChallenge t) (ta_scopes t)"
proof (cases x)
  case (ResumeAuthorization inp ps)
  show ?thesis
  proof (cases "authorize_checks cfg ps")
    case (Inr req)
    with assms ResumeAuthorization txs_resume [of cfg env inp ps req st] show ?thesis
      by (auto dest!: alist_update_cases)
  qed (use assms ResumeAuthorization in simp)
next
  case (Approve inp tid s)
  have "os_transactions (fst (approve cfg env inp tid s st)) = os_transactions (cleanup (in_clk inp 0) st) \<or>
      (\<exists>key. os_transactions (fst (approve cfg env inp tid s st))
        = AList.delete key (os_transactions (cleanup (in_clk inp 0) st)))"
    by (auto simp: approve_def Let_def split: option.split)
  then have "set (os_transactions (fst (approve cfg env inp tid s st))) \<subseteq> set (os_transactions st)"
    by (auto simp: set_alist_delete)
  with assms Approve show ?thesis by auto
qed (use assms in \<open>auto simp: txs_cleaned split: sum.splits\<close>)

lemma codes_issue_code:
  "(k, c) \<in> set (os_codes (fst (issue_code cfg env inp now t g st))) \<Longrightarrow> (k, c) \<in> set (os_codes st) \<or>
    (k = oe_digest env (in_rand inp 1) \<and> c = code_of t g (now + oc_codeTtlMs cfg))"
  by (auto simp: issue_code_def Let_def dest!: alist_update_cases split: option.splits)

lemma codes_exec:
  assumes "(k, c) \<in> set (os_codes (oauth_exec cfg env pj x st))"
  shows "(k, c) \<in> set (os_codes st) \<or> (approves cfg env x k \<and> (\<exists>kt t g e. (kt, t) \<in> set (os_transactions st) \<and>
    c = code_of t g e))"
proof (cases x)
  case (Approve inp tid s)
  let ?st = "cleanup (in_clk inp 0) st" and ?key = "oe_digest env (or_empty tid)"
  show ?thesis
  proof (cases "map_of (os_transactions ?st) ?key")
    case None
    with assms Approve show ?thesis by (auto simp: approve_def Let_def)
  next
    case (Some t)
    have t: "(?key, t) \<in> set (os_transactions st)"
      using map_of_SomeD [OF Some] cleanup_sets(3) by blast
    have sub: "(k, c) \<in> set (os_codes ?st) \<Longrightarrow> (k, c) \<in> set (os_codes st)" using cleanup_sets(1) by blast
    show ?thesis
    proof (cases "or_empty s = oc_approvalSecret cfg")
      case False
      with assms Approve Some sub show ?thesis by (simp add: approve_def Let_def equalText_def)
    next
      case True
      have "(k, c) \<in> set (os_codes (fst (approve cfg env inp tid s st)))" using assms Approve by simp
      then have "(k, c) \<in> set (os_codes ?st) \<or> (\<exists>now g st1. os_codes st1 = os_codes ?st \<and>
          (k, c) \<in> set (os_codes (fst (issue_code cfg env inp now t g st1))))"
        using Some True
        by (simp add: approve_def Let_def equalText_def store_call_def split: option.splits sum.splits) fastforce+
      then have "(k, c) \<in> set (os_codes st) \<or>
          (k = oe_digest env (in_rand inp 1) \<and> (\<exists>g e. c = code_of t g e))"
        using codes_issue_code sub by metis
      with Approve True t show ?thesis by auto
    qed
  qed
qed (use assms in \<open>auto simp: codes_revoke codes_authenticate dest: codes_exchange [THEN subsetD] split: sum.splits\<close>)

lemma run_snoc: "oauth_run cfg env pj (ops @ [x]) st = oauth_exec cfg env pj x (oauth_run cfg env pj ops st)"
  by (simp add: oauth_run_append)

lemma run_transactions:
  "(k, t) \<in> set (os_transactions (oauth_run cfg env pj ops (new_oauth_state db))) \<Longrightarrow>
    \<exists>x \<in> set ops. requests cfg x (ta_clientId t) (ta_redirectUri t) (ta_codeChallenge t) (ta_scopes t)"
  by (induction ops rule: rev_induct) (auto simp: new_oauth_state_def run_snoc dest!: txs_exec)

lemma run_codes:
  "(k, c) \<in> set (os_codes (oauth_run cfg env pj ops (new_oauth_state db))) \<Longrightarrow>
    \<exists>as x bs. ops = as @ x # bs \<and>
      requests cfg x (co_clientId c) (co_redirectUri c) (co_codeChallenge c) (co_scopes c) \<and>
      (\<exists>y \<in> set bs. approves cfg env y k)"
proof (induction ops rule: rev_induct)
  case Nil
  then show ?case by (simp add: new_oauth_state_def)
next
  case (snoc y ops)
  let ?st = "oauth_run cfg env pj ops (new_oauth_state db)"
  from snoc.prems have "(k, c) \<in> set (os_codes (oauth_exec cfg env pj y ?st))" by (simp add: run_snoc)
  from codes_exec [OF this] show ?case
  proof
    assume "(k, c) \<in> set (os_codes ?st)"
    from snoc.IH [OF this] obtain as x bs where "ops = as @ x # bs"
      "requests cfg x (co_clientId c) (co_redirectUri c) (co_codeChallenge c) (co_scopes c)"
      "\<exists>y \<in> set bs. approves cfg env y k" by blast
    then show ?thesis by (intro exI [of _ as] exI [of _ x] exI [of _ "bs @ [y]"]) auto
  next
    assume new: "approves cfg env y k \<and> (\<exists>kt t g e. (kt, t) \<in> set (os_transactions ?st) \<and> c = code_of t g e)"
    then obtain kt t g e where "(kt, t) \<in> set (os_transactions ?st)" "c = code_of t g e" by blast
    moreover from this(1) obtain x where "x \<in> set ops"
      "requests cfg x (ta_clientId t) (ta_redirectUri t) (ta_codeChallenge t) (ta_scopes t)"
      using run_transactions by blast
    moreover from this(1) obtain as bs where "ops = as @ x # bs" by (meson split_list)
    ultimately show ?thesis using new
      by (intro exI [of _ as] exI [of _ x] exI [of _ "bs @ [y]"]) (auto simp: code_of_def)
  qed
qed

lemma requireString_Inr [simp]: "requireString ps n = Inr v \<longleftrightarrow> ps n = Some v \<and> v \<noteq> []"
  by (auto simp: requireString_def split: option.splits)

lemma assertExact_Inr [simp]: "assertExact a b c = Inr u \<longleftrightarrow> a = b"
  by (auto simp: assertExact_def)

lemma code_checks_Inr:
  assumes "code_checks env ps c = Inr u"
  shows "ps ''client_id'' = Some (co_clientId c)" "ps ''redirect_uri'' = Some (co_redirectUri c)"
    "ps ''resource'' = Some (co_resource c)"
    "\<exists>verifier. ps ''code_verifier'' = Some verifier \<and> PKCE_VERIFIER verifier \<and> oe_s256 env verifier = co_codeChallenge c"
  using assms by (auto simp: code_checks_def equalText_def split: sum.splits if_splits)

lemma exchange_code_Inr:
  assumes "snd (exchange cfg env inp ps h st) = Inr r" "ps ''grant_type'' = Some ''authorization_code''"
  obtains code c where "ps ''code'' = Some code" "map_of (os_codes (cleanup (in_clk inp 0) st)) (oe_digest env code) = Some c"
    "code_checks env ps c = Inr ()"
  using assms
  by (auto simp: exchange_def Let_def exchangeAuthorizationCode_def split: attempt_splits if_splits option.splits)

text \<open>
  C10. No token without the owner: when a code is exchanged for a token, then earlier, in
  this order, an authorization request named this client, this callback and the challenge
  the presented verifier hashes to, and an approval with the owner's secret produced this
  code.
\<close>

theorem code_exchange_needs_approval:
  assumes "snd (exchange cfg env inp ps header (oauth_run cfg env parseJson ops (new_oauth_state db))) = Inr r"
    and "ps ''grant_type'' = Some ''authorization_code''"
  shows "\<exists>as x bs code clientId redirectUri verifier scopes. ops = as @ x # bs \<and>
      ps ''code'' = Some code \<and> ps ''client_id'' = Some clientId \<and> ps ''redirect_uri'' = Some redirectUri \<and>
      ps ''code_verifier'' = Some verifier \<and> PKCE_VERIFIER verifier \<and>
      requests cfg x clientId redirectUri (oe_s256 env verifier) scopes \<and>
      (\<exists>y \<in> set bs. approves cfg env y (oe_digest env code))"
proof -
  obtain code c where c: "ps ''code'' = Some code"
    "map_of (os_codes (cleanup (in_clk inp 0) (oauth_run cfg env parseJson ops (new_oauth_state db)))) (oe_digest env code) = Some c"
    "code_checks env ps c = Inr ()"
    by (rule exchange_code_Inr [OF assms])
  from map_of_SomeD [OF c(2)]
  have "(oe_digest env code, c) \<in> set (os_codes (oauth_run cfg env parseJson ops (new_oauth_state db)))" by blast
  from run_codes [OF this] code_checks_Inr [OF c(3)] c(1) show ?thesis by fastforce
qed

theorem code_exchange_needs_approval_witness:
  "\<exists>as x bs. ex_approved = as @ x # bs \<and>
     requests ex_cfg x ''dcr_client'' DEFAULT_CHATGPT_REDIRECT_URI (ex_token CHR ''v'') [''dp:read''] \<and>
     (\<exists>y \<in> set bs. approves ex_cfg ex_oauth_env y (ex_token CHR ''k''))"
proof -
  let ?run = "oauth_run ex_cfg ex_oauth_env (\<lambda>_. None) ex_approved ex_server"
  have ok: "snd (exchange ex_cfg ex_oauth_env (ex_input 40 CHR ''z'') ex_redeem None ?run) = Inr
     \<lparr>tr_access_token = ex_token CHR ''z'', tr_token_type = ''Bearer'', tr_expires_in = 0,
      tr_scope = ''dp:read'', tr_refresh_token = Some (ex_token CHR ''z'')\<rparr>" by code_simp
  have gt: "ex_redeem ''grant_type'' = Some ''authorization_code''" by code_simp
  have ps: "ex_redeem ''code'' = Some (ex_token CHR ''k'')" "ex_redeem ''client_id'' = Some ''dcr_client''"
    "ex_redeem ''redirect_uri'' = Some DEFAULT_CHATGPT_REDIRECT_URI"
    "ex_redeem ''code_verifier'' = Some (ex_token CHR ''v'')" by code_simp+
  have env: "oe_s256 ex_oauth_env v = v" "oe_digest ex_oauth_env v = v" for v
    by (simp_all add: ex_oauth_env_def ex_env_def)
  obtain as x bs scopes where split: "ex_approved = as @ x # bs"
    "requests ex_cfg x ''dcr_client'' DEFAULT_CHATGPT_REDIRECT_URI (ex_token CHR ''v'') scopes"
    "\<exists>y \<in> set bs. approves ex_cfg ex_oauth_env y (ex_token CHR ''k'')"
    using code_exchange_needs_approval [OF ok [unfolded ex_server_def] gt] by (auto simp: ps env) blast
  have "scopes = [''dp:read'']"
  proof -
    have "x \<in> set ex_approved" unfolding split(1) by simp
    moreover have "parseScope (ex_authorize ''scope'') (oc_scopes ex_cfg) = Inr [''dp:read'']" by code_simp
    ultimately show ?thesis using split(2) by (auto simp: ex_approved_def split: sum.splits)
  qed
  with split show ?thesis by blast
qed

lemma run_codes_absent:
  assumes "\<And>c. (k, c) \<notin> set (os_codes st)" "\<forall>x \<in> set ops. \<not> approves cfg env x k"
  shows "(k, c) \<notin> set (os_codes (oauth_run cfg env pj ops st))"
  using assms(2)
proof (induction ops arbitrary: c rule: rev_induct)
  case Nil
  then show ?case using assms(1) by simp
next
  case (snoc y ops)
  then show ?case using codes_exec [of k c cfg env pj y] by (auto simp: run_snoc)
qed

lemma exchange_consumes_code:
  assumes "ps ''grant_type'' = Some ''authorization_code''" "ps ''code'' = Some code" "code \<noteq> []"
  shows "(oe_digest env code, c) \<notin> set (os_codes (fst (exchange cfg env inp ps None st)))"
proof -
  let ?st = "cleanup (in_clk inp 0) st"
  have "fst (exchange cfg env inp ps None st) = fst (exchangeAuthorizationCode cfg env inp ps ?st)"
    using assms(1) by (simp add: exchange_def Let_def requireString_def)
  moreover have "(oe_digest env code, c) \<notin> set (os_codes (fst (exchangeAuthorizationCode cfg env inp ps ?st)))"
  proof (cases "map_of (os_codes ?st) (oe_digest env code)")
    case None
    then have "(oe_digest env code, c) \<notin> set (os_codes ?st)" by (force simp: map_of_eq_None_iff)
    with None show ?thesis using assms by (simp add: exchangeAuthorizationCode_def requireString_def)
  next
    case (Some g)
    then show ?thesis using assms
      by (auto simp: exchangeAuthorizationCode_def Let_def requireString_def set_alist_delete
          split: attempt_split option.split)
  qed
  ultimately show ?thesis by simp
qed

text \<open>
  C11. A code is good for one attempt: once it has been presented, with success or not,
  every later attempt with it fails, unless a later approval happens to draw a code with the
  same digest.
\<close>

theorem code_single_use:
  assumes "ps ''grant_type'' = Some ''authorization_code''" "ps ''code'' = Some code" "code \<noteq> []"
    and "ps2 ''grant_type'' = Some ''authorization_code''" "ps2 ''code'' = Some code"
    and "\<forall>x \<in> set ops. \<not> approves cfg env x (oe_digest env code)"
  shows "\<exists>e. snd (exchange cfg env inp2 ps2 header2 (oauth_run cfg env parseJson ops
    (fst (exchange cfg env inp ps None st)))) = Inl e"
proof (rule ccontr)
  let ?st = "oauth_run cfg env parseJson ops (fst (exchange cfg env inp ps None st))"
  assume "\<not> ?thesis"
  then obtain r where "snd (exchange cfg env inp2 ps2 header2 ?st) = Inr r" by (meson sumE)
  from exchange_code_Inr [OF this assms(4)] obtain c
    where "map_of (os_codes (cleanup (in_clk inp2 0) ?st)) (oe_digest env code) = Some c"
    using assms(5) by auto
  then have "(oe_digest env code, c) \<in> set (os_codes ?st)" using map_of_SomeD cleanup_mem(1) by fast
  moreover have "(oe_digest env code, c) \<notin> set (os_codes ?st)"
    by (rule run_codes_absent [OF _ assms(6)]) (rule exchange_consumes_code [OF assms(1-3)])
  ultimately show False by contradiction
qed

theorem code_single_use_witness:
  "\<exists>e. snd (exchange ex_cfg ex_oauth_env (ex_input 45 CHR ''y'') ex_redeem None
     (oauth_run ex_cfg ex_oauth_env (\<lambda>_. None) [Authenticate (ex_input 42 CHR ''q'') ex_header]
       (fst (exchange ex_cfg ex_oauth_env (ex_input 40 CHR ''z'') ex_redeem None
         (oauth_run ex_cfg ex_oauth_env (\<lambda>_. None) ex_approved ex_server))))) = Inl e"
proof -
  have "ex_redeem ''grant_type'' = Some ''authorization_code''" "ex_redeem ''code'' = Some (ex_token CHR ''k'')"
    "ex_token CHR ''k'' \<noteq> []" by code_simp+
  note ps = this
  show ?thesis by (rule code_single_use [OF ps ps(1,2)]) simp
qed

section \<open>Pending requests\<close>

lemma length_transactions_exec:
  assumes "length (os_transactions st) \<le> oc_maxPendingTransactions cfg"
  shows "length (os_transactions (oauth_exec cfg env pj x st)) \<le> oc_maxPendingTransactions cfg"
proof -
  have clean: "length (os_transactions (cleanup n st)) \<le> oc_maxPendingTransactions cfg" for n
    using cleanup_sets(4) assms by (rule order_trans)
  show ?thesis
  proof (cases x)
    case (ResumeAuthorization inp ps)
    show ?thesis
    proof (cases "authorize_checks cfg ps")
      case (Inr req)
      show ?thesis
        using txs_resume [of cfg env inp ps req st]
      proof (elim disjE exE conjE)
        fix scopes v
        assume "length (os_transactions st) < oc_maxPendingTransactions cfg"
          and "os_transactions (fst (authorize_resume cfg env inp ps req st))
            = AList.update (oe_digest env (in_rand inp 0)) v (os_transactions st)"
        then show ?thesis
          using length_alist_update [of "oe_digest env (in_rand inp 0)" v "os_transactions st"]
          by (simp add: ResumeAuthorization Inr)
      qed (use assms in \<open>simp add: ResumeAuthorization Inr\<close>)
    qed (use assms ResumeAuthorization in simp)
  next
    case (Approve inp tid s)
    have "length (os_transactions (fst (approve cfg env inp tid s st)))
        \<le> length (os_transactions (cleanup (in_clk inp 0) st))"
      by (auto simp: approve_def Let_def length_alist_delete split: option.split)
    with Approve clean show ?thesis by (auto intro: order_trans)
  qed (use assms clean in \<open>auto simp: txs_cleaned split: sum.splits\<close>)
qed

text \<open>
  C12. The server never holds more pending authorization requests than configured, however
  the two halves of concurrent requests interleave.
\<close>

theorem pending_transactions_bounded:
  "length (os_transactions (oauth_run cfg env parseJson ops (new_oauth_state db))) \<le> oc_maxPendingTransactions cfg"
  by (induction ops rule: rev_induct) (simp_all add: new_oauth_state_def run_snoc length_transactions_exec)

end
