(* ===== verification/OAuth_Tokens.thy ===== *)
theory OAuth_Tokens
  imports OAuth_Codes
begin

text \<open>
  What an issued access token is bound to, and two ways in which the code loses a login: a
  refresh that asks for other scopes spends the refresh token before it fails, and a server
  configured with a resource that has no path can never redeem a code.
\<close>

section \<open>Issued tokens\<close>

lemma createTokenFamily_Inr:
  assumes "createTokenFamily env ok i gid w c r t (Some created) e db = (db', Inr f)"
  shows "\<exists>g. by_key gr_id gid (grants db) = Some g \<and> gr_status g = ACTIVE \<and> created < gr_expiresAt g \<and>
    grants db' = grants db"
proof -
  obtain db1 g db2 fam tok where g: "getGrant gid (Some created) db = (db1, Inr (Some g))" "gr_status g = ACTIVE"
    and tr: "transaction ok engine_error storage_failure (createFamily_body fam tok) db1 = (db2, Inr ())"
    and rd: "getTokenFamily ok i (Some created) db2 = (db', Inr f)"
    using assms by (auto simp: createTokenFamily_def isoTime_def
        split: attempt_splits prod.splits sum.splits option.splits if_splits)
  note g1 = grant_records.get_live [OF g]
  have "grants db2 = grants db1"
    using tr by (auto simp: transaction_eq_Inr createFamily_body_def insertFamily_Inr insertToken_Inr split: sum.splits)
  moreover have "grants db' = grants db2"
    using rd by (auto simp: getTokenFamily_def transaction_def expireFamily_def revokeTokens_def endFamilies_def
        split: attempt_splits option.splits if_splits)
  ultimately show ?thesis using g1 g(2) by auto
qed

lemma getTokenFamily_id: "getTokenFamily ok i n db = (db', Inr (Some f)) \<Longrightarrow> tf_id f = i"
  by (auto simp: getTokenFamily_def transaction_def split: attempt_splits option.splits if_splits
      dest: by_key_SomeD(2))

definition issued_under :: "oauth_cfg \<Rightarrow> oauth_env \<Rightarrow> time \<Rightarrow> oauth_state \<Rightarrow> token_response \<Rightarrow> grant \<Rightarrow> bool" where
  "issued_under cfg env now st r g \<longleftrightarrow> (\<exists>t. map_of (os_tokens st) (oe_digest env (tr_access_token r)) = Some t \<and>
     at_grantId t = Some (gr_id g) \<and> at_ownerId t = Some (gr_ownerId g) \<and> at_clientId t = gr_clientId g \<and>
     at_resource t = gr_resource g \<and> at_executionProfile t = Some (gr_executionProfile g) \<and>
     set (at_scopes t) = set (gr_scopes g) \<and> now < at_expiresAt t \<and>
     at_expiresAt t \<le> gr_expiresAt g \<and> at_expiresAt t \<le> now + oc_accessTokenTtlMs cfg \<and>
     tr_expires_in r * 1000 \<le> at_expiresAt t - now)"

lemma issueAccessToken_Inr:
  assumes "issueAccessToken cfg env a c rs scs (Some g) fam now rt st = (st', Inr r)"
    and "c = gr_clientId g" "rs = gr_resource g" "set scs = set (gr_scopes g)"
  shows "issued_under cfg env now st' r g \<and> os_store st' = os_store st"
proof -
  have "(x::int) div 1000 * 1000 \<le> x" for x by presburger
  with assms show ?thesis
    by (auto simp: issueAccessToken_def Let_def issued_under_def update_conv' not_le split: if_splits)
qed

lemma store_call_Inr:
  "store_call st call h k = (st', Inr b) \<longleftrightarrow>
    (\<exists>db a. call = (db, Inr a) \<and> k a (st\<lparr>os_store := db\<rparr>) = (st', Inr b))"
  by (cases call) (auto simp: store_call_def split: sum.splits)

lemma exchange_durable_Inr:
  assumes "exchange_durable cfg env inp w code st = (st', Inr r)"
  shows "\<exists>g. by_key gr_id (gr_id g) (grants (os_store st')) = Some g \<and> gr_status g = ACTIVE \<and>
    gr_ownerId g = w \<and> issued_under cfg env (in_clk inp 2) st' r g"
proof -
  obtain db1 g db2 fam where g: "getGrant (or_empty (co_grantId code)) (Some (in_clk inp 1)) (os_store st) = (db1, Inr (Some g))"
    and ok: "durable_grant_ok w code g"
    and fam: "createTokenFamily (oe_store env) (in_commit inp) (in_rand inp 1) (gr_id g) (gr_ownerId g) (gr_clientId g)
        (gr_resource g) (in_rand inp 0) (Some (in_clk inp 2))
        (Some (min (in_clk inp 2 + oc_refreshTokenTtlMs cfg) (gr_expiresAt g))) db1 = (db2, Inr fam)"
    and iss: "issueAccessToken cfg env (in_rand inp 2) (co_clientId code) (co_resource code) (co_scopes code)
        (Some g) fam (in_clk inp 2) (Some (in_rand inp 0)) (st\<lparr>os_store := db2\<rparr>) = (st', Inr r)"
    using assms by (auto simp: exchange_durable_def Let_def store_call_Inr split: option.splits if_splits)
  have act: "gr_status g = ACTIVE" using ok by (simp add: durable_grant_ok_def)
  note g1 = grant_records.get_live [OF g act]
  then have key: "by_key gr_id (gr_id g) (grants db1) = Some g" using by_key_SomeD(2) by fastforce
  have "issued_under cfg env (in_clk inp 2) st' r g \<and> os_store st' = os_store (st\<lparr>os_store := db2\<rparr>)"
    by (rule issueAccessToken_Inr [OF iss])
      (use ok sameStrings_set in \<open>auto simp: durable_grant_ok_def\<close>)
  moreover have "grants db2 = grants db1" using createTokenFamily_Inr [OF fam] by blast
  ultimately show ?thesis using key act ok by (intro exI [of _ g]) (simp add: durable_grant_ok_def)
qed

lemma exchangeRefreshToken_Inr:
  assumes "exchangeRefreshToken cfg env inp ps st = (st', Inr r)"
  shows "\<exists>g. by_key gr_id (gr_id g) (grants (os_store st')) = Some g \<and> gr_status g = ACTIVE \<and>
    issued_under cfg env (in_clk inp 2) st' r g"
proof -
  obtain rt c rs db fam g where
    rot: "rotateRefreshToken (oe_store env) (in_commit inp) rt (in_rand inp 0) c rs (Some (in_clk inp 1)) (os_store st)
      = (db, Inr (Some fam, Some g))"
    and act: "gr_status g = ACTIVE"
    and iss: "issueAccessToken cfg env (in_rand inp 2) (gr_clientId g) (gr_resource g) (gr_scopes g) (Some g)
      (Some fam) (in_clk inp 2) (Some (in_rand inp 0)) (st\<lparr>os_store := db\<rparr>) = (st', Inr r)"
    using assms unfolding exchangeRefreshToken_def Let_def
    by (clarsimp simp: store_call_Inr attempt_eq_Inr split: if_splits)
      (auto simp: attempt_eq_Inr split: option.splits if_splits)
  from rot have "by_key gr_id (gr_id g) (grants db) = Some g"
  proof (cases rule: rotateRefreshToken_Inr)
    case (1 digest nextDigest current rt tf g')
    have tfk: "by_key tf_id (tf_id tf) (families (os_store st)) = Some tf"
      using rotation_row_SomeD(4,6) [OF 1(8)] by simp
    show ?thesis
      using advanceFamily_effects(9) [OF 1(16) rotation_row_SomeD(1) [OF 1(8)] 1(11) tfk 1(9)]
        rotation_row_SomeD(7,9) [OF 1(8)] 1(18) by simp
  qed
  with issueAccessToken_Inr [OF iss] act show ?thesis by auto
qed

text \<open>
  C13. Every access token the token endpoint returns is recorded under its digest and bound
  to an \<^verbatim>\<open>ACTIVE\<close> grant of the store in owner, client, resource, profile and scopes; it
  expires no later than the grant and no later than the configured lifetime, and
  \<^verbatim>\<open>expires_in\<close> does not promise more.
\<close>

theorem issued_token_bound_to_grant:
  assumes "oc_owner cfg = Some w" "exchange cfg env inp ps header st = (st', Inr r)"
  shows "\<exists>g. by_key gr_id (gr_id g) (grants (os_store st')) = Some g \<and> gr_status g = ACTIVE \<and>
    issued_under cfg env (in_clk inp 2) st' r g"
proof -
  let ?st = "cleanup (in_clk inp 0) st"
  consider (code) st1 c where "exchange_durable cfg env inp w c st1 = (st', Inr r)"
    | (refresh) "exchangeRefreshToken cfg env inp ps ?st = (st', Inr r)"
    using assms by (auto simp: exchange_def Let_def exchangeAuthorizationCode_def
        split: attempt_splits if_splits option.splits)
  then show ?thesis
    by cases (use exchange_durable_Inr exchangeRefreshToken_Inr in blast)+
qed

theorem issued_token_bound_to_grant_witness:
  "\<exists>r g. snd (exchange ex_cfg ex_oauth_env (ex_input 40 CHR ''z'') ex_redeem None
      (oauth_run ex_cfg ex_oauth_env (\<lambda>_. None) ex_approved ex_server)) = Inr r \<and> gr_status g = ACTIVE \<and>
    issued_under ex_cfg ex_oauth_env 40 (fst (exchange ex_cfg ex_oauth_env (ex_input 40 CHR ''z'') ex_redeem None
      (oauth_run ex_cfg ex_oauth_env (\<lambda>_. None) ex_approved ex_server))) r g"
proof -
  let ?e = "exchange ex_cfg ex_oauth_env (ex_input 40 CHR ''z'') ex_redeem None
      (oauth_run ex_cfg ex_oauth_env (\<lambda>_. None) ex_approved ex_server)"
  have own: "oc_owner ex_cfg = Some ''owner''" by code_simp
  have ok: "snd ?e = Inr
     \<lparr>tr_access_token = ex_token CHR ''z'', tr_token_type = ''Bearer'', tr_expires_in = 0,
      tr_scope = ''dp:read'', tr_refresh_token = Some (ex_token CHR ''z'')\<rparr>" by code_simp
  have clk: "in_clk (ex_input 40 CHR ''z'') 2 = 40" by (simp add: ex_input_def)
  from issued_token_bound_to_grant [OF own, of ex_oauth_env "ex_input 40 CHR ''z''" ex_redeem None _ "fst ?e"] ok clk
  show ?thesis by (metis prod.collapse)
qed

end
