(* ===== verification/OAuth_Losses.thy ===== *)
theory OAuth_Losses
  imports OAuth_Codes
begin

text \<open>
  Two ways in which the authorization server loses a login it granted: a refresh that asks
  for another scope set spends the refresh token before it fails, and a server whose
  configured resource has no path can never redeem a code.
\<close>

section \<open>A refresh that fails after the rotation\<close>

text \<open>
  \<open>exchangeRefreshToken\<close> compares the requested scopes with the grant's only after the
  store has rotated: the client gets \<^verbatim>\<open>invalid_scope\<close> and no new token, and the refresh token
  it presented never rotates again, so that the login is lost.
\<close>

theorem scope_mismatch_spends_refresh_token:
  assumes "oc_owner cfg = Some w" "refresh_checks cfg ps = Inr (token, clientId, resource)"
    and "snd (rotateRefreshToken (oe_store env) (in_commit inp) token (in_rand inp 0) clientId resource
          (Some (in_clk inp 1)) (os_store st)) = Inr (Some fam, Some g)"
    and "tf_status fam = ACTIVE" "gr_status g = ACTIVE"
    and "refresh_scopes cfg ps g = Inr scopes" "set scopes \<noteq> set (gr_scopes g)"
  shows "snd (exchangeRefreshToken cfg env inp ps st) = Inl (OAuthError ''invalid_scope'' 400) \<and>
    (\<forall>ops ok next c r now. \<exists>e. snd (rotateRefreshToken (oe_store env) ok token next c r now
      (auth_run (oe_store env) ops (os_store (fst (exchangeRefreshToken cfg env inp ps st))))) = Inl e)"
proof -
  obtain db where rot: "rotateRefreshToken (oe_store env) (in_commit inp) token (in_rand inp 0) clientId resource
      (Some (in_clk inp 1)) (os_store st) = (db, Inr (Some fam, Some g))"
    using assms(3) by (metis prod.collapse)
  have "\<not> sameStrings scopes (gr_scopes g)" using assms(7) sameStrings_set by blast
  then have res: "exchangeRefreshToken cfg env inp ps st
      = (st\<lparr>os_store := db\<rparr>, Inl (OAuthError ''invalid_scope'' 400))"
    using assms(1,2,4-6) rot by (simp add: exchangeRefreshToken_def Let_def store_call_def oauthError_def)
  from rotation_spends_token [OF rot] obtain digest t where
    "hashRefreshToken (oe_store env) token = Inr digest" "by_key rt_digest digest (tokens db) = Some t"
    "rt_status t \<noteq> ACTIVE" by blast
  then show ?thesis using spent_token_never_rotates res by simp
qed

definition ex_two_scopes :: oauth_cfg where
  "ex_two_scopes = ex_cfg\<lparr>oc_resource := ''https://r/'', oc_scopes := [''dp:read'', ''dp:write'']\<rparr>"

definition ex_refresh :: params where
  "ex_refresh = ex_params [(''refresh_token'', ex_token CHR ''a''), (''client_id'', ''client-1''),
     (''resource'', ''https://r/''), (''scope'', ''dp:read dp:write'')]"

theorem scope_mismatch_spends_refresh_token_witness:
  "snd (exchangeRefreshToken ex_two_scopes ex_oauth_env (ex_input 50 CHR ''b'') ex_refresh (new_oauth_state ex_db))
     = Inl (OAuthError ''invalid_scope'' 400)"
proof -
  let ?tf = "\<lparr>tf_id = ''family-1'', tf_grantId = ''grant-01'', tf_ownerId = ''owner'',
        tf_clientId = ''client-1'', tf_resource = ''https://r/'', tf_createdAt = 40,
        tf_expiresAt = 900, tf_status = ACTIVE, tf_revokedAt = None, tf_revokeReason = None,
        tf_currentGeneration = 1\<rparr>"
  let ?g = "\<lparr>gr_id = ''grant-01'', gr_ownerId = ''owner'', gr_clientId = ''client-1'',
        gr_resource = ''https://r/'', gr_scopes = [''dp:read''], gr_executionProfile = ''full'',
        gr_grantedAt = 30, gr_expiresAt = 1000, gr_status = ACTIVE\<rparr>"
  have "oc_owner ex_two_scopes = Some ''owner''"
    "refresh_checks ex_two_scopes ex_refresh = Inr (ex_token CHR ''a'', ''client-1'', ''https://r/'')"
    "snd (rotateRefreshToken (oe_store ex_oauth_env) (in_commit (ex_input 50 CHR ''b'')) (ex_token CHR ''a'')
       (in_rand (ex_input 50 CHR ''b'') 0) ''client-1'' ''https://r/'' (Some (in_clk (ex_input 50 CHR ''b'') 1))
       (os_store (new_oauth_state ex_db))) = Inr (Some ?tf, Some ?g)"
    "tf_status ?tf = ACTIVE" "gr_status ?g = ACTIVE"
    "refresh_scopes ex_two_scopes ex_refresh ?g = Inr [''dp:read'', ''dp:write'']"
    "set [''dp:read'', ''dp:write''] \<noteq> set (gr_scopes ?g)"
    by code_simp+
  from scope_mismatch_spends_refresh_token [OF this] show ?thesis by blast
qed

section \<open>A resource without a path\<close>

text \<open>
  Two normal forms meet: \<open>canonicalHttpsUrl\<close> drops the slash at the end of the resource, the
  store's \<open>exactHttpsUrl\<close> keeps the one the URL parser prints for an empty path.
\<close>

definition code_of_root :: "oauth_cfg \<Rightarrow> string \<Rightarrow> auth_db \<Rightarrow> auth_code \<Rightarrow> bool" where
  "code_of_root cfg url db c \<longleftrightarrow> co_resource c = oc_resource cfg \<and>
     (\<exists>i g. co_grantId c = Some i \<and> by_key gr_id i (grants db) = Some g \<and> gr_resource g = url)"

lemma createGrant_Inr:
  assumes "createGrant env i w c r scs p a e db = (db', Inr g)"
  shows "\<exists>g0 url. exactHttpsUrl env r = Inr url \<and> g = Some g0 \<and> gr_id g0 = i \<and> gr_resource g0 = url \<and>
    by_key gr_id i (grants db') = Some g0"
proof -
  obtain granted expires url scopes where
    url: "exactHttpsUrl env r = Inr url" and fresh: "by_key gr_id i (grants db) = None" and lt: "granted < expires"
    and gg: "getGrant i (Some granted) (db\<lparr>grants := grants db @ [\<lparr>gr_id = i, gr_ownerId = w, gr_clientId = c,
       gr_resource = url, gr_scopes = scopes, gr_executionProfile = p, gr_grantedAt = granted,
       gr_expiresAt = expires, gr_status = ACTIVE\<rparr>]\<rparr>) = (db', Inr g)"
    using assms by (auto simp: createGrant_def not_le split: attempt_splits option.splits if_splits)
  with getGrant_unexpired [of i "db\<lparr>grants := grants db @ [\<lparr>gr_id = i, gr_ownerId = w, gr_clientId = c,
       gr_resource = url, gr_scopes = scopes, gr_executionProfile = p, gr_grantedAt = granted,
       gr_expiresAt = expires, gr_status = ACTIVE\<rparr>]\<rparr>" _ granted]
  show ?thesis by (auto simp: by_key_append)
qed

lemma code_of_root_later:
  assumes "code_of_root cfg url db c" "auth_later db db'"
  shows "code_of_root cfg url db' c"
proof -
  obtain i g where g: "co_grantId c = Some i" "by_key gr_id i (grants db) = Some g" "gr_resource g = url"
    using assms(1) by (auto simp: code_of_root_def)
  have "grows gr_id grant_later (grants db) (grants db')" using assms(2) by (simp add: auth_later_def)
  from growsD [OF this g(2)] obtain g' where g': "by_key gr_id i (grants db') = Some g'" "grant_later g g'" by blast
  then have "gr_resource g' = gr_resource g" by (auto simp: grant_later_def) (metis grant.select_convs(4) grant.surjective grant.update_convs(9))
  with g g'(1) assms(1) show ?thesis by (auto simp: code_of_root_def)
qed

lemma authorize_checks_resource: "authorize_checks cfg ps = Inr req \<Longrightarrow> ar_resource req = oc_resource cfg"
  by (auto simp: authorize_checks_def split: sum.splits if_splits)

lemma txs_exec_resource:
  assumes "\<And>k t. (k, t) \<in> set (os_transactions st) \<Longrightarrow> ta_resource t = oc_resource cfg"
    and "(k, t) \<in> set (os_transactions (oauth_exec cfg env pj x st))"
  shows "ta_resource t = oc_resource cfg"
proof (cases "(k, t) \<in> set (os_transactions st)")
  case False
  with txs_exec [OF assms(2)] obtain inp ps where x: "x = ResumeAuthorization inp ps"
    by (cases x) auto
  show ?thesis
  proof (cases "authorize_checks cfg ps")
    case (Inr req)
    with assms(2) x False txs_resume [of cfg env inp ps req st] authorize_checks_resource [OF Inr] show ?thesis
      by (auto dest!: alist_update_cases)
  qed (use assms x in simp)
qed (rule assms(1))

lemma approve_codes:
  assumes "oc_owner cfg = Some w" "exactHttpsUrl (oe_store env) (oc_resource cfg) = Inr url"
    and "\<And>k t. (k, t) \<in> set (os_transactions st) \<Longrightarrow> ta_resource t = oc_resource cfg"
    and "(k, c) \<in> set (os_codes (fst (approve cfg env inp tid s st)))" "(k, c) \<notin> set (os_codes st)"
  shows "code_of_root cfg url (os_store (fst (approve cfg env inp tid s st))) c"
proof -
  let ?st = "cleanup (in_clk inp 0) st" and ?key = "oe_digest env (or_empty tid)"
  have new: "(k, c) \<notin> set (os_codes ?st)" using assms(5) by blast
  obtain t where t: "map_of (os_transactions ?st) ?key = Some t" and sec: "or_empty s = oc_approvalSecret cfg"
    using assms(4) new by (auto simp: approve_def Let_def equalText_def split: option.splits if_splits)
  have res: "ta_resource t = oc_resource cfg" using map_of_SomeD [OF t] assms(3) by blast
  let ?call = "createGrant (oe_store env) (in_rand inp 0) w (ta_clientId t) (ta_resource t)
     (Some (ta_scopes t)) (oc_executionProfile cfg) (Some (in_clk inp 1))
     (Some (in_clk inp 1 + oc_grantTtlMs cfg)) (os_store st)"
  let ?st2 = "?st\<lparr>os_transactions := AList.delete ?key (os_transactions ?st)\<rparr>"
  have app: "approve cfg env inp tid s st = store_call ?st2 ?call unavailable (issue_code cfg env inp (in_clk inp 1) t)"
    using t sec assms(1) by (simp add: approve_def Let_def equalText_def)
  show ?thesis
  proof (cases "snd ?call")
    case (Inl e)
    with app assms(4) new show ?thesis by (simp add: store_call_def)
  next
    case (Inr g)
    obtain db where call: "?call = (db, Inr g)" using Inr by (metis prod.collapse)
    from createGrant_Inr [OF this] assms(2) res obtain g0 where
      g0: "g = Some g0" "gr_resource g0 = url" "by_key gr_id (gr_id g0) (grants db) = Some g0" by auto
    have st: "fst (approve cfg env inp tid s st)
        = fst (issue_code cfg env inp (in_clk inp 1) t g (?st2\<lparr>os_store := db\<rparr>))"
      using app call by (simp add: store_call_def)
    with assms(4) new have "c = code_of t g (in_clk inp 1 + oc_codeTtlMs cfg)"
      using codes_issue_code [of k c cfg env inp "in_clk inp 1" t g "?st2\<lparr>os_store := db\<rparr>"] by auto
    with g0 res st show ?thesis by (simp add: code_of_root_def code_of_def)
  qed
qed

lemma run_root:
  assumes "oc_owner cfg = Some w" "exactHttpsUrl (oe_store env) (oc_resource cfg) = Inr url"
  shows "(\<forall>(k, t) \<in> set (os_transactions (oauth_run cfg env pj ops (new_oauth_state db))). ta_resource t = oc_resource cfg) \<and>
    (\<forall>(k, c) \<in> set (os_codes (oauth_run cfg env pj ops (new_oauth_state db))).
       code_of_root cfg url (os_store (oauth_run cfg env pj ops (new_oauth_state db))) c)"
proof (induction ops rule: rev_induct)
  case Nil
  then show ?case by (simp add: new_oauth_state_def)
next
  case (snoc x ops)
  let ?st = "oauth_run cfg env pj ops (new_oauth_state db)"
  have tx: "ta_resource t = oc_resource cfg" if "(k, t) \<in> set (os_transactions ?st)" for k t
    using snoc.IH that by blast
  have "code_of_root cfg url (os_store (oauth_exec cfg env pj x ?st)) c"
    if c: "(k, c) \<in> set (os_codes (oauth_exec cfg env pj x ?st))" for k c
  proof (cases "(k, c) \<in> set (os_codes ?st)")
    case True
    then have "code_of_root cfg url (os_store ?st) c" using snoc.IH by blast
    then show ?thesis by (rule code_of_root_later [OF _ oauth_exec_later])
  next
    case False
    with codes_exec [OF c] obtain inp tid s where x: "x = Approve inp tid s" by (cases x) auto
    with c False approve_codes [OF assms tx] show ?thesis by simp
  qed
  moreover have "ta_resource t = oc_resource cfg" if "(k, t) \<in> set (os_transactions (oauth_exec cfg env pj x ?st))" for k t
    using txs_exec_resource [OF tx that] .
  ultimately show ?case by (auto simp: run_snoc)
qed

lemma exchange_durable_root:
  assumes "code_of_root cfg url (os_store st) c" "url \<noteq> oc_resource cfg"
  shows "\<exists>e. snd (exchange_durable cfg env inp w c st) = Inl e"
proof -
  obtain i g where g: "co_resource c = oc_resource cfg" "co_grantId c = Some i"
    "by_key gr_id i (grants (os_store st)) = Some g" "gr_resource g = url"
    using assms(1) by (auto simp: code_of_root_def)
  have "gr_resource g' = url" if "getGrant i (Some n) (os_store st) = (db, Inr (Some g'))" for n db g'
    using that g(3,4) by (auto simp: getGrant_def isoTime_def Let_def by_key_update_where split: if_splits)
  moreover have "\<exists>db g'. getGrant i (Some n) (os_store st) = (db, Inr (Some g'))" for n
    using g(3) by (auto simp: getGrant_def isoTime_def Let_def by_key_update_where)
  ultimately obtain db g' where "getGrant i (Some (in_clk inp 1)) (os_store st) = (db, Inr (Some g'))" "gr_resource g' = url"
    by blast
  then show ?thesis
    using g(1,2) assms(2) by (simp add: exchange_durable_def store_call_def or_empty_def durable_grant_ok_def)
qed

text \<open>
  When the URL parser prints the configured resource differently from the server's
  canonical text (it does for every resource without a path, where it adds the slash the
  server took away), no authorization code is ever exchanged for a token: every login the
  owner approves fails at its last step.
\<close>

theorem root_resource_never_redeems:
  assumes "oc_owner cfg = Some w" "exactHttpsUrl (oe_store env) (oc_resource cfg) = Inr url"
    and "url \<noteq> oc_resource cfg" "ps ''grant_type'' = Some ''authorization_code''"
  shows "\<exists>e. snd (exchange cfg env inp ps header (oauth_run cfg env parseJson ops (new_oauth_state db))) = Inl e"
proof (rule ccontr)
  let ?st = "oauth_run cfg env parseJson ops (new_oauth_state db)"
  let ?st1 = "cleanup (in_clk inp 0) ?st"
  assume "\<not> ?thesis"
  then obtain st' r where ex: "exchange cfg env inp ps header ?st = (st', Inr r)"
    by (metis prod.collapse sum.exhaust_sel)
  then obtain code c where c: "ps ''code'' = Some code" "map_of (os_codes ?st1) (oe_digest env code) = Some c"
    and dur: "exchange_durable cfg env inp w c (?st1\<lparr>os_codes := AList.delete (oe_digest env code) (os_codes ?st1)\<rparr>) = (st', Inr r)"
    using assms(1,4) by (auto simp: exchange_def Let_def exchangeAuthorizationCode_def
        split: attempt_splits if_splits option.splits)
  have "(oe_digest env code, c) \<in> set (os_codes ?st)" using map_of_SomeD [OF c(2)] by blast
  then have "code_of_root cfg url (os_store ?st) c"
    using run_root [OF assms(1,2), of parseJson ops db] by blast
  then have "\<exists>e. snd (exchange_durable cfg env inp w c
      (?st1\<lparr>os_codes := AList.delete (oe_digest env code) (os_codes ?st1)\<rparr>)) = Inl e"
    by (intro exchange_durable_root [OF _ assms(3)]) simp
  with dur show False by simp
qed

definition ex_root_env :: oauth_env where
  "ex_root_env = ex_oauth_env\<lparr>oe_store := ex_env\<lparr>parseUrl :=
     (\<lambda>s. Some (ex_url (if s = ''https://r'' then ''https://r/'' else s)))\<rparr>\<rparr>"

definition ex_root_cfg :: oauth_cfg where
  "ex_root_cfg = ex_cfg\<lparr>oc_resource := strip_slash ''https://r/''\<rparr>"

definition ex_root_ops :: "oauth_op list" where
  "ex_root_ops = [StartAuthorization (ex_input 20 CHR ''t''),
     ResumeAuthorization (ex_input 20 CHR ''t'') (ex_authorize(''resource'' := Some ''https://r'')),
     Approve (ex_input 30 CHR ''k'') (Some (ex_token CHR ''t'')) (Some ex_secret)]"

definition ex_root_redeem :: params where
  "ex_root_redeem = ex_redeem(''resource'' := Some ''https://r'')"

theorem root_resource_never_redeems_witness:
  "length (os_codes (oauth_run ex_root_cfg ex_root_env (\<lambda>_. None) ex_root_ops (new_oauth_state ex_db))) = 1 \<and>
   (\<exists>e. snd (exchange ex_root_cfg ex_root_env (ex_input 40 CHR ''z'') ex_root_redeem None
     (oauth_run ex_root_cfg ex_root_env (\<lambda>_. None) ex_root_ops (new_oauth_state ex_db))) = Inl e)"
proof -
  have "oc_owner ex_root_cfg = Some ''owner''"
    "exactHttpsUrl (oe_store ex_root_env) (oc_resource ex_root_cfg) = Inr ''https://r/''"
    "''https://r/'' \<noteq> oc_resource ex_root_cfg" "ex_root_redeem ''grant_type'' = Some ''authorization_code''"
    by code_simp+
  note fails = root_resource_never_redeems [where ps = ex_root_redeem, OF this]
  have "length (os_codes (oauth_run ex_root_cfg ex_root_env (\<lambda>_. None) ex_root_ops (new_oauth_state ex_db))) = 1"
    by code_simp
  with fails show ?thesis by blast
qed

end
