(* ===== verification/Bridge.thy ===== *)
theory Bridge
  imports Json
begin

text \<open>
  The shared core of the services, \<^verbatim>\<open>packages/core/src\<close>: \<^verbatim>\<open>errors.js\<close>, \<^verbatim>\<open>http.js\<close>,
  \<^verbatim>\<open>admission-gate.js\<close> and \<^verbatim>\<open>contracts.js\<close>. Of a \<open>BridgeError\<close> the model keeps code, status
  and details; every other exception is a \<open>Failure\<close> with its \<^verbatim>\<open>code\<close>.
\<close>

datatype bridge_exc =
    BridgeError string nat "json option"
  | Failure string

definition bridgeError :: "string \<Rightarrow> nat \<Rightarrow> bridge_exc" where
  "bridgeError code status = BridgeError code status None"

fun error_code :: "bridge_exc \<Rightarrow> string" where
  "error_code (BridgeError code status details) = code"
| "error_code (Failure code) = code"

text \<open>The message texts are left out of the payload.\<close>

fun errorPayload :: "bridge_exc \<Rightarrow> json" where
  "errorPayload (BridgeError code status details) = JObj [(''error'', JObj
     ((''code'', JStr code) # (case details of None \<Rightarrow> [] | Some d \<Rightarrow> [(''details'', d)])))]"
| "errorPayload (Failure code) = JObj [(''error'', JObj [(''code'', JStr ''internal_error'')])]"

fun error_status :: "bridge_exc \<Rightarrow> nat" where
  "error_status (BridgeError code status details) = status"
| "error_status (Failure code) = 500"

section \<open>HTTP\<close>

text \<open>An answer: status and JSON body. \<open>sendError\<close> is the only way an exception becomes one.\<close>

type_synonym reply = "nat \<times> json"

definition sendError :: "bridge_exc \<Rightarrow> reply" where
  "sendError e = (error_status e, errorPayload e)"

fun collect_chunks :: "nat \<Rightarrow> nat \<Rightarrow> string list \<Rightarrow> bridge_exc + string" where
  "collect_chunks limit sz [] = Inr []"
| "collect_chunks limit sz (chunk # rest) =
     (if sz + length chunk > limit then Inl (bridgeError ''payload_too_large'' 413)
      else (case collect_chunks limit (sz + length chunk) rest of
              Inl e \<Rightarrow> Inl e | Inr bytes \<Rightarrow> Inr (chunk @ bytes)))"

definition readJson :: "(string \<Rightarrow> json option) \<Rightarrow> nat \<Rightarrow> string list \<Rightarrow> bridge_exc + json" where
  "readJson parseJson limit chunks = (case collect_chunks limit 0 chunks of
       Inl e \<Rightarrow> Inl e
     | Inr bytes \<Rightarrow> if chunks = [] then Inr (JObj []) else
         (case parseJson bytes of None \<Rightarrow> Inl (bridgeError ''invalid_json'' 400) | Some v \<Rightarrow> Inr v))"

definition requireBearer :: "string option \<Rightarrow> string \<Rightarrow> bridge_exc + unit" where
  "requireBearer supplied token =
     (if token = [] \<or> supplied \<noteq> Some (''Bearer '' @ token)
      then Inl (bridgeError ''unauthorized'' 401) else Inr ())"

lemma collect_chunks_eq:
  "collect_chunks limit sz chunks =
    (if chunks = [] \<or> sz + length (concat chunks) \<le> limit then Inr (concat chunks)
     else Inl (bridgeError ''payload_too_large'' 413))"
proof (induction chunks arbitrary: sz)
  case (Cons c cs)
  show ?case by (cases "cs = []") (simp_all add: Cons.IH [of "sz + length c"])
qed simp

section \<open>The admission gate\<close>

text \<open>What \<^verbatim>\<open>lstat\<close> of the marker says: an entry is there, or an error code.\<close>

definition isAdmissionPaused :: "(string \<Rightarrow> string + unit) \<Rightarrow> string option \<Rightarrow> bool" where
  "isAdmissionPaused lstat filename = (case filename of
       None \<Rightarrow> True
     | Some f \<Rightarrow> if \<not> starts_with f ''/'' then True else
         (case lstat f of Inr _ \<Rightarrow> True | Inl code \<Rightarrow> code \<noteq> ''ENOENT''))"

section \<open>Capabilities\<close>

definition PROTOCOL_VERSION :: string where
  "PROTOCOL_VERSION = ''1.0''"

definition CAPABILITIES :: json where
  "CAPABILITIES = JObj
     [(''terminal'', JObj [(''version'', JStr ''1.0''), (''features'', JArr (map JStr
        [''persistent_sessions'', ''reconnect'', ''output_cursor'', ''versioned_transcript_cursor'',
         ''retained_closed_sessions'', ''explicit_transcript_purge'', ''interactive_input'', ''explicit_close'']))]),
      (''files'', JObj [(''version'', JStr ''1.0''), (''features'', JArr (map JStr
        [''list'', ''upload'', ''download'', ''copy'', ''move'', ''delete'']))])]"

definition capabilityDocument :: "string \<Rightarrow> json" where
  "capabilityDocument agentId = JObj
     [(''protocolVersion'', JStr PROTOCOL_VERSION), (''agentId'', JStr agentId),
      (''product'', JStr ''DP Beget Bridge''), (''capabilities'', CAPABILITIES)]"

end
