(* ===== verification/StateStore.thy ===== *)
theory StateStore
  imports Bridge
begin

text \<open>
  The session and operation store of the agent, \<^verbatim>\<open>apps/agent/src/state-store.js\<close>: the tables
  \<^verbatim>\<open>sessions\<close> and \<^verbatim>\<open>operations\<close>, the metadata file of every session directory and the
  completion records the wrapped commands leave there. Opening the database and the schema
  migration are in the theory \<^verbatim>\<open>Migration\<close>.
\<close>

section \<open>Rows, files and the state\<close>

record session =
  se_id :: string
  se_label :: string
  se_cwd :: string
  se_createdAt :: time
  se_closedAt :: "time option"
  se_transcriptStreamId :: string
  se_transcriptEpoch :: int
  se_transcriptEarliestOffset :: int
  se_transcriptCaptureState :: string
  se_transcriptGapReason :: "string option"

definition session_state :: "session \<Rightarrow> string" where
  "session_state s = (if se_closedAt s \<noteq> None then ''CLOSED'' else ''OPEN'')"

datatype op_status = ACCEPTED | RUNNING | SUCCEEDED | FAILED | INTERRUPTED | UNKNOWN

record operation =
  op_id :: string
  op_sessionId :: string
  op_idempotencyKey :: string
  op_requestFingerprint :: string
  op_status :: op_status
  op_acceptedAt :: time
  op_startedAt :: "time option"
  op_completedAt :: "time option"
  op_exitCode :: "nat option"
  op_outcomeReason :: "string option"
  op_startCursor :: int

text \<open>
  The fields of \<^verbatim>\<open>session.json\<close> that the import reads; \<^term>\<open>None\<close> for an absent one.
\<close>

record legacy =
  lg_id :: "string option"
  lg_label :: "string option"
  lg_cwd :: "string option"
  lg_createdAt :: "time option"
  lg_closedAt :: "time option"
  lg_transcriptStreamId :: "string option"

text \<open>
  A session directory: its metadata file (absent, unreadable as JSON, or a document) and the
  completion records by operation id, each with its text and modification time, or the error
  code with which it cannot be read.
\<close>

datatype meta_file = NoFile | BadJson | Document legacy

datatype exit_file = ExitRecord string time | ExitUnreadable string

record session_dir =
  sd_name :: string
  sd_meta :: meta_file
  sd_exits :: "(string \<times> exit_file) list"

record state_store =
  st_sessions :: "session list"
  st_operations :: "operation list"
  st_dirs :: "session_dir list"

definition empty_state_store :: state_store where
  "empty_state_store = \<lparr>st_sessions = [], st_operations = [], st_dirs = []\<rparr>"

definition find_dir :: "string \<Rightarrow> state_store \<Rightarrow> session_dir option" where
  "find_dir i st = by_key sd_name i (st_dirs st)"

definition ensure_dir :: "string \<Rightarrow> state_store \<Rightarrow> state_store" where
  "ensure_dir i st = (if find_dir i st = None
     then st\<lparr>st_dirs := st_dirs st @ [\<lparr>sd_name = i, sd_meta = NoFile, sd_exits = []\<rparr>]\<rparr> else st)"

definition update_dir :: "string \<Rightarrow> (session_dir \<Rightarrow> session_dir) \<Rightarrow> state_store \<Rightarrow> state_store" where
  "update_dir i f st = st\<lparr>st_dirs := update_where (\<lambda>d. sd_name d = i) f (st_dirs st)\<rparr>"

section \<open>Sessions\<close>

definition getSession :: "string \<Rightarrow> state_store \<Rightarrow> session option" where
  "getSession i st = by_key se_id i (st_sessions st)"

definition listSessions :: "state_store \<Rightarrow> session list" where
  "listSessions st = sort_key se_createdAt (st_sessions st)"

text \<open>
  The argument of \<open>save\<close> is an object whose fields may be missing. \<open>or_else\<close> is \<^verbatim>\<open>||\<close> on
  text (an empty text is falsy), \<open>or_else_int\<close> on numbers, \<open>nullish\<close> is \<^verbatim>\<open>??\<close>.
\<close>

record session_input =
  si_id :: string
  si_label :: "string option"
  si_cwd :: "string option"
  si_createdAt :: time
  si_closedAt :: "time option"
  si_transcriptStreamId :: "string option"
  si_transcriptEpoch :: "int option"
  si_transcriptEarliestOffset :: "int option"
  si_transcriptCaptureState :: "string option"
  si_transcriptGapReason :: "string option"

definition or_else :: "string option \<Rightarrow> string option \<Rightarrow> string option" where
  "or_else a b = (case a of None \<Rightarrow> b | Some s \<Rightarrow> if s = [] then b else Some s)"

definition or_else_int :: "int option \<Rightarrow> int option \<Rightarrow> int option" where
  "or_else_int a b = (case a of None \<Rightarrow> b | Some n \<Rightarrow> if n = 0 then b else Some n)"

definition nullish :: "'a option \<Rightarrow> 'a option \<Rightarrow> 'a option" where
  "nullish a b = (case a of None \<Rightarrow> b | Some v \<Rightarrow> Some v)"

definition or_default :: "'a option \<Rightarrow> 'a \<Rightarrow> 'a" where
  "or_default a d = (case a of None \<Rightarrow> d | Some v \<Rightarrow> v)"

text \<open>The row that \<open>save\<close> writes: the object \<^verbatim>\<open>normalized\<close> with the defaults of the insert.\<close>

definition normalized_session :: "string \<Rightarrow> session_input \<Rightarrow> session option \<Rightarrow> session" where
  "normalized_session uuid s existing =
     \<lparr>se_id = si_id s,
      se_label = or_default (or_else (si_label s) None) ''Terminal'',
      se_cwd = or_default (or_else (si_cwd s) None) ''.'',
      se_createdAt = si_createdAt s,
      se_closedAt = si_closedAt s,
      se_transcriptStreamId = or_default (or_else (si_transcriptStreamId s)
        (or_else (map_option se_transcriptStreamId existing) None)) uuid,
      se_transcriptEpoch = or_default (or_else_int (si_transcriptEpoch s)
        (or_else_int (map_option se_transcriptEpoch existing) None)) 1,
      se_transcriptEarliestOffset = or_default (nullish (si_transcriptEarliestOffset s)
        (map_option se_transcriptEarliestOffset existing)) 0,
      se_transcriptCaptureState = or_default (or_else (si_transcriptCaptureState s)
        (or_else (map_option se_transcriptCaptureState existing) None)) ''ACTIVE'',
      se_transcriptGapReason = nullish (si_transcriptGapReason s)
        (Option.bind existing se_transcriptGapReason)\<rparr>"

definition legacy_of :: "session \<Rightarrow> legacy" where
  "legacy_of s = \<lparr>lg_id = Some (se_id s), lg_label = Some (se_label s), lg_cwd = Some (se_cwd s),
     lg_createdAt = Some (se_createdAt s), lg_closedAt = se_closedAt s,
     lg_transcriptStreamId = Some (se_transcriptStreamId s)\<rparr>"

text \<open>
  \<open>save\<close>: the upsert, then the metadata file through a temporary file and a rename. The
  write of the file can fail after the row has been written.
\<close>

definition upsert_session :: "session \<Rightarrow> state_store \<Rightarrow> state_store" where
  "upsert_session s st = (if getSession (se_id s) st = None
     then st\<lparr>st_sessions := st_sessions st @ [s]\<rparr>
     else st\<lparr>st_sessions := update_where (\<lambda>r. se_id r = se_id s) (\<lambda>_. s) (st_sessions st)\<rparr>)"

definition save ::
  "string \<Rightarrow> bool \<Rightarrow> session_input \<Rightarrow> state_store \<Rightarrow> state_store \<times> (bridge_exc + session)" where
  "save uuid write_ok s st =
     (let st0 = ensure_dir (si_id s) st;
          row = normalized_session uuid s (getSession (si_id s) st0);
          st1 = upsert_session row st0
      in if write_ok
         then (update_dir (si_id s) (\<lambda>d. d\<lparr>sd_meta := Document (legacy_of row)\<rparr>) st1, Inr row)
         else (st1, Inl (Failure ''EIO'')))"

definition input_of :: "session \<Rightarrow> session_input" where
  "input_of s = \<lparr>si_id = se_id s, si_label = Some (se_label s), si_cwd = Some (se_cwd s),
     si_createdAt = se_createdAt s, si_closedAt = se_closedAt s,
     si_transcriptStreamId = Some (se_transcriptStreamId s),
     si_transcriptEpoch = Some (se_transcriptEpoch s),
     si_transcriptEarliestOffset = Some (se_transcriptEarliestOffset s),
     si_transcriptCaptureState = Some (se_transcriptCaptureState s),
     si_transcriptGapReason = se_transcriptGapReason s\<rparr>"

definition closeSession ::
  "string \<Rightarrow> bool \<Rightarrow> time \<Rightarrow> string \<Rightarrow> state_store \<Rightarrow> state_store \<times> (bridge_exc + session)" where
  "closeSession uuid write_ok now i st = (case getSession i st of
       None \<Rightarrow> (st, Inl (bridgeError ''session_not_found'' 404))
     | Some s \<Rightarrow> save uuid write_ok ((input_of s)\<lparr>
           si_closedAt := Some (or_default (se_closedAt s) now),
           si_transcriptCaptureState := Some (if se_transcriptCaptureState s = ''DEGRADED''
             then ''DEGRADED'' else ''STOPPED'')\<rparr>) st)"

text \<open>
  The \<^verbatim>\<open>fields\<close> of \<open>updateTranscript\<close>; the gap reason distinguishes \<^verbatim>\<open>undefined\<close> (\<^term>\<open>None\<close>)
  from \<^verbatim>\<open>null\<close> (\<^term>\<open>Some None\<close>).
\<close>

record transcript_fields =
  tx_epoch :: "int option"
  tx_earliestOffset :: "int option"
  tx_captureState :: "string option"
  tx_gapReason :: "string option option"

definition updateTranscript ::
  "string \<Rightarrow> bool \<Rightarrow> string \<Rightarrow> transcript_fields \<Rightarrow> state_store \<Rightarrow> state_store \<times> (bridge_exc + session)" where
  "updateTranscript uuid write_ok i fs st = (case getSession i st of
       None \<Rightarrow> (st, Inl (bridgeError ''session_not_found'' 404))
     | Some s \<Rightarrow> save uuid write_ok ((input_of s)\<lparr>
           si_transcriptEpoch := nullish (tx_epoch fs) (Some (se_transcriptEpoch s)),
           si_transcriptEarliestOffset := nullish (tx_earliestOffset fs) (Some (se_transcriptEarliestOffset s)),
           si_transcriptCaptureState := nullish (tx_captureState fs) (Some (se_transcriptCaptureState s)),
           si_transcriptGapReason := (case tx_gapReason fs of
               None \<Rightarrow> se_transcriptGapReason s | Some v \<Rightarrow> v)\<rparr>) st)"

text \<open>
  \<open>purge\<close> deletes the row (its operations go with it, \<^verbatim>\<open>ON DELETE CASCADE\<close>), then the
  directory. \<open>rm_ok\<close> tells whether the removal of the directory succeeds.
\<close>

definition purge :: "bool \<Rightarrow> string \<Rightarrow> state_store \<Rightarrow> state_store \<times> (bridge_exc + bool)" where
  "purge rm_ok i st = (case getSession i st of
       None \<Rightarrow> (st, Inl (bridgeError ''session_not_found'' 404))
     | Some s \<Rightarrow> if se_closedAt s = None then (st, Inl (bridgeError ''session_not_closed'' 409)) else
         (let st1 = st\<lparr>st_sessions := delete_where (\<lambda>r. se_id r = i) (st_sessions st),
                      st_operations := delete_where (\<lambda>r. op_sessionId r = i) (st_operations st)\<rparr>
          in if rm_ok then (st1\<lparr>st_dirs := delete_where (\<lambda>d. sd_name d = i) (st_dirs st1)\<rparr>, Inr True)
             else (st1, Inl (Failure ''EIO''))))"

section \<open>Operations\<close>

text \<open>The statuses that occupy a session: the condition of the partial unique index.\<close>

definition occupies :: "op_status \<Rightarrow> bool" where
  "occupies s \<longleftrightarrow> s \<in> {ACCEPTED, RUNNING, UNKNOWN}"

definition getOperation :: "string \<Rightarrow> string option \<Rightarrow> state_store \<Rightarrow> operation option" where
  "getOperation i sessionId st = (case sessionId of
       None \<Rightarrow> by_key op_id i (st_operations st)
     | Some s \<Rightarrow> find (\<lambda>r. op_id r = i \<and> op_sessionId r = s) (st_operations st))"

definition activeOperation :: "string \<Rightarrow> state_store \<Rightarrow> operation option" where
  "activeOperation sessionId st =
     find (\<lambda>r. op_sessionId r = sessionId \<and> occupies (op_status r)) (st_operations st)"

text \<open>The insert can violate the primary key, the unique key, the index or the foreign key.\<close>

definition insert_operation :: "operation \<Rightarrow> state_store \<Rightarrow> bridge_exc + state_store" where
  "insert_operation r st =
     (if by_key op_id (op_id r) (st_operations st) \<noteq> None
        \<or> list_ex (\<lambda>s. op_sessionId s = op_sessionId r \<and> op_idempotencyKey s = op_idempotencyKey r) (st_operations st)
        \<or> occupies (op_status r) \<and> activeOperation (op_sessionId r) st \<noteq> None
      then Inl (Failure ''ERR_SQLITE_ERROR'')
      else if getSession (op_sessionId r) st = None then Inl (Failure ''ERR_SQLITE_ERROR'')
      else Inr (st\<lparr>st_operations := st_operations st @ [r]\<rparr>))"

record operation_request =
  rq_id :: string
  rq_sessionId :: string
  rq_idempotencyKey :: string
  rq_requestFingerprint :: string
  rq_acceptedAt :: time
  rq_startCursor :: int

definition accepted :: "operation_request \<Rightarrow> operation" where
  "accepted q = \<lparr>op_id = rq_id q, op_sessionId = rq_sessionId q,
     op_idempotencyKey = rq_idempotencyKey q, op_requestFingerprint = rq_requestFingerprint q,
     op_status = ACCEPTED, op_acceptedAt = rq_acceptedAt q, op_startedAt = None,
     op_completedAt = None, op_exitCode = None, op_outcomeReason = None,
     op_startCursor = rq_startCursor q\<rparr>"

definition keyed_operation :: "string \<Rightarrow> string \<Rightarrow> state_store \<Rightarrow> operation option" where
  "keyed_operation sessionId key st =
     find (\<lambda>r. op_sessionId r = sessionId \<and> op_idempotencyKey r = key) (st_operations st)"

fun status_name :: "op_status \<Rightarrow> string" where
  "status_name ACCEPTED = ''ACCEPTED''"
| "status_name RUNNING = ''RUNNING''"
| "status_name SUCCEEDED = ''SUCCEEDED''"
| "status_name FAILED = ''FAILED''"
| "status_name INTERRUPTED = ''INTERRUPTED''"
| "status_name UNKNOWN = ''UNKNOWN''"

definition parse_status :: "string \<Rightarrow> op_status option" where
  "parse_status s = find (\<lambda>v. status_name v = s) [ACCEPTED, RUNNING, SUCCEEDED, FAILED, INTERRUPTED, UNKNOWN]"

text \<open>
  The body of the admission transaction; the answer pairs the operation with \<^verbatim>\<open>duplicate\<close>.
\<close>

definition admit_body ::
  "operation_request \<Rightarrow> state_store \<Rightarrow> bridge_exc + state_store \<times> (operation \<times> bool)" where
  "admit_body q st = (case keyed_operation (rq_sessionId q) (rq_idempotencyKey q) st of
       Some existing \<Rightarrow>
         if op_requestFingerprint existing \<noteq> rq_requestFingerprint q
         then Inl (bridgeError ''idempotency_conflict'' 409) else Inr (st, (existing, True))
     | None \<Rightarrow>
         (case activeOperation (rq_sessionId q) st of
            Some active \<Rightarrow> Inl (BridgeError ''session_busy'' 409 (Some (JObj
                [(''operationId'', JStr (op_id active)), (''status'', JStr (status_name (op_status active)))])))
          | None \<Rightarrow> (case insert_operation (accepted q) st of
                Inl e \<Rightarrow> Inl e | Inr st' \<Rightarrow> Inr (st', (accepted q, False)))))"

definition rethrow_or_admission_failed :: "bridge_exc \<Rightarrow> bridge_exc" where
  "rethrow_or_admission_failed e = (case e of
       BridgeError c s d \<Rightarrow> BridgeError c s d
     | Failure m \<Rightarrow> bridgeError ''operation_admission_failed'' 503)"

definition admitOperation ::
  "bool \<Rightarrow> operation_request \<Rightarrow> state_store \<Rightarrow> state_store \<times> (bridge_exc + operation \<times> bool)" where
  "admitOperation commit_ok q st =
     transaction commit_ok (Failure ''ERR_SQLITE_ERROR'') rethrow_or_admission_failed (admit_body q) st"

record operation_fields =
  of_startedAt :: "time option"
  of_completedAt :: "time option"
  of_exitCode :: "nat option"
  of_outcomeReason :: "string option"

definition set_status :: "op_status \<Rightarrow> operation_fields \<Rightarrow> operation \<Rightarrow> operation" where
  "set_status status fs r = r\<lparr>op_status := status,
     op_startedAt := nullish (of_startedAt fs) (op_startedAt r),
     op_completedAt := nullish (of_completedAt fs) (op_completedAt r),
     op_exitCode := of_exitCode fs, op_outcomeReason := of_outcomeReason fs\<rparr>"

text \<open>
  The update fails when the new status would make the operation a second one that occupies
  its session.
\<close>

definition index_violated :: "string \<Rightarrow> op_status \<Rightarrow> state_store \<Rightarrow> bool" where
  "index_violated i status st \<longleftrightarrow> occupies status \<and>
     (case by_key op_id i (st_operations st) of None \<Rightarrow> False
      | Some r \<Rightarrow> list_ex (\<lambda>s. op_id s \<noteq> i \<and> op_sessionId s = op_sessionId r \<and> occupies (op_status s))
          (st_operations st))"

definition updateOperation ::
  "string \<Rightarrow> string \<Rightarrow> operation_fields \<Rightarrow> state_store \<Rightarrow> state_store \<times> (bridge_exc + operation option)" where
  "updateOperation i status fs st = (case parse_status status of
       None \<Rightarrow> (st, Inl (bridgeError ''invalid_operation_status'' 500))
     | Some v \<Rightarrow>
         if index_violated i v st then (st, Inl (Failure ''ERR_SQLITE_ERROR''))
         else (let st' = st\<lparr>st_operations := update_where (\<lambda>r. op_id r = i) (set_status v fs) (st_operations st)\<rparr>
               in (st', Inr (getOperation i None st'))))"

definition interruptActiveOperation ::
  "time \<Rightarrow> string \<Rightarrow> string \<Rightarrow> state_store \<Rightarrow> state_store \<times> (bridge_exc + operation option)" where
  "interruptActiveOperation now sessionId reason st = (case activeOperation sessionId st of
       None \<Rightarrow> (st, Inr None)
     | Some active \<Rightarrow> updateOperation (op_id active) ''INTERRUPTED''
         \<lparr>of_startedAt = None, of_completedAt = Some now, of_exitCode = None, of_outcomeReason = Some reason\<rparr> st)"

section \<open>Completion records\<close>

text \<open>
  \<^verbatim>\<open>/^(0|[1-9]\d{0,2})\n?$/\<close>: an optional newline is dropped, the rest is a decimal number
  without a leading zero and at most three digits long.
\<close>

definition chomp :: "string \<Rightarrow> string" where
  "chomp s = (if s \<noteq> [] \<and> last s = CHR 0x0A then butlast s else s)"

definition exit_digits :: "string \<Rightarrow> bool" where
  "exit_digits s \<longleftrightarrow> all_digits s \<and> length s \<le> 3 \<and> (s = ''0'' \<or> hd s \<noteq> CHR ''0'')"

definition parse_completion :: "string \<Rightarrow> bridge_exc + nat" where
  "parse_completion raw =
     (if \<not> exit_digits (chomp raw) then Inl (bridgeError ''operation_completion_invalid'' 503)
      else if read_nat (chomp raw) > 255 then Inl (bridgeError ''operation_completion_invalid'' 503)
      else Inr (read_nat (chomp raw)))"

text \<open>
  The exit code with the time of the record; no record is \<^term>\<open>Inr None\<close>. Every other read error is passed on.
\<close>

definition readOperationCompletion ::
  "string \<Rightarrow> string \<Rightarrow> state_store \<Rightarrow> bridge_exc + (nat \<times> time) option" where
  "readOperationCompletion sessionId operationId st =
     (case Option.bind (find_dir sessionId st) (\<lambda>d. map_of (sd_exits d) operationId) of
        None \<Rightarrow> Inr None
      | Some (ExitUnreadable code) \<Rightarrow> if code = ''ENOENT'' then Inr None else Inl (Failure code)
      | Some (ExitRecord raw mtime) \<Rightarrow> (case parse_completion raw of
            Inl e \<Rightarrow> Inl e | Inr code \<Rightarrow> Inr (Some (code, mtime))))"

definition prepareOperationCompletion ::
  "bool \<Rightarrow> string \<Rightarrow> string \<Rightarrow> state_store \<Rightarrow> state_store \<times> (bridge_exc + unit)" where
  "prepareOperationCompletion fs_ok sessionId operationId st =
     (if \<not> fs_ok then (st, Inl (Failure ''EIO''))
      else (update_dir sessionId (\<lambda>d. d\<lparr>sd_exits := filter (\<lambda>(k, v). k \<noteq> operationId) (sd_exits d)\<rparr>)
              (ensure_dir sessionId st), Inr ()))"

section \<open>Start of the agent\<close>

definition completion_status :: "nat \<Rightarrow> string" where
  "completion_status code = (if code = 0 then ''SUCCEEDED'' else ''FAILED'')"

definition completion_fields :: "nat \<Rightarrow> time \<Rightarrow> operation_fields" where
  "completion_fields code at = \<lparr>of_startedAt = None, of_completedAt = Some at, of_exitCode = Some code,
     of_outcomeReason = Some (if code = 0 then ''exit_zero'' else ''exit_nonzero'')\<rparr>"

definition unknown_fields :: "time \<Rightarrow> string \<Rightarrow> operation_fields" where
  "unknown_fields now reason = \<lparr>of_startedAt = None, of_completedAt = Some now, of_exitCode = None,
     of_outcomeReason = Some reason\<rparr>"

text \<open>
  One round of the reconciliation loop, and the loop over the rows that were uncertain when
  it started. A record that cannot be read ends the loop, and with it the start.
\<close>

definition reconcile_one ::
  "time \<Rightarrow> operation \<Rightarrow> state_store \<Rightarrow> state_store \<times> (bridge_exc + operation option)" where
  "reconcile_one now r st = (case readOperationCompletion (op_sessionId r) (op_id r) st of
       Inl e \<Rightarrow> if error_code e \<noteq> ''operation_completion_invalid'' then (st, Inl e)
                else updateOperation (op_id r) ''UNKNOWN'' (unknown_fields now ''control_record_invalid'') st
     | Inr (Some (code, at)) \<Rightarrow>
         updateOperation (op_id r) (completion_status code) (completion_fields code at) st
     | Inr None \<Rightarrow> updateOperation (op_id r) ''UNKNOWN'' (unknown_fields now ''session_host_restart'') st)"

fun reconcile_all ::
  "time \<Rightarrow> operation list \<Rightarrow> state_store \<Rightarrow> state_store \<times> (bridge_exc + unit)" where
  "reconcile_all now [] st = (st, Inr ())"
| "reconcile_all now (r # rs) st = (case reconcile_one now r st of
     (st1, Inl e) \<Rightarrow> (st1, Inl e)
   | (st1, Inr _) \<Rightarrow> reconcile_all now rs st1)"

definition uncertain :: "operation \<Rightarrow> bool" where
  "uncertain r \<longleftrightarrow> op_status r \<in> {ACCEPTED, RUNNING}"

definition reconcileUncertainOperations ::
  "time \<Rightarrow> state_store \<Rightarrow> state_store \<times> (bridge_exc + unit)" where
  "reconcileUncertainOperations now st = reconcile_all now (filter uncertain (st_operations st)) st"

text \<open>
  The import of \<^verbatim>\<open>session.json\<close> files into the table, one transaction around all of them. A
  missing id or time makes the binding of the statement throw; a row that exists already is
  ignored.
\<close>

definition import_one :: "string \<Rightarrow> session_dir \<Rightarrow> state_store \<Rightarrow> bridge_exc + state_store" where
  "import_one uuid d st = (case sd_meta d of
       NoFile \<Rightarrow> Inr st
     | BadJson \<Rightarrow> Inl (Failure ''SyntaxError'')
     | Document l \<Rightarrow>
        (case (lg_id l, lg_createdAt l) of
           (Some i, Some created) \<Rightarrow>
             if getSession i st \<noteq> None then Inr st else
             Inr (st\<lparr>st_sessions := st_sessions st @ [
               \<lparr>se_id = i, se_label = take 120 (or_default (or_else (lg_label l) None) ''Terminal''),
                se_cwd = or_default (or_else (lg_cwd l) None) ''.'', se_createdAt = created,
                se_closedAt = lg_closedAt l,
                se_transcriptStreamId = or_default (or_else (lg_transcriptStreamId l) None) uuid,
                se_transcriptEpoch = 1, se_transcriptEarliestOffset = 0,
                se_transcriptCaptureState = (if lg_closedAt l \<noteq> None then ''STOPPED'' else ''ACTIVE''),
                se_transcriptGapReason = None\<rparr>]\<rparr>)
         | _ \<Rightarrow> Inl (Failure ''ERR_INVALID_ARG_TYPE'')))"

fun import_all :: "(string \<Rightarrow> string) \<Rightarrow> session_dir list \<Rightarrow> state_store \<Rightarrow> bridge_exc + state_store" where
  "import_all uuids [] st = Inr st"
| "import_all uuids (d # ds) st = (case import_one (uuids (sd_name d)) d st of
     Inl e \<Rightarrow> Inl e | Inr st1 \<Rightarrow> import_all uuids ds st1)"

definition import_failed :: "bridge_exc \<Rightarrow> bridge_exc" where
  "import_failed e = bridgeError ''legacy_state_import_failed'' 503"

definition importLegacySessions ::
  "bool \<Rightarrow> (string \<Rightarrow> string) \<Rightarrow> state_store \<Rightarrow> state_store \<times> (bridge_exc + unit)" where
  "importLegacySessions commit_ok uuids st =
     transaction commit_ok (Failure ''ERR_SQLITE_ERROR'') import_failed
       (\<lambda>s. case import_all uuids (st_dirs s) s of Inl e \<Rightarrow> Inl e | Inr s' \<Rightarrow> Inr (s', ())) st"

text \<open>The part of \<open>init\<close> after the schema: import, then reconcile.\<close>

definition start_store ::
  "bool \<Rightarrow> (string \<Rightarrow> string) \<Rightarrow> time \<Rightarrow> state_store \<Rightarrow> state_store \<times> (bridge_exc + unit)" where
  "start_store commit_ok uuids now st = (case importLegacySessions commit_ok uuids st of
       (st1, Inl e) \<Rightarrow> (st1, Inl e)
     | (st1, Inr _) \<Rightarrow> reconcileUncertainOperations now st1)"

end
