(* ===== verification/StateStore_Inv.thy ===== *)
theory StateStore_Inv
  imports StateStore
begin

text \<open>
  The invariant of the session and operation store (unique ids, one operation per session
  and idempotency key, at most one operation that occupies a session, no operation without
  its session), preserved by every method and by the environment, and the runs of the store.
\<close>

section \<open>The invariant\<close>

definition one_writer :: "operation list \<Rightarrow> bool" where
  "one_writer rs \<longleftrightarrow> (\<forall>r \<in> set rs. \<forall>s \<in> set rs. op_sessionId r = op_sessionId s \<longrightarrow>
     occupies (op_status r) \<longrightarrow> occupies (op_status s) \<longrightarrow> op_id r = op_id s)"

definition op_key :: "operation \<Rightarrow> string \<times> string" where
  "op_key r = (op_sessionId r, op_idempotencyKey r)"

definition state_inv :: "state_store \<Rightarrow> bool" where
  "state_inv st \<longleftrightarrow> distinct (map se_id (st_sessions st)) \<and> distinct (map op_id (st_operations st)) \<and>
     distinct (map op_key (st_operations st)) \<and> one_writer (st_operations st) \<and>
     (\<forall>r \<in> set (st_operations st). op_sessionId r \<in> se_id ` set (st_sessions st)) \<and>
     distinct (map sd_name (st_dirs st))"

lemma state_inv_empty: "state_inv empty_state_store"
  by (simp add: state_inv_def empty_state_store_def one_writer_def)

lemma state_invD:
  assumes "state_inv st"
  shows "distinct (map se_id (st_sessions st))" "distinct (map op_id (st_operations st))"
    "distinct (map op_key (st_operations st))" "one_writer (st_operations st)"
    "r \<in> set (st_operations st) \<Longrightarrow> op_sessionId r \<in> se_id ` set (st_sessions st)"
    "distinct (map sd_name (st_dirs st))"
  using assms by (auto simp: state_inv_def)

text \<open>Steps on one table at a time.\<close>

lemma state_inv_dirs:
  "state_inv st \<Longrightarrow> distinct (map sd_name ds) \<Longrightarrow> state_inv (st\<lparr>st_dirs := ds\<rparr>)"
  by (simp add: state_inv_def)

lemma state_inv_sessions:
  "state_inv st \<Longrightarrow> distinct (map se_id ss) \<Longrightarrow> se_id ` set (st_sessions st) \<subseteq> se_id ` set ss \<Longrightarrow>
    state_inv (st\<lparr>st_sessions := ss\<rparr>)"
  by (auto simp: state_inv_def)

lemma state_inv_ensure_dir [intro]: "state_inv st \<Longrightarrow> state_inv (ensure_dir i st)"
  unfolding ensure_dir_def find_dir_def
  by (auto intro!: state_inv_dirs simp: by_key_None_iff state_invD(6))

lemma state_inv_update_dir:
  assumes "state_inv st" "\<And>d. sd_name (f d) = sd_name d"
  shows "state_inv (update_dir i f st)"
  unfolding update_dir_def using assms
  by (intro state_inv_dirs) (simp_all add: state_invD(6))

lemma state_inv_upsert [intro]: "state_inv st \<Longrightarrow> state_inv (upsert_session s st)"
proof -
  assume inv: "state_inv st"
  show ?thesis
  proof (cases "getSession (se_id s) st")
    case None
    with inv show ?thesis
      unfolding upsert_session_def
      by (auto intro!: state_inv_sessions simp: getSession_def by_key_None_iff state_invD(1))
  next
    case (Some r)
    have "map se_id (update_where (\<lambda>r. se_id r = se_id s) (\<lambda>_. s) (st_sessions st)) = map se_id (st_sessions st)"
      by (induction "st_sessions st") (auto simp: update_where_def)
    moreover from this have "se_id ` set (update_where (\<lambda>r. se_id r = se_id s) (\<lambda>_. s) (st_sessions st))
        = se_id ` set (st_sessions st)" by (metis set_map)
    ultimately show ?thesis
      using inv Some unfolding upsert_session_def
      by (auto intro!: state_inv_sessions simp: state_invD(1))
  qed
qed

lemma state_inv_save: "state_inv st \<Longrightarrow> state_inv (fst (save uuid ok s st))"
  by (auto simp: save_def Let_def intro!: state_inv_update_dir)

lemma state_inv_close: "state_inv st \<Longrightarrow> state_inv (fst (closeSession uuid ok now i st))"
  by (auto simp: closeSession_def intro: state_inv_save split: option.split)

lemma state_inv_transcript: "state_inv st \<Longrightarrow> state_inv (fst (updateTranscript uuid ok i fs st))"
  by (auto simp: updateTranscript_def intro: state_inv_save split: option.split)

lemma state_inv_purge: "state_inv st \<Longrightarrow> state_inv (fst (purge ok i st))"
proof -
  assume inv: "state_inv st"
  let ?st1 = "st\<lparr>st_sessions := delete_where (\<lambda>r. se_id r = i) (st_sessions st),
    st_operations := delete_where (\<lambda>r. op_sessionId r = i) (st_operations st)\<rparr>"
  have "state_inv ?st1"
    using inv by (auto simp: state_inv_def one_writer_def)
  moreover from this have "state_inv (?st1\<lparr>st_dirs := delete_where (\<lambda>d. sd_name d = i) (st_dirs ?st1)\<rparr>)"
    by (rule state_inv_dirs) (simp add: state_invD(6) [OF inv])
  ultimately show ?thesis using inv by (simp add: purge_def Let_def split: option.split)
qed

lemma activeOperation_None:
  "activeOperation s st = None \<longleftrightarrow> (\<forall>r \<in> set (st_operations st). op_sessionId r = s \<longrightarrow> \<not> occupies (op_status r))"
  by (auto simp: activeOperation_def find_None_iff')

lemma activeOperation_SomeD:
  "activeOperation s st = Some r \<Longrightarrow> r \<in> set (st_operations st) \<and> op_sessionId r = s \<and> occupies (op_status r)"
  unfolding activeOperation_def using find_SomeD by fast

lemma in_set_snoc: "a \<in> set (xs @ [x]) \<longleftrightarrow> a \<in> set xs \<or> a = x"
  by auto

lemma state_inv_insert:
  assumes inv: "state_inv st" and ins: "insert_operation r st = Inr st'"
  shows "state_inv st'"
proof -
  have st': "st' = st\<lparr>st_operations := st_operations st @ [r]\<rparr>"
    and idfree: "by_key op_id (op_id r) (st_operations st) = None"
    and keyfree: "\<not> list_ex (\<lambda>s. op_sessionId s = op_sessionId r \<and> op_idempotencyKey s = op_idempotencyKey r) (st_operations st)"
    and free: "occupies (op_status r) \<Longrightarrow> activeOperation (op_sessionId r) st = None"
    and known: "getSession (op_sessionId r) st \<noteq> None"
    using ins by (simp_all add: insert_operation_def split: if_splits)
  have fresh: "op_id r \<notin> op_id ` set (st_operations st)" using idfree by (simp add: by_key_None_iff)
  moreover have "op_key r \<notin> op_key ` set (st_operations st)" using keyfree by (auto simp: list_ex_iff op_key_def)
  moreover have sess: "op_sessionId r \<in> se_id ` set (st_sessions st)"
    using known unfolding getSession_def by (metis by_key_None_iff)
  moreover have alone: "\<not> occupies (op_status s)" if "s \<in> set (st_operations st)" "op_sessionId s = op_sessionId r"
    "occupies (op_status r)" for s
    using free [OF that(3)] that(1,2) by (simp add: activeOperation_None)
  moreover have "one_writer (st_operations st @ [r])"
    unfolding one_writer_def
  proof (intro ballI impI)
    fix a b
    assume "a \<in> set (st_operations st @ [r])" "b \<in> set (st_operations st @ [r])"
      and sab: "op_sessionId a = op_sessionId b" and oa: "occupies (op_status a)" and ob: "occupies (op_status b)"
    then consider "a \<in> set (st_operations st)" "b \<in> set (st_operations st)" | "a = r" "b = r"
      | "a \<in> set (st_operations st)" "b = r" | "a = r" "b \<in> set (st_operations st)"
      by (metis in_set_snoc)
    then show "op_id a = op_id b"
    proof cases
      case 1
      with sab oa ob state_invD(4) [OF inv] show ?thesis unfolding one_writer_def by blast
    next
      case 3
      with alone [of a] sab oa ob show ?thesis by simp
    next
      case 4
      with alone [of b] sab oa ob show ?thesis by simp
    qed simp
  qed
  ultimately show ?thesis using inv by (simp add: st' state_inv_def)
qed

lemma state_inv_admit: "state_inv st \<Longrightarrow> state_inv (fst (admitOperation ok q st))"
  unfolding admitOperation_def
  by (rule transaction_invariant [where P = state_inv])
    (auto simp: admit_body_def intro: state_inv_insert split: option.splits if_splits sum.splits)

lemma set_status_simps [simp]:
  "op_id (set_status v fs r) = op_id r" "op_sessionId (set_status v fs r) = op_sessionId r"
  "op_idempotencyKey (set_status v fs r) = op_idempotencyKey r" "op_key (set_status v fs r) = op_key r"
  "op_requestFingerprint (set_status v fs r) = op_requestFingerprint r" "op_status (set_status v fs r) = v"
  by (simp_all add: set_status_def op_key_def)

lemma state_inv_set_status:
  assumes inv: "state_inv st" and ok: "\<not> index_violated i v st"
  shows "state_inv (st\<lparr>st_operations := update_where (\<lambda>r. op_id r = i) (set_status v fs) (st_operations st)\<rparr>)"
proof -
  let ?ops = "update_where (\<lambda>r. op_id r = i) (set_status v fs) (st_operations st)"
  have free: "op_id s = i" if "occupies v" "r \<in> set (st_operations st)" "op_id r = i"
    "s \<in> set (st_operations st)" "op_sessionId s = op_sessionId r" "occupies (op_status s)" for r s
  proof -
    have "by_key op_id i (st_operations st) = Some r"
      using by_key_member [OF state_invD(2) [OF inv] that(2)] that(3) by simp
    then have "\<not> list_ex (\<lambda>s. op_id s \<noteq> i \<and> op_sessionId s = op_sessionId r \<and> occupies (op_status s)) (st_operations st)"
      using ok that(1) by (simp add: index_violated_def)
    with that(4-6) show ?thesis unfolding list_ex_iff by blast
  qed
  have "one_writer ?ops"
    unfolding one_writer_def
  proof (intro ballI impI)
    fix r' s'
    assume r': "r' \<in> set ?ops" and s': "s' \<in> set ?ops" and same: "op_sessionId r' = op_sessionId s'"
      "occupies (op_status r')" "occupies (op_status s')"
    obtain r where r: "r \<in> set (st_operations st)" "r' = (if op_id r = i then set_status v fs r else r)"
      using r' by (rule in_update_whereE)
    obtain s where s: "s \<in> set (st_operations st)" "s' = (if op_id s = i then set_status v fs s else s)"
      using s' by (rule in_update_whereE)
    note rs = r s
    have ids: "op_id r' = op_id r" "op_id s' = op_id s" and sess: "op_sessionId r = op_sessionId s"
      using rs(2,4) same(1) by (simp_all split: if_splits)
    have occ: "occupies (if op_id r = i then v else op_status r)" "occupies (if op_id s = i then v else op_status s)"
      using rs(2,4) same(2,3) by (simp_all split: if_splits)
    have "op_id r = op_id s"
    proof (cases "op_id r = i")
      case True
      show ?thesis
      proof (rule ccontr)
        assume "op_id r \<noteq> op_id s"
        with True have "op_id s \<noteq> i" by simp
        with free [OF _ rs(1) True rs(3) sess [symmetric]] occ True show False by simp
      qed
    next
      case False
      show ?thesis
      proof (cases "op_id s = i")
        case True
        with free [OF _ rs(3) True rs(1) sess] occ False show ?thesis by simp
      next
        case False': False
        with False occ have "occupies (op_status r)" "occupies (op_status s)" by simp_all
        with rs(1,3) sess state_invD(4) [OF inv] show ?thesis unfolding one_writer_def by blast
      qed
    qed
    then show "op_id r' = op_id s'" by (simp only: ids)
  qed
  with inv show ?thesis by (simp add: state_inv_def ball_update_where)
qed

lemma state_inv_update: "state_inv st \<Longrightarrow> state_inv (fst (updateOperation i status fs st))"
  by (auto simp: updateOperation_def Let_def intro: state_inv_set_status split: option.split)

lemma state_inv_interrupt: "state_inv st \<Longrightarrow> state_inv (fst (interruptActiveOperation now s reason st))"
  by (auto simp: interruptActiveOperation_def intro: state_inv_update split: option.split)

lemma state_inv_prepare: "state_inv st \<Longrightarrow> state_inv (fst (prepareOperationCompletion ok s i st))"
  by (auto simp: prepareOperationCompletion_def intro!: state_inv_update_dir)

lemma state_inv_reconcile_one: "state_inv st \<Longrightarrow> state_inv (fst (reconcile_one now r st))"
  by (auto simp: reconcile_one_def intro: state_inv_update split: sum.split option.split)

lemma state_inv_reconcile_all: "state_inv st \<Longrightarrow> state_inv (fst (reconcile_all now rs st))"
proof (induction rs arbitrary: st)
  case (Cons r rs)
  then show ?case
    using state_inv_reconcile_one [OF Cons.prems, of now r]
    by (cases "reconcile_one now r st") (auto split: sum.split)
qed simp

lemma state_inv_import_one: "state_inv st \<Longrightarrow> import_one uuid d st = Inr st' \<Longrightarrow> state_inv st'"
  by (auto simp: import_one_def getSession_def by_key_None_iff state_invD(1)
      intro!: state_inv_sessions split: meta_file.splits option.splits if_splits)

lemma state_inv_import_all: "state_inv st \<Longrightarrow> import_all uuids ds st = Inr st' \<Longrightarrow> state_inv st'"
  by (induction ds arbitrary: st) (auto split: sum.splits dest: state_inv_import_one)

lemma state_inv_import: "state_inv st \<Longrightarrow> state_inv (fst (importLegacySessions ok uuids st))"
  unfolding importLegacySessions_def
  by (rule transaction_invariant [where P = state_inv])
    (auto intro: state_inv_import_all split: sum.splits)

lemma state_inv_start: "state_inv st \<Longrightarrow> state_inv (fst (start_store ok uuids now st))"
  using state_inv_import [of st ok uuids]
  by (auto simp: start_store_def reconcileUncertainOperations_def
      intro!: state_inv_reconcile_all split: prod.split sum.split)

section \<open>Runs\<close>

text \<open>
  One constructor per method; \<open>CommandExit\<close> is what the file system shows of a completion
  record from then on (the text a wrapped command leaves, or an error), which happens outside the agent, and \<open>StartStore\<close> a restart.
\<close>

datatype store_op =
  Save string bool session_input
| CloseSession string bool time string
| UpdateTranscript string bool string transcript_fields
| Purge bool string
| AdmitOperation bool operation_request
| UpdateOperation string string operation_fields
| InterruptActive time string string
| PrepareCompletion bool string string
| CommandExit string string exit_file
| StartStore bool "string \<Rightarrow> string" time

fun store_exec :: "store_op \<Rightarrow> state_store \<Rightarrow> state_store" where
  "store_exec (Save u k s) st = fst (save u k s st)"
| "store_exec (CloseSession u k n i) st = fst (closeSession u k n i st)"
| "store_exec (UpdateTranscript u k i fs) st = fst (updateTranscript u k i fs st)"
| "store_exec (Purge k i) st = fst (purge k i st)"
| "store_exec (AdmitOperation k q) st = fst (admitOperation k q st)"
| "store_exec (UpdateOperation i v fs) st = fst (updateOperation i v fs st)"
| "store_exec (InterruptActive n s r) st = fst (interruptActiveOperation n s r st)"
| "store_exec (PrepareCompletion k s i) st = fst (prepareOperationCompletion k s i st)"
| "store_exec (CommandExit s i f) st = update_dir s (\<lambda>d. d\<lparr>sd_exits := (i, f) # sd_exits d\<rparr>) st"
| "store_exec (StartStore k u n) st = fst (start_store k u n st)"

fun store_run :: "store_op list \<Rightarrow> state_store \<Rightarrow> state_store" where
  "store_run [] st = st"
| "store_run (x # xs) st = store_run xs (store_exec x st)"

lemma state_inv_exec: "state_inv st \<Longrightarrow> state_inv (store_exec x st)"
  by (cases x) (simp_all add: state_inv_save state_inv_close state_inv_transcript state_inv_purge
      state_inv_admit state_inv_update state_inv_interrupt state_inv_prepare state_inv_update_dir state_inv_start)

lemma state_inv_run: "state_inv st \<Longrightarrow> state_inv (store_run xs st)"
  by (induction xs arbitrary: st) (simp_all add: state_inv_exec)

end
