(* ===== verification/StateStore_Props.thy ===== *)
theory StateStore_Props
  imports StateStore_Inv
begin

text \<open>
  Properties of the session and operation store over arbitrary runs: the idempotency ledger
  as a locale interpreted on the store, the single writer per session, what a restart makes
  of unfinished operations, the codec of completion records, and two losses.
\<close>

section \<open>The idempotency ledger\<close>

text \<open>
  The contract between a caller that repeats a request and the ledger behind it. \<open>admit\<close>
  answers with an entry and whether it was there before; \<open>same\<close> relates an entry to its later
  versions.
\<close>

locale idempotent_ledger =
  fixes entry_at :: "'k \<Rightarrow> 's \<Rightarrow> 'e option"
    and fingerprint :: "'e \<Rightarrow> 'f"
    and same :: "'e \<Rightarrow> 'e \<Rightarrow> bool"
    and admit :: "'q \<Rightarrow> 's \<Rightarrow> 's \<times> ('x + 'e \<times> bool)"
    and key :: "'q \<Rightarrow> 'k"
    and print :: "'q \<Rightarrow> 'f"
    and able :: "'q \<Rightarrow> bool"
    and conflict :: 'x
    and step :: "'o \<Rightarrow> 's \<Rightarrow> 's"
    and forgets :: "'k \<Rightarrow> 'o \<Rightarrow> bool"
    and good :: "'s \<Rightarrow> bool"
  assumes admit_new: "admit q s = (s', Inr (e, d)) \<Longrightarrow> entry_at (key q) s' = Some e \<and> fingerprint e = print q"
    and admit_known: "entry_at (key q) s = Some e \<Longrightarrow> fst (admit q s) = s"
    and admit_same: "entry_at (key q) s = Some e \<Longrightarrow> snd (admit q s) = Inr (e', d) \<Longrightarrow> e' = e \<and> d"
    and admit_hit: "entry_at (key q) s = Some e \<Longrightarrow> fingerprint e = print q \<Longrightarrow> able q \<Longrightarrow>
        snd (admit q s) = Inr (e, True)"
    and admit_other: "entry_at (key q) s = Some e \<Longrightarrow> fingerprint e \<noteq> print q \<Longrightarrow> snd (admit q s) = Inl conflict"
    and same_refl: "same e e"
    and same_trans: "same e e' \<Longrightarrow> same e' e'' \<Longrightarrow> same e e''"
    and same_fingerprint: "same e e' \<Longrightarrow> fingerprint e' = fingerprint e"
    and good_step: "good s \<Longrightarrow> good (step x s)"
    and kept: "good s \<Longrightarrow> \<not> forgets k x \<Longrightarrow> entry_at k s = Some e \<Longrightarrow>
        \<exists>e'. entry_at k (step x s) = Some e' \<and> same e e'"
begin

fun steps :: "'o list \<Rightarrow> 's \<Rightarrow> 's" where
  "steps [] s = s"
| "steps (x # xs) s = steps xs (step x s)"

lemma kept_by_steps:
  "good s \<Longrightarrow> \<forall>x \<in> set xs. \<not> forgets k x \<Longrightarrow> entry_at k s = Some e \<Longrightarrow>
    \<exists>e'. entry_at k (steps xs s) = Some e' \<and> same e e'"
proof (induction xs arbitrary: s e)
  case Nil
  then show ?case using same_refl by auto
next
  case (Cons x xs)
  obtain e1 where e1: "entry_at k (step x s) = Some e1" "same e e1"
    using kept [of s k x e] Cons.prems by auto
  obtain e2 where "entry_at k (steps xs (step x s)) = Some e2" "same e1 e2"
    using Cons.IH [OF good_step [OF Cons.prems(1)] _ e1(1)] Cons.prems(2) by auto
  with e1 same_trans show ?case by auto
qed

text \<open>Once admitted, a key never starts anything again.\<close>

lemma never_again:
  assumes "good s'" "admit q s = (s', Inr (e, d))" "\<forall>x \<in> set xs. \<not> forgets (key q) x" "key q' = key q"
  shows "fst (admit q' (steps xs s')) = steps xs s'"
    and "snd (admit q' (steps xs s')) = Inr (e', d') \<Longrightarrow> same e e' \<and> d'"
    and "able q' \<Longrightarrow> print q' = print q \<Longrightarrow> \<exists>e'. snd (admit q' (steps xs s')) = Inr (e', True) \<and> same e e'"
    and "print q' \<noteq> print q \<Longrightarrow> snd (admit q' (steps xs s')) = Inl conflict"
proof -
  have e: "entry_at (key q) s' = Some e" "fingerprint e = print q" using admit_new assms(2) by auto
  obtain e2 where e2: "entry_at (key q') (steps xs s') = Some e2" "same e e2"
    using kept_by_steps [OF assms(1,3) e(1)] assms(4) by auto
  show "fst (admit q' (steps xs s')) = steps xs s'" using admit_known [OF e2(1)] .
  show "same e e' \<and> d'" if "snd (admit q' (steps xs s')) = Inr (e', d')"
    using admit_same [OF e2(1) that] e2(2) by simp
  show "\<exists>e'. snd (admit q' (steps xs s')) = Inr (e', True) \<and> same e e'" if "able q'" "print q' = print q"
    using admit_hit [OF e2(1) _ that(1)] same_fingerprint [OF e2(2)] e(2) that(2) e2(2) by auto
  show "snd (admit q' (steps xs s')) = Inl conflict" if "print q' \<noteq> print q"
    using admit_other [OF e2(1)] same_fingerprint [OF e2(2)] e(2) that by auto
qed

end

text \<open>The store's side of the contract.\<close>

definition same_operation :: "operation \<Rightarrow> operation \<Rightarrow> bool" where
  "same_operation r r' \<longleftrightarrow> op_id r' = op_id r \<and> op_sessionId r' = op_sessionId r \<and>
     op_idempotencyKey r' = op_idempotencyKey r \<and> op_requestFingerprint r' = op_requestFingerprint r"

definition admits :: "bool \<times> operation_request \<Rightarrow> state_store \<Rightarrow> state_store \<times> (bridge_exc + operation \<times> bool)" where
  "admits q = admitOperation (fst q) (snd q)"

definition request_key :: "bool \<times> operation_request \<Rightarrow> string \<times> string" where
  "request_key q = (rq_sessionId (snd q), rq_idempotencyKey (snd q))"

definition keyed :: "string \<times> string \<Rightarrow> state_store \<Rightarrow> operation option" where
  "keyed k st = keyed_operation (fst k) (snd k) st"

fun purges :: "string \<times> string \<Rightarrow> store_op \<Rightarrow> bool" where
  "purges k (Purge ok i) = (i = fst k)"
| "purges k _ = False"

lemma keyed_eq_by_key: "keyed k st = by_key op_key k (st_operations st)"
  by (simp add: keyed_def keyed_operation_def by_key_def op_key_def prod_eq_iff)

text \<open>How each method changes the operations table: it updates rows in place, appends, or purges.\<close>

definition keeps_ledger :: "operation list \<Rightarrow> operation list \<Rightarrow> bool" where
  "keeps_ledger = grows op_key same_operation"

lemma same_operation_rt: "reflp same_operation" "transp same_operation"
  by (auto simp: same_operation_def reflp_def transp_def)

lemma keeps_ledger_refl [simp]: "keeps_ledger rs rs"
  unfolding keeps_ledger_def by (rule grows_refl) (rule same_operation_rt)

lemma keeps_ledger_append: "keeps_ledger rs (rs @ ss)"
  unfolding keeps_ledger_def by (rule grows_append) (rule same_operation_rt)

lemma keeps_ledger_trans: "keeps_ledger rs ss \<Longrightarrow> keeps_ledger ss ts \<Longrightarrow> keeps_ledger rs ts"
  unfolding keeps_ledger_def by (rule grows_trans) (rule same_operation_rt)

lemma keeps_ledger_status: "keeps_ledger rs (update_where P (set_status v fs) rs)"
  unfolding keeps_ledger_def
  by (rule grows_update_where) (simp_all add: same_operation_rt same_operation_def)

lemma update_keeps: "keeps_ledger (st_operations st) (st_operations (fst (updateOperation i v fs st)))"
  by (auto simp: updateOperation_def Let_def keeps_ledger_status split: option.split)

lemma interrupt_keeps: "keeps_ledger (st_operations st) (st_operations (fst (interruptActiveOperation n s r st)))"
  by (auto simp: interruptActiveOperation_def update_keeps split: option.split)

lemma reconcile_one_keeps: "keeps_ledger (st_operations st) (st_operations (fst (reconcile_one n r st)))"
  by (auto simp: reconcile_one_def update_keeps split: sum.split option.split)

lemma reconcile_all_keeps: "keeps_ledger (st_operations st) (st_operations (fst (reconcile_all n rs st)))"
proof (induction rs arbitrary: st)
  case (Cons r rs)
  obtain st1 x where one: "reconcile_one n r st = (st1, x)" by (cases "reconcile_one n r st")
  have "keeps_ledger (st_operations st) (st_operations st1)" using reconcile_one_keeps [of st n r] one by simp
  with Cons.IH [of st1] one show ?case by (auto split: sum.split intro: keeps_ledger_trans)
qed simp

lemma import_one_operations: "import_one u d st = Inr st' \<Longrightarrow> st_operations st' = st_operations st"
  by (auto simp: import_one_def split: meta_file.splits option.splits if_splits)

lemma import_all_operations: "import_all u ds st = Inr st' \<Longrightarrow> st_operations st' = st_operations st"
  by (induction ds arbitrary: st) (auto dest!: import_one_operations split: sum.splits)

lemma import_operations: "st_operations (fst (importLegacySessions k u st)) = st_operations st"
  unfolding importLegacySessions_def
  by (rule transaction_invariant [where P = "\<lambda>s. st_operations s = st_operations st"])
    (auto dest: import_all_operations split: sum.splits)

lemma save_operations: "st_operations (fst (save u k s st)) = st_operations st"
  by (simp add: save_def Let_def update_dir_def upsert_session_def ensure_dir_def)

lemma close_operations: "st_operations (fst (closeSession u k n i st)) = st_operations st"
  by (simp add: closeSession_def save_operations split: option.split)

lemma transcript_operations: "st_operations (fst (updateTranscript u k i fs st)) = st_operations st"
  by (simp add: updateTranscript_def save_operations split: option.split)

lemma prepare_operations: "st_operations (fst (prepareOperationCompletion k s i st)) = st_operations st"
  by (simp add: prepareOperationCompletion_def update_dir_def ensure_dir_def)

lemma start_keeps: "keeps_ledger (st_operations st) (st_operations (fst (start_store k u n st)))"
  using import_operations [of k u st] reconcile_all_keeps
  by (auto simp: start_store_def reconcileUncertainOperations_def split: prod.split sum.split) metis

lemma insert_keeps: "insert_operation r st = Inr st' \<Longrightarrow> keeps_ledger (st_operations st) (st_operations st')"
  by (auto simp: insert_operation_def keeps_ledger_append split: if_splits)

lemma admit_keeps: "keeps_ledger (st_operations st) (st_operations (fst (admitOperation k q st)))"
  unfolding admitOperation_def
  by (rule transaction_invariant [where P = "\<lambda>s. keeps_ledger (st_operations st) (st_operations s)"])
    (auto simp: admit_body_def dest: insert_keeps split: option.splits if_splits sum.splits)

lemma purge_entry:
  assumes "i \<noteq> fst k"
  shows "keyed k (fst (purge ok i st)) = keyed k st"
proof -
  have "by_key op_key k (delete_where (\<lambda>r. op_sessionId r = i) rs) = by_key op_key k rs" for rs
    using assms by (induction rs) (auto simp: delete_where_def op_key_def)
  then show ?thesis by (simp add: keyed_eq_by_key purge_def Let_def split: option.split)
qed

lemma entry_kept:
  assumes "\<not> purges k x" "keyed k st = Some e"
  shows "\<exists>e'. keyed k (store_exec x st) = Some e' \<and> same_operation e e'"
proof (cases "\<exists>ok i. x = Purge ok i")
  case True
  then obtain ok i where x: "x = Purge ok i" by blast
  with assms(1) have "keyed k (store_exec x st) = keyed k st" by (simp add: purge_entry)
  moreover have "same_operation e e" by (simp add: same_operation_def)
  ultimately show ?thesis using assms(2) by auto
next
  case False
  then have "keeps_ledger (st_operations st) (st_operations (store_exec x st))"
    by (cases x) (simp_all add: save_operations close_operations transcript_operations prepare_operations
        start_keeps admit_keeps update_keeps interrupt_keeps update_dir_def)
  then show ?thesis using assms(2) unfolding keeps_ledger_def keyed_eq_by_key by (rule growsD)
qed

lemma admit_cases:
  assumes "admitOperation k q st = (st', Inr (e, d))"
  shows "d \<and> st' = st \<and> keyed_operation (rq_sessionId q) (rq_idempotencyKey q) st = Some e
      \<and> op_requestFingerprint e = rq_requestFingerprint q
    \<or> \<not> d \<and> e = accepted q \<and> keyed_operation (rq_sessionId q) (rq_idempotencyKey q) st = None
      \<and> activeOperation (rq_sessionId q) st = None
      \<and> st' = st\<lparr>st_operations := st_operations st @ [accepted q]\<rparr>"
  using assms unfolding admitOperation_def transaction_eq_Inr
  by (auto simp: admit_body_def insert_operation_def split: option.splits if_splits sum.splits)

lemma admit_records:
  assumes "admitOperation k q st = (st', Inr (e, d))"
  shows "keyed_operation (rq_sessionId q) (rq_idempotencyKey q) st' = Some e \<and> op_requestFingerprint e = rq_requestFingerprint q"
proof -
  have "find P (rs @ [accepted q]) = (case find P rs of None \<Rightarrow> if P (accepted q) then Some (accepted q) else None | Some r \<Rightarrow> Some r)"
    for P and rs :: "operation list"
    by (induction rs) auto
  with admit_cases [OF assms] show ?thesis
    by (auto simp: keyed_operation_def) (simp_all add: accepted_def)
qed

interpretation ledger: idempotent_ledger keyed op_requestFingerprint same_operation admits request_key
    "\<lambda>q. rq_requestFingerprint (snd q)" fst "bridgeError ''idempotency_conflict'' 409" store_exec purges state_inv
proof unfold_locales
  fix q st st' e d
  assume "admits q st = (st', Inr (e, d))"
  then show "keyed (request_key q) st' = Some e \<and> op_requestFingerprint e = rq_requestFingerprint (snd q)"
    using admit_records unfolding admits_def keyed_def request_key_def by simp
next
  fix q st e
  assume "keyed (request_key q) st = Some e"
  then have e: "keyed_operation (rq_sessionId (snd q)) (rq_idempotencyKey (snd q)) st = Some e"
    by (simp add: keyed_def request_key_def)
  then show "fst (admits q st) = st"
    by (simp add: admits_def admitOperation_def transaction_def admit_body_def)
  show "snd (admits q st) = Inr (e', d) \<Longrightarrow> e' = e \<and> d" for e' d
    using e by (auto simp: admits_def admitOperation_def transaction_def admit_body_def split: if_splits)
  show "op_requestFingerprint e = rq_requestFingerprint (snd q) \<Longrightarrow> fst q \<Longrightarrow> snd (admits q st) = Inr (e, True)"
    using e by (simp add: admits_def admitOperation_def transaction_def admit_body_def)
  show "op_requestFingerprint e \<noteq> rq_requestFingerprint (snd q) \<Longrightarrow>
    snd (admits q st) = Inl (bridgeError ''idempotency_conflict'' 409)"
    using e by (simp add: admits_def admitOperation_def transaction_def admit_body_def
        rethrow_or_admission_failed_def bridgeError_def)
qed (use state_inv_exec entry_kept in \<open>auto simp: same_operation_def\<close>)

lemma ledger_steps: "ledger.steps xs st = store_run xs st"
  by (induction xs arbitrary: st) simp_all

text \<open>A history used by the witnesses: a session, a command in it, its record.\<close>

definition ex_session :: session_input where
  "ex_session = \<lparr>si_id = ''s1'', si_label = None, si_cwd = Some ''/srv'', si_createdAt = 5, si_closedAt = None,
     si_transcriptStreamId = None, si_transcriptEpoch = None, si_transcriptEarliestOffset = None,
     si_transcriptCaptureState = None, si_transcriptGapReason = None\<rparr>"

definition ex_request :: operation_request where
  "ex_request = \<lparr>rq_id = ''op1'', rq_sessionId = ''s1'', rq_idempotencyKey = ''k1'',
     rq_requestFingerprint = ''f1'', rq_acceptedAt = 10, rq_startCursor = 0\<rparr>"

definition ex_open :: "store_op list" where
  "ex_open = [Save ''u1'' True ex_session]"

definition ex_started :: operation_fields where
  "ex_started = \<lparr>of_startedAt = Some 11, of_completedAt = None, of_exitCode = None, of_outcomeReason = None\<rparr>"

definition ex_busy :: "store_op list" where
  "ex_busy = ex_open @ [AdmitOperation True ex_request, UpdateOperation ''op1'' ''RUNNING'' ex_started]"

lemmas store_run_reachable = state_inv_run [OF state_inv_empty]

lemma two_members: "\<not> length xs \<le> 1 \<Longrightarrow> \<exists>a b rest. xs = a # b # rest"
  by (cases xs; cases "tl xs") auto

lemma single_occupier:
  assumes "state_inv st"
  shows "length (filter (\<lambda>r. op_sessionId r = i \<and> occupies (op_status r)) (st_operations st)) \<le> 1"
proof (rule ccontr)
  let ?fs = "filter (\<lambda>r. op_sessionId r = i \<and> occupies (op_status r)) (st_operations st)"
  assume "\<not> length ?fs \<le> 1"
  then obtain a b rest where fs: "?fs = a # b # rest" using two_members by blast
  have "a \<in> set ?fs" "b \<in> set ?fs" unfolding fs by simp_all
  then have "op_id a = op_id b" using state_invD(4) [OF assms] unfolding one_writer_def by simp
  moreover have "distinct (map op_id ?fs)" using state_invD(2) [OF assms] by (rule distinct_map_filter)
  ultimately show False unfolding fs by simp
qed

section \<open>Properties\<close>

text \<open>
  C14. In every state the store can reach, session ids, operation ids and the pairs of
  session and idempotency key are unique, every operation belongs to a recorded session, and
  no session has two operations that occupy it (ACCEPTED, RUNNING or UNKNOWN).
\<close>

theorem state_store_reachable:
  "let st = store_run xs empty_state_store in
     distinct (map se_id (st_sessions st)) \<and> distinct (map op_id (st_operations st)) \<and>
     distinct (map (\<lambda>r. (op_sessionId r, op_idempotencyKey r)) (st_operations st)) \<and>
     list_all (\<lambda>r. list_ex (\<lambda>s. se_id s = op_sessionId r) (st_sessions st)) (st_operations st) \<and>
     list_all (\<lambda>i. length (filter (\<lambda>r. op_sessionId r = i \<and> occupies (op_status r)) (st_operations st)) \<le> 1)
       (map se_id (st_sessions st))"
proof -
  let ?st = "store_run xs empty_state_store"
  note inv = store_run_reachable [of xs]
  have "length (filter (\<lambda>r. op_sessionId r = i \<and> occupies (op_status r)) (st_operations ?st)) \<le> 1" for i
    by (rule single_occupier [OF inv])
  moreover have "op_key = (\<lambda>r. (op_sessionId r, op_idempotencyKey r))" by (simp add: op_key_def fun_eq_iff)
  moreover have "list_all (\<lambda>r. list_ex (\<lambda>s. se_id s = op_sessionId r) (st_sessions ?st)) (st_operations ?st)"
    unfolding list_all_iff list_ex_iff
  proof
    fix r assume "r \<in> set (st_operations ?st)"
    then have "op_sessionId r \<in> se_id ` set (st_sessions ?st)" by (rule state_invD(5) [OF inv])
    then show "\<exists>s \<in> set (st_sessions ?st). se_id s = op_sessionId r" by (auto simp: eq_commute)
  qed
  ultimately show ?thesis
    using state_invD(1,2,3) [OF inv] unfolding Let_def list_all_iff by simp
qed

text \<open>
  C15. Once a command has been admitted under an idempotency key, no later request with
  that key starts anything in any run that does not purge the session: the tables stay as
  they are, the same command is answered with the recorded operation as a duplicate, and a
  different one with \<^verbatim>\<open>idempotency_conflict\<close>.
\<close>

theorem command_starts_once:
  assumes "admitOperation k q (store_run ys empty_state_store) = (st', Inr (r, d))"
    and "list_all (\<lambda>x. \<not> purges (rq_sessionId q, rq_idempotencyKey q) x) xs"
    and "rq_sessionId q' = rq_sessionId q" "rq_idempotencyKey q' = rq_idempotencyKey q"
  shows "let st = store_run xs st'; (st2, answer) = admitOperation k' q' st in
    st2 = st \<and>
    (if rq_requestFingerprint q' \<noteq> rq_requestFingerprint q
     then answer = Inl (bridgeError ''idempotency_conflict'' 409)
     else if k' then \<exists>r'. answer = Inr (r', True) \<and> same_operation r r'
     else answer = Inl (bridgeError ''operation_admission_failed'' 503))"
proof -
  have adm: "admits (k, q) (store_run ys empty_state_store) = (st', Inr (r, d))" using assms(1) by (simp add: admits_def)
  have good: "state_inv st'"
    using state_inv_admit [OF store_run_reachable, of k q ys] assms(1) by simp
  have keep: "\<forall>x \<in> set xs. \<not> purges (request_key (k, q)) x" using assms(2) by (simp add: request_key_def list_all_iff)
  have key: "request_key (k', q') = request_key (k, q)" using assms(3,4) by (simp add: request_key_def)
  note facts = ledger.never_again [OF good adm keep key, unfolded ledger_steps]
  have unchanged: "fst (admitOperation k' q' (store_run xs st')) = store_run xs st'"
    using facts(1) by (simp add: admits_def)
  have hit: "\<exists>r'. snd (admitOperation k' q' (store_run xs st')) = Inr (r', True) \<and> same_operation r r'"
    if "k'" "rq_requestFingerprint q' = rq_requestFingerprint q"
    using facts(3) that by (simp add: admits_def)
  have other: "snd (admitOperation k' q' (store_run xs st')) = Inl (bridgeError ''idempotency_conflict'' 409)"
    if "rq_requestFingerprint q' \<noteq> rq_requestFingerprint q"
    using facts(4) that by (simp add: admits_def)
  have no_engine: "snd (admitOperation False q' st) = Inl (bridgeError ''operation_admission_failed'' 503)"
    if "keyed_operation (rq_sessionId q') (rq_idempotencyKey q') st = Some e" "op_requestFingerprint e = rq_requestFingerprint q'" for st e
    using that by (simp add: admitOperation_def transaction_def admit_body_def rethrow_or_admission_failed_def)
  obtain e where e: "keyed (rq_sessionId q, rq_idempotencyKey q) (store_run xs st') = Some e" "same_operation r e"
    using ledger.kept_by_steps [OF good keep, of r] admit_records [OF assms(1)]
    unfolding ledger_steps request_key_def keyed_def by auto
  have rp: "op_requestFingerprint e = rq_requestFingerprint q"
    using e(2) admit_records [OF assms(1)] by (simp add: same_operation_def)
  have down: "snd (admitOperation k' q' (store_run xs st')) = Inl (bridgeError ''operation_admission_failed'' 503)"
    if "\<not> k'" "rq_requestFingerprint q' = rq_requestFingerprint q"
    using no_engine [of "store_run xs st'" e] e(1) rp assms(3,4) that by (simp add: keyed_def)
  show ?thesis
    unfolding Let_def case_prod_beta using unchanged hit other down by presburger
qed

theorem command_starts_once_witness:
  "\<exists>st' r. admitOperation True ex_request (store_run ex_open empty_state_store) = (st', Inr (r, False)) \<and>
    admitOperation True (ex_request\<lparr>rq_id := ''op2''\<rparr>)
      (store_run [UpdateOperation ''op1'' ''RUNNING'' ex_started, CommandExit ''s1'' ''op1'' (ExitRecord ''0'' 20),
        StartStore True (\<lambda>d. d) 30] st') \<noteq> (st', Inr (r, False))"
proof -
  let ?xs = "[UpdateOperation ''op1'' ''RUNNING'' ex_started, CommandExit ''s1'' ''op1'' (ExitRecord ''0'' 20), StartStore True (\<lambda>d. d) 30]"
  obtain st' r where a: "admitOperation True ex_request (store_run ex_open empty_state_store) = (st', Inr (r, False))"
    by (rule that [of "fst (admitOperation True ex_request (store_run ex_open empty_state_store))" "accepted ex_request"]) code_simp
  have "let st = store_run ?xs st'; (st2, answer) = admitOperation True (ex_request\<lparr>rq_id := ''op2''\<rparr>) st in
    st2 = st \<and> (\<exists>r'. answer = Inr (r', True) \<and> same_operation r r')"
    using command_starts_once [OF a, of ?xs "ex_request\<lparr>rq_id := ''op2''\<rparr>" True] by (simp add: Let_def)
  then show ?thesis using a by (auto simp: Let_def split: prod.splits)
qed

end
