(* ===== verification/StateStore_Recovery.thy ===== *)
theory StateStore_Recovery
  imports StateStore_Props
begin

text \<open>
  What a restart makes of unfinished operations, the single writer seen by a client, the
  codec of completion records, and the two losses of the store: a purge whose directory
  survives, and a gap reason that cannot be cleared.
\<close>

section \<open>Completion records\<close>

lemma exit_digits_show: "n < 1000 \<Longrightarrow> exit_digits (show_nat n)"
  by (cases "n = 0") (simp_all add: exit_digits_def show_nat_length hd_show_nat digit_char_zero, simp add: show_nat_digit digit_char_def)

text \<open>
  C16. Completion records round-trip: the text \<^verbatim>\<open>printf '%s\n' "$?"\<close> leaves for an exit
  status from 0 to 255, with or without the newline, is read back as that status, and a
  record that is read as a status is the decimal text of that status and nothing else. Every
  other record is reported as invalid.
\<close>

theorem completion_record_roundtrip:
  "(parse_completion raw = Inr n \<longleftrightarrow> n \<le> 255 \<and> (raw = show_nat n \<or> raw = show_nat n @ [CHR 0x0A])) \<and>
    ((\<nexists>m. parse_completion raw = Inr m) \<longleftrightarrow> parse_completion raw = Inl (bridgeError ''operation_completion_invalid'' 503))"
proof -
  have reads: "parse_completion (show_nat n) = Inr n" "parse_completion (show_nat n @ [CHR 0x0A]) = Inr n" if "n \<le> 255"
    using that by (simp_all add: parse_completion_def chomp_def show_nat_last exit_digits_show)
  have canon: "n \<le> 255 \<and> (raw = show_nat n \<or> raw = show_nat n @ [CHR 0x0A])" if p: "parse_completion raw = Inr n"
  proof -
    have d: "exit_digits (chomp raw)" "n = read_nat (chomp raw)" "n \<le> 255"
      using p by (auto simp: parse_completion_def split: if_splits)
    then have "show_nat n = chomp raw" unfolding exit_digits_def by (simp add: show_read_nat)
    moreover have "raw = chomp raw \<or> raw = chomp raw @ [CHR 0x0A]"
      unfolding chomp_def by (metis append_butlast_last_id)
    ultimately show ?thesis using d(3) by metis
  qed
  have "(\<nexists>m. parse_completion raw = Inr m) \<longleftrightarrow> parse_completion raw = Inl (bridgeError ''operation_completion_invalid'' 503)"
    by (auto simp: parse_completion_def)
  with reads canon show ?thesis by blast
qed

section \<open>Settling the unfinished operations\<close>

text \<open>What the record of an operation says about it.\<close>

definition settled :: "time \<Rightarrow> (bridge_exc + (nat \<times> time) option) \<Rightarrow> operation \<Rightarrow> operation" where
  "settled now rec r = (case rec of
       Inr (Some (code, at)) \<Rightarrow> r\<lparr>op_status := (if code = 0 then SUCCEEDED else FAILED),
         op_completedAt := Some at, op_exitCode := Some code,
         op_outcomeReason := Some (if code = 0 then ''exit_zero'' else ''exit_nonzero'')\<rparr>
     | Inr None \<Rightarrow> r\<lparr>op_status := UNKNOWN, op_completedAt := Some now, op_exitCode := None,
         op_outcomeReason := Some ''session_host_restart''\<rparr>
     | Inl e \<Rightarrow> r\<lparr>op_status := UNKNOWN, op_completedAt := Some now, op_exitCode := None,
         op_outcomeReason := Some ''control_record_invalid''\<rparr>)"

lemma parse_status_name [simp]: "parse_status (status_name v) = Some v"
  by (cases v) (simp_all add: parse_status_def)

lemma parse_status_names [simp]:
  "parse_status ''UNKNOWN'' = Some UNKNOWN" "parse_status ''SUCCEEDED'' = Some SUCCEEDED"
  "parse_status ''FAILED'' = Some FAILED" "parse_status ''INTERRUPTED'' = Some INTERRUPTED"
  "parse_status ''RUNNING'' = Some RUNNING"
  by (simp_all add: parse_status_def)

text \<open>The error with which the record of an operation cannot be read at all. (No error of the file system has the second code.)\<close>

definition read_error :: "state_store \<Rightarrow> operation \<Rightarrow> bridge_exc option" where
  "read_error st r = (case Option.bind (find_dir (op_sessionId r) st) (\<lambda>d. map_of (sd_exits d) (op_id r)) of
       Some (ExitUnreadable code) \<Rightarrow> if code \<in> {''ENOENT'', ''operation_completion_invalid''} then None else Some (Failure code)
     | _ \<Rightarrow> None)"

lemma read_error_alt:
  "read_error st r = (case readOperationCompletion (op_sessionId r) (op_id r) st of
       Inl e \<Rightarrow> if error_code e = ''operation_completion_invalid'' then None else Some e
     | Inr _ \<Rightarrow> None)"
  by (auto simp: read_error_def readOperationCompletion_def parse_completion_def bridgeError_def split: option.split exit_file.split)

lemma record_error:
  "read_error st r = None \<Longrightarrow> readOperationCompletion (op_sessionId r) (op_id r) st = Inl e \<Longrightarrow> error_code e = ''operation_completion_invalid''"
  by (simp add: read_error_alt split: if_splits)

lemma reconcile_one_stops: "read_error st r = Some e \<Longrightarrow> reconcile_one now r st = (st, Inl e)"
  by (auto simp: read_error_alt reconcile_one_def split: sum.splits if_splits)

lemma index_ok_of_uncertain:
  assumes inv: "state_inv st" and r: "r \<in> set (st_operations st)" "occupies (op_status r)"
  shows "\<not> index_violated (op_id r) v st"
proof -
  have "by_key op_id (op_id r) (st_operations st) = Some r"
    using by_key_member [OF state_invD(2) [OF inv] r(1)] .
  moreover have "\<not> list_ex (\<lambda>s. op_id s \<noteq> op_id r \<and> op_sessionId s = op_sessionId r \<and> occupies (op_status s)) (st_operations st)"
    using state_invD(4) [OF inv] r unfolding one_writer_def list_ex_iff by metis
  ultimately show ?thesis by (simp add: index_violated_def)
qed

lemma uncertain_occupies: "uncertain r \<Longrightarrow> occupies (op_status r)"
  by (auto simp: uncertain_def occupies_def)

text \<open>One round writes the settled row of its operation and touches no other.\<close>

lemma reconcile_one_eq:
  assumes inv: "state_inv st" and r: "r \<in> set (st_operations st)" "uncertain r" and readable: "read_error st r = None"
  shows "\<exists>a. reconcile_one now r st = (st\<lparr>st_operations := update_where (\<lambda>s. op_id s = op_id r)
      (settled now (readOperationCompletion (op_sessionId r) (op_id r) st)) (st_operations st)\<rparr>, Inr a)"
proof -
  let ?c = "readOperationCompletion (op_sessionId r) (op_id r) st"
  have upd: "\<exists>a. updateOperation (op_id r) (status_name v) fs st = (st\<lparr>st_operations :=
      update_where (\<lambda>s. op_id s = op_id r) (set_status v fs) (st_operations st)\<rparr>, Inr a)" for v fs
    using index_ok_of_uncertain [OF inv r(1) uncertain_occupies [OF r(2)]]
    by (simp add: updateOperation_def Let_def)
  consider (bad) e where "?c = Inl e" | (none) "?c = Inr None" | (code) code at where "?c = Inr (Some (code, at))"
    by (metis option.exhaust prod.exhaust sum.exhaust)
  then show ?thesis
  proof cases
    case bad
    have s: "settled now ?c = set_status UNKNOWN (unknown_fields now ''control_record_invalid'')"
      by (simp add: bad settled_def set_status_def unknown_fields_def nullish_def fun_eq_iff)
    have one: "reconcile_one now r st = updateOperation (op_id r) ''UNKNOWN'' (unknown_fields now ''control_record_invalid'') st"
      by (simp add: reconcile_one_def bad record_error [OF readable bad])
    show ?thesis unfolding one s using upd [of UNKNOWN] by simp
  next
    case none
    have s: "settled now ?c = set_status UNKNOWN (unknown_fields now ''session_host_restart'')"
      by (simp add: none settled_def set_status_def unknown_fields_def nullish_def fun_eq_iff)
    have one: "reconcile_one now r st = updateOperation (op_id r) ''UNKNOWN'' (unknown_fields now ''session_host_restart'') st"
      by (simp add: reconcile_one_def none)
    show ?thesis unfolding one s using upd [of UNKNOWN] by simp
  next
    case code
    let ?v = "if code = 0 then SUCCEEDED else FAILED"
    have s: "settled now ?c = set_status ?v (completion_fields code at)"
      by (simp add: code settled_def set_status_def completion_fields_def nullish_def fun_eq_iff)
    have one: "reconcile_one now r st = updateOperation (op_id r) (status_name ?v) (completion_fields code at) st"
      by (simp add: reconcile_one_def code completion_status_def)
    show ?thesis unfolding one s by (rule upd)
  qed
qed

definition settle :: "time \<Rightarrow> state_store \<Rightarrow> operation \<Rightarrow> operation" where
  "settle now st r = (if uncertain r
     then settled now (readOperationCompletion (op_sessionId r) (op_id r) st) r else r)"

lemma settled_simps [simp]:
  "op_id (settled now c r) = op_id r" "op_sessionId (settled now c r) = op_sessionId r"
  by (simp_all add: settled_def split: sum.split option.split)

lemma settled_not_uncertain: "\<not> uncertain (settled now c r)"
  by (auto simp: settled_def uncertain_def split: sum.split option.split)

lemma settle_not_uncertain: "\<not> uncertain (settle now st r)"
  by (simp add: settle_def settled_not_uncertain)

lemma settle_simps [simp]: "op_id (settle now st r) = op_id r"
  by (simp add: settle_def)

text \<open>The operations a start gets to, in the order of the rows, and how it ends.\<close>

definition reached :: "state_store \<Rightarrow> operation list \<Rightarrow> operation list" where
  "reached st rs = takeWhile (\<lambda>r. read_error st r = None) rs"

definition reconcile_end :: "state_store \<Rightarrow> operation list \<Rightarrow> bridge_exc + unit" where
  "reconcile_end st rs = (case dropWhile (\<lambda>r. read_error st r = None) rs of [] \<Rightarrow> Inr () | r # _ \<Rightarrow> Inl (the (read_error st r)))"

lemma reached_cong:
  assumes "read_error st = read_error st'"
  shows "reached st rs = reached st' rs" "reconcile_end st rs = reconcile_end st' rs"
  unfolding reached_def reconcile_end_def assms by (rule refl)+

lemma reconcile_all_eq:
  assumes "state_inv st" "\<forall>r \<in> set rs. uncertain r \<and> r \<in> set (st_operations st)" "distinct (map op_id rs)"
  shows "reconcile_all now rs st = (st\<lparr>st_operations :=
    map (\<lambda>s. if op_id s \<in> op_id ` set (reached st rs) then settle now st s else s) (st_operations st)\<rparr>, reconcile_end st rs)"
  using assms
proof (induction rs arbitrary: st)
  case (Cons r rs)
  show ?case
  proof (cases "read_error st r")
    case (Some e)
    then show ?thesis by (simp add: reconcile_one_stops reached_def reconcile_end_def)
  next
    case None
    let ?c = "readOperationCompletion (op_sessionId r) (op_id r) st"
    let ?ops = "update_where (\<lambda>s. op_id s = op_id r) (settled now ?c) (st_operations st)"
    let ?st1 = "st\<lparr>st_operations := ?ops\<rparr>"
    obtain a where one: "reconcile_one now r st = (?st1, Inr a)"
      using reconcile_one_eq [OF Cons.prems(1) _ _ None] Cons.prems(2) by (meson list.set_intros(1))
    have inv1: "state_inv ?st1" using state_inv_reconcile_one [OF Cons.prems(1), of now r] by (simp add: one)
    have still: "uncertain t \<and> t \<in> set ?ops" if "t \<in> set rs" for t
    proof -
      have "op_id t \<noteq> op_id r" using Cons.prems(3) that by (auto simp: image_iff)
      moreover have "uncertain t" "t \<in> set (st_operations st)" using Cons.prems(2) that by auto
      ultimately show ?thesis unfolding set_update_where by (auto intro!: rev_image_eqI [of t])
    qed
    have same: "settle now ?st1 = settle now st" "read_error ?st1 = read_error st"
      by (simp_all add: settle_def read_error_def fun_eq_iff readOperationCompletion_def find_dir_def)
    have reach: "reached ?st1 rs = reached st rs" "reached st (r # rs) = r # reached st rs"
      "reconcile_end ?st1 rs = reconcile_end st rs" "reconcile_end st (r # rs) = reconcile_end st rs"
      using None reached_cong [OF same(2)] by (simp_all add: reached_def reconcile_end_def)
    have id: "map (\<lambda>s. if op_id s \<in> op_id ` set (reached st rs) then settle now st s else s) ?ops =
        map (\<lambda>s. if op_id s \<in> op_id ` set (r # reached st rs) then settle now st s else s) (st_operations st)"
      unfolding update_where_def map_map comp_def
    proof (rule map_cong [OF refl])
      fix s
      assume s: "s \<in> set (st_operations st)"
      show "(if op_id (if op_id s = op_id r then settled now ?c s else s) \<in> op_id ` set (reached st rs)
          then settle now st (if op_id s = op_id r then settled now ?c s else s)
          else if op_id s = op_id r then settled now ?c s else s) =
        (if op_id s \<in> op_id ` set (r # reached st rs) then settle now st s else s)"
      proof (cases "op_id s = op_id r")
        case True
        have r: "r \<in> set (st_operations st)" "uncertain r" using Cons.prems(2) by auto
        have sr: "s = r" using key_inj [OF state_invD(2) [OF Cons.prems(1)] s r(1) True] .
        have "set (reached st rs) \<subseteq> set rs" by (auto simp: reached_def dest: set_takeWhileD)
        then have "op_id r \<notin> op_id ` set (reached st rs)" using Cons.prems(3) by auto
        with r(2) show ?thesis unfolding sr by (simp add: settle_def)
      next
        case False
        then show ?thesis by simp
      qed
    qed
    have rest: "\<forall>t \<in> set rs. uncertain t \<and> t \<in> set (st_operations ?st1)" using still by simp
    have dist: "distinct (map op_id rs)" using Cons.prems(3) by simp
    have "reconcile_all now rs ?st1 = (?st1\<lparr>st_operations :=
        map (\<lambda>s. if op_id s \<in> op_id ` set (reached ?st1 rs) then settle now ?st1 s else s) (st_operations ?st1)\<rparr>, reconcile_end ?st1 rs)"
      by (rule Cons.IH [OF inv1 rest dist])
    then have "reconcile_all now rs ?st1 = (st\<lparr>st_operations :=
        map (\<lambda>s. if op_id s \<in> op_id ` set (reached st rs) then settle now st s else s) ?ops\<rparr>, reconcile_end st rs)"
      unfolding same reach by simp
    then show ?thesis unfolding id reach by (simp add: one)
  qed
qed (simp add: reached_def reconcile_end_def)

definition unfinished :: "state_store \<Rightarrow> operation list" where
  "unfinished st = filter uncertain (st_operations st)"

lemma reconcile_eq:
  assumes "state_inv st"
  shows "reconcileUncertainOperations now st = (st\<lparr>st_operations :=
    map (\<lambda>r. if r \<in> set (reached st (unfinished st)) then settle now st r else r) (st_operations st)\<rparr>, reconcile_end st (unfinished st))"
proof -
  let ?rs = "unfinished st"
  have "reconcile_all now ?rs st = (st\<lparr>st_operations :=
      map (\<lambda>s. if op_id s \<in> op_id ` set (reached st ?rs) then settle now st s else s) (st_operations st)\<rparr>, reconcile_end st ?rs)"
    by (rule reconcile_all_eq [OF assms]) (simp_all add: unfinished_def distinct_map_filter state_invD(2) [OF assms])
  moreover have "map (\<lambda>s. if op_id s \<in> op_id ` set (reached st ?rs) then settle now st s else s) (st_operations st) =
      map (\<lambda>r. if r \<in> set (reached st ?rs) then settle now st r else r) (st_operations st)"
  proof (rule map_cong [OF refl])
    fix s assume s: "s \<in> set (st_operations st)"
    have "t \<in> set (st_operations st)" if "t \<in> set (reached st ?rs)" for t
      using that by (auto simp: reached_def unfinished_def dest: set_takeWhileD)
    then have "op_id s \<in> op_id ` set (reached st ?rs) \<longleftrightarrow> s \<in> set (reached st ?rs)"
      using key_inj [OF state_invD(2) [OF assms] s] by (auto simp: image_iff)
    then show "(if op_id s \<in> op_id ` set (reached st ?rs) then settle now st s else s) =
        (if s \<in> set (reached st ?rs) then settle now st s else s)" by simp
  qed
  ultimately show ?thesis unfolding reconcileUncertainOperations_def unfinished_def by simp
qed

lemma reconcile_end_ok: "reconcile_end st rs = Inr () \<longleftrightarrow> (\<forall>r \<in> set rs. read_error st r = None)"
  by (induction rs) (auto simp: reconcile_end_def)

lemma reconcile_end_error: "reconcile_end st rs = Inl e \<Longrightarrow> \<exists>r \<in> set rs. read_error st r = Some e"
  by (induction rs) (auto simp: reconcile_end_def split: if_splits)

lemma import_dirs: "st_dirs (fst (importLegacySessions k u st)) = st_dirs st"
proof -
  have one: "st_dirs s' = st_dirs s" if "import_one x d s = Inr s'" for x d s s'
    using that by (auto simp: import_one_def split: meta_file.splits option.splits if_splits)
  have all: "st_dirs s' = st_dirs s" if "import_all u ds s = Inr s'" for ds s s'
    using that by (induction ds arbitrary: s) (auto dest!: one split: sum.splits)
  show ?thesis
    unfolding importLegacySessions_def
    by (rule transaction_invariant [where P = "\<lambda>s. st_dirs s = st_dirs st"]) (auto dest: all split: sum.splits)
qed

text \<open>
  C17. A start of the agent that can import its session files goes through the unfinished operations in the order
  of their rows, up to the first whose completion record cannot be read (any error but a missing file). Each one
  before it takes the outcome of its record (SUCCEEDED for exit 0, FAILED otherwise, with the time of the record),
  or becomes UNKNOWN when there is no record or an invalid one; no other operation changes, and none is added or
  lost. The start completes exactly when every record can be read, and then no operation is left ACCEPTED or
  RUNNING; otherwise it is aborted with the error of that first record, whose operation keeps its row.
\<close>

theorem restart_settles_operations:
  assumes "importLegacySessions k u (store_run xs empty_state_store) = (st1, Inr ())"
  shows "let st = store_run xs empty_state_store; (st2, answer) = start_store k u now st in
    st_operations st2 = map (\<lambda>r. if r \<in> set (reached st (unfinished st)) then settle now st r else r) (st_operations st) \<and>
    (answer = Inr () \<longleftrightarrow> (\<forall>r \<in> set (unfinished st). read_error st r = None)) \<and>
    (\<forall>e. answer = Inl e \<longrightarrow> (\<exists>r \<in> set (unfinished st). read_error st r = Some e \<and> r \<in> set (st_operations st2))) \<and>
    (answer = Inr () \<longrightarrow> st_operations st2 = map (settle now st) (st_operations st) \<and>
       list_all (\<lambda>r. op_status r \<noteq> ACCEPTED \<and> op_status r \<noteq> RUNNING) (st_operations st2))"
proof -
  let ?st = "store_run xs empty_state_store"
  let ?ops = "map (\<lambda>r. if r \<in> set (reached ?st (unfinished ?st)) then settle now ?st r else r) (st_operations ?st)"
  have inv: "state_inv st1" using state_inv_import [OF store_run_reachable, of k u xs] assms by simp
  have ops: "st_operations st1 = st_operations ?st" "st_dirs st1 = st_dirs ?st"
    using import_operations [of k u ?st] import_dirs [of k u ?st] assms by simp_all
  then have same: "settle now st1 = settle now ?st" "read_error st1 = read_error ?st" "unfinished st1 = unfinished ?st"
    by (simp_all add: settle_def read_error_def unfinished_def fun_eq_iff readOperationCompletion_def find_dir_def)
  note ends = reached_cong [OF same(2)]
  have run: "start_store k u now ?st = (st1\<lparr>st_operations := ?ops\<rparr>, reconcile_end ?st (unfinished ?st))"
    unfolding start_store_def assms by (simp add: reconcile_eq [OF inv] same ends ops(1))
  have stays: "r \<in> set ?ops" if "r \<in> set (unfinished ?st)" "read_error ?st r = Some e" for r e
  proof -
    have "r \<notin> set (reached ?st (unfinished ?st))" using that(2) by (auto simp: reached_def dest: set_takeWhileD)
    then show ?thesis using that(1) by (auto simp: unfinished_def intro!: rev_image_eqI [of r])
  qed
  have all: "?ops = map (settle now ?st) (st_operations ?st)" if "\<forall>r \<in> set (unfinished ?st). read_error ?st r = None"
  proof -
    have "reached ?st (unfinished ?st) = unfinished ?st" using that by (simp add: reached_def takeWhile_eq_all_conv)
    then show ?thesis by (auto simp: unfinished_def settle_def)
  qed
  have done_all: "list_all (\<lambda>r. op_status r \<noteq> ACCEPTED \<and> op_status r \<noteq> RUNNING) (map (settle now ?st) (st_operations ?st))"
    using settle_not_uncertain by (simp add: list_all_iff uncertain_def)
  have new: "st_operations (st1\<lparr>st_operations := ?ops\<rparr>) = ?ops" by simp
  have whole: "?ops = map (settle now ?st) (st_operations ?st)" if "reconcile_end ?st (unfinished ?st) = Inr ()"
    using that by (intro all) (simp only: reconcile_end_ok)
  show ?thesis unfolding Let_def run prod.case new
  proof (intro conjI allI impI)
    show "reconcile_end ?st (unfinished ?st) = Inr () \<longleftrightarrow> (\<forall>r \<in> set (unfinished ?st). read_error ?st r = None)"
      by (rule reconcile_end_ok)
    show "\<exists>r \<in> set (unfinished ?st). read_error ?st r = Some e \<and> r \<in> set ?ops" if "reconcile_end ?st (unfinished ?st) = Inl e" for e
      using reconcile_end_error [OF that] stays by blast
    show "?ops = map (settle now ?st) (st_operations ?st)" if "reconcile_end ?st (unfinished ?st) = Inr ()" using that by (rule whole)
    show "list_all (\<lambda>r. op_status r \<noteq> ACCEPTED \<and> op_status r \<noteq> RUNNING) ?ops" if "reconcile_end ?st (unfinished ?st) = Inr ()"
      unfolding whole [OF that] by (rule done_all)
  qed (rule refl)
qed

text \<open>Exit status 3 is read and the operation settled; with an unreadable record the start ends and the row stays.\<close>

theorem restart_settles_operations_witness:
  "map (\<lambda>r. (op_status r, op_exitCode r)) (st_operations (fst (start_store True (\<lambda>d. d) 40
      (store_run (ex_busy @ [CommandExit ''s1'' ''op1'' (ExitRecord (''3'' @ [CHR 0x0A]) 20)]) empty_state_store)))) = [(FAILED, Some 3)] \<and>
   (let st = store_run (ex_busy @ [CommandExit ''s1'' ''op1'' (ExitUnreadable ''EACCES'')]) empty_state_store in
    snd (start_store True (\<lambda>d. d) 40 st) = Inl (Failure ''EACCES'') \<and> st_operations (fst (start_store True (\<lambda>d. d) 40 st)) = st_operations st)"
proof -
  let ?x = "\<lambda>f. ex_busy @ [CommandExit ''s1'' ''op1'' f]"
  let ?st = "\<lambda>f. store_run (?x f) empty_state_store"
  let ?ok = "ExitRecord (''3'' @ [CHR 0x0A]) 20" and ?bad = "ExitUnreadable ''EACCES''"
  have can: "importLegacySessions True (\<lambda>d. d) (?st ?ok) = (fst (importLegacySessions True (\<lambda>d. d) (?st ?ok)), Inr ())"
    "importLegacySessions True (\<lambda>d. d) (?st ?bad) = (fst (importLegacySessions True (\<lambda>d. d) (?st ?bad)), Inr ())" by code_simp+
  have reads: "\<forall>r \<in> set (unfinished (?st ?ok)). read_error (?st ?ok) r = None" by code_simp
  have "st_operations (fst (start_store True (\<lambda>d. d) 40 (?st ?ok))) = map (settle 40 (?st ?ok)) (st_operations (?st ?ok))"
    using restart_settles_operations [OF can(1), of 40, unfolded Let_def case_prod_beta] reads by blast
  moreover have "map (\<lambda>r. (op_status r, op_exitCode r)) (map (settle 40 (?st ?ok)) (st_operations (?st ?ok))) = [(FAILED, Some 3)]"
    by code_simp
  moreover have "st_operations (fst (start_store True (\<lambda>d. d) 40 (?st ?bad))) = map (\<lambda>r. if r \<in> set (reached (?st ?bad) (unfinished (?st ?bad)))
      then settle 40 (?st ?bad) r else r) (st_operations (?st ?bad))"
    using restart_settles_operations [OF can(2), of 40, unfolded Let_def case_prod_beta] by (rule conjunct1)
  moreover have "reached (?st ?bad) (unfinished (?st ?bad)) = []" "snd (start_store True (\<lambda>d. d) 40 (?st ?bad)) = Inl (Failure ''EACCES'')" by code_simp+
  ultimately show ?thesis by (simp add: Let_def)
qed

section \<open>The single writer\<close>

text \<open>
  C18. While an operation of a session is ACCEPTED, RUNNING or UNKNOWN, every request for
  that session under a new idempotency key is refused with \<^verbatim>\<open>session_busy\<close>, the answer names
  exactly that operation and its status, and nothing is written.
\<close>

theorem busy_session_refuses:
  assumes "r \<in> set (st_operations (store_run xs empty_state_store))" "occupies (op_status r)"
    and "rq_sessionId q = op_sessionId r"
    and "\<not> list_ex (\<lambda>s. op_sessionId s = op_sessionId r \<and> op_idempotencyKey s = rq_idempotencyKey q)
      (st_operations (store_run xs empty_state_store))"
  shows "admitOperation k q (store_run xs empty_state_store) = (store_run xs empty_state_store,
    Inl (BridgeError ''session_busy'' 409 (Some (JObj
      [(''operationId'', JStr (op_id r)), (''status'', JStr (status_name (op_status r)))]))))"
proof -
  let ?st = "store_run xs empty_state_store"
  note inv = store_run_reachable [of xs]
  have none: "keyed_operation (rq_sessionId q) (rq_idempotencyKey q) ?st = None"
    using assms(3,4) unfolding keyed_operation_def find_None_iff' list_ex_iff by simp
  obtain a where a: "activeOperation (op_sessionId r) ?st = Some a"
    using assms(1,2) activeOperation_None [of "op_sessionId r" ?st] by (cases "activeOperation (op_sessionId r) ?st") auto
  then have m: "a \<in> set (st_operations ?st)" "op_sessionId a = op_sessionId r" "occupies (op_status a)"
    using activeOperation_SomeD by blast+
  then have "op_id a = op_id r"
    using state_invD(4) [OF inv] assms(1,2) unfolding one_writer_def by blast
  then have "a = r" using key_inj [OF state_invD(2) [OF inv] m(1) assms(1)] by simp
  with a none show ?thesis
    by (simp add: admitOperation_def transaction_def admit_body_def assms(3) rethrow_or_admission_failed_def)
qed

theorem busy_session_refuses_witness:
  "snd (admitOperation True (ex_request\<lparr>rq_idempotencyKey := ''k2''\<rparr>) (store_run ex_busy empty_state_store)) =
    Inl (BridgeError ''session_busy'' 409 (Some (JObj [(''operationId'', JStr ''op1''), (''status'', JStr ''RUNNING'')])))"
proof -
  let ?st = "store_run ex_busy empty_state_store"
  let ?r = "hd (st_operations ?st)"
  have "?r \<in> set (st_operations ?st)" "occupies (op_status ?r)" by code_simp+
  moreover have "rq_sessionId (ex_request\<lparr>rq_idempotencyKey := ''k2''\<rparr>) = op_sessionId ?r"
    "\<not> list_ex (\<lambda>s. op_sessionId s = op_sessionId ?r \<and> op_idempotencyKey s = rq_idempotencyKey (ex_request\<lparr>rq_idempotencyKey := ''k2''\<rparr>))
      (st_operations ?st)" by code_simp+
  ultimately have "admitOperation True (ex_request\<lparr>rq_idempotencyKey := ''k2''\<rparr>) ?st = (?st,
    Inl (BridgeError ''session_busy'' 409 (Some (JObj [(''operationId'', JStr (op_id ?r)), (''status'', JStr (status_name (op_status ?r)))]))))"
    by (rule busy_session_refuses)
  moreover have "op_id ?r = ''op1''" "status_name (op_status ?r) = ''RUNNING''" by code_simp+
  ultimately show ?thesis by simp
qed

section \<open>Two losses\<close>

lemma import_one_keeps: "import_one u d st = Inr st' \<Longrightarrow> getSession i st \<noteq> None \<Longrightarrow> getSession i st' \<noteq> None"
  by (auto simp: import_one_def getSession_def by_key_append split: meta_file.splits option.splits if_splits)

lemma import_all_keeps: "import_all u ds st = Inr st' \<Longrightarrow> getSession i st \<noteq> None \<Longrightarrow> getSession i st' \<noteq> None"
proof (induction ds arbitrary: st)
  case (Cons d ds)
  obtain st1 where "import_one (u (sd_name d)) d st = Inr st1" "import_all u ds st1 = Inr st'"
    using Cons.prems(1) by (auto split: sum.splits)
  with Cons.IH import_one_keeps Cons.prems(2) show ?case by blast
qed simp

lemma import_one_adds:
  "import_one u d st = Inr st' \<Longrightarrow> sd_meta d = Document l \<Longrightarrow> lg_id l = Some i \<Longrightarrow> getSession i st' \<noteq> None"
  by (auto simp: import_one_def getSession_def by_key_append split: option.splits if_splits)

lemma import_all_adds:
  "import_all u ds st = Inr st' \<Longrightarrow> d \<in> set ds \<Longrightarrow> sd_meta d = Document l \<Longrightarrow> lg_id l = Some i \<Longrightarrow>
    getSession i st' \<noteq> None"
proof (induction ds arbitrary: st)
  case (Cons d' ds)
  obtain st1 where st1: "import_one (u (sd_name d')) d' st = Inr st1" "import_all u ds st1 = Inr st'"
    using Cons.prems(1) by (auto split: sum.splits)
  show ?case
  proof (cases "d = d'")
    case True
    then show ?thesis using import_one_adds [OF st1(1)] import_all_keeps [OF st1(2)] Cons.prems(3,4) by blast
  next
    case False
    then show ?thesis using Cons.IH [OF st1(2)] Cons.prems(2-4) by simp
  qed
qed simp

text \<open>
  A purge deletes the rows before the directory, so when the directory cannot be removed
  the caller gets an error, a second attempt answers that there is no such session, and the
  next start imports the left-over metadata file: the purged session is listed again.
\<close>

theorem failed_purge_comes_back:
  assumes "getSession i st = Some s" "se_closedAt s \<noteq> None"
    and "d \<in> set (st_dirs st)" "sd_meta d = Document l" "lg_id l = Some i"
    and "importLegacySessions True u (fst (purge False i st)) = (st2, Inr ())"
  shows "snd (purge False i st) = Inl (Failure ''EIO'') \<and> getSession i (fst (purge False i st)) = None \<and>
    snd (purge True i (fst (purge False i st))) = Inl (bridgeError ''session_not_found'' 404) \<and>
    list_ex (\<lambda>s. se_id s = i) (listSessions st2)"
proof -
  let ?st1 = "fst (purge False i st)"
  have st1: "?st1 = st\<lparr>st_sessions := delete_where (\<lambda>r. se_id r = i) (st_sessions st),
      st_operations := delete_where (\<lambda>r. op_sessionId r = i) (st_operations st)\<rparr>" "snd (purge False i st) = Inl (Failure ''EIO'')"
    using assms(1,2) by (auto simp: purge_def)
  have gone: "getSession i ?st1 = None" by (simp add: st1 getSession_def by_key_delete_where_same)
  have "import_all u (st_dirs ?st1) ?st1 = Inr st2"
    using assms(6) unfolding importLegacySessions_def transaction_eq_Inr by (auto split: sum.splits)
  then have "getSession i st2 \<noteq> None"
    using import_all_adds assms(3-5) by (simp add: st1)
  then have "list_ex (\<lambda>s. se_id s = i) (listSessions st2)"
    by (auto simp: getSession_def listSessions_def list_ex_iff dest: by_key_SomeD)
  with st1 gone show ?thesis by (simp add: purge_def)
qed

theorem failed_purge_comes_back_witness:
  "let st = store_run (ex_open @ [CloseSession ''u2'' True 50 ''s1'']) empty_state_store;
       st2 = fst (importLegacySessions True (\<lambda>d. d) (fst (purge False ''s1'' st)))
   in list_ex (\<lambda>s. se_id s = ''s1'') (listSessions st2)"
proof -
  let ?st = "store_run (ex_open @ [CloseSession ''u2'' True 50 ''s1'']) empty_state_store"
  let ?s = "hd (st_sessions ?st)"
  let ?d = "hd (st_dirs ?st)"
  let ?st2 = "fst (importLegacySessions True (\<lambda>d. d) (fst (purge False ''s1'' ?st)))"
  have "getSession ''s1'' ?st = Some ?s" "se_closedAt ?s \<noteq> None" "?d \<in> set (st_dirs ?st)"
    "sd_meta ?d = Document (legacy_of ?s)" "lg_id (legacy_of ?s) = Some ''s1''"
    "importLegacySessions True (\<lambda>d. d) (fst (purge False ''s1'' ?st)) = (?st2, Inr ())" by code_simp+
  from failed_purge_comes_back [OF this] show ?thesis by (simp add: Let_def)
qed

text \<open>
  A gap reason, once recorded, cannot be cleared: \<open>updateTranscript\<close> passes an explicit
  \<^verbatim>\<open>null\<close> on, but \<open>save\<close> replaces it by the recorded reason.
\<close>

theorem gap_reason_cannot_be_cleared:
  assumes "getSession i st = Some s" "se_transcriptGapReason s = Some g" "tx_gapReason fs = Some None"
  shows "\<exists>row. updateTranscript u True i fs st = (fst (updateTranscript u True i fs st), Inr row) \<and>
    se_transcriptGapReason row = Some g"
proof -
  have "se_id s = i" using assms(1) by (auto simp: getSession_def dest: by_key_SomeD)
  moreover have "getSession i (ensure_dir i st) = Some s" using assms(1) by (simp add: ensure_dir_def getSession_def)
  ultimately show ?thesis
    using assms by (simp add: updateTranscript_def save_def Let_def input_of_def normalized_session_def nullish_def)
qed

theorem gap_reason_cannot_be_cleared_witness:
  "let st = store_run [Save ''u1'' True (ex_session\<lparr>si_transcriptGapReason := Some ''storage_reserve''\<rparr>)] empty_state_store;
       fs = \<lparr>tx_epoch = None, tx_earliestOffset = None, tx_captureState = Some ''ACTIVE'', tx_gapReason = Some None\<rparr>
   in \<exists>row. snd (updateTranscript ''u2'' True ''s1'' fs st) = Inr row \<and> se_transcriptGapReason row = Some ''storage_reserve''"
proof -
  let ?st = "store_run [Save ''u1'' True (ex_session\<lparr>si_transcriptGapReason := Some ''storage_reserve''\<rparr>)] empty_state_store"
  let ?fs = "\<lparr>tx_epoch = None, tx_earliestOffset = None, tx_captureState = Some ''ACTIVE'', tx_gapReason = Some None\<rparr>"
  let ?s = "hd (st_sessions ?st)"
  have "getSession ''s1'' ?st = Some ?s" "se_transcriptGapReason ?s = Some ''storage_reserve''" by code_simp+
  moreover have "tx_gapReason ?fs = Some None" by simp
  ultimately obtain row where row: "updateTranscript ''u2'' True ''s1'' ?fs ?st = (fst (updateTranscript ''u2'' True ''s1'' ?fs ?st), Inr row)"
    "se_transcriptGapReason row = Some ''storage_reserve''" using gap_reason_cannot_be_cleared by blast
  have "snd (updateTranscript ''u2'' True ''s1'' ?fs ?st) = Inr row"
    by (subst row(1)) (rule snd_conv)
  with row(2) show ?thesis unfolding Let_def by blast
qed

end
