(* ===== verification/Transcript.thy ===== *)
theory Transcript
  imports Bridge "HOL-Library.Word"
begin

text \<open>
  The transcript of a terminal on disk, \<^verbatim>\<open>scripts/transcript-segments.mjs\<close> and
  \<^verbatim>\<open>scripts/transcript-capture.mjs\<close>: a first file and numbered segments beside it, the
  inventory, the bounded read, and the capture loop that writes them.
\<close>

type_synonym byte = "8 word"

section \<open>Segments\<close>

definition DEFAULT_TRANSCRIPT_SEGMENT_BYTES :: nat where
  "DEFAULT_TRANSCRIPT_SEGMENT_BYTES = 8 * 1024 * 1024"

definition MAX_TRANSCRIPT_SEGMENTS :: nat where
  "MAX_TRANSCRIPT_SEGMENTS = 1024"

text \<open>
  A directory entry is a regular file with its link count and bytes, or something else. The
  directory of a transcript is an association list of entries by name.
\<close>

datatype entry = Regular nat "byte list" | Special

type_synonym directory = "(string \<times> entry) list"

text \<open>The failures: \<^verbatim>\<open>ENOENT\<close> from the file system, and the errors the module throws itself.\<close>

datatype transcript_exc = Enoent | Unsafe

definition padStart :: "nat \<Rightarrow> char \<Rightarrow> string \<Rightarrow> string" where
  "padStart n c s = replicate (n - length s) c @ s"

definition segmentPath :: "string \<Rightarrow> nat \<Rightarrow> transcript_exc + string" where
  "segmentPath outputPath index =
     (if index < 1 \<or> index > MAX_TRANSCRIPT_SEGMENTS then Inl Unsafe
      else Inr (outputPath @ ''.part-'' @ padStart 6 CHR ''0'' (show_nat index)))"

definition regularSize :: "directory \<Rightarrow> string \<Rightarrow> transcript_exc + nat" where
  "regularSize dir filename = (case map_of dir filename of
       None \<Rightarrow> Inl Enoent
     | Some (Regular links bytes) \<Rightarrow>
         if links \<noteq> 1 \<or> length bytes > MAX_SAFE_INTEGER then Inl Unsafe else Inr (length bytes)
     | Some Special \<Rightarrow> Inl Unsafe)"

record segment =
  seg_filename :: string
  seg_start :: nat
  seg_size :: nat

record inventory =
  inv_segments :: "segment list"
  inv_size :: nat
  inv_missing :: bool
  inv_segmentBytes :: nat

text \<open>
  The loop over the numbered files from \<open>index\<close> on; \<open>count\<close> is the number of all of them,
  \<open>sz\<close> the bytes seen so far.
\<close>

function inspect_from ::
  "directory \<Rightarrow> string \<Rightarrow> nat \<Rightarrow> nat \<Rightarrow> nat \<Rightarrow> nat \<Rightarrow> transcript_exc + segment list \<times> nat" where
  "inspect_from dir outputPath actual count index sz =
     (if index > count then Inr ([], sz)
      else (case segmentPath outputPath index of
         Inl e \<Rightarrow> Inl e
       | Inr filename \<Rightarrow>
           if filename \<notin> fst ` set dir then Inl Unsafe
           else (case regularSize dir filename of
              Inl e \<Rightarrow> Inl e
            | Inr len \<Rightarrow>
                if len > actual \<or> index < count \<and> len \<noteq> actual then Inl Unsafe
                else if sz + len > MAX_SAFE_INTEGER then Inl Unsafe
                else (case inspect_from dir outputPath actual count (index + 1) (sz + len) of
                   Inl e \<Rightarrow> Inl e
                 | Inr (segments, whole) \<Rightarrow>
                     Inr (\<lparr>seg_filename = filename, seg_start = sz, seg_size = len\<rparr> # segments, whole)))))"
  by pat_completeness auto
termination by (relation "measure (\<lambda>(dir, p, a, count, index, size). Suc count - index)") auto

declare inspect_from.simps [simp del]

definition numbered_names :: "directory \<Rightarrow> string \<Rightarrow> string list" where
  "numbered_names dir outputPath = filter (\<lambda>name. starts_with name (outputPath @ ''.part-'')) (map fst dir)"

definition six_digits :: "string \<Rightarrow> bool" where
  "six_digits s \<longleftrightarrow> length s = 6 \<and> list_all is_digit s"

definition inspectTranscriptSegments ::
  "directory \<Rightarrow> string \<Rightarrow> nat \<Rightarrow> transcript_exc + inventory" where
  "inspectTranscriptSegments dir outputPath segmentBytes =
     (if segmentBytes < 1 \<or> segmentBytes > MAX_SAFE_INTEGER then Inl Unsafe else
      let numbered = numbered_names dir outputPath in
      if length numbered > MAX_TRANSCRIPT_SEGMENTS
         \<or> list_ex (\<lambda>name. \<not> six_digits (drop (length (outputPath @ ''.part-'')) name)) numbered
      then Inl Unsafe
      else (case regularSize dir outputPath of
          Inl e \<Rightarrow> if e \<noteq> Enoent \<or> numbered \<noteq> [] then Inl e
                   else Inr \<lparr>inv_segments = [], inv_size = 0, inv_missing = True, inv_segmentBytes = segmentBytes\<rparr>
        | Inr first \<Rightarrow>
            let actual = (if numbered \<noteq> [] then first else segmentBytes) in
            if numbered \<noteq> [] \<and> actual < 1 then Inl Unsafe
            else (case inspect_from dir outputPath actual (length numbered) 1 first of
               Inl e \<Rightarrow> Inl e
             | Inr (segments, whole) \<Rightarrow> Inr
                 \<lparr>inv_segments = \<lparr>seg_filename = outputPath, seg_start = 0, seg_size = first\<rparr> # segments,
                  inv_size = whole, inv_missing = False, inv_segmentBytes = actual\<rparr>)))"

section \<open>Reading\<close>

text \<open>
  The files at the time of the read may be newer than the inventory; the bytes copied so far
  are the accumulator.
\<close>

fun read_segments :: "directory \<Rightarrow> nat \<Rightarrow> nat \<Rightarrow> byte list \<Rightarrow> segment list \<Rightarrow> transcript_exc + byte list" where
  "read_segments dir offset len copied [] =
     (if length copied \<noteq> len then Inl Unsafe else Inr copied)"
| "read_segments dir offset len copied (e # rest) =
     (if length copied = len then Inr copied
      else if offset + length copied \<ge> seg_start e + seg_size e then read_segments dir offset len copied rest
      else if offset + length copied < seg_start e then Inl Unsafe
      else (let start = offset + length copied - seg_start e;
                count = min (len - length copied) (seg_size e - start)
            in case map_of dir (seg_filename e) of
                 Some (Regular links bytes) \<Rightarrow>
                   if links \<noteq> 1 \<or> length bytes < seg_size e then Inl Unsafe
                   else read_segments dir offset len (copied @ take count (drop start bytes)) rest
               | Some Special \<Rightarrow> Inl Unsafe
               | None \<Rightarrow> Inl Enoent))"

definition readTranscriptBytes ::
  "directory \<Rightarrow> segment list \<Rightarrow> nat \<Rightarrow> nat \<Rightarrow> transcript_exc + byte list" where
  "readTranscriptBytes dir segments offset len =
     (if offset > MAX_SAFE_INTEGER \<or> len > 256 * 1024 + 3 then Inl Unsafe
      else read_segments dir offset len [] segments)"

section \<open>Capture\<close>

text \<open>
  The variables of the capture loop, with the directory it writes to. \<open>space k\<close> is what the
  \<open>k\<close>-th inspection of the file system answers: the available bytes, or \<^term>\<open>None\<close> when it
  fails. \<open>cp_output\<close> is the file the open stream writes to.
\<close>

record capture =
  cp_dir :: directory
  cp_segmentBytes :: nat
  cp_remaining :: nat
  cp_index :: nat
  cp_segmentSize :: nat
  cp_newSegment :: bool
  cp_output :: "string option"
  cp_inspections :: nat
  cp_stopped :: "string option"

definition append_bytes :: "string \<Rightarrow> byte list \<Rightarrow> directory \<Rightarrow> directory" where
  "append_bytes filename bytes dir = map (\<lambda>(n, e). if n = filename
     then (n, case e of Regular links old \<Rightarrow> Regular links (old @ bytes) | Special \<Rightarrow> Special) else (n, e)) dir"

text \<open>Rotation to the next numbered file when the current one is full.\<close>

definition rotate_segment :: "string \<Rightarrow> capture \<Rightarrow> transcript_exc + capture" where
  "rotate_segment outputPath c =
     (if cp_segmentSize c \<noteq> cp_segmentBytes c then Inr c
      else (case segmentPath outputPath (cp_index c + 1) of
          Inl e \<Rightarrow> Inl e
        | Inr _ \<Rightarrow> Inr (c\<lparr>cp_output := None, cp_index := cp_index c + 1, cp_segmentSize := 0, cp_newSegment := True\<rparr>)))"

definition space_sufficient :: "(nat \<Rightarrow> nat option) \<Rightarrow> nat \<Rightarrow> nat \<Rightarrow> capture \<Rightarrow> bool" where
  "space_sufficient space minimumFree len c = (case space (cp_inspections c) of
       None \<Rightarrow> False | Some available \<Rightarrow> available \<ge> minimumFree + len + 4096)"

text \<open>
  Opening the stream: an existing segment for append, a new one with \<^verbatim>\<open>O_CREAT | O_EXCL\<close>.
\<close>

definition open_output :: "string \<Rightarrow> capture \<Rightarrow> transcript_exc + string \<times> capture" where
  "open_output outputPath c = (case cp_output c of
       Some f \<Rightarrow> Inr (f, c)
     | None \<Rightarrow>
         (case (if cp_index c = 0 then Inr outputPath else segmentPath outputPath (cp_index c)) of
            Inl e \<Rightarrow> Inl e
          | Inr f \<Rightarrow>
              (case map_of (cp_dir c) f of
                 None \<Rightarrow> if cp_newSegment c
                   then Inr (f, c\<lparr>cp_output := Some f, cp_newSegment := False, cp_dir := cp_dir c @ [(f, Regular 1 [])]\<rparr>)
                   else Inl Enoent
               | Some (Regular links bytes) \<Rightarrow> if cp_newSegment c then Inl Unsafe else Inr (f, c\<lparr>cp_output := Some f\<rparr>)
               | Some Special \<Rightarrow> Inl Unsafe)))"

text \<open>The marker of a stop, written to a temporary file that is renamed over it.\<close>

definition CAPTURE_STOP_SUFFIX :: string where
  "CAPTURE_STOP_SUFFIX = ''.capture-stopped''"

definition stop_record :: "byte list" where
  "stop_record = map of_char (''storage_reserve'' @ [CHR 0x0A])"

definition recordStorageStop :: "string \<Rightarrow> directory \<Rightarrow> directory" where
  "recordStorageStop outputPath dir =
     (outputPath @ CAPTURE_STOP_SUFFIX, Regular 1 stop_record)
       # filter (\<lambda>(n, e). n \<noteq> outputPath @ CAPTURE_STOP_SUFFIX) dir"

text \<open>
  One pass of the inner loop over the rest of a chunk: the new state and what is left of
  the chunk. The capture has stopped when \<open>cp_stopped\<close> is set.
\<close>

definition capture_step ::
  "(nat \<Rightarrow> nat option) \<Rightarrow> nat \<Rightarrow> string \<Rightarrow> byte list \<Rightarrow> capture \<Rightarrow> transcript_exc + capture \<times> byte list" where
  "capture_step space minimumFree outputPath chunk c0 =
     (case rotate_segment outputPath c0 of
        Inl e \<Rightarrow> Inl e
      | Inr c \<Rightarrow>
          let n = min (length chunk) (min (cp_remaining c) (cp_segmentBytes c - cp_segmentSize c));
              portion = take n chunk;
              c1 = c\<lparr>cp_inspections := cp_inspections c + (if minimumFree > 0 then 1 else 0)\<rparr>
          in if minimumFree > 0 \<and> \<not> space_sufficient space minimumFree (length portion) c
             then Inr (c1\<lparr>cp_dir := recordStorageStop outputPath (cp_dir c1),
                           cp_stopped := Some ''storage_reserve''\<rparr>, chunk)
             else (case open_output outputPath c1 of
                Inl e \<Rightarrow> Inl e
              | Inr (f, c2) \<Rightarrow>
                  let c3 = c2\<lparr>cp_dir := append_bytes f portion (cp_dir c2),
                              cp_remaining := cp_remaining c2 - length portion,
                              cp_segmentSize := cp_segmentSize c2 + length portion\<rparr>
                  in Inr (if cp_remaining c3 = 0 then c3\<lparr>cp_stopped := Some ''transcript_limit''\<rparr> else c3,
                          drop n chunk)))"

text \<open>
  The loops. A pass that copies nothing would repeat for ever: the value is then
  \<^term>\<open>None\<close>, and that this does not happen is proved, not assumed.
\<close>

partial_function (option) capture_chunk ::
  "(nat \<Rightarrow> nat option) \<Rightarrow> nat \<Rightarrow> string \<Rightarrow> byte list \<Rightarrow> capture \<Rightarrow> (capture \<times> (transcript_exc + unit)) option" where
  "capture_chunk space minimumFree outputPath chunk c =
     (if chunk = [] \<or> cp_stopped c \<noteq> None then Some (c, Inr ())
      else (case capture_step space minimumFree outputPath chunk c of
         Inl e \<Rightarrow> Some (c, Inl e)
       | Inr (c', rest) \<Rightarrow> capture_chunk space minimumFree outputPath rest c'))"

fun capture_chunks ::
  "(nat \<Rightarrow> nat option) \<Rightarrow> nat \<Rightarrow> string \<Rightarrow> byte list list \<Rightarrow> capture \<Rightarrow> (capture \<times> (transcript_exc + unit)) option" where
  "capture_chunks space minimumFree outputPath [] c = Some (c, Inr ())"
| "capture_chunks space minimumFree outputPath (chunk # chunks) c =
     (if cp_stopped c \<noteq> None then Some (c, Inr ())
      else (case capture_chunk space minimumFree outputPath chunk c of
         None \<Rightarrow> None
       | Some (c', Inl e) \<Rightarrow> Some (c', Inl e)
       | Some (c', Inr _) \<Rightarrow> capture_chunks space minimumFree outputPath chunks c'))"

definition capture_start :: "directory \<Rightarrow> nat \<Rightarrow> nat \<Rightarrow> inventory \<Rightarrow> capture" where
  "capture_start dir maximum segmentBytes existing =
     (let n = length (inv_segments existing);
          bytes = (if n > 1 then inv_segmentBytes existing else min segmentBytes maximum);
          bytes = (if n = 1 \<and> inv_size existing > bytes then maximum else bytes)
      in \<lparr>cp_dir = dir, cp_segmentBytes = bytes, cp_remaining = maximum - inv_size existing,
          cp_index = n - 1,
          cp_segmentSize = (if inv_segments existing = [] then 0 else seg_size (last (inv_segments existing))),
          cp_newSegment = (inv_segments existing = []), cp_output = None, cp_inspections = 0, cp_stopped = None\<rparr>)"

text \<open>The directory afterwards with the exception or the value of \<^verbatim>\<open>stopped\<close>.\<close>

definition captureTranscript ::
  "(nat \<Rightarrow> nat option) \<Rightarrow> string \<Rightarrow> nat \<Rightarrow> nat \<Rightarrow> nat \<Rightarrow> byte list list \<Rightarrow> directory \<Rightarrow>
    (directory \<times> (transcript_exc + string option)) option" where
  "captureTranscript space outputPath maximum minimumFree segmentBytes chunks dir =
     (if outputPath = [] \<or> maximum < 1 \<or> maximum > MAX_SAFE_INTEGER \<or> minimumFree > MAX_SAFE_INTEGER
         \<or> segmentBytes < 1 \<or> segmentBytes > MAX_SAFE_INTEGER then Some (dir, Inl Unsafe)
      else (case inspectTranscriptSegments dir outputPath (min segmentBytes maximum) of
          Inl e \<Rightarrow> Some (dir, Inl e)
        | Inr existing \<Rightarrow>
            let c = capture_start dir maximum segmentBytes existing in
            if cp_remaining c = 0 then Some (dir, Inr (Some ''transcript_limit''))
            else (case capture_chunks space minimumFree outputPath chunks c of
                None \<Rightarrow> None
              | Some (c', Inl e) \<Rightarrow> Some (cp_dir c', Inl e)
              | Some (c', Inr _) \<Rightarrow> Some (cp_dir c', Inr (cp_stopped c')))))"

end
