(* ===== verification/Transcript_Layout.thy ===== *)
theory Transcript_Layout
  imports Transcript
begin

text \<open>
  The abstract transcript is one byte string. \<open>layout\<close> relates a directory to the list of its
  segments; the inventory accepts such a directory and the bounded read returns the slice of
  the concatenation.
\<close>

section \<open>Names of segments\<close>

definition seg_name :: "string \<Rightarrow> nat \<Rightarrow> string" where
  "seg_name p k = (if k = 0 then p else p @ ''.part-'' @ padStart 6 CHR ''0'' (show_nat k))"

lemma segmentPath_name: "1 \<le> k \<Longrightarrow> k \<le> MAX_TRANSCRIPT_SEGMENTS \<Longrightarrow> segmentPath p k = Inr (seg_name p k)"
  by (simp add: segmentPath_def seg_name_def)

lemma segmentPath_Inr: "segmentPath p k = Inr f \<Longrightarrow> f = seg_name p k \<and> 1 \<le> k \<and> k \<le> MAX_TRANSCRIPT_SEGMENTS"
  by (auto simp: segmentPath_def seg_name_def split: if_splits)

lemma read_nat_zeros: "read_nat (replicate m CHR ''0'' @ s) = read_nat s"
  by (induction m) (simp_all add: read_nat_def digit_val_def)

lemma seg_name_inj: "seg_name p j = seg_name p k \<Longrightarrow> j = k"
proof -
  assume eq: "seg_name p j = seg_name p k"
  show ?thesis
  proof (cases "j = 0 \<or> k = 0")
    case True
    with eq show ?thesis by (auto simp: seg_name_def split: if_splits)
  next
    case False
    with eq have "padStart 6 CHR ''0'' (show_nat j) = padStart 6 CHR ''0'' (show_nat k)"
      by (simp add: seg_name_def)
    then have "read_nat (padStart 6 CHR ''0'' (show_nat j)) = read_nat (padStart 6 CHR ''0'' (show_nat k))" by simp
    then show ?thesis by (simp add: padStart_def read_nat_zeros)
  qed
qed

lemma show_nat_length_4: "n < 10000 \<Longrightarrow> length (show_nat n) \<le> 4"
  by (cases "n < 10"; cases "n < 100"; cases "n < 1000") (simp_all add: show_nat_digit show_nat_step)

lemma seg_name_suffix:
  "1 \<le> k \<Longrightarrow> k \<le> MAX_TRANSCRIPT_SEGMENTS \<Longrightarrow> six_digits (drop (length (p @ ''.part-'')) (seg_name p k))"
proof -
  assume k: "1 \<le> k" "k \<le> MAX_TRANSCRIPT_SEGMENTS"
  then have "length (show_nat k) \<le> 4" using show_nat_length_4 by (simp add: MAX_TRANSCRIPT_SEGMENTS_def)
  moreover have "list_all is_digit (show_nat k)" using all_digits_show_nat [of k] by (simp add: all_digits_def)
  moreover have "drop (length (p @ ''.part-'')) (seg_name p k) = padStart 6 CHR ''0'' (show_nat k)"
    using k by (simp add: seg_name_def)
  ultimately show ?thesis by (simp add: six_digits_def padStart_def list_all_iff is_digit_def)
qed

lemma seg_name_prefix: "1 \<le> k \<Longrightarrow> starts_with (seg_name p k) (p @ ''.part-'')"
  by (simp add: starts_with_def seg_name_def)

lemma not_prefix_self: "\<not> starts_with p (p @ ''.part-'')"
  by (simp add: starts_with_def)

section \<open>Layout\<close>

text \<open>\<open>files p ss dir\<close>: the directory holds exactly the segments \<open>ss\<close> under their names.\<close>

definition files :: "string \<Rightarrow> byte list list \<Rightarrow> directory \<Rightarrow> bool" where
  "files p ss dir \<longleftrightarrow> distinct (map fst dir) \<and>
     set (numbered_names dir p) = seg_name p ` {1..<length ss} \<and>
     (\<forall>k < length ss. map_of dir (seg_name p k) = Some (Regular 1 (ss ! k))) \<and>
     (ss = [] \<longrightarrow> map_of dir p = None) \<and> length ss \<le> Suc MAX_TRANSCRIPT_SEGMENTS"

text \<open>Completed segments have one size, the last one at most that size.\<close>

definition even_segments :: "nat \<Rightarrow> byte list list \<Rightarrow> bool" where
  "even_segments b ss \<longleftrightarrow> list_all (\<lambda>s. length s = b) (butlast ss) \<and> (ss \<noteq> [] \<longrightarrow> length (last ss) \<le> b)"

definition layout :: "string \<Rightarrow> byte list list \<Rightarrow> directory \<Rightarrow> bool" where
  "layout p ss dir \<longleftrightarrow> files p ss dir \<and> ss \<noteq> [] \<and> length (concat ss) \<le> MAX_SAFE_INTEGER \<and>
     (length ss = 1 \<or> 1 \<le> length (hd ss) \<and> even_segments (length (hd ss)) ss)"

lemma files_count:
  assumes "files p ss dir"
  shows "length (numbered_names dir p) = length ss - 1"
proof -
  have "distinct (numbered_names dir p)" using assms by (simp add: files_def numbered_names_def)
  then have "length (numbered_names dir p) = card (seg_name p ` {1..<length ss})"
    using assms by (metis distinct_card files_def)
  also have "\<dots> = card {1..<length ss}" by (rule card_image) (auto intro: inj_onI seg_name_inj)
  finally show ?thesis by simp
qed

fun segments_from :: "string \<Rightarrow> nat \<Rightarrow> nat \<Rightarrow> byte list list \<Rightarrow> segment list" where
  "segments_from p k start [] = []"
| "segments_from p k start (s # ss) =
     \<lparr>seg_filename = seg_name p k, seg_start = start, seg_size = length s\<rparr> # segments_from p (Suc k) (start + length s) ss"

lemma inspect_files:
  assumes fs: "files p ss dir"
    and len: "length (concat ss) \<le> MAX_SAFE_INTEGER"
    and ev: "even_segments actual ss"
    and k: "1 \<le> k" "k \<le> length ss" and sz: "sz = length (concat (take k ss))"
  shows "inspect_from dir p actual (length ss - 1) k sz =
    Inr (segments_from p k sz (drop k ss), length (concat ss))"
  using k sz
proof (induction "length ss - k" arbitrary: k sz)
  case 0
  then show ?case by (simp add: inspect_from.simps)
next
  case (Suc n)
  then have kl: "k < length ss" by simp
  then have max: "k \<le> MAX_TRANSCRIPT_SEGMENTS" using fs by (simp add: files_def)
  have path: "segmentPath p k = Inr (seg_name p k)" using Suc.prems(1) max by (rule segmentPath_name)
  have entry: "map_of dir (seg_name p k) = Some (Regular 1 (ss ! k))" using fs kl by (simp add: files_def)
  then have mem: "seg_name p k \<in> fst ` set dir" by (metis domI dom_map_of_conv_image_fst)
  have split: "concat ss = concat (take k ss) @ ss ! k @ concat (drop (Suc k) ss)"
    by (metis append_take_drop_id concat.simps(2) concat_append Cons_nth_drop_Suc kl)
  then have total: "sz + length (ss ! k) \<le> MAX_SAFE_INTEGER" and one: "length (ss ! k) \<le> MAX_SAFE_INTEGER"
    using len Suc.prems(3) by simp_all
  have size: "regularSize dir (seg_name p k) = Inr (length (ss ! k))"
    using one by (simp add: regularSize_def entry)
  have bound: "\<not> (length (ss ! k) > actual \<or> k < length ss - 1 \<and> length (ss ! k) \<noteq> actual)"
  proof (cases "k < length ss - 1")
    case True
    then have "ss ! k \<in> set (butlast ss)" by (metis length_butlast nth_butlast nth_mem)
    then show ?thesis using ev by (simp add: even_segments_def list_all_iff)
  next
    case False
    then have "k = length ss - 1" "ss \<noteq> []" using kl by auto
    then have "ss ! k = last ss" by (simp add: last_conv_nth)
    with ev False \<open>ss \<noteq> []\<close> show ?thesis by (simp add: even_segments_def)
  qed
  have take: "sz + length (ss ! k) = length (concat (take (Suc k) ss))"
    using Suc.prems(3) kl by (simp add: take_Suc_conv_app_nth)
  have "inspect_from dir p actual (length ss - 1) (Suc k) (sz + length (ss ! k)) =
      Inr (segments_from p (Suc k) (sz + length (ss ! k)) (drop (Suc k) ss), length (concat ss))"
    using Suc.hyps(2) kl take by (intro Suc.hyps(1)) simp_all
  moreover have "drop k ss = ss ! k # drop (Suc k) ss" using kl by (simp add: Cons_nth_drop_Suc)
  ultimately show ?case
    using kl bound total by (subst inspect_from.simps) (simp add: path mem size)
qed

lemma even_single: "length s \<le> b \<Longrightarrow> even_segments b [s]"
  by (simp add: even_segments_def)

lemma numbered_suffixes:
  assumes "files p ss dir"
  shows "\<not> list_ex (\<lambda>name. \<not> six_digits (drop (length (p @ ''.part-'')) name)) (numbered_names dir p)"
  using assms seg_name_suffix unfolding list_ex_iff files_def by fastforce

lemma inspect_layout:
  assumes "layout p ss dir" "1 \<le> b" "b \<le> MAX_SAFE_INTEGER"
  shows "inspectTranscriptSegments dir p b = Inr \<lparr>inv_segments = segments_from p 0 0 ss,
    inv_size = length (concat ss), inv_missing = False,
    inv_segmentBytes = (if length ss = 1 then b else length (hd ss))\<rparr>"
proof -
  have fs: "files p ss dir" and ne: "ss \<noteq> []" and len: "length (concat ss) \<le> MAX_SAFE_INTEGER"
    using assms(1) by (auto simp: layout_def)
  obtain s rest where ss: "ss = s # rest" using ne by (cases ss) auto
  have first: "map_of dir p = Some (Regular 1 s)" using fs ss by (auto simp: files_def seg_name_def)
  then have size: "regularSize dir p = Inr (length s)" using len ss by (simp add: regularSize_def)
  have count: "length (numbered_names dir p) = length ss - 1" by (rule files_count [OF fs])
  then have none: "(numbered_names dir p \<noteq> []) = (rest \<noteq> [])" by (metis One_nat_def add_diff_cancel_left' length_0_conv length_Cons plus_1_eq_Suc ss)
  let ?a = "if rest \<noteq> [] then length s else b"
  have insp: "inspect_from dir p ?a (length ss - 1) 1 (length s) = Inr (segments_from p 1 (length s) (drop 1 ss), length (concat ss))"
  proof (cases "rest = []")
    case True
    then show ?thesis by (simp add: ss inspect_from.simps)
  next
    case False
    then have ev: "even_segments (length s) ss" using assms(1) by (cases rest) (simp_all add: layout_def ss)
    have "1 \<le> length ss" "length s = length (concat (take 1 ss))" by (simp_all add: ss)
    then have "inspect_from dir p (length s) (length ss - 1) 1 (length s) =
        Inr (segments_from p 1 (length s) (drop 1 ss), length (concat ss))"
      by (intro inspect_files [OF fs len ev]) simp_all
    with False show ?thesis by (simp only: if_P not_False_eq_True)
  qed
  have pos: "rest \<noteq> [] \<Longrightarrow> 1 \<le> length s" using assms(1) ss by (auto simp: layout_def)
  have few: "\<not> length (numbered_names dir p) > MAX_TRANSCRIPT_SEGMENTS" using fs count by (auto simp: files_def)
  have cfg: "\<not> (b < 1 \<or> b > MAX_SAFE_INTEGER)" using assms(2,3) by simp
  show ?thesis
    unfolding inspectTranscriptSegments_def if_not_P [OF cfg] Let_def
    using few numbered_suffixes [OF fs] pos insp
    by (cases "rest = []"; cases "s = []") (simp_all add: size none count ss seg_name_def)
qed

section \<open>Reading\<close>

lemma read_segments_eq:
  assumes "\<And>j. j < length ss \<Longrightarrow> \<exists>more. map_of dir (seg_name p (k + j)) = Some (Regular 1 (ss ! j @ more))"
    and "start \<le> offset + length copied \<or> length copied = len"
    and "offset + len \<le> start + length (concat ss)" "length copied \<le> len"
  shows "read_segments dir offset len copied (segments_from p k start ss) =
    Inr (copied @ take (len - length copied) (drop (offset + length copied - start) (concat ss)))"
  using assms
proof (induction ss arbitrary: k start copied)
  case Nil
  then have "length copied = len" by auto
  then show ?case by simp
next
  case (Cons s ss)
  have files: "\<exists>more. map_of dir (seg_name p (Suc k + j)) = Some (Regular 1 (ss ! j @ more))" if "j < length ss" for j
    using Cons.prems(1) [of "Suc j"] that by simp
  obtain more where entry: "map_of dir (seg_name p k) = Some (Regular 1 (s @ more))"
    using Cons.prems(1) [of 0] by auto
  consider "length copied = len" | "length copied < len" "offset + length copied \<ge> start + length s"
    | "length copied < len" "offset + length copied < start + length s"
    using Cons.prems(4) by linarith
  then show ?case
  proof cases
    case 1
    then show ?thesis by simp
  next
    case 2
    have "read_segments dir offset len copied (segments_from p (Suc k) (start + length s) ss) =
        Inr (copied @ take (len - length copied) (drop (offset + length copied - (start + length s)) (concat ss)))"
      using 2 Cons.prems(3,4) by (intro Cons.IH files) auto
    with 2 show ?thesis by simp
  next
    case 3
    let ?st = "offset + length copied - start"
    let ?n = "min (len - length copied) (length s - ?st)"
    have st: "start \<le> offset + length copied" "?st < length s" using Cons.prems(2) 3 by auto
    let ?c = "copied @ take ?n (drop ?st s)"
    have clen: "length ?c = length copied + ?n" using st by simp
    have same: "take ?n (drop ?st (s @ more)) = take ?n (drop ?st s)" using st by simp
    have cases: "start + length s \<le> offset + length ?c \<or> length ?c = len"
      unfolding clen using st 3 by (auto simp: min_def)
    have rest: "read_segments dir offset len ?c (segments_from p (Suc k) (start + length s) ss) =
        Inr (?c @ take (len - length ?c) (drop (offset + length ?c - (start + length s)) (concat ss)))"
      using Cons.prems(3) clen 3 cases by (intro Cons.IH files) auto
    have tail: "take ?n (drop ?st s) @ take (len - length ?c) (drop (offset + length ?c - (start + length s)) (concat ss)) =
        take (len - length copied) (drop ?st (concat (s # ss)))"
    proof (cases "len - length copied \<le> length s - ?st")
      case True
      then show ?thesis using st clen by simp
    next
      case False
      then have "offset + length ?c - (start + length s) = 0" "len - length ?c = len - length copied - (length s - ?st)"
        unfolding clen using st by auto
      with False st show ?thesis by simp
    qed
    show ?thesis
      using 3 st rest tail same by (simp add: Let_def entry)
  qed
qed

lemma read_layout:
  assumes "layout p ss dir" "offset + len \<le> length (concat ss)" "len \<le> 256 * 1024 + 3"
  shows "readTranscriptBytes dir (segments_from p 0 0 ss) offset len = Inr (take len (drop offset (concat ss)))"
proof -
  have "offset \<le> MAX_SAFE_INTEGER" using assms(1,2) by (auto simp: layout_def)
  moreover have "read_segments dir offset len [] (segments_from p 0 0 ss) =
      Inr ([] @ take (len - length ([]::byte list)) (drop (offset + length ([]::byte list) - 0) (concat ss)))"
    using assms by (intro read_segments_eq) (auto simp: layout_def files_def)
  ultimately show ?thesis using assms(3) by (simp add: readTranscriptBytes_def)
qed

end
