(* ===== verification/Transcript_Capture.thy ===== *)
theory Transcript_Capture
  imports Transcript_Layout
begin

text \<open>
  The capture loop refines appending to one byte string: every pass extends the
  concatenation of the segments by a piece of the input, the loop ends, and what it leaves is
  a directory the inventory accepts.
\<close>

section \<open>The files under the three writes\<close>

lemma numbered_names_append [simp]:
  "numbered_names (dir @ [(f, e)]) p = numbered_names dir p @ (if starts_with f (p @ ''.part-'') then [f] else [])"
  by (simp add: numbered_names_def)

lemma append_bytes_names [simp]: "map fst (append_bytes f w dir) = map fst dir"
  by (induction dir) (auto simp: append_bytes_def)

lemma append_bytes_numbered [simp]: "numbered_names (append_bytes f w dir) p = numbered_names dir p"
  by (simp only: numbered_names_def append_bytes_names)

lemma append_bytes_lookup:
  "map_of (append_bytes f w dir) g = (if g = f then map_option (\<lambda>e. case e of Regular l b \<Rightarrow> Regular l (b @ w) | Special \<Rightarrow> Special) (map_of dir g)
    else map_of dir g)"
  by (induction dir) (auto simp: append_bytes_def)

lemma files_append:
  assumes "files p ss dir" "ss \<noteq> []"
  shows "files p (butlast ss @ [last ss @ w]) (append_bytes (seg_name p (length ss - 1)) w dir)"
proof -
  let ?n = "length ss - 1"
  have len: "length (butlast ss @ [last ss @ w]) = length ss" using assms(2) by simp
  have "map_of (append_bytes (seg_name p ?n) w dir) (seg_name p k) = Some (Regular 1 ((butlast ss @ [last ss @ w]) ! k))"
    if k: "k < length ss" for k
  proof (cases "k = ?n")
    case True
    have "map_of dir (seg_name p ?n) = Some (Regular 1 (last ss))"
      using assms k True by (simp add: files_def last_conv_nth)
    with True show ?thesis by (simp add: append_bytes_lookup nth_append)
  next
    case False
    then have "seg_name p k \<noteq> seg_name p ?n" using seg_name_inj by blast
    then have "map_of (append_bytes (seg_name p ?n) w dir) (seg_name p k) = map_of dir (seg_name p k)"
      by (simp add: append_bytes_lookup)
    moreover have "map_of dir (seg_name p k) = Some (Regular 1 (ss ! k))" using assms(1) k by (simp add: files_def)
    moreover have "k < length ss - 1" using False k by linarith
    ultimately show ?thesis by (simp add: nth_append nth_butlast)
  qed
  with assms show ?thesis unfolding files_def len by simp
qed

lemma name_free:
  assumes "files p ss dir"
  shows "map_of dir (seg_name p (length ss)) = None"
proof (cases "ss = []")
  case True
  with assms show ?thesis by (simp add: files_def seg_name_def)
next
  case False
  show ?thesis
  proof (rule ccontr)
    assume "map_of dir (seg_name p (length ss)) \<noteq> None"
    then have "seg_name p (length ss) \<in> fst ` set dir" by (metis domI dom_map_of_conv_image_fst not_None_eq)
    moreover have "1 \<le> length ss" using False by (simp add: Suc_le_eq)
    ultimately have "seg_name p (length ss) \<in> set (numbered_names dir p)"
      using seg_name_prefix by (simp add: numbered_names_def)
    then obtain k where "k < length ss" "seg_name p (length ss) = seg_name p k" using assms by (auto simp: files_def)
    then show False using seg_name_inj by blast
  qed
qed

lemma files_new:
  assumes "files p ss dir" "length ss \<le> MAX_TRANSCRIPT_SEGMENTS"
  shows "files p (ss @ [[]]) (dir @ [(seg_name p (length ss), Regular 1 [])])"
proof -
  note free = name_free [OF assms(1)]
  let ?f = "seg_name p (length ss)"
  have "?f \<notin> fst ` set dir" using free by (simp add: map_of_eq_None_iff)
  then have dist: "distinct (map fst (dir @ [(?f, Regular 1 [])]))" using assms(1) by (simp add: files_def)
  have names: "set (numbered_names (dir @ [(?f, Regular 1 [])]) p) = seg_name p ` {1..<length (ss @ [[]])}"
  proof (cases "ss = []")
    case True
    then show ?thesis using assms(1) not_prefix_self by (simp add: files_def seg_name_def)
  next
    case False
    then have one: "1 \<le> length ss" by (simp add: Suc_le_eq)
    then have "{1..<length (ss @ [[]])} = insert (length ss) {1..<length ss}" by auto
    then show ?thesis using assms(1) seg_name_prefix [OF one] by (simp add: files_def)
  qed
  have "map_of (dir @ [(?f, Regular 1 [])]) (seg_name p k) = Some (Regular 1 ((ss @ [[]]) ! k))"
    if "k < length (ss @ [[]])" for k
  proof (cases "k = length ss")
    case True
    then show ?thesis using free by (simp add: map_add_def)
  next
    case False
    then have "map_of dir (seg_name p k) = Some (Regular 1 (ss ! k))" using assms(1) that by (simp add: files_def)
    with False that show ?thesis by (simp add: map_add_def nth_append seg_name_inj split: option.split)
  qed
  with dist names assms(2) show ?thesis unfolding files_def by simp
qed

lemma stop_name: "seg_name p k \<noteq> p @ CAPTURE_STOP_SUFFIX"
  by (simp add: seg_name_def CAPTURE_STOP_SUFFIX_def)

lemma files_stop: "files p ss dir \<Longrightarrow> files p ss (recordStorageStop p dir)"
proof -
  assume fs: "files p ss dir"
  let ?m = "p @ CAPTURE_STOP_SUFFIX"
  have look: "map_of (recordStorageStop p dir) g = map_of dir g" if "g \<noteq> ?m" for g
    using that by (induction dir) (auto simp: recordStorageStop_def)
  have no: "\<not> starts_with ?m (p @ ''.part-'')" by (simp add: starts_with_def CAPTURE_STOP_SUFFIX_def)
  have "filter (\<lambda>name. starts_with name (p @ ''.part-'')) (map fst (filter (\<lambda>(n, e). n \<noteq> ?m) dir)) =
      filter (\<lambda>name. starts_with name (p @ ''.part-'')) (map fst dir)"
    using no by (induction dir) auto
  then have numbered: "numbered_names (recordStorageStop p dir) p = numbered_names dir p"
    using no by (simp add: numbered_names_def recordStorageStop_def)
  have "distinct (map fst (filter (\<lambda>(n, e). n \<noteq> ?m) dir))"
    using fs by (auto simp: files_def intro: distinct_map_filter)
  then have dist: "distinct (map fst (recordStorageStop p dir))"
    by (auto simp: recordStorageStop_def)
  have "p \<noteq> ?m" by (simp add: CAPTURE_STOP_SUFFIX_def)
  with fs show ?thesis unfolding files_def numbered using dist look stop_name by auto
qed

section \<open>The invariant of the loop\<close>

definition cap_ok :: "string \<Rightarrow> byte list list \<Rightarrow> capture \<Rightarrow> bool" where
  "cap_ok p ss c \<longleftrightarrow> files p ss (cp_dir c) \<and> 1 \<le> cp_segmentBytes c \<and> cp_index c \<le> MAX_TRANSCRIPT_SEGMENTS \<and>
     (if cp_newSegment c
      then cp_index c = length ss \<and> cp_segmentSize c = 0 \<and> cp_output c = None \<and>
           list_all (\<lambda>s. length s = cp_segmentBytes c) ss
      else ss \<noteq> [] \<and> cp_index c = length ss - 1 \<and> cp_segmentSize c = length (last ss) \<and>
           even_segments (cp_segmentBytes c) ss \<and>
           (cp_output c = None \<or> cp_output c = Some (seg_name p (length ss - 1))))"

lemma cap_ok_cong:
  assumes "cap_ok p ss c" "files p ss (cp_dir d)" "cp_segmentBytes d = cp_segmentBytes c" "cp_index d = cp_index c"
    "cp_newSegment d = cp_newSegment c" "cp_segmentSize d = cp_segmentSize c" "cp_output d = cp_output c"
  shows "cap_ok p ss d"
  using assms unfolding cap_ok_def by (cases "cp_newSegment c") auto

lemma even_full:
  assumes "ss \<noteq> []" "even_segments b ss" "length (last ss) = b"
  shows "list_all (\<lambda>s. length s = b) ss"
proof -
  have "list_all (\<lambda>s. length s = b) (butlast ss @ [last ss])"
    using assms by (simp add: even_segments_def del: append_butlast_last_id)
  then show ?thesis unfolding append_butlast_last_id [OF assms(1)] .
qed

lemma rotate_ok:
  assumes "cap_ok p ss c" "rotate_segment p c = Inr d"
  shows "cap_ok p ss d \<and> cp_segmentSize d < cp_segmentBytes d \<and> cp_segmentBytes d = cp_segmentBytes c \<and>
    cp_remaining d = cp_remaining c \<and> cp_stopped d = cp_stopped c"
proof (cases "cp_segmentSize c = cp_segmentBytes c")
  case True
  with assms(1) have old: "\<not> cp_newSegment c" by (auto simp: cap_ok_def)
  obtain f where f: "segmentPath p (cp_index c + 1) = Inr f"
    and d: "d = c\<lparr>cp_output := None, cp_index := cp_index c + 1, cp_segmentSize := 0, cp_newSegment := True\<rparr>"
    using assms(2) True by (auto simp: rotate_segment_def split: sum.splits)
  have max: "cp_index c + 1 \<le> MAX_TRANSCRIPT_SEGMENTS" using segmentPath_Inr [OF f] by simp
  have c: "files p ss (cp_dir c)" "1 \<le> cp_segmentBytes c" "ss \<noteq> []" "cp_index c = length ss - 1"
    "cp_segmentSize c = length (last ss)" "even_segments (cp_segmentBytes c) ss"
    using assms(1) old by (simp_all add: cap_ok_def)
  have "list_all (\<lambda>s. length s = cp_segmentBytes c) ss"
    using even_full [OF c(3,6)] c(5) True by argo
  moreover have "cp_index c + 1 = length ss" using c(3,4) by (cases ss) simp_all
  ultimately show ?thesis using c(1,2) max unfolding d cap_ok_def by simp
next
  case False
  then have "d = c" using assms(2) by (simp add: rotate_segment_def)
  with assms(1) False show ?thesis by (auto simp: cap_ok_def even_segments_def split: if_splits)
qed

lemma open_ok:
  assumes ok: "cap_ok p ss c"
  shows "\<exists>ss2 c2. open_output p c = Inr (seg_name p (length ss2 - 1), c2) \<and> cap_ok p ss2 c2 \<and> \<not> cp_newSegment c2 \<and>
    concat ss2 = concat ss \<and> cp_segmentBytes c2 = cp_segmentBytes c \<and> cp_segmentSize c2 = cp_segmentSize c \<and>
    cp_remaining c2 = cp_remaining c \<and> cp_stopped c2 = cp_stopped c"
proof (cases "cp_newSegment c")
  case True
  let ?f = "seg_name p (length ss)"
  have len: "length ss \<le> MAX_TRANSCRIPT_SEGMENTS" "cp_index c = length ss" "cp_output c = None"
    using ok True by (auto simp: cap_ok_def)
  have path: "(if cp_index c = 0 then Inr p else segmentPath p (cp_index c)) = Inr ?f"
    using len segmentPath_name [of "length ss" p] by (cases "ss = []") (simp_all add: seg_name_def [of p 0] Suc_le_eq)
  have free: "map_of (cp_dir c) ?f = None" using ok by (auto simp: cap_ok_def intro: name_free)
  let ?c2 = "c\<lparr>cp_output := Some ?f, cp_newSegment := False, cp_dir := cp_dir c @ [(?f, Regular 1 [])]\<rparr>"
  have "open_output p c = Inr (?f, ?c2)"
    using True by (simp add: open_output_def len(3) path free)
  moreover have "cap_ok p (ss @ [[]]) ?c2"
    using ok True len files_new [of p ss "cp_dir c"] by (auto simp: cap_ok_def even_segments_def)
  ultimately show ?thesis by (intro exI [of _ "ss @ [[]]"] exI [of _ ?c2]) simp
next
  case False
  let ?f = "seg_name p (length ss - 1)"
  have ne: "ss \<noteq> []" and idx: "cp_index c = length ss - 1" "cp_index c \<le> MAX_TRANSCRIPT_SEGMENTS"
    and fs: "files p ss (cp_dir c)" and out: "cp_output c = None \<or> cp_output c = Some ?f"
    using ok False by (auto simp: cap_ok_def)
  have path: "(if cp_index c = 0 then Inr p else segmentPath p (cp_index c)) = Inr ?f"
    using idx segmentPath_name [of "length ss - 1" p] by (auto simp: seg_name_def Suc_le_eq)
  have entry: "map_of (cp_dir c) ?f = Some (Regular 1 (last ss))"
    using fs ne by (simp add: files_def last_conv_nth)
  let ?c2 = "c\<lparr>cp_output := Some ?f\<rparr>"
  have "open_output p c = Inr (?f, ?c2)"
  proof (cases "cp_output c")
    case None
    show ?thesis unfolding open_output_def None path using False entry by simp
  next
    case (Some g)
    then have "c\<lparr>cp_output := Some ?f\<rparr> = c" using out by simp
    with Some out show ?thesis by (simp add: open_output_def)
  qed
  moreover have "cap_ok p ss ?c2" using ok False by (simp add: cap_ok_def)
  ultimately show ?thesis using False by (intro exI [of _ ss] exI [of _ ?c2]) simp
qed

text \<open>Writing a portion that fits.\<close>

lemma write_ok:
  assumes ok: "cap_ok p ss c" and old: "\<not> cp_newSegment c" and fits: "length w \<le> cp_segmentBytes c - cp_segmentSize c"
    "cp_segmentSize c \<le> cp_segmentBytes c"
  shows "cap_ok p (butlast ss @ [last ss @ w]) (c\<lparr>cp_dir := append_bytes (seg_name p (length ss - 1)) w (cp_dir c),
      cp_remaining := r, cp_segmentSize := cp_segmentSize c + length w\<rparr>)"
proof -
  have "ss \<noteq> []" "files p ss (cp_dir c)" using ok old by (auto simp: cap_ok_def)
  then have "files p (butlast ss @ [last ss @ w]) (append_bytes (seg_name p (length ss - 1)) w (cp_dir c))"
    by (intro files_append)
  moreover have "even_segments (cp_segmentBytes c) ss" "cp_segmentSize c = length (last ss)"
    using ok old by (simp_all add: cap_ok_def)
  then have "even_segments (cp_segmentBytes c) (butlast ss @ [last ss @ w])"
    using fits by (simp add: even_segments_def)
  moreover have "length (butlast ss @ [last ss @ w]) = length ss" using \<open>ss \<noteq> []\<close> by simp
  ultimately show ?thesis using ok old unfolding cap_ok_def by simp
qed

lemma concat_write: "ss \<noteq> [] \<Longrightarrow> concat (butlast ss @ [last ss @ w]) = concat ss @ w"
proof -
  assume "ss \<noteq> []"
  then have "concat ss = concat (butlast ss @ [last ss])" by simp
  then show ?thesis by (simp del: append_butlast_last_id)
qed

section \<open>One pass and the loops\<close>

text \<open>
  What a pass does to the byte string: it appends the piece \<open>w\<close> it takes from the chunk. It
  takes nothing only when it stops for lack of space.
\<close>

definition pass_ok :: "string \<Rightarrow> byte list list \<Rightarrow> capture \<Rightarrow> byte list list \<Rightarrow> capture \<Rightarrow> byte list \<Rightarrow> bool" where
  "pass_ok p ss c ss' c' w \<longleftrightarrow> cap_ok p ss' c' \<and> (ss \<noteq> [] \<longrightarrow> ss' \<noteq> []) \<and> concat ss' = concat ss @ w \<and>
     cp_remaining c = length w + cp_remaining c' \<and>
     (case cp_stopped c' of
        None \<Rightarrow> 0 < cp_remaining c'
      | Some r \<Rightarrow> if r = ''transcript_limit'' then cp_remaining c' = 0
          else r = ''storage_reserve'' \<and> map_of (cp_dir c') (p @ CAPTURE_STOP_SUFFIX) = Some (Regular 1 stop_record))"

lemma stop_recorded: "map_of (recordStorageStop p dir) (p @ CAPTURE_STOP_SUFFIX) = Some (Regular 1 stop_record)"
  by (simp add: recordStorageStop_def)

lemma stop_bookkeeping:
  "n \<le> r \<Longrightarrow> r = n + (r - n) \<and> (case (if r - n = 0 then Some ''transcript_limit'' else None) of
     None \<Rightarrow> 0 < r - n | Some x \<Rightarrow> if x = ''transcript_limit'' then r - n = 0 else Q x)" for n r :: nat
  by auto

lemma step_ok:
  assumes ok: "cap_ok p ss c" and go: "cp_stopped c = None" "0 < cp_remaining c" "chunk \<noteq> []"
    and step: "capture_step space mf p chunk c = Inr (c', rest)"
  shows "\<exists>ss' w. pass_ok p ss c ss' c' w \<and> chunk = w @ rest \<and> (cp_stopped c' = None \<longrightarrow> w \<noteq> [])"
proof -
  obtain d where rot: "rotate_segment p c = Inr d"
    using step by (auto simp: capture_step_def split: sum.splits)
  note d = rotate_ok [OF ok rot]
  let ?n = "min (length chunk) (min (cp_remaining d) (cp_segmentBytes d - cp_segmentSize d))"
  let ?w = "take ?n chunk"
  let ?d1 = "d\<lparr>cp_inspections := cp_inspections d + (if mf > 0 then 1 else 0)\<rparr>"
  have n: "0 < ?n" using d go by (cases chunk) simp_all
  have lw: "length ?w = ?n" by simp
  have ok1: "cap_ok p ss ?d1" by (rule cap_ok_cong [OF conjunct1 [OF d]]) (use d in \<open>simp_all add: cap_ok_def\<close>)
  show ?thesis
  proof (cases "mf > 0 \<and> \<not> space_sufficient space mf (length ?w) d")
    case True
    then have c': "c' = ?d1\<lparr>cp_dir := recordStorageStop p (cp_dir ?d1), cp_stopped := Some ''storage_reserve''\<rparr>" "rest = chunk"
      using step by (simp_all add: capture_step_def rot Let_def)
    have "files p ss (cp_dir d)" using d by (simp add: cap_ok_def)
    then have "cap_ok p ss c'"
      by (intro cap_ok_cong [OF conjunct1 [OF d]]) (simp_all add: c' files_stop)
    then have "pass_ok p ss c ss c' []" using d by (simp add: pass_ok_def c' stop_recorded)
    then show ?thesis using c' by (intro exI [of _ ss] exI [of _ "[]"]) simp
  next
    case False
    obtain ss2 c2 where o: "open_output p ?d1 = Inr (seg_name p (length ss2 - 1), c2)" and c2: "cap_ok p ss2 c2" "\<not> cp_newSegment c2"
      and s2: "concat ss2 = concat ss" "cp_segmentBytes c2 = cp_segmentBytes d" "cp_segmentSize c2 = cp_segmentSize d"
        "cp_remaining c2 = cp_remaining d" "cp_stopped c2 = cp_stopped d"
      using open_ok [OF ok1] by auto
    let ?c3 = "c2\<lparr>cp_dir := append_bytes (seg_name p (length ss2 - 1)) ?w (cp_dir c2),
      cp_remaining := cp_remaining c2 - length ?w, cp_segmentSize := cp_segmentSize c2 + length ?w\<rparr>"
    have "capture_step space mf p chunk c =
        Inr (if cp_remaining ?c3 = 0 then ?c3\<lparr>cp_stopped := Some ''transcript_limit''\<rparr> else ?c3, drop ?n chunk)"
      unfolding capture_step_def rot sum.case Let_def if_not_P [OF False] o prod.case ..
    then have c': "c' = (if cp_remaining ?c3 = 0 then ?c3\<lparr>cp_stopped := Some ''transcript_limit''\<rparr> else ?c3)" "rest = drop ?n chunk"
      unfolding step by (simp_all only: sum.inject prod.inject)
    have ne: "ss2 \<noteq> []" using c2 by (auto simp: cap_ok_def)
    let ?ss' = "butlast ss2 @ [last ss2 @ ?w]"
    have fits: "length ?w \<le> cp_segmentBytes c2 - cp_segmentSize c2" "cp_segmentSize c2 \<le> cp_segmentBytes c2"
      using d by (simp_all add: s2)
    have ok3: "cap_ok p ?ss' ?c3" by (rule write_ok [OF c2 fits])
    then have fs3: "files p ?ss' (cp_dir ?c3)" unfolding cap_ok_def by (elim conjE)
    have ok': "cap_ok p ?ss' c'"
      by (rule cap_ok_cong [OF ok3]) (use fs3 in \<open>simp_all add: c'\<close>)
    have rem: "cp_remaining c' = cp_remaining c - ?n" "cp_stopped c' = (if cp_remaining c - ?n = 0 then Some ''transcript_limit'' else None)"
      unfolding c' using d go by (simp_all add: s2)
    have le: "?n \<le> cp_remaining c" using d by simp
    have ne': "ss \<noteq> [] \<longrightarrow> ?ss' \<noteq> []" by simp
    have cc: "concat ?ss' = concat ss @ ?w" using concat_write [OF ne, of ?w] s2(1) by simp
    have "pass_ok p ss c ?ss' c' ?w"
      unfolding pass_ok_def rem lw cc by (intro conjI ok' ne' refl conjunct1 [OF stop_bookkeeping [OF le]] conjunct2 [OF stop_bookkeeping [OF le]])
    moreover have "chunk = ?w @ rest" unfolding c'(2) by simp
    moreover have "?w \<noteq> []" using n lw by (metis less_numeral_extra(3) list.size(3))
    ultimately show ?thesis by blast
  qed
qed

lemma pass_trans:
  assumes "pass_ok p ss c ss1 c1 w1" "pass_ok p ss1 c1 ss2 c2 w2"
  shows "pass_ok p ss c ss2 c2 (w1 @ w2)"
  using assms by (simp add: pass_ok_def)

lemma pass_refl: "cap_ok p ss c \<Longrightarrow> cp_stopped c = None \<Longrightarrow> 0 < cp_remaining c \<Longrightarrow> pass_ok p ss c ss c []"
  by (simp add: pass_ok_def)

text \<open>The loop over a chunk ends, and takes all of it unless it stops or fails.\<close>

lemma chunk_ok:
  assumes "cap_ok p ss c" "cp_stopped c = None" "0 < cp_remaining c"
  shows "\<exists>c' a ss' w rest. capture_chunk space mf p chunk c = Some (c', a) \<and> pass_ok p ss c ss' c' w \<and>
    chunk = w @ rest \<and> (a = Inr () \<longrightarrow> cp_stopped c' = None \<longrightarrow> rest = []) \<and> (a \<noteq> Inr () \<longrightarrow> cp_stopped c' = None)"
  using assms
proof (induction "length chunk" arbitrary: chunk ss c rule: less_induct)
  case less
  show ?case
  proof (cases "chunk = []")
    case True
    with less.prems pass_refl [OF less.prems] show ?thesis
      by (subst capture_chunk.simps) auto
  next
    case False
    have unf: "capture_chunk space mf p chunk c = (case capture_step space mf p chunk c of
         Inl e \<Rightarrow> Some (c, Inl e) | Inr (c', rest) \<Rightarrow> capture_chunk space mf p rest c')"
      by (subst capture_chunk.simps) (simp add: False less.prems(2))
    show ?thesis
    proof (cases "capture_step space mf p chunk c")
      case (Inl e)
      then have "capture_chunk space mf p chunk c = Some (c, Inl e)" by (simp add: unf)
      moreover have "chunk = [] @ chunk" by simp
      ultimately show ?thesis using pass_refl [OF less.prems] less.prems(2) by blast
    next
      case (Inr cr)
      obtain c1 rest where cr: "cr = (c1, rest)" by (cases cr)
      obtain ss1 w where one: "pass_ok p ss c ss1 c1 w" "chunk = w @ rest" "cp_stopped c1 = None \<longrightarrow> w \<noteq> []"
        using step_ok [OF less.prems False] Inr cr by blast
      have unf1: "capture_chunk space mf p chunk c = capture_chunk space mf p rest c1" by (simp add: unf Inr cr)
      show ?thesis
      proof (cases "cp_stopped c1 = None")
        case True
        then have "length rest < length chunk" "cap_ok p ss1 c1" "0 < cp_remaining c1"
          using one by (auto simp: pass_ok_def)
        from less.hyps [OF this(1,2) True this(3)] obtain c' a ss' w' rest' where
          two: "capture_chunk space mf p rest c1 = Some (c', a)" "pass_ok p ss1 c1 ss' c' w'" "rest = w' @ rest'"
          "a = Inr () \<longrightarrow> cp_stopped c' = None \<longrightarrow> rest' = []" "a \<noteq> Inr () \<longrightarrow> cp_stopped c' = None"
          by (elim exE conjE) (rule that)
        have "chunk = (w @ w') @ rest'" using one(2) two(3) by simp
        then show ?thesis unfolding unf1
          by (intro exI conjI) (rule two pass_trans [OF one(1) two(2)] | assumption)+
      next
        case False
        then have "capture_chunk space mf p rest c1 = Some (c1, Inr ())" by (subst capture_chunk.simps) simp
        then have "capture_chunk space mf p chunk c = Some (c1, Inr ())" by (simp only: unf1)
        moreover have "(Inr () :: transcript_exc + unit) = Inr () \<longrightarrow> cp_stopped c1 = None \<longrightarrow> rest = []"
          "(Inr () :: transcript_exc + unit) \<noteq> Inr () \<longrightarrow> cp_stopped c1 = None" using False by auto
        ultimately show ?thesis using one(1,2) by (intro exI conjI) assumption+
      qed
    qed
  qed
qed

lemma chunks_ok:
  assumes "cap_ok p ss c" "cp_stopped c = None" "0 < cp_remaining c"
  shows "\<exists>c' a ss' w rest. capture_chunks space mf p chunks c = Some (c', a) \<and> pass_ok p ss c ss' c' w \<and>
    concat chunks = w @ rest \<and> (a = Inr () \<longrightarrow> cp_stopped c' = None \<longrightarrow> rest = [])"
  using assms
proof (induction chunks arbitrary: ss c)
  case Nil
  with pass_refl [OF Nil] show ?case by auto
next
  case (Cons chunk chunks)
  obtain c1 a ss1 w rest where one: "capture_chunk space mf p chunk c = Some (c1, a)" "pass_ok p ss c ss1 c1 w"
    "chunk = w @ rest" "a = Inr () \<longrightarrow> cp_stopped c1 = None \<longrightarrow> rest = []" "a \<noteq> Inr () \<longrightarrow> cp_stopped c1 = None"
    using chunk_ok [OF Cons.prems, of space mf chunk] by (elim exE conjE) (rule that)
  show ?case
  proof (cases "a = Inr () \<and> cp_stopped c1 = None")
    case True
    then have "cap_ok p ss1 c1" "0 < cp_remaining c1" using one(2) by (auto simp: pass_ok_def)
    from Cons.IH [OF this(1) conjunct2 [OF True] this(2)] obtain c' b ss' w' rest' where
      two: "capture_chunks space mf p chunks c1 = Some (c', b)" "pass_ok p ss1 c1 ss' c' w'" "concat chunks = w' @ rest'"
        "b = Inr () \<longrightarrow> cp_stopped c' = None \<longrightarrow> rest' = []" by (elim exE conjE) (rule that)
    have "capture_chunks space mf p (chunk # chunks) c = Some (c', b)" using one(1) two(1) True Cons.prems(2) by simp
    moreover have "concat (chunk # chunks) = (w @ w') @ rest'" using one(3,4) two(3) True by simp
    ultimately show ?thesis using pass_trans [OF one(2) two(2)] two(4) by (intro exI conjI) assumption+
  next
    case False
    have "capture_chunks space mf p (chunk # chunks) c = Some (c1, a)"
    proof (cases a)
      case (Inr u)
      with False have "cp_stopped c1 \<noteq> None" by simp
      then have "capture_chunks space mf p chunks c1 = Some (c1, Inr ())" by (cases chunks) simp_all
      with Inr one(1) Cons.prems(2) show ?thesis by simp
    qed (use one(1) Cons.prems(2) in simp)
    moreover have "concat (chunk # chunks) = w @ (rest @ concat chunks)" using one(3) by simp
    moreover have "a = Inr () \<longrightarrow> cp_stopped c1 = None \<longrightarrow> rest @ concat chunks = []" using False by blast
    ultimately show ?thesis using one(2) by (intro exI conjI) assumption+
  qed
qed

section \<open>The whole program\<close>

lemma seg_size_last: "ss \<noteq> [] \<Longrightarrow> seg_size (last (segments_from p k start ss)) = length (last ss)"
  by (induction ss arbitrary: k start) (auto simp: neq_Nil_conv)

lemma segments_from_length [simp]: "length (segments_from p k start ss) = length ss"
  by (induction ss arbitrary: k start) auto

lemma segments_from_empty [simp]: "segments_from p k start ss = [] \<longleftrightarrow> ss = []"
  by (cases ss) simp_all

lemma layout_of_cap_ok:
  assumes ok: "cap_ok p ss c" and ne: "ss \<noteq> []" and len: "length (concat ss) \<le> MAX_SAFE_INTEGER"
  shows "layout p ss (cp_dir c)"
proof (cases "length ss = 1")
  case True
  then show ?thesis using ok ne len by (simp add: layout_def cap_ok_def)
next
  case False
  have ev: "even_segments (cp_segmentBytes c) ss"
  proof (cases "cp_newSegment c")
    case True
    then have all: "list_all (\<lambda>s. length s = cp_segmentBytes c) ss" using ok by (simp add: cap_ok_def)
    then have "length (last ss) = cp_segmentBytes c" using ne by (simp add: list_all_iff)
    with all show ?thesis by (auto simp: even_segments_def list_all_iff dest: in_set_butlastD)
  qed (use ok in \<open>simp add: cap_ok_def\<close>)
  obtain s t rest where ss: "ss = s # t # rest" using False ne by (cases ss; cases "tl ss") auto
  then have "length (hd ss) = cp_segmentBytes c" using ev by (simp add: even_segments_def)
  with ev ok ne len show ?thesis by (simp add: layout_def cap_ok_def)
qed

lemma capture_start_ok:
  assumes lay: "layout p ss dir" and cfg: "1 \<le> b" "1 \<le> maximum"
    and inv: "inventory_of = \<lparr>inv_segments = segments_from p 0 0 ss, inv_size = length (concat ss),
      inv_missing = False, inv_segmentBytes = (if length ss = 1 then min b maximum else length (hd ss))\<rparr>"
    and room: "length (concat ss) < maximum"
  shows "cap_ok p ss (capture_start dir maximum b inventory_of)"
proof -
  have fs: "files p ss dir" "ss \<noteq> []" using lay by (simp_all add: layout_def)
  then have max: "length ss - 1 \<le> MAX_TRANSCRIPT_SEGMENTS" by (auto simp: files_def)
  let ?c = "capture_start dir maximum b inventory_of"
  have fields: "cp_dir ?c = dir" "cp_index ?c = length ss - 1" "cp_newSegment ?c = False" "cp_output ?c = None"
    "cp_segmentSize ?c = length (last ss)"
    using fs(2) by (simp_all add: capture_start_def Let_def inv seg_size_last)
  have "1 \<le> cp_segmentBytes ?c \<and> even_segments (cp_segmentBytes ?c) ss"
  proof (cases "length ss = 1")
    case True
    then obtain s where "ss = [s]" by (cases ss) auto
    then show ?thesis using cfg room by (simp add: capture_start_def Let_def inv even_single)
  next
    case False
    then have "1 < length ss" using fs(2) by (cases ss) auto
    then show ?thesis using lay False by (simp add: capture_start_def Let_def inv layout_def)
  qed
  with fs max fields show ?thesis by (simp add: cap_ok_def)
qed

lemma capture_start_fields: "cp_stopped (capture_start dir m b i) = None" "cp_remaining (capture_start dir m b i) = m - inv_size i"
  by (simp_all add: capture_start_def Let_def)

text \<open>
  C19. The capture program ends on every input, and to a reader the transcript it leaves is
  the old one followed by a piece \<open>w\<close> from the front of the input: the inventory accepts the
  directory and gives the total size, and every bounded read returns that slice of the byte
  string, across segment boundaries. \<open>w\<close> is the whole input when the program ends without a
  stop, and reaches the ceiling when it reports \<^verbatim>\<open>transcript_limit\<close>; the ceiling is never
  passed, and a stop for lack of space leaves its marker.
\<close>

theorem capture_refines_append:
  assumes lay: "layout p ss dir" and p: "p \<noteq> []" and m: "1 \<le> maximum" "maximum \<le> MAX_SAFE_INTEGER"
    and b: "1 \<le> b" "b \<le> MAX_SAFE_INTEGER" and mf: "mf \<le> MAX_SAFE_INTEGER"
  shows "\<exists>dir' a w rest inv. captureTranscript space p maximum mf b chunks dir = Some (dir', a) \<and>
    concat chunks = w @ rest \<and> length (concat ss @ w) \<le> max maximum (length (concat ss)) \<and>
    inspectTranscriptSegments dir' p b = Inr inv \<and> inv_size inv = length (concat ss @ w) \<and>
    (\<forall>offset len. offset + len \<le> length (concat ss @ w) \<longrightarrow> len \<le> 256 * 1024 + 3 \<longrightarrow>
      readTranscriptBytes dir' (inv_segments inv) offset len = Inr (take len (drop offset (concat ss @ w)))) \<and>
    (a = Inr None \<longrightarrow> rest = []) \<and>
    (a = Inr (Some ''transcript_limit'') \<longrightarrow> maximum \<le> length (concat ss @ w)) \<and>
    (a = Inr (Some ''storage_reserve'') \<longrightarrow> map_of dir' (p @ CAPTURE_STOP_SUFFIX) = Some (Regular 1 stop_record))"
proof -
  have checks: "\<not> (p = [] \<or> maximum < 1 \<or> maximum > MAX_SAFE_INTEGER \<or> mf > MAX_SAFE_INTEGER \<or> b < 1 \<or> b > MAX_SAFE_INTEGER)"
    using p m b mf by simp
  let ?inv = "\<lparr>inv_segments = segments_from p 0 0 ss, inv_size = length (concat ss),
      inv_missing = False, inv_segmentBytes = (if length ss = 1 then min b maximum else length (hd ss))\<rparr>"
  have insp: "inspectTranscriptSegments dir p (min b maximum) = Inr ?inv"
    using inspect_layout [OF lay, of "min b maximum"] b m by simp
  let ?c = "capture_start dir maximum b ?inv"
  have reads: "\<exists>inv. inspectTranscriptSegments d p b = Inr inv \<and> inv_size inv = length (concat ts) \<and>
    (\<forall>offset len. offset + len \<le> length (concat ts) \<longrightarrow> len \<le> 256 * 1024 + 3 \<longrightarrow>
      readTranscriptBytes d (inv_segments inv) offset len = Inr (take len (drop offset (concat ts))))"
    if "layout p ts d" for ts d
    using inspect_layout [OF that b] read_layout [OF that] by simp
  show ?thesis
  proof (cases "length (concat ss) < maximum")
    case False
    then have "captureTranscript space p maximum mf b chunks dir = Some (dir, Inr (Some ''transcript_limit''))"
      unfolding captureTranscript_def if_not_P [OF checks] insp by (simp add: capture_start_fields Let_def)
    then show ?thesis using reads [OF lay] False
      by (intro exI [of _ dir] exI [of _ "Inr (Some ''transcript_limit'')"] exI [of _ "[]"] exI [of _ "concat chunks"]) auto
  next
    case True
    have ok: "cap_ok p ss ?c" using capture_start_ok [OF lay b(1) m(1) refl True] .
    have start: "cp_stopped ?c = None" "cp_remaining ?c = maximum - length (concat ss)" by (simp_all add: capture_start_fields)
    with True have pos: "0 < cp_remaining ?c" by simp
    obtain c' a ss' w rest where run: "capture_chunks space mf p chunks ?c = Some (c', a)"
      and pass: "pass_ok p ss ?c ss' c' w" and input: "concat chunks = w @ rest"
      and all: "a = Inr () \<longrightarrow> cp_stopped c' = None \<longrightarrow> rest = []"
      using chunks_ok [OF ok start(1) pos, of space mf chunks] by (elim exE conjE) (rule that)
    have cc: "concat ss' = concat ss @ w" and ok': "cap_ok p ss' c'" and rem: "maximum - length (concat ss) = length w + cp_remaining c'"
      using pass start by (simp_all add: pass_ok_def)
    have le: "length (concat ss @ w) \<le> maximum" using rem True by simp
    have ne: "ss' \<noteq> []" using pass lay by (simp add: pass_ok_def layout_def)
    have "length (concat ss') \<le> MAX_SAFE_INTEGER" unfolding cc using le m(2) by (rule order.trans)
    then have lay': "layout p ss' (cp_dir c')" by (rule layout_of_cap_ok [OF ok' ne])
    let ?a = "case a of Inl e \<Rightarrow> Inl e | Inr u \<Rightarrow> Inr (cp_stopped c')"
    have ret: "captureTranscript space p maximum mf b chunks dir = Some (cp_dir c', ?a)"
      unfolding captureTranscript_def if_not_P [OF checks] insp sum.case Let_def run
      using pos by (simp split: sum.split)
    have answers: "?a = Inr None \<longrightarrow> rest = []"
      "?a = Inr (Some ''transcript_limit'') \<longrightarrow> maximum \<le> length (concat ss @ w)"
      "?a = Inr (Some ''storage_reserve'') \<longrightarrow> map_of (cp_dir c') (p @ CAPTURE_STOP_SUFFIX) = Some (Regular 1 stop_record)"
      using all pass rem True by (auto simp: pass_ok_def split: sum.splits)
    have "length (concat ss @ w) \<le> max maximum (length (concat ss))" using le by (rule max.coboundedI1)
    moreover obtain inv where "inspectTranscriptSegments (cp_dir c') p b = Inr inv" "inv_size inv = length (concat ss @ w)"
      "\<forall>offset len. offset + len \<le> length (concat ss @ w) \<longrightarrow> len \<le> 256 * 1024 + 3 \<longrightarrow>
        readTranscriptBytes (cp_dir c') (inv_segments inv) offset len = Inr (take len (drop offset (concat ss @ w)))"
      using reads [OF lay'] unfolding cc by blast
    ultimately show ?thesis
      by (intro exI conjI) (rule ret input answers | assumption)+
  qed
qed

theorem capture_refines_append_witness:
  "captureTranscript (\<lambda>k. None) ''t'' 5 0 2 [[1, 2], [3, 4, 5, 6]] [(''t'', Regular 1 [])] =
    Some ([(''t'', Regular 1 [1, 2]), (''t.part-000001'', Regular 1 [3, 4]), (''t.part-000002'', Regular 1 [5])],
      Inr (Some ''transcript_limit'')) \<and>
    (\<exists>dir' a w rest. captureTranscript (\<lambda>k. None) ''t'' 5 0 2 [[1, 2], [3, 4, 5, 6]] [(''t'', Regular 1 [])] = Some (dir', a) \<and>
      [1, 2, 3, 4, 5, 6 :: byte] = w @ rest \<and> length w \<le> 5)"
proof
  have "layout ''t'' [[]] [(''t'', Regular 1 [])]"
    by (simp add: layout_def files_def numbered_names_def starts_with_def seg_name_def)
  moreover have "''t'' \<noteq> []" "(1::nat) \<le> 5" "5 \<le> MAX_SAFE_INTEGER" "(1::nat) \<le> 2" "2 \<le> MAX_SAFE_INTEGER" "0 \<le> MAX_SAFE_INTEGER"
    by (simp_all add: MAX_SAFE_INTEGER_def)
  ultimately obtain dir' a w rest where run:
    "captureTranscript (\<lambda>k. None) ''t'' 5 0 2 [[1, 2], [3, 4, 5, 6]] [(''t'', Regular 1 [])] = Some (dir', a)"
    and w: "concat [[1, 2], [3, 4, 5, 6 :: byte]] = w @ rest" "length (concat [[]] @ w) \<le> max 5 (length (concat [[] :: byte list]))"
    by (rule capture_refines_append [elim_format]) (elim exE conjE, rule that)
  then show "\<exists>dir' a w rest. captureTranscript (\<lambda>k. None) ''t'' 5 0 2 [[1, 2], [3, 4, 5, 6]] [(''t'', Regular 1 [])] = Some (dir', a) \<and>
      [1, 2, 3, 4, 5, 6 :: byte] = w @ rest \<and> length w \<le> 5"
    by (intro exI [of _ dir'] exI [of _ a] exI [of _ w] exI [of _ rest]) simp
next
  have zeros: "replicate 5 CHR ''0'' = ''00000''" by (simp add: numeral_eq_Suc)
  show "captureTranscript (\<lambda>k. None) ''t'' 5 0 2 [[1, 2], [3, 4, 5, 6]] [(''t'', Regular 1 [])] =
    Some ([(''t'', Regular 1 [1, 2]), (''t.part-000001'', Regular 1 [3, 4]), (''t.part-000002'', Regular 1 [5])],
      Inr (Some ''transcript_limit''))"
    by (simp add: captureTranscript_def MAX_SAFE_INTEGER_def inspectTranscriptSegments_def numbered_names_def starts_with_def
        regularSize_def inspect_from.simps capture_start_def capture_chunk.simps capture_step_def rotate_segment_def
        open_output_def append_bytes_def segmentPath_def MAX_TRANSCRIPT_SEGMENTS_def padStart_def show_nat_digit digit_char_def
        Let_def zeros)
qed

end
