(* ===== verification/Cursor.thy ===== *)
theory Cursor
  imports StateStore Transcript
begin

text \<open>
  Transcript cursors and the UTF-8 cut of \<^verbatim>\<open>apps/agent/src/tmux.js\<close> (\<open>encodeCursor\<close>,
  \<open>parseCursor\<close>, \<open>utf8SequenceLength\<close>, \<open>utf8SafePrefixLength\<close>), with the round trip of
  cursors and the alignment of the cut.
\<close>

section \<open>Cursors\<close>

definition CURSOR_VERSION :: nat where
  "CURSOR_VERSION = 1"

text \<open>Template rendering of an integer.\<close>

definition show_int :: "int \<Rightarrow> string" where
  "show_int n = (if n < 0 then CHR ''-'' # show_nat (nat (- n)) else show_nat (nat n))"

definition encodeCursor :: "session \<Rightarrow> int \<Rightarrow> string" where
  "encodeCursor s offset = ''v'' @ show_nat CURSOR_VERSION @ '':'' @ se_transcriptStreamId s @ '':''
     @ show_int (se_transcriptEpoch s) @ '':'' @ show_int offset"

text \<open>
  The argument of \<open>parseCursor\<close>: absent (\<^verbatim>\<open>undefined\<close>, \<^verbatim>\<open>null\<close>), a number (\<^term>\<open>None\<close> for one
  that is not an integer) or a text.
\<close>

datatype cursor_arg = NoCursor | NumberCursor "int option" | TextCursor string

definition invalid_cursor :: bridge_exc where
  "invalid_cursor = bridgeError ''invalid_cursor'' 400"

definition safe_offset :: "int option \<Rightarrow> bridge_exc + int \<times> bool" where
  "safe_offset n = (case n of
       None \<Rightarrow> Inl invalid_cursor
     | Some v \<Rightarrow> if v < 0 \<or> v > int MAX_SAFE_INTEGER then Inl invalid_cursor else Inr (v, False))"

text \<open>
  The four fields of \<^verbatim>\<open>/^v(\d+):([a-zA-Z0-9_-]{1,80}):(\d+):(\d+)$/\<close>: no class contains the
  colon, so the match exists exactly when the text splits into four fields of that shape.
\<close>

definition cursor_fields :: "string \<Rightarrow> (nat \<times> string \<times> nat \<times> nat) option" where
  "cursor_fields s = (case split_on CHR '':'' s of
       [v, stream, epoch, offset] \<Rightarrow>
         if v \<noteq> [] \<and> hd v = CHR ''v'' \<and> all_digits (tl v) \<and> SAFE_ID stream \<and> all_digits epoch \<and> all_digits offset
         then Some (read_nat (tl v), stream, read_nat epoch, read_nat offset) else None
     | _ \<Rightarrow> None)"

text \<open>The answer is the offset and whether the cursor belongs to another stream or epoch.\<close>

definition parseCursor :: "cursor_arg \<Rightarrow> session \<Rightarrow> bridge_exc + int \<times> bool" where
  "parseCursor value s = (case value of
       NoCursor \<Rightarrow> Inr (se_transcriptEarliestOffset s, False)
     | NumberCursor n \<Rightarrow> safe_offset n
     | TextCursor t \<Rightarrow>
         if t = [] then Inr (se_transcriptEarliestOffset s, False)
         else if all_digits t then safe_offset (Some (int (read_nat t)))
         else (case cursor_fields t of
            None \<Rightarrow> Inl invalid_cursor
          | Some (version, streamId, epoch, offset) \<Rightarrow>
              if version \<noteq> CURSOR_VERSION \<or> epoch > MAX_SAFE_INTEGER \<or> epoch < 1 \<or> offset > MAX_SAFE_INTEGER
              then Inl invalid_cursor
              else Inr (int offset, streamId \<noteq> se_transcriptStreamId s \<or> int epoch \<noteq> se_transcriptEpoch s)))"

lemma show_int_nat: "0 \<le> n \<Longrightarrow> show_int n = show_nat (nat n)"
  by (simp add: show_int_def)

lemma encode_fields:
  assumes "SAFE_ID (se_transcriptStreamId s)" "0 \<le> se_transcriptEpoch s" "0 \<le> n"
  shows "cursor_fields (encodeCursor s n) =
    Some (CURSOR_VERSION, se_transcriptStreamId s, nat (se_transcriptEpoch s), nat n)"
proof -
  let ?v = "''v'' @ show_nat CURSOR_VERSION"
  have e: "encodeCursor s n = ?v @ CHR '':'' # se_transcriptStreamId s @ CHR '':'' # show_nat (nat (se_transcriptEpoch s))
      @ CHR '':'' # show_nat (nat n)"
    using assms by (simp add: encodeCursor_def show_int_nat)
  have v: "CHR '':'' \<notin> set ?v" by simp
  have "split_on CHR '':'' (encodeCursor s n) =
      [?v, se_transcriptStreamId s, show_nat (nat (se_transcriptEpoch s)), show_nat (nat n)]"
    unfolding e by (simp only: split_on_append [OF v] split_on_append [OF SAFE_ID_no_colon [OF assms(1)]]
        split_on_append [OF show_nat_no_colon] split_on_no_sep [OF show_nat_no_colon])
  then show ?thesis using assms by (simp add: cursor_fields_def)
qed

lemma encode_shape: "encodeCursor s n \<noteq> [] \<and> \<not> all_digits (encodeCursor s n)"
  by (simp add: encodeCursor_def all_digits_def is_digit_def)

section \<open>UTF-8\<close>

unbundle bit_operations_syntax

definition utf8SequenceLength :: "byte \<Rightarrow> nat" where
  "utf8SequenceLength b =
     (if b AND 0x80 = 0 then 1
      else if b AND 0xe0 = 0xc0 then 2
      else if b AND 0xf0 = 0xe0 then 3
      else if b AND 0xf8 = 0xf0 then 4
      else 1)"

definition is_continuation :: "byte \<Rightarrow> bool" where
  "is_continuation b \<longleftrightarrow> b AND 0xc0 = 0x80"

text \<open>The loop \<^verbatim>\<open>while (lead > 0 && ...) lead -= 1\<close>.\<close>

fun find_lead :: "byte list \<Rightarrow> nat \<Rightarrow> nat" where
  "find_lead buffer 0 = 0"
| "find_lead buffer (Suc n) = (if is_continuation (buffer ! Suc n) then find_lead buffer n else Suc n)"

definition utf8SafePrefixLength :: "byte list \<Rightarrow> nat \<Rightarrow> nat" where
  "utf8SafePrefixLength buffer preferredLength =
     (let len = min preferredLength (length buffer) in
      if len = 0 then 0 else
      let lead = find_lead buffer (len - 1);
          expected = utf8SequenceLength (buffer ! lead);
          len' = (if lead + expected > len then lead else len)
      in if len' = 0 \<and> length buffer > 0
         then (let firstLength = utf8SequenceLength (buffer ! 0)
               in if firstLength \<le> length buffer then firstLength else len')
         else len')"

text \<open>A character: a lead byte that announces its length, then continuation bytes.\<close>

definition utf8_char :: "byte list \<Rightarrow> bool" where
  "utf8_char c \<longleftrightarrow> c \<noteq> [] \<and> length c = utf8SequenceLength (hd c) \<and> \<not> is_continuation (hd c) \<and>
     list_all is_continuation (tl c)"

definition utf8_text :: "byte list list \<Rightarrow> bool" where
  "utf8_text cs \<longleftrightarrow> list_all utf8_char cs"

lemma utf8_length: "1 \<le> utf8SequenceLength b" "utf8SequenceLength b \<le> 4"
  by (simp_all add: utf8SequenceLength_def)

lemma utf8_char_pos: "utf8_char c \<Longrightarrow> 1 \<le> length c \<and> length c \<le> 4"
  using utf8_length by (simp add: utf8_char_def)

text \<open>Where the lead byte of the last character in a cut is.\<close>

lemma find_lead_eq:
  assumes "k \<le> n" "\<not> is_continuation (buffer ! k)" "\<And>j. k < j \<Longrightarrow> j \<le> n \<Longrightarrow> is_continuation (buffer ! j)"
  shows "find_lead buffer n = k"
  using assms
proof (induction n)
  case (Suc n)
  show ?case
  proof (cases "k = Suc n")
    case True
    then show ?thesis using Suc.prems(2) by simp
  next
    case False
    then show ?thesis using Suc by simp
  qed
qed simp

lemma find_lead_numeral:
  "find_lead buffer (numeral k) =
    (if is_continuation (buffer ! numeral k) then find_lead buffer (pred_numeral k) else numeral k)"
  by (simp add: numeral_eq_Suc)

lemma char_lead: "utf8_char c \<Longrightarrow> \<not> is_continuation (c ! 0)"
  by (auto simp: utf8_char_def hd_conv_nth)

lemma char_tail: "utf8_char c \<Longrightarrow> 0 < j \<Longrightarrow> j < length c \<Longrightarrow> is_continuation (c ! j)"
proof -
  assume c: "utf8_char c" and j: "0 < j" "j < length c"
  then have "c ! j = tl c ! (j - 1)" "j - 1 < length (tl c)" by (simp_all add: nth_tl)
  then have "c ! j \<in> set (tl c)" by simp
  with c show ?thesis by (simp add: utf8_char_def list_all_iff)
qed

text \<open>A cut inside a text falls into one character.\<close>

lemma locate:
  assumes "utf8_text cs" "0 < n" "n \<le> length (concat cs)"
  shows "\<exists>pre c post r. cs = pre @ c # post \<and> n = length (concat pre) + r \<and> 0 < r \<and> r \<le> length c"
  using assms
proof (induction cs arbitrary: n)
  case (Cons d cs)
  show ?case
  proof (cases "n \<le> length d")
    case True
    with Cons.prems show ?thesis by (intro exI [of _ "[]"] exI [of _ d] exI [of _ cs] exI [of _ n]) simp
  next
    case False
    then have "0 < n - length d" "n - length d \<le> length (concat cs)" "utf8_text cs"
      using Cons.prems by (simp_all add: utf8_text_def)
    from Cons.IH [OF this(3,1,2)] obtain pre c post r where
      "cs = pre @ c # post" "n - length d = length (concat pre) + r" "0 < r" "r \<le> length c" by blast
    with False show ?thesis by (intro exI [of _ "d # pre"] exI [of _ c] exI [of _ post] exI [of _ r]) simp
  qed
qed simp

abbreviation bytes_of :: "nat \<Rightarrow> byte list list \<Rightarrow> nat" where
  "bytes_of k cs \<equiv> length (concat (take k cs))"

lemma bytes_mono: "j \<le> k \<Longrightarrow> bytes_of j cs \<le> bytes_of k cs"
proof -
  assume "j \<le> k"
  then have "take k cs = take j cs @ take (k - j) (drop j cs)" by (metis le_add_diff_inverse take_add)
  then show ?thesis by simp
qed

lemma bytes_strict:
  assumes "utf8_text cs" "j < k" "k \<le> length cs"
  shows "bytes_of j cs < bytes_of k cs"
proof -
  have "take (Suc j) cs = take j cs @ [cs ! j]" using assms by (simp add: take_Suc_conv_app_nth)
  moreover have "1 \<le> length (cs ! j)" using assms utf8_char_pos by (simp add: utf8_text_def list_all_iff)
  ultimately have "bytes_of j cs < bytes_of (Suc j) cs" by (cases "cs ! j") simp_all
  also have "\<dots> \<le> bytes_of k cs" using assms(2) by (intro bytes_mono) simp
  finally show ?thesis .
qed

text \<open>The value of the cut, by the character the preferred length falls into.\<close>

lemma safe_prefix_eq:
  assumes cs: "utf8_text (pre @ c # post)" and buf: "buf = take m (concat (pre @ c # post))"
    and n: "min p (length buf) = length (concat pre) + r" "0 < r" "r \<le> length c"
  shows "utf8SafePrefixLength buf p =
    (if r = length c then length (concat pre) + r
     else if concat pre \<noteq> [] then length (concat pre)
     else if length c \<le> length buf then length c else 0)"
proof -
  let ?a = "length (concat pre)"
  let ?n = "?a + r"
  have c: "utf8_char c" using cs by (simp add: utf8_text_def)
  have le: "?n \<le> length buf" using n(1) by simp
  have at: "buf ! (?a + j) = c ! j" if "j < length c" "?a + j < length buf" for j
  proof -
    have "?a + j < m" using that(2) by (simp add: buf)
    then have "buf ! (?a + j) = concat (pre @ c # post) ! (?a + j)" by (simp only: buf nth_take)
    also have "\<dots> = c ! j" using that(1) by (simp add: nth_append)
    finally show ?thesis .
  qed
  have lead: "find_lead buf (?n - 1) = ?a"
  proof (rule find_lead_eq)
    show "?a \<le> ?n - 1" using n(2) by simp
    show "\<not> is_continuation (buf ! ?a)" using at [of 0] char_lead [OF c] n le by (cases "c = []") simp_all
    show "is_continuation (buf ! j)" if "?a < j" "j \<le> ?n - 1" for j
      using at [of "j - ?a"] char_tail [OF c, of "j - ?a"] that n le by simp
  qed
  have first: "buf ! ?a = hd c" using at [of 0] n le c by (simp add: hd_conv_nth utf8_char_def)
  have expected: "utf8SequenceLength (buf ! ?a) = length c" using c by (simp add: first utf8_char_def)
  let ?len = "if ?a + length c > ?n then ?a else ?n"
  have nz: "?n \<noteq> 0" using n(2) by simp
  have core: "utf8SafePrefixLength buf p = (if ?len = 0 \<and> length buf > 0
      then (if utf8SequenceLength (buf ! 0) \<le> length buf then utf8SequenceLength (buf ! 0) else ?len) else ?len)"
    unfolding utf8SafePrefixLength_def n(1) Let_def if_not_P [OF nz] lead expected ..
  consider "r = length c" | "r < length c" "?a = 0" | "r < length c" "0 < ?a" using n(3) by linarith
  then show ?thesis
  proof cases
    case 2
    have "utf8SequenceLength (buf ! 0) = length c" using expected unfolding 2(2) .
    with 2 le n(2) show ?thesis unfolding core by (cases "buf = []") simp_all
  next
    case 1
    then have "?len = ?n" by simp
    with nz have "utf8SafePrefixLength buf p = ?n" unfolding core by presburger
    with 1 show ?thesis by simp
  next
    case 3
    then have "?len = ?a" by simp
    with 3 have "utf8SafePrefixLength buf p = ?a" unfolding core by presburger
    moreover have "concat pre \<noteq> []" using 3(2) by (metis length_greater_0_conv)
    ultimately show ?thesis using 3(1) by presburger
  qed
qed

lemma parse_encode:
  assumes "SAFE_ID (se_transcriptStreamId s)" "1 \<le> se_transcriptEpoch s" "se_transcriptEpoch s \<le> int MAX_SAFE_INTEGER"
    and "0 \<le> n" "n \<le> int MAX_SAFE_INTEGER"
  shows "parseCursor (TextCursor (encodeCursor s n)) t = Inr (n,
    se_transcriptStreamId s \<noteq> se_transcriptStreamId t \<or> se_transcriptEpoch s \<noteq> se_transcriptEpoch t)"
proof -
  have "\<not> (MAX_SAFE_INTEGER < nat (se_transcriptEpoch s) \<or> nat (se_transcriptEpoch s) < 1 \<or> MAX_SAFE_INTEGER < nat n)"
    using assms by linarith
  then show ?thesis using assms encode_shape [of s n] by (simp add: parseCursor_def encode_fields)
qed

lemma cut_aligned:
  assumes "utf8_text cs" "buf = take m (concat cs)"
  shows "\<exists>k \<le> length cs. utf8SafePrefixLength buf p = length (concat (take k cs)) \<and>
    length (concat (take k cs)) \<le> length buf \<and> (length (concat (take k cs)) \<le> p \<or> k = 1) \<and>
    (\<forall>j \<le> length cs. length (concat (take j cs)) \<le> min p (length buf) \<longrightarrow> j \<le> k) \<and>
    (0 < p \<and> cs \<noteq> [] \<and> length (hd cs) \<le> length buf \<longrightarrow> 0 < k)"
proof (cases "min p (length buf) = 0")
  case True
  then have "utf8SafePrefixLength buf p = 0" by (simp add: utf8SafePrefixLength_def Let_def)
  moreover have "j = 0" if "j \<le> length cs" "bytes_of j cs \<le> 0" for j
    using bytes_strict [OF assms(1), of 0 j] that by (cases j) auto
  moreover have "cs \<noteq> [] \<Longrightarrow> 0 < length (hd cs)"
    using assms(1) utf8_char_pos by (cases cs) (force simp: utf8_text_def)+
  ultimately show ?thesis using True by (intro exI [of _ 0]) (auto simp: min_def split: if_splits)
next
  case False
  have "min p (length buf) \<le> length (concat cs)" by (simp add: assms(2))
  with locate [OF assms(1), of "min p (length buf)"] False obtain pre c post r where
    loc: "cs = pre @ c # post" "min p (length buf) = length (concat pre) + r" "0 < r" "r \<le> length c" by auto
  have cut: "utf8SafePrefixLength buf p =
    (if r = length c then length (concat pre) + r
     else if concat pre \<noteq> [] then length (concat pre)
     else if length c \<le> length buf then length c else 0)"
    using assms loc by (intro safe_prefix_eq [where m = m and post = post]) simp_all
  have pre_bytes: "bytes_of (length pre) cs = length (concat pre)" and all_bytes: "bytes_of (Suc (length pre)) cs = length (concat pre) + length c"
    and len: "Suc (length pre) \<le> length cs" by (simp_all add: loc(1))
  have below: "j \<le> length pre" if "j \<le> length cs" "bytes_of j cs \<le> min p (length buf)" "r < length c" for j
  proof (rule ccontr)
    assume "\<not> j \<le> length pre"
    then have "bytes_of (Suc (length pre)) cs \<le> bytes_of j cs" by (intro bytes_mono) simp
    with that loc(2) all_bytes show False by simp
  qed
  have below': "j \<le> Suc (length pre)" if "j \<le> length cs" "bytes_of j cs \<le> min p (length buf)" "r = length c" for j
  proof (rule ccontr)
    assume "\<not> j \<le> Suc (length pre)"
    then have "bytes_of (Suc (length pre)) cs < bytes_of j cs" using that(1) by (intro bytes_strict [OF assms(1)]) simp_all
    with that loc(2) all_bytes show False by simp
  qed
  have pp: "length (concat pre) + r \<le> p" "length (concat pre) + r \<le> length buf" using loc(2) by simp_all
  have empty_pre: "pre = []" if "concat pre = []"
    using that assms(1) utf8_char_pos by (cases pre) (force simp: loc(1) utf8_text_def)+
  consider "r = length c" | "r < length c" "concat pre \<noteq> []" | "r < length c" "concat pre = []" "length c \<le> length buf"
    | "r < length c" "concat pre = []" "\<not> length c \<le> length buf" using loc(4) by linarith
  then show ?thesis
  proof cases
    case 1
    then show ?thesis using cut pp all_bytes len below' by (intro exI [of _ "Suc (length pre)"]) simp
  next
    case 2
    then have "pre \<noteq> []" by auto
    with 2 show ?thesis using cut pp pre_bytes len below by (intro exI [of _ "length pre"]) simp
  next
    case 3
    then show ?thesis using cut pp all_bytes len below empty_pre
      by (intro exI [of _ "Suc (length pre)"]) (force simp del: concat_eq_Nil_conv)
  next
    case 4
    then show ?thesis using cut pp pre_bytes len below empty_pre
      by (intro exI [of _ 0]) (auto simp: loc(1) simp del: concat_eq_Nil_conv)
  qed
qed

definition ex_stream :: session where
  "ex_stream = \<lparr>se_id = ''s1'', se_label = ''Terminal'', se_cwd = ''/srv'', se_createdAt = 5, se_closedAt = None,
     se_transcriptStreamId = ''st-1'', se_transcriptEpoch = 2, se_transcriptEarliestOffset = 0,
     se_transcriptCaptureState = ''ACTIVE'', se_transcriptGapReason = None\<rparr>"

section \<open>Properties\<close>

text \<open>
  A cursor round-trips: what \<open>encodeCursor\<close> prints for an offset of a session is parsed
  back to that offset without a mismatch, for another session or epoch it is parsed to the
  same offset with the mismatch reported.
\<close>

theorem cursor_roundtrip:
  assumes "SAFE_ID (se_transcriptStreamId s)" "1 \<le> se_transcriptEpoch s" "se_transcriptEpoch s \<le> int MAX_SAFE_INTEGER"
    and "0 \<le> n" "n \<le> int MAX_SAFE_INTEGER"
  shows "parseCursor (TextCursor (encodeCursor s n)) t = Inr (n,
    se_transcriptStreamId s \<noteq> se_transcriptStreamId t \<or> se_transcriptEpoch s \<noteq> se_transcriptEpoch t)"
  using assms by (rule parse_encode)

theorem cursor_roundtrip_witness:
  "parseCursor (TextCursor (encodeCursor ex_stream 4096)) (ex_stream\<lparr>se_transcriptEpoch := 3\<rparr>) = Inr (4096, True)"
proof -
  have "SAFE_ID (se_transcriptStreamId ex_stream)" by code_simp
  moreover have "1 \<le> se_transcriptEpoch ex_stream" "se_transcriptEpoch ex_stream \<le> int MAX_SAFE_INTEGER"
    "(0::int) \<le> 4096" "(4096::int) \<le> int MAX_SAFE_INTEGER"
    by (simp_all add: ex_stream_def MAX_SAFE_INTEGER_def)
  ultimately have "parseCursor (TextCursor (encodeCursor ex_stream 4096)) (ex_stream\<lparr>se_transcriptEpoch := 3\<rparr>) = Inr (4096,
      se_transcriptStreamId ex_stream \<noteq> se_transcriptStreamId (ex_stream\<lparr>se_transcriptEpoch := 3\<rparr>) \<or>
      se_transcriptEpoch ex_stream \<noteq> se_transcriptEpoch (ex_stream\<lparr>se_transcriptEpoch := 3\<rparr>))"
    by (rule cursor_roundtrip)
  then show ?thesis by (simp add: ex_stream_def)
qed

text \<open>
  The cut never splits a character: for a buffer that holds the beginning of a UTF-8
  text, the length returned is the length of the longest run of whole characters that fits
  the preferred length and the buffer, or of the first character when not even that fits the
  preferred length. It is positive whenever the buffer holds the first character whole.
\<close>

theorem utf8_cut_aligned:
  assumes "utf8_text cs" "buf = take m (concat cs)"
  shows "\<exists>k \<le> length cs. utf8SafePrefixLength buf p = length (concat (take k cs)) \<and>
    length (concat (take k cs)) \<le> length buf \<and> (length (concat (take k cs)) \<le> p \<or> k = 1) \<and>
    (\<forall>j \<le> length cs. length (concat (take j cs)) \<le> min p (length buf) \<longrightarrow> j \<le> k) \<and>
    (0 < p \<and> cs \<noteq> [] \<and> length (hd cs) \<le> length buf \<longrightarrow> 0 < k)"
  using assms by (rule cut_aligned)

theorem utf8_cut_aligned_witness:
  "utf8SafePrefixLength [0x61, 0xE2, 0x82, 0xAC, 0x62] 3 = 1 \<and>
    (\<exists>k \<le> 3. utf8SafePrefixLength [0x61, 0xE2, 0x82, 0xAC, 0x62] 3 = length (concat (take k [[0x61], [0xE2, 0x82, 0xAC], [0x62 :: byte]])))"
proof
  have "utf8_text [[0x61], [0xE2, 0x82, 0xAC], [0x62 :: byte]]"
    by (simp add: utf8_text_def utf8_char_def utf8SequenceLength_def is_continuation_def)
  moreover have "[0x61, 0xE2, 0x82, 0xAC, 0x62] = take 5 (concat [[0x61], [0xE2, 0x82, 0xAC], [0x62 :: byte]])" by simp
  ultimately obtain k where "k \<le> length [[0x61], [0xE2, 0x82, 0xAC], [0x62 :: byte]]"
    "utf8SafePrefixLength [0x61, 0xE2, 0x82, 0xAC, 0x62] 3 = length (concat (take k [[0x61], [0xE2, 0x82, 0xAC], [0x62 :: byte]]))"
    by (rule utf8_cut_aligned [elim_format]) (elim exE conjE, rule that)
  then show "\<exists>k \<le> 3. utf8SafePrefixLength [0x61, 0xE2, 0x82, 0xAC, 0x62] 3 = length (concat (take k [[0x61], [0xE2, 0x82, 0xAC], [0x62 :: byte]]))"
    by (intro exI [of _ k] conjI) simp_all
qed (simp add: utf8SafePrefixLength_def utf8SequenceLength_def is_continuation_def find_lead_numeral Let_def)

end
