(* ===== verification/Terminal.thy ===== *)
theory Terminal
  imports Cursor
begin

text \<open>
  The terminal manager, class \<^verbatim>\<open>TmuxSessionManager\<close> of \<^verbatim>\<open>apps/agent/src/tmux.js\<close>: admission of
  new terminals, the transcript reads, and the terminal and operation commands. Methods that
  wait between two changes of the state are given as one definition per stretch without a
  wait, so that runs can interleave them.
\<close>

section \<open>Configuration and state\<close>

text \<open>Numbers of the configuration; \<^term>\<open>None\<close> for an absent one.\<close>

record terminal_cfg =
  tc_dataDir :: string
  tc_terminalMaxActive :: "int option"
  tc_transcriptTotalMaxBytes :: "int option"
  tc_sessionOutputMaxBytes :: "int option"
  tc_transcriptSegmentBytes :: "int option"
  tc_storageMinFreeBytes :: "int option"
  tc_monitorOperations :: bool

text \<open>
  The state: the store, the tmux sessions that are alive, the transcript directory of each
  session, the opens in flight, what has been typed into the terminals (oldest first, as
  session, tag and text) and the sessions whose capture pipe is closed.
\<close>

record host =
  h_store :: state_store
  h_alive :: "string list"
  h_transcripts :: "(string \<times> directory) list"
  h_pendingOpens :: nat
  h_typed :: "(string \<times> string option \<times> string) list"
  h_unpiped :: "string list"

text \<open>What the world answers during one call.\<close>

record world =
  w_now :: time
  w_uuid :: string
  w_free :: nat
  w_fs_ok :: bool
  w_tmux_ok :: bool

definition tmuxName :: "string \<Rightarrow> bridge_exc + string" where
  "tmuxName i = (if SAFE_ID i then Inr (''dpb_'' @ i) else Inl (bridgeError ''invalid_session_id'' 400))"

definition isAlive :: "string \<Rightarrow> host \<Rightarrow> bool" where
  "isAlive i h \<longleftrightarrow> SAFE_ID i \<and> i \<in> set (h_alive h)"

definition tmux_error :: bridge_exc where
  "tmux_error = bridgeError ''tmux_error'' 500"

definition segment_bytes :: "terminal_cfg \<Rightarrow> nat" where
  "segment_bytes cfg = nat (or_default (or_else_int (tc_transcriptSegmentBytes cfg) None) (int DEFAULT_TRANSCRIPT_SEGMENT_BYTES))"

text \<open>The inventory of a session; a directory that does not exist is \<^verbatim>\<open>ENOENT\<close>.\<close>

definition inventory_for :: "terminal_cfg \<Rightarrow> string \<Rightarrow> host \<Rightarrow> transcript_exc + inventory" where
  "inventory_for cfg i h = (case map_of (h_transcripts h) i of
       None \<Rightarrow> Inl Enoent
     | Some dir \<Rightarrow> inspectTranscriptSegments dir ''terminal.log'' (segment_bytes cfg))"

section \<open>Admission of a new terminal\<close>

definition maximum_active :: "terminal_cfg \<Rightarrow> int" where
  "maximum_active cfg = max 1 (or_default (or_else_int (tc_terminalMaxActive cfg) None) 8)"

definition active_count :: "host \<Rightarrow> nat" where
  "active_count h = length (filter (\<lambda>s. se_closedAt s = None \<and> isAlive (se_id s) h) (st_sessions (h_store h)))"

definition transcript_quota :: bridge_exc where
  "transcript_quota = bridgeError ''transcript_quota'' 507"

definition quota_invalid :: bridge_exc where
  "quota_invalid = bridgeError ''transcript_quota_invalid'' 503"

definition safe_positive :: "int option \<Rightarrow> bool" where
  "safe_positive n = (case n of None \<Rightarrow> False | Some v \<Rightarrow> 1 \<le> v \<and> v \<le> int MAX_SAFE_INTEGER)"

text \<open>
  \<open>reserveOpenSlot\<close> waits for the answer of tmux for every open session and for the inventory of every closed
  one, while opens in flight go on; only other reservations wait for it. Its stretches: the rows and the ids
  asked for, the check of the limit and of the budget, one closed session, and the admission.
\<close>

definition open_sessions :: "session list \<Rightarrow> string list" where
  "open_sessions ss = map se_id (filter (\<lambda>s. se_closedAt s = None) ss)"

definition reserve_limit :: "terminal_cfg \<Rightarrow> session list \<Rightarrow> nat \<Rightarrow> host \<Rightarrow> bridge_exc + session list \<times> int" where
  "reserve_limit cfg ss active h =
     (if int (active + h_pendingOpens h) \<ge> maximum_active cfg then Inl (bridgeError ''session_limit'' 429)
      else (case tc_transcriptTotalMaxBytes cfg of
          None \<Rightarrow> Inr ([], 0)
        | Some budget \<Rightarrow>
            if \<not> safe_positive (Some budget) \<or> \<not> safe_positive (tc_sessionOutputMaxBytes cfg) then Inl quota_invalid
            else Inr (filter (\<lambda>s. se_closedAt s \<noteq> None) ss,
              int (length (open_sessions ss) + h_pendingOpens h + 1) * the (tc_sessionOutputMaxBytes cfg))))"

definition over_budget :: "terminal_cfg \<Rightarrow> int \<Rightarrow> bool" where
  "over_budget cfg committed = (case tc_transcriptTotalMaxBytes cfg of None \<Rightarrow> False | Some budget \<Rightarrow> committed > budget)"

definition measure_closed :: "terminal_cfg \<Rightarrow> session \<Rightarrow> int \<Rightarrow> host \<Rightarrow> bridge_exc + int" where
  "measure_closed cfg s committed h = (case inventory_for cfg (se_id s) h of
       Inl Enoent \<Rightarrow> Inr committed
     | Inl Unsafe \<Rightarrow> Inl quota_invalid
     | Inr iv \<Rightarrow> if over_budget cfg (committed + int (inv_size iv)) then Inl transcript_quota
         else Inr (committed + int (inv_size iv)))"

definition reserve_admit :: "terminal_cfg \<Rightarrow> int \<Rightarrow> host \<Rightarrow> host \<times> (bridge_exc + unit)" where
  "reserve_admit cfg committed h =
     (if over_budget cfg committed then (h, Inl transcript_quota)
      else (h\<lparr>h_pendingOpens := h_pendingOpens h + 1\<rparr>, Inr ()))"

text \<open>The stretches in a row, when nothing else happens in between.\<close>

fun measure_all :: "terminal_cfg \<Rightarrow> host \<Rightarrow> session list \<Rightarrow> int \<Rightarrow> bridge_exc + int" where
  "measure_all cfg h [] committed = Inr committed"
| "measure_all cfg h (s # ss) committed = (case measure_closed cfg s committed h of
     Inl e \<Rightarrow> Inl e | Inr committed' \<Rightarrow> measure_all cfg h ss committed')"

definition reserveOpenSlot :: "terminal_cfg \<Rightarrow> host \<Rightarrow> host \<times> (bridge_exc + unit)" where
  "reserveOpenSlot cfg h =
     (let ss = listSessions (h_store h); found = filter (\<lambda>i. isAlive i h) (open_sessions ss) in
      case reserve_limit cfg ss (length found) h of
        Inl e \<Rightarrow> (h, Inl e)
      | Inr (closed, committed) \<Rightarrow> (case measure_all cfg h closed committed of
            Inl e \<Rightarrow> (h, Inl e)
          | Inr total_bytes \<Rightarrow> reserve_admit cfg total_bytes h))"

definition releaseSlot :: "host \<Rightarrow> host" where
  "releaseSlot h = h\<lparr>h_pendingOpens := h_pendingOpens h - 1\<rparr>"

section \<open>Opening\<close>

definition new_session :: "string \<Rightarrow> string \<Rightarrow> string \<Rightarrow> string \<Rightarrow> time \<Rightarrow> session_input" where
  "new_session i stream cwd label now = \<lparr>si_id = i, si_label = Some (take 120 label), si_cwd = Some cwd,
     si_createdAt = now, si_closedAt = None, si_transcriptStreamId = Some stream, si_transcriptEpoch = Some 1,
     si_transcriptEarliestOffset = Some 0, si_transcriptCaptureState = Some ''ACTIVE'', si_transcriptGapReason = None\<rparr>"

text \<open>
  \<open>open\<close> after the reservation waits for one call after another: the directory, the empty transcript, the tmux
  session, its history limit, its pipe, and \<open>save\<close>; after an error, the end of the tmux session if it was created
  and the removal of the directory. Last, on every path, the slot is released. \<open>og_stage\<close> is the call it waits for.
\<close>

datatype open_stage = AtDirectory | AtTranscript | AtNew | AtHistory | AtPipe | AtSave | AtKill bridge_exc | AtRemove bridge_exc
| AtRelease "bridge_exc + session" | Opened "bridge_exc + session"

record open_call =
  og_id :: string
  og_stream :: string
  og_cwd :: string
  og_label :: string
  og_now :: time
  og_stage :: open_stage

definition open_begin :: "(string \<Rightarrow> bridge_exc + string) \<Rightarrow> string \<Rightarrow> string \<Rightarrow> string \<Rightarrow> string \<Rightarrow> time \<Rightarrow> open_call" where
  "open_begin resolve i stream cwd label now = (case resolve cwd of
       Inl e \<Rightarrow> \<lparr>og_id = i, og_stream = stream, og_cwd = cwd, og_label = label, og_now = now, og_stage = AtRemove e\<rparr>
     | Inr resolvedCwd \<Rightarrow> \<lparr>og_id = i, og_stream = stream, og_cwd = resolvedCwd, og_label = label, og_now = now, og_stage = AtDirectory\<rparr>)"

definition to_stage :: "open_stage \<Rightarrow> open_call \<Rightarrow> open_call" where
  "to_stage v g = g\<lparr>og_stage := v\<rparr>"

text \<open>One stretch; \<open>ok\<close> tells whether the call it waited for succeeded.\<close>

definition open_stretch :: "bool \<Rightarrow> open_call \<Rightarrow> host \<Rightarrow> host \<times> open_call" where
  "open_stretch ok g h = (let i = og_id g in case og_stage g of
       AtDirectory \<Rightarrow> if ok then (h\<lparr>h_store := ensure_dir i (h_store h)\<rparr>, to_stage AtTranscript g)
         else (h, to_stage (AtRemove (Failure ''EIO'')) g)
     | AtTranscript \<Rightarrow> if ok
         then (h\<lparr>h_transcripts := (i, [(''terminal.log'', Regular 1 [])]) # filter (\<lambda>(k, d). k \<noteq> i) (h_transcripts h)\<rparr>, to_stage AtNew g)
         else (h, to_stage (AtRemove (Failure ''EIO'')) g)
     | AtNew \<Rightarrow> if ok then (h\<lparr>h_alive := i # h_alive h\<rparr>, to_stage AtHistory g) else (h, to_stage (AtRemove tmux_error) g)
     | AtHistory \<Rightarrow> (h, to_stage (if ok then AtPipe else AtKill tmux_error) g)
     | AtPipe \<Rightarrow> (h, to_stage (if ok then AtSave else AtKill tmux_error) g)
     | AtSave \<Rightarrow> (case save (og_stream g) ok (new_session i (og_stream g) (og_cwd g) (og_label g) (og_now g)) (h_store h) of
           (st, Inl e) \<Rightarrow> (h\<lparr>h_store := st\<rparr>, to_stage (AtKill e) g)
         | (st, Inr saved) \<Rightarrow> (h\<lparr>h_store := st\<rparr>, to_stage (AtRelease (Inr saved)) g))
     | AtKill e \<Rightarrow> (if ok then h\<lparr>h_alive := removeAll i (h_alive h)\<rparr> else h, to_stage (AtRemove e) g)
     | AtRemove e \<Rightarrow> (if ok then h\<lparr>h_transcripts := filter (\<lambda>(k, d). k \<noteq> i) (h_transcripts h),
           h_store := (h_store h)\<lparr>st_dirs := delete_where (\<lambda>d. sd_name d = i) (st_dirs (h_store h))\<rparr>\<rparr> else h,
         to_stage (AtRelease (Inl e)) g)
     | AtRelease answer \<Rightarrow> (releaseSlot h, to_stage (Opened answer) g)
     | Opened answer \<Rightarrow> (h, g))"

text \<open>The rest of an \<open>open\<close> that nothing interrupts, with the calls that succeed.\<close>

record open_world =
  ow_files_ok :: bool
  ow_new_ok :: bool
  ow_options_ok :: bool
  ow_save_ok :: bool
  ow_kill_ok :: bool
  ow_rm_ok :: bool

fun stage_ok :: "open_world \<Rightarrow> open_stage \<Rightarrow> bool" where
  "stage_ok w AtDirectory = ow_files_ok w"
| "stage_ok w AtTranscript = ow_files_ok w"
| "stage_ok w AtNew = ow_new_ok w"
| "stage_ok w AtHistory = ow_options_ok w"
| "stage_ok w AtPipe = ow_options_ok w"
| "stage_ok w AtSave = ow_save_ok w"
| "stage_ok w (AtKill e) = ow_kill_ok w"
| "stage_ok w (AtRemove e) = ow_rm_ok w"
| "stage_ok w (AtRelease answer) = True"
| "stage_ok w (Opened answer) = True"

fun stages_left :: "open_stage \<Rightarrow> nat" where
  "stages_left AtDirectory = 9"
| "stages_left AtTranscript = 8"
| "stages_left AtNew = 7"
| "stages_left AtHistory = 6"
| "stages_left AtPipe = 5"
| "stages_left AtSave = 4"
| "stages_left (AtKill e) = 3"
| "stages_left (AtRemove e) = 2"
| "stages_left (AtRelease answer) = 1"
| "stages_left (Opened answer) = 0"

lemma stretch_progress:
  "(h', g') = open_stretch ok g h \<Longrightarrow> og_stage g' = v \<Longrightarrow> 0 < stages_left v \<longrightarrow> stages_left v < stages_left (og_stage g)"
  by (cases "og_stage g") (auto simp: open_stretch_def to_stage_def Let_def split: prod.splits sum.splits if_splits)

function open_rest :: "open_world \<Rightarrow> open_call \<Rightarrow> host \<Rightarrow> host \<times> (bridge_exc + session)" where
  "open_rest w g h = (case open_stretch (stage_ok w (og_stage g)) g h of
     (h', g') \<Rightarrow> (case og_stage g' of Opened answer \<Rightarrow> (h', answer) | _ \<Rightarrow> open_rest w g' h'))"
  by pat_completeness auto
termination
  by (relation "measure (\<lambda>(w, g, h). stages_left (og_stage g))", simp_all) (drule (1) stretch_progress, simp)+

declare open_rest.simps [simp del]

definition open_finish ::
  "(string \<Rightarrow> bridge_exc + string) \<Rightarrow> open_world \<Rightarrow> string \<Rightarrow> string \<Rightarrow> string \<Rightarrow> string \<Rightarrow> time \<Rightarrow> host \<Rightarrow>
    host \<times> (bridge_exc + session)" where
  "open_finish resolve w i stream cwd label now h = open_rest w (open_begin resolve i stream cwd label now) h"

definition list_terminals :: "host \<Rightarrow> (session \<times> bool) list" where
  "list_terminals h = map (\<lambda>s. (s, isAlive (se_id s) h)) (listSessions (h_store h))"

definition requireSession :: "string \<Rightarrow> host \<Rightarrow> bridge_exc + session" where
  "requireSession i h = (case getSession i (h_store h) of
       None \<Rightarrow> Inl (bridgeError ''session_not_found'' 404)
     | Some s \<Rightarrow> if se_closedAt s \<noteq> None then Inl (bridgeError ''session_not_running'' 409)
                 else if \<not> isAlive i h then Inl (bridgeError ''session_not_running'' 409)
                 else Inr s)"

section \<open>Transcript state\<close>

definition degrade :: "world \<Rightarrow> string \<Rightarrow> string \<Rightarrow> host \<Rightarrow> host \<times> (bridge_exc + session)" where
  "degrade w i reason h = (case updateTranscript (w_uuid w) (w_fs_ok w) i
       \<lparr>tx_epoch = None, tx_earliestOffset = None, tx_captureState = Some ''DEGRADED'', tx_gapReason = Some (Some reason)\<rparr> (h_store h) of
     (st, answer) \<Rightarrow> (h\<lparr>h_store := st\<rparr>, answer))"

record output_range =
  or_earliest :: int
  or_end :: int
  or_physicalSize :: nat
  or_segments :: "segment list"

definition missing_transcript :: "world \<Rightarrow> string \<Rightarrow> session \<Rightarrow> host \<Rightarrow> host \<times> (bridge_exc + session \<times> output_range)" where
  "missing_transcript w i s h =
     (case (if se_transcriptCaptureState s \<noteq> ''DEGRADED'' then degrade w i ''transcript_missing'' h else (h, Inr s)) of
        (h', Inl e) \<Rightarrow> (h', Inl e)
      | (h', Inr s') \<Rightarrow> (h', Inr (s', \<lparr>or_earliest = se_transcriptEarliestOffset s', or_end = se_transcriptEarliestOffset s',
            or_physicalSize = 0, or_segments = []\<rparr>)))"

text \<open>
  \<open>outputRange\<close> for a given row; it may replace the row, as the \<^verbatim>\<open>Object.assign\<close> does. The
  warning it logs for a large transcript is left out.
\<close>

definition outputRange ::
  "terminal_cfg \<Rightarrow> world \<Rightarrow> string \<Rightarrow> session \<Rightarrow> host \<Rightarrow> host \<times> (bridge_exc + session \<times> output_range)" where
  "outputRange cfg w i s h = (case inventory_for cfg i h of
       Inl Enoent \<Rightarrow> missing_transcript w i s h
     | Inl Unsafe \<Rightarrow> (h, Inl (bridgeError ''transcript_invalid'' 503))
     | Inr iv \<Rightarrow> if inv_missing iv then missing_transcript w i s h
         else (h, Inr (s, \<lparr>or_earliest = se_transcriptEarliestOffset s,
                or_end = se_transcriptEarliestOffset s + int (inv_size iv),
                or_physicalSize = inv_size iv, or_segments = inv_segments iv\<rparr>)))"

definition outputSize :: "terminal_cfg \<Rightarrow> world \<Rightarrow> string \<Rightarrow> host \<Rightarrow> host \<times> (bridge_exc + int)" where
  "outputSize cfg w i h = (case getSession i (h_store h) of
       None \<Rightarrow> (h, Inl (bridgeError ''session_not_found'' 404))
     | Some s \<Rightarrow> (case outputRange cfg w i s h of
           (h', Inl e) \<Rightarrow> (h', Inl e) | (h', Inr (s', r)) \<Rightarrow> (h', Inr (or_end r))))"

text \<open>
  The marker the capture program leaves. A file that another user owns or may write is
  \<^term>\<open>Special\<close> here, like everything else that is not a private regular file.
\<close>

definition observeCaptureStop :: "world \<Rightarrow> string \<Rightarrow> session \<Rightarrow> host \<Rightarrow> host \<times> (bridge_exc + session)" where
  "observeCaptureStop w i s h =
     (if se_transcriptCaptureState s = ''DEGRADED'' then (h, Inr s)
      else (case Option.bind (map_of (h_transcripts h) i) (\<lambda>dir. map_of dir (''terminal.log'' @ CAPTURE_STOP_SUFFIX)) of
          None \<Rightarrow> (h, Inr s)
        | Some e \<Rightarrow> if e = Regular 1 stop_record then degrade w i ''storage_reserve'' h
                    else (h, Inl (bridgeError ''transcript_capture_invalid'' 503))))"

definition stop_capture :: "world \<Rightarrow> string \<Rightarrow> string \<Rightarrow> host \<Rightarrow> host \<times> (bridge_exc + session)" where
  "stop_capture w i reason h =
     (if \<not> w_tmux_ok w then (h, Inl tmux_error)
      else degrade w i reason (h\<lparr>h_unpiped := i # h_unpiped h\<rparr>))"

definition enforceCaptureReserve ::
  "terminal_cfg \<Rightarrow> world \<Rightarrow> string \<Rightarrow> session \<Rightarrow> bool \<Rightarrow> host \<Rightarrow> host \<times> (bridge_exc + session)" where
  "enforceCaptureReserve cfg w i s alive h =
     (let minimum = or_default (or_else_int (tc_storageMinFreeBytes cfg) None) 0
      in if \<not> alive \<or> se_transcriptCaptureState s \<noteq> ''ACTIVE'' \<or> minimum \<le> 0 then (h, Inr s)
         else if int (w_free w) \<ge> minimum then (h, Inr s)
         else stop_capture w i ''storage_reserve'' h)"

definition enforceCaptureCeiling ::
  "terminal_cfg \<Rightarrow> world \<Rightarrow> string \<Rightarrow> session \<Rightarrow> bool \<Rightarrow> output_range \<Rightarrow> host \<Rightarrow> host \<times> (bridge_exc + session)" where
  "enforceCaptureCeiling cfg w i s alive r h =
     (let maximum = or_default (or_else_int (tc_sessionOutputMaxBytes cfg) None) 0
      in if \<not> alive \<or> se_transcriptCaptureState s \<noteq> ''ACTIVE'' \<or> maximum \<le> 0 \<or> int (or_physicalSize r) < maximum
         then (h, Inr s)
         else stop_capture w i ''transcript_limit'' h)"

section \<open>Reading output\<close>

record gap =
  gap_reason :: string
  gap_requestedOffset :: int
  gap_earliestOffset :: int

text \<open>A page; \<open>pg_output\<close> are the bytes that \<^verbatim>\<open>toString("utf8")\<close> decodes.\<close>

record page =
  pg_alive :: bool
  pg_state :: string
  pg_cursor :: string
  pg_earliestCursor :: string
  pg_output :: "byte list"
  pg_hasMore :: bool
  pg_gap :: "gap option"
  pg_captureState :: string
  pg_captureReason :: "string option"
  pg_afterCursor :: "string option"

text \<open>Where reading starts, and the gap to report.\<close>

definition read_start :: "int \<times> bool \<Rightarrow> output_range \<Rightarrow> int \<times> gap option" where
  "read_start requested r =
     (let offset = fst requested;
          report = (\<lambda>reason. Some \<lparr>gap_reason = reason, gap_requestedOffset = offset, gap_earliestOffset = or_earliest r\<rparr>)
      in if snd requested then (or_earliest r, report ''stream_changed'')
         else if offset < or_earliest r then (or_earliest r, report ''retention'')
         else if offset > or_end r then (or_end r, report ''cursor_ahead'')
         else (offset, None))"

text \<open>\<^verbatim>\<open>Math.max(1, Math.min(Number(maxBytes) || 64 * 1024, 256 * 1024))\<close>\<close>

definition requested_max :: "int option \<Rightarrow> nat" where
  "requested_max maxBytes = nat (max 1 (min (or_default (or_else_int maxBytes None) (64 * 1024)) (256 * 1024)))"

definition make_page :: "session \<Rightarrow> bool \<Rightarrow> output_range \<Rightarrow> int \<Rightarrow> byte list \<Rightarrow> gap option \<Rightarrow> page" where
  "make_page s alive r nextOffset output gap =
     \<lparr>pg_alive = alive, pg_state = session_state s, pg_cursor = encodeCursor s nextOffset,
      pg_earliestCursor = encodeCursor s (or_earliest r), pg_output = output,
      pg_hasMore = (nextOffset < or_end r), pg_gap = gap,
      pg_captureState = se_transcriptCaptureState s, pg_captureReason = se_transcriptGapReason s,
      pg_afterCursor = (if se_transcriptCaptureState s = ''DEGRADED'' then Some (encodeCursor s (or_end r)) else None)\<rparr>"

text \<open>
  The bytes of a page from \<open>logicalStart\<close> on: continuation bytes at the start are skipped,
  then the buffer is cut at a character.
\<close>

definition read_page ::
  "directory \<Rightarrow> session \<Rightarrow> bool \<Rightarrow> output_range \<Rightarrow> int \<Rightarrow> gap option \<Rightarrow> int option \<Rightarrow> bridge_exc + page" where
  "read_page dir s alive r logicalStart gap maxBytes =
     (let changed = bridgeError ''transcript_invalid'' 503;
          physicalStart = nat (logicalStart - or_earliest r);
          limit = requested_max maxBytes
      in if or_end r - logicalStart = 0 then Inr (make_page s alive r logicalStart [] gap)
         else (case readTranscriptBytes dir (or_segments r) physicalStart (min 4 (or_physicalSize r - physicalStart)) of
            Inl e \<Rightarrow> Inl changed
          | Inr first \<Rightarrow>
              let skipped = length (takeWhile is_continuation first);
                  gap' = (if skipped > 0 \<and> gap = None then Some \<lparr>gap_reason = ''utf8_boundary'',
                      gap_requestedOffset = logicalStart, gap_earliestOffset = or_earliest r\<rparr> else gap);
                  start = logicalStart + int skipped;
                  readable = or_end r - start
              in (case readTranscriptBytes dir (or_segments r) (physicalStart + skipped) (nat (min readable (int limit + 3))) of
                   Inl e \<Rightarrow> Inl changed
                 | Inr buffer \<Rightarrow>
                     let safeLength = utf8SafePrefixLength buffer (min limit (length buffer))
                     in Inr (make_page s alive r (start + int safeLength) (take safeLength buffer) gap'))))"

definition readOutput ::
  "terminal_cfg \<Rightarrow> world \<Rightarrow> string \<Rightarrow> cursor_arg \<Rightarrow> int option \<Rightarrow> host \<Rightarrow> host \<times> (bridge_exc + page)" where
  "readOutput cfg w i cursor maxBytes h = (case getSession i (h_store h) of
       None \<Rightarrow> (h, Inl (bridgeError ''session_not_found'' 404))
     | Some s0 \<Rightarrow> (case observeCaptureStop w i s0 h of
         (h1, Inl e) \<Rightarrow> (h1, Inl e)
       | (h1, Inr s1) \<Rightarrow>
           let alive = isAlive i h1 in
           (case enforceCaptureReserve cfg w i s1 alive h1 of
              (h2, Inl e) \<Rightarrow> (h2, Inl e)
            | (h2, Inr s2) \<Rightarrow> (case outputRange cfg w i s2 h2 of
                (h3, Inl e) \<Rightarrow> (h3, Inl e)
              | (h3, Inr (s3, r)) \<Rightarrow> (case enforceCaptureCeiling cfg w i s3 alive r h3 of
                  (h4, Inl e) \<Rightarrow> (h4, Inl e)
                | (h4, Inr s4) \<Rightarrow> (case parseCursor cursor s4 of
                    Inl e \<Rightarrow> (h4, Inl e)
                  | Inr requested \<Rightarrow>
                      let (logicalStart, gap) = read_start requested r
                      in (h4, read_page (or_default (map_of (h_transcripts h4) i) []) s4 alive r logicalStart gap maxBytes)))))))"

section \<open>Typing\<close>

text \<open>
  \<open>paste\<close>: the text with its Enter goes to the terminal through one buffer. \<open>tag\<close> marks the
  text of a managed operation.
\<close>

definition paste :: "world \<Rightarrow> string \<Rightarrow> string option \<Rightarrow> string \<Rightarrow> bool \<Rightarrow> host \<Rightarrow> host \<times> (bridge_exc + unit)" where
  "paste w i tag text enter h = (case requireSession i h of
       Inl e \<Rightarrow> (h, Inl e)
     | Inr _ \<Rightarrow>
         if \<not> w_fs_ok w then (h, Inl (Failure ''EIO''))
         else if \<not> w_tmux_ok w then (h, Inl tmux_error)
         else (h\<lparr>h_typed := h_typed h @ [(i, tag, if enter then text @ [CHR 0x0A] else text)]\<rparr>, Inr ()))"

text \<open>The single quote and the backslash.\<close>

definition sq :: char where "sq = CHR 0x27"

definition bs :: char where "bs = CHR 0x5C"

definition shellQuote :: "string \<Rightarrow> string" where
  "shellQuote value = sq # concat (map (\<lambda>c. if c = sq then [sq, bs, sq, sq] else [c]) value) @ [sq]"

definition sendInput :: "world \<Rightarrow> string \<Rightarrow> json option \<Rightarrow> bool \<Rightarrow> host \<Rightarrow> host \<times> (bridge_exc + unit)" where
  "sendInput w i input enter h = (case input of
       Some (JStr text) \<Rightarrow> paste w i None text enter h
     | _ \<Rightarrow> (h, Inl (bridgeError ''invalid_input'' 400)))"

end
