(* ===== verification/Operations.thy ===== *)
theory Operations
  imports Terminal StateStore_Props
begin

text \<open>
  The managed operations of \<^verbatim>\<open>apps/agent/src/tmux.js\<close>: \<open>runCommand\<close>, the operation monitor,
  \<open>interrupt\<close>, \<open>close\<close> and \<open>purge\<close>. \<open>runCommand\<close> waits between admission, preparation of
  the control file and the paste, and the monitor waits between looking at an operation and
  settling it; each stretch is one definition, and a run interleaves them with everything
  else. The waits before the admission are not interleaved: those checks only read, apart from
  recording a missing transcript.
\<close>

section \<open>The fingerprint key\<close>

text \<open>
  \<open>fingerprintKey\<close>: the key file is created with \<^verbatim>\<open>wx\<close> when it is absent, then read. The file
  is \<^term>\<open>None\<close> or its bytes; \<open>fresh\<close> are 32 random bytes.
\<close>

definition fingerprintKey :: "byte list \<Rightarrow> byte list option \<Rightarrow> byte list option \<times> (bridge_exc + byte list)" where
  "fingerprintKey fresh file =
     (let key = (case file of None \<Rightarrow> fresh | Some k \<Rightarrow> k)
      in (Some key, if length key \<noteq> 32 then Inl (bridgeError ''operation_fingerprint_key_invalid'' 503) else Inr key))"

text \<open>\<open>hmac\<close> is the HMAC of the platform.\<close>

definition requestFingerprint :: "(byte list \<Rightarrow> string \<Rightarrow> string) \<Rightarrow> byte list \<Rightarrow> string \<Rightarrow> string" where
  "requestFingerprint hmac key command = hmac key command"

section \<open>Views of an operation\<close>

record public_operation =
  pub_operationId :: string
  pub_sessionId :: string
  pub_status :: op_status
  pub_acceptedAt :: time
  pub_startedAt :: "time option"
  pub_completedAt :: "time option"
  pub_exitCode :: "nat option"
  pub_outcomeReason :: "string option"

definition publicOperation :: "operation option \<Rightarrow> public_operation option" where
  "publicOperation operation = map_option (\<lambda>r. \<lparr>pub_operationId = op_id r, pub_sessionId = op_sessionId r,
     pub_status = op_status r, pub_acceptedAt = op_acceptedAt r, pub_startedAt = op_startedAt r,
     pub_completedAt = op_completedAt r, pub_exitCode = op_exitCode r, pub_outcomeReason = op_outcomeReason r\<rparr>) operation"

fun operationState :: "op_status \<Rightarrow> string" where
  "operationState SUCCEEDED = ''completed''"
| "operationState FAILED = ''completed''"
| "operationState ACCEPTED = ''accepted''"
| "operationState RUNNING = ''running''"
| "operationState INTERRUPTED = ''interrupted''"
| "operationState UNKNOWN = ''unknown''"

record operation_response =
  rs_sessionId :: string
  rs_operationId :: string
  rs_status :: op_status
  rs_state :: string
  rs_exitCode :: "nat option"
  rs_cursor :: "string option"
  rs_output :: "byte list"

text \<open>
  \<open>operationResponse\<close> with the output of the read, or without one when the session is gone.
  The cursor is \<^term>\<open>None\<close> where the answer repeats the numeric start cursor; the note texts
  are left out.
\<close>

definition response_of :: "operation \<Rightarrow> (string \<times> byte list) option \<Rightarrow> operation_response" where
  "response_of r out = \<lparr>rs_sessionId = op_sessionId r, rs_operationId = op_id r, rs_status = op_status r,
     rs_state = operationState (op_status r), rs_exitCode = op_exitCode r,
     rs_cursor = map_option fst out, rs_output = (case out of None \<Rightarrow> [] | Some (c, b) \<Rightarrow> b)\<rparr>"

definition operationResponse ::
  "terminal_cfg \<Rightarrow> world \<Rightarrow> operation \<Rightarrow> host \<Rightarrow> host \<times> (bridge_exc + operation_response)" where
  "operationResponse cfg w r h =
     (case readOutput cfg w (op_sessionId r) (NumberCursor (Some (op_startCursor r))) (Some (256 * 1024)) h of
        (h', Inl e) \<Rightarrow> if error_code e \<in> {''session_not_found'', ''session_not_running''}
          then (h', Inr (response_of r None)) else (h', Inl e)
      | (h', Inr p) \<Rightarrow> (h', Inr (response_of r (Some (pg_cursor p, pg_output p)))))"

definition getOperation_public :: "string \<Rightarrow> string \<Rightarrow> host \<Rightarrow> bridge_exc + public_operation" where
  "getOperation_public sessionId operationId h =
     (if \<not> SAFE_ID operationId then Inl (bridgeError ''invalid_operation_id'' 400)
      else if getSession sessionId (h_store h) = None then Inl (bridgeError ''session_not_found'' 404)
      else (case publicOperation (getOperation operationId (Some sessionId) (h_store h)) of
          None \<Rightarrow> Inl (bridgeError ''operation_not_found'' 404) | Some p \<Rightarrow> Inr p))"

section \<open>Running a command\<close>

definition trim_empty :: "string \<Rightarrow> bool" where
  "trim_empty s \<longleftrightarrow> list_all (\<lambda>c. c \<in> {CHR '' '', CHR 0x09, CHR 0x0A, CHR 0x0B, CHR 0x0C, CHR 0x0D, CHR 0xA0}) s"

definition on_store :: "(state_store \<Rightarrow> state_store \<times> 'a) \<Rightarrow> host \<Rightarrow> host \<times> 'a" where
  "on_store f h = (case f (h_store h) of (st, a) \<Rightarrow> (h\<lparr>h_store := st\<rparr>, a))"

text \<open>
  The first stretch: the checks, the start cursor and the admission. \<open>key_result\<close> is what
  \<open>fingerprintKey\<close> answered.
\<close>

definition command_admit ::
  "terminal_cfg \<Rightarrow> world \<Rightarrow> (string \<Rightarrow> string) \<Rightarrow> bool \<Rightarrow> string \<Rightarrow> json option \<Rightarrow> string option \<Rightarrow> string \<Rightarrow> host \<Rightarrow>
    host \<times> (bridge_exc + operation \<times> bool)" where
  "command_admit cfg w fingerprint commit_ok i command idempotencyKey operationId h =
     (case command of
        Some (JStr text) \<Rightarrow>
          if trim_empty text then (h, Inl (bridgeError ''invalid_command'' 400)) else
          (case requireSession i h of
             Inl e \<Rightarrow> (h, Inl e)
           | Inr _ \<Rightarrow>
               let effectiveKey = or_default idempotencyKey [] in
               if \<not> SAFE_IDEMPOTENCY_KEY effectiveKey then (h, Inl (bridgeError ''invalid_idempotency_key'' 400)) else
               (case outputSize cfg w i h of
                  (h1, Inl e) \<Rightarrow> (h1, Inl e)
                | (h1, Inr startCursor) \<Rightarrow> on_store (admitOperation commit_ok
                    \<lparr>rq_id = operationId, rq_sessionId = i, rq_idempotencyKey = effectiveKey,
                     rq_requestFingerprint = fingerprint text, rq_acceptedAt = w_now w, rq_startCursor = startCursor\<rparr>) h1))
      | _ \<Rightarrow> (h, Inl (bridgeError ''invalid_command'' 400)))"

definition outcome :: "time \<Rightarrow> string \<Rightarrow> operation_fields" where
  "outcome now reason = \<lparr>of_startedAt = None, of_completedAt = Some now, of_exitCode = None, of_outcomeReason = Some reason\<rparr>"

text \<open>An update whose own exception replaces the one that is being handled.\<close>

definition update_then_throw ::
  "string \<Rightarrow> string \<Rightarrow> operation_fields \<Rightarrow> bridge_exc \<Rightarrow> host \<Rightarrow> host \<times> (bridge_exc + 'a)" where
  "update_then_throw operationId status fs e h =
     (case updateOperation operationId status fs (h_store h) of
        (st, Inl e') \<Rightarrow> (h\<lparr>h_store := st\<rparr>, Inl e') | (st, Inr _) \<Rightarrow> (h\<lparr>h_store := st\<rparr>, Inl e))"

definition command_prepare :: "world \<Rightarrow> string \<Rightarrow> string \<Rightarrow> host \<Rightarrow> host \<times> (bridge_exc + unit)" where
  "command_prepare w i operationId h =
     (case on_store (prepareOperationCompletion (w_fs_ok w) i operationId) h of
        (h', Inl e) \<Rightarrow> update_then_throw operationId ''FAILED'' (outcome (w_now w) ''control_channel_unavailable'') e h'
      | (h', Inr _) \<Rightarrow> (h', Inr ()))"

definition operationCompletionPath :: "terminal_cfg \<Rightarrow> string \<Rightarrow> string \<Rightarrow> string" where
  "operationCompletionPath cfg i operationId =
     tc_dataDir cfg @ ''/sessions/'' @ i @ ''/operations/'' @ operationId @ ''.exit''"

definition epilogue :: "terminal_cfg \<Rightarrow> string \<Rightarrow> string \<Rightarrow> string" where
  "epilogue cfg i operationId =
     (let path = operationCompletionPath cfg i operationId; part = path @ ''.part''
      in ''; __dpb_exit=$?; ( umask 077; printf '' @ [sq] @ ''%s'' @ [bs] @ ''n'' @ [sq]
         @ '' \"$__dpb_exit\" > '' @ shellQuote part @ '' && mv -f -- '' @ shellQuote part @ '' '' @ shellQuote path @ '' )'')"

definition wrapped :: "terminal_cfg \<Rightarrow> string \<Rightarrow> string \<Rightarrow> string \<Rightarrow> string" where
  "wrapped cfg i operationId command = ''eval -- '' @ shellQuote command @ epilogue cfg i operationId"

text \<open>The operation is marked RUNNING; then, after the wait inside \<open>paste\<close>, the text is typed.\<close>

definition command_start :: "world \<Rightarrow> string \<Rightarrow> host \<Rightarrow> host \<times> (bridge_exc + operation option)" where
  "command_start w operationId = on_store (updateOperation operationId ''RUNNING''
     \<lparr>of_startedAt = Some (w_now w), of_completedAt = None, of_exitCode = None, of_outcomeReason = None\<rparr>)"

definition command_paste ::
  "terminal_cfg \<Rightarrow> world \<Rightarrow> string \<Rightarrow> string \<Rightarrow> string \<Rightarrow> host \<Rightarrow> host \<times> (bridge_exc + unit)" where
  "command_paste cfg w i operationId command h =
     (case paste w i (Some operationId) (wrapped cfg i operationId command) True h of
        (h', Inl e) \<Rightarrow> update_then_throw operationId ''UNKNOWN'' (outcome (w_now w) ''spawn_result_uncertain'') e h'
      | (h', Inr _) \<Rightarrow> (h', Inr ()))"

text \<open>
  The last stretch, after the wait for the deadline: the state of the operation then and the
  output. A purge in the meantime leaves no row, and reading \<^verbatim>\<open>status\<close> of \<^verbatim>\<open>null\<close> throws.
\<close>

definition command_result ::
  "terminal_cfg \<Rightarrow> world \<Rightarrow> string \<Rightarrow> string \<Rightarrow> int \<Rightarrow> host \<Rightarrow> host \<times> (bridge_exc + operation_response)" where
  "command_result cfg w i operationId startCursor h =
     (case getOperation operationId (Some i) (h_store h) of
        None \<Rightarrow> (h, Inl (Failure ''TypeError''))
      | Some r \<Rightarrow> (case readOutput cfg w i (NumberCursor (Some startCursor)) (Some (256 * 1024)) h of
            (h', Inl e) \<Rightarrow> (h', Inl e)
          | (h', Inr p) \<Rightarrow> (h', Inr (response_of r (Some (pg_cursor p, pg_output p))))))"

section \<open>The monitor\<close>

text \<open>
  A round first looks whether the operation is still RUNNING, then waits for the completion
  record, then settles the operation by what it read; \<^term>\<open>None\<close> means to go on.
\<close>

definition monitor_continues :: "string \<Rightarrow> string \<Rightarrow> host \<Rightarrow> bool" where
  "monitor_continues i operationId h = (case getOperation operationId (Some i) (h_store h) of
       None \<Rightarrow> False | Some r \<Rightarrow> op_status r = RUNNING)"

definition monitor_settle ::
  "world \<Rightarrow> string \<Rightarrow> string \<Rightarrow> host \<Rightarrow> host \<times> (bridge_exc + operation option) option" where
  "monitor_settle w i operationId h = (case readOperationCompletion i operationId (h_store h) of
       Inl e \<Rightarrow> if error_code e \<noteq> ''operation_completion_invalid'' then (h, Some (Inl e))
         else (case on_store (updateOperation operationId ''UNKNOWN'' (unknown_fields (w_now w) ''control_record_invalid'')) h of
           (h', a) \<Rightarrow> (h', Some a))
     | Inr (Some (code, at)) \<Rightarrow>
         (case on_store (updateOperation operationId (completion_status code) (completion_fields code at)) h of
           (h', a) \<Rightarrow> (h', Some a))
     | Inr None \<Rightarrow> if isAlive i h then (h, None)
         else (case on_store (updateOperation operationId ''UNKNOWN'' (unknown_fields (w_now w) ''session_lost_during_operation'')) h of
           (h', a) \<Rightarrow> (h', Some a)))"

section \<open>Interrupt, close, purge\<close>

definition interrupt ::
  "world \<Rightarrow> string \<Rightarrow> host \<Rightarrow> host \<times> (bridge_exc + public_operation option)" where
  "interrupt w i h = (case requireSession i h of
       Inl e \<Rightarrow> (h, Inl e)
     | Inr _ \<Rightarrow>
         if \<not> w_tmux_ok w then (h, Inl tmux_error)
         else (case on_store (interruptActiveOperation (w_now w) i ''owner_interrupt'')
                 (h\<lparr>h_typed := h_typed h @ [(i, None, [CHR 0x03])]\<rparr>) of
             (h', Inl e) \<Rightarrow> (h', Inl e)
           | (h', Inr r) \<Rightarrow> (h', Inr (publicOperation r))))"

definition close_terminal :: "world \<Rightarrow> string \<Rightarrow> host \<Rightarrow> host \<times> (bridge_exc + session)" where
  "close_terminal w i h = (case getSession i (h_store h) of
       None \<Rightarrow> (h, Inl (bridgeError ''session_not_found'' 404))
     | Some s \<Rightarrow>
         if isAlive i h \<and> \<not> w_tmux_ok w then (h, Inl tmux_error)
         else on_store (closeSession (w_uuid w) (w_fs_ok w) (w_now w) i)
                (if isAlive i h then h\<lparr>h_alive := removeAll i (h_alive h)\<rparr> else h))"

definition purge_terminal :: "bool \<Rightarrow> string \<Rightarrow> host \<Rightarrow> host \<times> (bridge_exc + bool)" where
  "purge_terminal rm_ok i h = (case on_store (purge rm_ok i) h of
       (h', Inl e) \<Rightarrow> (h', Inl e)
     | (h', Inr b) \<Rightarrow> (h'\<lparr>h_transcripts := filter (\<lambda>(k, d). k \<noteq> i) (h_transcripts h')\<rparr>, Inr b))"

section \<open>Interleavings\<close>

text \<open>
  A command that has been admitted and has not been typed yet, with the stretch it waits for;
  a monitor that waits for the completion record.
\<close>

datatype stage = Admitted | Prepared | Started

record thread =
  th_op :: string
  th_session :: string
  th_command :: string
  th_stage :: stage

record agent =
  ag_host :: host
  ag_threads :: "thread list"
  ag_watching :: "(string \<times> string) list"

datatype agent_op =
  RunCommand world bool string "json option" "string option" string
| NextStretch string world
| MonitorLook string string
| MonitorSettle string string world
| Interrupt string world
| CloseTerminal string world
| Input string world "json option" bool
| ReadOutput string world cursor_arg "int option"
| CommandDone string string exit_file
| SessionDies string

definition set_stage :: "string \<Rightarrow> stage \<Rightarrow> thread list \<Rightarrow> thread list" where
  "set_stage x s ts = update_where (\<lambda>t. th_op t = x) (\<lambda>t. t\<lparr>th_stage := s\<rparr>) ts"

definition drop_thread :: "string \<Rightarrow> thread list \<Rightarrow> thread list" where
  "drop_thread x ts = delete_where (\<lambda>t. th_op t = x) ts"

fun command_text :: "json option \<Rightarrow> string" where
  "command_text (Some (JStr s)) = s"
| "command_text _ = []"

text \<open>The next stretch of a command; an exception ends the command.\<close>

definition next_stretch :: "terminal_cfg \<Rightarrow> world \<Rightarrow> thread \<Rightarrow> agent \<Rightarrow> agent" where
  "next_stretch cfg w t a = (case th_stage t of
       Admitted \<Rightarrow> (case command_prepare w (th_session t) (th_op t) (ag_host a) of
           (h, Inl e) \<Rightarrow> a\<lparr>ag_host := h, ag_threads := drop_thread (th_op t) (ag_threads a)\<rparr>
         | (h, Inr _) \<Rightarrow> a\<lparr>ag_host := h, ag_threads := set_stage (th_op t) Prepared (ag_threads a)\<rparr>)
     | Prepared \<Rightarrow> (case command_start w (th_op t) (ag_host a) of
           (h, Inl e) \<Rightarrow> a\<lparr>ag_host := h, ag_threads := drop_thread (th_op t) (ag_threads a)\<rparr>
         | (h, Inr _) \<Rightarrow> a\<lparr>ag_host := h, ag_threads := set_stage (th_op t) Started (ag_threads a)\<rparr>)
     | Started \<Rightarrow> (case command_paste cfg w (th_session t) (th_op t) (th_command t) (ag_host a) of
           (h, _) \<Rightarrow> a\<lparr>ag_host := h, ag_threads := drop_thread (th_op t) (ag_threads a)\<rparr>))"

definition watch :: "terminal_cfg \<Rightarrow> string \<Rightarrow> string \<Rightarrow> agent \<Rightarrow> agent" where
  "watch cfg i x a = (if \<not> tc_monitorOperations cfg \<or> (i, x) \<in> set (ag_watching a) then a
     else if monitor_continues i x (ag_host a) then a\<lparr>ag_watching := (i, x) # ag_watching a\<rparr> else a)"

fun agent_exec :: "terminal_cfg \<Rightarrow> (string \<Rightarrow> string) \<Rightarrow> agent_op \<Rightarrow> agent \<Rightarrow> agent" where
  "agent_exec cfg fp (RunCommand w ok i command key x) a =
     (case command_admit cfg w fp ok i command key x (ag_host a) of
        (h, Inr (r, False)) \<Rightarrow> a\<lparr>ag_host := h, ag_threads := ag_threads a @
          [\<lparr>th_op = x, th_session = i, th_command = command_text command, th_stage = Admitted\<rparr>]\<rparr>
      | (h, _) \<Rightarrow> a\<lparr>ag_host := h\<rparr>)"
| "agent_exec cfg fp (NextStretch x w) a =
     (case by_key th_op x (ag_threads a) of None \<Rightarrow> a | Some t \<Rightarrow> next_stretch cfg w t a)"
| "agent_exec cfg fp (MonitorLook i x) a = watch cfg i x a"
| "agent_exec cfg fp (MonitorSettle i x w) a =
     (if (i, x) \<notin> set (ag_watching a) then a
      else (case monitor_settle w i x (ag_host a) of
          (h, _) \<Rightarrow> a\<lparr>ag_host := h, ag_watching := removeAll (i, x) (ag_watching a)\<rparr>))"
| "agent_exec cfg fp (Interrupt i w) a = a\<lparr>ag_host := fst (interrupt w i (ag_host a))\<rparr>"
| "agent_exec cfg fp (CloseTerminal i w) a = a\<lparr>ag_host := fst (close_terminal w i (ag_host a))\<rparr>"
| "agent_exec cfg fp (Input i w text enter) a = a\<lparr>ag_host := fst (sendInput w i text enter (ag_host a))\<rparr>"
| "agent_exec cfg fp (ReadOutput i w cursor n) a = a\<lparr>ag_host := fst (readOutput cfg w i cursor n (ag_host a))\<rparr>"
| "agent_exec cfg fp (CommandDone i x f) a = a\<lparr>ag_host := (ag_host a)\<lparr>h_store :=
     update_dir i (\<lambda>d. d\<lparr>sd_exits := (x, f) # sd_exits d\<rparr>) (h_store (ag_host a))\<rparr>\<rparr>"
| "agent_exec cfg fp (SessionDies i) a = a\<lparr>ag_host := (ag_host a)\<lparr>h_alive := removeAll i (h_alive (ag_host a))\<rparr>\<rparr>"

fun agent_run :: "terminal_cfg \<Rightarrow> (string \<Rightarrow> string) \<Rightarrow> agent_op list \<Rightarrow> agent \<Rightarrow> agent" where
  "agent_run cfg fp [] a = a"
| "agent_run cfg fp (x # xs) a = agent_run cfg fp xs (agent_exec cfg fp x a)"

end
