(* ===== verification/Operations_Props.thy ===== *)
theory Operations_Props
  imports Operations "HOL-Library.Code_Target_Nat"
begin

text \<open>
  Properties of managed operations over all interleavings: a command is typed at most once
  per idempotency key, and the window in which an interrupt is acknowledged for a command
  that is typed afterwards.
\<close>

section \<open>Steps that leave operations and typed commands alone\<close>

definition typed_ops :: "host \<Rightarrow> string list" where
  "typed_ops h = concat (map (\<lambda>(i, tag, text). case tag of None \<Rightarrow> [] | Some x \<Rightarrow> [x]) (h_typed h))"

definition open_ids :: "state_store \<Rightarrow> string set" where
  "open_ids st = se_id ` {s \<in> set (st_sessions st). se_closedAt s = None}"

definition calm :: "host \<Rightarrow> host \<Rightarrow> bool" where
  "calm h h' \<longleftrightarrow> h_typed h' = h_typed h \<and> h_alive h' = h_alive h \<and> h_pendingOpens h' = h_pendingOpens h \<and>
     st_operations (h_store h') = st_operations (h_store h) \<and> open_ids (h_store h') \<subseteq> open_ids (h_store h) \<and>
     (state_inv (h_store h) \<longrightarrow> state_inv (h_store h'))"

text \<open>\<open>save\<close> writes one row; a transcript update keeps whether the session is closed.\<close>

lemma save_rows:
  "r \<in> set (st_sessions (fst (save u k s st))) \<Longrightarrow>
    r \<in> set (st_sessions st) \<or> r = normalized_session u s (getSession (si_id s) st)"
  by (auto simp: save_def Let_def update_dir_def upsert_session_def ensure_dir_def getSession_def set_update_where
      split: if_splits)

lemma normalized_simps [simp]:
  "se_id (normalized_session u s e) = si_id s" "se_closedAt (normalized_session u s e) = si_closedAt s"
  by (simp_all add: normalized_session_def)

lemma transcript_open: "open_ids (fst (updateTranscript u k i fs st)) \<subseteq> open_ids st"
proof (cases "getSession i st")
  case (Some s)
  then have s: "s \<in> set (st_sessions st)" unfolding getSession_def by (rule by_key_SomeD)
  show ?thesis
  proof
    fix x
    assume "x \<in> open_ids (fst (updateTranscript u k i fs st))"
    then obtain r where r: "r \<in> set (st_sessions (fst (updateTranscript u k i fs st)))" "se_closedAt r = None" "x = se_id r"
      by (auto simp: open_ids_def)
    from save_rows [OF r(1) [unfolded updateTranscript_def Some option.case]] show "x \<in> open_ids st"
      using r(2,3) s by (auto simp: open_ids_def input_of_def)
  qed
qed (simp add: updateTranscript_def)

lemma close_open: "open_ids (fst (closeSession u k n i st)) \<subseteq> open_ids st"
proof (cases "getSession i st")
  case (Some s)
  show ?thesis
  proof
    fix x
    assume "x \<in> open_ids (fst (closeSession u k n i st))"
    then obtain r where r: "r \<in> set (st_sessions (fst (closeSession u k n i st)))" "se_closedAt r = None" "x = se_id r"
      by (auto simp: open_ids_def)
    from save_rows [OF r(1) [unfolded closeSession_def Some option.case]] show "x \<in> open_ids st"
      using r(2,3) by (auto simp: open_ids_def)
  qed
qed (simp add: closeSession_def)

lemma calm_refl [simp]: "calm h h"
  by (simp add: calm_def)

lemma calm_trans: "calm h h1 \<Longrightarrow> calm h1 h2 \<Longrightarrow> calm h h2"
  by (auto simp: calm_def)

lemma calm_unpiped [simp]: "calm h (h\<lparr>h_unpiped := u\<rparr>)"
  by (simp add: calm_def)

lemma calm_degrade: "calm h (fst (degrade w i reason h))"
proof -
  let ?fs = "\<lparr>tx_epoch = None, tx_earliestOffset = None, tx_captureState = Some ''DEGRADED'', tx_gapReason = Some (Some reason)\<rparr>"
  obtain st a where run: "updateTranscript (w_uuid w) (w_fs_ok w) i ?fs (h_store h) = (st, a)"
    by (cases "updateTranscript (w_uuid w) (w_fs_ok w) i ?fs (h_store h)")
  then have st: "st = fst (updateTranscript (w_uuid w) (w_fs_ok w) i ?fs (h_store h))" by simp
  have "calm h (h\<lparr>h_store := st\<rparr>)"
    unfolding st by (simp add: calm_def transcript_operations transcript_open state_inv_transcript)
  then show ?thesis by (simp add: degrade_def run)
qed

lemma calm_missing: "calm h (fst (missing_transcript w i s h))"
  using calm_degrade [of h w i "''transcript_missing''"]
  by (auto simp: missing_transcript_def split: prod.splits sum.splits)

lemma calm_range: "calm h (fst (outputRange cfg w i s h))"
  using calm_missing [of h w i s] by (auto simp: outputRange_def split: sum.split transcript_exc.split)

lemma calm_size: "calm h (fst (outputSize cfg w i h))"
proof (cases "getSession i (h_store h)")
  case (Some s)
  then show ?thesis using calm_range [of h cfg w i s]
    by (auto simp: outputSize_def split: prod.splits sum.splits)
qed (simp add: outputSize_def)

lemma calm_observe: "calm h (fst (observeCaptureStop w i s h))"
  by (auto simp: observeCaptureStop_def calm_degrade split: option.split)

lemma calm_stop: "calm h (fst (stop_capture w i reason h))"
  using calm_trans [OF calm_unpiped calm_degrade] by (simp add: stop_capture_def)

lemma calm_reserve: "calm h (fst (enforceCaptureReserve cfg w i s alive h))"
  by (simp add: enforceCaptureReserve_def Let_def calm_stop)

lemma calm_ceiling: "calm h (fst (enforceCaptureCeiling cfg w i s alive r h))"
  by (simp add: enforceCaptureCeiling_def Let_def calm_stop)

text \<open>The same facts for a known result.\<close>

lemma calm_eqD:
  "observeCaptureStop w i s h = (h', v) \<Longrightarrow> calm h h'"
  "enforceCaptureReserve cfg w i s alive h = (h', v) \<Longrightarrow> calm h h'"
  "outputRange cfg w i s h = (h', u) \<Longrightarrow> calm h h'"
  "enforceCaptureCeiling cfg w i s alive r h = (h', v) \<Longrightarrow> calm h h'"
  "outputSize cfg w i h = (h', n) \<Longrightarrow> calm h h'"
  using calm_observe [of h w i s] calm_reserve [of h cfg w i s alive] calm_range [of h cfg w i s]
    calm_ceiling [of h cfg w i s alive r] calm_size [of h cfg w i] by simp_all

lemma calm_read: "calm h (fst (readOutput cfg w i cursor n h))"
proof (cases "getSession i (h_store h)")
  case None
  then show ?thesis by (simp add: readOutput_def)
next
  case (Some s0)
  obtain h1 x1 where o: "observeCaptureStop w i s0 h = (h1, x1)" by (cases "observeCaptureStop w i s0 h")
  show ?thesis
  proof (cases x1)
    case (Inl e)
    then show ?thesis using calm_eqD(1) [OF o] by (simp add: readOutput_def Some o)
  next
    case (Inr s1)
    let ?alive = "isAlive i h1"
    obtain h2 x2 where rv: "enforceCaptureReserve cfg w i s1 ?alive h1 = (h2, x2)"
      by (cases "enforceCaptureReserve cfg w i s1 ?alive h1")
    have c2: "calm h h2" using calm_trans calm_eqD(1) [OF o] calm_eqD(2) [OF rv] .
    show ?thesis
    proof (cases x2)
      case (Inl e)
      then show ?thesis using c2 Inr by (simp add: readOutput_def Some o rv Let_def)
    next
      case x2: (Inr s2)
      obtain h3 x3 where rg: "outputRange cfg w i s2 h2 = (h3, x3)" by (cases "outputRange cfg w i s2 h2")
      have c3: "calm h h3" using calm_trans c2 calm_eqD(3) [OF rg] .
      show ?thesis
      proof (cases x3)
        case (Inl e)
        then show ?thesis using c3 Inr x2 by (simp add: readOutput_def Some o rv rg Let_def)
      next
        case x3: (Inr sr)
        obtain s3 r where sr: "sr = (s3, r)" by (cases sr)
        obtain h4 x4 where cl: "enforceCaptureCeiling cfg w i s3 ?alive r h3 = (h4, x4)"
          by (cases "enforceCaptureCeiling cfg w i s3 ?alive r h3")
        have c4: "calm h h4" using calm_trans c3 calm_eqD(4) [OF cl] .
        then show ?thesis using Inr x2 x3
          by (auto simp: readOutput_def Some o rv rg sr cl Let_def split: sum.split prod.split)
      qed
    qed
  qed
qed

section \<open>The invariant of the interleavings\<close>

definition store_ids :: "state_store \<Rightarrow> string set" where
  "store_ids st = op_id ` set (st_operations st)"

text \<open>A step that types no command, loses no operation and keeps the store's invariant.\<close>

definition advance :: "host \<Rightarrow> host \<Rightarrow> bool" where
  "advance h h' \<longleftrightarrow> typed_ops h' = typed_ops h \<and> set (h_alive h') \<subseteq> set (h_alive h) \<and>
     h_pendingOpens h' = h_pendingOpens h \<and> open_ids (h_store h') \<subseteq> open_ids (h_store h) \<and> store_ids (h_store h) \<subseteq> store_ids (h_store h') \<and>
     (state_inv (h_store h) \<longrightarrow> state_inv (h_store h'))"

lemma advance_refl [simp]: "advance h h"
  by (simp add: advance_def)

lemma advance_trans: "advance h h1 \<Longrightarrow> advance h1 h2 \<Longrightarrow> advance h h2"
  by (auto simp: advance_def)

lemma advance_calm: "calm h h' \<Longrightarrow> advance h h'"
  by (simp add: calm_def advance_def typed_ops_def store_ids_def)

lemma advance_store:
  assumes "state_inv (h_store h) \<Longrightarrow> state_inv (fst (f (h_store h)))" "store_ids (h_store h) \<subseteq> store_ids (fst (f (h_store h)))"
    and "open_ids (fst (f (h_store h))) \<subseteq> open_ids (h_store h)"
  shows "advance h (fst (on_store f h))"
  using assms by (auto simp: on_store_def advance_def typed_ops_def split: prod.split)

lemma update_ids: "store_ids (fst (updateOperation x v fs st)) = store_ids st"
  by (auto simp: updateOperation_def Let_def store_ids_def split: option.split)

lemma same_sessions_open: "st_sessions st' = st_sessions st \<Longrightarrow> open_ids st' \<subseteq> open_ids st"
  by (simp add: open_ids_def)

lemma update_sessions: "st_sessions (fst (updateOperation x v fs st)) = st_sessions st"
  by (auto simp: updateOperation_def Let_def split: option.split)

lemma interrupt_sessions: "st_sessions (fst (interruptActiveOperation n i r st)) = st_sessions st"
  by (simp add: interruptActiveOperation_def update_sessions split: option.split)

lemma prepare_sessions: "st_sessions (fst (prepareOperationCompletion k i x st)) = st_sessions st"
  by (simp add: prepareOperationCompletion_def update_dir_def ensure_dir_def)

lemma admit_sessions: "st_sessions (fst (admitOperation k q st)) = st_sessions st"
  unfolding admitOperation_def
  by (rule transaction_invariant [where P = "\<lambda>s. st_sessions s = st_sessions st"])
    (auto simp: admit_body_def insert_operation_def split: option.splits if_splits sum.splits)

lemmas session_preservation = same_sessions_open update_sessions interrupt_sessions prepare_sessions admit_sessions close_open

lemma advance_update: "advance h (fst (on_store (updateOperation x v fs) h))"
  by (rule advance_store) (simp_all add: state_inv_update update_ids session_preservation)

lemma advance_throw: "advance h (fst (update_then_throw x v fs e h))"
  using advance_update [of h x v fs] by (auto simp: update_then_throw_def on_store_def split: prod.splits sum.split)

lemma advance_prepare: "advance h (fst (command_prepare w i x h))"
proof -
  have "advance h (fst (on_store (prepareOperationCompletion (w_fs_ok w) i x) h))"
    by (rule advance_store) (simp_all add: state_inv_prepare prepare_operations store_ids_def session_preservation)
  moreover obtain h' a where r: "on_store (prepareOperationCompletion (w_fs_ok w) i x) h = (h', a)"
    by (cases "on_store (prepareOperationCompletion (w_fs_ok w) i x) h")
  ultimately have "advance h h'" by simp
  then show ?thesis
    by (cases a) (simp_all add: command_prepare_def r advance_trans [OF _ advance_throw])
qed

lemma advance_close: "advance h (fst (close_terminal w i h))"
proof -
  have st: "advance g (fst (on_store (closeSession (w_uuid w) (w_fs_ok w) (w_now w) i) g))" for g
    by (rule advance_store) (simp_all add: state_inv_close close_operations store_ids_def session_preservation)
  have "advance h (h\<lparr>h_alive := removeAll i (h_alive h)\<rparr>)" by (auto simp: advance_def typed_ops_def)
  then have "advance h (fst (on_store (closeSession (w_uuid w) (w_fs_ok w) (w_now w) i) (h\<lparr>h_alive := removeAll i (h_alive h)\<rparr>)))"
    using st by (rule advance_trans)
  then show ?thesis using st by (simp add: close_terminal_def split: option.split)
qed

lemma advance_settle: "advance h (fst (monitor_settle w i x h))"
  using advance_update by (auto simp: monitor_settle_def split: sum.split option.split prod.split)
    (metis fst_conv)+

lemma interrupt_ids: "store_ids (fst (interruptActiveOperation n s r st)) = store_ids st"
  by (simp add: interruptActiveOperation_def update_ids split: option.split)

lemma advance_untagged: "advance h (h\<lparr>h_typed := h_typed h @ [(i, None, t)]\<rparr>)"
  by (simp add: advance_def typed_ops_def)

lemma advance_interrupt: "advance h (fst (interrupt w i h))"
proof -
  have "advance g (fst (on_store (interruptActiveOperation (w_now w) i ''owner_interrupt'') g))" for g
    by (rule advance_store) (simp_all add: state_inv_interrupt interrupt_ids session_preservation)
  from advance_trans [OF advance_untagged this]
  have "advance h (fst (on_store (interruptActiveOperation (w_now w) i ''owner_interrupt'')
      (h\<lparr>h_typed := h_typed h @ [(i, None, [CHR 0x03])]\<rparr>)))" .
  then show ?thesis by (auto simp: interrupt_def split: sum.split prod.splits)
qed

lemma advance_input: "advance h (fst (sendInput w i input enter h))"
  by (auto simp: sendInput_def paste_def advance_untagged split: option.split json.split sum.split)

lemma admit_store:
  assumes "admitOperation k q st = (st', Inr (r, False))"
  shows "rq_id q \<notin> store_ids st \<and> store_ids st' = insert (rq_id q) (store_ids st)"
proof -
  have "\<exists>s. insert_operation (accepted q) st = Inr s \<and> s = st'"
    using assms unfolding admitOperation_def transaction_eq_Inr
    by (auto simp: admit_body_def split: option.splits if_splits sum.splits)
  then have "insert_operation (accepted q) st = Inr st'" by simp
  then show ?thesis
    by (auto simp: insert_operation_def store_ids_def by_key_None_iff accepted_def split: if_splits)
qed

lemma admit_other_ids:
  "store_ids st \<subseteq> store_ids (fst (admitOperation k q st))"
  unfolding admitOperation_def
  by (rule transaction_invariant [where P = "\<lambda>s. store_ids st \<subseteq> store_ids s"])
    (auto simp: admit_body_def insert_operation_def store_ids_def split: option.splits if_splits sum.splits)

text \<open>Admission: either nothing is added, or exactly the new operation.\<close>

lemma admit_advance:
  "advance h (fst (command_admit cfg w fp ok i c key x h))"
  "command_admit cfg w fp ok i c key x h = (h', Inr (r, False)) \<Longrightarrow> x \<notin> store_ids (h_store h) \<and> x \<in> store_ids (h_store h')"
proof -
  have adv: "advance g (fst (on_store (admitOperation ok q) g))" for q g
    by (rule advance_store) (simp_all add: state_inv_admit admit_other_ids session_preservation)
  show "advance h (fst (command_admit cfg w fp ok i c key x h))"
  proof -
    have two: "advance h (fst (on_store (admitOperation ok q) h1))" if "outputSize cfg w i h = (h1, n)" for h1 n q
      using advance_calm [OF calm_eqD(5) [OF that]] adv by (rule advance_trans)
    show ?thesis using advance_calm [OF calm_eqD(5)] two
      by (auto simp: command_admit_def Let_def split: option.split json.split sum.split prod.split)
  qed
  show "x \<notin> store_ids (h_store h) \<and> x \<in> store_ids (h_store h')"
    if run: "command_admit cfg w fp ok i c key x h = (h', Inr (r, False))"
  proof -
    obtain h1 n q where size: "outputSize cfg w i h = (h1, n)" and q: "rq_id q = x"
      and adm: "on_store (admitOperation ok q) h1 = (h', Inr (r, False))"
      using run by (auto simp: command_admit_def Let_def split: option.splits json.splits sum.splits prod.splits if_splits)
        (metis operation_request.select_convs(1))+
    have "store_ids (h_store h1) = store_ids (h_store h)" using calm_eqD(5) [OF size] by (simp add: calm_def store_ids_def)
    moreover obtain st' where st': "admitOperation ok q (h_store h1) = (st', Inr (r, False))" "h_store h' = st'"
      using adm by (auto simp: on_store_def split: prod.splits)
    ultimately show ?thesis using q admit_store [OF st'(1)] st'(2) by simp
  qed
qed

definition agent_inv :: "agent \<Rightarrow> bool" where
  "agent_inv a \<longleftrightarrow> state_inv (h_store (ag_host a)) \<and>
     distinct (typed_ops (ag_host a) @ map th_op (ag_threads a)) \<and>
     set (typed_ops (ag_host a)) \<union> th_op ` set (ag_threads a) \<subseteq> store_ids (h_store (ag_host a))"

text \<open>Four kinds of steps.\<close>

lemma inv_advance: "agent_inv a \<Longrightarrow> advance (ag_host a) h \<Longrightarrow> agent_inv (a\<lparr>ag_host := h\<rparr>)"
  by (auto simp: agent_inv_def advance_def)

lemma inv_watching [simp]: "agent_inv (a\<lparr>ag_watching := ws\<rparr>) = agent_inv a"
  by (simp add: agent_inv_def)

lemma inv_stage: "agent_inv a \<Longrightarrow> agent_inv (a\<lparr>ag_threads := set_stage x s (ag_threads a)\<rparr>)"
  by (simp add: agent_inv_def set_stage_def)

lemma inv_drop: "agent_inv a \<Longrightarrow> agent_inv (a\<lparr>ag_threads := drop_thread x (ag_threads a)\<rparr>)"
  by (auto simp: agent_inv_def drop_thread_def)

lemma inv_new:
  assumes "agent_inv a" "advance (ag_host a) h" "x \<notin> store_ids (h_store (ag_host a))" "x \<in> store_ids (h_store h)" "th_op t = x"
  shows "agent_inv (a\<lparr>ag_host := h, ag_threads := ag_threads a @ [t]\<rparr>)"
  using assms by (auto simp: agent_inv_def advance_def)

lemma inv_typed:
  assumes "agent_inv a" "t \<in> set (ag_threads a)" "h_store h = h_store (ag_host a)"
    "typed_ops h = typed_ops (ag_host a) @ [th_op t]"
  shows "agent_inv (a\<lparr>ag_host := h, ag_threads := drop_thread (th_op t) (ag_threads a)\<rparr>)"
  using assms by (auto simp: agent_inv_def drop_thread_def)

lemma paste_cases:
  assumes "command_paste cfg w i x c h = (h', b)"
  shows "advance h h' \<or> h_store h' = h_store h \<and> typed_ops h' = typed_ops h @ [x]"
proof (cases "paste w i (Some x) (wrapped cfg i x c) True h")
  case (Pair h1 r)
  show ?thesis
  proof (cases r)
    case (Inl e)
    then have "h1 = h" using Pair by (auto simp: paste_def split: sum.splits if_splits)
    then have "update_then_throw x ''UNKNOWN'' (outcome (w_now w) ''spawn_result_uncertain'') e h = (h', b)"
      using assms Pair Inl by (simp add: command_paste_def)
    then show ?thesis by (metis advance_throw fst_conv)
  next
    case (Inr u)
    then show ?thesis using assms Pair
      by (auto simp: command_paste_def paste_def typed_ops_def split: sum.splits if_splits)
  qed
qed

lemma agent_inv_stretch:
  assumes "agent_inv a" "by_key th_op x (ag_threads a) = Some t"
  shows "agent_inv (next_stretch cfg w t a)"
proof -
  have t: "t \<in> set (ag_threads a)" using assms(2) by (rule by_key_SomeD)
  show ?thesis
  proof (cases "th_stage t")
    case Admitted
    obtain h r where run: "command_prepare w (th_session t) (th_op t) (ag_host a) = (h, r)"
      by (cases "command_prepare w (th_session t) (th_op t) (ag_host a)")
    have "agent_inv (a\<lparr>ag_host := h\<rparr>)"
      using inv_advance [OF assms(1)] advance_prepare [of "ag_host a" w "th_session t" "th_op t"] run by simp
    from inv_stage [OF this, of "th_op t" Prepared] inv_drop [OF this, of "th_op t"]
    show ?thesis by (cases r) (simp_all add: next_stretch_def Admitted run)
  next
    case Prepared
    obtain h r where run: "command_start w (th_op t) (ag_host a) = (h, r)"
      by (cases "command_start w (th_op t) (ag_host a)")
    have "advance (ag_host a) h"
      using advance_update [of "ag_host a" "th_op t"] run unfolding command_start_def by (metis fst_conv)
    then have "agent_inv (a\<lparr>ag_host := h\<rparr>)" using inv_advance [OF assms(1)] by blast
    from inv_stage [OF this, of "th_op t" Started] inv_drop [OF this, of "th_op t"]
    show ?thesis by (cases r) (simp_all add: next_stretch_def Prepared run)
  next
    case Started
    obtain h r where run: "command_paste cfg w (th_session t) (th_op t) (th_command t) (ag_host a) = (h, r)"
      by (cases "command_paste cfg w (th_session t) (th_op t) (th_command t) (ag_host a)")
    from paste_cases [OF run] have "agent_inv (a\<lparr>ag_host := h, ag_threads := drop_thread (th_op t) (ag_threads a)\<rparr>)"
    proof
      assume "advance (ag_host a) h"
      from inv_drop [OF inv_advance [OF assms(1) this], of "th_op t"] show ?thesis by simp
    next
      assume "h_store h = h_store (ag_host a) \<and> typed_ops h = typed_ops (ag_host a) @ [th_op t]"
      then show ?thesis using inv_typed [OF assms(1) t] by blast
    qed
    then show ?thesis by (simp add: next_stretch_def Started run)
  qed
qed

lemma agent_inv_exec: "agent_inv a \<Longrightarrow> agent_inv (agent_exec cfg fp x a)"
proof (cases x)
  case (RunCommand w ok i command key y)
  assume inv: "agent_inv a"
  obtain h r where run: "command_admit cfg w fp ok i command key y (ag_host a) = (h, r)"
    by (cases "command_admit cfg w fp ok i command key y (ag_host a)")
  have adv: "advance (ag_host a) h" using admit_advance(1) [of "ag_host a" cfg w fp ok i command key y] run by simp
  show ?thesis
  proof (cases "\<exists>r'. r = Inr (r', False)")
    case True
    then obtain r' where r: "r = Inr (r', False)" by blast
    note ids = admit_advance(2) [OF run [unfolded r]]
    show ?thesis unfolding RunCommand agent_exec.simps run r
      using inv_new [OF inv adv conjunct1 [OF ids] conjunct2 [OF ids]] by simp
  next
    case False
    then have "agent_exec cfg fp x a = a\<lparr>ag_host := h\<rparr>"
      by (auto simp: RunCommand run split: sum.split prod.split bool.split)
    then show ?thesis using inv_advance [OF inv adv] by simp
  qed
next
  case (NextStretch y w)
  then show "agent_inv a \<Longrightarrow> ?thesis" using agent_inv_stretch by (auto split: option.split)
next
  case (MonitorSettle i y w)
  then show "agent_inv a \<Longrightarrow> ?thesis"
    using inv_advance [OF _ advance_settle [of "ag_host a" w i y]]
    by (auto split: prod.split)
next
  case (CommandDone i y f)
  have "advance (ag_host a) ((ag_host a)\<lparr>h_store := update_dir i (\<lambda>d. d\<lparr>sd_exits := (y, f) # sd_exits d\<rparr>) (h_store (ag_host a))\<rparr>)"
    using state_inv_update_dir [of "h_store (ag_host a)" "\<lambda>d. d\<lparr>sd_exits := (y, f) # sd_exits d\<rparr>" i]
    by (simp add: advance_def typed_ops_def store_ids_def update_dir_def open_ids_def)
  then show "agent_inv a \<Longrightarrow> ?thesis" using inv_advance CommandDone by auto
next
  case (SessionDies i)
  have "advance (ag_host a) ((ag_host a)\<lparr>h_alive := removeAll i (h_alive (ag_host a))\<rparr>)"
    by (auto simp: advance_def typed_ops_def)
  then show "agent_inv a \<Longrightarrow> ?thesis" using inv_advance SessionDies by auto
qed (simp_all add: watch_def inv_advance advance_interrupt advance_close advance_input advance_calm calm_read)

lemma agent_inv_run: "agent_inv a \<Longrightarrow> agent_inv (agent_run cfg fp xs a)"
  by (induction xs arbitrary: a) (simp_all add: agent_inv_exec)

definition idle_agent :: "host \<Rightarrow> agent" where
  "idle_agent h = \<lparr>ag_host = h, ag_threads = [], ag_watching = []\<rparr>"

lemma agent_inv_idle:
  "typed_ops h = [] \<Longrightarrow> h_store h = store_run ys empty_state_store \<Longrightarrow> agent_inv (idle_agent h)"
  by (simp add: agent_inv_def idle_agent_def store_run_reachable)

definition ex_cfg_terminal :: terminal_cfg where
  "ex_cfg_terminal = \<lparr>tc_dataDir = ''/var/lib/dpb'', tc_terminalMaxActive = None, tc_transcriptTotalMaxBytes = None,
     tc_sessionOutputMaxBytes = None, tc_transcriptSegmentBytes = Some 64, tc_storageMinFreeBytes = None, tc_monitorOperations = True\<rparr>"

definition ex_world :: world where
  "ex_world = \<lparr>w_now = 100, w_uuid = ''u'', w_free = 0, w_fs_ok = True, w_tmux_ok = True\<rparr>"

definition ex_host :: host where
  "ex_host = \<lparr>h_store = store_run ex_open empty_state_store, h_alive = [''s1''],
     h_transcripts = [(''s1'', [(''terminal.log'', Regular 1 [])])], h_pendingOpens = 0, h_typed = [], h_unpiped = []\<rparr>"

section \<open>Properties\<close>

text \<open>
  C20. However requests, monitors, interrupts, completions and failures interleave, a
  command is typed into its terminal at most once: the operations behind the typed commands
  are all recorded, no operation is typed twice, and no two typed commands share session and
  idempotency key.
\<close>

theorem command_typed_once:
  assumes "typed_ops h = []" "h_store h = store_run ys empty_state_store"
  shows "let h' = ag_host (agent_run cfg fp xs (idle_agent h)) in
    distinct (typed_ops h') \<and>
    (\<forall>x y r s. x \<in> set (typed_ops h') \<longrightarrow> y \<in> set (typed_ops h') \<longrightarrow>
      getOperation x None (h_store h') = Some r \<longrightarrow> getOperation y None (h_store h') = Some s \<longrightarrow>
      op_sessionId r = op_sessionId s \<longrightarrow> op_idempotencyKey r = op_idempotencyKey s \<longrightarrow> x = y) \<and>
    list_all (\<lambda>x. getOperation x None (h_store h') \<noteq> None) (typed_ops h')"
proof -
  let ?h = "ag_host (agent_run cfg fp xs (idle_agent h))"
  have inv: "agent_inv (agent_run cfg fp xs (idle_agent h))"
    using agent_inv_run [OF agent_inv_idle [OF assms]] .
  then have st: "state_inv (h_store ?h)" and d: "distinct (typed_ops ?h)" and rows: "set (typed_ops ?h) \<subseteq> store_ids (h_store ?h)"
    by (auto simp: agent_inv_def)
  have "getOperation x None (h_store ?h) \<noteq> None" if "x \<in> set (typed_ops ?h)" for x
    using rows that by (auto simp: getOperation_def by_key_None_iff store_ids_def)
  moreover have "x = y" if "getOperation x None (h_store ?h) = Some r" "getOperation y None (h_store ?h) = Some s"
    "op_sessionId r = op_sessionId s" "op_idempotencyKey r = op_idempotencyKey s" for x y r s
  proof -
    have r: "r \<in> set (st_operations (h_store ?h))" "op_id r = x"
      using that(1) by (auto simp: getOperation_def dest: by_key_SomeD)
    have s: "s \<in> set (st_operations (h_store ?h))" "op_id s = y"
      using that(2) by (auto simp: getOperation_def dest: by_key_SomeD)
    have "op_key r = op_key s" using that(3,4) by (simp add: op_key_def)
    then have "r = s" using key_inj [OF state_invD(3) [OF st] r(1) s(1)] by blast
    then show ?thesis using r s by simp
  qed
  ultimately show ?thesis using d unfolding Let_def list_all_iff by blast
qed

definition ex_run :: "agent_op list" where
  "ex_run = [RunCommand ex_world True ''s1'' (Some (JStr ''make'')) (Some ''k1'') ''op1'',
     RunCommand ex_world True ''s1'' (Some (JStr ''make'')) (Some ''k1'') ''op2'',
     NextStretch ''op1'' ex_world, NextStretch ''op1'' ex_world, NextStretch ''op1'' ex_world,
     NextStretch ''op1'' ex_world, NextStretch ''op2'' ex_world]"

theorem command_typed_once_witness:
  "distinct (typed_ops (ag_host (agent_run ex_cfg_terminal (\<lambda>c. c) ex_run (idle_agent ex_host)))) \<and>
    typed_ops (ag_host (agent_run ex_cfg_terminal (\<lambda>c. c) ex_run (idle_agent ex_host))) = [''op1'']"
proof
  have "typed_ops ex_host = []" "h_store ex_host = store_run ex_open empty_state_store"
    by (simp_all add: ex_host_def typed_ops_def)
  from command_typed_once [OF this, of ex_cfg_terminal "\<lambda>c. c" ex_run]
  show "distinct (typed_ops (ag_host (agent_run ex_cfg_terminal (\<lambda>c. c) ex_run (idle_agent ex_host))))"
    unfolding Let_def by (elim conjE)
qed code_simp

section \<open>The window of an interrupt\<close>

lemma getOperation_row: "state_inv st \<Longrightarrow> r \<in> set (st_operations st) \<Longrightarrow> getOperation (op_id r) None st = Some r"
  by (simp add: getOperation_def by_key_member state_invD(2))

lemma activeOperation_eq:
  assumes inv: "state_inv st" and r: "r \<in> set (st_operations st)" "occupies (op_status r)"
  shows "activeOperation (op_sessionId r) st = Some r"
proof -
  obtain a where a: "activeOperation (op_sessionId r) st = Some a"
    using r activeOperation_None by (cases "activeOperation (op_sessionId r) st") blast+
  then have m: "a \<in> set (st_operations st)" "op_sessionId a = op_sessionId r" "occupies (op_status a)"
    using activeOperation_SomeD by blast+
  then have "op_id a = op_id r" using state_invD(4) [OF inv] r unfolding one_writer_def by blast
  then show ?thesis using a key_inj [OF state_invD(2) [OF inv] m(1) r(1)] by simp
qed

lemma update_row:
  assumes inv: "state_inv st" and r: "r \<in> set (st_operations st)" and ok: "\<not> index_violated (op_id r) v st"
  shows "updateOperation (op_id r) (status_name v) fs st =
      (st\<lparr>st_operations := update_where (\<lambda>s. op_id s = op_id r) (set_status v fs) (st_operations st)\<rparr>, Inr (Some (set_status v fs r)))"
proof -
  have "by_key op_id (op_id r) (st_operations st) = Some r" using by_key_member [OF state_invD(2) [OF inv] r] .
  then show ?thesis using ok
    by (cases v) (simp_all add: updateOperation_def parse_status_def Let_def getOperation_def by_key_update_where)
qed

lemma not_violated_settled: "v \<in> {SUCCEEDED, FAILED, INTERRUPTED} \<Longrightarrow> \<not> index_violated x v st"
  by (auto simp: index_violated_def occupies_def)

text \<open>With one occupying operation interrupted, nothing occupies the session.\<close>

lemma running_again:
  assumes inv: "state_inv st" and r: "r \<in> set (st_operations st)" "occupies (op_status r)"
  shows "\<not> index_violated (op_id r) v (st\<lparr>st_operations := update_where (\<lambda>s. op_id s = op_id r) (set_status INTERRUPTED fs) (st_operations st)\<rparr>)"
proof -
  have "\<not> (op_id s \<noteq> op_id r \<and> op_sessionId s = op_sessionId r \<and> occupies (op_status s))" if "s \<in> set (st_operations st)" for s
    using state_invD(4) [OF inv] r that unfolding one_writer_def by blast
  moreover have "by_key op_id (op_id r) (st_operations st) = Some r" using by_key_member [OF state_invD(2) [OF inv] r(1)] .
  ultimately show ?thesis
    by (auto simp: index_violated_def by_key_update_where list_ex_iff set_update_where)
qed

text \<open>
  An interrupt that arrives while a command has been admitted and waits for its control
  file answers that the operation is INTERRUPTED, and the command is typed nevertheless:
  \<open>runCommand\<close> does not look at the status again. It marks the operation RUNNING and pastes
  the text after the interrupt's control character.
\<close>

theorem interrupted_command_still_runs:
  assumes inv: "state_inv (h_store (ag_host a))"
    and row: "r \<in> set (st_operations (h_store (ag_host a)))" "op_status r = ACCEPTED"
    and session: "requireSession (op_sessionId r) (ag_host a) = Inr s"
    and thread: "by_key th_op (op_id r) (ag_threads a) = Some t" "th_session t = op_sessionId r" "th_stage t = Prepared"
    and works: "w_tmux_ok w" "w_fs_ok w"
  shows "(\<exists>p. snd (interrupt w (op_sessionId r) (ag_host a)) = Inr (Some p) \<and> pub_operationId p = op_id r \<and> pub_status p = INTERRUPTED) \<and>
    (let h = ag_host (agent_run cfg fp [Interrupt (op_sessionId r) w, NextStretch (op_id r) w, NextStretch (op_id r) w] a) in
     h_typed h = h_typed (ag_host a) @ [(op_sessionId r, None, [CHR 0x03]),
        (op_sessionId r, Some (op_id r), wrapped cfg (op_sessionId r) (op_id r) (th_command t) @ [CHR 0x0A])] \<and>
     map_option op_status (getOperation (op_id r) None (h_store h)) = Some RUNNING)"
proof -
  let ?i = "op_sessionId r" and ?x = "op_id r" and ?st = "h_store (ag_host a)"
  let ?fs = "outcome (w_now w) ''owner_interrupt''"
  let ?fs2 = "\<lparr>of_startedAt = Some (w_now w), of_completedAt = None, of_exitCode = None, of_outcomeReason = None\<rparr>"
  let ?st1 = "?st\<lparr>st_operations := update_where (\<lambda>s. op_id s = ?x) (set_status INTERRUPTED ?fs) (st_operations ?st)\<rparr>"
  let ?r1 = "set_status INTERRUPTED ?fs r"
  let ?h0 = "(ag_host a)\<lparr>h_typed := h_typed (ag_host a) @ [(?i, None, [CHR 0x03])]\<rparr>"
  have occ: "occupies (op_status r)" using row(2) by (simp add: occupies_def)
  have "updateOperation ?x (status_name INTERRUPTED) ?fs ?st = (?st1, Inr (Some ?r1))"
    by (rule update_row [OF inv row(1)]) (simp add: not_violated_settled)
  then have up1: "interruptActiveOperation (w_now w) ?i ''owner_interrupt'' ?st = (?st1, Inr (Some ?r1))"
    by (simp add: interruptActiveOperation_def activeOperation_eq [OF inv row(1) occ] outcome_def)
  have int: "interrupt w ?i (ag_host a) = (?h0\<lparr>h_store := ?st1\<rparr>, Inr (publicOperation (Some ?r1)))"
    by (simp add: interrupt_def session works(1) on_store_def up1)
  have inv1: "state_inv ?st1"
    using state_inv_set_status [OF inv, of ?x INTERRUPTED ?fs] by (simp add: not_violated_settled)
  have row1: "?r1 \<in> set (st_operations ?st1)" using row(1) by (auto simp: set_update_where)
  let ?st2 = "?st1\<lparr>st_operations := update_where (\<lambda>s. op_id s = ?x) (set_status RUNNING ?fs2) (st_operations ?st1)\<rparr>"
  have up2: "updateOperation ?x ''RUNNING'' ?fs2 ?st1 = (?st2, Inr (Some (set_status RUNNING ?fs2 ?r1)))"
    using update_row [OF inv1 row1, of RUNNING ?fs2] running_again [OF inv row(1) occ, of RUNNING ?fs] by simp
  let ?a1 = "a\<lparr>ag_host := ?h0\<lparr>h_store := ?st1\<rparr>\<rparr>"
  let ?a2 = "?a1\<lparr>ag_host := ?h0\<lparr>h_store := ?st2\<rparr>, ag_threads := set_stage ?x Started (ag_threads a)\<rparr>"
  have tx: "th_op t = ?x" using thread(1) by (auto dest: by_key_SomeD)
  have step1: "agent_exec cfg fp (Interrupt ?i w) a = ?a1" by (simp add: int)
  have step2: "agent_exec cfg fp (NextStretch ?x w) ?a1 = ?a2"
    using thread tx by (simp add: next_stretch_def command_start_def on_store_def up2)
  have thread2: "by_key th_op ?x (ag_threads ?a2) = Some (t\<lparr>th_stage := Started\<rparr>)"
    using thread(1) tx by (simp add: set_stage_def by_key_update_where)
  have "requireSession ?i (?h0\<lparr>h_store := ?st2\<rparr>) = Inr s"
    using session by (auto simp: requireSession_def getSession_def isAlive_def split: option.splits if_splits)
  then have paste: "command_paste cfg w ?i ?x (th_command t) (?h0\<lparr>h_store := ?st2\<rparr>) =
      (?h0\<lparr>h_store := ?st2, h_typed := h_typed ?h0 @ [(?i, Some ?x, wrapped cfg ?i ?x (th_command t) @ [CHR 0x0A])]\<rparr>, Inr ())"
    using works by (simp add: command_paste_def paste_def)
  have step3: "ag_host (agent_exec cfg fp (NextStretch ?x w) ?a2) =
      ?h0\<lparr>h_store := ?st2, h_typed := h_typed ?h0 @ [(?i, Some ?x, wrapped cfg ?i ?x (th_command t) @ [CHR 0x0A])]\<rparr>"
    using thread2 thread(2) tx paste by (simp add: next_stretch_def)
  have "getOperation ?x None ?st2 = Some (set_status RUNNING ?fs2 ?r1)"
    using by_key_member [OF state_invD(2) [OF inv] row(1)] by (simp add: getOperation_def by_key_update_where)
  then show ?thesis using step3 unfolding agent_run.simps step1 step2 Let_def int by (simp add: publicOperation_def)
qed

definition ex_window :: agent where
  "ex_window = agent_run ex_cfg_terminal (\<lambda>c. c) [RunCommand ex_world True ''s1'' (Some (JStr ''make'')) (Some ''k1'') ''op1'',
     NextStretch ''op1'' ex_world] (idle_agent ex_host)"

theorem interrupted_command_still_runs_witness:
  "map_option op_status (getOperation ''op1'' None (h_store (ag_host (agent_run ex_cfg_terminal (\<lambda>c. c)
      [Interrupt ''s1'' ex_world, NextStretch ''op1'' ex_world, NextStretch ''op1'' ex_world] ex_window)))) = Some RUNNING"
proof -
  let ?r = "hd (st_operations (h_store (ag_host ex_window)))"
  let ?s = "hd (st_sessions (h_store (ag_host ex_window)))"
  let ?t = "hd (ag_threads ex_window)"
  have "typed_ops ex_host = []" "h_store ex_host = store_run ex_open empty_state_store"
    by (simp_all add: ex_host_def typed_ops_def)
  then have "agent_inv ex_window" unfolding ex_window_def by (rule agent_inv_run [OF agent_inv_idle])
  then have "state_inv (h_store (ag_host ex_window))" unfolding agent_inv_def by (elim conjE)
  moreover have "?r \<in> set (st_operations (h_store (ag_host ex_window)))" "op_status ?r = ACCEPTED"
    "requireSession (op_sessionId ?r) (ag_host ex_window) = Inr ?s"
    "by_key th_op (op_id ?r) (ag_threads ex_window) = Some ?t" "th_session ?t = op_sessionId ?r" "th_stage ?t = Prepared"
    "w_tmux_ok ex_world" "w_fs_ok ex_world" by code_simp+
  ultimately have "map_option op_status (getOperation (op_id ?r) None (h_store (ag_host (agent_run ex_cfg_terminal (\<lambda>c. c)
      [Interrupt (op_sessionId ?r) ex_world, NextStretch (op_id ?r) ex_world, NextStretch (op_id ?r) ex_world] ex_window)))) = Some RUNNING"
    by (rule interrupted_command_still_runs [unfolded Let_def, THEN conjunct2, THEN conjunct2])
  moreover have "op_id ?r = ''op1''" "op_sessionId ?r = ''s1''" by code_simp+
  ultimately show ?thesis by simp
qed

end
