(* ===== verification/Terminal_Props.thy ===== *)
theory Terminal_Props
  imports Operations_Props Transcript_Layout
begin

text \<open>
  Properties of the terminal manager: quoting, the pages of a transcript and the place where
  they never end, and the bound on active terminals.
\<close>

section \<open>Quoting\<close>

text \<open>
  The shell is not part of the program. \<open>literal_word\<close> is the part of its documented word recognition (POSIX,
  Shell Command Language, 2.2.1, 2.2.2 and 2.3) on which quoting rests: characters between single quotes are
  literal, a backslash outside quotes takes the next character literally (a newline would be removed), letters,
  digits and a few marks stand for themselves, and an unquoted blank or operator ends the word. The rest of the
  input is returned with the word. It gives no answer where any other rule of the shell could apply: double
  quotes, \<^verbatim>\<open>$\<close>, backquotes, patterns, \<^verbatim>\<open>~\<close>, \<^verbatim>\<open>#\<close>, \<^verbatim>\<open>!\<close>, braces, an unterminated quote, or no word at all.
\<close>

definition ends_word :: "char \<Rightarrow> bool" where
  "ends_word c \<longleftrightarrow> c \<in> {CHR '' '', CHR 0x09, CHR 0x0A, CHR '';'', CHR ''&'', CHR ''|'', CHR ''<'', CHR ''>'', CHR ''('', CHR '')''}"

definition plain_char :: "char \<Rightarrow> bool" where
  "plain_char c \<longleftrightarrow> c \<in> set ''ABCDEFGHIJKLMNOPQRSTUVWXYZabcdefghijklmnopqrstuvwxyz0123456789_-./:,+@''"

fun word_rest :: "bool \<Rightarrow> string \<Rightarrow> (string \<times> string) option" where
  "word_rest quoted [] = (if quoted then None else Some ([], []))"
| "word_rest True (c # cs) = (if c = sq then word_rest False cs else map_option (\<lambda>(w, r). (c # w, r)) (word_rest True cs))"
| "word_rest False (c # cs) =
     (if c = sq then word_rest True cs
      else if c = bs then (case cs of [] \<Rightarrow> None
        | d # ds \<Rightarrow> if d = CHR 0x0A then None else map_option (\<lambda>(w, r). (d # w, r)) (word_rest False ds))
      else if ends_word c then Some ([], c # cs)
      else if plain_char c then map_option (\<lambda>(w, r). (c # w, r)) (word_rest False cs)
      else None)"

definition literal_word :: "string \<Rightarrow> (string \<times> string) option" where
  "literal_word s = (if s = [] \<or> ends_word (hd s) then None else word_rest False s)"

text \<open>A shell: what it makes of the first word of its input, with the input after it.\<close>

definition posix_quoting :: "(string \<Rightarrow> (string \<times> string) option) \<Rightarrow> bool" where
  "posix_quoting shell \<longleftrightarrow> (\<forall>s w r. literal_word s = Some (w, r) \<longrightarrow> shell s = Some (w, r))"

lemma sq_bs [simp]: "sq \<noteq> bs" "bs \<noteq> sq"
  by (simp_all add: sq_def bs_def)

lemma bs_not_newline [simp]: "sq \<noteq> CHR 0x0A"
  by (simp add: sq_def)

lemma sq_no_end [simp]: "\<not> ends_word sq"
  by (simp add: ends_word_def sq_def)

lemma word_rest_quoted:
  "word_rest True (concat (map (\<lambda>c. if c = sq then [sq, bs, sq, sq] else [c]) s) @ sq # rest) =
    map_option (\<lambda>(w, r). (s @ w, r)) (word_rest False rest)"
proof (induction s)
  case Nil
  show ?case by (cases "word_rest False rest") auto
next
  case (Cons c s)
  then show ?case by (cases "word_rest False rest") auto
qed

lemma quoted_literal:
  assumes "rest = [] \<or> ends_word (hd rest)"
  shows "literal_word (shellQuote value @ rest) = Some (value, rest)"
proof -
  have "c \<noteq> sq \<and> c \<noteq> bs" if "ends_word c" for c using that by (auto simp: ends_word_def sq_def bs_def)
  then have "word_rest False rest = Some ([], rest)" using assms by (cases rest) auto
  then show ?thesis using word_rest_quoted [of "value" rest] by (simp add: literal_word_def shellQuote_def)
qed

text \<open>
  C21. A shell that follows the documented quoting rules reads a quoted value, before a blank, an operator or the end
  of the line, as exactly one word with exactly these characters, whatever they are (\<^verbatim>\<open>$\<close>, backquotes and quotes
  included). So of the line typed for a command it passes the command itself to \<^verbatim>\<open>eval\<close>, as one word: what stands
  before it is \<^verbatim>\<open>eval -- \<close>, and what follows is the fixed epilogue that records the exit status.
\<close>

theorem command_is_one_word:
  assumes "posix_quoting shell"
  shows "take (length ''eval -- '') (wrapped cfg i x command) = ''eval -- '' \<and>
    shell (drop (length ''eval -- '') (wrapped cfg i x command)) = Some (command, epilogue cfg i x) \<and>
    (\<forall>value rest. rest = [] \<or> ends_word (hd rest) \<longrightarrow> shell (shellQuote value @ rest) = Some (value, rest))"
proof -
  have quoted: "shell (shellQuote value @ rest) = Some (value, rest)" if "rest = [] \<or> ends_word (hd rest)" for "value" rest
    using assms quoted_literal [OF that] by (simp add: posix_quoting_def)
  obtain rest where e: "epilogue cfg i x = CHR '';'' # rest" by (simp add: epilogue_def Let_def)
  then have "shell (shellQuote command @ epilogue cfg i x) = Some (command, epilogue cfg i x)"
    by (intro quoted) (simp add: ends_word_def)
  then show ?thesis using quoted by (simp add: wrapped_def)
qed

text \<open>A command with a variable, a substitution and quotes of both kinds, and the reader of the rules as the shell.\<close>

theorem command_is_one_word_witness:
  "literal_word (drop 8 (wrapped ex_cfg_terminal ''s1'' ''op1'' (''echo $HOME `id` '' @ [sq] @ ''~'' @ [sq, CHR 0x22, bs] @ ''*''))) =
     Some (''echo $HOME `id` '' @ [sq] @ ''~'' @ [sq, CHR 0x22, bs] @ ''*'', epilogue ex_cfg_terminal ''s1'' ''op1'') \<and>
   literal_word ''echo$HOME'' = None \<and> literal_word ''`id`'' = None \<and> literal_word ''~'' = None"
proof -
  have "posix_quoting literal_word" by (simp add: posix_quoting_def)
  from command_is_one_word [OF this, of ex_cfg_terminal "''s1''" "''op1''"]
  have "literal_word (drop (length ''eval -- '') (wrapped ex_cfg_terminal ''s1'' ''op1'' command)) = Some (command, epilogue ex_cfg_terminal ''s1'' ''op1'')"
    for command by blast
  moreover have "length ''eval -- '' = 8" by simp
  moreover have "literal_word ''echo$HOME'' = None" "literal_word ''`id`'' = None" "literal_word ''~'' = None" by code_simp+
  ultimately show ?thesis by metis
qed

section \<open>Pages of a transcript\<close>

text \<open>A session whose transcript is in order and whose capture the read does not change.\<close>

definition full_range :: "byte list list \<Rightarrow> output_range" where
  "full_range ss = \<lparr>or_earliest = 0, or_end = int (length (concat ss)), or_physicalSize = length (concat ss),
     or_segments = segments_from ''terminal.log'' 0 0 ss\<rparr>"

definition capture_undisturbed :: "terminal_cfg \<Rightarrow> world \<Rightarrow> session \<Rightarrow> bool \<Rightarrow> directory \<Rightarrow> nat \<Rightarrow> bool" where
  "capture_undisturbed cfg w s alive dir len \<longleftrightarrow>
     se_transcriptCaptureState s = ''DEGRADED'' \<or>
     map_of dir (''terminal.log'' @ CAPTURE_STOP_SUFFIX) = None \<and>
     (\<not> alive \<or> se_transcriptCaptureState s \<noteq> ''ACTIVE'' \<or>
      or_default (or_else_int (tc_storageMinFreeBytes cfg) None) 0 \<le> int (w_free w) \<and>
      (tc_sessionOutputMaxBytes cfg = None \<or> int len < the (tc_sessionOutputMaxBytes cfg)))"

definition steady :: "terminal_cfg \<Rightarrow> world \<Rightarrow> string \<Rightarrow> host \<Rightarrow> session \<Rightarrow> directory \<Rightarrow> byte list list \<Rightarrow> bool" where
  "steady cfg w i h s dir ss \<longleftrightarrow> getSession i (h_store h) = Some s \<and> map_of (h_transcripts h) i = Some dir \<and>
     layout ''terminal.log'' ss dir \<and> se_transcriptEarliestOffset s = 0 \<and> SAFE_ID (se_transcriptStreamId s) \<and>
     1 \<le> se_transcriptEpoch s \<and> se_transcriptEpoch s \<le> int MAX_SAFE_INTEGER \<and>
     1 \<le> segment_bytes cfg \<and> segment_bytes cfg \<le> MAX_SAFE_INTEGER \<and>
     capture_undisturbed cfg w s (isAlive i h) dir (length (concat ss))"

lemma steady_read:
  assumes st: "steady cfg w i h s dir ss" and cur: "parseCursor cursor s = Inr requested"
  shows "readOutput cfg w i cursor m h =
    (h, case read_start requested (full_range ss) of (start, gap) \<Rightarrow> read_page dir s (isAlive i h) (full_range ss) start gap m)"
proof -
  have s: "getSession i (h_store h) = Some s" "map_of (h_transcripts h) i = Some dir" "se_transcriptEarliestOffset s = 0"
    and q: "capture_undisturbed cfg w s (isAlive i h) dir (length (concat ss))"
    and lay: "layout ''terminal.log'' ss dir" "1 \<le> segment_bytes cfg" "segment_bytes cfg \<le> MAX_SAFE_INTEGER"
    using st by (simp_all add: steady_def)
  have range: "outputRange cfg w i s h = (h, Inr (s, full_range ss))"
    using inspect_layout [OF lay] by (simp add: outputRange_def inventory_for_def s full_range_def)
  have observe: "observeCaptureStop w i s h = (h, Inr s)"
    using q by (auto simp: observeCaptureStop_def s capture_undisturbed_def)
  have reserve: "enforceCaptureReserve cfg w i s (isAlive i h) h = (h, Inr s)"
    using q by (auto simp: enforceCaptureReserve_def Let_def capture_undisturbed_def)
  have ceiling: "enforceCaptureCeiling cfg w i s (isAlive i h) (full_range ss) h = (h, Inr s)"
    using q by (auto simp: enforceCaptureCeiling_def Let_def capture_undisturbed_def full_range_def or_else_int_def or_default_def
        split: option.splits)
  show ?thesis
    by (simp add: readOutput_def s observe reserve range ceiling cur or_default_def Let_def split: prod.split)
qed

lemma requested_max_bounds: "1 \<le> requested_max m" "requested_max m \<le> 256 * 1024"
  by (simp_all add: requested_max_def)

lemma take_while_none: "xs = [] \<or> \<not> P (hd xs) \<Longrightarrow> takeWhile P xs = []"
  by (cases xs) auto

text \<open>Reading at the start of something that is no continuation byte.\<close>

lemma page_at:
  assumes lay: "layout ''terminal.log'' ss dir" and off: "off < length (concat ss)"
    and lead: "\<not> is_continuation (concat ss ! off)"
  shows "read_page dir s alive (full_range ss) (int off) gap m =
    (let buffer = take (requested_max m + 3) (drop off (concat ss));
         n = utf8SafePrefixLength buffer (min (requested_max m) (length buffer))
     in Inr (make_page s alive (full_range ss) (int (off + n)) (take n buffer) gap))"
proof -
  let ?r = "full_range ss"
  let ?all = "concat ss"
  have first: "readTranscriptBytes dir (or_segments ?r) off (min 4 (length ?all - off)) = Inr (take (min 4 (length ?all - off)) (drop off ?all))"
    unfolding full_range_def output_range.select_convs using off by (intro read_layout [OF lay]) auto
  have hd0: "hd (drop off ?all) = ?all ! off" using off by (rule hd_drop_conv_nth)
  have none: "takeWhile is_continuation (take (min 4 (length ?all - off)) (drop off ?all)) = []"
    using lead off hd0 by (intro take_while_none) (simp add: hd_take)
  have n: "nat (min (int (length ?all) - int off) (int (requested_max m) + 3)) = min (length ?all - off) (requested_max m + 3)"
    using off by linarith
  have second: "readTranscriptBytes dir (or_segments ?r) off (min (length ?all - off) (requested_max m + 3)) =
      Inr (take (requested_max m + 3) (drop off ?all))"
  proof -
    have "readTranscriptBytes dir (or_segments ?r) off (min (length ?all - off) (requested_max m + 3)) =
        Inr (take (min (length ?all - off) (requested_max m + 3)) (drop off ?all))"
      unfolding full_range_def output_range.select_convs using off requested_max_bounds(2) [of m]
      by (intro read_layout [OF lay]) auto
    also have "take (min (length ?all - off) (requested_max m + 3)) (drop off ?all) = take (requested_max m + 3) (drop off ?all)"
      by (cases "length ?all - off \<le> requested_max m + 3") simp_all
    finally show ?thesis .
  qed
  have start: "nat (int off - or_earliest ?r) = off" "or_end ?r - int off \<noteq> 0" "or_physicalSize ?r = length ?all"
    "or_end ?r = int (length ?all)"
    using off by (simp_all add: full_range_def)
  show ?thesis
    unfolding read_page_def Let_def if_not_P [OF start(2)] start(1,3,4) first sum.case none
    using second n off by simp
qed

text \<open>
  A page from a character on holds whole characters, at least one, and at most three bytes more than were asked for.
\<close>

lemma page_of_text:
  assumes lay: "layout ''terminal.log'' ss dir" and chars: "concat ss = concat cs" "utf8_text cs"
    and j: "j < length cs"
  shows "\<exists>k. j < k \<and> k \<le> length cs \<and> length (concat (take (k - j) (drop j cs))) \<le> requested_max m + 3 \<and> read_page dir s alive (full_range ss) (int (bytes_of j cs)) gap m =
    Inr (make_page s alive (full_range ss) (int (bytes_of k cs)) (concat (take (k - j) (drop j cs))) gap)"
proof -
  let ?off = "bytes_of j cs"
  let ?rest = "drop j cs"
  have split: "concat cs = concat (take j cs) @ concat ?rest" by (metis append_take_drop_id concat_append)
  then have dropped: "drop ?off (concat ss) = concat ?rest" by (simp add: chars(1))
  have rest_text: "utf8_text ?rest" using chars(2) by (auto simp: utf8_text_def list_all_iff dest: in_set_dropD)
  obtain c rest where rest: "?rest = c # rest" using j by (cases ?rest) auto
  have c: "utf8_char c" using rest_text by (simp add: rest utf8_text_def)
  note len_c = utf8_char_pos [OF c]
  have off: "?off < length (concat ss)" unfolding chars(1) split using len_c rest by (cases c) simp_all
  have "concat ss ! ?off = hd (concat ?rest)" using hd_drop_conv_nth [OF off] dropped by simp
  also have "\<dots> = c ! 0" using len_c by (cases c) (simp_all add: rest)
  finally have lead: "\<not> is_continuation (concat ss ! ?off)" using char_lead [OF c] by simp
  let ?buf = "take (requested_max m + 3) (concat ?rest)"
  let ?p = "min (requested_max m) (length ?buf)"
  obtain k where k: "k \<le> length ?rest" "utf8SafePrefixLength ?buf ?p = bytes_of k ?rest" "bytes_of k ?rest \<le> length ?buf"
    "0 < ?p \<and> ?rest \<noteq> [] \<and> length (hd ?rest) \<le> length ?buf \<longrightarrow> 0 < k"
    using cut_aligned [OF rest_text refl, of "requested_max m + 3" ?p] by blast
  have "length c \<le> length ?buf" using requested_max_bounds(1) [of m] len_c by (simp add: rest)
  then have pos: "0 < k" using k(4) requested_max_bounds(1) [of m] len_c by (cases c) (simp_all add: rest)
  have "take (bytes_of k ?rest) ?buf = take (bytes_of k ?rest) (concat ?rest)"
  proof -
    have "bytes_of k ?rest \<le> requested_max m + 3" using k(3) unfolding length_take by linarith
    then show ?thesis by (simp only: take_take min_absorb1)
  qed
  also have "\<dots> = concat (take k ?rest)"
  proof -
    have "concat ?rest = concat (take k ?rest) @ concat (drop k ?rest)" by (metis append_take_drop_id concat_append)
    then show ?thesis by simp
  qed
  finally have out: "take (bytes_of k ?rest) ?buf = concat (take k ?rest)" .
  have "take (j + k) cs = take j cs @ take k ?rest" by (rule take_add)
  then have next_off: "?off + bytes_of k ?rest = bytes_of (j + k) cs" by simp
  have "read_page dir s alive (full_range ss) (int ?off) gap m =
      Inr (make_page s alive (full_range ss) (int (bytes_of (j + k) cs)) (concat (take k ?rest)) gap)"
    using page_at [OF lay off lead, of s alive gap m] by (simp only: dropped k(2) out next_off Let_def)
  moreover have "bytes_of k ?rest \<le> requested_max m + 3" using k(3) unfolding length_take by linarith
  ultimately show ?thesis using pos k(1) j by (intro exI [of _ "j + k"]) simp
qed

text \<open>
  A reader that follows the cursor of each page while \<^verbatim>\<open>hasMore\<close> holds: the pages it got, in order; \<^term>\<open>None\<close> when
  \<open>fuel\<close> pages were not enough or a read failed.
\<close>

fun follow ::
  "terminal_cfg \<Rightarrow> world \<Rightarrow> string \<Rightarrow> int option \<Rightarrow> nat \<Rightarrow> cursor_arg \<Rightarrow> host \<Rightarrow> byte list list option" where
  "follow cfg w i m 0 cursor h = None"
| "follow cfg w i m (Suc fuel) cursor h = (case readOutput cfg w i cursor m h of
     (h', Inl e) \<Rightarrow> None
   | (h', Inr p) \<Rightarrow> if pg_hasMore p
       then map_option (\<lambda>pages. pg_output p # pages) (follow cfg w i m fuel (TextCursor (pg_cursor p)) h')
       else Some [pg_output p])"

text \<open>Pages of whole characters: which characters each of them holds.\<close>

definition whole_pages :: "nat \<Rightarrow> byte list list \<Rightarrow> byte list list \<Rightarrow> bool" where
  "whole_pages limit pages cs \<longleftrightarrow> (\<exists>groups. concat groups = cs \<and> pages = map concat groups \<and>
     list_all (\<lambda>p. length p \<le> limit) pages \<and> (cs \<noteq> [] \<longrightarrow> [] \<notin> set groups))"

lemma whole_pages_one: "length (concat cs) \<le> limit \<Longrightarrow> whole_pages limit [concat cs] cs"
  unfolding whole_pages_def by (intro exI [of _ "[cs]"]) auto

lemma whole_pages_step:
  "g \<noteq> [] \<Longrightarrow> cs \<noteq> [] \<Longrightarrow> length (concat g) \<le> limit \<Longrightarrow> whole_pages limit pages cs \<Longrightarrow> whole_pages limit (concat g # pages) (g @ cs)"
  unfolding whole_pages_def by (elim exE, rename_tac gs, rule_tac x = "g # gs" in exI) auto

lemma read_start_plain: "0 \<le> n \<Longrightarrow> n \<le> int (length (concat ss)) \<Longrightarrow> read_start (n, False) (full_range ss) = (n, None)"
  by (simp add: read_start_def full_range_def Let_def)

lemma page_at_end: "or_end r = n \<Longrightarrow> read_page dir s alive r n gap m = Inr (make_page s alive r n [] gap)"
  by (simp add: read_page_def Let_def)

lemma make_page_simps [simp]:
  "pg_hasMore (make_page s alive r n out gap) = (n < or_end r)"
  "pg_output (make_page s alive r n out gap) = out"
  "pg_cursor (make_page s alive r n out gap) = encodeCursor s n"
  by (simp_all add: make_page_def)

lemma steady_cursor:
  assumes "steady cfg w i h s dir ss" "n \<le> length (concat ss)"
  shows "parseCursor (TextCursor (encodeCursor s (int n))) s = Inr (int n, False)"
proof -
  have "int n \<le> int MAX_SAFE_INTEGER" using assms by (simp add: steady_def layout_def)
  then show ?thesis using assms(1) parse_encode [of s "int n" s] by (simp add: steady_def)
qed

lemma follow_text:
  assumes st: "steady cfg w i h s dir ss" and chars: "concat ss = concat cs" "utf8_text cs"
    and j: "j \<le> length cs" and cur: "parseCursor cursor s = Inr (int (bytes_of j cs), False)" and fuel: "length cs - j < fuel"
  shows "\<exists>pages. follow cfg w i m fuel cursor h = Some pages \<and> whole_pages (requested_max m + 3) pages (drop j cs)"
  using j cur fuel
proof (induction fuel arbitrary: j cursor)
  case (Suc fuel)
  have lay: "layout ''terminal.log'' ss dir" using st by (simp add: steady_def)
  have le: "bytes_of j cs \<le> length (concat ss)" unfolding chars(1) using bytes_mono [OF Suc.prems(1), of cs] by simp
  have fin: "or_end (full_range ss) = int (bytes_of (length cs) cs)" by (simp add: full_range_def chars(1))
  have run: "readOutput cfg w i cursor m h = (h, read_page dir s (isAlive i h) (full_range ss) (int (bytes_of j cs)) None m)"
    using steady_read [OF st Suc.prems(2), of m] le by (simp add: read_start_plain)
  show ?case
  proof (cases "j = length cs")
    case True
    then show ?thesis using page_at_end [OF fin] whole_pages_one [of "[]"] by (simp add: run fin)
  next
    case False
    then have jl: "j < length cs" using Suc.prems(1) by simp
    obtain k where k: "j < k" "k \<le> length cs" "length (concat (take (k - j) (drop j cs))) \<le> requested_max m + 3"
      and page: "read_page dir s (isAlive i h) (full_range ss) (int (bytes_of j cs)) None m =
      Inr (make_page s (isAlive i h) (full_range ss) (int (bytes_of k cs)) (concat (take (k - j) (drop j cs))) None)"
      using page_of_text [OF lay chars jl] by blast
    let ?g = "take (k - j) (drop j cs)"
    have cat: "?g @ drop k cs = drop j cs"
      using k(1) by (metis append_take_drop_id drop_drop le_add_diff_inverse2 less_imp_le_nat)
    show ?thesis
    proof (cases "k = length cs")
      case True
      then show ?thesis using cat whole_pages_one [OF k(3)] by (simp add: run page fin)
    next
      case False
      then have more: "bytes_of k cs < bytes_of (length cs) cs" using k chars(2) by (intro bytes_strict) simp_all
      have kle: "bytes_of k cs \<le> length (concat ss)" unfolding chars(1) using bytes_mono [OF k(2), of cs] by simp
      obtain pages where pages: "follow cfg w i m fuel (TextCursor (encodeCursor s (int (bytes_of k cs)))) h = Some pages"
        "whole_pages (requested_max m + 3) pages (drop k cs)"
        using Suc.IH [OF k(2) steady_cursor [OF st kle]] less_le_trans [of "length cs - k" "length cs - j" fuel] Suc.prems(3) k(1,2) by (metis diff_less_mono2 less_Suc_eq_le less_le_trans)
      have "?g \<noteq> []" "drop k cs \<noteq> []" using k False jl by simp_all
      then have "whole_pages (requested_max m + 3) (concat ?g # pages) (drop j cs)"
        using whole_pages_step [OF _ _ k(3) pages(2)] unfolding cat by simp
      then show ?thesis using more pages(1) by (simp add: run page fin)
    qed
  qed
qed simp

text \<open>
  C22. A reader that follows the cursors of a session whose transcript stands still (its capture has stopped or
  writes nothing more) and is the UTF-8 encoding of some characters gets, whatever page size it asks for, the
  whole transcript in finitely many pages, as many as there are characters and one more at most: the characters
  fall into consecutive groups, each page is one group, whole, none is empty (unless the transcript is), and
  none has more than three bytes above the size asked for.
\<close>

theorem reader_gets_transcript:
  assumes "steady cfg w i h s dir ss" "concat ss = concat cs" "utf8_text cs" "length cs < fuel"
  shows "\<exists>groups. follow cfg w i m fuel NoCursor h = Some (map concat groups) \<and> concat groups = cs \<and>
    list_all (\<lambda>g. length (concat g) \<le> requested_max m + 3) groups \<and> (cs \<noteq> [] \<longrightarrow> [] \<notin> set groups)"
proof -
  have "parseCursor NoCursor s = Inr (int (bytes_of 0 cs), False)" using assms(1) by (simp add: parseCursor_def steady_def)
  from follow_text [OF assms(1-3) _ this, of fuel m] assms(4)
  show ?thesis by (auto simp: whole_pages_def list_all_iff)
qed

definition ex_text :: "byte list list" where
  "ex_text = [[0x61], [0xE2, 0x82, 0xAC], [0x62]]"

definition ex_reader :: host where
  "ex_reader = ex_host\<lparr>h_store := store_run (ex_open @ [CloseSession ''u2'' True 50 ''s1'']) empty_state_store,
     h_transcripts := [(''s1'', [(''terminal.log'', Regular 1 (concat ex_text))])]\<rparr>"

definition ex_row :: "host \<Rightarrow> session" where
  "ex_row h = hd (st_sessions (h_store h))"

lemma layout_single: "length bytes \<le> MAX_SAFE_INTEGER \<Longrightarrow> layout p [bytes] [(p, Regular 1 bytes)]"
  using not_prefix_self [of p] by (simp add: layout_def files_def numbered_names_def seg_name_def)

lemma steady_single:
  assumes "getSession i (h_store h) = Some s" "h_transcripts h = [(i, [(''terminal.log'', Regular 1 bytes)])]"
    and "length bytes \<le> 100" "se_closedAt s \<noteq> None" "h_alive h = []" "se_transcriptEarliestOffset s = 0"
    and "SAFE_ID (se_transcriptStreamId s)" "se_transcriptEpoch s = 1" "tc_transcriptSegmentBytes cfg = Some 64"
  shows "steady cfg w i h s [(''terminal.log'', Regular 1 bytes)] [bytes]"
proof -
  have len: "length bytes \<le> MAX_SAFE_INTEGER" using assms(3) by (simp add: MAX_SAFE_INTEGER_def)
  have seg: "segment_bytes cfg = 64" by (simp add: segment_bytes_def assms(9) or_else_int_def or_default_def)
  show ?thesis
    using assms layout_single [OF len]
    by (simp add: steady_def seg capture_undisturbed_def isAlive_def MAX_SAFE_INTEGER_def CAPTURE_STOP_SUFFIX_def)
qed

theorem reader_gets_transcript_witness:
  "follow ex_cfg_terminal ex_world ''s1'' (Some 2) 4 NoCursor (ex_reader\<lparr>h_alive := []\<rparr>) = Some [[0x61], [0xE2, 0x82, 0xAC], [0x62]] \<and>
   (\<exists>groups. follow ex_cfg_terminal ex_world ''s1'' (Some 2) 4 NoCursor (ex_reader\<lparr>h_alive := []\<rparr>) = Some (map concat groups) \<and> concat groups = ex_text)"
proof -
  let ?h = "ex_reader\<lparr>h_alive := []\<rparr>"
  have "getSession ''s1'' (h_store ?h) = Some (ex_row ?h)" "h_transcripts ?h = [(''s1'', [(''terminal.log'', Regular 1 (concat ex_text))])]"
    "length (concat ex_text) \<le> 100" "se_closedAt (ex_row ?h) \<noteq> None" "h_alive ?h = []" "se_transcriptEarliestOffset (ex_row ?h) = 0"
    "SAFE_ID (se_transcriptStreamId (ex_row ?h))" "se_transcriptEpoch (ex_row ?h) = 1" "tc_transcriptSegmentBytes ex_cfg_terminal = Some 64"
    by code_simp+
  then have st: "steady ex_cfg_terminal ex_world ''s1'' ?h (ex_row ?h) [(''terminal.log'', Regular 1 (concat ex_text))] [concat ex_text]"
    by (rule steady_single)
  have "utf8_text ex_text" "length ex_text < 4"
    by (simp_all add: ex_text_def utf8_text_def utf8_char_def utf8SequenceLength_def is_continuation_def)
  from reader_gets_transcript [OF st _ this, of "Some 2"] have "\<exists>groups. follow ex_cfg_terminal ex_world ''s1'' (Some 2) 4 NoCursor ?h = Some (map concat groups) \<and> concat groups = ex_text"
    unfolding concat.simps append_Nil2 using refl [of "concat ex_text"] by blast
  moreover have "follow ex_cfg_terminal ex_world ''s1'' (Some 2) 4 NoCursor ?h = Some [[0x61], [0xE2, 0x82, 0xAC], [0x62]]" by code_simp
  ultimately show ?thesis by blast
qed

section \<open>A character cut by the end of the capture\<close>

definition partial_char :: "byte list \<Rightarrow> bool" where
  "partial_char t \<longleftrightarrow> t \<noteq> [] \<and> \<not> is_continuation (hd t) \<and> length t < utf8SequenceLength (hd t) \<and> list_all is_continuation (tl t)"

lemma partial_cut: "partial_char t \<Longrightarrow> utf8SafePrefixLength t p = 0"
proof -
  assume t: "partial_char t"
  obtain b rest where b: "t = b # rest" using t by (cases t) (auto simp: partial_char_def)
  have lead: "find_lead t n = 0" if "n < length t" for n
  proof (rule find_lead_eq)
    show "\<not> is_continuation (t ! 0)" using t by (simp add: b partial_char_def)
    show "is_continuation (t ! j)" if "0 < j" "j \<le> n" for j
    proof -
      have "t ! j = rest ! (j - 1)" "j - 1 < length rest" using that \<open>n < length t\<close> by (simp_all add: b)
      then have "t ! j \<in> set rest" by simp
      with t show ?thesis by (simp add: b partial_char_def list_all_iff)
    qed
  qed simp
  have "length t < utf8SequenceLength (t ! 0)" using t by (simp add: b partial_char_def)
  then show ?thesis using lead [of "min p (length t) - 1"]
    by (cases "min p (length t) = 0") (auto simp: utf8SafePrefixLength_def Let_def b)
qed

lemma page_of_partial:
  assumes lay: "layout ''terminal.log'' ss dir" and t: "concat ss = pre @ t" "partial_char t"
  shows "read_page dir s alive (full_range ss) (int (length pre)) gap m =
    Inr (make_page s alive (full_range ss) (int (length pre)) [] gap)"
proof -
  have ne: "t \<noteq> []" and len: "length t \<le> 3" using t(2) utf8_length(2) [of "hd t"] by (auto simp: partial_char_def)
  have off: "length pre < length (concat ss)" using ne by (simp add: t(1))
  have "concat ss ! length pre = hd t" unfolding t(1) using ne by (cases t) simp_all
  then have lead: "\<not> is_continuation (concat ss ! length pre)" using t(2) by (simp add: partial_char_def)
  have "take (requested_max m + 3) (drop (length pre) (concat ss)) = t" using len by (simp add: t(1))
  then show ?thesis using page_at [OF lay off lead, of s alive gap m] partial_cut [OF t(2)] by (simp add: Let_def)
qed

text \<open>
  A transcript whose last character is incomplete has no end for a reader: at that
  character every page is empty, keeps the cursor, and says \<^verbatim>\<open>hasMore\<close>, so following the
  cursor never ends. The capture program produces such transcripts, because it stops at a
  byte count.
\<close>

theorem cut_character_never_ends:
  assumes "steady cfg w i h s dir ss" "concat ss = pre @ t" "partial_char t"
  shows "(\<exists>p. readOutput cfg w i (TextCursor (encodeCursor s (int (length pre)))) m h = (h, Inr p) \<and>
      pg_output p = [] \<and> pg_hasMore p \<and> pg_cursor p = encodeCursor s (int (length pre))) \<and>
    follow cfg w i m fuel (TextCursor (encodeCursor s (int (length pre)))) h = None"
proof -
  have lay: "layout ''terminal.log'' ss dir" using assms(1) by (simp add: steady_def)
  have le: "length pre \<le> length (concat ss)" and lt: "int (length pre) < or_end (full_range ss)"
    using assms(2,3) by (simp_all add: partial_char_def full_range_def)
  let ?p = "make_page s (isAlive i h) (full_range ss) (int (length pre)) [] None"
  have run: "readOutput cfg w i (TextCursor (encodeCursor s (int (length pre)))) m h = (h, Inr ?p)" for m
    using steady_read [OF assms(1) steady_cursor [OF assms(1) le], of m] page_of_partial [OF lay assms(2,3)] le
    by (simp add: read_start_plain)
  have "follow cfg w i m fuel (TextCursor (encodeCursor s (int (length pre)))) h = None"
    by (induction fuel) (simp_all add: run lt)
  then show ?thesis using run lt by simp
qed

theorem cut_character_never_ends_witness:
  "follow ex_cfg_terminal ex_world ''s1'' None 1000 (TextCursor ''v1:u1:1:1'')
    (ex_reader\<lparr>h_alive := [], h_transcripts := [(''s1'', [(''terminal.log'', Regular 1 [0x61, 0xE2, 0x82])])]\<rparr>) = None"
proof -
  let ?h = "ex_reader\<lparr>h_alive := [], h_transcripts := [(''s1'', [(''terminal.log'', Regular 1 [0x61, 0xE2, 0x82])])]\<rparr>"
  have "getSession ''s1'' (h_store ?h) = Some (ex_row ?h)" "h_transcripts ?h = [(''s1'', [(''terminal.log'', Regular 1 [0x61, 0xE2, 0x82])])]"
    "length [0x61, 0xE2, 0x82 :: byte] \<le> 100" "se_closedAt (ex_row ?h) \<noteq> None" "h_alive ?h = []" "se_transcriptEarliestOffset (ex_row ?h) = 0"
    "SAFE_ID (se_transcriptStreamId (ex_row ?h))" "se_transcriptEpoch (ex_row ?h) = 1" "tc_transcriptSegmentBytes ex_cfg_terminal = Some 64"
    by code_simp+
  then have st: "steady ex_cfg_terminal ex_world ''s1'' ?h (ex_row ?h) [(''terminal.log'', Regular 1 [0x61, 0xE2, 0x82])] [[0x61, 0xE2, 0x82]]"
    by (rule steady_single)
  have "partial_char [0xE2, 0x82]"
    by (simp add: partial_char_def utf8SequenceLength_def is_continuation_def)
  from cut_character_never_ends [OF st _ this, of "[0x61]" None 1000]
  have "follow ex_cfg_terminal ex_world ''s1'' None 1000 (TextCursor (encodeCursor (ex_row ?h) 1)) ?h = None" by simp
  moreover have "encodeCursor (ex_row ?h) 1 = ''v1:u1:1:1''" by code_simp
  ultimately show ?thesis by simp
qed

end
