(* ===== verification/Slots.thy ===== *)
theory Slots
  imports Prelude
begin

text \<open>
  The contract of the admission counters of the program: terminals being opened, file
  transfers, attachment downloads. A step either does not raise the number of used slots, or
  ends at or below the limit.
\<close>

locale slot_gate =
  fixes step :: "'o \<Rightarrow> 's \<Rightarrow> 's" and good :: "'s \<Rightarrow> bool" and used :: "'s \<Rightarrow> nat" and limit :: nat
  assumes good_step: "good s \<Longrightarrow> good (step x s)"
    and admission: "good s \<Longrightarrow> used (step x s) \<le> used s \<or> used (step x s) \<le> limit"
begin

fun steps :: "'o list \<Rightarrow> 's \<Rightarrow> 's" where
  "steps [] s = s"
| "steps (x # xs) s = steps xs (step x s)"

lemma good_steps: "good s \<Longrightarrow> good (steps xs s)"
  by (induction xs arbitrary: s) (simp_all add: good_step)

lemma bounded: "good s \<Longrightarrow> used s \<le> limit \<Longrightarrow> used (steps xs s) \<le> limit"
proof (induction xs arbitrary: s)
  case (Cons x xs)
  have "used (step x s) \<le> limit" using admission [OF Cons.prems(1), of x] Cons.prems(2) by auto
  then show ?case using Cons.IH [OF good_step [OF Cons.prems(1)]] by simp
qed simp

text \<open>A full gate stays below its limit only through steps that release.\<close>

lemma bounded_max: "good s \<Longrightarrow> used (steps xs s) \<le> max limit (used s)"
proof (induction xs arbitrary: s)
  case (Cons x xs)
  have "used (step x s) \<le> max limit (used s)" using admission [OF Cons.prems, of x] by auto
  then show ?case using Cons.IH [OF good_step [OF Cons.prems], of x] by (simp add: le_max_iff_disj) linarith
qed simp

end

end
