(* ===== verification/Terminal_Slots.thy ===== *)
theory Terminal_Slots
  imports Operations_Props Slots
begin

text \<open>
  The bound on active terminals, over interleavings of reservations, opens in flight, closing, purging,
  sessions that die, reads and managed commands. A reservation counts the terminals it has listed; an open
  that finishes in between is counted neither there nor among the opens in flight.
\<close>

section \<open>Counting\<close>

definition active_ids :: "host \<Rightarrow> string set" where
  "active_ids h = {x \<in> open_ids (h_store h). isAlive x h}"

lemma active_count_card:
  assumes "state_inv (h_store h)"
  shows "active_count h = card (active_ids h)"
proof -
  let ?fs = "filter (\<lambda>s. se_closedAt s = None \<and> isAlive (se_id s) h) (st_sessions (h_store h))"
  have "distinct (map se_id ?fs)" using state_invD(1) [OF assms] by (rule distinct_map_filter)
  then have "card (set (map se_id ?fs)) = length (map se_id ?fs)" by (rule distinct_card)
  moreover have "set (map se_id ?fs) = active_ids h" by (auto simp: active_ids_def open_ids_def)
  ultimately show ?thesis by (simp add: active_count_def)
qed

lemma finite_active: "finite (active_ids h)"
  by (simp add: active_ids_def open_ids_def)

text \<open>A step that opens nothing.\<close>

definition shrinks :: "host \<Rightarrow> host \<Rightarrow> bool" where
  "shrinks h h' \<longleftrightarrow> set (h_alive h') \<subseteq> set (h_alive h) \<and> open_ids (h_store h') \<subseteq> open_ids (h_store h) \<and>
     h_pendingOpens h' = h_pendingOpens h \<and> (state_inv (h_store h) \<longrightarrow> state_inv (h_store h'))"

lemma shrinks_refl [simp]: "shrinks h h"
  by (simp add: shrinks_def)

lemma shrinks_advance: "advance h h' \<Longrightarrow> shrinks h h'"
  by (simp add: advance_def shrinks_def)

lemma shrinks_active:
  assumes "shrinks h h'" "state_inv (h_store h)"
  shows "active_count h' + h_pendingOpens h' \<le> active_count h + h_pendingOpens h"
proof -
  have "active_ids h' \<subseteq> active_ids h" using assms(1) by (auto simp: shrinks_def active_ids_def isAlive_def)
  then have "card (active_ids h') \<le> card (active_ids h)" by (rule card_mono [OF finite_active])
  then show ?thesis using assms by (simp add: shrinks_def active_count_card)
qed

lemma shrinks_paste: "shrinks h (fst (command_paste cfg w i x c h))"
proof (cases "paste w i (Some x) (wrapped cfg i x c) True h")
  case (Pair h1 r)
  show ?thesis
  proof (cases r)
    case (Inl e)
    then have "h1 = h" using Pair by (auto simp: paste_def split: sum.splits if_splits)
    then show ?thesis using Pair Inl shrinks_advance [OF advance_throw] by (simp add: command_paste_def)
  next
    case (Inr u)
    then have "shrinks h h1" using Pair by (auto simp: paste_def shrinks_def split: sum.splits if_splits)
    then show ?thesis using Pair Inr by (simp add: command_paste_def)
  qed
qed

lemma shrinks_stretch: "shrinks (ag_host a) (ag_host (next_stretch cfg w t a))"
proof (cases "th_stage t")
  case Admitted
  then show ?thesis using shrinks_advance [OF advance_prepare [of "ag_host a" w "th_session t" "th_op t"]]
    by (auto simp: next_stretch_def split: prod.splits sum.splits)
next
  case Prepared
  have "shrinks (ag_host a) (fst (command_start w (th_op t) (ag_host a)))"
    unfolding command_start_def by (rule shrinks_advance [OF advance_update])
  with Prepared show ?thesis by (auto simp: next_stretch_def split: prod.splits sum.splits)
next
  case Started
  then show ?thesis using shrinks_paste [of "ag_host a" cfg w "th_session t" "th_op t" "th_command t"]
    by (auto simp: next_stretch_def split: prod.splits)
qed

lemma shrinks_exec: "shrinks (ag_host a) (ag_host (agent_exec cfg fp x a))"
proof (cases x)
  case (RunCommand w ok i command key y)
  obtain h r where run: "command_admit cfg w fp ok i command key y (ag_host a) = (h, r)"
    by (cases "command_admit cfg w fp ok i command key y (ag_host a)")
  then have "shrinks (ag_host a) h"
    using shrinks_advance [OF admit_advance(1) [of "ag_host a" cfg w fp ok i command key y]] by simp
  moreover have "ag_host (agent_exec cfg fp x a) = h"
    by (auto simp: RunCommand run split: sum.split prod.split bool.split)
  ultimately show ?thesis by simp
next
  case (NextStretch y w)
  then show ?thesis using shrinks_stretch by (auto split: option.split)
next
  case (MonitorSettle i y w)
  then show ?thesis using shrinks_advance [OF advance_settle [of "ag_host a" w i y]] by (auto split: prod.split)
next
  case (CommandDone i y f)
  have "shrinks (ag_host a) ((ag_host a)\<lparr>h_store := update_dir i (\<lambda>d. d\<lparr>sd_exits := (y, f) # sd_exits d\<rparr>) (h_store (ag_host a))\<rparr>)"
    using state_inv_update_dir [of "h_store (ag_host a)" "\<lambda>d. d\<lparr>sd_exits := (y, f) # sd_exits d\<rparr>" i]
    by (simp add: shrinks_def update_dir_def open_ids_def)
  then show ?thesis by (simp add: CommandDone)
next
  case (SessionDies i)
  then show ?thesis by (auto simp: shrinks_def)
qed (simp_all add: watch_def shrinks_advance advance_interrupt advance_close advance_input advance_calm calm_read)

lemma shrinks_purge: "shrinks h (fst (purge_terminal ok i h))"
proof -
  obtain st b where p: "purge ok i (h_store h) = (st, b)" by (cases "purge ok i (h_store h)")
  have "open_ids (fst (purge ok i (h_store h))) \<subseteq> open_ids (h_store h)"
    by (auto simp: purge_def open_ids_def Let_def split: option.split)
  then have "shrinks h (h\<lparr>h_store := st\<rparr>)"
    using state_inv_purge [of "h_store h" ok i] by (simp add: p shrinks_def)
  then show ?thesis by (auto simp: purge_terminal_def on_store_def p shrinks_def split: sum.split)
qed

lemma shrinks_ids: "shrinks h h' \<Longrightarrow> active_ids h' \<subseteq> active_ids h"
  by (auto simp: shrinks_def active_ids_def isAlive_def)

section \<open>Opening\<close>

text \<open>A step that opens at most the terminal \<open>i\<close> and keeps the reservations.\<close>

definition opens :: "string \<Rightarrow> host \<Rightarrow> host \<Rightarrow> bool" where
  "opens i h h' \<longleftrightarrow> set (h_alive h') \<subseteq> insert i (set (h_alive h)) \<and> open_ids (h_store h') \<subseteq> insert i (open_ids (h_store h)) \<and>
     h_pendingOpens h' = h_pendingOpens h \<and> (state_inv (h_store h) \<longrightarrow> state_inv (h_store h'))"

lemma opens_ids: "opens i h h' \<Longrightarrow> active_ids h' \<subseteq> insert i (active_ids h)"
  by (auto simp: opens_def active_ids_def isAlive_def)

lemma save_open: "open_ids (fst (save u k s st)) \<subseteq> insert (si_id s) (open_ids st)"
proof
  fix x
  assume "x \<in> open_ids (fst (save u k s st))"
  then obtain r where r: "r \<in> set (st_sessions (fst (save u k s st)))" "se_closedAt r = None" "x = se_id r"
    by (auto simp: open_ids_def)
  from save_rows [OF r(1)] show "x \<in> insert (si_id s) (open_ids st)" using r(2,3) by (auto simp: open_ids_def)
qed

lemma opens_save: "save u ok (new_session i u c l n) (h_store h) = (st, a) \<Longrightarrow> opens i h (h\<lparr>h_store := st\<rparr>)"
  using save_open [of u ok "new_session i u c l n" "h_store h"] state_inv_save [of "h_store h" u ok "new_session i u c l n"]
  by (auto simp: opens_def new_session_def)

lemma opens_directory: "opens i h (h\<lparr>h_store := ensure_dir i (h_store h)\<rparr>)"
  using state_inv_ensure_dir [of "h_store h" i] by (auto simp: opens_def open_ids_def ensure_dir_def)

lemma opens_remove: "opens i h (h\<lparr>h_transcripts := t, h_store := (h_store h)\<lparr>st_dirs := delete_where P (st_dirs (h_store h))\<rparr>\<rparr>)"
  by (auto simp: opens_def open_ids_def intro!: state_inv_dirs simp: state_invD(6))

definition releasing :: "open_call \<Rightarrow> bool" where
  "releasing g \<longleftrightarrow> (case og_stage g of AtRelease answer \<Rightarrow> True | _ \<Rightarrow> False)"

lemma opens_refl: "opens i h h"
  by (auto simp: opens_def)

lemma opens_stretch:
  assumes "\<not> releasing g"
  shows "opens (og_id g) h (fst (open_stretch ok g h)) \<and> og_id (snd (open_stretch ok g h)) = og_id g"
proof (cases "og_stage g")
  case AtDirectory
  then show ?thesis using opens_directory opens_refl by (simp add: open_stretch_def to_stage_def Let_def)
next
  case (AtRemove e)
  then show ?thesis using opens_remove opens_refl by (simp add: open_stretch_def to_stage_def Let_def)
next
  case AtSave
  then show ?thesis using opens_save [of "og_stream g" ok "og_id g" "og_cwd g" "og_label g" "og_now g" h]
    by (auto simp: open_stretch_def to_stage_def Let_def split: prod.split sum.split)
next
  case (AtRelease answer)
  then show ?thesis using assms by (simp add: releasing_def)
qed (simp_all add: open_stretch_def to_stage_def Let_def opens_def, auto)

lemma release_stretch: "releasing g \<Longrightarrow> fst (open_stretch ok g h) = releaseSlot h"
  by (auto simp: open_stretch_def releasing_def Let_def split: open_stage.splits)

lemma active_release [simp]: "active_ids (releaseSlot h) = active_ids h"
  by (simp add: active_ids_def releaseSlot_def isAlive_def)

section \<open>All steps\<close>

text \<open>
  The reservation that holds \<open>openAdmission\<close>: the rows it has listed with the ids whose answer it waits for and the
  ones found alive, or the closed rows left to measure with the bytes committed so far.
\<close>

datatype reserving = Probing "session list" "string list" "string list" | Measuring "session list" int

record gate =
  ga_agent :: agent
  ga_reserving :: "reserving option"
  ga_opening :: "open_call list"

definition gate_host :: "gate \<Rightarrow> host" where
  "gate_host a = ag_host (ga_agent a)"

definition set_host :: "host \<Rightarrow> gate \<Rightarrow> gate" where
  "set_host h a = a\<lparr>ga_agent := (ga_agent a)\<lparr>ag_host := h\<rparr>\<rparr>"

datatype gate_op =
  ReserveList
| ProbeAlive string
| ReserveLimit
| MeasureClosed
| ReserveAdmit "string \<Rightarrow> bridge_exc + string" string string string string time
| OpenStretch nat bool
| PurgeTerminal bool string
| AgentStep agent_op

text \<open>
  An open that asks for a slot waits while another reservation is under way, so the steps of a reservation apply to
  the one that holds the lock. An admitted open goes on at once to its first call.
\<close>

fun gate_exec :: "terminal_cfg \<Rightarrow> (string \<Rightarrow> string) \<Rightarrow> gate_op \<Rightarrow> gate \<Rightarrow> gate" where
  "gate_exec cfg fp ReserveList a = (case ga_reserving a of
     None \<Rightarrow> let ss = listSessions (h_store (gate_host a)) in a\<lparr>ga_reserving := Some (Probing ss (open_sessions ss) [])\<rparr>
   | Some r \<Rightarrow> a)"
| "gate_exec cfg fp (ProbeAlive i) a = (case ga_reserving a of
     Some (Probing ss waiting found) \<Rightarrow> if i \<notin> set waiting then a
       else a\<lparr>ga_reserving := Some (Probing ss (remove1 i waiting) (if isAlive i (gate_host a) then i # found else found))\<rparr>
   | _ \<Rightarrow> a)"
| "gate_exec cfg fp ReserveLimit a = (case ga_reserving a of
     Some (Probing ss [] found) \<Rightarrow> (case reserve_limit cfg ss (length found) (gate_host a) of
         Inl e \<Rightarrow> a\<lparr>ga_reserving := None\<rparr>
       | Inr (closed, committed) \<Rightarrow> a\<lparr>ga_reserving := Some (Measuring closed committed)\<rparr>)
   | _ \<Rightarrow> a)"
| "gate_exec cfg fp MeasureClosed a = (case ga_reserving a of
     Some (Measuring (s # ss) committed) \<Rightarrow> (case measure_closed cfg s committed (gate_host a) of
         Inl e \<Rightarrow> a\<lparr>ga_reserving := None\<rparr>
       | Inr committed' \<Rightarrow> a\<lparr>ga_reserving := Some (Measuring ss committed')\<rparr>)
   | _ \<Rightarrow> a)"
| "gate_exec cfg fp (ReserveAdmit resolve i stream cwd label now) a = (case ga_reserving a of
     Some (Measuring [] committed) \<Rightarrow> (case reserve_admit cfg committed (gate_host a) of
         (h, Inl e) \<Rightarrow> set_host h (a\<lparr>ga_reserving := None\<rparr>)
       | (h, Inr _) \<Rightarrow> set_host h (a\<lparr>ga_reserving := None, ga_opening := ga_opening a @ [open_begin resolve i stream cwd label now]\<rparr>))
   | _ \<Rightarrow> a)"
| "gate_exec cfg fp (OpenStretch n ok) a =
     (if length (ga_opening a) \<le> n then a
      else let g = ga_opening a ! n; (h, g') = open_stretch ok g (gate_host a) in
        set_host h (a\<lparr>ga_opening := (if releasing g then take n (ga_opening a) @ drop (Suc n) (ga_opening a) else (ga_opening a)[n := g'])\<rparr>))"
| "gate_exec cfg fp (PurgeTerminal ok i) a = set_host (fst (purge_terminal ok i (gate_host a))) a"
| "gate_exec cfg fp (AgentStep x) a = a\<lparr>ga_agent := agent_exec cfg fp x (ga_agent a)\<rparr>"

fun gate_run :: "terminal_cfg \<Rightarrow> (string \<Rightarrow> string) \<Rightarrow> gate_op list \<Rightarrow> gate \<Rightarrow> gate" where
  "gate_run cfg fp [] a = a"
| "gate_run cfg fp (x # xs) a = gate_run cfg fp xs (gate_exec cfg fp x a)"

lemma gate_run_snoc: "gate_run cfg fp (xs @ ys) a = gate_run cfg fp ys (gate_run cfg fp xs a)"
  by (induction xs arbitrary: a) simp_all

text \<open>An open in flight lets go of its slot while a reservation waits for the answers of tmux.\<close>

definition overtakes :: "gate_op \<Rightarrow> gate \<Rightarrow> bool" where
  "overtakes x a \<longleftrightarrow> (case (x, ga_reserving a) of
     (OpenStretch n ok, Some (Probing ss waiting found)) \<Rightarrow> n < length (ga_opening a) \<and> releasing (ga_opening a ! n)
   | _ \<Rightarrow> False)"

fun undisturbed :: "terminal_cfg \<Rightarrow> (string \<Rightarrow> string) \<Rightarrow> gate_op list \<Rightarrow> gate \<Rightarrow> bool" where
  "undisturbed cfg fp [] a = True"
| "undisturbed cfg fp (x # xs) a = (\<not> overtakes x a \<and> undisturbed cfg fp xs (gate_exec cfg fp x a))"

text \<open>The terminals that are open and alive and no open in flight; with the opens in flight, the slots in use.\<close>

definition settled_ids :: "gate \<Rightarrow> string set" where
  "settled_ids a = active_ids (gate_host a) - og_id ` set (ga_opening a)"

definition slots_used :: "gate \<Rightarrow> nat" where
  "slots_used a = card (settled_ids a) + length (ga_opening a)"

section \<open>The invariant\<close>

text \<open>
  What a reservation under way knows. While it waits for answers, each settled terminal is still waited for, has been
  found alive, or comes from an open that finished since the list; those opens held slots then. Afterwards there is a
  slot left. \<open>k\<close> bounds the opens that finish unseen.
\<close>

definition awaited :: "nat \<Rightarrow> nat \<Rightarrow> gate \<Rightarrow> reserving \<Rightarrow> bool" where
  "awaited m k a r \<longleftrightarrow> (case r of
     Probing ss waiting found \<Rightarrow> (\<exists>unseen. finite unseen \<and> card unseen + length (ga_opening a) \<le> m \<and> card unseen \<le> k \<and>
       settled_ids a \<subseteq> set waiting \<union> set found \<union> unseen)
   | Measuring ss committed \<Rightarrow> slots_used a < m + k \<and> length (ga_opening a) < m)"

definition gate_inv :: "nat \<Rightarrow> nat \<Rightarrow> gate \<Rightarrow> bool" where
  "gate_inv m k a \<longleftrightarrow> state_inv (h_store (gate_host a)) \<and> h_pendingOpens (gate_host a) = length (ga_opening a) \<and>
     length (ga_opening a) \<le> m \<and> slots_used a \<le> m + k \<and> (\<forall>r. ga_reserving a = Some r \<longrightarrow> awaited m k a r)"

lemma gate_host_simps [simp]:
  "gate_host (set_host h a) = h" "ga_opening (set_host h a) = ga_opening a" "ga_reserving (set_host h a) = ga_reserving a"
  "gate_host (a\<lparr>ga_opening := os\<rparr>) = gate_host a" "gate_host (a\<lparr>ga_reserving := r\<rparr>) = gate_host a"
  "gate_host (a\<lparr>ga_agent := b\<rparr>) = ag_host b"
  by (simp_all add: gate_host_def set_host_def)

lemma settled_ids_simps [simp]: "settled_ids (a\<lparr>ga_reserving := r\<rparr>) = settled_ids a"
  by (simp add: settled_ids_def)

lemma slots_simps [simp]: "slots_used (a\<lparr>ga_reserving := r\<rparr>) = slots_used a"
  by (simp add: slots_used_def)

lemma awaited_simps [simp]: "awaited m k (a\<lparr>ga_reserving := v\<rparr>) r = awaited m k a r"
  by (simp add: awaited_def split: reserving.split)

lemma finite_settled [simp]: "finite (settled_ids a)"
  by (simp add: settled_ids_def finite_active)

lemma gate_inv_less:
  assumes inv: "gate_inv m k a" and store: "state_inv (h_store (gate_host a'))"
    and same: "h_pendingOpens (gate_host a') = length (ga_opening a')" "length (ga_opening a') = length (ga_opening a)" "ga_reserving a' = ga_reserving a"
    and less: "settled_ids a' \<subseteq> settled_ids a"
  shows "gate_inv m k a'"
proof -
  have "card (settled_ids a') \<le> card (settled_ids a)" by (rule card_mono [OF finite_settled less])
  then have slots: "slots_used a' \<le> slots_used a" by (simp add: slots_used_def same)
  have "awaited m k a' r" if aw: "awaited m k a r" for r
  proof (cases r)
    case (Probing ss w f)
    then obtain unseen where R: "finite unseen" "card unseen + length (ga_opening a) \<le> m" "card unseen \<le> k" "settled_ids a \<subseteq> set w \<union> set f \<union> unseen"
      using aw by (auto simp: awaited_def)
    then have "finite unseen \<and> card unseen + length (ga_opening a') \<le> m \<and> card unseen \<le> k \<and> settled_ids a' \<subseteq> set w \<union> set f \<union> unseen"
      using subset_trans [OF less R(4)] by (simp add: same(2))
    then show ?thesis unfolding Probing awaited_def reserving.case by blast
  qed (use aw slots in \<open>simp add: awaited_def same(2)\<close>)
  then show ?thesis using inv store same slots by (auto simp: gate_inv_def)
qed

text \<open>A reservation step alone.\<close>

lemma gate_inv_reserving:
  "gate_inv m k a \<Longrightarrow> (\<And>r. v = Some r \<Longrightarrow> awaited m k a r) \<Longrightarrow> gate_inv m k (a\<lparr>ga_reserving := v\<rparr>)"
  by (auto simp: gate_inv_def awaited_def split: reserving.splits)

lemma gate_inv_none: "gate_inv m k a \<Longrightarrow> gate_inv m k (a\<lparr>ga_reserving := None\<rparr>)"
  by (rule gate_inv_reserving) simp_all

lemma gate_inv_some: "gate_inv m k a \<Longrightarrow> awaited m k a r \<Longrightarrow> gate_inv m k (a\<lparr>ga_reserving := Some r\<rparr>)"
  by (rule gate_inv_reserving) simp_all

lemma awaited_list:
  assumes "gate_inv m k a"
  shows "awaited m k a (Probing ss (open_sessions (listSessions (h_store (gate_host a)))) [])"
proof -
  have "settled_ids a \<subseteq> set (open_sessions (listSessions (h_store (gate_host a))))"
    by (auto simp: settled_ids_def active_ids_def open_ids_def open_sessions_def listSessions_def)
  then show ?thesis using assms by (auto simp: awaited_def gate_inv_def intro!: exI [of _ "{}"])
qed

lemma awaited_probe:
  assumes "awaited m k a (Probing ss w f)"
  shows "awaited m k a (Probing ss (remove1 i w) (if isAlive i (gate_host a) then i # f else f))"
proof -
  obtain unseen where R: "finite unseen" "card unseen + length (ga_opening a) \<le> m" "card unseen \<le> k"
    "settled_ids a \<subseteq> set w \<union> set f \<union> unseen" using assms by (auto simp: awaited_def)
  have "settled_ids a \<subseteq> set (remove1 i w) \<union> set (if isAlive i (gate_host a) then i # f else f) \<union> unseen"
  proof
    fix x
    assume x: "x \<in> settled_ids a"
    then have alive: "isAlive x (gate_host a)" by (simp add: settled_ids_def active_ids_def)
    show "x \<in> set (remove1 i w) \<union> set (if isAlive i (gate_host a) then i # f else f) \<union> unseen"
      using R(4) x alive by (cases "x = i") auto
  qed
  then show ?thesis using R by (auto simp: awaited_def)
qed

lemma awaited_limit:
  assumes inv: "gate_inv (nat (maximum_active cfg)) k a" and r: "ga_reserving a = Some (Probing ss [] f)"
    and ok: "reserve_limit cfg ss (length f) (gate_host a) = Inr (closed, committed)"
  shows "awaited (nat (maximum_active cfg)) k a (Measuring closed committed)"
proof -
  obtain unseen where R: "finite unseen" "card unseen \<le> k" "settled_ids a \<subseteq> set f \<union> unseen"
    using inv r by (auto simp: gate_inv_def awaited_def)
  have "card (settled_ids a) \<le> card (set f \<union> unseen)" by (rule card_mono) (use R in auto)
  also have "\<dots> \<le> card (set f) + card unseen" by (rule card_Un_le)
  also have "\<dots> \<le> length f + k" using R(2) card_length [of f] by linarith
  finally have settled: "card (settled_ids a) \<le> length f + k" .
  have "int (length f + length (ga_opening a)) < maximum_active cfg"
    using ok inv by (simp add: reserve_limit_def gate_inv_def split: if_splits)
  then show ?thesis using settled by (auto simp: awaited_def slots_used_def)
qed

lemma gate_inv_admit:
  assumes inv: "gate_inv m k a" and r: "ga_reserving a = Some (Measuring ss committed)"
  shows "gate_inv m k (set_host ((gate_host a)\<lparr>h_pendingOpens := h_pendingOpens (gate_host a) + 1\<rparr>)
    (a\<lparr>ga_reserving := None, ga_opening := ga_opening a @ [g]\<rparr>))" (is "gate_inv m k ?a")
proof -
  have active: "active_ids ((gate_host a)\<lparr>h_pendingOpens := n\<rparr>) = active_ids (gate_host a)" for n
    by (simp add: active_ids_def isAlive_def)
  have "settled_ids ?a \<subseteq> settled_ids a" by (auto simp: settled_ids_def active)
  then have "card (settled_ids ?a) \<le> card (settled_ids a)" by (rule card_mono [OF finite_settled])
  then show ?thesis using inv r by (auto simp: gate_inv_def awaited_def slots_used_def)
qed

lemma in_dropped: "n < length xs \<Longrightarrow> set xs \<subseteq> insert (xs ! n) (set (take n xs @ drop (Suc n) xs))"
  using id_take_nth_drop [of n xs] by (metis Un_insert_right list.set(2) set_append subset_refl)

lemma gate_inv_release:
  assumes inv: "gate_inv m k a" and n: "n < length (ga_opening a)" and k: "m \<le> k \<or> (\<forall>ss w f. ga_reserving a \<noteq> Some (Probing ss w f))"
  shows "gate_inv m k (set_host (releaseSlot (gate_host a)) (a\<lparr>ga_opening := take n (ga_opening a) @ drop (Suc n) (ga_opening a)\<rparr>))"
    (is "gate_inv m k ?a")
proof -
  let ?i = "og_id (ga_opening a ! n)"
  have len: "length (ga_opening ?a) = length (ga_opening a) - 1" "0 < length (ga_opening a)" using n by auto
  have sub: "settled_ids ?a \<subseteq> insert ?i (settled_ids a)"
    using in_dropped [OF n] by (auto simp: settled_ids_def)
  then have "card (settled_ids ?a) \<le> card (insert ?i (settled_ids a))" by (rule card_mono [rotated]) simp
  also have "\<dots> \<le> card (settled_ids a) + 1" by (simp add: card_insert_if)
  finally have slots: "slots_used ?a \<le> slots_used a" using len unfolding slots_used_def by linarith
  have "awaited m k ?a r" if r: "ga_reserving a = Some r" for r
  proof (cases r)
    case (Probing ss w f)
    then have mk: "m \<le> k" using k r by auto
    obtain unseen where R: "finite unseen" "card unseen + length (ga_opening a) \<le> m" "settled_ids a \<subseteq> set w \<union> set f \<union> unseen"
      using inv r Probing by (auto simp: gate_inv_def awaited_def)
    have "card (insert ?i unseen) \<le> card unseen + 1" using R(1) by (simp add: card_insert_if)
    then have "card (insert ?i unseen) + length (ga_opening ?a) \<le> m" "card (insert ?i unseen) \<le> k" using R(2) len mk by linarith+
    moreover have "settled_ids ?a \<subseteq> set w \<union> set f \<union> insert ?i unseen" using sub R(3) by blast
    ultimately show ?thesis using R(1) unfolding Probing awaited_def reserving.case by blast
  next
    case (Measuring ss c)
    then have "slots_used a < m + k \<and> length (ga_opening a) < m" using inv r by (simp add: gate_inv_def awaited_def)
    then have "slots_used ?a < m + k" "length (ga_opening ?a) < m" using slots len by linarith+
    then show ?thesis unfolding Measuring awaited_def reserving.case by simp
  qed
  moreover have "h_pendingOpens (releaseSlot (gate_host a)) = length (ga_opening a) - 1" "h_store (releaseSlot (gate_host a)) = h_store (gate_host a)"
    using inv by (simp_all add: gate_inv_def releaseSlot_def)
  ultimately show ?thesis using inv slots len by (auto simp: gate_inv_def)
qed

lemma gate_inv_stretch:
  assumes inv: "gate_inv m k a" and n: "n < length (ga_opening a)" "\<not> releasing (ga_opening a ! n)"
    and st: "open_stretch ok (ga_opening a ! n) (gate_host a) = (h, g)"
  shows "gate_inv m k (set_host h (a\<lparr>ga_opening := (ga_opening a)[n := g]\<rparr>))" (is "gate_inv m k ?a")
proof -
  have op: "opens (og_id g) (gate_host a) h" and i: "og_id g = og_id (ga_opening a ! n)"
    using opens_stretch [OF n(2), of "gate_host a" ok] by (simp_all add: st)
  have ids: "og_id ` set ((ga_opening a)[n := g]) = og_id ` set (ga_opening a)"
  proof -
    have "map og_id ((ga_opening a)[n := g]) = map og_id (ga_opening a)" using n(1) i by (simp add: map_update)
      (metis list_update_id nth_map)
    then show ?thesis by (metis list.set_map)
  qed
  have "og_id g \<in> og_id ` set (ga_opening a)" using n(1) i by simp
  then have "settled_ids ?a \<subseteq> settled_ids a" using opens_ids [OF op] by (auto simp: settled_ids_def ids)
  moreover have "state_inv (h_store h)" "h_pendingOpens h = length (ga_opening a)" using op inv by (auto simp: opens_def gate_inv_def)
  ultimately show ?thesis by (intro gate_inv_less [OF inv]) simp_all
qed

lemma gate_inv_shrinks:
  assumes inv: "gate_inv m k a" and sh: "shrinks (gate_host a) (gate_host a')" and same: "ga_opening a' = ga_opening a" "ga_reserving a' = ga_reserving a"
  shows "gate_inv m k a'"
proof (rule gate_inv_less [OF inv])
  show "settled_ids a' \<subseteq> settled_ids a" using shrinks_ids [OF sh] by (auto simp: settled_ids_def same)
qed (use sh inv same in \<open>auto simp: shrinks_def gate_inv_def\<close>)

lemma gate_inv_exec:
  assumes inv: "gate_inv (nat (maximum_active cfg)) k a" and k: "nat (maximum_active cfg) \<le> k \<or> \<not> overtakes x a"
  shows "gate_inv (nat (maximum_active cfg)) k (gate_exec cfg fp x a)"
proof (cases x)
  case ReserveList
  then show ?thesis using inv gate_inv_reserving [OF inv] awaited_list [OF inv] by (auto simp: Let_def split: option.split)
next
  case (ProbeAlive i)
  show ?thesis
  proof (cases "\<exists>ss w f. ga_reserving a = Some (Probing ss w f) \<and> i \<in> set w")
    case True
    then obtain ss w f where r: "ga_reserving a = Some (Probing ss w f)" "i \<in> set w" by blast
    then have "awaited (nat (maximum_active cfg)) k a (Probing ss w f)" using inv by (simp add: gate_inv_def)
    from gate_inv_reserving [OF inv, of "Some (Probing ss (remove1 i w) (if isAlive i (gate_host a) then i # f else f))"] awaited_probe [OF this, of i]
    show ?thesis using r by (simp add: ProbeAlive)
  next
    case False
    then show ?thesis using inv by (auto simp: ProbeAlive split: option.split reserving.split)
  qed
next
  case ReserveLimit
  then show ?thesis using inv gate_inv_none [OF inv] gate_inv_some [OF inv] awaited_limit [OF inv]
    by (auto split: option.split reserving.split list.split sum.split)
next
  case MeasureClosed
  have "awaited m' k a (Measuring ss' c')" if "ga_reserving a = Some (Measuring ss c)" "gate_inv m' k a" for ss c ss' c' m'
    using that by (auto simp: gate_inv_def awaited_def)
  then show ?thesis using inv gate_inv_none [OF inv] gate_inv_some [OF inv] MeasureClosed by (auto split: option.split reserving.split list.split sum.split)
next
  case (ReserveAdmit resolve i stream cwd label now)
  show ?thesis
  proof (cases "\<exists>c. ga_reserving a = Some (Measuring [] c) \<and> \<not> over_budget cfg c")
    case True
    then obtain c where "ga_reserving a = Some (Measuring [] c)" "\<not> over_budget cfg c" by blast
    then show ?thesis using gate_inv_admit [OF inv, of "[]" c] by (simp add: ReserveAdmit reserve_admit_def)
  next
    case False
    have none: "gate_inv (nat (maximum_active cfg)) k (set_host (gate_host a) (a\<lparr>ga_reserving := None\<rparr>))"
    proof -
      have "set_host (gate_host a) (a\<lparr>ga_reserving := None\<rparr>) = a\<lparr>ga_reserving := None\<rparr>"
        by (simp add: set_host_def gate_host_def)
      then show ?thesis using gate_inv_reserving [OF inv, of None] by simp
    qed
    then show ?thesis using False inv
      by (auto simp: ReserveAdmit reserve_admit_def split: option.split reserving.split list.split)
  qed
next
  case (OpenStretch n ok)
  show ?thesis
  proof (cases "length (ga_opening a) \<le> n")
    case True
    then show ?thesis using inv by (simp add: OpenStretch)
  next
    case False
    then have n: "n < length (ga_opening a)" by simp
    obtain h g where st: "open_stretch ok (ga_opening a ! n) (gate_host a) = (h, g)" by fastforce
    show ?thesis
    proof (cases "releasing (ga_opening a ! n)")
      case True
      then have "h = releaseSlot (gate_host a)" using release_stretch [OF True, of ok "gate_host a"] by (simp add: st)
      moreover have "nat (maximum_active cfg) \<le> k \<or> (\<forall>ss w f. ga_reserving a \<noteq> Some (Probing ss w f))"
        using k n True by (auto simp: OpenStretch overtakes_def)
      ultimately show ?thesis using gate_inv_release [OF inv n] True n by (simp add: OpenStretch st)
    next
      case False
      then show ?thesis using gate_inv_stretch [OF inv n False st] n by (simp add: OpenStretch st)
    qed
  qed
next
  case (PurgeTerminal ok i)
  then show ?thesis using gate_inv_shrinks [OF inv, of "set_host (fst (purge_terminal ok i (gate_host a))) a"] shrinks_purge by simp
next
  case (AgentStep y)
  then show ?thesis using gate_inv_shrinks [OF inv, of "a\<lparr>ga_agent := agent_exec cfg fp y (ga_agent a)\<rparr>"] shrinks_exec [of "ga_agent a" cfg fp y]
    by (simp add: gate_host_def)
qed

text \<open>Every run stays below twice the limit, and an undisturbed run below the limit.\<close>

interpretation terminals: slot_gate "gate_exec cfg fp" "gate_inv (nat (maximum_active cfg)) (nat (maximum_active cfg))" slots_used
  "2 * nat (maximum_active cfg)" for cfg :: terminal_cfg and fp :: "string \<Rightarrow> string"
proof unfold_locales
  fix a x
  assume inv: "gate_inv (nat (maximum_active cfg)) (nat (maximum_active cfg)) a"
  then show "gate_inv (nat (maximum_active cfg)) (nat (maximum_active cfg)) (gate_exec cfg fp x a)" by (simp add: gate_inv_exec)
  then show "slots_used (gate_exec cfg fp x a) \<le> slots_used a \<or> slots_used (gate_exec cfg fp x a) \<le> 2 * nat (maximum_active cfg)"
    by (simp add: gate_inv_def)
qed

lemma gate_steps: "terminals.steps cfg fp xs a = gate_run cfg fp xs a"
  by (induction xs arbitrary: a) simp_all

lemma gate_inv_undisturbed:
  "gate_inv (nat (maximum_active cfg)) 0 a \<Longrightarrow> undisturbed cfg fp xs a \<Longrightarrow> gate_inv (nat (maximum_active cfg)) 0 (gate_run cfg fp xs a)"
  by (induction xs arbitrary: a) (simp_all add: gate_inv_exec)

definition idle_gate :: "host \<Rightarrow> gate" where
  "idle_gate h = \<lparr>ga_agent = idle_agent h, ga_reserving = None, ga_opening = []\<rparr>"

lemma gate_inv_idle:
  assumes "h_store h = store_run ys empty_state_store" "h_pendingOpens h = 0" "int (active_count h) \<le> maximum_active cfg"
  shows "gate_inv (nat (maximum_active cfg)) k (idle_gate h)"
proof -
  have inv: "state_inv (h_store h)" by (simp add: assms(1) store_run_reachable)
  then have "card (active_ids h) \<le> nat (maximum_active cfg)" using assms(3) by (simp add: active_count_card)
  then show ?thesis using inv assms(2) by (simp add: gate_inv_def idle_gate_def idle_agent_def gate_host_def slots_used_def settled_ids_def)
qed

text \<open>A terminal that counts is settled or an open in flight.\<close>

lemma active_slots:
  assumes "state_inv (h_store (gate_host a))"
  shows "active_count (gate_host a) \<le> slots_used a"
proof -
  have "active_ids (gate_host a) \<subseteq> settled_ids a \<union> og_id ` set (ga_opening a)" by (auto simp: settled_ids_def)
  then have "card (active_ids (gate_host a)) \<le> card (settled_ids a \<union> og_id ` set (ga_opening a))" by (rule card_mono [rotated]) simp
  also have "\<dots> \<le> card (settled_ids a) + card (og_id ` set (ga_opening a))" by (rule card_Un_le)
  also have "\<dots> \<le> slots_used a" using card_image_le [of "set (ga_opening a)" og_id] card_length [of "ga_opening a"] by (simp add: slots_used_def)
  finally show ?thesis by (simp add: active_count_card [OF assms])
qed

section \<open>The property\<close>


text \<open>
  With a maximum of one: a first open is admitted and creates its session; a second reservation lists no terminal,
  because the first is not saved yet, and asks tmux for none; the first is saved and releases its slot; the
  second finds no terminal and no open in flight. Both are open and alive in the end.
\<close>

definition ex_race :: "gate_op list" where
  "ex_race = (let admit = (\<lambda>i. [ReserveLimit, ReserveAdmit Inr i ''t'' ''/srv'' ''Terminal'' 60]) in
     [ReserveList] @ admit ''s8'' @ replicate 5 (OpenStretch 0 True) @ [ReserveList] @ replicate 2 (OpenStretch 0 True) @
     admit ''s9'' @ replicate 7 (OpenStretch 0 True))"

definition ex_fresh :: host where
  "ex_fresh = \<lparr>h_store = store_run [] empty_state_store, h_alive = [], h_transcripts = [], h_pendingOpens = 0, h_typed = [], h_unpiped = []\<rparr>"

lemma session_limit_exceeded:
  "active_count (gate_host (gate_run (ex_cfg_terminal\<lparr>tc_terminalMaxActive := Some 1\<rparr>) (\<lambda>c. c) ex_race (idle_gate ex_fresh))) = 2"
  by code_simp

text \<open>The same two opens one after the other: the second is refused.\<close>

definition ex_turns :: "gate_op list" where
  "ex_turns = (let admit = (\<lambda>i. [ReserveList, ProbeAlive ''s8'', ReserveLimit, ReserveAdmit Inr i ''t'' ''/srv'' ''Terminal'' 60]) in
     admit ''s8'' @ replicate 7 (OpenStretch 0 True) @ admit ''s9'' @ replicate 7 (OpenStretch 0 True))"


end
