(* ===== verification/AgentContext.thy ===== *)
theory AgentContext
  imports Bridge "HOL-Library.Code_Target_Nat"
begin

text \<open>
  The signed authorization context between gateway and agent,
  \<^verbatim>\<open>packages/auth/src/agent-context.js\<close>. The HMAC, base64url and the JSON text codec belong to
  the platform and are arguments.
\<close>

section \<open>Values\<close>

text \<open>
  \<^verbatim>\<open>String(v)\<close> for a parsed JSON value, as \<^verbatim>\<open>RegExp.test\<close> applies it.
\<close>

fun js_string :: "json \<Rightarrow> string" where
  "js_string JNull = ''null''"
| "js_string (JBool b) = (if b then ''true'' else ''false'')"
| "js_string (JNum n) = (if n < 0 then CHR ''-'' # show_nat (nat (- n)) else show_nat (nat n))"
| "js_string (JStr s) = s"
| "js_string (JArr xs) = join_with '','' (map (\<lambda>x. if x = JNull then [] else js_string x) xs)"
| "js_string (JObj fs) = ''[object Object]''"

text \<open>\<^verbatim>\<open>PATTERN.test(value || "")\<close>\<close>

definition matches_or_empty :: "(string \<Rightarrow> bool) \<Rightarrow> json option \<Rightarrow> bool" where
  "matches_or_empty p v = p (if truthy v then js_string (the v) else [])"

fun is_string_value :: "json option \<Rightarrow> bool" where
  "is_string_value (Some (JStr s)) = True"
| "is_string_value _ = False"

fun is_integer_value :: "json option \<Rightarrow> bool" where
  "is_integer_value (Some (JNum n)) = True"
| "is_integer_value _ = False"

fun string_value :: "json option \<Rightarrow> string" where
  "string_value (Some (JStr s)) = s"
| "string_value _ = []"

fun int_value :: "json option \<Rightarrow> int" where
  "int_value (Some (JNum n)) = n"
| "int_value _ = 0"

definition contextError :: "string \<Rightarrow> nat \<Rightarrow> bridge_exc" where
  "contextError code status = BridgeError code status None"

definition invalid_context :: bridge_exc where
  "invalid_context = contextError ''invalid_agent_context'' 401"

section \<open>Checks\<close>

definition validateSecret :: "string \<Rightarrow> bridge_exc + unit" where
  "validateSecret secret = (if length secret < 32 then Inl (contextError ''agent_context_unavailable'' 503) else Inr ())"

definition payload_ok :: "json \<Rightarrow> bool" where
  "payload_ok p \<longleftrightarrow> truthy (Some p) \<and> json_field ''v'' p = Some (JNum 1) \<and>
     matches_or_empty OWNER_ID (json_field ''sub'' p) \<and> matches_or_empty GRANT_ID (json_field ''grt'' p) \<and>
     is_array (json_field ''scp'' p) \<and> elements (json_field ''scp'' p) \<noteq> [] \<and>
     \<not> list_ex (\<lambda>s. \<not> SCOPE (js_string s)) (elements (json_field ''scp'' p)) \<and>
     matches_or_empty PROFILE (json_field ''prf'' p) \<and>
     is_string_value (json_field ''mth'' p) \<and> is_string_value (json_field ''pth'' p) \<and>
     starts_with (string_value (json_field ''pth'' p)) ''/'' \<and>
     is_integer_value (json_field ''iat'' p) \<and> is_integer_value (json_field ''exp'' p) \<and>
     is_string_value (json_field ''jti'' p) \<and> length (string_value (json_field ''jti'' p)) \<ge> 16"

definition validatePayload :: "json \<Rightarrow> bridge_exc + unit" where
  "validatePayload p = (if payload_ok p then Inr () else Inl invalid_context)"

section \<open>Creation and verification\<close>

text \<open>The platform: HMAC of the prefixed text, base64url of a text, and the JSON codec.\<close>

record crypto =
  cr_hmac :: "string \<Rightarrow> string \<Rightarrow> string"
  cr_encode :: "string \<Rightarrow> string"
  cr_decode :: "string \<Rightarrow> string"
  cr_stringify :: "json \<Rightarrow> string"
  cr_parse :: "string \<Rightarrow> json option"

definition signature :: "crypto \<Rightarrow> string \<Rightarrow> string \<Rightarrow> string" where
  "signature cr secret encoded = cr_hmac cr secret (''DP-013 agent context v1'' @ [CHR 0x00] @ encoded)"

text \<open>The fields of the authorization; an absent one is \<^term>\<open>None\<close>.\<close>

record authorization =
  au_ownerId :: "string option"
  au_grantId :: "string option"
  au_scopes :: "string list"
  au_executionProfile :: "string option"

definition toUpper :: "string \<Rightarrow> string" where
  "toUpper s = map (\<lambda>c. if is_lower c then char_of (of_char c - 32 :: nat) else c) s"

definition optional_field :: "string \<Rightarrow> string option \<Rightarrow> (string \<times> json) list" where
  "optional_field k v = (case v of None \<Rightarrow> [] | Some s \<Rightarrow> [(k, JStr s)])"

text \<open>Times in milliseconds; \<open>ttlMs\<close> is a finite number of them.\<close>

definition context_payload :: "authorization option \<Rightarrow> string option \<Rightarrow> string \<Rightarrow> int \<Rightarrow> int \<Rightarrow> string \<Rightarrow> json" where
  "context_payload authorization method path now ttlMs jti = JObj
     ([(''v'', JNum 1)]
      @ optional_field ''sub'' (Option.bind authorization au_ownerId)
      @ optional_field ''grt'' (Option.bind authorization au_grantId)
      @ [(''scp'', JArr (map JStr (sort (case authorization of None \<Rightarrow> [] | Some a \<Rightarrow> au_scopes a))))]
      @ optional_field ''prf'' (Option.bind authorization au_executionProfile)
      @ [(''mth'', JStr (toUpper (case method of None \<Rightarrow> ''GET'' | Some s \<Rightarrow> if s = [] then ''GET'' else s))),
         (''pth'', JStr path), (''iat'', JNum (now div 1000)), (''exp'', JNum (- ((- (now + ttlMs)) div 1000))),
         (''jti'', JStr jti)])"

definition createAgentContext ::
  "crypto \<Rightarrow> string \<Rightarrow> authorization option \<Rightarrow> string option \<Rightarrow> string \<Rightarrow> int \<Rightarrow> int \<Rightarrow> string \<Rightarrow> bridge_exc + string" where
  "createAgentContext cr secret authorization method path now ttlMs jti =
     (case validateSecret secret of Inl e \<Rightarrow> Inl e | Inr _ \<Rightarrow>
        if ttlMs < 1 \<or> ttlMs > 30000 then Inl (contextError ''invalid_agent_context'' 500)
        else (let payload = context_payload authorization method path now ttlMs jti
              in case validatePayload payload of Inl e \<Rightarrow> Inl e
                 | Inr _ \<Rightarrow> (let encoded = cr_encode cr (cr_stringify cr payload)
                             in Inr (encoded @ ''.'' @ signature cr secret encoded))))"

record context_identity =
  ci_ownerId :: json
  ci_grantId :: json
  ci_scopes :: "json list"
  ci_executionProfile :: json
  ci_contextId :: string

definition field_or_null :: "string \<Rightarrow> json \<Rightarrow> json" where
  "field_or_null k p = (case json_field k p of None \<Rightarrow> JNull | Some v \<Rightarrow> v)"

text \<open>\<^verbatim>\<open>Math.floor(now / 1000)\<close> and \<^verbatim>\<open>Math.ceil(clockSkewMs / 1000)\<close>, with the default skew of 5 s.\<close>

definition verifyAgentContext ::
  "crypto \<Rightarrow> string \<Rightarrow> string option \<Rightarrow> string option \<Rightarrow> string \<Rightarrow> int \<Rightarrow> bridge_exc + context_identity" where
  "verifyAgentContext cr secret supplied method path now =
     (case validateSecret secret of Inl e \<Rightarrow> Inl e | Inr _ \<Rightarrow>
      (case supplied of None \<Rightarrow> Inl invalid_context | Some text \<Rightarrow>
        if length text > 4096 then Inl invalid_context else
        (case split_on CHR ''.'' text of
           [encoded, sig] \<Rightarrow>
             if signature cr secret encoded \<noteq> sig then Inl invalid_context else
             (case cr_parse cr (cr_decode cr encoded) of
                None \<Rightarrow> Inl invalid_context
              | Some p \<Rightarrow>
                  (case validatePayload p of Inl e \<Rightarrow> Inl e | Inr _ \<Rightarrow>
                     let iat = int_value (json_field ''iat'' p); exp = int_value (json_field ''exp'' p); nowSeconds = now div 1000
                     in if iat > nowSeconds + 5 \<or> exp \<le> nowSeconds \<or> exp - iat > 35
                        then Inl (contextError ''expired_agent_context'' 401)
                        else if string_value (json_field ''mth'' p) \<noteq> toUpper (case method of None \<Rightarrow> ''GET'' | Some s \<Rightarrow> if s = [] then ''GET'' else s)
                          \<or> string_value (json_field ''pth'' p) \<noteq> path
                        then Inl (contextError ''agent_context_mismatch'' 401)
                        else Inr \<lparr>ci_ownerId = field_or_null ''sub'' p, ci_grantId = field_or_null ''grt'' p,
                          ci_scopes = elements (json_field ''scp'' p), ci_executionProfile = field_or_null ''prf'' p,
                          ci_contextId = string_value (json_field ''jti'' p)\<rparr>))
         | _ \<Rightarrow> Inl invalid_context)))"

section \<open>Properties\<close>

text \<open>
  What is assumed of the platform about one payload: the codecs give it back, and neither the
  encoded text nor the signature contains a dot.
\<close>

definition codec_sound_for :: "crypto \<Rightarrow> string \<Rightarrow> json \<Rightarrow> bool" where
  "codec_sound_for cr secret p \<longleftrightarrow>
     (let encoded = cr_encode cr (cr_stringify cr p)
      in cr_parse cr (cr_decode cr encoded) = Some p \<and> CHR ''.'' \<notin> set encoded \<and>
         CHR ''.'' \<notin> set (signature cr secret encoded))"

lemma optional_field_lookup: "map_of (optional_field k v @ rest) k' = (if k' = k \<and> v \<noteq> None then Some (JStr (the v)) else map_of rest k')"
  by (cases v) (auto simp: optional_field_def)

lemma map_option_JStr: "map_option JStr v = (if v = None then None else Some (JStr (the v)))"
  by (cases v) simp_all

lemma context_fields:
  assumes "p = context_payload a method path now ttlMs jti"
  shows "json_field ''iat'' p = Some (JNum (now div 1000))" "json_field ''exp'' p = Some (JNum (- ((- (now + ttlMs)) div 1000)))"
    "json_field ''mth'' p = Some (JStr (toUpper (case method of None \<Rightarrow> ''GET'' | Some s \<Rightarrow> if s = [] then ''GET'' else s)))"
    "json_field ''pth'' p = Some (JStr path)"
    "json_field ''sub'' p = map_option JStr (Option.bind a au_ownerId)"
    "elements (json_field ''scp'' p) = map JStr (sort (case a of None \<Rightarrow> [] | Some a \<Rightarrow> au_scopes a))"
  unfolding assms
  by (simp_all add: context_payload_def json_field_def optional_field_lookup map_option_JStr elements_def del: map_of_append split: option.split)

text \<open>The request attributes a context is bound to.\<close>

definition method_text :: "string option \<Rightarrow> string" where
  "method_text method = toUpper (case method of None \<Rightarrow> ''GET'' | Some s \<Rightarrow> if s = [] then ''GET'' else s)"

lemma verify_created:
  assumes "codec_sound_for cr secret (context_payload (Some a) meth path now ttlMs jti)"
    and "createAgentContext cr secret (Some a) meth path now ttlMs jti = Inr text" and "length text \<le> 4096"
  shows "au_ownerId a \<noteq> None" (is ?owner)
    "verifyAgentContext cr secret (Some text) meth' path' now' =
      (if now div 1000 > now' div 1000 + 5 \<or> - ((- (now + ttlMs)) div 1000) \<le> now' div 1000
       then Inl (contextError ''expired_agent_context'' 401)
       else if method_text meth \<noteq> method_text meth' \<or> path \<noteq> path' then Inl (contextError ''agent_context_mismatch'' 401)
       else Inr \<lparr>ci_ownerId = JStr (the (au_ownerId a)),
          ci_grantId = field_or_null ''grt'' (context_payload (Some a) meth path now ttlMs jti),
          ci_scopes = map JStr (sort (au_scopes a)),
          ci_executionProfile = field_or_null ''prf'' (context_payload (Some a) meth path now ttlMs jti),
          ci_contextId = string_value (json_field ''jti'' (context_payload (Some a) meth path now ttlMs jti))\<rparr>)" (is ?verify)
proof -
  let ?p = "context_payload (Some a) meth path now ttlMs jti"
  let ?enc = "cr_encode cr (cr_stringify cr ?p)"
  have secret: "validateSecret secret = Inr ()" and ttl: "1 \<le> ttlMs" "ttlMs \<le> 30000" and ok: "payload_ok ?p"
    and shape: "text = ?enc @ CHR ''.'' # signature cr secret ?enc"
    using assms(2) by (auto simp: createAgentContext_def validatePayload_def Let_def split: sum.splits if_splits)
  have parts: "split_on CHR ''.'' text = [?enc, signature cr secret ?enc]"
    using assms(1) by (simp add: shape split_on_append split_on_no_sep codec_sound_for_def Let_def)
  have parse: "cr_parse cr (cr_decode cr ?enc) = Some ?p" using assms(1) by (simp add: codec_sound_for_def Let_def)
  have valid: "validatePayload ?p = Inr ()" by (simp add: validatePayload_def ok)
  have short: "\<not> 4096 < length text" using assms(3) by simp
  note fields = context_fields [OF refl, of "Some a" meth path now ttlMs jti]
  have life: "\<not> - ((- (now + ttlMs)) div 1000) - now div 1000 > 35" using ttl by linarith
  show owner: ?owner
  proof
    assume "au_ownerId a = None"
    then have "matches_or_empty OWNER_ID (json_field ''sub'' ?p) = OWNER_ID []" by (simp add: matches_or_empty_def fields(5))
    moreover have "\<not> OWNER_ID []" by (simp add: OWNER_ID_def in_class_def)
    ultimately show False using ok by (simp add: payload_ok_def)
  qed
  have sub: "field_or_null ''sub'' ?p = JStr (the (au_ownerId a))" using owner by (auto simp: field_or_null_def fields(5))
  have scp: "elements (json_field ''scp'' ?p) = map JStr (sort (au_scopes a))" using fields(6) by simp
  show ?verify
    unfolding verifyAgentContext_def secret sum.case option.case parts list.case parse valid Let_def sub scp
      fields(1-4) int_value.simps string_value.simps if_not_P [OF short] method_text_def
    using life by simp
qed


definition ex_authorization :: authorization where
  "ex_authorization = \<lparr>au_ownerId = Some ''owner-1'', au_grantId = Some ''grant-0001'',
     au_scopes = [''terminal:read'', ''files:read''], au_executionProfile = Some ''hosting-user''\<rparr>"

definition ex_payload :: json where
  "ex_payload = context_payload (Some ex_authorization) (Some ''get'') ''/v1/sessions'' 1000500 15000 ''0123456789abcdef''"

definition ex_crypto :: crypto where
  "ex_crypto = \<lparr>cr_hmac = (\<lambda>k s. ''mac''), cr_encode = (\<lambda>s. ''payload''), cr_decode = (\<lambda>s. s),
     cr_stringify = (\<lambda>j. ''json''), cr_parse = (\<lambda>s. Some ex_payload)\<rparr>"


end
