(* ===== verification/AgentServer.thy ===== *)
theory AgentServer
  imports Operations AgentContext
begin

text \<open>
  The HTTP front of the agent, \<^verbatim>\<open>apps/agent/src/server.js\<close>, and the ownership of terminals,
  \<^verbatim>\<open>apps/agent/src/session-owner-store.js\<close>: authentication, routes, scope and owner checks, and
  the calls into the terminal manager. The file manager is an argument.
\<close>

section \<open>Session owners\<close>

definition valid_id :: "string \<Rightarrow> bool" where
  "valid_id = in_class id_char 1 128"

type_synonym owners = "(string \<times> string) list"

definition owner_get :: "string \<Rightarrow> owners \<Rightarrow> bridge_exc + string option" where
  "owner_get i os = (if valid_id i then Inr (map_of os i) else Inl (Failure ''Error''))"

text \<open>\<open>db_ok\<close> tells whether the insert succeeds.\<close>

definition owner_set :: "bool \<Rightarrow> string \<Rightarrow> string \<Rightarrow> owners \<Rightarrow> owners \<times> (bridge_exc + string)" where
  "owner_set db_ok i ownerId os =
     (if \<not> valid_id i \<or> \<not> valid_id ownerId then (os, Inl (Failure ''Error''))
      else (case map_of os i of
          Some current \<Rightarrow> if current \<noteq> ownerId then (os, Inl (Failure ''Error'')) else (os, Inr ownerId)
        | None \<Rightarrow> if db_ok then ((i, ownerId) # os, Inr ownerId) else (os, Inl (Failure ''ERR_SQLITE_ERROR''))))"

definition owner_delete :: "string \<Rightarrow> owners \<Rightarrow> owners \<times> (bridge_exc + unit)" where
  "owner_delete i os = (if valid_id i then (filter (\<lambda>(k, v). k \<noteq> i) os, Inr ()) else (os, Inl (Failure ''Error'')))"

section \<open>Requests and authentication\<close>

text \<open>\<open>ht_body\<close> is what \<open>readJson\<close> makes of the body.\<close>

record http_request =
  ht_method :: string
  ht_pathname :: string
  ht_search :: string
  ht_authorization :: "string option"
  ht_context :: "string option"
  ht_query :: "(string \<times> string) list"
  ht_body :: "bridge_exc + json"

record server_cfg =
  sc_agentId :: string
  sc_token :: string
  sc_oauthToken :: "string option"
  sc_contextSecret :: string

datatype auth = StaticAuth | OAuthAuth context_identity

definition white :: "char \<Rightarrow> bool" where
  "white c \<longleftrightarrow> c \<in> {CHR '' '', CHR 0x09, CHR 0x0A, CHR 0x0B, CHR 0x0C, CHR 0x0D, CHR 0xA0}"

definition bearer_of :: "string option \<Rightarrow> string option" where
  "bearer_of header = (let h = or_default header [] in
     if starts_with h ''Bearer '' \<and> drop 7 h \<noteq> [] \<and> \<not> list_ex white (drop 7 h) then Some (drop 7 h) else None)"

definition equalToken :: "string \<Rightarrow> string \<Rightarrow> bool" where
  "equalToken actual expected \<longleftrightarrow> actual = expected"

definition unauthorized :: bridge_exc where
  "unauthorized = bridgeError ''unauthorized'' 401"

definition authenticateAgentRequest :: "crypto \<Rightarrow> server_cfg \<Rightarrow> time \<Rightarrow> http_request \<Rightarrow> bridge_exc + auth" where
  "authenticateAgentRequest cr cfg now q = (case bearer_of (ht_authorization q) of
       None \<Rightarrow> Inl unauthorized
     | Some token \<Rightarrow>
         if equalToken token (sc_token cfg) then Inr StaticAuth
         else if or_default (sc_oauthToken cfg) [] \<noteq> [] \<and> equalToken token (or_default (sc_oauthToken cfg) [])
         then (case verifyAgentContext cr (sc_contextSecret cfg) (ht_context q) (Some (ht_method q)) (ht_pathname q @ ht_search q) now of
                 Inl e \<Rightarrow> Inl (BridgeError (error_code e) (error_status e) None) | Inr i \<Rightarrow> Inr (OAuthAuth i))
         else Inl unauthorized)"

definition requireScope :: "auth \<Rightarrow> string \<Rightarrow> bridge_exc + unit" where
  "requireScope a scope = (case a of
       StaticAuth \<Rightarrow> Inr ()
     | OAuthAuth i \<Rightarrow> if JStr scope \<in> set (ci_scopes i) then Inr () else Inl (bridgeError ''forbidden_scope'' 403))"

definition owns :: "auth \<Rightarrow> owners \<Rightarrow> string \<Rightarrow> bool" where
  "owns a os i = (case a of StaticAuth \<Rightarrow> True
     | OAuthAuth c \<Rightarrow> (case owner_get i os of Inr (Some o') \<Rightarrow> JStr o' = ci_ownerId c | _ \<Rightarrow> False))"

definition requireSessionOwner :: "auth \<Rightarrow> owners \<Rightarrow> string \<Rightarrow> bridge_exc + unit" where
  "requireSessionOwner a os i = (case a of
       StaticAuth \<Rightarrow> Inr ()
     | OAuthAuth c \<Rightarrow> (case owner_get i os of
           Inl e \<Rightarrow> Inl e
         | Inr v \<Rightarrow> if map_option JStr v \<noteq> Some (ci_ownerId c) then Inl (bridgeError ''session_owner_mismatch'' 403) else Inr ()))"

section \<open>Routes\<close>

datatype session_action = Commands | Output | SendInput | InterruptAction | PurgeAction | SessionAction

datatype route =
  Capabilities | ListSessions | OpenSession
| OperationRoute string string
| SessionRoute string session_action
| ListFiles | UploadFile | FileMetadata | DownloadFile | CopyPath | MovePath | RemovePath
| OtherRoute

definition route_id :: "string \<Rightarrow> bool" where
  "route_id s \<longleftrightarrow> s \<noteq> [] \<and> list_all id_char s"

definition action_of :: "string \<Rightarrow> session_action option" where
  "action_of s = map_of [(''commands'', Commands), (''output'', Output), (''input'', SendInput),
     (''interrupt'', InterruptAction), (''purge'', PurgeAction)] s"

definition routeSession :: "string \<Rightarrow> (string \<times> session_action) option" where
  "routeSession pth = (case split_on CHR ''/'' pth of
       [e, v, s, i] \<Rightarrow> if e = [] \<and> v = ''v1'' \<and> s = ''sessions'' \<and> route_id i then Some (i, SessionAction) else None
     | [e, v, s, i, a] \<Rightarrow> if e = [] \<and> v = ''v1'' \<and> s = ''sessions'' \<and> route_id i then map_option (Pair i) (action_of a) else None
     | _ \<Rightarrow> None)"

definition routeOperation :: "string \<Rightarrow> (string \<times> string) option" where
  "routeOperation pth = (case split_on CHR ''/'' pth of
       [e, v, s, i, ops, x] \<Rightarrow> if e = [] \<and> v = ''v1'' \<and> s = ''sessions'' \<and> ops = ''operations'' \<and> route_id i \<and> route_id x
         then Some (i, x) else None
     | _ \<Rightarrow> None)"

text \<open>The order of the tests is the order of the handler.\<close>

definition route_of :: "string \<Rightarrow> string \<Rightarrow> route" where
  "route_of meth pth =
     (if meth = ''GET'' \<and> pth = ''/v1/capabilities'' then Capabilities
      else if meth = ''GET'' \<and> pth = ''/v1/sessions'' then ListSessions
      else if meth = ''POST'' \<and> pth = ''/v1/sessions'' then OpenSession
      else (case (if meth = ''GET'' then routeOperation pth else None) of
         Some (i, x) \<Rightarrow> OperationRoute i x
       | None \<Rightarrow> (case routeSession pth of
           Some (i, a) \<Rightarrow> SessionRoute i a
         | None \<Rightarrow>
             if meth = ''GET'' \<and> pth = ''/v1/files'' then ListFiles
             else if meth = ''PUT'' \<and> pth = ''/v1/files/content'' then UploadFile
             else if meth = ''GET'' \<and> pth = ''/v1/files/metadata'' then FileMetadata
             else if meth = ''GET'' \<and> pth = ''/v1/files/content'' then DownloadFile
             else if meth = ''POST'' \<and> pth = ''/v1/files/copy'' then CopyPath
             else if meth = ''POST'' \<and> pth = ''/v1/files/move'' then MovePath
             else if meth = ''DELETE'' \<and> pth = ''/v1/files'' then RemovePath
             else OtherRoute)))"

section \<open>Handling\<close>

datatype file_call =
  FList "string option" | FUpload "string option" bool | FMetadata "string option" | FDownload "string option"
| FCopy json | FMove json | FRemove "string option" bool

datatype answer =
  HealthAnswer bool
| CapabilityAnswer json
| SessionsAnswer "(session \<times> bool) list"
| OpenedAnswer session
| OperationAnswer public_operation
| CommandAnswer operation bool
| OutputAnswer page
| AcceptedAnswer
| InterruptedAnswer "public_operation option"
| ClosedAnswer session
| PurgedAnswer
| FileAnswer json

record 'f server =
  sv_agent :: agent
  sv_owners :: owners
  sv_files :: 'f

text \<open>What the world answers to the handler: the terminal manager's world and the new ids.\<close>

record server_world =
  sw_world :: world
  sw_open :: open_world
  sw_id :: string
  sw_resolve :: "string \<Rightarrow> bridge_exc + string"
  sw_fingerprint :: "string \<Rightarrow> string"
  sw_commit_ok :: bool
  sw_owner_ok :: bool
  sw_rm_ok :: bool

definition text_field :: "string \<Rightarrow> json \<Rightarrow> string \<Rightarrow> string" where
  "text_field k body d = (case json_field k body of None \<Rightarrow> d | Some v \<Rightarrow> js_string v)"

definition on_host :: "(host \<Rightarrow> host \<times> 'a) \<Rightarrow> 'f server \<Rightarrow> 'f server \<times> 'a" where
  "on_host f sv = (case f (ag_host (sv_agent sv)) of (h, a) \<Rightarrow> (sv\<lparr>sv_agent := (sv_agent sv)\<lparr>ag_host := h\<rparr>\<rparr>, a))"

definition answer_with :: "('a \<Rightarrow> answer) \<Rightarrow> 's \<times> (bridge_exc + 'a) \<Rightarrow> 's \<times> (bridge_exc + answer)" where
  "answer_with f r = (case r of (s, Inl e) \<Rightarrow> (s, Inl e) | (s, Inr v) \<Rightarrow> (s, Inr (f v)))"

definition handle_list :: "auth \<Rightarrow> 'f server \<Rightarrow> bridge_exc + answer" where
  "handle_list a sv = (case requireScope a ''terminal:read'' of Inl e \<Rightarrow> Inl e | Inr _ \<Rightarrow>
     let listed = list_terminals (ag_host (sv_agent sv))
     in if a \<noteq> StaticAuth \<and> list_ex (\<lambda>(s, alive). \<not> valid_id (se_id s)) listed then Inl (Failure ''Error'')
        else Inr (SessionsAnswer (filter (\<lambda>(s, alive). owns a (sv_owners sv) (se_id s)) listed)))"

text \<open>\<open>sessions.open\<close>: the reservation and the rest, as one call here.\<close>

definition open_terminal ::
  "terminal_cfg \<Rightarrow> server_world \<Rightarrow> json \<Rightarrow> host \<Rightarrow> host \<times> (bridge_exc + session)" where
  "open_terminal cfg w body h = (case reserveOpenSlot cfg h of
       (h1, Inl e) \<Rightarrow> (h1, Inl e)
     | (h1, Inr _) \<Rightarrow> open_finish (sw_resolve w) (sw_open w) (sw_id w) (w_uuid (sw_world w))
         (text_field ''cwd'' body ''.'') (text_field ''label'' body ''Terminal'') (w_now (sw_world w)) h1)"

text \<open>A field of \<^verbatim>\<open>null\<close> raises; other values have no fields.\<close>

definition json_body :: "http_request \<Rightarrow> bridge_exc + json" where
  "json_body q = (case ht_body q of Inl e \<Rightarrow> Inl e | Inr v \<Rightarrow> if v = JNull then Inl (Failure ''TypeError'') else Inr v)"

text \<open>When the owner cannot be stored the terminal is closed and purged again.\<close>

definition handle_open ::
  "terminal_cfg \<Rightarrow> server_world \<Rightarrow> auth \<Rightarrow> http_request \<Rightarrow> 'f server \<Rightarrow> 'f server \<times> (bridge_exc + answer)" where
  "handle_open cfg w a q sv = (case requireScope a ''terminal:execute'' of Inl e \<Rightarrow> (sv, Inl e) | Inr _ \<Rightarrow>
     (case json_body q of Inl e \<Rightarrow> (sv, Inl e) | Inr body \<Rightarrow>
       (case on_host (open_terminal cfg w body) sv of
          (sv1, Inl e) \<Rightarrow> (sv1, Inl e)
        | (sv1, Inr opened) \<Rightarrow>
            (case a of
               StaticAuth \<Rightarrow> (sv1, Inr (OpenedAnswer opened))
             | OAuthAuth c \<Rightarrow>
                 (case owner_set (sw_owner_ok w) (se_id opened) (js_string (ci_ownerId c)) (sv_owners sv1) of
                    (os, Inr _) \<Rightarrow> (sv1\<lparr>sv_owners := os\<rparr>, Inr (OpenedAnswer opened))
                  | (os, Inl _) \<Rightarrow>
                      let sv2 = fst (on_host (close_terminal (sw_world w) (se_id opened)) sv1);
                          sv3 = fst (on_host (purge_terminal (sw_rm_ok w) (se_id opened)) sv2)
                      in (sv3, Inl (bridgeError ''session_owner_storage_failure'' 503)))))))"

definition query :: "string \<Rightarrow> http_request \<Rightarrow> string option" where
  "query k q = map_of (ht_query q) k"

definition cursor_of_query :: "string option \<Rightarrow> cursor_arg" where
  "cursor_of_query v = (case v of None \<Rightarrow> NoCursor | Some t \<Rightarrow> TextCursor t)"

text \<open>\<^verbatim>\<open>Number(text)\<close> for the decimal texts the gateway sends; any other text counts as \<^verbatim>\<open>NaN\<close>.\<close>

definition number_of_query :: "string option \<Rightarrow> int option" where
  "number_of_query v = (case v of None \<Rightarrow> None | Some t \<Rightarrow> if all_digits t then Some (int (read_nat t)) else None)"

definition handle_session ::
  "terminal_cfg \<Rightarrow> server_world \<Rightarrow> auth \<Rightarrow> http_request \<Rightarrow> string \<Rightarrow> session_action \<Rightarrow> 'f server \<Rightarrow>
    'f server \<times> (bridge_exc + answer)" where
  "handle_session cfg w a q i action sv =
     (case requireSessionOwner a (sv_owners sv) i of Inl e \<Rightarrow> (sv, Inl e) | Inr _ \<Rightarrow>
      if ht_method q = ''POST'' \<and> action = Commands then
        (case requireScope a ''terminal:execute'' of Inl e \<Rightarrow> (sv, Inl e) | Inr _ \<Rightarrow>
         (case json_body q of Inl e \<Rightarrow> (sv, Inl e) | Inr body \<Rightarrow>
           (case command_admit cfg (sw_world w) (sw_fingerprint w) (sw_commit_ok w) i (json_field ''command'' body)
                   (map_option js_string (json_field ''idempotencyKey'' body)) (sw_id w) (ag_host (sv_agent sv)) of
              (h, Inl e) \<Rightarrow> (sv\<lparr>sv_agent := (sv_agent sv)\<lparr>ag_host := h\<rparr>\<rparr>, Inl e)
            | (h, Inr (r, dup)) \<Rightarrow> (sv\<lparr>sv_agent := (if dup then (sv_agent sv)\<lparr>ag_host := h\<rparr> else
                (sv_agent sv)\<lparr>ag_host := h, ag_threads := ag_threads (sv_agent sv) @
                  [\<lparr>th_op = sw_id w, th_session = i, th_command = command_text (json_field ''command'' body), th_stage = Admitted\<rparr>]\<rparr>)\<rparr>,
                Inr (CommandAnswer r dup)))))
      else if ht_method q = ''GET'' \<and> action = Output then
        (case requireScope a ''terminal:read'' of Inl e \<Rightarrow> (sv, Inl e) | Inr _ \<Rightarrow>
         answer_with OutputAnswer (on_host (readOutput cfg (sw_world w) i (cursor_of_query (query ''cursor'' q))
           (number_of_query (query ''maxBytes'' q))) sv))
      else if ht_method q = ''POST'' \<and> action = SendInput then
        (case requireScope a ''terminal:input'' of Inl e \<Rightarrow> (sv, Inl e) | Inr _ \<Rightarrow>
         (case json_body q of Inl e \<Rightarrow> (sv, Inl e) | Inr body \<Rightarrow>
           answer_with (\<lambda>_. AcceptedAnswer) (on_host (sendInput (sw_world w) i (json_field ''input'' body)
             (json_field ''enter'' body = None \<or> truthy (json_field ''enter'' body))) sv)))
      else if ht_method q = ''POST'' \<and> action = InterruptAction then
        (case requireScope a ''terminal:input'' of Inl e \<Rightarrow> (sv, Inl e) | Inr _ \<Rightarrow>
         answer_with InterruptedAnswer (on_host (interrupt (sw_world w) i) sv))
      else if ht_method q = ''DELETE'' \<and> action = SessionAction then
        (case requireScope a ''terminal:close'' of Inl e \<Rightarrow> (sv, Inl e) | Inr _ \<Rightarrow>
         answer_with ClosedAnswer (on_host (close_terminal (sw_world w) i) sv))
      else if ht_method q = ''DELETE'' \<and> action = PurgeAction then
        (case requireScope a ''terminal:close'' of Inl e \<Rightarrow> (sv, Inl e) | Inr _ \<Rightarrow>
         (case on_host (purge_terminal (sw_rm_ok w) i) sv of
            (sv1, Inl e) \<Rightarrow> (sv1, Inl e)
          | (sv1, Inr _) \<Rightarrow> (case owner_delete i (sv_owners sv1) of
              (os, Inl e) \<Rightarrow> (sv1\<lparr>sv_owners := os\<rparr>, Inl e)
            | (os, Inr _) \<Rightarrow> (sv1\<lparr>sv_owners := os\<rparr>, Inr PurgedAnswer))))
      else (sv, Inl (bridgeError ''not_found'' 404)))"

definition file_step :: "(file_call \<Rightarrow> 'f \<Rightarrow> 'f \<times> (bridge_exc + json)) \<Rightarrow> file_call \<Rightarrow> 'f server \<Rightarrow> 'f server \<times> (bridge_exc + answer)" where
  "file_step files x sv = (case files x (sv_files sv) of (f, r) \<Rightarrow> answer_with FileAnswer (sv\<lparr>sv_files := f\<rparr>, r))"

definition with_body :: "http_request \<Rightarrow> 's \<Rightarrow> (json \<Rightarrow> 's \<times> (bridge_exc + 'a)) \<Rightarrow> 's \<times> (bridge_exc + 'a)" where
  "with_body q s k = (case json_body q of Inl e \<Rightarrow> (s, Inl e) | Inr body \<Rightarrow> k body)"

definition handle_files ::
  "(file_call \<Rightarrow> 'f \<Rightarrow> 'f \<times> (bridge_exc + json)) \<Rightarrow> auth \<Rightarrow> http_request \<Rightarrow> route \<Rightarrow> 'f server \<Rightarrow> 'f server \<times> (bridge_exc + answer)" where
  "handle_files files a q r sv =
     (let guarded = (\<lambda>scope k. case requireScope a scope of Inl e \<Rightarrow> (sv, Inl e) | Inr _ \<Rightarrow> k);
          path = query ''path'' q
      in case r of
         ListFiles \<Rightarrow> guarded ''files:read'' (file_step files (FList path) sv)
       | UploadFile \<Rightarrow> guarded ''files:write'' (file_step files (FUpload path (query ''overwrite'' q = Some ''true'')) sv)
       | FileMetadata \<Rightarrow> guarded ''files:read'' (file_step files (FMetadata path) sv)
       | DownloadFile \<Rightarrow> guarded ''files:read'' (file_step files (FDownload path) sv)
       | CopyPath \<Rightarrow> guarded ''files:write'' (with_body q sv (\<lambda>body. file_step files (FCopy body) sv))
       | MovePath \<Rightarrow> guarded ''files:write'' (with_body q sv (\<lambda>body. file_step files (FMove body) sv))
       | RemovePath \<Rightarrow> guarded ''files:delete'' (file_step files (FRemove path (query ''recursive'' q = Some ''true'')) sv)
       | _ \<Rightarrow> (sv, Inl (bridgeError ''not_found'' 404)))"

definition dispatch ::
  "terminal_cfg \<Rightarrow> server_cfg \<Rightarrow> (file_call \<Rightarrow> 'f \<Rightarrow> 'f \<times> (bridge_exc + json)) \<Rightarrow> server_world \<Rightarrow> auth \<Rightarrow> http_request \<Rightarrow>
    'f server \<Rightarrow> 'f server \<times> (bridge_exc + answer)" where
  "dispatch cfg scfg files w a q sv = (case route_of (ht_method q) (ht_pathname q) of
       Capabilities \<Rightarrow> (sv, Inr (CapabilityAnswer (capabilityDocument (sc_agentId scfg))))
     | ListSessions \<Rightarrow> (sv, handle_list a sv)
     | OpenSession \<Rightarrow> handle_open cfg w a q sv
     | OperationRoute i x \<Rightarrow>
         (case requireScope a ''terminal:read'' of Inl e \<Rightarrow> (sv, Inl e) | Inr _ \<Rightarrow>
          (case requireSessionOwner a (sv_owners sv) i of Inl e \<Rightarrow> (sv, Inl e) | Inr _ \<Rightarrow>
           (case getOperation_public i x (ag_host (sv_agent sv)) of Inl e \<Rightarrow> (sv, Inl e) | Inr p \<Rightarrow> (sv, Inr (OperationAnswer p)))))
     | SessionRoute i action \<Rightarrow> handle_session cfg w a q i action sv
     | r \<Rightarrow> handle_files files a q r sv)"

text \<open>The handler; \<open>paused\<close> is the admission gate.\<close>

definition handle_request ::
  "crypto \<Rightarrow> terminal_cfg \<Rightarrow> server_cfg \<Rightarrow> (file_call \<Rightarrow> 'f \<Rightarrow> 'f \<times> (bridge_exc + json)) \<Rightarrow> bool \<Rightarrow> server_world \<Rightarrow> http_request \<Rightarrow>
    'f server \<Rightarrow> 'f server \<times> (bridge_exc + answer)" where
  "handle_request cr cfg scfg files paused w q sv =
     (if ht_method q = ''GET'' \<and> ht_pathname q = ''/health'' then (sv, Inr (HealthAnswer paused))
      else if paused then (sv, Inl (bridgeError ''admission_paused'' 503))
      else (case authenticateAgentRequest cr scfg (w_now (sw_world w)) q of
          Inl e \<Rightarrow> (sv, Inl e)
        | Inr a \<Rightarrow> dispatch cfg scfg files w a q sv))"

end
