(* ===== verification/AgentServer_Props.thy ===== *)
theory AgentServer_Props
  imports AgentServer Operations_Props
begin

text \<open>
  Mediation by the agent server: what a caller must present before anything happens, and what
  it may see.
\<close>

section \<open>The access rule\<close>

text \<open>Which scope a request needs, and whose terminal it addresses.\<close>

fun action_scope :: "string \<Rightarrow> session_action \<Rightarrow> string option" where
  "action_scope meth Commands = (if meth = ''POST'' then Some ''terminal:execute'' else None)"
| "action_scope meth Output = (if meth = ''GET'' then Some ''terminal:read'' else None)"
| "action_scope meth SendInput = (if meth = ''POST'' then Some ''terminal:input'' else None)"
| "action_scope meth InterruptAction = (if meth = ''POST'' then Some ''terminal:input'' else None)"
| "action_scope meth PurgeAction = (if meth = ''DELETE'' then Some ''terminal:close'' else None)"
| "action_scope meth SessionAction = (if meth = ''DELETE'' then Some ''terminal:close'' else None)"

fun needed_scope :: "string \<Rightarrow> route \<Rightarrow> string option" where
  "needed_scope meth ListSessions = Some ''terminal:read''"
| "needed_scope meth OpenSession = Some ''terminal:execute''"
| "needed_scope meth (OperationRoute i x) = Some ''terminal:read''"
| "needed_scope meth (SessionRoute i a) = action_scope meth a"
| "needed_scope meth ListFiles = Some ''files:read''"
| "needed_scope meth FileMetadata = Some ''files:read''"
| "needed_scope meth DownloadFile = Some ''files:read''"
| "needed_scope meth UploadFile = Some ''files:write''"
| "needed_scope meth CopyPath = Some ''files:write''"
| "needed_scope meth MovePath = Some ''files:write''"
| "needed_scope meth RemovePath = Some ''files:delete''"
| "needed_scope meth r = None"

fun target_session :: "route \<Rightarrow> string option" where
  "target_session (OperationRoute i x) = Some i"
| "target_session (SessionRoute i a) = Some i"
| "target_session r = None"

definition holds_scope :: "auth \<Rightarrow> string \<Rightarrow> bool" where
  "holds_scope a s \<longleftrightarrow> (\<forall>c. a = OAuthAuth c \<longrightarrow> JStr s \<in> set (ci_scopes c))"

definition owns_session :: "auth \<Rightarrow> owners \<Rightarrow> string \<Rightarrow> bool" where
  "owns_session a os i \<longleftrightarrow> (\<forall>c. a = OAuthAuth c \<longrightarrow> (\<exists>x. map_of os i = Some x \<and> JStr x = ci_ownerId c))"

lemma requireScope_refuses: "\<not> holds_scope a s \<Longrightarrow> requireScope a s = Inl (bridgeError ''forbidden_scope'' 403)"
  by (auto simp: holds_scope_def requireScope_def split: auth.splits)

lemma requireScope_static [simp]: "requireScope StaticAuth s = Inr ()"
  by (simp add: requireScope_def)

lemma requireSessionOwner_refuses:
  "\<not> owns_session a os i \<Longrightarrow> \<exists>e. requireSessionOwner a os i = Inl e"
  by (auto simp: owns_session_def requireSessionOwner_def owner_get_def split: auth.splits)

lemma requireSessionOwner_cases: "requireSessionOwner a os i = Inr () \<or> (\<exists>e. requireSessionOwner a os i = Inl e)"
  by (cases "requireSessionOwner a os i") simp_all

lemma owns_exact: "owns a os i \<Longrightarrow> owns_session a os i"
  by (auto simp: owns_def owns_session_def owner_get_def split: auth.splits sum.splits option.splits if_splits)

section \<open>Refused requests\<close>

definition refused :: "'f server \<Rightarrow> 'f server \<times> (bridge_exc + answer) \<Rightarrow> bool" where
  "refused sv out \<longleftrightarrow> fst out = sv \<and> (\<exists>e. snd out = Inl e)"

lemma refused_Inl [simp]: "refused sv (sv, Inl e)"
  by (simp add: refused_def)

lemma session_refused_owner:
  assumes "\<not> owns_session a (sv_owners sv) i"
  shows "refused sv (handle_session cfg w a q i act sv)"
proof -
  obtain e where "requireSessionOwner a (sv_owners sv) i = Inl e" using requireSessionOwner_refuses [OF assms] by blast
  then show ?thesis by (simp add: handle_session_def)
qed

lemma session_refused_scope:
  assumes "action_scope (ht_method q) act = Some s" "\<not> holds_scope a s"
  shows "refused sv (handle_session cfg w a q i act sv)"
proof -
  have no: "requireScope a s = Inl (bridgeError ''forbidden_scope'' 403)" by (rule requireScope_refuses [OF assms(2)])
  show ?thesis
    using requireSessionOwner_cases [of a "sv_owners sv" i] assms(1) no
    by (cases act) (auto simp: handle_session_def split: if_splits)
qed

lemma session_refused_route:
  assumes "action_scope (ht_method q) act = None"
  shows "refused sv (handle_session cfg w a q i act sv)"
  using requireSessionOwner_cases [of a "sv_owners sv" i] assms
  by (cases act) (auto simp: handle_session_def split: if_splits)

definition allowed :: "auth \<Rightarrow> owners \<Rightarrow> string \<Rightarrow> route \<Rightarrow> bool" where
  "allowed a os meth r \<longleftrightarrow> (\<forall>s. needed_scope meth r = Some s \<longrightarrow> holds_scope a s) \<and>
     (\<forall>i. target_session r = Some i \<longrightarrow> owns_session a os i)"

lemma dispatch_refuses:
  assumes "\<not> allowed a (sv_owners sv) (ht_method q) (route_of (ht_method q) (ht_pathname q))"
  shows "refused sv (dispatch cfg scfg files w a q sv)"
proof (cases "route_of (ht_method q) (ht_pathname q)")
  case (OperationRoute i x)
  then have "\<not> holds_scope a ''terminal:read'' \<or> \<not> owns_session a (sv_owners sv) i"
    using assms by (simp add: allowed_def)
  then show ?thesis
  proof
    assume "\<not> holds_scope a ''terminal:read''"
    then show ?thesis by (simp add: dispatch_def OperationRoute requireScope_refuses)
  next
    assume "\<not> owns_session a (sv_owners sv) i"
    then obtain e where "requireSessionOwner a (sv_owners sv) i = Inl e" using requireSessionOwner_refuses by blast
    then show ?thesis by (simp add: dispatch_def OperationRoute split: sum.split)
  qed
next
  case (SessionRoute i act)
  then show ?thesis
    using assms session_refused_owner session_refused_scope
    by (auto simp: allowed_def dispatch_def)
qed (use assms in \<open>auto simp: allowed_def dispatch_def handle_list_def handle_open_def handle_files_def Let_def requireScope_refuses\<close>)

section \<open>Owners\<close>

lemma owner_set_keeps:
  assumes "map_of os i = Some x"
  shows "map_of (fst (owner_set ok k v os)) i = Some x"
  using assms by (auto simp: owner_set_def split: option.splits)

lemma owner_delete_other: "k \<noteq> i \<Longrightarrow> map_of (fst (owner_delete k os)) i = map_of os i"
  by (induction os) (auto simp: owner_delete_def)

lemma owners_on_host [simp]: "sv_owners (fst (on_host f sv)) = sv_owners sv"
  by (simp add: on_host_def split: prod.split)

lemma on_host_owners: "on_host f sv = (sv1, r) \<Longrightarrow> sv_owners sv1 = sv_owners sv"
  using owners_on_host [of f sv] by simp

lemma fst_answer_with [simp]: "fst (answer_with g p) = fst p"
  by (auto simp: answer_with_def split: prod.split sum.split)

lemma owners_file_step [simp]: "sv_owners (fst (file_step files x sv)) = sv_owners sv"
  by (simp add: file_step_def split: prod.split)

lemma owners_files [simp]: "sv_owners (fst (handle_files files a q r sv)) = sv_owners sv"
  by (cases r) (simp_all add: handle_files_def Let_def with_body_def split: sum.split)

lemma owners_open:
  assumes "map_of (sv_owners sv) i = Some x"
  shows "map_of (sv_owners (fst (handle_open cfg w a q sv))) i = Some x"
proof -
  have step: "map_of (sv_owners (fst (case a of StaticAuth \<Rightarrow> (sv1, Inr (OpenedAnswer opened))
             | OAuthAuth c \<Rightarrow>
                 (case owner_set (sw_owner_ok w) (se_id opened) (js_string (ci_ownerId c)) (sv_owners sv1) of
                    (os, Inr _) \<Rightarrow> (sv1\<lparr>sv_owners := os\<rparr>, Inr (OpenedAnswer opened))
                  | (os, Inl _) \<Rightarrow>
                      let sv2 = fst (on_host (close_terminal (sw_world w) (se_id opened)) sv1);
                          sv3 = fst (on_host (purge_terminal (sw_rm_ok w) (se_id opened)) sv2)
                      in (sv3, Inl (bridgeError ''session_owner_storage_failure'' 503)))))) i = Some x"
    if "sv_owners sv1 = sv_owners sv" for sv1 :: "'a server" and opened
    using assms that owner_set_keeps [of "sv_owners sv" i x "sw_owner_ok w" "se_id opened"]
    by (auto simp: Let_def split: auth.splits prod.splits sum.splits) (metis fst_conv)
  show ?thesis
    unfolding handle_open_def using assms
    by (auto split: sum.splits prod.splits simp: step on_host_owners dest: on_host_owners)
qed

lemma owners_case_on_host [simp]:
  "sv_owners (fst (case on_host f sv of (s1, Inl e) \<Rightarrow> (s1, Inl e) | (s1, Inr v) \<Rightarrow> (s1, Inr (g v)))) = sv_owners sv"
  by (auto split: prod.split sum.split dest: on_host_owners)

lemma owners_session_other:
  assumes "ht_method q \<noteq> ''DELETE'' \<or> act \<noteq> PurgeAction"
  shows "sv_owners (fst (handle_session cfg w a q k act sv)) = sv_owners sv"
  using assms by (cases act) (auto simp: handle_session_def split: sum.splits prod.splits)

lemma owners_session_purge:
  assumes "k \<noteq> i" "ht_method q = ''DELETE''"
  shows "map_of (sv_owners (fst (handle_session cfg w a q k PurgeAction sv))) i = map_of (sv_owners sv) i"
proof -
  have other: "map_of os i = map_of (sv_owners sv) i"
    if "owner_delete k (sv_owners sv) = (os, r)" for os r
    using owner_delete_other [OF assms(1), of "sv_owners sv"] that by simp
  show ?thesis
  proof (cases "on_host (purge_terminal (sw_rm_ok w) k) sv")
    case (Pair s1 r)
    then have "sv_owners s1 = sv_owners sv" by (rule on_host_owners)
    then show ?thesis using assms(2) other
      by (auto simp: handle_session_def Pair split: sum.splits prod.splits)
  qed
qed

lemma owners_session:
  assumes "k \<noteq> i \<or> ht_method q \<noteq> ''DELETE'' \<or> act \<noteq> PurgeAction"
  shows "map_of (sv_owners (fst (handle_session cfg w a q k act sv))) i = map_of (sv_owners sv) i"
proof (cases "ht_method q = ''DELETE'' \<and> act = PurgeAction")
  case True
  then show ?thesis using assms owners_session_purge by blast
next
  case False
  then have "ht_method q \<noteq> ''DELETE'' \<or> act \<noteq> PurgeAction" by blast
  then show ?thesis by (simp add: owners_session_other)
qed

lemma owners_dispatch:
  assumes "map_of (sv_owners sv) i = Some x"
    and "\<not> (ht_method q = ''DELETE'' \<and> route_of (ht_method q) (ht_pathname q) = SessionRoute i PurgeAction)"
  shows "map_of (sv_owners (fst (dispatch cfg scfg files w a q sv))) i = Some x"
  using assms
  by (cases "route_of (ht_method q) (ht_pathname q)")
    (auto simp: dispatch_def owners_open owners_session split: sum.splits)

lemma not_listed:
  "snd (handle_session cfg w a q k act sv) \<noteq> Inr (SessionsAnswer l)"
  "snd (handle_open cfg w a q sv) \<noteq> Inr (SessionsAnswer l)"
  "snd (handle_files files a q r sv) \<noteq> Inr (SessionsAnswer l)"
proof -
  show "snd (handle_session cfg w a q k act sv) \<noteq> Inr (SessionsAnswer l)"
    by (cases act) (auto simp: handle_session_def answer_with_def split: sum.splits prod.splits)
  show "snd (handle_open cfg w a q sv) \<noteq> Inr (SessionsAnswer l)"
    by (auto simp: handle_open_def Let_def split: sum.splits prod.splits auth.splits)
  show "snd (handle_files files a q r sv) \<noteq> Inr (SessionsAnswer l)"
    by (cases r) (auto simp: handle_files_def file_step_def with_body_def answer_with_def Let_def split: sum.splits prod.splits)
qed

lemma listed_owned:
  assumes "snd (dispatch cfg scfg files w a q sv) = Inr (SessionsAnswer l)" "(s, b) \<in> set l"
  shows "owns_session a (sv_owners sv) (se_id s)"
  using assms
  by (cases "route_of (ht_method q) (ht_pathname q)")
    (auto simp: dispatch_def handle_list_def Let_def owns_exact not_listed split: sum.splits if_splits)

section \<open>Properties\<close>

text \<open>
  C25. Whatever the agent does for a request other than the health check, it does for an
  authenticated caller while admission is open. A caller with the gateway's signed context
  holds the scope of the route, and where the route names a terminal, owns it; the listing
  shows such a caller only terminals it owns. A request that fails one of these tests changes
  nothing. The owner of a terminal never changes, and is forgotten only by purging that terminal.
\<close>

theorem agent_mediates:
  assumes "handle_request cr cfg scfg files paused w q sv = (sv', r)"
    and "\<not> (ht_method q = ''GET'' \<and> ht_pathname q = ''/health'')"
  shows "(sv' \<noteq> sv \<or> (\<exists>v. r = Inr v) \<longrightarrow> \<not> paused \<and>
      (\<exists>a. authenticateAgentRequest cr scfg (w_now (sw_world w)) q = Inr a \<and>
        allowed a (sv_owners sv) (ht_method q) (route_of (ht_method q) (ht_pathname q)) \<and>
        (\<forall>l s b. r = Inr (SessionsAnswer l) \<longrightarrow> (s, b) \<in> set l \<longrightarrow> owns_session a (sv_owners sv) (se_id s)))) \<and>
    (\<forall>i x. map_of (sv_owners sv) i = Some x \<longrightarrow>
      map_of (sv_owners sv') i = Some x \<or>
      ht_method q = ''DELETE'' \<and> route_of (ht_method q) (ht_pathname q) = SessionRoute i PurgeAction)"
proof (cases "paused \<or> (\<exists>e. authenticateAgentRequest cr scfg (w_now (sw_world w)) q = Inl e)")
  case True
  then have "sv' = sv" "\<exists>e. r = Inl e"
    using assms by (auto simp: handle_request_def split: if_splits)
  then show ?thesis by auto
next
  case False
  then obtain a where a: "authenticateAgentRequest cr scfg (w_now (sw_world w)) q = Inr a" and open_gate: "\<not> paused"
    by (cases "authenticateAgentRequest cr scfg (w_now (sw_world w)) q") auto
  have run: "dispatch cfg scfg files w a q sv = (sv', r)"
    using assms a open_gate by (simp add: handle_request_def del: de_Morgan_conj)
  have guard: "allowed a (sv_owners sv) (ht_method q) (route_of (ht_method q) (ht_pathname q))" if "sv' \<noteq> sv \<or> (\<exists>v. r = Inr v)"
  proof (rule ccontr)
    assume "\<not> ?thesis"
    from dispatch_refuses [OF this, of cfg scfg files w] have "sv' = sv \<and> (\<exists>e. r = Inl e)" by (simp add: run refused_def)
    then show False using that by auto
  qed
  have listed: "owns_session a (sv_owners sv) (se_id s)" if "r = Inr (SessionsAnswer l)" "(s, b) \<in> set l" for l s b
    by (rule listed_owned [of cfg scfg files w a q sv l, OF _ that(2)]) (simp add: run that(1))
  have keeps: "map_of (sv_owners sv') i = Some x"
    if "map_of (sv_owners sv) i = Some x" "\<not> (ht_method q = ''DELETE'' \<and> route_of (ht_method q) (ht_pathname q) = SessionRoute i PurgeAction)" for i x
    using owners_dispatch [OF that, of cfg scfg files w a] by (simp add: run)
  show ?thesis using a open_gate guard listed keeps by blast
qed

definition ex_server_cfg :: server_cfg where
  "ex_server_cfg = \<lparr>sc_agentId = ''agent'', sc_token = ''static'', sc_oauthToken = Some ''gateway'', sc_contextSecret = replicate 32 CHR ''k''\<rparr>"

definition ex_list_request :: http_request where
  "ex_list_request = \<lparr>ht_method = ''GET'', ht_pathname = ''/v1/sessions'', ht_search = [],
     ht_authorization = Some ''Bearer gateway'', ht_context = Some ''payload.mac'', ht_query = [], ht_body = Inr (JObj [])\<rparr>"

definition ex_server_world :: server_world where
  "ex_server_world = \<lparr>sw_world = ex_world\<lparr>w_now := 1003000\<rparr>,
     sw_open = \<lparr>ow_files_ok = True, ow_new_ok = True, ow_options_ok = True, ow_save_ok = True, ow_kill_ok = True, ow_rm_ok = True\<rparr>,
     sw_id = ''s2'', sw_resolve = Inr, sw_fingerprint = (\<lambda>s. s), sw_commit_ok = True, sw_owner_ok = True, sw_rm_ok = True\<rparr>"

definition ex_server :: "string \<Rightarrow> unit server" where
  "ex_server x = \<lparr>sv_agent = idle_agent ex_host, sv_owners = [(''s1'', x)], sv_files = ()\<rparr>"

definition ex_files :: "file_call \<Rightarrow> unit \<Rightarrow> unit \<times> (bridge_exc + json)" where
  "ex_files x f = (f, Inl (Failure ''Error''))"

definition ex_listing :: "string \<Rightarrow> bridge_exc + answer" where
  "ex_listing x = snd (handle_request ex_crypto ex_cfg_terminal ex_server_cfg ex_files False ex_server_world ex_list_request (ex_server x))"

theorem agent_mediates_witness:
  "(\<exists>a. authenticateAgentRequest ex_crypto ex_server_cfg 1003000 ex_list_request = Inr a \<and> a \<noteq> StaticAuth \<and>
      holds_scope a ''terminal:read'') \<and>
    (case ex_listing ''owner-1'' of Inr (SessionsAnswer l) \<Rightarrow> map (se_id \<circ> fst) l | _ \<Rightarrow> []) = [''s1''] \<and>
    ex_listing ''owner-2'' = Inr (SessionsAnswer [])"
proof -
  have run: "handle_request ex_crypto ex_cfg_terminal ex_server_cfg ex_files False ex_server_world ex_list_request (ex_server ''owner-1'')
      = (ex_server ''owner-1'', ex_listing ''owner-1'')" by code_simp
  have route: "\<not> (ht_method ex_list_request = ''GET'' \<and> ht_pathname ex_list_request = ''/health'')" by code_simp
  have ok: "\<exists>v. ex_listing ''owner-1'' = Inr v"
  proof (cases "ex_listing ''owner-1''")
    case (Inl e)
    have "isl (ex_listing ''owner-1'') = False" by code_simp
    then show ?thesis by (simp add: Inl)
  qed simp
  from agent_mediates [OF run route, THEN conjunct1] ok
  obtain a where a: "authenticateAgentRequest ex_crypto ex_server_cfg (w_now (sw_world ex_server_world)) ex_list_request = Inr a"
    and g: "allowed a (sv_owners (ex_server ''owner-1'')) (ht_method ex_list_request) (route_of (ht_method ex_list_request) (ht_pathname ex_list_request))"
    by blast
  have n: "w_now (sw_world ex_server_world) = 1003000" by code_simp
  have p: "route_of (ht_method ex_list_request) (ht_pathname ex_list_request) = ListSessions" by code_simp
  have "authenticateAgentRequest ex_crypto ex_server_cfg 1003000 ex_list_request \<noteq> Inr StaticAuth" by code_simp
  then have "a \<noteq> StaticAuth" using a n by metis
  moreover have "holds_scope a ''terminal:read''" using g by (simp add: allowed_def p)
  moreover have "(case ex_listing ''owner-1'' of Inr (SessionsAnswer l) \<Rightarrow> map (se_id \<circ> fst) l | _ \<Rightarrow> []) = [''s1'']" by code_simp
  moreover have "ex_listing ''owner-2'' = Inr (SessionsAnswer [])" by code_simp
  ultimately show ?thesis using a n by metis
qed

end
