(* ===== verification/PathPolicy.thy ===== *)
theory PathPolicy
  imports Bridge
begin

text \<open>
  The path rules of the file manager, the pure part of \<^verbatim>\<open>packages/core/src/path-policy.js\<close>:
  construction, \<open>resolve\<close> for reading, \<open>mutation\<close> for writing and the overlap rule. Paths are
  POSIX paths; what the operating system says of a path (does it exist, its real path, its
  permissions) is an argument.
\<close>

section \<open>Paths\<close>

text \<open>\<^verbatim>\<open>path.resolve\<close>: the parts with \<^verbatim>\<open>.\<close>, \<^verbatim>\<open>..\<close> and empty ones worked out.\<close>

fun norm_parts :: "string list \<Rightarrow> string list \<Rightarrow> string list" where
  "norm_parts acc [] = rev acc"
| "norm_parts acc (p # ps) =
     (if p = [] \<or> p = ''.'' then norm_parts acc ps
      else if p = ''..'' then norm_parts (tl acc) ps
      else norm_parts (p # acc) ps)"

definition normal :: "string \<Rightarrow> string" where
  "normal s = ''/'' @ join_with ''/'' (norm_parts [] (split_on CHR ''/'' s))"

definition absolute :: "string \<Rightarrow> bool" where
  "absolute s \<longleftrightarrow> starts_with s ''/''"

definition path_resolve :: "string \<Rightarrow> string \<Rightarrow> string" where
  "path_resolve base s = normal (if absolute s then s else base @ ''/'' @ s)"

definition path_join :: "string \<Rightarrow> string list \<Rightarrow> string" where
  "path_join base parts = normal (join_with ''/'' (base # parts))"

definition isWithin :: "string \<Rightarrow> string \<Rightarrow> bool" where
  "isWithin candidate root \<longleftrightarrow> candidate = root \<or> starts_with candidate (root @ ''/'')"

definition proper_part :: "string \<Rightarrow> bool" where
  "proper_part p \<longleftrightarrow> p \<noteq> [] \<and> p \<noteq> ''.'' \<and> p \<noteq> ''..'' \<and> CHR ''/'' \<notin> set p"

section \<open>The policy\<close>

record policy =
  po_roots :: "string list"
  po_canonicalRoots :: "string list"
  po_shared :: bool
  po_sharedGroups :: "(string \<times> nat) list"

text \<open>What \<^verbatim>\<open>lstat\<close> says of a root: is it a directory, its group, its mode.\<close>

record root_stat =
  rs_isDirectory :: bool
  rs_gid :: nat
  rs_mode :: nat

text \<open>The process: platform, umask, and its groups.\<close>

record process =
  pr_cwd :: string
  pr_linux :: bool
  pr_umask :: nat
  pr_groups :: "nat list"

definition invalid_config :: bridge_exc where
  "invalid_config = bridgeError ''invalid_config'' 500"

definition shared_root_ok :: "process \<Rightarrow> (string \<Rightarrow> root_stat) \<Rightarrow> string \<Rightarrow> string \<Rightarrow> bool" where
  "shared_root_ok pr lstat given root \<longleftrightarrow> given = root \<and> rs_isDirectory (lstat root) \<and> rs_gid (lstat root) \<noteq> 0 \<and>
     rs_gid (lstat root) \<in> set (pr_groups pr) \<and> rs_mode (lstat root) mod 4096 = 1528"

definition newPathPolicy ::
  "process \<Rightarrow> (string \<Rightarrow> string option) \<Rightarrow> (string \<Rightarrow> root_stat) \<Rightarrow> string list \<Rightarrow> string \<Rightarrow> bridge_exc + policy" where
  "newPathPolicy pr realpath lstat roots sharing =
     (let given = map (path_resolve (pr_cwd pr)) roots in
      if sharing \<notin> {''private'', ''ipc-group''} then Inl invalid_config
      else if given = [] then Inl invalid_config
      else if list_ex (\<lambda>r. realpath r = None) given then Inl invalid_config
      else (let canonical = map (\<lambda>r. the (realpath r)) given in
        if sharing = ''private''
        then Inr \<lparr>po_roots = given, po_canonicalRoots = canonical, po_shared = False, po_sharedGroups = []\<rparr>
        else if \<not> pr_linux pr \<or> pr_umask pr div 8 mod 8 \<noteq> 0 then Inl invalid_config
        else if list_ex (\<lambda>(g, r). \<not> shared_root_ok pr lstat g r) (zip given canonical) then Inl invalid_config
        else Inr \<lparr>po_roots = given, po_canonicalRoots = canonical, po_shared = True,
                  po_sharedGroups = map (\<lambda>r. (r, rs_gid (lstat r))) canonical\<rparr>))"

definition createdDirectoryMode :: "policy \<Rightarrow> nat" where
  "createdDirectoryMode po = (if po_shared po then 1528 else 448)"

section \<open>Reading\<close>

definition invalid_path :: bridge_exc where
  "invalid_path = bridgeError ''invalid_path'' 400"

definition path_not_allowed :: bridge_exc where
  "path_not_allowed = bridgeError ''path_not_allowed'' 403"

definition root_path :: "string list \<Rightarrow> string" where
  "root_path parts = ''/'' @ join_with ''/'' parts"

text \<open>
  The walk up to the nearest existing ancestor, over the parts in reverse: the ancestor and
  the missing parts below it. At the root the walk ends in any case.
\<close>

fun nearest :: "(string \<Rightarrow> bool) \<Rightarrow> string list \<Rightarrow> string \<times> string list" where
  "nearest exists [] = (root_path [], [])"
| "nearest exists (p # up) =
     (if exists (root_path (rev (p # up))) then (root_path (rev (p # up)), [])
      else (case nearest exists up of (anc, missing) \<Rightarrow> (anc, missing @ [p])))"

definition canonical_path :: "(string \<Rightarrow> bool) \<Rightarrow> (string \<Rightarrow> string) \<Rightarrow> string \<Rightarrow> string" where
  "canonical_path exists realpath resolved =
     (case nearest exists (rev (norm_parts [] (split_on CHR ''/'' resolved))) of (anc, missing) \<Rightarrow>
        foldl (\<lambda>c segment. path_join c [segment]) (if exists anc then realpath anc else anc) missing)"

text \<open>A candidate that is not a string is \<^term>\<open>None\<close>, and refused like the empty one.\<close>

definition or_default_string :: "string option \<Rightarrow> string" where
  "or_default_string c = (case c of None \<Rightarrow> [] | Some s \<Rightarrow> s)"

definition resolve :: "policy \<Rightarrow> (string \<Rightarrow> bool) \<Rightarrow> (string \<Rightarrow> string) \<Rightarrow> string option \<Rightarrow> bridge_exc + string" where
  "resolve po exists realpath candidate =
     (if or_default_string candidate = [] then Inl invalid_path
      else (let resolved = path_resolve (hd (po_roots po)) (the candidate);
                canonical = canonical_path exists realpath resolved
            in if \<not> list_ex (isWithin resolved) (po_roots po) then Inl path_not_allowed
               else if \<not> list_ex (isWithin canonical) (po_canonicalRoots po) then Inl path_not_allowed
               else Inr canonical))"

section \<open>Writing\<close>

record mutation_ref =
  mu_root :: string
  mu_relative :: string
  mu_segments :: "string list"
  mu_displayPath :: string

text \<open>The roots around a path, each with its index; a root that is its own real path counts once.\<close>

definition matches :: "policy \<Rightarrow> string \<Rightarrow> (nat \<times> string) list" where
  "matches po resolved = filter (\<lambda>(i, base). isWithin resolved base)
     (concat (map (\<lambda>(i, given, canonical). if given = canonical then [(i, given)] else [(i, given), (i, canonical)])
        (enumerate 0 (zip (po_roots po) (po_canonicalRoots po)))))"

definition longest_first :: "(nat \<times> string) list \<Rightarrow> (nat \<times> string) list" where
  "longest_first ms = sort_key (\<lambda>(i, base). - int (length base)) ms"

definition mutation :: "policy \<Rightarrow> string option \<Rightarrow> bridge_exc + mutation_ref" where
  "mutation po candidate =
     (if or_default_string candidate = [] then Inl invalid_path
      else (let resolved = path_resolve (hd (po_roots po)) (the candidate) in
        (case longest_first (matches po resolved) of
           [] \<Rightarrow> Inl path_not_allowed
         | (i, base) # _ \<Rightarrow>
             let relative = drop (length base + 1) resolved;
                 segments = split_on CHR ''/'' relative;
                 root = po_canonicalRoots po ! i
             in if relative = [] \<or> relative = ''.'' then Inl (bridgeError ''protected_workspace_root'' 403)
                else if list_ex (\<lambda>s. s = [] \<or> s = ''.'' \<or> s = ''..'') segments then Inl invalid_path
                else Inr \<lparr>mu_root = root, mu_relative = relative, mu_segments = segments,
                          mu_displayPath = path_join root segments\<rparr>)))"

definition assertNoDangerousOverlap :: "mutation_ref \<Rightarrow> mutation_ref \<Rightarrow> bridge_exc + unit" where
  "assertNoDangerousOverlap source destination =
     (if mu_root source \<noteq> mu_root destination then Inr ()
      else if mu_relative source = mu_relative destination then Inr ()
      else if starts_with (mu_relative destination) (mu_relative source @ ''/'') \<or>
              starts_with (mu_relative source) (mu_relative destination @ ''/'')
      then Inl (bridgeError ''dangerous_path_overlap'' 409) else Inr ())"

end
