(* ===== verification/FileSystem.thy ===== *)
theory FileSystem
  imports PathPolicy
begin

text \<open>
  The POSIX file system as the file manager uses it: inodes, directory entries and the system
  calls relative to an open directory. The program reaches an entry of a held directory
  through \<^verbatim>\<open>/proc/self/fd/N/name\<close>, so a call names a directory inode and an entry.
\<close>

section \<open>Inodes\<close>

type_synonym ino = nat

text \<open>
  A directory knows where it hangs (\<^term>\<open>None\<close> for the root) and its entries. A removed
  directory that is still held open is \<open>GoneDir\<close>.
\<close>

datatype node =
  DirNode "(ino \<times> string) option" "(string \<times> ino) list"
| GoneDir
| FileNode string
| LinkNode string
| OtherNode

record fs =
  fs_nodes :: "ino \<Rightarrow> node option"
  fs_next :: ino
  fs_owner :: "ino \<Rightarrow> nat \<times> nat"
  fs_free :: nat

datatype kind = KDirectory | KFile | KSymlink | KOther

fun kind_of :: "node \<Rightarrow> kind" where
  "kind_of (DirNode up es) = KDirectory"
| "kind_of GoneDir = KDirectory"
| "kind_of (FileNode c) = KFile"
| "kind_of (LinkNode t) = KSymlink"
| "kind_of OtherNode = KOther"

definition entries :: "fs \<Rightarrow> ino \<Rightarrow> (string \<times> ino) list" where
  "entries f d = (case fs_nodes f d of Some (DirNode up es) \<Rightarrow> es | _ \<Rightarrow> [])"

definition entry :: "fs \<Rightarrow> ino \<Rightarrow> string \<Rightarrow> ino option" where
  "entry f d n = map_of (entries f d) n"

definition is_dir :: "fs \<Rightarrow> ino \<Rightarrow> bool" where
  "is_dir f d = (case fs_nodes f d of Some (DirNode up es) \<Rightarrow> True | _ \<Rightarrow> False)"

definition set_entries :: "ino \<Rightarrow> (string \<times> ino) list \<Rightarrow> fs \<Rightarrow> fs" where
  "set_entries d es f = (case fs_nodes f d of
       Some (DirNode up es') \<Rightarrow> f\<lparr>fs_nodes := (fs_nodes f)(d \<mapsto> DirNode up es)\<rparr> | _ \<Rightarrow> f)"

definition add_entry :: "ino \<Rightarrow> string \<Rightarrow> ino \<Rightarrow> fs \<Rightarrow> fs" where
  "add_entry d n i f = set_entries d ((n, i) # filter (\<lambda>(m, j). m \<noteq> n) (entries f d)) f"

definition del_entry :: "ino \<Rightarrow> string \<Rightarrow> fs \<Rightarrow> fs" where
  "del_entry d n f = set_entries d (filter (\<lambda>(m, j). m \<noteq> n) (entries f d)) f"

definition new_node :: "node \<Rightarrow> fs \<Rightarrow> fs \<times> ino" where
  "new_node nd f = (f\<lparr>fs_nodes := (fs_nodes f)(fs_next f \<mapsto> nd), fs_next := fs_next f + 1\<rparr>, fs_next f)"

section \<open>Real paths\<close>

text \<open>
  The path of a directory, from the directory up; \<open>fuel\<close> bounds the depth, and the number
  of inodes is enough of it.
\<close>

fun climb :: "fs \<Rightarrow> nat \<Rightarrow> ino \<Rightarrow> string list \<Rightarrow> string list option" where
  "climb f fuel d below = (case fs_nodes f d of
       Some (DirNode None es) \<Rightarrow> Some below
     | Some (DirNode (Some (p, n)) es) \<Rightarrow> (case fuel of 0 \<Rightarrow> None | Suc k \<Rightarrow> climb f k p (n # below))
     | _ \<Rightarrow> None)"

definition path_of :: "fs \<Rightarrow> ino \<Rightarrow> string option" where
  "path_of f d = map_option root_path (climb f (fs_next f) d [])"

section \<open>System calls\<close>

text \<open>A failing call names its \<^verbatim>\<open>errno\<close>.\<close>

type_synonym 'a call = "fs \<Rightarrow> fs \<times> (bridge_exc + 'a)"

definition os_stat_dir :: "ino \<Rightarrow> bool call" where
  "os_stat_dir d f = (f, Inr (case fs_nodes f d of Some nd \<Rightarrow> kind_of nd = KDirectory | None \<Rightarrow> False))"

definition os_realpath :: "ino \<Rightarrow> string call" where
  "os_realpath d f = (f, case path_of f d of Some p \<Rightarrow> Inr p | None \<Rightarrow> Inl (Failure ''ENOENT''))"

definition os_lstat :: "ino \<Rightarrow> string \<Rightarrow> kind call" where
  "os_lstat d n f = (f, case entry f d n of
       Some i \<Rightarrow> (case fs_nodes f i of Some nd \<Rightarrow> Inr (kind_of nd) | None \<Rightarrow> Inl (Failure ''ENOENT''))
     | None \<Rightarrow> Inl (Failure ''ENOENT''))"

text \<open>\<^verbatim>\<open>open\<close> with \<^verbatim>\<open>O_NOFOLLOW\<close>, and the same with \<^verbatim>\<open>O_DIRECTORY\<close>.\<close>

definition os_open :: "ino \<Rightarrow> string \<Rightarrow> ino call" where
  "os_open d n f = (f, case entry f d n of
       Some i \<Rightarrow> (case fs_nodes f i of
           Some (LinkNode t) \<Rightarrow> Inl (Failure ''ELOOP'') | Some nd \<Rightarrow> Inr i | None \<Rightarrow> Inl (Failure ''ENOENT''))
     | None \<Rightarrow> Inl (Failure ''ENOENT''))"

definition os_open_dir :: "ino \<Rightarrow> string \<Rightarrow> ino call" where
  "os_open_dir d n f = (f, case entry f d n of
       Some i \<Rightarrow> (case fs_nodes f i of
           Some (DirNode up es) \<Rightarrow> Inr i | None \<Rightarrow> Inl (Failure ''ENOENT'') | Some nd \<Rightarrow> Inl (Failure ''ENOTDIR''))
     | None \<Rightarrow> Inl (Failure ''ENOENT''))"

text \<open>A directory inherits the group of its parent, and the set-group bit with it, where that bit is set.\<close>

definition os_mkdir :: "nat \<Rightarrow> ino \<Rightarrow> string \<Rightarrow> unit call" where
  "os_mkdir md d n f =
     (if entry f d n \<noteq> None then (f, Inl (Failure ''EEXIST''))
      else if \<not> is_dir f d then (f, Inl (Failure ''ENOENT''))
      else (let (g, pm) = fs_owner f d; setgid = pm div 1024 mod 2 = 1; (f1, i) = new_node (DirNode (Some (d, n)) []) f
            in (add_entry d n i (f1\<lparr>fs_owner := (fs_owner f1)(i := (if setgid then g else 0,
                  md mod 1024 + (if setgid then 1024 else 0)))\<rparr>), Inr ())))"

definition os_create :: "ino \<Rightarrow> string \<Rightarrow> string \<Rightarrow> ino call" where
  "os_create d n content f =
     (if entry f d n \<noteq> None then (f, Inl (Failure ''EEXIST''))
      else if \<not> is_dir f d then (f, Inl (Failure ''ENOENT''))
      else (let (f1, i) = new_node (FileNode content) f in (add_entry d n i f1, Inr i)))"

definition os_append :: "ino \<Rightarrow> string \<Rightarrow> unit call" where
  "os_append i chunk f = (case fs_nodes f i of
       Some (FileNode c) \<Rightarrow> (f\<lparr>fs_nodes := (fs_nodes f)(i \<mapsto> FileNode (c @ chunk))\<rparr>, Inr ())
     | _ \<Rightarrow> (f, Inl (Failure ''EBADF'')))"

definition os_read :: "ino \<Rightarrow> string call" where
  "os_read i f = (f, case fs_nodes f i of Some (FileNode c) \<Rightarrow> Inr c | _ \<Rightarrow> Inl (Failure ''EISDIR''))"

definition os_link :: "ino \<Rightarrow> string \<Rightarrow> ino \<Rightarrow> string \<Rightarrow> unit call" where
  "os_link d n d' n' f = (case entry f d n of
       None \<Rightarrow> (f, Inl (Failure ''ENOENT''))
     | Some i \<Rightarrow>
         if entry f d' n' \<noteq> None then (f, Inl (Failure ''EEXIST''))
         else if \<not> is_dir f d' then (f, Inl (Failure ''ENOENT''))
         else if is_dir f i then (f, Inl (Failure ''EPERM''))
         else (add_entry d' n' i f, Inr ()))"

definition os_unlink :: "ino \<Rightarrow> string \<Rightarrow> unit call" where
  "os_unlink d n f = (case entry f d n of
       None \<Rightarrow> (f, Inl (Failure ''ENOENT''))
     | Some i \<Rightarrow> if is_dir f i then (f, Inl (Failure ''EISDIR'')) else (del_entry d n f, Inr ()))"

definition os_rmdir :: "ino \<Rightarrow> string \<Rightarrow> unit call" where
  "os_rmdir d n f = (case entry f d n of
       None \<Rightarrow> (f, Inl (Failure ''ENOENT''))
     | Some i \<Rightarrow>
         if \<not> is_dir f i then (f, Inl (Failure ''ENOTDIR''))
         else if entries f i \<noteq> [] then (f, Inl (Failure ''ENOTEMPTY''))
         else (let f1 = del_entry d n f in (f1\<lparr>fs_nodes := (fs_nodes f1)(i \<mapsto> GoneDir)\<rparr>, Inr ())))"

text \<open>
  \<^verbatim>\<open>rename\<close>. When both names are links to one file it does nothing and succeeds. A directory
  replaces nothing but an empty directory, and moves nowhere below itself.
\<close>

fun ancestor :: "fs \<Rightarrow> nat \<Rightarrow> ino \<Rightarrow> ino \<Rightarrow> bool" where
  "ancestor f fuel i d = (i = d \<or> (case (fs_nodes f d, fuel) of
       (Some (DirNode (Some (p, n)) es), Suc k) \<Rightarrow> ancestor f k i p | _ \<Rightarrow> False))"

definition os_rename :: "ino \<Rightarrow> string \<Rightarrow> ino \<Rightarrow> string \<Rightarrow> unit call" where
  "os_rename d n d' n' f = (case entry f d n of
       None \<Rightarrow> (f, Inl (Failure ''ENOENT''))
     | Some i \<Rightarrow>
         if \<not> is_dir f d' then (f, Inl (Failure ''ENOENT''))
         else if is_dir f i \<and> ancestor f (fs_next f) i d' then (f, Inl (Failure ''EINVAL''))
         else (case entry f d' n' of
            None \<Rightarrow> (let f1 = add_entry d' n' i (del_entry d n f) in
               (if is_dir f i then f1\<lparr>fs_nodes := (fs_nodes f1)(i \<mapsto> DirNode (Some (d', n')) (entries f i))\<rparr> else f1, Inr ()))
          | Some j \<Rightarrow>
              if j = i then (f, Inr ())
              else if is_dir f j \<and> \<not> is_dir f i then (f, Inl (Failure ''EISDIR''))
              else if is_dir f i \<and> \<not> is_dir f j then (f, Inl (Failure ''ENOTDIR''))
              else if is_dir f j \<and> entries f j \<noteq> [] then (f, Inl (Failure ''ENOTEMPTY''))
              else (let f1 = add_entry d' n' i (del_entry d n f);
                        f2 = (if is_dir f i then f1\<lparr>fs_nodes := (fs_nodes f1)(i \<mapsto> DirNode (Some (d', n')) (entries f i), j \<mapsto> GoneDir)\<rparr> else f1)
                    in (f2, Inr ()))))"

section \<open>Calls in a changing world\<close>

text \<open>
  Before its \<open>k\<close>-th call the program may see the tree changed by others, and the call may
  fail: \<open>W k\<close> gives the change and the \<^verbatim>\<open>errno\<close>.
\<close>

type_synonym schedule = "nat \<Rightarrow> (fs \<Rightarrow> fs) \<times> string option"

record os =
  os_fs :: fs
  os_calls :: nat

type_synonym 'a action = "os \<Rightarrow> os \<times> (bridge_exc + 'a)"

definition syscall :: "schedule \<Rightarrow> 'a call \<Rightarrow> 'a action" where
  "syscall W c s = (case W (os_calls s) of (change, fault) \<Rightarrow>
     let f = change (os_fs s) in
     (case fault of
        Some e \<Rightarrow> (\<lparr>os_fs = f, os_calls = os_calls s + 1\<rparr>, Inl (Failure e))
      | None \<Rightarrow> (case c f of (f', r) \<Rightarrow> (\<lparr>os_fs = f', os_calls = os_calls s + 1\<rparr>, r))))"

definition return :: "'a \<Rightarrow> 'a action" where
  "return v s = (s, Inr v)"

definition throw :: "bridge_exc \<Rightarrow> 'a action" where
  "throw e s = (s, Inl e)"

definition from_result :: "bridge_exc + 'a \<Rightarrow> 'a action" where
  "from_result r s = (s, r)"

definition andThen :: "'a action \<Rightarrow> ('a \<Rightarrow> 'b action) \<Rightarrow> 'b action" where
  "andThen m k s = (case m s of (s', Inl e) \<Rightarrow> (s', Inl e) | (s', Inr v) \<Rightarrow> k v s')"

definition catching :: "'a action \<Rightarrow> (bridge_exc \<Rightarrow> 'a action) \<Rightarrow> 'a action" where
  "catching m h s = (case m s of (s', Inl e) \<Rightarrow> h e s' | (s', Inr v) \<Rightarrow> (s', Inr v))"

text \<open>\<^verbatim>\<open>p.catch(() => {})\<close>: the error of the action is dropped.\<close>

definition ignoring :: "'a action \<Rightarrow> unit action" where
  "ignoring m s = (fst (m s), Inr ())"

end
