(* ===== verification/Files.thy ===== *)
theory Files
  imports FileSystem
begin

text \<open>
  The file manager, \<^verbatim>\<open>apps/agent/src/files.js\<close>, and the part of the path policy that opens
  directories, \<open>openMutationParent\<close> of \<^verbatim>\<open>packages/core/src/path-policy.js\<close>. Closing a
  descriptor changes nothing here and is left out, as are log lines and telemetry.
\<close>

section \<open>Configuration\<close>

text \<open>
  What the platform supplies: the kernel's walk of an absolute path, with and without the
  \<^verbatim>\<open>O_NOFOLLOW\<close> rule, \<^verbatim>\<open>realpath\<close>, the output of \<^verbatim>\<open>getfacl\<close> on a held directory (standard
  output and standard error, trimmed), SHA-256, and the size the file system gives a node.
\<close>

record file_cfg =
  fc_policy :: policy
  fc_uploadMaxBytes :: nat
  fc_storageMinFreeBytes :: nat
  fc_openRoot :: "fs \<Rightarrow> string \<Rightarrow> bridge_exc + ino"
  fc_walk :: "fs \<Rightarrow> string \<Rightarrow> bridge_exc + ino"
  fc_realpath :: "fs \<Rightarrow> string \<Rightarrow> string"
  fc_getfacl :: "fs \<Rightarrow> ino \<Rightarrow> (string \<times> string) option"
  fc_sha256 :: "string \<Rightarrow> string"
  fc_size :: "fs \<Rightarrow> ino \<Rightarrow> nat"

section \<open>Held directories\<close>

definition deleted_suffix :: string where
  "deleted_suffix = '' (deleted)''"

definition ends_with :: "string \<Rightarrow> string \<Rightarrow> bool" where
  "ends_with s t \<longleftrightarrow> length t \<le> length s \<and> drop (length s - length t) s = t"

definition assertPinnedDirectory :: "schedule \<Rightarrow> ino \<Rightarrow> string \<Rightarrow> unit action" where
  "assertPinnedDirectory W d root =
     andThen (syscall W (os_stat_dir d)) (\<lambda>directory.
       if \<not> directory then throw path_not_allowed else
       andThen (syscall W (os_realpath d)) (\<lambda>actual.
         if \<not> isWithin actual root \<or> ends_with actual deleted_suffix then throw path_not_allowed else return ()))"

definition permissions_changed :: bridge_exc where
  "permissions_changed = bridgeError ''workspace_permissions_changed'' 409"

text \<open>\<open>lf\<close> is the line feed between the lines of \<^verbatim>\<open>getfacl\<close>.\<close>

definition plain_acl :: string where
  "plain_acl = (let lf = CHR 0x0A in ''user::rwx'' @ [lf] @ ''group::rwx'' @ [lf] @ ''other::---'')"

definition assertSharedUploadParent :: "schedule \<Rightarrow> file_cfg \<Rightarrow> ino \<Rightarrow> string \<Rightarrow> unit action" where
  "assertSharedUploadParent W cfg d root =
     (if \<not> po_shared (fc_policy cfg) then return () else
      andThen (syscall W (\<lambda>f. (f, Inr (fs_owner f d)))) (\<lambda>(gid, md).
        if Some gid \<noteq> map_of (po_sharedGroups (fc_policy cfg)) root \<or> md mod 4096 \<noteq> 1528 then throw permissions_changed else
        andThen (catching (syscall W (\<lambda>f. (f, case fc_getfacl cfg f d of Some out \<Rightarrow> Inr out | None \<Rightarrow> Inl (Failure ''ACL''))))
            (\<lambda>e. throw permissions_changed)) (\<lambda>(out, err).
          if err \<noteq> [] \<or> out \<noteq> plain_acl then throw permissions_changed else return ())))"

definition link_refused :: "bridge_exc \<Rightarrow> 'a action" where
  "link_refused e = throw (if error_code e \<in> {''ELOOP'', ''ENOTDIR''} then path_not_allowed else e)"

text \<open>One segment: make it when asked to, open it without following a link, check it.\<close>

definition descend :: "schedule \<Rightarrow> file_cfg \<Rightarrow> bool \<Rightarrow> string \<Rightarrow> string \<Rightarrow> ino \<Rightarrow> ino action" where
  "descend W cfg createParents root segment current =
     andThen (if createParents
        then andThen (assertSharedUploadParent W cfg current root) (\<lambda>_.
          catching (syscall W (os_mkdir (createdDirectoryMode (fc_policy cfg)) current segment))
            (\<lambda>e. if error_code e \<noteq> ''EEXIST'' then throw e else return ()))
        else return ()) (\<lambda>_.
     andThen (catching (syscall W (os_open_dir current segment)) link_refused) (\<lambda>next_dir.
     andThen (assertPinnedDirectory W next_dir root) (\<lambda>_. return next_dir)))"

fun descend_all :: "schedule \<Rightarrow> file_cfg \<Rightarrow> bool \<Rightarrow> string \<Rightarrow> string list \<Rightarrow> ino \<Rightarrow> ino action" where
  "descend_all W cfg createParents root [] current = return current"
| "descend_all W cfg createParents root (s # ss) current =
     andThen (descend W cfg createParents root s current) (descend_all W cfg createParents root ss)"

definition openMutationParent :: "schedule \<Rightarrow> file_cfg \<Rightarrow> bool \<Rightarrow> mutation_ref \<Rightarrow> (ino \<times> string) action" where
  "openMutationParent W cfg createParents target =
     andThen (syscall W (\<lambda>f. (f, fc_openRoot cfg f (mu_root target)))) (\<lambda>d0.
     andThen (assertPinnedDirectory W d0 (mu_root target)) (\<lambda>_.
     andThen (descend_all W cfg createParents (mu_root target) (butlast (mu_segments target)) d0) (\<lambda>d.
     andThen (if createParents then assertSharedUploadParent W cfg d (mu_root target) else return ()) (\<lambda>_.
     return (d, last (mu_segments target))))))"

section \<open>Parts of the operations\<close>

text \<open>The free space is read only where a reserve is configured.\<close>

definition assertStorageReserve :: "schedule \<Rightarrow> file_cfg \<Rightarrow> nat \<Rightarrow> unit action" where
  "assertStorageReserve W cfg incoming =
     (if fc_storageMinFreeBytes cfg = 0 then return () else
      andThen (syscall W (\<lambda>f. (f, Inr (fs_free f)))) (\<lambda>available.
        if available < fc_storageMinFreeBytes cfg + incoming then throw (bridgeError ''storage_reserve'' 507) else return ()))"

definition destinationExists :: "bridge_exc \<Rightarrow> 'a action" where
  "destinationExists e = throw (if error_code e \<noteq> ''EEXIST'' then e else bridgeError ''destination_exists'' 409)"

definition unsupportedComplex :: bridge_exc where
  "unsupportedComplex = bridgeError ''unsupported_complex_mutation'' 409"

definition commitTemporary :: "schedule \<Rightarrow> ino \<Rightarrow> string \<Rightarrow> string \<Rightarrow> bool \<Rightarrow> unit action" where
  "commitTemporary W d temporary name overwrite =
     (if overwrite then syscall W (os_rename d temporary d name)
      else andThen (catching (syscall W (os_link d temporary d name)) destinationExists) (\<lambda>_.
        syscall W (os_unlink d temporary)))"

section \<open>Upload\<close>

text \<open>
  The request: the declared length, the chunks of the body, and whether the body ends
  properly. The stream writes one chunk after the other; a chunk over the limit or over the
  reserve is not written.
\<close>

record upload_request =
  ur_declared :: "nat option"
  ur_chunks :: "string list"
  ur_complete :: bool

definition file_too_large :: bridge_exc where
  "file_too_large = bridgeError ''file_too_large'' 413"

fun write_chunks :: "schedule \<Rightarrow> file_cfg \<Rightarrow> ino \<Rightarrow> nat \<Rightarrow> string list \<Rightarrow> nat action" where
  "write_chunks W cfg i size' [] = return size'"
| "write_chunks W cfg i size' (c # cs) =
     (let n = size' + length c in
      if n > fc_uploadMaxBytes cfg then throw file_too_large else
      andThen (assertStorageReserve W cfg (length c)) (\<lambda>_.
      andThen (syscall W (os_append i c)) (\<lambda>_. write_chunks W cfg i n cs)))"

definition stream_upload :: "schedule \<Rightarrow> file_cfg \<Rightarrow> upload_request \<Rightarrow> ino \<Rightarrow> string \<Rightarrow> nat action" where
  "stream_upload W cfg q d temporary =
     andThen (syscall W (os_create d temporary [])) (\<lambda>i.
     andThen (write_chunks W cfg i 0 (ur_chunks q)) (\<lambda>n.
       if ur_complete q then return n else throw (Failure ''ECONNRESET'')))"

datatype file_result =
  Uploaded string nat string
| Copied string string bool
| Moved string string bool
| Deleted string
| Listed string "(string \<times> string \<times> kind \<times> nat) list"
| Stat string nat
| Metadata nat string

definition upload_into :: "schedule \<Rightarrow> file_cfg \<Rightarrow> upload_request \<Rightarrow> string \<Rightarrow> string \<Rightarrow> ino \<Rightarrow> string \<Rightarrow> bool \<Rightarrow> nat action" where
  "upload_into W cfg q root temporary d name overwrite =
     catching
       (andThen (assertStorageReserve W cfg (case ur_declared q of None \<Rightarrow> 1 | Some n \<Rightarrow> n)) (\<lambda>_.
        andThen (stream_upload W cfg q d temporary) (\<lambda>n.
        andThen (assertSharedUploadParent W cfg d root) (\<lambda>_.
        andThen (commitTemporary W d temporary name overwrite) (\<lambda>_. return n)))))
       (\<lambda>e. andThen (ignoring (syscall W (os_unlink d temporary))) (\<lambda>_. throw e))"

definition upload ::
  "schedule \<Rightarrow> file_cfg \<Rightarrow> upload_request \<Rightarrow> string option \<Rightarrow> bool \<Rightarrow> string \<Rightarrow> file_result action" where
  "upload W cfg q candidate overwrite temporary =
     andThen (from_result (mutation (fc_policy cfg) candidate)) (\<lambda>destination.
     andThen (openMutationParent W cfg True destination) (\<lambda>(d, name).
       if (case ur_declared q of None \<Rightarrow> False | Some n \<Rightarrow> n > fc_uploadMaxBytes cfg) then throw file_too_large else
       andThen (upload_into W cfg q (mu_root destination) temporary d name overwrite) (\<lambda>n.
         return (Uploaded (mu_displayPath destination) n (fc_sha256 cfg (concat (ur_chunks q)))))))"

section \<open>Copy\<close>

definition copy_into ::
  "schedule \<Rightarrow> file_cfg \<Rightarrow> mutation_ref \<Rightarrow> ino \<Rightarrow> string \<Rightarrow> string \<Rightarrow> bool \<Rightarrow> unit action" where
  "copy_into W cfg to d name temporary overwrite =
     andThen (catching (syscall W (os_open d name)) (\<lambda>e. throw (if error_code e = ''ELOOP'' then unsupportedComplex else e))) (\<lambda>i.
     andThen (syscall W (\<lambda>f. (f, Inr (map_option kind_of (fs_nodes f i), fc_size cfg f i)))) (\<lambda>(kd, sz).
       if kd \<noteq> Some KFile then throw unsupportedComplex else
       andThen (openMutationParent W cfg False to) (\<lambda>(d', name').
       andThen (assertStorageReserve W cfg sz) (\<lambda>_.
       catching
         (andThen (syscall W (\<lambda>f. case os_read i f of (f1, Inl e) \<Rightarrow> (f1, Inl e) | (f1, Inr content) \<Rightarrow> os_create d' temporary content f1)) (\<lambda>_.
          commitTemporary W d' temporary name' overwrite))
         (\<lambda>e. andThen (ignoring (syscall W (os_unlink d' temporary))) (\<lambda>_. throw e))))))"

definition copy_file ::
  "schedule \<Rightarrow> file_cfg \<Rightarrow> string option \<Rightarrow> string option \<Rightarrow> bool \<Rightarrow> string \<Rightarrow> file_result action" where
  "copy_file W cfg source destination overwrite temporary =
     andThen (from_result (mutation (fc_policy cfg) source)) (\<lambda>from_ref.
     andThen (from_result (mutation (fc_policy cfg) destination)) (\<lambda>to_ref.
       if mu_displayPath from_ref = mu_displayPath to_ref then return (Copied (mu_displayPath from_ref) (mu_displayPath to_ref) False) else
       andThen (from_result (assertNoDangerousOverlap from_ref to_ref)) (\<lambda>_.
       andThen (openMutationParent W cfg False from_ref) (\<lambda>(d, name).
       andThen (copy_into W cfg to_ref d name temporary overwrite) (\<lambda>_.
         return (Copied (mu_displayPath from_ref) (mu_displayPath to_ref) True))))))"

section \<open>Move\<close>

definition move_replacing :: "schedule \<Rightarrow> ino \<Rightarrow> string \<Rightarrow> ino \<Rightarrow> string \<Rightarrow> unit action" where
  "move_replacing W d name d' name' =
     andThen (catching
         (andThen (syscall W (os_lstat d' name')) (\<lambda>kd. if kd = KDirectory then throw unsupportedComplex else return ()))
         (\<lambda>e. if error_code e \<noteq> ''ENOENT'' then throw e else return ())) (\<lambda>_.
     syscall W (os_rename d name d' name'))"

definition move_linking :: "schedule \<Rightarrow> ino \<Rightarrow> string \<Rightarrow> ino \<Rightarrow> string \<Rightarrow> unit action" where
  "move_linking W d name d' name' =
     andThen (catching (syscall W (os_link d name d' name')) destinationExists) (\<lambda>_.
     catching (syscall W (os_unlink d name))
       (\<lambda>e. andThen (ignoring (syscall W (os_unlink d' name'))) (\<lambda>_. throw e)))"

definition move_entry :: "schedule \<Rightarrow> bool \<Rightarrow> ino \<Rightarrow> string \<Rightarrow> ino \<Rightarrow> string \<Rightarrow> unit action" where
  "move_entry W overwrite d name d' name' =
     (if overwrite then move_replacing W d name d' name' else move_linking W d name d' name')"

definition move_into :: "schedule \<Rightarrow> file_cfg \<Rightarrow> mutation_ref \<Rightarrow> ino \<Rightarrow> string \<Rightarrow> bool \<Rightarrow> unit action" where
  "move_into W cfg to d name overwrite =
     catching
       (andThen (syscall W (os_lstat d name)) (\<lambda>kd.
          if kd \<noteq> KFile then throw unsupportedComplex else
          andThen (openMutationParent W cfg False to) (\<lambda>(d', name'). move_entry W overwrite d name d' name')))
       (\<lambda>e. throw (if error_code e \<noteq> ''EXDEV'' then e else bridgeError ''unsupported_cross_device_move'' 409))"

definition move_file :: "schedule \<Rightarrow> file_cfg \<Rightarrow> string option \<Rightarrow> string option \<Rightarrow> bool \<Rightarrow> file_result action" where
  "move_file W cfg source destination overwrite =
     andThen (from_result (mutation (fc_policy cfg) source)) (\<lambda>from_ref.
     andThen (from_result (mutation (fc_policy cfg) destination)) (\<lambda>to_ref.
       if mu_displayPath from_ref = mu_displayPath to_ref then return (Moved (mu_displayPath from_ref) (mu_displayPath to_ref) False) else
       andThen (from_result (assertNoDangerousOverlap from_ref to_ref)) (\<lambda>_.
       andThen (openMutationParent W cfg False from_ref) (\<lambda>(d, name).
       andThen (move_into W cfg to_ref d name overwrite) (\<lambda>_.
         return (Moved (mu_displayPath from_ref) (mu_displayPath to_ref) True))))))"

section \<open>Remove\<close>

definition remove_entry :: "schedule \<Rightarrow> ino \<Rightarrow> string \<Rightarrow> unit action" where
  "remove_entry W d name = andThen (syscall W (os_lstat d name)) (\<lambda>kd.
     if kd = KDirectory then syscall W (os_rmdir d name) else syscall W (os_unlink d name))"

definition remove_file :: "schedule \<Rightarrow> file_cfg \<Rightarrow> string option \<Rightarrow> bool \<Rightarrow> file_result action" where
  "remove_file W cfg candidate recursive =
     andThen (from_result (mutation (fc_policy cfg) candidate)) (\<lambda>resolved.
       if recursive then throw unsupportedComplex else
       andThen (openMutationParent W cfg False resolved) (\<lambda>(d, name).
       andThen (remove_entry W d name) (\<lambda>_. return (Deleted (mu_displayPath resolved)))))"

end
