(* ===== verification/PathPolicy_Props.thy ===== *)
theory PathPolicy_Props
  imports PathPolicy
begin

text \<open>
  Which paths a mutation may name, exactly, and where it lands.
\<close>

section \<open>Normal paths\<close>

lemma split_on_sep: "split_on c (xs @ c # ys) = split_on c xs @ split_on c ys"
proof (induction xs)
  case (Cons x xs)
  obtain p ps where "split_on c xs = p # ps" by (cases "split_on c xs") auto
  then show ?case using Cons by simp
qed simp

lemma join_append: "ps \<noteq> [] \<Longrightarrow> qs \<noteq> [] \<Longrightarrow> join_with sep (ps @ qs) = join_with sep ps @ sep @ join_with sep qs"
proof (induction ps)
  case (Cons p ps)
  show ?case
  proof (cases ps)
    case Nil
    then show ?thesis using Cons.prems by (cases qs) simp_all
  next
    case (Cons q qs')
    then show ?thesis using Cons.IH Cons.prems \<open>ps = q # qs'\<close> by simp
  qed
qed simp

lemma norm_parts_proper:
  "list_all proper_part acc \<Longrightarrow> list_all (\<lambda>p. CHR ''/'' \<notin> set p) ps \<Longrightarrow> list_all proper_part (norm_parts acc ps)"
proof (induction acc ps rule: norm_parts.induct)
  case (2 acc p ps)
  have "list_all proper_part (tl acc)" using 2(4) by (cases acc) simp_all
  moreover have "p = [] \<or> p = ''.'' \<or> p = ''..'' \<or> proper_part p" using 2(5) by (auto simp: proper_part_def)
  ultimately show ?case using 2 by auto
qed simp

lemma norm_parts_id: "list_all proper_part ps \<Longrightarrow> norm_parts acc ps = rev acc @ ps"
  by (induction ps arbitrary: acc) (simp_all add: proper_part_def)

lemma split_slash_free: "list_all (\<lambda>p. CHR ''/'' \<notin> set p) (split_on CHR ''/'' s)"
  by (simp add: list_all_iff split_on_parts)

lemma proper_slash_free: "list_all proper_part ps \<Longrightarrow> p \<in> set ps \<Longrightarrow> CHR ''/'' \<notin> set p"
  by (simp add: list_all_iff proper_part_def)

lemma split_root_path: "list_all proper_part ps \<Longrightarrow> ps \<noteq> [] \<Longrightarrow> split_on CHR ''/'' (root_path ps) = [] # ps"
  using split_on_sep [of "CHR ''/''" "[]" "join_with ''/'' ps"] split_on_join [of ps "CHR ''/''"] proper_slash_free [of ps]
  by (simp add: root_path_def)

definition parts_of :: "string \<Rightarrow> string list" where
  "parts_of s = norm_parts [] (split_on CHR ''/'' s)"

lemma parts_proper: "list_all proper_part (parts_of s)"
  by (simp add: parts_of_def norm_parts_proper split_slash_free)

lemma normal_root_path: "normal s = root_path (parts_of s)"
  by (simp add: normal_def parts_of_def root_path_def)

lemma parts_root_path [simp]: "list_all proper_part ps \<Longrightarrow> parts_of (root_path ps) = ps"
proof (cases ps)
  case Nil
  then show ?thesis by (simp add: parts_of_def root_path_def)
next
  case (Cons q qs)
  then show "list_all proper_part ps \<Longrightarrow> ?thesis"
    using split_root_path [of ps] norm_parts_id [of ps "[]"] by (simp add: parts_of_def)
qed

lemma root_path_append:
  "ps \<noteq> [] \<Longrightarrow> qs \<noteq> [] \<Longrightarrow> root_path (ps @ qs) = root_path ps @ ''/'' @ join_with ''/'' qs"
  by (simp add: root_path_def join_append)

lemma starts_with_append: "starts_with s p \<longleftrightarrow> (\<exists>r. s = p @ r)"
  by (metis append_eq_conv_conj append_take_drop_id starts_with_def)

text \<open>Being strictly below a root, in parts.\<close>

lemma strictly_below:
  assumes ps: "list_all proper_part ps" and rs: "list_all proper_part rs"
  shows "starts_with (root_path rs) (root_path ps @ ''/'') \<longleftrightarrow> ps \<noteq> [] \<and> (\<exists>qs. qs \<noteq> [] \<and> rs = ps @ qs)"
proof
  assume "starts_with (root_path rs) (root_path ps @ ''/'')"
  then obtain r where r: "root_path rs = root_path ps @ CHR ''/'' # r" by (auto simp: starts_with_append)
  have ne: "rs \<noteq> []" using r by (auto simp: root_path_def)
  have "[] # rs = split_on CHR ''/'' (root_path ps) @ split_on CHR ''/'' r"
    using split_root_path [OF rs ne] split_on_sep [of "CHR ''/''" "root_path ps" r] r by simp
  moreover have "ps \<noteq> []"
  proof
    assume "ps = []"
    then have "[] # rs = [[], []] @ split_on CHR ''/'' r" using calculation by (simp add: root_path_def)
    then show False using rs by (auto simp: proper_part_def)
  qed
  ultimately show "ps \<noteq> [] \<and> (\<exists>qs. qs \<noteq> [] \<and> rs = ps @ qs)"
    using split_root_path [OF ps] by auto
next
  assume "ps \<noteq> [] \<and> (\<exists>qs. qs \<noteq> [] \<and> rs = ps @ qs)"
  then show "starts_with (root_path rs) (root_path ps @ ''/'')"
    using root_path_append by (auto simp: starts_with_append)
qed

lemma below_relative:
  "ps \<noteq> [] \<Longrightarrow> qs \<noteq> [] \<Longrightarrow> drop (length (root_path ps) + 1) (root_path (ps @ qs)) = join_with ''/'' qs"
  by (simp add: root_path_append)

lemma root_path_inj: "list_all proper_part ps \<Longrightarrow> list_all proper_part qs \<Longrightarrow> root_path ps = root_path qs \<Longrightarrow> ps = qs"
  by (metis parts_root_path)

lemma path_join_root:
  assumes "list_all proper_part ps" "ps \<noteq> []" "list_all proper_part qs" "qs \<noteq> []"
  shows "path_join (root_path ps) qs = root_path (ps @ qs)"
proof -
  have "join_with ''/'' (root_path ps # qs) = root_path (ps @ qs)"
    using assms by (cases qs) (simp_all add: root_path_append)
  then show ?thesis using assms by (simp add: path_join_def normal_root_path)
qed

section \<open>The root a path belongs to\<close>

definition normal_path :: "string \<Rightarrow> bool" where
  "normal_path s \<longleftrightarrow> (\<exists>ps. list_all proper_part ps \<and> s = root_path ps)"

lemma normal_path_normal [simp]: "normal_path (normal s)"
  unfolding normal_path_def normal_root_path using parts_proper by blast

definition sound_policy :: "policy \<Rightarrow> bool" where
  "sound_policy po \<longleftrightarrow> po_roots po \<noteq> [] \<and> length (po_canonicalRoots po) = length (po_roots po) \<and>
     list_all normal_path (po_roots po) \<and> list_all normal_path (po_canonicalRoots po)"

lemma newPathPolicy_sound:
  assumes "newPathPolicy pr realpath lstat roots sharing = Inr po" "\<And>r c. realpath r = Some c \<Longrightarrow> normal_path c"
  shows "sound_policy po"
proof -
  let ?given = "map (path_resolve (pr_cwd pr)) roots"
  have p: "po_roots po = ?given" "po_canonicalRoots po = map (\<lambda>r. the (realpath r)) ?given" "?given \<noteq> []"
    "\<not> list_ex (\<lambda>r. realpath r = None) ?given"
    using assms(1) by (auto simp: newPathPolicy_def Let_def split: if_splits)
  have "list_all normal_path ?given" by (simp add: list_all_iff path_resolve_def)
  moreover have "list_all normal_path (po_canonicalRoots po)"
    using p(4) assms(2) by (fastforce simp: p(2) list_all_iff list_ex_iff)
  ultimately show ?thesis using p(3) by (simp add: sound_policy_def p(1,2))
qed

lemma matches_member:
  assumes "length (po_canonicalRoots po) = length (po_roots po)"
  shows "(i, base) \<in> set (matches po resolved) \<longleftrightarrow>
    i < length (po_roots po) \<and> base \<in> {po_roots po ! i, po_canonicalRoots po ! i} \<and> isWithin resolved base"
proof -
  let ?zs = "zip (po_roots po) (po_canonicalRoots po)"
  have n: "length ?zs = length (po_roots po)" using assms by simp
  have at: "?zs ! j = (po_roots po ! j, po_canonicalRoots po ! j)" if "j < length (po_roots po)" for j
    using that assms by simp
  have "x \<in> set (enumerate 0 ?zs) \<longleftrightarrow> fst x < length (po_roots po) \<and> snd x = ?zs ! fst x" for x
    using assms by (auto simp: in_set_enumerate_eq)
  then have e: "set (enumerate 0 ?zs) = {(j, po_roots po ! j, po_canonicalRoots po ! j) |j. j < length (po_roots po)}"
    using at by (auto simp: set_eq_iff)
  show ?thesis by (auto simp: matches_def e split: if_splits)
qed

lemma longest_first_hd:
  assumes "longest_first ms = m # rest"
  shows "m \<in> set ms" "\<And>x. x \<in> set ms \<Longrightarrow> length (snd x) \<le> length (snd m)"
proof -
  have s: "set (longest_first ms) = set ms" by (simp add: longest_first_def)
  show "m \<in> set ms" using s assms by (metis list.set_intros(1))
  have "sorted (map (\<lambda>(i, base). - int (length base)) (longest_first ms))" by (simp add: longest_first_def)
  then have "\<And>x. x \<in> set (longest_first ms) \<Longrightarrow> length (snd x) \<le> length (snd m)"
    by (auto simp: assms split: prod.splits)
  then show "\<And>x. x \<in> set ms \<Longrightarrow> length (snd x) \<le> length (snd m)" using s by blast
qed

lemma longest_first_Nil: "longest_first ms = [] \<longleftrightarrow> ms = []"
  by (simp add: longest_first_def flip: length_0_conv)

section \<open>Property\<close>

definition bases :: "policy \<Rightarrow> string set" where
  "bases po = set (po_roots po) \<union> set (po_canonicalRoots po)"

lemma bases_match:
  assumes "sound_policy po"
  shows "(\<exists>i. (i, base) \<in> set (matches po r)) \<longleftrightarrow> base \<in> bases po \<and> isWithin r base"
proof -
  have len: "length (po_canonicalRoots po) = length (po_roots po)" using assms by (simp add: sound_policy_def)
  have "base \<in> bases po \<longleftrightarrow> (\<exists>i < length (po_roots po). base \<in> {po_roots po ! i, po_canonicalRoots po ! i})"
    unfolding bases_def Un_iff in_set_conv_nth [of base] len by auto
  then show ?thesis unfolding matches_member [OF len] by blast
qed

lemma bases_normal: "sound_policy po \<Longrightarrow> base \<in> bases po \<Longrightarrow> normal_path base"
  by (auto simp: sound_policy_def bases_def list_all_iff)

lemma within_parts:
  assumes "list_all proper_part ps" "list_all proper_part rs"
  shows "isWithin (root_path rs) (root_path ps) \<longleftrightarrow> rs = ps \<or> ps \<noteq> [] \<and> (\<exists>qs. qs \<noteq> [] \<and> rs = ps @ qs)"
  using strictly_below [OF assms] root_path_inj [OF assms(2,1)] by (auto simp: isWithin_def)

text \<open>The chosen root, in parts: its index, and what is left of the path below it.\<close>

lemma chosen_root:
  assumes sound: "sound_policy po" and rs: "list_all proper_part rs"
    and ch: "longest_first (matches po (root_path rs)) = (i, base) # rest"
  shows "\<exists>ps qs. i < length (po_roots po) \<and> base \<in> {po_roots po ! i, po_canonicalRoots po ! i} \<and>
    base = root_path ps \<and> list_all proper_part ps \<and> rs = ps @ qs \<and> (qs \<noteq> [] \<longrightarrow> ps \<noteq> []) \<and>
    (qs = [] \<longleftrightarrow> root_path rs \<in> bases po)"
proof -
  have len: "length (po_canonicalRoots po) = length (po_roots po)" using sound by (simp add: sound_policy_def)
  have m: "i < length (po_roots po)" "base \<in> {po_roots po ! i, po_canonicalRoots po ! i}" "isWithin (root_path rs) base"
    using longest_first_hd(1) [OF ch] matches_member [OF len] by blast+
  have b: "base \<in> bases po" using m(1,2) len by (auto simp: bases_def)
  obtain ps where ps: "list_all proper_part ps" "base = root_path ps"
    using bases_normal [OF sound b] by (auto simp: normal_path_def)
  obtain qs where qs: "rs = ps @ qs" "qs \<noteq> [] \<longrightarrow> ps \<noteq> []"
    using m(3) within_parts [OF ps(1) rs] ps(2) by auto
  have "qs = []" if inb: "root_path rs \<in> bases po"
  proof (rule ccontr)
    assume ne: "qs \<noteq> []"
    have self: "isWithin (root_path rs) (root_path rs)" by (simp add: isWithin_def)
    then obtain j where j: "(j, root_path rs) \<in> set (matches po (root_path rs))" using iffD2 [OF bases_match [OF sound] conjI [OF inb self]] by (elim exE)
    have "length (root_path rs) \<le> length base" using longest_first_hd(2) [OF ch j] by simp
    then show False using qs ne by (simp add: ps(2) root_path_append)
  qed
  moreover have "root_path rs \<in> bases po" if "qs = []" using that b ps(2) qs(1) by simp
  ultimately have "qs = [] \<longleftrightarrow> root_path rs \<in> bases po" by blast
  then show ?thesis by (intro exI [of _ ps] exI [of _ qs] conjI m(1,2) ps qs)
qed

lemma mutation_cases:
  assumes sound: "sound_policy po" and ne: "c \<noteq> []" and rs: "rs = parts_of (if absolute c then c else hd (po_roots po) @ ''/'' @ c)"
  shows "mutation po (Some c) =
    (case longest_first (matches po (root_path rs)) of
       [] \<Rightarrow> Inl path_not_allowed
     | (i, base) # _ \<Rightarrow>
         let qs = drop (length (parts_of base)) rs in
         if qs = [] then Inl (bridgeError ''protected_workspace_root'' 403)
         else Inr \<lparr>mu_root = po_canonicalRoots po ! i, mu_relative = join_with ''/'' qs, mu_segments = qs,
                   mu_displayPath = path_join (po_canonicalRoots po ! i) qs\<rparr>)"
proof -
  have proper: "list_all proper_part rs" by (simp add: rs parts_proper)
  have res: "path_resolve (hd (po_roots po)) c = root_path rs"
    by (simp add: path_resolve_def normal_root_path rs)
  show ?thesis
  proof (cases "longest_first (matches po (root_path rs))")
    case Nil
    then show ?thesis using ne by (simp add: mutation_def or_default_string_def res Let_def)
  next
    case (Cons m rest)
    obtain i base where m: "m = (i, base)" by (cases m)
    obtain ps qs where b: "base = root_path ps" "list_all proper_part ps" and q: "rs = ps @ qs" "qs \<noteq> [] \<longrightarrow> ps \<noteq> []"
      using chosen_root [OF sound proper Cons [unfolded m]] by blast
    have pq: "drop (length (parts_of base)) rs = qs" using b q by simp
    have pqs: "list_all proper_part qs" using proper q by simp
    show ?thesis
    proof (cases "qs = []")
      case True
      then have "drop (length base + 1) (root_path rs) = []" using b q by simp
      moreover have "drop (length (parts_of base)) rs = []" using pq True by simp
      ultimately show ?thesis using ne by (simp add: mutation_def or_default_string_def res Cons m Let_def)
    next
      case False
      have rel: "drop (length base + 1) (root_path rs) = join_with ''/'' qs"
        using below_relative [of ps qs] False q b by simp
      have segs: "split_on CHR ''/'' (join_with ''/'' qs) = qs"
        using split_on_join [OF False] proper_slash_free [OF pqs] by blast
      have nonempty: "join_with ''/'' qs \<noteq> []" "join_with ''/'' qs \<noteq> ''.''"
      proof -
        obtain q0 q' where c: "qs = q0 # q'" using False by (cases qs) auto
        have "proper_part q0" using pqs c by simp
        then show "join_with ''/'' qs \<noteq> []" "join_with ''/'' qs \<noteq> ''.''"
          using segs c by (cases q', auto simp: proper_part_def)+
      qed
      have clean: "\<not> list_ex (\<lambda>s. s = [] \<or> s = ''.'' \<or> s = ''..'') qs"
        using pqs by (auto simp: list_ex_iff list_all_iff proper_part_def)
      show ?thesis
        unfolding mutation_def or_default_string_def option.sel option.case if_not_P [OF ne] Let_def res Cons m list.case
          prod.case rel segs pq
        using False nonempty clean by simp
    qed
  qed
qed

text \<open>What \<open>mutation\<close> answers, in parts.\<close>

lemma mutation_result:
  assumes sound: "sound_policy po" and ne: "c \<noteq> []" and rs: "rs = parts_of (if absolute c then c else hd (po_roots po) @ ''/'' @ c)"
  shows "(\<not> (\<exists>base \<in> bases po. isWithin (root_path rs) base) \<and> mutation po (Some c) = Inl path_not_allowed) \<or>
    (root_path rs \<in> bases po \<and> mutation po (Some c) = Inl (bridgeError ''protected_workspace_root'' 403)) \<or>
    (root_path rs \<notin> bases po \<and> (\<exists>i ps qs. i < length (po_roots po) \<and> root_path ps \<in> {po_roots po ! i, po_canonicalRoots po ! i} \<and>
       list_all proper_part ps \<and> ps \<noteq> [] \<and> qs \<noteq> [] \<and> rs = ps @ qs \<and>
       mutation po (Some c) = Inr \<lparr>mu_root = po_canonicalRoots po ! i, mu_relative = join_with ''/'' qs, mu_segments = qs,
         mu_displayPath = path_join (po_canonicalRoots po ! i) qs\<rparr>))"
proof (cases "longest_first (matches po (root_path rs))")
  case Nil
  then have "matches po (root_path rs) = []" by (simp add: longest_first_Nil)
  then have "\<not> (\<exists>base \<in> bases po. isWithin (root_path rs) base)"
    using bases_match [OF sound, of _ "root_path rs"] by (metis list.set(1) empty_iff)
  then show ?thesis using mutation_cases [OF assms] Nil by simp
next
  case (Cons m rest)
  obtain i base where m: "m = (i, base)" by (cases m)
  have proper: "list_all proper_part rs" by (simp add: rs parts_proper)
  obtain ps qs where c: "i < length (po_roots po)" "base \<in> {po_roots po ! i, po_canonicalRoots po ! i}" "base = root_path ps"
    "list_all proper_part ps" "rs = ps @ qs" "qs \<noteq> [] \<longrightarrow> ps \<noteq> []" "qs = [] \<longleftrightarrow> root_path rs \<in> bases po"
    using chosen_root [OF sound proper Cons [unfolded m]] by blast
  have d: "drop (length (parts_of base)) rs = qs" using c(3,4,5) by simp
  have run: "mutation po (Some c) = (if qs = [] then Inl (bridgeError ''protected_workspace_root'' 403)
      else Inr \<lparr>mu_root = po_canonicalRoots po ! i, mu_relative = join_with ''/'' qs, mu_segments = qs,
                mu_displayPath = path_join (po_canonicalRoots po ! i) qs\<rparr>)"
    unfolding mutation_cases [OF assms] Cons m list.case prod.case Let_def d ..
  show ?thesis
  proof (cases "qs = []")
    case True
    then show ?thesis using c(7) run by simp
  next
    case False
    have "root_path rs \<notin> bases po" "ps \<noteq> []" using c(6,7) False by simp_all
    moreover have "root_path ps \<in> {po_roots po ! i, po_canonicalRoots po ! i}" using c(2) unfolding c(3) .
    moreover have "mutation po (Some c) = Inr \<lparr>mu_root = po_canonicalRoots po ! i, mu_relative = join_with ''/'' qs, mu_segments = qs,
                mu_displayPath = path_join (po_canonicalRoots po ! i) qs\<rparr>" using run False by simp
    ultimately show ?thesis using c(1,4,5) False by blast
  qed
qed

text \<open>
  C29. A policy that construction accepted lets a mutation through exactly when the path,
  worked out against the first root, lies strictly inside a configured root or its real path
  and is no root itself. The accepted reference names the real path of that root and the rest
  of the path below it, in parts free of dots and slashes; its display path is the two put
  together. A path resolved for reading stays within a real root.
\<close>

theorem mutation_lands_below_root:
  assumes "newPathPolicy pr realpath lstat roots sharing = Inr po" and "\<And>r d. realpath r = Some d \<Longrightarrow> normal_path d" and "c \<noteq> []"
  shows "let r = path_resolve (hd (po_roots po)) c in
    ((\<exists>m. mutation po (Some c) = Inr m) \<longleftrightarrow> r \<notin> bases po \<and> (\<exists>base \<in> bases po. starts_with r (base @ ''/''))) \<and>
    (\<forall>m. mutation po (Some c) = Inr m \<longrightarrow>
      (\<exists>i < length (po_roots po). mu_root m = po_canonicalRoots po ! i \<and>
        (r = po_roots po ! i @ ''/'' @ mu_relative m \<or> r = po_canonicalRoots po ! i @ ''/'' @ mu_relative m)) \<and>
      mu_segments m \<noteq> [] \<and> list_all proper_part (mu_segments m) \<and> mu_relative m = join_with ''/'' (mu_segments m) \<and>
      (mu_root m \<noteq> ''/'' \<longrightarrow> mu_displayPath m = mu_root m @ ''/'' @ mu_relative m)) \<and>
    (\<forall>exists real p. resolve po exists real (Some c) = Inr p \<longrightarrow> (\<exists>root \<in> set (po_canonicalRoots po). isWithin p root))"
proof -
  define rs where rs: "rs = parts_of (if absolute c then c else hd (po_roots po) @ ''/'' @ c)"
  have sound: "sound_policy po" using newPathPolicy_sound [OF assms(1)] assms(2) by blast
  have r: "path_resolve (hd (po_roots po)) c = root_path rs" by (simp add: path_resolve_def normal_root_path rs)
  have proper: "list_all proper_part rs" by (simp add: rs parts_proper)
  have len: "length (po_canonicalRoots po) = length (po_roots po)" using sound by (simp add: sound_policy_def)
  have read: "\<exists>root \<in> set (po_canonicalRoots po). isWithin p root" if "resolve po exists real (Some c) = Inr p" for exists real p
    using that by (auto simp: resolve_def Let_def list_ex_iff split: if_splits)
  consider (out) "\<not> (\<exists>base \<in> bases po. isWithin (root_path rs) base)" "mutation po (Some c) = Inl path_not_allowed"
    | (root) "root_path rs \<in> bases po" "mutation po (Some c) = Inl (bridgeError ''protected_workspace_root'' 403)"
    | (ok) i ps qs where "root_path rs \<notin> bases po" "i < length (po_roots po)" "root_path ps \<in> {po_roots po ! i, po_canonicalRoots po ! i}"
      "list_all proper_part ps" "ps \<noteq> []" "qs \<noteq> []" "rs = ps @ qs"
      "mutation po (Some c) = Inr \<lparr>mu_root = po_canonicalRoots po ! i, mu_relative = join_with ''/'' qs, mu_segments = qs,
         mu_displayPath = path_join (po_canonicalRoots po ! i) qs\<rparr>"
    using mutation_result [OF sound assms(3) rs] by blast
  then show ?thesis
  proof cases
    case out
    then have "\<not> (\<exists>base \<in> bases po. starts_with (root_path rs) (base @ ''/''))" by (auto simp: isWithin_def)
    then show ?thesis unfolding Let_def r using out(2) read by auto
  next
    case root
    then show ?thesis unfolding Let_def r using read by auto
  next
    case ok
    have shape: "root_path rs = root_path ps @ ''/'' @ join_with ''/'' qs" using root_path_append [OF ok(5,6)] ok(7) by simp
    have base: "root_path ps \<in> bases po" using ok(2,3) len by (auto simp: bases_def)
    have below: "\<exists>base \<in> bases po. starts_with (root_path rs) (base @ ''/'')"
      using base shape by (auto simp: starts_with_append)
    have qs: "list_all proper_part qs" using proper ok(7) by simp
    have display: "path_join (po_canonicalRoots po ! i) qs = po_canonicalRoots po ! i @ ''/'' @ join_with ''/'' qs"
      if "po_canonicalRoots po ! i \<noteq> ''/''"
    proof -
      have "po_canonicalRoots po ! i \<in> bases po" using ok(2) len by (simp add: bases_def)
      then obtain cs where cs: "list_all proper_part cs" "po_canonicalRoots po ! i = root_path cs"
        using bases_normal [OF sound] by (auto simp: normal_path_def)
      then have "cs \<noteq> []" using that by (auto simp: root_path_def)
      then show ?thesis using path_join_root [OF cs(1) _ qs ok(6)] root_path_append ok(6) cs(2) by simp
    qed
    have which: "root_path rs = po_roots po ! i @ ''/'' @ join_with ''/'' qs \<or>
        root_path rs = po_canonicalRoots po ! i @ ''/'' @ join_with ''/'' qs"
      using shape ok(3) by auto
    show ?thesis unfolding Let_def r ok(8)
      using ok(1,2) below qs which display read ok(6) by (auto intro!: exI [of _ i])
  qed
qed

definition ex_process :: process where
  "ex_process = \<lparr>pr_cwd = ''/'', pr_linux = True, pr_umask = 7, pr_groups = [1001]\<rparr>"

definition ex_realpath :: "string \<Rightarrow> string option" where
  "ex_realpath r = (if r = ''/home/u'' then Some ''/var/home/u'' else None)"

definition ex_policy :: policy where
  "ex_policy = \<lparr>po_roots = [''/home/u''], po_canonicalRoots = [''/var/home/u''], po_shared = False, po_sharedGroups = []\<rparr>"

theorem mutation_lands_below_root_witness:
  "mutation ex_policy (Some ''site/./x/../index.html'') = Inr \<lparr>mu_root = ''/var/home/u'', mu_relative = ''site/index.html'',
     mu_segments = [''site'', ''index.html''], mu_displayPath = ''/var/home/u/site/index.html''\<rparr> \<and>
   \<not> (\<exists>m. mutation ex_policy (Some ''../../etc/passwd'') = Inr m)"
proof
  show "mutation ex_policy (Some ''site/./x/../index.html'') = Inr \<lparr>mu_root = ''/var/home/u'', mu_relative = ''site/index.html'',
     mu_segments = [''site'', ''index.html''], mu_displayPath = ''/var/home/u/site/index.html''\<rparr>" by code_simp
  have new: "newPathPolicy ex_process ex_realpath (\<lambda>r. \<lparr>rs_isDirectory = True, rs_gid = 0, rs_mode = 0\<rparr>) [''/home/u/''] ''private''
      = Inr ex_policy" by code_simp
  have "''/var/home/u'' = root_path [''var'', ''home'', ''u''] \<and> list_all proper_part [''var'', ''home'', ''u'']" by code_simp
  then have "normal_path ''/var/home/u''" unfolding normal_path_def by blast
  then have real: "normal_path d" if "ex_realpath r = Some d" for r d
    using that by (auto simp: ex_realpath_def split: if_splits)
  have "\<not> (\<exists>base \<in> bases ex_policy. starts_with (path_resolve (hd (po_roots ex_policy)) ''../../etc/passwd'') (base @ ''/''))"
    by code_simp
  moreover have "''../../etc/passwd'' \<noteq> []" by simp
  note mutation_lands_below_root [OF new _ this, unfolded Let_def, THEN conjunct1]
  ultimately show "\<not> (\<exists>m. mutation ex_policy (Some ''../../etc/passwd'') = Inr m)"
    using real by blast
qed

end
