(* ===== verification/FileLogic.thy ===== *)
theory FileLogic
  imports Files PathPolicy_Props
begin

text \<open>
  Reasoning about file actions: conditions before, after a result and after an error, over
  the tree; and how each system call changes names and contents.
\<close>

section \<open>Triples\<close>

text \<open>Nobody else changes the tree; calls may still fail.\<close>

definition quiet :: "schedule \<Rightarrow> bool" where
  "quiet W \<longleftrightarrow> (\<forall>k. fst (W k) = (\<lambda>f. f))"

definition triple :: "(fs \<Rightarrow> bool) \<Rightarrow> 'a action \<Rightarrow> ('a \<Rightarrow> fs \<Rightarrow> bool) \<Rightarrow> (bridge_exc \<Rightarrow> fs \<Rightarrow> bool) \<Rightarrow> bool" where
  "triple P m Q E \<longleftrightarrow> (\<forall>s s' r. P (os_fs s) \<longrightarrow> m s = (s', r) \<longrightarrow>
     (\<forall>v. r = Inr v \<longrightarrow> Q v (os_fs s')) \<and> (\<forall>e. r = Inl e \<longrightarrow> E e (os_fs s')))"

lemma tripleI:
  "(\<And>s s' r. P (os_fs s) \<Longrightarrow> m s = (s', r) \<Longrightarrow> (\<forall>v. r = Inr v \<longrightarrow> Q v (os_fs s')) \<and> (\<forall>e. r = Inl e \<longrightarrow> E e (os_fs s'))) \<Longrightarrow> triple P m Q E"
  by (simp add: triple_def)

lemma tripleD:
  assumes "triple P m Q E" "P (os_fs s)" "m s = (s', r)"
  shows "\<And>v. r = Inr v \<Longrightarrow> Q v (os_fs s')" "\<And>e. r = Inl e \<Longrightarrow> E e (os_fs s')"
  using assms unfolding triple_def by blast+

lemma triple_weaken:
  assumes "triple P m Q E" "\<And>f. P' f \<Longrightarrow> P f" "\<And>v f. Q v f \<Longrightarrow> Q' v f" "\<And>e f. E e f \<Longrightarrow> E' e f"
  shows "triple P' m Q' E'"
  using assms unfolding triple_def by blast

lemma triple_return: "(\<And>f. P f \<Longrightarrow> Q v f) \<Longrightarrow> triple P (return v) Q E"
  by (auto simp: triple_def return_def)

lemma triple_skip: "triple P (return v) (\<lambda>v. P) E"
  by (simp add: triple_return)

lemma triple_throw: "(\<And>f. P f \<Longrightarrow> E e f) \<Longrightarrow> triple P (throw e) Q E"
  by (auto simp: triple_def throw_def)

lemma triple_result:
  "(\<And>f v. P f \<Longrightarrow> r = Inr v \<Longrightarrow> Q v f) \<Longrightarrow> (\<And>f e. P f \<Longrightarrow> r = Inl e \<Longrightarrow> E e f) \<Longrightarrow> triple P (from_result r) Q E"
  by (auto simp: triple_def from_result_def)

lemma triple_if:
  "(b \<Longrightarrow> triple P m Q E) \<Longrightarrow> (\<not> b \<Longrightarrow> triple P m' Q E) \<Longrightarrow> triple P (if b then m else m') Q E"
  by simp

lemma triple_prod: "(\<And>a b. v = (a, b) \<Longrightarrow> triple P (k a b) Q E) \<Longrightarrow> triple P (case v of (a, b) \<Rightarrow> k a b) Q E"
  by (cases v) simp

lemma triple_andThen:
  assumes "triple P m R E" "\<And>v. triple (R v) (k v) Q E"
  shows "triple P (andThen m k) Q E"
proof (rule tripleI)
  fix s s' r
  assume p: "P (os_fs s)" and run: "andThen m k s = (s', r)"
  obtain s1 r1 where m: "m s = (s1, r1)" by (cases "m s")
  show "(\<forall>v. r = Inr v \<longrightarrow> Q v (os_fs s')) \<and> (\<forall>e. r = Inl e \<longrightarrow> E e (os_fs s'))"
  proof (cases r1)
    case (Inl e)
    then show ?thesis using tripleD(2) [OF assms(1) p m] run m by (auto simp: andThen_def)
  next
    case (Inr v)
    then have "R v (os_fs s1)" by (rule tripleD(1) [OF assms(1) p m])
    moreover have "k v s1 = (s', r)" using run m Inr by (simp add: andThen_def)
    ultimately show ?thesis using tripleD [OF assms(2)] by blast
  qed
qed

lemma triple_catching:
  assumes "triple P m Q R" "\<And>e. triple (R e) (h e) Q E"
  shows "triple P (catching m h) Q E"
proof (rule tripleI)
  fix s s' r
  assume p: "P (os_fs s)" and run: "catching m h s = (s', r)"
  obtain s1 r1 where m: "m s = (s1, r1)" by (cases "m s")
  show "(\<forall>v. r = Inr v \<longrightarrow> Q v (os_fs s')) \<and> (\<forall>e. r = Inl e \<longrightarrow> E e (os_fs s'))"
  proof (cases r1)
    case (Inr v)
    then show ?thesis using tripleD(1) [OF assms(1) p m] run m by (auto simp: catching_def)
  next
    case (Inl e)
    then have "R e (os_fs s1)" by (rule tripleD(2) [OF assms(1) p m])
    moreover have "h e s1 = (s', r)" using run m Inl by (simp add: catching_def)
    ultimately show ?thesis using tripleD [OF assms(2)] by blast
  qed
qed

lemma triple_ignoring:
  assumes "triple P m (\<lambda>v. Q) (\<lambda>e. Q)"
  shows "triple P (ignoring m) (\<lambda>v. Q) E"
proof (rule tripleI)
  fix s s' r
  assume p: "P (os_fs s)" and run: "ignoring m s = (s', r)"
  obtain s1 r1 where m: "m s = (s1, r1)" by (cases "m s")
  have "Q (os_fs s1)" using tripleD [OF assms p m] by (cases r1) auto
  then show "(\<forall>v. r = Inr v \<longrightarrow> Q (os_fs s')) \<and> (\<forall>e. r = Inl e \<longrightarrow> E e (os_fs s'))"
    using run m by (auto simp: ignoring_def)
qed

lemma triple_syscall:
  assumes "quiet W" "\<And>f f' v. P f \<Longrightarrow> c f = (f', Inr v) \<Longrightarrow> Q v f'" "\<And>f f' e. P f \<Longrightarrow> c f = (f', Inl e) \<Longrightarrow> E e f'"
    "\<And>f e. P f \<Longrightarrow> E (Failure e) f"
  shows "triple P (syscall W c) Q E"
proof (rule tripleI)
  fix s s' r
  assume p: "P (os_fs s)" and run: "syscall W c s = (s', r)"
  define fault where "fault = snd (W (os_calls s))"
  have w: "W (os_calls s) = (\<lambda>f. f, fault)" using assms(1) by (simp add: quiet_def fault_def prod_eq_iff)
  obtain f1 r1 where c: "c (os_fs s) = (f1, r1)" by (cases "c (os_fs s)")
  show "(\<forall>v. r = Inr v \<longrightarrow> Q v (os_fs s')) \<and> (\<forall>e. r = Inl e \<longrightarrow> E e (os_fs s'))"
  proof (cases fault)
    case None
    then have "os_fs s' = f1" "r = r1" using run w c by (clarsimp simp: syscall_def)+
    then show ?thesis using assms(2,3) [OF p, of f1] c by (cases r1) simp_all
  next
    case (Some e)
    then have "os_fs s' = os_fs s" "r = Inl (Failure e)" using run w by (auto simp: syscall_def)
    then show ?thesis using assms(4) [OF p] by simp
  qed
qed

text \<open>One tree at a time.\<close>

lemma triple_pointwise: "(\<And>g. P g \<Longrightarrow> triple (\<lambda>h. h = g) m Q E) \<Longrightarrow> triple P m Q E"
  unfolding triple_def by blast

text \<open>A call that only looks.\<close>

lemma triple_look:
  assumes "quiet W" "\<And>f. fst (c f) = f"
  shows "triple P (syscall W c) (\<lambda>v g. P g \<and> c g = (g, Inr v)) (\<lambda>e. P)"
proof (rule triple_syscall [OF assms(1)])
  fix f f' v
  assume "P f" "c f = (f', Inr v)"
  then show "P f' \<and> c f' = (f', Inr v)" using assms(2) [of f] by simp
next
  fix f f' e
  assume "P f" "c f = (f', Inl e :: bridge_exc + 'a)"
  then show "P f'" using assms(2) [of f] by simp
qed

lemma looks [simp]:
  "fst (os_stat_dir d f) = f" "fst (os_realpath d f) = f" "fst (os_lstat d n f) = f" "fst (os_open d n f) = f"
  "fst (os_open_dir d n f) = f" "fst (os_read i f) = f"
  by (simp_all add: os_stat_dir_def os_realpath_def os_lstat_def os_open_def os_open_dir_def os_read_def)

section \<open>Opening directories changes nothing\<close>

lemma triple_keeps:
  assumes "quiet W" "\<And>f. fst (c f) = f"
  shows "triple P (syscall W c) (\<lambda>v. P) (\<lambda>e. P)"
  by (rule triple_weaken [OF triple_look [OF assms]]) auto

definition pinned :: "fs \<Rightarrow> ino \<Rightarrow> string \<Rightarrow> bool" where
  "pinned f d root \<longleftrightarrow> (\<exists>p. path_of f d = Some p \<and> isWithin p root)"

lemma keeps_pin: "quiet W \<Longrightarrow> triple P (assertPinnedDirectory W d root) (\<lambda>v g. P g \<and> pinned g d root) (\<lambda>e. P)"
  unfolding assertPinnedDirectory_def
  apply (rule triple_andThen [OF triple_keeps], assumption, simp)
  apply (rule triple_if, rule triple_throw, assumption)
  apply (rule triple_andThen [OF triple_look], assumption, simp)
  apply (rule triple_if, rule triple_throw, simp, rule triple_return)
  apply (auto simp: pinned_def os_realpath_def split: option.splits)
  done

lemma keeps_shared: "quiet W \<Longrightarrow> triple P (assertSharedUploadParent W cfg d root) (\<lambda>v. P) (\<lambda>e. P)"
  unfolding assertSharedUploadParent_def
  apply (rule triple_if, rule triple_return, assumption)
  apply (rule triple_andThen [OF triple_keeps], assumption, simp)
  apply (rule triple_prod, rule triple_if, rule triple_throw, assumption)
  apply (rule triple_andThen [OF triple_catching [OF triple_keeps]], assumption, simp, rule triple_throw, assumption)
  apply (rule triple_prod, rule triple_if, rule triple_throw, assumption, rule triple_return, assumption)
  done

lemma keeps_reserve: "quiet W \<Longrightarrow> triple P (assertStorageReserve W cfg n) (\<lambda>v. P) (\<lambda>e. P)"
  unfolding assertStorageReserve_def
  by (intro triple_if triple_return triple_andThen [OF triple_keeps] triple_throw) simp_all

lemma keeps_descend: "quiet W \<Longrightarrow> triple P (descend W cfg False root seg d) (\<lambda>v g. P g \<and> pinned g v root) (\<lambda>e. P)"
  unfolding descend_def link_refused_def if_False
  apply (rule triple_andThen [where R = "\<lambda>v. P"], rule triple_return, assumption)
  apply (rule triple_andThen [OF triple_catching [OF triple_keeps]], assumption, simp, rule triple_throw, assumption)
  apply (rule triple_andThen [OF keeps_pin], assumption, rule triple_return, assumption)
  done

lemma keeps_descend_all:
  "quiet W \<Longrightarrow> triple (\<lambda>g. P g \<and> pinned g d root) (descend_all W cfg False root ss d) (\<lambda>v g. P g \<and> pinned g v root) (\<lambda>e. P)"
proof (induction ss arbitrary: d)
  case Nil
  then show ?case by (simp add: triple_return)
next
  case (Cons s ss)
  show ?case unfolding descend_all.simps
    by (rule triple_andThen [OF triple_weaken [OF keeps_descend [OF Cons.prems]] Cons.IH [OF Cons.prems]]) auto
qed

text \<open>The held directory lies within the root, and the entry is the last part of the path.\<close>

lemma keeps_open:
  "quiet W \<Longrightarrow> triple P (openMutationParent W cfg False t)
     (\<lambda>v g. P g \<and> pinned g (fst v) (mu_root t) \<and> snd v = last (mu_segments t)) (\<lambda>e. P)"
  unfolding openMutationParent_def if_False
  apply (rule triple_andThen [OF triple_keeps], assumption, simp)
  apply (rule triple_andThen [OF keeps_pin], assumption)
  apply (rule triple_andThen [OF keeps_descend_all], assumption)
  apply (rule triple_andThen [OF triple_skip])
  apply (rule triple_return, simp)
  done

section \<open>Names and contents\<close>

definition content :: "fs \<Rightarrow> ino \<Rightarrow> string option" where
  "content f i = (case fs_nodes f i of Some (FileNode c) \<Rightarrow> Some c | _ \<Rightarrow> None)"

lemma entry_set_entries:
  "entry (set_entries d es f) x m = (if x = d \<and> is_dir f d then map_of es m else entry f x m)"
  by (auto simp: set_entries_def entry_def entries_def is_dir_def split: option.splits node.splits)

lemma map_of_remove: "map_of (filter (\<lambda>(m, j). m \<noteq> n) es) x = (if x = n then None else map_of es x)"
  by (induction es) auto

lemma entry_is_dir: "entry f d n = Some i \<Longrightarrow> is_dir f d"
  by (auto simp: entry_def entries_def is_dir_def split: option.splits node.splits)

lemma entry_add: "is_dir f d \<Longrightarrow> entry (add_entry d n i f) x m = (if x = d \<and> m = n then Some i else entry f x m)"
  by (auto simp: add_entry_def entry_set_entries map_of_remove) (simp add: entry_def)

lemma entry_del: "entry (del_entry d n f) x m = (if x = d \<and> m = n then None else entry f x m)"
proof (cases "is_dir f d")
  case True
  then show ?thesis by (auto simp: del_entry_def entry_set_entries map_of_remove) (simp add: entry_def)
next
  case False
  then have "entry f d n = None" using entry_is_dir by (cases "entry f d n") auto
  then show ?thesis using False by (auto simp: del_entry_def entry_set_entries)
qed

lemma is_dir_set_entries [simp]: "is_dir (set_entries d es f) x = is_dir f x"
  by (auto simp: set_entries_def is_dir_def split: option.splits node.splits)

lemma content_set_entries [simp]: "content (set_entries d es f) x = content f x"
  by (auto simp: set_entries_def content_def split: option.splits node.splits)

lemma next_set_entries [simp]: "fs_next (set_entries d es f) = fs_next f"
  by (simp add: set_entries_def split: option.split node.split)

lemma entry_ops_simps [simp]:
  "is_dir (add_entry d n i f) x = is_dir f x" "is_dir (del_entry d n f) x = is_dir f x"
  "content (add_entry d n i f) x = content f x" "content (del_entry d n f) x = content f x"
  "fs_next (add_entry d n i f) = fs_next f" "fs_next (del_entry d n f) = fs_next f"
  by (simp_all add: add_entry_def del_entry_def)

lemma content_not_dir: "content f i = Some c \<Longrightarrow> \<not> is_dir f i"
  by (auto simp: content_def is_dir_def split: option.splits node.splits)

lemma lstat_file: "os_lstat d n f = (f, Inr KFile) \<longleftrightarrow> (\<exists>i. entry f d n = Some i \<and> content f i \<noteq> None)"
  by (auto simp: os_lstat_def content_def split: option.splits node.splits)

end
