(* ===== verification/Files_Props.thy ===== *)
theory Files_Props
  imports FileLogic
begin

text \<open>
  What moves, copies and uploads do to names and contents when calls may fail at any point.
\<close>

section \<open>Moving\<close>

text \<open>
  The file \<open>i\<close> named \<open>(d, n)\<close> now has the name \<open>(d', n')\<close>, and no other name is touched. When
  both names already named the same file and overwriting was asked for, nothing happens.
\<close>

definition moved :: "bool \<Rightarrow> ino \<Rightarrow> string \<Rightarrow> ino \<Rightarrow> string \<Rightarrow> fs \<Rightarrow> fs \<Rightarrow> bool" where
  "moved overwrite d n d' n' f g \<longleftrightarrow> (\<exists>i. entry f d n = Some i \<and> content f i \<noteq> None \<and>
     (if overwrite \<and> entry f d' n' = Some i then g = f
      else (overwrite \<or> entry f d' n' = None) \<and>
        (\<forall>x m. entry g x m = (if x = d' \<and> m = n' then Some i else if x = d \<and> m = n then None else entry f x m))))"

text \<open>Every name and every content is still there.\<close>

definition nothing_lost :: "fs \<Rightarrow> fs \<Rightarrow> bool" where
  "nothing_lost f g \<longleftrightarrow> (\<forall>x m i. entry f x m = Some i \<longrightarrow> entry g x m = Some i)"

definition same_contents :: "fs \<Rightarrow> fs \<Rightarrow> bool" where
  "same_contents f g \<longleftrightarrow> (\<forall>i c. content f i = Some c \<longrightarrow> content g i = Some c)"

lemma unchanged [simp]: "nothing_lost f f" "same_contents f f"
  by (simp_all add: nothing_lost_def same_contents_def)

lemma rename_file:
  assumes "entry f d n = Some i" "content f i \<noteq> None" "os_rename d n d' n' f = (g, Inr ())"
  shows "moved True d n d' n' f g" "same_contents f g"
proof -
  have nd: "\<not> is_dir f i" using assms(2) content_not_dir by blast
  show "moved True d n d' n' f g" "same_contents f g"
    using assms nd entry_is_dir [OF assms(1)]
    by (auto simp: os_rename_def moved_def same_contents_def entry_add entry_del Let_def split: option.splits if_splits)
qed

lemma rename_error: "os_rename d n d' n' f = (g, Inl e) \<Longrightarrow> g = f"
  by (auto simp: os_rename_def Let_def split: option.splits if_splits)

lemma triple_replacing:
  assumes "quiet W" "entry f d n = Some i" "content f i \<noteq> None"
  shows "triple (\<lambda>g. g = f) (move_replacing W d n d' n')
    (\<lambda>v g. moved True d n d' n' f g \<and> same_contents f g) (\<lambda>e g. g = f)"
  unfolding move_replacing_def
  apply (rule triple_andThen [where R = "\<lambda>v g. g = f"])
   apply (rule triple_catching [where R = "\<lambda>e g. g = f"])
    apply (rule triple_andThen [OF triple_keeps [OF assms(1)]], simp)
    apply (rule triple_if, rule triple_throw, assumption, rule triple_return, assumption)
   apply (rule triple_if, rule triple_throw, assumption, rule triple_return, assumption)
  apply (rule triple_syscall [OF assms(1)])
  apply (auto simp: rename_file [OF assms(2,3)] dest: rename_error)
  done

lemma triple_linking:
  assumes "quiet W" "entry f d n = Some i" "content f i \<noteq> None"
  shows "triple (\<lambda>g. g = f) (move_linking W d n d' n')
    (\<lambda>v g. moved False d n d' n' f g \<and> same_contents f g) (\<lambda>e g. nothing_lost f g \<and> same_contents f g)"
proof -
  let ?linked = "\<lambda>g. entry f d' n' = None \<and> is_dir f d' \<and> g = add_entry d' n' i f"
  let ?safe = "\<lambda>g. nothing_lost f g \<and> same_contents f g"
  have nd: "\<not> is_dir f i" using assms(3) content_not_dir by blast
  have l: "triple (\<lambda>g. g = f) (syscall W (os_link d n d' n')) (\<lambda>v. ?linked) (\<lambda>e g. g = f)"
    by (rule triple_syscall [OF assms(1)]) (use assms(2) nd in \<open>auto simp: os_link_def split: if_splits option.splits\<close>)
  have names: "entry g x m = (if x = d' \<and> m = n' then Some i else entry f x m)" if "?linked g" for g x m
    using that by (simp add: entry_add)
  have contents: "content g x = content f x" if "?linked g" for g x using that by simp
  have rolled_back: "?safe g'" if "?linked g" "os_unlink d' n' g = (g', r)" for g g' r
    using that names [OF that(1)] contents [OF that(1)]
    by (auto simp: os_unlink_def nothing_lost_def same_contents_def entry_del split: option.splits if_splits)
  have safe: "?safe g" if "?linked g" for g
    using that names [OF that] contents [OF that] by (auto simp: nothing_lost_def same_contents_def)
  have u: "triple ?linked (catching (syscall W (os_unlink d n))
       (\<lambda>e. andThen (ignoring (syscall W (os_unlink d' n'))) (\<lambda>_. throw e)))
      (\<lambda>v g. moved False d n d' n' f g \<and> same_contents f g) (\<lambda>e. ?safe)"
  proof (rule triple_catching [where R = "\<lambda>e. ?linked"])
    show "triple ?linked (syscall W (os_unlink d n)) (\<lambda>v g. moved False d n d' n' f g \<and> same_contents f g) (\<lambda>e. ?linked)"
    proof (rule triple_syscall [OF assms(1)])
      fix g g' v
      assume g: "?linked g" "os_unlink d n g = (g', Inr v)"
      then have other: "\<not> (d = d' \<and> n = n')" using assms(2) by auto
      have "g' = del_entry d n g" using g(2) by (auto simp: os_unlink_def split: option.splits if_splits)
      then show "moved False d n d' n' f g' \<and> same_contents f g'"
        using assms(2,3) other g(1) names [OF g(1)] contents [OF g(1)]
        by (auto simp: moved_def same_contents_def entry_del)
    next
      fix g g' e
      assume "?linked g" "os_unlink d n g = (g', Inl e)"
      then show "?linked g'" by (auto simp: os_unlink_def split: option.splits if_splits)
    qed
    show "triple ?linked (andThen (ignoring (syscall W (os_unlink d' n'))) (\<lambda>_. throw e))
        (\<lambda>v g. moved False d n d' n' f g \<and> same_contents f g) (\<lambda>e. ?safe)" for e
    proof (rule triple_andThen)
      show "triple ?linked (ignoring (syscall W (os_unlink d' n'))) (\<lambda>v. ?safe) (\<lambda>e. ?safe)"
        by (rule triple_ignoring, rule triple_syscall [OF assms(1)]) (use rolled_back safe in blast)+
    qed (simp add: triple_throw)
  qed
  show ?thesis
    unfolding move_linking_def destinationExists_def
    by (rule triple_andThen [OF triple_catching [OF triple_weaken [OF l] triple_throw] u]) auto
qed

lemma triple_entry:
  assumes "quiet W" "entry f d n = Some i" "content f i \<noteq> None"
  shows "triple (\<lambda>g. g = f) (move_entry W ov d n d' n')
    (\<lambda>v g. moved ov d n d' n' f g \<and> same_contents f g) (\<lambda>e g. nothing_lost f g \<and> same_contents f g)"
  unfolding move_entry_def
  using triple_weaken [OF triple_replacing [OF assms]] triple_linking [OF assms] by (cases ov) simp_all

lemma triple_move_into:
  assumes "quiet W"
  shows "triple (\<lambda>g. g = f) (move_into W cfg to_ref d n ov)
    (\<lambda>v g. (\<exists>d'. pinned f d' (mu_root to_ref) \<and> moved ov d n d' (last (mu_segments to_ref)) f g) \<and> same_contents f g)
    (\<lambda>e g. nothing_lost f g \<and> same_contents f g)" (is "triple _ _ ?Q ?E")
  unfolding move_into_def
proof (rule triple_catching [where R = ?E])
  show "triple (\<lambda>g. g = f) (andThen (syscall W (os_lstat d n)) (\<lambda>kd.
          if kd \<noteq> KFile then throw unsupportedComplex else
          andThen (openMutationParent W cfg False to_ref) (\<lambda>(d', name'). move_entry W ov d n d' name'))) ?Q ?E"
  proof (rule triple_andThen [where R = "\<lambda>kd g. g = f \<and> os_lstat d n f = (f, Inr kd)"])
    show "triple (\<lambda>g. g = f) (syscall W (os_lstat d n)) (\<lambda>kd g. g = f \<and> os_lstat d n f = (f, Inr kd)) ?E"
      by (rule triple_weaken [OF triple_look [OF assms, where P = "\<lambda>g. g = f"]]) auto
    show "triple (\<lambda>g. g = f \<and> os_lstat d n f = (f, Inr kd)) (if kd \<noteq> KFile then throw unsupportedComplex else
          andThen (openMutationParent W cfg False to_ref) (\<lambda>(d', name'). move_entry W ov d n d' name')) ?Q ?E" for kd
    proof (rule triple_if)
      assume "\<not> kd \<noteq> KFile"
      have next_step: "triple (\<lambda>h. h = g) (case v of (d', name') \<Rightarrow> move_entry W ov d n d' name') ?Q ?E"
        if held: "(g = f \<and> os_lstat d n f = (f, Inr kd)) \<and> pinned g (fst v) (mu_root to_ref) \<and> snd v = last (mu_segments to_ref)" for v g
      proof -
        define d' where "d' = fst v"
        have v: "v = (d', last (mu_segments to_ref))" using held by (simp add: d'_def prod_eq_iff)
        obtain i where i: "entry f d n = Some i" "content f i \<noteq> None"
          using held \<open>\<not> kd \<noteq> KFile\<close> lstat_file [of d n f] by auto
        have p: "g = f" "pinned f d' (mu_root to_ref)" using held by (auto simp: d'_def)
        show ?thesis unfolding v prod.case p(1)
          by (rule triple_weaken [OF triple_entry [OF assms i]]) (use p(2) in blast)+
      qed
      show "triple (\<lambda>g. g = f \<and> os_lstat d n f = (f, Inr kd))
          (andThen (openMutationParent W cfg False to_ref) (\<lambda>(d', name'). move_entry W ov d n d' name')) ?Q ?E"
        by (rule triple_andThen [OF triple_weaken [OF keeps_open [OF assms, where P = "\<lambda>g. g = f \<and> os_lstat d n f = (f, Inr kd)"]]
              triple_pointwise [OF next_step]]) (assumption | auto)+
    qed (rule triple_throw, auto)
  qed
qed (rule triple_throw, simp)

text \<open>
  C30. While nobody else changes the tree, and however its own system calls fail, \<open>move\<close> loses nothing: no content
  changes, and after an error every name still names what it named. A reported move is one of two: the entry of the
  source is gone and the entry of the destination, in a directory within its root, names the same file, no other
  name has changed, and without \<open>overwrite\<close> the destination was free; or, with \<open>overwrite\<close>, source and destination
  were two names of one file, and nothing has changed. Lemma \<open>concurrent_upload_lost\<close> shows why nobody else may
  change the tree.
\<close>

theorem move_never_loses:
  assumes "quiet W" and "move_file W cfg source destination overwrite s = (s', r)"
  shows "same_contents (os_fs s) (os_fs s') \<and>
    (\<forall>e. r = Inl e \<longrightarrow> nothing_lost (os_fs s) (os_fs s')) \<and>
    (\<forall>v. r = Inr v \<longrightarrow> (\<exists>from_ref to_ref. mutation (fc_policy cfg) source = Inr from_ref \<and> mutation (fc_policy cfg) destination = Inr to_ref \<and>
      (if mu_displayPath from_ref = mu_displayPath to_ref
       then v = Moved (mu_displayPath from_ref) (mu_displayPath to_ref) False \<and> os_fs s' = os_fs s
       else v = Moved (mu_displayPath from_ref) (mu_displayPath to_ref) True \<and>
         (\<exists>d d'. pinned (os_fs s) d (mu_root from_ref) \<and> pinned (os_fs s) d' (mu_root to_ref) \<and>
           moved overwrite d (last (mu_segments from_ref)) d' (last (mu_segments to_ref)) (os_fs s) (os_fs s')))))"
proof -
  define f where "f = os_fs s"
  let ?ok = "\<lambda>v g. (\<exists>from_ref to_ref. mutation (fc_policy cfg) source = Inr from_ref \<and> mutation (fc_policy cfg) destination = Inr to_ref \<and>
      (if mu_displayPath from_ref = mu_displayPath to_ref
       then v = Moved (mu_displayPath from_ref) (mu_displayPath to_ref) False \<and> g = f
       else v = Moved (mu_displayPath from_ref) (mu_displayPath to_ref) True \<and>
         (\<exists>d d'. pinned f d (mu_root from_ref) \<and> pinned f d' (mu_root to_ref) \<and>
           moved overwrite d (last (mu_segments from_ref)) d' (last (mu_segments to_ref)) f g))) \<and> same_contents f g"
  let ?bad = "\<lambda>e g. nothing_lost f g \<and> same_contents f g"
  have body: "triple (\<lambda>g. g = f) (andThen (openMutationParent W cfg False from_ref) (\<lambda>(d, name).
       andThen (move_into W cfg to_ref d name overwrite) (\<lambda>_.
         return (Moved (mu_displayPath from_ref) (mu_displayPath to_ref) True)))) ?ok ?bad"
    if refs: "mutation (fc_policy cfg) source = Inr from_ref" "mutation (fc_policy cfg) destination = Inr to_ref"
      "mu_displayPath from_ref \<noteq> mu_displayPath to_ref" for from_ref to_ref
  proof (rule triple_andThen [OF triple_weaken [OF keeps_open [OF assms(1), where P = "\<lambda>g. g = f"]] triple_pointwise])
    fix v g
    assume v: "g = f \<and> pinned f (fst v) (mu_root from_ref) \<and> snd v = last (mu_segments from_ref)"
    show "triple (\<lambda>h. h = g) (case v of (d, name) \<Rightarrow> andThen (move_into W cfg to_ref d name overwrite) (\<lambda>_.
         return (Moved (mu_displayPath from_ref) (mu_displayPath to_ref) True))) ?ok ?bad"
      by (rule triple_prod, rule triple_andThen [OF triple_weaken [OF triple_move_into [OF assms(1)]] triple_return])
        (use v refs in auto)
  qed (assumption | auto)+
  have whole: "triple (\<lambda>g. g = f) (move_file W cfg source destination overwrite) ?ok ?bad"
    unfolding move_file_def
    apply (rule triple_andThen [where R = "\<lambda>a g. g = f \<and> mutation (fc_policy cfg) source = Inr a"])
     apply (rule triple_result; simp)
    apply (rule triple_andThen [where R = "\<lambda>b g. g = f \<and> mutation (fc_policy cfg) source = Inr a \<and> mutation (fc_policy cfg) destination = Inr b" for a])
     apply (rule triple_result; simp)
    apply (rule triple_if)
     apply (rule triple_return, auto)[1]
    apply (rule triple_andThen [where R = "\<lambda>u g. g = f \<and> mutation (fc_policy cfg) source = Inr a \<and> mutation (fc_policy cfg) destination = Inr b" for a b])
     apply (rule triple_result; simp)
    apply (rule triple_pointwise, elim conjE, hypsubst, rule body; assumption)
    done
  show ?thesis
  proof (cases r)
    case (Inl e)
    then show ?thesis using tripleD(2) [OF whole _ assms(2)] by (simp add: f_def)
  next
    case (Inr v)
    have "?ok v (os_fs s')" by (rule tripleD(1) [OF whole _ assms(2) Inr]) (simp add: f_def)
    then show ?thesis unfolding f_def by (simp only: Inr sum.inject sum.distinct) blast
  qed
qed

definition ex_fs :: fs where
  "ex_fs = \<lparr>fs_nodes = [0 \<mapsto> DirNode None [(''w'', 1)], 1 \<mapsto> DirNode (Some (0, ''w'')) [(''a'', 2), (''b'', 2), (''c'', 3), (''sub'', 4)],
       2 \<mapsto> FileNode ''x'', 3 \<mapsto> FileNode ''y'', 4 \<mapsto> DirNode (Some (1, ''sub'')) []],
     fs_next = 5, fs_owner = (\<lambda>i. (0, 448)), fs_free = 1000\<rparr>"

definition ex_file_cfg :: file_cfg where
  "ex_file_cfg = \<lparr>fc_policy = \<lparr>po_roots = [''/w''], po_canonicalRoots = [''/w''], po_shared = False, po_sharedGroups = []\<rparr>,
     fc_uploadMaxBytes = 4, fc_storageMinFreeBytes = 10, fc_openRoot = (\<lambda>f p. Inr 1), fc_walk = (\<lambda>f p. Inr 1),
     fc_realpath = (\<lambda>f p. p), fc_getfacl = (\<lambda>f d. None), fc_sha256 = (\<lambda>s. s), fc_size = (\<lambda>f i. 1)\<rparr>"

text \<open>Every call succeeds, or the call number \<open>k\<close> fails.\<close>

definition calm_world :: schedule where
  "calm_world k = (\<lambda>f. f, None)"

definition failing_call :: "nat \<Rightarrow> schedule" where
  "failing_call n k = (\<lambda>f. f, if k = n then Some ''EIO'' else None)"

lemma quiet_examples [simp]: "quiet calm_world" "quiet (failing_call n)"
  by (simp_all add: quiet_def calm_world_def failing_call_def)

definition ex_move :: "schedule \<Rightarrow> string \<Rightarrow> string \<Rightarrow> bool \<Rightarrow> os \<times> (bridge_exc + file_result)" where
  "ex_move W a b overwrite = move_file W ex_file_cfg (Some a) (Some b) overwrite \<lparr>os_fs = ex_fs, os_calls = 0\<rparr>"

theorem move_never_loses_witness:
  "snd (ex_move calm_world ''a'' ''sub/n'' False) = Inr (Moved ''/w/a'' ''/w/sub/n'' True) \<and>
    entry (os_fs (fst (ex_move calm_world ''a'' ''sub/n'' False))) 4 ''n'' = Some 2 \<and>
    nothing_lost ex_fs (os_fs (fst (ex_move (failing_call 9) ''a'' ''sub/n'' False))) \<and>
    snd (ex_move calm_world ''a'' ''b'' True) = Inr (Moved ''/w/a'' ''/w/b'' True) \<and>
    entry (os_fs (fst (ex_move calm_world ''a'' ''b'' True))) 1 ''a'' = Some 2"
proof (intro conjI)
  have run: "move_file (failing_call 9) ex_file_cfg (Some ''a'') (Some ''sub/n'') False \<lparr>os_fs = ex_fs, os_calls = 0\<rparr>
      = (fst (ex_move (failing_call 9) ''a'' ''sub/n'' False), snd (ex_move (failing_call 9) ''a'' ''sub/n'' False))"
    by (simp add: ex_move_def)
  have "isl (snd (ex_move (failing_call 9) ''a'' ''sub/n'' False))" by code_simp
  then obtain e where "snd (ex_move (failing_call 9) ''a'' ''sub/n'' False) = Inl e" by (auto simp: isl_def)
  then show "nothing_lost ex_fs (os_fs (fst (ex_move (failing_call 9) ''a'' ''sub/n'' False)))"
    using move_never_loses [OF quiet_examples(2) run] by simp
qed code_simp+

text \<open>
  The step between \<^verbatim>\<open>link\<close> and \<^verbatim>\<open>unlink\<close>: an upload with \<open>overwrite\<close> that puts its new file (here \<^verbatim>\<open>c\<close>) in the place of the source
  just then is removed with the source. The move is reported, and no name is left for the uploaded file.
\<close>

definition racing_upload :: schedule where
  "racing_upload k = ((\<lambda>f. if k = 11 then fst (os_rename 1 ''c'' 1 ''a'' f) else f), None)"

lemma concurrent_upload_lost:
  "snd (ex_move racing_upload ''a'' ''sub/n'' False) = Inr (Moved ''/w/a'' ''/w/sub/n'' True) \<and>
    (let f = os_fs (fst (ex_move racing_upload ''a'' ''sub/n'' False)) in
       entry f 1 ''a'' = None \<and> entry f 1 ''c'' = None \<and> entry f 1 ''b'' = Some 2 \<and> entry f 4 ''n'' = Some 2)"
  by (rule conjI) code_simp+

end
