(* ===== verification/Files_Upload.thy ===== *)
theory Files_Upload
  imports Files_Props
begin

text \<open>
  An upload appears under its name complete or not at all, and leaves everything else alone.
\<close>

section \<open>Trees that only gained something\<close>

definition fresh_inodes :: "fs \<Rightarrow> bool" where
  "fresh_inodes f \<longleftrightarrow> (\<forall>i \<ge> fs_next f. fs_nodes f i = None) \<and> (\<forall>d n i. entry f d n = Some i \<longrightarrow> i < fs_next f)"

definition dirs_kept :: "fs \<Rightarrow> fs \<Rightarrow> bool" where
  "dirs_kept f g \<longleftrightarrow> fs_next f \<le> fs_next g \<and>
     (\<forall>x up es. fs_nodes f x = Some (DirNode up es) \<longrightarrow> (\<exists>es'. fs_nodes g x = Some (DirNode up es')))"

lemma dirs_kept_refl [simp]: "dirs_kept f f"
  by (simp add: dirs_kept_def)

lemma dirs_kept_trans: "dirs_kept f g \<Longrightarrow> dirs_kept g h \<Longrightarrow> dirs_kept f h"
  unfolding dirs_kept_def by (meson le_trans)

lemma dirs_kept_set_entries: "dirs_kept f (set_entries d es f)"
  by (auto simp: dirs_kept_def set_entries_def split: option.splits node.splits)

lemma dirs_kept_entries: "dirs_kept f (add_entry d n i f)" "dirs_kept f (del_entry d n f)"
  by (simp_all add: add_entry_def del_entry_def dirs_kept_set_entries)

lemma dirs_kept_is_dir: "dirs_kept f g \<Longrightarrow> is_dir f x \<Longrightarrow> is_dir g x"
  by (force simp: dirs_kept_def is_dir_def split: option.splits node.splits)

lemma climb_mono:
  "climb f k d b = Some p \<Longrightarrow> dirs_kept f g \<Longrightarrow> k \<le> k' \<Longrightarrow> climb g k' d b = Some p"
proof (induction f k d b arbitrary: k' rule: climb.induct)
  case (1 f k d b)
  obtain up es where nd: "fs_nodes f d = Some (DirNode up es)"
    using "1.prems"(1) by (auto split: option.splits node.splits)
  then obtain es' where nd': "fs_nodes g d = Some (DirNode up es')" using "1.prems"(2) unfolding dirs_kept_def by blast
  show ?case
  proof (cases up)
    case None
    then show ?thesis using "1.prems"(1) nd nd' by simp
  next
    case (Some q)
    obtain a m where q: "q = (a, m)" by (cases q)
    obtain j where j: "k = Suc j" using "1.prems"(1) nd Some q by (cases k) simp_all
    obtain j' where j': "k' = Suc j'" "j \<le> j'" using "1.prems"(3) j by (cases k') simp_all
    have "climb f j a (m # b) = Some p" using "1.prems"(1) nd Some q j by simp
    then have "climb g j' a (m # b) = Some p" using "1.IH" nd Some q j j'(2) "1.prems"(2) by simp
    then show ?thesis using nd' Some q j'(1) by simp
  qed
qed

lemma pinned_mono: "pinned f d root \<Longrightarrow> dirs_kept f g \<Longrightarrow> pinned g d root"
  unfolding pinned_def path_of_def using climb_mono [of f "fs_next f" d "[]" _ g "fs_next g"]
  by (auto simp: dirs_kept_def)

definition grown :: "fs \<Rightarrow> fs \<Rightarrow> bool" where
  "grown f g \<longleftrightarrow> fresh_inodes g \<and> dirs_kept f g \<and> same_contents f g \<and>
     (\<forall>x m. entry g x m = entry f x m \<or> entry f x m = None \<and> (\<exists>i. entry g x m = Some i \<and> is_dir g i))"

lemma grown_entry: "grown f g \<Longrightarrow> entry g x m = entry f x m \<or> entry f x m = None \<and> (\<exists>i. entry g x m = Some i \<and> is_dir g i)"
  unfolding grown_def by (elim conjE allE)

lemma grown_refl: "fresh_inodes f \<Longrightarrow> grown f f"
  by (simp add: grown_def)

text \<open>A new inode.\<close>

lemma new_node_effects:
  assumes "fresh_inodes f" "new_node nd f = (g, i)"
  shows "i = fs_next f" "entry g x m = (if x = i then (case nd of DirNode up es \<Rightarrow> map_of es m | _ \<Rightarrow> None) else entry f x m)"
    "is_dir g x = (if x = i then kind_of nd = KDirectory \<and> nd \<noteq> GoneDir else is_dir f x)"
    "content g x = (if x = i then (case nd of FileNode c \<Rightarrow> Some c | _ \<Rightarrow> None) else content f x)" "dirs_kept f g"
proof -
  have g: "g = f\<lparr>fs_nodes := (fs_nodes f)(fs_next f \<mapsto> nd), fs_next := fs_next f + 1\<rparr>" "i = fs_next f"
    using assms(2) by (auto simp: new_node_def)
  show "i = fs_next f" by (rule g(2))
  show "entry g x m = (if x = i then (case nd of DirNode up es \<Rightarrow> map_of es m | _ \<Rightarrow> None) else entry f x m)"
    by (simp add: g entry_def entries_def split: node.split)
  show "is_dir g x = (if x = i then kind_of nd = KDirectory \<and> nd \<noteq> GoneDir else is_dir f x)"
    by (simp add: g is_dir_def split: node.split)
  show "content g x = (if x = i then (case nd of FileNode c \<Rightarrow> Some c | _ \<Rightarrow> None) else content f x)"
    by (simp add: g content_def split: node.split)
  have "fs_nodes f (fs_next f) = None" using assms(1) by (simp add: fresh_inodes_def)
  then show "dirs_kept f g" by (auto simp: g dirs_kept_def)
qed

lemma fresh_new_entry:
  assumes "fresh_inodes f" "new_node nd f = (g, i)" "is_dir f d" "\<forall>up es. nd = DirNode up es \<longrightarrow> es = []"
  shows "fresh_inodes (add_entry d n i g)"
    "entry (add_entry d n i g) x m = (if x = d \<and> m = n then Some i else entry f x m)"
proof -
  note e = new_node_effects [OF assms(1,2)]
  have lt: "d < fs_next f"
  proof (rule ccontr)
    assume "\<not> d < fs_next f"
    then have "fs_nodes f d = None" using assms(1) by (simp add: fresh_inodes_def)
    then show False using assms(3) by (simp add: is_dir_def)
  qed
  have nx: "fs_next g = fs_next f + 1" using assms(2) by (auto simp: new_node_def)
  have dg: "is_dir g d" using dirs_kept_is_dir [OF e(5) assms(3)] .
  have none: "entry f i y = None" for y
    using assms(1) by (auto simp: e(1) fresh_inodes_def entry_def entries_def)
  have "(case nd of DirNode up es \<Rightarrow> map_of es y | _ \<Rightarrow> None) = None" for y
    using assms(4) by (cases nd) auto
  then have eg: "entry g x m = entry f x m" for x m using e(2) [of x m] none by simp
  then show names: "entry (add_entry d n i g) x m = (if x = d \<and> m = n then Some i else entry f x m)" for x m
    by (simp add: entry_add [OF dg])
  have nodes: "fs_nodes (add_entry d n i g) j = None" if "j \<ge> fs_next f + 1" for j
  proof -
    have "fs_nodes g j = None" using that assms(1,2) by (auto simp: new_node_def fresh_inodes_def)
    then show ?thesis using lt that by (auto simp: add_entry_def set_entries_def split: option.split node.split)
  qed
  have bound: "j < fs_next f + 1" if "entry (add_entry d n i g) x m = Some j" for x m j
    using that assms(1) e(1) unfolding names fresh_inodes_def by (auto split: if_splits intro: less_SucI)
  show "fresh_inodes (add_entry d n i g)" unfolding fresh_inodes_def using nodes bound nx by simp
qed

lemma grown_owner: "grown f (g\<lparr>fs_owner := w\<rparr>) = grown f g"
  by (simp add: grown_def fresh_inodes_def dirs_kept_def same_contents_def entry_def entries_def content_def is_dir_def)

lemma owner_add_entry: "add_entry d n i (g\<lparr>fs_owner := w\<rparr>) = (add_entry d n i g)\<lparr>fs_owner := w\<rparr>"
  by (simp add: add_entry_def set_entries_def entries_def split: option.split node.split)

lemma grown_mkdir:
  assumes "grown f g" "os_mkdir md d n g = (g', r)"
  shows "grown f g'"
proof (cases "entry g d n \<noteq> None \<or> \<not> is_dir g d")
  case True
  then show ?thesis using assms by (auto simp: os_mkdir_def split: if_splits)
next
  case False
  obtain h i where new: "new_node (DirNode (Some (d, n)) []) g = (h, i)" by (cases "new_node (DirNode (Some (d, n)) []) g")
  have fresh: "fresh_inodes g" using assms(1) by (simp add: grown_def)
  note e = new_node_effects [OF fresh new]
  have dir: "is_dir g d" and free: "entry g d n = None" using False by simp_all
  have empty: "\<forall>up es. DirNode (Some (d, n)) [] = DirNode up es \<longrightarrow> es = []" by simp
  note k = fresh_new_entry [OF fresh new dir empty]
  obtain w where g': "g' = (add_entry d n i h)\<lparr>fs_owner := w\<rparr>"
    using assms(2) False by (auto simp: os_mkdir_def new Let_def owner_add_entry split: prod.splits)
  have "dirs_kept f g" using assms(1) by (simp add: grown_def)
  then have "dirs_kept f (add_entry d n i h)" by (rule dirs_kept_trans [OF dirs_kept_trans [OF _ e(5)] dirs_kept_entries(1)])
  moreover have "same_contents f (add_entry d n i h)"
  proof -
    have "content (add_entry d n i h) x = Some c" if "content f x = Some c" for x c
    proof -
      have "content g x = Some c" using assms(1) that by (simp add: grown_def same_contents_def)
      moreover from this have "x \<noteq> i" using fresh e(1) by (auto simp: fresh_inodes_def content_def)
      ultimately show ?thesis by (simp add: e(4))
    qed
    then show ?thesis by (simp add: same_contents_def)
  qed
  moreover have "entry (add_entry d n i h) x m = entry f x m \<or>
      entry f x m = None \<and> (\<exists>j. entry (add_entry d n i h) x m = Some j \<and> is_dir (add_entry d n i h) j)" for x m
  proof (cases "x = d \<and> m = n")
    case True
    have "entry g x m = entry f x m \<or> entry f x m = None" using grown_entry [OF assms(1), of x m] by auto
    then have "entry f x m = None" using True free by auto
    then show ?thesis using True by (simp add: k(2) e(3))
  next
    case False
    have "is_dir g j \<Longrightarrow> is_dir h j" for j using dirs_kept_is_dir [OF e(5)] .
    then show ?thesis using grown_entry [OF assms(1), of x m] unfolding k(2) entry_ops_simps if_not_P [OF False] by blast
  qed
  ultimately have "grown f (add_entry d n i h)" using k(1) by (simp add: grown_def)
  then show ?thesis by (simp add: g' grown_owner)
qed

lemma grown_descend:
  assumes "quiet W"
  shows "triple (grown f) (descend W cfg True root seg d) (\<lambda>v g. grown f g \<and> pinned g v root) (\<lambda>e. grown f)"
  unfolding descend_def link_refused_def if_True
  apply (rule triple_andThen [where R = "\<lambda>v. grown f"])
   apply (rule triple_andThen [OF keeps_shared [OF assms]])
   apply (rule triple_catching [where R = "\<lambda>e. grown f"])
    apply (rule triple_syscall [OF assms]; (erule (1) grown_mkdir | assumption))
   apply (rule triple_if, rule triple_throw, assumption, rule triple_return, assumption)
  apply (rule triple_andThen [OF triple_catching [OF triple_keeps [OF assms]]], simp, rule triple_throw, assumption)
  apply (rule triple_andThen [OF keeps_pin [OF assms]], rule triple_return, assumption)
  done

lemma pinned_grown_descend:
  assumes "quiet W"
  shows "triple (\<lambda>g. grown f g \<and> pinned g d root) (descend_all W cfg True root ss d) (\<lambda>v g. grown f g \<and> pinned g v root) (\<lambda>e. grown f)"
proof (induction ss arbitrary: d)
  case Nil
  then show ?case by (simp add: triple_return)
next
  case (Cons s ss)
  show ?case unfolding descend_all.simps
    by (rule triple_andThen [OF triple_weaken [OF grown_descend [OF assms]] Cons.IH]) auto
qed

lemma grown_open:
  assumes "quiet W"
  shows "triple (grown f) (openMutationParent W cfg True t)
     (\<lambda>v g. grown f g \<and> pinned g (fst v) (mu_root t) \<and> snd v = last (mu_segments t)) (\<lambda>e. grown f)"
  unfolding openMutationParent_def if_True
  apply (rule triple_andThen [OF triple_keeps [OF assms]], simp)
  apply (rule triple_andThen [OF keeps_pin [OF assms]])
  apply (rule triple_andThen [OF pinned_grown_descend [OF assms]])
  apply (rule triple_andThen [OF triple_weaken [OF keeps_shared [OF assms]]], assumption+, simp)
  apply (rule triple_return, simp)
  done

section \<open>The temporary file\<close>

text \<open>
  The temporary file \<open>i\<close> holds \<open>c\<close>; apart from it the tree is \<open>h\<close>, which only gained
  directories.
\<close>

definition staged :: "fs \<Rightarrow> string \<Rightarrow> ino \<Rightarrow> string \<Rightarrow> ino \<Rightarrow> string \<Rightarrow> fs \<Rightarrow> bool" where
  "staged f root d tmp i c g \<longleftrightarrow> (\<exists>h. grown f h \<and> pinned h d root \<and> is_dir h d \<and> i = fs_next h \<and> dirs_kept h g \<and>
     (\<forall>x. is_dir g x = is_dir h x) \<and> (\<forall>x m. entry g x m = (if x = d \<and> m = tmp then Some i else entry h x m)) \<and>
     (\<forall>x. content g x = (if x = i then Some c else content h x)))"

definition upload_safe :: "bool \<Rightarrow> bool \<Rightarrow> string \<Rightarrow> string \<Rightarrow> fs \<Rightarrow> fs \<Rightarrow> bool" where
  "upload_safe ov ok full tmp f g \<longleftrightarrow> same_contents f g \<and> (\<forall>x m. m \<noteq> tmp \<longrightarrow> entry g x m = entry f x m \<or>
     (\<exists>i. entry g x m = Some i \<and> (is_dir g i \<and> entry f x m = None \<or>
        ok \<and> content g i = Some full \<and> content f i = None \<and> (ov \<or> entry f x m = None))))"

definition published :: "string \<Rightarrow> ino \<Rightarrow> string \<Rightarrow> string \<Rightarrow> string \<Rightarrow> fs \<Rightarrow> fs \<Rightarrow> bool" where
  "published root d name tmp full f g \<longleftrightarrow> pinned g d root \<and> entry g d tmp = None \<and>
     (\<exists>i. entry g d name = Some i \<and> content g i = Some full \<and> content f i = None)"

lemma grown_safe: "grown f g \<Longrightarrow> upload_safe ov ok full tmp f g"
  unfolding upload_safe_def using grown_entry [of f g] by (fastforce simp: grown_def)

lemma grown_content_new: "grown f h \<Longrightarrow> content f (fs_next h) = None"
proof (rule ccontr)
  assume g: "grown f h" and "content f (fs_next h) \<noteq> None"
  then have "content h (fs_next h) \<noteq> None" by (auto simp: grown_def same_contents_def)
  then show False using g by (simp add: grown_def fresh_inodes_def content_def)
qed

lemma grown_entry_new: "grown f h \<Longrightarrow> entry h x m \<noteq> Some (fs_next h)"
  unfolding grown_def fresh_inodes_def by (metis less_irrefl)

lemma staged_new: "staged f root d tmp i c g \<Longrightarrow> content f i = None"
  unfolding staged_def by (elim exE conjE) (simp add: grown_content_new)

lemma staged_facts:
  assumes "staged f root d tmp i c g"
  shows "entry g d tmp = Some i" "content g i = Some c" "is_dir g d" "pinned g d root" "\<not> is_dir g i" "same_contents f g"
    "m \<noteq> tmp \<Longrightarrow> entry g x m \<noteq> Some i"
    "m \<noteq> tmp \<Longrightarrow> entry g x m = entry f x m \<or> entry f x m = None \<and> (\<exists>j. entry g x m = Some j \<and> is_dir g j)"
proof -
  obtain h where h: "grown f h" "pinned h d root" "is_dir h d" "i = fs_next h" "dirs_kept h g" "\<And>x. is_dir g x = is_dir h x"
    "\<And>x m. entry g x m = (if x = d \<and> m = tmp then Some i else entry h x m)"
    "\<And>x. content g x = (if x = i then Some c else content h x)"
    using assms unfolding staged_def by blast
  show "entry g d tmp = Some i" "content g i = Some c" by (simp_all add: h(7,8))
  then show "\<not> is_dir g i" using content_not_dir by blast
  show "is_dir g d" using h(3) by (simp add: h(6))
  show "pinned g d root" using pinned_mono [OF h(2,5)] .
  show "same_contents f g"
    using h(1) grown_content_new [OF h(1)] by (auto simp: same_contents_def h(4,8) grown_def)
  show "m \<noteq> tmp \<Longrightarrow> entry g x m \<noteq> Some i" using grown_entry_new [OF h(1)] by (simp add: h(4,7))
  show "m \<noteq> tmp \<Longrightarrow> entry g x m = entry f x m \<or> entry f x m = None \<and> (\<exists>j. entry g x m = Some j \<and> is_dir g j)"
    using grown_entry [OF h(1), of x m] by (simp add: h(6,7))
qed

lemma staged_safe: "staged f root d tmp i c g \<Longrightarrow> upload_safe ov ok full tmp f g"
  unfolding upload_safe_def using staged_facts(6,8) [of f root d tmp i c g] by meson

lemma safe_unlink:
  assumes "upload_safe ov ok full tmp f g" "os_unlink d tmp g = (g', r)"
  shows "upload_safe ov ok full tmp f g'"
proof -
  have "g' = g \<or> g' = del_entry d tmp g" using assms(2) by (auto simp: os_unlink_def split: option.splits if_splits)
  then show ?thesis
  proof
    assume g': "g' = del_entry d tmp g"
    have "entry g' x m = entry g x m" if "m \<noteq> tmp" for x m using that by (simp add: g' entry_del)
    then show ?thesis using assms(1) by (simp add: upload_safe_def same_contents_def g')
  qed (use assms(1) in simp)
qed

lemma create_staged:
  assumes "grown f g" "pinned g d root" "os_create d tmp [] g = (g', Inr i)"
  shows "staged f root d tmp i [] g'"
proof -
  have free: "entry g d tmp = None" "is_dir g d" using assms(3) by (auto simp: os_create_def split: if_splits)
  obtain h where new: "new_node (FileNode []) g = (h, i)" and out: "g' = add_entry d tmp i h"
    using assms(3) free by (cases "new_node (FileNode []) g") (auto simp: os_create_def)
  have fresh: "fresh_inodes g" using assms(1) by (simp add: grown_def)
  note e = new_node_effects [OF fresh new]
  have nodir: "\<forall>up es. FileNode [] = DirNode up es \<longrightarrow> es = []" by simp
  note k = fresh_new_entry [OF fresh new free(2) nodir]
  have "\<not> is_dir g (fs_next g)" using fresh by (simp add: fresh_inodes_def is_dir_def)
  then have dirs: "is_dir g' x = is_dir g x" for x by (simp add: out e(3) e(1) [symmetric])
  have contents: "content g' x = (if x = i then Some [] else content g x)" for x by (simp add: out e(4))
  have names: "entry g' x m = (if x = d \<and> m = tmp then Some i else entry g x m)" for x m unfolding out by (rule k(2))
  have "dirs_kept g g'" unfolding out by (rule dirs_kept_trans [OF e(5) dirs_kept_entries(1)])
  then show ?thesis unfolding staged_def
    by (intro exI [of _ g] conjI allI assms(1,2) free(2) e(1) dirs contents names)
qed

lemma append_staged:
  assumes "staged f root d tmp i c g" "os_append i ch g = (g', Inr v)"
  shows "staged f root d tmp i (c @ ch) g'"
proof -
  obtain h where h: "grown f h" "pinned h d root" "is_dir h d" "i = fs_next h" "dirs_kept h g" "\<And>x. is_dir g x = is_dir h x"
    "\<And>x m. entry g x m = (if x = d \<and> m = tmp then Some i else entry h x m)"
    "\<And>x. content g x = (if x = i then Some c else content h x)"
    using assms(1) unfolding staged_def by blast
  have node: "fs_nodes g i = Some (FileNode c)"
    using staged_facts(2) [OF assms(1)] by (auto simp: content_def split: option.splits node.splits)
  then have g': "g' = g\<lparr>fs_nodes := (fs_nodes g)(i \<mapsto> FileNode (c @ ch))\<rparr>" using assms(2) by (simp add: os_append_def)
  have "dirs_kept g g'" using node by (auto simp: g' dirs_kept_def)
  then have kept: "dirs_kept h g'" using dirs_kept_trans h(5) by blast
  have dirs: "is_dir g' x = is_dir g x" for x using node by (simp add: g' is_dir_def)
  have names: "entry g' x m = entry g x m" for x m using node by (simp add: g' entry_def entries_def)
  have contents: "content g' x = (if x = i then Some (c @ ch) else content g x)" for x by (simp add: g' content_def)
  show ?thesis unfolding staged_def
    by (intro exI [of _ h]) (simp add: h(1,2,3) h(4) [symmetric] kept dirs h(6) names h(7) contents h(8))
qed

section \<open>Publishing\<close>

text \<open>Both names of the finished file, between the link and the removal of the temporary name.\<close>

lemma linked_facts:
  assumes st: "staged f root d tmp i full g" and ok: "ok" and ne: "name \<noteq> tmp" and free: "entry g d name = None"
    and g': "g' = add_entry d name i g"
  shows "upload_safe ov ok full tmp f g'" "published root d name tmp full f (del_entry d tmp g')" "entry g' d tmp = Some i"
    "\<not> is_dir g' i" "upload_safe ov ok full tmp f (del_entry d tmp g')"
proof -
  note s = staged_facts [OF st]
  have names: "entry g' x m = (if x = d \<and> m = name then Some i else entry g x m)" for x m by (simp add: g' entry_add [OF s(3)])
  have wasfree: "entry f d name = None" using s(8) [OF ne, of d] free by auto
  show safe: "upload_safe ov ok full tmp f g'"
    unfolding upload_safe_def
  proof (intro conjI allI impI)
    show "same_contents f g'" using s(6) by (simp add: same_contents_def g')
    show "entry g' x m = entry f x m \<or> (\<exists>j. entry g' x m = Some j \<and> (is_dir g' j \<and> entry f x m = None \<or>
        ok \<and> content g' j = Some full \<and> content f j = None \<and> (ov \<or> entry f x m = None)))" if "m \<noteq> tmp" for x m
    proof (cases "x = d \<and> m = name")
      case True
      then show ?thesis using names s(2) staged_new [OF st] wasfree ok by (simp add: g')
    next
      case False
      then show ?thesis using names s(8) [OF that, of x] by (auto simp: g')
    qed
  qed
  show "entry g' d tmp = Some i" using names s(1) ne by simp
  show "\<not> is_dir g' i" using s(5) by (simp add: g')
  have pin: "pinned (del_entry d tmp g') d root"
    using pinned_mono [OF s(4) dirs_kept_trans [OF dirs_kept_entries(1) dirs_kept_entries(2)]] by (simp add: g')
  show "published root d name tmp full f (del_entry d tmp g')"
    unfolding published_def using pin ne names s(2) staged_new [OF st] by (simp add: entry_del g')
  have "os_unlink d tmp g' = (del_entry d tmp g', Inr ())"
    using names s(1,5) ne by (simp add: os_unlink_def g')
  then show "upload_safe ov ok full tmp f (del_entry d tmp g')" by (rule safe_unlink [OF safe])
qed

lemma renamed_facts:
  assumes st: "staged f root d tmp i full g" and ok: "ok" and ne: "name \<noteq> tmp" and run: "os_rename d tmp d name g = (g', Inr v)"
  shows "published root d name tmp full f g'" "upload_safe True ok full tmp f g'"
proof -
  note s = staged_facts [OF st]
  have other: "entry g d name \<noteq> Some i" using s(7) [OF ne] .
  have g': "g' = add_entry d name i (del_entry d tmp g)"
    using run s(1,3,5) other by (auto simp: os_rename_def Let_def split: option.splits if_splits)
  have names: "entry g' x m = (if x = d \<and> m = name then Some i else if x = d \<and> m = tmp then None else entry g x m)" for x m
    using s(3) by (simp add: g' entry_add entry_del)
  have pin: "pinned g' d root"
    using pinned_mono [OF s(4) dirs_kept_trans [OF dirs_kept_entries(2) dirs_kept_entries(1)]] by (simp add: g')
  show "published root d name tmp full f g'"
    unfolding published_def using pin ne names s(2) staged_new [OF st] by (simp add: g')
  show "upload_safe True ok full tmp f g'"
    unfolding upload_safe_def
  proof (intro conjI allI impI)
    show "same_contents f g'" using s(6) by (simp add: same_contents_def g')
    show "entry g' x m = entry f x m \<or> (\<exists>j. entry g' x m = Some j \<and> (is_dir g' j \<and> entry f x m = None \<or>
        ok \<and> content g' j = Some full \<and> content f j = None \<and> (True \<or> entry f x m = None)))" if "m \<noteq> tmp" for x m
    proof (cases "x = d \<and> m = name")
      case True
      then show ?thesis using names s(2) staged_new [OF st] ok by (simp add: g')
    next
      case False
      then show ?thesis using names that s(8) [OF that, of x] by (auto simp: g')
    qed
  qed
qed

lemma triple_commit:
  assumes "quiet W" "name \<noteq> tmp" "ok"
  shows "triple (\<lambda>g. \<exists>i. staged f root d tmp i full g) (commitTemporary W d tmp name ov)
    (\<lambda>v g. published root d name tmp full f g \<and> upload_safe ov ok full tmp f g) (\<lambda>e. upload_safe ov ok full tmp f)"
proof (cases ov)
  case True
  have "triple (\<lambda>g. \<exists>i. staged f root d tmp i full g) (syscall W (os_rename d tmp d name))
      (\<lambda>v g. published root d name tmp full f g \<and> upload_safe True ok full tmp f g) (\<lambda>e. upload_safe True ok full tmp f)"
  proof (rule triple_syscall [OF assms(1)]; elim exE)
    show "published root d name tmp full f g' \<and> upload_safe True ok full tmp f g'"
      if "staged f root d tmp i full g" "os_rename d tmp d name g = (g', Inr v)" for g g' v i
      using renamed_facts [OF that(1) assms(3,2) that(2)] by blast
    show "upload_safe True ok full tmp f g'"
      if "staged f root d tmp i full g" "os_rename d tmp d name g = (g', Inl e)" for g g' e i
      using staged_safe [OF that(1)] rename_error [OF that(2)] by simp
    show "upload_safe True ok full tmp f g" if "staged f root d tmp i full g" for g i and e :: string
      using staged_safe [OF that] .
  qed
  then show ?thesis using True by (simp add: commitTemporary_def)
next
  case False
  let ?linked = "\<lambda>g'. \<exists>g i. staged f root d tmp i full g \<and> entry g d name = None \<and> g' = add_entry d name i g"
  have l: "triple (\<lambda>g. \<exists>i. staged f root d tmp i full g) (syscall W (os_link d tmp d name)) (\<lambda>v. ?linked) (\<lambda>e. upload_safe ov ok full tmp f)"
  proof (rule triple_syscall [OF assms(1)]; elim exE)
    show "?linked g'" if "staged f root d tmp i full g" "os_link d tmp d name g = (g', Inr v)" for g g' v i
      using that staged_facts(1) [OF that(1)] by (auto simp: os_link_def split: if_splits)
    show "upload_safe ov ok full tmp f g'" if "staged f root d tmp i full g" "os_link d tmp d name g = (g', Inl e)" for g g' e i
    proof -
      have "g' = g" using that(2) by (auto simp: os_link_def split: option.splits if_splits)
      then show ?thesis using staged_safe [OF that(1)] by simp
    qed
    show "upload_safe ov ok full tmp f g" if "staged f root d tmp i full g" for g i and e :: string
      using staged_safe [OF that] .
  qed
  have u: "triple ?linked (syscall W (os_unlink d tmp)) (\<lambda>v g. published root d name tmp full f g \<and> upload_safe ov ok full tmp f g)
      (\<lambda>e. upload_safe ov ok full tmp f)"
  proof (rule triple_syscall [OF assms(1)]; elim exE conjE)
    fix h h' g i v
    assume k: "os_unlink d tmp h = (h', Inr v)" "staged f root d tmp i full g" "entry g d name = None" "h = add_entry d name i g"
    note lf = linked_facts [OF k(2) assms(3,2) k(3) k(4)]
    have "h' = del_entry d tmp h" using k(1) lf(3,4) by (simp add: os_unlink_def)
    then show "published root d name tmp full f h' \<and> upload_safe ov ok full tmp f h'" using lf(2,5) by simp
  next
    fix h h' g i e
    assume k: "os_unlink d tmp h = (h', Inl e)" "staged f root d tmp i full g" "entry g d name = None" "h = add_entry d name i g"
    show "upload_safe ov ok full tmp f h'" by (rule safe_unlink [OF linked_facts(1) [OF k(2) assms(3,2) k(3) k(4)] k(1)])
  next
    fix h g i and e :: string
    assume k: "staged f root d tmp i full g" "entry g d name = None" "h = add_entry d name i g"
    show "upload_safe ov ok full tmp f h" by (rule linked_facts(1) [OF k(1) assms(3,2) k(2) k(3)])
  qed
  have "triple (\<lambda>g. \<exists>i. staged f root d tmp i full g)
      (andThen (catching (syscall W (os_link d tmp d name)) destinationExists) (\<lambda>_. syscall W (os_unlink d tmp)))
      (\<lambda>v g. published root d name tmp full f g \<and> upload_safe ov ok full tmp f g) (\<lambda>e. upload_safe ov ok full tmp f)"
    unfolding destinationExists_def by (rule triple_andThen [OF triple_catching [OF l triple_throw] u])
  then show ?thesis using False by (simp add: commitTemporary_def)
qed

section \<open>The stream\<close>

lemma triple_chunks:
  assumes "quiet W"
  shows "n \<le> fc_uploadMaxBytes cfg \<Longrightarrow> triple (staged f root d tmp i c) (write_chunks W cfg i n cs)
    (\<lambda>m g. staged f root d tmp i (c @ concat cs) g \<and> m = n + length (concat cs) \<and> m \<le> fc_uploadMaxBytes cfg)
    (\<lambda>e g. upload_safe ov ok full tmp f g)"
proof (induction cs arbitrary: n c)
  case Nil
  then show ?case by (simp add: triple_return)
next
  case (Cons ch cs)
  show ?case
  proof (cases "n + length ch > fc_uploadMaxBytes cfg")
    case True
    then show ?thesis by (simp add: Let_def triple_throw staged_safe)
  next
    case False
    then have rest: "triple (staged f root d tmp i (c @ ch)) (write_chunks W cfg i (n + length ch) cs)
      (\<lambda>m g. staged f root d tmp i (c @ concat (ch # cs)) g \<and> m = n + length (concat (ch # cs)) \<and> m \<le> fc_uploadMaxBytes cfg)
      (\<lambda>e g. upload_safe ov ok full tmp f g)"
      using Cons.IH [of "n + length ch" "c @ ch"] by (simp add: add.assoc)
    have app: "triple (staged f root d tmp i c) (syscall W (os_append i ch)) (\<lambda>v. staged f root d tmp i (c @ ch)) (\<lambda>e. upload_safe ov ok full tmp f)"
    proof (rule triple_syscall [OF assms])
      fix g g' e
      assume g: "staged f root d tmp i c g" "os_append i ch g = (g', Inl e :: bridge_exc + unit)"
      then have "g' = g" by (auto simp: os_append_def split: option.splits node.splits)
      then show "upload_safe ov ok full tmp f g'" using staged_safe [OF g(1)] by simp
    qed (erule (1) append_staged, erule staged_safe)
    have res: "triple (staged f root d tmp i c) (assertStorageReserve W cfg (length ch)) (\<lambda>v. staged f root d tmp i c) (\<lambda>e. upload_safe ov ok full tmp f)"
      by (rule triple_weaken [OF keeps_reserve [OF assms, where P = "staged f root d tmp i c"]]) (assumption | erule staged_safe)+
    show ?thesis using triple_andThen [OF res triple_andThen [OF app rest]] False by (simp add: Let_def)
  qed
qed

lemma triple_stream:
  assumes "quiet W"
  shows "triple (\<lambda>g. grown f g \<and> pinned g d root) (stream_upload W cfg q d tmp)
    (\<lambda>n g. (\<exists>i. staged f root d tmp i (concat (ur_chunks q)) g) \<and> n = length (concat (ur_chunks q)) \<and> n \<le> fc_uploadMaxBytes cfg \<and> ur_complete q)
    (\<lambda>e. upload_safe ov (ur_complete q) (concat (ur_chunks q)) tmp f)"
  unfolding stream_upload_def
proof (rule triple_andThen [where R = "\<lambda>i. staged f root d tmp i []"])
  show "triple (\<lambda>g. grown f g \<and> pinned g d root) (syscall W (os_create d tmp [])) (\<lambda>i. staged f root d tmp i [])
      (\<lambda>e. upload_safe ov (ur_complete q) (concat (ur_chunks q)) tmp f)"
  proof (rule triple_syscall [OF assms]; elim conjE)
    show "staged f root d tmp i [] g'" if "grown f g" "pinned g d root" "os_create d tmp [] g = (g', Inr i)" for g g' i
      by (rule create_staged [OF that])
    show "upload_safe ov (ur_complete q) (concat (ur_chunks q)) tmp f g'" if "grown f g" "os_create d tmp [] g = (g', Inl e)" for g g' e
    proof -
      have "g' = g" using that(2) by (auto simp: os_create_def split: if_splits prod.splits)
      then show ?thesis using grown_safe [OF that(1)] by simp
    qed
  qed (rule grown_safe)
  show "triple (staged f root d tmp i []) (andThen (write_chunks W cfg i 0 (ur_chunks q)) (\<lambda>n.
       if ur_complete q then return n else throw (Failure ''ECONNRESET'')))
      (\<lambda>n g. (\<exists>i. staged f root d tmp i (concat (ur_chunks q)) g) \<and> n = length (concat (ur_chunks q)) \<and> n \<le> fc_uploadMaxBytes cfg \<and> ur_complete q)
      (\<lambda>e. upload_safe ov (ur_complete q) (concat (ur_chunks q)) tmp f)" for i
    by (rule triple_andThen [OF triple_chunks [OF assms]], simp, rule triple_if, rule triple_return, auto intro: triple_throw staged_safe)
qed

lemma triple_upload_into:
  assumes "quiet W" "name \<noteq> tmp"
  shows "triple (\<lambda>g. grown f g \<and> pinned g d root) (upload_into W cfg q root tmp d name ov)
    (\<lambda>n g. published root d name tmp (concat (ur_chunks q)) f g \<and> upload_safe ov (ur_complete q) (concat (ur_chunks q)) tmp f g \<and>
       n = length (concat (ur_chunks q)) \<and> n \<le> fc_uploadMaxBytes cfg \<and> ur_complete q)
    (\<lambda>e. upload_safe ov (ur_complete q) (concat (ur_chunks q)) tmp f)" (is "triple _ _ ?Q ?E")
  unfolding upload_into_def
proof (rule triple_catching [where R = ?E])
  let ?full = "concat (ur_chunks q)"
  let ?st = "\<lambda>n g. (\<exists>i. staged f root d tmp i ?full g) \<and> n = length ?full \<and> n \<le> fc_uploadMaxBytes cfg \<and> ur_complete q"
  have "triple (\<lambda>g. grown f g \<and> pinned g d root)
      (assertStorageReserve W cfg (case ur_declared q of None \<Rightarrow> 1 | Some n \<Rightarrow> n)) (\<lambda>v g. grown f g \<and> pinned g d root) ?E"
    by (rule triple_weaken [OF keeps_reserve [OF assms(1), where P = "\<lambda>g. grown f g \<and> pinned g d root"]])
      (assumption | auto intro: grown_safe)+
  moreover have "triple (?st n) (assertSharedUploadParent W cfg d root) (\<lambda>v. ?st n) ?E" for n
    by (rule triple_weaken [OF keeps_shared [OF assms(1), where P = "?st n"]]) (assumption | auto intro: staged_safe)+
  moreover have "triple (?st n) (andThen (commitTemporary W d tmp name ov) (\<lambda>_. return n)) ?Q ?E" for n
  proof (rule triple_andThen [where R = "\<lambda>v g. published root d name tmp ?full f g \<and> upload_safe ov (ur_complete q) ?full tmp f g \<and>
      n = length ?full \<and> n \<le> fc_uploadMaxBytes cfg \<and> ur_complete q"])
    show "triple (?st n) (commitTemporary W d tmp name ov) (\<lambda>v g. published root d name tmp ?full f g \<and> upload_safe ov (ur_complete q) ?full tmp f g \<and>
        n = length ?full \<and> n \<le> fc_uploadMaxBytes cfg \<and> ur_complete q) ?E"
      using triple_commit [OF assms, where f = f and root = root and d = d and full = "concat (ur_chunks q)" and ov = ov and ok = "ur_complete q"]
      by (cases "ur_complete q") (simp_all add: triple_def, blast)
  qed (simp add: triple_return)
  ultimately show "triple (\<lambda>g. grown f g \<and> pinned g d root)
      (andThen (assertStorageReserve W cfg (case ur_declared q of None \<Rightarrow> 1 | Some n \<Rightarrow> n)) (\<lambda>_.
        andThen (stream_upload W cfg q d tmp) (\<lambda>n.
        andThen (assertSharedUploadParent W cfg d root) (\<lambda>_.
        andThen (commitTemporary W d tmp name ov) (\<lambda>_. return n))))) ?Q ?E"
    by (intro triple_andThen [OF _ triple_andThen [OF triple_stream [OF assms(1)] triple_andThen]])
  show "triple (?E e) (andThen (ignoring (syscall W (os_unlink d tmp))) (\<lambda>_. throw e)) ?Q ?E" for e
  proof (rule triple_andThen)
    show "triple (?E e) (ignoring (syscall W (os_unlink d tmp))) (\<lambda>v. ?E e) ?E"
      by (rule triple_ignoring, rule triple_syscall [OF assms(1)]) (assumption | erule (1) safe_unlink)+
  qed (simp add: triple_throw)
qed

text \<open>
  C31. However its system calls fail and the body breaks off, an upload changes no existing
  content, and a name it changes (other than its temporary one) names either a new directory
  or the complete body in a new file; without \<open>overwrite\<close> that name was free before. When it
  reports success, the last part of the path, in a directory within its root, names the whole
  body, within the limit, and the temporary name is gone.
\<close>

theorem upload_is_atomic:
  assumes "quiet W" and "fresh_inodes (os_fs s)"
    and "\<And>m. mutation (fc_policy cfg) candidate = Inr m \<Longrightarrow> tmp \<noteq> last (mu_segments m)"
    and "upload W cfg q candidate ov tmp s = (s', r)"
  shows "upload_safe ov (ur_complete q) (concat (ur_chunks q)) tmp (os_fs s) (os_fs s') \<and>
    (\<forall>v. r = Inr v \<longrightarrow> (\<exists>m d. mutation (fc_policy cfg) candidate = Inr m \<and>
      v = Uploaded (mu_displayPath m) (length (concat (ur_chunks q))) (fc_sha256 cfg (concat (ur_chunks q))) \<and>
      ur_complete q \<and> length (concat (ur_chunks q)) \<le> fc_uploadMaxBytes cfg \<and>
      published (mu_root m) d (last (mu_segments m)) tmp (concat (ur_chunks q)) (os_fs s) (os_fs s')))"
proof -
  define f where "f = os_fs s"
  let ?full = "concat (ur_chunks q)"
  let ?E = "\<lambda>e. upload_safe ov (ur_complete q) ?full tmp f"
  let ?Q = "\<lambda>v g. upload_safe ov (ur_complete q) ?full tmp f g \<and> (\<exists>m d. mutation (fc_policy cfg) candidate = Inr m \<and>
      v = Uploaded (mu_displayPath m) (length ?full) (fc_sha256 cfg ?full) \<and> ur_complete q \<and> length ?full \<le> fc_uploadMaxBytes cfg \<and>
      published (mu_root m) d (last (mu_segments m)) tmp ?full f g)"
  have body: "triple (\<lambda>g. grown f g \<and> pinned g (fst v) (mu_root m) \<and> snd v = last (mu_segments m)) (case v of (d, name) \<Rightarrow>
       if (case ur_declared q of None \<Rightarrow> False | Some n \<Rightarrow> n > fc_uploadMaxBytes cfg) then throw file_too_large else
       andThen (upload_into W cfg q (mu_root m) tmp d name ov) (\<lambda>n. return (Uploaded (mu_displayPath m) n (fc_sha256 cfg ?full)))) ?Q ?E"
    if m: "mutation (fc_policy cfg) candidate = Inr m" for m v
  proof (rule triple_prod, rule triple_if)
    fix d name
    assume v: "v = (d, name)"
    show "triple (\<lambda>g. grown f g \<and> pinned g (fst v) (mu_root m) \<and> snd v = last (mu_segments m)) (throw file_too_large) ?Q ?E"
      by (rule triple_throw) (auto intro: grown_safe)
    show "triple (\<lambda>g. grown f g \<and> pinned g (fst v) (mu_root m) \<and> snd v = last (mu_segments m))
        (andThen (upload_into W cfg q (mu_root m) tmp d name ov) (\<lambda>n. return (Uploaded (mu_displayPath m) n (fc_sha256 cfg ?full)))) ?Q ?E"
    proof (rule triple_pointwise)
      fix g
      assume g: "grown f g \<and> pinned g (fst v) (mu_root m) \<and> snd v = last (mu_segments m)"
      then have name: "name = last (mu_segments m)" "name \<noteq> tmp" using v assms(3) [OF m] by auto
      have "triple (\<lambda>h. h = g) (upload_into W cfg q (mu_root m) tmp d name ov)
          (\<lambda>n h. published (mu_root m) d name tmp ?full f h \<and> upload_safe ov (ur_complete q) ?full tmp f h \<and> n = length ?full \<and> n \<le> fc_uploadMaxBytes cfg \<and> ur_complete q) ?E"
        by (rule triple_weaken [OF triple_upload_into [OF assms(1) name(2)]]) (use g v in auto)
      then show "triple (\<lambda>h. h = g) (andThen (upload_into W cfg q (mu_root m) tmp d name ov)
          (\<lambda>n. return (Uploaded (mu_displayPath m) n (fc_sha256 cfg ?full)))) ?Q ?E"
        by (rule triple_andThen, intro triple_return) (use m name(1) in auto)
    qed
  qed
  have whole: "triple (grown f) (upload W cfg q candidate ov tmp) ?Q ?E"
    unfolding upload_def
  proof (rule triple_andThen [where R = "\<lambda>m g. grown f g \<and> mutation (fc_policy cfg) candidate = Inr m"])
    show "triple (grown f) (from_result (mutation (fc_policy cfg) candidate))
        (\<lambda>m g. grown f g \<and> mutation (fc_policy cfg) candidate = Inr m) ?E"
      by (rule triple_result) (auto intro: grown_safe)
    show "triple (\<lambda>g. grown f g \<and> mutation (fc_policy cfg) candidate = Inr m)
        (andThen (openMutationParent W cfg True m) (\<lambda>(d, name).
           if (case ur_declared q of None \<Rightarrow> False | Some n \<Rightarrow> n > fc_uploadMaxBytes cfg) then throw file_too_large else
           andThen (upload_into W cfg q (mu_root m) tmp d name ov) (\<lambda>n. return (Uploaded (mu_displayPath m) n (fc_sha256 cfg ?full))))) ?Q ?E" for m
    proof (cases "mutation (fc_policy cfg) candidate = Inr m")
      case True
      have o: "triple (\<lambda>g. grown f g \<and> mutation (fc_policy cfg) candidate = Inr m) (openMutationParent W cfg True m)
          (\<lambda>v g. grown f g \<and> pinned g (fst v) (mu_root m) \<and> snd v = last (mu_segments m)) ?E"
        by (rule triple_weaken [OF grown_open [OF assms(1), where f = f]]) (auto intro: grown_safe)
      show ?thesis by (rule triple_andThen [OF o body [OF True]])
    qed (simp add: triple_def)
  qed
  have start: "grown f (os_fs s)" using grown_refl assms(2) by (simp add: f_def)
  show ?thesis
  proof (cases r)
    case (Inl e)
    then show ?thesis using tripleD(2) [OF whole start assms(4) Inl] by (simp add: f_def)
  next
    case (Inr v)
    have "?Q v (os_fs s')" by (rule tripleD(1) [OF whole start assms(4) Inr])
    then show ?thesis unfolding f_def by (simp only: Inr sum.inject sum.distinct) blast
  qed
qed

definition ex_upload :: "schedule \<Rightarrow> string list \<Rightarrow> bool \<Rightarrow> string \<Rightarrow> os \<times> (bridge_exc + file_result)" where
  "ex_upload W chunks complete path = upload W ex_file_cfg \<lparr>ur_declared = None, ur_chunks = chunks, ur_complete = complete\<rparr>
     (Some path) False ''.part'' \<lparr>os_fs = ex_fs, os_calls = 0\<rparr>"

lemma ex_fs_fresh: "fresh_inodes ex_fs"
  unfolding fresh_inodes_def entry_def entries_def ex_fs_def
  by (auto split: option.splits node.splits if_splits dest!: map_of_SomeD)

theorem upload_is_atomic_witness:
  "(\<exists>i. entry (os_fs (fst (ex_upload calm_world [''ab'', ''c''] True ''sub/new/file''))) 5 ''file'' = Some i \<and>
      content (os_fs (fst (ex_upload calm_world [''ab'', ''c''] True ''sub/new/file''))) i = Some ''abc'') \<and>
    upload_safe False False ''ab'' ''.part'' ex_fs (os_fs (fst (ex_upload calm_world [''ab''] False ''b''))) \<and>
    snd (ex_upload calm_world [''abc'', ''de''] True ''n'') = Inl file_too_large \<and>
    snd (ex_upload calm_world [''x''] True ''b'') = Inl (bridgeError ''destination_exists'' 409)"
proof (intro conjI)
  have q: "quiet calm_world" by simp
  have st: "fresh_inodes (os_fs \<lparr>os_fs = ex_fs, os_calls = 0\<rparr>)" by (simp add: ex_fs_fresh)
  have "mutation (fc_policy ex_file_cfg) (Some ''b'') = Inr \<lparr>mu_root = ''/w'', mu_relative = ''b'', mu_segments = [''b''], mu_displayPath = ''/w/b''\<rparr>"
    by code_simp
  then have t: "''.part'' \<noteq> last (mu_segments m)" if "mutation (fc_policy ex_file_cfg) (Some ''b'') = Inr m" for m
    using that by auto
  have run: "upload calm_world ex_file_cfg \<lparr>ur_declared = None, ur_chunks = [''ab''], ur_complete = False\<rparr> (Some ''b'') False ''.part''
      \<lparr>os_fs = ex_fs, os_calls = 0\<rparr> = (fst (ex_upload calm_world [''ab''] False ''b''), snd (ex_upload calm_world [''ab''] False ''b''))"
    by (simp add: ex_upload_def)
  show "upload_safe False False ''ab'' ''.part'' ex_fs (os_fs (fst (ex_upload calm_world [''ab''] False ''b'')))"
    using upload_is_atomic [OF q st t run] by simp
  have "entry (os_fs (fst (ex_upload calm_world [''ab'', ''c''] True ''sub/new/file''))) 5 ''file'' = Some 6" by code_simp
  moreover have "content (os_fs (fst (ex_upload calm_world [''ab'', ''c''] True ''sub/new/file''))) 6 = Some ''abc''" by code_simp
  ultimately show "\<exists>i. entry (os_fs (fst (ex_upload calm_world [''ab'', ''c''] True ''sub/new/file''))) 5 ''file'' = Some i \<and>
      content (os_fs (fst (ex_upload calm_world [''ab'', ''c''] True ''sub/new/file''))) i = Some ''abc''" by blast
qed code_simp+

end
