(* ===== verification/FileReads.thy ===== *)
theory FileReads
  imports Files Slots
begin

text \<open>
  The reading side of \<^verbatim>\<open>apps/agent/src/files.js\<close>, and the counter of concurrent transfers.
\<close>

section \<open>Reading\<close>

text \<open>\<open>resolve\<close> looks at the tree as it is at that moment.\<close>

definition resolve_now :: "schedule \<Rightarrow> file_cfg \<Rightarrow> string option \<Rightarrow> string action" where
  "resolve_now W cfg candidate = syscall W (\<lambda>f. (f, resolve (fc_policy cfg) (\<lambda>p. case fc_walk cfg f p of Inl e \<Rightarrow> False | Inr i \<Rightarrow> True)
     (fc_realpath cfg f) candidate))"

definition walk :: "schedule \<Rightarrow> file_cfg \<Rightarrow> string \<Rightarrow> ino action" where
  "walk W cfg p = syscall W (\<lambda>f. (f, fc_walk cfg f p))"

definition stat_file :: "schedule \<Rightarrow> file_cfg \<Rightarrow> string option \<Rightarrow> file_result action" where
  "stat_file W cfg candidate =
     andThen (resolve_now W cfg candidate) (\<lambda>resolved.
     andThen (walk W cfg resolved) (\<lambda>i.
     andThen (syscall W (\<lambda>f. (f, Inr (map_option kind_of (fs_nodes f i), fc_size cfg f i)))) (\<lambda>(kd, sz).
       if kd \<noteq> Some KFile then throw (bridgeError ''not_a_file'' 400) else return (Stat resolved sz))))"

definition read_file :: "schedule \<Rightarrow> file_cfg \<Rightarrow> string option \<Rightarrow> string action" where
  "read_file W cfg candidate =
     andThen (resolve_now W cfg candidate) (\<lambda>resolved. andThen (walk W cfg resolved) (\<lambda>i. syscall W (os_read i)))"

definition metadata :: "schedule \<Rightarrow> file_cfg \<Rightarrow> string option \<Rightarrow> file_result action" where
  "metadata W cfg candidate =
     andThen (stat_file W cfg candidate) (\<lambda>st.
     andThen (read_file W cfg candidate) (\<lambda>text.
       return (Metadata (case st of Stat p n \<Rightarrow> n | _ \<Rightarrow> 0) (fc_sha256 cfg text))))"

text \<open>The type of an entry is its own, its size the size of what a link leads to.\<close>

fun list_entries :: "schedule \<Rightarrow> file_cfg \<Rightarrow> string \<Rightarrow> (string \<times> ino) list \<Rightarrow> (string \<times> string \<times> kind \<times> nat) list action" where
  "list_entries W cfg resolved [] = return []"
| "list_entries W cfg resolved ((n, i) # es) =
     (let p = path_join resolved [n] in
      andThen (walk W cfg p) (\<lambda>target.
      andThen (syscall W (\<lambda>f. (f, Inr (case fs_nodes f i of Some nd \<Rightarrow> kind_of nd | None \<Rightarrow> KOther, fc_size cfg f target)))) (\<lambda>(kd, sz).
      andThen (list_entries W cfg resolved es) (\<lambda>rest. return ((n, p, kd, sz) # rest)))))"

definition list_dir :: "schedule \<Rightarrow> file_cfg \<Rightarrow> string option \<Rightarrow> file_result action" where
  "list_dir W cfg candidate =
     andThen (resolve_now W cfg candidate) (\<lambda>resolved.
     andThen (walk W cfg resolved) (\<lambda>d.
     andThen (syscall W (\<lambda>f. (f, if is_dir f d then Inr (entries f d) else Inl (Failure ''ENOTDIR'')))) (\<lambda>es.
     andThen (list_entries W cfg resolved es) (\<lambda>out. return (Listed resolved out)))))"

section \<open>Transfers\<close>

text \<open>\<open>tr_held\<close> are the release functions handed out and not called yet.\<close>

record transfers =
  tr_active :: nat
  tr_held :: "nat list"
  tr_next :: nat

definition no_transfers :: transfers where
  "no_transfers = \<lparr>tr_active = 0, tr_held = [], tr_next = 0\<rparr>"

definition acquireTransfer :: "nat \<Rightarrow> transfers \<Rightarrow> transfers \<times> (bridge_exc + nat)" where
  "acquireTransfer maxConcurrent t =
     (if tr_active t \<ge> maxConcurrent then (t, Inl (bridgeError ''transfer_busy'' 429))
      else (t\<lparr>tr_active := tr_active t + 1, tr_held := tr_next t # tr_held t, tr_next := tr_next t + 1\<rparr>, Inr (tr_next t)))"

text \<open>The release function with number \<open>k\<close>; a second call does nothing.\<close>

definition release :: "nat \<Rightarrow> transfers \<Rightarrow> transfers" where
  "release k t = (if k \<in> set (tr_held t) then t\<lparr>tr_active := tr_active t - 1, tr_held := remove1 k (tr_held t)\<rparr> else t)"

datatype transfer_op = Acquire | Release nat

fun transfer_step :: "nat \<Rightarrow> transfer_op \<Rightarrow> transfers \<Rightarrow> transfers" where
  "transfer_step maxConcurrent Acquire t = fst (acquireTransfer maxConcurrent t)"
| "transfer_step maxConcurrent (Release k) t = release k t"

definition transfers_ok :: "transfers \<Rightarrow> bool" where
  "transfers_ok t \<longleftrightarrow> tr_active t = length (tr_held t) \<and> distinct (tr_held t) \<and> (\<forall>k \<in> set (tr_held t). k < tr_next t)"

lemma transfers_ok_step: "transfers_ok t \<Longrightarrow> transfers_ok (transfer_step m x t)"
  by (cases x) (auto simp: transfers_ok_def acquireTransfer_def release_def length_remove1 dest: notin_set_remove1)

interpretation file_gate: slot_gate "transfer_step m" transfers_ok tr_active m
proof
  show "transfers_ok (transfer_step m x t)" if "transfers_ok t" for x t using that by (rule transfers_ok_step)
  show "tr_active (transfer_step m x t) \<le> tr_active t \<or> tr_active (transfer_step m x t) \<le> m" if "transfers_ok t" for x t
    by (cases x) (auto simp: acquireTransfer_def release_def)
qed

lemma transfers_bounded:
  "tr_active (file_gate.steps m xs no_transfers) \<le> m"
  "tr_active (file_gate.steps m xs no_transfers) = length (tr_held (file_gate.steps m xs no_transfers))"
proof -
  have ok: "transfers_ok no_transfers" by (simp add: transfers_ok_def no_transfers_def)
  show "tr_active (file_gate.steps m xs no_transfers) \<le> m"
    using file_gate.bounded [OF ok, of m xs] by (simp add: no_transfers_def)
  show "tr_active (file_gate.steps m xs no_transfers) = length (tr_held (file_gate.steps m xs no_transfers))"
    using file_gate.good_steps [OF ok, of m xs] by (simp add: transfers_ok_def)
qed

end
