(* ===== verification/AttachmentAddress.thy ===== *)
theory AttachmentAddress
  imports Prelude "HOL-Library.Word" "HOL-Library.Code_Target_Nat"
begin

text \<open>
  Which addresses the attachment fetcher may connect to, the first part of
  \<^verbatim>\<open>packages/core/src/attachment-fetch.js\<close>: address texts as \<^verbatim>\<open>net.isIP\<close> accepts them, IPv4
  values as 32-bit words, IPv6 values as eight groups.
\<close>

unbundle bit_operations_syntax

section \<open>Address texts\<close>

definition octet_text :: "string \<Rightarrow> bool" where
  "octet_text s \<longleftrightarrow> s \<noteq> [] \<and> length s \<le> 3 \<and> all_digits s \<and> (s = ''0'' \<or> hd s \<noteq> CHR ''0'') \<and> read_nat s \<le> 255"

definition isIPv4 :: "string \<Rightarrow> bool" where
  "isIPv4 s \<longleftrightarrow> length (split_on CHR ''.'' s) = 4 \<and> list_all octet_text (split_on CHR ''.'' s)"

definition is_hex :: "char \<Rightarrow> bool" where
  "is_hex c \<longleftrightarrow> is_digit c \<or> c \<in> set ''abcdefABCDEF''"

definition hex_group :: "string \<Rightarrow> bool" where
  "hex_group s \<longleftrightarrow> s \<noteq> [] \<and> length s \<le> 4 \<and> list_all is_hex s"

text \<open>\<^verbatim>\<open>s.split("::")\<close>\<close>

fun split_double :: "string \<Rightarrow> string list" where
  "split_double (a # b # s) = (if a = CHR '':'' \<and> b = CHR '':'' then [] # split_double s
     else (case split_double (b # s) of [] \<Rightarrow> [[a]] | p # ps \<Rightarrow> (a # p) # ps))"
| "split_double s = [s]"

definition groups_of :: "string \<Rightarrow> string list" where
  "groups_of s = (if s = [] then [] else split_on CHR '':'' s)"

text \<open>The number of 16-bit groups, where the last one may be an IPv4 text and counts twice.\<close>

definition group_count :: "bool \<Rightarrow> string list \<Rightarrow> nat option" where
  "group_count tail gs = (if list_all hex_group gs then Some (length gs)
     else if tail \<and> gs \<noteq> [] \<and> list_all hex_group (butlast gs) \<and> isIPv4 (last gs) then Some (length gs + 1) else None)"

definition zone_char :: "char \<Rightarrow> bool" where
  "zone_char c \<longleftrightarrow> is_alnum c \<or> c \<in> set ''-.:''"

definition isIPv6_plain :: "string \<Rightarrow> bool" where
  "isIPv6_plain s \<longleftrightarrow> (case split_double s of
       [x] \<Rightarrow> group_count True (groups_of x) = Some 8
     | [l, r] \<Rightarrow> (case (group_count False (groups_of l), group_count True (groups_of r)) of
           (Some m, Some n) \<Rightarrow> m + n \<le> 7 | _ \<Rightarrow> False)
     | _ \<Rightarrow> False)"

definition isIPv6 :: "string \<Rightarrow> bool" where
  "isIPv6 s \<longleftrightarrow> (case split_on CHR ''%'' s of
       [a] \<Rightarrow> isIPv6_plain a | [a, z] \<Rightarrow> isIPv6_plain a \<and> z \<noteq> [] \<and> list_all zone_char z | _ \<Rightarrow> False)"

definition isIP :: "string \<Rightarrow> nat" where
  "isIP s = (if isIPv4 s then 4 else if isIPv6 s then 6 else 0)"

section \<open>IPv4\<close>

type_synonym u32 = "32 word"

definition parseIpv4 :: "string \<Rightarrow> u32 option" where
  "parseIpv4 address = (if isIP address \<noteq> 4 then None
     else Some (foldl (\<lambda>v octet. push_bit 8 v OR word_of_nat octet) 0 (map read_nat (split_on CHR ''.'' address))))"

definition ipv4InRange :: "u32 \<Rightarrow> string \<Rightarrow> nat \<Rightarrow> bool" where
  "ipv4InRange v base prefix = (let m = (if prefix = 0 then 0 else push_bit (32 - prefix) (- 1)) :: u32 in
     v AND m = (case parseIpv4 base of None \<Rightarrow> 0 | Some b \<Rightarrow> b) AND m)"

definition blocked :: "(string \<times> nat) list" where
  "blocked = [(''0.0.0.0'', 8), (''10.0.0.0'', 8), (''100.64.0.0'', 10), (''127.0.0.0'', 8), (''169.254.0.0'', 16),
     (''172.16.0.0'', 12), (''192.0.0.0'', 24), (''192.0.2.0'', 24), (''192.88.99.0'', 24), (''192.168.0.0'', 16),
     (''198.18.0.0'', 15), (''198.51.100.0'', 24), (''203.0.113.0'', 24), (''224.0.0.0'', 4), (''240.0.0.0'', 4)]"

definition isPublicIpv4 :: "string \<Rightarrow> bool" where
  "isPublicIpv4 address = (case parseIpv4 address of None \<Rightarrow> False
     | Some v \<Rightarrow> \<not> list_ex (\<lambda>(base, prefix). ipv4InRange v base prefix) blocked)"

section \<open>IPv6\<close>

definition lower :: "char \<Rightarrow> char" where
  "lower c = (if is_upper c then char_of (of_char c + 32 :: nat) else c)"

definition hex_val :: "char \<Rightarrow> nat" where
  "hex_val c = (if is_digit c then digit_val c else of_char c - 87)"

definition read_hex :: "string \<Rightarrow> nat" where
  "read_hex s = foldl (\<lambda>n c. 16 * n + hex_val c) 0 s"

definition hex_digit :: "nat \<Rightarrow> char" where
  "hex_digit n = (if n < 10 then digit_char n else char_of (n + 87))"

fun show_hex :: "nat \<Rightarrow> string" where
  "show_hex n = (if n < 16 then [hex_digit n] else show_hex (n div 16) @ [hex_digit (n mod 16)])"

text \<open>The part before and after the last colon.\<close>

definition before_last_colon :: "string \<Rightarrow> string" where
  "before_last_colon s = join_with '':'' (butlast (split_on CHR '':'' s))"

definition after_last_colon :: "string \<Rightarrow> string" where
  "after_last_colon s = last (split_on CHR '':'' s)"

definition expand_words :: "string \<Rightarrow> nat list option" where
  "expand_words s = (let halves = split_double s in
     if length halves > 2 then None else
     (let left = groups_of (hd halves); right = (if length halves = 2 then groups_of (halves ! 1) else []);
          given = length left + length right
      in if given > 8 \<or> (length halves = 1 \<and> given \<noteq> 8) then None
         else (let ws = map (\<lambda>w. read_hex (if w = [] then ''0'' else w)) (left @ replicate (8 - given) ''0'' @ right)
               in if length ws = 8 \<and> list_all (\<lambda>w. w \<le> 65535) ws then Some ws else None)))"

definition parseIpv6 :: "string \<Rightarrow> nat list option" where
  "parseIpv6 address = (let v = hd (split_on CHR ''%'' (map lower address)) in
     if isIP v \<noteq> 6 then None
     else if CHR ''.'' \<in> set v
     then (case parseIpv4 (after_last_colon v) of
         None \<Rightarrow> None
       | Some n \<Rightarrow> expand_words (before_last_colon v @ '':'' @ show_hex (unat (drop_bit 16 n)) @ '':'' @ show_hex (unat (n AND 65535))))
     else expand_words v)"

definition dotted :: "nat list \<Rightarrow> string" where
  "dotted octets = join_with ''.'' (map show_nat octets)"

definition embedded :: "nat \<Rightarrow> nat \<Rightarrow> string" where
  "embedded hi lo = dotted [hi div 256, hi mod 256, lo div 256, lo mod 256]"

definition isPublicWords :: "nat list \<Rightarrow> bool" where
  "isPublicWords ws =
     (if list_all (\<lambda>w. w = 0) (take 5 ws) \<and> ws ! 5 = 65535 then isPublicIpv4 (embedded (ws ! 6) (ws ! 7))
      else if ws ! 0 = 8194 then isPublicIpv4 (embedded (ws ! 1) (ws ! 2))
      else (let globalUnicast = ((ws ! 0) AND 57344 = 8192);
                documentation = (ws ! 0 = 8193 \<and> ws ! 1 = 3512);
                teredo = (ws ! 0 = 8193 \<and> ws ! 1 = 0);
                orchid = (ws ! 0 = 8193 \<and> (ws ! 1) AND 65520 = 16);
                orchidV2 = (ws ! 0 = 8193 \<and> (ws ! 1) AND 65520 = 32);
                documentationV2 = (ws ! 0 = 16383 \<and> (ws ! 1) AND 61440 = 0)
            in globalUnicast \<and> \<not> documentation \<and> \<not> documentationV2 \<and> \<not> teredo \<and> \<not> orchid \<and> \<not> orchidV2))"

definition isPublicIpv6 :: "string \<Rightarrow> bool" where
  "isPublicIpv6 address = (case parseIpv6 address of None \<Rightarrow> False | Some ws \<Rightarrow> isPublicWords ws)"

definition isPublicAttachmentAddress :: "string \<Rightarrow> bool" where
  "isPublicAttachmentAddress address =
     (if isIP address = 4 then isPublicIpv4 address else if isIP address = 6 then isPublicIpv6 address else False)"

section \<open>Masks as ranges\<close>

lemma masked_eq:
  fixes v b :: u32
  assumes "k < 32"
  shows "v AND push_bit k (- 1) = b AND push_bit k (- 1) \<longleftrightarrow> unat v div 2 ^ k = unat b div 2 ^ k"
proof -
  have "x AND push_bit k (- 1) = push_bit k (drop_bit k x)" for x :: u32
    by (rule bit_word_eqI) (auto simp: bit_simps dest: bit_imp_le_length)
  moreover have "push_bit k (drop_bit k v) = push_bit k (drop_bit k b) \<longleftrightarrow> drop_bit k v = drop_bit k b"
  proof
    assume eq: "push_bit k (drop_bit k v) = push_bit k (drop_bit k b)"
    have "drop_bit k (push_bit k (drop_bit k x)) = drop_bit k x" for x :: u32
      by (rule bit_word_eqI) (auto simp: bit_simps dest: bit_imp_le_length)
    then show "drop_bit k v = drop_bit k b" using eq by metis
  qed simp
  moreover have "drop_bit k v = drop_bit k b \<longleftrightarrow> unat v div 2 ^ k = unat b div 2 ^ k"
    unfolding word_unat_eq_iff unat_drop_bit_eq by (simp only: drop_bit_eq_div)
  ultimately show ?thesis by simp
qed

end
