(* ===== verification/AttachmentFetch.thy ===== *)
theory AttachmentFetch
  imports AttachmentAddress Bridge Identifiers Slots
begin

text \<open>
  The attachment fetcher, \<open>AttachmentFetcher\<close> of \<^verbatim>\<open>packages/core/src/attachment-fetch.js\<close>:
  redirects, name resolution, connections to the resolved address, the size limit and the
  concurrency limit. The URL parser and the name service are arguments; what each hop meets
  is a record of answers.
\<close>

section \<open>Configuration and scope\<close>

record fetch_cfg =
  ft_timeoutMs :: int
  ft_maxBytes :: int
  ft_maxRedirects :: int
  ft_maxConcurrent :: int

definition newAttachmentFetcher :: "fetch_cfg \<Rightarrow> bridge_exc + fetch_cfg" where
  "newAttachmentFetcher cfg =
     (if ft_timeoutMs cfg < 1 then Inl (Failure ''Error'')
      else if ft_maxBytes cfg < 1 then Inl (Failure ''Error'')
      else if ft_maxRedirects cfg < 0 then Inl (Failure ''Error'')
      else if ft_maxConcurrent cfg < 1 then Inl (Failure ''Error'')
      else Inr cfg)"

text \<open>
  The abort scope: the reason of an abort, \<^term>\<open>Some None\<close> for one that is no \<open>BridgeError\<close>, and
  whether the timer has fired.
\<close>

record abort_scope =
  as_reason :: "bridge_exc option option"
  as_timeout :: bool

definition attachment_timeout :: bridge_exc where
  "attachment_timeout = bridgeError ''attachment_timeout'' 504"

definition scope_error :: "abort_scope \<Rightarrow> bridge_exc" where
  "scope_error sc = (case as_reason sc of
       Some (Some (BridgeError c s d)) \<Rightarrow> BridgeError c s d
     | _ \<Rightarrow> if as_timeout sc then attachment_timeout else bridgeError ''attachment_cancelled'' 499)"

definition unaborted :: abort_scope where
  "unaborted = \<lparr>as_reason = None, as_timeout = False\<rparr>"

text \<open>The timer and the caller: the first of them to abort gives the reason.\<close>

definition timer_fires :: "abort_scope \<Rightarrow> abort_scope" where
  "timer_fires sc = sc\<lparr>as_timeout := True, as_reason := (if as_reason sc = None then Some (Some attachment_timeout) else as_reason sc)\<rparr>"

definition abortFromCaller :: "bridge_exc option \<Rightarrow> abort_scope \<Rightarrow> abort_scope" where
  "abortFromCaller reason sc = (if as_reason sc = None then sc\<lparr>as_reason := Some reason\<rparr> else sc)"

section \<open>One hop\<close>

text \<open>\<^verbatim>\<open>dns.lookup\<close>; a literal address is not looked up.\<close>

definition literal_of :: "string \<Rightarrow> string" where
  "literal_of h = (if h \<noteq> [] \<and> hd h = CHR ''['' \<and> last h = CHR '']'' then butlast (tl h) else h)"

definition resolveHost :: "(string \<Rightarrow> bridge_exc + (string \<times> nat) list) \<Rightarrow> string \<Rightarrow> bridge_exc + (string \<times> nat) list" where
  "resolveHost lookup h = (let lit = literal_of h in
     if isIP lit \<noteq> 0 then Inr [(lit, isIP lit)] else lookup lit)"

text \<open>
  What happens to a body after its headers: a chunk arrives, its reader has come to the end, the connection breaks, the
  timer fires, the caller aborts (with a reason that may be no \<open>BridgeError\<close>), or \<^verbatim>\<open>dispose\<close> is called.
\<close>

datatype body_event = Chunk string | BodyEnd | BodyBroken | TimerFires | CallerAborts "bridge_exc option" | Disposed

record response =
  rp_status :: nat
  rp_location :: "string option"
  rp_contentLength :: "string option"
  rp_hasBody :: bool
  rp_body :: "body_event list"

text \<open>The state of the scope at the head of the loop, during the lookup and after the request.\<close>

record hop =
  hp_before :: abort_scope
  hp_lookup_scope :: abort_scope
  hp_lookup :: "string \<Rightarrow> bridge_exc + (string \<times> nat) list"
  hp_after :: abort_scope
  hp_open :: "url \<Rightarrow> string \<Rightarrow> bridge_exc + response"

definition url_allowed :: "url \<Rightarrow> bool" where
  "url_allowed u \<longleftrightarrow> protocol u = ''https:'' \<and> username u = [] \<and> password u = [] \<and> (port u = [] \<or> port u = ''443'')"

text \<open>\<^verbatim>\<open>withAbort\<close>: an abort that came first wins over the answer.\<close>

definition withAbort :: "abort_scope \<Rightarrow> bridge_exc + 'a \<Rightarrow> bridge_exc + 'a" where
  "withAbort sc r = (if as_reason sc \<noteq> None then Inl (scope_error sc) else r)"

definition pick_address :: "hop \<Rightarrow> url \<Rightarrow> bridge_exc + string \<times> nat" where
  "pick_address hp u =
     (if as_reason (hp_before hp) \<noteq> None then Inl (scope_error (hp_before hp))
      else if \<not> url_allowed u then Inl (bridgeError ''attachment_url_blocked'' 400)
      else (case withAbort (hp_lookup_scope hp) (resolveHost (hp_lookup hp) (hostname u)) of
          Inl e \<Rightarrow> Inl e
        | Inr records \<Rightarrow>
            if records = [] then Inl (bridgeError ''attachment_dns_failed'' 502)
            else if list_ex (\<lambda>(address, family). \<not> isPublicAttachmentAddress address) records
            then Inl (bridgeError ''attachment_address_blocked'' 400)
            else Inr (hd records)))"

definition fetch_failed :: bridge_exc where
  "fetch_failed = bridgeError ''attachment_fetch_failed'' 502"

definition redirect_blocked :: bridge_exc where
  "redirect_blocked = bridgeError ''attachment_redirect_blocked'' 502"

definition too_large :: bridge_exc where
  "too_large = bridgeError ''attachment_too_large'' 413"

definition open_response :: "hop \<Rightarrow> url \<Rightarrow> string \<Rightarrow> bridge_exc + response" where
  "open_response hp u address = (case hp_open hp u address of
       Inr r \<Rightarrow> Inr r
     | Inl e \<Rightarrow> Inl (if as_reason (hp_after hp) \<noteq> None then scope_error (hp_after hp) else fetch_failed))"

text \<open>\<^verbatim>\<open>Number.parseInt(text, 10)\<close>: spaces, a sign, the leading digits.\<close>

definition parseInt :: "string \<Rightarrow> int option" where
  "parseInt s = (let t = dropWhile (\<lambda>c. c \<in> set [CHR '' '', CHR 0x09, CHR 0x0A, CHR 0x0B, CHR 0x0C, CHR 0x0D, CHR 0xA0]) s;
                     signed = (t \<noteq> [] \<and> hd t \<in> set ''+-'');
                     ds = takeWhile is_digit (if signed then tl t else t)
                 in if ds = [] then None
                    else Some (if signed \<and> hd t = CHR ''-'' then - int (read_nat ds) else int (read_nat ds)))"

definition accept_response :: "fetch_cfg \<Rightarrow> response \<Rightarrow> bridge_exc + response" where
  "accept_response cfg r =
     (if rp_status r < 200 \<or> rp_status r \<ge> 300 \<or> \<not> rp_hasBody r then Inl fetch_failed
      else (case parseInt (case rp_contentLength r of None \<Rightarrow> [] | Some t \<Rightarrow> t) of
          Some n \<Rightarrow> if n > ft_maxBytes cfg then Inl too_large else Inr r
        | None \<Rightarrow> Inr r))"

section \<open>The redirect loop\<close>

type_synonym connection = "url \<times> string"

type_synonym url_parser = "string \<Rightarrow> url option \<Rightarrow> url option"

text \<open>
  The loop with \<open>left\<close> passes left; the connections it opens, oldest first, and its result.
\<close>

fun fetch_loop :: "fetch_cfg \<Rightarrow> url_parser \<Rightarrow> (nat \<Rightarrow> hop) \<Rightarrow> nat \<Rightarrow> nat \<Rightarrow> url \<Rightarrow> connection list \<times> (bridge_exc + response)" where
  "fetch_loop cfg newURL hops 0 redirects current = ([], Inl redirect_blocked)"
| "fetch_loop cfg newURL hops (Suc left) redirects current =
     (case pick_address (hops redirects) current of
        Inl e \<Rightarrow> ([], Inl e)
      | Inr (address, family) \<Rightarrow>
          (case open_response (hops redirects) current address of
             Inl e \<Rightarrow> ([(current, address)], Inl e)
           | Inr r \<Rightarrow>
               if rp_status r \<in> {301, 302, 303, 307, 308}
               then (case rp_location r of
                    None \<Rightarrow> ([(current, address)], Inl redirect_blocked)
                  | Some location \<Rightarrow>
                      if location = [] \<or> int redirects = ft_maxRedirects cfg then ([(current, address)], Inl redirect_blocked)
                      else (case newURL location (Some current) of
                          None \<Rightarrow> ([(current, address)], Inl (Failure ''ERR_INVALID_URL''))
                        | Some target \<Rightarrow> (case fetch_loop cfg newURL hops left (redirects + 1) target of
                            (cs, res) \<Rightarrow> ((current, address) # cs, res))))
               else ([(current, address)], accept_response cfg r)))"

section \<open>The body\<close>

text \<open>How the stream of the body ends, or that it is still open.\<close>

datatype body_end = Complete | Cut bridge_exc | Dropped | StillOpen

text \<open>\<open>abortBody\<close>: the stream is destroyed with the error of the scope.\<close>

definition abortBody :: "abort_scope \<Rightarrow> body_end" where
  "abortBody sc = Cut (scope_error sc)"

text \<open>
  A connection that breaks does not end the stream: \<^verbatim>\<open>pipe\<close> hands on neither the error nor an end, and the stream waits
  for the timer, the caller or \<^verbatim>\<open>dispose\<close>.
\<close>

fun broken_body :: "body_event list \<Rightarrow> body_end" where
  "broken_body [] = StillOpen"
| "broken_body (TimerFires # evs) = abortBody (timer_fires unaborted)"
| "broken_body (CallerAborts reason # evs) = abortBody (abortFromCaller reason unaborted)"
| "broken_body (Disposed # evs) = Dropped"
| "broken_body (ev # evs) = broken_body evs"

text \<open>
  \<open>ByteLimit\<close> and the abort of the body: the chunks that pass, and how the stream ends. When it ends in an error or is
  disposed, the reader has got a prefix of them.
\<close>

fun byte_limit :: "int \<Rightarrow> int \<Rightarrow> body_event list \<Rightarrow> string list \<times> body_end" where
  "byte_limit maxBytes bytes [] = ([], StillOpen)"
| "byte_limit maxBytes bytes (Chunk c # evs) =
     (let n = bytes + int (length c) in
      if n > maxBytes then ([], Cut too_large)
      else (case byte_limit maxBytes n evs of (out, e) \<Rightarrow> (c # out, e)))"
| "byte_limit maxBytes bytes (BodyEnd # evs) = ([], Complete)"
| "byte_limit maxBytes bytes (BodyBroken # evs) = ([], broken_body evs)"
| "byte_limit maxBytes bytes (TimerFires # evs) = ([], abortBody (timer_fires unaborted))"
| "byte_limit maxBytes bytes (CallerAborts reason # evs) = ([], abortBody (abortFromCaller reason unaborted))"
| "byte_limit maxBytes bytes (Disposed # evs) = ([], Dropped)"

section \<open>Fetching\<close>

text \<open>The slots: how many are active, and the release functions not called yet.\<close>

record fetcher =
  fe_active :: nat
  fe_held :: "nat list"
  fe_next :: nat

definition idle_fetcher :: fetcher where
  "idle_fetcher = \<lparr>fe_active = 0, fe_held = [], fe_next = 0\<rparr>"

definition fetch_release :: "nat \<Rightarrow> fetcher \<Rightarrow> fetcher" where
  "fetch_release k s = (if k \<in> set (fe_held s) then s\<lparr>fe_active := fe_active s - 1, fe_held := remove1 k (fe_held s)\<rparr> else s)"

definition as_bridge_error :: "bridge_exc \<Rightarrow> bridge_exc" where
  "as_bridge_error e = (case e of BridgeError c s d \<Rightarrow> e | Failure m \<Rightarrow> fetch_failed)"

definition fetch ::
  "fetch_cfg \<Rightarrow> url_parser \<Rightarrow> (nat \<Rightarrow> hop) \<Rightarrow> string \<Rightarrow> fetcher \<Rightarrow>
    fetcher \<times> connection list \<times> (bridge_exc + nat \<times> string list \<times> body_end)" where
  "fetch cfg newURL hops rawUrl s =
     (if int (fe_active s) \<ge> ft_maxConcurrent cfg then (s, [], Inl (bridgeError ''attachment_busy'' 429))
      else (let k = fe_next s;
                s1 = s\<lparr>fe_active := fe_active s + 1, fe_held := k # fe_held s, fe_next := k + 1\<rparr>
            in case newURL rawUrl None of
                 None \<Rightarrow> (fetch_release k s1, [], Inl fetch_failed)
               | Some u \<Rightarrow> (case fetch_loop cfg newURL hops (nat (ft_maxRedirects cfg) + 1) 0 u of
                   (cs, Inl e) \<Rightarrow> (fetch_release k s1, cs, Inl (as_bridge_error e))
                 | (cs, Inr r) \<Rightarrow> (s1, cs, Inr (k, byte_limit (ft_maxBytes cfg) 0 (rp_body r))))))"

text \<open>The slot of a fetch is given back when its stream has ended, in whatever way.\<close>

definition finished_body :: "nat \<Rightarrow> body_end \<Rightarrow> fetcher \<Rightarrow> fetcher" where
  "finished_body k fin s = (if fin = StillOpen then s else fetch_release k s)"

section \<open>The concurrency limit\<close>

datatype fetch_op = Fetch url_parser "nat \<Rightarrow> hop" string | Finish nat body_end

fun fetch_step :: "fetch_cfg \<Rightarrow> fetch_op \<Rightarrow> fetcher \<Rightarrow> fetcher" where
  "fetch_step cfg (Fetch newURL hops u) s = fst (fetch cfg newURL hops u s)"
| "fetch_step cfg (Finish k fin) s = finished_body k fin s"

definition fetcher_ok :: "fetcher \<Rightarrow> bool" where
  "fetcher_ok s \<longleftrightarrow> fe_active s = length (fe_held s) \<and> distinct (fe_held s) \<and> (\<forall>k \<in> set (fe_held s). k < fe_next s)"

lemma fetcher_ok_release: "fetcher_ok s \<Longrightarrow> fetcher_ok (fetch_release k s)"
  by (auto simp: fetcher_ok_def fetch_release_def length_remove1 dest: notin_set_remove1)

lemma fetcher_ok_acquire:
  "fetcher_ok s \<Longrightarrow> fetcher_ok (s\<lparr>fe_active := fe_active s + 1, fe_held := fe_next s # fe_held s, fe_next := fe_next s + 1\<rparr>)"
  by (auto simp: fetcher_ok_def)

lemma fetch_active:
  "fe_active (fst (fetch cfg newURL hops u s)) = fe_active s \<or>
   int (fe_active s) < ft_maxConcurrent cfg \<and> fe_active (fst (fetch cfg newURL hops u s)) = fe_active s + 1 \<and>
     (\<exists>v. snd (snd (fetch cfg newURL hops u s)) = Inr v)"
  by (auto simp: fetch_def fetch_release_def Let_def split: option.split prod.split sum.split)

lemma fetcher_ok_fetch: "fetcher_ok s \<Longrightarrow> fetcher_ok (fst (fetch cfg newURL hops u s))"
  using fetcher_ok_acquire [of s] fetcher_ok_release
  by (auto simp: fetch_def Let_def split: option.split prod.split sum.split)

interpretation fetch_gate: slot_gate "fetch_step cfg" fetcher_ok fe_active "nat (ft_maxConcurrent cfg)"
proof
  show "fetcher_ok (fetch_step cfg x s)" if "fetcher_ok s" for x s
    using that by (cases x) (simp_all add: fetcher_ok_fetch fetcher_ok_release finished_body_def)
  show "fe_active (fetch_step cfg x s) \<le> fe_active s \<or> fe_active (fetch_step cfg x s) \<le> nat (ft_maxConcurrent cfg)"
    if "fetcher_ok s" for x s
  proof (cases x)
    case (Fetch newURL hops u)
    then show ?thesis using fetch_active [of cfg newURL hops u s] by auto
  qed (simp add: finished_body_def fetch_release_def)
qed

lemma fetches_bounded: "fe_active (fetch_gate.steps cfg xs idle_fetcher) \<le> nat (ft_maxConcurrent cfg)"
proof -
  have "fetcher_ok idle_fetcher" by (simp add: fetcher_ok_def idle_fetcher_def)
  from fetch_gate.bounded [OF this, of cfg xs] show ?thesis by (simp add: idle_fetcher_def)
qed

end
