(* ===== verification/AttachmentAddress_Props.thy ===== *)
theory AttachmentAddress_Props
  imports AttachmentAddress
begin

text \<open>
  The address rule in plain ranges of octets and groups.
\<close>

section \<open>Values of octets\<close>

definition octets_value :: "nat \<Rightarrow> nat \<Rightarrow> nat \<Rightarrow> nat \<Rightarrow> nat" where
  "octets_value a b c d = ((a * 256 + b) * 256 + c) * 256 + d"

lemma or_octet:
  fixes v :: u32
  assumes "unat v < 2 ^ 24" "n < 256"
  shows "unat (push_bit 8 v OR word_of_nat n) = unat v * 256 + n"
proof -
  have n: "unat (word_of_nat n :: u32) = n" using assms(2) by (simp add: unat_of_nat)
  have low: "take_bit 8 (word_of_nat n :: u32) = word_of_nat n"
    unfolding word_unat_eq_iff unsigned_take_bit_eq n using assms(2) by (simp add: take_bit_eq_mod)
  have "push_bit 8 v AND take_bit 8 (word_of_nat n) = (0 :: u32)"
    by (rule bit_word_eqI) (auto simp: bit_simps)
  then have "push_bit 8 v OR word_of_nat n = push_bit 8 v + word_of_nat n"
    using disjunctive_add_eq_or [of "push_bit 8 v" "word_of_nat n"] by (simp add: low)
  also have "unat \<dots> = unat v * 256 + n"
    using assms n by (simp add: push_bit_eq_mult unat_word_ariths)
  finally show ?thesis .
qed

lemma octet_text_show: "n < 256 \<Longrightarrow> octet_text (show_nat n)"
proof (cases "n = 0")
  case True
  moreover have "octet_text (show_nat 0)" by code_simp
  ultimately show ?thesis by (simp only:)
next
  case False
  assume "n < 256"
  then show ?thesis using False hd_show_nat [of n] show_nat_length [of n] by (simp add: octet_text_def del: show_nat.simps)
qed

lemma all_digits_no_dot: "all_digits s \<Longrightarrow> CHR ''.'' \<notin> set s"
proof
  assume "all_digits s" "CHR ''.'' \<in> set s"
  then have "is_digit CHR ''.''" by (simp add: all_digits_def list_all_iff)
  then show False by (simp add: is_digit_def)
qed

lemma dotted_split: "split_on CHR ''.'' (dotted [a, b, c, d]) = map show_nat [a, b, c, d]"
proof -
  have nodot: "CHR ''.'' \<notin> set (show_nat n)" for n
    using all_digits_show_nat [of n] all_digits_no_dot by blast
  show ?thesis unfolding dotted_def
    by (rule split_on_join) (simp, use nodot in \<open>simp del: show_nat.simps, blast\<close>)
qed

lemma isIPv4_dotted: "a < 256 \<Longrightarrow> b < 256 \<Longrightarrow> c < 256 \<Longrightarrow> d < 256 \<Longrightarrow> isIPv4 (dotted [a, b, c, d])"
  by (simp add: isIPv4_def dotted_split octet_text_show del: show_nat.simps)

lemma parse_dotted:
  assumes "a < 256" "b < 256" "c < 256" "d < 256"
  shows "\<exists>v. parseIpv4 (dotted [a, b, c, d]) = Some v \<and> unat v = octets_value a b c d"
proof -
  let ?s = "\<lambda>v n. push_bit 8 (v :: u32) OR word_of_nat n"
  have 1: "unat (?s 0 a) = a" using or_octet [of 0 a] assms by simp
  have 2: "unat (?s (?s 0 a) b) = a * 256 + b" by (subst or_octet) (use 1 assms in simp_all)
  have 3: "unat (?s (?s (?s 0 a) b) c) = (a * 256 + b) * 256 + c"
    by (subst or_octet) (use 2 assms in simp_all)
  have 4: "unat (?s (?s (?s (?s 0 a) b) c) d) = octets_value a b c d"
    unfolding octets_value_def by (subst or_octet) (use 3 assms in simp_all)
  have "parseIpv4 (dotted [a, b, c, d]) = Some (?s (?s (?s (?s 0 a) b) c) d)"
    using assms by (simp add: parseIpv4_def isIP_def isIPv4_dotted dotted_split del: show_nat.simps)
  then show ?thesis using 4 by blast
qed

section \<open>Blocked ranges\<close>

lemma in_range:
  assumes "parseIpv4 base = Some b" "0 < prefix" "prefix \<le> 32"
  shows "ipv4InRange v base prefix \<longleftrightarrow> unat v div 2 ^ (32 - prefix) = unat b div 2 ^ (32 - prefix)"
  using masked_eq [of "32 - prefix" v b] assms by (simp add: ipv4InRange_def)

lemma base_value:
  assumes "dotted [a, b, c, d] = s" "a < 256" "b < 256" "c < 256" "d < 256" "octets_value a b c d = unat n"
  shows "parseIpv4 s = Some n"
  using parse_dotted [OF assms(2-5)] assms(1,6) by (auto simp: word_unat_eq_iff)

lemma bases:
  "parseIpv4 ''0.0.0.0'' = Some 0" "parseIpv4 ''10.0.0.0'' = Some 167772160" "parseIpv4 ''100.64.0.0'' = Some 1681915904"
  "parseIpv4 ''127.0.0.0'' = Some 2130706432" "parseIpv4 ''169.254.0.0'' = Some 2851995648" "parseIpv4 ''172.16.0.0'' = Some 2886729728"
  "parseIpv4 ''192.0.0.0'' = Some 3221225472" "parseIpv4 ''192.0.2.0'' = Some 3221225984" "parseIpv4 ''192.88.99.0'' = Some 3227017984"
  "parseIpv4 ''192.168.0.0'' = Some 3232235520" "parseIpv4 ''198.18.0.0'' = Some 3323068416" "parseIpv4 ''198.51.100.0'' = Some 3325256704"
  "parseIpv4 ''203.0.113.0'' = Some 3405803776" "parseIpv4 ''224.0.0.0'' = Some 3758096384" "parseIpv4 ''240.0.0.0'' = Some 4026531840"
proof -
  show "parseIpv4 ''0.0.0.0'' = Some 0" by (rule base_value [of 0 0 0 0]) (code_simp, simp_all add: octets_value_def)
  show "parseIpv4 ''10.0.0.0'' = Some 167772160" by (rule base_value [of 10 0 0 0]) (code_simp, simp_all add: octets_value_def)
  show "parseIpv4 ''100.64.0.0'' = Some 1681915904" by (rule base_value [of 100 64 0 0]) (code_simp, simp_all add: octets_value_def)
  show "parseIpv4 ''127.0.0.0'' = Some 2130706432" by (rule base_value [of 127 0 0 0]) (code_simp, simp_all add: octets_value_def)
  show "parseIpv4 ''169.254.0.0'' = Some 2851995648" by (rule base_value [of 169 254 0 0]) (code_simp, simp_all add: octets_value_def)
  show "parseIpv4 ''172.16.0.0'' = Some 2886729728" by (rule base_value [of 172 16 0 0]) (code_simp, simp_all add: octets_value_def)
  show "parseIpv4 ''192.0.0.0'' = Some 3221225472" by (rule base_value [of 192 0 0 0]) (code_simp, simp_all add: octets_value_def)
  show "parseIpv4 ''192.0.2.0'' = Some 3221225984" by (rule base_value [of 192 0 2 0]) (code_simp, simp_all add: octets_value_def)
  show "parseIpv4 ''192.88.99.0'' = Some 3227017984" by (rule base_value [of 192 88 99 0]) (code_simp, simp_all add: octets_value_def)
  show "parseIpv4 ''192.168.0.0'' = Some 3232235520" by (rule base_value [of 192 168 0 0]) (code_simp, simp_all add: octets_value_def)
  show "parseIpv4 ''198.18.0.0'' = Some 3323068416" by (rule base_value [of 198 18 0 0]) (code_simp, simp_all add: octets_value_def)
  show "parseIpv4 ''198.51.100.0'' = Some 3325256704" by (rule base_value [of 198 51 100 0]) (code_simp, simp_all add: octets_value_def)
  show "parseIpv4 ''203.0.113.0'' = Some 3405803776" by (rule base_value [of 203 0 113 0]) (code_simp, simp_all add: octets_value_def)
  show "parseIpv4 ''224.0.0.0'' = Some 3758096384" by (rule base_value [of 224 0 0 0]) (code_simp, simp_all add: octets_value_def)
  show "parseIpv4 ''240.0.0.0'' = Some 4026531840" by (rule base_value [of 240 0 0 0]) (code_simp, simp_all add: octets_value_def)
qed

definition special_octets :: "nat \<Rightarrow> nat \<Rightarrow> nat \<Rightarrow> bool" where
  "special_octets a b c \<longleftrightarrow> a \<in> {0, 10, 127} \<or> 224 \<le> a \<or> (a = 100 \<and> 64 \<le> b \<and> b < 128) \<or> (a = 169 \<and> b = 254) \<or>
     (a = 172 \<and> 16 \<le> b \<and> b < 32) \<or> (a = 192 \<and> (b = 168 \<or> b = 0 \<and> c \<in> {0, 2} \<or> b = 88 \<and> c = 99)) \<or>
     (a = 198 \<and> (b \<in> {18, 19} \<or> b = 51 \<and> c = 100)) \<or> (a = 203 \<and> b = 0 \<and> c = 113)"

lemma value_div:
  assumes "a < 256" "b < 256" "c < 256" "d < 256"
  shows "octets_value a b c d div 2 ^ 24 = a" "octets_value a b c d div 2 ^ 22 = a * 4 + b div 64"
    "octets_value a b c d div 2 ^ 20 = a * 16 + b div 16" "octets_value a b c d div 2 ^ 17 = a * 128 + b div 2"
    "octets_value a b c d div 2 ^ 16 = a * 256 + b" "octets_value a b c d div 2 ^ 8 = (a * 256 + b) * 256 + c"
    "octets_value a b c d div 2 ^ 28 = a div 16"
proof -
  have 8: "octets_value a b c d div 2 ^ 8 = (a * 256 + b) * 256 + c" using assms by (simp add: octets_value_def)
  have 16: "octets_value a b c d div 2 ^ 16 = a * 256 + b"
  proof -
    have "octets_value a b c d div 2 ^ 16 = octets_value a b c d div 2 ^ 8 div 2 ^ 8" by (simp add: div_mult2_eq [symmetric])
    then show ?thesis using 8 assms by simp
  qed
  have shift: "octets_value a b c d div 2 ^ (16 + k) = (a * 256 + b) div 2 ^ k" for k
    by (simp add: power_add div_mult2_eq 16 [simplified])
  show "octets_value a b c d div 2 ^ 8 = (a * 256 + b) * 256 + c" by (rule 8)
  show "octets_value a b c d div 2 ^ 16 = a * 256 + b" by (rule 16)
  show "octets_value a b c d div 2 ^ 24 = a" using shift [of 8] assms by simp
  show "octets_value a b c d div 2 ^ 22 = a * 4 + b div 64" using shift [of 6] by simp
  show "octets_value a b c d div 2 ^ 20 = a * 16 + b div 16" using shift [of 4] by simp
  show "octets_value a b c d div 2 ^ 17 = a * 128 + b div 2" using shift [of 1] by simp
  show "octets_value a b c d div 2 ^ 28 = a div 16" using shift [of 12] assms by (simp add: div_mult2_eq [of _ 256 16, simplified])
qed

lemma mixed_digits: "(n :: nat) < k \<Longrightarrow> a * k + n = m \<longleftrightarrow> a = m div k \<and> n = m mod k"
  by (metis add.commute add_diff_cancel_left' div_mult_mod_eq div_mult_self3 div_less add_0_right less_nat_zero_code mod_less mod_mult_self1)

lemma public_dotted:
  assumes "a < 256" "b < 256" "c < 256" "d < 256"
  shows "isPublicIpv4 (dotted [a, b, c, d]) \<longleftrightarrow> \<not> special_octets a b c"
proof -
  obtain v where v: "parseIpv4 (dotted [a, b, c, d]) = Some v" "unat v = octets_value a b c d"
    using parse_dotted [OF assms] by blast
  note d = value_div [OF assms, simplified]
  have pub: "isPublicIpv4 (dotted [a, b, c, d]) \<longleftrightarrow> \<not> list_ex (\<lambda>(base, prefix). ipv4InRange v base prefix) blocked"
    by (simp add: isPublicIpv4_def v(1))
  have "list_ex (\<lambda>(base, prefix). ipv4InRange v base prefix) blocked \<longleftrightarrow>
     a = 0 \<or> a = 10 \<or> a * 4 + b div 64 = 401 \<or> a = 127 \<or> a * 256 + b = 43518 \<or> a * 16 + b div 16 = 2753 \<or>
     (a * 256 + b) * 256 + c = 12582912 \<or> (a * 256 + b) * 256 + c = 12582914 \<or> (a * 256 + b) * 256 + c = 12605539 \<or>
     a * 256 + b = 49320 \<or> a * 128 + b div 2 = 25353 \<or> (a * 256 + b) * 256 + c = 12989284 \<or> (a * 256 + b) * 256 + c = 13303921 \<or>
     a div 16 = 14 \<or> a div 16 = 15"
    by (simp add: blocked_def in_range [OF bases(1)] in_range [OF bases(2)] in_range [OF bases(3)] in_range [OF bases(4)]
        in_range [OF bases(5)] in_range [OF bases(6)] in_range [OF bases(7)] in_range [OF bases(8)] in_range [OF bases(9)]
        in_range [OF bases(10)] in_range [OF bases(11)] in_range [OF bases(12)] in_range [OF bases(13)] in_range [OF bases(14)]
        in_range [OF bases(15)] v(2) d)
  also have "\<dots> \<longleftrightarrow> special_octets a b c"
  proof -
    have two: "a * 256 + b = m \<longleftrightarrow> a = m div 256 \<and> b = m mod 256" for m using mixed_digits assms(2) by blast
    have three: "(a * 256 + b) * 256 + c = m \<longleftrightarrow> a = m div 65536 \<and> b = m div 256 mod 256 \<and> c = m mod 256" for m
      using mixed_digits [OF assms(3), of "a * 256 + b" m] two [of "m div 256"] by (auto simp: div_mult2_eq [of m 256 256, simplified])
    have e1: "a * 4 + b div 64 = 401 \<longleftrightarrow> a = 100 \<and> 64 \<le> b \<and> b < 128"
      using mixed_digits [of "b div 64" 4 a 401] assms(2) by auto
    have e2: "a * 16 + b div 16 = 2753 \<longleftrightarrow> a = 172 \<and> 16 \<le> b \<and> b < 32"
      using mixed_digits [of "b div 16" 16 a 2753] assms(2) by auto
    have e3: "a * 128 + b div 2 = 25353 \<longleftrightarrow> a = 198 \<and> (b = 18 \<or> b = 19)"
      using mixed_digits [of "b div 2" 128 a 25353] assms(2) by auto
    have e4: "a div 16 = 14 \<or> a div 16 = 15 \<longleftrightarrow> 224 \<le> a" using assms(1) by auto
    show ?thesis unfolding special_octets_def insert_iff empty_iff two three e1 e2 e3 e4
      by (rule iffI; elim disjE conjE; simp)
  qed
  finally show ?thesis by (simp add: pub)
qed

section \<open>Groups\<close>

lemma and_high: "(w :: nat) AND push_bit k (mask n) = (w div 2 ^ k mod 2 ^ n) * 2 ^ k"
proof -
  have "w AND push_bit k (mask n) = push_bit k (take_bit n (drop_bit k w))"
    by (rule bit_eqI) (auto simp: bit_simps)
  then show ?thesis by (simp add: push_bit_eq_mult take_bit_eq_mod drop_bit_eq_div)
qed

lemma group_masks:
  fixes w :: nat
  assumes "w \<le> 65535"
  shows "w AND 57344 = 8192 \<longleftrightarrow> 8192 \<le> w \<and> w < 16384" "w AND 65520 = 16 \<longleftrightarrow> 16 \<le> w \<and> w < 32"
    "w AND 65520 = 32 \<longleftrightarrow> 32 \<le> w \<and> w < 48" "w AND 61440 = 0 \<longleftrightarrow> w < 4096"
proof -
  have m: "(57344 :: nat) = push_bit 13 (mask 3)" "(65520 :: nat) = push_bit 4 (mask 12)" "(61440 :: nat) = push_bit 12 (mask 4)"
    by (simp_all add: mask_eq_exp_minus_1 push_bit_eq_mult)
  show "w AND 57344 = 8192 \<longleftrightarrow> 8192 \<le> w \<and> w < 16384" unfolding m and_high using assms by auto
  show "w AND 65520 = 16 \<longleftrightarrow> 16 \<le> w \<and> w < 32" unfolding m and_high using assms by auto
  show "w AND 65520 = 32 \<longleftrightarrow> 32 \<le> w \<and> w < 48" unfolding m and_high using assms by auto
  show "w AND 61440 = 0 \<longleftrightarrow> w < 4096" unfolding m and_high using assms by auto
qed

definition special_groups :: "nat \<Rightarrow> nat \<Rightarrow> bool" where
  "special_groups w0 w1 \<longleftrightarrow> w0 < 8192 \<or> 16384 \<le> w0 \<or> (w0 = 8193 \<and> (w1 = 0 \<or> w1 = 3512 \<or> 16 \<le> w1 \<and> w1 < 48)) \<or>
     (w0 = 16383 \<and> w1 < 4096)"

lemma embedded_public:
  "hi \<le> 65535 \<Longrightarrow> lo \<le> 65535 \<Longrightarrow> isPublicIpv4 (embedded hi lo) \<longleftrightarrow> \<not> special_octets (hi div 256) (hi mod 256) (lo div 256)"
  unfolding embedded_def by (rule public_dotted) auto

lemma public_words:
  assumes "length ws = 8" "list_all (\<lambda>w. w \<le> 65535) ws"
  shows "isPublicWords ws \<longleftrightarrow>
    (if list_all (\<lambda>w. w = 0) (take 5 ws) \<and> ws ! 5 = 65535 then \<not> special_octets (ws ! 6 div 256) (ws ! 6 mod 256) (ws ! 7 div 256)
     else if ws ! 0 = 8194 then \<not> special_octets (ws ! 1 div 256) (ws ! 1 mod 256) (ws ! 2 div 256)
     else \<not> special_groups (ws ! 0) (ws ! 1))"
proof -
  have b: "ws ! k \<le> 65535" if "k < 8" for k using assms that by (simp add: list_all_length)
  have e: "isPublicIpv4 (embedded (ws ! 6) (ws ! 7)) \<longleftrightarrow> \<not> special_octets (ws ! 6 div 256) (ws ! 6 mod 256) (ws ! 7 div 256)"
    "isPublicIpv4 (embedded (ws ! 1) (ws ! 2)) \<longleftrightarrow> \<not> special_octets (ws ! 1 div 256) (ws ! 1 mod 256) (ws ! 2 div 256)"
    by (rule embedded_public; simp add: b)+
  have w01: "ws ! 0 \<le> 65535" "ws ! 1 \<le> 65535" by (rule b, simp)+
  note m = group_masks [OF w01(1)] group_masks [OF w01(2)]
  have g: "ws ! 0 AND 57344 = 8192 \<and> \<not> (ws ! 0 = 8193 \<and> ws ! 1 = 3512) \<and> \<not> (ws ! 0 = 16383 \<and> ws ! 1 AND 61440 = 0) \<and>
      \<not> (ws ! 0 = 8193 \<and> ws ! 1 = 0) \<and> \<not> (ws ! 0 = 8193 \<and> ws ! 1 AND 65520 = 16) \<and> \<not> (ws ! 0 = 8193 \<and> ws ! 1 AND 65520 = 32)
      \<longleftrightarrow> \<not> special_groups (ws ! 0) (ws ! 1)"
    unfolding m special_groups_def by presburger
  show ?thesis unfolding isPublicWords_def Let_def e g ..
qed

lemma expand_words_ok: "expand_words s = Some ws \<Longrightarrow> length ws = 8 \<and> list_all (\<lambda>w. w \<le> 65535) ws"
  by (auto simp: expand_words_def Let_def split: if_splits)

lemma parseIpv6_ok: "parseIpv6 s = Some ws \<Longrightarrow> length ws = 8 \<and> list_all (\<lambda>w. w \<le> 65535) ws"
  using expand_words_ok by (auto simp: parseIpv6_def Let_def split: if_splits option.splits)

text \<open>
  C39. The masks single out exactly these ranges. A dotted IPv4 address is fit to be fetched
  from unless it lies in one of the special blocks, written here in octets. An IPv6 address
  always has eight groups of 16 bits; one that carries an IPv4 address (mapped, or 6to4) is
  judged by that address, any other must lie in \<^verbatim>\<open>2000::/3\<close> outside Teredo, ORCHID and the
  documentation prefixes. Any other text is refused.
\<close>

theorem attachment_addresses:
  assumes "a < 256" "b < 256" "c < 256" "d < 256"
  shows "(isPublicAttachmentAddress (dotted [a, b, c, d]) \<longleftrightarrow> \<not> special_octets a b c) \<and>
    (isIP s = 6 \<longrightarrow> (case parseIpv6 s of None \<Rightarrow> \<not> isPublicAttachmentAddress s
       | Some ws \<Rightarrow> length ws = 8 \<and> list_all (\<lambda>w. w \<le> 65535) ws \<and> (isPublicAttachmentAddress s \<longleftrightarrow>
          (if list_all (\<lambda>w. w = 0) (take 5 ws) \<and> ws ! 5 = 65535 then \<not> special_octets (ws ! 6 div 256) (ws ! 6 mod 256) (ws ! 7 div 256)
           else if ws ! 0 = 8194 then \<not> special_octets (ws ! 1 div 256) (ws ! 1 mod 256) (ws ! 2 div 256)
           else \<not> special_groups (ws ! 0) (ws ! 1))))) \<and>
    (isIP s \<notin> {4, 6} \<longrightarrow> \<not> isPublicAttachmentAddress s)"
proof (intro conjI impI)
  show "isPublicAttachmentAddress (dotted [a, b, c, d]) \<longleftrightarrow> \<not> special_octets a b c"
    using public_dotted [OF assms] isIPv4_dotted [OF assms] by (simp add: isPublicAttachmentAddress_def isIP_def)
  show "\<not> isPublicAttachmentAddress s" if "isIP s \<notin> {4, 6}" using that by (simp add: isPublicAttachmentAddress_def)
  assume six: "isIP s = 6"
  show "case parseIpv6 s of None \<Rightarrow> \<not> isPublicAttachmentAddress s
       | Some ws \<Rightarrow> length ws = 8 \<and> list_all (\<lambda>w. w \<le> 65535) ws \<and> (isPublicAttachmentAddress s \<longleftrightarrow>
          (if list_all (\<lambda>w. w = 0) (take 5 ws) \<and> ws ! 5 = 65535 then \<not> special_octets (ws ! 6 div 256) (ws ! 6 mod 256) (ws ! 7 div 256)
           else if ws ! 0 = 8194 then \<not> special_octets (ws ! 1 div 256) (ws ! 1 mod 256) (ws ! 2 div 256)
           else \<not> special_groups (ws ! 0) (ws ! 1)))"
  proof (cases "parseIpv6 s")
    case None
    then show ?thesis using six by (simp add: isPublicAttachmentAddress_def isPublicIpv6_def)
  next
    case (Some ws)
    have p: "isPublicAttachmentAddress s \<longleftrightarrow> isPublicWords ws" using six Some by (simp add: isPublicAttachmentAddress_def isPublicIpv6_def)
    show ?thesis unfolding Some option.case p using parseIpv6_ok [OF Some] public_words by blast
  qed
qed

theorem attachment_addresses_witness:
  "isPublicAttachmentAddress (dotted [93, 184, 216, 34]) \<and> \<not> isPublicAttachmentAddress (dotted [169, 254, 169, 254]) \<and>
    \<not> isPublicAttachmentAddress ''::ffff:10.0.0.1'' \<and> isPublicAttachmentAddress ''2606:4700::1111'' \<and>
    \<not> isPublicAttachmentAddress ''fe80::1%eth0'' \<and> \<not> isPublicAttachmentAddress ''2002:7f00:1::''"
proof (intro conjI)
  have small: "(93 :: nat) < 256" "(184 :: nat) < 256" "(216 :: nat) < 256" "(34 :: nat) < 256" "(169 :: nat) < 256" "(254 :: nat) < 256"
    by simp_all
  show "isPublicAttachmentAddress (dotted [93, 184, 216, 34])"
    using attachment_addresses [OF small(1-4), THEN conjunct1] by (simp add: special_octets_def)
  show "\<not> isPublicAttachmentAddress (dotted [169, 254, 169, 254])"
    using attachment_addresses [OF small(5,6,5,6), THEN conjunct1] by (simp add: special_octets_def)
  have "isIP ''::ffff:10.0.0.1'' = 6 \<and> parseIpv6 ''::ffff:10.0.0.1'' = Some [0, 0, 0, 0, 0, 65535, 2560, 1]" by code_simp
  then show "\<not> isPublicAttachmentAddress ''::ffff:10.0.0.1''"
    using public_words [of "[0, 0, 0, 0, 0, 65535, 2560, 1]"]
    by (simp add: isPublicAttachmentAddress_def isPublicIpv6_def special_octets_def)
  show "isPublicAttachmentAddress ''2606:4700::1111''" by code_simp
  show "\<not> isPublicAttachmentAddress ''fe80::1%eth0''" by code_simp
  have "isIP ''2002:7f00:1::'' = 6 \<and> parseIpv6 ''2002:7f00:1::'' = Some [8194, 32512, 1, 0, 0, 0, 0, 0]" by code_simp
  then show "\<not> isPublicAttachmentAddress ''2002:7f00:1::''"
    using public_words [of "[8194, 32512, 1, 0, 0, 0, 0, 0]"]
    by (simp add: isPublicAttachmentAddress_def isPublicIpv6_def special_octets_def)
qed

end
