(* ===== verification/AttachmentFetch_Props.thy ===== *)
theory AttachmentFetch_Props
  imports AttachmentFetch AttachmentAddress_Props
begin

text \<open>
  What one fetch may do: where it connects, how often, how much it delivers, how it fails.
\<close>

section \<open>Connections\<close>

definition safe_connection :: "connection \<Rightarrow> bool" where
  "safe_connection c \<longleftrightarrow> url_allowed (fst c) \<and> isPublicAttachmentAddress (snd c)"

lemma pick_address_safe: "pick_address hp u = Inr (a, f) \<Longrightarrow> safe_connection (u, a)"
  by (auto simp: pick_address_def safe_connection_def list_ex_iff neq_Nil_conv split: if_splits sum.splits)

text \<open>The accepted response is the answer to the last connection.\<close>

definition answered :: "(nat \<Rightarrow> hop) \<Rightarrow> nat \<Rightarrow> connection list \<Rightarrow> response \<Rightarrow> bool" where
  "answered hops n cs v \<longleftrightarrow> cs \<noteq> [] \<and> rp_status v \<in> {200..<300} \<and>
     open_response (hops (n + length cs - 1)) (fst (last cs)) (snd (last cs)) = Inr v"

lemma answered_Cons: "answered hops (Suc n) cs v \<Longrightarrow> answered hops n (c # cs) v"
  by (simp add: answered_def)

lemma accepted_same: "Inr w = accept_response cfg v \<Longrightarrow> w = v \<and> rp_status v \<in> {200..<300}"
  by (auto simp: accept_response_def split: if_splits option.splits)

lemma fetch_loop_safe:
  "fetch_loop cfg newURL hops left redirects u = (cs, r) \<Longrightarrow>
    list_all safe_connection cs \<and> length cs \<le> left \<and> (\<forall>v. r = Inr v \<longrightarrow> answered hops redirects cs v)"
proof (induction left arbitrary: redirects u cs r)
  case (Suc left)
  show ?case
  proof (cases "pick_address (hops redirects) u")
    case (Inl e)
    then show ?thesis using Suc.prems by auto
  next
    case pick: (Inr af)
    obtain a f where af: "af = (a, f)" by (cases af)
    have safe: "safe_connection (u, a)" using pick_address_safe pick af by blast
    show ?thesis
    proof (cases "open_response (hops redirects) u a")
      case (Inl e)
      then show ?thesis using Suc.prems pick af safe by auto
    next
      case resp: (Inr v)
      show ?thesis
      proof (cases "\<exists>target cs' r'. fetch_loop cfg newURL hops left (redirects + 1) target = (cs', r') \<and> cs = (u, a) # cs' \<and> r = r'")
        case True
        then obtain target cs' where go: "fetch_loop cfg newURL hops left (Suc redirects) target = (cs', r)" "cs = (u, a) # cs'" by auto
        show ?thesis using Suc.IH [OF go(1)] safe go(2) answered_Cons by simp
      next
        case False
        then have "cs = [(u, a)] \<and> (r = accept_response cfg v \<or> (\<exists>e. r = Inl e))"
          using Suc.prems pick af resp by (fastforce split: if_splits option.splits prod.splits)
        then show ?thesis using safe resp by (auto simp: answered_def dest: accepted_same)
      qed
    qed
  qed
qed simp

section \<open>The delivered bytes\<close>

fun body_chunks :: "body_event list \<Rightarrow> string list" where
  "body_chunks (Chunk c # evs) = c # body_chunks evs"
| "body_chunks evs = []"

text \<open>What an end of the stream says of the events, where \<open>rest\<close> are the chunks that did not pass.\<close>

definition end_explained :: "int \<Rightarrow> body_event list \<Rightarrow> string list \<Rightarrow> string list \<Rightarrow> body_end \<Rightarrow> bool" where
  "end_explained m evs out rest fin \<longleftrightarrow> (case fin of
       Complete \<Rightarrow> rest = [] \<and> BodyEnd \<in> set evs
     | Cut e \<Rightarrow> (e = too_large \<and> rest \<noteq> [] \<and> int (length (concat (out @ [hd rest]))) > m) \<or>
         (rest = [] \<and> (e = attachment_timeout \<and> TimerFires \<in> set evs \<or>
            (\<exists>reason. CallerAborts reason \<in> set evs \<and> e = scope_error (abortFromCaller reason unaborted))))
     | Dropped \<Rightarrow> rest = [] \<and> Disposed \<in> set evs
     | StillOpen \<Rightarrow> rest = [] \<and> TimerFires \<notin> set evs \<and> Disposed \<notin> set evs)"

lemma timer_error: "scope_error (timer_fires unaborted) = attachment_timeout"
  by (simp add: scope_error_def timer_fires_def unaborted_def attachment_timeout_def bridgeError_def)

lemma broken_explained: "end_explained m evs out [] (broken_body evs)"
proof (induction evs rule: broken_body.induct)
  case (2 evs)
  then show ?case by (simp add: end_explained_def abortBody_def timer_error)
next
  case (3 reason evs)
  then show ?case by (auto simp: end_explained_def abortBody_def)
qed (auto simp: end_explained_def split: body_end.splits)

lemma end_more: "end_explained m evs out rest fin \<Longrightarrow> ev \<noteq> TimerFires \<Longrightarrow> ev \<noteq> Disposed \<Longrightarrow> end_explained m (ev # evs) out rest fin"
  by (auto simp: end_explained_def split: body_end.splits)

lemma byte_limit_prefix:
  "byte_limit m n evs = (out, fin) \<Longrightarrow> n \<le> m \<Longrightarrow>
    \<exists>rest. body_chunks evs = out @ rest \<and> n + int (length (concat out)) \<le> m \<and> end_explained (m - n) evs out rest fin"
proof (induction m n evs arbitrary: out fin rule: byte_limit.induct)
  case (2 m n c evs)
  show ?case
  proof (cases "n + int (length c) > m")
    case True
    then show ?thesis using "2.prems" by (auto simp: end_explained_def)
  next
    case False
    then obtain out' where out': "byte_limit m (n + int (length c)) evs = (out', fin)" "out = c # out'"
      using "2.prems" by (auto simp: Let_def split: prod.splits)
    obtain rest where r: "body_chunks evs = out' @ rest" "n + int (length c) + int (length (concat out')) \<le> m"
      "end_explained (m - (n + int (length c))) evs out' rest fin"
      using "2.IH" [OF refl False out'(1)] False by auto
    have "end_explained (m - n) (Chunk c # evs) out rest fin"
      using r(3) out'(2) by (auto simp: end_explained_def split: body_end.splits)
    then show ?thesis using r out'(2) by (auto intro!: exI [of _ rest])
  qed
next
  case (4 m n evs)
  then show ?case using end_more [OF broken_explained, of BodyBroken "m - n" evs "[]"] by auto
next
  case (5 m n evs)
  then show ?case by (auto simp: end_explained_def abortBody_def timer_error)
next
  case (6 m n reason evs)
  then show ?case by (auto simp: end_explained_def abortBody_def)
qed (auto simp: end_explained_def)

text \<open>The limit is exact: a body that nothing disturbs ends in the error exactly when it is larger.\<close>

lemma byte_limit_exact:
  "n \<le> m \<Longrightarrow> snd (byte_limit m n (map Chunk cs @ [BodyEnd])) = (if n + int (length (concat cs)) \<le> m then Complete else Cut too_large)"
proof (induction cs arbitrary: n)
  case (Cons c cs)
  show ?case
  proof (cases "n + int (length c) \<le> m")
    case True
    obtain out e where "byte_limit m (n + int (length c)) (map Chunk cs @ [BodyEnd]) = (out, e)" by fastforce
    then show ?thesis using Cons.IH [OF True] True by (simp add: add.assoc)
  qed simp
qed simp

text \<open>A slow body is cut by the timer, a broken one too, and one whose caller goes away at once.\<close>

lemma body_aborted:
  "byte_limit 5 0 [Chunk ''ab'', TimerFires] = ([''ab''], Cut attachment_timeout)"
  "byte_limit 5 0 [Chunk ''ab'', BodyBroken, TimerFires] = ([''ab''], Cut attachment_timeout)"
  "byte_limit 5 0 [Chunk ''ab'', CallerAborts None, Chunk ''c''] = ([''ab''], Cut (bridgeError ''attachment_cancelled'' 499))"
  by (simp_all add: abortBody_def scope_error_def timer_fires_def abortFromCaller_def unaborted_def attachment_timeout_def bridgeError_def)

section \<open>One fetch\<close>

text \<open>
  C40. Whatever the URL, the name service and the servers on the way answer, a fetch opens at
  most one connection more than it may follow redirects, each to an allowed https URL and to
  an address that is public. A failed fetch gives its slot back and answers a \<open>BridgeError\<close>. The body of one that is
  answered stays within the size limit and is a prefix of the server's chunks; it ends complete only with all of
  them, and otherwise in the size error when they exceed the limit, in \<^verbatim>\<open>attachment_timeout\<close> when the timer
  fires, in the caller's error or \<^verbatim>\<open>attachment_cancelled\<close> when the caller aborts, or when it is disposed; a broken connection does not
  end it. Until then the fetch holds its slot, and then gives it back.
\<close>

theorem fetch_connects_only_to_public:
  assumes cfg: "newAttachmentFetcher c = Inr cfg"
    and run: "fetch cfg newURL hops rawUrl s = (s', conns, r)"
  shows "int (length conns) \<le> ft_maxRedirects cfg + 1 \<and>
    list_all (\<lambda>(u, address). url_allowed u \<and> isPublicAttachmentAddress address) conns \<and>
    (case r of
       Inl e \<Rightarrow> fe_active s' = fe_active s \<and> (\<exists>code status data. e = BridgeError code status data)
     | Inr (k, out, fin) \<Rightarrow> fe_active s' = fe_active s + 1 \<and> int (fe_active s') \<le> ft_maxConcurrent cfg \<and>
         fe_active (finished_body k fin s') = (if fin = StillOpen then fe_active s + 1 else fe_active s) \<and>
         int (length (concat out)) \<le> ft_maxBytes cfg \<and> conns \<noteq> [] \<and>
         (\<exists>p rest. answered hops 0 conns p \<and> body_chunks (rp_body p) = out @ rest \<and>
            (case fin of
               Complete \<Rightarrow> rest = [] \<and> BodyEnd \<in> set (rp_body p)
             | Cut e \<Rightarrow> (e = too_large \<and> rest \<noteq> [] \<and> int (length (concat (out @ [hd rest]))) > ft_maxBytes cfg) \<or>
                 (rest = [] \<and> (e = attachment_timeout \<and> TimerFires \<in> set (rp_body p) \<or>
                    (\<exists>reason. CallerAborts reason \<in> set (rp_body p) \<and> e = scope_error (abortFromCaller reason unaborted))))
             | Dropped \<Rightarrow> rest = [] \<and> Disposed \<in> set (rp_body p)
             | StillOpen \<Rightarrow> rest = [] \<and> TimerFires \<notin> set (rp_body p) \<and> Disposed \<notin> set (rp_body p))))"
proof (cases "int (fe_active s) \<ge> ft_maxConcurrent cfg")
  case True
  then show ?thesis using run cfg by (auto simp: fetch_def bridgeError_def newAttachmentFetcher_def split: if_splits)
next
  case False
  have lim: "ft_maxRedirects cfg \<ge> 0" "ft_maxBytes cfg \<ge> 0" using cfg by (auto simp: newAttachmentFetcher_def split: if_splits)
  show ?thesis
  proof (cases "newURL rawUrl None")
    case None
    then show ?thesis using run False lim by (auto simp: fetch_def Let_def fetch_release_def fetch_failed_def bridgeError_def)
  next
    case (Some u)
    obtain cs q where loop: "fetch_loop cfg newURL hops (nat (ft_maxRedirects cfg) + 1) 0 u = (cs, q)" by fastforce
    note L = fetch_loop_safe [OF loop]
    have conns: "conns = cs" using run False Some loop by (auto simp: fetch_def Let_def split: sum.splits)
    have safe: "int (length conns) \<le> ft_maxRedirects cfg + 1"
      "list_all (\<lambda>(u, address). url_allowed u \<and> isPublicAttachmentAddress address) conns"
      using L lim conns by (auto simp: list_all_iff safe_connection_def)
    show ?thesis
    proof (cases q)
      case (Inl e)
      then show ?thesis using run False Some loop safe
        by (auto simp: fetch_def Let_def fetch_release_def as_bridge_error_def fetch_failed_def bridgeError_def split: bridge_exc.splits)
    next
      case (Inr p)
      obtain out fin where body: "byte_limit (ft_maxBytes cfg) 0 (rp_body p) = (out, fin)" by fastforce
      have r: "r = Inr (fe_next s, out, fin)" "s' = s\<lparr>fe_active := fe_active s + 1, fe_held := fe_next s # fe_held s, fe_next := fe_next s + 1\<rparr>"
        using run False Some loop Inr body by (auto simp: fetch_def Let_def)
      obtain rest where "body_chunks (rp_body p) = out @ rest" "int (length (concat out)) \<le> ft_maxBytes cfg"
        "end_explained (ft_maxBytes cfg) (rp_body p) out rest fin"
        using byte_limit_prefix [OF body] lim by auto
      moreover have p: "answered hops 0 cs p" using L Inr by auto
      moreover have "cs \<noteq> []" using p by (auto simp: answered_def)
      moreover have "fe_active s' = fe_active s + 1" "int (fe_active s') \<le> ft_maxConcurrent cfg"
        "fe_active (finished_body (fe_next s) fin s') = (if fin = StillOpen then fe_active s + 1 else fe_active s)"
        using False r(2) by (simp_all add: finished_body_def fetch_release_def)
      ultimately show ?thesis unfolding r(1) conns sum.case prod.case end_explained_def [symmetric] using safe conns by blast
    qed
  qed
qed

definition demo_url :: "string \<Rightarrow> url" where
  "demo_url h = \<lparr>protocol = ''https:'', username = [], password = [], hostname = h, port = [], pathname = ''/'',
     search = [], url_hash = [], href = ''https://'' @ h @ ''/''\<rparr>"

definition demo_hop :: "string \<Rightarrow> hop" where
  "demo_hop a = \<lparr>hp_before = \<lparr>as_reason = None, as_timeout = False\<rparr>, hp_lookup_scope = \<lparr>as_reason = None, as_timeout = False\<rparr>,
     hp_lookup = (\<lambda>_. Inr [(a, 4)]), hp_after = \<lparr>as_reason = None, as_timeout = False\<rparr>,
     hp_open = (\<lambda>_ _. Inr \<lparr>rp_status = 200, rp_location = None, rp_contentLength = None, rp_hasBody = True, rp_body = [Chunk ''abc'', TimerFires]\<rparr>)\<rparr>"

definition demo_cfg :: fetch_cfg where
  "demo_cfg = \<lparr>ft_timeoutMs = 120000, ft_maxBytes = 4, ft_maxRedirects = 0, ft_maxConcurrent = 2\<rparr>"

lemma demo_addresses:
  "isPublicAttachmentAddress (dotted [93, 184, 216, 34])" "\<not> isPublicAttachmentAddress (dotted [10, 0, 0, 1])"
  by (simp_all add: isPublicAttachmentAddress_def isIP_def isIPv4_dotted public_dotted special_octets_def del: show_nat.simps)

lemma demo_fetch:
  "fetch demo_cfg (\<lambda>h _. Some (demo_url h)) (\<lambda>_. demo_hop (dotted [93, 184, 216, 34])) ''files'' idle_fetcher =
    (\<lparr>fe_active = 1, fe_held = [0], fe_next = 1\<rparr>, [(demo_url ''files'', dotted [93, 184, 216, 34])], Inr (0, [''abc''], Cut attachment_timeout))"
proof -
  have "isIP (literal_of ''files'') = 0" by code_simp
  moreover have "pick_address (demo_hop (dotted [93, 184, 216, 34])) (demo_url ''files'') = Inr (dotted [93, 184, 216, 34], 4)"
    using calculation demo_addresses(1)
    by (simp add: pick_address_def demo_hop_def demo_url_def url_allowed_def withAbort_def resolveHost_def Let_def del: literal_of_def)
  ultimately show ?thesis
    by (simp add: fetch_def demo_cfg_def idle_fetcher_def Let_def open_response_def accept_response_def parseInt_def demo_hop_def abortBody_def timer_error)
qed

theorem fetch_connects_only_to_public_witness:
  "\<exists>s' conns out. fetch demo_cfg (\<lambda>h _. Some (demo_url h)) (\<lambda>_. demo_hop (dotted [93, 184, 216, 34])) ''files'' idle_fetcher =
      (s', conns, Inr (0, out, Cut attachment_timeout)) \<and>
    list_all (\<lambda>(u, address). url_allowed u \<and> isPublicAttachmentAddress address) conns \<and> conns \<noteq> [] \<and>
    fe_active s' = 1 \<and> fe_active (finished_body 0 (Cut attachment_timeout) s') = 0"
proof -
  have cfg: "newAttachmentFetcher demo_cfg = Inr demo_cfg" by code_simp
  have start: "fe_active idle_fetcher = 0" by (simp add: idle_fetcher_def)
  note facts = fetch_connects_only_to_public [OF cfg demo_fetch, unfolded sum.case prod.case start]
  show ?thesis unfolding demo_fetch using facts by auto
qed

end
