(* ===== verification/Wire.thy ===== *)
theory Wire
  imports AttachmentAddress Json
begin

text \<open>
  The texts a request target goes through between gateway and agent: \<^verbatim>\<open>encodeURIComponent\<close>
  and \<^verbatim>\<open>URLSearchParams\<close> on the sending side, the URL parser that \<^verbatim>\<open>fetch\<close> applies, and the
  query decoding on the receiving side. Texts are byte strings (UTF-8).
\<close>

section \<open>Percent encoding\<close>

definition hex_upper :: "nat \<Rightarrow> char" where
  "hex_upper n = (if n < 10 then digit_char n else char_of (n + 55))"

definition percent :: "char \<Rightarrow> string" where
  "percent c = [CHR ''%'', hex_upper (of_char c div 16), hex_upper (of_char c mod 16)]"

definition encode_with :: "(char \<Rightarrow> bool) \<Rightarrow> string \<Rightarrow> string" where
  "encode_with keep s = concat (map (\<lambda>c. if keep c then [c] else percent c) s)"

definition uri_char :: "char \<Rightarrow> bool" where
  "uri_char c \<longleftrightarrow> is_alnum c \<or> c \<in> set [CHR ''-'', CHR ''_'', CHR ''.'', CHR ''!'', CHR ''~'', CHR ''*'', CHR 0x27, CHR ''('', CHR '')'']"

definition encodeURIComponent :: "string \<Rightarrow> string" where
  "encodeURIComponent = encode_with uri_char"

definition form_char :: "char \<Rightarrow> bool" where
  "form_char c \<longleftrightarrow> is_alnum c \<or> c \<in> set ''*-._''"

definition form_encode :: "string \<Rightarrow> string" where
  "form_encode s = concat (map (\<lambda>c. if c = CHR '' '' then ''+'' else if form_char c then [c] else percent c) s)"

text \<open>\<^verbatim>\<open>String(new URLSearchParams(pairs))\<close>\<close>

definition URLSearchParams :: "(string \<times> string) list \<Rightarrow> string" where
  "URLSearchParams pairs = join_with ''&'' (map (\<lambda>(k, v). form_encode k @ ''='' @ form_encode v) pairs)"

section \<open>The URL parser\<close>

text \<open>
  The part of the URL standard that an absolute target of graphic characters meets: dot
  segments are resolved, and the characters outside the path and query sets are encoded.
\<close>

definition control_or_wide :: "char \<Rightarrow> bool" where
  "control_or_wide c \<longleftrightarrow> (of_char c :: nat) \<le> 31 \<or> (of_char c :: nat) \<ge> 127"

definition path_keeps :: "char \<Rightarrow> bool" where
  "path_keeps c \<longleftrightarrow> \<not> control_or_wide c \<and> c \<notin> set [CHR '' '', CHR 0x22, CHR ''#'', CHR ''<'', CHR ''>'', CHR ''?'', CHR ''^'', CHR 0x60, CHR ''{'', CHR ''}'']"

definition query_keeps :: "char \<Rightarrow> bool" where
  "query_keeps c \<longleftrightarrow> \<not> control_or_wide c \<and> c \<notin> set [CHR '' '', CHR 0x22, CHR ''#'', CHR ''<'', CHR ''>'', CHR 0x27]"

definition single_dot :: "string \<Rightarrow> bool" where
  "single_dot s \<longleftrightarrow> map lower s \<in> {''.'', ''%2e''}"

definition double_dot :: "string \<Rightarrow> bool" where
  "double_dot s \<longleftrightarrow> map lower s \<in> {''..'', ''.%2e'', ''%2e.'', ''%2e%2e''}"

fun resolve_dots :: "string list \<Rightarrow> string list \<Rightarrow> string list" where
  "resolve_dots acc [] = rev acc"
| "resolve_dots acc (s # rest) =
     (if double_dot s then resolve_dots (if rest = [] then [] # tl acc else tl acc) rest
      else if single_dot s then resolve_dots (if rest = [] then [] # acc else acc) rest
      else resolve_dots (s # acc) rest)"

definition before :: "char \<Rightarrow> string \<Rightarrow> string" where
  "before c s = takeWhile (\<lambda>x. x \<noteq> c) s"

definition after :: "char \<Rightarrow> string \<Rightarrow> string" where
  "after c s = tl (dropWhile (\<lambda>x. x \<noteq> c) s)"

definition url_pathname :: "string \<Rightarrow> string" where
  "url_pathname target = CHR ''/'' # join_with ''/'' (map (encode_with path_keeps)
     (resolve_dots [] (split_on CHR ''/'' (tl (map (\<lambda>c. if c = CHR 0x5C then CHR ''/'' else c) (before CHR ''?'' (before CHR ''#'' target)))))))"

definition url_search :: "string \<Rightarrow> string" where
  "url_search target = (let q = after CHR ''?'' (before CHR ''#'' target) in if q = [] then [] else CHR ''?'' # encode_with query_keeps q)"

section \<open>Decoding\<close>

fun percent_decode :: "string \<Rightarrow> string" where
  "percent_decode (c # a # b # s) =
     (if c = CHR ''%'' \<and> is_hex a \<and> is_hex b
      then char_of (16 * hex_val (lower a) + hex_val (lower b)) # percent_decode s
      else c # percent_decode (a # b # s))"
| "percent_decode s = s"

definition form_decode :: "string \<Rightarrow> string" where
  "form_decode s = percent_decode (map (\<lambda>c. if c = CHR ''+'' then CHR '' '' else c) s)"

text \<open>\<^verbatim>\<open>url.searchParams\<close>\<close>

definition query_pairs :: "string \<Rightarrow> (string \<times> string) list" where
  "query_pairs q = map (\<lambda>part. (form_decode (before CHR ''='' part), form_decode (after CHR ''='' part)))
     (filter (\<lambda>part. part \<noteq> []) (split_on CHR ''&'' (tl q)))"

section \<open>Round trips\<close>

lemma hex_upper_values:
  assumes "n < 16"
  shows "is_hex (hex_upper n)" "hex_val (lower (hex_upper n)) = n" "is_alnum (hex_upper n)"
proof -
  have "\<forall>n \<in> set [0..<16]. is_hex (hex_upper n) \<and> hex_val (lower (hex_upper n)) = n \<and> is_alnum (hex_upper n)" by code_simp
  then show "is_hex (hex_upper n)" "hex_val (lower (hex_upper n)) = n" "is_alnum (hex_upper n)" using assms by simp_all
qed

lemma char_halves: "(of_char c :: nat) div 16 < 16" "(of_char c :: nat) mod 16 < 16"
proof -
  show "(of_char c :: nat) div 16 < 16" using nat_of_char_less_256 [of c] by (intro less_mult_imp_div_less) simp
qed simp

lemma decode_percent: "percent_decode (percent c @ s) = c # percent_decode s"
  by (simp add: percent_def hex_upper_values char_halves)

lemma decode_plain: "c \<noteq> CHR ''%'' \<Longrightarrow> percent_decode (c # s) = c # percent_decode s"
  by (cases s rule: percent_decode.cases) auto

lemma decode_encode_with: "(\<And>c. keep c \<Longrightarrow> c \<noteq> CHR ''%'') \<Longrightarrow> percent_decode (encode_with keep s @ t) = s @ percent_decode t"
  by (induction s) (auto simp: encode_with_def decode_percent decode_plain)

lemma percent_chars: "x \<in> set (percent c) \<Longrightarrow> x = CHR ''%'' \<or> is_alnum x"
  by (auto simp: percent_def hex_upper_values char_halves)

lemma encode_with_chars: "x \<in> set (encode_with keep s) \<Longrightarrow> keep x \<or> x = CHR ''%'' \<or> is_alnum x"
  by (auto simp: encode_with_def dest: percent_chars split: if_splits)


lemma uri_char_plain: "uri_char c \<Longrightarrow> c \<noteq> CHR ''%'' \<and> c \<noteq> CHR ''/'' \<and> c \<noteq> CHR ''?'' \<and> c \<noteq> CHR ''#'' \<and> c \<noteq> CHR ''+'' \<and> c \<noteq> CHR ''&'' \<and> c \<noteq> CHR ''='' \<and> c \<noteq> CHR 0x5C"
  by (auto simp: uri_char_def class_defs)

lemma alnum_uri: "is_alnum c \<Longrightarrow> uri_char c"
  by (simp add: uri_char_def)

lemma encoded_chars: "c \<in> set (encodeURIComponent s) \<Longrightarrow> uri_char c \<or> c = CHR ''%''"
  unfolding encodeURIComponent_def by (auto dest: encode_with_chars alnum_uri)

lemma decode_component: "percent_decode (encodeURIComponent s) = s"
  using decode_encode_with [of uri_char s "[]"] uri_char_plain by (auto simp: encodeURIComponent_def)

lemma form_decode_component: "form_decode (encodeURIComponent s) = s"
proof -
  have "map (\<lambda>c. if c = CHR ''+'' then CHR '' '' else c) (encodeURIComponent s) = encodeURIComponent s"
    by (rule map_idI) (auto dest: encoded_chars uri_char_plain)
  then show ?thesis by (simp add: form_decode_def decode_component)
qed

lemma plus_back: "map (\<lambda>c. if c = CHR ''+'' then CHR '' '' else c) (form_encode s) = encode_with (\<lambda>c. c = CHR '' '' \<or> form_char c) s"
proof (induction s)
  case (Cons c s)
  have p: "map (\<lambda>c. if c = CHR ''+'' then CHR '' '' else c) (percent c) = percent c"
    by (rule map_idI) (auto dest: percent_chars simp: class_defs)
  have f: "form_char c \<Longrightarrow> c \<noteq> CHR ''+''" by (auto simp: form_char_def class_defs)
  show ?case using Cons p f by (auto simp: form_encode_def encode_with_def)
qed (simp add: form_encode_def encode_with_def)

lemma form_decode_encode: "form_decode (form_encode s) = s"
  using decode_encode_with [of "\<lambda>c. c = CHR '' '' \<or> form_char c" s "[]"]
  by (auto simp: form_decode_def plus_back form_char_def class_defs)

lemma form_encoded_chars: "c \<in> set (form_encode s) \<Longrightarrow> form_char c \<or> c = CHR ''%'' \<or> c = CHR ''+''"
  by (auto simp: form_encode_def form_char_def dest: percent_chars split: if_splits)

section \<open>Targets the parser leaves alone\<close>

lemma encode_with_length: "length s \<le> length (encode_with keep s)"
  by (induction s) (auto simp: encode_with_def percent_def)

lemma encode_with_same: "encode_with keep s = s \<longleftrightarrow> list_all keep s"
proof (induction s)
  case (Cons c s)
  have "percent c @ encode_with keep s \<noteq> c # s"
    using encode_with_length [of s keep] by (auto simp: percent_def dest: arg_cong [where f = length])
  then show ?case using Cons by (auto simp: encode_with_def)
qed (simp add: encode_with_def)

definition weight :: "string list \<Rightarrow> nat" where
  "weight segs = sum_list (map (\<lambda>s. length s + 1) segs)"

lemma weight_simps [simp]: "weight [] = 0" "weight (s # segs) = length s + 1 + weight segs" "weight (rev segs) = weight segs"
  by (simp_all add: weight_def rev_map [symmetric] sum_list_rev del: One_nat_def add_Suc_right)

lemma weight_tl: "weight (tl segs) \<le> weight segs"
  by (cases segs) simp_all

lemma dot_length: "single_dot s \<or> double_dot s \<Longrightarrow> length s \<ge> 1"
  by (cases s) (auto simp: single_dot_def double_dot_def)

lemma resolve_dots_weight: "weight (resolve_dots acc segs) \<le> weight acc + weight segs"
proof (induction segs arbitrary: acc)
  case (Cons s rest)
  show ?case
    using Cons.IH [of "tl acc"] Cons.IH [of "[] # tl acc"] Cons.IH [of acc] Cons.IH [of "[] # acc"] Cons.IH [of "s # acc"]
      weight_tl [of acc] dot_length [of s] by auto
qed simp

definition dotty :: "string \<Rightarrow> bool" where
  "dotty s \<longleftrightarrow> single_dot s \<or> double_dot s"

lemma resolve_dots_clean: "\<not> list_ex dotty segs \<Longrightarrow> resolve_dots acc segs = rev acc @ segs"
  by (induction segs arbitrary: acc) (auto simp: dotty_def)

lemma resolve_dots_shrinks: "list_ex dotty segs \<Longrightarrow> weight (resolve_dots acc segs) < weight acc + weight segs"
proof (induction segs arbitrary: acc)
  case (Cons s rest)
  show ?case
  proof (cases "dotty s")
    case True
    then show ?thesis
      using resolve_dots_weight [of "tl acc" rest] resolve_dots_weight [of "[] # tl acc" rest] resolve_dots_weight [of acc rest]
        resolve_dots_weight [of "[] # acc" rest] weight_tl [of acc] dot_length [of s] by (auto simp: dotty_def)
  next
    case False
    then show ?thesis using Cons.IH [of "s # acc"] Cons.prems by (auto simp: dotty_def)
  qed
qed simp

lemma resolve_dots_same: "resolve_dots [] segs = segs \<longleftrightarrow> \<not> list_ex dotty segs"
  using resolve_dots_clean [of segs "[]"] resolve_dots_shrinks [of segs "[]"] by fastforce

text \<open>The characters of the targets the client builds.\<close>

definition path_text :: "string \<Rightarrow> bool" where
  "path_text p \<longleftrightarrow> list_all (\<lambda>c. uri_char c \<or> c = CHR ''%'' \<or> c = CHR ''/'') p"

definition query_text :: "string \<Rightarrow> bool" where
  "query_text q \<longleftrightarrow> list_all (\<lambda>c. uri_char c \<or> c \<in> set ''%=&+'') q"

lemma path_text_simps [simp]:
  "path_text []" "path_text (c # p) \<longleftrightarrow> (uri_char c \<or> c = CHR ''%'' \<or> c = CHR ''/'') \<and> path_text p" "path_text (p @ p') \<longleftrightarrow> path_text p \<and> path_text p'"
  by (simp_all add: path_text_def)

lemma query_text_simps [simp]:
  "query_text []" "query_text (c # p) \<longleftrightarrow> (uri_char c \<or> c \<in> set ''%=&+'') \<and> query_text p" "query_text (p @ p') \<longleftrightarrow> query_text p \<and> query_text p'"
  by (simp_all add: query_text_def)

lemma text_append: "path_text (p @ p') \<longleftrightarrow> path_text p \<and> path_text p'" "query_text (p @ p') \<longleftrightarrow> query_text p \<and> query_text p'"
  by simp_all

lemma alnum_graphic: "is_alnum c \<Longrightarrow> \<not> control_or_wide c"
  by (auto simp: control_or_wide_def class_defs)

lemma uri_char_graphic: "uri_char c \<Longrightarrow> \<not> control_or_wide c"
  using alnum_graphic by (auto simp: uri_char_def control_or_wide_def)

lemma uri_char_path: "uri_char c \<Longrightarrow> path_keeps c"
  by (simp add: path_keeps_def uri_char_graphic) (auto simp: uri_char_def class_defs)

lemma uri_char_query: "uri_char c \<Longrightarrow> query_keeps c \<longleftrightarrow> c \<noteq> CHR 0x27"
  by (simp add: query_keeps_def uri_char_graphic) (auto simp: uri_char_def class_defs)

lemma query_text_keeps: "query_text q \<Longrightarrow> list_all query_keeps q \<longleftrightarrow> CHR 0x27 \<notin> set q"
proof (induction q)
  case (Cons c q)
  have "query_keeps c \<longleftrightarrow> c \<noteq> CHR 0x27" if "c \<in> set ''%=&+''"
    using that by (auto simp: query_keeps_def control_or_wide_def)
  then show ?case using Cons uri_char_query [of c] by auto
qed simp

lemma path_text_keeps: "path_text p \<Longrightarrow> c \<in> set p \<Longrightarrow> path_keeps c \<and> c \<noteq> CHR ''?'' \<and> c \<noteq> CHR ''#'' \<and> c \<noteq> CHR 0x5C"
proof -
  have "path_keeps CHR ''%''" "path_keeps CHR ''/''" by (simp_all add: path_keeps_def control_or_wide_def)
  moreover assume "path_text p" "c \<in> set p"
  moreover from \<open>path_text p\<close> \<open>c \<in> set p\<close> have "uri_char c \<or> c = CHR ''%'' \<or> c = CHR ''/''" by (simp add: path_text_def list_all_iff)
  ultimately show ?thesis using uri_char_path [of c] uri_char_plain [of c] by (elim disjE) simp_all
qed

lemma resolve_dots_set: "set (resolve_dots acc segs) \<subseteq> insert [] (set acc \<union> set segs)"
proof (induction segs arbitrary: acc)
  case (Cons s rest)
  have "set (tl acc) \<subseteq> set acc" by (cases acc) auto
  then show ?case
    using Cons.IH [of "tl acc"] Cons.IH [of "[] # tl acc"] Cons.IH [of acc] Cons.IH [of "[] # acc"] Cons.IH [of "s # acc"] by auto
qed auto

lemma split_on_set: "x \<in> set (split_on c s) \<Longrightarrow> set x \<subseteq> set s"
proof (induction s arbitrary: x)
  case (Cons a s)
  obtain p ps where s: "split_on c s = p # ps" by (cases "split_on c s") auto
  have "set p \<subseteq> set s" using Cons.IH [of p] s by simp
  then show ?case using Cons.prems Cons.IH [of x] s by (cases "a = c") auto
qed simp

lemma before_none: "c \<notin> set s \<Longrightarrow> before c s = s"
  by (induction s) (auto simp: before_def)

lemma before_found: "c \<notin> set s \<Longrightarrow> before c (s @ c # t) = s"
  by (induction s) (auto simp: before_def)

lemma after_none: "c \<notin> set s \<Longrightarrow> after c s = []"
  by (induction s) (auto simp: after_def)

lemma after_found: "c \<notin> set s \<Longrightarrow> after c (s @ c # t) = t"
  by (induction s) (auto simp: after_def)

lemma kept_path:
  assumes "path_text (CHR ''/'' # p)"
  shows "map (encode_with path_keeps) (resolve_dots [] (split_on CHR ''/'' p)) = resolve_dots [] (split_on CHR ''/'' p)"
proof (rule map_idI)
  fix s
  assume "s \<in> set (resolve_dots [] (split_on CHR ''/'' p))"
  then have "s = [] \<or> s \<in> set (split_on CHR ''/'' p)" using resolve_dots_set [of "[]"] by fastforce
  then have "set s \<subseteq> set p" using split_on_set by fastforce
  then have "list_all path_keeps s" using path_text_keeps [OF assms] by (auto simp: list_all_iff)
  then show "encode_with path_keeps s = s" by (simp add: encode_with_same)
qed

lemma no_mark: "path_text p \<Longrightarrow> CHR ''?'' \<notin> set p \<and> CHR ''#'' \<notin> set p \<and> map (\<lambda>c. if c = CHR 0x5C then CHR ''/'' else c) p = p"
  using path_text_keeps [of p] by (auto intro!: map_idI)

lemma query_no_mark: "query_text q \<Longrightarrow> CHR ''#'' \<notin> set q"
  using uri_char_plain by (fastforce simp: query_text_def list_all_iff)

lemma pathname_plain:
  assumes "path_text (CHR ''/'' # p)"
  shows "url_pathname (CHR ''/'' # p) = CHR ''/'' # join_with ''/'' (resolve_dots [] (split_on CHR ''/'' p))" "url_search (CHR ''/'' # p) = []"
proof -
  note m = no_mark [OF assms]
  have b: "before CHR ''?'' (CHR ''/'' # p) = CHR ''/'' # p" "before CHR ''#'' (CHR ''/'' # p) = CHR ''/'' # p" "after CHR ''?'' (CHR ''/'' # p) = []"
    using before_none after_none m by blast+
  show "url_pathname (CHR ''/'' # p) = CHR ''/'' # join_with ''/'' (resolve_dots [] (split_on CHR ''/'' p))"
    unfolding url_pathname_def b using m by (simp add: kept_path [OF assms])
  show "url_search (CHR ''/'' # p) = []" unfolding url_search_def b by simp
qed

lemma pathname_query:
  assumes "path_text (CHR ''/'' # p)" "query_text q" "q \<noteq> []"
  shows "url_pathname (CHR ''/'' # p @ CHR ''?'' # q) = CHR ''/'' # join_with ''/'' (resolve_dots [] (split_on CHR ''/'' p))"
    "url_search (CHR ''/'' # p @ CHR ''?'' # q) = CHR ''?'' # encode_with query_keeps q"
proof -
  note m = no_mark [OF assms(1)]
  have "CHR ''#'' \<notin> set ((CHR ''/'' # p) @ CHR ''?'' # q)" using m query_no_mark [OF assms(2)] by auto
  then have h: "before CHR ''#'' (CHR ''/'' # p @ CHR ''?'' # q) = (CHR ''/'' # p) @ CHR ''?'' # q" using before_none by simp
  have b: "before CHR ''?'' ((CHR ''/'' # p) @ CHR ''?'' # q) = CHR ''/'' # p" "after CHR ''?'' ((CHR ''/'' # p) @ CHR ''?'' # q) = q"
    using before_found after_found m by blast+
  show "url_pathname (CHR ''/'' # p @ CHR ''?'' # q) = CHR ''/'' # join_with ''/'' (resolve_dots [] (split_on CHR ''/'' p))"
    unfolding url_pathname_def h b using m by (simp add: kept_path [OF assms(1)])
  show "url_search (CHR ''/'' # p @ CHR ''?'' # q) = CHR ''?'' # encode_with query_keeps q"
    unfolding url_search_def h b using assms(3) by simp
qed

lemma resolved_join:
  assumes "path_text (CHR ''/'' # p)"
  shows "join_with ''/'' (resolve_dots [] (split_on CHR ''/'' p)) = p \<longleftrightarrow> \<not> list_ex dotty (split_on CHR ''/'' p)"
proof
  assume same: "join_with ''/'' (resolve_dots [] (split_on CHR ''/'' p)) = p"
  have "set (resolve_dots [] (split_on CHR ''/'' p)) \<subseteq> insert [] (set (split_on CHR ''/'' p))" using resolve_dots_set [of "[]"] by simp
  then have noslash: "CHR ''/'' \<notin> set x" if "x \<in> set (resolve_dots [] (split_on CHR ''/'' p))" for x
    using that split_on_parts [of x "CHR ''/''" p] by auto
  show "\<not> list_ex dotty (split_on CHR ''/'' p)"
  proof (cases "resolve_dots [] (split_on CHR ''/'' p) = []")
    case True
    then have "p = []" using same by simp
    then show ?thesis by (simp add: dotty_def single_dot_def double_dot_def)
  next
    case False
    then have "resolve_dots [] (split_on CHR ''/'' p) = split_on CHR ''/'' p"
      using split_on_join [OF False noslash] same by simp
    then show ?thesis by (simp add: resolve_dots_same)
  qed
next
  assume "\<not> list_ex dotty (split_on CHR ''/'' p)"
  then show "join_with ''/'' (resolve_dots [] (split_on CHR ''/'' p)) = p" by (simp add: resolve_dots_clean join_split_on)
qed

text \<open>The parser leaves a target alone exactly when it has no dot segment and no apostrophe in the query.\<close>

lemma target_same_path:
  assumes "path_text (CHR ''/'' # p)"
  shows "url_pathname (CHR ''/'' # p) @ url_search (CHR ''/'' # p) = CHR ''/'' # p \<longleftrightarrow> \<not> list_ex dotty (split_on CHR ''/'' p)"
  using resolved_join [OF assms] by (simp add: pathname_plain [OF assms])

lemma target_same_query:
  assumes "path_text (CHR ''/'' # p)" "query_text q" "q \<noteq> []"
  shows "url_pathname (CHR ''/'' # p @ CHR ''?'' # q) @ url_search (CHR ''/'' # p @ CHR ''?'' # q) = CHR ''/'' # p @ CHR ''?'' # q \<longleftrightarrow>
    \<not> list_ex dotty (split_on CHR ''/'' p) \<and> CHR 0x27 \<notin> set q"
proof -
  let ?r = "join_with ''/'' (resolve_dots [] (split_on CHR ''/'' p))"
  have in_join: "c = CHR ''/'' \<or> (\<exists>x \<in> set xs. c \<in> set x)" if "c \<in> set (join_with ''/'' xs)" for c xs
    using that by (induction "''/''" xs rule: join_with.induct) auto
  have nom: "CHR ''?'' \<notin> set ?r" "CHR ''?'' \<notin> set p"
  proof
    assume "CHR ''?'' \<in> set ?r"
    then obtain x where "x \<in> set (resolve_dots [] (split_on CHR ''/'' p))" "CHR ''?'' \<in> set x" using in_join by fastforce
    then have "CHR ''?'' \<in> set p" using resolve_dots_set [of "[]" "split_on CHR ''/'' p"] split_on_set by fastforce
    then show False using no_mark [OF assms(1)] by simp
  qed (use no_mark [OF assms(1)] in simp)
  have "?r @ CHR ''?'' # encode_with query_keeps q = p @ CHR ''?'' # q \<longleftrightarrow> ?r = p \<and> encode_with query_keeps q = q"
    using before_found [OF nom(1)] before_found [OF nom(2)] after_found [OF nom(1)] after_found [OF nom(2)] by metis
  then show ?thesis using resolved_join [OF assms(1)] query_text_keeps [OF assms(2)]
    by (simp add: pathname_query [OF assms] encode_with_same)
qed

end
