(* ===== verification/AgentClient.thy ===== *)
theory AgentClient
  imports AgentServer_Props Wire AttachmentFetch
begin

text \<open>
  The gateway's client of the agent, \<open>AgentClient\<close> of \<^verbatim>\<open>apps/mcp/src/agent-client.js\<close>: the
  request each operation makes, its signed context, what the agent receives of it, and the
  transfer of an attachment. The base URL is an origin.
\<close>

section \<open>Operations and their requests\<close>

datatype call =
  CallCapabilities
| CallListSessions
| CallOpen json
| CallRun string string "int option" string
| CallOperation string string
| CallOutput string "string option" "nat option"
| CallInput string string bool
| CallInterrupt string
| CallClose string
| CallPurge string
| CallList string
| CallCopy json
| CallMove json
| CallDelete string bool
| CallMetadata string
| CallDownload string
| CallUpload string bool

definition bool_text :: "bool \<Rightarrow> string" where
  "bool_text b = (if b then ''true'' else ''false'')"

definition session_path :: "string \<Rightarrow> string \<Rightarrow> string" where
  "session_path i rest = ''/v1/sessions/'' @ encodeURIComponent i @ rest"

fun client_method :: "call \<Rightarrow> string" where
  "client_method (CallOpen input) = ''POST''"
| "client_method (CallRun i cmd w k) = ''POST''"
| "client_method (CallInput i t e) = ''POST''"
| "client_method (CallInterrupt i) = ''POST''"
| "client_method (CallClose i) = ''DELETE''"
| "client_method (CallPurge i) = ''DELETE''"
| "client_method (CallCopy input) = ''POST''"
| "client_method (CallMove input) = ''POST''"
| "client_method (CallDelete p r) = ''DELETE''"
| "client_method (CallUpload p w) = ''PUT''"
| "client_method c = ''GET''"

fun client_path :: "call \<Rightarrow> string" where
  "client_path CallCapabilities = ''/v1/capabilities''"
| "client_path CallListSessions = ''/v1/sessions''"
| "client_path (CallOpen input) = ''/v1/sessions''"
| "client_path (CallRun i cmd w k) = session_path i ''/commands''"
| "client_path (CallOperation i x) = session_path i (''/operations/'' @ encodeURIComponent x)"
| "client_path (CallOutput i cursor m) = session_path i ''/output''"
| "client_path (CallInput i t e) = session_path i ''/input''"
| "client_path (CallInterrupt i) = session_path i ''/interrupt''"
| "client_path (CallClose i) = session_path i []"
| "client_path (CallPurge i) = session_path i ''/purge''"
| "client_path (CallList p) = ''/v1/files''"
| "client_path (CallCopy input) = ''/v1/files/copy''"
| "client_path (CallMove input) = ''/v1/files/move''"
| "client_path (CallDelete p r) = ''/v1/files''"
| "client_path (CallMetadata p) = ''/v1/files/metadata''"
| "client_path (CallDownload p) = ''/v1/files/content''"
| "client_path (CallUpload p w) = ''/v1/files/content''"

text \<open>The text after the question mark; \<^term>\<open>[]\<close> when there is none.\<close>

fun client_query :: "call \<Rightarrow> string" where
  "client_query (CallOutput i cursor m) = URLSearchParams
     ((''maxBytes'', show_nat (case m of None \<Rightarrow> 65536 | Some n \<Rightarrow> if n = 0 then 65536 else n))
      # (case cursor of None \<Rightarrow> [] | Some t \<Rightarrow> [(''cursor'', t)]))"
| "client_query (CallList p) = ''path='' @ encodeURIComponent p"
| "client_query (CallDelete p r) = ''path='' @ encodeURIComponent p @ ''&recursive='' @ bool_text r"
| "client_query (CallMetadata p) = ''path='' @ encodeURIComponent p"
| "client_query (CallDownload p) = ''path='' @ encodeURIComponent p"
| "client_query (CallUpload p w) = URLSearchParams [(''path'', p), (''overwrite'', bool_text w)]"
| "client_query c = []"

definition client_target :: "call \<Rightarrow> string" where
  "client_target c = client_path c @ (if client_query c = [] then [] else CHR ''?'' # client_query c)"

text \<open>JSON bodies; a field that is \<^verbatim>\<open>undefined\<close> is not sent.\<close>

fun client_body :: "call \<Rightarrow> json option" where
  "client_body (CallOpen input) = Some input"
| "client_body (CallRun i cmd w k) = Some (JObj ((''command'', JStr cmd)
     # (case w of None \<Rightarrow> [] | Some n \<Rightarrow> [(''waitMs'', JNum n)]) @ [(''idempotencyKey'', JStr k)]))"
| "client_body (CallInput i t e) = Some (JObj [(''input'', JStr t), (''enter'', JBool e)])"
| "client_body (CallCopy input) = Some input"
| "client_body (CallMove input) = Some input"
| "client_body c = None"

section \<open>The request\<close>

text \<open>\<open>cl_authorization\<close> is \<^term>\<open>None\<close> unless its kind is \<^verbatim>\<open>oauth-spike\<close>.\<close>

record agent_client =
  cl_token :: string
  cl_secret :: string
  cl_authorization :: "authorization option"

definition withAuthorization :: "agent_client \<Rightarrow> authorization option \<Rightarrow> agent_client" where
  "withAuthorization cl a = cl\<lparr>cl_authorization := a\<rparr>"

definition context_header :: "crypto \<Rightarrow> agent_client \<Rightarrow> time \<Rightarrow> string \<Rightarrow> call \<Rightarrow> bridge_exc + string option" where
  "context_header cr cl now jti c = (case cl_authorization cl of
       None \<Rightarrow> Inr None
     | Some a \<Rightarrow> (case createAgentContext cr (cl_secret cl) (Some a) (Some (toUpper (client_method c))) (client_target c) now 15000 jti of
           Inl e \<Rightarrow> Inl e
         | Inr text \<Rightarrow> Inr (Some text)))"

text \<open>What the agent receives when \<^verbatim>\<open>fetch\<close> has put the target through the URL parser.\<close>

definition send :: "crypto \<Rightarrow> agent_client \<Rightarrow> time \<Rightarrow> string \<Rightarrow> call \<Rightarrow> bridge_exc + http_request" where
  "send cr cl now jti c = (case context_header cr cl now jti c of
       Inl e \<Rightarrow> Inl e
     | Inr ctx \<Rightarrow> Inr \<lparr>ht_method = toUpper (client_method c), ht_pathname = url_pathname (client_target c),
         ht_search = url_search (client_target c), ht_authorization = Some (''Bearer '' @ cl_token cl), ht_context = ctx,
         ht_query = query_pairs (url_search (client_target c)),
         ht_body = (case client_body c of None \<Rightarrow> Inr (JObj [])
           | Some b \<Rightarrow> readJson (cr_parse cr) (1024 * 1024) [cr_stringify cr b])\<rparr>)"

text \<open>The error a caller sees: code and status of the agent's answer.\<close>

definition agent_failure :: "bridge_exc \<Rightarrow> bridge_exc" where
  "agent_failure e = (case json_field ''error'' (errorPayload e) of
       None \<Rightarrow> BridgeError ''agent_error'' (error_status e) None
     | Some d \<Rightarrow> BridgeError (case json_field ''code'' d of Some (JStr c) \<Rightarrow> if c = [] then ''agent_error'' else c | _ \<Rightarrow> ''agent_error'')
         (error_status e) None)"

text \<open>The agent's side: its configuration, whether it is paused or out of reach, and its world.\<close>

record 'f agent_side =
  ad_cfg :: terminal_cfg
  ad_server :: server_cfg
  ad_files :: "string list \<times> body_end \<Rightarrow> file_call \<Rightarrow> 'f \<Rightarrow> 'f \<times> (bridge_exc + json)"
  ad_paused :: bool
  ad_reached :: bool
  ad_world :: server_world

definition request ::
  "crypto \<Rightarrow> 'f agent_side \<Rightarrow> agent_client \<Rightarrow> time \<Rightarrow> string \<Rightarrow> string list \<times> body_end \<Rightarrow> call \<Rightarrow> 'f server \<Rightarrow>
    'f server \<times> (bridge_exc + answer)" where
  "request cr ad cl now jti body c sv = (case send cr cl now jti c of
       Inl e \<Rightarrow> (sv, Inl e)
     | Inr q \<Rightarrow>
         if \<not> ad_reached ad then (sv, Inl (Failure ''TypeError''))
         else (case handle_request cr (ad_cfg ad) (ad_server ad) (ad_files ad body) (ad_paused ad) (ad_world ad) q sv of
             (sv', Inl e) \<Rightarrow> (sv', Inl (agent_failure e))
           | (sv', Inr a) \<Rightarrow> (sv', Inr a)))"

section \<open>Attachments\<close>

text \<open>
  \<open>uploadFromUrl\<close>: the fetcher, if there is one, the upload of what it delivers, and the
  release of its slot.
\<close>

definition uploadFromUrl ::
  "crypto \<Rightarrow> 'f agent_side \<Rightarrow> agent_client \<Rightarrow> time \<Rightarrow> string \<Rightarrow> fetch_cfg option \<Rightarrow> url_parser \<Rightarrow> (nat \<Rightarrow> hop) \<Rightarrow> string \<Rightarrow> string \<Rightarrow> bool \<Rightarrow>
    fetcher \<times> 'f server \<Rightarrow> (fetcher \<times> 'f server) \<times> connection list \<times> (bridge_exc + answer)" where
  "uploadFromUrl cr ad cl now jti attachmentFetcher newURL hops download_url destination overwrite st =
     (case attachmentFetcher of
        None \<Rightarrow> (st, [], Inl (bridgeError ''attachment_fetch_disabled'' 503))
      | Some cfg \<Rightarrow>
          (case fetch cfg newURL hops download_url (fst st) of
             (fe, conns, Inl e) \<Rightarrow> ((fe, snd st), conns, Inl e)
           | (fe, conns, Inr (k, body)) \<Rightarrow>
               (case request cr ad cl now jti body (CallUpload destination overwrite) (snd st) of
                  (sv, r) \<Rightarrow> ((fetch_release k fe, sv), conns, r))))"

section \<open>Shape of the targets\<close>

fun call_ids :: "call \<Rightarrow> string list" where
  "call_ids (CallRun i cmd w k) = [i]"
| "call_ids (CallOperation i x) = [i, x]"
| "call_ids (CallOutput i cursor m) = [i]"
| "call_ids (CallInput i t e) = [i]"
| "call_ids (CallInterrupt i) = [i]"
| "call_ids (CallClose i) = [i]"
| "call_ids (CallPurge i) = [i]"
| "call_ids c = []"

text \<open>The file path a call carries in its query.\<close>

fun call_candidate :: "call \<Rightarrow> string option" where
  "call_candidate (CallList p) = Some p"
| "call_candidate (CallDelete p r) = Some p"
| "call_candidate (CallMetadata p) = Some p"
| "call_candidate (CallDownload p) = Some p"
| "call_candidate (CallUpload p w) = Some p"
| "call_candidate c = None"

text \<open>The route the call means.\<close>

fun call_route :: "call \<Rightarrow> route" where
  "call_route CallCapabilities = Capabilities"
| "call_route CallListSessions = ListSessions"
| "call_route (CallOpen input) = OpenSession"
| "call_route (CallRun i cmd w k) = SessionRoute i Commands"
| "call_route (CallOperation i x) = OperationRoute i x"
| "call_route (CallOutput i cursor m) = SessionRoute i Output"
| "call_route (CallInput i t e) = SessionRoute i SendInput"
| "call_route (CallInterrupt i) = SessionRoute i InterruptAction"
| "call_route (CallClose i) = SessionRoute i SessionAction"
| "call_route (CallPurge i) = SessionRoute i PurgeAction"
| "call_route (CallList p) = ListFiles"
| "call_route (CallCopy input) = CopyPath"
| "call_route (CallMove input) = MovePath"
| "call_route (CallDelete p r) = RemovePath"
| "call_route (CallMetadata p) = FileMetadata"
| "call_route (CallDownload p) = DownloadFile"
| "call_route (CallUpload p w) = UploadFile"

end
