(* ===== verification/McpServer.thy ===== *)
theory McpServer
  imports AgentClient OAuth
begin

text \<open>
  The MCP server of the gateway: \<^verbatim>\<open>apps/mcp/src/mcp-server.js\<close> (tools, their scopes, inputs
  and handlers) and \<^verbatim>\<open>apps/mcp/src/download-tokens.js\<close>. The protocol SDK and its schema
  library are third-party code: the model starts from parsed inputs, and titles, annotations
  and output schemas are left out.
\<close>

section \<open>Tools and scopes\<close>

definition toolScopes :: "(string \<times> string option) list" where
  "toolScopes =
    [(''get_bridge_status'', None),
     (''list_terminal_sessions'', Some ''terminal:read''),
     (''open_terminal'', Some ''terminal:execute''),
     (''run_terminal_command'', Some ''terminal:execute''),
     (''get_terminal_operation'', Some ''terminal:read''),
     (''read_terminal'', Some ''terminal:read''),
     (''send_terminal_input'', Some ''terminal:input''),
     (''interrupt_terminal'', Some ''terminal:input''),
     (''close_terminal'', Some ''terminal:close''),
     (''purge_terminal'', Some ''terminal:close''),
     (''list_files'', Some ''files:read''),
     (''upload_files'', Some ''files:write''),
     (''download_file'', Some ''files:read''),
     (''copy_path'', Some ''files:write''),
     (''move_path'', Some ''files:write''),
     (''delete_path'', Some ''files:delete'')]"

text \<open>Who asks: a static token, or an OAuth grant.\<close>

datatype gateway_auth = StaticAccess | OAuthAccess auth_identity

definition registered :: "gateway_auth \<Rightarrow> string \<Rightarrow> bool" where
  "registered a name = (case a of
       StaticAccess \<Rightarrow> True
     | OAuthAccess i \<Rightarrow> (case map_of toolScopes name of
           Some (Some required) \<Rightarrow> required \<in> set (id_scopes i) | _ \<Rightarrow> True))"

section \<open>Names and labels\<close>

text \<open>\<^verbatim>\<open>path.posix.basename\<close>\<close>

definition posix_basename :: "string \<Rightarrow> string" where
  "posix_basename s = last (split_on CHR ''/'' (rev (dropWhile (\<lambda>c. c = CHR ''/'') (rev s))))"

definition slashes :: "string \<Rightarrow> string" where
  "slashes s = map (\<lambda>c. if c = CHR 0x5C then CHR ''/'' else c) s"

definition control_char :: "char \<Rightarrow> bool" where
  "control_char c \<longleftrightarrow> (of_char c :: nat) < 32 \<or> (of_char c :: nat) = 127"

record attachment =
  at_download_url :: string
  at_file_id :: string
  at_file_name :: "string option"

text \<open>\<open>sha256_hex\<close> is the hexadecimal SHA-256 digest.\<close>

definition attachmentName :: "(string \<Rightarrow> string) \<Rightarrow> attachment \<Rightarrow> string" where
  "attachmentName sha256_hex file =
     (let supplied = (case at_file_name file of None \<Rightarrow> []
            | Some n \<Rightarrow> trim_text (filter (\<lambda>c. \<not> control_char c) (slashes n)));
          safe = (if supplied = [] then [] else posix_basename supplied)
      in if safe \<noteq> [] \<and> safe \<noteq> ''.'' \<and> safe \<noteq> ''..'' then safe
         else ''attachment-'' @ take 16 (sha256_hex (at_file_id file)))"

definition client_field_char :: "char \<Rightarrow> bool" where
  "client_field_char c \<longleftrightarrow> is_alnum c \<or> c \<in> set '' ._+()/:@-''"

text \<open>The value is \<^term>\<open>None\<close> when it is no string.\<close>

definition clientImplementationField :: "string option \<Rightarrow> string" where
  "clientImplementationField v = (case v of None \<Rightarrow> ''unknown'' | Some s \<Rightarrow>
     (let normalized = trim_text s
      in if normalized = [] \<or> length normalized > 80 then ''unknown''
         else if \<not> (is_alnum (hd normalized) \<and> list_all client_field_char (tl normalized)) then ''unknown''
         else normalized))"

text \<open>\<^verbatim>\<open>path.posix.join\<close> of a directory text and a name.\<close>

fun norm_relative :: "bool \<Rightarrow> string list \<Rightarrow> string list \<Rightarrow> string list" where
  "norm_relative rooted acc [] = rev acc"
| "norm_relative rooted acc (p # ps) =
     (if p = [] \<or> p = ''.'' then norm_relative rooted acc ps
      else if p = ''..'' then
        (if acc = [] \<or> hd acc = ''..'' then norm_relative rooted (if rooted then acc else p # acc) ps else norm_relative rooted (tl acc) ps)
      else norm_relative rooted (p # acc) ps)"

definition posix_join :: "string \<Rightarrow> string \<Rightarrow> string" where
  "posix_join directory name =
     (let joined = (if directory = [] then name else if name = [] then directory else directory @ ''/'' @ name);
          rooted = starts_with joined ''/'';
          trailing = (joined \<noteq> [] \<and> last joined = CHR ''/'');
          parts = join_with ''/'' (norm_relative rooted [] (split_on CHR ''/'' joined))
      in if joined = [] then ''.''
         else if parts = [] then (if rooted then ''/'' else if trailing then ''./'' else ''.'')
         else (if rooted then ''/'' else []) @ parts @ (if trailing then ''/'' else []))"

section \<open>Download links\<close>

record link =
  ln_path :: string
  ln_expires :: time
  ln_authorization :: gateway_auth

type_synonym downloads = "(string \<times> link) list"

definition downloads_cleanup :: "time \<Rightarrow> downloads \<Rightarrow> downloads" where
  "downloads_cleanup now ds = filter (\<lambda>(token, l). \<not> ln_expires l \<le> now) ds"

text \<open>
  \<open>maximum\<close> is the parsed end of the grant, \<^term>\<open>None\<close> without one. The clock is read in
  \<open>cleanup\<close> and again for the expiry.
\<close>

definition downloads_issue ::
  "int \<Rightarrow> (nat \<Rightarrow> time) \<Rightarrow> string \<Rightarrow> string \<Rightarrow> gateway_auth \<Rightarrow> time option \<Rightarrow> downloads \<Rightarrow> downloads \<times> string \<times> time" where
  "downloads_issue ttlMs clk token filePath a maximum ds =
     (let ds1 = downloads_cleanup (clk 0) ds;
          requested = clk 1 + ttlMs;
          expires = (case maximum of None \<Rightarrow> requested | Some ceiling \<Rightarrow> min requested ceiling)
      in ((token, \<lparr>ln_path = filePath, ln_expires = expires, ln_authorization = a\<rparr>) # filter (\<lambda>(k, v). k \<noteq> token) ds1, token, expires))"

definition downloads_get :: "(nat \<Rightarrow> time) \<Rightarrow> string \<Rightarrow> downloads \<Rightarrow> downloads \<times> link option" where
  "downloads_get clk token ds =
     (let ds1 = downloads_cleanup (clk 0) ds
      in (ds1, case map_of ds1 token of None \<Rightarrow> None | Some l \<Rightarrow> if ln_expires l \<le> clk 1 then None else Some l))"

section \<open>Tool inputs\<close>

datatype tool =
  GetBridgeStatus
| ListTerminalSessions
| OpenTerminal "string option" "string option"
| RunTerminalCommand string string "int option" string
| GetTerminalOperation string string
| ReadTerminal string "string option" "nat option"
| SendTerminalInput string string bool
| InterruptTerminal string
| CloseTerminal string
| PurgeTerminal string
| ListFilesIn string
| UploadFiles "attachment list" string bool
| DownloadFileAt string
| CopyPathTo string string bool
| MovePathTo string string bool
| DeletePathAt string bool

fun tool_name :: "tool \<Rightarrow> string" where
  "tool_name GetBridgeStatus = ''get_bridge_status''"
| "tool_name ListTerminalSessions = ''list_terminal_sessions''"
| "tool_name (OpenTerminal cwd label) = ''open_terminal''"
| "tool_name (RunTerminalCommand s cmd w k) = ''run_terminal_command''"
| "tool_name (GetTerminalOperation s x) = ''get_terminal_operation''"
| "tool_name (ReadTerminal s cursor m) = ''read_terminal''"
| "tool_name (SendTerminalInput s t e) = ''send_terminal_input''"
| "tool_name (InterruptTerminal s) = ''interrupt_terminal''"
| "tool_name (CloseTerminal s) = ''close_terminal''"
| "tool_name (PurgeTerminal s) = ''purge_terminal''"
| "tool_name (ListFilesIn p) = ''list_files''"
| "tool_name (UploadFiles fs d w) = ''upload_files''"
| "tool_name (DownloadFileAt p) = ''download_file''"
| "tool_name (CopyPathTo a b w) = ''copy_path''"
| "tool_name (MovePathTo a b w) = ''move_path''"
| "tool_name (DeletePathAt p r) = ''delete_path''"

text \<open>The bounds of the input schemas.\<close>

fun input_ok :: "tool \<Rightarrow> bool" where
  "input_ok (OpenTerminal cwd label) = (case label of None \<Rightarrow> True | Some l \<Rightarrow> length l \<le> 120)"
| "input_ok (RunTerminalCommand s cmd w k) \<longleftrightarrow> cmd \<noteq> [] \<and> (case w of None \<Rightarrow> True | Some n \<Rightarrow> 0 \<le> n \<and> n \<le> 30000) \<and>
     in_class (\<lambda>c. is_alnum c \<or> c \<in> set ''._:-'') 1 128 k"
| "input_ok (ReadTerminal s cursor m) = (case m of None \<Rightarrow> True | Some n \<Rightarrow> 1 \<le> n \<and> n \<le> 262144)"
| "input_ok (UploadFiles fs d w) = (fs \<noteq> [])"
| "input_ok t = True"

definition path_input :: "string \<Rightarrow> string \<Rightarrow> bool \<Rightarrow> json" where
  "path_input source destination overwrite = JObj [(''source'', JStr source), (''destination'', JStr destination), (''overwrite'', JBool overwrite)]"

text \<open>The one call to the agent most tools make; \<^term>\<open>None\<close> for the two that do more.\<close>

fun tool_call :: "tool \<Rightarrow> call option" where
  "tool_call GetBridgeStatus = Some CallCapabilities"
| "tool_call ListTerminalSessions = Some CallListSessions"
| "tool_call (OpenTerminal cwd label) = Some (CallOpen (JObj
     ((case cwd of None \<Rightarrow> [] | Some d \<Rightarrow> [(''cwd'', JStr d)]) @ (case label of None \<Rightarrow> [] | Some l \<Rightarrow> [(''label'', JStr l)]))))"
| "tool_call (RunTerminalCommand s cmd w k) = Some (CallRun s cmd w k)"
| "tool_call (GetTerminalOperation s x) = Some (CallOperation s x)"
| "tool_call (ReadTerminal s cursor m) = Some (CallOutput s cursor m)"
| "tool_call (SendTerminalInput s t e) = Some (CallInput s t e)"
| "tool_call (InterruptTerminal s) = Some (CallInterrupt s)"
| "tool_call (CloseTerminal s) = Some (CallClose s)"
| "tool_call (PurgeTerminal s) = Some (CallPurge s)"
| "tool_call (ListFilesIn p) = Some (CallList p)"
| "tool_call (UploadFiles fs d w) = None"
| "tool_call (DownloadFileAt p) = None"
| "tool_call (CopyPathTo a b w) = Some (CallCopy (path_input a b w))"
| "tool_call (MovePathTo a b w) = Some (CallMove (path_input a b w))"
| "tool_call (DeletePathAt p r) = Some (CallDelete p r)"

section \<open>Running a tool\<close>

record 'f gateway =
  gw_oauth :: oauth_state
  gw_downloads :: downloads
  gw_fetcher :: fetcher
  gw_agent :: "'f server"

text \<open>
  What the world answers: clock and ids, the link token, and for the n-th request of a tool
  the agent's side, the context id, and the hops of an attachment transfer.
\<close>

record 'f gateway_world =
  gx_clk :: "nat \<Rightarrow> time"
  gx_token :: string
  gx_jti :: "nat \<Rightarrow> string"
  gx_now :: "nat \<Rightarrow> time"
  gx_agent :: "nat \<Rightarrow> 'f agent_side"
  gx_hops :: "nat \<Rightarrow> nat \<Rightarrow> hop"
  gx_newURL :: url_parser
  gx_sha256 :: "string \<Rightarrow> string"

record gateway_cfg =
  gc_client :: agent_client
  gc_fetcher :: "fetch_cfg option"
  gc_downloadTtlMs :: int
  gc_path :: string
  gc_oauthMode :: bool
  gc_accessToken :: string

definition authorization_of :: "gateway_auth \<Rightarrow> authorization option" where
  "authorization_of a = (case a of
       StaticAccess \<Rightarrow> None
     | OAuthAccess i \<Rightarrow> Some \<lparr>au_ownerId = id_ownerId i, au_grantId = id_grantId i, au_scopes = id_scopes i,
         au_executionProfile = id_executionProfile i\<rparr>)"

datatype tool_answer =
  AgentAnswer answer
| UploadedAnswer "answer list"
| LinkAnswer string time answer

definition no_body :: "string list \<times> body_end" where
  "no_body = ([], Complete)"

definition ask_agent ::
  "crypto \<Rightarrow> gateway_cfg \<Rightarrow> 'f gateway_world \<Rightarrow> gateway_auth \<Rightarrow> call \<Rightarrow> 'f gateway \<Rightarrow> 'f gateway \<times> (bridge_exc + answer)" where
  "ask_agent cr cfg w a c g =
     (case request cr (gx_agent w 0) (withAuthorization (gc_client cfg) (authorization_of a)) (gx_now w 0) (gx_jti w 0) no_body c (gw_agent g) of
        (sv, r) \<Rightarrow> (g\<lparr>gw_agent := sv\<rparr>, r))"

text \<open>The files of an upload, one after the other; the first error ends it.\<close>

fun upload_files ::
  "crypto \<Rightarrow> gateway_cfg \<Rightarrow> 'f gateway_world \<Rightarrow> gateway_auth \<Rightarrow> string \<Rightarrow> bool \<Rightarrow> nat \<Rightarrow> attachment list \<Rightarrow> 'f gateway \<Rightarrow>
    'f gateway \<times> (bridge_exc + answer list)" where
  "upload_files cr cfg w a directory overwrite n [] g = (g, Inr [])"
| "upload_files cr cfg w a directory overwrite n (file # files) g =
     (case uploadFromUrl cr (gx_agent w n) (withAuthorization (gc_client cfg) (authorization_of a)) (gx_now w n) (gx_jti w n) (gc_fetcher cfg)
             (gx_newURL w) (gx_hops w n) (at_download_url file)
             (posix_join (slashes directory) (attachmentName (gx_sha256 w) file)) overwrite (gw_fetcher g, gw_agent g) of
        ((fe, sv), conns, Inl e) \<Rightarrow> (g\<lparr>gw_fetcher := fe, gw_agent := sv\<rparr>, Inl e)
      | ((fe, sv), conns, Inr v) \<Rightarrow>
          (case upload_files cr cfg w a directory overwrite (n + 1) files (g\<lparr>gw_fetcher := fe, gw_agent := sv\<rparr>) of
             (g', Inl e) \<Rightarrow> (g', Inl e)
           | (g', Inr vs) \<Rightarrow> (g', Inr (v # vs))))"

definition grant_end :: "gateway_auth \<Rightarrow> time option" where
  "grant_end a = (case a of StaticAccess \<Rightarrow> None | OAuthAccess i \<Rightarrow> id_grantExpiresAt i)"

definition download_file ::
  "crypto \<Rightarrow> gateway_cfg \<Rightarrow> 'f gateway_world \<Rightarrow> gateway_auth \<Rightarrow> string \<Rightarrow> 'f gateway \<Rightarrow> 'f gateway \<times> (bridge_exc + tool_answer)" where
  "download_file cr cfg w a candidate g =
     (case ask_agent cr cfg w a (CallMetadata candidate) g of
        (g1, Inl e) \<Rightarrow> (g1, Inl e)
      | (g1, Inr metadata) \<Rightarrow>
          (case downloads_issue (gc_downloadTtlMs cfg) (gx_clk w) (gx_token w) candidate a (grant_end a) (gw_downloads g1) of
             (ds, token, expires) \<Rightarrow> (g1\<lparr>gw_downloads := ds\<rparr>, Inr (LinkAnswer token expires metadata))))"

definition run_tool ::
  "crypto \<Rightarrow> gateway_cfg \<Rightarrow> 'f gateway_world \<Rightarrow> gateway_auth \<Rightarrow> tool \<Rightarrow> 'f gateway \<Rightarrow> 'f gateway \<times> (bridge_exc + tool_answer)" where
  "run_tool cr cfg w a t g = (case tool_call t of
       Some c \<Rightarrow> (case ask_agent cr cfg w a c g of
           (g', Inl e) \<Rightarrow> (g', Inl e) | (g', Inr v) \<Rightarrow> (g', Inr (AgentAnswer v)))
     | None \<Rightarrow> (case t of
           UploadFiles files directory overwrite \<Rightarrow>
             (case upload_files cr cfg w a directory overwrite 0 files g of
                (g', Inl e) \<Rightarrow> (g', Inl e) | (g', Inr vs) \<Rightarrow> (g', Inr (UploadedAnswer vs)))
         | DownloadFileAt candidate \<Rightarrow> download_file cr cfg w a candidate g
         | _ \<Rightarrow> (g, Inl (Failure ''TypeError''))))"

end
