(* ===== verification/AgentClient_Props.thy ===== *)
theory AgentClient_Props
  imports AgentClient
begin

text \<open>
  From the client's call to the agent's route: which targets survive the URL parser, and what
  the agent then reads from them.
\<close>

section \<open>Query texts\<close>

lemma query_pairs_join:
  assumes "\<And>k v. (k, v) \<in> set ps \<Longrightarrow> CHR ''='' \<notin> set (f k) \<and> CHR ''&'' \<notin> set (f k @ g v) \<and> form_decode (f k) = k \<and> form_decode (g v) = v"
  shows "query_pairs (c # join_with ''&'' (map (\<lambda>(k, v). f k @ ''='' @ g v) ps)) = ps"
proof (cases "ps = []")
  case True
  then show ?thesis by (simp add: query_pairs_def)
next
  case False
  have "split_on CHR ''&'' (join_with ''&'' (map (\<lambda>(k, v). f k @ ''='' @ g v) ps)) = map (\<lambda>(k, v). f k @ ''='' @ g v) ps"
    by (rule split_on_join) (use False assms in fastforce)+
  moreover have "filter (\<lambda>part. part \<noteq> []) (map (\<lambda>(k, v). f k @ ''='' @ g v) ps) = map (\<lambda>(k, v). f k @ ''='' @ g v) ps"
    by (rule filter_True) auto
  moreover have "map (\<lambda>part. (form_decode (before CHR ''='' part), form_decode (after CHR ''='' part))) (map (\<lambda>(k, v). f k @ ''='' @ g v) ps) = ps"
    unfolding map_map by (rule map_idI) (use assms before_found after_found in auto)
  ultimately show ?thesis by (simp add: query_pairs_def)
qed

lemma form_no_mark: "CHR ''='' \<notin> set (form_encode s)" "CHR ''&'' \<notin> set (form_encode s)"
  by (auto dest!: form_encoded_chars simp: form_char_def class_defs)

lemma component_no_mark: "CHR ''='' \<notin> set (encodeURIComponent s)" "CHR ''&'' \<notin> set (encodeURIComponent s)"
  "CHR ''/'' \<notin> set (encodeURIComponent s)" "CHR ''?'' \<notin> set (encodeURIComponent s)"
  by (auto dest!: encoded_chars dest: uri_char_plain)

text \<open>The agent reads back the pairs \<open>URLSearchParams\<close> printed.\<close>

lemma query_roundtrip: "query_pairs (c # URLSearchParams ps) = ps"
  unfolding URLSearchParams_def
  by (rule query_pairs_join) (simp add: form_no_mark form_decode_encode)

lemma component_pair: "form_decode k = k \<Longrightarrow> CHR ''='' \<notin> set k \<Longrightarrow> CHR ''&'' \<notin> set k \<Longrightarrow>
    query_pairs (c # k @ ''='' @ encodeURIComponent v) = [(k, v)]"
  using query_pairs_join [of "[(k, v)]" "\<lambda>k. k" encodeURIComponent c] by (simp add: component_no_mark form_decode_component)

lemma component_pairs:
  assumes "form_decode k = k" "CHR ''='' \<notin> set k" "CHR ''&'' \<notin> set k" "form_decode k2 = k2" "CHR ''='' \<notin> set k2" "CHR ''&'' \<notin> set k2"
    "encodeURIComponent v2 = v2"
  shows "query_pairs (c # k @ ''='' @ encodeURIComponent v @ ''&'' @ k2 @ ''='' @ v2) = [(k, v), (k2, v2)]"
  using query_pairs_join [of "[(k, v), (k2, v2)]" "\<lambda>k. k" encodeURIComponent c] assms
  by (auto simp: component_no_mark form_decode_component)

lemma key_texts: "form_decode ''path'' = ''path''" "form_decode ''recursive'' = ''recursive''" "encodeURIComponent (bool_text b) = bool_text b"
proof -
  show "form_decode ''path'' = ''path''" "form_decode ''recursive'' = ''recursive''" by code_simp+
  have "encodeURIComponent ''true'' = ''true''" "encodeURIComponent ''false'' = ''false''" by code_simp+
  then show "encodeURIComponent (bool_text b) = bool_text b" by (simp add: bool_text_def)
qed

section \<open>Identifiers in paths\<close>

lemma component_uri: "list_all uri_char s \<Longrightarrow> encodeURIComponent s = s"
  by (simp add: encodeURIComponent_def encode_with_same)

lemma encode_no_percent: "CHR ''%'' \<notin> set (encode_with keep s) \<Longrightarrow> encode_with keep s = s"
  by (induction s) (auto simp: encode_with_def percent_def split: if_splits)

lemma component_percent: "CHR ''%'' \<notin> set (encodeURIComponent s) \<Longrightarrow> encodeURIComponent s = s"
  unfolding encodeURIComponent_def by (rule encode_no_percent)

lemma id_char_uri: "id_char c \<Longrightarrow> uri_char c \<and> c \<noteq> CHR ''%''"
  by (auto simp: id_char_def uri_char_def class_defs)

lemma route_id_component: "route_id (encodeURIComponent i) \<longleftrightarrow> route_id i"
proof
  assume "route_id (encodeURIComponent i)"
  then have "CHR ''%'' \<notin> set (encodeURIComponent i)" using id_char_uri by (auto simp: route_id_def list_all_iff)
  then show "route_id i" using component_percent [of i] \<open>route_id (encodeURIComponent i)\<close> by simp
next
  assume "route_id i"
  then have "encodeURIComponent i = i" using id_char_uri by (intro component_uri) (auto simp: route_id_def list_all_iff)
  then show "route_id (encodeURIComponent i)" using \<open>route_id i\<close> by simp
qed

lemma route_id_same: "route_id i \<Longrightarrow> encodeURIComponent i = i"
  using id_char_uri by (intro component_uri) (auto simp: route_id_def list_all_iff)

lemma lower_texts: "lower c = CHR ''.'' \<longleftrightarrow> c = CHR ''.''" "lower c = CHR ''%'' \<longleftrightarrow> c = CHR ''%''"
  "lower c = CHR ''2'' \<longleftrightarrow> c = CHR ''2''" "lower c = CHR ''e'' \<longleftrightarrow> c = CHR ''e'' \<or> c = CHR ''E''"
  by (auto simp: lower_def is_upper_def char_of_eq_iff)

lemma hex_e: "is_hex CHR ''2''" "is_hex CHR ''e''" "is_hex CHR ''E''" "hex_val (lower CHR ''2'') = 2" "hex_val (lower CHR ''e'') = 14"
    "hex_val (lower CHR ''E'') = 14"
  by code_simp+

lemma dotty_decodes: "dotty s \<Longrightarrow> percent_decode s = ''.'' \<or> percent_decode s = ''..''"
  by (auto simp: dotty_def single_dot_def double_dot_def map_eq_Cons_conv lower_texts hex_e char_of_eq_iff)

lemma dotty_component: "dotty (encodeURIComponent i) \<longleftrightarrow> i = ''.'' \<or> i = ''..''"
proof
  assume "dotty (encodeURIComponent i)"
  then show "i = ''.'' \<or> i = ''..''" using dotty_decodes [of "encodeURIComponent i"] by (simp add: decode_component)
next
  assume "i = ''.'' \<or> i = ''..''"
  moreover have "dotty (encodeURIComponent ''.'')" "dotty (encodeURIComponent ''..'')" by code_simp+
  ultimately show "dotty (encodeURIComponent i)" by blast
qed

section \<open>Targets\<close>

lemma split_session: "split_on CHR ''/'' (''v1/sessions/'' @ encodeURIComponent i) = [''v1'', ''sessions'', encodeURIComponent i]"
  "split_on CHR ''/'' (''v1/sessions/'' @ encodeURIComponent i @ CHR ''/'' # r) = [''v1'', ''sessions'', encodeURIComponent i] @ split_on CHR ''/'' r"
  by (simp_all add: split_on_append split_on_no_sep component_no_mark)

lemma split_operation: "split_on CHR ''/'' (''operations/'' @ encodeURIComponent x) = [''operations'', encodeURIComponent x]"
  by (simp add: split_on_append split_on_no_sep component_no_mark)

lemma path_text_component [simp]: "path_text (encodeURIComponent i)"
  using encoded_chars by (auto simp: path_text_def list_all_iff)

lemma query_text_component [simp]: "query_text (encodeURIComponent i)"
  using encoded_chars by (fastforce simp: query_text_def list_all_iff)

lemma query_text_form [simp]: "query_text (form_encode i)"
proof -
  have "uri_char c \<or> c \<in> set ''%=&+''" if "c \<in> set (form_encode i)" for c
    using form_encoded_chars [OF that] by (auto simp: form_char_def uri_char_def)
  then show ?thesis by (simp only: query_text_def list_all_iff) blast
qed

lemma form_no_apostrophe: "CHR 0x27 \<notin> set (form_encode s)"
  by (auto dest!: form_encoded_chars simp: form_char_def class_defs)

lemma apostrophe_component: "CHR 0x27 \<in> set (encodeURIComponent s) \<longleftrightarrow> CHR 0x27 \<in> set s"
proof (induction s)
  case (Cons c s)
  have "CHR 0x27 \<notin> set (percent c)" by (auto dest!: percent_chars simp: class_defs)
  moreover have "uri_char CHR 0x27" by (simp add: uri_char_def)
  ultimately show ?case using Cons by (auto simp: encodeURIComponent_def encode_with_def)
qed (simp add: encodeURIComponent_def encode_with_def)

lemma literal_texts:
  "path_text ''/v1/capabilities''" "path_text ''/v1/sessions''" "path_text ''/v1/sessions/''" "path_text ''/v1/files''" "path_text ''/v1/files/copy''"
  "path_text ''/v1/files/move''" "path_text ''/v1/files/metadata''" "path_text ''/v1/files/content''" "path_text ''/commands''"
  "path_text ''/operations/''" "path_text ''/output''" "path_text ''/input''" "path_text ''/interrupt''" "path_text ''/purge''"
  "query_text ''path=''" "query_text ''&recursive=''" "query_text ''true''" "query_text ''false''" "query_text ''=''" "query_text ''&''"
  by code_simp+

lemma literal_segments:
  "\<not> dotty ''v1''" "\<not> dotty ''sessions''" "\<not> dotty ''files''" "\<not> dotty ''capabilities''" "\<not> dotty ''operations''" "\<not> dotty ''commands''"
  "\<not> dotty ''output''" "\<not> dotty ''input''" "\<not> dotty ''interrupt''" "\<not> dotty ''purge''" "\<not> dotty ''copy''" "\<not> dotty ''move''"
  "\<not> dotty ''metadata''" "\<not> dotty ''content''"
  by code_simp+

text \<open>The segments of a path, after its first slash.\<close>

definition path_segments :: "call \<Rightarrow> string list" where
  "path_segments c = split_on CHR ''/'' (tl (client_path c))"

lemma session_tail: "tl (session_path i r) = ''v1/sessions/'' @ encodeURIComponent i @ r"
  by (simp add: session_path_def)

lemma path_segments_eq:
  "path_segments c = (case c of
     CallCapabilities \<Rightarrow> [''v1'', ''capabilities''] | CallListSessions \<Rightarrow> [''v1'', ''sessions''] | CallOpen input \<Rightarrow> [''v1'', ''sessions'']
   | CallRun i cmd w k \<Rightarrow> [''v1'', ''sessions'', encodeURIComponent i, ''commands'']
   | CallOperation i x \<Rightarrow> [''v1'', ''sessions'', encodeURIComponent i, ''operations'', encodeURIComponent x]
   | CallOutput i cursor m \<Rightarrow> [''v1'', ''sessions'', encodeURIComponent i, ''output'']
   | CallInput i t e \<Rightarrow> [''v1'', ''sessions'', encodeURIComponent i, ''input'']
   | CallInterrupt i \<Rightarrow> [''v1'', ''sessions'', encodeURIComponent i, ''interrupt'']
   | CallClose i \<Rightarrow> [''v1'', ''sessions'', encodeURIComponent i]
   | CallPurge i \<Rightarrow> [''v1'', ''sessions'', encodeURIComponent i, ''purge'']
   | CallList p \<Rightarrow> [''v1'', ''files''] | CallDelete p r \<Rightarrow> [''v1'', ''files'']
   | CallCopy input \<Rightarrow> [''v1'', ''files'', ''copy''] | CallMove input \<Rightarrow> [''v1'', ''files'', ''move'']
   | CallMetadata p \<Rightarrow> [''v1'', ''files'', ''metadata''] | CallDownload p \<Rightarrow> [''v1'', ''files'', ''content'']
   | CallUpload p w \<Rightarrow> [''v1'', ''files'', ''content''])"
proof -
  have rest: "split_on CHR ''/'' (''v1/sessions/'' @ encodeURIComponent i @ []) = [''v1'', ''sessions'', encodeURIComponent i]" for i
    using split_session(1) by simp
  have op: "split_on CHR ''/'' (''v1/sessions/'' @ encodeURIComponent i @ ''/operations/'' @ encodeURIComponent x) =
      [''v1'', ''sessions'', encodeURIComponent i, ''operations'', encodeURIComponent x]" for i x
    using split_session(2) [of i "''operations/'' @ encodeURIComponent x"] split_operation [of x] by simp
  show ?thesis
    by (cases c; simp add: path_segments_def session_tail rest op split_session(2) del: append_Cons append.simps(2))
      (simp_all add: session_tail split_session(2) [simplified] rest [simplified] op [simplified])
qed

lemma path_segments_dotty: "list_ex dotty (path_segments c) \<longleftrightarrow> list_ex (\<lambda>i. i = ''.'' \<or> i = ''..'') (call_ids c)"
  by (cases c) (simp_all add: path_segments_eq literal_segments dotty_component)

lemma client_path_shape: "path_text (client_path c)" "client_path c = CHR ''/'' # tl (client_path c)"
proof -
  show "path_text (client_path c)"
    by (cases c) (simp_all only: client_path.simps session_path_def text_append path_text_component literal_texts path_text_simps(1))
  show "client_path c = CHR ''/'' # tl (client_path c)" by (cases c) (simp_all add: session_path_def)
qed

lemma query_text_pairs: "query_text (URLSearchParams ps)"
  unfolding URLSearchParams_def
  by (induction ps rule: induct_list012) (auto simp: literal_texts [simplified])

lemma client_query_shape: "query_text (client_query c)"
  by (cases c) (simp_all only: client_query.simps text_append query_text_component bool_text_def if_split literal_texts simp_thms query_text_pairs query_text_simps(1))

text \<open>Calls whose target the URL parser leaves alone.\<close>

definition tame :: "call \<Rightarrow> bool" where
  "tame c \<longleftrightarrow> \<not> list_ex (\<lambda>i. i = ''.'' \<or> i = ''..'') (call_ids c) \<and>
     (case c of CallUpload p w \<Rightarrow> True
      | _ \<Rightarrow> (case call_candidate c of None \<Rightarrow> True | Some p \<Rightarrow> CHR 0x27 \<notin> set p))"

lemma query_apostrophe:
  "CHR 0x27 \<in> set (client_query c) \<longleftrightarrow>
    (case c of CallUpload p w \<Rightarrow> False | _ \<Rightarrow> (case call_candidate c of None \<Rightarrow> False | Some p \<Rightarrow> CHR 0x27 \<in> set p))"
proof -
  have pairs: "CHR 0x27 \<notin> set (URLSearchParams ps)" for ps
    unfolding URLSearchParams_def by (induction ps rule: induct_list012) (auto simp: form_no_apostrophe)
  show ?thesis by (cases c) (simp_all add: pairs apostrophe_component bool_text_def)
qed

lemma client_target_shape:
  "client_query c = [] \<Longrightarrow> client_target c = CHR ''/'' # tl (client_path c)"
  "client_query c \<noteq> [] \<Longrightarrow> client_target c = CHR ''/'' # tl (client_path c) @ CHR ''?'' # client_query c"
  using client_path_shape(2) [of c] by (simp_all add: client_target_def)

lemma target_same: "url_pathname (client_target c) @ url_search (client_target c) = client_target c \<longleftrightarrow> tame c"
proof -
  have p: "path_text (CHR ''/'' # tl (client_path c))" using client_path_shape [of c] by simp
  have dots: "list_ex dotty (split_on CHR ''/'' (tl (client_path c))) \<longleftrightarrow> list_ex (\<lambda>i. i = ''.'' \<or> i = ''..'') (call_ids c)"
    using path_segments_dotty [of c] by (simp add: path_segments_def)
  have quote: "CHR 0x27 \<notin> set (client_query c) \<longleftrightarrow>
      (case c of CallUpload p w \<Rightarrow> True | _ \<Rightarrow> (case call_candidate c of None \<Rightarrow> True | Some p \<Rightarrow> CHR 0x27 \<notin> set p))"
    unfolding query_apostrophe by (cases c) simp_all
  show ?thesis
  proof (cases "client_query c = []")
    case True
    then have "CHR 0x27 \<notin> set (client_query c)" by simp
    then show ?thesis
      unfolding client_target_shape(1) [OF True] target_same_path [OF p] dots tame_def quote by blast
  next
    case False
    show ?thesis
      unfolding client_target_shape(2) [OF False] target_same_query [OF p client_query_shape False] dots tame_def quote by blast
  qed
qed

lemma tame_parts:
  assumes "tame c"
  shows "url_pathname (client_target c) = client_path c"
    "url_search (client_target c) = (if client_query c = [] then [] else CHR ''?'' # client_query c)"
proof -
  have p: "path_text (CHR ''/'' # tl (client_path c))" using client_path_shape [of c] by simp
  have "\<not> list_ex dotty (split_on CHR ''/'' (tl (client_path c)))"
    using assms path_segments_dotty [of c] by (simp add: path_segments_def tame_def)
  then have r: "join_with ''/'' (resolve_dots [] (split_on CHR ''/'' (tl (client_path c)))) = tl (client_path c)"
    using resolved_join [OF p] by simp
  have same: "url_pathname (client_target c) @ url_search (client_target c) = client_target c" using assms target_same by simp
  show n: "url_pathname (client_target c) = client_path c"
  proof (cases "client_query c = []")
    case True
    then show ?thesis unfolding client_target_shape(1) [OF True] pathname_plain [OF p] r using client_path_shape(2) [of c] by simp
  next
    case False
    then show ?thesis unfolding client_target_shape(2) [OF False] pathname_query [OF p client_query_shape False] r
      using client_path_shape(2) [of c] by simp
  qed
  show "url_search (client_target c) = (if client_query c = [] then [] else CHR ''?'' # client_query c)"
    using same unfolding n by (subst (asm) (2) client_target_def) simp
qed

section \<open>What the agent reads\<close>

lemma methods_upper: "toUpper (client_method c) = client_method c"
proof -
  have "toUpper ''GET'' = ''GET''" "toUpper ''POST'' = ''POST''" "toUpper ''PUT'' = ''PUT''" "toUpper ''DELETE'' = ''DELETE''" by code_simp+
  then show ?thesis by (cases c) simp_all
qed

lemma path_split: "split_on CHR ''/'' (client_path c) = [] # path_segments c"
proof -
  have "split_on CHR ''/'' (CHR ''/'' # tl (client_path c)) = [] # path_segments c" by (simp add: path_segments_def)
  then show ?thesis using client_path_shape(2) [of c] by simp
qed

lemma route_literals: "\<not> route_id ''%'' \<and> \<not> route_id []"
  by code_simp

lemma client_route:
  "route_of (client_method c) (client_path c) = (if list_all route_id (call_ids c) then call_route c else OtherRoute)"
proof -
  have session: "client_path c \<noteq> ''/v1/capabilities'' \<and> client_path c \<noteq> ''/v1/sessions'' \<and> client_path c \<noteq> ''/v1/files'' \<and>
      client_path c \<noteq> ''/v1/files/content'' \<and> client_path c \<noteq> ''/v1/files/metadata'' \<and> client_path c \<noteq> ''/v1/files/copy'' \<and>
      client_path c \<noteq> ''/v1/files/move''" if "call_ids c \<noteq> []"
    using that by (cases c) (simp_all add: session_path_def)
  show ?thesis
  proof (cases "call_ids c = []")
    case True
    then show ?thesis
      using path_split [of c] by (cases c) (simp_all add: route_of_def routeOperation_def routeSession_def path_segments_eq)
  next
    case False
    note s = session [OF False]
    show ?thesis
      using False s path_split [of c] route_id_component route_id_same
      by (cases c) (auto simp: route_of_def routeOperation_def routeSession_def path_segments_eq action_of_def split: option.splits)
  qed
qed

lemma client_candidate:
  assumes "call_candidate c = Some p"
  shows "map_of (query_pairs (CHR ''?'' # client_query c)) ''path'' = Some p" "client_query c \<noteq> []"
proof -
  have one: "query_pairs (CHR ''?'' # ''path='' @ encodeURIComponent p) = [(''path'', p)]"
    using component_pair [OF key_texts(1), of "CHR ''?''" p] by simp
  have two: "query_pairs (CHR ''?'' # ''path='' @ encodeURIComponent p @ ''&recursive='' @ bool_text b) = [(''path'', p), (''recursive'', bool_text b)]" for b
    using component_pairs [OF key_texts(1) _ _ key_texts(2) _ _ key_texts(3), of "CHR ''?''" p b] by simp
  show "map_of (query_pairs (CHR ''?'' # client_query c)) ''path'' = Some p"
    using assms one two query_roundtrip [of "CHR ''?''"] by (cases c) auto
  show "client_query c \<noteq> []" using assms by (cases c) (auto simp: URLSearchParams_def form_encode_def)
qed

end
