(* ===== verification/McpServer_Props.thy ===== *)
theory McpServer_Props
  imports McpServer AgentClient_Props PathPolicy
begin

text \<open>
  What a tool of the gateway amounts to at the agent; names of attachments; download links.
\<close>

section \<open>Scopes\<close>

text \<open>The table of scopes agrees with what the agent's routes ask for.\<close>

lemma tool_scope: "tool_call t = Some c \<Longrightarrow> map_of toolScopes (tool_name t) = Some (needed_scope (client_method c) (call_route c))"
  by (cases t) (auto simp: toolScopes_def)

lemma offered_scope:
  assumes "tool_call t = Some c" "needed_scope (client_method c) (call_route c) = Some s"
  shows "registered (OAuthAccess i) (tool_name t) \<longleftrightarrow> s \<in> set (id_scopes i)"
  by (simp add: registered_def tool_scope [OF assms(1)] assms(2))

section \<open>The request of a tool\<close>

lemma send_fields:
  assumes "send cr cl now jti c = Inr q"
  shows "ht_method q = client_method c" "ht_pathname q = url_pathname (client_target c)" "ht_search q = url_search (client_target c)"
    "ht_authorization q = Some (''Bearer '' @ cl_token cl)" "ht_query q = query_pairs (url_search (client_target c))"
    "context_header cr cl now jti c = Inr (ht_context q)"
  using assms by (auto simp: send_def methods_upper split: sum.splits)

lemma created_context:
  assumes "send cr cl now jti c = Inr q" "cl_authorization cl = Some a" "ht_context q = Some text"
  shows "createAgentContext cr (cl_secret cl) (Some a) (Some (client_method c)) (client_target c) now 15000 jti = Inr text"
  using send_fields(6) [OF assms(1)] assms(2,3) by (auto simp: context_header_def methods_upper split: sum.splits)

lemma bearer_back: "tok \<noteq> [] \<Longrightarrow> \<not> list_ex white tok \<Longrightarrow> bearer_of (Some (''Bearer '' @ tok)) = Some tok"
  by (simp add: bearer_of_def starts_with_def or_default_def Let_def)

lemma client_method_text: "method_text (Some (client_method c)) = client_method c"
proof -
  have "client_method c \<noteq> []" by (cases c) simp_all
  then show ?thesis by (simp add: method_text_def methods_upper)
qed

lemma sent_authenticates:
  assumes send: "send cr cl now jti c = Inr q" and a: "cl_authorization cl = Some a"
    and ctx: "ht_context q = Some text" "length text \<le> 4096"
    and codec: "codec_sound_for cr (cl_secret cl) (context_payload (Some a) (Some (client_method c)) (client_target c) now 15000 jti)"
    and secrets: "sc_contextSecret scfg = cl_secret cl" "sc_oauthToken scfg = Some (cl_token cl)" "sc_token scfg \<noteq> cl_token cl"
      "cl_token cl \<noteq> []" "\<not> list_ex white (cl_token cl)"
    and fresh: "now div 1000 \<le> now' div 1000 + 5" "now' div 1000 < - ((- (now + 15000)) div 1000)"
  shows "if tame c
     then \<exists>ci. authenticateAgentRequest cr scfg now' q = Inr (OAuthAuth ci) \<and> au_ownerId a \<noteq> None \<and>
       ci_ownerId ci = JStr (the (au_ownerId a)) \<and> set (ci_scopes ci) = JStr ` set (au_scopes a)
     else authenticateAgentRequest cr scfg now' q = Inl (bridgeError ''agent_context_mismatch'' 401)"
proof -
  note f = send_fields [OF send]
  note made = created_context [OF send a ctx(1)]
  note owner = verify_created(1) [OF codec made ctx(2)]
  note verify = verify_created(2) [OF codec made ctx(2), of "Some (ht_method q)" "ht_pathname q @ ht_search q" now']
  have late: "\<not> (now div 1000 > now' div 1000 + 5 \<or> - ((- (now + 15000)) div 1000) \<le> now' div 1000)" using fresh by linarith
  have same: "(method_text (Some (client_method c)) \<noteq> method_text (Some (ht_method q)) \<or> client_target c \<noteq> ht_pathname q @ ht_search q) \<longleftrightarrow> \<not> tame c"
    unfolding f using target_same [of c] by auto
  have bearer: "bearer_of (ht_authorization q) = Some (cl_token cl)" unfolding f using secrets by (intro bearer_back)
  have enter: "authenticateAgentRequest cr scfg now' q =
      (case verifyAgentContext cr (cl_secret cl) (Some text) (Some (ht_method q)) (ht_pathname q @ ht_search q) now' of
         Inl e \<Rightarrow> Inl (BridgeError (error_code e) (error_status e) None) | Inr i \<Rightarrow> Inr (OAuthAuth i))"
    unfolding authenticateAgentRequest_def bearer using secrets by (simp add: equalToken_def or_default_def ctx(1))
  show ?thesis
    unfolding enter verify if_not_P [OF late] same
    using owner by (auto simp: contextError_def bridgeError_def)
qed


section \<open>Names of uploads\<close>

text \<open>An attachment is stored under one path component, directly in the directory asked for.\<close>

lemma attachmentName_component:
  assumes "CHR ''/'' \<notin> set (sha256_hex (at_file_id file))"
  shows "proper_part (attachmentName sha256_hex file)"
proof -
  have "CHR ''/'' \<notin> set (posix_basename s)" for s
    unfolding posix_basename_def by (rule split_on_parts [OF last_in_set]) simp
  moreover have "CHR ''/'' \<notin> set (take 16 (sha256_hex (at_file_id file)))" using assms in_set_takeD by fast
  ultimately show ?thesis by (simp add: attachmentName_def proper_part_def Let_def)
qed

lemma norm_relative_snoc: "proper_part n \<Longrightarrow> norm_relative r acc (ps @ [n]) = norm_relative r acc ps @ [n]"
  by (induction r acc ps rule: norm_relative.induct) (auto simp: proper_part_def)

lemma split_on_snoc: "c \<notin> set n \<Longrightarrow> split_on c (s @ c # n) = split_on c s @ [n]"
proof (induction s)
  case (Cons x s)
  then show ?case by (cases "split_on c s") (auto simp: split_on_no_sep)
qed (simp add: split_on_no_sep)

lemma join_with_snoc: "join_with sep (xs @ [n]) = (if xs = [] then n else join_with sep xs @ sep @ n)"
  by (induction sep xs rule: join_with.induct) auto

lemma posix_join_in_directory:
  assumes "proper_part n"
  shows "\<exists>pre. posix_join d n = pre @ n \<and> (pre = [] \<or> last pre = CHR ''/'')"
proof -
  define j where "j = (if d = [] then n else d @ ''/'' @ n)"
  have n: "n \<noteq> []" "CHR ''/'' \<notin> set n" using assms by (auto simp: proper_part_def)
  obtain ps where parts: "split_on CHR ''/'' j = ps @ [n]"
    using split_on_snoc [OF n(2), of d] split_on_no_sep [OF n(2)] by (cases "d = []") (auto simp: j_def)
  define r where "r = starts_with j ''/''"
  define t where "t = join_with ''/'' (norm_relative r [] (split_on CHR ''/'' j))"
  have t: "t = (if norm_relative r [] ps = [] then n else join_with ''/'' (norm_relative r [] ps) @ ''/'' @ n)"
    unfolding t_def parts norm_relative_snoc [OF assms] join_with_snoc ..
  then have filled: "t \<noteq> []" using n(1) by simp
  have "last n \<noteq> CHR ''/''" using n last_in_set by metis
  then have j: "j \<noteq> []" "last j \<noteq> CHR ''/''" using n(1) by (simp_all add: j_def)
  have "(if d = [] then n else if n = [] then d else d @ ''/'' @ n) = j" using n(1) by (simp add: j_def)
  then have "posix_join d n = (if r then ''/'' else []) @ t"
    unfolding posix_join_def Let_def using j filled by (simp only: t_def r_def if_False simp_thms append_Nil2)
  then show ?thesis unfolding t
    by (cases "norm_relative r [] ps = []")
      (auto intro!: exI [of _ "if r then ''/'' else []"] exI [of _ "(if r then ''/'' else []) @ join_with ''/'' (norm_relative r [] ps) @ ''/''"])
qed

definition demo_identity :: auth_identity where
  "demo_identity = \<lparr>id_clientId = ''client'', id_scopes = [''files:read''], id_ownerId = Some ''owner-1'', id_grantId = Some ''grant-0001'',
     id_executionProfile = Some ''hosting-user'', id_grantExpiresAt = Some 9000000\<rparr>"

definition demo_client :: agent_client where
  "demo_client = \<lparr>cl_token = ''gateway'', cl_secret = replicate 32 CHR ''k'', cl_authorization = None\<rparr>"

definition demo_crypto :: "call \<Rightarrow> crypto" where
  "demo_crypto c = \<lparr>cr_hmac = (\<lambda>k s. ''mac''), cr_encode = (\<lambda>s. ''payload''), cr_decode = (\<lambda>s. s), cr_stringify = (\<lambda>j. ''json''),
     cr_parse = (\<lambda>s. Some (context_payload (authorization_of (OAuthAccess demo_identity)) (Some (client_method c)) (client_target c)
       1000500 15000 ''0123456789abcdef''))\<rparr>"

definition demo_sent :: "string \<Rightarrow> http_request" where
  "demo_sent p = (case send (demo_crypto (CallList p)) (withAuthorization demo_client (authorization_of (OAuthAccess demo_identity)))
     1000500 ''0123456789abcdef'' (CallList p) of Inr q \<Rightarrow> q | Inl _ \<Rightarrow> undefined)"

definition apostrophe_name :: string where
  "apostrophe_name = [CHR ''i'', CHR ''t'', CHR 0x27, CHR ''s'']"


end
