(* ===== verification/OAuthRoutes.thy ===== *)
theory OAuthRoutes
  imports OAuth Wire
begin

text \<open>
  The OAuth endpoints of the gateway, \<^verbatim>\<open>apps/mcp/src/oauth-routes.js\<close>: bodies, the approval
  page, the routes and their errors. Of the page the model keeps what it shows of the
  transaction and whether it offers the form; the markup around it is left out.
\<close>

section \<open>Escaping\<close>

definition replaceAll :: "char \<Rightarrow> string \<Rightarrow> string \<Rightarrow> string" where
  "replaceAll c t s = concat (map (\<lambda>x. if x = c then t else [x]) s)"

definition escapeHtml :: "string \<Rightarrow> string" where
  "escapeHtml s = replaceAll CHR 0x27 ''&#39;'' (replaceAll CHR 0x22 ''&quot;'' (replaceAll CHR ''>'' ''&gt;''
     (replaceAll CHR ''<'' ''&lt;'' (replaceAll CHR ''&'' ''&amp;'' s))))"

section \<open>Bodies\<close>

definition FORM_LIMIT :: nat where
  "FORM_LIMIT = 16 * 1024"

definition blank :: "char \<Rightarrow> bool" where
  "blank c \<longleftrightarrow> c \<in> set [CHR '' '', CHR 0x09, CHR 0x0A, CHR 0x0B, CHR 0x0C, CHR 0x0D]"

definition media_type :: "string option \<Rightarrow> string" where
  "media_type header = (case header of None \<Rightarrow> []
     | Some h \<Rightarrow> map lower (rev (dropWhile blank (rev (dropWhile blank (before CHR '';'' h))))))"

fun read_body :: "nat \<Rightarrow> string list \<Rightarrow> oauth_exc + string" where
  "read_body sz [] = Inr []"
| "read_body sz (chunk # rest) =
     (if sz + length chunk > FORM_LIMIT then Inl (oauthError ''invalid_request'' 413)
      else (case read_body (sz + length chunk) rest of Inl e \<Rightarrow> Inl e | Inr t \<Rightarrow> Inr (chunk @ t)))"

text \<open>\<^verbatim>\<open>new URLSearchParams(text)\<close>; the first value of a name counts.\<close>

definition form_params :: "string \<Rightarrow> params" where
  "form_params t = map_of (query_pairs (if starts_with t ''?'' then t else CHR ''?'' # t))"

definition readForm :: "string option \<Rightarrow> string list \<Rightarrow> oauth_exc + params" where
  "readForm contentType chunks =
     (if media_type contentType \<noteq> ''application/x-www-form-urlencoded'' then Inl (oauthError ''invalid_request'' 400)
      else (case read_body 0 chunks of Inl e \<Rightarrow> Inl e | Inr t \<Rightarrow> Inr (form_params t)))"

definition read_document :: "(string \<Rightarrow> json option) \<Rightarrow> string option \<Rightarrow> string list \<Rightarrow> oauth_exc + json" where
  "read_document parseJson contentType chunks =
     (if media_type contentType \<noteq> ''application/json'' then Inl (oauthError ''invalid_request'' 400)
      else (case read_body 0 chunks of Inl e \<Rightarrow> Inl e
          | Inr t \<Rightarrow> (case parseJson t of None \<Rightarrow> Inl (oauthError ''invalid_request'' 400) | Some v \<Rightarrow> Inr v)))"

section \<open>The approval page\<close>

record disclosure =
  ds_title :: string
  ds_button :: string
  ds_warned :: bool
  ds_blocked :: bool

definition executionProfileDisclosure :: "string \<Rightarrow> disclosure" where
  "executionProfileDisclosure profile =
     (if profile = ''files-read'' then
        \<lparr>ds_title = ''Read-only files'', ds_button = ''Authorize read-only access'', ds_warned = False, ds_blocked = False\<rparr>
      else if profile = ''full-shell'' then
        \<lparr>ds_title = ''Full shell access'', ds_button = ''Authorize full shell access'', ds_warned = True, ds_blocked = False\<rparr>
      else \<lparr>ds_title = ''Unrecognized execution profile'', ds_button = [], ds_warned = False, ds_blocked = True\<rparr>)"

text \<open>The values the page shows, escaped, and the form: its transaction field and its button.\<close>

record approval_page =
  pg_clientId :: string
  pg_resource :: string
  pg_scopes :: string
  pg_title :: string
  pg_profile :: string
  pg_warned :: bool
  pg_form :: "(string \<times> string) option"

definition approvalPage :: "authorize_view \<Rightarrow> approval_page" where
  "approvalPage t = (let profile = executionProfileDisclosure (av_executionProfile t) in
     \<lparr>pg_clientId = escapeHtml (av_clientId t), pg_resource = escapeHtml (av_resource t),
      pg_scopes = join_with '', '' (map escapeHtml (av_scopes t)), pg_title = escapeHtml (ds_title profile),
      pg_profile = escapeHtml (av_executionProfile t), pg_warned = ds_warned profile,
      pg_form = (if ds_blocked profile then None else Some (escapeHtml (av_id t), escapeHtml (ds_button profile)))\<rparr>)"

section \<open>Routes\<close>

text \<open>The authorization server behind the routes, and what the world answers to one request.\<close>

record oauth_front =
  of_cfg :: oauth_cfg
  of_env :: oauth_env
  of_parse :: "string \<Rightarrow> json option"
  of_issuer :: url
  of_resource :: url

record oauth_answers =
  oa_input :: oauth_input
  oa_cimd_clk :: "nat \<Rightarrow> time"
  oa_fetched :: "http_response option"

record route_request =
  rr_method :: string
  rr_pathname :: string
  rr_search :: string
  rr_authorization :: "string option"
  rr_contentType :: "string option"
  rr_chunks :: "string list"

datatype oauth_reply =
  MetadataReply json
| RegisteredReply dcr_registration
| PageReply approval_page
| RedirectReply redirect
| TokenReply token_response
| RevokedReply
| OAuthErrorReply nat string

text \<open>\<open>sendOAuthError\<close>\<close>

definition oauth_error_reply :: "oauth_exc \<Rightarrow> oauth_reply" where
  "oauth_error_reply e = (case e of OAuthError code status \<Rightarrow> OAuthErrorReply status code | OtherError m \<Rightarrow> OAuthErrorReply 400 ''server_error'')"

definition oauth_answer :: "('a \<Rightarrow> oauth_reply) \<Rightarrow> oauth_state \<times> (oauth_exc + 'a) \<Rightarrow> (oauth_state \<times> oauth_reply) option" where
  "oauth_answer f r = Some (fst r, case snd r of Inl e \<Rightarrow> oauth_error_reply e | Inr v \<Rightarrow> f v)"

definition handleOAuthRoute ::
  "oauth_front option \<Rightarrow> oauth_answers \<Rightarrow> route_request \<Rightarrow> oauth_state \<Rightarrow> (oauth_state \<times> oauth_reply) option" where
  "handleOAuthRoute oauth w q st = (case oauth of None \<Rightarrow> None | Some f \<Rightarrow>
     let cfg = of_cfg f; env = of_env f; inp = oa_input w; get = (rr_method q = ''GET''); post = (rr_method q = ''POST'') in
     if get \<and> rr_pathname q \<in> set (resourceMetadataPaths (of_resource f)) then Some (st, MetadataReply (protectedResourceMetadata cfg))
     else if get \<and> rr_pathname q = metadataPathForIssuer (of_issuer f) then Some (st, MetadataReply (authorizationServerMetadata cfg))
     else if post \<and> rr_pathname q = ''/oauth/register'' then
       (case read_document (of_parse f) (rr_contentType q) (rr_chunks q) of
          Inl e \<Rightarrow> Some (st, oauth_error_reply e)
        | Inr d \<Rightarrow> oauth_answer RegisteredReply (oauth_registerClient cfg env inp d st))
     else if get \<and> rr_pathname q = ''/oauth/authorize'' then
       oauth_answer (\<lambda>v. PageReply (approvalPage v))
         (beginAuthorization cfg env (of_parse f) inp (oa_cimd_clk w) (oa_fetched w) (form_params (rr_search q)) st)
     else if post \<and> rr_pathname q = ''/oauth/authorize'' then
       (case readForm (rr_contentType q) (rr_chunks q) of
          Inl e \<Rightarrow> Some (st, oauth_error_reply e)
        | Inr form \<Rightarrow> oauth_answer RedirectReply (approve cfg env inp (form ''transaction'') (form ''approval_secret'') st))
     else if post \<and> rr_pathname q = ''/oauth/token'' then
       (case readForm (rr_contentType q) (rr_chunks q) of
          Inl e \<Rightarrow> Some (st, oauth_error_reply e)
        | Inr form \<Rightarrow> oauth_answer TokenReply (exchange cfg env inp form (rr_authorization q) st))
     else if post \<and> rr_pathname q = ''/oauth/revoke'' then
       (case readForm (rr_contentType q) (rr_chunks q) of
          Inl e \<Rightarrow> Some (st, oauth_error_reply e)
        | Inr form \<Rightarrow> oauth_answer (\<lambda>_. RevokedReply) (oauth_revoke cfg env inp form st))
     else None)"

section \<open>Properties of the pieces\<close>

lemma replaceAll_chars: "x \<in> set (replaceAll c t s) \<Longrightarrow> x \<in> set t \<or> x \<in> set s \<and> x \<noteq> c"
  by (auto simp: replaceAll_def split: if_splits)

text \<open>Escaped text contains no markup: no angle bracket and no quote.\<close>

lemma escapeHtml_safe: "x \<in> set (escapeHtml s) \<Longrightarrow> x \<notin> {CHR ''<'', CHR ''>'', CHR 0x22, CHR 0x27}"
  unfolding escapeHtml_def by (auto dest!: replaceAll_chars)

lemma read_body_exact: "read_body n cs = (if n + length (concat cs) \<le> FORM_LIMIT \<or> cs = [] then Inr (concat cs) else Inl (oauthError ''invalid_request'' 413))"
proof (induction cs arbitrary: n)
  case (Cons c cs)
  show ?case by (cases "cs = []") (simp_all add: Cons.IH)
qed simp

end
