(* ===== verification/Gateway.thy ===== *)
theory Gateway
  imports McpServer_Props OAuthRoutes
begin

text \<open>
  The HTTP front of the gateway, \<^verbatim>\<open>apps/mcp/src/server.js\<close>: admission, the OAuth routes,
  download links, authentication, and the MCP messages. One request is served at a time here;
  headers of replies, tracking and logging are left out.
\<close>

section \<open>Requests and replies\<close>

text \<open>What the protocol SDK makes of the body of a POST.\<close>

datatype mcp_message = InitializeClient "string option" "string option" | ListTools | CallTool tool

record gateway_request =
  gq_route :: route_request
  gq_message :: mcp_message

datatype gateway_reply =
  HealthReply bool
| ErrorReply nat string
| OAuthReply oauth_reply
| DownloadReply string answer
| InitializedReply string string
| ToolsReply "string list"
| ToolReply tool_answer
| ToolErrorReply bridge_exc

section \<open>Authentication\<close>

text \<open>\<open>authenticate\<close> of \<^verbatim>\<open>server.js\<close>.\<close>

definition gateway_authenticate ::
  "gateway_cfg \<Rightarrow> oauth_front option \<Rightarrow> oauth_input \<Rightarrow> string option \<Rightarrow> oauth_state \<Rightarrow> oauth_state \<times> gateway_auth option" where
  "gateway_authenticate cfg oauth inp header st =
     (if gc_oauthMode cfg then
        (case oauth of None \<Rightarrow> (st, None)
         | Some f \<Rightarrow> (case authenticate (of_cfg f) (of_env f) inp header st of (st', i) \<Rightarrow> (st', map_option OAuthAccess i)))
      else if gc_accessToken cfg = [] then (st, Some StaticAccess)
      else if header = Some (''Bearer '' @ gc_accessToken cfg) then (st, Some StaticAccess)
      else (st, None))"

section \<open>Download links\<close>

text \<open>The link is served under the authorization it was issued for; nothing asks whether that still holds.\<close>

definition serve_download ::
  "crypto \<Rightarrow> gateway_cfg \<Rightarrow> 'f gateway_world \<Rightarrow> string \<Rightarrow> 'f gateway \<Rightarrow> 'f gateway \<times> gateway_reply" where
  "serve_download cr cfg w token g = (case downloads_get (gx_clk w) token (gw_downloads g) of
       (ds, None) \<Rightarrow> (g\<lparr>gw_downloads := ds\<rparr>, ErrorReply 404 ''download_not_found'')
     | (ds, Some l) \<Rightarrow>
         (case ask_agent cr cfg w (ln_authorization l) (CallDownload (ln_path l)) (g\<lparr>gw_downloads := ds\<rparr>) of
            (g', Inl e) \<Rightarrow> (g', ErrorReply 500 ''internal_error'')
          | (g', Inr a) \<Rightarrow> (g', DownloadReply (encodeURIComponent (posix_basename (ln_path l))) a)))"

section \<open>MCP messages\<close>

definition serve_mcp ::
  "crypto \<Rightarrow> gateway_cfg \<Rightarrow> 'f gateway_world \<Rightarrow> gateway_auth \<Rightarrow> mcp_message \<Rightarrow> 'f gateway \<Rightarrow> 'f gateway \<times> gateway_reply" where
  "serve_mcp cr cfg w a msg g = (case msg of
       InitializeClient name version \<Rightarrow> (g, InitializedReply (clientImplementationField name) (clientImplementationField version))
     | ListTools \<Rightarrow> (g, ToolsReply (filter (registered a) (map fst toolScopes)))
     | CallTool t \<Rightarrow>
         if \<not> registered a (tool_name t) \<or> \<not> input_ok t then (g, ToolErrorReply (Failure ''InvalidParams''))
         else (case run_tool cr cfg w a t g of
             (g', Inl e) \<Rightarrow> (g', ToolErrorReply e) | (g', Inr v) \<Rightarrow> (g', ToolReply v)))"

section \<open>The handler\<close>

definition handle_gateway ::
  "crypto \<Rightarrow> gateway_cfg \<Rightarrow> oauth_front option \<Rightarrow> oauth_answers \<Rightarrow> 'f gateway_world \<Rightarrow> bool \<Rightarrow> gateway_request \<Rightarrow> 'f gateway \<Rightarrow>
    'f gateway \<times> gateway_reply" where
  "handle_gateway cr cfg oauth answers w paused q g = (let r = gq_route q in
     if rr_method r = ''GET'' \<and> rr_pathname r = ''/health'' then (g, HealthReply paused)
     else if paused then (g, ErrorReply 503 ''admission_paused'')
     else (case handleOAuthRoute oauth answers r (gw_oauth g) of
       Some (st, reply) \<Rightarrow> (g\<lparr>gw_oauth := st\<rparr>, OAuthReply reply)
     | None \<Rightarrow>
         if rr_method r = ''GET'' \<and> starts_with (rr_pathname r) ''/download/''
         then serve_download cr cfg w (drop (length ''/download/'') (rr_pathname r)) g
         else if rr_pathname r \<noteq> gc_path cfg then (g, ErrorReply 404 ''not_found'')
         else (case gateway_authenticate cfg oauth (oa_input answers) (rr_authorization r) (gw_oauth g) of
             (st, None) \<Rightarrow> (g\<lparr>gw_oauth := st\<rparr>, ErrorReply 401 ''unauthorized'')
           | (st, Some a) \<Rightarrow>
               if rr_method r \<noteq> ''POST'' then (g\<lparr>gw_oauth := st\<rparr>, ErrorReply 405 ''method_not_allowed'')
               else serve_mcp cr cfg w a (gq_message q) (g\<lparr>gw_oauth := st\<rparr>))))"

text \<open>A run: requests with what the world answers to each.\<close>

record 'f visit =
  vi_answers :: oauth_answers
  vi_world :: "'f gateway_world"
  vi_paused :: bool
  vi_request :: gateway_request

definition visit_step :: "crypto \<Rightarrow> gateway_cfg \<Rightarrow> oauth_front option \<Rightarrow> 'f visit \<Rightarrow> 'f gateway \<Rightarrow> 'f gateway \<times> gateway_reply" where
  "visit_step cr cfg oauth v g = handle_gateway cr cfg oauth (vi_answers v) (vi_world v) (vi_paused v) (vi_request v) g"

fun gateway_run :: "crypto \<Rightarrow> gateway_cfg \<Rightarrow> oauth_front option \<Rightarrow> 'f visit list \<Rightarrow> 'f gateway \<Rightarrow> 'f gateway" where
  "gateway_run cr cfg oauth [] g = g"
| "gateway_run cr cfg oauth (v # vs) g = gateway_run cr cfg oauth vs (fst (visit_step cr cfg oauth v g))"

definition new_gateway :: "oauth_state \<Rightarrow> 'f server \<Rightarrow> 'f gateway" where
  "new_gateway st sv = \<lparr>gw_oauth = st, gw_downloads = [], gw_fetcher = idle_fetcher, gw_agent = sv\<rparr>"

section \<open>Who reaches the agent\<close>

text \<open>The authorization a visit presents, when the gateway accepts it.\<close>

definition caller :: "gateway_cfg \<Rightarrow> oauth_front option \<Rightarrow> 'f visit \<Rightarrow> 'f gateway \<Rightarrow> gateway_auth option" where
  "caller cfg oauth v g = snd (gateway_authenticate cfg oauth (oa_input (vi_answers v)) (rr_authorization (gq_route (vi_request v))) (gw_oauth g))"

definition calls_tool :: "gateway_cfg \<Rightarrow> oauth_front option \<Rightarrow> 'f visit \<Rightarrow> gateway_auth \<Rightarrow> tool \<Rightarrow> 'f gateway \<Rightarrow> bool" where
  "calls_tool cfg oauth v a t g \<longleftrightarrow> \<not> vi_paused v \<and> caller cfg oauth v g = Some a \<and> rr_method (gq_route (vi_request v)) = ''POST'' \<and>
     rr_pathname (gq_route (vi_request v)) = gc_path cfg \<and> gq_message (vi_request v) = CallTool t \<and>
     registered a (tool_name t) \<and> input_ok t"

definition opens_link :: "'f visit \<Rightarrow> link \<Rightarrow> 'f gateway \<Rightarrow> bool" where
  "opens_link v l g \<longleftrightarrow> \<not> vi_paused v \<and> (\<exists>token. rr_pathname (gq_route (vi_request v)) = ''/download/'' @ token \<and>
     (token, l) \<in> set (gw_downloads g)) \<and> ln_expires l > gx_clk (vi_world v) 0 \<and> ln_expires l > gx_clk (vi_world v) 1"

end
