(* ===== verification/Gateway_Props.thy ===== *)
theory Gateway_Props
  imports Gateway
begin

text \<open>
  Mediation by the gateway: which requests reach the agent, and for whom.
\<close>

section \<open>What a tool leaves alone\<close>

lemma ask_agent_frame:
  "gw_downloads (fst (ask_agent cr cfg w a c g)) = gw_downloads g" "gw_oauth (fst (ask_agent cr cfg w a c g)) = gw_oauth g"
  "gw_fetcher (fst (ask_agent cr cfg w a c g)) = gw_fetcher g"
  by (simp_all add: ask_agent_def split: prod.split)

lemma ask_agent_keeps: "ask_agent cr cfg w a c g = (g', r) \<Longrightarrow> gw_downloads g' = gw_downloads g"
  using ask_agent_frame(1) [of cr cfg w a c g] by simp

lemma upload_files_downloads: "gw_downloads (fst (upload_files cr cfg w a d ow n fs g)) = gw_downloads g"
proof (induction fs arbitrary: n g)
  case (Cons f fs)
  show ?case using Cons.IH by (auto split: prod.split sum.split) (metis fst_conv gateway.select_convs gateway.surjective gateway.update_convs)+
qed simp

definition issued_link :: "gateway_cfg \<Rightarrow> 'f gateway_world \<Rightarrow> gateway_auth \<Rightarrow> link \<Rightarrow> bool" where
  "issued_link cfg w a l \<longleftrightarrow> ln_authorization l = a \<and>
     ln_expires l = (case grant_end a of None \<Rightarrow> gx_clk w 1 + gc_downloadTtlMs cfg | Some e \<Rightarrow> min (gx_clk w 1 + gc_downloadTtlMs cfg) e)"

lemma issue_links:
  assumes "downloads_issue ttl clk token p a m ds = (ds', t, e)" "(k, l) \<in> set ds'"
  shows "(k, l) \<in> set ds \<or> k = token \<and> ln_path l = p \<and> ln_authorization l = a \<and>
    ln_expires l = (case m of None \<Rightarrow> clk 1 + ttl | Some c \<Rightarrow> min (clk 1 + ttl) c)"
  using assms by (auto simp: downloads_issue_def downloads_cleanup_def Let_def simp del: One_nat_def)

lemma run_tool_links:
  assumes "run_tool cr cfg w a t g = (g', r)" "(k, l) \<in> set (gw_downloads g')"
  shows "(k, l) \<in> set (gw_downloads g) \<or> t = DownloadFileAt (ln_path l) \<and> issued_link cfg w a l"
proof (cases "tool_call t")
  case (Some c)
  then show ?thesis using assms ask_agent_keeps by (fastforce simp: run_tool_def split: prod.splits sum.splits)
next
  case None
  then consider fs d ow where "t = UploadFiles fs d ow" | p where "t = DownloadFileAt p" by (cases t) auto
  then show ?thesis
  proof cases
    case 1
    then have "gw_downloads g' = gw_downloads g"
      using assms(1) upload_files_downloads [of cr cfg w a d ow 0 fs g] by (auto simp: run_tool_def split: prod.splits sum.splits)
    then show ?thesis using assms(2) by simp
  next
    case 2
    obtain g1 m where ask: "ask_agent cr cfg w a (CallMetadata p) g = (g1, m)" by fastforce
    note same = ask_agent_keeps [OF ask]
    show ?thesis
    proof (cases m)
      case (Inl e)
      then show ?thesis using assms 2 ask same by (simp add: run_tool_def download_file_def)
    next
      case (Inr v)
      obtain ds token e where i: "downloads_issue (gc_downloadTtlMs cfg) (gx_clk w) (gx_token w) p a (grant_end a) (gw_downloads g1) = (ds, token, e)"
        by (metis prod_cases3)
      have "g' = g1\<lparr>gw_downloads := ds\<rparr>" using assms(1) 2 ask Inr i by (simp add: run_tool_def download_file_def)
      then show ?thesis using issue_links [OF i, of k l] assms(2) same 2 by (auto simp: issued_link_def)
    qed
  qed
qed

section \<open>One visit\<close>

lemma get_link:
  assumes "downloads_get clk token ds = (ds', r)"
  shows "set ds' \<subseteq> set ds" "r = Some l \<Longrightarrow> (token, l) \<in> set ds \<and> ln_expires l > clk 0 \<and> ln_expires l > clk 1"
  using assms by (auto simp: downloads_get_def downloads_cleanup_def Let_def dest!: map_of_SomeD split: option.splits if_splits)

text \<open>Replies that carry data of the agent.\<close>

fun agent_data :: "gateway_reply \<Rightarrow> bool" where
  "agent_data (DownloadReply n a) = True"
| "agent_data (ToolReply a) = True"
| "agent_data r = False"

lemma starts_with_split: "starts_with s p \<Longrightarrow> s = p @ drop (length p) s"
  by (metis append_take_drop_id starts_with_def)

lemma visit_cases:
  assumes "visit_step cr cfg oauth v g = (g', r)"
  obtains (quiet) "gw_agent g' = gw_agent g" "set (gw_downloads g') \<subseteq> set (gw_downloads g)" "\<not> agent_data r"
  | (tool) a t st out where "calls_tool cfg oauth v a t g" "run_tool cr cfg (vi_world v) a t (g\<lparr>gw_oauth := st\<rparr>) = (g', out)"
      "r = (case out of Inl e \<Rightarrow> ToolErrorReply e | Inr x \<Rightarrow> ToolReply x)"
  | (link) l ds out where "opens_link v l g" "set ds \<subseteq> set (gw_downloads g)"
      "ask_agent cr cfg (vi_world v) (ln_authorization l) (CallDownload (ln_path l)) (g\<lparr>gw_downloads := ds\<rparr>) = (g', out)"
      "r = (case out of Inl e \<Rightarrow> ErrorReply 500 ''internal_error'' | Inr x \<Rightarrow> DownloadReply (encodeURIComponent (posix_basename (ln_path l))) x)"
proof -
  define q where "q = gq_route (vi_request v)"
  note run = assms [unfolded visit_step_def handle_gateway_def Let_def, folded q_def]
  show thesis
  proof (cases "rr_method q = ''GET'' \<and> rr_pathname q = ''/health'' \<or> vi_paused v")
    case True
    then show ?thesis using run quiet by (auto split: if_splits)
  next
    case go: False
    show ?thesis
    proof (cases "handleOAuthRoute oauth (vi_answers v) q (gw_oauth g)")
      case (Some x)
      then show ?thesis using run go quiet by (auto split: prod.splits)
    next
      case no_route: None
      show ?thesis
      proof (cases "rr_method q = ''GET'' \<and> starts_with (rr_pathname q) ''/download/''")
        case True
        let ?token = "drop (length ''/download/'') (rr_pathname q)"
        have serve: "serve_download cr cfg (vi_world v) ?token g = (g', r)" using run go no_route True by simp
        obtain ds found where get: "downloads_get (gx_clk (vi_world v)) ?token (gw_downloads g) = (ds, found)" by fastforce
        show ?thesis
        proof (cases found)
          case None
          then show ?thesis using serve get quiet get_link(1) [OF get] by (auto simp: serve_download_def)
        next
          case (Some l)
          have opens: "opens_link v l g"
            using get_link(2) [OF get Some] go starts_with_split [OF True [THEN conjunct2]] by (auto simp: opens_link_def q_def)
          show ?thesis
          proof (rule link [OF opens get_link(1) [OF get]])
            show "ask_agent cr cfg (vi_world v) (ln_authorization l) (CallDownload (ln_path l)) (g\<lparr>gw_downloads := ds\<rparr>) =
                (g', snd (ask_agent cr cfg (vi_world v) (ln_authorization l) (CallDownload (ln_path l)) (g\<lparr>gw_downloads := ds\<rparr>)))"
              using serve get Some by (auto simp: serve_download_def split: prod.splits sum.splits)
            show "r = (case snd (ask_agent cr cfg (vi_world v) (ln_authorization l) (CallDownload (ln_path l)) (g\<lparr>gw_downloads := ds\<rparr>)) of
                Inl e \<Rightarrow> ErrorReply 500 ''internal_error'' | Inr x \<Rightarrow> DownloadReply (encodeURIComponent (posix_basename (ln_path l))) x)"
              using serve get Some by (auto simp: serve_download_def split: prod.splits sum.splits)
          qed
        qed
      next
        case not_link: False
        obtain st who where auth: "gateway_authenticate cfg oauth (oa_input (vi_answers v)) (rr_authorization q) (gw_oauth g) = (st, who)" by fastforce
        show ?thesis
        proof (cases "rr_pathname q \<noteq> gc_path cfg \<or> who = None \<or> rr_method q \<noteq> ''POST''")
          case True
          then show ?thesis using run go no_route not_link auth quiet by (auto split: if_splits option.splits)
        next
          case False
          then obtain a where a: "who = Some a" by auto
          have serve: "serve_mcp cr cfg (vi_world v) a (gq_message (vi_request v)) (g\<lparr>gw_oauth := st\<rparr>) = (g', r)"
            using run go no_route not_link auth False a by auto
          show ?thesis
          proof (cases "\<exists>t. gq_message (vi_request v) = CallTool t \<and> registered a (tool_name t) \<and> input_ok t")
            case True
            then obtain t where t: "gq_message (vi_request v) = CallTool t" "registered a (tool_name t)" "input_ok t" by blast
            have calls: "calls_tool cfg oauth v a t g"
              using t go False auth a by (simp add: calls_tool_def caller_def q_def)
            show ?thesis
              by (rule tool [OF calls, of st "snd (run_tool cr cfg (vi_world v) a t (g\<lparr>gw_oauth := st\<rparr>))"])
                (use serve t in \<open>auto simp: serve_mcp_def split: prod.splits sum.splits\<close>)
          next
            case False
            then show ?thesis using serve quiet by (auto simp: serve_mcp_def split: mcp_message.splits if_splits)
          qed
        qed
      qed
    qed
  qed
qed

section \<open>Runs\<close>

lemma visit_links:
  assumes "visit_step cr cfg oauth v g = (g', r)" "(k, l) \<in> set (gw_downloads g')"
  shows "(k, l) \<in> set (gw_downloads g) \<or>
    (\<exists>a. calls_tool cfg oauth v a (DownloadFileAt (ln_path l)) g \<and> issued_link cfg (vi_world v) a l)"
  using assms(1)
proof (cases rule: visit_cases)
  case quiet
  then show ?thesis using assms(2) by auto
next
  case (tool a t st out)
  from run_tool_links [OF tool(2) assms(2)] show ?thesis using tool(1) by auto
next
  case (link l' ds out)
  then show ?thesis using assms(2) ask_agent_keeps [OF link(3)] by auto
qed

text \<open>A link in the table comes from an earlier call of the download tool.\<close>

definition link_origin :: "crypto \<Rightarrow> gateway_cfg \<Rightarrow> oauth_front option \<Rightarrow> 'f gateway \<Rightarrow> 'f visit list \<Rightarrow> link \<Rightarrow> bool" where
  "link_origin cr cfg oauth g vs l \<longleftrightarrow> (\<exists>us v ws a. vs = us @ v # ws \<and>
     calls_tool cfg oauth v a (DownloadFileAt (ln_path l)) (gateway_run cr cfg oauth us g) \<and> issued_link cfg (vi_world v) a l)"

lemma link_origin_Cons: "link_origin cr cfg oauth (fst (visit_step cr cfg oauth v g)) vs l \<Longrightarrow> link_origin cr cfg oauth g (v # vs) l"
proof -
  assume "link_origin cr cfg oauth (fst (visit_step cr cfg oauth v g)) vs l"
  then obtain us u ws a where "vs = us @ u # ws"
    "calls_tool cfg oauth u a (DownloadFileAt (ln_path l)) (gateway_run cr cfg oauth (v # us) g)" "issued_link cfg (vi_world u) a l"
    by (auto simp: link_origin_def)
  then show ?thesis unfolding link_origin_def by (intro exI [of _ "v # us"] exI [of _ u] exI [of _ ws] exI [of _ a]) simp
qed

lemma run_links:
  "(k, l) \<in> set (gw_downloads (gateway_run cr cfg oauth vs g)) \<Longrightarrow> (k, l) \<in> set (gw_downloads g) \<or> link_origin cr cfg oauth g vs l"
proof (induction vs arbitrary: g)
  case (Cons v vs)
  obtain g' r where step: "visit_step cr cfg oauth v g = (g', r)" by fastforce
  from Cons.IH [of g'] Cons.prems step have "(k, l) \<in> set (gw_downloads g') \<or> link_origin cr cfg oauth g' vs l" by simp
  then show ?case
  proof
    assume "(k, l) \<in> set (gw_downloads g')"
    from visit_links [OF step this] show ?thesis
    proof
      assume "\<exists>a. calls_tool cfg oauth v a (DownloadFileAt (ln_path l)) g \<and> issued_link cfg (vi_world v) a l"
      then show ?thesis unfolding link_origin_def by (metis append_Nil gateway_run.simps(1))
    qed simp
  next
    assume "link_origin cr cfg oauth g' vs l"
    then show ?thesis using link_origin_Cons [of cr cfg oauth v g vs l] step by simp
  qed
qed simp

text \<open>
  C26. In every run of a new gateway, whatever a request changes at the agent or reads from it
  happens for a caller: either it is a tool call of a caller the gateway accepted at that
  moment, for a tool registered for its scopes; or it opens a download link that has not
  expired, and then an accepted caller registered for the download tool asked for exactly this file earlier,
  the agent is asked under that caller's authorization, and the link lives no longer than the
  configured time and the caller's grant. Every other request leaves the agent as it is and
  carries no data of the agent.
\<close>

theorem gateway_mediates:
  assumes "g = gateway_run cr cfg oauth vs (new_gateway st sv)" "visit_step cr cfg oauth v g = (g', r)"
  shows "(gw_agent g' = gw_agent g \<and> \<not> agent_data r) \<or>
    (\<exists>a t st'. calls_tool cfg oauth v a t g \<and>
       (g', r) = (case run_tool cr cfg (vi_world v) a t (g\<lparr>gw_oauth := st'\<rparr>) of
          (h, Inl e) \<Rightarrow> (h, ToolErrorReply e) | (h, Inr x) \<Rightarrow> (h, ToolReply x))) \<or>
    (\<exists>l us u ws a. opens_link v l g \<and> ln_authorization l = a \<and>
       (gw_agent g', r) = (case ask_agent cr cfg (vi_world v) a (CallDownload (ln_path l)) g of
          (h, Inl e) \<Rightarrow> (gw_agent h, ErrorReply 500 ''internal_error'')
        | (h, Inr x) \<Rightarrow> (gw_agent h, DownloadReply (encodeURIComponent (posix_basename (ln_path l))) x)) \<and>
       vs = us @ u # ws \<and> calls_tool cfg oauth u a (DownloadFileAt (ln_path l)) (gateway_run cr cfg oauth us (new_gateway st sv)) \<and>
       gx_clk (vi_world v) 1 < gx_clk (vi_world u) 1 + gc_downloadTtlMs cfg \<and>
       (\<forall>e. grant_end a = Some e \<longrightarrow> gx_clk (vi_world v) 1 < e))"
  using assms(2)
proof (cases rule: visit_cases)
  case quiet
  then show ?thesis by simp
next
  case (tool a t st' out)
  then show ?thesis by (cases out) (auto intro!: exI [of _ a] exI [of _ t] exI [of _ st'])
next
  case (link l ds out)
  obtain token where "(token, l) \<in> set (gw_downloads g)" using link(1) by (auto simp: opens_link_def)
  then have "link_origin cr cfg oauth (new_gateway st sv) vs l"
    using run_links [of token l cr cfg oauth vs "new_gateway st sv"] assms(1) by (auto simp: new_gateway_def)
  then obtain us u ws a where origin: "vs = us @ u # ws"
    "calls_tool cfg oauth u a (DownloadFileAt (ln_path l)) (gateway_run cr cfg oauth us (new_gateway st sv))" "issued_link cfg (vi_world u) a l"
    by (auto simp: link_origin_def)
  have a: "ln_authorization l = a" using origin(3) by (simp add: issued_link_def)
  have alive: "gx_clk (vi_world v) 1 < ln_expires l" using link(1) by (simp add: opens_link_def)
  have life: "gx_clk (vi_world v) 1 < gx_clk (vi_world u) 1 + gc_downloadTtlMs cfg \<and> (\<forall>e. grant_end a = Some e \<longrightarrow> gx_clk (vi_world v) 1 < e)"
    using alive origin(3) by (auto simp: issued_link_def split: option.splits)
  have "(gw_agent g', r) = (case ask_agent cr cfg (vi_world v) a (CallDownload (ln_path l)) g of
          (h, Inl e) \<Rightarrow> (gw_agent h, ErrorReply 500 ''internal_error'')
        | (h, Inr x) \<Rightarrow> (gw_agent h, DownloadReply (encodeURIComponent (posix_basename (ln_path l))) x))"
    using link(3,4) a by (cases out) (auto simp: ask_agent_def split: prod.splits)
  then show ?thesis using link(1) a origin life by blast
qed

text \<open>A download does not look at the grants: revoking the one it was issued for changes nothing.\<close>

lemma download_ignores_grants:
  "serve_download cr cfg w token (g\<lparr>gw_oauth := st\<rparr>) =
    (case serve_download cr cfg w token g of (g', r) \<Rightarrow> (g'\<lparr>gw_oauth := st\<rparr>, r))"
  by (auto simp: serve_download_def ask_agent_def split: prod.split option.split sum.split)

definition demo_gateway_cfg :: gateway_cfg where
  "demo_gateway_cfg = \<lparr>gc_client = \<lparr>cl_token = ''static'', cl_secret = [], cl_authorization = None\<rparr>, gc_fetcher = None,
     gc_downloadTtlMs = 600000, gc_path = ''/mcp'', gc_oauthMode = False, gc_accessToken = ''secret''\<rparr>"

definition demo_files :: "string list \<times> body_end \<Rightarrow> file_call \<Rightarrow> unit \<Rightarrow> unit \<times> (bridge_exc + json)" where
  "demo_files body x f = (f, Inr (JObj []))"

definition demo_world :: "time \<Rightarrow> unit gateway_world" where
  "demo_world now = \<lparr>gx_clk = (\<lambda>_. now), gx_token = ''tok'', gx_jti = (\<lambda>_. ''0123456789abcdef''), gx_now = (\<lambda>_. now),
     gx_agent = (\<lambda>_. \<lparr>ad_cfg = ex_cfg_terminal, ad_server = ex_server_cfg, ad_files = demo_files, ad_paused = False, ad_reached = True,
       ad_world = ex_server_world\<rparr>),
     gx_hops = (\<lambda>_ _. undefined), gx_newURL = (\<lambda>_ _. None), gx_sha256 = (\<lambda>s. s)\<rparr>"

definition demo_answers :: "time \<Rightarrow> oauth_answers" where
  "demo_answers now = \<lparr>oa_input = \<lparr>in_clk = (\<lambda>_. now), in_rand = (\<lambda>_. []), in_commit = True\<rparr>, oa_cimd_clk = (\<lambda>_. now), oa_fetched = None\<rparr>"

definition demo_visit :: "time \<Rightarrow> string \<Rightarrow> string \<Rightarrow> unit visit" where
  "demo_visit now meth pth = \<lparr>vi_answers = demo_answers now, vi_world = demo_world now, vi_paused = False,
     vi_request = \<lparr>gq_route = \<lparr>rr_method = meth, rr_pathname = pth, rr_search = [], rr_authorization = Some ''Bearer secret'',
       rr_contentType = None, rr_chunks = []\<rparr>, gq_message = CallTool (DownloadFileAt ''a.txt'')\<rparr>\<rparr>"

definition demo_start :: "unit gateway" where
  "demo_start = new_gateway (new_oauth_state empty_auth_db) (ex_server ''owner-1'')"

definition demo_reply :: "unit visit list \<Rightarrow> unit visit \<Rightarrow> gateway_reply" where
  "demo_reply vs v = snd (visit_step (demo_crypto CallCapabilities) demo_gateway_cfg None v
     (gateway_run (demo_crypto CallCapabilities) demo_gateway_cfg None vs demo_start))"

theorem gateway_mediates_witness:
  "demo_reply [demo_visit 1000 ''POST'' ''/mcp''] (demo_visit 2000 ''GET'' ''/download/tok'') = DownloadReply ''a.txt'' (FileAnswer (JObj [])) \<and>
    demo_reply [demo_visit 1000 ''POST'' ''/mcp''] (demo_visit 700000 ''GET'' ''/download/tok'') = ErrorReply 404 ''download_not_found'' \<and>
    (\<exists>l. opens_link (demo_visit 2000 ''GET'' ''/download/tok'') l
      (gateway_run (demo_crypto CallCapabilities) demo_gateway_cfg None [demo_visit 1000 ''POST'' ''/mcp''] demo_start))"
proof -
  let ?g = "gateway_run (demo_crypto CallCapabilities) demo_gateway_cfg None [demo_visit 1000 ''POST'' ''/mcp''] demo_start"
  let ?v = "demo_visit 2000 ''GET'' ''/download/tok''"
  have r: "demo_reply [demo_visit 1000 ''POST'' ''/mcp''] ?v = DownloadReply ''a.txt'' (FileAnswer (JObj []))" by code_simp
  have late: "demo_reply [demo_visit 1000 ''POST'' ''/mcp''] (demo_visit 700000 ''GET'' ''/download/tok'') = ErrorReply 404 ''download_not_found''"
    by code_simp
  obtain g' where step: "visit_step (demo_crypto CallCapabilities) demo_gateway_cfg None ?v ?g = (g', DownloadReply ''a.txt'' (FileAnswer (JObj [])))"
    using r unfolding demo_reply_def by (metis prod.collapse)
  have "\<not> calls_tool demo_gateway_cfg None ?v a t ?g" for a t
  proof -
    have "rr_method (gq_route (vi_request ?v)) \<noteq> ''POST''" by code_simp
    then show ?thesis by (simp add: calls_tool_def)
  qed
  then have "\<exists>l. opens_link ?v l ?g"
    using gateway_mediates [OF _ step, of "[demo_visit 1000 ''POST'' ''/mcp'']" "new_oauth_state empty_auth_db" "ex_server ''owner-1''"]
    by (auto simp: demo_start_def)
  then show ?thesis using r late by blast
qed

end
