(* ===== verification/Jobs.thy ===== *)
theory Jobs
  imports Prelude
begin

text \<open>
  Programs of file-system steps that may be cut short: each call can fail with an error code,
  which the program sees, or be the last thing that happens before the process dies, which it
  does not see. Shared by the release scripts and the database migrations.
\<close>

datatype 'a outcome = Done 'a | Raised string | Crashed

datatype fault = NoFault | FailWith string | CrashNow

text \<open>\<open>fault\<close> number \<open>n\<close> strikes before the n-th call takes effect.\<close>

type_synonym faults = "nat \<Rightarrow> fault"

record 'w run =
  rn_world :: 'w
  rn_calls :: nat

type_synonym ('w, 'a) job = "'w run \<Rightarrow> 'w run \<times> 'a outcome"

definition jreturn :: "'a \<Rightarrow> ('w, 'a) job" where
  "jreturn v s = (s, Done v)"

definition jraise :: "string \<Rightarrow> ('w, 'a) job" where
  "jraise e s = (s, Raised e)"

definition jbind :: "('w, 'a) job \<Rightarrow> ('a \<Rightarrow> ('w, 'b) job) \<Rightarrow> ('w, 'b) job" where
  "jbind m k s = (case m s of (s', Done v) \<Rightarrow> k v s' | (s', Raised e) \<Rightarrow> (s', Raised e) | (s', Crashed) \<Rightarrow> (s', Crashed))"

definition jcatch :: "('w, 'a) job \<Rightarrow> (string \<Rightarrow> ('w, 'a) job) \<Rightarrow> ('w, 'a) job" where
  "jcatch m h s = (case m s of (s', Raised e) \<Rightarrow> h e s' | r \<Rightarrow> r)"

text \<open>A call: a function of the world that gives an error or a new world and a value.\<close>

definition jcall :: "faults \<Rightarrow> ('w \<Rightarrow> string + ('w \<times> 'a)) \<Rightarrow> ('w, 'a) job" where
  "jcall F f s = (let s1 = s\<lparr>rn_calls := rn_calls s + 1\<rparr> in
     (case F (rn_calls s) of
        CrashNow \<Rightarrow> (s1, Crashed)
      | FailWith e \<Rightarrow> (s1, Raised e)
      | NoFault \<Rightarrow> (case f (rn_world s) of
            Inl e \<Rightarrow> (s1, Raised e) | Inr (w, v) \<Rightarrow> (s1\<lparr>rn_world := w\<rparr>, Done v))))"

definition jlook :: "faults \<Rightarrow> ('w \<Rightarrow> string + 'a) \<Rightarrow> ('w, 'a) job" where
  "jlook F f = jcall F (\<lambda>w. case f w of Inl e \<Rightarrow> Inl e | Inr v \<Rightarrow> Inr (w, v))"

definition jdo :: "faults \<Rightarrow> ('w \<Rightarrow> 'w) \<Rightarrow> ('w, unit) job" where
  "jdo F f = jcall F (\<lambda>w. Inr (f w, ()))"

definition jrun :: "('w, 'a) job \<Rightarrow> 'w \<Rightarrow> 'w \<times> 'a outcome" where
  "jrun m w = (case m \<lparr>rn_world = w, rn_calls = 0\<rparr> of (s, r) \<Rightarrow> (rn_world s, r))"

section \<open>Rules\<close>

text \<open>No call is struck.\<close>

definition calm :: "faults \<Rightarrow> bool" where
  "calm F \<longleftrightarrow> (\<forall>n. F n = NoFault)"

text \<open>
  \<open>holds C P m Q R\<close>: from a world with \<open>P\<close>, however \<open>m\<close> ends the world has \<open>R\<close>; when it ends
  well with \<open>v\<close> it has \<open>Q v\<close>; and under the condition \<open>C\<close> it does end well.
\<close>

definition holds :: "bool \<Rightarrow> ('w \<Rightarrow> bool) \<Rightarrow> ('w, 'a) job \<Rightarrow> ('a \<Rightarrow> 'w \<Rightarrow> bool) \<Rightarrow> ('w \<Rightarrow> bool) \<Rightarrow> bool" where
  "holds C P m Q R \<longleftrightarrow> (\<forall>s. P (rn_world s) \<longrightarrow>
     R (rn_world (fst (m s))) \<and> (\<forall>v. snd (m s) = Done v \<longrightarrow> Q v (rn_world (fst (m s)))) \<and> (C \<longrightarrow> (\<exists>v. snd (m s) = Done v)))"

lemma holds_return: "(\<And>w. P w \<Longrightarrow> Q v w \<and> R w) \<Longrightarrow> holds C P (jreturn v) Q R"
  by (simp add: holds_def jreturn_def)

lemma holds_raise: "(\<And>w. P w \<Longrightarrow> R w \<and> \<not> C) \<Longrightarrow> holds C P (jraise e) Q R"
  by (simp add: holds_def jraise_def)

lemma holds_bind:
  assumes m: "holds C P m S R" and k: "\<And>v. holds C (S v) (k v) Q R"
  shows "holds C P (jbind m k) Q R"
  unfolding holds_def
proof (intro allI impI)
  fix s :: "'a run" assume P: "P (rn_world s)"
  obtain s1 r where ms: "m s = (s1, r)" by fastforce
  have 1: "R (rn_world s1)" "\<And>v. r = Done v \<Longrightarrow> S v (rn_world s1)" "C \<Longrightarrow> \<exists>v. r = Done v"
    using m [unfolded holds_def, rule_format, OF P] by (simp_all add: ms)
  show "R (rn_world (fst (jbind m k s))) \<and> (\<forall>v. snd (jbind m k s) = Done v \<longrightarrow> Q v (rn_world (fst (jbind m k s)))) \<and>
      (C \<longrightarrow> (\<exists>v. snd (jbind m k s) = Done v))"
  proof (cases r)
    case (Done v)
    show ?thesis using k [of v, unfolded holds_def, rule_format, OF 1(2) [OF Done]] by (simp add: jbind_def ms Done)
  qed (use 1 in \<open>auto simp: jbind_def ms\<close>)
qed

lemma holds_catch:
  assumes m: "holds False P m Q S" and h: "\<And>e. holds False S (h e) Q R" and weak: "\<And>w. S w \<Longrightarrow> R w" and c: "holds C P m Q R'"
  shows "holds C P (jcatch m h) Q R"
  unfolding holds_def
proof (intro allI impI)
  fix s :: "'a run" assume P: "P (rn_world s)"
  obtain s1 r where ms: "m s = (s1, r)" by fastforce
  have 1: "S (rn_world s1)" "\<And>v. r = Done v \<Longrightarrow> Q v (rn_world s1)" "C \<Longrightarrow> \<exists>v. r = Done v"
    using m [unfolded holds_def, rule_format, OF P] c [unfolded holds_def, rule_format, OF P] by (simp_all add: ms)
  show "R (rn_world (fst (jcatch m h s))) \<and> (\<forall>v. snd (jcatch m h s) = Done v \<longrightarrow> Q v (rn_world (fst (jcatch m h s)))) \<and>
      (C \<longrightarrow> (\<exists>v. snd (jcatch m h s) = Done v))"
  proof (cases r)
    case (Raised e)
    have "R (rn_world (fst (h e s1)))" "\<And>v. snd (h e s1) = Done v \<Longrightarrow> Q v (rn_world (fst (h e s1)))"
      using h [of e, unfolded holds_def, rule_format, OF 1(1)] by simp_all
    then show ?thesis using 1(3) Raised by (auto simp: jcatch_def ms)
  qed (use 1 weak in \<open>auto simp: jcatch_def ms\<close>)
qed

lemma holds_call:
  assumes "\<And>w. P w \<Longrightarrow> R w" "\<And>w w' v. P w \<Longrightarrow> f w = Inr (w', v) \<Longrightarrow> Q v w' \<and> R w'"
    and "C \<Longrightarrow> calm F" "\<And>w. C \<Longrightarrow> P w \<Longrightarrow> \<exists>x. f w = Inr x"
  shows "holds C P (jcall F f) Q R"
  unfolding holds_def
proof (intro allI impI)
  fix s :: "'a run" assume P: "P (rn_world s)"
  show "R (rn_world (fst (jcall F f s))) \<and> (\<forall>v. snd (jcall F f s) = Done v \<longrightarrow> Q v (rn_world (fst (jcall F f s)))) \<and>
      (C \<longrightarrow> (\<exists>v. snd (jcall F f s) = Done v))"
  proof (cases "F (rn_calls s)")
    case NoFault
    show ?thesis
    proof (cases "f (rn_world s)")
      case (Inl e)
      then show ?thesis using NoFault assms(1) [OF P] assms(4) [OF _ P] by (auto simp: jcall_def)
    next
      case (Inr x)
      then obtain w' v where "f (rn_world s) = Inr (w', v)" by (cases x) auto
      then show ?thesis using NoFault assms(2) [OF P] by (auto simp: jcall_def)
    qed
  qed (use assms(1) [OF P] assms(3) in \<open>auto simp: jcall_def calm_def\<close>)
qed

lemma holds_look:
  assumes "\<And>w. P w \<Longrightarrow> R w" "\<And>w v. P w \<Longrightarrow> f w = Inr v \<Longrightarrow> Q v w" "C \<Longrightarrow> calm F" "\<And>w. C \<Longrightarrow> P w \<Longrightarrow> \<exists>v. f w = Inr v"
  shows "holds C P (jlook F f) Q R"
  unfolding jlook_def by (rule holds_call) (use assms in \<open>fastforce split: sum.splits\<close>)+

lemma holds_do:
  assumes "\<And>w. P w \<Longrightarrow> R w" "\<And>w. P w \<Longrightarrow> Q () (f w) \<and> R (f w)" "C \<Longrightarrow> calm F"
  shows "holds C P (jdo F f) Q R"
  unfolding jdo_def by (rule holds_call) (use assms in auto)

lemma holds_noop: "(\<And>w. P w \<Longrightarrow> R w) \<Longrightarrow> (C \<Longrightarrow> calm F) \<Longrightarrow> holds C P (jdo F (\<lambda>w. w)) (\<lambda>_. P) R"
  by (rule holds_do) auto

lemma holds_weaken:
  assumes "holds C P' m Q' R'" "\<And>w. P w \<Longrightarrow> P' w" "\<And>v w. Q' v w \<Longrightarrow> Q v w" "\<And>w. R' w \<Longrightarrow> R w"
  shows "holds C P m Q R"
  using assms by (fastforce simp: holds_def)

lemma holds_false: "holds C (\<lambda>w. False) m Q R"
  by (simp add: holds_def)

lemma holds_if:
  assumes "b \<Longrightarrow> holds C P m Q R" "\<not> b \<Longrightarrow> holds C P m' Q R"
  shows "holds C P (if b then m else m') Q R"
  using assms by simp

lemma holds_run:
  assumes "holds C P m Q R" "P w"
  shows "R (fst (jrun m w)) \<and> (\<forall>v. snd (jrun m w) = Done v \<longrightarrow> Q v (fst (jrun m w))) \<and> (C \<longrightarrow> (\<exists>v. snd (jrun m w) = Done v))"
proof -
  obtain s r where s: "m \<lparr>rn_world = w, rn_calls = 0\<rparr> = (s, r)" by fastforce
  show ?thesis using assms(1) [unfolded holds_def, rule_format, of "\<lparr>rn_world = w, rn_calls = 0\<rparr>"] assms(2) by (simp add: jrun_def s)
qed

text \<open>A handler that takes every error for an answer: a calm run reaches its end either way.\<close>

lemma holds_catch_any:
  assumes m: "holds False P m Q S" and h: "\<And>e. holds C S (h e) Q R" and weak: "\<And>w. S w \<Longrightarrow> R w" and c: "C \<Longrightarrow> \<forall>s. snd (m s) \<noteq> Crashed"
  shows "holds C P (jcatch m h) Q R"
  unfolding holds_def
proof (intro allI impI)
  fix s :: "'a run" assume P: "P (rn_world s)"
  obtain s1 r where ms: "m s = (s1, r)" by fastforce
  have 1: "S (rn_world s1)" "\<And>v. r = Done v \<Longrightarrow> Q v (rn_world s1)"
    using m [unfolded holds_def, rule_format, OF P] by (simp_all add: ms)
  show "R (rn_world (fst (jcatch m h s))) \<and> (\<forall>v. snd (jcatch m h s) = Done v \<longrightarrow> Q v (rn_world (fst (jcatch m h s)))) \<and>
      (C \<longrightarrow> (\<exists>v. snd (jcatch m h s) = Done v))"
  proof (cases r)
    case (Raised e)
    then show ?thesis using h [of e, unfolded holds_def, rule_format, OF 1(1)] by (simp add: jcatch_def ms)
  next
    case Crashed
    then show ?thesis using 1 weak c ms by (auto simp: jcatch_def) (metis snd_conv)
  qed (use 1 weak in \<open>auto simp: jcatch_def ms\<close>)
qed

lemma calm_call: "calm F \<Longrightarrow> snd (jcall F f s) \<noteq> Crashed"
  by (auto simp: jcall_def calm_def Let_def split: sum.split prod.split)

lemma calm_look: "calm F \<Longrightarrow> snd (jlook F f s) \<noteq> Crashed"
  by (simp add: jlook_def calm_call)

lemma calm_do: "calm F \<Longrightarrow> snd (jdo F f s) \<noteq> Crashed"
  by (simp add: jdo_def calm_call)

lemma bind_uncrashed: "(\<And>s. snd (m s) \<noteq> Crashed) \<Longrightarrow> (\<And>v s. snd (k v s) \<noteq> Crashed) \<Longrightarrow> snd (jbind m k s) \<noteq> Crashed"
  by (auto simp: jbind_def split: prod.split outcome.split) (metis snd_conv)

lemma return_uncrashed: "snd (jreturn v s) \<noteq> Crashed"
  by (simp add: jreturn_def)

text \<open>Calls that are never struck by an error.\<close>

definition never_fails :: "faults \<Rightarrow> bool" where
  "never_fails F \<longleftrightarrow> (\<forall>n e. F n \<noteq> FailWith e)"

lemma catch_never: "never_fails F \<Longrightarrow> (\<And>w. \<exists>v. f w = Inr v) \<Longrightarrow> jcatch (jlook F f) h = jlook F f"
proof
  fix s :: "'a run"
  assume n: "never_fails F" and f: "\<And>w. \<exists>v. f w = Inr v"
  obtain v where v: "f (rn_world s) = Inr v" using f by blast
  show "jcatch (jlook F f) h s = jlook F f s"
    using n v by (cases "F (rn_calls s)") (auto simp: jcatch_def jlook_def jcall_def never_fails_def Let_def)
qed

text \<open>\<open>settles P m Q R\<close>: \<open>m\<close> ends well in a world with \<open>Q\<close>, or else in one with \<open>R\<close>.\<close>

definition settles :: "('w \<Rightarrow> bool) \<Rightarrow> ('w, 'a) job \<Rightarrow> ('a \<Rightarrow> 'w \<Rightarrow> bool) \<Rightarrow> ('w \<Rightarrow> bool) \<Rightarrow> bool" where
  "settles P m Q R \<longleftrightarrow> (\<forall>s. P (rn_world s) \<longrightarrow>
     (\<forall>v. snd (m s) = Done v \<longrightarrow> Q v (rn_world (fst (m s)))) \<and> ((\<forall>v. snd (m s) \<noteq> Done v) \<longrightarrow> R (rn_world (fst (m s)))))"

lemma settles_return: "(\<And>w. P w \<Longrightarrow> Q v w) \<Longrightarrow> settles P (jreturn v) Q R"
  by (simp add: settles_def jreturn_def)

lemma settles_raise: "(\<And>w. P w \<Longrightarrow> R w) \<Longrightarrow> settles P (jraise e) Q R"
  by (simp add: settles_def jraise_def)

lemma settles_bind:
  assumes m: "settles P m S R" and k: "\<And>v. settles (S v) (k v) Q R"
  shows "settles P (jbind m k) Q R"
  unfolding settles_def
proof (intro allI impI)
  fix s :: "'a run" assume P: "P (rn_world s)"
  obtain s1 r where ms: "m s = (s1, r)" by fastforce
  have 1: "\<And>v. r = Done v \<Longrightarrow> S v (rn_world s1)" "(\<And>v. r \<noteq> Done v) \<Longrightarrow> R (rn_world s1)"
    using m [unfolded settles_def, rule_format, OF P] by (simp_all add: ms)
  show "(\<forall>v. snd (jbind m k s) = Done v \<longrightarrow> Q v (rn_world (fst (jbind m k s)))) \<and>
      ((\<forall>v. snd (jbind m k s) \<noteq> Done v) \<longrightarrow> R (rn_world (fst (jbind m k s))))"
  proof (cases r)
    case (Done v)
    show ?thesis using k [of v, unfolded settles_def, rule_format, OF 1(1) [OF Done]] by (simp add: jbind_def ms Done)
  qed (use 1(2) in \<open>simp_all add: jbind_def ms\<close>)
qed

lemma settles_call:
  assumes "\<And>w. P w \<Longrightarrow> R w" "\<And>w w' v. P w \<Longrightarrow> f w = Inr (w', v) \<Longrightarrow> Q v w'"
  shows "settles P (jcall F f) Q R"
  using assms by (auto simp: settles_def jcall_def Let_def split: fault.split sum.split prod.split)

lemma settles_do: "(\<And>w. P w \<Longrightarrow> R w \<and> Q () (f w)) \<Longrightarrow> settles P (jdo F f) Q R"
  unfolding jdo_def by (rule settles_call) auto

lemma settles_look: "(\<And>w. P w \<Longrightarrow> R w) \<Longrightarrow> (\<And>w v. P w \<Longrightarrow> f w = Inr v \<Longrightarrow> Q v w) \<Longrightarrow> settles P (jlook F f) Q R"
  unfolding jlook_def by (rule settles_call) (auto split: sum.splits)

lemma settles_run:
  assumes "settles P m Q R" "P w"
  shows "(\<forall>v. snd (jrun m w) = Done v \<longrightarrow> Q v (fst (jrun m w))) \<and> ((\<forall>v. snd (jrun m w) \<noteq> Done v) \<longrightarrow> R (fst (jrun m w)))"
proof -
  obtain s r where s: "m \<lparr>rn_world = w, rn_calls = 0\<rparr> = (s, r)" by fastforce
  show ?thesis using assms(1) [unfolded settles_def, rule_format, of "\<lparr>rn_world = w, rn_calls = 0\<rparr>"] assms(2) by (simp add: jrun_def s)
qed

text \<open>
  \<open>answers F P m Q R\<close>: \<open>m\<close> ends well with \<open>Q\<close>, unless a fault strikes its last call; then \<open>R\<close> holds.
\<close>

definition answers :: "faults \<Rightarrow> ('w \<Rightarrow> bool) \<Rightarrow> ('w, 'a) job \<Rightarrow> ('a \<Rightarrow> 'w \<Rightarrow> bool) \<Rightarrow> ('w \<Rightarrow> bool) \<Rightarrow> bool" where
  "answers F P m Q R \<longleftrightarrow> (\<forall>s. P (rn_world s) \<longrightarrow> (case m s of
       (s', Done v) \<Rightarrow> Q v (rn_world s') \<and> rn_calls s \<le> rn_calls s'
     | (s', r) \<Rightarrow> R (rn_world s') \<and> rn_calls s < rn_calls s' \<and> F (rn_calls s' - 1) \<noteq> NoFault))"

lemma answersD:
  assumes "answers F P m Q R" "P (rn_world s)" "m s = (s', r)"
  shows "(\<exists>v. r = Done v \<and> Q v (rn_world s') \<and> rn_calls s \<le> rn_calls s') \<or>
    ((\<forall>v. r \<noteq> Done v) \<and> R (rn_world s') \<and> rn_calls s < rn_calls s' \<and> F (rn_calls s' - 1) \<noteq> NoFault)"
  using assms by (cases r) (auto simp: answers_def)

lemma answers_return: "(\<And>w. P w \<Longrightarrow> Q v w) \<Longrightarrow> answers F P (jreturn v) Q R"
  by (simp add: answers_def jreturn_def)

lemma answers_call:
  assumes "\<And>w. P w \<Longrightarrow> R w" "\<And>w. P w \<Longrightarrow> \<exists>w' v. f w = Inr (w', v) \<and> Q v w'"
  shows "answers F P (jcall F f) Q R"
  unfolding answers_def
proof (intro allI impI)
  fix s :: "'a run" assume P: "P (rn_world s)"
  then obtain w' v where "f (rn_world s) = Inr (w', v)" "Q v w'" using assms(2) by blast
  then show "case jcall F f s of (s', Done v) \<Rightarrow> Q v (rn_world s') \<and> rn_calls s \<le> rn_calls s'
     | (s', r) \<Rightarrow> R (rn_world s') \<and> rn_calls s < rn_calls s' \<and> F (rn_calls s' - 1) \<noteq> NoFault"
    using assms(1) [OF P] by (cases "F (rn_calls s)") (simp_all add: jcall_def Let_def)
qed

lemma answers_do: "(\<And>w. P w \<Longrightarrow> R w \<and> Q () (f w)) \<Longrightarrow> answers F P (jdo F f) Q R"
  unfolding jdo_def by (rule answers_call) auto

lemma answers_bind:
  assumes m: "answers F P m S R" and k: "\<And>v. answers F (S v) (k v) Q R"
  shows "answers F P (jbind m k) Q R"
  unfolding answers_def
proof (intro allI impI)
  fix s :: "'a run" assume P: "P (rn_world s)"
  obtain s1 r where ms: "m s = (s1, r)" by fastforce
  show "case jbind m k s of (s', Done v) \<Rightarrow> Q v (rn_world s') \<and> rn_calls s \<le> rn_calls s'
     | (s', r) \<Rightarrow> R (rn_world s') \<and> rn_calls s < rn_calls s' \<and> F (rn_calls s' - 1) \<noteq> NoFault"
  proof (cases r)
    case (Done v)
    obtain s2 r2 where ks: "k v s1 = (s2, r2)" by fastforce
    have "S v (rn_world s1)" "rn_calls s \<le> rn_calls s1" using answersD [OF m P ms] Done by simp_all
    then show ?thesis using answersD [OF k [of v] _ ks] Done by (cases r2) (auto simp: jbind_def ms ks)
  qed (use answersD [OF m P ms] in \<open>simp_all add: jbind_def ms\<close>)
qed

section \<open>Faults to compute with\<close>

definition crash_at :: "nat \<Rightarrow> faults" where
  "crash_at k n = (if n = k then CrashNow else NoFault)"

definition no_faults :: faults where
  "no_faults n = NoFault"

lemma calm_no_faults: "calm no_faults" and never_fails_no_faults: "never_fails no_faults"
  by (simp_all add: calm_def never_fails_def no_faults_def)

definition fail_at :: "nat \<Rightarrow> faults" where
  "fail_at k n = (if n = k then FailWith ''EIO'' else NoFault)"

end
