(* ===== verification/ReleasePaths.thy ===== *)
theory ReleasePaths
  imports Jobs
begin

text \<open>Paths and texts as the release scripts check them.\<close>

text \<open>
  \<^verbatim>\<open>path.isAbsolute(p) && path.normalize(p) === p\<close>; a slash at the end is kept by \<^verbatim>\<open>normalize\<close>.
\<close>

definition normalized_absolute :: "string \<Rightarrow> bool" where
  "normalized_absolute p \<longleftrightarrow> (case split_on CHR ''/'' p of [] \<Rightarrow> False
     | e # parts \<Rightarrow> e = [] \<and> parts \<noteq> [] \<and> list_all (\<lambda>q. q \<noteq> []) (butlast parts) \<and>
         list_all (\<lambda>q. q \<noteq> ''.'' \<and> q \<noteq> ''..'') parts)"

text \<open>\<^verbatim>\<open>path.dirname\<close>, on normalized absolute paths.\<close>

definition dirname :: "string \<Rightarrow> string" where
  "dirname s = (let t = (if s \<noteq> [] \<and> last s = CHR ''/'' then butlast s else s);
     d = join_with ''/'' (butlast (split_on CHR ''/'' t)) in if d = [] then ''/'' else d)"

definition below :: "string \<Rightarrow> string \<Rightarrow> bool" where
  "below p d \<longleftrightarrow> take (length d + 1) p = d @ ''/''"

definition hex_text :: "nat \<Rightarrow> string \<Rightarrow> bool" where
  "hex_text n = in_class (\<lambda>c. is_digit c \<or> c \<in> set ''abcdef'') n n"

definition uuid_text :: "string \<Rightarrow> bool" where
  "uuid_text = in_class (\<lambda>c. is_digit c \<or> c \<in> set ''abcdef-'') 36 36"

text \<open>\<^verbatim>\<open>text.includes(p)\<close>\<close>

fun mentions :: "string \<Rightarrow> string \<Rightarrow> bool" where
  "mentions p [] \<longleftrightarrow> p = []"
| "mentions p (c # cs) \<longleftrightarrow> take (length p) (c # cs) = p \<or> mentions p cs"

definition version_number :: "string \<Rightarrow> bool" where
  "version_number s \<longleftrightarrow> all_digits s \<and> (s = ''0'' \<or> hd s \<noteq> CHR ''0'')"

text \<open>\<^verbatim>\<open>major.minor.patch\<close>, then optionally a dash and a suffix.\<close>

definition version_text :: "string \<Rightarrow> bool" where
  "version_text s \<longleftrightarrow> (let core = takeWhile (\<lambda>c. c \<noteq> CHR ''-'') s; suffix = dropWhile (\<lambda>c. c \<noteq> CHR ''-'') s in
     length (split_on CHR ''.'' core) = 3 \<and> list_all version_number (split_on CHR ''.'' core) \<and>
     (suffix = [] \<or> (tl suffix \<noteq> [] \<and> list_all (\<lambda>c. is_alnum c \<or> c \<in> set ''.-'') (tl suffix))))"

end
