(* ===== verification/Replacement.thy ===== *)
theory Replacement
  imports ReleasePaths
begin

text \<open>
  The replacement of the live state by recovery copies,
  \<^verbatim>\<open>scripts/release/live-state-replacement-ledger.mjs\<close>: the ledger, the position of each
  target, and the resumable sequence of renames. The verifiers of other scripts it calls are
  arguments. An inspection reads one state of the disk.
\<close>

section \<open>The disk\<close>

text \<open>
  A node of the file tree: the children of a directory in the order of their names, each with its
  owner, group and mode; a file with the mark of having one link, and its content. A child that is
  no symbolic link is reached by its real path when its directory is.
\<close>

datatype tree_node = TreeDir children | TreeFile bool string | TreeSpecial
and children = NoChild | Child string nat nat nat tree_node children

record entry =
  en_node :: tree_node
  en_real :: bool
  en_dev :: nat
  en_ino :: nat
  en_uid :: nat
  en_gid :: nat
  en_mode :: nat

type_synonym namespace = "string \<Rightarrow> entry option"

datatype kind = Config | Database

record target =
  tg_name :: string
  tg_kind :: kind
  tg_live :: string
  tg_copy :: string
  tg_parked :: string
  tg_oldDev :: nat
  tg_oldIno :: nat
  tg_newDev :: nat
  tg_newIno :: nat
  tg_newUid :: nat
  tg_newGid :: nat
  tg_newMode :: nat
  tg_newDigest :: string

datatype ledger_phase = Prepared | Replacing | Replaced

record ledger =
  lg_phase :: ledger_phase
  lg_migration :: string
  lg_copyRecord :: string
  lg_copySha :: string
  lg_targets :: "target list"

datatype ledger_file = NoLedger | BrokenLedger | Ledger ledger

text \<open>
  A directory holds its present names first, and behind them the older states a power failure
  may still bring back; the file of the ledger likewise.
\<close>

record plant =
  pl_dirs :: "string \<Rightarrow> namespace list"
  pl_ledger :: "ledger_file list"

definition now_in :: "plant \<Rightarrow> string \<Rightarrow> namespace" where
  "now_in pl d = (case pl_dirs pl d of [] \<Rightarrow> Map.empty | ns # older \<Rightarrow> ns)"

definition lookup :: "plant \<Rightarrow> string \<Rightarrow> entry option" where
  "lookup pl p = now_in pl (dirname p) p"

definition push :: "string \<Rightarrow> namespace \<Rightarrow> plant \<Rightarrow> plant" where
  "push d ns pl = pl\<lparr>pl_dirs := (pl_dirs pl)(d := ns # pl_dirs pl d)\<rparr>"

definition syncDirectory :: "string \<Rightarrow> plant \<Rightarrow> plant" where
  "syncDirectory d pl = pl\<lparr>pl_dirs := (pl_dirs pl)(d := [now_in pl d])\<rparr>"

definition os_rename :: "string \<Rightarrow> string \<Rightarrow> plant \<Rightarrow> string + plant \<times> unit" where
  "os_rename a b pl = (case lookup pl a of
       None \<Rightarrow> Inl ''ENOENT''
     | Some e \<Rightarrow>
         if dirname a = dirname b then Inr (push (dirname a) ((now_in pl (dirname a))(b \<mapsto> e, a := None)) pl, ())
         else (let pl1 = push (dirname b) ((now_in pl (dirname b))(b \<mapsto> e)) pl
               in Inr (push (dirname a) ((now_in pl1 (dirname a))(a := None)) pl1, ())))"

definition current_ledger :: "plant \<Rightarrow> ledger_file" where
  "current_ledger pl = (case pl_ledger pl of [] \<Rightarrow> NoLedger | f # older \<Rightarrow> f)"

section \<open>Ledger and positions\<close>

definition plain_absolute :: "string \<Rightarrow> bool" where
  "plain_absolute p \<longleftrightarrow> normalized_absolute p \<and> p \<noteq> ''/''"

definition target_name_ok :: "string \<Rightarrow> bool" where
  "target_name_ok s \<longleftrightarrow> s \<noteq> [] \<and> is_lower (hd s) \<and> length s \<le> 32 \<and> list_all (\<lambda>c. is_lower c \<or> is_digit c \<or> c \<in> set ''_-'') (tl s)"

definition target_ok :: "target \<Rightarrow> bool" where
  "target_ok t \<longleftrightarrow> plain_absolute (tg_copy t) \<and> plain_absolute (tg_live t) \<and> plain_absolute (tg_parked t) \<and>
     hex_text 64 (tg_newDigest t) \<and> tg_newMode t \<le> 511 \<and> (tg_kind t = Database \<longrightarrow> target_name_ok (tg_name t))"

definition target_paths :: "target \<Rightarrow> string list" where
  "target_paths t = [tg_live t, tg_copy t, tg_parked t]"

definition validate_ledger :: "ledger \<Rightarrow> bool" where
  "validate_ledger r \<longleftrightarrow> uuid_text (lg_migration r) \<and>
     plain_absolute (lg_copyRecord r) \<and> hex_text 64 (lg_copySha r) \<and>
     length (lg_targets r) \<ge> 2 \<and> tg_kind (hd (lg_targets r)) = Config \<and>
     list_all (\<lambda>t. tg_kind t = Database) (tl (lg_targets r)) \<and> list_all target_ok (lg_targets r) \<and>
     distinct (concat (map target_paths (lg_targets r)))"

text \<open>The verifiers of the other scripts, and the trust in parent directories.\<close>

record copies =
  cs_prepared :: bool
  cs_migration :: string
  cs_configCopy :: string
  cs_databases :: "(string \<times> string \<times> string) list"

record view =
  vw_migration :: string
  vw_configRoot :: string
  vw_databases :: "string list"
  vw_outside :: "string list"

record checks =
  ck_trusted :: "string \<Rightarrow> bool"
  ck_ledgerTrusted :: bool
  ck_copies :: "string \<Rightarrow> copies option"
  ck_sha :: "string \<Rightarrow> string"
  ck_boundary :: "string \<Rightarrow> string option"
  ck_copiesVerified :: bool
  ck_view :: "view option"
  ck_json :: "string \<Rightarrow> string \<Rightarrow> nat \<Rightarrow> nat \<Rightarrow> nat \<Rightarrow> string"
  ck_sha256 :: "string \<Rightarrow> string"

definition readLiveReplacementLedger :: "checks \<Rightarrow> plant \<Rightarrow> string + ledger" where
  "readLiveReplacementLedger ck pl =
     (if \<not> ck_ledgerTrusted ck then Inl ''Untrusted live replacement ledger''
      else (case current_ledger pl of
          NoLedger \<Rightarrow> Inl ''ENOENT''
        | BrokenLedger \<Rightarrow> Inl ''SyntaxError''
        | Ledger r \<Rightarrow> if validate_ledger r then Inr r else Inl ''Invalid live replacement ledger''))"

datatype position = Pending | ParkedOld | Installed

definition identity :: "plant \<Rightarrow> string \<Rightarrow> kind \<Rightarrow> string + entry option" where
  "identity pl p k = (case lookup pl p of
       None \<Rightarrow> Inr None
     | Some e \<Rightarrow> if (case (k, en_node e) of (Config, TreeDir cs) \<Rightarrow> False | (Database, TreeFile single c) \<Rightarrow> \<not> single | _ \<Rightarrow> True) \<or> \<not> en_real e
         then Inl ''Unexpected recovery inode type'' else Inr (Some e))"

text \<open>The text that is hashed for a configuration directory; \<open>json\<close> and \<open>sha\<close> are arguments.\<close>

fun tree_text and children_text where
  "tree_text json sha prefix u g m (TreeDir cs) =
     (case children_text json sha prefix cs of None \<Rightarrow> None | Some tx \<Rightarrow> Some (json prefix ''directory'' u g m @ tx))"
| "tree_text json sha prefix u g m (TreeFile single c) = (if single then Some (json prefix ''file'' u g m @ sha c) else None)"
| "tree_text json sha prefix u g m TreeSpecial = None"
| "children_text json sha prefix NoChild = Some []"
| "children_text json sha prefix (Child n u g m node rest) =
     (case tree_text json sha (if prefix = [] then n else prefix @ ''/'' @ n) u g m node of None \<Rightarrow> None | Some a \<Rightarrow>
       (case children_text json sha prefix rest of None \<Rightarrow> None | Some b \<Rightarrow> Some (a @ b)))"

definition fingerprint :: "checks \<Rightarrow> entry \<Rightarrow> string + string" where
  "fingerprint ck e = (case en_node e of
       TreeFile single c \<Rightarrow> Inr (ck_sha256 ck c)
     | n \<Rightarrow> (case tree_text (ck_json ck) (ck_sha256 ck) [] (en_uid e) (en_gid e) (en_mode e) n of
         None \<Rightarrow> Inl ''Unsafe recovery configuration entry'' | Some tx \<Rightarrow> Inr (ck_sha256 ck tx)))"

definition is_old :: "target \<Rightarrow> entry option \<Rightarrow> bool" where
  "is_old t v = (case v of None \<Rightarrow> False | Some e \<Rightarrow> en_dev e = tg_oldDev t \<and> en_ino e = tg_oldIno t)"

definition is_new :: "target \<Rightarrow> entry option \<Rightarrow> bool" where
  "is_new t v = (case v of None \<Rightarrow> False | Some e \<Rightarrow> en_dev e = tg_newDev t \<and> en_ino e = tg_newIno t)"

definition sidecars :: "string \<Rightarrow> string list" where
  "sidecars live = [live @ ''-wal'', live @ ''-shm'', live @ ''-journal'']"

definition targetPosition :: "checks \<Rightarrow> plant \<Rightarrow> target \<Rightarrow> string + position" where
  "targetPosition ck pl t =
     (if \<not> (ck_trusted ck (tg_live t) \<and> ck_trusted ck (tg_copy t) \<and> ck_trusted ck (tg_parked t))
      then Inl ''Untrusted replacement ledger parent''
      else if dirname (tg_live t) \<noteq> dirname (tg_copy t) \<or> dirname (tg_live t) \<noteq> dirname (tg_parked t)
      then Inl ''Replacement target is not on one destination directory''
      else (case (identity pl (tg_live t) (tg_kind t), identity pl (tg_copy t) (tg_kind t), identity pl (tg_parked t) (tg_kind t)) of
          (Inr live, Inr copy, Inr parked) \<Rightarrow>
            (case (if is_old t live \<and> is_new t copy \<and> parked = None then Some (Pending, copy)
                   else if live = None \<and> is_new t copy \<and> is_old t parked then Some (ParkedOld, copy)
                   else if is_new t live \<and> copy = None \<and> is_old t parked then Some (Installed, live)
                   else None) of
               Some (position, Some e) \<Rightarrow>
                 if en_uid e \<noteq> tg_newUid t \<or> en_gid e \<noteq> tg_newGid t \<or> en_mode e \<noteq> tg_newMode t then Inl ''Replacement ownership changed''
                 else (case fingerprint ck e of Inl err \<Rightarrow> Inl err | Inr digest \<Rightarrow>
                   if digest \<noteq> tg_newDigest t then Inl ''Replacement copy changed''
                   else if tg_kind t = Database \<and> list_ex (\<lambda>p. lookup pl p \<noteq> None) (sidecars (tg_live t)) then Inl ''SQLite sidecar appeared''
                   else Inr position)
             | _ \<Rightarrow> Inl ''Unrecognized replacement position'')
        | _ \<Rightarrow> Inl ''Unexpected recovery inode type''))"

fun positions_of :: "checks \<Rightarrow> plant \<Rightarrow> target list \<Rightarrow> string + position list" where
  "positions_of ck pl [] = Inr []"
| "positions_of ck pl (t # ts) = (case targetPosition ck pl t of Inl e \<Rightarrow> Inl e | Inr p \<Rightarrow>
     (case positions_of ck pl ts of Inl e \<Rightarrow> Inl e | Inr ps \<Rightarrow> Inr (p # ps)))"

text \<open>The path of the state database, wherever it is at the moment.\<close>

definition database_path :: "string \<Rightarrow> target list \<Rightarrow> position list \<Rightarrow> string" where
  "database_path stateDatabase ts ps =
     (case filter (\<lambda>(t, p). tg_live t = stateDatabase) (zip ts ps) of
        (t, ParkedOld) # rest \<Rightarrow> tg_parked t | _ \<Rightarrow> stateDatabase)"

definition inspectLiveReplacementLedger :: "checks \<Rightarrow> string \<Rightarrow> plant \<Rightarrow> string + ledger \<times> position list" where
  "inspectLiveReplacementLedger ck stateDatabase pl = (case readLiveReplacementLedger ck pl of Inl e \<Rightarrow> Inl e | Inr r \<Rightarrow>
     (case ck_copies ck (lg_copyRecord r) of None \<Rightarrow> Inl ''Untrusted live recovery copy record'' | Some c \<Rightarrow>
      if \<not> cs_prepared c \<or> ck_sha ck (lg_copyRecord r) \<noteq> lg_copySha r \<or> cs_migration c \<noteq> lg_migration r \<or>
         tg_live (hd (lg_targets r)) = stateDatabase \<or>
         \<not> list_ex (\<lambda>t. tg_kind t = Database \<and> tg_live t = stateDatabase) (lg_targets r)
      then Inl ''Replacement ledger is not bound to prepared recovery copies''
      else (case positions_of ck pl (lg_targets r) of Inl e \<Rightarrow> Inl e | Inr ps \<Rightarrow>
        if (lg_phase r = Prepared \<and> list_ex (\<lambda>p. p \<noteq> Pending) ps) \<or> (lg_phase r = Replaced \<and> list_ex (\<lambda>p. p \<noteq> Installed) ps)
        then Inl ''Replacement ledger phase contradicts live inode positions''
        else if ck_boundary ck (database_path stateDatabase (lg_targets r) ps) \<noteq> Some (lg_migration r)
        then Inl ''Replacement ledger belongs to another migration''
        else Inr (r, ps))))"

section \<open>Changing the phase\<close>

definition push_ledger :: "ledger_file \<Rightarrow> plant \<Rightarrow> plant" where
  "push_ledger f pl = pl\<lparr>pl_ledger := f # pl_ledger pl\<rparr>"

definition sync_ledger :: "plant \<Rightarrow> plant" where
  "sync_ledger pl = pl\<lparr>pl_ledger := [current_ledger pl]\<rparr>"

text \<open>The temporary file is complete and synced before the rename makes it the ledger.\<close>

definition changePhase :: "faults \<Rightarrow> checks \<Rightarrow> ledger \<Rightarrow> ledger_phase \<Rightarrow> (plant, ledger) job" where
  "changePhase F ck before after =
     jbind (jlook F (\<lambda>pl. case readLiveReplacementLedger ck pl of Inl e \<Rightarrow> Inl e
         | Inr r \<Rightarrow> if r \<noteq> before then Inl ''Replacement ledger changed before durable phase transition''
             else if validate_ledger (r\<lparr>lg_phase := after\<rparr>) then Inr (r\<lparr>lg_phase := after\<rparr>) else Inl ''Invalid live replacement ledger''))
       (\<lambda>next_record. jbind (jdo F (\<lambda>pl. pl)) (\<lambda>_. jbind (jdo F (push_ledger (Ledger next_record))) (\<lambda>_.
          jbind (jdo F sync_ledger) (\<lambda>_. jreturn next_record))))"

section \<open>Preparing\<close>

definition fresh_target :: "checks \<Rightarrow> plant \<Rightarrow> string \<Rightarrow> string \<times> kind \<times> string \<times> string \<Rightarrow> string + target" where
  "fresh_target ck pl suffix source = (case source of (name, k, live, copy) \<Rightarrow>
     let parked = live @ ''.r0004-parked-'' @ suffix in
     if \<not> ck_trusted ck parked then Inl ''Untrusted replacement ledger parent''
     else if lookup pl parked \<noteq> None \<or> dirname live \<noteq> dirname copy
     then Inl ''Replacement parking path is unavailable or on another directory''
     else (case (identity pl live k, identity pl copy k) of
         (Inr (Some old), Inr (Some new)) \<Rightarrow>
           if en_dev old \<noteq> en_dev new then Inl ''Recovery copies cannot be renamed atomically''
           else (case fingerprint ck new of Inl err \<Rightarrow> Inl err | Inr digest \<Rightarrow> Inr \<lparr>tg_name = name, tg_kind = k, tg_live = live, tg_copy = copy, tg_parked = parked,
             tg_oldDev = en_dev old, tg_oldIno = en_ino old, tg_newDev = en_dev new, tg_newIno = en_ino new,
             tg_newUid = en_uid new, tg_newGid = en_gid new, tg_newMode = en_mode new, tg_newDigest = digest\<rparr>)
       | (Inr _, Inr _) \<Rightarrow> Inl ''Recovery copies cannot be renamed atomically''
       | _ \<Rightarrow> Inl ''Unexpected recovery inode type''))"

fun fresh_targets :: "checks \<Rightarrow> plant \<Rightarrow> string \<Rightarrow> (string \<times> kind \<times> string \<times> string) list \<Rightarrow> string + target list" where
  "fresh_targets ck pl suffix [] = Inr []"
| "fresh_targets ck pl suffix (s # ss) = (case fresh_target ck pl suffix s of Inl e \<Rightarrow> Inl e | Inr t \<Rightarrow>
     (case fresh_targets ck pl suffix ss of Inl e \<Rightarrow> Inl e | Inr ts \<Rightarrow> Inr (t # ts)))"

definition plan_ledger :: "checks \<Rightarrow> string \<Rightarrow> string \<Rightarrow> string \<Rightarrow> string \<Rightarrow> plant \<Rightarrow> string + ledger" where
  "plan_ledger ck ledgerPath recordPath stateDatabase suffix pl =
     (if \<not> plain_absolute ledgerPath \<or> \<not> plain_absolute recordPath \<or> ledgerPath = recordPath then Inl ''Root and separate ledger paths are required''
      else if \<not> ck_ledgerTrusted ck \<or> \<not> ck_copiesVerified ck then Inl ''Untrusted replacement ledger parent''
      else (case (ck_copies ck recordPath, ck_view ck) of
        (Some c, Some v) \<Rightarrow>
          if stateDatabase \<notin> set (vw_databases v) then Inl ''Operation ledger database is outside the snapshot destinations''
          else if list_ex (\<lambda>d. ledgerPath = d \<or> below ledgerPath d) (vw_outside v @ [cs_configCopy c])
          then Inl ''Replacement ledger must be outside staged, backup and live unit directories''
          else (case fresh_targets ck pl suffix (([], Config, vw_configRoot v, cs_configCopy c) # map (\<lambda>(n, source, copy). (n, Database, source, copy)) (cs_databases c)) of
              Inl e \<Rightarrow> Inl e
            | Inr ts \<Rightarrow>
                if list_ex (\<lambda>t. ledgerPath \<in> set (target_paths t) \<or> below ledgerPath (tg_live t)) ts then Inl ''Replacement ledger overlaps live or staged state''
                else (let r = \<lparr>lg_phase = Prepared, lg_migration = vw_migration v, lg_copyRecord = recordPath, lg_copySha = ck_sha ck recordPath, lg_targets = ts\<rparr>
                      in if validate_ledger r then Inr r else Inl ''Invalid live replacement ledger''))
      | _ \<Rightarrow> Inl ''Untrusted live recovery copy record''))"

definition prepareLiveReplacementLedger :: "faults \<Rightarrow> checks \<Rightarrow> string \<Rightarrow> string \<Rightarrow> string \<Rightarrow> string \<Rightarrow> (plant, ledger) job" where
  "prepareLiveReplacementLedger F ck ledgerPath recordPath stateDatabase suffix =
     jbind (jlook F (plan_ledger ck ledgerPath recordPath stateDatabase suffix)) (\<lambda>r.
     jbind (jcall F (\<lambda>pl. if current_ledger pl \<noteq> NoLedger then Inl ''EEXIST'' else Inr (push_ledger BrokenLedger pl, ()))) (\<lambda>_.
     jbind (jdo F (push_ledger (Ledger r))) (\<lambda>_.
     jbind (jdo F (\<lambda>pl. pl\<lparr>pl_ledger := filter (\<lambda>f. f \<noteq> BrokenLedger) (pl_ledger pl)\<rparr>)) (\<lambda>_.
     jbind (jdo F sync_ledger) (\<lambda>_.
     jbind (jlook F (inspectLiveReplacementLedger ck stateDatabase)) (\<lambda>_. jreturn r))))))"

section \<open>Replacing\<close>

text \<open>\<open>positions_now\<close> is the inspection between two steps.\<close>

definition positions_now :: "faults \<Rightarrow> checks \<Rightarrow> string \<Rightarrow> (plant, position list) job" where
  "positions_now F ck db = jbind (jlook F (inspectLiveReplacementLedger ck db)) (\<lambda>(r, ps). jreturn ps)"

text \<open>Preserving the old content: a directory is synced with all it holds.\<close>

fun sync_children :: "faults \<Rightarrow> children \<Rightarrow> (plant, unit) job" where
  "sync_children F NoChild = jreturn ()"
| "sync_children F (Child n u g m node rest) = jbind
     (case node of
        TreeDir cs \<Rightarrow> jbind (sync_children F cs) (\<lambda>_. jdo F (\<lambda>pl. pl))
      | TreeFile True c \<Rightarrow> jdo F (\<lambda>pl. pl)
      | _ \<Rightarrow> jraise ''Cannot preserve special configuration entry'')
     (\<lambda>_. sync_children F rest)"

definition readdir :: "string \<Rightarrow> plant \<Rightarrow> string + children" where
  "readdir p pl = (case lookup pl p of None \<Rightarrow> Inl ''ENOENT''
     | Some e \<Rightarrow> (case en_node e of TreeDir cs \<Rightarrow> Inr cs | _ \<Rightarrow> Inl ''ENOTDIR''))"

definition syncPreservedState :: "faults \<Rightarrow> target \<Rightarrow> (plant, unit) job" where
  "syncPreservedState F t = (case tg_kind t of
       Config \<Rightarrow> jbind (jlook F (readdir (tg_live t))) (\<lambda>cs. jbind (sync_children F cs) (\<lambda>_. jdo F (\<lambda>pl. pl)))
     | Database \<Rightarrow> jdo F (\<lambda>pl. pl))"

definition move_and_check ::
  "faults \<Rightarrow> checks \<Rightarrow> string \<Rightarrow> target \<Rightarrow> nat \<Rightarrow> string \<Rightarrow> string \<Rightarrow> position \<Rightarrow> (plant, position list) job" where
  "move_and_check F ck db t i a b expected =
     jbind (jcall F (os_rename a b)) (\<lambda>_. jbind (jdo F (syncDirectory (dirname (tg_live t)))) (\<lambda>_.
     jbind (positions_now F ck db) (\<lambda>ps.
       if ps ! i \<noteq> expected then jraise ''placement is uncertain'' else jreturn ps)))"

definition replace_one :: "faults \<Rightarrow> checks \<Rightarrow> string \<Rightarrow> target \<Rightarrow> nat \<Rightarrow> position list \<Rightarrow> (plant, position list) job" where
  "replace_one F ck db t i ps0 =
     jbind (if ps0 ! i \<noteq> Pending
            then jbind (jdo F (syncDirectory (dirname (tg_live t)))) (\<lambda>_. positions_now F ck db)
            else jreturn ps0) (\<lambda>ps1.
     jbind (if ps1 ! i = Pending
            then jbind (syncPreservedState F t) (\<lambda>_. jbind (positions_now F ck db) (\<lambda>ps2.
              if ps2 ! i \<noteq> Pending then jraise ''Old state changed before parking''
              else move_and_check F ck db t i (tg_live t) (tg_parked t) ParkedOld))
            else jreturn ps1) (\<lambda>ps3.
     jbind (if ps3 ! i = ParkedOld then move_and_check F ck db t i (tg_copy t) (tg_live t) Installed
            else jreturn ps3) (\<lambda>ps4.
       if ps4 ! i \<noteq> Installed then jraise ''Replacement position changed'' else jreturn ps4)))"

fun replace_from :: "faults \<Rightarrow> checks \<Rightarrow> string \<Rightarrow> nat \<Rightarrow> target list \<Rightarrow> position list \<Rightarrow> (plant, position list) job" where
  "replace_from F ck db i [] ps = jreturn ps"
| "replace_from F ck db i (t # ts) ps = jbind (replace_one F ck db t i ps) (replace_from F ck db (i + 1) ts)"

definition start_replacing :: "faults \<Rightarrow> checks \<Rightarrow> string \<Rightarrow> ledger \<Rightarrow> position list \<Rightarrow> (plant, ledger \<times> position list) job" where
  "start_replacing F ck db r ps =
     (if lg_phase r = Prepared then
        jbind (jlook F (\<lambda>pl. if ck_copiesVerified ck \<and> ck_copies ck (lg_copyRecord r) \<noteq> None then Inr () else Inl ''Untrusted live recovery copy record'')) (\<lambda>_.
        jbind (changePhase F ck r Replacing) (\<lambda>r'. jbind (positions_now F ck db) (\<lambda>ps'. jreturn (r', ps'))))
      else jreturn (r, ps))"

definition replaceLiveStateFromLedger :: "faults \<Rightarrow> checks \<Rightarrow> string \<Rightarrow> (plant, ledger \<times> position list) job" where
  "replaceLiveStateFromLedger F ck db =
     jbind (jlook F (inspectLiveReplacementLedger ck db)) (\<lambda>(r, ps).
       if lg_phase r = Replaced then jreturn (r, ps)
       else jbind (start_replacing F ck db r ps) (\<lambda>(r1, ps1).
         jbind (replace_from F ck db 0 (lg_targets r1) ps1) (\<lambda>ps2.
           if list_ex (\<lambda>p. p \<noteq> Installed) ps2 then jraise ''Live replacement is incomplete''
           else jbind (changePhase F ck r1 Replaced) (\<lambda>_. jlook F (inspectLiveReplacementLedger ck db)))))"

section \<open>Between two runs\<close>

text \<open>
  A power failure leaves every directory, and the file of the ledger, in one of the states it held since its last
  sync. A process that ends loses nothing, and settles nothing: what was not synced is still not.
\<close>

definition settle :: "(string \<Rightarrow> nat) \<Rightarrow> nat \<Rightarrow> plant \<Rightarrow> plant" where
  "settle pick pickLedger pl =
     \<lparr>pl_dirs = (\<lambda>d. if pl_dirs pl d = [] then [] else [pl_dirs pl d ! (pick d mod length (pl_dirs pl d))]),
      pl_ledger = (if pl_ledger pl = [] then [] else [pl_ledger pl ! (pickLedger mod length (pl_ledger pl))])\<rparr>"

datatype pause = PowerFailure "string \<Rightarrow> nat" nat | ProcessEnd

fun after_pause :: "pause \<Rightarrow> plant \<Rightarrow> plant" where
  "after_pause (PowerFailure pick pickLedger) pl = settle pick pickLedger pl"
| "after_pause ProcessEnd pl = pl"

text \<open>Runs that were cut short, each with its faults, its checks and the pause after it.\<close>

fun interrupted :: "string \<Rightarrow> (faults \<times> checks \<times> pause) list \<Rightarrow> plant \<Rightarrow> plant" where
  "interrupted db [] pl = pl"
| "interrupted db ((F, ck, p) # rest) pl = interrupted db rest (after_pause p (fst (jrun (replaceLiveStateFromLedger F ck db) pl)))"

end
