(* ===== verification/Replacement_Props.thy ===== *)
theory Replacement_Props
  imports Replacement
begin

text \<open>
  What one run of the replacement keeps, and how a run that no failure strikes ends.
\<close>

section \<open>Where the two versions of a target are\<close>

text \<open>\<open>old\<close> is the live entry at preparation, \<open>new\<close> the prepared copy.\<close>

fun placed :: "target \<Rightarrow> entry \<Rightarrow> entry \<Rightarrow> position \<Rightarrow> namespace \<Rightarrow> bool" where
  "placed t old new Pending ns = (ns (tg_live t) = Some old \<and> ns (tg_copy t) = Some new \<and> ns (tg_parked t) = None)"
| "placed t old new ParkedOld ns = (ns (tg_live t) = None \<and> ns (tg_copy t) = Some new \<and> ns (tg_parked t) = Some old)"
| "placed t old new Installed ns = (ns (tg_live t) = Some new \<and> ns (tg_copy t) = None \<and> ns (tg_parked t) = Some old)"

lemma placed_unique: "placed t old new p ns \<Longrightarrow> placed t old new q ns \<Longrightarrow> p = q"
  by (cases p; cases q) auto

definition kind_fits :: "kind \<Rightarrow> entry \<Rightarrow> bool" where
  "kind_fits k e \<longleftrightarrow> (case (k, en_node e) of (Config, TreeDir cs) \<Rightarrow> True | (Database, TreeFile single c) \<Rightarrow> single | _ \<Rightarrow> False) \<and> en_real e"

definition pair_fits :: "target \<Rightarrow> entry \<Rightarrow> entry \<Rightarrow> bool" where
  "pair_fits t old new \<longleftrightarrow> kind_fits (tg_kind t) old \<and> kind_fits (tg_kind t) new \<and>
     en_dev old = tg_oldDev t \<and> en_ino old = tg_oldIno t \<and> en_dev new = tg_newDev t \<and> en_ino new = tg_newIno t \<and>
     en_uid new = tg_newUid t \<and> en_gid new = tg_newGid t \<and> en_mode new = tg_newMode t"

text \<open>A configuration directory that can be preserved holds directories and files with one link only.\<close>

fun preservable :: "children \<Rightarrow> bool" where
  "preservable NoChild = True"
| "preservable (Child n u g m node rest) \<longleftrightarrow>
     (case node of TreeDir cs \<Rightarrow> preservable cs | TreeFile single c \<Rightarrow> single | TreeSpecial \<Rightarrow> False) \<and> preservable rest"

definition entry_preservable :: "entry \<Rightarrow> bool" where
  "entry_preservable e \<longleftrightarrow> (case en_node e of TreeDir cs \<Rightarrow> preservable cs | _ \<Rightarrow> True)"

definition no_sidecars :: "target \<Rightarrow> namespace \<Rightarrow> bool" where
  "no_sidecars t ns \<longleftrightarrow> (tg_kind t = Database \<longrightarrow> (\<forall>p \<in> set (sidecars (tg_live t)). ns p = None))"

text \<open>A plan: a valid ledger, bound to the state database, with its two entries per target.\<close>

definition plan_ok :: "ledger \<Rightarrow> (target \<Rightarrow> entry) \<Rightarrow> (target \<Rightarrow> entry) \<Rightarrow> string \<Rightarrow> bool" where
  "plan_ok r Old New db \<longleftrightarrow> validate_ledger r \<and> tg_live (hd (lg_targets r)) \<noteq> db \<and>
     list_ex (\<lambda>t. tg_kind t = Database \<and> tg_live t = db) (lg_targets r) \<and>
     (\<forall>t \<in> set (lg_targets r). dirname (tg_copy t) = dirname (tg_live t) \<and> dirname (tg_parked t) = dirname (tg_live t) \<and>
        pair_fits t (Old t) (New t) \<and> entry_preservable (Old t) \<and>
        (tg_kind t = Database \<longrightarrow> (\<forall>p \<in> set (sidecars (tg_live t)). dirname p = dirname (tg_live t) \<and>
           (\<forall>u \<in> set (lg_targets r). p \<notin> set (target_paths u)))))"

definition in_phase :: "ledger \<Rightarrow> ledger_phase \<Rightarrow> ledger_file" where
  "in_phase r ph = Ledger (r\<lparr>lg_phase := ph\<rparr>)"

definition everywhere :: "ledger \<Rightarrow> (target \<Rightarrow> entry) \<Rightarrow> (target \<Rightarrow> entry) \<Rightarrow> position \<Rightarrow> target list \<Rightarrow> plant \<Rightarrow> bool" where
  "everywhere r Old New p ts pl \<longleftrightarrow> (\<forall>t \<in> set ts. \<forall>ns \<in> set (pl_dirs pl (dirname (tg_live t))). placed t (Old t) (New t) p ns)"

text \<open>
  The invariant: in every state the disk may be in, every target is in one of the three
  positions, and the phase of the ledger agrees with them.
\<close>

definition plant_ok :: "ledger \<Rightarrow> (target \<Rightarrow> entry) \<Rightarrow> (target \<Rightarrow> entry) \<Rightarrow> plant \<Rightarrow> bool" where
  "plant_ok r Old New pl \<longleftrightarrow> pl_ledger pl \<noteq> [] \<and> (\<forall>f \<in> set (pl_ledger pl). \<exists>ph. f = in_phase r ph) \<and>
     (\<forall>t \<in> set (lg_targets r). pl_dirs pl (dirname (tg_live t)) \<noteq> [] \<and>
        (\<forall>ns \<in> set (pl_dirs pl (dirname (tg_live t))). (\<exists>p. placed t (Old t) (New t) p ns) \<and> no_sidecars t ns)) \<and>
     (in_phase r Prepared \<in> set (pl_ledger pl) \<longrightarrow> everywhere r Old New Pending (lg_targets r) pl) \<and>
     (in_phase r Replaced \<in> set (pl_ledger pl) \<longrightarrow> everywhere r Old New Installed (lg_targets r) pl)"

definition checks_ok :: "checks \<Rightarrow> ledger \<Rightarrow> (target \<Rightarrow> entry) \<Rightarrow> bool" where
  "checks_ok ck r New \<longleftrightarrow> (\<forall>t \<in> set (lg_targets r). fingerprint ck (New t) = Inr (tg_newDigest t)) \<and>
     (\<forall>p. ck_trusted ck p) \<and> ck_ledgerTrusted ck \<and> ck_copiesVerified ck \<and>
     (\<exists>c. ck_copies ck (lg_copyRecord r) = Some c \<and> cs_prepared c \<and> cs_migration c = lg_migration r) \<and>
     ck_sha ck (lg_copyRecord r) = lg_copySha r \<and> (\<forall>p. ck_boundary ck p = Some (lg_migration r))"

section \<open>What an inspection sees\<close>

lemma now_in_member: "pl_dirs pl d \<noteq> [] \<Longrightarrow> now_in pl d \<in> set (pl_dirs pl d)"
  by (cases "pl_dirs pl d") (simp_all add: now_in_def)

lemma identity_fits: "lookup pl p = Some e \<Longrightarrow> kind_fits k e \<Longrightarrow> identity pl p k = Inr (Some e)"
  by (cases k; cases "en_node e") (simp_all add: identity_def kind_fits_def)

lemma identity_none: "lookup pl p = None \<Longrightarrow> identity pl p k = Inr None"
  by (simp add: identity_def)

lemma position_seen:
  assumes t: "t \<in> set (lg_targets r)" and plan: "plan_ok r Old New db" and at: "placed t (Old t) (New t) p (now_in pl (dirname (tg_live t)))"
    and side: "no_sidecars t (now_in pl (dirname (tg_live t)))"
  shows "targetPosition ck pl t = (if ck_trusted ck (tg_live t) \<and> ck_trusted ck (tg_copy t) \<and> ck_trusted ck (tg_parked t)
     then (case fingerprint ck (New t) of Inl e \<Rightarrow> Inl e | Inr digest \<Rightarrow> if digest \<noteq> tg_newDigest t then Inl ''Replacement copy changed'' else Inr p)
     else Inl ''Untrusted replacement ledger parent'')"
proof -
  have dirs: "dirname (tg_copy t) = dirname (tg_live t)" "dirname (tg_parked t) = dirname (tg_live t)" and fits: "pair_fits t (Old t) (New t)"
    using plan t by (auto simp: plan_ok_def)
  have kinds: "kind_fits (tg_kind t) (Old t)" "kind_fits (tg_kind t) (New t)" using fits by (auto simp: pair_fits_def)
  have ids: "is_old t (Some (Old t))" "is_new t (Some (New t))" "\<not> is_old t None" "\<not> is_new t None"
    using fits by (auto simp: pair_fits_def is_old_def is_new_def)
  have attrs: "en_uid (New t) = tg_newUid t" "en_gid (New t) = tg_newGid t" "en_mode (New t) = tg_newMode t"
    using fits by (auto simp: pair_fits_def)
  have sides: "\<not> (tg_kind t = Database \<and> list_ex (\<lambda>p. lookup pl p \<noteq> None) (sidecars (tg_live t)))"
    using side plan t by (auto simp: no_sidecars_def list_ex_iff lookup_def plan_ok_def)
  show ?thesis
  proof (cases p)
    case Pending
    then have l: "lookup pl (tg_live t) = Some (Old t)" "lookup pl (tg_copy t) = Some (New t)" "lookup pl (tg_parked t) = None"
      using at dirs by (auto simp: lookup_def)
    note i = identity_fits [OF l(1) kinds(1)] identity_fits [OF l(2) kinds(2)] identity_none [OF l(3), of "tg_kind t"]
    show ?thesis unfolding targetPosition_def i using dirs ids attrs sides Pending by (auto split: sum.split)
  next
    case ParkedOld
    then have l: "lookup pl (tg_live t) = None" "lookup pl (tg_copy t) = Some (New t)" "lookup pl (tg_parked t) = Some (Old t)"
      using at dirs by (auto simp: lookup_def)
    note i = identity_none [OF l(1), of "tg_kind t"] identity_fits [OF l(2) kinds(2)] identity_fits [OF l(3) kinds(1)]
    show ?thesis unfolding targetPosition_def i using dirs ids attrs sides ParkedOld by (auto split: sum.split)
  next
    case Installed
    then have l: "lookup pl (tg_live t) = Some (New t)" "lookup pl (tg_copy t) = None" "lookup pl (tg_parked t) = Some (Old t)"
      using at dirs by (auto simp: lookup_def)
    note i = identity_fits [OF l(1) kinds(2)] identity_none [OF l(2), of "tg_kind t"] identity_fits [OF l(3) kinds(1)]
    show ?thesis unfolding targetPosition_def i using dirs ids attrs sides Installed by (auto split: sum.split)
  qed
qed

definition seen :: "(target \<Rightarrow> entry) \<Rightarrow> (target \<Rightarrow> entry) \<Rightarrow> plant \<Rightarrow> target \<Rightarrow> position \<Rightarrow> bool" where
  "seen Old New pl t p \<longleftrightarrow> placed t (Old t) (New t) p (now_in pl (dirname (tg_live t)))"

lemma plant_ok_now:
  assumes "plant_ok r Old New pl" "t \<in> set (lg_targets r)"
  shows "\<exists>p. seen Old New pl t p" "no_sidecars t (now_in pl (dirname (tg_live t)))"
  using assms now_in_member [of pl "dirname (tg_live t)"] by (auto simp: plant_ok_def seen_def)

lemma positions_seen:
  assumes "plan_ok r Old New db" "plant_ok r Old New pl" "set ts \<subseteq> set (lg_targets r)"
  shows "positions_of ck pl ts = Inr ps \<Longrightarrow> list_all2 (seen Old New pl) ts ps"
    and "checks_ok ck r New \<Longrightarrow> \<exists>ps. positions_of ck pl ts = Inr ps"
  using assms(3)
proof (induction ts arbitrary: ps)
  case (Cons t ts)
  {
    case 1
    obtain p where p: "seen Old New pl t p" using plant_ok_now(1) [OF assms(2), of t] 1(2) by auto
    have "targetPosition ck pl t = Inr q \<Longrightarrow> q = p" for q
      using position_seen [OF _ assms(1) p [unfolded seen_def] plant_ok_now(2) [OF assms(2)]] 1(2) by (auto split: if_splits sum.splits)
    then show ?case using 1 Cons.IH(1) p by (auto split: sum.splits)
  next
    case 2
    obtain p where p: "seen Old New pl t p" using plant_ok_now(1) [OF assms(2), of t] 2(2) by auto
    have "targetPosition ck pl t = Inr p"
      using position_seen [OF _ assms(1) p [unfolded seen_def] plant_ok_now(2) [OF assms(2)]] 2 by (auto simp: checks_ok_def)
    then show ?case using Cons.IH(2) 2 by auto
  }
qed auto

lemma validate_phase: "validate_ledger (r\<lparr>lg_phase := ph\<rparr>) = validate_ledger r"
  by (simp add: validate_ledger_def)

lemma plant_ok_ledger:
  assumes "plant_ok r Old New pl"
  obtains ph where "current_ledger pl = in_phase r ph" "in_phase r ph \<in> set (pl_ledger pl)"
  using assms by (cases "pl_ledger pl") (auto simp: plant_ok_def current_ledger_def)

lemma in_phase_eq: "in_phase r a = in_phase r b \<longleftrightarrow> a = b"
  by (metis in_phase_def ledger.select_convs(1) ledger.surjective ledger.update_convs(1) ledger_file.inject)

lemma read_seen:
  assumes "plan_ok r Old New db" "current_ledger pl = in_phase r ph"
  shows "readLiveReplacementLedger ck pl = (if ck_ledgerTrusted ck then Inr (r\<lparr>lg_phase := ph\<rparr>) else Inl ''Untrusted live replacement ledger'')"
  using assms by (simp add: readLiveReplacementLedger_def in_phase_def validate_phase plan_ok_def)

lemma inspected:
  assumes plan: "plan_ok r Old New db" and pl: "plant_ok r Old New pl"
  shows "inspectLiveReplacementLedger ck db pl = Inr (r', ps) \<Longrightarrow>
      \<exists>ph. r' = r\<lparr>lg_phase := ph\<rparr> \<and> current_ledger pl = in_phase r ph \<and> list_all2 (seen Old New pl) (lg_targets r) ps"
    and "checks_ok ck r New \<Longrightarrow> \<exists>x. inspectLiveReplacementLedger ck db pl = Inr x"
proof -
  obtain ph where ph: "current_ledger pl = in_phase r ph" "in_phase r ph \<in> set (pl_ledger pl)" by (rule plant_ok_ledger [OF pl])
  note read = read_seen [OF plan ph(1), of ck]
  note seen = positions_seen [OF plan pl order_refl, of ck]
  show "\<exists>ph. r' = r\<lparr>lg_phase := ph\<rparr> \<and> current_ledger pl = in_phase r ph \<and> list_all2 (seen Old New pl) (lg_targets r) ps"
    if "inspectLiveReplacementLedger ck db pl = Inr (r', ps)"
    using that seen(1) ph(1) unfolding inspectLiveReplacementLedger_def read by (auto split: if_splits option.splits sum.splits)
  assume ck: "checks_ok ck r New"
  then obtain qs where qs: "positions_of ck pl (lg_targets r) = Inr qs" using seen(2) by blast
  have all: "list_ex (\<lambda>q. q \<noteq> p) qs = False" if "everywhere r Old New p (lg_targets r) pl" for p
  proof -
    have "q = p" if "t \<in> set (lg_targets r)" "seen Old New pl t q" for t q
    proof -
      have "pl_dirs pl (dirname (tg_live t)) \<noteq> []" using pl that(1) by (auto simp: plant_ok_def)
      from now_in_member [OF this] have "seen Old New pl t p" using \<open>everywhere r Old New p (lg_targets r) pl\<close> that(1) by (auto simp: everywhere_def seen_def)
      then show ?thesis using that(2) placed_unique by (auto simp: seen_def)
    qed
    then have "qs ! i = p" if "i < length qs" for i
      using seen(1) [OF qs] that by (metis list_all2_conv_all_nth nth_mem)
    then have "\<forall>q \<in> set qs. q = p" by (auto simp: in_set_conv_nth)
    then show ?thesis by (auto simp: list_ex_iff)
  qed
  have "\<not> (ph = Prepared \<and> list_ex (\<lambda>q. q \<noteq> Pending) qs)" "\<not> (ph = Replaced \<and> list_ex (\<lambda>q. q \<noteq> Installed) qs)"
    using pl ph(2) all by (auto simp: plant_ok_def)
  then show "\<exists>x. inspectLiveReplacementLedger ck db pl = Inr x"
    unfolding inspectLiveReplacementLedger_def read using ck plan qs by (auto simp: checks_ok_def plan_ok_def)
qed

section \<open>One rename\<close>

text \<open>Another target's paths are not touched.\<close>

definition touches :: "string \<Rightarrow> string \<Rightarrow> namespace \<Rightarrow> namespace" where
  "touches a b ns = (case ns a of None \<Rightarrow> ns | Some e \<Rightarrow> ns(b \<mapsto> e, a := None))"

lemma target_paths_apart:
  assumes "plan_ok r Old New db" "t \<in> set (lg_targets r)" "u \<in> set (lg_targets r)" "t \<noteq> u"
  shows "set (target_paths t) \<inter> set (target_paths u) = {}"
proof -
  have "distinct (concat (map target_paths (lg_targets r)))" using assms(1) by (simp add: plan_ok_def validate_ledger_def)
  then show ?thesis using assms(2-4)
  proof (induction "lg_targets r" arbitrary: r)
    case Nil
    then show ?case by simp
  next
    case (Cons x xs)
    have "set (target_paths v) \<inter> set (target_paths x) = {}" if "v \<in> set xs" for v
      using Cons.hyps(2) [symmetric] Cons.prems(1) that by auto
    moreover have "distinct (concat (map target_paths xs))" using Cons.hyps(2) [symmetric] Cons.prems(1) by simp
    ultimately show ?case using Cons.hyps(1) [of "r\<lparr>lg_targets := xs\<rparr>"] Cons.hyps(2) [symmetric] Cons.prems(2-4) by auto
  qed
qed

lemma target_paths_distinct:
  assumes "plan_ok r Old New db" "t \<in> set (lg_targets r)"
  shows "tg_live t \<noteq> tg_copy t" "tg_live t \<noteq> tg_parked t" "tg_copy t \<noteq> tg_parked t"
proof -
  have "distinct (concat (map target_paths (lg_targets r)))" using assms(1) by (simp add: plan_ok_def validate_ledger_def)
  then have "distinct (target_paths t)" using assms(2) by (induction "lg_targets r" arbitrary: r) (auto simp: distinct_concat_iff)
  then show "tg_live t \<noteq> tg_copy t" "tg_live t \<noteq> tg_parked t" "tg_copy t \<noteq> tg_parked t" by (auto simp: target_paths_def)
qed

lemma touches_other:
  assumes "placed u old new p ns" "a \<notin> set (target_paths u)" "b \<notin> set (target_paths u)"
  shows "placed u old new p (touches a b ns)"
  using assms by (cases p) (auto simp: touches_def target_paths_def split: option.split)

lemma touches_sidecars:
  assumes "no_sidecars u ns" "tg_kind u = Database \<Longrightarrow> a \<notin> set (sidecars (tg_live u)) \<and> b \<notin> set (sidecars (tg_live u))"
  shows "no_sidecars u (touches a b ns)"
  using assms by (auto simp: no_sidecars_def touches_def split: option.split)

text \<open>The two renames of a target.\<close>

fun rename_from :: "position \<Rightarrow> target \<Rightarrow> string" where
  "rename_from ParkedOld t = tg_live t" | "rename_from _ t = tg_copy t"

fun rename_to :: "position \<Rightarrow> target \<Rightarrow> string" where
  "rename_to ParkedOld t = tg_parked t" | "rename_to _ t = tg_live t"

fun position_before :: "position \<Rightarrow> position" where
  "position_before ParkedOld = Pending" | "position_before _ = ParkedOld"

lemma touches_own:
  assumes "plan_ok r Old New db" "t \<in> set (lg_targets r)" "p \<noteq> Pending" "placed t old new (position_before p) ns"
  shows "placed t old new p (touches (rename_from p t) (rename_to p t) ns)"
  using target_paths_distinct [OF assms(1,2)] assms(3,4) by (cases p) (auto simp: touches_def)

lemma rename_dirs:
  assumes "plan_ok r Old New db" "t \<in> set (lg_targets r)"
  shows "dirname (rename_from p t) = dirname (tg_live t)" "dirname (rename_to p t) = dirname (tg_live t)"
    "rename_from p t \<in> set (target_paths t)" "rename_to p t \<in> set (target_paths t)"
  using assms by (cases p; auto simp: plan_ok_def target_paths_def)+

lemma renamed:
  assumes plan: "plan_ok r Old New db" and t: "t \<in> set (lg_targets r)" and p: "p \<noteq> Pending" and at: "seen Old New pl t (position_before p)"
  shows "os_rename (rename_from p t) (rename_to p t) pl =
    Inr (push (dirname (tg_live t)) (touches (rename_from p t) (rename_to p t) (now_in pl (dirname (tg_live t)))) pl, ())"
proof -
  have "lookup pl (rename_from p t) = now_in pl (dirname (tg_live t)) (rename_from p t)"
    using rename_dirs [OF plan t] by (simp add: lookup_def)
  moreover obtain e where "now_in pl (dirname (tg_live t)) (rename_from p t) = Some e"
    using at p by (cases p) (auto simp: seen_def)
  ultimately show ?thesis using rename_dirs [OF plan t] by (simp add: os_rename_def touches_def)
qed

text \<open>After a rename the directory holds its own target and every other one in a recognised position.\<close>

lemma touched_placed:
  assumes plan: "plan_ok r Old New db" and t: "t \<in> set (lg_targets r)" and p: "p \<noteq> Pending" and u: "u \<in> set (lg_targets r)"
    and at: "placed t (Old t) (New t) (position_before p) ns" and q: "placed u (Old u) (New u) q ns" and side: "no_sidecars u ns"
  shows "(\<exists>q. placed u (Old u) (New u) q (touches (rename_from p t) (rename_to p t) ns)) \<and>
    no_sidecars u (touches (rename_from p t) (rename_to p t) ns)"
proof
  have apart: "rename_from p t \<notin> set (sidecars (tg_live u)) \<and> rename_to p t \<notin> set (sidecars (tg_live u))" if "tg_kind u = Database"
    using plan u t that rename_dirs(3,4) [OF plan t, of p] by (auto simp: plan_ok_def)
  show "no_sidecars u (touches (rename_from p t) (rename_to p t) ns)" by (rule touches_sidecars) (use side apart in auto)
  show "\<exists>q. placed u (Old u) (New u) q (touches (rename_from p t) (rename_to p t) ns)"
  proof (cases "u = t")
    case True
    then show ?thesis using touches_own [OF plan t p at] by auto
  next
    case False
    have "rename_from p t \<notin> set (target_paths u)" "rename_to p t \<notin> set (target_paths u)"
      using target_paths_apart [OF plan t u] False rename_dirs(3,4) [OF plan t, of p] by auto
    then show ?thesis using touches_other [OF q] by blast
  qed
qed

text \<open>A push keeps the invariant while the ledger says \<open>Replacing\<close>.\<close>

lemma plant_ok_push:
  assumes plan: "plan_ok r Old New db" and t: "t \<in> set (lg_targets r)" and p: "p \<noteq> Pending" and at: "seen Old New pl t (position_before p)"
    and ok: "plant_ok r Old New pl" and only: "pl_ledger pl = [in_phase r Replacing]"
  shows "plant_ok r Old New (push (dirname (tg_live t)) (touches (rename_from p t) (rename_to p t) (now_in pl (dirname (tg_live t)))) pl)"
proof -
  let ?d = "dirname (tg_live t)"
  let ?ns = "touches (rename_from p t) (rename_to p t) (now_in pl ?d)"
  have new: "(\<exists>q. placed u (Old u) (New u) q ?ns) \<and> no_sidecars u ?ns" if u: "u \<in> set (lg_targets r)" "dirname (tg_live u) = ?d" for u
  proof -
    obtain q where q: "placed u (Old u) (New u) q (now_in pl ?d)" using plant_ok_now(1) [OF ok u(1)] u(2) by (auto simp: seen_def)
    show ?thesis using touched_placed [OF plan t p u(1) at [unfolded seen_def] q] plant_ok_now(2) [OF ok u(1)] u(2) by simp
  qed
  have "in_phase r Prepared \<noteq> in_phase r Replacing" "in_phase r Replaced \<noteq> in_phase r Replacing" by (simp_all add: in_phase_eq)
  then show ?thesis using ok only new by (auto simp: plant_ok_def push_def)
qed

lemma now_in_push: "now_in (push d ns pl) d = ns"
  by (simp add: now_in_def push_def)

lemma installed_push:
  assumes plan: "plan_ok r Old New db" and t: "t \<in> set (lg_targets r)" and ts: "set ts \<subseteq> set (lg_targets r)" "t \<notin> set ts"
    and all: "everywhere r Old New Installed ts pl" and ok: "plant_ok r Old New pl"
  shows "everywhere r Old New Installed ts (push (dirname (tg_live t)) (touches (rename_from p t) (rename_to p t) (now_in pl (dirname (tg_live t)))) pl)"
proof -
  have "placed u (Old u) (New u) Installed (touches (rename_from p t) (rename_to p t) (now_in pl (dirname (tg_live t))))"
    if u: "u \<in> set ts" "dirname (tg_live u) = dirname (tg_live t)" for u
  proof -
    have uT: "u \<in> set (lg_targets r)" and ne: "t \<noteq> u" using u ts by auto
    have "pl_dirs pl (dirname (tg_live t)) \<noteq> []" using ok t by (auto simp: plant_ok_def)
    from now_in_member [OF this] have "placed u (Old u) (New u) Installed (now_in pl (dirname (tg_live t)))"
      using all u by (auto simp: everywhere_def)
    moreover have "rename_from p t \<notin> set (target_paths u)" "rename_to p t \<notin> set (target_paths u)"
      using target_paths_apart [OF plan t uT ne] rename_dirs(3,4) [OF plan t, of p] by auto
    ultimately show ?thesis by (rule touches_other)
  qed
  then show ?thesis using all by (auto simp: everywhere_def push_def)
qed

section \<open>Syncing\<close>

lemma sync_member: "pl_dirs pl d \<noteq> [] \<Longrightarrow> ns \<in> set (pl_dirs (syncDirectory d' pl) d) \<Longrightarrow> ns \<in> set (pl_dirs pl d)"
  using now_in_member [of pl d'] by (auto simp: syncDirectory_def split: if_splits)

lemma now_in_sync: "now_in (syncDirectory d pl) d' = now_in pl d'"
  by (simp add: syncDirectory_def now_in_def)

lemma everywhere_sync:
  "plant_ok r Old New pl \<Longrightarrow> set ts \<subseteq> set (lg_targets r) \<Longrightarrow> everywhere r Old New p ts pl \<Longrightarrow> everywhere r Old New p ts (syncDirectory d pl)"
  unfolding everywhere_def using sync_member by (fastforce simp: plant_ok_def)

lemma plant_ok_sync: "plant_ok r Old New pl \<Longrightarrow> plant_ok r Old New (syncDirectory d pl)"
proof -
  assume ok: "plant_ok r Old New pl"
  have ledger: "pl_ledger (syncDirectory d pl) = pl_ledger pl" by (simp add: syncDirectory_def)
  have "pl_dirs (syncDirectory d pl) d' \<noteq> []" if "pl_dirs pl d' \<noteq> []" for d' using that by (simp add: syncDirectory_def)
  moreover have "(\<exists>p. placed t (Old t) (New t) p ns) \<and> no_sidecars t ns"
    if "t \<in> set (lg_targets r)" "ns \<in> set (pl_dirs (syncDirectory d pl) (dirname (tg_live t)))" for t ns
    using ok that sync_member [of pl "dirname (tg_live t)"] by (auto simp: plant_ok_def)
  ultimately show ?thesis using ok everywhere_sync [OF ok order_refl] unfolding plant_ok_def ledger by blast
qed

lemma sync_settles:
  assumes "seen Old New pl t p"
  shows "everywhere r Old New p [t] (syncDirectory (dirname (tg_live t)) pl)"
  using assms by (simp add: everywhere_def syncDirectory_def seen_def)

lemma seen_sync: "seen Old New (syncDirectory d pl) t p \<longleftrightarrow> seen Old New pl t p"
  by (simp add: seen_def now_in_sync)

section \<open>The loop\<close>

text \<open>While replacing: the targets \<open>ts\<close> are durably installed; the positions are the ones now.\<close>

definition replacing :: "ledger \<Rightarrow> (target \<Rightarrow> entry) \<Rightarrow> (target \<Rightarrow> entry) \<Rightarrow> target list \<Rightarrow> plant \<Rightarrow> bool" where
  "replacing r Old New ts pl \<longleftrightarrow> plant_ok r Old New pl \<and> pl_ledger pl = [in_phase r Replacing] \<and> everywhere r Old New Installed ts pl"

definition known :: "ledger \<Rightarrow> (target \<Rightarrow> entry) \<Rightarrow> (target \<Rightarrow> entry) \<Rightarrow> position list \<Rightarrow> plant \<Rightarrow> bool" where
  "known r Old New ps pl \<longleftrightarrow> list_all2 (seen Old New pl) (lg_targets r) ps"

lemma known_at: "known r Old New ps pl \<Longrightarrow> i < length (lg_targets r) \<Longrightarrow> seen Old New pl (lg_targets r ! i) (ps ! i)"
  by (auto simp: known_def list_all2_conv_all_nth)

lemma seen_unique: "seen Old New pl t p \<Longrightarrow> seen Old New pl t q \<Longrightarrow> p = q"
  by (auto simp: seen_def dest: placed_unique)

lemma positions_now_holds:
  assumes "plan_ok r Old New db"
  shows "holds (calm F \<and> checks_ok ck r New) (\<lambda>pl. replacing r Old New ts pl \<and> X pl) (positions_now F ck db)
    (\<lambda>ps pl. replacing r Old New ts pl \<and> X pl \<and> known r Old New ps pl) (plant_ok r Old New)"
  unfolding positions_now_def
proof (rule holds_bind)
  show "holds (calm F \<and> checks_ok ck r New) (\<lambda>pl. replacing r Old New ts pl \<and> X pl) (jlook F (inspectLiveReplacementLedger ck db))
    (\<lambda>x pl. replacing r Old New ts pl \<and> X pl \<and> known r Old New (snd x) pl) (plant_ok r Old New)"
  proof (rule holds_look)
    fix pl v
    assume "replacing r Old New ts pl \<and> X pl" "inspectLiveReplacementLedger ck db pl = Inr v"
    then show "replacing r Old New ts pl \<and> X pl \<and> known r Old New (snd v) pl"
      using inspected(1) [OF assms, of pl ck "fst v" "snd v"] by (auto simp: replacing_def known_def)
  next
    fix pl assume "calm F \<and> checks_ok ck r New" "replacing r Old New ts pl \<and> X pl"
    then show "\<exists>v. inspectLiveReplacementLedger ck db pl = Inr v" using inspected(2) [OF assms] by (auto simp: replacing_def)
  qed (auto simp: replacing_def)
  show "holds (calm F \<and> checks_ok ck r New) (\<lambda>pl. replacing r Old New ts pl \<and> X pl \<and> known r Old New (snd v) pl)
      (case v of (r, ps) \<Rightarrow> jreturn ps) (\<lambda>ps pl. replacing r Old New ts pl \<and> X pl \<and> known r Old New ps pl) (plant_ok r Old New)" for v
    by (cases v) (auto intro!: holds_return simp: replacing_def)
qed

lemma not_yet_installed:
  assumes "replacing r Old New ts pl" "seen Old New pl t (position_before p)" "t \<in> set (lg_targets r)"
  shows "t \<notin> set ts"
proof
  assume "t \<in> set ts"
  moreover have "pl_dirs pl (dirname (tg_live t)) \<noteq> []" using assms(1,3) by (auto simp: replacing_def plant_ok_def)
  ultimately have "seen Old New pl t Installed" using now_in_member assms(1) by (auto simp: replacing_def everywhere_def seen_def)
  then have "position_before p = Installed" using assms(2) seen_unique by blast
  then show False by (cases p) simp_all
qed

lemma rename_holds:
  assumes plan: "plan_ok r Old New db" and t: "t \<in> set (lg_targets r)" and p: "p \<noteq> Pending" and ts: "set ts \<subseteq> set (lg_targets r)"
  shows "holds (calm F \<and> checks_ok ck r New) (\<lambda>pl. replacing r Old New ts pl \<and> seen Old New pl t (position_before p))
    (jcall F (os_rename (rename_from p t) (rename_to p t)))
    (\<lambda>_ pl. replacing r Old New ts pl \<and> seen Old New pl t p) (plant_ok r Old New)"
proof (rule holds_call)
  fix pl assume pre: "replacing r Old New ts pl \<and> seen Old New pl t (position_before p)"
  note step = renamed [OF plan t p pre [THEN conjunct2]]
  show "\<exists>x. os_rename (rename_from p t) (rename_to p t) pl = Inr x" using step by blast
  show "plant_ok r Old New pl" using pre by (simp add: replacing_def)
  fix pl' v assume run: "os_rename (rename_from p t) (rename_to p t) pl = Inr (pl', v)"
  have pl': "pl' = push (dirname (tg_live t)) (touches (rename_from p t) (rename_to p t) (now_in pl (dirname (tg_live t)))) pl"
    using run step by simp
  have ok: "plant_ok r Old New pl'" unfolding pl'
    by (rule plant_ok_push [OF plan t p]) (use pre in \<open>auto simp: replacing_def\<close>)
  moreover have "everywhere r Old New Installed ts pl'" unfolding pl'
    by (rule installed_push [OF plan t ts]) (use pre not_yet_installed [of r Old New ts pl t p] t in \<open>auto simp: replacing_def\<close>)
  moreover have "seen Old New pl' t p" unfolding pl' seen_def now_in_push
    by (rule touches_own [OF plan t p]) (use pre in \<open>simp add: seen_def\<close>)
  moreover have "pl_ledger pl' = [in_phase r Replacing]" using pre by (simp add: pl' replacing_def push_def)
  ultimately show "(replacing r Old New ts pl' \<and> seen Old New pl' t p) \<and> plant_ok r Old New pl'" by (simp add: replacing_def)
qed simp

lemma sync_holds:
  assumes "set ts \<subseteq> set (lg_targets r)" "t \<in> set (lg_targets r)"
  shows "holds (calm F \<and> checks_ok ck r New) (\<lambda>pl. replacing r Old New ts pl \<and> (\<exists>p. seen Old New pl t p \<and> Y p))
    (jdo F (syncDirectory (dirname (tg_live t))))
    (\<lambda>_ pl. replacing r Old New ts pl \<and> (\<exists>p. seen Old New pl t p \<and> Y p \<and> everywhere r Old New p [t] pl)) (plant_ok r Old New)"
proof (rule holds_do)
  fix pl assume pre: "replacing r Old New ts pl \<and> (\<exists>p. seen Old New pl t p \<and> Y p)"
  show "plant_ok r Old New pl" using pre by (simp add: replacing_def)
  have "replacing r Old New ts (syncDirectory (dirname (tg_live t)) pl)"
    using pre plant_ok_sync everywhere_sync [OF _ assms(1)] by (auto simp: replacing_def syncDirectory_def)
  moreover have "\<exists>p. seen Old New (syncDirectory (dirname (tg_live t)) pl) t p \<and> Y p \<and>
      everywhere r Old New p [t] (syncDirectory (dirname (tg_live t)) pl)"
    using pre sync_settles seen_sync by blast
  ultimately show "(replacing r Old New ts (syncDirectory (dirname (tg_live t)) pl) \<and>
      (\<exists>p. seen Old New (syncDirectory (dirname (tg_live t)) pl) t p \<and> Y p \<and> everywhere r Old New p [t] (syncDirectory (dirname (tg_live t)) pl))) \<and>
      plant_ok r Old New (syncDirectory (dirname (tg_live t)) pl)" by (simp add: replacing_def)
qed simp

lemma move_and_check_holds:
  assumes plan: "plan_ok r Old New db" and i: "i < length (lg_targets r)" and t: "t = lg_targets r ! i"
    and p: "p \<noteq> Pending" and ts: "set ts \<subseteq> set (lg_targets r)"
  shows "holds (calm F \<and> checks_ok ck r New) (\<lambda>pl. replacing r Old New ts pl \<and> seen Old New pl t (position_before p))
    (move_and_check F ck db t i (rename_from p t) (rename_to p t) p)
    (\<lambda>ps pl. replacing r Old New ts pl \<and> everywhere r Old New p [t] pl \<and> known r Old New ps pl \<and> ps ! i = p) (plant_ok r Old New)"
  unfolding move_and_check_def
proof (rule holds_bind [OF rename_holds], rule plan, simp add: t i, rule p, rule ts,
    rule holds_bind [OF holds_weaken [OF sync_holds [where Y = "\<lambda>q. q = p"]]], rule ts, simp add: t i, blast, assumption, assumption,
    rule holds_bind [OF positions_now_holds], rule plan)
  fix ps
  let ?P = "\<lambda>pl. replacing r Old New ts pl \<and> (\<exists>q. seen Old New pl t q \<and> q = p \<and> everywhere r Old New q [t] pl) \<and> known r Old New ps pl"
  have at: "ps ! i = p" if "?P pl" for pl
    using that known_at [of r Old New ps pl i] i t seen_unique [of Old New pl t "ps ! i" p] by auto
  show "holds (calm F \<and> checks_ok ck r New) ?P (if ps ! i \<noteq> p then jraise ''placement is uncertain'' else jreturn ps)
    (\<lambda>ps pl. replacing r Old New ts pl \<and> everywhere r Old New p [t] pl \<and> known r Old New ps pl \<and> ps ! i = p) (plant_ok r Old New)"
  proof (rule holds_if)
    assume "ps ! i \<noteq> p"
    then show "holds (calm F \<and> checks_ok ck r New) ?P (jraise ''placement is uncertain'')
      (\<lambda>ps pl. replacing r Old New ts pl \<and> everywhere r Old New p [t] pl \<and> known r Old New ps pl \<and> ps ! i = p) (plant_ok r Old New)"
      by (intro holds_raise) (use at in blast)
  qed (rule holds_return, auto simp: replacing_def)
qed

text \<open>One round of the loop: the target is observed and synced, parked, and replaced by the copy.\<close>

lemma everywhere_append: "everywhere r Old New p (ts @ us) pl \<longleftrightarrow> everywhere r Old New p ts pl \<and> everywhere r Old New p us pl"
  by (auto simp: everywhere_def)

lemma everywhere_seen:
  assumes "plant_ok r Old New pl" "t \<in> set (lg_targets r)" "everywhere r Old New p [t] pl"
  shows "seen Old New pl t p"
  using assms now_in_member [of pl "dirname (tg_live t)"] by (auto simp: plant_ok_def everywhere_def seen_def)

lemma sync_children_holds:
  assumes "\<And>w. P w \<Longrightarrow> R w" "C \<Longrightarrow> calm F"
  shows "(C \<Longrightarrow> preservable cs) \<Longrightarrow> holds C P (sync_children F cs) (\<lambda>_. P) R"
proof (induction cs rule: preservable.induct)
  case 1
  then show ?case using assms by (auto intro!: holds_return)
next
  case (2 n u g m node rest)
  have rest: "holds C P (sync_children F rest) (\<lambda>_. P) R" using 2 by auto
  have noop: "holds C P (jdo F (\<lambda>pl. pl)) (\<lambda>_. P) R" by (rule holds_noop) (use assms in auto)
  have one: "holds C P (case node of TreeDir cs \<Rightarrow> jbind (sync_children F cs) (\<lambda>_. jdo F (\<lambda>pl. pl))
      | TreeFile True c \<Rightarrow> jdo F (\<lambda>pl. pl) | _ \<Rightarrow> jraise ''Cannot preserve special configuration entry'') (\<lambda>_. P) R"
  proof (cases node)
    case (TreeDir cs)
    have "holds C P (sync_children F cs) (\<lambda>_. P) R" using 2 TreeDir by auto
    from holds_bind [OF this noop] show ?thesis by (simp add: TreeDir)
  next
    case (TreeFile single c)
    then show ?thesis using noop 2(3) assms(1) by (cases single) (auto intro!: holds_raise)
  next
    case TreeSpecial
    then show ?thesis using 2(3) assms(1) by (auto intro!: holds_raise)
  qed
  show ?case unfolding sync_children.simps by (rule holds_bind [OF one rest])
qed

lemma preserve_holds:
  assumes plan: "plan_ok r Old New db" and t: "t \<in> set (lg_targets r)"
  shows "holds (calm F \<and> checks_ok ck r New) (\<lambda>pl. replacing r Old New ts pl \<and> seen Old New pl t Pending) (syncPreservedState F t)
    (\<lambda>_ pl. replacing r Old New ts pl \<and> seen Old New pl t Pending) (plant_ok r Old New)" (is "holds ?C ?P _ _ _")
proof (cases "tg_kind t")
  case Database
  then show ?thesis unfolding syncPreservedState_def by (auto intro!: holds_noop simp: replacing_def)
next
  case Config
  have fits: "kind_fits Config (Old t)" "entry_preservable (Old t)" using plan t Config by (auto simp: plan_ok_def pair_fits_def)
  obtain cs where node: "en_node (Old t) = TreeDir cs" using fits(1) by (auto simp: kind_fits_def split: tree_node.splits)
  have cs: "preservable cs" using fits(2) node by (simp add: entry_preservable_def)
  have dir: "readdir (tg_live t) pl = Inr cs" if "?P pl" for pl
    using that node by (simp add: readdir_def lookup_def seen_def)
  have look: "holds ?C ?P (jlook F (readdir (tg_live t))) (\<lambda>v pl. v = cs \<and> ?P pl) (plant_ok r Old New)"
    by (rule holds_look) (use dir in \<open>auto simp: replacing_def\<close>)
  have walk: "holds ?C (\<lambda>pl. v = cs \<and> ?P pl) (jbind (sync_children F v) (\<lambda>_. jdo F (\<lambda>pl. pl))) (\<lambda>_. ?P) (plant_ok r Old New)" for v
  proof (cases "v = cs")
    case True
    have "holds ?C ?P (sync_children F cs) (\<lambda>_. ?P) (plant_ok r Old New)"
      by (rule sync_children_holds) (use cs in \<open>auto simp: replacing_def\<close>)
    moreover have "holds ?C ?P (jdo F (\<lambda>pl. pl)) (\<lambda>_. ?P) (plant_ok r Old New)" by (rule holds_noop) (auto simp: replacing_def)
    ultimately show ?thesis using True by (auto intro!: holds_bind)
  next
    case False
    then show ?thesis using holds_false [of ?C] by simp
  qed
  show ?thesis unfolding syncPreservedState_def Config kind.case by (rule holds_bind [OF look walk])
qed

lemma park_holds:
  assumes plan: "plan_ok r Old New db" and i: "i < length (lg_targets r)" and t: "t = lg_targets r ! i"
    and ts: "set ts \<subseteq> set (lg_targets r)" and pending: "ps1 ! i = Pending"
  shows "holds (calm F \<and> checks_ok ck r New) (\<lambda>pl. replacing r Old New ts pl \<and> known r Old New ps1 pl)
    (jbind (syncPreservedState F t) (\<lambda>_. jbind (positions_now F ck db) (\<lambda>ps2.
       if ps2 ! i \<noteq> Pending then jraise ''Old state changed before parking''
       else move_and_check F ck db t i (tg_live t) (tg_parked t) ParkedOld)))
    (\<lambda>ps pl. replacing r Old New ts pl \<and> everywhere r Old New ParkedOld [t] pl \<and> known r Old New ps pl \<and> ps ! i = ParkedOld) (plant_ok r Old New)"
proof (rule holds_bind)
  have tT: "t \<in> set (lg_targets r)" using i t by simp
  show "holds (calm F \<and> checks_ok ck r New) (\<lambda>pl. replacing r Old New ts pl \<and> known r Old New ps1 pl) (syncPreservedState F t)
    (\<lambda>_ pl. replacing r Old New ts pl \<and> seen Old New pl t Pending) (plant_ok r Old New)"
    by (rule holds_weaken [OF preserve_holds [OF plan tT]]) (use known_at [of r Old New ps1 _ i] i t pending in \<open>auto simp: replacing_def\<close>)
  show "holds (calm F \<and> checks_ok ck r New) (\<lambda>pl. replacing r Old New ts pl \<and> seen Old New pl t Pending)
     (jbind (positions_now F ck db) (\<lambda>ps2. if ps2 ! i \<noteq> Pending then jraise ''Old state changed before parking''
       else move_and_check F ck db t i (tg_live t) (tg_parked t) ParkedOld))
    (\<lambda>ps pl. replacing r Old New ts pl \<and> everywhere r Old New ParkedOld [t] pl \<and> known r Old New ps pl \<and> ps ! i = ParkedOld) (plant_ok r Old New)"
  proof (rule holds_bind [OF positions_now_holds], rule plan)
    fix ps
    let ?P = "\<lambda>pl. replacing r Old New ts pl \<and> seen Old New pl t Pending \<and> known r Old New ps pl"
    show "holds (calm F \<and> checks_ok ck r New) ?P (if ps ! i \<noteq> Pending then jraise ''Old state changed before parking''
       else move_and_check F ck db t i (tg_live t) (tg_parked t) ParkedOld)
      (\<lambda>ps pl. replacing r Old New ts pl \<and> everywhere r Old New ParkedOld [t] pl \<and> known r Old New ps pl \<and> ps ! i = ParkedOld) (plant_ok r Old New)"
    proof (rule holds_if)
      assume ne: "ps ! i \<noteq> Pending"
      have "\<not> ?P pl" for pl using ne known_at [of r Old New ps pl i] i t seen_unique [of Old New pl t "ps ! i" Pending] by auto
      then show "holds (calm F \<and> checks_ok ck r New) ?P (jraise ''Old state changed before parking'')
        (\<lambda>ps pl. replacing r Old New ts pl \<and> everywhere r Old New ParkedOld [t] pl \<and> known r Old New ps pl \<and> ps ! i = ParkedOld) (plant_ok r Old New)"
        by (intro holds_raise) blast
    next
      have park: "holds (calm F \<and> checks_ok ck r New) (\<lambda>pl. replacing r Old New ts pl \<and> seen Old New pl t Pending)
        (move_and_check F ck db t i (tg_live t) (tg_parked t) ParkedOld)
        (\<lambda>ps pl. replacing r Old New ts pl \<and> everywhere r Old New ParkedOld [t] pl \<and> known r Old New ps pl \<and> ps ! i = ParkedOld) (plant_ok r Old New)"
        using move_and_check_holds [OF plan i t _ ts, of ParkedOld F ck] by simp
      show "holds (calm F \<and> checks_ok ck r New) ?P (move_and_check F ck db t i (tg_live t) (tg_parked t) ParkedOld)
        (\<lambda>ps pl. replacing r Old New ts pl \<and> everywhere r Old New ParkedOld [t] pl \<and> known r Old New ps pl \<and> ps ! i = ParkedOld) (plant_ok r Old New)"
        by (rule holds_weaken [OF park]) blast+
    qed
  qed
qed

lemma observe_holds:
  assumes plan: "plan_ok r Old New db" and i: "i < length (lg_targets r)" and t: "t = lg_targets r ! i" and ts: "set ts \<subseteq> set (lg_targets r)"
  shows "holds (calm F \<and> checks_ok ck r New) (\<lambda>pl. replacing r Old New ts pl \<and> known r Old New ps0 pl)
    (if ps0 ! i \<noteq> Pending then jbind (jdo F (syncDirectory (dirname (tg_live t)))) (\<lambda>_. positions_now F ck db) else jreturn ps0)
    (\<lambda>ps pl. replacing r Old New ts pl \<and> known r Old New ps pl \<and> (ps ! i \<noteq> Pending \<longrightarrow> everywhere r Old New (ps ! i) [t] pl)) (plant_ok r Old New)"
    (is "holds ?C ?P _ ?Q _")
proof (rule holds_if)
  show "holds ?C ?P (jbind (jdo F (syncDirectory (dirname (tg_live t)))) (\<lambda>_. positions_now F ck db)) ?Q (plant_ok r Old New)"
  proof (rule holds_bind)
    have tT: "t \<in> set (lg_targets r)" using i t by simp
    show "holds ?C ?P (jdo F (syncDirectory (dirname (tg_live t))))
      (\<lambda>_ pl. replacing r Old New ts pl \<and> (\<exists>p. seen Old New pl t p \<and> True \<and> everywhere r Old New p [t] pl)) (plant_ok r Old New)"
      by (rule holds_weaken [OF sync_holds [OF ts tT, where Y = "\<lambda>q. True"]]) (use known_at [of r Old New ps0 _ i] i t in auto)
    show "holds ?C (\<lambda>pl. replacing r Old New ts pl \<and> (\<exists>p. seen Old New pl t p \<and> True \<and> everywhere r Old New p [t] pl)) (positions_now F ck db) ?Q (plant_ok r Old New)"
    proof (rule holds_weaken [OF positions_now_holds [OF plan]])
      fix ps pl
      assume a: "replacing r Old New ts pl \<and> (\<exists>p. seen Old New pl t p \<and> True \<and> everywhere r Old New p [t] pl) \<and> known r Old New ps pl"
      then obtain p where p: "seen Old New pl t p" "everywhere r Old New p [t] pl" by blast
      have "seen Old New pl t (ps ! i)" using a known_at [of r Old New ps pl i] i t by blast
      from seen_unique [OF this p(1)] show "?Q ps pl" using a p(2) by blast
    qed
  qed
qed (rule holds_return, auto simp: replacing_def)

lemma replace_one_holds:
  assumes plan: "plan_ok r Old New db" and i: "i < length (lg_targets r)" and t: "t = lg_targets r ! i" and ts: "set ts \<subseteq> set (lg_targets r)"
  shows "holds (calm F \<and> checks_ok ck r New) (\<lambda>pl. replacing r Old New ts pl \<and> known r Old New ps0 pl) (replace_one F ck db t i ps0)
    (\<lambda>ps pl. replacing r Old New (ts @ [t]) pl \<and> known r Old New ps pl) (plant_ok r Old New)"
    (is "holds ?C _ _ ?Q _")
  unfolding replace_one_def
proof (rule holds_bind [OF observe_holds [OF plan i t ts]])
  fix ps1
  let ?S = "\<lambda>p ps pl. replacing r Old New ts pl \<and> everywhere r Old New p [t] pl \<and> known r Old New ps pl \<and> ps ! i = p"
  let ?S1 = "\<lambda>ps pl. replacing r Old New ts pl \<and> known r Old New ps pl \<and> (ps ! i \<noteq> Pending \<longrightarrow> everywhere r Old New (ps ! i) [t] pl)"
  have tT: "t \<in> set (lg_targets r)" using i t by simp
  show "holds ?C (?S1 ps1) (jbind (if ps1 ! i = Pending
            then jbind (syncPreservedState F t) (\<lambda>_. jbind (positions_now F ck db) (\<lambda>ps2.
              if ps2 ! i \<noteq> Pending then jraise ''Old state changed before parking''
              else move_and_check F ck db t i (tg_live t) (tg_parked t) ParkedOld))
            else jreturn ps1) (\<lambda>ps3.
     jbind (if ps3 ! i = ParkedOld then move_and_check F ck db t i (tg_copy t) (tg_live t) Installed
            else jreturn ps3) (\<lambda>ps4.
       if ps4 ! i \<noteq> Installed then jraise ''Replacement position changed'' else jreturn ps4))) ?Q (plant_ok r Old New)"
  proof (rule holds_bind)
    show "holds ?C (?S1 ps1) (if ps1 ! i = Pending
            then jbind (syncPreservedState F t) (\<lambda>_. jbind (positions_now F ck db) (\<lambda>ps2.
              if ps2 ! i \<noteq> Pending then jraise ''Old state changed before parking''
              else move_and_check F ck db t i (tg_live t) (tg_parked t) ParkedOld))
            else jreturn ps1) (\<lambda>ps3 pl. ?S ParkedOld ps3 pl \<or> ?S Installed ps3 pl) (plant_ok r Old New)"
    proof (rule holds_if)
      assume "ps1 ! i = Pending"
      from park_holds [OF plan i t ts this, of F ck]
      show "holds ?C (?S1 ps1) (jbind (syncPreservedState F t) (\<lambda>_. jbind (positions_now F ck db) (\<lambda>ps2.
              if ps2 ! i \<noteq> Pending then jraise ''Old state changed before parking''
              else move_and_check F ck db t i (tg_live t) (tg_parked t) ParkedOld)))
          (\<lambda>ps3 pl. ?S ParkedOld ps3 pl \<or> ?S Installed ps3 pl) (plant_ok r Old New)"
        by (rule holds_weaken) blast+
    next
      assume "ps1 ! i \<noteq> Pending"
      then show "holds ?C (?S1 ps1) (jreturn ps1) (\<lambda>ps3 pl. ?S ParkedOld ps3 pl \<or> ?S Installed ps3 pl) (plant_ok r Old New)"
        by (intro holds_return) (cases "ps1 ! i"; simp add: replacing_def)
    qed
  next
    fix ps3
    show "holds ?C (\<lambda>pl. ?S ParkedOld ps3 pl \<or> ?S Installed ps3 pl)
      (jbind (if ps3 ! i = ParkedOld then move_and_check F ck db t i (tg_copy t) (tg_live t) Installed else jreturn ps3) (\<lambda>ps4.
       if ps4 ! i \<noteq> Installed then jraise ''Replacement position changed'' else jreturn ps4)) ?Q (plant_ok r Old New)"
    proof (rule holds_bind)
      show "holds ?C (\<lambda>pl. ?S ParkedOld ps3 pl \<or> ?S Installed ps3 pl)
        (if ps3 ! i = ParkedOld then move_and_check F ck db t i (tg_copy t) (tg_live t) Installed else jreturn ps3) (?S Installed) (plant_ok r Old New)"
      proof (rule holds_if)
        assume parked: "ps3 ! i = ParkedOld"
        have install: "holds ?C (\<lambda>pl. replacing r Old New ts pl \<and> seen Old New pl t ParkedOld)
          (move_and_check F ck db t i (tg_copy t) (tg_live t) Installed) (?S Installed) (plant_ok r Old New)"
          using move_and_check_holds [OF plan i t _ ts, of Installed F ck] by simp
        show "holds ?C (\<lambda>pl. ?S ParkedOld ps3 pl \<or> ?S Installed ps3 pl)
          (move_and_check F ck db t i (tg_copy t) (tg_live t) Installed) (?S Installed) (plant_ok r Old New)"
          by (rule holds_weaken [OF install]) (use parked everywhere_seen [of r Old New _ t ParkedOld] tT in \<open>auto simp: replacing_def\<close>)
      next
        assume "ps3 ! i \<noteq> ParkedOld"
        then show "holds ?C (\<lambda>pl. ?S ParkedOld ps3 pl \<or> ?S Installed ps3 pl) (jreturn ps3) (?S Installed) (plant_ok r Old New)"
          by (intro holds_return) (auto simp: replacing_def)
      qed
      show "holds ?C (?S Installed ps4) (if ps4 ! i \<noteq> Installed then jraise ''Replacement position changed'' else jreturn ps4) ?Q (plant_ok r Old New)" for ps4
        by (rule holds_if; rule holds_raise holds_return; auto simp: replacing_def everywhere_append)
    qed
  qed
qed

lemma replace_from_holds:
  assumes plan: "plan_ok r Old New db"
  shows "ts @ us = lg_targets r \<Longrightarrow>
    holds (calm F \<and> checks_ok ck r New) (\<lambda>pl. replacing r Old New ts pl \<and> known r Old New ps pl) (replace_from F ck db (length ts) us ps)
      (\<lambda>ps pl. replacing r Old New (lg_targets r) pl \<and> known r Old New ps pl) (plant_ok r Old New)"
proof (induction us arbitrary: ts ps)
  case Nil
  then show ?case by (auto intro!: holds_return simp: replacing_def)
next
  case (Cons t us)
  have i: "length ts < length (lg_targets r)" "t = lg_targets r ! length ts" "set ts \<subseteq> set (lg_targets r)"
    using Cons.prems [symmetric] by auto
  have "holds (calm F \<and> checks_ok ck r New) (\<lambda>pl. replacing r Old New (ts @ [t]) pl \<and> known r Old New ps' pl)
      (replace_from F ck db (length ts + 1) us ps') (\<lambda>ps pl. replacing r Old New (lg_targets r) pl \<and> known r Old New ps pl) (plant_ok r Old New)" for ps'
    using Cons.IH [of "ts @ [t]" ps'] Cons.prems by simp
  then show ?case unfolding replace_from.simps by (rule holds_bind [OF replace_one_holds [OF plan i]])
qed

section \<open>A whole run\<close>

lemma plant_ok_push_ledger:
  assumes "plant_ok r Old New pl" "b \<noteq> Prepared" "b = Replaced \<Longrightarrow> everywhere r Old New Installed (lg_targets r) pl"
  shows "plant_ok r Old New (push_ledger (in_phase r b) pl)"
  using assms by (auto simp: plant_ok_def push_ledger_def in_phase_eq everywhere_def)

lemma plant_ok_sync_ledger: "plant_ok r Old New pl \<Longrightarrow> plant_ok r Old New (sync_ledger pl)"
  by (cases "pl_ledger pl") (auto simp: plant_ok_def sync_ledger_def current_ledger_def everywhere_def)

lemma changePhase_holds:
  assumes plan: "plan_ok r Old New db" and b: "b \<noteq> Prepared"
  shows "holds (calm F \<and> checks_ok ck r New)
    (\<lambda>pl. plant_ok r Old New pl \<and> pl_ledger pl = [in_phase r a] \<and> (b = Replaced \<longrightarrow> everywhere r Old New Installed (lg_targets r) pl))
    (changePhase F ck (r\<lparr>lg_phase := a\<rparr>) b)
    (\<lambda>v pl. v = r\<lparr>lg_phase := b\<rparr> \<and> plant_ok r Old New pl \<and> pl_ledger pl = [in_phase r b]) (plant_ok r Old New)"
    (is "holds ?C ?P _ ?Q ?R")
  unfolding changePhase_def
proof (rule holds_bind)
  show "holds ?C ?P (jlook F (\<lambda>pl. case readLiveReplacementLedger ck pl of Inl e \<Rightarrow> Inl e
         | Inr r' \<Rightarrow> if r' \<noteq> r\<lparr>lg_phase := a\<rparr> then Inl ''Replacement ledger changed before durable phase transition''
             else if validate_ledger (r'\<lparr>lg_phase := b\<rparr>) then Inr (r'\<lparr>lg_phase := b\<rparr>) else Inl ''Invalid live replacement ledger''))
      (\<lambda>v pl. v = r\<lparr>lg_phase := b\<rparr> \<and> ?P pl) ?R"
  proof (rule holds_look)
    have read: "readLiveReplacementLedger ck pl = (if ck_ledgerTrusted ck then Inr (r\<lparr>lg_phase := a\<rparr>) else Inl ''Untrusted live replacement ledger'')"
      if "?P pl" for pl by (rule read_seen [OF plan]) (use that in \<open>simp add: current_ledger_def\<close>)
    {
      fix pl v assume "?P pl" and "(case readLiveReplacementLedger ck pl of Inl e \<Rightarrow> Inl e
         | Inr r' \<Rightarrow> if r' \<noteq> r\<lparr>lg_phase := a\<rparr> then Inl ''Replacement ledger changed before durable phase transition''
             else if validate_ledger (r'\<lparr>lg_phase := b\<rparr>) then Inr (r'\<lparr>lg_phase := b\<rparr>) else Inl ''Invalid live replacement ledger'') = Inr v"
      then show "v = r\<lparr>lg_phase := b\<rparr> \<and> ?P pl" using read by (auto split: if_splits)
    }
    fix pl assume "?C" "?P pl"
    then show "\<exists>v. (case readLiveReplacementLedger ck pl of Inl e \<Rightarrow> Inl e
         | Inr r' \<Rightarrow> if r' \<noteq> r\<lparr>lg_phase := a\<rparr> then Inl ''Replacement ledger changed before durable phase transition''
             else if validate_ledger (r'\<lparr>lg_phase := b\<rparr>) then Inr (r'\<lparr>lg_phase := b\<rparr>) else Inl ''Invalid live replacement ledger'') = Inr v"
      using read plan by (simp add: validate_phase plan_ok_def checks_ok_def)
  qed auto
next
  fix v
  show "holds ?C (\<lambda>pl. v = r\<lparr>lg_phase := b\<rparr> \<and> ?P pl) (jbind (jdo F (\<lambda>pl. pl)) (\<lambda>_. jbind (jdo F (push_ledger (Ledger v))) (\<lambda>_.
          jbind (jdo F sync_ledger) (\<lambda>_. jreturn v)))) ?Q ?R"
  proof (rule holds_bind [OF holds_noop], blast, blast, rule holds_bind)
    let ?U = "\<lambda>_ pl. v = r\<lparr>lg_phase := b\<rparr> \<and> plant_ok r Old New pl \<and> current_ledger pl = in_phase r b"
    show "holds ?C (\<lambda>pl. v = r\<lparr>lg_phase := b\<rparr> \<and> ?P pl) (jdo F (push_ledger (Ledger v))) ?U ?R"
    proof (rule holds_do)
      fix pl assume p: "v = r\<lparr>lg_phase := b\<rparr> \<and> ?P pl"
      then have "plant_ok r Old New (push_ledger (in_phase r b) pl)" by (intro plant_ok_push_ledger b) auto
      moreover have "Ledger v = in_phase r b" using p by (simp add: in_phase_def)
      ultimately show "?U () (push_ledger (Ledger v) pl) \<and> ?R (push_ledger (Ledger v) pl)"
        using p by (simp add: current_ledger_def push_ledger_def)
    qed auto
    show "holds ?C (?U u) (jbind (jdo F sync_ledger) (\<lambda>_. jreturn v)) ?Q ?R" for u
      by (rule holds_bind [OF holds_do [where Q = "\<lambda>_ pl. ?Q v pl"]])
        (auto intro!: holds_return simp: plant_ok_sync_ledger, simp add: sync_ledger_def)
  qed
qed

definition whole :: "ledger \<Rightarrow> (target \<Rightarrow> entry) \<Rightarrow> (target \<Rightarrow> entry) \<Rightarrow> plant \<Rightarrow> bool" where
  "whole r Old New pl \<longleftrightarrow> plant_ok r Old New pl \<and> (\<exists>ph. pl_ledger pl = [in_phase r ph])"

definition complete :: "ledger \<Rightarrow> (target \<Rightarrow> entry) \<Rightarrow> (target \<Rightarrow> entry) \<Rightarrow> ledger \<times> position list \<Rightarrow> plant \<Rightarrow> bool" where
  "complete r Old New v pl \<longleftrightarrow> plant_ok r Old New pl \<and> pl_ledger pl = [in_phase r Replaced] \<and>
     fst v = r\<lparr>lg_phase := Replaced\<rparr> \<and> known r Old New (snd v) pl"

lemma inspect_holds:
  assumes plan: "plan_ok r Old New db"
  shows "holds (calm F \<and> checks_ok ck r New) (\<lambda>pl. plant_ok r Old New pl \<and> pl_ledger pl \<in> S)
    (jlook F (inspectLiveReplacementLedger ck db))
    (\<lambda>v pl. plant_ok r Old New pl \<and> pl_ledger pl \<in> S \<and> known r Old New (snd v) pl \<and> (\<exists>ph. current_ledger pl = in_phase r ph \<and> fst v = r\<lparr>lg_phase := ph\<rparr>))
    (plant_ok r Old New)"
proof (rule holds_look)
  fix pl v
  assume "plant_ok r Old New pl \<and> pl_ledger pl \<in> S" "inspectLiveReplacementLedger ck db pl = Inr v"
  then show "plant_ok r Old New pl \<and> pl_ledger pl \<in> S \<and> known r Old New (snd v) pl \<and> (\<exists>ph. current_ledger pl = in_phase r ph \<and> fst v = r\<lparr>lg_phase := ph\<rparr>)"
    using inspected(1) [OF plan, of pl ck "fst v" "snd v"] by (auto simp: known_def)
next
  fix pl assume "calm F \<and> checks_ok ck r New" "plant_ok r Old New pl \<and> pl_ledger pl \<in> S"
  then show "\<exists>v. inspectLiveReplacementLedger ck db pl = Inr v" using inspected(2) [OF plan] by auto
qed auto

lemma start_replacing_holds:
  assumes plan: "plan_ok r Old New db" and ph: "ph \<noteq> Replaced"
  shows "holds (calm F \<and> checks_ok ck r New) (\<lambda>pl. plant_ok r Old New pl \<and> pl_ledger pl = [in_phase r ph] \<and> known r Old New ps pl)
    (start_replacing F ck db (r\<lparr>lg_phase := ph\<rparr>) ps)
    (\<lambda>v pl. fst v = r\<lparr>lg_phase := Replacing\<rparr> \<and> replacing r Old New [] pl \<and> known r Old New (snd v) pl) (plant_ok r Old New)"
    (is "holds ?C ?P _ ?Q ?R")
proof (cases "ph = Prepared")
  case False
  then have "ph = Replacing" using ph by (cases ph) simp_all
  then show ?thesis unfolding start_replacing_def
    by (auto intro!: holds_return simp: replacing_def everywhere_def)
next
  case True
  have begin_it: "holds ?C ?P (jlook F (\<lambda>pl. if ck_copiesVerified ck \<and> ck_copies ck (lg_copyRecord (r\<lparr>lg_phase := ph\<rparr>)) \<noteq> None then Inr ()
      else Inl ''Untrusted live recovery copy record''))
    (\<lambda>_ pl. plant_ok r Old New pl \<and> pl_ledger pl = [in_phase r ph] \<and> (Replacing = Replaced \<longrightarrow> everywhere r Old New Installed (lg_targets r) pl)) ?R"
    by (rule holds_look) (auto simp: checks_ok_def)
  have look: "holds ?C (\<lambda>pl. v = r\<lparr>lg_phase := Replacing\<rparr> \<and> plant_ok r Old New pl \<and> pl_ledger pl = [in_phase r Replacing])
      (jbind (positions_now F ck db) (\<lambda>ps'. jreturn (v, ps'))) ?Q ?R" for v
  proof (rule holds_bind)
    show "holds ?C (\<lambda>pl. v = r\<lparr>lg_phase := Replacing\<rparr> \<and> plant_ok r Old New pl \<and> pl_ledger pl = [in_phase r Replacing])
      (positions_now F ck db) (\<lambda>ps' pl. replacing r Old New [] pl \<and> v = r\<lparr>lg_phase := Replacing\<rparr> \<and> known r Old New ps' pl) ?R"
      by (rule holds_weaken [OF positions_now_holds [OF plan, where ts = "[]" and X = "\<lambda>pl. v = r\<lparr>lg_phase := Replacing\<rparr>"]])
        (auto simp: replacing_def everywhere_def)
    show "holds ?C (\<lambda>pl. replacing r Old New [] pl \<and> v = r\<lparr>lg_phase := Replacing\<rparr> \<and> known r Old New ps' pl) (jreturn (v, ps')) ?Q ?R" for ps'
      by (rule holds_return) (simp add: replacing_def)
  qed
  have go: "holds ?C (\<lambda>pl. plant_ok r Old New pl \<and> pl_ledger pl = [in_phase r ph] \<and> (Replacing = Replaced \<longrightarrow> everywhere r Old New Installed (lg_targets r) pl))
      (jbind (changePhase F ck (r\<lparr>lg_phase := ph\<rparr>) Replacing) (\<lambda>r'. jbind (positions_now F ck db) (\<lambda>ps'. jreturn (r', ps')))) ?Q ?R"
    by (rule holds_bind [OF changePhase_holds [OF plan] look]) simp
  have at: "lg_phase (r\<lparr>lg_phase := ph\<rparr>) = Prepared" using True by simp
  show ?thesis unfolding start_replacing_def if_P [OF at] by (rule holds_bind [OF begin_it go])
qed

lemma known_installed:
  assumes "replacing r Old New (lg_targets r) pl" "known r Old New ps pl"
  shows "\<not> list_ex (\<lambda>p. p \<noteq> Installed) ps"
proof -
  have len: "length ps = length (lg_targets r)" using assms(2) by (auto simp: known_def list_all2_lengthD)
  have "ps ! i = Installed" if i: "i < length ps" for i
  proof -
    have t: "lg_targets r ! i \<in> set (lg_targets r)" using i len by simp
    have "seen Old New pl (lg_targets r ! i) Installed"
      by (rule everywhere_seen [of r]) (use assms(1) t in \<open>auto simp: replacing_def everywhere_def\<close>)
    then show ?thesis using known_at [OF assms(2)] i len seen_unique by metis
  qed
  then show ?thesis by (auto simp: list_ex_iff in_set_conv_nth)
qed

lemma replace_rest_holds:
  assumes plan: "plan_ok r Old New db"
  shows "holds (calm F \<and> checks_ok ck r New) (\<lambda>pl. fst v = r\<lparr>lg_phase := Replacing\<rparr> \<and> replacing r Old New [] pl \<and> known r Old New (snd v) pl)
    (case v of (r1, ps1) \<Rightarrow> jbind (replace_from F ck db 0 (lg_targets r1) ps1) (\<lambda>ps2.
       if list_ex (\<lambda>p. p \<noteq> Installed) ps2 then jraise ''Live replacement is incomplete''
       else jbind (changePhase F ck r1 Replaced) (\<lambda>_. jlook F (inspectLiveReplacementLedger ck db))))
    (complete r Old New) (plant_ok r Old New)" (is "holds ?C ?P _ _ ?R")
proof (cases "fst v = r\<lparr>lg_phase := Replacing\<rparr>")
  case False
  then show ?thesis using holds_false [of ?C] by simp
next
  case True
  then obtain ps1 where v: "v = (r\<lparr>lg_phase := Replacing\<rparr>, ps1)" by (cases v) simp
  let ?K = "\<lambda>ps pl. replacing r Old New (lg_targets r) pl \<and> known r Old New ps pl"
  have "holds ?C (\<lambda>pl. replacing r Old New [] pl \<and> known r Old New ps1 pl) (replace_from F ck db 0 (lg_targets r) ps1) ?K ?R"
    using replace_from_holds [OF plan, of "[]" "lg_targets r"] by simp
  then have loop: "holds ?C ?P (replace_from F ck db 0 (lg_targets r) ps1) ?K ?R"
    by (rule holds_weaken) (auto simp: v)
  have finish: "holds ?C (?K ps2) (if list_ex (\<lambda>p. p \<noteq> Installed) ps2 then jraise ''Live replacement is incomplete''
       else jbind (changePhase F ck (r\<lparr>lg_phase := Replacing\<rparr>) Replaced) (\<lambda>_. jlook F (inspectLiveReplacementLedger ck db))) (complete r Old New) ?R" for ps2
  proof (rule holds_if)
    assume "list_ex (\<lambda>p. p \<noteq> Installed) ps2"
    then show "holds ?C (?K ps2) (jraise ''Live replacement is incomplete'') (complete r Old New) ?R"
      by (intro holds_raise) (use known_installed in blast)
  next
    have mark: "holds ?C (?K ps2) (changePhase F ck (r\<lparr>lg_phase := Replacing\<rparr>) Replaced)
        (\<lambda>_ pl. plant_ok r Old New pl \<and> pl_ledger pl \<in> {[in_phase r Replaced]}) ?R"
      by (rule holds_weaken [OF changePhase_holds [OF plan]]) (auto simp: replacing_def)
    have last: "holds ?C (\<lambda>pl. plant_ok r Old New pl \<and> pl_ledger pl \<in> {[in_phase r Replaced]})
        (jlook F (inspectLiveReplacementLedger ck db)) (complete r Old New) ?R"
      by (rule holds_weaken [OF inspect_holds [OF plan]]) (auto simp: complete_def current_ledger_def in_phase_eq)
    show "holds ?C (?K ps2) (jbind (changePhase F ck (r\<lparr>lg_phase := Replacing\<rparr>) Replaced) (\<lambda>_. jlook F (inspectLiveReplacementLedger ck db)))
        (complete r Old New) ?R" by (rule holds_bind [OF mark last])
  qed
  have T: "lg_targets (r\<lparr>lg_phase := Replacing\<rparr>) = lg_targets r" by simp
  show ?thesis unfolding v prod.case T by (rule holds_bind [OF loop [unfolded v] finish])
qed

lemma replaceLiveStateFromLedger_holds:
  assumes plan: "plan_ok r Old New db"
  shows "holds (calm F \<and> checks_ok ck r New) (whole r Old New) (replaceLiveStateFromLedger F ck db) (complete r Old New) (plant_ok r Old New)"
  unfolding replaceLiveStateFromLedger_def
proof (rule holds_bind)
  let ?C = "calm F \<and> checks_ok ck r New"
  let ?I = "\<lambda>v pl. plant_ok r Old New pl \<and> (\<exists>ph. pl_ledger pl = [in_phase r ph] \<and> fst v = r\<lparr>lg_phase := ph\<rparr>) \<and> known r Old New (snd v) pl"
  show "holds ?C (whole r Old New) (jlook F (inspectLiveReplacementLedger ck db)) ?I (plant_ok r Old New)"
    by (rule holds_weaken [OF inspect_holds [OF plan, where S = "{[in_phase r ph] | ph. True}"]])
      (auto simp: whole_def current_ledger_def in_phase_eq)
  fix v
  show "holds ?C (?I v) (case v of (r, ps) \<Rightarrow> if lg_phase r = Replaced then jreturn (r, ps)
       else jbind (start_replacing F ck db r ps) (\<lambda>(r1, ps1).
         jbind (replace_from F ck db 0 (lg_targets r1) ps1) (\<lambda>ps2.
           if list_ex (\<lambda>p. p \<noteq> Installed) ps2 then jraise ''Live replacement is incomplete''
           else jbind (changePhase F ck r1 Replaced) (\<lambda>_. jlook F (inspectLiveReplacementLedger ck db)))))
     (complete r Old New) (plant_ok r Old New)"
  proof (cases v)
    case (Pair r' ps)
    have "holds ?C (\<lambda>pl. ?I v pl \<and> lg_phase r' \<noteq> Replaced) (start_replacing F ck db r' ps)
       (\<lambda>v pl. fst v = r\<lparr>lg_phase := Replacing\<rparr> \<and> replacing r Old New [] pl \<and> known r Old New (snd v) pl) (plant_ok r Old New)"
    proof (cases "\<exists>ph. r' = r\<lparr>lg_phase := ph\<rparr> \<and> ph \<noteq> Replaced")
      case True
      then obtain ph where ph: "r' = r\<lparr>lg_phase := ph\<rparr>" "ph \<noteq> Replaced" by blast
      have same: "r\<lparr>lg_phase := ph\<rparr> = r\<lparr>lg_phase := q\<rparr> \<Longrightarrow> q = ph" for q by (metis ledger.select_convs(1) ledger.surjective ledger.update_convs(1))
      show ?thesis unfolding ph(1) by (rule holds_weaken [OF start_replacing_holds [OF plan ph(2)]]) (use same in \<open>auto simp: Pair ph\<close>)
    next
      case False
      then have no: "(\<lambda>pl. ?I v pl \<and> lg_phase r' \<noteq> Replaced) = (\<lambda>pl. False)" using Pair by (auto simp: fun_eq_iff)
      show ?thesis unfolding no by (rule holds_false)
    qed
    from holds_bind [OF this replace_rest_holds [OF plan]]
    have go: "holds ?C (\<lambda>pl. ?I v pl \<and> lg_phase r' \<noteq> Replaced) (jbind (start_replacing F ck db r' ps) (\<lambda>(r1, ps1).
         jbind (replace_from F ck db 0 (lg_targets r1) ps1) (\<lambda>ps2.
           if list_ex (\<lambda>p. p \<noteq> Installed) ps2 then jraise ''Live replacement is incomplete''
           else jbind (changePhase F ck r1 Replaced) (\<lambda>_. jlook F (inspectLiveReplacementLedger ck db)))))
       (complete r Old New) (plant_ok r Old New)" by simp
    have stop: "holds ?C (\<lambda>pl. ?I v pl \<and> lg_phase r' = Replaced) (jreturn (r', ps)) (complete r Old New) (plant_ok r Old New)"
      by (rule holds_return) (auto simp: Pair complete_def)
    show ?thesis unfolding Pair prod.case
    proof (rule holds_if)
      assume "lg_phase r' = Replaced"
      then show "holds ?C (?I (r', ps)) (jreturn (r', ps)) (complete r Old New) (plant_ok r Old New)" using stop Pair by simp
    next
      assume "lg_phase r' \<noteq> Replaced"
      then show "holds ?C (?I (r', ps)) (jbind (start_replacing F ck db r' ps) (\<lambda>(r1, ps1).
         jbind (replace_from F ck db 0 (lg_targets r1) ps1) (\<lambda>ps2.
           if list_ex (\<lambda>p. p \<noteq> Installed) ps2 then jraise ''Live replacement is incomplete''
           else jbind (changePhase F ck r1 Replaced) (\<lambda>_. jlook F (inspectLiveReplacementLedger ck db)))))
       (complete r Old New) (plant_ok r Old New)" using go Pair by simp
    qed
  qed
qed

section \<open>Planning\<close>

lemma identity_found: "identity pl p k = Inr (Some e) \<Longrightarrow> lookup pl p = Some e \<and> kind_fits k e"
  by (cases k) (auto simp: identity_def kind_fits_def split: option.splits if_splits tree_node.splits)

text \<open>A planned target has its two entries in place, of the right kind, and a free parking path.\<close>

lemma fresh_target_pending:
  assumes "fresh_target ck pl suffix (n, k, live, copy) = Inr t"
  shows "\<exists>old new. placed t old new Pending (lookup pl) \<and> pair_fits t old new \<and> dirname (tg_copy t) = dirname (tg_live t)"
  using assms identity_found [of pl live k] identity_found [of pl copy k]
  by (auto simp: fresh_target_def Let_def pair_fits_def split: if_splits sum.splits option.splits)

lemma fresh_targets_pending:
  "fresh_targets ck pl suffix ss = Inr ts \<Longrightarrow> t \<in> set ts \<Longrightarrow>
    \<exists>old new. placed t old new Pending (lookup pl) \<and> pair_fits t old new \<and> dirname (tg_copy t) = dirname (tg_live t)"
proof (induction ss arbitrary: ts)
  case (Cons s ss)
  obtain n k live copy where s: "s = (n, k, live, copy)" by (cases s)
  show ?case using Cons fresh_target_pending [of ck pl suffix n k live copy] by (auto simp: s split: sum.splits)
qed simp

end
