(* ===== verification/Replacement_History.thy ===== *)
theory Replacement_History
  imports Replacement_Props
begin

text \<open>
  Replacements that are cut short again and again: no version is ever lost, and when a later run completes.
\<close>

section \<open>What survives every history\<close>

text \<open>The invariant without the phase: it holds of every state of the disk, whatever the ledger says.\<close>

definition safe_plant :: "ledger \<Rightarrow> (target \<Rightarrow> entry) \<Rightarrow> (target \<Rightarrow> entry) \<Rightarrow> plant \<Rightarrow> bool" where
  "safe_plant r Old New pl \<longleftrightarrow> pl_ledger pl \<noteq> [] \<and> (\<forall>f \<in> set (pl_ledger pl). \<exists>ph. f = in_phase r ph) \<and>
     (\<forall>t \<in> set (lg_targets r). pl_dirs pl (dirname (tg_live t)) \<noteq> [] \<and>
        (\<forall>ns \<in> set (pl_dirs pl (dirname (tg_live t))). (\<exists>p. placed t (Old t) (New t) p ns) \<and> no_sidecars t ns))"

lemma safe_now:
  assumes "safe_plant r Old New pl" "t \<in> set (lg_targets r)"
  shows "\<exists>p. seen Old New pl t p" "no_sidecars t (now_in pl (dirname (tg_live t)))"
  using assms now_in_member [of pl "dirname (tg_live t)"] by (auto simp: safe_plant_def seen_def)

lemma safe_positions:
  assumes "plan_ok r Old New db" "safe_plant r Old New pl"
  shows "set ts \<subseteq> set (lg_targets r) \<Longrightarrow> positions_of ck pl ts = Inr ps \<Longrightarrow> list_all2 (seen Old New pl) ts ps"
proof (induction ts arbitrary: ps)
  case (Cons t ts)
  obtain p where p: "seen Old New pl t p" using safe_now(1) [OF assms(2), of t] Cons.prems(1) by auto
  have "targetPosition ck pl t = Inr q \<Longrightarrow> q = p" for q
    using position_seen [OF _ assms(1) p [unfolded seen_def] safe_now(2) [OF assms(2)]] Cons.prems(1) by (auto split: if_splits sum.splits)
  then show ?case using Cons p by (auto split: sum.splits)
qed auto

lemma safe_inspected:
  assumes plan: "plan_ok r Old New db" and pl: "safe_plant r Old New pl" and ok: "inspectLiveReplacementLedger ck db pl = Inr (r', ps)"
  shows "(\<exists>ph. r' = r\<lparr>lg_phase := ph\<rparr>) \<and> known r Old New ps pl"
proof -
  obtain ph where ph: "current_ledger pl = in_phase r ph" using pl by (cases "pl_ledger pl") (auto simp: safe_plant_def current_ledger_def)
  show ?thesis using ok safe_positions [OF plan pl order_refl, of ck] read_seen [OF plan ph, of ck]
    unfolding inspectLiveReplacementLedger_def known_def by (auto split: if_splits option.splits sum.splits)
qed

lemma safe_push_ledger: "safe_plant r Old New pl \<Longrightarrow> safe_plant r Old New (push_ledger (in_phase r b) pl)"
  by (auto simp: safe_plant_def push_ledger_def)

lemma safe_sync_ledger: "safe_plant r Old New pl \<Longrightarrow> safe_plant r Old New (sync_ledger pl)"
  by (cases "pl_ledger pl") (auto simp: safe_plant_def sync_ledger_def current_ledger_def)

lemma safe_sync: "safe_plant r Old New pl \<Longrightarrow> safe_plant r Old New (syncDirectory d pl)"
proof -
  assume ok: "safe_plant r Old New pl"
  have ledger: "pl_ledger (syncDirectory d pl) = pl_ledger pl" by (simp add: syncDirectory_def)
  have "pl_dirs (syncDirectory d pl) d' \<noteq> []" if "pl_dirs pl d' \<noteq> []" for d' using that by (simp add: syncDirectory_def)
  moreover have "(\<exists>p. placed t (Old t) (New t) p ns) \<and> no_sidecars t ns"
    if "t \<in> set (lg_targets r)" "ns \<in> set (pl_dirs (syncDirectory d pl) (dirname (tg_live t)))" for t ns
    using ok that sync_member [of pl "dirname (tg_live t)"] by (auto simp: safe_plant_def)
  ultimately show ?thesis using ok unfolding safe_plant_def ledger by blast
qed

lemma safe_rename:
  assumes plan: "plan_ok r Old New db" and t: "t \<in> set (lg_targets r)" and p: "p \<noteq> Pending"
  shows "holds False (\<lambda>pl. safe_plant r Old New pl \<and> seen Old New pl t (position_before p))
    (jcall F (os_rename (rename_from p t) (rename_to p t))) (\<lambda>_. safe_plant r Old New) (safe_plant r Old New)"
proof (rule holds_call)
  fix pl pl' v
  assume pre: "safe_plant r Old New pl \<and> seen Old New pl t (position_before p)"
    and run: "os_rename (rename_from p t) (rename_to p t) pl = Inr (pl', v)"
  let ?d = "dirname (tg_live t)" and ?a = "rename_from p t" and ?b = "rename_to p t"
  let ?ns = "touches ?a ?b (now_in pl ?d)"
  have pl': "pl' = push ?d ?ns pl" using run renamed [OF plan t p pre [THEN conjunct2]] by simp
  have new: "(\<exists>q. placed u (Old u) (New u) q ?ns) \<and> no_sidecars u ?ns" if u: "u \<in> set (lg_targets r)" "dirname (tg_live u) = ?d" for u
  proof -
    obtain q where q: "placed u (Old u) (New u) q (now_in pl ?d)" using safe_now(1) [of r Old New pl u] pre u by (auto simp: seen_def)
    show ?thesis using touched_placed [OF plan t p u(1) _ q] pre safe_now(2) [of r Old New pl u] u by (auto simp: seen_def)
  qed
  show "safe_plant r Old New pl' \<and> safe_plant r Old New pl'" using pre new by (auto simp: pl' safe_plant_def push_def)
qed auto

text \<open>One run keeps it, whatever strikes.\<close>

lemma safe_positions_now:
  assumes "plan_ok r Old New db"
  shows "holds False (safe_plant r Old New) (positions_now F ck db) (\<lambda>ps pl. safe_plant r Old New pl \<and> known r Old New ps pl) (safe_plant r Old New)"
  unfolding positions_now_def
proof (rule holds_bind)
  show "holds False (safe_plant r Old New) (jlook F (inspectLiveReplacementLedger ck db))
      (\<lambda>x pl. safe_plant r Old New pl \<and> known r Old New (snd x) pl) (safe_plant r Old New)"
    by (rule holds_look) (use safe_inspected [OF assms] in \<open>auto simp: split_paired_all\<close>)
  show "holds False (\<lambda>pl. safe_plant r Old New pl \<and> known r Old New (snd v) pl) (case v of (r, ps) \<Rightarrow> jreturn ps)
      (\<lambda>ps pl. safe_plant r Old New pl \<and> known r Old New ps pl) (safe_plant r Old New)" for v
    by (cases v) (auto intro!: holds_return)
qed

lemma safe_move:
  assumes plan: "plan_ok r Old New db" and i: "i < length (lg_targets r)" "t = lg_targets r ! i" and p: "p \<noteq> Pending"
  shows "holds False (\<lambda>pl. safe_plant r Old New pl \<and> known r Old New ps pl \<and> ps ! i = position_before p)
    (move_and_check F ck db t i (rename_from p t) (rename_to p t) p)
    (\<lambda>ps pl. safe_plant r Old New pl \<and> known r Old New ps pl) (safe_plant r Old New)"
  unfolding move_and_check_def
proof (rule holds_bind)
  have t: "t \<in> set (lg_targets r)" using i by simp
  show "holds False (\<lambda>pl. safe_plant r Old New pl \<and> known r Old New ps pl \<and> ps ! i = position_before p)
      (jcall F (os_rename (rename_from p t) (rename_to p t))) (\<lambda>_. safe_plant r Old New) (safe_plant r Old New)"
    by (rule holds_weaken [OF safe_rename [OF plan t p]]) (use known_at [of r Old New ps _ i] i in auto)
  show "holds False (safe_plant r Old New) (jbind (jdo F (syncDirectory (dirname (tg_live t)))) (\<lambda>_. jbind (positions_now F ck db) (\<lambda>ps.
      if ps ! i \<noteq> p then jraise ''placement is uncertain'' else jreturn ps)))
      (\<lambda>ps pl. safe_plant r Old New pl \<and> known r Old New ps pl) (safe_plant r Old New)"
  proof (rule holds_bind [OF holds_do [where Q = "\<lambda>_. safe_plant r Old New"] holds_bind [OF safe_positions_now [OF plan] holds_if]])
    show "holds False (\<lambda>pl. safe_plant r Old New pl \<and> known r Old New ps' pl) (jraise ''placement is uncertain'')
        (\<lambda>ps pl. safe_plant r Old New pl \<and> known r Old New ps pl) (safe_plant r Old New)" for ps' by (rule holds_raise) auto
    show "holds False (\<lambda>pl. safe_plant r Old New pl \<and> known r Old New ps' pl) (jreturn ps')
        (\<lambda>ps pl. safe_plant r Old New pl \<and> known r Old New ps pl) (safe_plant r Old New)" for ps' by (rule holds_return) auto
  qed (auto intro: safe_sync)
qed

lemma safe_preserve: "holds False (safe_plant r Old New) (syncPreservedState F t) (\<lambda>_. safe_plant r Old New) (safe_plant r Old New)"
proof -
  let ?I = "safe_plant r Old New"
  have noop: "holds False ?I (jdo F (\<lambda>pl. pl)) (\<lambda>_. ?I) ?I" by (rule holds_noop) auto
  have walk: "holds False ?I (sync_children F cs) (\<lambda>_. ?I) ?I" for cs by (rule sync_children_holds) auto
  have look: "holds False ?I (jlook F (readdir (tg_live t))) (\<lambda>_. ?I) ?I" by (rule holds_look) auto
  show ?thesis unfolding syncPreservedState_def
    using noop holds_bind [OF look holds_bind [OF walk noop]] by (simp split: kind.split)
qed

lemma safe_replace_one:
  assumes plan: "plan_ok r Old New db" and i: "i < length (lg_targets r)" "t = lg_targets r ! i"
  shows "holds False (\<lambda>pl. safe_plant r Old New pl \<and> known r Old New ps0 pl) (replace_one F ck db t i ps0)
    (\<lambda>ps pl. safe_plant r Old New pl \<and> known r Old New ps pl) (safe_plant r Old New)"
    (is "holds _ (?K ps0) _ ?K ?I")
proof -
  have same: "holds False (?K ps) (jreturn ps) ?K ?I" for ps by (rule holds_return) auto
  have no: "holds False (?K ps) (jraise e) ?K ?I" for ps e by (rule holds_raise) auto
  have sync: "holds False (?K ps) (jdo F (syncDirectory (dirname (tg_live t)))) (\<lambda>_. ?I) ?I" for ps
    by (rule holds_do) (auto intro: safe_sync)
  have see: "holds False (?K ps0) (if ps0 ! i \<noteq> Pending
      then jbind (jdo F (syncDirectory (dirname (tg_live t)))) (\<lambda>_. positions_now F ck db) else jreturn ps0) ?K ?I"
    by (rule holds_if [OF holds_bind [OF sync safe_positions_now [OF plan]] same])
  have move: "holds False (?K ps) (move_and_check F ck db t i (rename_from p t) (rename_to p t) p) ?K ?I"
    if "ps ! i = position_before p" "p \<noteq> Pending" for ps p
    by (rule holds_weaken [OF safe_move [OF plan i that(2), of ps]]) (use that in auto)
  have park: "holds False (?K ps1) (jbind (syncPreservedState F t) (\<lambda>_. jbind (positions_now F ck db) (\<lambda>ps2.
      if ps2 ! i \<noteq> Pending then jraise ''Old state changed before parking''
      else move_and_check F ck db t i (tg_live t) (tg_parked t) ParkedOld))) ?K ?I" for ps1
  proof (rule holds_bind [OF holds_weaken [OF safe_preserve] holds_bind [OF safe_positions_now [OF plan] holds_if [OF no]]])
    show "holds False (?K ps2) (move_and_check F ck db t i (tg_live t) (tg_parked t) ParkedOld) ?K ?I" if "\<not> ps2 ! i \<noteq> Pending" for ps2
      using move [of ps2 ParkedOld] that by simp
  qed auto
  have install: "holds False (?K ps3) (if ps3 ! i = ParkedOld then move_and_check F ck db t i (tg_copy t) (tg_live t) Installed else jreturn ps3) ?K ?I" for ps3
    using move [of ps3 Installed] same by simp
  show ?thesis unfolding replace_one_def
    by (rule holds_bind [OF see holds_bind [OF holds_if [OF park same] holds_bind [OF install holds_if [OF no same]]]])
qed

lemma safe_replace_from:
  assumes plan: "plan_ok r Old New db"
  shows "ts @ us = lg_targets r \<Longrightarrow>
    holds False (\<lambda>pl. safe_plant r Old New pl \<and> known r Old New ps pl) (replace_from F ck db (length ts) us ps)
      (\<lambda>ps pl. safe_plant r Old New pl \<and> known r Old New ps pl) (safe_plant r Old New)"
proof (induction us arbitrary: ts ps)
  case Nil
  then show ?case by (auto intro!: holds_return)
next
  case (Cons t us)
  have i: "length ts < length (lg_targets r)" "t = lg_targets r ! length ts" using Cons.prems [symmetric] by auto
  have "holds False (\<lambda>pl. safe_plant r Old New pl \<and> known r Old New ps' pl) (replace_from F ck db (length ts + 1) us ps')
      (\<lambda>ps pl. safe_plant r Old New pl \<and> known r Old New ps pl) (safe_plant r Old New)" for ps'
    using Cons.IH [of "ts @ [t]" ps'] Cons.prems by simp
  then show ?case unfolding replace_from.simps by (rule holds_bind [OF safe_replace_one [OF plan i]])
qed

lemma safe_changePhase:
  "holds False (safe_plant r Old New) (changePhase F ck (r\<lparr>lg_phase := a\<rparr>) b)
    (\<lambda>v pl. v = r\<lparr>lg_phase := b\<rparr> \<and> safe_plant r Old New pl) (safe_plant r Old New)"
  (is "holds _ ?I _ ?Q _")
proof -
  let ?N = "r\<lparr>lg_phase := b\<rparr>"
  have rename: "holds False (\<lambda>pl. v = ?N \<and> ?I pl) (jdo F (push_ledger (Ledger v))) (\<lambda>_ pl. v = ?N \<and> ?I pl) ?I" for v
    by (rule holds_do) (use safe_push_ledger [of r Old New _ b] in \<open>auto simp: in_phase_def\<close>)
  have sync: "holds False (\<lambda>pl. v = ?N \<and> ?I pl) (jdo F sync_ledger) (\<lambda>_ pl. v = ?N \<and> ?I pl) ?I" for v
    by (rule holds_do) (auto intro: safe_sync_ledger)
  have last: "holds False (\<lambda>pl. v = ?N \<and> ?I pl) (jreturn v) ?Q ?I" for v by (rule holds_return) auto
  show ?thesis unfolding changePhase_def
    by (rule holds_bind [OF holds_look [where Q = "\<lambda>v pl. v = ?N \<and> ?I pl"]
        holds_bind [OF holds_noop holds_bind [OF rename holds_bind [OF sync last]]]])
      (auto split: sum.splits if_splits)
qed

lemma safe_start:
  assumes "plan_ok r Old New db"
  shows "holds False (\<lambda>pl. safe_plant r Old New pl \<and> known r Old New ps pl) (start_replacing F ck db (r\<lparr>lg_phase := ph\<rparr>) ps)
    (\<lambda>v pl. (\<exists>ph. fst v = r\<lparr>lg_phase := ph\<rparr>) \<and> safe_plant r Old New pl \<and> known r Old New (snd v) pl) (safe_plant r Old New)"
  (is "holds _ ?P _ ?Q ?I")
proof -
  have look: "holds False ?P (jlook F f) (\<lambda>_. ?I) ?I" for f :: "plant \<Rightarrow> string + unit" by (rule holds_look) auto
  have see: "holds False (\<lambda>pl. v = r\<lparr>lg_phase := Replacing\<rparr> \<and> ?I pl) (positions_now F ck db)
      (\<lambda>ps pl. v = r\<lparr>lg_phase := Replacing\<rparr> \<and> ?I pl \<and> known r Old New ps pl) ?I" for v
    using safe_positions_now [OF assms, of F ck] by (auto simp: holds_def)
  have ret: "holds False (\<lambda>pl. v = r\<lparr>lg_phase := Replacing\<rparr> \<and> ?I pl \<and> known r Old New ps' pl) (jreturn (v, ps')) ?Q ?I" for v ps'
    by (rule holds_return) auto
  have same: "holds False ?P (jreturn (r\<lparr>lg_phase := ph\<rparr>, ps)) ?Q ?I" by (rule holds_return) auto
  show ?thesis unfolding start_replacing_def
    by (rule holds_if [OF holds_bind [OF look holds_bind [OF safe_changePhase holds_bind [OF see ret]]] same])
qed

lemma safe_replace:
  assumes plan: "plan_ok r Old New db"
  shows "holds False (safe_plant r Old New) (replaceLiveStateFromLedger F ck db) (\<lambda>_. safe_plant r Old New) (safe_plant r Old New)"
  (is "holds _ ?I _ _ _")
proof -
  let ?K = "\<lambda>v pl. (\<exists>ph. fst v = r\<lparr>lg_phase := ph\<rparr>) \<and> ?I pl \<and> known r Old New (snd v) pl"
  have inspect: "holds False ?I (jlook F (inspectLiveReplacementLedger ck db)) ?K ?I"
    by (rule holds_look) (use safe_inspected [OF plan] in \<open>auto simp: split_paired_all\<close>)
  have last: "holds False ?I (jlook F (inspectLiveReplacementLedger ck db)) (\<lambda>_. ?I) ?I" by (rule holds_look) auto
  have rest: "holds False (?K v) (case v of (r1, ps1) \<Rightarrow> jbind (replace_from F ck db 0 (lg_targets r1) ps1) (\<lambda>ps2.
      if list_ex (\<lambda>p. p \<noteq> Installed) ps2 then jraise ''Live replacement is incomplete''
      else jbind (changePhase F ck r1 Replaced) (\<lambda>_. jlook F (inspectLiveReplacementLedger ck db)))) (\<lambda>_. ?I) ?I" for v
  proof (cases "\<exists>a. fst v = r\<lparr>lg_phase := a\<rparr>")
    case True
    then obtain a ps1 where v: "v = (r\<lparr>lg_phase := a\<rparr>, ps1)" by (cases v) auto
    have loop: "holds False (?K v) (replace_from F ck db 0 (lg_targets r) ps1) (\<lambda>ps. ?I) ?I"
      by (rule holds_weaken [OF safe_replace_from [OF plan, of "[]" "lg_targets r", simplified]]) (auto simp: v)
    have no: "holds False ?I (jraise e) (\<lambda>_. ?I) ?I" for e by (rule holds_raise) auto
    have mark: "holds False ?I (changePhase F ck (r\<lparr>lg_phase := a\<rparr>) Replaced) (\<lambda>_. ?I) ?I"
      by (rule holds_weaken [OF safe_changePhase]) auto
    have T: "lg_targets (r\<lparr>lg_phase := a\<rparr>) = lg_targets r" by simp
    show ?thesis unfolding v prod.case T
      by (rule holds_bind [OF loop [unfolded v] holds_if [OF no holds_bind [OF mark last]]])
  next
    case False
    then have "?K v = (\<lambda>pl. False)" by (auto simp: fun_eq_iff)
    then show ?thesis using holds_false [of False] by simp
  qed
  have go: "holds False (?K v) (case v of (r', ps) \<Rightarrow> if lg_phase r' = Replaced then jreturn (r', ps)
      else jbind (start_replacing F ck db r' ps) (\<lambda>(r1, ps1). jbind (replace_from F ck db 0 (lg_targets r1) ps1) (\<lambda>ps2.
        if list_ex (\<lambda>p. p \<noteq> Installed) ps2 then jraise ''Live replacement is incomplete''
        else jbind (changePhase F ck r1 Replaced) (\<lambda>_. jlook F (inspectLiveReplacementLedger ck db))))) (\<lambda>_. ?I) ?I" for v
  proof (cases "\<exists>a. fst v = r\<lparr>lg_phase := a\<rparr>")
    case True
    then obtain a ps where v: "v = (r\<lparr>lg_phase := a\<rparr>, ps)" by (cases v) auto
    have "holds False (?K v) (start_replacing F ck db (r\<lparr>lg_phase := a\<rparr>) ps) ?K ?I"
      by (rule holds_weaken [OF safe_start [OF plan, of ps F ck a]]) (auto simp: v)
    moreover have "holds False (?K v) (jreturn (r\<lparr>lg_phase := a\<rparr>, ps)) (\<lambda>_. ?I) ?I" by (rule holds_return) auto
    ultimately show ?thesis unfolding v prod.case by (intro holds_if holds_bind [OF _ rest])
  next
    case False
    then have "?K v = (\<lambda>pl. False)" by (auto simp: fun_eq_iff)
    then show ?thesis using holds_false [of False] by simp
  qed
  show ?thesis unfolding replaceLiveStateFromLedger_def by (rule holds_bind [OF inspect go])
qed

section \<open>Pauses\<close>

lemma paused_dirs: "pl_dirs pl d \<noteq> [] \<Longrightarrow> pl_dirs (after_pause p pl) d \<noteq> [] \<and> set (pl_dirs (after_pause p pl) d) \<subseteq> set (pl_dirs pl d)"
proof (cases p)
  case (PowerFailure pick k)
  assume ne: "pl_dirs pl d \<noteq> []"
  then have "pick d mod length (pl_dirs pl d) < length (pl_dirs pl d)" by simp
  then show ?thesis using ne by (simp add: PowerFailure settle_def)
qed simp

lemma paused_ledger: "pl_ledger pl \<noteq> [] \<Longrightarrow> pl_ledger (after_pause p pl) \<noteq> [] \<and> set (pl_ledger (after_pause p pl)) \<subseteq> set (pl_ledger pl)"
proof (cases p)
  case (PowerFailure pick k)
  assume ne: "pl_ledger pl \<noteq> []"
  then have "k mod length (pl_ledger pl) < length (pl_ledger pl)" by simp
  then show ?thesis using ne by (simp add: PowerFailure settle_def)
qed simp

lemma safe_after_pause:
  assumes ok: "safe_plant r Old New pl"
  shows "safe_plant r Old New (after_pause p pl)"
  unfolding safe_plant_def
proof (intro conjI ballI)
  have dirs: "pl_dirs pl (dirname (tg_live t)) \<noteq> []" if "t \<in> set (lg_targets r)" for t using ok that by (simp add: safe_plant_def)
  fix t assume t: "t \<in> set (lg_targets r)"
  show "pl_dirs (after_pause p pl) (dirname (tg_live t)) \<noteq> []" using paused_dirs [OF dirs [OF t]] by simp
  fix ns assume "ns \<in> set (pl_dirs (after_pause p pl) (dirname (tg_live t)))"
  then have "ns \<in> set (pl_dirs pl (dirname (tg_live t)))" using paused_dirs [OF dirs [OF t]] by blast
  then show "\<exists>p. placed t (Old t) (New t) p ns" "no_sidecars t ns" using ok t unfolding safe_plant_def by blast+
qed (use ok paused_ledger [of pl p] in \<open>auto simp: safe_plant_def\<close>)

lemma safe_interrupted:
  "plan_ok r Old New db \<Longrightarrow> safe_plant r Old New pl \<Longrightarrow> safe_plant r Old New (interrupted db runs pl)"
proof (induction db runs pl rule: interrupted.induct)
  case (2 db F ck p rest pl)
  have "safe_plant r Old New (fst (jrun (replaceLiveStateFromLedger F ck db) pl))"
    using holds_run [OF safe_replace [OF "2.prems"(1), of F ck] "2.prems"(2)] by blast
  then show ?case using "2.IH" "2.prems"(1) safe_after_pause by simp
qed simp

section \<open>A run does not see what is unsynced\<close>

text \<open>
  A run reads the present ledger only: whatever older ledgers a power failure might bring back, it ends the same
  and leaves the same directories and the same present ledger.
\<close>

definition same_now :: "plant run \<Rightarrow> plant run \<Rightarrow> bool" where
  "same_now s s' \<longleftrightarrow> rn_calls s = rn_calls s' \<and> sync_ledger (rn_world s) = sync_ledger (rn_world s')"

definition blind :: "(plant, 'a) job \<Rightarrow> bool" where
  "blind m \<longleftrightarrow> (\<forall>s s'. same_now s s' \<longrightarrow> snd (m s) = snd (m s') \<and> same_now (fst (m s)) (fst (m s')))"

lemma same_seen: "sync_ledger pl = sync_ledger pl' \<Longrightarrow> pl_dirs pl = pl_dirs pl' \<and> current_ledger pl = current_ledger pl'"
  by (cases pl; cases pl') (auto simp: sync_ledger_def)

lemma sync_ledger_dirs: "pl_dirs (sync_ledger pl) = pl_dirs pl" and sync_ledger_now: "current_ledger (sync_ledger pl) = current_ledger pl"
  by (simp_all add: sync_ledger_def current_ledger_def)

lemma blind_return: "blind (jreturn v)" and blind_raise: "blind (jraise e)"
  by (auto simp: blind_def jreturn_def jraise_def)

lemma blind_bind: "blind m \<Longrightarrow> (\<And>v. blind (k v)) \<Longrightarrow> blind (jbind m k)"
  unfolding blind_def
proof (intro allI impI)
  fix s s'
  assume m: "\<forall>s s'. same_now s s' \<longrightarrow> snd (m s) = snd (m s') \<and> same_now (fst (m s)) (fst (m s'))"
    and k: "\<And>v. \<forall>s s'. same_now s s' \<longrightarrow> snd (k v s) = snd (k v s') \<and> same_now (fst (k v s)) (fst (k v s'))" and s: "same_now s s'"
  obtain s1 x where 1: "m s = (s1, x)" by fastforce
  obtain s2 y where 2: "m s' = (s2, y)" by fastforce
  have xy: "y = x" "same_now s1 s2" using m s 1 2 by (metis fst_conv snd_conv)+
  show "snd (jbind m k s) = snd (jbind m k s') \<and> same_now (fst (jbind m k s)) (fst (jbind m k s'))"
    using k xy by (cases x) (auto simp: jbind_def 1 2)
qed

lemma blind_if: "blind m \<Longrightarrow> blind m' \<Longrightarrow> blind (if b then m else m')"
  by simp

lemma blind_call:
  assumes "\<And>w w'. sync_ledger w = sync_ledger w' \<Longrightarrow> (case (f w, f w') of
      (Inl e, Inl e') \<Rightarrow> e = e' | (Inr (v, x), Inr (v', x')) \<Rightarrow> sync_ledger v = sync_ledger v' \<and> x = x' | _ \<Rightarrow> False)"
  shows "blind (jcall F f)"
  unfolding blind_def
proof (intro allI impI)
  fix s s' :: "plant run" assume same: "same_now s s'"
  then have n: "rn_calls s' = rn_calls s" and w: "sync_ledger (rn_world s) = sync_ledger (rn_world s')" by (simp_all add: same_now_def)
  show "snd (jcall F f s) = snd (jcall F f s') \<and> same_now (fst (jcall F f s)) (fst (jcall F f s'))"
  proof (cases "F (rn_calls s)")
    case NoFault
    show ?thesis using assms [OF w] unfolding jcall_def Let_def n NoFault
      by (cases "f (rn_world s)"; cases "f (rn_world s')") (auto simp: same_now_def n w split: prod.splits)
  qed (simp_all add: jcall_def n w same_now_def)
qed

lemma blind_do:
  assumes "\<And>w. sync_ledger (f (sync_ledger w)) = sync_ledger (f w)"
  shows "blind (jdo F f)"
  unfolding jdo_def
proof (rule blind_call)
  fix w w' :: plant assume "sync_ledger w = sync_ledger w'"
  then have "sync_ledger (f w) = sync_ledger (f w')" using assms [of w] assms [of w'] by metis
  then show "case (Inr (f w, ()), Inr (f w', ())) of (Inl e, Inl e') \<Rightarrow> e = e'
      | (Inr (v, x), Inr (v', x')) \<Rightarrow> sync_ledger v = sync_ledger v' \<and> x = x' | _ \<Rightarrow> False" by simp
qed

lemma blind_look:
  assumes "\<And>w. f (sync_ledger w) = f w"
  shows "blind (jlook F f)"
  unfolding jlook_def
proof (rule blind_call)
  fix w w' assume w: "sync_ledger w = sync_ledger w'"
  then have f: "f w = f w'" using assms [of w] assms [of w'] by metis
  show "case (case f w of Inl e \<Rightarrow> Inl e | Inr v \<Rightarrow> Inr (w, v), case f w' of Inl e \<Rightarrow> Inl e | Inr v \<Rightarrow> Inr (w', v)) of (Inl e, Inl e') \<Rightarrow> e = e'
      | (Inr (v, x), Inr (v', x')) \<Rightarrow> sync_ledger v = sync_ledger v' \<and> x = x' | _ \<Rightarrow> False"
    unfolding f using w by (cases "f w'") simp_all
qed

lemma sync_ledger_lookup: "lookup (sync_ledger pl) p = lookup pl p" and sync_ledger_now_in: "now_in (sync_ledger pl) d = now_in pl d"
  by (simp_all add: lookup_def now_in_def sync_ledger_dirs)

lemma sync_ledger_push: "sync_ledger (push d ns pl) = push d ns (sync_ledger pl)"
  by (simp add: push_def sync_ledger_def current_ledger_def)

lemma blind_rename: "blind (jcall F (os_rename a b))"
proof (rule blind_call)
  fix w w' :: plant assume w: "sync_ledger w = sync_ledger w'"
  have look: "lookup w p = lookup w' p" "now_in w d = now_in w' d" for p d
    using w sync_ledger_lookup sync_ledger_now_in by metis+
  have now: "now_in (push d ns w) d' = now_in (push d ns w') d'" for d d' ns
    using w by (metis sync_ledger_now_in sync_ledger_push)
  show "case (os_rename a b w, os_rename a b w') of (Inl e, Inl e') \<Rightarrow> e = e'
      | (Inr (v, x), Inr (v', x')) \<Rightarrow> sync_ledger v = sync_ledger v' \<and> x = x' | _ \<Rightarrow> False"
    by (cases "lookup w' a") (simp_all add: os_rename_def look now sync_ledger_push w Let_def)
qed

lemma identity_blind: "identity (sync_ledger pl) p k = identity pl p k"
  unfolding identity_def sync_ledger_lookup by (rule refl)

lemma position_blind: "targetPosition ck (sync_ledger pl) t = targetPosition ck pl t"
  unfolding targetPosition_def identity_blind sync_ledger_lookup by (rule refl)

lemma positions_blind: "positions_of ck (sync_ledger pl) ts = positions_of ck pl ts"
  by (induction ts) (simp_all add: position_blind split: sum.split)

lemma read_blind: "readLiveReplacementLedger ck (sync_ledger pl) = readLiveReplacementLedger ck pl"
  unfolding readLiveReplacementLedger_def sync_ledger_now by (rule refl)

lemma inspect_blind: "inspectLiveReplacementLedger ck db (sync_ledger pl) = inspectLiveReplacementLedger ck db pl"
  unfolding inspectLiveReplacementLedger_def read_blind positions_blind by (rule refl)

lemma blind_inspect: "blind (jlook F (inspectLiveReplacementLedger ck db))"
  by (rule blind_look) (rule inspect_blind)

lemma blind_noop: "blind (jdo F (\<lambda>pl. pl))"
  by (rule blind_do) (simp add: sync_ledger_def current_ledger_def)

lemma blind_sync: "blind (jdo F (syncDirectory d))"
  by (rule blind_do) (simp add: sync_ledger_def current_ledger_def syncDirectory_def now_in_def)

lemma blind_push_ledger: "blind (jdo F (push_ledger f))"
  by (rule blind_do) (simp add: sync_ledger_def current_ledger_def push_ledger_def)

lemma blind_sync_ledger: "blind (jdo F sync_ledger)"
  by (rule blind_do) (simp add: sync_ledger_def current_ledger_def)

lemma blind_positions: "blind (positions_now F ck db)"
  unfolding positions_now_def by (rule blind_bind [OF blind_inspect]) (auto intro: blind_return split: prod.split)

lemma blind_children: "blind (sync_children F cs)"
proof (induction cs rule: preservable.induct)
  case (2 n u g m node rest)
  then show ?case unfolding sync_children.simps
    by (intro blind_bind) (auto intro!: blind_bind blind_noop blind_raise split: tree_node.split bool.split)
qed (simp add: blind_return)

lemma blind_preserve: "blind (syncPreservedState F t)"
proof -
  have "blind (jlook F (readdir (tg_live t)))" by (rule blind_look) (simp add: readdir_def sync_ledger_lookup)
  then show ?thesis unfolding syncPreservedState_def by (auto intro!: blind_bind blind_children blind_noop split: kind.split)
qed

lemma blind_changePhase: "blind (changePhase F ck before after)"
  unfolding changePhase_def by (intro blind_bind blind_look blind_noop blind_push_ledger blind_sync_ledger blind_return) (simp add: read_blind)

lemma blind_move: "blind (move_and_check F ck db t i a b p)"
  unfolding move_and_check_def by (intro blind_bind blind_rename blind_sync blind_positions blind_if blind_raise blind_return)

lemma blind_replace_one: "blind (replace_one F ck db t i ps)"
  unfolding replace_one_def
  by (intro blind_bind blind_if blind_sync blind_positions blind_preserve blind_move blind_raise blind_return)

lemma blind_replace_from: "blind (replace_from F ck db i ts ps)"
  by (induction ts arbitrary: i ps) (auto intro: blind_return blind_bind blind_replace_one)

lemma blind_start: "blind (start_replacing F ck db r ps)"
  unfolding start_replacing_def by (intro blind_if blind_bind blind_look blind_changePhase blind_positions blind_return) simp

lemma blind_replace: "blind (replaceLiveStateFromLedger F ck db)"
proof -
  have rest: "blind (case v of (r1, ps1) \<Rightarrow> jbind (replace_from F ck db 0 (lg_targets r1) ps1) (\<lambda>ps2.
      if list_ex (\<lambda>p. p \<noteq> Installed) ps2 then jraise ''Live replacement is incomplete''
      else jbind (changePhase F ck r1 Replaced) (\<lambda>_. jlook F (inspectLiveReplacementLedger ck db))))" for v
    by (cases v) (auto intro!: blind_bind blind_replace_from blind_raise blind_changePhase blind_inspect)
  show ?thesis unfolding replaceLiveStateFromLedger_def
    by (rule blind_bind [OF blind_inspect]) (auto intro!: blind_return blind_bind [OF blind_start rest] split: prod.split)
qed

lemma run_blind:
  assumes "blind m" "sync_ledger pl = sync_ledger pl'"
  shows "snd (jrun m pl) = snd (jrun m pl') \<and> sync_ledger (fst (jrun m pl)) = sync_ledger (fst (jrun m pl'))"
proof -
  have same: "same_now \<lparr>rn_world = pl, rn_calls = 0\<rparr> \<lparr>rn_world = pl', rn_calls = 0\<rparr>" using assms(2) by (simp add: same_now_def)
  obtain s x where 1: "m \<lparr>rn_world = pl, rn_calls = 0\<rparr> = (s, x)" by fastforce
  obtain s' x' where 2: "m \<lparr>rn_world = pl', rn_calls = 0\<rparr> = (s', x')" by fastforce
  have "snd (s, x) = snd (s', x') \<and> same_now (fst (s, x)) (fst (s', x'))"
    using assms(1) same unfolding blind_def 1 [symmetric] 2 [symmetric] by blast
  then show ?thesis by (simp add: jrun_def 1 2 same_now_def)
qed

section \<open>When a later run completes\<close>

text \<open>
  No power failure strikes while the file of the ledger is unsynced since an earlier run: the run it strikes began
  or ended with the ledger on the disk. A run that fails between its change of the phase and the sync
  of the ledger's directory is not followed by one before a run has synced that directory.
\<close>

fun ledger_kept :: "string \<Rightarrow> (faults \<times> checks \<times> pause) list \<Rightarrow> plant \<Rightarrow> bool" where
  "ledger_kept db [] pl = True"
| "ledger_kept db ((F, ck, p) # rest) pl =
     (let pl' = fst (jrun (replaceLiveStateFromLedger F ck db) pl)
      in (case p of ProcessEnd \<Rightarrow> True | PowerFailure pick k \<Rightarrow> length (pl_ledger pl) = 1 \<or> length (pl_ledger pl') = 1) \<and> ledger_kept db rest (after_pause p pl'))"

lemma whole_synced: "plant_ok r Old New pl \<Longrightarrow> whole r Old New (sync_ledger pl)"
proof -
  assume ok: "plant_ok r Old New pl"
  obtain ph where "current_ledger pl = in_phase r ph" by (rule plant_ok_ledger [OF ok])
  then show ?thesis using plant_ok_sync_ledger [OF ok] by (auto simp: whole_def sync_ledger_def)
qed

lemma single_ledger: "length (pl_ledger pl) = 1 \<Longrightarrow> sync_ledger pl = pl"
  by (cases pl) (auto simp: sync_ledger_def current_ledger_def length_Suc_conv)

lemma whole_after_failure:
  assumes ok: "plant_ok r Old New pl"
  shows "whole r Old New (after_pause (PowerFailure pick k) pl)"
proof -
  let ?pl = "after_pause (PowerFailure pick k) pl"
  have T: "pl_dirs pl (dirname (tg_live t)) \<noteq> []" if "t \<in> set (lg_targets r)" for t using ok that by (simp add: plant_ok_def)
  have every: "everywhere r Old New q (lg_targets r) ?pl" if "everywhere r Old New q (lg_targets r) pl" for q
    unfolding everywhere_def using that paused_dirs [OF T] by (fastforce simp: everywhere_def)
  have ne: "pl_ledger pl \<noteq> []" using ok by (simp add: plant_ok_def)
  note sub = paused_ledger [OF ne, of "PowerFailure pick k"]
  have "plant_ok r Old New ?pl" unfolding plant_ok_def
  proof (intro conjI ballI impI)
    fix t ns assume "t \<in> set (lg_targets r)" "ns \<in> set (pl_dirs ?pl (dirname (tg_live t)))"
    then have "t \<in> set (lg_targets r) \<and> ns \<in> set (pl_dirs pl (dirname (tg_live t)))" using paused_dirs [OF T] by blast
    then show "\<exists>p. placed t (Old t) (New t) p ns" "no_sidecars t ns" using ok unfolding plant_ok_def by blast+
  next
    show "\<exists>ph. f = in_phase r ph" if "f \<in> set (pl_ledger ?pl)" for f using ok sub that unfolding plant_ok_def by blast
    show "everywhere r Old New Pending (lg_targets r) ?pl" if "in_phase r Prepared \<in> set (pl_ledger ?pl)"
      using ok sub that by (intro every) (auto simp: plant_ok_def)
    show "everywhere r Old New Installed (lg_targets r) ?pl" if "in_phase r Replaced \<in> set (pl_ledger ?pl)"
      using ok sub that by (intro every) (auto simp: plant_ok_def)
  next
    show "pl_dirs ?pl (dirname (tg_live t)) \<noteq> []" if "t \<in> set (lg_targets r)" for t using paused_dirs [OF T [OF that]] by blast
    show "pl_ledger ?pl \<noteq> []" using sub by blast
  qed
  moreover have "\<exists>f. pl_ledger ?pl = [f]" using ne by (simp add: settle_def)
  ultimately show ?thesis by (auto simp: whole_def plant_ok_def)
qed

lemma whole_kept:
  "plan_ok r Old New db \<Longrightarrow> whole r Old New (sync_ledger pl) \<Longrightarrow> ledger_kept db runs pl \<Longrightarrow>
    whole r Old New (sync_ledger (interrupted db runs pl))"
proof (induction db runs pl rule: interrupted.induct)
  case (2 db F ck p rest pl)
  let ?m = "replaceLiveStateFromLedger F ck db"
  let ?pl = "fst (jrun ?m pl)"
  have "plant_ok r Old New (fst (jrun ?m (sync_ledger pl)))"
    using holds_run [OF replaceLiveStateFromLedger_holds [OF "2.prems"(1), of F ck] "2.prems"(2)] by blast
  note synced = whole_synced [OF this]
  have same: "sync_ledger ?pl = sync_ledger (fst (jrun ?m (sync_ledger pl)))"
    by (rule run_blind [OF blind_replace, THEN conjunct2]) (simp add: sync_ledger_def current_ledger_def)
  have "whole r Old New (sync_ledger (after_pause p ?pl))"
  proof (cases p)
    case (PowerFailure pick k)
    have "plant_ok r Old New ?pl"
    proof (cases "length (pl_ledger pl) = 1")
      case True
      then show ?thesis using \<open>plant_ok r Old New (fst (jrun ?m (sync_ledger pl)))\<close> by (simp only: single_ledger)
    next
      case False
      then have "sync_ledger ?pl = ?pl" using "2.prems"(3) PowerFailure single_ledger by (simp add: Let_def)
      then show ?thesis using synced same by (simp add: whole_def)
    qed
    then have "plant_ok r Old New (after_pause p ?pl)" using whole_after_failure PowerFailure unfolding whole_def by blast
    then show ?thesis by (rule whole_synced)
  qed (use synced same in simp)
  moreover have "ledger_kept db rest (after_pause p ?pl)" using "2.prems"(3) by (simp only: ledger_kept.simps Let_def)
  ultimately show ?case using "2.IH" "2.prems"(1) by simp
qed simp

text \<open>The plant when the ledger has just been prepared.\<close>

definition prepared :: "ledger \<Rightarrow> (target \<Rightarrow> entry) \<Rightarrow> (target \<Rightarrow> entry) \<Rightarrow> plant \<Rightarrow> bool" where
  "prepared r Old New pl \<longleftrightarrow> pl_ledger pl = [in_phase r Prepared] \<and> everywhere r Old New Pending (lg_targets r) pl \<and>
     (\<forall>t \<in> set (lg_targets r). pl_dirs pl (dirname (tg_live t)) \<noteq> [] \<and> (\<forall>ns \<in> set (pl_dirs pl (dirname (tg_live t))). no_sidecars t ns))"

lemma prepared_whole: "prepared r Old New pl \<Longrightarrow> whole r Old New pl"
proof -
  assume p: "prepared r Old New pl"
  then have "\<exists>q. placed t (Old t) (New t) q ns" if "t \<in> set (lg_targets r)" "ns \<in> set (pl_dirs pl (dirname (tg_live t)))" for t ns
    using that unfolding prepared_def everywhere_def by blast
  then show ?thesis using p by (auto simp: whole_def plant_ok_def prepared_def in_phase_eq)
qed

lemma whole_safe: "whole r Old New pl \<Longrightarrow> safe_plant r Old New pl"
  by (auto simp: whole_def plant_ok_def safe_plant_def)

text \<open>
  C32. From a prepared ledger, after any sequence of runs that fail at any call, die at any call or end
  in a power failure, every target has its old and its new version in exactly one of the three
  recognised positions, in every state the disk may be in. If no power failure struck while the file of the ledger
  was unsynced since an earlier run, a run that no failure strikes then ends with every copy installed, every old version
  parked, durably, and the ledger replaced; durably too when the run found the ledger synced.
\<close>

theorem replacement_resumes:
  assumes "plan_ok r Old New db" "prepared r Old New pl0"
  shows "(\<forall>t \<in> set (lg_targets r). \<forall>ns \<in> set (pl_dirs (interrupted db runs pl0) (dirname (tg_live t))). \<exists>p. placed t (Old t) (New t) p ns) \<and>
    (ledger_kept db runs pl0 \<longrightarrow> calm F \<longrightarrow> checks_ok ck r New \<longrightarrow>
      (\<exists>pl ps. jrun (replaceLiveStateFromLedger F ck db) (interrupted db runs pl0) = (pl, Done (r\<lparr>lg_phase := Replaced\<rparr>, ps)) \<and>
         current_ledger pl = in_phase r Replaced \<and>
         (length (pl_ledger (interrupted db runs pl0)) = 1 \<longrightarrow> pl_ledger pl = [in_phase r Replaced]) \<and>
         (\<forall>t \<in> set (lg_targets r). \<forall>ns \<in> set (pl_dirs pl (dirname (tg_live t))). placed t (Old t) (New t) Installed ns)))"
proof (intro conjI impI)
  let ?pl = "interrupted db runs pl0" and ?m = "replaceLiveStateFromLedger F ck db"
  note start = prepared_whole [OF assms(2)]
  show "\<forall>t \<in> set (lg_targets r). \<forall>ns \<in> set (pl_dirs ?pl (dirname (tg_live t))). \<exists>p. placed t (Old t) (New t) p ns"
    using safe_interrupted [OF assms(1) whole_safe [OF start]] by (simp add: safe_plant_def)
  assume kept: "ledger_kept db runs pl0" and F: "calm F" and ck: "checks_ok ck r New"
  have w: "whole r Old New (sync_ledger ?pl)"
    by (rule whole_kept [OF assms(1) whole_synced kept]) (use start in \<open>simp add: whole_def\<close>)
  obtain pl x where run: "jrun ?m ?pl = (pl, x)" by fastforce
  obtain pl1 y where run1: "jrun ?m (sync_ledger ?pl) = (pl1, y)" by fastforce
  obtain v where v: "y = Done v" "complete r Old New v pl1"
    using holds_run [OF replaceLiveStateFromLedger_holds [OF assms(1), of F ck] w] F ck run1 by auto
  have same: "x = y" "sync_ledger pl = sync_ledger pl1"
    using run_blind [OF blind_replace [of F ck db], of ?pl "sync_ledger ?pl"] run run1
    by (simp_all add: sync_ledger_def current_ledger_def)
  have "in_phase r Replaced \<in> set (pl_ledger pl1)" using v(2) by (simp add: complete_def)
  then have "everywhere r Old New Installed (lg_targets r) pl1" using v(2) by (auto simp: complete_def plant_ok_def)
  then have all: "\<forall>t \<in> set (lg_targets r). \<forall>ns \<in> set (pl_dirs pl (dirname (tg_live t))). placed t (Old t) (New t) Installed ns"
    using same_seen [OF same(2)] by (simp add: everywhere_def)
  have ledger: "current_ledger pl = in_phase r Replaced"
    using same_seen [OF same(2)] v(2) by (simp add: complete_def current_ledger_def)
  have "length (pl_ledger ?pl) = 1 \<longrightarrow> pl_ledger pl = [in_phase r Replaced]"
    using single_ledger [of ?pl] run run1 v(2) by (auto simp: complete_def)
  moreover have "\<exists>ps. v = (r\<lparr>lg_phase := Replaced\<rparr>, ps)" using v(2) by (cases v) (auto simp: complete_def)
  ultimately show "\<exists>pl ps. jrun ?m ?pl = (pl, Done (r\<lparr>lg_phase := Replaced\<rparr>, ps)) \<and> current_ledger pl = in_phase r Replaced \<and>
      (length (pl_ledger ?pl) = 1 \<longrightarrow> pl_ledger pl = [in_phase r Replaced]) \<and>
      (\<forall>t \<in> set (lg_targets r). \<forall>ns \<in> set (pl_dirs pl (dirname (tg_live t))). placed t (Old t) (New t) Installed ns)"
    using run v(1) same(1) all ledger by auto
qed

text \<open>A configuration directory and a database, in two directories, with every fault at first.\<close>

definition wit_config :: target where
  "wit_config = \<lparr>tg_name = ''config'', tg_kind = Config, tg_live = ''/etc/conf'', tg_copy = ''/etc/conf.copy'', tg_parked = ''/etc/conf.old'',
     tg_oldDev = 1, tg_oldIno = 10, tg_newDev = 1, tg_newIno = 11, tg_newUid = 0, tg_newGid = 0, tg_newMode = 448, tg_newDigest = replicate 64 CHR ''a''\<rparr>"

definition wit_database :: target where
  "wit_database = \<lparr>tg_name = ''state'', tg_kind = Database, tg_live = ''/var/s.db'', tg_copy = ''/var/s.copy'', tg_parked = ''/var/s.old'',
     tg_oldDev = 2, tg_oldIno = 20, tg_newDev = 2, tg_newIno = 21, tg_newUid = 7, tg_newGid = 7, tg_newMode = 384, tg_newDigest = replicate 64 CHR ''b''\<rparr>"

definition wit_ledger :: ledger where
  "wit_ledger = \<lparr>lg_phase = Prepared, lg_migration = replicate 36 CHR ''0'', lg_copyRecord = ''/root/copies'', lg_copySha = replicate 64 CHR ''c'',
     lg_targets = [wit_config, wit_database]\<rparr>"

definition wit_old :: "target \<Rightarrow> entry" where
  "wit_old t = \<lparr>en_node = (if tg_kind t = Config then TreeDir (Child ''a.json'' 0 0 384 (TreeFile True ''old'') NoChild) else TreeFile True ''old''), en_real = True, en_dev = tg_oldDev t, en_ino = tg_oldIno t,
     en_uid = 0, en_gid = 0, en_mode = 0\<rparr>"

definition wit_new :: "target \<Rightarrow> entry" where
  "wit_new t = \<lparr>en_node = (if tg_kind t = Config then TreeDir NoChild else TreeFile True ''new''), en_real = True, en_dev = tg_newDev t, en_ino = tg_newIno t,
     en_uid = tg_newUid t, en_gid = tg_newGid t, en_mode = tg_newMode t\<rparr>"

definition wit_plant :: plant where
  "wit_plant = \<lparr>pl_dirs = (\<lambda>d. [if d = ''/etc'' then [''/etc/conf'' \<mapsto> wit_old wit_config, ''/etc/conf.copy'' \<mapsto> wit_new wit_config]
        else [''/var/s.db'' \<mapsto> wit_old wit_database, ''/var/s.copy'' \<mapsto> wit_new wit_database]]),
     pl_ledger = [in_phase wit_ledger Prepared]\<rparr>"

definition wit_checks :: checks where
  "wit_checks = \<lparr>ck_trusted = (\<lambda>p. True), ck_ledgerTrusted = True,
     ck_copies = (\<lambda>p. Some \<lparr>cs_prepared = True, cs_migration = replicate 36 CHR ''0'', cs_configCopy = ''/etc/conf.copy'', cs_databases = []\<rparr>),
     ck_sha = (\<lambda>p. replicate 64 CHR ''c''), ck_boundary = (\<lambda>p. Some (replicate 36 CHR ''0'')), ck_copiesVerified = True, ck_view = None,
     ck_json = (\<lambda>prefix what u g m. what), ck_sha256 = (\<lambda>tx. replicate 64 (if tx = ''directory'' then CHR ''a'' else CHR ''b''))\<rparr>"

lemma wit_plan_ok: "plan_ok wit_ledger wit_old wit_new ''/var/s.db''"
  by code_simp

lemma wit_prepared: "prepared wit_ledger wit_old wit_new wit_plant"
  by code_simp

lemma wit_checks_ok: "checks_ok wit_checks wit_ledger wit_new"
  by (simp add: checks_ok_def wit_checks_def wit_ledger_def wit_config_def wit_database_def wit_new_def fingerprint_def)

text \<open>The first run dies before call number 8 and the power fails; the second gets an error.\<close>

definition wit_runs :: "(faults \<times> checks \<times> pause) list" where
  "wit_runs = [(\<lambda>n. if n = 8 then CrashNow else NoFault, wit_checks, PowerFailure (\<lambda>d. 1) 0),
     (\<lambda>n. if n = 6 then FailWith ''EIO'' else NoFault, wit_checks, ProcessEnd)]"

lemma wit_kept: "ledger_kept ''/var/s.db'' wit_runs wit_plant"
  by code_simp

theorem replacement_resumes_witness:
  "\<exists>pl ps. jrun (replaceLiveStateFromLedger (\<lambda>n. NoFault) wit_checks ''/var/s.db'') (interrupted ''/var/s.db'' wit_runs wit_plant) =
      (pl, Done (wit_ledger\<lparr>lg_phase := Replaced\<rparr>, ps)) \<and>
    current_ledger pl = in_phase wit_ledger Replaced"
  using replacement_resumes [OF wit_plan_ok wit_prepared, of wit_runs "\<lambda>n. NoFault" wit_checks] wit_checks_ok wit_kept by (auto simp: calm_def)

section \<open>A ledger whose directory is never synced again\<close>

text \<open>
  When the sync after the first change of phase fails, the next run reads the new phase and goes
  on: it syncs the directories of the targets it moves, not the one of the ledger. A power
  failure may then bring back the prepared ledger beside a parked target, and every later run is
  refused.
\<close>

definition unsynced_runs :: "(faults \<times> checks \<times> pause) list" where
  "unsynced_runs = [(\<lambda>n. if n = 5 then FailWith ''EIO'' else NoFault, wit_checks, ProcessEnd),
     (\<lambda>n. if n = 6 then CrashNow else NoFault, wit_checks, PowerFailure (\<lambda>d. 0) 1)]"

lemma unsynced_ledger_contradicts:
  "snd (jrun (replaceLiveStateFromLedger (\<lambda>n. NoFault) wit_checks ''/var/s.db'') (interrupted ''/var/s.db'' unsynced_runs wit_plant)) =
     Raised ''Replacement ledger phase contradicts live inode positions''"
  "\<not> ledger_kept ''/var/s.db'' unsynced_runs wit_plant"
  by code_simp+

end
