(* ===== verification/Migration.thy ===== *)
theory Migration
  imports Jobs
begin

text \<open>
  The schema migration of a database file with a backup and a marker file, as
  \<^verbatim>\<open>agent/src/state-store.js\<close> and \<^verbatim>\<open>auth/src/auth-store.js\<close> do it, over any content and schema.
  A copy is not atomic, nor is the writing of the marker; a transaction is. Committed changes may
  stand in the write-ahead log beside the main file until a checkpoint. Processes may die at any
  call; the loss of unsynced data in a power failure is not modelled.
\<close>

section \<open>The data directory\<close>

text \<open>A database file: absent, of length 0, cut off in a copy, or with a content.\<close>

datatype 'd db_file = NoDb | EmptyDb | TornDb | Db 'd

text \<open>
  The marker: absent, cut off, or with \<^verbatim>\<open>fromVersion\<close>, \<^verbatim>\<open>targetVersion\<close> and the version in the
  name of the backup, \<^term>\<open>None\<close> for a \<^verbatim>\<open>null\<close> path.
\<close>

datatype marker = NoMarker | BadMarker | Marker nat nat "nat option"

record 'd data_dir =
  dd_main :: "'d db_file"
  dd_wal :: "'d option"
  dd_backup :: "nat \<Rightarrow> 'd db_file"
  dd_marker :: marker

text \<open>A schema: the version of a content, that of a new file, and the upgrade, which draws random ids.\<close>

record ('d, 'r) schema =
  sc_version :: "'d \<Rightarrow> nat"
  sc_empty :: 'd
  sc_target :: nat
  sc_upgrade :: "'r \<Rightarrow> 'd \<Rightarrow> 'd"

section \<open>What SQLite does with the files\<close>

text \<open>The content readers see. The log of a file of length 0 is discarded.\<close>

definition committed :: "('d, 'r) schema \<Rightarrow> 'd data_dir \<Rightarrow> 'd option" where
  "committed sc d = (case dd_main d of
       TornDb \<Rightarrow> None
     | Db im \<Rightarrow> (case dd_wal d of None \<Rightarrow> Some im | Some im' \<Rightarrow> Some im')
     | _ \<Rightarrow> Some (sc_empty sc))"

definition open_db :: "'d data_dir \<Rightarrow> 'd data_dir" where
  "open_db d = (if dd_main d = NoDb \<or> dd_main d = EmptyDb then d\<lparr>dd_main := EmptyDb, dd_wal := None\<rparr> else d)"

text \<open>Switching to the write-ahead log writes the first page of an empty file.\<close>

definition wal_mode :: "('d, 'r) schema \<Rightarrow> 'd data_dir \<Rightarrow> string + 'd data_dir \<times> unit" where
  "wal_mode sc d = (case dd_main d of
       TornDb \<Rightarrow> Inl ''SQLITE_NOTADB''
     | Db im \<Rightarrow> Inr (d, ())
     | _ \<Rightarrow> Inr (d\<lparr>dd_main := Db (sc_empty sc), dd_wal := None\<rparr>, ()))"

definition user_version :: "('d, 'r) schema \<Rightarrow> 'd data_dir \<Rightarrow> string + nat" where
  "user_version sc d = (case committed sc d of None \<Rightarrow> Inl ''SQLITE_NOTADB'' | Some im \<Rightarrow> Inr (sc_version sc im))"

text \<open>Closing the last connection moves the log into the main file.\<close>

definition checkpoint :: "'d data_dir \<Rightarrow> 'd data_dir" where
  "checkpoint d = (case (dd_main d, dd_wal d) of (Db im, Some im') \<Rightarrow> d\<lparr>dd_main := Db im', dd_wal := None\<rparr> | _ \<Rightarrow> d)"

text \<open>The transaction of the migration, from \<^verbatim>\<open>BEGIN IMMEDIATE\<close> to \<^verbatim>\<open>COMMIT\<close>.\<close>

definition upgrade_committed :: "('d, 'r) schema \<Rightarrow> 'r \<Rightarrow> 'd data_dir \<Rightarrow> 'd data_dir" where
  "upgrade_committed sc rnd d = (case committed sc d of None \<Rightarrow> d | Some im \<Rightarrow> d\<lparr>dd_wal := Some (sc_upgrade sc rnd im)\<rparr>)"

section \<open>Copies and the marker\<close>

definition stat_size :: "'d data_dir \<Rightarrow> bool" where
  "stat_size d \<longleftrightarrow> (case dd_main d of NoDb \<Rightarrow> False | EmptyDb \<Rightarrow> False | _ \<Rightarrow> True)"

definition backup_main :: "faults \<Rightarrow> nat \<Rightarrow> ('d data_dir, unit) job" where
  "backup_main F v =
     jbind (jcall F (\<lambda>d. if dd_main d = NoDb then Inl ''ENOENT'' else Inr (d\<lparr>dd_backup := (dd_backup d)(v := TornDb)\<rparr>, ()))) (\<lambda>_.
       jdo F (\<lambda>d. d\<lparr>dd_backup := (dd_backup d)(v := dd_main d)\<rparr>))"

definition restore_main :: "faults \<Rightarrow> nat \<Rightarrow> ('d data_dir, unit) job" where
  "restore_main F v =
     jbind (jcall F (\<lambda>d. if dd_backup d v = NoDb then Inl ''ENOENT'' else Inr (d\<lparr>dd_main := TornDb\<rparr>, ()))) (\<lambda>_.
       jdo F (\<lambda>d. d\<lparr>dd_main := dd_backup d v\<rparr>))"

definition write_marker :: "faults \<Rightarrow> marker \<Rightarrow> ('d data_dir, unit) job" where
  "write_marker F mk = jbind (jdo F (\<lambda>d. d\<lparr>dd_marker := BadMarker\<rparr>)) (\<lambda>_. jdo F (\<lambda>d. d\<lparr>dd_marker := mk\<rparr>))"

definition remove_marker :: "faults \<Rightarrow> ('d data_dir, unit) job" where
  "remove_marker F = jdo F (\<lambda>d. d\<lparr>dd_marker := NoMarker\<rparr>)"

text \<open>\<open>G\<close> strikes the calls whose failure the code takes for an answer: reading the marker and \<^verbatim>\<open>stat\<close>.\<close>

definition read_marker :: "faults \<Rightarrow> ('d data_dir, marker) job" where
  "read_marker G = jcatch (jlook G (\<lambda>d. Inr (dd_marker d)))
     (\<lambda>e. jreturn (if e = ''ENOENT'' then NoMarker else BadMarker))"

definition database_exists :: "faults \<Rightarrow> ('d data_dir, bool) job" where
  "database_exists G = jcatch (jlook G (\<lambda>d. Inr (stat_size d))) (\<lambda>e. jreturn False)"

text \<open>Has the migration of the marker been completed? Every error says no.\<close>

definition migration_completed :: "faults \<Rightarrow> ('d, 'r) schema \<Rightarrow> nat \<Rightarrow> ('d data_dir, bool) job" where
  "migration_completed F sc target = jcatch
     (jbind (jdo F open_db) (\<lambda>_. jbind (jlook F (user_version sc)) (\<lambda>v. jbind (jdo F checkpoint) (\<lambda>_. jreturn (v = target)))))
     (\<lambda>e. jreturn False)"

definition settle_marker :: "faults \<Rightarrow> ('d, 'r) schema \<Rightarrow> nat \<Rightarrow> nat option \<Rightarrow> ('d data_dir, unit) job" where
  "settle_marker F sc target backup =
     jbind (migration_completed F sc target) (\<lambda>completed.
     jbind (if completed then jreturn ()
            else (case backup of Some v \<Rightarrow> restore_main F v | None \<Rightarrow> jdo F (\<lambda>d. d\<lparr>dd_main := NoDb\<rparr>))) (\<lambda>_.
       remove_marker F))"

definition apply_schema :: "faults \<Rightarrow> ('d, 'r) schema \<Rightarrow> 'r \<Rightarrow> string \<Rightarrow> nat \<Rightarrow> bool \<Rightarrow> ('d data_dir, unit) job" where
  "apply_schema F sc rnd failed fromVersion existed =
     jbind (if existed then backup_main F fromVersion else jreturn ()) (\<lambda>_.
     jbind (write_marker F (Marker fromVersion (sc_target sc) (if existed then Some fromVersion else None))) (\<lambda>_.
       jcatch (jbind (jdo F (upgrade_committed sc rnd)) (\<lambda>_. remove_marker F)) (\<lambda>e. jraise failed)))"

text \<open>
  Starts that were cut short, each with its faults, its random ids, and whether the connection was
  closed at the end, which moves the log into the main file.
\<close>

fun interrupted_starts ::
  "(faults \<Rightarrow> faults \<Rightarrow> 'r \<Rightarrow> ('d data_dir, unit) job) \<Rightarrow> (faults \<times> faults \<times> 'r \<times> bool) list \<Rightarrow> 'd data_dir \<Rightarrow> 'd data_dir" where
  "interrupted_starts start [] d = d"
| "interrupted_starts start ((F, G, rnd, closes) # rest) d =
     (let d' = fst (jrun (start F G rnd) d) in interrupted_starts start rest (if closes then checkpoint d' else d'))"

section \<open>The invariant\<close>

definition old_file :: "('d, 'r) schema \<Rightarrow> 'd \<Rightarrow> 'd db_file \<Rightarrow> bool" where
  "old_file sc old f \<longleftrightarrow> f = Db old \<or> (old = sc_empty sc \<and> (f = NoDb \<or> f = EmptyDb))"

definition upgraded :: "('d, 'r) schema \<Rightarrow> 'd \<Rightarrow> 'd \<Rightarrow> bool" where
  "upgraded sc old im \<longleftrightarrow> (\<exists>rnd. im = sc_upgrade sc rnd old)"

definition new_file :: "('d, 'r) schema \<Rightarrow> 'd \<Rightarrow> 'd db_file \<Rightarrow> bool" where
  "new_file sc old f \<longleftrightarrow> (\<exists>im. f = Db im \<and> upgraded sc old im)"

text \<open>The marker is complete and says how to get back to the old content.\<close>

definition restorable :: "('d, 'r) schema \<Rightarrow> 'd \<Rightarrow> 'd data_dir \<Rightarrow> bool" where
  "restorable sc old d \<longleftrightarrow> dd_marker d = Marker (sc_version sc old) (sc_target sc) (Some (sc_version sc old)) \<and> dd_backup d (sc_version sc old) = Db old \<or>
     dd_marker d = Marker (sc_version sc old) (sc_target sc) None \<and> old = sc_empty sc"

definition migration_ok :: "('d, 'r) schema \<Rightarrow> 'd \<Rightarrow> 'd data_dir \<Rightarrow> bool" where
  "migration_ok sc old d \<longleftrightarrow> (\<forall>im. dd_wal d = Some im \<longrightarrow> upgraded sc old im) \<and>
     (old_file sc old (dd_main d) \<or> new_file sc old (dd_main d) \<or> dd_main d = TornDb \<and> restorable sc old d) \<and>
     (dd_marker d = NoMarker \<or> dd_marker d = BadMarker \<or> restorable sc old d)"

section \<open>Every step keeps the way back\<close>

locale versioned =
  fixes sc :: "('d, 'r) schema"
  assumes upgrade_version: "sc_version sc im < sc_target sc \<Longrightarrow> sc_version sc (sc_upgrade sc rnd im) = sc_target sc"
    and empty_version: "sc_version sc (sc_empty sc) < sc_target sc"
begin

lemma read_marker_holds:
  assumes "never_fails G" "\<And>d. P d \<Longrightarrow> R d" "C \<Longrightarrow> calm G"
  shows "holds C P (read_marker G) (\<lambda>m d. P d \<and> m = dd_marker d) R"
proof -
  have eq: "read_marker G = jlook G (\<lambda>d. Inr (dd_marker d))" unfolding read_marker_def by (rule catch_never) (use assms(1) in auto)
  show ?thesis unfolding eq by (rule holds_look) (use assms(2,3) in auto)
qed

lemma database_exists_holds:
  assumes "never_fails G" "\<And>d. P d \<Longrightarrow> R d" "C \<Longrightarrow> calm G"
  shows "holds C P (database_exists G) (\<lambda>b d. P d \<and> b = stat_size d) R"
proof -
  have eq: "database_exists G = jlook G (\<lambda>d. Inr (stat_size d))" unfolding database_exists_def by (rule catch_never) (use assms(1) in auto)
  show ?thesis unfolding eq by (rule holds_look) (use assms(2,3) in auto)
qed

lemma restorable_main: "restorable sc old (d\<lparr>dd_main := f\<rparr>) = restorable sc old d"
  by (simp add: restorable_def)

lemma restorable_wal: "restorable sc old (d\<lparr>dd_wal := w\<rparr>) = restorable sc old d"
  by (simp add: restorable_def)

lemma ok_old: "migration_ok sc old d \<Longrightarrow> migration_ok sc old (d\<lparr>dd_main := Db old\<rparr>)"
  by (simp add: migration_ok_def restorable_main old_file_def)

lemma ok_unmarked: "migration_ok sc old d \<Longrightarrow> dd_main d \<noteq> TornDb \<Longrightarrow> mk = NoMarker \<or> mk = BadMarker \<Longrightarrow> migration_ok sc old (d\<lparr>dd_marker := mk\<rparr>)"
  by (auto simp: migration_ok_def)

lemma ok_marked: "migration_ok sc old d \<Longrightarrow> restorable sc old (d\<lparr>dd_marker := mk\<rparr>) \<Longrightarrow> migration_ok sc old (d\<lparr>dd_marker := mk\<rparr>)"
  by (auto simp: migration_ok_def)

lemma ok_upgraded: "migration_ok sc old d \<Longrightarrow> migration_ok sc old (d\<lparr>dd_wal := Some (sc_upgrade sc rnd old)\<rparr>)"
  by (auto simp: migration_ok_def restorable_wal upgraded_def)

lemma ok_backup: "migration_ok sc old d \<Longrightarrow> dd_marker d = NoMarker \<Longrightarrow> migration_ok sc old (d\<lparr>dd_backup := b\<rparr>)"
  by (auto simp: migration_ok_def restorable_def)

lemma ok_checkpoint: "migration_ok sc old d \<Longrightarrow> migration_ok sc old (checkpoint d)"
  by (auto simp: migration_ok_def checkpoint_def old_file_def new_file_def restorable_def split: db_file.splits option.splits)

lemma ok_open: "migration_ok sc old d \<Longrightarrow> migration_ok sc old (open_db d)"
  by (auto simp: migration_ok_def open_db_def old_file_def new_file_def restorable_def)

lemma restorable_open: "restorable sc old (open_db d) = restorable sc old d"
  by (auto simp: restorable_def open_db_def)

lemma restorable_checkpoint: "restorable sc old (checkpoint d) = restorable sc old d"
  by (auto simp: restorable_def checkpoint_def split: db_file.splits option.splits)

lemma marker_checkpoint: "dd_marker (checkpoint d) = dd_marker d"
  by (auto simp: checkpoint_def split: db_file.splits option.splits)

lemma marker_open: "dd_marker (open_db d) = dd_marker d"
  by (auto simp: open_db_def)

lemma torn_checkpoint: "dd_main (checkpoint d) = TornDb \<longleftrightarrow> dd_main d = TornDb"
  by (auto simp: checkpoint_def split: db_file.splits option.splits)

lemma version_seen: "user_version sc d = Inr v \<Longrightarrow> dd_main d \<noteq> TornDb"
  by (auto simp: user_version_def committed_def)

lemma completed_holds:
  "holds (calm F) (\<lambda>d. migration_ok sc old d \<and> restorable sc old d \<and> dd_marker d = mk) (migration_completed F sc target)
     (\<lambda>v d. migration_ok sc old d \<and> restorable sc old d \<and> dd_marker d = mk \<and> (v \<longrightarrow> dd_main d \<noteq> TornDb)) (migration_ok sc old)"
  (is "holds ?C ?P _ ?Q ?R")
  unfolding migration_completed_def
proof (rule holds_catch_any)
  let ?T = "\<lambda>v d. ?P d \<and> dd_main d \<noteq> TornDb"
  have a: "holds False ?P (jdo F open_db) (\<lambda>_. ?P) ?P"
    by (rule holds_do) (auto simp: ok_open restorable_open marker_open)
  have b: "holds False ?P (jlook F (user_version sc)) ?T ?P"
    by (rule holds_look) (auto dest: version_seen)
  have c: "holds False (?T v) (jdo F checkpoint) ?T ?P" for v :: nat
    by (rule holds_do) (auto simp: ok_checkpoint restorable_checkpoint marker_checkpoint torn_checkpoint)
  have d: "holds False (?T u) (jreturn (v = target)) ?Q ?P" for u :: unit and v
    by (rule holds_return) auto
  show "holds False ?P (jbind (jdo F open_db) (\<lambda>_. jbind (jlook F (user_version sc)) (\<lambda>v. jbind (jdo F checkpoint) (\<lambda>_. jreturn (v = target))))) ?Q ?P"
    by (rule holds_bind [OF a holds_bind [OF b holds_bind [OF c d]]])
  show "holds ?C ?P (jreturn False) ?Q ?R" for e :: string by (rule holds_return) auto
  show "\<forall>s. snd (jbind (jdo F open_db) (\<lambda>_. jbind (jlook F (user_version sc)) (\<lambda>v. jbind (jdo F checkpoint) (\<lambda>_. jreturn (v = target)))) s) \<noteq> Crashed" if "?C"
    using that by (intro allI bind_uncrashed calm_do calm_look return_uncrashed)
qed auto

lemma restore_holds:
  "holds (calm F) (\<lambda>d. migration_ok sc old d \<and> restorable sc old d \<and> dd_marker d = Marker from0 target backup)
     (case backup of Some v \<Rightarrow> restore_main F v | None \<Rightarrow> jdo F (\<lambda>d. d\<lparr>dd_main := NoDb\<rparr>))
     (\<lambda>_ d. migration_ok sc old d \<and> dd_main d \<noteq> TornDb) (migration_ok sc old)" (is "holds ?C ?P _ ?Q ?R")
proof (cases backup)
  case None
  then show ?thesis by simp (rule holds_do, auto simp: migration_ok_def restorable_def old_file_def)
next
  case (Some v)
  let ?M = "\<lambda>u d. ?P d \<and> dd_main d = TornDb"
  have a: "holds ?C ?P (jcall F (\<lambda>d. if dd_backup d v = NoDb then Inl ''ENOENT'' else Inr (d\<lparr>dd_main := TornDb\<rparr>, ()))) ?M ?R"
    by (rule holds_call) (auto simp: Some migration_ok_def restorable_def split: if_splits)
  have at: "dd_backup d v = Db old" if "?P d" for d
  proof -
    have "restorable sc old d" "dd_marker d = Marker from0 target (Some v)" using that Some by simp_all
    then show ?thesis unfolding restorable_def by (elim disjE conjE) auto
  qed
  have b: "holds ?C (?M u) (jdo F (\<lambda>d. d\<lparr>dd_main := dd_backup d v\<rparr>)) ?Q ?R" for u :: unit
  proof (rule holds_do)
    fix d assume "?M u d"
    then show "?Q () (d\<lparr>dd_main := dd_backup d v\<rparr>) \<and> ?R (d\<lparr>dd_main := dd_backup d v\<rparr>)"
      using at [of d] by (simp add: ok_old)
  qed auto
  show ?thesis unfolding Some option.case restore_main_def by (rule holds_bind [OF a [unfolded Some] b [unfolded Some]])
qed

lemma settle_marker_holds:
  "holds (calm F) (\<lambda>d. migration_ok sc old d \<and> dd_marker d = Marker from0 target backup) (settle_marker F sc target backup)
     (\<lambda>_ d. migration_ok sc old d \<and> dd_marker d = NoMarker) (migration_ok sc old)" (is "holds ?C ?P _ ?Q ?R")
  unfolding settle_marker_def
proof (rule holds_bind)
  let ?D = "\<lambda>v d. migration_ok sc old d \<and> restorable sc old d \<and> dd_marker d = Marker from0 target backup \<and> (v \<longrightarrow> dd_main d \<noteq> TornDb)"
  let ?E = "\<lambda>u d. migration_ok sc old d \<and> dd_main d \<noteq> TornDb"
  show "holds ?C ?P (migration_completed F sc target) ?D ?R"
    by (rule holds_weaken [OF completed_holds]) (auto simp: migration_ok_def)
  fix completed
  have a: "holds ?C (?D completed) (if completed then jreturn () else (case backup of Some v \<Rightarrow> restore_main F v | None \<Rightarrow> jdo F (\<lambda>d. d\<lparr>dd_main := NoDb\<rparr>))) ?E ?R"
  proof (rule holds_if)
    assume completed
    then show "holds ?C (?D completed) (jreturn ()) ?E ?R" by (intro holds_return) simp
  qed (rule holds_weaken [OF restore_holds], auto)
  have b: "holds ?C (?E u) (remove_marker F) ?Q ?R" for u :: unit
    unfolding remove_marker_def by (rule holds_do) (auto simp: migration_ok_def restorable_def)
  show "holds ?C (?D completed) (jbind (if completed then jreturn () else (case backup of Some v \<Rightarrow> restore_main F v | None \<Rightarrow> jdo F (\<lambda>d. d\<lparr>dd_main := NoDb\<rparr>)))
      (\<lambda>_. remove_marker F)) ?Q ?R" by (rule holds_bind [OF a b])
qed

lemma apply_schema_holds:
  assumes old: "sc_version sc old < sc_target sc"
  shows "holds (calm F)
    (\<lambda>d. migration_ok sc old d \<and> dd_marker d = NoMarker \<and> dd_main d = Db old \<and> dd_wal d = None \<and> (existed \<or> old = sc_empty sc))
    (apply_schema F sc rnd failed (sc_version sc old) existed)
    (\<lambda>_ d. migration_ok sc old d \<and> dd_marker d = NoMarker \<and> committed sc d = Some (sc_upgrade sc rnd old)) (migration_ok sc old)"
    (is "holds ?C ?P _ ?Q ?R")
  unfolding apply_schema_def
proof (rule holds_bind)
  let ?v = "sc_version sc old"
  let ?A = "\<lambda>d. migration_ok sc old d \<and> dd_main d = Db old \<and> dd_wal d = None \<and> (existed \<or> old = sc_empty sc)"
  let ?B = "\<lambda>d. ?A d \<and> (existed \<longrightarrow> dd_backup d ?v = Db old)"
  let ?mk = "Marker ?v (sc_target sc) (if existed then Some ?v else None)"
  let ?N = "\<lambda>d. ?A d \<and> dd_marker d = ?mk"
  show "holds ?C ?P (if existed then backup_main F ?v else jreturn ()) (\<lambda>_. ?B) ?R"
  proof (rule holds_if)
    have a: "holds ?C ?P (jcall F (\<lambda>d. if dd_main d = NoDb then Inl ''ENOENT'' else Inr (d\<lparr>dd_backup := (dd_backup d)(?v := TornDb)\<rparr>, ()))) (\<lambda>_. ?P) ?R"
      by (rule holds_call) (auto simp: ok_backup)
    have b: "holds ?C ?P (jdo F (\<lambda>d. d\<lparr>dd_backup := (dd_backup d)(?v := dd_main d)\<rparr>)) (\<lambda>_. ?B) ?R"
      by (rule holds_do) (auto simp: ok_backup)
    show "holds ?C ?P (backup_main F ?v) (\<lambda>_. ?B) ?R" unfolding backup_main_def by (rule holds_bind [OF a b])
  qed (rule holds_return, auto)
  have c: "holds ?C ?B (write_marker F ?mk) (\<lambda>_. ?N) ?R"
  proof -
    have a: "holds ?C ?B (jdo F (\<lambda>d. d\<lparr>dd_marker := BadMarker\<rparr>)) (\<lambda>_. ?B) ?R"
      by (rule holds_do) (auto simp: ok_unmarked)
    have b: "holds ?C ?B (jdo F (\<lambda>d. d\<lparr>dd_marker := ?mk\<rparr>)) (\<lambda>_. ?N) ?R"
    proof (rule holds_do)
      fix d assume B: "?B d"
      then have "restorable sc old (d\<lparr>dd_marker := ?mk\<rparr>)" by (auto simp: restorable_def)
      then show "?N (d\<lparr>dd_marker := ?mk\<rparr>) \<and> ?R (d\<lparr>dd_marker := ?mk\<rparr>)" using B ok_marked [of old d ?mk] by simp
    qed auto
    show ?thesis unfolding write_marker_def by (rule holds_bind [OF a b])
  qed
  let ?U = "\<lambda>d. migration_ok sc old d \<and> dd_main d = Db old \<and> dd_wal d = Some (sc_upgrade sc rnd old)"
  have attempt: "holds C' ?N (jbind (jdo F (upgrade_committed sc rnd)) (\<lambda>_. remove_marker F)) ?Q ?R" if "C' \<Longrightarrow> calm F" for C'
  proof -
    have a: "holds C' ?N (jdo F (upgrade_committed sc rnd)) (\<lambda>_. ?U) ?R"
      by (rule holds_do) (use that in \<open>auto simp: upgrade_committed_def committed_def ok_upgraded\<close>)
    have b: "holds C' ?U (remove_marker F) ?Q ?R"
      unfolding remove_marker_def by (rule holds_do) (use that in \<open>auto simp: ok_unmarked committed_def\<close>)
    show ?thesis by (rule holds_bind [OF a b])
  qed
  have d: "holds ?C ?N (jcatch (jbind (jdo F (upgrade_committed sc rnd)) (\<lambda>_. remove_marker F)) (\<lambda>e. jraise failed)) ?Q ?R"
    by (rule holds_catch [OF attempt _ _ attempt]) (auto intro!: holds_raise)
  show "holds ?C ?B (jbind (write_marker F ?mk) (\<lambda>_. jcatch (jbind (jdo F (upgrade_committed sc rnd)) (\<lambda>_. remove_marker F)) (\<lambda>e. jraise failed))) ?Q ?R"
    by (rule holds_bind [OF c d])
qed

text \<open>Opening the file that \<open>recoverInterruptedMigration\<close> leaves.\<close>

lemma ok_wal_mode:
  "migration_ok sc old d \<Longrightarrow> wal_mode sc d = Inr (d', u) \<Longrightarrow> migration_ok sc old d' \<and> (\<exists>im. dd_main d' = Db im) \<and> dd_marker d' = dd_marker d"
  by (auto simp: wal_mode_def migration_ok_def restorable_def old_file_def new_file_def split: db_file.splits)

lemma old_or_upgraded:
  assumes ok: "migration_ok sc old d" and main: "dd_main d = Db im" and old: "sc_version sc old < sc_target sc"
  shows "dd_main d = Db old \<and> dd_wal d = None \<and> user_version sc d = Inr (sc_version sc old) \<or>
    (\<exists>im'. committed sc d = Some im' \<and> upgraded sc old im') \<and> user_version sc d = Inr (sc_target sc)"
proof (cases "dd_wal d")
  case (Some im')
  then have "upgraded sc old im'" using ok by (simp add: migration_ok_def)
  moreover have "sc_version sc im' = sc_target sc" using calculation upgrade_version [OF old] by (auto simp: upgraded_def)
  ultimately show ?thesis using main Some by (simp add: user_version_def committed_def)
next
  case None
  consider "im = old" | "upgraded sc old im" using ok main by (auto simp: migration_ok_def old_file_def new_file_def)
  then show ?thesis
  proof cases
    case 1
    then show ?thesis using main None by (simp add: user_version_def committed_def)
  next
    case 2
    then have "sc_version sc im = sc_target sc" using upgrade_version [OF old] by (auto simp: upgraded_def)
    then show ?thesis using 2 main None by (simp add: user_version_def committed_def)
  qed
qed

definition opened :: "'d \<Rightarrow> nat \<Rightarrow> 'd data_dir \<Rightarrow> bool" where
  "opened old v d \<longleftrightarrow> migration_ok sc old d \<and> dd_marker d = NoMarker \<and>
     (v = sc_version sc old \<and> dd_main d = Db old \<and> dd_wal d = None \<or>
      v = sc_target sc \<and> (\<exists>im. committed sc d = Some im \<and> upgraded sc old im))"

lemma open_db_holds:
  "holds (calm F \<and> C) (\<lambda>d. migration_ok sc old d \<and> dd_marker d = NoMarker) (jdo F open_db)
    (\<lambda>_ d. migration_ok sc old d \<and> dd_marker d = NoMarker) (migration_ok sc old)"
  by (rule holds_do) (auto simp: ok_open marker_open)

lemma wal_version_holds:
  assumes old: "sc_version sc old < sc_target sc"
    and k: "\<And>v. holds (calm F \<and> C) (opened old v) (k v) Q (migration_ok sc old)"
  shows "holds (calm F \<and> C) (\<lambda>d. migration_ok sc old d \<and> dd_marker d = NoMarker)
    (jbind (jcall F (wal_mode sc)) (\<lambda>_. jbind (jlook F (user_version sc)) k)) Q (migration_ok sc old)"
proof -
  let ?C = "calm F \<and> C" and ?R = "migration_ok sc old"
  let ?P = "\<lambda>d. ?R d \<and> dd_marker d = NoMarker" and ?D = "\<lambda>d. ?R d \<and> dd_marker d = NoMarker \<and> (\<exists>im. dd_main d = Db im)"
  have torn: "dd_main d \<noteq> TornDb" if "?P d" for d
    using that by (auto simp: migration_ok_def restorable_def old_file_def new_file_def)
  have b: "holds ?C ?P (jcall F (wal_mode sc)) (\<lambda>_. ?D) ?R"
  proof (rule holds_call)
    show "?D d' \<and> ?R d'" if "?P d" "wal_mode sc d = Inr (d', u)" for d d' u using ok_wal_mode [of old d d' u] that by auto
    show "\<exists>x. wal_mode sc d = Inr x" if "?P d" for d using torn [OF that] by (cases "dd_main d") (simp_all add: wal_mode_def)
  qed auto
  have c: "holds ?C ?D (jlook F (user_version sc)) (opened old) ?R"
  proof (rule holds_look)
    fix d assume D: "?D d"
    then obtain im where im: "dd_main d = Db im" "?R d" by blast
    show "opened old v d" if "user_version sc d = Inr v" for v
      using old_or_upgraded [OF im(2,1) old] that D by (auto simp: opened_def)
    show "\<exists>v. user_version sc d = Inr v" using old_or_upgraded [OF im(2,1) old] by auto
  qed auto
  show ?thesis by (rule holds_bind [OF b holds_bind [OF c k]])
qed

lemma interrupted_ok:
  assumes "\<And>F G rnd. never_fails G \<Longrightarrow> holds False (migration_ok sc old) (start F G rnd) (Q F G rnd) (migration_ok sc old)"
  shows "(\<forall>(F, G, rnd, closes) \<in> set runs. never_fails G) \<Longrightarrow> migration_ok sc old d \<Longrightarrow> migration_ok sc old (interrupted_starts start runs d)"
proof (induction runs arbitrary: d)
  case (Cons run rest)
  obtain F G rnd closes where run: "run = (F, G, rnd, closes)" by (cases run)
  have "never_fails G" using Cons.prems(1) run by auto
  from holds_run [OF assms [OF this, of F rnd] Cons.prems(2)]
  have "migration_ok sc old (fst (jrun (start F G rnd) d))" by blast
  then have "migration_ok sc old (if closes then checkpoint (fst (jrun (start F G rnd) d)) else fst (jrun (start F G rnd) d))"
    by (simp add: ok_checkpoint)
  then show ?case using Cons.IH Cons.prems(1) run by (simp add: Let_def)
qed simp

lemma ok_committed:
  "migration_ok sc old d \<Longrightarrow> committed sc d = Some old \<or> (\<exists>rnd. committed sc d = Some (sc_upgrade sc rnd old)) \<or> dd_main d = TornDb \<and> restorable sc old d"
  by (cases "dd_wal d") (auto simp: migration_ok_def committed_def old_file_def new_file_def upgraded_def)

end

end
