(* ===== verification/StateMigration.thy ===== *)
theory StateMigration
  imports Migration StateStore
begin

text \<open>
  The start of the session and operation store, \<^verbatim>\<open>init\<close>, \<^verbatim>\<open>recoverInterruptedMigration\<close> and
  \<^verbatim>\<open>migrate\<close> of \<^verbatim>\<open>agent/src/state-store.js\<close>; \<^verbatim>\<open>start_store\<close> of theory StateStore is the rest of
  \<^verbatim>\<open>init\<close>, on the tables of schema 2.
\<close>

section \<open>The schemas\<close>

text \<open>A session row of schema 1 has no transcript columns.\<close>

record session_v1 =
  s1_id :: string
  s1_label :: string
  s1_cwd :: string
  s1_createdAt :: time
  s1_closedAt :: "time option"

datatype state_image = S0 | S1 "session_v1 list" "operation list" | S2 "session list" "operation list" | SNewer nat

definition state_version :: "state_image \<Rightarrow> nat" where
  "state_version im = (case im of S0 \<Rightarrow> 0 | S1 ss os \<Rightarrow> 1 | S2 ss os \<Rightarrow> 2 | SNewer n \<Rightarrow> 3 + n)"

definition upgrade_session :: "(string \<Rightarrow> string) \<Rightarrow> session_v1 \<Rightarrow> session" where
  "upgrade_session randomblob s = \<lparr>se_id = s1_id s, se_label = s1_label s, se_cwd = s1_cwd s, se_createdAt = s1_createdAt s,
     se_closedAt = s1_closedAt s, se_transcriptStreamId = randomblob (s1_id s), se_transcriptEpoch = 1,
     se_transcriptEarliestOffset = 0, se_transcriptCaptureState = (if s1_closedAt s \<noteq> None then ''STOPPED'' else ''ACTIVE''),
     se_transcriptGapReason = None\<rparr>"

definition upgrade_state :: "(string \<Rightarrow> string) \<Rightarrow> state_image \<Rightarrow> state_image" where
  "upgrade_state randomblob im = (case im of
       S0 \<Rightarrow> S2 [] [] | S1 ss os \<Rightarrow> S2 (map (upgrade_session randomblob) ss) os | _ \<Rightarrow> im)"

definition state_schema :: "(state_image, string \<Rightarrow> string) schema" where
  "state_schema = \<lparr>sc_version = state_version, sc_empty = S0, sc_target = 2, sc_upgrade = upgrade_state\<rparr>"

section \<open>The start\<close>

definition recoverInterruptedMigration :: "faults \<Rightarrow> faults \<Rightarrow> (state_image data_dir, unit) job" where
  "recoverInterruptedMigration F G = jbind (read_marker G) (\<lambda>mk. case mk of
       NoMarker \<Rightarrow> jreturn ()
     | BadMarker \<Rightarrow> jraise ''state_migration_recovery_failed''
     | Marker fromVersion target backup \<Rightarrow> settle_marker F state_schema target backup)"

definition migrate :: "faults \<Rightarrow> faults \<Rightarrow> (string \<Rightarrow> string) \<Rightarrow> nat \<Rightarrow> (state_image data_dir, unit) job" where
  "migrate F G randomblob fromVersion = jbind (database_exists G) (\<lambda>existed.
     apply_schema F state_schema randomblob ''state_migration_failed'' fromVersion existed)"

definition init_state :: "faults \<Rightarrow> faults \<Rightarrow> (string \<Rightarrow> string) \<Rightarrow> (state_image data_dir, unit) job" where
  "init_state F G randomblob =
     jbind (jdo F (\<lambda>d. d)) (\<lambda>_. jbind (recoverInterruptedMigration F G) (\<lambda>_.
     jbind (jdo F open_db) (\<lambda>_. jbind (jcall F (wal_mode state_schema)) (\<lambda>_. jbind (jlook F (user_version state_schema)) (\<lambda>v.
       if v > 2 then jbind (jdo F checkpoint) (\<lambda>_. jraise ''state_schema_incompatible'')
       else if v < 2 then migrate F G randomblob v
       else jreturn ())))))"

section \<open>Resuming\<close>

interpretation st: versioned state_schema
  by unfold_locales (auto simp: state_schema_def state_version_def upgrade_state_def split: state_image.splits)

lemma state_parts: "sc_version state_schema = state_version" "sc_target state_schema = 2" "sc_upgrade state_schema = upgrade_state" "sc_empty state_schema = S0"
  by (simp_all add: state_schema_def)

lemma recover_holds:
  assumes "never_fails G"
  shows "holds (calm F \<and> calm G \<and> C) (\<lambda>d. migration_ok state_schema old d \<and> (C \<longrightarrow> dd_marker d \<noteq> BadMarker)) (recoverInterruptedMigration F G)
    (\<lambda>_ d. migration_ok state_schema old d \<and> dd_marker d = NoMarker) (migration_ok state_schema old)"
    (is "holds ?C ?P _ ?Q ?R")
  unfolding recoverInterruptedMigration_def
proof (rule holds_bind)
  show "holds ?C ?P (read_marker G) (\<lambda>m d. ?P d \<and> m = dd_marker d) ?R" by (rule st.read_marker_holds) (use assms in auto)
  fix mk
  show "holds ?C (\<lambda>d. ?P d \<and> mk = dd_marker d) (case mk of NoMarker \<Rightarrow> jreturn () | BadMarker \<Rightarrow> jraise ''state_migration_recovery_failed''
     | Marker fromVersion target backup \<Rightarrow> settle_marker F state_schema target backup) ?Q ?R"
  proof (cases mk)
    case (Marker v target backup)
    have "holds (calm F) (\<lambda>d. migration_ok state_schema old d \<and> dd_marker d = Marker v target backup) (settle_marker F state_schema target backup) ?Q ?R"
      by (rule st.settle_marker_holds)
    then show ?thesis unfolding Marker marker.case by (fastforce simp: holds_def)
  qed (auto intro!: holds_return holds_raise)
qed

lemma migrate_holds:
  assumes "never_fails G" "v < 2"
  shows "holds (calm F \<and> calm G \<and> C) (st.opened old v) (migrate F G rnd v)
    (\<lambda>_ d. migration_ok state_schema old d \<and> dd_marker d = NoMarker \<and> (\<exists>rnd'. committed state_schema d = Some (upgrade_state rnd' old)))
    (migration_ok state_schema old)" (is "holds ?C _ _ ?Q ?R")
proof (cases "v = state_version old")
  case False
  then have no: "st.opened old v = (\<lambda>d. False)" using assms(2) by (auto simp: fun_eq_iff st.opened_def state_parts)
  show ?thesis unfolding no by (rule holds_false)
next
  case True
  have old: "sc_version state_schema old < sc_target state_schema" using True assms(2) by (simp add: state_parts)
  let ?P = "\<lambda>d. migration_ok state_schema old d \<and> dd_marker d = NoMarker \<and> dd_main d = Db old \<and> dd_wal d = None"
  have a: "holds ?C (st.opened old v) (database_exists G) (\<lambda>b d. ?P d \<and> b = stat_size d) ?R"
    by (rule holds_weaken [OF st.database_exists_holds [OF assms(1), where P = ?P and R = ?R]])
      (use assms(2) in \<open>auto simp: st.opened_def state_parts\<close>)
  have b: "holds ?C (\<lambda>d. ?P d \<and> b = stat_size d) (apply_schema F state_schema rnd ''state_migration_failed'' v b) ?Q ?R" for b
  proof -
    have "sc_version state_schema old = v" using True by (simp add: state_parts)
    from st.apply_schema_holds [OF old, of F b rnd "''state_migration_failed''", unfolded this]
    show ?thesis by (fastforce simp: holds_def stat_size_def state_parts)
  qed
  show ?thesis unfolding migrate_def by (rule holds_bind [OF a b])
qed

lemma init_state_holds:
  assumes "never_fails G" "state_version old < 2"
  shows "holds (calm F \<and> calm G \<and> C) (\<lambda>d. migration_ok state_schema old d \<and> (C \<longrightarrow> dd_marker d \<noteq> BadMarker)) (init_state F G rnd)
    (\<lambda>_ d. migration_ok state_schema old d \<and> dd_marker d = NoMarker \<and> (\<exists>rnd'. committed state_schema d = Some (upgrade_state rnd' old)))
    (migration_ok state_schema old)" (is "holds ?C ?P _ ?Q ?R")
proof -
  have old: "sc_version state_schema old < sc_target state_schema" using assms(2) by (simp add: state_parts)
  have a: "holds ?C ?P (jdo F (\<lambda>d. d)) (\<lambda>_. ?P) ?R" by (rule holds_noop) auto
  have k: "holds ?C (st.opened old v) (if v > 2 then jbind (jdo F checkpoint) (\<lambda>_. jraise ''state_schema_incompatible'')
       else if v < 2 then migrate F G rnd v else jreturn ()) ?Q ?R" for v
  proof (intro holds_if)
    assume "2 < v"
    then have no: "st.opened old v = (\<lambda>d. False)" using assms(2) by (auto simp: fun_eq_iff st.opened_def state_parts)
    show "holds ?C (st.opened old v) (jbind (jdo F checkpoint) (\<lambda>_. jraise ''state_schema_incompatible'')) ?Q ?R"
      unfolding no by (rule holds_false)
  next
    assume "\<not> v < 2"
    then show "holds ?C (st.opened old v) (jreturn ()) ?Q ?R"
      using assms(2) by (intro holds_return) (auto simp: st.opened_def upgraded_def state_parts)
  qed (rule migrate_holds [OF assms(1)])
  show ?thesis unfolding init_state_def
    by (rule holds_bind [OF a holds_bind [OF recover_holds [OF assms(1)] holds_bind [OF st.open_db_holds st.wal_version_holds [OF old k]]]])
qed

lemma bad_marker_raises:
  "calm F \<Longrightarrow> calm G \<Longrightarrow> dd_marker d = BadMarker \<Longrightarrow> jrun (init_state F G rnd) d = (d, Raised ''state_migration_recovery_failed'')"
  by (simp add: jrun_def init_state_def recoverInterruptedMigration_def read_marker_def jbind_def jdo_def jcall_def jlook_def jcatch_def jraise_def calm_def Let_def)

text \<open>The data directory before the first start with this schema.\<close>

definition before_migration :: "state_image \<Rightarrow> state_image data_dir \<Rightarrow> bool" where
  "before_migration old d \<longleftrightarrow> state_version old < 2 \<and> (dd_main d = Db old \<or> old = S0 \<and> (dd_main d = NoDb \<or> dd_main d = EmptyDb)) \<and>
     dd_wal d = None \<and> dd_marker d = NoMarker"

lemma before_ok: "before_migration old d \<Longrightarrow> migration_ok state_schema old d"
  by (auto simp: before_migration_def migration_ok_def old_file_def state_parts)

text \<open>
  C35. Given a data directory whose write-ahead log the previous process has moved into the main file, and starts
  that die at any call, or fail at any call but the two whose failure the code takes for an answer (the
  reading of the marker and \<^verbatim>\<open>stat\<close>): after any sequence of them the store holds the old rows, or the
  migrated ones, or a restore is pending whose backup holds the old rows and is named by the marker. An
  undisturbed start then leaves the migrated rows and no marker, unless the marker was cut off while being
  written: then it fails with \<^verbatim>\<open>state_migration_recovery_failed\<close> and changes nothing. Without the first
  hypothesis rows are lost (\<open>log_lost_by_restore\<close>), and without the second (\<open>failed_stat_removes_database\<close>).
\<close>

theorem state_migration_resumes:
  assumes "before_migration old d0" "\<forall>(F, G, rnd, closes) \<in> set runs. never_fails G" "calm F" "calm G"
  shows "let d = interrupted_starts init_state runs d0 in
    (committed state_schema d = Some old \<or> (\<exists>rnd'. committed state_schema d = Some (upgrade_state rnd' old)) \<or>
      (\<exists>b. dd_marker d = Marker (state_version old) 2 b \<and> (case b of Some v \<Rightarrow> dd_backup d v = Db old | None \<Rightarrow> old = S0))) \<and>
    (if dd_marker d = BadMarker then jrun (init_state F G rnd) d = (d, Raised ''state_migration_recovery_failed'')
     else \<exists>d' rnd'. jrun (init_state F G rnd) d = (d', Done ()) \<and> dd_marker d' = NoMarker \<and>
       committed state_schema d' = Some (upgrade_state rnd' old))"
proof -
  let ?d = "interrupted_starts init_state runs d0"
  have v: "state_version old < 2" using assms(1) by (simp add: before_migration_def)
  have "holds False (migration_ok state_schema old) (init_state F' G' rnd')
      (\<lambda>_ d. migration_ok state_schema old d \<and> dd_marker d = NoMarker \<and> (\<exists>rnd'. committed state_schema d = Some (upgrade_state rnd' old)))
      (migration_ok state_schema old)" if "never_fails G'" for F' G' rnd'
    using init_state_holds [OF that v, where C = False and F = F' and rnd = rnd'] by simp
  from st.interrupted_ok [OF this assms(2) before_ok [OF assms(1)]]
  have ok: "migration_ok state_schema old ?d" .
  have kept: "committed state_schema ?d = Some old \<or> (\<exists>rnd'. committed state_schema ?d = Some (upgrade_state rnd' old)) \<or>
      (\<exists>b. dd_marker ?d = Marker (state_version old) 2 b \<and> (case b of Some v \<Rightarrow> dd_backup ?d v = Db old | None \<Rightarrow> old = S0))"
    using st.ok_committed [OF ok] by (auto simp: restorable_def state_parts)
  have ends: "\<exists>d' rnd'. jrun (init_state F G rnd) ?d = (d', Done ()) \<and> dd_marker d' = NoMarker \<and> committed state_schema d' = Some (upgrade_state rnd' old)"
    if "dd_marker ?d \<noteq> BadMarker"
  proof -
    have nf: "never_fails G" using assms(4) by (simp add: calm_def never_fails_def)
    obtain d' x where run: "jrun (init_state F G rnd) ?d = (d', x)" by fastforce
    show ?thesis using holds_run [OF init_state_holds [OF nf v, where C = True and F = F and rnd = rnd], where w = ?d] that ok assms(3,4) run by auto
  qed
  show ?thesis unfolding Let_def using kept ends bad_marker_raises [OF assms(3,4)] by simp
qed

text \<open>
  One session of schema 1; the first start dies before \<^verbatim>\<open>COMMIT\<close>, the second in the middle of the
  restore.
\<close>

definition wit_v1 :: state_image where
  "wit_v1 = S1 [\<lparr>s1_id = ''a'', s1_label = ''Terminal'', s1_cwd = ''.'', s1_createdAt = 5, s1_closedAt = None\<rparr>] []"

definition wit_dir :: "state_image data_dir" where
  "wit_dir = \<lparr>dd_main = Db wit_v1, dd_wal = None, dd_backup = (\<lambda>v. NoDb), dd_marker = NoMarker\<rparr>"

definition wit_starts :: "(faults \<times> faults \<times> (string \<Rightarrow> string) \<times> bool) list" where
  "wit_starts = [(crash_at 10, no_faults, (\<lambda>x. ''r1''), False), (crash_at 6, no_faults, (\<lambda>x. ''r2''), False)]"

theorem state_migration_resumes_witness:
  "let d = interrupted_starts init_state wit_starts wit_dir in
     dd_main d = TornDb \<and> (\<exists>d' rnd'. jrun (init_state no_faults no_faults (\<lambda>x. ''r3'')) d = (d', Done ()) \<and>
       committed state_schema d' = Some (upgrade_state rnd' wit_v1))"
proof -
  have torn: "dd_main (interrupted_starts init_state wit_starts wit_dir) = TornDb \<and> dd_marker (interrupted_starts init_state wit_starts wit_dir) \<noteq> BadMarker"
    by code_simp
  have "before_migration wit_v1 wit_dir" by (simp add: before_migration_def wit_dir_def wit_v1_def state_version_def)
  moreover have "\<forall>(F, G, rnd, closes) \<in> set wit_starts. never_fails G" by (simp add: wit_starts_def never_fails_no_faults)
  ultimately show ?thesis
    using state_migration_resumes [of wit_v1 wit_dir wit_starts no_faults no_faults "\<lambda>x. ''r3''"] torn calm_no_faults
    by (auto simp: Let_def)
qed

section \<open>Three ways to lose a store\<close>

text \<open>
  The old process died with a committed row in its log. The backup copies the main file alone;
  when the migration is cut short, the next start closes its candidate, which moves the log into the
  main file, and then copies the backup over it: the row is gone.
\<close>

definition unfolded_log :: "state_image data_dir" where
  "unfolded_log = wit_dir\<lparr>dd_main := Db (S1 [] []), dd_wal := Some wit_v1\<rparr>"

text \<open>A start that nothing disturbs migrates the rows of the log too.\<close>

lemma undisturbed_start_migrates_log:
  assumes "calm F" "calm G" "dd_marker d = NoMarker" "dd_main d = Db im" "dd_wal d = Some old" "state_version old < 2"
  shows "\<exists>d'. jrun (init_state F G rnd) d = (d', Done ()) \<and> dd_marker d' = NoMarker \<and> committed state_schema d' = Some (upgrade_state rnd old)"
proof -
  have F: "F n = NoFault" "G n = NoFault" for n using assms(1,2) by (simp_all add: calm_def)
  note steps = init_state_def recoverInterruptedMigration_def read_marker_def migrate_def database_exists_def apply_schema_def backup_main_def write_marker_def
    remove_marker_def jrun_def jbind_def jdo_def jcall_def jlook_def jcatch_def jreturn_def Let_def F
  have look: "open_db d = d" "wal_mode state_schema d = Inr (d, ())" "user_version state_schema d = Inr (state_version old)" "stat_size d"
    using assms(4,5) by (simp_all add: open_db_def wal_mode_def user_version_def committed_def stat_size_def state_parts)
  show ?thesis unfolding steps using assms(3-6)
    by (simp add: look upgrade_committed_def committed_def state_parts)
qed

lemma log_lost_by_restore:
  "let d = fst (jrun (init_state (crash_at 10) no_faults (\<lambda>x. ''r'')) unfolded_log);
       (d', r) = jrun (init_state no_faults no_faults (\<lambda>x. ''r'')) d in
     committed state_schema unfolded_log = Some wit_v1 \<and> committed state_schema d = Some wit_v1 \<and>
     r = Done () \<and> committed state_schema d' = Some (S2 [] [])"
  by code_simp

text \<open>
  A failing \<^verbatim>\<open>stat\<close> is taken for an absent database: the marker then names no backup, and a
  migration cut short ends in the removal of the file.
\<close>

lemma failed_stat_removes_database:
  "let d = fst (jrun (init_state (crash_at 8) (fail_at 5) (\<lambda>x. ''r'')) wit_dir);
       (d', r) = jrun (init_state no_faults no_faults (\<lambda>x. ''r'')) d in
     committed state_schema d = Some wit_v1 \<and> r = Done () \<and> committed state_schema d' = Some (S2 [] [])"
  by code_simp

text \<open>A marker cut off in the middle of its writing: the store is intact, and no start succeeds.\<close>

lemma cut_marker_blocks:
  "let d = fst (jrun (init_state (crash_at 9) no_faults (\<lambda>x. ''r'')) wit_dir) in
     committed state_schema d = Some wit_v1 \<and> jrun (init_state no_faults no_faults rnd) d = (d, Raised ''state_migration_recovery_failed'')"
proof -
  have "dd_marker (fst (jrun (init_state (crash_at 9) no_faults (\<lambda>x. ''r'')) wit_dir)) = BadMarker \<and>
      committed state_schema (fst (jrun (init_state (crash_at 9) no_faults (\<lambda>x. ''r'')) wit_dir)) = Some wit_v1"
    by code_simp
  then show ?thesis using bad_marker_raises [OF calm_no_faults calm_no_faults] by (simp add: Let_def)
qed

end
