(* ===== verification/AuthMigration.thy ===== *)
theory AuthMigration
  imports Migration AuthStore
begin

text \<open>
  The start of the authorization store, \<^verbatim>\<open>init\<close>, \<^verbatim>\<open>recoverInterruptedMigration\<close> and \<^verbatim>\<open>migrate\<close> of
  \<^verbatim>\<open>auth/src/auth-store.js\<close>, up to the tables of schema 2, on which theory AuthStore goes on.
\<close>

section \<open>The schemas\<close>

datatype auth_image = A0 | A1 "owner list" "client list" "grant list" | A2 auth_db | ANewer nat

definition auth_version :: "auth_image \<Rightarrow> nat" where
  "auth_version im = (case im of A0 \<Rightarrow> 0 | A1 os cs gs \<Rightarrow> 1 | A2 db \<Rightarrow> 2 | ANewer n \<Rightarrow> 3 + n)"

definition upgrade_auth :: "unit \<Rightarrow> auth_image \<Rightarrow> auth_image" where
  "upgrade_auth u im = (case im of
       A0 \<Rightarrow> A2 empty_auth_db | A1 os cs gs \<Rightarrow> A2 (empty_auth_db\<lparr>owners := os, clients := cs, grants := gs\<rparr>) | _ \<Rightarrow> im)"

definition auth_schema :: "(auth_image, unit) schema" where
  "auth_schema = \<lparr>sc_version = auth_version, sc_empty = A0, sc_target = 2, sc_upgrade = upgrade_auth\<rparr>"

section \<open>The start\<close>

text \<open>A marker of another target, or with a backup of another name, is not trusted.\<close>

definition recoverInterruptedMigration :: "faults \<Rightarrow> faults \<Rightarrow> (auth_image data_dir, unit) job" where
  "recoverInterruptedMigration F G = jbind (read_marker G) (\<lambda>mk. case mk of
       NoMarker \<Rightarrow> jreturn ()
     | BadMarker \<Rightarrow> jraise ''auth_migration_recovery_failed''
     | Marker fromVersion target backup \<Rightarrow>
         if target \<noteq> 2 \<or> (backup \<noteq> None \<and> backup \<noteq> Some fromVersion) then jraise ''auth_migration_recovery_failed''
         else settle_marker F auth_schema target backup)"

definition migrate :: "faults \<Rightarrow> nat \<Rightarrow> bool \<Rightarrow> (auth_image data_dir, unit) job" where
  "migrate F fromVersion existed = apply_schema F auth_schema () ''auth_migration_failed'' fromVersion existed"

definition init_auth :: "faults \<Rightarrow> faults \<Rightarrow> unit \<Rightarrow> (auth_image data_dir, unit) job" where
  "init_auth F G u =
     jbind (jdo F (\<lambda>d. d)) (\<lambda>_. jbind (jdo F (\<lambda>d. d)) (\<lambda>_. jbind (recoverInterruptedMigration F G) (\<lambda>_.
     jbind (database_exists G) (\<lambda>existed.
     jbind (jdo F open_db) (\<lambda>_. jbind (jdo F (\<lambda>d. d)) (\<lambda>_. jbind (jcall F (wal_mode auth_schema)) (\<lambda>_. jbind (jlook F (user_version auth_schema)) (\<lambda>v.
       if v > 2 then jbind (jdo F checkpoint) (\<lambda>_. jraise ''auth_schema_incompatible'')
       else if v < 2 then jcatch (migrate F v existed) (\<lambda>e. jbind (jdo F checkpoint) (\<lambda>_. jraise e))
       else jreturn ()))))))))"

section \<open>Resuming\<close>

interpretation au: versioned auth_schema
  by unfold_locales (auto simp: auth_schema_def auth_version_def upgrade_auth_def split: auth_image.splits)

lemma auth_parts: "sc_version auth_schema = auth_version" "sc_target auth_schema = 2" "sc_upgrade auth_schema = upgrade_auth" "sc_empty auth_schema = A0"
  by (simp_all add: auth_schema_def)

text \<open>A marker the store wrote itself is trusted.\<close>

lemma own_marker_trusted:
  "restorable auth_schema old d \<Longrightarrow> dd_marker d = Marker v target backup \<Longrightarrow> target = 2 \<and> (backup = None \<or> backup = Some v)"
  by (auto simp: restorable_def auth_parts)

lemma auth_recover_holds:
  assumes "never_fails G"
  shows "holds (calm F \<and> calm G \<and> C) (\<lambda>d. migration_ok auth_schema old d \<and> (C \<longrightarrow> dd_marker d \<noteq> BadMarker)) (recoverInterruptedMigration F G)
    (\<lambda>_ d. migration_ok auth_schema old d \<and> dd_marker d = NoMarker) (migration_ok auth_schema old)"
    (is "holds ?C ?P _ ?Q ?R")
  unfolding recoverInterruptedMigration_def
proof (rule holds_bind)
  show "holds ?C ?P (read_marker G) (\<lambda>m d. ?P d \<and> m = dd_marker d) ?R" by (rule au.read_marker_holds) (use assms in auto)
  fix mk
  show "holds ?C (\<lambda>d. ?P d \<and> mk = dd_marker d) (case mk of NoMarker \<Rightarrow> jreturn () | BadMarker \<Rightarrow> jraise ''auth_migration_recovery_failed''
     | Marker fromVersion target backup \<Rightarrow> if target \<noteq> 2 \<or> (backup \<noteq> None \<and> backup \<noteq> Some fromVersion) then jraise ''auth_migration_recovery_failed''
         else settle_marker F auth_schema target backup) ?Q ?R"
  proof (cases mk)
    case (Marker v target backup)
    have settle: "holds (calm F) (\<lambda>d. migration_ok auth_schema old d \<and> dd_marker d = Marker v target backup) (settle_marker F auth_schema target backup) ?Q ?R"
      by (rule au.settle_marker_holds)
    have trusted: "target = 2 \<and> (backup = None \<or> backup = Some v)" if "?P d \<and> Marker v target backup = dd_marker d" for d
      using that own_marker_trusted [of old d v target backup] by (auto simp: migration_ok_def)
    show ?thesis unfolding Marker marker.case
    proof (rule holds_if)
      assume "target \<noteq> 2 \<or> (backup \<noteq> None \<and> backup \<noteq> Some v)"
      then show "holds ?C (\<lambda>d. ?P d \<and> Marker v target backup = dd_marker d) (jraise ''auth_migration_recovery_failed'') ?Q ?R"
        using trusted by (intro holds_raise) auto
    qed (use settle in \<open>fastforce simp: holds_def\<close>)
  qed (auto intro!: holds_return holds_raise)
qed

lemma auth_migrate_holds:
  assumes "v < 2" "existed \<or> old = A0"
  shows "holds (calm F \<and> C) (au.opened old v) (jcatch (migrate F v existed) (\<lambda>e. jbind (jdo F checkpoint) (\<lambda>_. jraise e)))
    (\<lambda>_ d. migration_ok auth_schema old d \<and> dd_marker d = NoMarker \<and> committed auth_schema d = Some (upgrade_auth () old))
    (migration_ok auth_schema old)" (is "holds ?C _ _ ?Q ?R")
proof (cases "v = auth_version old")
  case False
  then have no: "au.opened old v = (\<lambda>d. False)" using assms(1) by (auto simp: fun_eq_iff au.opened_def auth_parts)
  show ?thesis unfolding no by (rule holds_false)
next
  case True
  have old: "sc_version auth_schema old < sc_target auth_schema" "sc_version auth_schema old = v" using True assms(1) by (simp_all add: auth_parts)
  have run: "holds C' (au.opened old v) (migrate F v existed) ?Q ?R" if "C' \<Longrightarrow> calm F" for C'
    unfolding migrate_def
    using au.apply_schema_holds [OF old(1), of F existed "()" "''auth_migration_failed''", unfolded old(2)] that assms
    by (fastforce simp: holds_def au.opened_def auth_parts)
  have close: "holds False ?R (jbind (jdo F checkpoint) (\<lambda>_. jraise e)) ?Q ?R" for e :: string
    by (rule holds_bind [OF holds_do [where Q = "\<lambda>_. ?R"]]) (auto simp: au.ok_checkpoint intro!: holds_raise)
  show ?thesis by (rule holds_catch [OF run close _ run]) auto
qed

lemma init_auth_holds:
  assumes "never_fails G" "auth_version old < 2"
  shows "holds (calm F \<and> calm G \<and> C) (\<lambda>d. migration_ok auth_schema old d \<and> (C \<longrightarrow> dd_marker d \<noteq> BadMarker)) (init_auth F G u)
    (\<lambda>_ d. migration_ok auth_schema old d \<and> dd_marker d = NoMarker \<and> committed auth_schema d = Some (upgrade_auth () old))
    (migration_ok auth_schema old)" (is "holds ?C ?P _ ?Q ?R")
proof -
  let ?N = "\<lambda>d. migration_ok auth_schema old d \<and> dd_marker d = NoMarker"
  have old: "sc_version auth_schema old < sc_target auth_schema" using assms(2) by (simp add: auth_parts)
  have a: "holds ?C ?P (jdo F (\<lambda>d. d)) (\<lambda>_. ?P) ?R" by (rule holds_noop) auto
  have n: "holds ?C ?N (jdo F (\<lambda>d. d)) (\<lambda>_. ?N) ?R" by (rule holds_noop) auto
  have k: "holds ?C (au.opened old v) (if v > 2 then jbind (jdo F checkpoint) (\<lambda>_. jraise ''auth_schema_incompatible'')
       else if v < 2 then jcatch (migrate F v existed) (\<lambda>e. jbind (jdo F checkpoint) (\<lambda>_. jraise e)) else jreturn ()) ?Q ?R"
    if ex: "existed \<or> old = A0" for v existed
  proof (intro holds_if)
    assume "2 < v"
    then have no: "au.opened old v = (\<lambda>d. False)" using assms(2) by (auto simp: fun_eq_iff au.opened_def auth_parts)
    show "holds ?C (au.opened old v) (jbind (jdo F checkpoint) (\<lambda>_. jraise ''auth_schema_incompatible'')) ?Q ?R"
      unfolding no by (rule holds_false)
  next
    assume "\<not> v < 2"
    then show "holds ?C (au.opened old v) (jreturn ()) ?Q ?R"
      using assms(2) by (intro holds_return) (auto simp: au.opened_def upgraded_def auth_parts)
  qed (rule auth_migrate_holds [OF _ ex])
  have rest: "holds ?C (\<lambda>d. ?N d \<and> existed = stat_size d) (jbind (jdo F open_db) (\<lambda>_. jbind (jdo F (\<lambda>d. d)) (\<lambda>_.
      jbind (jcall F (wal_mode auth_schema)) (\<lambda>_. jbind (jlook F (user_version auth_schema)) (\<lambda>v.
       if v > 2 then jbind (jdo F checkpoint) (\<lambda>_. jraise ''auth_schema_incompatible'')
       else if v < 2 then jcatch (migrate F v existed) (\<lambda>e. jbind (jdo F checkpoint) (\<lambda>_. jraise e))
       else jreturn ()))))) ?Q ?R" for existed
  proof (cases "existed \<or> old = A0")
    case True
    show ?thesis
      by (rule holds_weaken [OF holds_bind [OF au.open_db_holds holds_bind [OF n au.wal_version_holds [OF old k [OF True]]]]]) auto
  next
    case False
    then have no: "(\<lambda>d. ?N d \<and> existed = stat_size d) = (\<lambda>d. False)"
      by (auto simp: fun_eq_iff stat_size_def migration_ok_def old_file_def new_file_def restorable_def auth_parts)
    show ?thesis unfolding no by (rule holds_false)
  qed
  have e: "holds ?C ?N (database_exists G) (\<lambda>b d. ?N d \<and> b = stat_size d) ?R"
    by (rule au.database_exists_holds) (use assms(1) in auto)
  show ?thesis unfolding init_auth_def
    by (rule holds_bind [OF a holds_bind [OF a holds_bind [OF auth_recover_holds [OF assms(1)] holds_bind [OF e rest]]]])
qed

lemma auth_bad_marker_raises:
  "calm F \<Longrightarrow> calm G \<Longrightarrow> dd_marker d = BadMarker \<Longrightarrow> jrun (init_auth F G u) d = (d, Raised ''auth_migration_recovery_failed'')"
  by (simp add: jrun_def init_auth_def recoverInterruptedMigration_def read_marker_def jbind_def jdo_def jcall_def jlook_def jcatch_def jraise_def calm_def Let_def)

text \<open>The data directory before the first start with this schema.\<close>

definition before_migration :: "auth_image \<Rightarrow> auth_image data_dir \<Rightarrow> bool" where
  "before_migration old d \<longleftrightarrow> auth_version old < 2 \<and> (dd_main d = Db old \<or> old = A0 \<and> (dd_main d = NoDb \<or> dd_main d = EmptyDb)) \<and>
     dd_wal d = None \<and> dd_marker d = NoMarker"

lemma auth_before_ok: "before_migration old d \<Longrightarrow> migration_ok auth_schema old d"
  by (auto simp: before_migration_def migration_ok_def old_file_def auth_parts)

text \<open>
  After any sequence of starts that die at any call, or fail at any call but the reading of the
  marker and \<^verbatim>\<open>stat\<close>, the store holds the old rows, or the migrated ones, or a restore is pending
  whose backup holds the old rows and is named by the marker. An undisturbed start then
  leaves the migrated rows and no marker, unless the marker was cut off while being written: then it
  fails with \<^verbatim>\<open>auth_migration_recovery_failed\<close> and changes nothing.
\<close>

theorem auth_migration_resumes:
  assumes "before_migration old d0" "\<forall>(F, G, u, closes) \<in> set runs. never_fails G" "calm F" "calm G"
  shows "let d = interrupted_starts init_auth runs d0 in
    (committed auth_schema d = Some old \<or> committed auth_schema d = Some (upgrade_auth () old) \<or>
      (\<exists>b. dd_marker d = Marker (auth_version old) 2 b \<and> (case b of Some v \<Rightarrow> dd_backup d v = Db old | None \<Rightarrow> old = A0))) \<and>
    (if dd_marker d = BadMarker then jrun (init_auth F G u) d = (d, Raised ''auth_migration_recovery_failed'')
     else \<exists>d'. jrun (init_auth F G u) d = (d', Done ()) \<and> dd_marker d' = NoMarker \<and>
       committed auth_schema d' = Some (upgrade_auth () old))"
proof -
  let ?d = "interrupted_starts init_auth runs d0"
  have v: "auth_version old < 2" using assms(1) by (simp add: before_migration_def)
  have "holds False (migration_ok auth_schema old) (init_auth F' G' u')
      (\<lambda>_ d. migration_ok auth_schema old d \<and> dd_marker d = NoMarker \<and> committed auth_schema d = Some (upgrade_auth () old))
      (migration_ok auth_schema old)" if "never_fails G'" for F' G' u'
    using init_auth_holds [OF that v, where C = False and F = F' and u = u'] by simp
  from au.interrupted_ok [OF this assms(2) auth_before_ok [OF assms(1)]]
  have ok: "migration_ok auth_schema old ?d" .
  have kept: "committed auth_schema ?d = Some old \<or> committed auth_schema ?d = Some (upgrade_auth () old) \<or>
      (\<exists>b. dd_marker ?d = Marker (auth_version old) 2 b \<and> (case b of Some v \<Rightarrow> dd_backup ?d v = Db old | None \<Rightarrow> old = A0))"
    using au.ok_committed [OF ok] by (auto simp: restorable_def auth_parts)
  have ends: "\<exists>d'. jrun (init_auth F G u) ?d = (d', Done ()) \<and> dd_marker d' = NoMarker \<and> committed auth_schema d' = Some (upgrade_auth () old)"
    if "dd_marker ?d \<noteq> BadMarker"
  proof -
    have nf: "never_fails G" using assms(4) by (simp add: calm_def never_fails_def)
    obtain d' x where run: "jrun (init_auth F G u) ?d = (d', x)" by fastforce
    show ?thesis using holds_run [OF init_auth_holds [OF nf v, where C = True and F = F and u = u], where w = ?d] that ok assms(3,4) run by auto
  qed
  show ?thesis unfolding Let_def using kept ends auth_bad_marker_raises [OF assms(3,4)] by simp
qed

text \<open>
  A database of schema 1 with one owner; the first start dies before \<^verbatim>\<open>COMMIT\<close>, the second in the
  middle of the restore.
\<close>

definition wit_v1 :: auth_image where
  "wit_v1 = A1 [\<lparr>own_id = ''owner'', own_createdAt = 1, own_bootstrapDigest = ''d'', own_bootstrapExpiresAt = 9, own_bootstrapConsumedAt = None, own_status = ACTIVE\<rparr>] [] []"

definition wit_dir :: "auth_image data_dir" where
  "wit_dir = \<lparr>dd_main = Db wit_v1, dd_wal = None, dd_backup = (\<lambda>v. NoDb), dd_marker = NoMarker\<rparr>"

definition wit_starts :: "(faults \<times> faults \<times> unit \<times> bool) list" where
  "wit_starts = [(crash_at 12, no_faults, (), False), (crash_at 7, no_faults, (), False)]"

theorem auth_migration_resumes_witness:
  "let d = interrupted_starts init_auth wit_starts wit_dir in
     dd_main d = TornDb \<and> (\<exists>d'. jrun (init_auth no_faults no_faults ()) d = (d', Done ()) \<and>
       committed auth_schema d' = Some (upgrade_auth () wit_v1))"
proof -
  have torn: "dd_main (interrupted_starts init_auth wit_starts wit_dir) = TornDb \<and> dd_marker (interrupted_starts init_auth wit_starts wit_dir) \<noteq> BadMarker"
    by code_simp
  have "before_migration wit_v1 wit_dir" by (simp add: before_migration_def wit_dir_def wit_v1_def auth_version_def)
  moreover have "\<forall>(F, G, u, closes) \<in> set wit_starts. never_fails G" by (simp add: wit_starts_def never_fails_no_faults)
  ultimately show ?thesis
    using auth_migration_resumes [of wit_v1 wit_dir wit_starts no_faults no_faults "()"] torn calm_no_faults
    by (auto simp: Let_def)
qed

end
