(* ===== verification/CleanJournal.thy ===== *)
theory CleanJournal
  imports ReleasePaths
begin

text \<open>
  The journal of a clean installation, \<^verbatim>\<open>scripts/release/clean-install-journal.mjs\<close>: its phases,
  the boundaries each transition must prove, the lock that guards it. The verifiers of the other
  release scripts are arguments: each answers, or throws.
\<close>

section \<open>Phases and the record\<close>

datatype phase = PreparedJ | IdentitiesIntent | IdentitiesReady | ConfigIntent | ConfigReady | UnitsIntent | UnitsReady
  | DataIntent | DataReady | ReleaseRootIntent | ReleaseRootReady | PromotionIntent | PromotionReady | PointerIntent | PointerReady
  | SystemdIntent | SystemdReady | AdmissionIntent | AdmissionReady | OwnerIntent | OwnerReady | StartupIntent | StartupReady

definition PHASES :: "phase list" where
  "PHASES = [PreparedJ, IdentitiesIntent, IdentitiesReady, ConfigIntent, ConfigReady, UnitsIntent, UnitsReady,
     DataIntent, DataReady, ReleaseRootIntent, ReleaseRootReady, PromotionIntent, PromotionReady, PointerIntent, PointerReady,
     SystemdIntent, SystemdReady, AdmissionIntent, AdmissionReady, OwnerIntent, OwnerReady, StartupIntent, StartupReady]"

fun index_of :: "'a \<Rightarrow> 'a list \<Rightarrow> nat" where
  "index_of x [] = 0"
| "index_of x (y # ys) = (if x = y then 0 else Suc (index_of x ys))"

definition phase_index :: "phase \<Rightarrow> nat" where
  "phase_index p = index_of p PHASES"

record identity_plan =
  ip_workUser :: string
  ip_workGroup :: string
  ip_ipcGroup :: string
  ip_agentUser :: string
  ip_mcpUser :: string
  ip_releaseRoot :: string
  ip_allowedRoot :: string
  ip_domain :: string

record clean_journal =
  cj_transactionId :: string
  cj_phase :: phase
  cj_workspace :: string
  cj_releaseRoot :: string
  cj_manifestSha256 :: string
  cj_artifactSha256 :: string
  cj_version :: string
  cj_commit :: string
  cj_identityPlan :: identity_plan

definition account_name :: "string \<Rightarrow> bool" where
  "account_name s \<longleftrightarrow> s \<noteq> [] \<and> (is_lower (hd s) \<or> hd s = CHR ''_'') \<and> length s \<le> 32 \<and>
     list_all (\<lambda>c. is_lower c \<or> is_digit c \<or> c \<in> set ''_-'') (tl s) \<and> s \<noteq> ''root''"

definition validate :: "clean_journal \<Rightarrow> bool" where
  "validate j \<longleftrightarrow> uuid_text (cj_transactionId j) \<and> hex_text 64 (cj_artifactSha256 j) \<and> hex_text 64 (cj_manifestSha256 j) \<and>
     hex_text 40 (cj_commit j) \<and> version_text (cj_version j) \<and>
     normalized_absolute (cj_workspace j) \<and> normalized_absolute (cj_releaseRoot j) \<and> cj_workspace j \<noteq> cj_releaseRoot j \<and>
     \<not> below (cj_workspace j) (cj_releaseRoot j) \<and> \<not> below (cj_releaseRoot j) (cj_workspace j) \<and>
     (let p = cj_identityPlan j in ip_releaseRoot p = cj_releaseRoot j \<and>
        list_all account_name [ip_workUser p, ip_workGroup p, ip_ipcGroup p, ip_agentUser p, ip_mcpUser p] \<and>
        take 1 (ip_allowedRoot p) = ''/'' \<and>
        ip_domain p \<noteq> [] \<and> list_all (\<lambda>c. is_lower c \<or> is_digit c \<or> c \<in> set ''.-'') (ip_domain p))"

section \<open>The directory of the journal\<close>

datatype journal_file = NoJournal | CutJournal | Journal clean_journal

text \<open>\<open>wd_locks\<close>: the lock files of the installation steps beside the journal, by their infix.\<close>

record workdir =
  wd_journal :: journal_file
  wd_lock :: bool
  wd_locks :: "string list"

datatype auth_mode = StaticAuth | OAuthMode | OtherAuth

datatype boundary = Identities | Config | UnitTargets | Units | DataTargets | Data phase auth_mode | ReleaseRootTarget | ReleaseRoot
  | Promoted | PromotedCurrent | Systemd | AdmissionTarget | Paused | ClosedIngress | OwnerData | Running | Health

record candidate =
  ca_artifactSha256 :: string
  ca_commit :: string
  ca_version :: string

text \<open>What the outside answers during one call: \<^term>\<open>Inl\<close> for a verifier that throws.\<close>

record outside =
  os_parentTrusted :: bool
  os_journalTrusted :: bool
  os_verify :: "string + candidate"
  os_plan :: "string + identity_plan"
  os_profile :: "string + auth_mode"
  os_inspect :: "boundary \<Rightarrow> string + bool"

definition readCleanInstallJournal :: "outside \<Rightarrow> workdir \<Rightarrow> string + clean_journal" where
  "readCleanInstallJournal ex w =
     (if \<not> os_parentTrusted ex then Inl ''Untrusted clean-install journal parent''
      else case wd_journal w of
        NoJournal \<Rightarrow> Inl ''ENOENT''
      | CutJournal \<Rightarrow> Inl ''SyntaxError''
      | Journal j \<Rightarrow> if \<not> os_journalTrusted ex then Inl ''Untrusted clean-install journal''
          else if validate j then Inr j else Inl ''Invalid clean-install journal'')"

definition startCleanInstallJournal ::
  "faults \<Rightarrow> outside \<Rightarrow> string \<Rightarrow> string \<Rightarrow> string \<Rightarrow> string \<Rightarrow> (workdir, clean_journal) job" where
  "startCleanInstallJournal F ex uuid workspace releaseRoot manifestSha256 =
     jbind (jlook F (\<lambda>w. if \<not> os_parentTrusted ex then Inl ''Untrusted clean-install journal parent'' else
        (case (os_verify ex, os_plan ex) of
           (Inl e, _) \<Rightarrow> Inl e | (_, Inl e) \<Rightarrow> Inl e
         | (Inr c, Inr p) \<Rightarrow>
            (let j = \<lparr>cj_transactionId = uuid, cj_phase = PreparedJ, cj_workspace = workspace, cj_releaseRoot = releaseRoot,
                      cj_manifestSha256 = manifestSha256, cj_artifactSha256 = ca_artifactSha256 c, cj_version = ca_version c,
                      cj_commit = ca_commit c, cj_identityPlan = p\<rparr>
             in if validate j then Inr j else Inl ''Invalid clean-install journal''))))
       (\<lambda>j. jbind (jcall F (\<lambda>w. if wd_journal w \<noteq> NoJournal then Inl ''EEXIST'' else Inr (w\<lparr>wd_journal := CutJournal\<rparr>, ()))) (\<lambda>_.
            jbind (jdo F (\<lambda>w. w\<lparr>wd_journal := Journal j\<rparr>)) (\<lambda>_.
            jbind (jdo F (\<lambda>w. w)) (\<lambda>_. jreturn j))))"

section \<open>What a transition must prove\<close>

definition from_phase :: "phase \<Rightarrow> phase \<Rightarrow> bool" where
  "from_phase nx p \<longleftrightarrow> phase_index nx \<ge> phase_index p"

definition static_startup :: "phase \<Rightarrow> phase \<Rightarrow> bool" where
  "static_startup expected nx \<longleftrightarrow> expected = AdmissionReady \<and> nx = StartupIntent"

definition needs_profile :: "phase \<Rightarrow> bool" where
  "needs_profile nx \<longleftrightarrow> nx \<in> set [OwnerIntent, OwnerReady, StartupIntent, StartupReady]"

definition profile_fits :: "phase \<Rightarrow> phase \<Rightarrow> auth_mode \<Rightarrow> bool" where
  "profile_fits expected nx mode \<longleftrightarrow> mode \<noteq> OtherAuth \<and> (static_startup expected nx \<longrightarrow> mode = StaticAuth) \<and>
     (nx \<in> set [OwnerIntent, OwnerReady] \<longrightarrow> mode = OAuthMode) \<and> (expected = OwnerReady \<longrightarrow> mode = OAuthMode)"

text \<open>The lock of an earlier step that must be gone, with the message when it is not.\<close>

definition unresolved_locks :: "phase \<Rightarrow> auth_mode \<Rightarrow> (string \<times> string) list" where
  "unresolved_locks nx mode =
     (case nx of
        ConfigIntent \<Rightarrow> [(''identity-install'', ''Identity installation has an unresolved lock'')]
      | UnitsIntent \<Rightarrow> [(''config-install'', ''Configuration installation has an unresolved lock'')]
      | DataIntent \<Rightarrow> [(''unit-install'', ''Unit installation has an unresolved lock'')]
      | ReleaseRootIntent \<Rightarrow> [(''data-install'', ''Data installation has an unresolved lock'')]
      | PromotionIntent \<Rightarrow> [(''release-root-install'', ''Version-root installation has an unresolved lock'')]
      | PointerIntent \<Rightarrow> [(''promotion-install'', ''Release promotion has an unresolved lock'')]
      | SystemdIntent \<Rightarrow> [(''pointer-install'', ''Clean-install pointer has an unresolved lock'')]
      | AdmissionIntent \<Rightarrow> [(''systemd-install'', ''Clean-install systemd reload has an unresolved lock'')]
      | OwnerIntent \<Rightarrow> [(''admission-install'', ''Clean-install admission pause has an unresolved lock'')]
      | StartupIntent \<Rightarrow> (''admission-install'', ''Clean-install admission pause has an unresolved lock'') #
          (if mode = OAuthMode then [(''owner-install'', ''Clean owner installation has an unresolved lock'')] else [])
      | _ \<Rightarrow> [])"

text \<open>The boundaries, in the order of the code, with the message when one is not proven.\<close>

definition boundaries :: "phase \<Rightarrow> auth_mode \<Rightarrow> (boundary \<times> string) list" where
  "boundaries nx mode =
     (if \<not> from_phase nx IdentitiesReady then [] else
       [(Identities, ''Created clean-install identities are unproven'')] @
       (if from_phase nx ConfigReady then [(Config, ''Installed clean-install configuration is unproven'')] else []) @
       (if nx = UnitsIntent then [(UnitTargets, ''Clean-install unit targets are occupied'')] else []) @
       (if from_phase nx UnitsReady then [(Units, ''Installed clean-install units are unproven'')] else []) @
       (if nx = DataIntent then [(DataTargets, ''Clean-install data targets are occupied'')] else []) @
       (if from_phase nx DataReady then [(Data nx mode, ''Installed clean-install data directories are unproven'')] else []) @
       (if nx = ReleaseRootIntent then [(ReleaseRootTarget, ''Clean-install version root target is occupied'')] else []) @
       (if nx \<in> set [ReleaseRootReady, PromotionIntent] then [(ReleaseRoot, ''Clean-install version root is unproven'')] else []) @
       (if nx \<in> set [PromotionReady, PointerIntent] then [(Promoted, ''Promoted clean-install release is unproven'')] else []) @
       (if nx \<in> set [PointerReady, SystemdIntent, SystemdReady] then [(PromotedCurrent, ''Clean-install current pointer is unproven'')] else []) @
       (if nx \<in> set [SystemdReady, AdmissionIntent, AdmissionReady, OwnerIntent, OwnerReady, StartupIntent]
        then [(Systemd, ''Clean-install systemd boundary is unproven'')] else []) @
       (if nx = AdmissionIntent then [(AdmissionTarget, ''Clean-install admission target is occupied'')] else []) @
       (if nx \<in> set [AdmissionReady, OwnerIntent, OwnerReady, StartupIntent, StartupReady]
        then [(Paused, ''Clean-install admission pause is unproven'')] else []) @
       (if nx \<in> set [StartupIntent, StartupReady] then [(ClosedIngress, ''Clean-install public ingress is not proven closed'')] else []) @
       (if mode = OAuthMode \<and> nx \<in> set [OwnerReady, StartupIntent, StartupReady]
        then [(OwnerData, ''Clean-install OAuth owner is unproven'')] else []) @
       (if nx = StartupReady then [(Running, ''Clean-install running services or paused health are unproven''),
          (Health, ''Clean-install running services or paused health are unproven'')] else []))"

section \<open>A transition\<close>

definition check_transition :: "outside \<Rightarrow> string \<Rightarrow> phase \<Rightarrow> phase \<Rightarrow> workdir \<Rightarrow> string + clean_journal" where
  "check_transition ex transactionId expected nx w = (case readCleanInstallJournal ex w of Inl e \<Rightarrow> Inl e | Inr current \<Rightarrow>
     if cj_transactionId current \<noteq> transactionId \<or> cj_phase current \<noteq> expected \<or>
        (\<not> static_startup expected nx \<and> phase_index nx \<noteq> phase_index expected + 1)
     then Inl ''Clean-install journal transition rejected''
     else (case os_verify ex of Inl e \<Rightarrow> Inl e | Inr c \<Rightarrow>
       if ca_artifactSha256 c \<noteq> cj_artifactSha256 current \<or> ca_commit c \<noteq> cj_commit current \<or> ca_version c \<noteq> cj_version current
       then Inl ''Clean-install candidate changed during transaction''
       else (case os_plan ex of Inl e \<Rightarrow> Inl e | Inr p \<Rightarrow>
         if p \<noteq> cj_identityPlan current then Inl ''Clean-install identity plan changed during transaction'' else Inr current)))"

definition auth_profile :: "outside \<Rightarrow> phase \<Rightarrow> phase \<Rightarrow> string + auth_mode" where
  "auth_profile ex expected nx = (if \<not> needs_profile nx then Inr StaticAuth
     else (case os_profile ex of Inl e \<Rightarrow> Inl e
       | Inr mode \<Rightarrow> if profile_fits expected nx mode then Inr mode
           else Inl ''Clean-install authorization phase does not match its bound profile''))"

text \<open>\<^verbatim>\<open>lstat\<close> of a lock file: \<^verbatim>\<open>ENOENT\<close> is the good answer.\<close>

definition require_absent :: "faults \<Rightarrow> string \<times> string \<Rightarrow> (workdir, unit) job" where
  "require_absent F lock = jcatch
     (jbind (jlook F (\<lambda>w. if fst lock \<in> set (wd_locks w) then Inr () else Inl ''ENOENT'')) (\<lambda>_. jraise (snd lock)))
     (\<lambda>e. if e = ''ENOENT'' then jreturn () else jraise e)"

fun require_all_absent :: "faults \<Rightarrow> (string \<times> string) list \<Rightarrow> (workdir, unit) job" where
  "require_all_absent F [] = jreturn ()"
| "require_all_absent F (l # ls) = jbind (require_absent F l) (\<lambda>_. require_all_absent F ls)"

fun prove_boundaries :: "faults \<Rightarrow> outside \<Rightarrow> (boundary \<times> string) list \<Rightarrow> (workdir, unit) job" where
  "prove_boundaries F ex [] = jreturn ()"
| "prove_boundaries F ex ((b, message) # bs) =
     jbind (jlook F (\<lambda>w. case os_inspect ex b of Inl e \<Rightarrow> Inl e | Inr ok \<Rightarrow> if ok then Inr () else Inl message)) (\<lambda>_. prove_boundaries F ex bs)"

definition unlink_lock :: "workdir \<Rightarrow> workdir" where
  "unlink_lock w = w\<lparr>wd_lock := False\<rparr>"

text \<open>The temporary file is complete and synced before the rename.\<close>

definition write_journal :: "faults \<Rightarrow> clean_journal \<Rightarrow> (workdir, clean_journal) job" where
  "write_journal F nextJ =
     jbind (jdo F (\<lambda>w. w)) (\<lambda>_.
     jbind (jcatch (jbind (jdo F (\<lambda>w. w\<lparr>wd_journal := Journal nextJ\<rparr>)) (\<lambda>_. jdo F (\<lambda>w. w)))
              (\<lambda>e. jbind (jcatch (jdo F (\<lambda>w. w)) (\<lambda>e'. jreturn ())) (\<lambda>_. jraise e))) (\<lambda>_.
     jbind (jcall F (\<lambda>w. if wd_lock w then Inr (unlink_lock w, ()) else Inl ''ENOENT'')) (\<lambda>_.
     jbind (jdo F (\<lambda>w. w)) (\<lambda>_. jreturn nextJ))))"

definition transition_body :: "faults \<Rightarrow> outside \<Rightarrow> string \<Rightarrow> phase \<Rightarrow> phase \<Rightarrow> (workdir, clean_journal) job" where
  "transition_body F ex transactionId expected nx =
     jbind (jlook F (check_transition ex transactionId expected nx)) (\<lambda>current.
     jbind (jlook F (\<lambda>w. auth_profile ex expected nx)) (\<lambda>mode.
     jbind (require_all_absent F (unresolved_locks nx mode)) (\<lambda>_.
     jbind (prove_boundaries F ex (boundaries nx mode)) (\<lambda>_.
     jbind (jlook F (\<lambda>w. if validate (current\<lparr>cj_phase := nx\<rparr>) then Inr () else Inl ''Invalid clean-install journal'')) (\<lambda>_.
       write_journal F (current\<lparr>cj_phase := nx\<rparr>))))))"

text \<open>The errors after which the lock is removed again.\<close>

definition retryable :: "string \<Rightarrow> bool" where
  "retryable e \<longleftrightarrow> e = ''ENOENT'' \<or> mentions ''transition rejected'' e \<or> mentions ''candidate changed'' e"

definition advanceCleanInstallJournal :: "faults \<Rightarrow> outside \<Rightarrow> string \<Rightarrow> phase \<Rightarrow> phase \<Rightarrow> (workdir, clean_journal) job" where
  "advanceCleanInstallJournal F ex transactionId expected nx =
     jbind (jlook F (\<lambda>w. if os_parentTrusted ex then Inr () else Inl ''Untrusted clean-install journal parent'')) (\<lambda>_.
     jbind (jcall F (\<lambda>w. if wd_lock w then Inl ''EEXIST'' else Inr (w\<lparr>wd_lock := True\<rparr>, ()))) (\<lambda>_.
     jbind (jdo F (\<lambda>w. w)) (\<lambda>_. jbind (jdo F (\<lambda>w. w)) (\<lambda>_.
       jcatch (transition_body F ex transactionId expected nx)
         (\<lambda>e. if retryable e
              then jbind (jcatch (jdo F unlink_lock) (\<lambda>e'. jreturn ())) (\<lambda>_. jbind (jdo F (\<lambda>w. w)) (\<lambda>_. jraise e))
              else jraise e)))))"

end
