(* ===== verification/CleanJournal_Props.thy ===== *)
theory CleanJournal_Props
  imports CleanJournal
begin

text \<open>
  The journal of a clean installation moves only forward, one proven phase at a time, whatever fails
  and whoever calls.
\<close>

section \<open>One call\<close>

text \<open>No call reports a missing file that is there.\<close>

definition honest :: "faults \<Rightarrow> bool" where
  "honest F \<longleftrightarrow> (\<forall>n. F n \<noteq> FailWith ''ENOENT'')"

text \<open>What a transition of the journal \<open>j\<close> from \<open>expected\<close> to \<open>nx\<close> has been shown.\<close>

definition proven :: "outside \<Rightarrow> string list \<Rightarrow> clean_journal \<Rightarrow> phase \<Rightarrow> phase \<Rightarrow> bool" where
  "proven ex locks j expected nx \<longleftrightarrow> (static_startup expected nx \<or> phase_index nx = phase_index expected + 1) \<and>
     os_verify ex = Inr \<lparr>ca_artifactSha256 = cj_artifactSha256 j, ca_commit = cj_commit j, ca_version = cj_version j\<rparr> \<and>
     os_plan ex = Inr (cj_identityPlan j) \<and>
     (\<exists>mode. auth_profile ex expected nx = Inr mode \<and>
        (\<forall>l \<in> set (unresolved_locks nx mode). fst l \<notin> set locks) \<and>
        (\<forall>b \<in> set (boundaries nx mode). os_inspect ex (fst b) = Inr True))"

lemma require_absent_holds:
  assumes "honest F" "snd l \<noteq> ''ENOENT''" "\<And>w. P w \<Longrightarrow> R w"
  shows "holds False P (require_absent F l) (\<lambda>_ w. P w \<and> fst l \<notin> set (wd_locks w)) R"
  unfolding holds_def
proof (intro allI impI)
  fix s :: "workdir run" assume P: "P (rn_world s)"
  show "R (rn_world (fst (require_absent F l s))) \<and>
      (\<forall>v. snd (require_absent F l s) = Done v \<longrightarrow> P (rn_world (fst (require_absent F l s))) \<and> fst l \<notin> set (wd_locks (rn_world (fst (require_absent F l s))))) \<and>
      (False \<longrightarrow> (\<exists>v. snd (require_absent F l s) = Done v))"
    using P assms by (cases "F (rn_calls s)")
      (auto simp: require_absent_def jcatch_def jbind_def jlook_def jcall_def jraise_def jreturn_def honest_def Let_def)
qed

lemma unresolved_message: "l \<in> set (unresolved_locks nx mode) \<Longrightarrow> snd l \<noteq> ''ENOENT''"
  by (auto simp: unresolved_locks_def split: phase.splits if_splits)

lemma require_all_absent_holds:
  "honest F \<Longrightarrow> (\<And>w. P w \<Longrightarrow> R w) \<Longrightarrow> (\<forall>l \<in> set ls. snd l \<noteq> ''ENOENT'') \<Longrightarrow>
    holds False P (require_all_absent F ls) (\<lambda>_ w. P w \<and> (\<forall>l \<in> set ls. fst l \<notin> set (wd_locks w))) R"
proof (induction ls arbitrary: P)
  case Nil
  then show ?case by (auto intro!: holds_return)
next
  case (Cons l ls)
  have rest: "holds False (\<lambda>w. P w \<and> fst l \<notin> set (wd_locks w)) (require_all_absent F ls)
      (\<lambda>_ w. P w \<and> (\<forall>l \<in> set (l # ls). fst l \<notin> set (wd_locks w))) R"
    by (rule holds_weaken [OF Cons.IH [of "\<lambda>w. P w \<and> fst l \<notin> set (wd_locks w)"]]) (use Cons.prems in auto)
  have one: "holds False P (require_absent F l) (\<lambda>_ w. P w \<and> fst l \<notin> set (wd_locks w)) R"
    by (rule require_absent_holds) (use Cons.prems in auto)
  show ?case unfolding require_all_absent.simps by (rule holds_bind [OF one rest])
qed

lemma prove_boundaries_holds:
  "(\<And>w. P w \<Longrightarrow> R w) \<Longrightarrow>
    holds False P (prove_boundaries F ex bs) (\<lambda>_ w. P w \<and> (\<forall>b \<in> set bs. os_inspect ex (fst b) = Inr True)) R"
proof (induction F ex bs arbitrary: P rule: prove_boundaries.induct)
  case (1 F ex)
  then show ?case by (auto intro!: holds_return)
next
  case (2 F ex b message bs)
  have look: "holds False P (jlook F (\<lambda>w. case os_inspect ex b of Inl e \<Rightarrow> Inl e | Inr ok \<Rightarrow> if ok then Inr () else Inl message))
      (\<lambda>_ w. P w \<and> os_inspect ex b = Inr True) R"
    by (rule holds_look) (use 2(2) in \<open>auto split: sum.splits if_splits\<close>)
  have rest: "holds False (\<lambda>w. P w \<and> os_inspect ex b = Inr True) (prove_boundaries F ex bs)
      (\<lambda>_ w. P w \<and> (\<forall>b' \<in> set ((b, message) # bs). os_inspect ex (fst b') = Inr True)) R"
    by (rule holds_weaken [OF 2(1) [of "\<lambda>w. P w \<and> os_inspect ex b = Inr True"]]) (use 2(2) in auto)
  show ?case unfolding prove_boundaries.simps by (rule holds_bind [OF look rest])
qed

text \<open>The journal is the one before the call, or has moved by a proven transition.\<close>

definition moved :: "outside \<Rightarrow> string list \<Rightarrow> clean_journal \<Rightarrow> phase \<Rightarrow> phase \<Rightarrow> workdir \<Rightarrow> bool" where
  "moved ex locks j expected nx w \<longleftrightarrow> wd_journal w = Journal j \<or>
     (cj_phase j = expected \<and> proven ex locks j expected nx \<and> wd_journal w = Journal (j\<lparr>cj_phase := nx\<rparr>))"

lemma write_journal_holds:
  assumes "cj_phase j = expected" "proven ex locks j expected nx"
  shows "holds False (\<lambda>w. wd_journal w = Journal j) (write_journal F (j\<lparr>cj_phase := nx\<rparr>))
    (\<lambda>v. moved ex locks j expected nx) (moved ex locks j expected nx)" (is "holds _ ?P _ _ ?R")
proof -
  have n: "holds False S (jdo F (\<lambda>w. w)) (\<lambda>_. S) ?R" if "\<And>w. S w \<Longrightarrow> ?R w" for S
    by (rule holds_noop) (use that in auto)
  have undo: "holds False ?R (jbind (jcatch (jdo F (\<lambda>w. w)) (\<lambda>e'. jreturn ())) (\<lambda>_. jraise e)) (\<lambda>_. ?R) ?R" for e :: string
  proof (rule holds_bind)
    show "holds False ?R (jcatch (jdo F (\<lambda>w. w)) (\<lambda>e'. jreturn ())) (\<lambda>_. ?R) ?R"
      by (rule holds_catch [OF n _ _ n]) (auto intro!: holds_return)
  qed (rule holds_raise, auto)
  have step: "holds False ?P (jdo F (\<lambda>w. w\<lparr>wd_journal := Journal (j\<lparr>cj_phase := nx\<rparr>)\<rparr>)) (\<lambda>_. ?R) ?R"
    by (rule holds_do) (use assms in \<open>auto simp: moved_def\<close>)
  have go: "holds False ?P (jbind (jdo F (\<lambda>w. w\<lparr>wd_journal := Journal (j\<lparr>cj_phase := nx\<rparr>)\<rparr>)) (\<lambda>_. jdo F (\<lambda>w. w))) (\<lambda>_. ?R) ?R"
    by (rule holds_bind [OF step n]) auto
  have out: "holds False ?P (jcatch (jbind (jdo F (\<lambda>w. w\<lparr>wd_journal := Journal (j\<lparr>cj_phase := nx\<rparr>)\<rparr>)) (\<lambda>_. jdo F (\<lambda>w. w)))
      (\<lambda>e. jbind (jcatch (jdo F (\<lambda>w. w)) (\<lambda>e'. jreturn ())) (\<lambda>_. jraise e))) (\<lambda>_. ?R) ?R"
    by (rule holds_catch [OF go undo _ go]) auto
  have unlock: "holds False ?R (jcall F (\<lambda>w. if wd_lock w then Inr (unlink_lock w, ()) else Inl ''ENOENT'')) (\<lambda>_. ?R) ?R"
    by (rule holds_call) (auto simp: unlink_lock_def moved_def split: if_splits)
  have finish: "holds False ?R (jbind (jdo F (\<lambda>w. w)) (\<lambda>_. jreturn (j\<lparr>cj_phase := nx\<rparr>))) (\<lambda>_. ?R) ?R"
    by (rule holds_bind [OF n]) (auto intro!: holds_return)
  show ?thesis unfolding write_journal_def
    by (rule holds_bind [OF n [of ?P] holds_bind [OF out holds_bind [OF unlock finish]]]) (auto simp: moved_def)
qed

lemma checked_transition:
  assumes "check_transition ex tid expected nx w = Inr current" "wd_journal w = Journal j"
  shows "current = j \<and> cj_phase j = expected \<and> cj_transactionId j = tid \<and> (static_startup expected nx \<or> phase_index nx = phase_index expected + 1) \<and>
     os_verify ex = Inr \<lparr>ca_artifactSha256 = cj_artifactSha256 j, ca_commit = cj_commit j, ca_version = cj_version j\<rparr> \<and>
     os_plan ex = Inr (cj_identityPlan j)"
  using assms by (auto simp: check_transition_def readCleanInstallJournal_def split: if_splits sum.splits)

lemma transition_holds:
  assumes "honest F"
  shows "holds False (\<lambda>w. wd_journal w = Journal j \<and> wd_locks w = locks) (transition_body F ex tid expected nx)
    (\<lambda>v. moved ex locks j expected nx) (moved ex locks j expected nx)" (is "holds _ ?P _ _ ?R")
  unfolding transition_body_def
proof (rule holds_bind)
  let ?E = "cj_phase j = expected \<and> (static_startup expected nx \<or> phase_index nx = phase_index expected + 1) \<and>
     os_verify ex = Inr \<lparr>ca_artifactSha256 = cj_artifactSha256 j, ca_commit = cj_commit j, ca_version = cj_version j\<rparr> \<and>
     os_plan ex = Inr (cj_identityPlan j)"
  have R: "?P w \<Longrightarrow> ?R w" for w by (simp add: moved_def)
  show "holds False ?P (jlook F (check_transition ex tid expected nx)) (\<lambda>current w. ?P w \<and> current = j \<and> ?E) ?R"
    by (rule holds_look) (use R checked_transition in \<open>simp, blast, simp, simp\<close>)
  fix current
  let ?S1 = "\<lambda>mode w. ?P w \<and> current = j \<and> ?E \<and> auth_profile ex expected nx = Inr mode"
  let ?S2 = "\<lambda>mode w. ?S1 mode w \<and> (\<forall>l \<in> set (unresolved_locks nx mode). fst l \<notin> set (wd_locks w))"
  let ?S3 = "\<lambda>mode w. ?S2 mode w \<and> (\<forall>b \<in> set (boundaries nx mode). os_inspect ex (fst b) = Inr True)"
  have prof: "holds False (\<lambda>w. ?P w \<and> current = j \<and> ?E) (jlook F (\<lambda>w. auth_profile ex expected nx)) ?S1 ?R"
    by (rule holds_look) (use R in auto)
  have locks: "holds False (?S1 mode) (require_all_absent F (unresolved_locks nx mode)) (\<lambda>_. ?S2 mode) ?R" for mode
    by (rule require_all_absent_holds) (use assms R unresolved_message in auto)
  have bounds: "holds False (?S2 mode) (prove_boundaries F ex (boundaries nx mode)) (\<lambda>_. ?S3 mode) ?R" for mode
    by (rule prove_boundaries_holds) (use R in auto)
  have valid: "holds False (?S3 mode) (jlook F (\<lambda>w. if validate (current\<lparr>cj_phase := nx\<rparr>) then Inr () else Inl ''Invalid clean-install journal''))
      (\<lambda>_. ?S3 mode) ?R" for mode
    by (rule holds_look) (use R in \<open>auto split: if_splits\<close>)
  have wrote: "holds False (?S3 mode) (write_journal F (current\<lparr>cj_phase := nx\<rparr>)) (\<lambda>v. ?R) ?R" for mode
  proof (cases "current = j \<and> (\<exists>w. ?S3 mode w)")
    case True
    then have "proven ex locks j expected nx" "cj_phase j = expected" by (auto simp: proven_def)
    from write_journal_holds [OF this(2,1), of F] show ?thesis using True by (auto simp: holds_def)
  next
    case False
    then have no: "?S3 mode = (\<lambda>w. False)" by (auto simp: fun_eq_iff)
    show ?thesis unfolding no by (rule holds_false)
  qed
  show "holds False (\<lambda>w. ?P w \<and> current = j \<and> ?E)
     (jbind (jlook F (\<lambda>w. auth_profile ex expected nx)) (\<lambda>mode.
     jbind (require_all_absent F (unresolved_locks nx mode)) (\<lambda>_.
     jbind (prove_boundaries F ex (boundaries nx mode)) (\<lambda>_.
     jbind (jlook F (\<lambda>w. if validate (current\<lparr>cj_phase := nx\<rparr>) then Inr () else Inl ''Invalid clean-install journal'')) (\<lambda>_.
       write_journal F (current\<lparr>cj_phase := nx\<rparr>)))))) (\<lambda>v. ?R) ?R"
    by (rule holds_bind [OF prof holds_bind [OF locks holds_bind [OF bounds holds_bind [OF valid wrote]]]])
qed

lemma advance_holds:
  assumes "honest F"
  shows "holds False (\<lambda>w. wd_journal w = Journal j \<and> wd_locks w = locks) (advanceCleanInstallJournal F ex tid expected nx)
    (\<lambda>v. moved ex locks j expected nx) (moved ex locks j expected nx)" (is "holds _ ?P _ _ ?R")
proof -
  have R: "?P w \<Longrightarrow> ?R w" for w by (simp add: moved_def)
  have n: "holds False S (jdo F (\<lambda>w. w)) (\<lambda>_. S) ?R" if "\<And>w. S w \<Longrightarrow> ?R w" for S
    by (rule holds_noop) (use that in auto)
  have a: "holds False ?P (jlook F (\<lambda>w. if os_parentTrusted ex then Inr () else Inl ''Untrusted clean-install journal parent'')) (\<lambda>_. ?P) ?R"
    by (rule holds_look) (use R in auto)
  have b: "holds False ?P (jcall F (\<lambda>w. if wd_lock w then Inl ''EEXIST'' else Inr (w\<lparr>wd_lock := True\<rparr>, ()))) (\<lambda>_. ?P) ?R"
    by (rule holds_call) (use R in \<open>auto simp: moved_def split: if_splits\<close>)
  have unlink: "holds False ?R (jdo F unlink_lock) (\<lambda>_. ?R) ?R"
    by (rule holds_do) (auto simp: moved_def unlink_lock_def)
  have handler: "holds False ?R (if retryable e then jbind (jcatch (jdo F unlink_lock) (\<lambda>e'. jreturn ())) (\<lambda>_. jbind (jdo F (\<lambda>w. w)) (\<lambda>_. jraise e))
      else jraise e) (\<lambda>v. ?R) ?R" for e
  proof (rule holds_if)
    have c: "holds False ?R (jcatch (jdo F unlink_lock) (\<lambda>e'. jreturn ())) (\<lambda>_. ?R) ?R"
      by (rule holds_catch [OF unlink _ _ unlink]) (auto intro!: holds_return)
    have d: "holds False ?R (jbind (jdo F (\<lambda>w. w)) (\<lambda>_. jraise e)) (\<lambda>v. ?R) ?R"
      by (rule holds_bind [OF n]) (auto intro!: holds_raise)
    show "holds False ?R (jbind (jcatch (jdo F unlink_lock) (\<lambda>e'. jreturn ())) (\<lambda>_. jbind (jdo F (\<lambda>w. w)) (\<lambda>_. jraise e))) (\<lambda>v. ?R) ?R"
      by (rule holds_bind [OF c d])
  qed (rule holds_raise, simp)
  have t: "holds False ?P (jcatch (transition_body F ex tid expected nx)
         (\<lambda>e. if retryable e
              then jbind (jcatch (jdo F unlink_lock) (\<lambda>e'. jreturn ())) (\<lambda>_. jbind (jdo F (\<lambda>w. w)) (\<lambda>_. jraise e))
              else jraise e)) (\<lambda>v. ?R) ?R"
    by (rule holds_catch [OF transition_holds [OF assms] handler _ transition_holds [OF assms]]) auto
  show ?thesis unfolding advanceCleanInstallJournal_def
    by (rule holds_bind [OF a holds_bind [OF b holds_bind [OF n [of ?P] holds_bind [OF n [of ?P] t]]]]) (use R in auto)
qed

section \<open>Many calls\<close>

text \<open>
  A call, with the lock files of the installation steps that lie beside the journal at its time, and
  whether the operator has removed the lock of the journal before it.
\<close>

record call =
  ca_faults :: faults
  ca_outside :: outside
  ca_transactionId :: string
  ca_expected :: phase
  ca_next :: phase
  ca_locks :: "string list"
  ca_unlocked :: bool

definition prepare_call :: "call \<Rightarrow> workdir \<Rightarrow> workdir" where
  "prepare_call c w = w\<lparr>wd_locks := ca_locks c, wd_lock := (wd_lock w \<and> \<not> ca_unlocked c)\<rparr>"

fun run_calls :: "call list \<Rightarrow> workdir \<Rightarrow> workdir" where
  "run_calls [] w = w"
| "run_calls (c # cs) w = run_calls cs (fst (jrun
     (advanceCleanInstallJournal (ca_faults c) (ca_outside c) (ca_transactionId c) (ca_expected c) (ca_next c)) (prepare_call c w)))"

definition proves :: "call \<Rightarrow> clean_journal \<Rightarrow> phase \<Rightarrow> phase \<Rightarrow> bool" where
  "proves c j p q \<longleftrightarrow> ca_expected c = p \<and> ca_next c = q \<and> proven (ca_outside c) (ca_locks c) j p q"

text \<open>A route to a phase: each step is proven by one of the calls.\<close>

inductive proven_route :: "call set \<Rightarrow> clean_journal \<Rightarrow> phase \<Rightarrow> bool" for C j where
  start: "proven_route C j PreparedJ"
| step: "proven_route C j p \<Longrightarrow> c \<in> C \<Longrightarrow> proves c j p q \<Longrightarrow> proven_route C j q"

inductive_cases proven_routeE: "proven_route C j p"

lemma proven_phase: "proven ex locks (j\<lparr>cj_phase := p\<rparr>) a b = proven ex locks j a b"
  by (simp add: proven_def)

lemma proven_route_mono: "proven_route C j p \<Longrightarrow> C \<subseteq> D \<Longrightarrow> proven_route D j p"
  by (induction rule: proven_route.induct) (auto intro: proven_route.intros)

lemma run_calls_route:
  assumes "\<forall>c \<in> set cs. honest (ca_faults c)" "set cs \<subseteq> C" "wd_journal w = Journal (j\<lparr>cj_phase := p\<rparr>)" "proven_route C j p"
  shows "\<exists>q. wd_journal (run_calls cs w) = Journal (j\<lparr>cj_phase := q\<rparr>) \<and> proven_route C j q"
  using assms
proof (induction cs arbitrary: w p)
  case (Cons c cs)
  let ?m = "advanceCleanInstallJournal (ca_faults c) (ca_outside c) (ca_transactionId c) (ca_expected c) (ca_next c)"
  let ?w = "fst (jrun ?m (prepare_call c w))"
  have h: "honest (ca_faults c)" "c \<in> C" using Cons.prems(1,2) by auto
  have pre: "wd_journal (prepare_call c w) = Journal (j\<lparr>cj_phase := p\<rparr>) \<and> wd_locks (prepare_call c w) = ca_locks c"
    using Cons.prems(3) by (simp add: prepare_call_def)
  have m: "moved (ca_outside c) (ca_locks c) (j\<lparr>cj_phase := p\<rparr>) (ca_expected c) (ca_next c) ?w"
    using holds_run [OF advance_holds [OF h(1)] pre] by blast
  then have "\<exists>q. wd_journal ?w = Journal (j\<lparr>cj_phase := q\<rparr>) \<and> proven_route C j q"
    unfolding moved_def
  proof
    assume "cj_phase (j\<lparr>cj_phase := p\<rparr>) = ca_expected c \<and> proven (ca_outside c) (ca_locks c) (j\<lparr>cj_phase := p\<rparr>) (ca_expected c) (ca_next c) \<and>
      wd_journal ?w = Journal (j\<lparr>cj_phase := p, cj_phase := ca_next c\<rparr>)"
    then have "proves c j p (ca_next c)" "wd_journal ?w = Journal (j\<lparr>cj_phase := ca_next c\<rparr>)" by (auto simp: proves_def proven_phase)
    then show ?thesis using proven_route.step [OF Cons.prems(4) h(2)] by blast
  qed (use Cons.prems(4) in blast)
  then obtain q where "wd_journal ?w = Journal (j\<lparr>cj_phase := q\<rparr>)" "proven_route C j q" by blast
  then show ?case using Cons.IH [of ?w q] Cons.prems(1,2) by simp
qed auto

section \<open>What a route passes\<close>

lemma phase_index_inj: "phase_index a = phase_index b \<Longrightarrow> a = b"
  by (cases a; cases b) (simp_all add: phase_index_def PHASES_def)

lemma route_passes:
  "proven_route C j p \<Longrightarrow> q \<noteq> PreparedJ \<Longrightarrow> q \<noteq> OwnerIntent \<Longrightarrow> q \<noteq> OwnerReady \<Longrightarrow> phase_index q \<le> phase_index p \<Longrightarrow>
     \<exists>c \<in> C. \<exists>a. proves c j a q"
proof (induction rule: proven_route.induct)
  case start
  then show ?case by (cases q) (simp_all add: phase_index_def PHASES_def)
next
  case (step p c r)
  show ?case
  proof (cases "q = r")
    case True
    then show ?thesis using step.hyps by blast
  next
    case False
    have "phase_index q \<le> phase_index p"
    proof (cases "static_startup p r")
      case True
      then show ?thesis using step.prems False by (cases q) (simp_all add: static_startup_def phase_index_def PHASES_def)
    next
      case no: False
      have "phase_index r = phase_index p + 1" using step.hyps(3) no by (auto simp: proves_def proven_def)
      moreover have "phase_index q \<noteq> phase_index r" using False phase_index_inj by blast
      ultimately show ?thesis using step.prems(4) by simp
    qed
    then show ?thesis using step.IH step.prems by blast
  qed
qed

text \<open>
  C33. Whatever calls are made on a prepared journal, with whatever failures and crashes in them and
  locks removed by hand between them, the journal keeps its record and its phase is reached by a
  route of proven transitions: every phase up to it, but the two of the owner that a
  static installation skips, was entered by a call that found the signed candidate and the identity plan
  unchanged, the locks of the earlier steps gone and every boundary of that phase proven.
\<close>

theorem clean_install_in_order:
  assumes "\<forall>c \<in> set cs. honest (ca_faults c)" "wd_journal w = Journal j" "cj_phase j = PreparedJ"
  shows "\<exists>p. wd_journal (run_calls cs w) = Journal (j\<lparr>cj_phase := p\<rparr>) \<and> proven_route (set cs) j p \<and>
    (\<forall>q. q \<notin> {PreparedJ, OwnerIntent, OwnerReady} \<and> phase_index q \<le> phase_index p \<longrightarrow> (\<exists>c \<in> set cs. \<exists>a. proves c j a q))"
proof -
  have "wd_journal w = Journal (j\<lparr>cj_phase := PreparedJ\<rparr>)" using assms(2,3) by simp
  from run_calls_route [OF assms(1) order_refl this proven_route.start]
  obtain p where "wd_journal (run_calls cs w) = Journal (j\<lparr>cj_phase := p\<rparr>)" "proven_route (set cs) j p" by blast
  then show ?thesis using route_passes by blast
qed

text \<open>Two transitions, between them one out of order and one that dies.\<close>

definition wit_identity_plan :: identity_plan where
  "wit_identity_plan = \<lparr>ip_workUser = ''w'', ip_workGroup = ''w'', ip_ipcGroup = ''i'', ip_agentUser = ''a'', ip_mcpUser = ''m'',
     ip_releaseRoot = ''/opt/r'', ip_allowedRoot = ''/home'', ip_domain = ''d.ru''\<rparr>"

definition wit_journal :: clean_journal where
  "wit_journal = \<lparr>cj_transactionId = replicate 36 CHR ''0'', cj_phase = PreparedJ, cj_workspace = ''/root/ws'', cj_releaseRoot = ''/opt/r'',
     cj_manifestSha256 = replicate 64 CHR ''1'', cj_artifactSha256 = replicate 64 CHR ''2'', cj_version = ''1.2.3-rc.1'', cj_commit = replicate 40 CHR ''3'',
     cj_identityPlan = wit_identity_plan\<rparr>"

definition wit_outside :: outside where
  "wit_outside = \<lparr>os_parentTrusted = True, os_journalTrusted = True,
     os_verify = Inr \<lparr>ca_artifactSha256 = replicate 64 CHR ''2'', ca_commit = replicate 40 CHR ''3'', ca_version = ''1.2.3-rc.1''\<rparr>,
     os_plan = Inr wit_identity_plan, os_profile = Inr StaticAuth, os_inspect = (\<lambda>b. Inr True)\<rparr>"

definition wit_call :: "phase \<Rightarrow> phase \<Rightarrow> faults \<Rightarrow> call" where
  "wit_call p q F = \<lparr>ca_faults = F, ca_outside = wit_outside, ca_transactionId = replicate 36 CHR ''0'', ca_expected = p, ca_next = q, ca_locks = [], ca_unlocked = True\<rparr>"

definition wit_calls :: "call list" where
  "wit_calls = [wit_call PreparedJ IdentitiesIntent no_faults, wit_call IdentitiesIntent ConfigReady no_faults,
     wit_call IdentitiesIntent IdentitiesReady (crash_at 5), wit_call IdentitiesIntent IdentitiesReady no_faults]"

definition wit_workdir :: workdir where
  "wit_workdir = \<lparr>wd_journal = Journal wit_journal, wd_lock = False, wd_locks = []\<rparr>"

theorem clean_install_in_order_witness:
  "wd_journal (run_calls wit_calls wit_workdir) = Journal (wit_journal\<lparr>cj_phase := IdentitiesReady\<rparr>) \<and>
    (\<exists>c \<in> set wit_calls. \<exists>a. proves c wit_journal a IdentitiesReady)"
proof -
  have run: "wd_journal (run_calls wit_calls wit_workdir) = Journal (wit_journal\<lparr>cj_phase := IdentitiesReady\<rparr>)" by code_simp
  have h: "\<forall>c \<in> set wit_calls. honest (ca_faults c)" by (simp add: wit_calls_def wit_call_def honest_def no_faults_def crash_at_def)
  obtain p where p: "wd_journal (run_calls wit_calls wit_workdir) = Journal (wit_journal\<lparr>cj_phase := p\<rparr>)"
    "\<forall>q. q \<notin> {PreparedJ, OwnerIntent, OwnerReady} \<and> phase_index q \<le> phase_index p \<longrightarrow> (\<exists>c \<in> set wit_calls. \<exists>a. proves c wit_journal a q)"
    using clean_install_in_order [OF h, of wit_workdir wit_journal] by (auto simp: wit_workdir_def wit_journal_def)
  have "wit_journal\<lparr>cj_phase := p\<rparr> = wit_journal\<lparr>cj_phase := IdentitiesReady\<rparr>" using p(1) run by simp
  then have "p = IdentitiesReady" by (metis clean_journal.select_convs(2) clean_journal.surjective clean_journal.update_convs(2))
  then show ?thesis using p(2) run by auto
qed

section \<open>The lock\<close>

lemma locked_refuses:
  "calm F \<Longrightarrow> os_parentTrusted ex \<Longrightarrow> wd_lock w \<Longrightarrow> jrun (advanceCleanInstallJournal F ex tid expected nx) w = (w, Raised ''EEXIST'')"
  by (simp add: jrun_def advanceCleanInstallJournal_def jbind_def jlook_def jcall_def calm_def Let_def)

text \<open>
  A transition that is refused before anything is written is undone only for the messages of
  \<^const>\<open>retryable\<close>; after any other the lock stays, and every further call is refused.
\<close>

lemma refused_leaves_lock:
  assumes "calm F" "os_parentTrusted ex" "\<not> wd_lock w" "check_transition ex tid expected nx (w\<lparr>wd_lock := True\<rparr>) = Inl e"
  shows "jrun (advanceCleanInstallJournal F ex tid expected nx) w = (if retryable e then w\<lparr>wd_lock := False\<rparr> else w\<lparr>wd_lock := True\<rparr>, Raised e)"
  using assms by (auto simp: jrun_def advanceCleanInstallJournal_def transition_body_def jbind_def jlook_def jcall_def jdo_def jcatch_def
    jraise_def jreturn_def unlink_lock_def calm_def Let_def)

lemma rejected_is_retryable: "retryable ''Clean-install journal transition rejected''" "retryable ''Clean-install candidate changed during transaction''"
  by code_simp+

lemma changed_plan_is_not: "\<not> retryable ''Clean-install identity plan changed during transaction''"
  by code_simp

lemma open_ingress_is_not: "\<not> retryable ''Clean-install public ingress is not proven closed''"
  by code_simp

end
