(* ===== verification/MigrationJournal.thy ===== *)
theory MigrationJournal
  imports ReleasePaths
begin

text \<open>
  The journal of a migration of a live installation, \<^verbatim>\<open>scripts/release/migration-journal.mjs\<close>, and the
  inventory of services it records, \<^verbatim>\<open>scripts/release/legacy-service-activity.mjs\<close>. What
  \<^verbatim>\<open>systemctl\<close> prints and the check of the unit backup are arguments.
\<close>

section \<open>The inventory of services\<close>

definition LEGACY_UNITS :: "string list" where
  "LEGACY_UNITS = [''dp-beget-session-host.service'', ''dp-beget-agent.service'', ''dp-beget-mcp.service'',
     ''dp-beget-mcp-oauth-spike.service'', ''dp-beget-oauth-proxy.socket'', ''dp-beget-oauth-proxy.service'', ''dp-beget-tunnel.service'']"

definition REQUIRED_ACTIVE :: "string \<Rightarrow> bool" where
  "REQUIRED_ACTIVE u \<longleftrightarrow> u \<in> set LEGACY_UNITS \<and> u \<noteq> ''dp-beget-oauth-proxy.service''"

text \<open>One property per line, each of the two known ones at most once.\<close>

fun unit_fields :: "string list \<Rightarrow> (string \<times> string) list \<Rightarrow> (string \<times> string) list option" where
  "unit_fields [] fs = Some fs"
| "unit_fields (line # rest) fs = (let key = takeWhile (\<lambda>c. c \<noteq> CHR ''='') line in
     if CHR ''='' \<notin> set line \<or> key \<notin> set [''LoadState'', ''ActiveState''] \<or> key \<in> fst ` set fs then None
     else unit_fields rest (fs @ [(key, tl (dropWhile (\<lambda>c. c \<noteq> CHR ''='') line))]))"

definition unit_activity :: "string \<Rightarrow> string \<Rightarrow> string + string" where
  "unit_activity u stdout = (case unit_fields (split_on CHR 0x0A (trim_text stdout)) [] of
       None \<Rightarrow> Inl ''Invalid service state''
     | Some fs \<Rightarrow> (case (map_of fs ''LoadState'', map_of fs ''ActiveState'') of
          (Some load, Some active) \<Rightarrow>
            if load \<noteq> ''loaded'' \<or> active \<notin> set [''active'', ''inactive''] \<or> (REQUIRED_ACTIVE u \<and> active \<noteq> ''active'')
            then Inl ''Unexpected legacy service state'' else Inr active
        | _ \<Rightarrow> Inl ''Unexpected legacy service state''))"

type_synonym activity = "(string \<times> string) list"

fun inspect_units :: "(string \<Rightarrow> string + string) \<Rightarrow> string list \<Rightarrow> string + activity" where
  "inspect_units show_unit [] = Inr []"
| "inspect_units show_unit (u # us) = (case show_unit u of Inl e \<Rightarrow> Inl e | Inr stdout \<Rightarrow>
     (case unit_activity u stdout of Inl e \<Rightarrow> Inl e | Inr state \<Rightarrow>
       (case inspect_units show_unit us of Inl e \<Rightarrow> Inl e | Inr rest \<Rightarrow> Inr ((u, state) # rest))))"

definition inspectLegacyServiceActivity :: "(string \<Rightarrow> string + string) \<Rightarrow> string + activity" where
  "inspectLegacyServiceActivity show_unit = inspect_units show_unit LEGACY_UNITS"

definition validateLegacyServiceActivity :: "activity \<Rightarrow> bool" where
  "validateLegacyServiceActivity a \<longleftrightarrow> distinct (map fst a) \<and> set (map fst a) = set LEGACY_UNITS \<and>
     list_all (\<lambda>u. case map_of a u of None \<Rightarrow> False
       | Some state \<Rightarrow> state \<in> set [''active'', ''inactive''] \<and> (REQUIRED_ACTIVE u \<longrightarrow> state = ''active'')) LEGACY_UNITS"

section \<open>The record\<close>

datatype phase = Prepared | Guarded | IngressClosed | Quiesced | Snapshotted | Switched | LocallyHealthy | IngressOpen | Completed

fun phase_index :: "phase \<Rightarrow> nat" where
  "phase_index Prepared = 0" | "phase_index Guarded = 1" | "phase_index IngressClosed = 2" | "phase_index Quiesced = 3"
| "phase_index Snapshotted = 4" | "phase_index Switched = 5" | "phase_index LocallyHealthy = 6" | "phase_index IngressOpen = 7"
| "phase_index Completed = 8"

record journal =
  mj_transactionId :: string
  mj_phase :: phase
  mj_oldCommit :: string
  mj_newCommit :: string
  mj_artifactSha256 :: string
  mj_snapshotPath :: string
  mj_snapshotSha256 :: string
  mj_unitBackupPath :: string
  mj_unitBackupSha256 :: string
  mj_serviceActivity :: activity

definition validate :: "journal \<Rightarrow> bool" where
  "validate j \<longleftrightarrow> uuid_text (mj_transactionId j) \<and> hex_text 64 (mj_artifactSha256 j) \<and> hex_text 40 (mj_oldCommit j) \<and> hex_text 40 (mj_newCommit j) \<and>
     (mj_snapshotPath j \<noteq> [] \<longrightarrow> normalized_absolute (mj_snapshotPath j)) \<and> (mj_snapshotSha256 j \<noteq> [] \<longrightarrow> hex_text 64 (mj_snapshotSha256 j)) \<and>
     (if phase_index (mj_phase j) < phase_index Snapshotted then mj_snapshotPath j = [] \<and> mj_snapshotSha256 j = []
      else mj_snapshotPath j \<noteq> [] \<and> mj_snapshotSha256 j \<noteq> []) \<and>
     normalized_absolute (mj_unitBackupPath j) \<and> hex_text 64 (mj_unitBackupSha256 j) \<and> validateLegacyServiceActivity (mj_serviceActivity j)"

section \<open>The operations\<close>

datatype journal_file = NoJournal | CutJournal | Journal journal

record workdir =
  wd_journal :: journal_file
  wd_lock :: bool

text \<open>Whether the parent directory and the file are trusted, and what \<^verbatim>\<open>verifySystemdUnitBackup\<close> answers.\<close>

record trust =
  tr_parent :: bool
  tr_journal :: bool
  tr_backup :: "string \<Rightarrow> string option"

definition readMigrationJournal :: "trust \<Rightarrow> workdir \<Rightarrow> string + journal" where
  "readMigrationJournal tr w =
     (if \<not> tr_parent tr then Inl ''Journal parent is not a trusted root directory''
      else (case wd_journal w of
          NoJournal \<Rightarrow> Inl ''ENOENT''
        | CutJournal \<Rightarrow> Inl ''SyntaxError''
        | Journal j \<Rightarrow> if \<not> tr_journal tr then Inl ''Untrusted migration journal''
            else if validate j then Inr j else Inl ''Invalid migration journal''))"

definition first_record ::
  "trust \<Rightarrow> (string \<Rightarrow> string + string) \<Rightarrow> string \<Rightarrow> string \<Rightarrow> string \<Rightarrow> string \<Rightarrow> string \<Rightarrow> string + journal" where
  "first_record tr show_unit uuid oldCommit newCommit artifactSha256 unitBackupDir =
     (if \<not> tr_parent tr then Inl ''Journal parent is not a trusted root directory''
      else (case tr_backup tr unitBackupDir of None \<Rightarrow> Inl ''unit backup rejected'' | Some manifest \<Rightarrow>
        (case inspectLegacyServiceActivity show_unit of Inl e \<Rightarrow> Inl e | Inr a \<Rightarrow>
          if \<not> validateLegacyServiceActivity a then Inl ''Incomplete legacy service inventory'' else
          (let j = \<lparr>mj_transactionId = uuid, mj_phase = Prepared, mj_oldCommit = oldCommit, mj_newCommit = newCommit,
                mj_artifactSha256 = artifactSha256, mj_snapshotPath = [], mj_snapshotSha256 = [], mj_unitBackupPath = unitBackupDir,
                mj_unitBackupSha256 = manifest, mj_serviceActivity = a\<rparr>
           in if validate j then Inr j else Inl ''Invalid migration journal''))))"

definition startMigrationJournal ::
  "faults \<Rightarrow> trust \<Rightarrow> (string \<Rightarrow> string + string) \<Rightarrow> string \<Rightarrow> string \<Rightarrow> string \<Rightarrow> string \<Rightarrow> string \<Rightarrow> (workdir, journal) job" where
  "startMigrationJournal F tr show_unit uuid oldCommit newCommit artifactSha256 unitBackupDir =
     jbind (jlook F (\<lambda>w. first_record tr show_unit uuid oldCommit newCommit artifactSha256 unitBackupDir)) (\<lambda>j.
     jbind (jcall F (\<lambda>w. if wd_journal w \<noteq> NoJournal then Inl ''EEXIST'' else Inr (w\<lparr>wd_journal := CutJournal\<rparr>, ()))) (\<lambda>_.
     jbind (jdo F (\<lambda>w. w\<lparr>wd_journal := Journal j\<rparr>)) (\<lambda>_. jbind (jdo F (\<lambda>w. w)) (\<lambda>_. jreturn j))))"

definition verifyJournalUnitBackup :: "trust \<Rightarrow> journal \<Rightarrow> string + string" where
  "verifyJournalUnitBackup tr j = (if \<not> validate j then Inl ''Invalid migration journal''
     else (case tr_backup tr (mj_unitBackupPath j) of None \<Rightarrow> Inl ''unit backup rejected'' | Some manifest \<Rightarrow>
       if manifest \<noteq> mj_unitBackupSha256 j then Inl ''Migration unit backup no longer matches the journal'' else Inr manifest))"

text \<open>The details of a transition: the snapshot, and whether there is any other key.\<close>

record details =
  dt_snapshotPath :: "string option"
  dt_snapshotSha256 :: "string option"
  dt_otherKeys :: bool

definition with_details :: "details \<Rightarrow> phase \<Rightarrow> journal \<Rightarrow> journal" where
  "with_details dt nx j = j\<lparr>mj_snapshotPath := (case dt_snapshotPath dt of None \<Rightarrow> mj_snapshotPath j | Some p \<Rightarrow> p),
     mj_snapshotSha256 := (case dt_snapshotSha256 dt of None \<Rightarrow> mj_snapshotSha256 j | Some h \<Rightarrow> h), mj_phase := nx\<rparr>"

definition absent_or_empty :: "string option \<Rightarrow> bool" where
  "absent_or_empty x \<longleftrightarrow> x = None \<or> x = Some []"

definition next_record :: "trust \<Rightarrow> phase \<Rightarrow> phase \<Rightarrow> details \<Rightarrow> workdir \<Rightarrow> string + journal" where
  "next_record tr expected nx dt w = (case readMigrationJournal tr w of Inl e \<Rightarrow> Inl e | Inr previous \<Rightarrow>
     if mj_phase previous \<noteq> expected \<or> phase_index nx \<noteq> phase_index expected + 1 \<or> dt_otherKeys dt \<or>
        (case dt_snapshotPath dt of None \<Rightarrow> False | Some p \<Rightarrow> \<not> normalized_absolute p)
     then Inl ''Migration journal phase transition rejected''
     else if nx = Snapshotted \<and> (absent_or_empty (dt_snapshotPath dt) \<or> absent_or_empty (dt_snapshotSha256 dt))
     then Inl ''Snapshot path and digest required''
     else if validate (with_details dt nx previous) then Inr (with_details dt nx previous) else Inl ''Invalid migration journal'')"

definition advanceMigrationJournal :: "faults \<Rightarrow> trust \<Rightarrow> phase \<Rightarrow> phase \<Rightarrow> details \<Rightarrow> (workdir, journal) job" where
  "advanceMigrationJournal F tr expected nx dt =
     jbind (jlook F (\<lambda>w. if tr_parent tr then Inr () else Inl ''Journal parent is not a trusted root directory'')) (\<lambda>_.
     jbind (jcall F (\<lambda>w. if wd_lock w then Inl ''EEXIST'' else Inr (w\<lparr>wd_lock := True\<rparr>, ()))) (\<lambda>_.
     jbind (jdo F (\<lambda>w. w)) (\<lambda>_. jbind (jdo F (\<lambda>w. w)) (\<lambda>_.
     jbind (jcatch (jlook F (next_record tr expected nx dt))
              (\<lambda>e. jbind (jdo F (\<lambda>w. w\<lparr>wd_lock := False\<rparr>)) (\<lambda>_. jbind (jdo F (\<lambda>w. w)) (\<lambda>_. jraise e)))) (\<lambda>nextJ.
     jbind (jdo F (\<lambda>w. w)) (\<lambda>_.
     jbind (jcatch (jbind (jdo F (\<lambda>w. w\<lparr>wd_journal := Journal nextJ\<rparr>)) (\<lambda>_. jdo F (\<lambda>w. w)))
              (\<lambda>e. jbind (jcatch (jdo F (\<lambda>w. w)) (\<lambda>e'. jreturn ())) (\<lambda>_. jraise e))) (\<lambda>_.
     jbind (jdo F (\<lambda>w. w\<lparr>wd_lock := False\<rparr>)) (\<lambda>_. jbind (jdo F (\<lambda>w. w)) (\<lambda>_. jreturn nextJ)))))))))"

section \<open>Theorems\<close>

lemma unit_activity_allowed:
  "unit_activity u stdout = Inr state \<Longrightarrow> state \<in> set [''active'', ''inactive''] \<and> (REQUIRED_ACTIVE u \<longrightarrow> state = ''active'')"
  by (auto simp: unit_activity_def split: option.splits if_splits)

lemma inspect_units_domain: "inspect_units show_unit us = Inr a \<Longrightarrow> map fst a = us"
  by (induction us arbitrary: a) (auto split: sum.splits)

lemma inspect_units_states:
  "inspect_units show_unit us = Inr a \<Longrightarrow> (u, state) \<in> set a \<Longrightarrow> state \<in> set [''active'', ''inactive''] \<and> (REQUIRED_ACTIVE u \<longrightarrow> state = ''active'')"
proof (induction us arbitrary: a)
  case (Cons x us)
  then show ?case using unit_activity_allowed by (fastforce split: sum.splits)
qed simp

text \<open>An inventory that was taken is one the journal accepts.\<close>

lemma inspected_validates:
  assumes "inspectLegacyServiceActivity show_unit = Inr a"
  shows "validateLegacyServiceActivity a"
proof -
  have dom: "map fst a = LEGACY_UNITS" using assms inspect_units_domain by (simp add: inspectLegacyServiceActivity_def)
  have dist: "distinct (map fst a)" unfolding dom by code_simp
  have "\<exists>state. map_of a u = Some state" if "u \<in> set LEGACY_UNITS" for u
    using that unfolding dom [symmetric] by (metis domD dom_map_of_conv_image_fst list.set_map)
  then show ?thesis
    using dist dom inspect_units_states [OF assms [unfolded inspectLegacyServiceActivity_def]]
    by (fastforce simp: validateLegacyServiceActivity_def list_all_iff dest: map_of_SomeD)
qed

definition journal_valid :: "workdir \<Rightarrow> bool" where
  "journal_valid w \<longleftrightarrow> (\<forall>j. wd_journal w = Journal j \<longrightarrow> validate j)"

text \<open>A call leaves the journal as it was, or moves it one phase on with a valid record.\<close>

definition advanced :: "phase \<Rightarrow> phase \<Rightarrow> details \<Rightarrow> journal_file \<Rightarrow> workdir \<Rightarrow> bool" where
  "advanced expected nx dt before w \<longleftrightarrow> wd_journal w = before \<or>
     (\<exists>j. before = Journal j \<and> mj_phase j = expected \<and> phase_index nx = phase_index expected + 1 \<and>
        wd_journal w = Journal (with_details dt nx j) \<and> validate (with_details dt nx j))"

lemma next_record_ok:
  "next_record tr expected nx dt w = Inr j' \<Longrightarrow> \<exists>j. wd_journal w = Journal j \<and> mj_phase j = expected \<and>
     phase_index nx = phase_index expected + 1 \<and> j' = with_details dt nx j \<and> validate j'"
  by (auto simp: next_record_def readMigrationJournal_def split: if_splits sum.splits journal_file.splits)

lemma migration_advance_holds:
  "holds False (\<lambda>w. wd_journal w = before) (advanceMigrationJournal F tr expected nx dt)
     (\<lambda>v. advanced expected nx dt before) (advanced expected nx dt before)" (is "holds _ ?P _ _ ?R")
proof -
  have R: "?P w \<Longrightarrow> ?R w" for w by (simp add: advanced_def)
  have n: "holds False S (jdo F (\<lambda>w. w)) (\<lambda>_. S) ?R" if "\<And>w. S w \<Longrightarrow> ?R w" for S
    by (rule holds_noop) (use that in auto)
  have unlock: "holds False ?R (jdo F (\<lambda>w. w\<lparr>wd_lock := False\<rparr>)) (\<lambda>_. ?R) ?R"
    by (rule holds_do) (auto simp: advanced_def)
  let ?N = "\<lambda>j' w. ?P w \<and> (\<exists>j. before = Journal j \<and> mj_phase j = expected \<and> phase_index nx = phase_index expected + 1 \<and>
     j' = with_details dt nx j \<and> validate j')"
  have a: "holds False ?P (jlook F (\<lambda>w. if tr_parent tr then Inr () else Inl ''Journal parent is not a trusted root directory'')) (\<lambda>_. ?P) ?R"
    by (rule holds_look) (use R in auto)
  have b: "holds False ?P (jcall F (\<lambda>w. if wd_lock w then Inl ''EEXIST'' else Inr (w\<lparr>wd_lock := True\<rparr>, ()))) (\<lambda>_. ?P) ?R"
    by (rule holds_call) (use R in \<open>auto simp: advanced_def split: if_splits\<close>)
  have look: "holds False ?P (jlook F (next_record tr expected nx dt)) ?N ?R"
  proof (rule holds_look)
    fix w v assume p: "?P w" and v: "next_record tr expected nx dt w = Inr v"
    show "?N v w" using next_record_ok [OF v] p by metis
  qed (use R in auto)
  have undo: "holds False ?R (jbind (jdo F (\<lambda>w. w\<lparr>wd_lock := False\<rparr>)) (\<lambda>_. jbind (jdo F (\<lambda>w. w)) (\<lambda>_. jraise e))) ?N ?R" for e
    by (rule holds_bind [OF unlock holds_bind [OF n]]) (auto intro!: holds_raise)
  have c: "holds False ?P (jcatch (jlook F (next_record tr expected nx dt))
      (\<lambda>e. jbind (jdo F (\<lambda>w. w\<lparr>wd_lock := False\<rparr>)) (\<lambda>_. jbind (jdo F (\<lambda>w. w)) (\<lambda>_. jraise e)))) ?N ?R"
    by (rule holds_catch [OF look undo _ look]) auto
  have step: "holds False (?N j') (jdo F (\<lambda>w. w\<lparr>wd_journal := Journal j'\<rparr>)) (\<lambda>_. ?R) ?R" for j'
    by (rule holds_do) (use R in \<open>auto simp: advanced_def\<close>)
  have go: "holds False (?N j') (jbind (jdo F (\<lambda>w. w\<lparr>wd_journal := Journal j'\<rparr>)) (\<lambda>_. jdo F (\<lambda>w. w))) (\<lambda>_. ?R) ?R" for j'
    by (rule holds_bind [OF step n]) auto
  have tidy: "holds False ?R (jbind (jcatch (jdo F (\<lambda>w. w)) (\<lambda>e'. jreturn ())) (\<lambda>_. jraise e)) (\<lambda>_. ?R) ?R" for e
  proof (rule holds_bind)
    show "holds False ?R (jcatch (jdo F (\<lambda>w. w)) (\<lambda>e'. jreturn ())) (\<lambda>_. ?R) ?R"
      by (rule holds_catch [OF n _ _ n]) (auto intro!: holds_return)
  qed (rule holds_raise, auto)
  have d: "holds False (?N j') (jcatch (jbind (jdo F (\<lambda>w. w\<lparr>wd_journal := Journal j'\<rparr>)) (\<lambda>_. jdo F (\<lambda>w. w)))
      (\<lambda>e. jbind (jcatch (jdo F (\<lambda>w. w)) (\<lambda>e'. jreturn ())) (\<lambda>_. jraise e))) (\<lambda>_. ?R) ?R" for j'
    by (rule holds_catch [OF go tidy _ go]) auto
  have finish: "holds False ?R (jbind (jdo F (\<lambda>w. w)) (\<lambda>_. jreturn j')) (\<lambda>v. ?R) ?R" for j' :: journal
    by (rule holds_bind [OF n]) (auto intro!: holds_return)
  have N: "?N j' w \<Longrightarrow> ?R w" for j' w using R by blast
  show ?thesis unfolding advanceMigrationJournal_def
    by (rule holds_bind [OF a holds_bind [OF b holds_bind [OF n [of ?P, OF R] holds_bind [OF n [of ?P, OF R]
          holds_bind [OF c holds_bind [OF n [OF N] holds_bind [OF d holds_bind [OF unlock finish]]]]]]]])
qed

theorem migration_journal_in_order:
  assumes "journal_valid w"
  shows "let w' = fst (jrun (advanceMigrationJournal F tr expected nx dt) w) in
    journal_valid w' \<and> (wd_journal w' \<noteq> wd_journal w \<longrightarrow>
      (\<exists>j. wd_journal w = Journal j \<and> mj_phase j = expected \<and> phase_index nx = phase_index expected + 1 \<and> wd_journal w' = Journal (with_details dt nx j)))"
proof -
  have "advanced expected nx dt (wd_journal w) (fst (jrun (advanceMigrationJournal F tr expected nx dt) w))"
    using holds_run [OF migration_advance_holds [of "wd_journal w" F tr expected nx dt], of w] by simp
  then show ?thesis using assms by (auto simp: advanced_def journal_valid_def Let_def)
qed

text \<open>A transition refused before anything is written gives the lock back.\<close>

lemma refused_unlocks:
  assumes "calm F" "tr_parent tr" "\<not> wd_lock w" "next_record tr expected nx dt (w\<lparr>wd_lock := True\<rparr>) = Inl e"
  shows "jrun (advanceMigrationJournal F tr expected nx dt) w = (w, Raised e)"
  using assms by (simp add: jrun_def advanceMigrationJournal_def jbind_def jlook_def jcall_def jdo_def jcatch_def jraise_def calm_def Let_def)

text \<open>Two callers: whoever finds the lock changes nothing.\<close>

lemma migration_locked_refuses:
  "calm F \<Longrightarrow> tr_parent tr \<Longrightarrow> wd_lock w \<Longrightarrow> jrun (advanceMigrationJournal F tr expected nx dt) w = (w, Raised ''EEXIST'')"
  by (simp add: jrun_def advanceMigrationJournal_def jbind_def jlook_def jcall_def calm_def Let_def)

end
