(* ===== verification/SessionHost.thy ===== *)
theory SessionHost
  imports AgentClient_Props "HOL-Library.Countable"
begin

text \<open>
  The agent reaches the terminal manager through the session host: the client
  \<^verbatim>\<open>apps/agent/src/session-host-client.js\<close>, the socket, and the server
  \<^verbatim>\<open>apps/session-host/src/server.js\<close>. The manager is an argument that answers JSON. For the
  identifiers the agent's routes admit, the way there and back changes nothing but a default and
  the details of an error.
\<close>

section \<open>The client\<close>

text \<open>\<^term>\<open>None\<close> is \<^verbatim>\<open>undefined\<close>, and \<^verbatim>\<open>null\<close> for the texts of a query.\<close>

datatype host_call =
  HList
| HOpen "json option" "json option"
| HRun string "json option" "json option" "json option"
| HOperation string string
| HOutput string "string option" "string option"
| HInput string "json option" "json option"
| HInterrupt string
| HClose string
| HPurge string

fun host_method :: "host_call \<Rightarrow> string" where
  "host_method (HOpen cwd label) = ''POST''"
| "host_method (HRun i command waitMs key) = ''POST''"
| "host_method (HInput i input enter) = ''POST''"
| "host_method (HInterrupt i) = ''POST''"
| "host_method (HClose i) = ''DELETE''"
| "host_method (HPurge i) = ''DELETE''"
| "host_method c = ''GET''"

fun host_path :: "host_call \<Rightarrow> string" where
  "host_path HList = ''/v1/sessions''"
| "host_path (HOpen cwd label) = ''/v1/sessions''"
| "host_path (HRun i command waitMs key) = session_path i ''/commands''"
| "host_path (HOperation i x) = session_path i (''/operations/'' @ encodeURIComponent x)"
| "host_path (HOutput i cursor maxBytes) = session_path i ''/output''"
| "host_path (HInput i input enter) = session_path i ''/input''"
| "host_path (HInterrupt i) = session_path i ''/interrupt''"
| "host_path (HClose i) = session_path i []"
| "host_path (HPurge i) = session_path i ''/purge''"

text \<open>\<^verbatim>\<open>maxBytes || 65536\<close>, on the text of the query.\<close>

definition max_bytes :: "string option \<Rightarrow> string" where
  "max_bytes m = (case m of None \<Rightarrow> ''65536'' | Some t \<Rightarrow> if t = [] then ''65536'' else t)"

fun host_query :: "host_call \<Rightarrow> string" where
  "host_query (HOutput i cursor m) = URLSearchParams
     ((''maxBytes'', max_bytes m) # (case cursor of None \<Rightarrow> [] | Some t \<Rightarrow> [(''cursor'', t)]))"
| "host_query c = []"

definition host_target :: "host_call \<Rightarrow> string" where
  "host_target c = host_path c @ (if host_query c = [] then [] else CHR ''?'' # host_query c)"

definition sent_field :: "string \<Rightarrow> json option \<Rightarrow> (string \<times> json) list" where
  "sent_field k v = (case v of None \<Rightarrow> [] | Some x \<Rightarrow> [(k, x)])"

fun host_body :: "host_call \<Rightarrow> json option" where
  "host_body (HOpen cwd label) = Some (JObj (sent_field ''cwd'' cwd @ sent_field ''label'' label))"
| "host_body (HRun i command waitMs key) = Some (JObj (sent_field ''command'' command @ sent_field ''waitMs'' waitMs @
     sent_field ''idempotencyKey'' key))"
| "host_body (HInput i input enter) = Some (JObj (sent_field ''input'' input @ sent_field ''enter'' enter))"
| "host_body c = None"

section \<open>The server\<close>

record host_request =
  hr_method :: string
  hr_pathname :: string
  hr_query :: "(string \<times> string) list"
  hr_body :: "bridge_exc + json"

definition host_object :: "host_request \<Rightarrow> bridge_exc + json" where
  "host_object q = (case hr_body q of Inl e \<Rightarrow> Inl e | Inr v \<Rightarrow> if v = JNull then Inl (Failure ''TypeError'') else Inr v)"

definition host_session_call :: "host_request \<Rightarrow> string \<Rightarrow> session_action \<Rightarrow> bridge_exc + host_call" where
  "host_session_call q i action =
     (if hr_method q = ''POST'' \<and> action = Commands then
        (case host_object q of Inl e \<Rightarrow> Inl e | Inr body \<Rightarrow>
          Inr (HRun i (json_field ''command'' body) (json_field ''waitMs'' body) (json_field ''idempotencyKey'' body)))
      else if hr_method q = ''GET'' \<and> action = Output then
        Inr (HOutput i (map_of (hr_query q) ''cursor'') (map_of (hr_query q) ''maxBytes''))
      else if hr_method q = ''POST'' \<and> action = SendInput then
        (case host_object q of Inl e \<Rightarrow> Inl e | Inr body \<Rightarrow> Inr (HInput i (json_field ''input'' body) (json_field ''enter'' body)))
      else if hr_method q = ''POST'' \<and> action = InterruptAction then Inr (HInterrupt i)
      else if hr_method q = ''DELETE'' \<and> action = SessionAction then Inr (HClose i)
      else if hr_method q = ''DELETE'' \<and> action = PurgeAction then Inr (HPurge i)
      else Inl (bridgeError ''not_found'' 404))"

definition host_route :: "host_request \<Rightarrow> bridge_exc + host_call" where
  "host_route q =
     (if hr_method q = ''GET'' \<and> hr_pathname q = ''/v1/sessions'' then Inr HList
      else if hr_method q = ''POST'' \<and> hr_pathname q = ''/v1/sessions'' then
        (case host_object q of Inl e \<Rightarrow> Inl e | Inr body \<Rightarrow> Inr (HOpen (json_field ''cwd'' body) (json_field ''label'' body)))
      else (case (if hr_method q = ''GET'' then routeOperation (hr_pathname q) else None) of
         Some (i, x) \<Rightarrow> Inr (HOperation i x)
       | None \<Rightarrow> (case routeSession (hr_pathname q) of
           Some (i, action) \<Rightarrow> host_session_call q i action
         | None \<Rightarrow> Inl (bridgeError ''not_found'' 404))))"

text \<open>\<open>manager\<close>: what \<^verbatim>\<open>sessions\<close> does and answers; the list is wrapped in an object.\<close>

type_synonym 's manager = "host_call \<Rightarrow> 's \<Rightarrow> 's \<times> (bridge_exc + json)"

definition host_status :: "host_call \<Rightarrow> nat" where
  "host_status c = (case c of HOpen cwd label \<Rightarrow> 201 | _ \<Rightarrow> 200)"

definition host_json :: "host_call \<Rightarrow> json \<Rightarrow> json" where
  "host_json c v = (case c of HList \<Rightarrow> JObj [(''sessions'', v)] | _ \<Rightarrow> v)"

definition createSessionHostServer :: "bool \<Rightarrow> 's manager \<Rightarrow> host_request \<Rightarrow> 's \<Rightarrow> 's \<times> reply" where
  "createSessionHostServer paused manager q s =
     (if hr_method q = ''GET'' \<and> hr_pathname q = ''/health'' then
        (s, (200, JObj [(''status'', JStr ''ok''), (''admission'', JStr (if paused then ''paused'' else ''open''))]))
      else if paused then (s, sendError (bridgeError ''admission_paused'' 503))
      else (case host_route q of
          Inl e \<Rightarrow> (s, sendError e)
        | Inr c \<Rightarrow> (case manager c s of
              (s', Inl e) \<Rightarrow> (s', sendError e) | (s', Inr v) \<Rightarrow> (s', (host_status c, host_json c v)))))"

section \<open>The request of the client\<close>

definition host_receives :: "(json \<Rightarrow> string) \<Rightarrow> (string \<Rightarrow> json option) \<Rightarrow> host_call \<Rightarrow> host_request" where
  "host_receives stringify parse c = \<lparr>hr_method = host_method c, hr_pathname = url_pathname (host_target c),
     hr_query = query_pairs (url_search (host_target c)),
     hr_body = (case host_body c of None \<Rightarrow> Inr (JObj []) | Some b \<Rightarrow> readJson parse (1024 * 1024) [stringify b])\<rparr>"

text \<open>What the client makes of status and body text.\<close>

definition host_answer :: "(string \<Rightarrow> json option) \<Rightarrow> nat \<Rightarrow> string \<Rightarrow> bridge_exc + json" where
  "host_answer parse status raw = (case (if raw = [] then Some (JObj []) else parse raw) of
       None \<Rightarrow> Inl (bridgeError ''session_host_invalid_response'' 502)
     | Some parsed \<Rightarrow>
         if status \<ge> 400
         then Inl (bridgeError (case json_field ''error'' parsed of None \<Rightarrow> ''session_host_error''
                | Some d \<Rightarrow> (case json_field ''code'' d of Some (JStr code) \<Rightarrow> if code = [] then ''session_host_error'' else code | _ \<Rightarrow> ''session_host_error'')) status)
         else Inr parsed)"

definition session_host_request ::
  "(json \<Rightarrow> string) \<Rightarrow> (string \<Rightarrow> json option) \<Rightarrow> bool \<Rightarrow> bool \<Rightarrow> 's manager \<Rightarrow> host_call \<Rightarrow> 's \<Rightarrow> 's \<times> (bridge_exc + json)" where
  "session_host_request stringify parse reached paused manager c s =
     (if \<not> reached then (s, Inl (bridgeError ''session_host_unavailable'' 503))
      else (case createSessionHostServer paused manager (host_receives stringify parse c) s of
        (s', (status, body)) \<Rightarrow> (s', (case host_answer parse status (stringify body) of
             Inl e \<Rightarrow> Inl e
           | Inr parsed \<Rightarrow> (case c of HList \<Rightarrow> Inr (case json_field ''sessions'' parsed of None \<Rightarrow> JNull | Some v \<Rightarrow> v) | _ \<Rightarrow> Inr parsed)))))"

section \<open>There and back\<close>

fun host_ids :: "host_call \<Rightarrow> string list" where
  "host_ids (HRun i command waitMs key) = [i]"
| "host_ids (HOperation i x) = [i, x]"
| "host_ids (HOutput i cursor m) = [i]"
| "host_ids (HInput i input enter) = [i]"
| "host_ids (HInterrupt i) = [i]"
| "host_ids (HClose i) = [i]"
| "host_ids (HPurge i) = [i]"
| "host_ids c = []"

text \<open>The one thing the client settles: the size of a page that was not asked for.\<close>

fun settled :: "host_call \<Rightarrow> host_call" where
  "settled (HOutput i cursor m) = HOutput i cursor (Some (max_bytes m))"
| "settled c = c"

text \<open>An error keeps code and status.\<close>

definition crossed :: "bridge_exc \<Rightarrow> bridge_exc" where
  "crossed e = bridgeError (case e of BridgeError code status details \<Rightarrow> code | Failure code \<Rightarrow> ''internal_error'') (error_status e)"

text \<open>The calls of the gateway's client with the same target.\<close>

definition same_call :: "host_call \<Rightarrow> call" where
  "same_call c = (case c of
       HList \<Rightarrow> CallListSessions | HOpen cwd label \<Rightarrow> CallOpen JNull | HRun i command waitMs key \<Rightarrow> CallRun i [] None []
     | HOperation i x \<Rightarrow> CallOperation i x | HOutput i cursor m \<Rightarrow> CallOutput i cursor None | HInput i input enter \<Rightarrow> CallInput i [] False
     | HInterrupt i \<Rightarrow> CallInterrupt i | HClose i \<Rightarrow> CallClose i | HPurge i \<Rightarrow> CallPurge i)"

lemma same_path: "client_path (same_call c) = host_path c" "client_method (same_call c) = host_method c" "call_ids (same_call c) = host_ids c"
  by (cases c; simp add: same_call_def)+

lemma no_dots: "route_id i \<Longrightarrow> i \<noteq> ''.'' \<and> i \<noteq> ''..''"
  by (auto simp: route_id_def id_char_def class_defs)

lemma host_query_shape: "query_text (host_query c)" "CHR 0x27 \<notin> set (host_query c)"
proof -
  have "CHR 0x27 \<notin> set (URLSearchParams ps)" for ps
    unfolding URLSearchParams_def by (induction ps rule: induct_list012) (auto simp: form_no_apostrophe)
  then show "query_text (host_query c)" "CHR 0x27 \<notin> set (host_query c)" by (cases c; simp add: query_text_pairs)+
qed

lemma host_url:
  assumes "list_all route_id (host_ids c)"
  shows "url_pathname (host_target c) = host_path c" "url_search (host_target c) = (if host_query c = [] then [] else CHR ''?'' # host_query c)"
proof -
  have p: "path_text (CHR ''/'' # tl (host_path c))" and shape: "host_path c = CHR ''/'' # tl (host_path c)"
    using client_path_shape [of "same_call c"] by (simp_all add: same_path)
  have "\<not> list_ex (\<lambda>i. i = ''.'' \<or> i = ''..'') (host_ids c)" using assms no_dots by (auto simp: list_ex_iff list_all_iff)
  then have dots: "\<not> list_ex dotty (split_on CHR ''/'' (tl (host_path c)))"
    using path_segments_dotty [of "same_call c"] by (simp add: path_segments_def same_path)
  then have r: "join_with ''/'' (resolve_dots [] (split_on CHR ''/'' (tl (host_path c)))) = tl (host_path c)"
    using resolved_join [OF p] by simp
  show n: "url_pathname (host_target c) = host_path c"
  proof (cases "host_query c = []")
    case True
    then have "host_target c = CHR ''/'' # tl (host_path c)" using shape by (simp add: host_target_def)
    then show ?thesis using pathname_plain [OF p] r shape by simp
  next
    case False
    then have "host_target c = CHR ''/'' # tl (host_path c) @ CHR ''?'' # host_query c" using shape by (simp add: host_target_def)
    then show ?thesis using pathname_query [OF p host_query_shape(1) False] r shape by simp
  qed
  have same: "url_pathname (host_target c) @ url_search (host_target c) = host_target c"
  proof (cases "host_query c = []")
    case True
    then have "host_target c = CHR ''/'' # tl (host_path c)" using shape by (simp add: host_target_def)
    then show ?thesis using target_same_path [OF p] dots by simp
  next
    case False
    then have "host_target c = CHR ''/'' # tl (host_path c) @ CHR ''?'' # host_query c" using shape by (simp add: host_target_def)
    then show ?thesis using target_same_query [OF p host_query_shape(1) False] dots host_query_shape(2) by simp
  qed
  show "url_search (host_target c) = (if host_query c = [] then [] else CHR ''?'' # host_query c)"
    using same unfolding n by (subst (asm) (2) host_target_def) simp
qed

lemma host_query_read:
  "query_pairs (if host_query c = [] then [] else CHR ''?'' # host_query c) =
    (case c of HOutput i cursor m \<Rightarrow> (''maxBytes'', max_bytes m) # (case cursor of None \<Rightarrow> [] | Some t \<Rightarrow> [(''cursor'', t)]) | _ \<Rightarrow> [])"
proof (cases "host_query c = []")
  case True
  moreover have "URLSearchParams ((''maxBytes'', v) # ps) \<noteq> []" for v ps
    by (cases ps) (auto simp: URLSearchParams_def form_encode_def)
  ultimately show ?thesis by (cases c) (auto simp: query_pairs_def)
next
  case False
  then show ?thesis by (cases c) (simp_all add: query_roundtrip)
qed

lemma sent_fields:
  "map_of (sent_field k v) k' = (if k' = k then v else None)"
  by (auto simp: sent_field_def split: option.splits)

text \<open>The server understands what the client meant.\<close>

lemma host_route_receives:
  assumes ids: "list_all route_id (host_ids c)" and codec: "\<And>v. parse (stringify v) = Some v"
    and fits: "\<And>b. host_body c = Some b \<Longrightarrow> length (stringify b) \<le> 1024 * 1024"
  shows "host_route (host_receives stringify parse c) = Inr (settled c)"
proof -
  obtain q where q_def: "q = host_receives stringify parse c" by blast
  have q: "hr_method q = host_method c" "hr_pathname q = host_path c" using host_url(1) [OF ids] by (simp_all add: q_def host_receives_def)
  have pairs: "hr_query q = (case c of HOutput i cursor m \<Rightarrow> (''maxBytes'', max_bytes m) # (case cursor of None \<Rightarrow> [] | Some t \<Rightarrow> [(''cursor'', t)]) | _ \<Rightarrow> [])"
    using host_url(2) [OF ids] host_query_read by (simp add: q_def host_receives_def)
  have body: "hr_body q = Inr (case host_body c of None \<Rightarrow> JObj [] | Some b \<Rightarrow> b)"
    using codec fits by (cases "host_body c") (auto simp: q_def host_receives_def readJson_def)
  have split: "split_on CHR ''/'' (host_path c) = [] # path_segments (same_call c)" using path_split [of "same_call c"] by (simp add: same_path)
  have routes: "routeOperation (host_path c) = (case c of HOperation i x \<Rightarrow> Some (i, x) | _ \<Rightarrow> None)"
    "routeSession (host_path c) = (case c of HRun i command waitMs key \<Rightarrow> Some (i, Commands) | HOutput i cursor m \<Rightarrow> Some (i, Output)
       | HInput i input enter \<Rightarrow> Some (i, SendInput) | HInterrupt i \<Rightarrow> Some (i, InterruptAction) | HClose i \<Rightarrow> Some (i, SessionAction)
       | HPurge i \<Rightarrow> Some (i, PurgeAction) | _ \<Rightarrow> None)"
    unfolding routeOperation_def routeSession_def split using ids
    by (cases c; simp add: same_call_def path_segments_eq route_id_same action_of_def)+
  have path: "host_path c = ''/v1/sessions'' \<longleftrightarrow> (case c of HList \<Rightarrow> True | HOpen cwd label \<Rightarrow> True | _ \<Rightarrow> False)"
    by (cases c) (simp_all add: session_path_def)
  have "host_route q = Inr (settled c)"
    unfolding host_route_def using q pairs body path routes
    by (cases c) (auto simp: host_session_call_def host_object_def json_field_def sent_fields map_add_def split: option.splits)
  then show ?thesis by (simp add: q_def)
qed

lemma error_text:
  "host_answer parse status raw = Inl (bridgeError code status)"
  if "raw \<noteq> []" "parse raw = Some (errorPayload e)" "status \<ge> 400" "crossed e = bridgeError code status" "code \<noteq> []"
  using that by (cases e) (auto simp: host_answer_def crossed_def bridgeError_def json_field_def)

text \<open>
  C28. A call of the agent on the terminal manager, made through the client, the socket and the
  session host, is the call itself: the manager is asked once for what was meant (a page without a
  size for one of 65536 bytes), its state is the one it leaves, its answer comes back whole, its errors
  with their code and status. A host that is paused or out of reach answers 503 and asks nothing.
\<close>

theorem session_host_transparent:
  assumes "list_all route_id (host_ids c)" "\<forall>v. parse (stringify v) = Some v \<and> stringify v \<noteq> []"
    and "\<forall>b. host_body c = Some b \<longrightarrow> length (stringify b) \<le> 1024 * 1024"
    and "\<forall>s' e. manager (settled c) s = (s', Inl e) \<longrightarrow> error_status e \<ge> 400 \<and> error_code e \<noteq> []"
  shows "session_host_request stringify parse reached paused manager c s =
    (if \<not> reached then (s, Inl (bridgeError ''session_host_unavailable'' 503))
     else if paused then (s, Inl (bridgeError ''admission_paused'' 503))
     else (case manager (settled c) s of (s', Inl e) \<Rightarrow> (s', Inl (crossed e)) | (s', Inr v) \<Rightarrow> (s', Inr v)))"
proof -
  have codec: "parse (stringify v) = Some v" "stringify v \<noteq> []" for v using assms(2) by auto
  have route: "host_route (host_receives stringify parse c) = Inr (settled c)"
    by (rule host_route_receives) (use assms(1,3) codec in auto)
  have health: "\<not> (hr_method (host_receives stringify parse c) = ''GET'' \<and> hr_pathname (host_receives stringify parse c) = ''/health'')"
    using host_url(1) [OF assms(1)] by (cases c) (simp_all add: host_receives_def session_path_def)
  have same: "host_json (settled c) v = host_json c v" "host_status (settled c) < 400" for v
    by (cases c; simp add: host_json_def host_status_def)+
  have err: "host_answer parse (error_status e) (stringify (errorPayload e)) = Inl (crossed e)" if st: "error_status e \<ge> 400" and cd: "error_code e \<noteq> []" for e
  proof -
    obtain code where "crossed e = bridgeError code (error_status e)" "code \<noteq> []" using cd by (cases e) (auto simp: crossed_def)
    then show ?thesis using error_text [of "stringify (errorPayload e)" parse e "error_status e" code] codec st by simp
  qed
  have ok: "(case host_answer parse (host_status (settled c)) (stringify (host_json c v)) of Inl e \<Rightarrow> Inl e
       | Inr parsed \<Rightarrow> (case c of HList \<Rightarrow> Inr (case json_field ''sessions'' parsed of None \<Rightarrow> JNull | Some v \<Rightarrow> v) | _ \<Rightarrow> Inr parsed)) = Inr v" for v
    using codec same(2) by (cases c) (auto simp: host_answer_def host_json_def json_field_def)
  show ?thesis
  proof (cases "manager (settled c) s")
    case (Pair s' r)
    have paused_error: "host_answer parse 503 (stringify (errorPayload (bridgeError ''admission_paused'' 503))) = Inl (bridgeError ''admission_paused'' 503)"
      using err [of "bridgeError ''admission_paused'' 503"] by (simp add: bridgeError_def crossed_def)
    show ?thesis
    proof (cases r)
      case (Inl e)
      then show ?thesis using err [of e] assms(4) Pair paused_error
        by (simp add: session_host_request_def createSessionHostServer_def health route sendError_def bridgeError_def)
    next
      case (Inr v)
      then show ?thesis using ok [of v] Pair paused_error same
        by (simp add: session_host_request_def createSessionHostServer_def health route sendError_def bridgeError_def)
    qed
  qed
qed

text \<open>A codec, and a manager that counts its calls and refuses to interrupt.\<close>

instance json :: countable
  by countable_datatype

definition wit_stringify :: "json \<Rightarrow> string" where
  "wit_stringify v = show_nat (to_nat v)"

definition wit_parse :: "string \<Rightarrow> json option" where
  "wit_parse t = Some (from_nat (read_nat t))"

lemma wit_codec: "wit_parse (wit_stringify v) = Some v \<and> wit_stringify v \<noteq> []"
  by (simp add: wit_parse_def wit_stringify_def)

definition wit_manager :: "nat manager" where
  "wit_manager c n = (case c of HInterrupt i \<Rightarrow> (n + 1, Inl (bridgeError ''session_not_found'' 404))
     | HOutput i cursor m \<Rightarrow> (n + 1, Inr (JStr (or_default m []))) | _ \<Rightarrow> (n + 1, Inr JNull))"

theorem session_host_transparent_witness:
  "session_host_request wit_stringify wit_parse True False wit_manager (HOutput ''abc'' (Some ''v1:x'') None) 7 = (8, Inr (JStr ''65536'')) \<and>
   session_host_request wit_stringify wit_parse True False wit_manager (HInterrupt ''abc'') 7 = (8, Inl (bridgeError ''session_not_found'' 404))"
proof -
  have i: "route_id ''abc''" by code_simp
  show ?thesis
    using session_host_transparent [of "HOutput ''abc'' (Some ''v1:x'') None" wit_parse wit_stringify wit_manager 7 True False]
      session_host_transparent [of "HInterrupt ''abc''" wit_parse wit_stringify wit_manager 7 True False] i wit_codec
    by (simp add: wit_manager_def or_default_def max_bytes_def crossed_def bridgeError_def)
qed

end
