(* ===== verification/Days.thy ===== *)
theory Days
  imports Prelude
begin

text \<open>
  Dates as \<^verbatim>\<open>Date\<close> computes them: the date in \<^verbatim>\<open>toISOString()\<close>, and the time that a date text
  stands for. Used by the telemetry collector.
\<close>

section \<open>Years and months\<close>

text \<open>Days from 1970-01-01 to the first day of a year.\<close>

definition day_from_year :: "int \<Rightarrow> int" where
  "day_from_year y = 365 * (y - 1970) + (y - 1969) div 4 - (y - 1901) div 100 + (y - 1601) div 400"

text \<open>The last year, at most \<open>k\<close> years after 1970, that has begun on day \<open>d\<close>.\<close>

primrec year_down :: "nat \<Rightarrow> int \<Rightarrow> nat" where
  "year_down 0 d = 0"
| "year_down (Suc k) d = (if day_from_year (1971 + int k) \<le> d then Suc k else year_down k d)"

definition year_of_day :: "int \<Rightarrow> int" where
  "year_of_day d = (let r = d mod 146097 in 1970 + 400 * (d div 146097) + int (year_down (nat (r div 365)) r))"

definition is_leap :: "int \<Rightarrow> bool" where
  "is_leap y \<longleftrightarrow> y mod 4 = 0 \<and> (y mod 100 \<noteq> 0 \<or> y mod 400 = 0)"

text \<open>Days of the year before a month, numbered from 0.\<close>

definition month_start :: "bool \<Rightarrow> nat \<Rightarrow> int" where
  "month_start leap k = [0, 31, 59, 90, 120, 151, 181, 212, 243, 273, 304, 334] ! k + (if leap \<and> 2 \<le> k then 1 else 0)"

primrec month_down :: "bool \<Rightarrow> nat \<Rightarrow> int \<Rightarrow> nat" where
  "month_down leap 0 d = 0"
| "month_down leap (Suc k) d = (if month_start leap (Suc k) \<le> d then Suc k else month_down leap k d)"

lemma div_next:
  assumes "(0::int) < m"
  shows "(a + 1) div m = a div m + (if (a + 1) mod m = 0 then 1 else 0)"
proof -
  have r: "0 \<le> a mod m" "a mod m < m" using assms by simp_all
  have a: "a = m * (a div m) + a mod m" by simp
  show ?thesis
  proof (cases "a mod m = m - 1")
    case True
    have "a + 1 = m * (a div m) + m" using a True by linarith
    then have "a + 1 = m * (a div m + 1)" by (simp add: algebra_simps)
    then show ?thesis using assms by simp
  next
    case False
    then have "a + 1 = (a mod m + 1) + m * (a div m)" "0 \<le> a mod m + 1" "a mod m + 1 < m" using a r by simp_all
    then have "(a + 1) div m = a div m" "(a + 1) mod m = a mod m + 1"
      using int_div_pos_eq [of "a + 1" m "a div m" "a mod m + 1"] int_mod_pos_eq [of "a + 1" m "a div m" "a mod m + 1"] by (simp_all add: algebra_simps)
    then show ?thesis using r by simp
  qed
qed

lemma day_from_year_period: "day_from_year (y + 400 * n) = day_from_year y + 146097 * n"
proof -
  have shift: "(x + m * k) div m = x div m + k" if "m \<noteq> 0" for x m k :: int using that by simp
  have "(y + 400 * n - 1969) div 4 = (y - 1969) div 4 + 100 * n" using shift [of 4 "y - 1969" "100 * n"] by (simp add: add.commute add_diff_eq)
  moreover have "(y + 400 * n - 1901) div 100 = (y - 1901) div 100 + 4 * n" using shift [of 100 "y - 1901" "4 * n"] by (simp add: add.commute add_diff_eq)
  moreover have "(y + 400 * n - 1601) div 400 = (y - 1601) div 400 + n" using shift [of 400 "y - 1601" n] by (simp add: add.commute add_diff_eq)
  moreover have "365 * (y + 400 * n - 1970) + p - q + r = 365 * (y - 1970) + p' - q' + r' + 146097 * n"
    if "p = p' + 100 * n" "q = q' + 4 * n" "r = r' + n" for p q r p' q' r' :: int using that by (simp add: algebra_simps)
  ultimately show ?thesis unfolding day_from_year_def by blast
qed

lemma mod_shift: "(y - m * k) mod m = y mod (m::int)"
  by (metis mod_diff_eq mod_mult_self1_is_0 diff_zero mod_mod_trivial)

lemma year_step:
  assumes "(0::int) < m"
  shows "(y - m * k) div m = (y - m * k - 1) div m + (if y mod m = 0 then 1 else 0)"
  using div_next [OF assms, of "y - m * k - 1"] by (simp only: diff_add_cancel mod_shift)

lemma leap_days:
  assumes "p = p' + (if A then 1 else 0)" "q = q' + (if B then 1 else 0)" "r = r' + (if C then 1 else 0)" "C \<longrightarrow> B" "B \<longrightarrow> A"
  shows "365 * (y + 1 - 1970) + p - q + r = 365 * (y - 1970) + p' - q' + r' + (if A \<and> (\<not> B \<or> C) then 366 else 365 :: int)"
  using assms by (cases A; cases B; cases C) simp_all

lemma day_from_year_next: "day_from_year (y + 1) = day_from_year y + (if is_leap y then 366 else 365)"
proof -
  have "y - 4 * 492 = y + 1 - 1969" "y - 4 * 492 - 1 = y - 1969" "y - 100 * 19 = y + 1 - 1901" "y - 100 * 19 - 1 = y - 1901"
    "y - 400 * 4 = y + 1 - 1601" "y - 400 * 4 - 1 = y - 1601" by simp_all
  then have "(y + 1 - 1969) div 4 = (y - 1969) div 4 + (if y mod 4 = 0 then 1 else 0)"
    "(y + 1 - 1901) div 100 = (y - 1901) div 100 + (if y mod 100 = 0 then 1 else 0)"
    "(y + 1 - 1601) div 400 = (y - 1601) div 400 + (if y mod 400 = 0 then 1 else 0)"
    using year_step [of 4 y 492] year_step [of 100 y 19] year_step [of 400 y 4] by (metis zero_less_numeral)+
  moreover have "y mod 400 = 0 \<longrightarrow> y mod 100 = 0" "y mod 100 = 0 \<longrightarrow> y mod 4 = 0"
    using mod_mod_cancel [of 100 400 y] mod_mod_cancel [of 4 100 y] by fastforce+
  ultimately show ?thesis unfolding day_from_year_def is_leap_def by (rule leap_days)
qed

lemma day_from_year_1970: "day_from_year 1970 = 0"
  by (simp add: day_from_year_def)

lemma day_from_year_365: "365 * int n \<le> day_from_year (1970 + int n)"
proof (induction n)
  case 0
  then show ?case by (simp add: day_from_year_1970)
next
  case (Suc n)
  have y: "1970 + int (Suc n) = 1970 + int n + 1" by simp
  show ?case unfolding y day_from_year_next using Suc by (cases "is_leap (1970 + int n)") simp_all
qed

lemma year_down_bounds:
  assumes "0 \<le> d"
  shows "d < day_from_year (1971 + int k) \<Longrightarrow>
    day_from_year (1970 + int (year_down k d)) \<le> d \<and> d < day_from_year (1971 + int (year_down k d))"
proof (induction k)
  case 0
  then show ?case using assms by (simp add: day_from_year_1970)
next
  case (Suc k)
  have y: "1970 + int (Suc k) = 1971 + int k" by simp
  show ?case
  proof (cases "day_from_year (1971 + int k) \<le> d")
    case True
    then show ?thesis using Suc.prems y by simp
  next
    case False
    then show ?thesis using Suc.IH by simp
  qed
qed

lemma era_year: "0 \<le> r \<Longrightarrow> day_from_year (1970 + int (year_down (nat (r div 365)) r)) \<le> r \<and>
    r < day_from_year (1970 + int (year_down (nat (r div 365)) r) + 1)"
proof -
  assume r: "0 \<le> r"
  obtain k where k: "r div 365 = int k" using r by (metis nonneg_int_cases pos_imp_zdiv_nonneg_iff zero_less_numeral)
  obtain j where j: "r mod 365 = j" "j < 365" by simp
  have "r = 365 * int k + j" using mult_div_mod_eq [of 365 r] k j by simp
  then have "r < 365 * int (Suc k)" using j(2) by simp
  then have "r < day_from_year (1971 + int k)" using day_from_year_365 [of "Suc k"] by (simp add: add.assoc)
  then show ?thesis unfolding k nat_int using year_down_bounds [OF r, of k] by simp
qed

lemma year_of_day_bounds: "day_from_year (year_of_day d) \<le> d" "d < day_from_year (year_of_day d + 1)"
proof -
  obtain r q where r: "d mod 146097 = r" "0 \<le> r" and q: "d div 146097 = q" and d: "d = r + 146097 * q"
    by (metis add.commute mult_div_mod_eq pos_mod_sign zero_less_numeral)
  define y where "y = 1970 + int (year_down (nat (r div 365)) r)"
  have y: "year_of_day d = y + 400 * q" by (simp add: year_of_day_def Let_def r q y_def)
  have b: "day_from_year y \<le> r" "r < day_from_year (y + 1)" using era_year [OF r(2)] by (simp_all add: y_def)
  show "day_from_year (year_of_day d) \<le> d" using b(1) d unfolding y day_from_year_period by simp
  have n: "year_of_day d + 1 = (y + 1) + 400 * q" using y by simp
  show "d < day_from_year (year_of_day d + 1)" using b(2) d unfolding n day_from_year_period by simp
qed

lemma month_down_bounds:
  "0 \<le> d \<Longrightarrow> month_start leap (month_down leap k d) \<le> d \<and> month_down leap k d \<le> k \<and>
    (month_down leap k d < k \<longrightarrow> d < month_start leap (Suc (month_down leap k d)))"
proof (induction k)
  case 0
  then show ?case by (simp add: month_start_def)
next
  case (Suc k)
  then show ?case by (auto simp: less_Suc_eq dest: le_antisym not_less_iff_gr_or_eq [THEN iffD1])
qed

lemma month_days: "k < 11 \<Longrightarrow> month_start leap (Suc k) \<le> month_start leap k + 31"
proof -
  assume "k < 11"
  then have "k = 0 \<or> k = 1 \<or> k = 2 \<or> k = 3 \<or> k = 4 \<or> k = 5 \<or> k = 6 \<or> k = 7 \<or> k = 8 \<or> k = 9 \<or> k = 10" by arith
  then show ?thesis by (elim disjE) (simp_all add: month_start_def)
qed

section \<open>Texts\<close>

text \<open>The last \<open>k\<close> digits of a number.\<close>

primrec pad :: "nat \<Rightarrow> nat \<Rightarrow> string" where
  "pad 0 n = []"
| "pad (Suc k) n = pad k (n div 10) @ [digit_char (n mod 10)]"

lemma pad_length [simp]: "length (pad k n) = k"
  by (induction k arbitrary: n) simp_all

lemma pad_digits: "list_all is_digit (pad k n)"
  by (induction k arbitrary: n) simp_all

lemma read_pad: "n < 10 ^ k \<Longrightarrow> read_nat (pad k n) = n"
proof (induction k arbitrary: n)
  case (Suc k)
  then have "n div 10 < 10 ^ k" by (simp add: less_mult_imp_div_less mult.commute)
  then show ?case using Suc.IH by simp
qed (simp add: read_nat_def)

text \<open>\<^verbatim>\<open>new Date(t).toISOString().slice(0, 10)\<close>\<close>

definition date_part :: "int \<Rightarrow> string" where
  "date_part t = (let d = t div 86400000; y = year_of_day d; n = d - day_from_year y; k = month_down (is_leap y) 11 n in
     (if 0 \<le> y \<and> y \<le> 9999 then pad 4 (nat y) else (if y < 0 then CHR ''-'' else CHR ''+'') # pad 6 (nat \<bar>y\<bar>)) @
     ''-'' @ pad 2 (Suc k) @ ''-'' @ pad 2 (nat (n - month_start (is_leap y) k + 1)))"

definition iso_day :: "int \<Rightarrow> string" where
  "iso_day t = take 10 (date_part t)"

text \<open>\<^verbatim>\<open>/^\d{4}-\d{2}-\d{2}$/\<close>\<close>

definition date_shape :: "string \<Rightarrow> bool" where
  "date_shape s \<longleftrightarrow> length s = 10 \<and> s ! 4 = CHR ''-'' \<and> s ! 7 = CHR ''-'' \<and>
     list_all is_digit (take 4 s @ take 2 (drop 5 s) @ drop 8 s)"

text \<open>
  \<^verbatim>\<open>new Date(`${s}T00:00:00Z`).getTime()\<close> for a text of this shape. Any day up to the 31st counts on
  from the first of its month; \<^term>\<open>None\<close> is \<^verbatim>\<open>NaN\<close>.
\<close>

definition day_time :: "string \<Rightarrow> int option" where
  "day_time s = (let y = int (read_nat (take 4 s)); m = read_nat (take 2 (drop 5 s)); n = read_nat (drop 8 s) in
     if 1 \<le> m \<and> m \<le> 12 \<and> 1 \<le> n \<and> n \<le> 31
     then Some (86400000 * (day_from_year y + month_start (is_leap y) (m - 1) + int n - 1)) else None)"

lemma iso_day_length: "length (iso_day t) = 10"
  by (simp add: iso_day_def date_part_def Let_def)

lemma day_of_year: "0 \<le> d - day_from_year (year_of_day d)" "d - day_from_year (year_of_day d) < (if is_leap (year_of_day d) then 366 else 365)"
  using year_of_day_bounds [of d] day_from_year_next [of "year_of_day d"] by auto

text \<open>The day text of a time stands for the midnight before it.\<close>

lemma day_roundtrip:
  assumes "0 \<le> year_of_day (t div 86400000)" "year_of_day (t div 86400000) \<le> 9999"
  shows "date_shape (iso_day t)" "day_time (iso_day t) = Some (86400000 * (t div 86400000))"
proof -
  define y n where "y = year_of_day (t div 86400000)" and "n = t div 86400000 - day_from_year y"
  define k where "k = month_down (is_leap y) 11 n"
  define e where "e = nat (n - month_start (is_leap y) k + 1)"
  have n: "0 \<le> n" "n < (if is_leap y then 366 else 365)" using day_of_year by (simp_all add: n_def y_def)
  have k: "month_start (is_leap y) k \<le> n" "k \<le> 11" "k < 11 \<longrightarrow> n < month_start (is_leap y) (Suc k)"
    using month_down_bounds [OF n(1), of "is_leap y" 11] by (simp_all add: k_def)
  have "n < month_start (is_leap y) k + 31"
  proof (cases "k = 11")
    case True
    then show ?thesis using n by (simp add: month_start_def split: if_splits)
  next
    case False
    then show ?thesis using k month_days [of k "is_leap y"] by simp
  qed
  then have e: "1 \<le> e" "e \<le> 31" "int e = n - month_start (is_leap y) k + 1" using k(1) by (simp_all add: e_def)
  have shape: "iso_day t = pad 4 (nat y) @ CHR ''-'' # pad 2 (Suc k) @ CHR ''-'' # pad 2 e"
    using assms by (simp add: iso_day_def date_part_def Let_def y_def n_def k_def e_def)
  show "date_shape (iso_day t)" unfolding shape by (simp add: date_shape_def nth_append pad_digits del: pad.simps)
  have "nat y < 10 ^ 4" "Suc k < 10 ^ 2" "e < 10 ^ 2" using assms k(2) e(2) by (simp_all add: y_def nat_less_iff)
  then show "day_time (iso_day t) = Some (86400000 * (t div 86400000))"
    unfolding shape using e k(2) assms by (simp add: day_time_def Let_def read_pad y_def n_def algebra_simps del: pad.simps)
qed

end
