(* ===== verification/Telemetry.thy ===== *)
theory Telemetry
  imports AgentContext Jobs Days "HOL-Library.AList"
begin

text \<open>
  The collector of anonymous usage counts, \<^verbatim>\<open>apps/telemetry/src\<close>: the check of an event, the
  aggregate of a day in its file, the queue in which events are recorded, and the HTTP handler.
  \<^verbatim>\<open>Date.parse\<close>, HMAC and the JSON text codec are arguments; what a file holds is a parameter type.
\<close>

section \<open>Events\<close>

text \<open>\<^verbatim>\<open>schema.js\<close>\<close>

definition EVENTS :: "string list" where
  "EVENTS = [''service_started'', ''active_day'', ''terminal_opened'', ''terminal_closed'', ''file_transferred'']"

definition DURATIONS :: "string list" where
  "DURATIONS = [''under_1m'', ''1_5m'', ''5_30m'', ''30_120m'', ''over_2h'']"

definition SIZES :: "string list" where
  "SIZES = [''under_1mb'', ''1_10mb'', ''10_100mb'', ''100mb_1gb'', ''over_1gb'']"

definition uuid_char :: "char \<Rightarrow> bool" where
  "uuid_char c \<longleftrightarrow> is_digit c \<or> c \<in> set ''abcdefABCDEF''"

definition UUID :: "string \<Rightarrow> bool" where
  "UUID s \<longleftrightarrow> length s = 36 \<and> s ! 8 = CHR ''-'' \<and> s ! 13 = CHR ''-'' \<and> s ! 18 = CHR ''-'' \<and> s ! 23 = CHR ''-'' \<and>
     list_all uuid_char (take 8 s @ take 4 (drop 9 s) @ take 4 (drop 14 s) @ take 4 (drop 19 s) @ drop 24 s) \<and>
     s ! 14 \<in> set ''12345678'' \<and> s ! 19 \<in> set ''89abAB''"

text \<open>\<^verbatim>\<open>new Date(v).getTime()\<close>\<close>

definition date_value :: "(string \<Rightarrow> int option) \<Rightarrow> json option \<Rightarrow> int option" where
  "date_value parse_date v = (case v of
       None \<Rightarrow> None
     | Some JNull \<Rightarrow> Some 0
     | Some (JBool b) \<Rightarrow> Some (if b then 1 else 0)
     | Some (JNum n) \<Rightarrow> if \<bar>n\<bar> \<le> 8640000000000000 then Some n else None
     | Some x \<Rightarrow> parse_date (js_string x))"

definition has_text :: "string list \<Rightarrow> json option \<Rightarrow> bool" where
  "has_text texts v \<longleftrightarrow> (case v of Some (JStr s) \<Rightarrow> s \<in> set texts | _ \<Rightarrow> False)"

text \<open>\<^verbatim>\<open>installationId\<close> is kept as it came.\<close>

record event =
  ev_installationId :: json
  ev_event :: string
  ev_occurredAt :: int
  ev_started :: "(string \<times> string \<times> string) option"
  ev_durationBucket :: "string option"
  ev_transfer :: "(string \<times> string) option"

definition short_text :: "json option \<Rightarrow> bool" where
  "short_text v \<longleftrightarrow> is_string_value v \<and> length (string_value v) \<le> 40"

definition is_object :: "json \<Rightarrow> bool" where
  "is_object v = (case v of JObj fs \<Rightarrow> True | _ \<Rightarrow> False)"

definition validateEvent :: "(string \<Rightarrow> int option) \<Rightarrow> int \<Rightarrow> json \<Rightarrow> string + event" where
  "validateEvent parse_date now input =
     (if \<not> is_object input then Inl ''Event must be an object''
      else if json_field ''schemaVersion'' input \<noteq> Some (JNum 1) then Inl ''Unsupported schema version''
      else if \<not> matches_or_empty UUID (json_field ''installationId'' input) then Inl ''Invalid installation ID''
      else if \<not> has_text EVENTS (json_field ''event'' input) then Inl ''Unknown event''
      else (case date_value parse_date (json_field ''occurredAt'' input) of
          None \<Rightarrow> Inl ''Invalid event time''
        | Some occurredAt \<Rightarrow>
            (let kind = string_value (json_field ''event'' input);
                 text_of = (\<lambda>k. string_value (json_field k input)) in
             if \<bar>now - occurredAt\<bar> > 7 * 86400000 then Inl ''Event time is outside the accepted window''
             else if kind = ''service_started'' \<and> \<not> list_all (\<lambda>k. short_text (json_field k input)) [''version'', ''platform'', ''arch'']
             then Inl ''Invalid version, platform or arch''
             else if kind = ''terminal_closed'' \<and> \<not> has_text DURATIONS (json_field ''durationBucket'' input) then Inl ''Invalid duration bucket''
             else if kind = ''file_transferred'' \<and> \<not> has_text [''upload'', ''download''] (json_field ''direction'' input)
             then Inl ''Invalid transfer direction''
             else if kind = ''file_transferred'' \<and> \<not> has_text SIZES (json_field ''sizeBucket'' input) then Inl ''Invalid size bucket''
             else Inr \<lparr>ev_installationId = (case json_field ''installationId'' input of None \<Rightarrow> JNull | Some v \<Rightarrow> v), ev_event = kind, ev_occurredAt = occurredAt,
               ev_started = (if kind = ''service_started'' then Some (text_of ''version'', text_of ''platform'', text_of ''arch'') else None),
               ev_durationBucket = (if kind = ''terminal_closed'' then Some (text_of ''durationBucket'') else None),
               ev_transfer = (if kind = ''file_transferred'' then Some (text_of ''direction'', text_of ''sizeBucket'') else None)\<rparr>)))"

section \<open>The aggregate of a day\<close>

text \<open>
  An object that counts. A name of \<^verbatim>\<open>Object.prototype\<close> that is no key yet has a truthy value: adding 1
  to it makes a text, and \<^verbatim>\<open>__proto__\<close> takes none.
\<close>

type_synonym counter = "(string \<times> json) list"

definition object_members :: "string list" where
  "object_members = [''constructor'', ''toString'', ''toLocaleString'', ''valueOf'', ''hasOwnProperty'', ''isPrototypeOf'',
     ''propertyIsEnumerable'', ''__defineGetter__'', ''__defineSetter__'', ''__lookupGetter__'', ''__lookupSetter__'', ''__proto__'']"

definition native_text :: "string \<Rightarrow> string" where
  "native_text k = ''function '' @ (if k = ''constructor'' then ''Object'' else k) @ ''() { [native code] }''"

definition increment :: "counter \<Rightarrow> string \<Rightarrow> counter" where
  "increment c k = (if k = ''__proto__'' then c
     else AList.update k (case map_of c k of
         None \<Rightarrow> if k \<in> set object_members then JStr (native_text k @ ''1'') else JNum 1
       | Some (JNum n) \<Rightarrow> JNum (n + 1)
       | Some v \<Rightarrow> if truthy (Some v) then JStr (js_string v @ ''1'') else JNum 1) c)"

record aggregate =
  ag_day :: string
  ag_events :: counter
  ag_uniqueInstallations :: "string list"
  ag_durationBuckets :: counter
  ag_transferBuckets :: counter
  ag_versions :: counter

definition new_aggregate :: "string \<Rightarrow> aggregate" where
  "new_aggregate day = \<lparr>ag_day = day, ag_events = [], ag_uniqueInstallations = [], ag_durationBuckets = [], ag_transferBuckets = [], ag_versions = []\<rparr>"

definition add_event :: "string \<Rightarrow> event \<Rightarrow> aggregate \<Rightarrow> aggregate" where
  "add_event installation e a = a\<lparr>
     ag_events := increment (ag_events a) (ev_event e),
     ag_uniqueInstallations := (if installation \<in> set (ag_uniqueInstallations a) then ag_uniqueInstallations a
        else ag_uniqueInstallations a @ [installation]),
     ag_durationBuckets := (case ev_durationBucket e of None \<Rightarrow> ag_durationBuckets a
        | Some b \<Rightarrow> if b = [] then ag_durationBuckets a else increment (ag_durationBuckets a) b),
     ag_transferBuckets := (case ev_transfer e of None \<Rightarrow> ag_transferBuckets a
        | Some (d, b) \<Rightarrow> if b = [] then ag_transferBuckets a else increment (ag_transferBuckets a) (d @ '':'' @ b)),
     ag_versions := (case ev_started e of None \<Rightarrow> ag_versions a
        | Some (v, p, r) \<Rightarrow> if v = [] then ag_versions a else increment (ag_versions a) v)\<rparr>"

section \<open>The store\<close>

record 't collector_env =
  ce_hmac :: "string \<Rightarrow> string"
  ce_date :: "string \<Rightarrow> int option"
  ce_json :: "string \<Rightarrow> json option"
  ce_stringify :: "aggregate \<Rightarrow> 't"
  ce_parse :: "'t \<Rightarrow> aggregate option"
  ce_cut :: 't
  ce_pid :: nat
  ce_retentionDays :: nat

type_synonym 't day_files = "(string \<times> 't) list"

definition aggregate_file :: "int \<Rightarrow> string" where
  "aggregate_file t = iso_day t @ ''.json''"

definition temporary_file :: "'t collector_env \<Rightarrow> int \<Rightarrow> string" where
  "temporary_file E t = aggregate_file t @ ''.part-'' @ show_nat (ce_pid E)"

text \<open>\<^verbatim>\<open>createHmac().update(id)\<close> takes texts only.\<close>

definition installationHash :: "'t collector_env \<Rightarrow> json \<Rightarrow> string + string" where
  "installationHash E v = (case v of JStr s \<Rightarrow> Inr (ce_hmac E s) | _ \<Rightarrow> Inl ''ERR_INVALID_ARG_TYPE'')"

definition read_aggregate :: "'t collector_env \<Rightarrow> faults \<Rightarrow> int \<Rightarrow> ('t day_files, aggregate) job" where
  "read_aggregate E F t = jcatch
     (jbind (jlook F (\<lambda>d. case map_of d (aggregate_file t) of None \<Rightarrow> Inl ''ENOENT'' | Some content \<Rightarrow> Inr content))
       (\<lambda>content. case ce_parse E content of None \<Rightarrow> jraise ''SyntaxError'' | Some a \<Rightarrow> jreturn a))
     (\<lambda>e. if e \<noteq> ''ENOENT'' then jraise e else jreturn (new_aggregate (iso_day t)))"

text \<open>\<^verbatim>\<open>writeFile\<close> empties the file before it fills it.\<close>

definition write_file :: "'t \<Rightarrow> faults \<Rightarrow> string \<Rightarrow> 't \<Rightarrow> ('t day_files, unit) job" where
  "write_file emptied F n content = jbind (jdo F (AList.update n emptied)) (\<lambda>_. jdo F (AList.update n content))"

definition rename_file :: "faults \<Rightarrow> string \<Rightarrow> string \<Rightarrow> ('t day_files, unit) job" where
  "rename_file F a b = jcall F (\<lambda>d. case map_of d a of None \<Rightarrow> Inl ''ENOENT'' | Some content \<Rightarrow> Inr (AList.update b content (AList.delete a d), ()))"

definition recordNow :: "'t collector_env \<Rightarrow> faults \<Rightarrow> event \<Rightarrow> ('t day_files, aggregate) job" where
  "recordNow E F e = (let t = ev_occurredAt e in
     jbind (read_aggregate E F t) (\<lambda>a.
     (case installationHash E (ev_installationId e) of
        Inl er \<Rightarrow> jraise er
      | Inr installation \<Rightarrow>
          (let a' = add_event installation e a in
           jbind (write_file (ce_cut E) F (temporary_file E t) (ce_stringify E a')) (\<lambda>_.
           jbind (rename_file F (temporary_file E t) (aggregate_file t)) (\<lambda>_.
           jreturn a'))))))"

text \<open>\<^verbatim>\<open>/^(\d{4}-\d{2}-\d{2})\.json$/\<close>\<close>

definition aggregate_day :: "string \<Rightarrow> string option" where
  "aggregate_day n = (if date_shape (take 10 n) \<and> drop 10 n = ''.json'' then Some (take 10 n) else None)"

definition expired :: "'t collector_env \<Rightarrow> int \<Rightarrow> string \<Rightarrow> bool" where
  "expired E now n = (case aggregate_day n of None \<Rightarrow> False
     | Some day \<Rightarrow> (case day_time day of None \<Rightarrow> False | Some t \<Rightarrow> t < now - int (ce_retentionDays E) * 86400000))"

fun remove_names :: "'t collector_env \<Rightarrow> faults \<Rightarrow> int \<Rightarrow> string list \<Rightarrow> ('t day_files, unit) job" where
  "remove_names E F now [] = jreturn ()"
| "remove_names E F now (n # ns) =
     jbind (if expired E now n then jdo F (AList.delete n) else jreturn ()) (\<lambda>_. remove_names E F now ns)"

definition removeExpired :: "'t collector_env \<Rightarrow> faults \<Rightarrow> int \<Rightarrow> ('t day_files, unit) job" where
  "removeExpired E F now = jbind (jlook F (\<lambda>d. Inr (map fst d))) (remove_names E F now)"

definition init_collector :: "'t collector_env \<Rightarrow> faults \<Rightarrow> int \<Rightarrow> ('t day_files, unit) job" where
  "init_collector E F now = jbind (jdo F (\<lambda>d. d)) (\<lambda>_. removeExpired E F now)"

section \<open>The process\<close>

text \<open>\<open>co_rejected\<close>: the promise in \<^verbatim>\<open>queue\<close> is rejected, so that \<^verbatim>\<open>then\<close> runs nothing more.\<close>

record 't collector =
  co_files :: "'t day_files"
  co_rejected :: bool
  co_up :: bool

definition start_collector :: "'t collector_env \<Rightarrow> faults \<Rightarrow> int \<Rightarrow> 't collector \<Rightarrow> 't collector" where
  "start_collector E F now s = (case jrun (init_collector E F now) (co_files s) of
      (d, r) \<Rightarrow> \<lparr>co_files = d, co_rejected = False, co_up = (r = Done ())\<rparr>)"

text \<open>The status that is to be answered, \<^term>\<open>None\<close> when the process has died, and the number of calls made so far.\<close>

definition record_event :: "'t collector_env \<Rightarrow> faults \<Rightarrow> event \<Rightarrow> 't collector \<Rightarrow> 't collector \<times> nat option \<times> nat" where
  "record_event E F e s = (if co_rejected s then (s, Some 400, 0)
     else (case recordNow E F e \<lparr>rn_world = co_files s, rn_calls = 0\<rparr> of
         (r, Done a) \<Rightarrow> (s\<lparr>co_files := rn_world r\<rparr>, Some 204, rn_calls r)
       | (r, Raised er) \<Rightarrow> (s\<lparr>co_files := rn_world r, co_rejected := True\<rparr>, Some 400, rn_calls r)
       | (r, Crashed) \<Rightarrow> (s\<lparr>co_files := rn_world r, co_up := False\<rparr>, None, rn_calls r)))"

record collector_request =
  cq_method :: string
  cq_pathname :: "string option"
  cq_chunks :: "string list"

definition readBody :: "'t collector_env \<Rightarrow> string list \<Rightarrow> json option" where
  "readBody E chunks = (case collect_chunks 8192 0 chunks of Inl e \<Rightarrow> None | Inr bytes \<Rightarrow> ce_json E bytes)"

definition read_event :: "'t collector_env \<Rightarrow> int \<Rightarrow> collector_request \<Rightarrow> event option" where
  "read_event E now q = (case readBody E (cq_chunks q) of None \<Rightarrow> None
     | Some v \<Rightarrow> (case validateEvent (ce_date E) now v of Inl e \<Rightarrow> None | Inr e \<Rightarrow> Some e))"

text \<open>
  The answer is a status; 0 stands for none. It is a call of its own: the process may die before it, and the
  connection may be gone, which the process does not see.
\<close>

definition send_status :: "faults \<Rightarrow> nat \<Rightarrow> nat \<Rightarrow> 't collector \<Rightarrow> 't collector \<times> nat" where
  "send_status F n status s = (case F n of
       NoFault \<Rightarrow> (s, status) | FailWith e \<Rightarrow> (s, 0) | CrashNow \<Rightarrow> (s\<lparr>co_up := False\<rparr>, 0))"

definition createTelemetryServer :: "'t collector_env \<Rightarrow> faults \<Rightarrow> int \<Rightarrow> collector_request \<Rightarrow> 't collector \<Rightarrow> 't collector \<times> nat" where
  "createTelemetryServer E F now q s =
     (if \<not> co_up s then (s, 0)
      else (case cq_pathname q of
          None \<Rightarrow> send_status F 0 400 s
        | Some p \<Rightarrow>
            if cq_method q = ''GET'' \<and> p = ''/health'' then send_status F 0 200 s
            else if cq_method q \<noteq> ''POST'' \<or> p \<noteq> ''/api/dp-beget-bridge/events'' then send_status F 0 404 s
            else (case read_event E now q of
                None \<Rightarrow> send_status F 0 400 s
              | Some e \<Rightarrow> (case record_event E F e s of
                    (s', None, n) \<Rightarrow> (s', 0)
                  | (s', Some status, n) \<Rightarrow> send_status F n status s'))))"

section \<open>The sender\<close>

text \<open>\<^verbatim>\<open>agent/src/telemetry.js\<close>: the buckets, of milliseconds and of bytes.\<close>

definition durationBucket :: "int \<Rightarrow> string" where
  "durationBucket ms = (if ms < 60000 then ''under_1m'' else if ms < 5 * 60000 then ''1_5m'' else if ms < 30 * 60000 then ''5_30m''
     else if ms < 120 * 60000 then ''30_120m'' else ''over_2h'')"

definition sizeBucket :: "int \<Rightarrow> string" where
  "sizeBucket bytes = (if bytes < 1024 * 1024 then ''under_1mb'' else if bytes < 10 * 1024 * 1024 then ''1_10mb''
     else if bytes < 100 * 1024 * 1024 then ''10_100mb'' else if bytes < 1024 * 1024 * 1024 then ''100mb_1gb'' else ''over_1gb'')"

definition allowed_fields :: "string \<Rightarrow> string list option" where
  "allowed_fields = map_of [(''service_started'', [''version'', ''platform'', ''arch'']), (''active_day'', []), (''terminal_opened'', []),
     (''terminal_closed'', [''durationBucket'']), (''file_transferred'', [''direction'', ''sizeBucket''])]"

text \<open>The payload \<^verbatim>\<open>track\<close> sends, of the fields that may leave the host; \<open>stamp\<close> is \<^verbatim>\<open>new Date().toISOString()\<close>.\<close>

definition track :: "bool \<Rightarrow> string \<Rightarrow> string \<Rightarrow> string \<Rightarrow> string \<Rightarrow> (string \<times> json) list \<Rightarrow> json option" where
  "track enabled endpoint installationId stamp event given =
     (if \<not> enabled \<or> endpoint = [] then None
      else (case allowed_fields event of None \<Rightarrow> None
        | Some ks \<Rightarrow> Some (JObj ([(''schemaVersion'', JNum 1), (''installationId'', JStr installationId), (''event'', JStr event),
            (''occurredAt'', JStr stamp)] @ List.map_filter (\<lambda>k. map_option (Pair k) (map_of given k)) ks))))"

text \<open>\<^verbatim>\<open>trackActivity\<close>: the day last reported, and whether the event \<^verbatim>\<open>active_day\<close> is tracked.\<close>

definition trackActivity :: "int \<Rightarrow> string option \<Rightarrow> string option \<times> bool" where
  "trackActivity now lastActivityDay = (if lastActivityDay = Some (iso_day now) then (lastActivityDay, False) else (Some (iso_day now), True))"

text \<open>The file \<^verbatim>\<open>installation-id\<close>, created with the flag \<^verbatim>\<open>wx\<close>; \<open>uuid\<close> is \<^verbatim>\<open>randomUUID()\<close>.\<close>

definition loadOrCreateInstallationId :: "faults \<Rightarrow> string \<Rightarrow> (string option, string) job" where
  "loadOrCreateInstallationId F uuid = jbind
     (jcatch (jbind (jlook F (\<lambda>w. case w of None \<Rightarrow> Inl ''ENOENT'' | Some content \<Rightarrow> Inr content)) (\<lambda>content. jreturn (Some (trim_text content))))
       (\<lambda>e. if e \<noteq> ''ENOENT'' then jraise e else jreturn None))
     (\<lambda>found. case found of
        Some i \<Rightarrow> jreturn i
      | None \<Rightarrow>
          jbind (jcall F (\<lambda>w. case w of None \<Rightarrow> Inr (Some [], ()) | Some content \<Rightarrow> Inl ''EEXIST'')) (\<lambda>_.
          jbind (jdo F (\<lambda>w. Some (uuid @ [CHR 0x0A]))) (\<lambda>_.
          jreturn uuid)))"

end
