(* ===== verification/Telemetry_Props.thy ===== *)
theory Telemetry_Props
  imports Telemetry "HOL-Library.Sublist"
begin

text \<open>
  What the files of the telemetry collector count, what a start removes, and what stops it.
\<close>

section \<open>Counters\<close>

definition tallies_counter :: "counter \<Rightarrow> string list \<Rightarrow> bool" where
  "tallies_counter c ks \<longleftrightarrow> (\<forall>k. k \<notin> set object_members \<longrightarrow>
     map_of c k = (if count_list ks k = 0 then None else Some (JNum (int (count_list ks k)))))"

lemma tallies_increment: "tallies_counter c ks \<Longrightarrow> tallies_counter (increment c k) (ks @ [k])"
proof -
  assume c: "tallies_counter c ks"
  have proto: "''__proto__'' \<in> set object_members" by (simp add: object_members_def)
  show ?thesis unfolding tallies_counter_def
  proof (intro allI impI)
    fix k' assume k': "k' \<notin> set object_members"
    then have old: "map_of c k' = (if count_list ks k' = 0 then None else Some (JNum (int (count_list ks k'))))"
      using c by (simp add: tallies_counter_def)
    show "map_of (increment c k) k' = (if count_list (ks @ [k]) k' = 0 then None else Some (JNum (int (count_list (ks @ [k]) k'))))"
    proof (cases "k = k'")
      case True
      then have "k \<noteq> ''__proto__''" using k' proto by blast
      then show ?thesis using True k' old by (simp add: increment_def update_conv')
    next
      case False
      then show ?thesis using old by (simp add: increment_def update_conv')
    qed
  qed
qed

definition texts :: "string list \<Rightarrow> string list" where
  "texts ss = filter (\<lambda>s. s \<noteq> []) ss"

definition durations :: "event list \<Rightarrow> string list" where
  "durations es = texts (List.map_filter ev_durationBucket es)"

definition transfer_keys :: "event list \<Rightarrow> string list" where
  "transfer_keys es = map (\<lambda>(d, b). d @ '':'' @ b) (filter (\<lambda>(d, b). b \<noteq> []) (List.map_filter ev_transfer es))"

definition versions :: "event list \<Rightarrow> string list" where
  "versions es = texts (map fst (List.map_filter ev_started es))"

text \<open>What an aggregate says when it counts the events \<open>es\<close>.\<close>

definition tallies :: "(string \<Rightarrow> string) \<Rightarrow> aggregate \<Rightarrow> event list \<Rightarrow> bool" where
  "tallies hmac a es \<longleftrightarrow>
     tallies_counter (ag_events a) (map ev_event es) \<and> tallies_counter (ag_durationBuckets a) (durations es) \<and>
     tallies_counter (ag_transferBuckets a) (transfer_keys es) \<and> tallies_counter (ag_versions a) (versions es) \<and>
     distinct (ag_uniqueInstallations a) \<and> set (ag_uniqueInstallations a) = (\<lambda>e. hmac (js_string (ev_installationId e))) ` set es"

lemma tallies_new: "tallies hmac (new_aggregate day) []"
  by (simp add: tallies_def new_aggregate_def tallies_counter_def durations_def transfer_keys_def versions_def texts_def)

lemma map_filter_snoc: "List.map_filter f (xs @ [x]) = List.map_filter f xs @ (case f x of None \<Rightarrow> [] | Some y \<Rightarrow> [y])"
  by (simp add: List.map_filter_def split: option.split)

lemma tallies_add:
  assumes a: "tallies hmac a es" and i: "installation = hmac (js_string (ev_installationId e))"
  shows "tallies hmac (add_event installation e a) (es @ [e])"
proof -
  note parts = a [unfolded tallies_def]
  have "tallies_counter (ag_durationBuckets (add_event installation e a)) (durations (es @ [e]))"
    using parts tallies_increment by (cases "ev_durationBucket e") (auto simp: add_event_def map_filter_snoc durations_def texts_def)
  moreover have "tallies_counter (ag_transferBuckets (add_event installation e a)) (transfer_keys (es @ [e]))"
    using parts tallies_increment by (cases "ev_transfer e") (auto simp: add_event_def map_filter_snoc transfer_keys_def)
  moreover have "tallies_counter (ag_versions (add_event installation e a)) (versions (es @ [e]))"
    using parts tallies_increment by (cases "ev_started e") (auto simp: add_event_def map_filter_snoc versions_def texts_def)
  moreover have "tallies_counter (ag_events (add_event installation e a)) (map ev_event (es @ [e]))"
    using parts tallies_increment by (simp add: add_event_def)
  ultimately show ?thesis using parts i by (auto simp: tallies_def add_event_def)
qed

section \<open>The files\<close>

type_synonym kept = "string \<Rightarrow> event list"

text \<open>\<open>h\<close> lists for each file the events it should count.\<close>

definition file_counts :: "'t collector_env \<Rightarrow> 't option \<Rightarrow> event list \<Rightarrow> bool" where
  "file_counts E content es \<longleftrightarrow> (case content of
       None \<Rightarrow> es = [] | Some c \<Rightarrow> (\<exists>a. ce_parse E c = Some a \<and> tallies (ce_hmac E) a es))"

definition counted :: "'t collector_env \<Rightarrow> kept \<Rightarrow> 't day_files \<Rightarrow> bool" where
  "counted E h d \<longleftrightarrow> (\<forall>t. file_counts E (map_of d (aggregate_file t)) (h (aggregate_file t)))"

definition remaining :: "kept \<Rightarrow> 't day_files \<Rightarrow> kept" where
  "remaining h d n = (if map_of d n = None then [] else h n)"

text \<open>Failing calls do not claim that an existing file is missing.\<close>

definition honest :: "faults \<Rightarrow> bool" where
  "honest F \<longleftrightarrow> (\<forall>n. F n \<noteq> FailWith ''ENOENT'')"

lemma aggregate_file_length: "length (aggregate_file t) = 15"
  by (simp add: aggregate_file_def iso_day_length)

lemma temporary_file_other: "temporary_file E t \<noteq> aggregate_file t'"
proof
  assume "temporary_file E t = aggregate_file t'"
  then have "length (temporary_file E t) = length (aggregate_file t')" by simp
  then show False by (simp add: temporary_file_def aggregate_file_length)
qed

lemma counted_other: "counted E h d \<Longrightarrow> counted E h (AList.update (temporary_file E t) c d)"
  by (simp add: counted_def update_conv' fun_upd_other temporary_file_other [symmetric])

lemma counted_rename:
  assumes d: "counted E h d" and c: "ce_parse E c = Some a" "tallies (ce_hmac E) a (h (aggregate_file t) @ [e])"
  shows "counted E (h(aggregate_file t := h (aggregate_file t) @ [e])) (AList.update (aggregate_file t) c (AList.delete (temporary_file E t) d))"
  unfolding counted_def
proof
  fix t'
  show "file_counts E (map_of (AList.update (aggregate_file t) c (AList.delete (temporary_file E t) d)) (aggregate_file t'))
     ((h(aggregate_file t := h (aggregate_file t) @ [e])) (aggregate_file t'))"
  proof (cases "aggregate_file t' = aggregate_file t")
    case True
    then show ?thesis using c by (simp add: file_counts_def update_conv')
  next
    case False
    then show ?thesis using d temporary_file_other [of E t t'] by (simp add: counted_def update_conv' delete_conv' fun_upd_def)
  qed
qed

lemma settles_read:
  assumes "honest F"
  shows "settles (counted E h) (read_aggregate E F t) (\<lambda>a d. counted E h d \<and> tallies (ce_hmac E) a (h (aggregate_file t))) (counted E h)"
  unfolding settles_def
proof (intro allI impI)
  fix s :: "'a day_files run" assume d: "counted E h (rn_world s)"
  then have f: "file_counts E (map_of (rn_world s) (aggregate_file t)) (h (aggregate_file t))" by (simp add: counted_def)
  note defs = read_aggregate_def jcatch_def jbind_def jlook_def jcall_def jraise_def jreturn_def Let_def
  show "(\<forall>a. snd (read_aggregate E F t s) = Done a \<longrightarrow> counted E h (rn_world (fst (read_aggregate E F t s))) \<and> tallies (ce_hmac E) a (h (aggregate_file t))) \<and>
      ((\<forall>a. snd (read_aggregate E F t s) \<noteq> Done a) \<longrightarrow> counted E h (rn_world (fst (read_aggregate E F t s))))"
  proof (cases "F (rn_calls s)")
    case NoFault
    then show ?thesis using f d tallies_new by (auto simp: defs file_counts_def split: option.splits)
  next
    case (FailWith er)
    then show ?thesis using d assms by (auto simp: defs honest_def)
  next
    case CrashNow
    then show ?thesis using d by (simp add: defs)
  qed
qed

lemma settles_record:
  assumes F: "honest F" and codec: "\<And>a. ce_parse E (ce_stringify E a) = Some a"
  shows "settles (counted E h) (recordNow E F e)
    (\<lambda>a. counted E (h(aggregate_file (ev_occurredAt e) := h (aggregate_file (ev_occurredAt e)) @ [e]))) (counted E h)"
proof -
  define t where "t = ev_occurredAt e"
  have rest: "settles (\<lambda>d. counted E h d \<and> tallies (ce_hmac E) a (h (aggregate_file t)))
     (jbind (write_file (ce_cut E) F (temporary_file E t) (ce_stringify E (add_event installation e a))) (\<lambda>_.
       jbind (rename_file F (temporary_file E t) (aggregate_file t)) (\<lambda>_. jreturn (add_event installation e a))))
     (\<lambda>_. counted E (h(aggregate_file t := h (aggregate_file t) @ [e]))) (counted E h)"
    if i: "installation = ce_hmac E (js_string (ev_installationId e))" for a installation
  proof (rule settles_bind)
    let ?P = "\<lambda>d. counted E h d \<and> tallies (ce_hmac E) a (h (aggregate_file t))"
    let ?S = "\<lambda>d. ?P d \<and> map_of d (temporary_file E t) = Some (ce_stringify E (add_event installation e a))"
    show "settles ?P (write_file (ce_cut E) F (temporary_file E t) (ce_stringify E (add_event installation e a))) (\<lambda>_. ?S) (counted E h)"
      unfolding write_file_def
      by (rule settles_bind [where S = "\<lambda>_. ?P"]; rule settles_do; simp add: counted_other update_conv')
    show "settles ?S (jbind (rename_file F (temporary_file E t) (aggregate_file t)) (\<lambda>_. jreturn (add_event installation e a)))
        (\<lambda>_. counted E (h(aggregate_file t := h (aggregate_file t) @ [e]))) (counted E h)"
      unfolding rename_file_def
      by (rule settles_bind, rule settles_call [where Q = "\<lambda>_. counted E (h(aggregate_file t := h (aggregate_file t) @ [e]))"])
        (use counted_rename [OF _ codec] tallies_add [of "ce_hmac E" a _ installation e, OF _ i] in \<open>auto split: option.splits intro!: settles_return\<close>)
  qed
  show ?thesis
    unfolding recordNow_def Let_def t_def [symmetric]
    by (rule settles_bind, rule settles_read, rule F)
       (auto simp: installationHash_def split: sum.split json.split intro!: rest settles_raise)
qed

section \<open>A start\<close>

text \<open>Every aggregate that is there counts what it should; files may have gone.\<close>

definition sound_files :: "'t collector_env \<Rightarrow> kept \<Rightarrow> 't day_files \<Rightarrow> bool" where
  "sound_files E h d \<longleftrightarrow> (\<forall>t c. map_of d (aggregate_file t) = Some c \<longrightarrow> file_counts E (Some c) (h (aggregate_file t)))"

lemma sound_remaining: "sound_files E h d \<Longrightarrow> counted E (remaining h d) d"
  by (auto simp: counted_def sound_files_def remaining_def file_counts_def split: option.split)

lemma counted_sound: "counted E h d \<Longrightarrow> sound_files E h d"
  by (auto simp: counted_def sound_files_def) metis

lemma settles_remove: "settles (sound_files E h) (remove_names E F now ns) (\<lambda>_. sound_files E h) (sound_files E h)"
proof (induction ns)
  case Nil
  then show ?case by (simp add: settles_return)
next
  case (Cons n ns)
  have "settles (sound_files E h) (if expired E now n then jdo F (AList.delete n) else jreturn ()) (\<lambda>_. sound_files E h) (sound_files E h)"
    by (auto simp: sound_files_def delete_conv' intro!: settles_do settles_return split: if_splits)
  then show ?case unfolding remove_names.simps by (rule settles_bind) (rule Cons.IH)
qed

lemma settles_init: "settles (sound_files E h) (init_collector E F now) (\<lambda>_. sound_files E h) (sound_files E h)"
  unfolding init_collector_def removeExpired_def
  by (rule settles_bind [where S = "\<lambda>_. sound_files E h"], rule settles_do, simp,
      rule settles_bind [where S = "\<lambda>_. sound_files E h"], rule settles_look, simp_all add: settles_remove)

lemma start_counted:
  assumes "counted E h (co_files s)"
  shows "counted E (remaining h (co_files (start_collector E F now s))) (co_files (start_collector E F now s))"
  using settles_run [OF settles_init counted_sound [OF assms], of F now]
  by (intro sound_remaining) (auto simp: start_collector_def split: prod.splits)

text \<open>Which files a start removes when no call fails.\<close>

lemma remove_calm:
  assumes F: "calm F"
  shows "(case remove_names E F now ns s of (s', r) \<Rightarrow> r = Done () \<and>
    (\<forall>n. map_of (rn_world s') n = (if n \<in> set ns \<and> expired E now n then None else map_of (rn_world s) n)))"
proof (induction ns arbitrary: s)
  case Nil
  then show ?case by (simp add: jreturn_def)
next
  case (Cons k ns)
  have F: "F n = NoFault" for n using F by (simp add: calm_def)
  define s1 where "s1 = (if expired E now k then s\<lparr>rn_calls := rn_calls s + 1, rn_world := AList.delete k (rn_world s)\<rparr> else s)"
  have step: "(if expired E now k then jdo F (AList.delete k) else jreturn ()) s = (s1, Done ())"
    by (simp add: s1_def jdo_def jcall_def F jreturn_def Let_def)
  show ?case using Cons.IH [of s1]
    by (auto simp: jbind_def step split: prod.splits) (auto simp: s1_def delete_conv' split: if_splits)
qed

lemma start_removes_expired:
  assumes F: "calm F"
  shows "co_up (start_collector E F now s)" "\<not> co_rejected (start_collector E F now s)"
    "map_of (co_files (start_collector E F now s)) n = (if expired E now n then None else map_of (co_files s) n)"
proof -
  have F': "F n = NoFault" for n using F by (simp add: calm_def)
  obtain s' r where r: "remove_names E F now (map fst (co_files s)) \<lparr>rn_world = co_files s, rn_calls = 2\<rparr> = (s', r)" by fastforce
  have run: "jrun (init_collector E F now) (co_files s) = (rn_world s', r)"
    by (simp add: jrun_def init_collector_def removeExpired_def jbind_def jdo_def jlook_def jcall_def F' Let_def r numeral_2_eq_2 [symmetric])
  have e: "r = Done ()" "\<And>n. map_of (rn_world s') n = (if n \<in> set (map fst (co_files s)) \<and> expired E now n then None else map_of (co_files s) n)"
    using remove_calm [OF F, where ns = "map fst (co_files s)" and s = "\<lparr>rn_world = co_files s, rn_calls = 2\<rparr>" and E = E and now = now] by (simp_all add: r)
  show "co_up (start_collector E F now s)" "\<not> co_rejected (start_collector E F now s)" using run e by (simp_all add: start_collector_def)
  have "n \<notin> set (map fst (co_files s)) \<Longrightarrow> map_of (co_files s) n = None" by (simp add: map_of_eq_None_iff)
  then show "map_of (co_files (start_collector E F now s)) n = (if expired E now n then None else map_of (co_files s) n)"
    using run e by (auto simp: start_collector_def)
qed

lemma expired_file:
  assumes "0 \<le> year_of_day (t div 86400000)" "year_of_day (t div 86400000) \<le> 9999"
  shows "expired E now (aggregate_file t) \<longleftrightarrow> 86400000 * (t div 86400000) < now - int (ce_retentionDays E) * 86400000"
  using day_roundtrip [OF assms] iso_day_length [of t] by (simp add: expired_def aggregate_day_def aggregate_file_def)

section \<open>Runs\<close>

datatype collector_input = Restart faults int | Request faults int collector_request

definition input_faults :: "collector_input \<Rightarrow> faults" where
  "input_faults i = (case i of Restart F now \<Rightarrow> F | Request F now q \<Rightarrow> F)"

text \<open>
  A step, and for the file of each day the valid events for it that were answered with 204 (\<open>True\<close>) or to whose
  request there was no answer (\<open>False\<close>), while the file is there.
\<close>

type_synonym outcomes = "string \<Rightarrow> (event \<times> bool) list"

definition collector_step :: "'t collector_env \<Rightarrow> 't collector \<times> outcomes \<Rightarrow> collector_input \<Rightarrow> 't collector \<times> outcomes" where
  "collector_step E sh i = (case sh of (s, h) \<Rightarrow> (case i of
       Restart F now \<Rightarrow> (let s' = start_collector E F now s in (s', \<lambda>n. if map_of (co_files s') n = None then [] else h n))
     | Request F now q \<Rightarrow> (case createTelemetryServer E F now q s of (s', status) \<Rightarrow>
         (s', (case read_event E now q of None \<Rightarrow> h
            | Some e \<Rightarrow> if co_up s \<and> (status = 204 \<or> status = 0)
                then h(aggregate_file (ev_occurredAt e) := h (aggregate_file (ev_occurredAt e)) @ [(e, status = 204)])
                else h)))))"

definition no_collector :: "'t collector" where
  "no_collector = \<lparr>co_files = [], co_rejected = False, co_up = False\<rparr>"

definition collector_run :: "'t collector_env \<Rightarrow> collector_input list \<Rightarrow> 't collector \<times> outcomes" where
  "collector_run E inputs = foldl (collector_step E) (no_collector, \<lambda>_. []) inputs"

text \<open>All answered events, and besides at most unanswered ones, in the order of their requests.\<close>

definition agrees :: "event list \<Rightarrow> (event \<times> bool) list \<Rightarrow> bool" where
  "agrees es l \<longleftrightarrow> subseq (map fst (filter snd l)) es \<and> subseq es (map fst l)"

definition explained :: "'t collector_env \<Rightarrow> outcomes \<Rightarrow> 't day_files \<Rightarrow> bool" where
  "explained E h d \<longleftrightarrow> (\<exists>k. counted E k d \<and> (\<forall>n. agrees (k n) (h n)))"

lemma agrees_more:
  "agrees es l \<Longrightarrow> agrees (es @ [e]) (l @ [(e, b)])" "agrees es l \<Longrightarrow> agrees es (l @ [(e, False)])"
  by (auto simp: agrees_def subseq_append' intro: list_emb_append2 list_emb_append_mono subseq_rev_drop_many)

lemma record_counted:
  assumes "honest F" "\<And>a. ce_parse E (ce_stringify E a) = Some a" "counted E k (co_files s)" "record_event E F e s = (s', answer, n)"
  shows "answer = Some 204 \<and> counted E (k(aggregate_file (ev_occurredAt e) := k (aggregate_file (ev_occurredAt e)) @ [e])) (co_files s') \<or>
    (answer = Some 400 \<or> answer = None) \<and> counted E k (co_files s')"
proof (cases "co_rejected s")
  case True
  then show ?thesis using assms(3,4) by (auto simp: record_event_def)
next
  case False
  obtain r x where run: "recordNow E F e \<lparr>rn_world = co_files s, rn_calls = 0\<rparr> = (r, x)" by fastforce
  have fate: "(\<forall>a. x = Done a \<longrightarrow> counted E (k(aggregate_file (ev_occurredAt e) := k (aggregate_file (ev_occurredAt e)) @ [e])) (rn_world r)) \<and>
      ((\<forall>a. x \<noteq> Done a) \<longrightarrow> counted E k (rn_world r))"
    using settles_run [OF settles_record [OF assms(1,2)] assms(3), of e] by (simp add: jrun_def run)
  show ?thesis using fate assms(4) False by (cases x) (auto simp: record_event_def run)
qed

lemma explained_answer:
  assumes "\<And>n. agrees (k n) (h n)" "b = (status = (204::nat))" "status = 204 \<or> status = 0"
    and "counted E (k(n := k n @ [e])) d \<or> status = 0 \<and> counted E k d"
  shows "explained E (h(n := h n @ [(e, b)])) d"
proof (cases "counted E (k(n := k n @ [e])) d")
  case True
  have "agrees ((k(n := k n @ [e])) m) ((h(n := h n @ [(e, b)])) m)" for m using assms(1) agrees_more(1) by simp
  then show ?thesis using True unfolding explained_def by blast
next
  case False
  then have "counted E k d" "b = False" using assms(2,4) by auto
  moreover have "agrees (k m) ((h(n := h n @ [(e, b)])) m)" for m using assms(1) agrees_more(2) \<open>b = False\<close> by simp
  ultimately show ?thesis unfolding explained_def by blast
qed

lemma send_cases: "send_status F n status s = (s', st) \<Longrightarrow> co_files s' = co_files s \<and> (st = status \<or> st = 0)"
  by (auto simp: send_status_def split: fault.splits)

lemma server_explained:
  assumes F: "honest F" and codec: "\<And>a. ce_parse E (ce_stringify E a) = Some a" and h: "explained E h (co_files s)" and up: "co_up s"
    and r: "createTelemetryServer E F now q s = (s', status)"
  shows "explained E (case read_event E now q of None \<Rightarrow> h
      | Some e \<Rightarrow> if status = 204 \<or> status = 0 then h(aggregate_file (ev_occurredAt e) := h (aggregate_file (ev_occurredAt e)) @ [(e, status = 204)])
          else h) (co_files s')"
proof -
  obtain k where k: "counted E k (co_files s)" "\<And>n. agrees (k n) (h n)" using h by (auto simp: explained_def)
  have quiet: "explained E (case read_event E now q of None \<Rightarrow> h
      | Some e \<Rightarrow> if status = 204 \<or> status = 0 then h(aggregate_file (ev_occurredAt e) := h (aggregate_file (ev_occurredAt e)) @ [(e, status = 204)])
          else h) (co_files s')" if "co_files s' = co_files s" "status \<noteq> 204"
  proof (cases "status = 0")
    case True
    have "explained E (h(n := h n @ [(e, False)])) (co_files s)" for n e
      by (rule explained_answer [OF k(2), of False 0]) (use k(1) in simp_all)
    then show ?thesis using True that h by (simp split: option.split)
  qed (use that h in \<open>simp split: option.split\<close>)
  show ?thesis
  proof (cases "\<exists>e. read_event E now q = Some e \<and> cq_method q = ''POST'' \<and> cq_pathname q = Some ''/api/dp-beget-bridge/events''")
    case False
    define st :: nat where "st = (case cq_pathname q of None \<Rightarrow> 400 | Some p \<Rightarrow> if cq_method q = ''GET'' \<and> p = ''/health'' then 200
        else if cq_method q \<noteq> ''POST'' \<or> p \<noteq> ''/api/dp-beget-bridge/events'' then 404 else 400)"
    have "createTelemetryServer E F now q s = send_status F 0 st s"
      using False up by (auto simp: createTelemetryServer_def st_def split: option.split)
    moreover have "st \<noteq> 204" by (simp add: st_def split: option.split)
    ultimately have st: "st \<noteq> 204" "send_status F 0 st s = (s', status)" using r by simp_all
    then show ?thesis using send_cases [OF st(2)] by (intro quiet) auto
  next
    case True
    then obtain e where e: "read_event E now q = Some e" "cq_method q = ''POST''" "cq_pathname q = Some ''/api/dp-beget-bridge/events''" by blast
    obtain s1 answer n where rec: "record_event E F e s = (s1, answer, n)" by (cases "record_event E F e s") auto
    have ends: "co_files s' = co_files s1 \<and> (case answer of None \<Rightarrow> status = 0 | Some st \<Rightarrow> status = st \<or> status = 0)"
      using r up e rec send_cases [of F n _ s1 s' status] by (auto simp: createTelemetryServer_def split: option.splits)
    let ?n = "aggregate_file (ev_occurredAt e)"
    have fate: "answer = Some 204 \<and> counted E (k(?n := k ?n @ [e])) (co_files s') \<or> (answer = Some 400 \<or> answer = None) \<and> counted E k (co_files s')"
      using record_counted [OF F codec k(1) rec] ends by simp
    show ?thesis
    proof (cases "status = 204 \<or> status = 0")
      case True
      have "explained E (h(?n := h ?n @ [(e, status = 204)])) (co_files s')"
        by (rule explained_answer [OF k(2) refl True]) (use fate ends True in auto)
      then show ?thesis using True by (simp only: e(1) option.case if_True)
    next
      case False
      then have "counted E k (co_files s')" using fate ends by auto
      then have "explained E h (co_files s')" using k(2) unfolding explained_def by blast
      then show ?thesis using False by (simp only: e(1) option.case if_False)
    qed
  qed
qed

lemma start_explained:
  assumes h: "explained E h (co_files s)"
  shows "explained E (\<lambda>n. if map_of (co_files (start_collector E F now s)) n = None then [] else h n) (co_files (start_collector E F now s))"
proof -
  obtain k where k: "counted E k (co_files s)" "\<And>n. agrees (k n) (h n)" using h by (auto simp: explained_def)
  let ?d = "co_files (start_collector E F now s)"
  have "agrees (remaining k ?d n) (if map_of ?d n = None then [] else h n)" for n
    using k(2) by (simp add: remaining_def agrees_def)
  then show ?thesis using start_counted [OF k(1), of F now] unfolding explained_def by blast
qed

lemma step_explained:
  assumes "honest (input_faults i)" "\<And>a. ce_parse E (ce_stringify E a) = Some a" "explained E h (co_files s)"
  shows "case collector_step E (s, h) i of (s', h') \<Rightarrow> explained E h' (co_files s')"
proof (cases i)
  case (Restart F now)
  then show ?thesis using start_explained [OF assms(3)] by (simp add: collector_step_def Let_def)
next
  case (Request F now q)
  have F: "honest F" using assms(1) Request by (simp add: input_faults_def)
  obtain s' status where r: "createTelemetryServer E F now q s = (s', status)" by fastforce
  show ?thesis
  proof (cases "co_up s")
    case True
    show ?thesis using server_explained [OF F assms(2,3) True r] True by (simp add: collector_step_def Request r cong: option.case_cong)
  next
    case False
    then show ?thesis using r assms(3) by (auto simp: collector_step_def Request createTelemetryServer_def split: option.split)
  qed
qed

lemma run_explained:
  assumes "\<And>a. ce_parse E (ce_stringify E a) = Some a"
  shows "list_all (\<lambda>i. honest (input_faults i)) inputs \<Longrightarrow> case collector_run E inputs of (s, h) \<Rightarrow> explained E h (co_files s)"
proof (induction inputs rule: rev_induct)
  case Nil
  then show ?case by (auto simp: collector_run_def no_collector_def explained_def counted_def file_counts_def agrees_def intro!: exI [of _ "\<lambda>n. []"])
next
  case (snoc i inputs)
  obtain s h where "collector_run E inputs = (s, h)" by fastforce
  then show ?case using snoc step_explained [OF _ assms, of i h s] by (simp add: collector_run_def)
qed

section \<open>Acceptance\<close>

lemma record_calm:
  assumes F: "calm F" and s: "\<not> co_rejected s" and i: "ev_installationId e = JStr i"
    and read: "\<forall>c. map_of (co_files s) (aggregate_file (ev_occurredAt e)) = Some c \<longrightarrow> ce_parse E c \<noteq> None"
  shows "\<exists>s' n. record_event E F e s = (s', Some 204, n)"
proof -
  have F: "F n = NoFault" for n using F by (simp add: calm_def)
  define t where "t = ev_occurredAt e"
  obtain a where a: "read_aggregate E F t \<lparr>rn_world = co_files s, rn_calls = 0\<rparr> = (\<lparr>rn_world = co_files s, rn_calls = Suc 0\<rparr>, Done a)"
    using read by (cases "map_of (co_files s) (aggregate_file t)")
      (auto simp: read_aggregate_def jcatch_def jbind_def jlook_def jcall_def jraise_def jreturn_def Let_def F t_def)
  have "\<exists>r a'. recordNow E F e \<lparr>rn_world = co_files s, rn_calls = 0\<rparr> = (r, Done a')"
    by (simp add: recordNow_def Let_def t_def [symmetric] jbind_def a installationHash_def i write_file_def rename_file_def
      jdo_def jcall_def jreturn_def F update_conv')
  then show ?thesis using s by (auto simp: record_event_def)
qed

text \<open>An event that the check lets through although its id is no text stops the collector until it is started again.\<close>

lemma textless_id_stops:
  assumes "co_up s" "cq_method q = ''POST''" "cq_pathname q = Some ''/api/dp-beget-bridge/events''"
    and e: "read_event E now q = Some e" "\<forall>i. ev_installationId e \<noteq> JStr i" and F: "calm F"
  shows "\<exists>s'. createTelemetryServer E F now q s = (s', 400) \<and> co_rejected s' \<and> co_up s'"
proof -
  have F: "F n = NoFault" for n using F by (simp add: calm_def)
  have "\<exists>s' n. record_event E F e s = (s', Some 400, n) \<and> co_rejected s' \<and> co_up s'"
  proof (cases "co_rejected s")
    case True
    then show ?thesis using assms(1) by (simp add: record_event_def)
  next
    case False
    have "\<exists>r er. recordNow E F e \<lparr>rn_world = co_files s, rn_calls = 0\<rparr> = (r, Raised er)"
      using e(2) F
      by (cases "map_of (co_files s) (aggregate_file (ev_occurredAt e))"; cases "ev_installationId e")
        (auto simp: recordNow_def Let_def read_aggregate_def jcatch_def jbind_def jlook_def jcall_def jraise_def jreturn_def installationHash_def
          split: option.split)
    then show ?thesis using False assms(1) by (auto simp: record_event_def)
  qed
  then show ?thesis using assms(1-4) F by (auto simp: createTelemetryServer_def send_status_def)
qed

lemma rejected_stays:
  assumes "co_rejected s"
  shows "\<exists>s' status. createTelemetryServer E F now q s = (s', status) \<and> status \<noteq> 204 \<and> co_files s' = co_files s \<and> co_rejected s'"
  using assms by (auto simp: createTelemetryServer_def record_event_def send_status_def split: option.split fault.split)

text \<open>The id the check lets through: a list of one id.\<close>

lemma listed_id_valid:
  "\<exists>e. validateEvent (\<lambda>t. None) 0 (JObj [(''schemaVersion'', JNum 1), (''installationId'', JArr [JStr ''01234567-89ab-4def-8123-456789abcdef'']),
     (''event'', JStr ''active_day''), (''occurredAt'', JNum 0)]) = Inr e \<and> (\<forall>i. ev_installationId e \<noteq> JStr i)"
proof -
  have u: "UUID ''01234567-89ab-4def-8123-456789abcdef''" by code_simp
  show ?thesis using u
    by (simp add: validateEvent_def is_object_def json_field_def matches_or_empty_def has_text_def EVENTS_def date_value_def Let_def)
qed

section \<open>The sender\<close>

lemma sent_bucket: "durationBucket ms \<in> set DURATIONS" "sizeBucket bytes \<in> set SIZES"
  by (simp_all add: durationBucket_def sizeBucket_def DURATIONS_def SIZES_def)

text \<open>The calls of \<^verbatim>\<open>track\<close> in the agent.\<close>

datatype agent_event = ServiceStarted string string string | ActiveDay | TerminalOpened | TerminalClosed int | Transferred bool int

definition agent_track :: "bool \<Rightarrow> string \<Rightarrow> string \<Rightarrow> string \<Rightarrow> agent_event \<Rightarrow> json option" where
  "agent_track enabled endpoint i stamp a = (case a of
       ServiceStarted v p r \<Rightarrow> track enabled endpoint i stamp ''service_started'' [(''version'', JStr v), (''platform'', JStr p), (''arch'', JStr r)]
     | ActiveDay \<Rightarrow> track enabled endpoint i stamp ''active_day'' []
     | TerminalOpened \<Rightarrow> track enabled endpoint i stamp ''terminal_opened'' []
     | TerminalClosed ms \<Rightarrow> track enabled endpoint i stamp ''terminal_closed'' [(''durationBucket'', JStr (durationBucket ms))]
     | Transferred up bytes \<Rightarrow> track enabled endpoint i stamp ''file_transferred''
         [(''direction'', JStr (if up then ''upload'' else ''download'')), (''sizeBucket'', JStr (sizeBucket bytes))])"

definition agent_event_read :: "string \<Rightarrow> int \<Rightarrow> agent_event \<Rightarrow> event" where
  "agent_event_read i t a = \<lparr>ev_installationId = JStr i,
     ev_event = (case a of ServiceStarted v p r \<Rightarrow> ''service_started'' | ActiveDay \<Rightarrow> ''active_day'' | TerminalOpened \<Rightarrow> ''terminal_opened''
        | TerminalClosed ms \<Rightarrow> ''terminal_closed'' | Transferred up bytes \<Rightarrow> ''file_transferred''),
     ev_occurredAt = t,
     ev_started = (case a of ServiceStarted v p r \<Rightarrow> Some (v, p, r) | _ \<Rightarrow> None),
     ev_durationBucket = (case a of TerminalClosed ms \<Rightarrow> Some (durationBucket ms) | _ \<Rightarrow> None),
     ev_transfer = (case a of Transferred up bytes \<Rightarrow> Some (if up then ''upload'' else ''download'', sizeBucket bytes) | _ \<Rightarrow> None)\<rparr>"

lemma sent_events_accepted:
  assumes "UUID i" "parse_date stamp = Some t" "\<bar>now - t\<bar> \<le> 7 * 86400000"
    and "\<forall>v p r. a = ServiceStarted v p r \<longrightarrow> length v \<le> 40 \<and> length p \<le> 40 \<and> length r \<le> 40"
    and "agent_track enabled endpoint i stamp a = Some payload"
  shows "validateEvent parse_date now payload = Inr (agent_event_read i t a)"
proof -
  have i: "i \<noteq> []" using assms(1) by (auto simp: UUID_def)
  have on: "enabled" "endpoint \<noteq> []" using assms(5) by (simp_all add: agent_track_def track_def split: agent_event.splits if_splits)
  note given = assms(1-4) i sent_bucket on assms(5) [symmetric]
  note check = validateEvent_def is_object_def json_field_def matches_or_empty_def has_text_def date_value_def short_text_def Let_def
  note sent = agent_track_def track_def allowed_fields_def agent_event_read_def List.map_filter_def
  have kinds: "''service_started'' \<in> set EVENTS" "''active_day'' \<in> set EVENTS" "''terminal_opened'' \<in> set EVENTS"
    "''terminal_closed'' \<in> set EVENTS" "''file_transferred'' \<in> set EVENTS" by (simp_all add: EVENTS_def)
  show ?thesis
  proof (cases a)
    case (ServiceStarted v p r)
    then show ?thesis using given kinds by (simp add: sent check)
  next
    case ActiveDay
    then show ?thesis using given kinds by (simp add: sent check)
  next
    case TerminalOpened
    then show ?thesis using given kinds by (simp add: sent check)
  next
    case (TerminalClosed ms)
    then show ?thesis using given kinds by (simp add: sent check)
  next
    case (Transferred up bytes)
    then show ?thesis using given kinds by (cases up) (simp_all add: sent check)
  qed
qed

text \<open>The id of an installation stays; cut off while it is written, it is no id for good, and every event is refused.\<close>

lemma hex_not_space: "uuid_char c \<Longrightarrow> \<not> ascii_space c"
  unfolding ascii_space_def by (rule notI) (auto simp: uuid_char_def is_digit_def)

lemma uuid_not_space:
  assumes "UUID i"
  shows "i \<noteq> [] \<and> \<not> ascii_space (hd i) \<and> \<not> ascii_space (last i)"
proof -
  have n: "i \<noteq> []" "length i = 36" using assms by (auto simp: UUID_def)
  have "hd i \<in> set (take 8 i)" using n(1) by (cases i) simp_all
  moreover have "last i \<in> set (drop 24 i)" using n(2) last_drop [of 24 i] last_in_set [of "drop 24 i"] by simp
  moreover have "\<forall>c \<in> set (take 8 i) \<union> set (drop 24 i). uuid_char c" using assms by (simp add: UUID_def list_all_iff ball_Un)
  ultimately have "uuid_char (hd i)" "uuid_char (last i)" by blast+
  then show ?thesis using n(1) hex_not_space by blast
qed

lemma trim_line: "i \<noteq> [] \<Longrightarrow> \<not> ascii_space (hd i) \<Longrightarrow> \<not> ascii_space (last i) \<Longrightarrow> trim_text (i @ [CHR 0x0A]) = i"
proof -
  assume i: "i \<noteq> []" "\<not> ascii_space (hd i)" "\<not> ascii_space (last i)"
  have "dropWhile ascii_space (i @ [CHR 0x0A]) = i @ [CHR 0x0A]" "dropWhile ascii_space (rev i) = rev i"
    using i by (simp_all add: dropWhile_eq_self_iff hd_rev)
  then show ?thesis by (simp add: trim_text_def ascii_space_def)
qed

lemma installation_id_stays:
  assumes "UUID uuid" "jrun (loadOrCreateInstallationId F uuid) None = (w, Done i)" "calm F'"
  shows "i = uuid \<and> jrun (loadOrCreateInstallationId F' uuid') w = (w, Done i)"
proof -
  note defs = jrun_def loadOrCreateInstallationId_def jbind_def jcatch_def jlook_def jdo_def jcall_def jreturn_def jraise_def Let_def
  have w: "i = uuid" "w = Some (uuid @ [CHR 0x0A])"
    using assms(2) by (auto simp: defs split: fault.splits if_splits)
  have trim: "trim_text (uuid @ [CHR 0x0A]) = uuid"
    using uuid_not_space [OF assms(1)] trim_line by blast
  have "F' n = NoFault" for n using assms(3) by (simp add: calm_def)
  then show ?thesis using w trim by (simp add: defs)
qed

lemma cut_id_refused:
  "fst (jrun (loadOrCreateInstallationId (crash_at 2) uuid) None) = Some []"
  "calm F \<Longrightarrow> snd (jrun (loadOrCreateInstallationId F uuid') (Some [])) = Done []"
  "validateEvent parse_date now (JObj [(''schemaVersion'', JNum 1), (''installationId'', JStr []), (''event'', v), (''occurredAt'', u)]) =
     Inl ''Invalid installation ID''"
  by (simp_all add: jrun_def loadOrCreateInstallationId_def jbind_def jcatch_def jlook_def jdo_def jcall_def jreturn_def jraise_def Let_def
    crash_at_def calm_def trim_text_def validateEvent_def is_object_def json_field_def matches_or_empty_def UUID_def)

section \<open>The collector\<close>

text \<open>
  C38. However calls of the collector fail, crash or are repeated: the file of a day, while it is there, counts
  by kind, bucket and version, with each installation once, every event for that day that was answered with 204, and
  besides at most events whose request got no answer at all (the process died during it, perhaps after the rename and before
  the answer, or the connection was gone); each at most once and in the order of the requests. A running
  collector whose queue is not broken answers every valid event with a text for an id with 204 when no call fails, and such a start
  removes the days older than the retention and no other.
\<close>

theorem collector_counts:
  assumes "\<forall>a. ce_parse E (ce_stringify E a) = Some a" "list_all (\<lambda>i. honest (input_faults i)) inputs"
    and "collector_run E inputs = (s, h)" "calm F" "0 \<le> year_of_day (t div 86400000)" "year_of_day (t div 86400000) \<le> 9999"
  shows "(\<exists>es. file_counts E (map_of (co_files s) (aggregate_file t)) es \<and> agrees es (h (aggregate_file t))) \<and>
    (co_up s \<and> \<not> co_rejected s \<and> cq_method q = ''POST'' \<and> cq_pathname q = Some ''/api/dp-beget-bridge/events'' \<and>
       read_event E now q = Some e \<and> ev_installationId e = JStr i \<longrightarrow> snd (createTelemetryServer E F now q s) = 204) \<and>
    map_of (co_files (start_collector E F now s)) (aggregate_file t) =
      (if 86400000 * (t div 86400000) < now - int (ce_retentionDays E) * 86400000 then None else map_of (co_files s) (aggregate_file t))"
proof (intro conjI impI)
  have codec: "\<And>a. ce_parse E (ce_stringify E a) = Some a" using assms(1) by blast
  obtain k where k: "counted E k (co_files s)" "\<And>n. agrees (k n) (h n)"
    using run_explained [OF codec assms(2)] by (auto simp: assms(3) explained_def)
  show "\<exists>es. file_counts E (map_of (co_files s) (aggregate_file t)) es \<and> agrees es (h (aggregate_file t))"
    using k by (auto simp: counted_def)
  assume q: "co_up s \<and> \<not> co_rejected s \<and> cq_method q = ''POST'' \<and> cq_pathname q = Some ''/api/dp-beget-bridge/events'' \<and>
       read_event E now q = Some e \<and> ev_installationId e = JStr i"
  have "file_counts E (map_of (co_files s) (aggregate_file (ev_occurredAt e))) (k (aggregate_file (ev_occurredAt e)))"
    using k(1) by (simp add: counted_def)
  then obtain s' n where "record_event E F e s = (s', Some 204, n)"
    using record_calm [OF assms(4), of s e i E] q by (auto simp: file_counts_def split: option.splits)
  moreover have "F n = NoFault" using assms(4) by (simp add: calm_def)
  ultimately show "snd (createTelemetryServer E F now q s) = 204" using q by (simp add: createTelemetryServer_def send_status_def)
next
  show "map_of (co_files (start_collector E F now s)) (aggregate_file t) =
      (if 86400000 * (t div 86400000) < now - int (ce_retentionDays E) * 86400000 then None else map_of (co_files s) (aggregate_file t))"
    by (rule start_removes_expired(3) [OF assms(4), of E now s "aggregate_file t", unfolded expired_file [OF assms(5,6)]])
qed

definition wit_collector :: "aggregate option collector_env" where
  "wit_collector = \<lparr>ce_hmac = rev, ce_date = (\<lambda>s. None),
     ce_json = (\<lambda>s. Some (JObj [(''schemaVersion'', JNum 1), (''installationId'', JStr s), (''event'', JStr ''active_day''), (''occurredAt'', JNum 5)])),
     ce_stringify = Some, ce_parse = (\<lambda>c. c), ce_cut = None, ce_pid = 1, ce_retentionDays = 90\<rparr>"

definition wit_post :: "string \<Rightarrow> collector_request" where
  "wit_post s = \<lparr>cq_method = ''POST'', cq_pathname = Some ''/api/dp-beget-bridge/events'', cq_chunks = [s]\<rparr>"

text \<open>Three valid events and a refused one; at the second the process dies after the rename and before the answer.\<close>

definition wit_inputs :: "collector_input list" where
  "wit_inputs = [Restart no_faults 0, Request no_faults 7 (wit_post ''01234567-89ab-4def-8123-456789abcdef''), Request no_faults 7 (wit_post ''no id''),
     Request (crash_at 4) 7 (wit_post ''01234567-89ab-4def-8123-456789abcdef''), Restart no_faults 8,
     Request no_faults 8 (wit_post ''01234567-89ab-4def-8123-456789abcdef'')]"

theorem collector_counts_witness:
  "case collector_run wit_collector wit_inputs of (s, h) \<Rightarrow> map snd (h ''1970-01-01.json'') = [True, False, True] \<and>
     map_option (map_option ag_events) (map_of (co_files s) ''1970-01-01.json'') = Some (Some [(''active_day'', JNum 3)]) \<and>
     (\<exists>es. file_counts wit_collector (map_of (co_files s) (aggregate_file 5)) es \<and> agrees es (h (aggregate_file 5))) \<and>
     map_of (co_files (start_collector wit_collector no_faults (91 * 86400000) s)) (aggregate_file 5) = None"
proof -
  obtain s h where run: "collector_run wit_collector wit_inputs = (s, h)" by fastforce
  have codec: "\<forall>a. ce_parse wit_collector (ce_stringify wit_collector a) = Some a" by (simp add: wit_collector_def)
  have honest: "list_all (\<lambda>i. honest (input_faults i)) wit_inputs"
    by (simp add: wit_inputs_def input_faults_def honest_def no_faults_def crash_at_def)
  have year: "year_of_day (5 div 86400000) = 1970" by code_simp
  have facts: "(case collector_run wit_collector wit_inputs of (s, h) \<Rightarrow> map snd (h ''1970-01-01.json'') = [True, False, True])"
    "(case collector_run wit_collector wit_inputs of (s, h) \<Rightarrow>
        map_option (map_option ag_events) (map_of (co_files s) ''1970-01-01.json'') = Some (Some [(''active_day'', JNum 3)]))"
    by code_simp+
  show ?thesis
    using collector_counts [OF codec honest run calm_no_faults, of 5 undefined "91 * 86400000" undefined undefined] year facts run
    by (simp add: wit_collector_def)
qed

end
