(* ===== verification/Artifact.thy ===== *)
theory Artifact
  imports PathPolicy_Props ReleasePaths "HOL-Library.Code_Target_Nat"
begin

text \<open>
  The check and the unpacking of a signed release, \<^verbatim>\<open>scripts/release/verify-artifact.mjs\<close> and
  \<^verbatim>\<open>extract-verified-artifact.mjs\<close>. Bytes are the characters of a string. SHA-256, Ed25519, base64,
  gzip and the JSON text codec are arguments.
\<close>

section \<open>The manifest\<close>

record manifest =
  mf_version :: string
  mf_commit :: string
  mf_name :: string
  mf_size :: int
  mf_sha256 :: string

definition exactlyKeys :: "json option \<Rightarrow> string list \<Rightarrow> bool" where
  "exactlyKeys v ks \<longleftrightarrow> (case v of
       Some (JObj fs) \<Rightarrow> join_with '','' (sort (remdups (map fst fs))) = join_with '','' (sort ks) | _ \<Rightarrow> False)"

definition manifest_text :: "json option \<Rightarrow> (string \<Rightarrow> bool) \<Rightarrow> bool" where
  "manifest_text v p \<longleftrightarrow> (case v of Some (JStr s) \<Rightarrow> p s | _ \<Rightarrow> False)"

definition text_in :: "json option \<Rightarrow> string" where
  "text_in v = (case v of Some (JStr s) \<Rightarrow> s | _ \<Rightarrow> [])"

definition safe_size :: "json option \<Rightarrow> bool" where
  "safe_size v \<longleftrightarrow> (case v of Some (JNum n) \<Rightarrow> 1 \<le> n \<and> n \<le> 2 ^ 53 - 1 | _ \<Rightarrow> False)"

definition size_in :: "json option \<Rightarrow> int" where
  "size_in v = (case v of Some (JNum n) \<Rightarrow> n | _ \<Rightarrow> 0)"

definition archive_name :: "string \<Rightarrow> string" where
  "archive_name version = ''dp-beget-bridge-'' @ version @ ''.tar.gz''"

text \<open>The pattern of the name follows from the name the version gives.\<close>

definition parseManifest :: "(string \<Rightarrow> json option) \<Rightarrow> string \<Rightarrow> string + manifest" where
  "parseManifest parse bytes = (case parse bytes of
       None \<Rightarrow> Inl ''Invalid release manifest''
     | Some v \<Rightarrow>
         (let field = (\<lambda>k. json_field k v); artifact = field ''artifact''; of_artifact = (\<lambda>k. Option.bind artifact (json_field k)) in
          if exactlyKeys (Some v) [''format'', ''version'', ''commit'', ''artifact''] \<and>
             field ''format'' = Some (JStr ''dp-beget-bridge-release-v1'') \<and>
             manifest_text (field ''version'') version_text \<and> manifest_text (field ''commit'') (hex_text 40) \<and>
             exactlyKeys artifact [''name'', ''size'', ''sha256''] \<and>
             of_artifact ''name'' = Some (JStr (archive_name (text_in (field ''version'')))) \<and>
             safe_size (of_artifact ''size'') \<and> manifest_text (of_artifact ''sha256'') (hex_text 64)
          then Inr \<lparr>mf_version = text_in (field ''version''), mf_commit = text_in (field ''commit''), mf_name = text_in (of_artifact ''name''),
            mf_size = size_in (of_artifact ''size''), mf_sha256 = text_in (of_artifact ''sha256'')\<rparr>
          else Inl ''Invalid release manifest''))"

section \<open>The signature\<close>

text \<open>
  The readings of one extraction, in their order: the content of the regular file at a path, at that
  time. Between the two readings of the archive another process may have changed it.
\<close>

datatype reading = ReadManifest | ReadSignature | ReadKey | CheckArtifact | ReadArtifact

record 'k release_env =
  re_cwd :: string
  re_file :: "reading \<Rightarrow> string \<Rightarrow> string option"
  re_parse :: "string \<Rightarrow> json option"
  re_publicKey :: "string \<Rightarrow> 'k option"
  re_ed25519 :: "'k \<Rightarrow> bool"
  re_verify :: "string \<Rightarrow> 'k \<Rightarrow> string \<Rightarrow> bool"
  re_decode :: "string \<Rightarrow> string"
  re_encode :: "string \<Rightarrow> string"
  re_sha256 :: "string \<Rightarrow> string"
  re_gunzip :: "nat \<Rightarrow> string \<Rightarrow> string option"

record release_inputs =
  ri_artifact :: string
  ri_manifest :: string
  ri_signature :: string
  ri_trustedKey :: string

definition readRegularFile :: "'k release_env \<Rightarrow> reading \<Rightarrow> string \<Rightarrow> nat \<Rightarrow> string + string" where
  "readRegularFile E r p maxBytes = (case re_file E r p of
       None \<Rightarrow> Inl ''Invalid release metadata file''
     | Some bytes \<Rightarrow> if length bytes > maxBytes then Inl ''Invalid release metadata file'' else Inr bytes)"

text \<open>\<^verbatim>\<open>path.basename\<close>\<close>

definition basename :: "string \<Rightarrow> string" where
  "basename p = (case filter (\<lambda>s. s \<noteq> []) (split_on CHR ''/'' p) of [] \<Rightarrow> [] | parts \<Rightarrow> last parts)"

definition checkArtifact :: "'k release_env \<Rightarrow> string \<Rightarrow> manifest \<Rightarrow> string + unit" where
  "checkArtifact E artifact record =
     (if basename artifact \<noteq> mf_name record then Inl ''Artifact name mismatch''
      else (case re_file E CheckArtifact artifact of
          None \<Rightarrow> Inl ''Artifact size mismatch''
        | Some bytes \<Rightarrow>
            if int (length bytes) \<noteq> mf_size record then Inl ''Artifact size mismatch''
            else if re_sha256 E bytes \<noteq> mf_sha256 record then Inl ''Artifact checksum mismatch''
            else Inr ()))"

text \<open>\<^verbatim>\<open>/^[A-Za-z0-9+/]+={0,2}$/\<close>\<close>

definition base64_shape :: "string \<Rightarrow> bool" where
  "base64_shape s \<longleftrightarrow> (let body = takeWhile (\<lambda>c. c \<noteq> CHR ''='') s; padding = dropWhile (\<lambda>c. c \<noteq> CHR ''='') s in
     body \<noteq> [] \<and> list_all (\<lambda>c. is_alnum c \<or> c \<in> set ''+/'') body \<and> list_all (\<lambda>c. c = CHR ''='') padding \<and> length padding \<le> 2)"

text \<open>\<^verbatim>\<open>bytes.toString("ascii")\<close>\<close>

definition ascii_text :: "string \<Rightarrow> string" where
  "ascii_text s = map (\<lambda>c. char_of ((of_char c :: nat) mod 128)) s"

definition check_signature :: "'k release_env \<Rightarrow> string \<Rightarrow> string \<Rightarrow> string \<Rightarrow> string + unit" where
  "check_signature E manifestBytes signatureBytes trustedKeyBytes =
     (let encoded = trim_text (ascii_text signatureBytes) in
      if \<not> base64_shape encoded then Inl ''Invalid release signature encoding''
      else (let decoded = re_decode E encoded in
        if length decoded \<noteq> 64 \<or> re_encode E decoded \<noteq> encoded then Inl ''Invalid release signature encoding''
        else (case re_publicKey E trustedKeyBytes of
            None \<Rightarrow> Inl ''Invalid trusted release key''
          | Some key \<Rightarrow>
              if \<not> re_ed25519 E key \<or> \<not> re_verify E manifestBytes key decoded then Inl ''Release signature verification failed''
              else Inr ())))"

definition input_paths :: "release_inputs \<Rightarrow> string list" where
  "input_paths q = [ri_artifact q, ri_manifest q, ri_signature q, ri_trustedKey q]"

definition sum_bind :: "('e + 'a) \<Rightarrow> ('a \<Rightarrow> 'e + 'b) \<Rightarrow> 'e + 'b" where
  "sum_bind m k = (case m of Inl e \<Rightarrow> Inl e | Inr v \<Rightarrow> k v)"

definition verifyArtifact :: "'k release_env \<Rightarrow> release_inputs \<Rightarrow> string + manifest" where
  "verifyArtifact E q =
     (if \<not> list_all (\<lambda>s. s \<noteq> []) (input_paths q) then Inl ''Artifact, manifest, signature and trusted key are required''
      else if \<not> distinct (map (path_resolve (re_cwd E)) (input_paths q)) then Inl ''Release inputs must be separate files''
      else
        sum_bind (readRegularFile E ReadManifest (ri_manifest q) (16 * 1024)) (\<lambda>manifestBytes.
        sum_bind (readRegularFile E ReadSignature (ri_signature q) (4 * 1024)) (\<lambda>signatureBytes.
        sum_bind (readRegularFile E ReadKey (ri_trustedKey q) (8 * 1024)) (\<lambda>trustedKeyBytes.
        sum_bind (parseManifest (re_parse E) manifestBytes) (\<lambda>record.
        if basename (ri_artifact q) \<noteq> mf_name record then Inl ''Artifact name mismatch''
        else
          sum_bind (check_signature E manifestBytes signatureBytes trustedKeyBytes) (\<lambda>_.
          sum_bind (checkArtifact E (ri_artifact q) record) (\<lambda>_.
          Inr record)))))))"

section \<open>The archive\<close>

definition MAX_COMPRESSED :: nat where "MAX_COMPRESSED = 64 * 1024 * 1024"
definition MAX_EXPANDED :: nat where "MAX_EXPANDED = 256 * 1024 * 1024"
definition MAX_ENTRIES :: nat where "MAX_ENTRIES = 5000"

definition NUL :: char where "NUL = CHR 0x00"

definition is_octal :: "char \<Rightarrow> bool" where
  "is_octal c \<longleftrightarrow> c \<in> set ''01234567''"

definition octal :: "string \<Rightarrow> string + nat" where
  "octal field = (let t = trim_text (takeWhile (\<lambda>c. c \<noteq> NUL) (ascii_text field)) in
     if t = [] \<or> \<not> list_all is_octal t then Inl ''Unsupported archive number encoding''
     else (let v = foldl (\<lambda>n c. 8 * n + int (digit_val c)) 0 t in
       if v > 2 ^ 53 - 1 then Inl ''Archive number exceeds a safe limit'' else Inr (nat v)))"

definition nameField :: "string \<Rightarrow> string + string" where
  "nameField bytes = (let v = takeWhile (\<lambda>c. c \<noteq> NUL) bytes in
     if list_ex (\<lambda>c. (of_char c :: nat) < 32 \<or> (of_char c :: nat) > 126) v then Inl ''Unsupported archive path encoding'' else Inr v)"

definition slice :: "nat \<Rightarrow> nat \<Rightarrow> 'a list \<Rightarrow> 'a list" where
  "slice a b xs = take (b - a) (drop a xs)"

definition byte_sum :: "string \<Rightarrow> nat" where
  "byte_sum s = foldl (\<lambda>n c. n + of_char c) 0 s"

definition assertHeader :: "string \<Rightarrow> string + unit" where
  "assertHeader header =
     (if ascii_text (slice 257 262 header) \<noteq> ''ustar'' then Inl ''Unsupported archive header''
      else sum_bind (octal (slice 148 156 header)) (\<lambda>recorded.
        if byte_sum (slice 0 148 header) + 8 * 32 + byte_sum (drop 156 header) \<noteq> recorded
        then Inl ''Archive header checksum mismatch'' else Inr ()))"

record tar_entry =
  te_relative :: string
  te_directory :: bool
  te_content :: string

record tar_state =
  ts_entries :: "tar_entry list"
  ts_directories :: "string list"
  ts_names :: "string list"
  ts_global :: bool

record tar_header =
  th_type :: char
  th_name :: string
  th_size :: nat

definition read_header :: "string \<Rightarrow> string + tar_header" where
  "read_header header =
     sum_bind (assertHeader header) (\<lambda>_.
     sum_bind (nameField (slice 0 100 header)) (\<lambda>name.
     sum_bind (nameField (slice 345 500 header)) (\<lambda>prefix.
     sum_bind (octal (slice 124 136 header)) (\<lambda>size.
     Inr \<lparr>th_type = header ! 156, th_name = (if prefix = [] then name else prefix @ ''/'' @ name), th_size = size\<rparr>))))"

definition release_root :: "string \<Rightarrow> string" where
  "release_root version = ''dp-beget-bridge-'' @ version"

definition segment_ok :: "string \<Rightarrow> bool" where
  "segment_ok s \<longleftrightarrow> s \<noteq> [] \<and> list_all (\<lambda>c. is_alnum c \<or> c \<in> set ''._-'') s \<and> s \<noteq> ''.'' \<and> s \<noteq> ''..''"

definition ends_with_slash :: "string \<Rightarrow> bool" where
  "ends_with_slash s \<longleftrightarrow> s \<noteq> [] \<and> last s = CHR ''/''"

definition take_entry :: "string \<Rightarrow> tar_header \<Rightarrow> string \<Rightarrow> tar_state \<Rightarrow> string + tar_state" where
  "take_entry root h content st =
     (let fullName = th_name h; directory = (th_type h = CHR ''5'');
          relative = (if ends_with_slash fullName then butlast fullName else fullName);
          segments = split_on CHR ''/'' relative; parent = join_with ''/'' (butlast segments) in
      if th_type h \<noteq> CHR ''0'' \<and> \<not> directory then Inl ''Archive links or special entries are prohibited''
      else if directory \<and> th_size h \<noteq> 0 then Inl ''Archive directory contains data''
      else if directory \<and> \<not> ends_with_slash fullName then Inl ''Invalid archive directory path''
      else if \<not> directory \<and> ends_with_slash fullName then Inl ''Invalid archive file path''
      else if relative \<noteq> root \<and> \<not> starts_with relative (root @ ''/'') then Inl ''Archive path escapes release root''
      else if \<not> list_all segment_ok segments then Inl ''Unsafe archive path''
      else if relative \<in> set (ts_names st) then Inl ''Duplicate archive path''
      else if parent \<noteq> [] \<and> parent \<notin> set (ts_directories st) then Inl ''Archive parent is not a directory''
      else (let entries = ts_entries st @ [\<lparr>te_relative = relative, te_directory = directory, te_content = content\<rparr>] in
        if length entries > MAX_ENTRIES then Inl ''Archive has too many entries''
        else Inr (st\<lparr>ts_entries := entries, ts_names := ts_names st @ [relative],
          ts_directories := (if directory then ts_directories st @ [relative] else ts_directories st)\<rparr>)))"

text \<open>One turn of the loop: the new state, and the length of the padded content.\<close>

definition tar_step :: "string \<Rightarrow> string \<Rightarrow> tar_state \<Rightarrow> string \<Rightarrow> string + (tar_state \<times> nat)" where
  "tar_step root commit st rest = sum_bind (read_header (take 512 rest)) (\<lambda>h.
     (let padded = (th_size h + 511) div 512 * 512; content = take (th_size h) (drop 512 rest) in
      if th_size h > MAX_EXPANDED \<or> 512 + padded > length rest then Inl ''Archive entry exceeds bounds''
      else if \<not> ts_global st
      then (if th_type h \<noteq> CHR ''g'' \<or> th_name h \<noteq> ''pax_global_header'' \<or> ascii_text content \<noteq> ''52 comment='' @ commit @ [CHR 0x0A]
            then Inl ''Archive identity header does not match the signed commit'' else Inr (st\<lparr>ts_global := True\<rparr>, padded))
      else sum_bind (take_entry root h content st) (\<lambda>st'. Inr (st', padded))))"

text \<open>The end of the loop: the state, the bytes that are left, and whether an empty block was met.\<close>

function tar_loop :: "string \<Rightarrow> string \<Rightarrow> tar_state \<Rightarrow> string \<Rightarrow> string + (tar_state \<times> string \<times> bool)" where
  "tar_loop root commit st rest =
     (if length rest < 512 then Inr (st, rest, False)
      else if list_all (\<lambda>c. c = NUL) (take 512 rest) then Inr (st, rest, True)
      else (case tar_step root commit st rest of
          Inl e \<Rightarrow> Inl e
        | Inr (st', padded) \<Rightarrow> tar_loop root commit st' (drop (512 + padded) rest)))"
  by pat_completeness auto

termination
  by (relation "measure (\<lambda>(root, commit, st, rest). length rest)") auto

declare tar_loop.simps [simp del]

definition tar_start :: tar_state where
  "tar_start = \<lparr>ts_entries = [], ts_directories = [], ts_names = [], ts_global = False\<rparr>"

definition inspectTar :: "string \<Rightarrow> string \<Rightarrow> string \<Rightarrow> string + tar_entry list" where
  "inspectTar bytes version commit = sum_bind (tar_loop (release_root version) commit tar_start bytes) (\<lambda>(st, rest, ended).
     if \<not> ended \<or> \<not> ts_global st \<or> release_root version \<notin> set (ts_directories st) \<or> length rest < 1024 \<or> \<not> list_all (\<lambda>c. c = NUL) rest
     then Inl ''Archive is incomplete or has trailing data'' else Inr (ts_entries st))"

section \<open>The extraction\<close>

text \<open>A file tree by the parts of a path; the root is the empty list.\<close>

datatype file_node = FileNode string | DirNode

type_synonym file_tree = "string list \<Rightarrow> file_node option"

definition make_directory :: "faults \<Rightarrow> string \<Rightarrow> (file_tree, unit) job" where
  "make_directory F p = jcall F (\<lambda>t. let ps = parts_of p in
     if t ps \<noteq> None then Inl ''EEXIST''
     else if t (butlast ps) \<noteq> Some DirNode then Inl ''ENOENT''
     else Inr (t(ps \<mapsto> DirNode), ()))"

definition create_file :: "faults \<Rightarrow> string \<Rightarrow> (file_tree, unit) job" where
  "create_file F p = jcall F (\<lambda>t. let ps = parts_of p in
     if t ps \<noteq> None then Inl ''EEXIST''
     else if t (butlast ps) \<noteq> Some DirNode then Inl ''ENOENT''
     else Inr (t(ps \<mapsto> FileNode []), ()))"

definition fill_file :: "faults \<Rightarrow> string \<Rightarrow> string \<Rightarrow> (file_tree, unit) job" where
  "fill_file F p content = jdo F (\<lambda>t. t(parts_of p \<mapsto> FileNode content))"

definition remove_tree :: "faults \<Rightarrow> string \<Rightarrow> (file_tree, unit) job" where
  "remove_tree F p = jdo F (\<lambda>t ps. if take (length (parts_of p)) ps = parts_of p then None else t ps)"

definition extract_entry :: "faults \<Rightarrow> string \<Rightarrow> tar_entry \<Rightarrow> (file_tree, unit) job" where
  "extract_entry F target e = (let destination = path_join target [te_relative e] in
     if te_directory e then make_directory F destination
     else jbind (create_file F destination) (\<lambda>_. fill_file F destination (te_content e)))"

fun extract_entries :: "faults \<Rightarrow> string \<Rightarrow> tar_entry list \<Rightarrow> (file_tree, unit) job" where
  "extract_entries F target [] = jreturn ()"
| "extract_entries F target (e # es) = jbind (extract_entry F target e) (\<lambda>_. extract_entries F target es)"

record extracted =
  ex_directory :: string
  ex_version :: string
  ex_commit :: string
  ex_sha256 :: string

text \<open>Everything that is decided before the first directory is made.\<close>

definition verified_entries :: "'k release_env \<Rightarrow> release_inputs \<Rightarrow> string \<Rightarrow> string + (manifest \<times> tar_entry list)" where
  "verified_entries E q outputDir =
     (if outputDir = [] then Inl ''A new extraction directory is required''
      else (let target = path_resolve (re_cwd E) outputDir in
        if list_ex (\<lambda>p. path_resolve (re_cwd E) p = target \<or> starts_with (path_resolve (re_cwd E) p) (target @ ''/'')) (input_paths q)
        then Inl ''Release inputs must be outside the extraction directory''
        else
          sum_bind (verifyArtifact E q) (\<lambda>identity.
          if mf_size identity > int MAX_COMPRESSED then Inl ''Release archive exceeds extraction ceiling''
          else
            sum_bind (readRegularFile E ReadArtifact (ri_artifact q) MAX_COMPRESSED) (\<lambda>compressed.
            if int (length compressed) \<noteq> mf_size identity \<or> re_sha256 E compressed \<noteq> mf_sha256 identity
            then Inl ''Release archive changed after verification''
            else (case re_gunzip E MAX_EXPANDED compressed of
                None \<Rightarrow> Inl ''Invalid or oversized gzip release archive''
              | Some unpacked \<Rightarrow>
                  sum_bind (inspectTar unpacked (mf_version identity) (mf_commit identity)) (\<lambda>entries. Inr (identity, entries)))))))"

definition extractVerifiedArtifact :: "'k release_env \<Rightarrow> faults \<Rightarrow> release_inputs \<Rightarrow> string \<Rightarrow> (file_tree, extracted) job" where
  "extractVerifiedArtifact E F q outputDir = (case verified_entries E q outputDir of
       Inl e \<Rightarrow> jraise e
     | Inr (identity, entries) \<Rightarrow>
         (let target = path_resolve (re_cwd E) outputDir in
          jbind (make_directory F target) (\<lambda>_.
          jcatch
            (jbind (extract_entries F target entries) (\<lambda>_.
             jreturn \<lparr>ex_directory = path_join target [release_root (mf_version identity)], ex_version = mf_version identity,
               ex_commit = mf_commit identity, ex_sha256 = mf_sha256 identity\<rparr>))
            (\<lambda>e. jbind (remove_tree F target) (\<lambda>_. jraise e)))))"

end
