(* ===== verification/Artifact_Props.thy ===== *)
theory Artifact_Props
  imports Artifact
begin

text \<open>
  What the inspection of an archive guarantees of its entries, and that an extraction makes exactly
  the tree of a signed archive, or leaves nothing.
\<close>

section \<open>Entries\<close>

definition entry_parts :: "tar_entry \<Rightarrow> string list" where
  "entry_parts e = split_on CHR ''/'' (te_relative e)"

text \<open>An entry after the entries \<open>before\<close>: a clean new path below the root, in a directory that is there.\<close>

definition entry_ok :: "string \<Rightarrow> tar_entry list \<Rightarrow> tar_entry \<Rightarrow> bool" where
  "entry_ok root before e \<longleftrightarrow>
     list_all segment_ok (entry_parts e) \<and> hd (entry_parts e) = root \<and> te_relative e \<notin> te_relative ` set before \<and>
     (entry_parts e = [root] \<or> (\<exists>d \<in> set before. te_directory d \<and> entry_parts d = butlast (entry_parts e))) \<and>
     (te_directory e \<longrightarrow> te_content e = [])"

fun entries_ok :: "string \<Rightarrow> tar_entry list \<Rightarrow> tar_entry list \<Rightarrow> bool" where
  "entries_ok root before [] = True"
| "entries_ok root before (e # es) \<longleftrightarrow> entry_ok root before e \<and> entries_ok root (before @ [e]) es"

lemma entries_ok_snoc: "entries_ok root before (es @ [e]) \<longleftrightarrow> entries_ok root before es \<and> entry_ok root (before @ es) e"
  by (induction es arbitrary: before) auto

definition content_size :: "tar_entry list \<Rightarrow> nat" where
  "content_size es = sum_list (map (\<lambda>e. length (te_content e)) es)"

definition tar_inv :: "string \<Rightarrow> nat \<Rightarrow> tar_state \<Rightarrow> string \<Rightarrow> bool" where
  "tar_inv root n st rest \<longleftrightarrow> entries_ok root [] (ts_entries st) \<and> ts_names st = map te_relative (ts_entries st) \<and>
     ts_directories st = map te_relative (filter te_directory (ts_entries st)) \<and> length (ts_entries st) \<le> MAX_ENTRIES \<and>
     content_size (ts_entries st) + 512 * length (ts_entries st) + length rest \<le> n"

lemma join_parts_ne: "list_all (\<lambda>p. p \<noteq> []) ps \<Longrightarrow> join_with sep ps = [] \<longleftrightarrow> ps = []"
  by (cases ps rule: remdups_adj.cases) auto

lemma first_segment:
  assumes "CHR ''/'' \<notin> set root"
  shows "relative = root \<or> starts_with relative (root @ ''/'') \<Longrightarrow> hd (split_on CHR ''/'' relative) = root"
  using assms split_on_append [OF assms] by (auto simp: starts_with_append split_on_no_sep)

lemma take_entry_inv:
  assumes inv: "tar_inv root n st rest" and root: "CHR ''/'' \<notin> set root"
    and t: "take_entry root h content st = Inr st'" and c: "length content = th_size h"
    and rest: "length rest' + 512 + th_size h \<le> length rest"
  shows "tar_inv root n st' rest'"
proof -
  define relative where "relative = (if ends_with_slash (th_name h) then butlast (th_name h) else th_name h)"
  define e where "e = \<lparr>te_relative = relative, te_directory = (th_type h = CHR ''5''), te_content = content\<rparr>"
  let ?segments = "split_on CHR ''/'' relative" let ?parent = "join_with ''/'' (butlast (split_on CHR ''/'' relative))"
  note facts = t [unfolded take_entry_def Let_def, folded relative_def]
  have f: "relative = root \<or> starts_with relative (root @ ''/'')" "list_all segment_ok ?segments" "relative \<notin> set (ts_names st)"
    "?parent = [] \<or> ?parent \<in> set (ts_directories st)" "th_type h = CHR ''5'' \<longrightarrow> th_size h = 0"
    "length (ts_entries st @ [e]) \<le> MAX_ENTRIES"
    and st': "st' = st\<lparr>ts_entries := ts_entries st @ [e], ts_names := ts_names st @ [relative],
       ts_directories := (if th_type h = CHR ''5'' then ts_directories st @ [relative] else ts_directories st)\<rparr>"
    using facts by (auto split: if_splits simp: e_def)
  have hd: "hd ?segments = root" by (rule first_segment [OF root f(1)])
  have "?segments = [root] \<or> (\<exists>d \<in> set (ts_entries st). te_directory d \<and> entry_parts d = butlast ?segments)"
  proof (cases "butlast ?segments = []")
    case True
    then show ?thesis using hd by (cases ?segments) (auto split: if_splits)
  next
    case False
    have ne: "list_all (\<lambda>p. p \<noteq> []) (butlast ?segments)" using f(2) by (auto simp: list_all_iff segment_ok_def dest: in_set_butlastD)
    then have "?parent \<in> set (ts_directories st)" using f(4) False join_parts_ne by blast
    then obtain d where d: "d \<in> set (ts_entries st)" "te_directory d" "te_relative d = ?parent"
      using inv by (auto simp: tar_inv_def)
    have "split_on CHR ''/'' ?parent = butlast ?segments"
      by (rule split_on_join) (use False in \<open>auto dest: in_set_butlastD split_on_parts\<close>)
    then show ?thesis using d by (auto simp: entry_parts_def)
  qed
  then have "entry_ok root (ts_entries st) e"
    using f hd c inv by (auto simp: entry_ok_def e_def entry_parts_def tar_inv_def)
  then show ?thesis using inv f(6) c rest unfolding st' by (auto simp: tar_inv_def entries_ok_snoc content_size_def e_def)
qed

lemma sum_bind_Inr: "sum_bind m k = Inr v \<longleftrightarrow> (\<exists>x. m = Inr x \<and> k x = Inr v)"
  by (cases m) (simp_all add: sum_bind_def)

lemma if_Inr: "(if b then Inl e else k) = Inr v \<longleftrightarrow> \<not> b \<and> k = Inr v"
  by simp

lemma tar_step_cases:
  assumes "tar_step root commit st rest = Inr (st', padded)"
  obtains h where "read_header (take 512 rest) = Inr h" "padded = (th_size h + 511) div 512 * 512" "512 + padded \<le> length rest"
    "(\<not> ts_global st \<and> st' = st\<lparr>ts_global := True\<rparr>) \<or> take_entry root h (take (th_size h) (drop 512 rest)) st = Inr st'"
proof -
  obtain h where h: "read_header (take 512 rest) = Inr h"
    and k: "\<not> (th_size h > MAX_EXPANDED \<or> 512 + (th_size h + 511) div 512 * 512 > length rest)"
      "(if \<not> ts_global st
        then (if th_type h \<noteq> CHR ''g'' \<or> th_name h \<noteq> ''pax_global_header'' \<or>
            ascii_text (take (th_size h) (drop 512 rest)) \<noteq> ''52 comment='' @ commit @ [CHR 0x0A]
          then Inl ''Archive identity header does not match the signed commit'' else Inr (st\<lparr>ts_global := True\<rparr>, (th_size h + 511) div 512 * 512))
        else sum_bind (take_entry root h (take (th_size h) (drop 512 rest)) st) (\<lambda>st'. Inr (st', (th_size h + 511) div 512 * 512))) = Inr (st', padded)"
    using assms unfolding tar_step_def sum_bind_Inr Let_def if_Inr by blast
  show ?thesis
  proof (cases "ts_global st")
    case True
    then have "sum_bind (take_entry root h (take (th_size h) (drop 512 rest)) st) (\<lambda>st'. Inr (st', (th_size h + 511) div 512 * 512)) = Inr (st', padded)"
      using k(2) by (simp only: not_True_eq_False if_False)
    then have "take_entry root h (take (th_size h) (drop 512 rest)) st = Inr st' \<and> padded = (th_size h + 511) div 512 * 512"
      unfolding sum_bind_Inr by blast
    then show ?thesis using that [OF h] k(1) unfolding not_less de_Morgan_disj by blast
  next
    case False
    then have "Inr (st\<lparr>ts_global := True\<rparr>, (th_size h + 511) div 512 * 512) = (Inr (st', padded) :: string + (tar_state \<times> nat))"
      using k(2) by (simp only: not_False_eq_True if_True if_Inr)
    then have "st' = st\<lparr>ts_global := True\<rparr>" "padded = (th_size h + 511) div 512 * 512" by (simp_all only: sum.inject prod.inject)
    then show ?thesis using that [OF h] k(1) False unfolding not_less de_Morgan_disj by blast
  qed
qed

lemma padded_covers: "n \<le> (n + 511) div 512 * (512::nat)"
proof -
  obtain q r where "n + 511 = q * 512 + r" "(n + 511) div 512 = q" "r < 512"
    by (metis div_mult_mod_eq mod_less_divisor zero_less_numeral)
  then show ?thesis by simp
qed

lemma tar_step_inv:
  assumes root: "CHR ''/'' \<notin> set root" and inv: "tar_inv root n st rest" and step: "tar_step root commit st rest = Inr (st', padded)"
  shows "tar_inv root n st' (drop (512 + padded) rest)"
proof -
  obtain h where p: "padded = (th_size h + 511) div 512 * 512" and fits: "512 + padded \<le> length rest"
    and cases: "(\<not> ts_global st \<and> st' = st\<lparr>ts_global := True\<rparr>) \<or> take_entry root h (take (th_size h) (drop 512 rest)) st = Inr st'"
    using tar_step_cases [OF step] by metis
  have "th_size h \<le> padded" unfolding p by (rule padded_covers)
  then have l: "length (take (th_size h) (drop 512 rest)) = th_size h" "length (drop (512 + padded) rest) + 512 + th_size h \<le> length rest"
    using fits by simp_all
  from cases show ?thesis
  proof
    assume "\<not> ts_global st \<and> st' = st\<lparr>ts_global := True\<rparr>"
    moreover have "length (drop (512 + padded) rest) \<le> length rest" by simp
    ultimately show ?thesis using inv unfolding tar_inv_def by (elim conjE, intro conjI) (simp_all del: length_drop)
  qed (rule take_entry_inv [OF inv root _ l])
qed

lemma tar_loop_inv:
  "CHR ''/'' \<notin> set root \<Longrightarrow> tar_inv root n st rest \<Longrightarrow> tar_loop root commit st rest = Inr (st', rest', ended) \<Longrightarrow> tar_inv root n st' rest'"
proof (induction root commit st rest arbitrary: st' rest' ended rule: tar_loop.induct)
  case (1 root commit st rest)
  show ?case
  proof (cases "length rest < 512 \<or> list_all (\<lambda>c. c = NUL) (take 512 rest)")
    case True
    then show ?thesis using 1(3,4) by (auto simp: tar_loop.simps [of root commit st rest] split: if_splits)
  next
    case False
    then obtain st1 padded where s: "tar_step root commit st rest = Inr (st1, padded)"
        "tar_loop root commit st1 (drop (512 + padded) rest) = Inr (st', rest', ended)"
      using 1(4) by (auto simp: tar_loop.simps [of root commit st rest] split: sum.splits prod.splits)
    show ?thesis using 1(1) [OF _ _ s(1) refl 1(2) tar_step_inv [OF 1(2,3) s(1)] s(2)] False by simp
  qed
qed

lemma in_join: "c \<in> set (join_with sep ps) \<Longrightarrow> c \<in> set sep \<or> (\<exists>p \<in> set ps. c \<in> set p)"
  by (induction sep ps rule: join_with.induct) auto

lemma version_slash_free: "version_text v \<Longrightarrow> CHR ''/'' \<notin> set v"
proof -
  assume v: "version_text v"
  let ?core = "takeWhile (\<lambda>c. c \<noteq> CHR ''-'') v" let ?suffix = "dropWhile (\<lambda>c. c \<noteq> CHR ''-'') v"
  have "CHR ''/'' \<notin> set ?core"
  proof
    assume slash: "CHR ''/'' \<in> set ?core"
    then obtain p where p: "p \<in> set (split_on CHR ''.'' ?core)" "CHR ''/'' \<in> set p"
      using in_join [of "CHR ''/''" "''.''" "split_on CHR ''.'' ?core"] by (auto simp: join_split_on)
    then have "version_number p" using v by (simp add: version_text_def Let_def list_all_iff)
    then have "is_digit CHR ''/''" using p(2) by (simp add: version_number_def all_digits_def list_all_iff)
    then show False by (simp add: is_digit_def)
  qed
  moreover have "CHR ''/'' \<notin> set ?suffix"
  proof (cases ?suffix)
    case (Cons c cs)
    then have "c = CHR ''-''" by (simp add: dropWhile_eq_Cons_conv)
    moreover have "list_all (\<lambda>c. is_alnum c \<or> c \<in> set ''.-'') cs" using v Cons by (simp add: version_text_def Let_def)
    moreover have "\<not> (is_alnum CHR ''/'' \<or> CHR ''/'' \<in> set ''.-'')" by (simp add: class_defs)
    ultimately show ?thesis using Cons by (auto simp: list_all_iff)
  next
    case Nil
    then show ?thesis by (simp only: list.set(1) empty_iff not_False_eq_True)
  qed
  ultimately show ?thesis by (metis Un_iff set_append takeWhile_dropWhile_id)
qed

lemma inspect_ok:
  assumes "inspectTar bytes version commit = Inr es" "version_text version"
  shows "entries_ok (release_root version) [] es" "length es \<le> 5000" "content_size es + 512 * length es \<le> length bytes"
proof -
  have root: "CHR ''/'' \<notin> set (release_root version)" using version_slash_free [OF assms(2)] by (auto simp: release_root_def)
  obtain st rest ended where l: "tar_loop (release_root version) commit tar_start bytes = Inr (st, rest, ended)" "es = ts_entries st"
    using assms(1) by (auto simp: inspectTar_def sum_bind_def split: sum.splits if_splits)
  have "tar_inv (release_root version) (length bytes) st rest"
    by (rule tar_loop_inv [OF root _ l(1)]) (simp add: tar_inv_def tar_start_def content_size_def)
  then show "entries_ok (release_root version) [] es" "length es \<le> 5000" "content_size es + 512 * length es \<le> length bytes"
    by (auto simp: tar_inv_def l(2) MAX_ENTRIES_def)
qed

section \<open>The tree\<close>

lemma segment_proper: "segment_ok p \<Longrightarrow> proper_part p"
proof -
  assume p: "segment_ok p"
  have "\<not> (is_alnum CHR ''/'' \<or> CHR ''/'' \<in> set ''._-'')" by (simp add: class_defs)
  then have "CHR ''/'' \<notin> set p" using p unfolding segment_ok_def list_all_iff by blast
  then show ?thesis using p unfolding segment_ok_def proper_part_def by blast
qed

definition rooted :: "file_tree \<Rightarrow> bool" where
  "rooted t \<longleftrightarrow> t [] = Some DirNode \<and> (\<forall>ps. ps \<noteq> [] \<and> t ps \<noteq> None \<longrightarrow> t (butlast ps) = Some DirNode)"

definition at_or_below :: "string list \<Rightarrow> string list \<Rightarrow> bool" where
  "at_or_below ts ps \<longleftrightarrow> take (length ts) ps = ts"

definition entry_node :: "tar_entry \<Rightarrow> file_node" where
  "entry_node e = (if te_directory e then DirNode else FileNode (te_content e))"

text \<open>The tree of the entries in a new directory.\<close>

definition unpacked :: "file_tree \<Rightarrow> string list \<Rightarrow> tar_entry list \<Rightarrow> file_tree" where
  "unpacked t ts es ps = (if ps = ts then Some DirNode
     else (case map_of (map (\<lambda>e. (ts @ entry_parts e, entry_node e)) es) ps of Some n \<Rightarrow> Some n | None \<Rightarrow> t ps))"

lemma nothing_below:
  assumes "rooted t" "t ts = None"
  shows "t (ts @ ps) = None"
proof (induction ps rule: rev_induct)
  case (snoc p ps)
  show ?case
  proof (rule ccontr)
    assume "t (ts @ ps @ [p]) \<noteq> None"
    then have "t (butlast (ts @ ps @ [p])) = Some DirNode" using assms(1) by (auto simp: rooted_def)
    then show False using snoc by (simp add: butlast_append)
  qed
qed (simp add: assms(2))

lemma entry_parts_ne: "entry_parts e \<noteq> []"
  by (simp add: entry_parts_def)

lemma entry_parts_inj: "entry_parts e = entry_parts d \<longleftrightarrow> te_relative e = te_relative d"
  unfolding entry_parts_def by (metis join_split_on)

lemma unpacked_outside: "\<not> at_or_below ts ps \<Longrightarrow> unpacked t ts es ps = t ps"
  by (auto simp: unpacked_def at_or_below_def split: option.split dest!: map_of_SomeD)

lemma unpacked_new:
  assumes t: "rooted t" "t ts = None" and new: "te_relative e \<notin> te_relative ` set before"
  shows "unpacked t ts before (ts @ entry_parts e) = None"
proof -
  have "map_of (map (\<lambda>e. (ts @ entry_parts e, entry_node e)) before) (ts @ entry_parts e) = None"
    using new by (auto simp: map_of_eq_None_iff entry_parts_inj)
  then show ?thesis using nothing_below [OF t] by (simp add: unpacked_def entry_parts_ne)
qed

lemma unpacked_parent:
  assumes ok: "entry_ok root before e" and d: "distinct (map te_relative before)"
  shows "unpacked t ts before (butlast (ts @ entry_parts e)) = Some DirNode"
proof -
  have b: "butlast (ts @ entry_parts e) = ts @ butlast (entry_parts e)" by (simp add: butlast_append entry_parts_ne)
  show ?thesis
  proof (cases "entry_parts e = [root]")
    case True
    then show ?thesis by (simp add: b unpacked_def)
  next
    case False
    then obtain k where k: "k \<in> set before" "te_directory k" "entry_parts k = butlast (entry_parts e)" using ok by (auto simp: entry_ok_def)
    have "distinct (map (\<lambda>e. ts @ entry_parts e) before)" using d by (simp add: distinct_map inj_on_def entry_parts_inj)
    then have "map_of (map (\<lambda>e. (ts @ entry_parts e, entry_node e)) before) (ts @ entry_parts k) = Some (entry_node k)"
      using k(1) by (simp add: comp_def)
    then show ?thesis using k entry_parts_ne [of k] by (simp add: b unpacked_def entry_node_def)
  qed
qed

lemma unpacked_snoc:
  assumes "te_relative e \<notin> te_relative ` set before"
  shows "unpacked t ts (before @ [e]) = (unpacked t ts before)(ts @ entry_parts e \<mapsto> entry_node e)"
proof
  fix ps
  have "ts @ entry_parts e = ps \<Longrightarrow> map_of (map (\<lambda>e. (ts @ entry_parts e, entry_node e)) before) ps = None"
    using assms by (auto simp: map_of_eq_None_iff entry_parts_inj)
  then show "unpacked t ts (before @ [e]) ps = ((unpacked t ts before)(ts @ entry_parts e \<mapsto> entry_node e)) ps"
    using entry_parts_ne [of e] by (auto simp: unpacked_def split: option.split)
qed

section \<open>The steps\<close>

lemma destination_parts:
  assumes "list_all proper_part ts" "ts \<noteq> []" "list_all segment_ok (entry_parts e)"
  shows "parts_of (path_join (root_path ts) [te_relative e]) = ts @ entry_parts e"
proof -
  have p: "list_all proper_part (entry_parts e)" using assms(3) segment_proper by (auto simp: list_all_iff)
  have "join_with ''/'' (root_path ts # entry_parts e) = join_with ''/'' [root_path ts, te_relative e]"
    using entry_parts_ne [of e] by (cases "entry_parts e") (simp_all add: entry_parts_def, metis join_split_on)
  then have "path_join (root_path ts) [te_relative e] = path_join (root_path ts) (entry_parts e)" by (simp add: path_join_def)
  then show ?thesis using path_join_root [OF assms(1,2) p entry_parts_ne] assms(1) p by (simp add: list_all_append)
qed

definition outside_same :: "file_tree \<Rightarrow> string list \<Rightarrow> file_tree \<Rightarrow> bool" where
  "outside_same t ts w \<longleftrightarrow> (\<forall>ps. \<not> at_or_below ts ps \<longrightarrow> w ps = t ps)"

lemma outside_unpacked: "outside_same t ts (unpacked t ts es)"
  by (simp add: outside_same_def unpacked_outside)

lemma at_or_below_append [simp]: "at_or_below ts (ts @ ps)"
  by (simp add: at_or_below_def)

lemma outside_upd: "outside_same t ts w \<Longrightarrow> outside_same t ts (w(ts @ ps \<mapsto> n))"
  by (auto simp: outside_same_def)

lemma answers_entry:
  assumes t: "rooted t" "t ts = None" and ts: "list_all proper_part ts" "ts \<noteq> []"
    and ok: "entry_ok root before e" and d: "distinct (map te_relative before)"
  shows "answers F (\<lambda>w. w = unpacked t ts before) (extract_entry F (root_path ts) e) (\<lambda>_ w. w = unpacked t ts (before @ [e])) (outside_same t ts)"
proof -
  have e: "list_all segment_ok (entry_parts e)" "te_relative e \<notin> te_relative ` set before" using ok by (simp_all add: entry_ok_def)
  note p = destination_parts [OF ts e(1)]
  note new = unpacked_new [OF t e(2)] and parent = unpacked_parent [OF ok d] and after = unpacked_snoc [OF e(2)]
  show ?thesis
  proof (cases "te_directory e")
    case True
    have "answers F (\<lambda>w. w = unpacked t ts before) (make_directory F (path_join (root_path ts) [te_relative e]))
      (\<lambda>_ w. w = unpacked t ts (before @ [e])) (outside_same t ts)"
      unfolding make_directory_def
      by (rule answers_call) (auto simp: outside_unpacked p new parent after entry_node_def True Let_def)
    then show ?thesis using True by (simp add: extract_entry_def Let_def)
  next
    case False
    have "answers F (\<lambda>w. w = unpacked t ts before) (create_file F (path_join (root_path ts) [te_relative e]))
      (\<lambda>_ w. w = (unpacked t ts before)(ts @ entry_parts e \<mapsto> FileNode [])) (outside_same t ts)"
      unfolding create_file_def by (rule answers_call) (auto simp: outside_unpacked p new parent Let_def)
    moreover have "answers F (\<lambda>w. w = (unpacked t ts before)(ts @ entry_parts e \<mapsto> FileNode []))
      (fill_file F (path_join (root_path ts) [te_relative e]) (te_content e)) (\<lambda>_ w. w = unpacked t ts (before @ [e])) (outside_same t ts)"
      unfolding fill_file_def
      by (rule answers_do) (simp add: p after entry_node_def False outside_upd outside_unpacked)
    ultimately show ?thesis using False by (auto simp: extract_entry_def Let_def intro: answers_bind)
  qed
qed

lemma answers_entries:
  assumes t: "rooted t" "t ts = None" and ts: "list_all proper_part ts" "ts \<noteq> []"
  shows "entries_ok root before es \<Longrightarrow> distinct (map te_relative before) \<Longrightarrow>
    answers F (\<lambda>w. w = unpacked t ts before) (extract_entries F (root_path ts) es) (\<lambda>_ w. w = unpacked t ts (before @ es)) (outside_same t ts)"
proof (induction es arbitrary: before)
  case Nil
  then show ?case by (simp add: answers_return)
next
  case (Cons e es)
  have ok: "entry_ok root before e" "entries_ok root (before @ [e]) es" using Cons.prems(1) by simp_all
  have "distinct (map te_relative (before @ [e]))" using ok(1) Cons.prems(2) by (auto simp: entry_ok_def)
  then have "answers F (\<lambda>w. w = unpacked t ts (before @ [e])) (extract_entries F (root_path ts) es) (\<lambda>_ w. w = unpacked t ts (before @ e # es)) (outside_same t ts)"
    using Cons.IH [OF ok(2)] by simp
  then show ?case unfolding extract_entries.simps by (rule answers_bind [OF answers_entry [OF t ts ok(1) Cons.prems(2)]])
qed

section \<open>The extraction\<close>

text \<open>What the pinned key has signed: the manifest, and by its digest the archive, whose entries these are.\<close>

definition signed_release :: "'k release_env \<Rightarrow> release_inputs \<Rightarrow> manifest \<Rightarrow> tar_entry list \<Rightarrow> bool" where
  "signed_release E q identity entries \<longleftrightarrow> (\<exists>manifestBytes trustedKeyBytes key signature archive bytes.
     re_file E ReadManifest (ri_manifest q) = Some manifestBytes \<and> re_file E ReadKey (ri_trustedKey q) = Some trustedKeyBytes \<and>
     re_publicKey E trustedKeyBytes = Some key \<and> re_ed25519 E key \<and> re_verify E manifestBytes key signature \<and>
     parseManifest (re_parse E) manifestBytes = Inr identity \<and>
     re_file E ReadArtifact (ri_artifact q) = Some archive \<and> re_sha256 E archive = mf_sha256 identity \<and>
     re_gunzip E MAX_EXPANDED archive = Some bytes \<and> inspectTar bytes (mf_version identity) (mf_commit identity) = Inr entries)"

lemma parse_version: "parseManifest parse bytes = Inr identity \<Longrightarrow> version_text (mf_version identity)"
  by (auto simp: parseManifest_def Let_def manifest_text_def text_in_def split: option.splits json.splits if_splits)

lemma read_regular: "readRegularFile E r p m = Inr bytes \<Longrightarrow> re_file E r p = Some bytes"
  by (auto simp: readRegularFile_def split: option.splits if_splits)

lemma signature_checked:
  "check_signature E manifestBytes signatureBytes trustedKeyBytes = Inr () \<Longrightarrow>
    \<exists>key signature. re_publicKey E trustedKeyBytes = Some key \<and> re_ed25519 E key \<and> re_verify E manifestBytes key signature"
  by (auto simp: check_signature_def Let_def split: if_splits option.splits)

lemma verify_signed:
  assumes "verifyArtifact E q = Inr identity"
  shows "\<exists>manifestBytes trustedKeyBytes key signature.
     re_file E ReadManifest (ri_manifest q) = Some manifestBytes \<and> re_file E ReadKey (ri_trustedKey q) = Some trustedKeyBytes \<and>
     re_publicKey E trustedKeyBytes = Some key \<and> re_ed25519 E key \<and> re_verify E manifestBytes key signature \<and>
     parseManifest (re_parse E) manifestBytes = Inr identity"
proof -
  obtain manifestBytes signatureBytes trustedKeyBytes where
    r: "readRegularFile E ReadManifest (ri_manifest q) (16 * 1024) = Inr manifestBytes" "readRegularFile E ReadKey (ri_trustedKey q) (8 * 1024) = Inr trustedKeyBytes"
    "parseManifest (re_parse E) manifestBytes = Inr identity" "check_signature E manifestBytes signatureBytes trustedKeyBytes = Inr ()"
    using assms unfolding verifyArtifact_def if_Inr sum_bind_Inr by auto
  then show ?thesis using read_regular signature_checked by metis
qed

lemma verified_signed:
  assumes "verified_entries E q outputDir = Inr (identity, entries)"
  shows "signed_release E q identity entries"
proof -
  obtain compressed where c: "verifyArtifact E q = Inr identity" "readRegularFile E ReadArtifact (ri_artifact q) MAX_COMPRESSED = Inr compressed"
    "re_sha256 E compressed = mf_sha256 identity"
    and k: "(case re_gunzip E MAX_EXPANDED compressed of None \<Rightarrow> Inl ''Invalid or oversized gzip release archive''
      | Some u \<Rightarrow> sum_bind (inspectTar u (mf_version identity) (mf_commit identity)) (\<lambda>es. Inr (identity, es))) = Inr (identity, entries)"
    using assms unfolding verified_entries_def Let_def if_Inr sum_bind_Inr
    by (auto simp: sum_bind_Inr split: option.splits)
  then obtain u where "re_gunzip E MAX_EXPANDED compressed = Some u" "inspectTar u (mf_version identity) (mf_commit identity) = Inr entries"
    by (auto simp: sum_bind_Inr split: option.splits)
  then show ?thesis using verify_signed [OF c(1)] read_regular [OF c(2)] c(3) unfolding signed_release_def by blast
qed

lemma cleared:
  assumes "rooted t" "t ts = None" "outside_same t ts w"
  shows "(\<lambda>ps. if take (length ts) ps = ts then None else w ps) = t"
proof
  fix ps
  show "(if take (length ts) ps = ts then None else w ps) = t ps"
  proof (cases "take (length ts) ps = ts")
    case True
    then have "ps = ts @ drop (length ts) ps" by (metis append_take_drop_id)
    then have "t ps = None" using nothing_below [OF assms(1,2)] by metis
    then show ?thesis using True by simp
  next
    case False
    then show ?thesis using assms(3) by (simp add: outside_same_def at_or_below_def)
  qed
qed

lemma answers_target:
  assumes "rooted t" "t ts = None" "t (butlast ts) = Some DirNode" "list_all proper_part ts"
  shows "answers F (\<lambda>w. w = t) (make_directory F (root_path ts)) (\<lambda>_ w. w = unpacked t ts []) (\<lambda>w. w = t)"
proof -
  have "unpacked t ts [] = t(ts \<mapsto> DirNode)" by (simp add: unpacked_def fun_eq_iff)
  then show ?thesis unfolding make_directory_def by (intro answers_call) (use assms in \<open>simp_all add: Let_def\<close>)
qed

text \<open>The removal is the call after the one that failed; it fails as well.\<close>

definition removal_fails :: "faults \<Rightarrow> bool" where
  "removal_fails F \<longleftrightarrow> (\<exists>n. F n \<noteq> NoFault \<and> (\<exists>e. F (n + 1) = FailWith e))"

text \<open>How an extraction may end.\<close>

definition extraction_end :: "faults \<Rightarrow> file_tree \<Rightarrow> string list \<Rightarrow> tar_entry list \<Rightarrow> 'r \<Rightarrow> file_tree \<Rightarrow> 'r outcome \<Rightarrow> bool" where
  "extraction_end F t ts entries result t' r \<longleftrightarrow> outside_same t ts t' \<and> (\<forall>x. r = Done x \<longrightarrow> t' = unpacked t ts entries \<and> x = result) \<and>
     (calm F \<longrightarrow> (\<exists>x. r = Done x)) \<and> (\<forall>e. r = Raised e \<longrightarrow> t' = t \<or> removal_fails F)"

lemma remove_ends:
  assumes t: "rooted t" "t ts = None" and o: "outside_same t ts (rn_world s)" and ts: "list_all proper_part ts"
    and f: "F (rn_calls s - 1) \<noteq> NoFault" "0 < rn_calls s"
    and run: "jbind (remove_tree F (root_path ts)) (\<lambda>_. jraise e) s = (s', r)"
  shows "extraction_end F t ts entries result (rn_world s') r"
proof -
  have parts: "parts_of (root_path ts) = ts" using ts by simp
  note defs = remove_tree_def jdo_def jcall_def jbind_def jraise_def Let_def
  have uncalm: "\<not> calm F" using f(1) unfolding calm_def by blast
  show ?thesis
  proof (cases "F (rn_calls s)")
    case NoFault
    then have "rn_world s' = t" "r = Raised e" using run cleared [OF t o] by (auto simp: defs parts)
    then show ?thesis using uncalm by (simp add: extraction_end_def outside_same_def)
  next
    case (FailWith er)
    then have e: "rn_world s' = rn_world s" "\<forall>x. r \<noteq> Done x" using run by (auto simp: defs)
    have "rn_calls s - 1 + 1 = rn_calls s" using f(2) by simp
    then have "removal_fails F" using f(1) FailWith unfolding removal_fails_def by metis
    then show ?thesis using e o uncalm by (simp add: extraction_end_def)
  next
    case CrashNow
    then have "rn_world s' = rn_world s" "r = Crashed" using run by (auto simp: defs)
    then show ?thesis using o uncalm by (simp add: extraction_end_def)
  qed
qed

lemma entries_end:
  assumes t: "rooted t" "t ts = None" and ts: "list_all proper_part ts" "ts \<noteq> []" and ok: "entries_ok root [] entries"
    and s: "rn_world s = unpacked t ts []"
    and run: "jcatch (jbind (extract_entries F (root_path ts) entries) (\<lambda>_. jreturn result))
       (\<lambda>e. jbind (remove_tree F (root_path ts)) (\<lambda>_. jraise e)) s = (s', r)"
  shows "extraction_end F t ts entries result (rn_world s') r"
proof -
  obtain s2 r2 where es: "extract_entries F (root_path ts) entries s = (s2, r2)" by fastforce
  have "answers F (\<lambda>w. w = unpacked t ts []) (extract_entries F (root_path ts) entries) (\<lambda>_ w. w = unpacked t ts entries) (outside_same t ts)"
    using answers_entries [OF t ts ok, of F] by simp
  note D = answersD [OF this s es]
  show ?thesis
  proof (cases r2)
    case (Done v)
    then have "rn_world s' = unpacked t ts entries" "r = Done result" using run D by (auto simp: jbind_def es jcatch_def jreturn_def)
    then show ?thesis by (simp add: extraction_end_def outside_unpacked)
  next
    case Crashed
    then have "s' = s2" "r = Crashed" using run by (simp_all add: jbind_def es jcatch_def)
    moreover have "\<not> calm F" using D Crashed unfolding calm_def by blast
    ultimately show ?thesis using D Crashed by (simp add: extraction_end_def)
  next
    case (Raised e)
    then have "jbind (remove_tree F (root_path ts)) (\<lambda>_. jraise e) s2 = (s', r)" using run by (simp add: jbind_def [of "extract_entries F (root_path ts) entries"] es jcatch_def)
    then show ?thesis using remove_ends [OF t _ ts(1), of s2 F e s' r] D Raised by simp
  qed
qed

lemma extraction_ends:
  assumes t: "rooted t" "t ts = None" "t (butlast ts) = Some DirNode" and ts: "list_all proper_part ts" and ok: "entries_ok root [] entries"
    and run: "jrun (jbind (make_directory F (root_path ts)) (\<lambda>_. jcatch (jbind (extract_entries F (root_path ts) entries) (\<lambda>_. jreturn result))
       (\<lambda>e. jbind (remove_tree F (root_path ts)) (\<lambda>_. jraise e)))) t = (t', r)"
  shows "extraction_end F t ts entries result t' r"
proof -
  have ne: "ts \<noteq> []" using t(1,2) by (auto simp: rooted_def)
  obtain s1 r1 where m: "make_directory F (root_path ts) \<lparr>rn_world = t, rn_calls = 0\<rparr> = (s1, r1)" by fastforce
  note D = answersD [OF answers_target [OF t ts, of F] _ m, simplified]
  show ?thesis
  proof (cases "\<exists>v. r1 = Done v")
    case False
    then have "rn_world s1 = t" "\<not> calm F" using D unfolding calm_def by auto
    moreover have "t' = rn_world s1" "\<forall>x. r \<noteq> Done x" using run False by (cases r1; auto simp: jrun_def jbind_def m)+
    ultimately show ?thesis by (simp add: extraction_end_def outside_same_def)
  next
    case True
    then have w: "rn_world s1 = unpacked t ts []" and r1: "r1 = Done ()" using D by auto
    obtain s' where s': "jcatch (jbind (extract_entries F (root_path ts) entries) (\<lambda>_. jreturn result))
       (\<lambda>e. jbind (remove_tree F (root_path ts)) (\<lambda>_. jraise e)) s1 = (s', r)" "t' = rn_world s'"
      using run by (simp add: jrun_def jbind_def [of "make_directory F (root_path ts)"] m r1 split: prod.splits)
    show ?thesis unfolding s'(2) by (rule entries_end [OF t(1,2) ts ne ok w s'(1)])
  qed
qed

text \<open>
  C36. What is unpacked of a release is the archive that the pinned key has signed: clean distinct paths
  below the root of its version, each in a directory of the archive, at most 5000 entries that fit in its
  bytes. However calls fail, nothing outside the new directory changes; a reported extraction has made
  exactly the entries, without failing calls it is reported, and an error leaves nothing behind, unless the
  removal fails as well; then what was made stays (\<open>failed_removal_leaves_files\<close>).
\<close>

theorem only_signed_release_unpacked:
  assumes "verified_entries E q outputDir = Inr (identity, entries)" "rooted t" "t (parts_of outputDir') = None"
    and "t (butlast (parts_of outputDir')) = Some DirNode" "outputDir' = path_resolve (re_cwd E) outputDir"
    and run: "jrun (extractVerifiedArtifact E F q outputDir) t = (t', r)"
  shows "signed_release E q identity entries \<and> entries_ok (release_root (mf_version identity)) [] entries \<and> length entries \<le> 5000 \<and>
    outside_same t (parts_of outputDir') t' \<and>
    (\<forall>x. r = Done x \<longrightarrow> t' = unpacked t (parts_of outputDir') entries \<and>
       ex_directory x = path_join outputDir' [release_root (mf_version identity)] \<and> ex_sha256 x = mf_sha256 identity) \<and>
    (calm F \<longrightarrow> (\<exists>x. r = Done x)) \<and>
    (\<forall>e. r = Raised e \<longrightarrow> t' = t \<or> removal_fails F)"
proof -
  define ts where "ts = parts_of outputDir'"
  define result where "result = \<lparr>ex_directory = path_join outputDir' [release_root (mf_version identity)], ex_version = mf_version identity,
    ex_commit = mf_commit identity, ex_sha256 = mf_sha256 identity\<rparr>"
  have ts: "list_all proper_part ts" by (simp add: ts_def parts_proper)
  have target: "outputDir' = root_path ts" by (simp add: ts_def assms(5) path_resolve_def normal_root_path parts_proper)
  have signed: "signed_release E q identity entries" by (rule verified_signed [OF assms(1)])
  then have ok: "entries_ok (release_root (mf_version identity)) [] entries" "length entries \<le> 5000"
    using inspect_ok parse_version unfolding signed_release_def by blast+
  have "extractVerifiedArtifact E F q outputDir = jbind (make_directory F (root_path ts)) (\<lambda>_. jcatch
      (jbind (extract_entries F (root_path ts) entries) (\<lambda>_. jreturn result)) (\<lambda>e. jbind (remove_tree F (root_path ts)) (\<lambda>_. jraise e)))"
    by (simp add: extractVerifiedArtifact_def assms(1) assms(5) [symmetric] Let_def target result_def)
  then have e: "extraction_end F t ts entries result t' r"
    using extraction_ends [OF assms(2) _ _ ts ok(1), of F result t' r] assms(3,4) run by (simp add: ts_def)
  have "\<forall>x. r = Done x \<longrightarrow> t' = unpacked t ts entries \<and> ex_directory x = path_join outputDir' [release_root (mf_version identity)] \<and>
      ex_sha256 x = mf_sha256 identity"
  proof (intro allI impI)
    fix x assume "r = Done x"
    then have "t' = unpacked t ts entries" "x = result" using e unfolding extraction_end_def by blast+
    then show "t' = unpacked t ts entries \<and> ex_directory x = path_join outputDir' [release_root (mf_version identity)] \<and>
      ex_sha256 x = mf_sha256 identity" by (simp add: result_def)
  qed
  then show ?thesis using signed ok e unfolding extraction_end_def ts_def by blast
qed

end
