(* ===== verification/Artifact_Roundtrip.thy ===== *)
theory Artifact_Roundtrip
  imports Artifact_Props
begin

text \<open>
  The inspection reads back every archive of clean entries: a writer of archives in the format of
  \<^verbatim>\<open>git archive\<close>, for paths that fit in the name field, and its inverse.
\<close>

section \<open>A writer\<close>

primrec octal_pad :: "nat \<Rightarrow> nat \<Rightarrow> string" where
  "octal_pad 0 n = []"
| "octal_pad (Suc k) n = octal_pad k (n div 8) @ [digit_char (n mod 8)]"

definition header_before :: "string \<Rightarrow> nat \<Rightarrow> string" where
  "header_before name n = name @ replicate (124 - length name) NUL @ octal_pad 11 n @ replicate 13 NUL"

definition header_after :: "char \<Rightarrow> string" where
  "header_after type = type # replicate 100 NUL @ ''ustar'' @ replicate 250 NUL"

definition header_sum :: "string \<Rightarrow> string \<Rightarrow> nat" where
  "header_sum before after = byte_sum before + 8 * 32 + byte_sum after"

definition write_header :: "string \<Rightarrow> nat \<Rightarrow> char \<Rightarrow> string" where
  "write_header name n type = header_before name n @
     octal_pad 6 (header_sum (header_before name n) (header_after type)) @ [NUL, CHR '' ''] @ header_after type"

lemma octal_pad_length [simp]: "length (octal_pad k n) = k"
  by (induction k arbitrary: n) simp_all

lemma octal_digit: "d < 8 \<Longrightarrow> is_octal (digit_char d)"
proof -
  assume "d < 8"
  then have "d = 0 \<or> d = 1 \<or> d = 2 \<or> d = 3 \<or> d = 4 \<or> d = 5 \<or> d = 6 \<or> d = 7" by arith
  then show ?thesis by (elim disjE) (simp_all add: is_octal_def digit_char_def)
qed

lemma octal_pad_octal: "list_all is_octal (octal_pad k n)"
  by (induction k arbitrary: n) (simp_all add: octal_digit)

lemma octal_pad_value: "n < 8 ^ k \<Longrightarrow> foldl (\<lambda>n c. 8 * n + int (digit_val c)) 0 (octal_pad k n) = int n"
proof (induction k arbitrary: n)
  case (Suc k)
  have "n div 8 < 8 ^ k" using Suc.prems by (simp add: less_mult_imp_div_less mult.commute)
  then have "foldl (\<lambda>n c. 8 * n + int (digit_val c)) 0 (octal_pad (Suc k) n) = 8 * int (n div 8) + int (n mod 8)"
    using Suc.IH by (simp del: of_nat_div of_nat_mod)
  also have "\<dots> = int (8 * (n div 8) + n mod 8)" by (simp only: of_nat_add of_nat_mult of_nat_numeral)
  finally show ?case by simp
qed simp

lemma ascii_char: "(of_char c :: nat) < 128 \<Longrightarrow> char_of ((of_char c :: nat) mod 128) = c"
  by simp

lemma octal_char: "is_octal c \<Longrightarrow> c \<noteq> NUL \<and> \<not> ascii_space c \<and> char_of ((of_char c :: nat) mod 128) = c"
proof -
  assume c: "is_octal c"
  then have "(of_char c :: nat) < 128" by (auto simp: is_octal_def)
  moreover have "c \<noteq> NUL" "\<not> ascii_space c" using c by (auto simp: is_octal_def NUL_def ascii_space_def)
  ultimately show ?thesis using ascii_char by blast
qed

lemma octal_same: "list_all is_octal s \<Longrightarrow> ascii_text s = s \<and> trim_text s = s \<and> takeWhile (\<lambda>c. c \<noteq> NUL) s = s"
proof -
  assume s: "list_all is_octal s"
  then have c: "\<And>c. c \<in> set s \<Longrightarrow> c \<noteq> NUL \<and> \<not> ascii_space c \<and> char_of ((of_char c :: nat) mod 128) = c"
    using octal_char by (simp add: list_all_iff)
  have e: "s = [] \<or> \<not> ascii_space (hd s)" "s = [] \<or> \<not> ascii_space (last s)" using c hd_in_set last_in_set by blast+
  then have "dropWhile ascii_space s = s" "dropWhile ascii_space (rev s) = rev s"
    by (simp_all add: dropWhile_eq_self_iff hd_rev)
  then show ?thesis using c by (simp add: ascii_text_def trim_text_def map_idI takeWhile_eq_all_conv)
qed

lemma ascii_append: "ascii_text (a @ b) = ascii_text a @ ascii_text b"
  by (simp add: ascii_text_def)

lemma ascii_NUL: "ascii_text (NUL # s) = NUL # ascii_text s"
  using ascii_char [of NUL] by (simp add: ascii_text_def NUL_def)

lemma octal_pad_read:
  assumes "n < 8 ^ k" "0 < k" "k \<le> 17"
  shows "octal (octal_pad k n @ NUL # rest) = Inr n"
proof -
  note same = octal_same [OF octal_pad_octal, of k n]
  have t: "trim_text (takeWhile (\<lambda>c. c \<noteq> NUL) (ascii_text (octal_pad k n @ NUL # rest))) = octal_pad k n"
    using same octal_pad_octal [of k n] octal_char by (simp add: ascii_append ascii_NUL takeWhile_append2 list_all_iff)
  have "(8::nat) ^ k \<le> 8 ^ 17" using assms(3) by (rule power_increasing) simp
  then have "int n \<le> 2 ^ 53 - 1" using assms(1) by simp
  moreover have "octal_pad k n \<noteq> []" using assms(2) octal_pad_length [of k n] by (metis list.size(3) less_numeral_extra(3))
  ultimately show ?thesis using octal_pad_value [OF assms(1)] octal_pad_octal [of k n] by (simp add: octal_def t Let_def)
qed

section \<open>Headers\<close>

lemma byte_sum_bound: "byte_sum s \<le> 255 * length s"
proof -
  have "foldl (\<lambda>n c. n + of_char c) m s \<le> m + 255 * length s" for m :: nat
  proof (induction s arbitrary: m)
    case (Cons c s)
    have "(of_char c :: nat) < 256" by (metis mod_less_divisor of_char_mod_256 zero_less_numeral)
    then have "(of_char c :: nat) \<le> 255" by linarith
    then have "m + of_char c + 255 * length s \<le> m + 255 * length (c # s)" by simp
    then show ?case using Cons.IH [of "m + of_char c"] by (simp only: foldl_Cons)
  qed simp
  then show ?thesis unfolding byte_sum_def by (metis add_0)
qed

lemma slices:
  assumes "length a = i" "length b = k"
  shows "slice i (i + k) (a @ b @ c) = b"
  using assms by (simp add: slice_def)

lemma header_lengths:
  assumes "length name \<le> 100"
  shows "length (header_before name n) = 148" "length (header_after type) = 356" "length (write_header name n type) = 512"
  using assms by (simp_all add: header_before_def header_after_def write_header_def)

definition plain_name :: "string \<Rightarrow> bool" where
  "plain_name s \<longleftrightarrow> length s < 100 \<and> list_all (\<lambda>c. 32 \<le> (of_char c :: nat) \<and> (of_char c :: nat) \<le> 126) s"

lemma nameField_padded:
  assumes "plain_name name"
  shows "nameField (name @ replicate k NUL) = Inr name"
proof -
  have p: "\<forall>c \<in> set name. 32 \<le> (of_char c :: nat) \<and> (of_char c :: nat) \<le> 126" using assms by (simp add: plain_name_def list_all_iff)
  have "(of_char NUL :: nat) = 0" by (simp add: NUL_def)
  then have "\<forall>c \<in> set name. c \<noteq> NUL" using p by force
  then have t: "takeWhile (\<lambda>c. c \<noteq> NUL) (name @ replicate k NUL) = name" by (simp add: takeWhile_append2 takeWhile_replicate)
  have "\<not> list_ex (\<lambda>c. (of_char c :: nat) < 32 \<or> (of_char c :: nat) > 126) name"
    using p by (fastforce simp: list_ex_iff)
  then show ?thesis by (simp only: nameField_def t Let_def if_False)
qed

lemma read_write_header:
  assumes name: "plain_name name" and n: "n < 8 ^ 11"
  shows "read_header (write_header name n type) = Inr \<lparr>th_type = type, th_name = name, th_size = n\<rparr>"
proof -
  have l: "length name < 100" using name by (simp add: plain_name_def)
  define before after where "before = header_before name n" and "after = header_after type"
  define c where "c = header_sum before after"
  have h: "write_header name n type = before @ octal_pad 6 c @ NUL # CHR '' '' # after"
    by (simp add: write_header_def before_def after_def c_def)
  have lens: "length before = 148" "length after = 356" using header_lengths [of name] l by (simp_all add: before_def after_def header_after_def)
  have "byte_sum before \<le> 255 * 148" "byte_sum after \<le> 255 * 356" using byte_sum_bound [of before] byte_sum_bound [of after] lens by simp_all
  then have c: "c < 8 ^ 6" by (simp add: c_def header_sum_def)
  have s1: "slice 148 156 (write_header name n type) = octal_pad 6 c @ NUL # CHR '' '' # []"
    using lens by (simp add: h slice_def)
  have s2: "slice 0 148 (write_header name n type) = before" "drop 156 (write_header name n type) = after"
    using lens by (simp_all add: h slice_def)
  have s3: "slice 257 262 (write_header name n type) = ''ustar''"
    using lens by (simp add: h slice_def after_def header_after_def)
  have s4: "slice 0 100 (write_header name n type) = name @ replicate (100 - length name) NUL"
    using l lens by (simp add: h slice_def before_def header_before_def)
  have s5: "slice 345 500 (write_header name n type) = [] @ replicate 155 NUL"
    using lens by (simp add: h slice_def after_def header_after_def)
  have "replicate 13 NUL = [NUL] @ replicate 12 NUL" using replicate_add [of 1 12 NUL] by simp
  then have "write_header name n type = (name @ replicate (124 - length name) NUL) @ (octal_pad 11 n @ [NUL]) @
      replicate 12 NUL @ octal_pad 6 c @ NUL # CHR '' '' # after"
    unfolding h before_def header_before_def by simp
  then have s6: "slice 124 136 (write_header name n type) = octal_pad 11 n @ [NUL]"
    using slices [of "name @ replicate (124 - length name) NUL" 124 "octal_pad 11 n @ [NUL]" 12] l by simp
  have s7: "write_header name n type ! 156 = type"
    using lens by (simp add: h after_def header_after_def nth_append)
  have "ascii_text ''ustar'' = ''ustar''" by code_simp
  then have a: "assertHeader (write_header name n type) = Inr ()"
    using octal_pad_read [OF c, of "[CHR '' '']"] by (simp add: assertHeader_def sum_bind_def s1 s2 s3 c_def header_sum_def)
  have empty: "nameField ([] @ replicate 155 NUL) = Inr []" by (rule nameField_padded) (simp add: plain_name_def)
  show ?thesis using octal_pad_read [OF n, of "[]"]
    by (simp add: read_header_def sum_bind_def a s4 s5 [simplified] s6 s7 nameField_padded [OF name] empty [simplified])
qed

section \<open>Entries\<close>

definition padding :: "nat \<Rightarrow> nat" where
  "padding n = (n + 511) div 512 * 512"

definition entry_name :: "tar_entry \<Rightarrow> string" where
  "entry_name e = te_relative e @ (if te_directory e then ''/'' else [])"

definition padded :: "string \<Rightarrow> string" where
  "padded s = s @ replicate (padding (length s) - length s) NUL"

definition write_entry :: "tar_entry \<Rightarrow> string" where
  "write_entry e = write_header (entry_name e) (length (te_content e)) (if te_directory e then CHR ''5'' else CHR ''0'') @ padded (te_content e)"

text \<open>The path fits in its field, and the content in what the reader unpacks.\<close>

definition writable :: "tar_entry \<Rightarrow> bool" where
  "writable e \<longleftrightarrow> plain_name (entry_name e) \<and> length (te_content e) \<le> MAX_EXPANDED"

lemma padded_length: "length (padded s) = padding (length s)"
  using padded_covers [of "length s"] by (simp add: padded_def padding_def)

lemma write_header_length: "plain_name name \<Longrightarrow> length (write_header name n type) = 512"
  using header_lengths(3) [of name] by (simp add: plain_name_def)

lemma write_header_nonempty:
  assumes "plain_name name" "name \<noteq> []"
  shows "\<not> list_all (\<lambda>c. c = NUL) (write_header name n type)"
proof -
  obtain c cs where name: "name = c # cs" using assms(2) by (cases name) auto
  then have "32 \<le> (of_char c :: nat)" using assms(1) by (simp add: plain_name_def)
  then have "c \<noteq> NUL" by (auto simp: NUL_def)
  then show ?thesis by (simp add: write_header_def header_before_def name)
qed

lemma take_padded: "take (length s) (padded s @ rest) = s"
  by (simp add: padded_def)

lemma last_part: "last (split_on CHR ''/'' s) \<noteq> [] \<Longrightarrow> s = [] \<or> last s \<noteq> CHR ''/''"
proof (cases s rule: rev_cases)
  case (snoc r c)
  assume l: "last (split_on CHR ''/'' s) \<noteq> []"
  have "last (split_on CHR ''/'' (r @ [CHR ''/''])) = []" by (simp add: split_on_sep)
  then show ?thesis using l snoc by auto
qed simp

lemma within_root:
  assumes "hd (split_on CHR ''/'' s) = root"
  shows "s = root \<or> starts_with s (root @ ''/'')"
proof (cases "tl (split_on CHR ''/'' s)")
  case Nil
  then have "split_on CHR ''/'' s = [root]" using assms by (cases "split_on CHR ''/'' s") auto
  then have "join_with ''/'' [root] = s" using join_split_on [of "CHR ''/''" s] by simp
  then show ?thesis by simp
next
  case (Cons p ps)
  then have "split_on CHR ''/'' s = root # p # ps" using assms by (cases "split_on CHR ''/'' s") auto
  then have "s = root @ ''/'' @ join_with ''/'' (p # ps)" using join_split_on [of "CHR ''/''" s] by simp
  then show ?thesis by (auto simp: starts_with_append)
qed

definition with_entry :: "tar_state \<Rightarrow> tar_entry \<Rightarrow> tar_state" where
  "with_entry st e = st\<lparr>ts_entries := ts_entries st @ [e], ts_names := ts_names st @ [te_relative e],
     ts_directories := (if te_directory e then ts_directories st @ [te_relative e] else ts_directories st)\<rparr>"

lemma take_written:
  assumes ok: "entry_ok root (ts_entries st) e" and n: "ts_names st = map te_relative (ts_entries st)"
    and d: "ts_directories st = map te_relative (filter te_directory (ts_entries st))" and few: "length (ts_entries st) < MAX_ENTRIES"
  shows "take_entry root \<lparr>th_type = (if te_directory e then CHR ''5'' else CHR ''0''), th_name = entry_name e, th_size = length (te_content e)\<rparr>
     (te_content e) st = Inr (with_entry st e)"
proof -
  let ?ps = "split_on CHR ''/'' (te_relative e)"
  have segs: "list_all segment_ok ?ps" and hd: "hd ?ps = root" using ok by (simp_all add: entry_ok_def entry_parts_def)
  have "last ?ps \<noteq> []" using segs by (simp add: list_all_iff segment_ok_def)
  then have plain: "\<not> ends_with_slash (te_relative e)" using last_part [of "te_relative e"] by (simp add: ends_with_slash_def)
  have slash: "ends_with_slash (entry_name e) = te_directory e" using plain by (simp add: entry_name_def ends_with_slash_def)
  have rel: "(if te_directory e then butlast (entry_name e) else entry_name e) = te_relative e"
    by (simp add: entry_name_def)
  have within: "\<not> (te_relative e \<noteq> root \<and> \<not> starts_with (te_relative e) (root @ ''/''))" using within_root [OF hd] by blast
  have new: "te_relative e \<notin> set (ts_names st)" using ok by (simp add: entry_ok_def n)
  have parent: "\<not> (join_with ''/'' (butlast ?ps) \<noteq> [] \<and> join_with ''/'' (butlast ?ps) \<notin> set (ts_directories st))"
  proof (cases "?ps = [root]")
    case False
    then obtain k where k: "k \<in> set (ts_entries st)" "te_directory k" "split_on CHR ''/'' (te_relative k) = butlast ?ps"
      using ok by (auto simp: entry_ok_def entry_parts_def)
    then have "join_with ''/'' (butlast ?ps) = te_relative k" by (metis join_split_on)
    then show ?thesis using k by (simp add: d)
  qed simp
  have empty: "te_directory e \<Longrightarrow> te_content e = []" using ok by (simp add: entry_ok_def)
  show ?thesis
    unfolding take_entry_def Let_def tar_header.simps slash rel if_not_P [OF within] if_not_P [OF parent]
    using new segs empty few by (cases "te_directory e") (simp_all add: with_entry_def)
qed

lemma step_written:
  assumes g: "ts_global st" and ok: "entry_ok root (ts_entries st) e" and w: "writable e" and n: "ts_names st = map te_relative (ts_entries st)"
    and d: "ts_directories st = map te_relative (filter te_directory (ts_entries st))" and few: "length (ts_entries st) < MAX_ENTRIES"
  shows "tar_step root commit st (write_entry e @ rest) = Inr (with_entry st e, padding (length (te_content e)))"
proof -
  have plain: "plain_name (entry_name e)" and small: "length (te_content e) \<le> MAX_EXPANDED" using w by (simp_all add: writable_def)
  define header where "header = write_header (entry_name e) (length (te_content e)) (if te_directory e then CHR ''5'' else CHR ''0'')"
  have l: "length header = 512" by (simp add: header_def write_header_length [OF plain])
  have rest: "write_entry e @ rest = header @ padded (te_content e) @ rest" by (simp add: write_entry_def header_def)
  have h: "read_header header = Inr \<lparr>th_type = (if te_directory e then CHR ''5'' else CHR ''0''), th_name = entry_name e, th_size = length (te_content e)\<rparr>"
    unfolding header_def by (rule read_write_header [OF plain]) (use small in \<open>simp add: MAX_EXPANDED_def\<close>)
  have fits: "\<not> (length (te_content e) > MAX_EXPANDED \<or> 512 + padding (length (te_content e)) > length (header @ padded (te_content e) @ rest))"
    using small l by (simp add: padded_length)
  have t: "take 512 (header @ padded (te_content e) @ rest) = header" "drop 512 (header @ padded (te_content e) @ rest) = padded (te_content e) @ rest"
    using l by simp_all
  show ?thesis
    unfolding tar_step_def sum_bind_def rest t h sum.case Let_def tar_header.simps padding_def [symmetric] take_padded take_written [OF ok n d few]
    using fits g by simp
qed

lemma loop_step:
  "\<not> length rest < 512 \<Longrightarrow> \<not> list_all (\<lambda>c. c = NUL) (take 512 rest) \<Longrightarrow> tar_step root commit st rest = Inr (st', p) \<Longrightarrow>
    tar_loop root commit st rest = tar_loop root commit st' (drop (512 + p) rest)"
  by (simp add: tar_loop.simps [of root commit st rest])

lemma loop_written:
  "ts_global st \<Longrightarrow> entries_ok root (ts_entries st) es \<Longrightarrow> list_all writable es \<Longrightarrow> ts_names st = map te_relative (ts_entries st) \<Longrightarrow>
   ts_directories st = map te_relative (filter te_directory (ts_entries st)) \<Longrightarrow> length (ts_entries st) + length es \<le> MAX_ENTRIES \<Longrightarrow>
   tar_loop root commit st (concat (map write_entry es) @ replicate 1024 NUL) = Inr (foldl with_entry st es, replicate 1024 NUL, True)"
proof (induction es arbitrary: st)
  case Nil
  have "list_all (\<lambda>c. c = NUL) (take 512 (replicate 1024 NUL))" by (simp add: list_all_iff)
  then show ?case by (simp add: tar_loop.simps [of root commit st])
next
  case (Cons e es)
  let ?rest = "concat (map write_entry es) @ replicate 1024 NUL"
  have ok: "entry_ok root (ts_entries st) e" "entries_ok root (ts_entries st @ [e]) es" and w: "writable e" using Cons.prems by simp_all
  have plain: "plain_name (entry_name e)" using w by (simp add: writable_def)
  have step: "tar_step root commit st (write_entry e @ ?rest) = Inr (with_entry st e, padding (length (te_content e)))"
    by (rule step_written [OF Cons.prems(1) ok(1) w Cons.prems(4,5)]) (use Cons.prems(6) in simp)
  have "entry_name e \<noteq> []" using ok(1) by (auto simp: entry_ok_def entry_parts_def entry_name_def segment_ok_def)
  then have "\<not> list_all (\<lambda>c. c = NUL) (take 512 (write_entry e @ ?rest))" "\<not> length (write_entry e @ ?rest) < 512"
    using write_header_nonempty [OF plain] write_header_length [OF plain] by (simp_all add: write_entry_def)
  then have "tar_loop root commit st (write_entry e @ ?rest) =
      tar_loop root commit (with_entry st e) (drop (512 + padding (length (te_content e))) (write_entry e @ ?rest))"
    by (intro loop_step [OF _ _ step])
  moreover have "drop (512 + padding (length (te_content e))) (write_entry e @ ?rest) = ?rest"
    using write_header_length [OF plain] by (simp add: write_entry_def padded_length)
  moreover have "tar_loop root commit (with_entry st e) ?rest = Inr (foldl with_entry (with_entry st e) es, replicate 1024 NUL, True)"
    by (rule Cons.IH) (use Cons.prems ok(2) in \<open>simp_all add: with_entry_def\<close>)
  ultimately show ?case by simp
qed

definition write_tar :: "string \<Rightarrow> tar_entry list \<Rightarrow> string" where
  "write_tar commit es = write_header ''pax_global_header'' 52 CHR ''g'' @ padded (''52 comment='' @ commit @ [CHR 0x0A]) @
     concat (map write_entry es) @ replicate 1024 NUL"

lemma foldl_with_entry:
  "ts_entries (foldl with_entry st es) = ts_entries st @ es" "ts_global (foldl with_entry st es) = ts_global st"
  "ts_directories (foldl with_entry st es) = ts_directories st @ map te_relative (filter te_directory es)"
  by (induction es arbitrary: st) (simp_all add: with_entry_def)

lemma ascii_commit: "hex_text 40 commit \<Longrightarrow> ascii_text (''52 comment='' @ commit @ [CHR 0x0A]) = ''52 comment='' @ commit @ [CHR 0x0A]"
proof -
  assume c: "hex_text 40 commit"
  have "(of_char c :: nat) < 128" if "c \<in> set commit" for c
  proof -
    have "is_digit c \<or> c \<in> set ''abcdef''" using that c by (auto simp: hex_text_def in_class_def list_all_iff)
    then show ?thesis by (auto simp: is_digit_def)
  qed
  then have "ascii_text commit = commit" using ascii_char by (simp add: ascii_text_def map_idI)
  moreover have "ascii_text ''52 comment='' = ''52 comment=''" "ascii_text [CHR 0x0A] = [CHR 0x0A]" by code_simp+
  ultimately show ?thesis by (simp only: ascii_append)
qed

lemma reads_archive:
  assumes "entries_ok (release_root version) [] es" "list_all writable es" "length es \<le> 5000" "hex_text 40 commit"
    and "\<lparr>te_relative = release_root version, te_directory = True, te_content = []\<rparr> \<in> set es"
  shows "inspectTar (write_tar commit es) version commit = Inr es"
proof -
  let ?root = "release_root version" and ?rest = "concat (map write_entry es) @ replicate 1024 NUL"
  let ?comment = "''52 comment='' @ commit @ [CHR 0x0A]" and ?st = "tar_start\<lparr>ts_global := True\<rparr>"
  have len: "length ?comment = 52" using assms(4) by (simp add: hex_text_def in_class_def)
  have plain: "plain_name ''pax_global_header''" by code_simp
  define header where "header = write_header ''pax_global_header'' 52 CHR ''g''"
  have l: "length header = 512" "\<not> list_all (\<lambda>c. c = NUL) header"
    using write_header_length [OF plain] write_header_nonempty [OF plain] by (simp_all add: header_def)
  have h: "read_header header = Inr \<lparr>th_type = CHR ''g'', th_name = ''pax_global_header'', th_size = 52\<rparr>"
    unfolding header_def by (rule read_write_header [OF plain]) simp
  have tar: "write_tar commit es = header @ padded ?comment @ ?rest" by (simp add: write_tar_def header_def)
  have t: "take 512 (header @ padded ?comment @ ?rest) = header" "drop 512 (header @ padded ?comment @ ?rest) = padded ?comment @ ?rest"
    using l(1) by simp_all
  have c: "take 52 (padded ?comment @ ?rest) = ?comment" using take_padded [of ?comment ?rest] unfolding len .
  have p: "length (padded ?comment) = 512" using padded_length [of ?comment] unfolding len by (simp add: padding_def)
  have step: "tar_step ?root commit tar_start (header @ padded ?comment @ ?rest) = Inr (?st, 512)"
    unfolding tar_step_def sum_bind_def t h sum.case Let_def tar_header.simps c ascii_commit [OF assms(4)]
    using l(1) p by (simp add: MAX_EXPANDED_def tar_start_def)
  have d: "drop (512 + 512) (header @ padded ?comment @ ?rest) = ?rest" using l(1) p by simp
  have "tar_loop ?root commit ?st ?rest = Inr (foldl with_entry ?st es, replicate 1024 NUL, True)"
    by (rule loop_written) (use assms(1-3) in \<open>simp_all add: tar_start_def MAX_ENTRIES_def\<close>)
  then have "tar_loop ?root commit tar_start (write_tar commit es) = Inr (foldl with_entry ?st es, replicate 1024 NUL, True)"
    unfolding tar using loop_step [OF _ _ step] l t(1) unfolding d by simp
  moreover have "?root \<in> set (ts_directories (foldl with_entry ?st es))" using assms(5) by (force simp: foldl_with_entry)
  ultimately show ?thesis by (simp add: inspectTar_def sum_bind_def foldl_with_entry tar_start_def list_all_iff)
qed

text \<open>
  C37. The inspection gives only clean entries: distinct paths below the root of the version, each in
  a directory that was listed before it, at most 5000, and no more content than the archive has bytes. And
  it reads back every archive that is written from such entries, whatever the files hold.
\<close>

theorem inspection_exact:
  assumes "version_text version" "hex_text 40 commit"
  shows "(inspectTar bytes version commit = Inr es \<longrightarrow>
      entries_ok (release_root version) [] es \<and> length es \<le> 5000 \<and> content_size es + 512 * length es \<le> length bytes) \<and>
    (entries_ok (release_root version) [] es \<and> list_all writable es \<and> length es \<le> 5000 \<and>
       \<lparr>te_relative = release_root version, te_directory = True, te_content = []\<rparr> \<in> set es \<longrightarrow>
     inspectTar (write_tar commit es) version commit = Inr es)"
  using inspect_ok [OF _ assms(1)] reads_archive [OF _ _ _ assms(2)] by blast

section \<open>A release\<close>

definition wit_commit :: string where
  "wit_commit = ''0123456789abcdef0123456789abcdef01234567''"

definition wit_entries :: "tar_entry list" where
  "wit_entries = [\<lparr>te_relative = ''dp-beget-bridge-1.2.3'', te_directory = True, te_content = []\<rparr>,
     \<lparr>te_relative = ''dp-beget-bridge-1.2.3/README.md'', te_directory = False, te_content = ''DP''\<rparr>]"

definition wit_sha :: string where
  "wit_sha = replicate 64 CHR ''a''"

definition wit_manifest :: json where
  "wit_manifest = JObj [(''format'', JStr ''dp-beget-bridge-release-v1''), (''version'', JStr ''1.2.3''), (''commit'', JStr wit_commit),
     (''artifact'', JObj [(''name'', JStr ''dp-beget-bridge-1.2.3.tar.gz''), (''size'', JNum 5), (''sha256'', JStr wit_sha)])]"

definition wit_platform :: "string release_env" where
  "wit_platform = \<lparr>re_cwd = ''/home'', re_file = (\<lambda>r p. Some (case r of ReadManifest \<Rightarrow> ''m'' | ReadSignature \<Rightarrow> replicate 88 CHR ''A'' | ReadKey \<Rightarrow> ''k''
       | CheckArtifact \<Rightarrow> ''bytes'' | ReadArtifact \<Rightarrow> ''bytes'')),
     re_parse = (\<lambda>s. Some wit_manifest), re_publicKey = Some, re_ed25519 = (\<lambda>k. True), re_verify = (\<lambda>m k s. k = ''k'' \<and> s = take 64 (replicate 88 CHR ''A'')),
     re_decode = take 64, re_encode = (\<lambda>s. s @ replicate 24 CHR ''A''), re_sha256 = (\<lambda>s. wit_sha),
     re_gunzip = (\<lambda>n s. None)\<rparr>"

definition wit_release :: "string release_env" where
  "wit_release = wit_platform\<lparr>re_gunzip := (\<lambda>n s. Some (write_tar wit_commit wit_entries))\<rparr>"

definition wit_inputs :: release_inputs where
  "wit_inputs = \<lparr>ri_artifact = ''/srv/dp-beget-bridge-1.2.3.tar.gz'', ri_manifest = ''/srv/manifest.json'', ri_signature = ''/srv/manifest.sig'',
     ri_trustedKey = ''/srv/key.pem''\<rparr>"

lemma wit_facts:
  "entries_ok (release_root ''1.2.3'') [] wit_entries" "list_all writable wit_entries" "length wit_entries \<le> 5000"
  "hex_text 40 wit_commit" "version_text ''1.2.3''"
  "\<lparr>te_relative = release_root ''1.2.3'', te_directory = True, te_content = []\<rparr> \<in> set wit_entries"
  subgoal by code_simp
  subgoal by (simp add: wit_entries_def writable_def entry_name_def plain_name_def MAX_EXPANDED_def)
  subgoal by (simp add: wit_entries_def)
  subgoal by code_simp
  subgoal by code_simp
  subgoal by (simp add: wit_entries_def release_root_def)
  done

theorem inspection_exact_witness:
  "inspectTar (write_tar wit_commit wit_entries) ''1.2.3'' wit_commit = Inr wit_entries"
  using inspection_exact [OF wit_facts(5,4), of "[]" wit_entries] wit_facts by blast

definition wit_identity :: manifest where
  "wit_identity = \<lparr>mf_version = ''1.2.3'', mf_commit = wit_commit, mf_name = ''dp-beget-bridge-1.2.3.tar.gz'', mf_size = 5, mf_sha256 = wit_sha\<rparr>"

lemma gunzip_unused:
  "readRegularFile (E\<lparr>re_gunzip := g\<rparr>) = readRegularFile E" "check_signature (E\<lparr>re_gunzip := g\<rparr>) = check_signature E"
  "checkArtifact (E\<lparr>re_gunzip := g\<rparr>) = checkArtifact E" "verifyArtifact (E\<lparr>re_gunzip := g\<rparr>) = verifyArtifact E"
proof -
  show 1: "readRegularFile (E\<lparr>re_gunzip := g\<rparr>) = readRegularFile E" by (cases E, hypsubst) (unfold readRegularFile_def release_env.simps, rule refl)
  show 2: "check_signature (E\<lparr>re_gunzip := g\<rparr>) = check_signature E" by (cases E, hypsubst) (unfold check_signature_def release_env.simps, rule refl)
  show 3: "checkArtifact (E\<lparr>re_gunzip := g\<rparr>) = checkArtifact E" by (cases E, hypsubst) (unfold checkArtifact_def release_env.simps, rule refl)
  show "verifyArtifact (E\<lparr>re_gunzip := g\<rparr>) = verifyArtifact E" unfolding verifyArtifact_def 1 2 3 by (cases E, hypsubst) (unfold release_env.simps, rule refl)
qed

lemma wit_verified: "verified_entries wit_release wit_inputs ''out'' = Inr (wit_identity, wit_entries)"
proof -
  have "verifyArtifact wit_platform wit_inputs = Inr wit_identity" by code_simp
  then have v: "verifyArtifact wit_release wit_inputs = Inr wit_identity"
    by (simp add: wit_release_def gunzip_unused)
  have cwd: "re_cwd wit_release = ''/home''" by (simp add: wit_release_def wit_platform_def)
  have o: "\<not> list_ex (\<lambda>p. path_resolve (re_cwd wit_release) p = path_resolve (re_cwd wit_release) ''out'' \<or>
      starts_with (path_resolve (re_cwd wit_release) p) (path_resolve (re_cwd wit_release) ''out'' @ ''/'')) (input_paths wit_inputs)"
    unfolding cwd by code_simp
  have r: "readRegularFile wit_release ReadArtifact (ri_artifact wit_inputs) MAX_COMPRESSED = Inr ''bytes''"
    by (simp add: wit_release_def gunzip_unused readRegularFile_def wit_platform_def MAX_COMPRESSED_def)
  have i: "inspectTar (write_tar wit_commit wit_entries) ''1.2.3'' wit_commit = Inr wit_entries"
    by (rule reads_archive [OF wit_facts(1-4,6)])
  show ?thesis
    unfolding verified_entries_def Let_def if_not_P [OF o]
    by (simp add: sum_bind_def v r) (simp add: wit_release_def wit_platform_def wit_identity_def MAX_COMPRESSED_def wit_sha_def sum_bind_def i)
qed

definition wit_tree :: file_tree where
  "wit_tree ps = (if ps = [] \<or> ps = [''home''] then Some DirNode else None)"

theorem only_signed_release_unpacked_witness:
  "case jrun (extractVerifiedArtifact wit_release no_faults wit_inputs ''out'') wit_tree of (t', r) \<Rightarrow>
     t' [''home'', ''out'', ''dp-beget-bridge-1.2.3'', ''README.md''] = Some (FileNode ''DP'') \<and> (\<exists>x. r = Done x \<and> ex_sha256 x = wit_sha)"
proof -
  obtain t' r where run: "jrun (extractVerifiedArtifact wit_release no_faults wit_inputs ''out'') wit_tree = (t', r)" by fastforce
  have "re_cwd wit_release = ''/home''" by (simp add: wit_release_def wit_platform_def)
  moreover have "parts_of (path_resolve ''/home'' ''out'') = [''home'', ''out'']" by code_simp
  ultimately have p: "parts_of (path_resolve (re_cwd wit_release) ''out'') = [''home'', ''out'']" by simp
  have tree: "rooted wit_tree" "wit_tree [''home'', ''out''] = None" "wit_tree (butlast [''home'', ''out'']) = Some DirNode"
    by (auto simp: rooted_def wit_tree_def)
  have e: "t' = unpacked wit_tree [''home'', ''out''] wit_entries" "\<exists>x. r = Done x \<and> ex_sha256 x = wit_sha"
    using only_signed_release_unpacked [OF wit_verified tree(1) _ _ refl run, unfolded p, OF tree(2,3)] calm_no_faults
    by (auto simp: wit_identity_def)
  have "unpacked wit_tree [''home'', ''out''] wit_entries [''home'', ''out'', ''dp-beget-bridge-1.2.3'', ''README.md''] = Some (FileNode ''DP'')"
    by code_simp
  then show ?thesis using run e by simp
qed

text \<open>The making of the first entry fails, and then the removal: the new directory stays although an error is reported.\<close>

lemma failed_removal_leaves_files:
  "case jrun (extractVerifiedArtifact wit_release (\<lambda>n. if n = 1 \<or> n = 2 then FailWith ''EIO'' else NoFault) wit_inputs ''out'') wit_tree of (t', r) \<Rightarrow>
     r = Raised ''EIO'' \<and> t' [''home'', ''out''] = Some DirNode"
proof -
  have cwd: "re_cwd wit_release = ''/home''" by (simp add: wit_release_def wit_platform_def)
  have run: "case jrun (jbind (make_directory F (path_resolve ''/home'' ''out'')) (\<lambda>_. jcatch
      (jbind (extract_entries F (path_resolve ''/home'' ''out'') wit_entries) (\<lambda>_. jreturn x))
      (\<lambda>e. jbind (remove_tree F (path_resolve ''/home'' ''out'')) (\<lambda>_. jraise e)))) wit_tree of (t', r) \<Rightarrow>
      r = Raised ''EIO'' \<and> t' [''home'', ''out''] = Some DirNode"
    if F: "F = (\<lambda>n. if n = 1 \<or> n = 2 then FailWith ''EIO'' else NoFault)" for F and x :: extracted
  proof -
    have p: "parts_of (path_resolve ''/home'' ''out'') = [''home'', ''out'']" by code_simp
    obtain e es where es: "wit_entries = e # es" "te_directory e" by (auto simp: wit_entries_def)
    show ?thesis by (simp add: F es make_directory_def extract_entry_def remove_tree_def jrun_def jbind_def jcatch_def jcall_def jdo_def
        jraise_def Let_def p wit_tree_def)
  qed
  show ?thesis unfolding extractVerifiedArtifact_def wit_verified sum.case prod.case Let_def cwd by (rule run) (rule refl)
qed

end
