(* ===== verification/VersionPointer.thy ===== *)
theory VersionPointer
  imports ReleasePaths Json
begin

text \<open>
  The switch of the active release, \<^verbatim>\<open>scripts/release/version-pointer.mjs\<close> and
  \<^verbatim>\<open>state-compatibility.mjs\<close>: the links \<^verbatim>\<open>current\<close> and \<^verbatim>\<open>previous\<close>, the lock, and the way back when the
  candidate is not healthy. The checks of one prepared release are one call.
\<close>

section \<open>Prepared releases\<close>

text \<open>What a directory of \<^verbatim>\<open>releases\<close> holds: name and version of its package, and its compatibility record.\<close>

record prepared =
  pp_real :: bool
  pp_name :: string
  pp_version :: string
  pp_record :: "json option"

definition version_dir :: "string \<Rightarrow> string option" where
  "version_dir s = (let version = take (length s - 41) s; commit = drop (length s - 41) s in
     if length s > 41 \<and> hd commit = CHR ''-'' \<and> hex_text 40 (tl commit) \<and> version_text version then Some version else None)"

definition releaseDirectory :: "(string \<Rightarrow> prepared option) \<Rightarrow> string \<Rightarrow> string + string" where
  "releaseDirectory rel n = (case version_dir n of
       None \<Rightarrow> Inl ''Invalid prepared release directory name''
     | Some version \<Rightarrow> (case rel n of
           None \<Rightarrow> Inl ''ENOENT''
         | Some r \<Rightarrow>
             if \<not> pp_real r then Inl ''Prepared release is not a real directory''
             else if pp_name r \<noteq> ''dp-beget-bridge'' \<or> pp_version r \<noteq> version then Inl ''Prepared release version does not match its package''
             else Inr (''releases/'' @ n)))"

definition SCHEMAS :: "string list" where
  "SCHEMAS = [''sessionHost'', ''agent'', ''oauth'']"

definition schema_keys :: "json option \<Rightarrow> string list" where
  "schema_keys v = (case v of Some (JObj fs) \<Rightarrow> sort (remdups (map fst fs)) | _ \<Rightarrow> [])"

definition schema_number :: "json option \<Rightarrow> bool" where
  "schema_number v \<longleftrightarrow> (case v of Some (JNum n) \<Rightarrow> 1 \<le> n \<and> n \<le> 1000 | _ \<Rightarrow> False)"

definition readStateCompatibility :: "json option \<Rightarrow> string + json" where
  "readStateCompatibility v = (case v of
       None \<Rightarrow> Inl ''Release has no state compatibility record''
     | Some record \<Rightarrow>
         (let schemas = json_field ''schemas'' record in
          if json_field ''format'' record = Some (JStr ''dp-beget-state-compatibility-v1'') \<and>
             join_with '','' (schema_keys (Some record)) = ''format,schemas'' \<and>
             join_with '','' (schema_keys schemas) = ''agent,oauth,sessionHost'' \<and>
             list_all (\<lambda>n. schema_number (Option.bind schemas (json_field n))) SCHEMAS
          then Inr (the schemas) else Inl ''Invalid release state compatibility record''))"

definition assertSameStateSchemas :: "json \<Rightarrow> json \<Rightarrow> string + unit" where
  "assertSameStateSchemas candidate active =
     (if list_ex (\<lambda>n. json_field n candidate \<noteq> json_field n active) SCHEMAS
      then Inl ''State schema change requires a separate verified migration and rollback transaction'' else Inr ())"

section \<open>The release root\<close>

datatype link_node = Symlink string | OtherNode

record release_dir =
  rd_links :: "string \<Rightarrow> link_node option"
  rd_lock :: bool

definition set_link :: "string \<Rightarrow> link_node option \<Rightarrow> release_dir \<Rightarrow> release_dir" where
  "set_link n v w = w\<lparr>rd_links := (rd_links w)(n := v)\<rparr>"

record switch_env =
  se_release :: "string \<Rightarrow> prepared option"
  se_healthy :: bool
  se_temporary :: "nat \<Rightarrow> string"

definition after_prefix :: "string \<Rightarrow> string" where
  "after_prefix target = drop (length ''releases/'') target"

definition link_target :: "switch_env \<Rightarrow> link_node option \<Rightarrow> string + string option" where
  "link_target E v = (case v of
       None \<Rightarrow> Inr None
     | Some OtherNode \<Rightarrow> Inl ''must be a managed symlink''
     | Some (Symlink target) \<Rightarrow>
         if take (length ''releases/'') target \<noteq> ''releases/'' then Inl ''points outside releases''
         else (case releaseDirectory (se_release E) (after_prefix target) of Inl e \<Rightarrow> Inl e | Inr t \<Rightarrow> Inr (Some target)))"

definition managedLink :: "switch_env \<Rightarrow> faults \<Rightarrow> string \<Rightarrow> (release_dir, string option) job" where
  "managedLink E F n = jlook F (\<lambda>w. link_target E (rd_links w n))"

definition sync_root :: "faults \<Rightarrow> (release_dir, unit) job" where
  "sync_root F = jdo F (\<lambda>w. w)"

text \<open>\<^verbatim>\<open>try { m } finally { c }\<close>\<close>

definition jfinally :: "('w, 'a) job \<Rightarrow> ('w, unit) job \<Rightarrow> ('w, 'a) job" where
  "jfinally m c = jbind (jcatch (jbind m (\<lambda>v. jreturn (Inr v))) (\<lambda>e. jreturn (Inl e)))
     (\<lambda>r. jbind c (\<lambda>_. case r of Inl e \<Rightarrow> jraise e | Inr v \<Rightarrow> jreturn v))"

definition unlink_node :: "faults \<Rightarrow> string \<Rightarrow> (release_dir, unit) job" where
  "unlink_node F n = jcall F (\<lambda>w. if rd_links w n = None then Inl ''ENOENT'' else Inr (set_link n None w, ()))"

definition rename_link :: "faults \<Rightarrow> string \<Rightarrow> string \<Rightarrow> (release_dir, unit) job" where
  "rename_link F a b = jcall F (\<lambda>w. case rd_links w a of
       None \<Rightarrow> Inl ''ENOENT'' | Some v \<Rightarrow> Inr (set_link b (Some v) (set_link a None w), ()))"

definition atomicLink :: "faults \<Rightarrow> string \<Rightarrow> string \<Rightarrow> string \<Rightarrow> (release_dir, unit) job" where
  "atomicLink F temporary n target =
     jbind (jcall F (\<lambda>w. if rd_links w temporary \<noteq> None then Inl ''EEXIST'' else Inr (set_link temporary (Some (Symlink target)) w, ()))) (\<lambda>_.
     jfinally
       (jbind (sync_root F) (\<lambda>_. jbind (rename_link F temporary n) (\<lambda>_. sync_root F)))
       (jcatch (jbind (unlink_node F temporary) (\<lambda>_. sync_root F)) (\<lambda>e. if e \<noteq> ''ENOENT'' then jraise e else jreturn ())))"

section \<open>The switch\<close>

record switched =
  sw_current :: string
  sw_previous :: "string option"

definition lift_sum :: "string + 'a \<Rightarrow> ('w, 'a) job" where
  "lift_sum v = (case v of Inl e \<Rightarrow> jraise e | Inr x \<Rightarrow> jreturn x)"

definition settled_job :: "('w, 'a) job \<Rightarrow> ('w, string + 'a) job" where
  "settled_job m = jcatch (jbind m (\<lambda>v. jreturn (Inr v))) (\<lambda>e. jreturn (Inl e))"

definition compatibility_record :: "switch_env \<Rightarrow> string \<Rightarrow> string + json" where
  "compatibility_record E target = readStateCompatibility (Option.bind (se_release E (after_prefix target)) pp_record)"

definition compatibility_of :: "switch_env \<Rightarrow> faults \<Rightarrow> string \<Rightarrow> (release_dir, json) job" where
  "compatibility_of E F target = jlook F (\<lambda>w. compatibility_record E target)"

text \<open>The checks before the first change: the candidate and the active release.\<close>

definition prepare_switch :: "switch_env \<Rightarrow> faults \<Rightarrow> string \<Rightarrow> (release_dir, string \<times> string option) job" where
  "prepare_switch E F versionDir =
     jbind (sync_root F) (\<lambda>_.
     jbind (jlook F (\<lambda>w. releaseDirectory (se_release E) versionDir)) (\<lambda>next.
     jbind (managedLink E F ''current'') (\<lambda>current.
     jbind (managedLink E F ''previous'') (\<lambda>_.
     if current = Some next then jraise ''Release is already active''
     else
       jbind (compatibility_of E F next) (\<lambda>newSchemas.
       jbind (case current of None \<Rightarrow> jreturn ()
         | Some c \<Rightarrow> jbind (compatibility_of E F c) (\<lambda>oldSchemas. lift_sum (assertSameStateSchemas newSchemas oldSchemas))) (\<lambda>_.
       jreturn (next, current)))))))"

definition activate :: "switch_env \<Rightarrow> faults \<Rightarrow> string \<Rightarrow> string option \<Rightarrow> (release_dir, switched) job" where
  "activate E F next current =
     jbind (atomicLink F (se_temporary E 0) ''current'' next) (\<lambda>_.
     jbind (jlook F (\<lambda>w. if se_healthy E then Inr () else Inl ''unhealthy'')) (\<lambda>_.
     jbind (case current of None \<Rightarrow> jreturn () | Some c \<Rightarrow> atomicLink F (se_temporary E 1) ''previous'' c) (\<lambda>_.
     jreturn \<lparr>sw_current = next, sw_previous = current\<rparr>)))"

definition roll_back :: "switch_env \<Rightarrow> faults \<Rightarrow> string \<Rightarrow> string option \<Rightarrow> (release_dir, unit) job" where
  "roll_back E F next current =
     jbind (managedLink E F ''current'') (\<lambda>active.
     if active = Some next
     then (case current of
         Some c \<Rightarrow> atomicLink F (se_temporary E 2) ''current'' c
       | None \<Rightarrow> jbind (unlink_node F ''current'') (\<lambda>_. sync_root F))
     else if active \<noteq> current then jraise ''Current release pointer is neither old nor candidate''
     else jreturn ())"

text \<open>The result, and whether the lock is kept.\<close>

definition switch_locked :: "switch_env \<Rightarrow> faults \<Rightarrow> string \<Rightarrow> (release_dir, bool \<times> (string + switched)) job" where
  "switch_locked E F versionDir =
     jbind (settled_job (prepare_switch E F versionDir)) (\<lambda>p. case p of
         Inl e \<Rightarrow> jreturn (False, Inl e)
       | Inr (next, current) \<Rightarrow>
           jbind (settled_job (activate E F next current)) (\<lambda>a. case a of
               Inr result \<Rightarrow> jreturn (False, Inr result)
             | Inl e \<Rightarrow> jbind (settled_job (roll_back E F next current)) (\<lambda>b. case b of
                   Inr u \<Rightarrow> jreturn (False, Inl e)
                 | Inl rollbackError \<Rightarrow> jreturn (True, Inl ''Activation and pointer rollback failed''))))"

definition take_lock :: "faults \<Rightarrow> (release_dir, unit) job" where
  "take_lock F = jcall F (\<lambda>w. if rd_lock w then Inl ''EEXIST'' else Inr (w\<lparr>rd_lock := True\<rparr>, ()))"

definition release_lock :: "faults \<Rightarrow> (release_dir, unit) job" where
  "release_lock F = jbind (jdo F (\<lambda>w. w\<lparr>rd_lock := False\<rparr>)) (\<lambda>_. sync_root F)"

definition switchVersion :: "switch_env \<Rightarrow> faults \<Rightarrow> string \<Rightarrow> (release_dir, switched) job" where
  "switchVersion E F versionDir =
     jbind (take_lock F) (\<lambda>_.
     jbind (switch_locked E F versionDir) (\<lambda>(retainLock, result).
     jbind (if retainLock then jreturn () else release_lock F) (\<lambda>_. lift_sum result)))"

end
