(* ===== verification/VersionPointer_Props.thy ===== *)
theory VersionPointer_Props
  imports VersionPointer
begin

text \<open>
  The active release is the old one or the candidate at every moment, and a switch that lets go of the lock
  has either happened or been taken back.
\<close>

section \<open>Rules\<close>

lemma settles_catch:
  assumes "settles P m Q R" "\<And>e. settles R (h e) Q R"
  shows "settles P (jcatch m h) Q R"
  unfolding settles_def
proof (intro allI impI)
  fix s :: "'a run" assume P: "P (rn_world s)"
  obtain s1 r where ms: "m s = (s1, r)" by fastforce
  note 1 = assms(1) [unfolded settles_def, rule_format, OF P, unfolded ms]
  show "(\<forall>v. snd (jcatch m h s) = Done v \<longrightarrow> Q v (rn_world (fst (jcatch m h s)))) \<and>
      ((\<forall>v. snd (jcatch m h s) \<noteq> Done v) \<longrightarrow> R (rn_world (fst (jcatch m h s))))"
  proof (cases r)
    case (Raised e)
    then have "R (rn_world s1)" using 1 by simp
    then show ?thesis using assms(2) [of e, unfolded settles_def] Raised by (simp add: jcatch_def ms)
  qed (use 1 in \<open>simp_all add: jcatch_def ms\<close>)
qed

lemma settles_weaken:
  "settles P' m Q' R' \<Longrightarrow> (\<And>w. P w \<Longrightarrow> P' w) \<Longrightarrow> (\<And>v w. Q' v w \<Longrightarrow> Q v w) \<Longrightarrow> (\<And>w. R' w \<Longrightarrow> R w) \<Longrightarrow> settles P m Q R"
  unfolding settles_def by blast

lemma settles_never: "(\<And>w. \<not> P w) \<Longrightarrow> settles P m Q R"
  by (simp add: settles_def)

lemma settles_attempt:
  assumes "settles P m Q R"
  shows "settles P (jcatch (jbind m (\<lambda>v. jreturn (Inr v))) (\<lambda>e. jreturn (Inl e))) (\<lambda>x. case x of Inl e \<Rightarrow> R | Inr v \<Rightarrow> Q v) R"
  unfolding settles_def
proof (intro allI impI)
  fix s :: "'a run" assume P: "P (rn_world s)"
  obtain s1 r where ms: "m s = (s1, r)" by fastforce
  note 1 = assms [unfolded settles_def, rule_format, OF P, unfolded ms]
  show "(\<forall>v. snd (jcatch (jbind m (\<lambda>v. jreturn (Inr v))) (\<lambda>e. jreturn (Inl e)) s) = Done v \<longrightarrow>
        (case v of Inl e \<Rightarrow> R | Inr v \<Rightarrow> Q v) (rn_world (fst (jcatch (jbind m (\<lambda>v. jreturn (Inr v))) (\<lambda>e. jreturn (Inl e)) s)))) \<and>
      ((\<forall>v. snd (jcatch (jbind m (\<lambda>v. jreturn (Inr v))) (\<lambda>e. jreturn (Inl e)) s) \<noteq> Done v) \<longrightarrow>
        R (rn_world (fst (jcatch (jbind m (\<lambda>v. jreturn (Inr v))) (\<lambda>e. jreturn (Inl e)) s))))"
    using 1 by (cases r) (simp_all add: jcatch_def jbind_def jreturn_def ms)
qed

lemma settles_finally:
  assumes m: "settles P m Q R" and c: "\<And>v. settles (Q v) c (\<lambda>_. Q' v) R'" "settles R c (\<lambda>_. R') R'" and weak: "\<And>w. R w \<Longrightarrow> R' w"
  shows "settles P (jfinally m c) Q' R'"
  unfolding jfinally_def
proof (rule settles_bind)
  show "settles P (jcatch (jbind m (\<lambda>v. jreturn (Inr v))) (\<lambda>e. jreturn (Inl e))) (\<lambda>x. case x of Inl e \<Rightarrow> R | Inr v \<Rightarrow> Q v) R'"
    by (rule settles_weaken [OF settles_attempt [OF m]]) (use weak in auto)
next
  fix r :: "string + 'b"
  show "settles ((case r of Inl e \<Rightarrow> R | Inr v \<Rightarrow> Q v)) (jbind c (\<lambda>_. case r of Inl e \<Rightarrow> jraise e | Inr v \<Rightarrow> jreturn v)) Q' R'"
  proof (cases r)
    case (Inl e)
    have "settles R (jbind c (\<lambda>_. jraise e)) Q' R'" by (rule settles_bind [OF c(2)], rule settles_raise)
    then show ?thesis by (simp add: Inl)
  next
    case (Inr v)
    have "settles (Q v) (jbind c (\<lambda>_. jreturn v)) Q' R'" by (rule settles_bind [OF c(1)], rule settles_return)
    then show ?thesis by (simp add: Inr)
  qed
qed

section \<open>One link\<close>

lemma set_link_simps [simp]:
  "rd_links (set_link n v w) = (rd_links w)(n := v)" "rd_lock (set_link n v w) = rd_lock w"
  by (simp_all add: set_link_def)

text \<open>What does not depend on a link.\<close>

definition ignores :: "string \<Rightarrow> (release_dir \<Rightarrow> bool) \<Rightarrow> bool" where
  "ignores n J \<longleftrightarrow> (\<forall>w v. J w \<longrightarrow> J (set_link n v w))"

lemma settles_sync: "settles J (sync_root F) (\<lambda>_. J) J"
  unfolding sync_root_def by (rule settles_do) simp

lemma settles_cleanup:
  assumes "ignores tmp J"
  shows "settles J (jcatch (jbind (unlink_node F tmp) (\<lambda>_. sync_root F)) (\<lambda>e. if e \<noteq> ''ENOENT'' then jraise e else jreturn ())) (\<lambda>_. J) J"
proof (rule settles_catch)
  show "settles J (jbind (unlink_node F tmp) (\<lambda>_. sync_root F)) (\<lambda>_. J) J"
    unfolding unlink_node_def
    by (rule settles_bind [OF settles_call settles_sync]) (use assms in \<open>auto simp: ignores_def split: if_splits\<close>)
  show "settles J (if e \<noteq> ''ENOENT'' then jraise e else jreturn ()) (\<lambda>_. J) J" for e
    by (simp add: settles_raise settles_return)
qed

lemma settles_atomicLink:
  assumes J: "ignores tmp J" "ignores n J" and n: "tmp \<noteq> n"
  shows "settles (\<lambda>w. rd_links w n = a \<and> J w) (atomicLink F tmp n target)
    (\<lambda>_ w. rd_links w n = Some (Symlink target) \<and> J w) (\<lambda>w. rd_links w n \<in> {a, Some (Symlink target)} \<and> J w)"
  unfolding atomicLink_def
proof (rule settles_bind)
  let ?S = "\<lambda>w. rd_links w n = a \<and> rd_links w tmp = Some (Symlink target) \<and> J w"
  let ?Q = "\<lambda>w. rd_links w n = Some (Symlink target) \<and> J w" let ?R = "\<lambda>w. rd_links w n \<in> {a, Some (Symlink target)} \<and> J w"
  show "settles (\<lambda>w. rd_links w n = a \<and> J w)
     (jcall F (\<lambda>w. if rd_links w tmp \<noteq> None then Inl ''EEXIST'' else Inr (set_link tmp (Some (Symlink target)) w, ()))) (\<lambda>_. ?S) ?R"
    by (rule settles_call) (use assms in \<open>auto simp: ignores_def split: if_splits\<close>)
  have m: "settles ?S (jbind (sync_root F) (\<lambda>_. jbind (rename_link F tmp n) (\<lambda>_. sync_root F))) (\<lambda>_. ?Q) ?R"
  proof (rule settles_bind [where S = "\<lambda>_. ?S"])
    show "settles ?S (sync_root F) (\<lambda>_. ?S) ?R" by (rule settles_weaken [OF settles_sync [of ?S]]) auto
    have after: "settles ?Q (sync_root F) (\<lambda>_. ?Q) ?R" by (rule settles_weaken [OF settles_sync [of ?Q]]) auto
    show "settles ?S (jbind (rename_link F tmp n) (\<lambda>_. sync_root F)) (\<lambda>_. ?Q) ?R"
      unfolding rename_link_def
      by (rule settles_bind [OF _ after], rule settles_call)
        (use assms in \<open>auto simp: ignores_def split: option.splits\<close>)
  qed
  have i: "ignores tmp ?Q" "ignores tmp ?R" using assms by (auto simp: ignores_def)
  show "settles ?S (jfinally (jbind (sync_root F) (\<lambda>_. jbind (rename_link F tmp n) (\<lambda>_. sync_root F)))
      (jcatch (jbind (unlink_node F tmp) (\<lambda>_. sync_root F)) (\<lambda>e. if e \<noteq> ''ENOENT'' then jraise e else jreturn ()))) (\<lambda>_. ?Q) ?R" for v :: unit
    by (rule settles_finally [OF m _ settles_cleanup [OF i(2)]], rule settles_weaken [OF settles_cleanup [OF i(1)]]) auto
qed

section \<open>The switch\<close>

definition with_current :: "string option \<Rightarrow> link_node option" where
  "with_current c = map_option Symlink c"

lemma settles_managed:
  "settles J (managedLink E F n) (\<lambda>c w. J w \<and> rd_links w n = with_current c) J"
  unfolding managedLink_def
  by (rule settles_look) (auto simp: link_target_def with_current_def split: option.splits link_node.splits if_splits sum.splits)

lemma settles_still: "settles J (jlook F f) (\<lambda>_. J) J"
  by (rule settles_look) auto

lemma release_name: "releaseDirectory rel n = Inr t \<Longrightarrow> t = ''releases/'' @ n"
  by (auto simp: releaseDirectory_def split: option.splits if_splits)

lemma settles_prepare:
  "settles J (prepare_switch E F versionDir)
    (\<lambda>(next, current) w. J w \<and> next = ''releases/'' @ versionDir \<and> rd_links w ''current'' = with_current current \<and> current \<noteq> Some next) J"
proof -
  let ?Q = "\<lambda>(next, current) w. J w \<and> next = ''releases/'' @ versionDir \<and> rd_links w ''current'' = with_current current \<and> current \<noteq> Some next"
  have tail: "settles (\<lambda>w. J w \<and> next = ''releases/'' @ versionDir \<and> rd_links w ''current'' = with_current current)
     (if current = Some next then jraise ''Release is already active''
      else jbind (compatibility_of E F next) (\<lambda>newSchemas.
        jbind (case current of None \<Rightarrow> jreturn ()
          | Some c \<Rightarrow> jbind (compatibility_of E F c) (\<lambda>oldSchemas. lift_sum (assertSameStateSchemas newSchemas oldSchemas))) (\<lambda>_.
        jreturn (next, current)))) ?Q J" for "next" current
  proof (cases "current = Some next")
    case True
    have "settles (\<lambda>w. J w \<and> next = ''releases/'' @ versionDir \<and> rd_links w ''current'' = with_current current) (jraise ''Release is already active'') ?Q J"
      by (rule settles_raise) simp
    then show ?thesis using True by simp
  next
    case False
    let ?P = "\<lambda>w. J w \<and> next = ''releases/'' @ versionDir \<and> rd_links w ''current'' = with_current current"
    have c: "settles ?P (compatibility_of E F t) (\<lambda>_. ?P) J" for t
      unfolding compatibility_of_def by (rule settles_weaken [OF settles_still [of ?P]]) auto
    have l: "settles ?P (lift_sum v) (\<lambda>_. ?P) J" for v :: "string + unit"
      by (cases v) (auto simp: lift_sum_def intro: settles_raise settles_return)
    have s: "settles ?P (case current of None \<Rightarrow> jreturn ()
          | Some c \<Rightarrow> jbind (compatibility_of E F c) (\<lambda>oldSchemas. lift_sum (assertSameStateSchemas newSchemas oldSchemas))) (\<lambda>_. ?P) J" for newSchemas
    proof (cases current)
      case None
      then show ?thesis by (simp add: settles_return)
    next
      case (Some a)
      have "settles ?P (jbind (compatibility_of E F a) (\<lambda>oldSchemas. lift_sum (assertSameStateSchemas newSchemas oldSchemas))) (\<lambda>_. ?P) J"
        by (rule settles_bind [OF c l])
      then show ?thesis by (simp add: Some)
    qed
    have "settles ?P (jbind (compatibility_of E F next) (\<lambda>newSchemas.
        jbind (case current of None \<Rightarrow> jreturn ()
          | Some c \<Rightarrow> jbind (compatibility_of E F c) (\<lambda>oldSchemas. lift_sum (assertSameStateSchemas newSchemas oldSchemas))) (\<lambda>_.
        jreturn (next, current)))) ?Q J"
      by (rule settles_bind [OF c], rule settles_bind [OF s], rule settles_return) (use False in simp)
    then show ?thesis by (simp only: False if_False)
  qed
  show ?thesis
    unfolding prepare_switch_def
  proof (rule settles_bind [OF settles_sync], rule settles_bind)
    show "settles J (jlook F (\<lambda>w. releaseDirectory (se_release E) versionDir)) (\<lambda>next w. J w \<and> next = ''releases/'' @ versionDir) J"
      by (rule settles_look) (auto dest: release_name)
  next
    fix "next"
    let ?N = "\<lambda>w. J w \<and> next = ''releases/'' @ versionDir"
    show "settles ?N (jbind (managedLink E F ''current'') (\<lambda>current. jbind (managedLink E F ''previous'') (\<lambda>_.
        if current = Some next then jraise ''Release is already active''
        else jbind (compatibility_of E F next) (\<lambda>newSchemas.
          jbind (case current of None \<Rightarrow> jreturn ()
            | Some c \<Rightarrow> jbind (compatibility_of E F c) (\<lambda>oldSchemas. lift_sum (assertSameStateSchemas newSchemas oldSchemas))) (\<lambda>_.
          jreturn (next, current)))))) ?Q J"
    proof (rule settles_bind)
      show "settles ?N (managedLink E F ''current'') (\<lambda>c w. ?N w \<and> rd_links w ''current'' = with_current c) J"
        by (rule settles_weaken [OF settles_managed [of ?N]]) auto
      show "settles (\<lambda>w. ?N w \<and> rd_links w ''current'' = with_current current) (jbind (managedLink E F ''previous'') (\<lambda>_.
        if current = Some next then jraise ''Release is already active''
        else jbind (compatibility_of E F next) (\<lambda>newSchemas.
          jbind (case current of None \<Rightarrow> jreturn ()
            | Some c \<Rightarrow> jbind (compatibility_of E F c) (\<lambda>oldSchemas. lift_sum (assertSameStateSchemas newSchemas oldSchemas))) (\<lambda>_.
          jreturn (next, current))))) ?Q J" for current
        by (rule settles_bind [OF _ tail], rule settles_weaken [OF settles_managed [of "\<lambda>w. ?N w \<and> rd_links w ''current'' = with_current current"]]) auto
    qed
  qed
qed

text \<open>The pointers during a switch from \<open>c0\<close> and \<open>p0\<close>; the first is \<open>with_current current\<close>.\<close>

definition between :: "string \<Rightarrow> link_node option \<Rightarrow> link_node option \<Rightarrow> release_dir \<Rightarrow> bool" where
  "between next c0 p0 w \<longleftrightarrow> rd_links w ''current'' \<in> {c0, Some (Symlink next)} \<and> rd_links w ''previous'' \<in> {p0, c0} \<and> rd_lock w"

definition switched_to :: "string \<Rightarrow> link_node option \<Rightarrow> link_node option \<Rightarrow> release_dir \<Rightarrow> bool" where
  "switched_to next c0 p0 w \<longleftrightarrow> rd_links w ''current'' = Some (Symlink next) \<and> rd_links w ''previous'' = (if c0 = None then p0 else c0)"

definition plain_temporaries :: "switch_env \<Rightarrow> bool" where
  "plain_temporaries E \<longleftrightarrow> (\<forall>k. se_temporary E k \<noteq> ''current'' \<and> se_temporary E k \<noteq> ''previous'')"

lemma settles_activate:
  assumes E: "plain_temporaries E" and c0: "c0 = with_current current"
  shows "settles (\<lambda>w. rd_links w ''current'' = c0 \<and> rd_links w ''previous'' = p0 \<and> rd_lock w) (activate E F next current)
    (\<lambda>x w. switched_to next c0 p0 w \<and> rd_lock w \<and> x = \<lparr>sw_current = next, sw_previous = current\<rparr>) (between next c0 p0)"
proof -
  note t = E [unfolded plain_temporaries_def, rule_format]
  let ?A = "\<lambda>w. rd_links w ''current'' = Some (Symlink next) \<and> rd_links w ''previous'' = p0 \<and> rd_lock w"
  have first: "settles (\<lambda>w. rd_links w ''current'' = c0 \<and> rd_links w ''previous'' = p0 \<and> rd_lock w) (atomicLink F (se_temporary E 0) ''current'' next) (\<lambda>_. ?A) (between next c0 p0)"
    by (rule settles_weaken [OF settles_atomicLink [of "se_temporary E 0" "\<lambda>w. rd_links w ''previous'' = p0 \<and> rd_lock w" "''current''" c0]])
      (use t [of 0] in \<open>auto simp: ignores_def between_def\<close>)
  have health: "settles ?A (jlook F f) (\<lambda>_. ?A) (between next c0 p0)" for f :: "release_dir \<Rightarrow> string + unit"
    by (rule settles_weaken [OF settles_still [of ?A]]) (auto simp: between_def)
  have second: "settles ?A (case current of None \<Rightarrow> jreturn () | Some c \<Rightarrow> atomicLink F (se_temporary E 1) ''previous'' c)
      (\<lambda>_ w. switched_to next c0 p0 w \<and> rd_lock w) (between next c0 p0)"
  proof (cases current)
    case None
    have "settles ?A (jreturn ()) (\<lambda>_ w. switched_to next c0 p0 w \<and> rd_lock w) (between next c0 p0)"
      by (rule settles_return) (simp add: switched_to_def c0 with_current_def None)
    then show ?thesis by (simp add: None)
  next
    case (Some c)
    have "settles ?A (atomicLink F (se_temporary E 1) ''previous'' c) (\<lambda>_ w. switched_to next c0 p0 w \<and> rd_lock w) (between next c0 p0)"
      by (rule settles_weaken [OF settles_atomicLink [of "se_temporary E 1" "\<lambda>w. rd_links w ''current'' = Some (Symlink next) \<and> rd_lock w" "''previous''" p0]])
        (use t [of 1] in \<open>auto simp: ignores_def between_def switched_to_def c0 with_current_def Some\<close>)
    then show ?thesis by (simp add: Some)
  qed
  show ?thesis unfolding activate_def
    by (rule settles_bind [OF first], rule settles_bind [OF health], rule settles_bind [OF second], rule settles_return) simp
qed

lemma settles_roll_back:
  assumes E: "plain_temporaries E" and c0: "c0 = with_current current" "current \<noteq> Some next"
  shows "settles (between next c0 p0) (roll_back E F next current) (\<lambda>_ w. between next c0 p0 w \<and> rd_links w ''current'' = c0) (between next c0 p0)"
  unfolding roll_back_def
proof (rule settles_bind [OF settles_managed])
  fix active
  let ?P = "\<lambda>w. between next c0 p0 w \<and> rd_links w ''current'' = with_current active"
  let ?Q = "\<lambda>w. between next c0 p0 w \<and> rd_links w ''current'' = c0"
  let ?J = "\<lambda>w. rd_links w ''previous'' \<in> {p0, c0} \<and> rd_lock w"
  have restored: "settles ?P (atomicLink F (se_temporary E 2) ''current'' c) (\<lambda>_. ?Q) (between next c0 p0)" if "active = Some next" "current = Some c" for c
    by (rule settles_weaken [OF settles_atomicLink [of "se_temporary E 2" ?J "''current''" "Some (Symlink next)"]])
      (use E [unfolded plain_temporaries_def, rule_format, of 2] that c0 in \<open>auto simp: ignores_def between_def with_current_def\<close>)
  have gone: "settles ?P (jbind (unlink_node F ''current'') (\<lambda>_. sync_root F)) (\<lambda>_. ?Q) (between next c0 p0)" if "active = Some next" "current = None"
  proof (rule settles_bind)
    show "settles ?P (unlink_node F ''current'') (\<lambda>_. ?Q) (between next c0 p0)"
      unfolding unlink_node_def by (rule settles_call) (use that c0 in \<open>auto simp: between_def with_current_def split: if_splits\<close>)
    show "settles ?Q (sync_root F) (\<lambda>_. ?Q) (between next c0 p0)" by (rule settles_weaken [OF settles_sync [of ?Q]]) auto
  qed
  have other: "settles ?P (if active \<noteq> current then jraise ''Current release pointer is neither old nor candidate'' else jreturn ()) (\<lambda>_. ?Q) (between next c0 p0)"
    by (cases "active = current") (auto simp: c0 intro: settles_raise settles_return)
  show "settles ?P (if active = Some next
     then (case current of Some c \<Rightarrow> atomicLink F (se_temporary E 2) ''current'' c
       | None \<Rightarrow> jbind (unlink_node F ''current'') (\<lambda>_. sync_root F))
     else if active \<noteq> current then jraise ''Current release pointer is neither old nor candidate''
     else jreturn ()) (\<lambda>_. ?Q) (between next c0 p0)"
  proof (cases "active = Some next")
    case True
    then show ?thesis using restored gone by (cases current) simp_all
  next
    case False
    then show ?thesis using other by simp
  qed
qed

text \<open>What the locked part leaves.\<close>

definition locked_end :: "string \<Rightarrow> link_node option \<Rightarrow> link_node option \<Rightarrow> bool \<times> (string + switched) \<Rightarrow> release_dir \<Rightarrow> bool" where
  "locked_end next c0 p0 x w \<longleftrightarrow> between next c0 p0 w \<and> (case x of
       (retainLock, Inr v) \<Rightarrow> \<not> retainLock \<and> switched_to next c0 p0 w \<and> sw_current v = next \<and> with_current (sw_previous v) = c0
     | (retainLock, Inl e) \<Rightarrow> retainLock \<or> rd_links w ''current'' = c0)"

lemma settles_locked:
  assumes E: "plain_temporaries E" and tgt: "tgt = ''releases/'' @ versionDir"
  shows "settles (\<lambda>w. rd_links w ''current'' = c0 \<and> rd_links w ''previous'' = p0 \<and> rd_lock w) (switch_locked E F versionDir)
    (locked_end tgt c0 p0) (between tgt c0 p0)"
  unfolding switch_locked_def
proof (rule settles_bind)
  let ?P = "\<lambda>w. rd_links w ''current'' = c0 \<and> rd_links w ''previous'' = p0 \<and> rd_lock w"
  let ?R = "between tgt c0 p0"
  show "settles ?P (settled_job (prepare_switch E F versionDir)) (\<lambda>x. case x of Inl e \<Rightarrow> ?P
      | Inr v \<Rightarrow> (\<lambda>(next, current) w. ?P w \<and> next = tgt \<and> rd_links w ''current'' = with_current current \<and> current \<noteq> Some next) v) ?R"
    unfolding settled_job_def by (rule settles_weaken [OF settles_attempt [OF settles_prepare [of ?P E F versionDir, folded tgt]]]) (auto simp: between_def)
  fix p
  show "settles ((case p of Inl e \<Rightarrow> ?P
      | Inr v \<Rightarrow> (\<lambda>(next, current) w. ?P w \<and> next = tgt \<and> rd_links w ''current'' = with_current current \<and> current \<noteq> Some next) v))
     (case p of Inl e \<Rightarrow> jreturn (False, Inl e)
       | Inr (next, current) \<Rightarrow> jbind (settled_job (activate E F next current)) (\<lambda>a. case a of
             Inr result \<Rightarrow> jreturn (False, Inr result)
           | Inl e \<Rightarrow> jbind (settled_job (roll_back E F next current)) (\<lambda>b. case b of
                 Inr u \<Rightarrow> jreturn (False, Inl e)
               | Inl rollbackError \<Rightarrow> jreturn (True, Inl ''Activation and pointer rollback failed'')))) (locked_end tgt c0 p0) ?R"
  proof (cases p)
    case (Inl e)
    have "settles ?P (jreturn (False, Inl e)) (locked_end tgt c0 p0) ?R" by (rule settles_return) (auto simp: locked_end_def between_def)
    then show ?thesis by (simp add: Inl)
  next
    case (Inr nc)
    obtain "next" current where nc: "nc = (next, current)" by fastforce
    show ?thesis
    proof (cases "next = tgt \<and> c0 = with_current current \<and> current \<noteq> Some next")
      case False
      then have "\<not> (?P w \<and> next = tgt \<and> rd_links w ''current'' = with_current current \<and> current \<noteq> Some next)" for w by auto
      then show ?thesis unfolding Inr nc sum.case prod.case by (rule settles_never)
    next
      case True
      then have c0: "c0 = with_current current" and n: "next = tgt" "current \<noteq> Some next" by auto
      have rb: "settles ?R (roll_back E F next current) (\<lambda>_ w. ?R w \<and> rd_links w ''current'' = c0) ?R"
        using settles_roll_back [OF E c0 n(2), of p0 F] unfolding n(1) .
      have b: "settles ?R (jbind (settled_job (roll_back E F next current)) (\<lambda>b. case b of
            Inr u \<Rightarrow> jreturn (False, Inl e)
          | Inl rollbackError \<Rightarrow> jreturn (True, Inl ''Activation and pointer rollback failed''))) (locked_end tgt c0 p0) ?R" for e
        unfolding settled_job_def
        by (rule settles_bind [OF settles_attempt [OF rb]])
          (auto simp: locked_end_def intro!: settles_return split: sum.split)
      have main: "settles ?P (jbind (settled_job (activate E F next current)) (\<lambda>a. case a of
             Inr result \<Rightarrow> jreturn (False, Inr result)
           | Inl e \<Rightarrow> jbind (settled_job (roll_back E F next current)) (\<lambda>b. case b of
                 Inr u \<Rightarrow> jreturn (False, Inl e)
               | Inl rollbackError \<Rightarrow> jreturn (True, Inl ''Activation and pointer rollback failed'')))) (locked_end tgt c0 p0) ?R"
      proof (rule settles_bind)
        show "settles ?P (settled_job (activate E F next current)) (\<lambda>x. case x of Inl e \<Rightarrow> ?R
            | Inr v \<Rightarrow> (\<lambda>w. switched_to tgt c0 p0 w \<and> rd_lock w \<and> v = \<lparr>sw_current = tgt, sw_previous = current\<rparr>)) ?R"
          unfolding settled_job_def using settles_attempt [OF settles_activate [OF E c0, of p0 F "next"]] unfolding n(1) .
        fix a
        show "settles ((case a of Inl e \<Rightarrow> ?R | Inr v \<Rightarrow> (\<lambda>w. switched_to tgt c0 p0 w \<and> rd_lock w \<and> v = \<lparr>sw_current = tgt, sw_previous = current\<rparr>)))
          (case a of Inr result \<Rightarrow> jreturn (False, Inr result)
           | Inl e \<Rightarrow> jbind (settled_job (roll_back E F next current)) (\<lambda>b. case b of
                 Inr u \<Rightarrow> jreturn (False, Inl e)
               | Inl rollbackError \<Rightarrow> jreturn (True, Inl ''Activation and pointer rollback failed''))) (locked_end tgt c0 p0) ?R"
        proof (cases a)
          case (Inl e)
          then show ?thesis using b [of e] by simp
        next
          case (Inr v)
          have "settles (\<lambda>w. switched_to tgt c0 p0 w \<and> rd_lock w \<and> v = \<lparr>sw_current = tgt, sw_previous = current\<rparr>) (jreturn (False, Inr v))
             (locked_end tgt c0 p0) ?R"
            by (rule settles_return) (auto simp: locked_end_def between_def switched_to_def c0)
          then show ?thesis by (simp add: Inr)
        qed
      qed
      then show ?thesis unfolding Inr nc sum.case prod.case by (rule settles_weaken) auto
    qed
  qed
qed

section \<open>The whole switch\<close>

text \<open>How a switch that found the lock free leaves the root, with its answer or without one.\<close>

definition switch_end :: "string \<Rightarrow> link_node option \<Rightarrow> link_node option \<Rightarrow> release_dir \<Rightarrow> bool" where
  "switch_end next c0 p0 w \<longleftrightarrow> rd_links w ''current'' \<in> {c0, Some (Symlink next)} \<and> rd_links w ''previous'' \<in> {p0, c0} \<and>
     (rd_lock w \<or> rd_links w ''current'' = c0 \<or> switched_to next c0 p0 w)"

lemma between_end: "between next c0 p0 w \<Longrightarrow> switch_end next c0 p0 w"
  by (auto simp: between_def switch_end_def)

lemma settles_release:
  assumes "\<And>w. P w \<Longrightarrow> R w \<and> Q (w\<lparr>rd_lock := False\<rparr>)" "\<And>w. Q w \<Longrightarrow> R w"
  shows "settles P (release_lock F) (\<lambda>_. Q) R"
  unfolding release_lock_def
  by (rule settles_bind [OF settles_do settles_weaken [OF settles_sync [of Q]]]) (use assms in auto)

lemma settles_switch:
  assumes E: "plain_temporaries E" and tgt: "tgt = ''releases/'' @ versionDir"
  shows "settles (\<lambda>w. rd_links w ''current'' = c0 \<and> rd_links w ''previous'' = p0 \<and> \<not> rd_lock w) (switchVersion E F versionDir)
    (\<lambda>v w. switched_to tgt c0 p0 w \<and> \<not> rd_lock w \<and> sw_current v = tgt \<and> with_current (sw_previous v) = c0) (switch_end tgt c0 p0)"
  unfolding switchVersion_def
proof (rule settles_bind)
  show "settles (\<lambda>w. rd_links w ''current'' = c0 \<and> rd_links w ''previous'' = p0 \<and> \<not> rd_lock w) (take_lock F)
     (\<lambda>_ w. rd_links w ''current'' = c0 \<and> rd_links w ''previous'' = p0 \<and> rd_lock w) (switch_end tgt c0 p0)"
    unfolding take_lock_def by (rule settles_call) (auto simp: switch_end_def split: if_splits)
next
  have locked: "settles (\<lambda>w. rd_links w ''current'' = c0 \<and> rd_links w ''previous'' = p0 \<and> rd_lock w) (switch_locked E F versionDir)
      (locked_end tgt c0 p0) (switch_end tgt c0 p0)"
    by (rule settles_weaken [OF settles_locked [OF E tgt]]) (auto intro: between_end)
  let ?Q = "\<lambda>v w. switched_to tgt c0 p0 w \<and> \<not> rd_lock w \<and> sw_current v = tgt \<and> with_current (sw_previous v) = c0"
  show "settles (\<lambda>w. rd_links w ''current'' = c0 \<and> rd_links w ''previous'' = p0 \<and> rd_lock w)
     (jbind (switch_locked E F versionDir) (\<lambda>(retainLock, result). jbind (if retainLock then jreturn () else release_lock F) (\<lambda>_. lift_sum result)))
     ?Q (switch_end tgt c0 p0)"
  proof (rule settles_bind [OF locked])
    fix x :: "bool \<times> (string + switched)"
    obtain retainLock result where x: "x = (retainLock, result)" by fastforce
    let ?L = "locked_end tgt c0 p0 x"
    show "settles ?L (case x of (retainLock, result) \<Rightarrow> jbind (if retainLock then jreturn () else release_lock F) (\<lambda>_. lift_sum result)) ?Q (switch_end tgt c0 p0)"
    proof (cases result)
      case (Inl e)
      have "settles ?L (if retainLock then jreturn () else release_lock F) (\<lambda>_. switch_end tgt c0 p0) (switch_end tgt c0 p0)"
      proof (cases retainLock)
        case True
        have "settles ?L (jreturn ()) (\<lambda>_. switch_end tgt c0 p0) (switch_end tgt c0 p0)"
          by (rule settles_return) (auto simp: locked_end_def intro: between_end)
        then show ?thesis by (simp add: True)
      next
        case False
        have "settles ?L (release_lock F) (\<lambda>_. switch_end tgt c0 p0) (switch_end tgt c0 p0)"
          by (rule settles_release) (use False in \<open>auto simp: locked_end_def x Inl between_def switch_end_def\<close>)
        then show ?thesis by (simp add: False)
      qed
      then show ?thesis unfolding x prod.case Inl lift_sum_def sum.case by (rule settles_bind) (auto intro: settles_raise)
    next
      case (Inr v)
      let ?D = "\<lambda>w. switched_to tgt c0 p0 w \<and> \<not> rd_lock w \<and> sw_current v = tgt \<and> with_current (sw_previous v) = c0"
      have "settles ?L (if retainLock then jreturn () else release_lock F) (\<lambda>_. ?D) (switch_end tgt c0 p0)"
      proof (cases retainLock)
        case False
        have "settles ?L (release_lock F) (\<lambda>_. ?D) (switch_end tgt c0 p0)"
          by (rule settles_release) (use False in \<open>auto simp: locked_end_def x Inr between_def switch_end_def switched_to_def\<close>)
        then show ?thesis by (simp add: False)
      next
        case True
        then show ?thesis by (intro settles_never) (simp add: locked_end_def x Inr)
      qed
      then show ?thesis unfolding x prod.case Inr lift_sum_def sum.case by (rule settles_bind) (auto intro: settles_return)
    qed
  qed
qed

lemma held_lock_switches_nothing:
  assumes "rd_lock w"
  shows "fst (jrun (switchVersion E F versionDir) w) = w \<and> (\<forall>v. snd (jrun (switchVersion E F versionDir) w) \<noteq> Done v)"
  using assms by (cases "F 0") (simp_all add: jrun_def switchVersion_def take_lock_def jbind_def jcall_def Let_def)

text \<open>With no call struck, a switch that passes the checks depends on the health of the candidate alone.\<close>

lemma calm_jcall:
  "calm F \<Longrightarrow> jcall F f s = (case f (rn_world s) of Inl e \<Rightarrow> (s\<lparr>rn_calls := rn_calls s + 1\<rparr>, Raised e)
     | Inr (w, v) \<Rightarrow> (s\<lparr>rn_world := w, rn_calls := rn_calls s + 1\<rparr>, Done v))"
  by (simp add: jcall_def calm_def Let_def split: sum.split prod.split)

definition admits :: "switch_env \<Rightarrow> string \<Rightarrow> string \<Rightarrow> string option \<Rightarrow> release_dir \<Rightarrow> bool" where
  "admits E versionDir tgt current w \<longleftrightarrow> \<not> rd_lock w \<and> releaseDirectory (se_release E) versionDir = Inr tgt \<and>
     link_target E (rd_links w ''current'') = Inr current \<and> (\<exists>p. link_target E (rd_links w ''previous'') = Inr p) \<and> current \<noteq> Some tgt \<and>
     (\<exists>new. compatibility_record E tgt = Inr new \<and>
        (\<forall>c. current = Some c \<longrightarrow> (\<exists>old. compatibility_record E c = Inr old \<and> assertSameStateSchemas new old = Inr ()))) \<and>
     (\<forall>k. rd_links w (se_temporary E k) = None)"

lemma link_target_node: "link_target E v = Inr c \<Longrightarrow> v = with_current c"
  by (auto simp: link_target_def with_current_def split: option.splits link_node.splits if_splits sum.splits)

lemma calm_atomicLink:
  assumes "calm F" "rd_links (rn_world s) tmp = None" "tmp \<noteq> n"
  shows "atomicLink F tmp n target s = (s\<lparr>rn_world := set_link n (Some (Symlink target)) (rn_world s), rn_calls := rn_calls s + 5\<rparr>, Done ())"
proof -
  have "(rd_links (rn_world s))(tmp := None) = rd_links (rn_world s)" using assms(2) by auto
  then show ?thesis using assms
    by (simp add: atomicLink_def jfinally_def sync_root_def rename_link_def unlink_node_def jdo_def jbind_def jcatch_def jreturn_def calm_jcall set_link_def
        fun_upd_twist [of tmp n])
qed

lemma calm_prepare:
  assumes F: "calm F" and w: "releaseDirectory (se_release E) versionDir = Inr tgt"
    "link_target E (rd_links (rn_world s) ''current'') = Inr current" "link_target E (rd_links (rn_world s) ''previous'') = Inr p" "current \<noteq> Some tgt"
    and new: "compatibility_record E tgt = Inr new" "\<forall>c. current = Some c \<longrightarrow> (\<exists>old. compatibility_record E c = Inr old \<and> assertSameStateSchemas new old = Inr ())"
  shows "\<exists>k. prepare_switch E F versionDir s = (s\<lparr>rn_calls := k\<rparr>, Done (tgt, current))"
proof (cases current)
  case None
  then show ?thesis using F w new(1)
    by (simp add: prepare_switch_def sync_root_def managedLink_def compatibility_of_def jdo_def jlook_def jbind_def jreturn_def calm_jcall) (metis run.surjective)
next
  case (Some c)
  then obtain old where "compatibility_record E c = Inr old" "assertSameStateSchemas new old = Inr ()" using new(2) by auto
  then show ?thesis using F w new(1) Some
    by (simp add: prepare_switch_def sync_root_def managedLink_def compatibility_of_def lift_sum_def jdo_def jlook_def jbind_def jreturn_def calm_jcall)
      (metis run.surjective)
qed

lemma released_target:
  assumes "releaseDirectory (se_release E) versionDir = Inr tgt"
  shows "link_target E (Some (Symlink tgt)) = Inr (Some tgt)"
  using assms release_name [OF assms] by (simp add: link_target_def after_prefix_def)

definition pointed :: "string \<Rightarrow> string option \<Rightarrow> release_dir \<Rightarrow> release_dir" where
  "pointed next current w = (case current of None \<Rightarrow> set_link ''current'' (Some (Symlink next)) w
     | Some c \<Rightarrow> set_link ''previous'' (Some (Symlink c)) (set_link ''current'' (Some (Symlink next)) w))"

lemma calm_activate:
  assumes F: "calm F" and E: "plain_temporaries E" "\<forall>k. rd_links (rn_world s) (se_temporary E k) = None"
  shows "\<exists>k. activate E F next current s = (if se_healthy E
    then (s\<lparr>rn_world := pointed next current (rn_world s), rn_calls := k\<rparr>, Done \<lparr>sw_current = next, sw_previous = current\<rparr>)
    else (s\<lparr>rn_world := set_link ''current'' (Some (Symlink next)) (rn_world s), rn_calls := k\<rparr>, Raised ''unhealthy''))"
  using assms(2) E(2) F
  by (auto simp: activate_def jbind_def jreturn_def jlook_def calm_jcall calm_atomicLink plain_temporaries_def pointed_def split: option.split)

lemma calm_roll_back:
  assumes F: "calm F" and E: "plain_temporaries E" "\<forall>k. rd_links w (se_temporary E k) = None"
    and w: "rn_world s = set_link ''current'' (Some (Symlink next)) w" "rd_links w ''current'' = with_current current"
      "link_target E (Some (Symlink next)) = Inr (Some next)"
  shows "\<exists>k. roll_back E F next current s = (s\<lparr>rn_world := w, rn_calls := k\<rparr>, Done ())"
proof -
  have same: "set_link ''current'' (with_current current) (set_link ''current'' v w) = w" for v
    using w(2) by (simp add: set_link_def fun_upd_idem)
  have 1: "managedLink E F ''current'' s = (s\<lparr>rn_calls := rn_calls s + 1\<rparr>, Done (Some next))"
    using F by (simp add: managedLink_def jlook_def calm_jcall w)
  show ?thesis
  proof (cases current)
    case None
    then show ?thesis using F same [of "Some (Symlink next)"]
      by (simp add: roll_back_def jbind_def 1 unlink_node_def sync_root_def jdo_def calm_jcall w(1) with_current_def) blast
  next
    case (Some c)
    have "rd_links (rn_world s) (se_temporary E 2) = None" "se_temporary E 2 \<noteq> ''current''"
      using E by (simp_all add: w(1) plain_temporaries_def)
    then show ?thesis using F same [of "Some (Symlink next)"] Some
      by (simp add: roll_back_def jbind_def 1 calm_atomicLink w(1) with_current_def) blast
  qed
qed

lemma health_decides:
  assumes F: "calm F" and E: "plain_temporaries E" and a: "admits E versionDir tgt current w"
  shows "jrun (switchVersion E F versionDir) w = (if se_healthy E
    then (pointed tgt current w, Done \<lparr>sw_current = tgt, sw_previous = current\<rparr>) else (w, Raised ''unhealthy''))"
proof -
  obtain p new where p: "link_target E (rd_links w ''previous'') = Inr p"
    and new: "compatibility_record E tgt = Inr new" "\<forall>c. current = Some c \<longrightarrow> (\<exists>old. compatibility_record E c = Inr old \<and> assertSameStateSchemas new old = Inr ())"
    and w: "\<not> rd_lock w" "releaseDirectory (se_release E) versionDir = Inr tgt" "link_target E (rd_links w ''current'') = Inr current" "current \<noteq> Some tgt"
      "\<forall>k. rd_links w (se_temporary E k) = None" using a by (auto simp: admits_def)
  let ?w = "w\<lparr>rd_lock := True\<rparr>" let ?s = "\<lparr>rn_world = ?w, rn_calls = Suc 0\<rparr>"
  obtain k1 where prep: "prepare_switch E F versionDir ?s = (\<lparr>rn_world = ?w, rn_calls = k1\<rparr>, Done (tgt, current))"
    using calm_prepare [OF F w(2) _ _ w(4) new, of ?s p] w(3) p by auto
  obtain k2 where act: "activate E F tgt current \<lparr>rn_world = ?w, rn_calls = k1\<rparr> = (if se_healthy E
      then (\<lparr>rn_world = pointed tgt current ?w, rn_calls = k2\<rparr>, Done \<lparr>sw_current = tgt, sw_previous = current\<rparr>)
      else (\<lparr>rn_world = set_link ''current'' (Some (Symlink tgt)) ?w, rn_calls = k2\<rparr>, Raised ''unhealthy''))"
    using calm_activate [OF F E, of "\<lparr>rn_world = ?w, rn_calls = k1\<rparr>" tgt current] w(5) by (auto split: if_splits)
  have unlocked: "(pointed tgt current ?w)\<lparr>rd_lock := False\<rparr> = pointed tgt current w" "w\<lparr>rd_lock := False\<rparr> = w"
    using w(1) by (simp_all add: pointed_def set_link_def split: option.split)
  obtain k3 where rb: "roll_back E F tgt current \<lparr>rn_world = set_link ''current'' (Some (Symlink tgt)) ?w, rn_calls = k2\<rparr> = (\<lparr>rn_world = ?w, rn_calls = k3\<rparr>, Done ())"
    using calm_roll_back [OF F E _ _ _ released_target [OF w(2)], of ?w "\<lparr>rn_world = set_link ''current'' (Some (Symlink tgt)) ?w, rn_calls = k2\<rparr>" current]
      w(5) link_target_node [OF w(3)] by auto
  show ?thesis using F w(1)
    by (simp add: jrun_def switchVersion_def switch_locked_def settled_job_def take_lock_def release_lock_def sync_root_def lift_sum_def
        jbind_def jcatch_def jreturn_def jraise_def jdo_def calm_jcall prep act rb unlocked)
qed

section \<open>The property\<close>

text \<open>
  C34. However the calls of a switch fail or break off, the active release is the old one or the candidate, and the
  previous one is what it was or the old active one. A switch that gives the lock back has changed nothing of the
  active release or is complete; one that answers is complete and has given the lock back; under another's lock
  nothing changes. With no call struck, a switch to a prepared release of the same state schemas is completed
  when the candidate is healthy, and otherwise leaves the root as it was and reports the candidate.
\<close>

theorem version_switch_or_back:
  assumes E: "plain_temporaries E" and tgt: "tgt = ''releases/'' @ versionDir"
    and run: "jrun (switchVersion E F versionDir) w = (w', r)"
  shows "(rd_lock w \<longrightarrow> w' = w \<and> (\<forall>v. r \<noteq> Done v)) \<and>
    (\<not> rd_lock w \<longrightarrow>
       rd_links w' ''current'' \<in> {rd_links w ''current'', Some (Symlink tgt)} \<and>
       rd_links w' ''previous'' \<in> {rd_links w ''previous'', rd_links w ''current''} \<and>
       (rd_lock w' \<or> rd_links w' ''current'' = rd_links w ''current'' \<or> switched_to tgt (rd_links w ''current'') (rd_links w ''previous'') w') \<and>
       (\<forall>v. r = Done v \<longrightarrow> switched_to tgt (rd_links w ''current'') (rd_links w ''previous'') w' \<and> \<not> rd_lock w' \<and>
          sw_current v = tgt \<and> with_current (sw_previous v) = rd_links w ''current'')) \<and>
    (calm F \<and> admits E versionDir tgt current w \<longrightarrow>
       (w', r) = (if se_healthy E then (pointed tgt current w, Done \<lparr>sw_current = tgt, sw_previous = current\<rparr>) else (w, Raised ''unhealthy'')))"
proof (intro conjI impI)
  assume "rd_lock w"
  then show "w' = w" "\<forall>v. r \<noteq> Done v" using held_lock_switches_nothing [of w E F versionDir] run by simp_all
next
  assume "\<not> rd_lock w"
  then have 1: "(\<forall>v. r = Done v \<longrightarrow> switched_to tgt (rd_links w ''current'') (rd_links w ''previous'') w' \<and> \<not> rd_lock w' \<and>
        sw_current v = tgt \<and> with_current (sw_previous v) = rd_links w ''current'') \<and>
      ((\<forall>v. r \<noteq> Done v) \<longrightarrow> switch_end tgt (rd_links w ''current'') (rd_links w ''previous'') w')"
    using settles_run [OF settles_switch [OF E tgt, of "rd_links w ''current''" "rd_links w ''previous''" F], of w] run by simp
  then have "switch_end tgt (rd_links w ''current'') (rd_links w ''previous'') w'"
    by (cases r) (auto simp: switch_end_def switched_to_def split: if_splits)
  then show "rd_links w' ''current'' \<in> {rd_links w ''current'', Some (Symlink tgt)}"
    "rd_links w' ''previous'' \<in> {rd_links w ''previous'', rd_links w ''current''}"
    "rd_lock w' \<or> rd_links w' ''current'' = rd_links w ''current'' \<or> switched_to tgt (rd_links w ''current'') (rd_links w ''previous'') w'"
    by (simp_all add: switch_end_def)
  show "\<forall>v. r = Done v \<longrightarrow> switched_to tgt (rd_links w ''current'') (rd_links w ''previous'') w' \<and> \<not> rd_lock w' \<and>
      sw_current v = tgt \<and> with_current (sw_previous v) = rd_links w ''current''" using 1 by blast
next
  assume "calm F \<and> admits E versionDir tgt current w"
  then show "(w', r) = (if se_healthy E then (pointed tgt current w, Done \<lparr>sw_current = tgt, sw_previous = current\<rparr>) else (w, Raised ''unhealthy''))"
    using health_decides [OF _ E, of F versionDir tgt current w] run by simp
qed

definition wit_schemas :: json where
  "wit_schemas = JObj [(''sessionHost'', JNum 3), (''agent'', JNum 1), (''oauth'', JNum 2)]"

definition wit_prepared :: "string \<Rightarrow> prepared" where
  "wit_prepared v = \<lparr>pp_real = True, pp_name = ''dp-beget-bridge'', pp_version = v,
     pp_record = Some (JObj [(''schemas'', wit_schemas), (''format'', JStr ''dp-beget-state-compatibility-v1'')])\<rparr>"

definition wit_old :: string where
  "wit_old = ''1.9.0-0123456789abcdef0123456789abcdef01234567''"

definition wit_older :: string where
  "wit_older = ''1.8.2-00112233445566778899aabbccddeeff00112233''"

definition wit_new :: string where
  "wit_new = ''2.0.0-rc.1-89abcdef0123456789abcdef0123456789abcdef''"

definition wit_switch :: "bool \<Rightarrow> switch_env" where
  "wit_switch healthy = \<lparr>se_release = (\<lambda>n. if n = wit_old then Some (wit_prepared ''1.9.0'') else if n = wit_older then Some (wit_prepared ''1.8.2'')
     else if n = wit_new then Some (wit_prepared ''2.0.0-rc.1'') else None),
     se_healthy = healthy, se_temporary = (\<lambda>k. ''.next'')\<rparr>"

definition wit_root :: release_dir where
  "wit_root = \<lparr>rd_links = (\<lambda>n. if n = ''current'' then Some (Symlink (''releases/'' @ wit_old))
     else if n = ''previous'' then Some (Symlink (''releases/'' @ wit_older)) else None), rd_lock = False\<rparr>"

lemma wit_admits: "admits (wit_switch healthy) wit_new (''releases/'' @ wit_new) (Some (''releases/'' @ wit_old)) wit_root"
proof -
  have 1: "releaseDirectory (se_release (wit_switch healthy)) wit_new = Inr (''releases/'' @ wit_new)" by code_simp
  have 2: "link_target (wit_switch healthy) (rd_links wit_root ''current'') = Inr (Some (''releases/'' @ wit_old))" by code_simp
  have 3: "link_target (wit_switch healthy) (rd_links wit_root ''previous'') = Inr (Some (''releases/'' @ wit_older))" by code_simp
  have 4: "compatibility_record (wit_switch healthy) (''releases/'' @ wit_new) = Inr wit_schemas" by code_simp
  have 5: "compatibility_record (wit_switch healthy) (''releases/'' @ wit_old) = Inr wit_schemas" by code_simp
  have 6: "assertSameStateSchemas wit_schemas wit_schemas = Inr ()" by code_simp
  have 7: "''releases/'' @ wit_old \<noteq> ''releases/'' @ wit_new" by code_simp
  show ?thesis unfolding admits_def 1 2 3 4 using 5 6 7 by (simp add: wit_switch_def wit_root_def)
qed

text \<open>A switch from 1.9.0 (and 1.8.2 before) to 2.0.0-rc.1, healthy and not.\<close>

theorem version_switch_or_back_witness:
  "(case jrun (switchVersion (wit_switch True) no_faults wit_new) wit_root of (w', r) \<Rightarrow>
     r = Done \<lparr>sw_current = ''releases/'' @ wit_new, sw_previous = Some (''releases/'' @ wit_old)\<rparr> \<and> \<not> rd_lock w' \<and>
     rd_links w' ''current'' = Some (Symlink (''releases/'' @ wit_new)) \<and> rd_links w' ''previous'' = Some (Symlink (''releases/'' @ wit_old))) \<and>
   jrun (switchVersion (wit_switch False) no_faults wit_new) wit_root = (wit_root, Raised ''unhealthy'')"
proof -
  have E: "plain_temporaries (wit_switch healthy)" for healthy by (simp add: plain_temporaries_def wit_switch_def)
  have health: "se_healthy (wit_switch healthy) = healthy" for healthy by (simp add: wit_switch_def)
  have ends: "jrun (switchVersion (wit_switch healthy) no_faults wit_new) wit_root = (if healthy
      then (pointed (''releases/'' @ wit_new) (Some (''releases/'' @ wit_old)) wit_root, Done \<lparr>sw_current = ''releases/'' @ wit_new, sw_previous = Some (''releases/'' @ wit_old)\<rparr>)
      else (wit_root, Raised ''unhealthy''))" for healthy
  proof -
    obtain w' r where run: "jrun (switchVersion (wit_switch healthy) no_faults wit_new) wit_root = (w', r)" by fastforce
    show ?thesis
      unfolding run version_switch_or_back [OF E refl run, THEN conjunct2, THEN conjunct2, THEN mp, OF conjI, OF calm_no_faults wit_admits] health ..
  qed
  have "\<not> rd_lock wit_root" by (simp add: wit_root_def)
  then show ?thesis unfolding ends by (simp add: pointed_def)
qed

text \<open>
  Two ends that nothing takes back: the sync after the lock has gone fails, and a complete switch is reported as an
  error; the sync after the rename of \<open>previous\<close> fails, and the rollback leaves both links at the old release.
\<close>

lemma complete_switch_reported_failed:
  "case jrun (switchVersion (wit_switch True) (fail_at 19) wit_new) wit_root of (w', r) \<Rightarrow> r = Raised ''EIO'' \<and> \<not> rd_lock w' \<and>
     rd_links w' ''current'' = Some (Symlink (''releases/'' @ wit_new)) \<and> rd_links w' ''previous'' = Some (Symlink (''releases/'' @ wit_old))"
  by code_simp

lemma rollback_forgets_previous:
  "case jrun (switchVersion (wit_switch True) (fail_at 16) wit_new) wit_root of (w', r) \<Rightarrow> r = Raised ''EIO'' \<and> \<not> rd_lock w' \<and>
     rd_links w' ''current'' = Some (Symlink (''releases/'' @ wit_old)) \<and> rd_links w' ''previous'' = Some (Symlink (''releases/'' @ wit_old))"
  by code_simp

end
