(* ===== verification/Spec2Isabelle.thy ===== *)
theory Spec2Isabelle
  imports AuthStore_Access OAuth_Props OAuth_Tokens OAuth_Losses StateStore_Recovery Transcript_Capture Operations_Props
    Terminal_Props Terminal_Slots AgentServer_Props Files_Upload FileReads AttachmentFetch_Props Gateway_Props Replacement_History
    StateMigration AuthMigration CleanJournal_Props MigrationJournal SessionHost Telemetry_Props Artifact_Roundtrip
    VersionPointer_Props
begin

text \<open>
  A verification library for DP Beget Bridge, the bridge that lets an MCP client (ChatGPT, Codex)
  work in persistent terminals and on the files of a Linux server.

  \<^bold>\<open>The program.\<close> A request comes in at the gateway (\<^verbatim>\<open>apps/mcp\<close>): an HTTP server with the
  OAuth endpoints of the authorization server (\<^verbatim>\<open>packages/auth\<close>) and an MCP endpoint whose tools
  call the agent. The gateway signs a short-lived context (owner, grant, scopes, method, path,
  \<^verbatim>\<open>packages/auth/src/agent-context.js\<close>), which the agent (\<^verbatim>\<open>apps/agent\<close>) checks on every request.
  The agent serves files below configured roots itself and reaches terminals through the session
  host (\<^verbatim>\<open>apps/session-host\<close>), which holds the terminal manager: tmux sessions, an idempotency ledger
  of commands in SQLite, and transcripts that a capture process appends to. Usage counts go to a
  telemetry collector (\<^verbatim>\<open>apps/telemetry\<close>). The release scripts (\<^verbatim>\<open>scripts/release\<close>) install,
  migrate and recover an installation, with journals that survive a crash.

  \<^bold>\<open>Conventions.\<close>
  \<^item> A string is a list of 8-bit units, a buffer likewise; JSON numbers and JavaScript integers
    are \<^typ>\<open>int\<close> or \<^typ>\<open>nat\<close>, and addresses of the fetcher are words.
  \<^item> An exception is a value: \<^const>\<open>Inl\<close> of a code and a status (\<open>bridge_exc\<close>), of an auth error, or
    of a message in the release scripts. The wording of messages that no code reads is left out.
  \<^item> An operation is a function from a state to a state and a result; the state comes back on the
    error path too. Asynchronous code is cut into steps at its awaits, and runs are sequences of
    steps of several callers in any order.
  \<^item> Random values, the clock, HMAC, SHA-256, Ed25519, base64, gzip, the JSON text codec, DNS, TLS and
    the answers of other processes are arguments. Where a theorem needs a law of them (the codec
    reads back what it wrote) the law is a hypothesis of the theorem, and its witness has an instance.
  \<^item> Failures: in the file manager each system call may fail (\<open>schedule\<close> in FileSystem). In the
    release scripts and migrations a fault strikes any call with an error or the death of
    the process (\<open>faults\<close> in Jobs). Power failures that lose unsynced names are modelled in
    Replacement only; there a process that ends leaves unsynced names unsynced.
  \<^item> Where a theorem holds only under a hypothesis on the surroundings (nobody else changes the files, the log
    was folded, the transcript stands still), the text before it says so and a lemma shows what happens otherwise.

  \<^bold>\<open>Base.\<close> Prelude: tables, character classes, decimal numbers, hint collections. Identifiers, Json, Bridge:
  the identifier patterns, JSON values, \<^verbatim>\<open>packages/core/src\<close> (errors, bodies, admission gate). Days:
  the dates of \<^verbatim>\<open>Date\<close>. Jobs: programs of calls that may be struck, with three judgements on them
  (\<open>holds\<close>, \<open>settles\<close>, \<open>answers\<close>). Slots: the locale \<open>slot_gate\<close>, the contract of the admission
  counters, interpreted on terminals, file transfers and attachment downloads.

  \<^bold>\<open>Authorization.\<close>
  \<^item> AuthStore: the tables and every method of \<^verbatim>\<open>packages/auth/src/auth-store.js\<close>, a transaction
    returning the old tables when it throws. AuthStore_Inv: the invariant of the tables, kept by every
    method. AuthStore_Runs: any sequence of calls. AuthStore_Props, AuthStore_Access: rotation of refresh tokens,
    reuse, revocation, owner reset, the one-time bootstrap.
  \<^item> OAuth: \<^verbatim>\<open>packages/auth/src/oauth-spike.js\<close>. OAuth_Runs: server and store over time; the locale
    \<open>live_records\<close> says what the server needs of the store and is interpreted on grants and token
    families. OAuth_Props, OAuth_Codes, OAuth_Tokens, OAuth_Losses: who is let in, codes, tokens, and two
    ways in which a login is lost.
  \<^item> AgentContext: \<^verbatim>\<open>packages/auth/src/agent-context.js\<close>, a context is accepted exactly for what it was
    created for.

  \<^bold>\<open>Terminals.\<close>
  \<^item> StateStore: the sessions and operations of \<^verbatim>\<open>apps/agent/src/state-store.js\<close>, with the files beside
    the database. StateStore_Inv, StateStore_Props, StateStore_Recovery: invariant, runs, the ledger as the locale
    \<open>idempotent_ledger\<close> interpreted on the store, and what a restart makes of unfinished operations, up to the first
    completion record that cannot be read, which aborts the start.
  \<^item> Transcript, Transcript_Layout, Transcript_Capture: \<^verbatim>\<open>scripts/transcript-segments.mjs\<close> and
    \<^verbatim>\<open>scripts/transcript-capture.mjs\<close>; the segments refine one byte string.
  \<^item> Cursor, Terminal, Operations: \<^verbatim>\<open>apps/agent/src/tmux.js\<close>: cursors, admission of terminals, reads, and the
    managed command cut at its awaits (admit, prepare, start, paste) beside monitor, interrupt and close.
    Operations_Props: a command is typed at most once. Terminal_Props: quoting for any shell that follows the quoting
    rules of POSIX (\<open>posix_quoting\<close>; the shell itself is a parameter), paging of a transcript. Terminal_Slots: opens cut at every
    await beside the reservation that counts the terminals; the maximum holds unless an open finishes while a reservation waits,
    and twice the maximum always.
  \<^item> SessionHost: \<^verbatim>\<open>apps/agent/src/session-host-client.js\<close> and \<^verbatim>\<open>apps/session-host/src/server.js\<close>; the way to the
    manager and back changes nothing but one default.

  \<^bold>\<open>Agent and gateway.\<close>
  \<^item> AgentServer: \<^verbatim>\<open>apps/agent/src/server.js\<close> and \<^verbatim>\<open>session-owner-store.js\<close>. AgentServer_Props: mediation.
  \<^item> Wire, AgentClient: targets and queries between gateway and agent, \<^verbatim>\<open>apps/mcp/src/agent-client.js\<close>.
    AgentClient_Props: which targets survive the URL parser.
  \<^item> McpServer, OAuthRoutes, Gateway: \<^verbatim>\<open>apps/mcp/src\<close>: tools and scopes, download links, the OAuth endpoints,
    the handler. McpServer_Props, Gateway_Props: a tool reaches its route; mediation by the gateway.

  \<^bold>\<open>Files.\<close>
  \<^item> PathPolicy: the pure rules of \<^verbatim>\<open>packages/core/src/path-policy.js\<close>. PathPolicy_Props: where a mutation lands.
  \<^item> FileSystem: inodes, entries and failing calls relative to held directories. Files, FileReads:
    \<^verbatim>\<open>apps/agent/src/files.js\<close> and the opening of held directories. FileLogic, Files_Props, Files_Upload: a logic
    of file actions; moves of one caller lose nothing (a lemma shows the race with an upload), uploads are atomic.
  \<^item> AttachmentAddress, AttachmentFetch: \<^verbatim>\<open>packages/core/src/attachment-fetch.js\<close>, with the address rule in plain
    ranges, the one-connection-per-hop property, and how a body ends (complete, too large, by the timer, by the
    caller, disposed) in their \<open>_Props\<close> theories.

  \<^bold>\<open>Operation and release.\<close>
  \<^item> Telemetry: \<^verbatim>\<open>apps/telemetry/src\<close> and \<^verbatim>\<open>apps/agent/src/telemetry.js\<close>. Telemetry_Props: the files count what was
    answered with 204, and besides at most events without an answer.
  \<^item> Migration: the schema migration with backup and marker, generic in content and schema, as the locale
    \<open>versioned\<close>; StateMigration and AuthMigration interpret it on the two stores.
  \<^item> ReleasePaths, Replacement: \<^verbatim>\<open>live-state-replacement-ledger.mjs\<close>, resumable renames under crashes and power
    failures. Replacement_Props: one run. Replacement_History: histories of runs, in which no version is lost; when a later
    run completes, and the history that is refused for ever. CleanJournal, MigrationJournal: the journals of an installation and of a migration.
  \<^item> Artifact: \<^verbatim>\<open>verify-artifact.mjs\<close> and \<^verbatim>\<open>extract-verified-artifact.mjs\<close>, manifest, signature, the tar reader, the
    extraction. Artifact_Props, Artifact_Roundtrip: only the signed archive is unpacked, and the reader is the inverse of a writer.
  \<^item> VersionPointer: \<^verbatim>\<open>version-pointer.mjs\<close> and \<^verbatim>\<open>state-compatibility.mjs\<close>, the links \<^verbatim>\<open>current\<close> and \<^verbatim>\<open>previous\<close>, the lock
    and the rollback. VersionPointer_Props: a switch happens as a whole or is taken back, whatever call fails.
  \<^bold>\<open>Shape of the lemmas.\<close> Each component has an invariant that every operation keeps, a run
  (a list of steps or an inductive relation) over which the invariant is lifted once, and
  properties that are read off it. Round trips and equivalences are proved by induction on the
  text or the list. Counterexample lemmas state defects with concrete inputs.

  \<^bold>\<open>Bounds and fuel.\<close> \<open>climb\<close> and \<open>ancestor\<close> in FileSystem walk to the root with the number of
  inodes as fuel, which no chain of directories exceeds. \<open>follow\<close> in Terminal_Props reads pages with fuel; one more
  than the number of characters is proved to be enough. The capture loop, the tar reader and the redirect
  loop are total functions with a measure. Theorems over runs hold for every length.

  \<^bold>\<open>Not modelled.\<close> Start-up and configuration files (\<^verbatim>\<open>index.js\<close>, \<^verbatim>\<open>config.js\<close>: environment variables and
  wiring), log lines and their redaction, the MCP SDK with its schemas and titles, reply headers,
  the administration and diagnosis scripts, the integration smoke tests, the shell installers and
  systemd units, and the release scripts that are sequences of checks on one host
  (ownership and modes of files, unit texts, Caddy and Traefik routes, systemctl): their content is what the
  operating system answers, and the models of the journals take their verdicts as arguments.
  Floating-point rounding, Unicode beyond bytes, and the timing of timers are not modelled either.
\<close>

end
